(* ===== verification/Prelude.thy ===== *)
theory Prelude
  imports Main "HOL-Library.Word"
begin

text \<open>
  Shared vocabulary of the development: the fixed-width integer types of the C code, the
  translation of its table scans, the arithmetic facts that move a word comparison to
  natural numbers, and the interface of a bounded slot table that the ledgers, the
  reservation table, the region ledger and the CRT allocation registry all provide.

  Conventions used in every theory.
  \<^item> A \<open>uint8_t\<close>, \<open>uint16_t\<close>, \<open>uint32_t\<close> or \<open>uint64_t\<close> is a word of that width, so \<open>+\<close>, \<open>-\<close>
    and \<open>*\<close> wrap as in C, and \<open><\<close>, \<open>\<le>\<close>, \<open>div\<close>, \<open>mod\<close> are unsigned.
  \<^item> A flag field that the code only compares with zero is a \<open>bool\<close>.
  \<^item> A C array is a list whose length is the array's capacity; an operation that writes
    element \<open>i\<close> is a list update.
  \<^item> A pointer to a component's own state, or to an out-parameter, is always the address of
    an object in the callers of the repository. Such a state is passed and returned by
    value, an out-parameter becomes part of the result, and the test of that pointer
    against null is left out. A pointer that is data (an address handed to the program, a
    service that may be missing, a link between scheduler records) keeps its null case.
\<close>

unbundle bit_operations_syntax

type_synonym u8 = "8 word"
type_synonym u16 = "16 word"
type_synonym u32 = "32 word"
type_synonym u64 = "64 word"

abbreviation UINT64_MAX :: u64 where
  "UINT64_MAX \<equiv> - 1"

abbreviation UINT32_MAX :: u32 where
  "UINT32_MAX \<equiv> - 1"

named_theorems word_nat
  \<open>move comparisons and checked arithmetic on words to natural numbers\<close>

text \<open>
  A loop \<open>for (index = 0; index != capacity; ++index) if (P(array[index])) ...\<close> that stops at
  its first hit.
\<close>

primrec find_index :: "('a \<Rightarrow> bool) \<Rightarrow> 'a list \<Rightarrow> nat option" where
  "find_index P [] = None"
| "find_index P (x # xs) = (if P x then Some 0 else map_option Suc (find_index P xs))"

text \<open>The natural number a table accounts for: the sum of a weight over its live entries.\<close>

definition live_sum :: "('e \<Rightarrow> bool) \<Rightarrow> ('e \<Rightarrow> nat) \<Rightarrow> 'e list \<Rightarrow> nat" where
  "live_sum P w xs = sum_list (map (\<lambda>x. if P x then w x else 0) xs)"

text \<open>The addresses a range of bytes occupies.\<close>

definition bytes_from :: "u64 \<Rightarrow> u64 \<Rightarrow> nat set" where
  "bytes_from b n = {unat b ..< unat b + unat n}"

subsection \<open>Words and natural numbers\<close>

lemma unat_UINT64_MAX [simp]: "unat (UINT64_MAX - x) = 2 ^ 64 - 1 - unat x"
proof -
  have "x \<le> UINT64_MAX" by simp
  then have "unat (UINT64_MAX - x) = unat UINT64_MAX - unat x" by (rule unat_sub)
  then show ?thesis by (simp add: unsigned_minus_1_eq_mask mask_eq_exp_minus_1)
qed

lemma unat_lt_2p64 [simp]: "unat (x :: u64) < 18446744073709551616"
  using unsigned_less [of x] by simp

lemma unat_lt_2p32 [simp]: "unat (x :: u32) < 4294967296"
  using unsigned_less [of x] by simp

lemma unat_ucast_u32_u64 [simp]: "unat (ucast (x :: u32) :: u64) = unat x"
proof -
  have "unat x < 2 ^ 64" by (rule less_trans [OF unat_lt_2p32]) simp
  then show ?thesis by (simp add: unsigned_ucast_eq take_bit_eq_mod)
qed

lemma fits_iff [word_nat]:
  "(x :: u64) > UINT64_MAX - y \<longleftrightarrow> unat x + unat y \<ge> 2 ^ 64"
  by (simp add: word_less_nat_alt) (use unat_lt_2p64 [of y] in linarith)

lemma unat_add_fits [word_nat]:
  "unat (x :: u64) + unat y < 2 ^ 64 \<Longrightarrow> unat (x + y) = unat x + unat y"
  using unat_add_lem [of x y] by simp

lemma unat_add_fits32 [word_nat]:
  "unat (x :: u32) + unat y < 2 ^ 32 \<Longrightarrow> unat (x + y) = unat x + unat y"
  using unat_add_lem [of x y] by simp

lemma unat_sub_le [word_nat]: "(y :: 'a::len word) \<le> x \<Longrightarrow> unat (x - y) = unat x - unat y"
  by (rule unat_sub)

lemma unat_Suc32: "unat (x :: u32) < 2 ^ 32 - 1 \<Longrightarrow> unat (x + 1) = Suc (unat x)"
  by (simp add: unat_add_fits32)

lemma unat_pred: "(x :: 'a::len word) \<noteq> 0 \<Longrightarrow> unat (x - 1) = unat x - 1"
  by (rule unat_minus_one)

lemma unat_eq_iff: "(x :: 'a::len word) = y \<longleftrightarrow> unat x = unat y"
  by (rule word_unat_eq_iff)

lemma eq_of_nat_u32: "s < 2 ^ 32 \<Longrightarrow> (x :: u32) = of_nat s \<longleftrightarrow> unat x = s"
  by (auto simp: unat_of_nat)

lemma sum_is_u64: "s < 2 ^ 64 \<and> (x :: u64) = of_nat s \<longleftrightarrow> unat x = s"
  using unat_lt_2p64 [of x] by (auto simp: unat_of_nat)

lemma unat_of_nat_u64: "s < 2 ^ 64 \<Longrightarrow> unat (of_nat s :: u64) = s"
  by (simp add: unat_of_nat)

lemma unat_mod_u64: "unat ((x :: u64) mod y) = unat x mod unat y"
  by (simp add: unat_mod_distrib)

lemma unat_div_u64: "unat ((x :: u64) div y) = unat x div unat y"
  by (simp add: unat_div_distrib)

subsection \<open>Table scans\<close>

lemma find_index_None_iff: "find_index P xs = None \<longleftrightarrow> (\<forall>x \<in> set xs. \<not> P x)"
  by (induction xs) auto

lemma find_index_SomeD:
  "find_index P xs = Some i \<Longrightarrow>
     i < length xs \<and> P (xs ! i) \<and> (\<forall>j < i. \<not> P (xs ! j))"
proof (induction xs arbitrary: i)
  case Nil
  then show ?case by simp
next
  case (Cons x xs)
  show ?case
  proof (cases "P x")
    case True
    with Cons.prems show ?thesis by simp
  next
    case False
    with Cons.prems obtain k where k: "find_index P xs = Some k" "i = Suc k" by auto
    with Cons.IH [OF k(1)] False show ?thesis by (auto simp: less_Suc_eq_0_disj)
  qed
qed

lemma find_index_SomeI:
  "i < length xs \<Longrightarrow> P (xs ! i) \<Longrightarrow> (\<And>j. j < i \<Longrightarrow> \<not> P (xs ! j)) \<Longrightarrow>
     find_index P xs = Some i"
proof (induction xs arbitrary: i)
  case Nil
  then show ?case by simp
next
  case (Cons x xs)
  show ?case
  proof (cases i)
    case 0
    with Cons.prems show ?thesis by simp
  next
    case (Suc k)
    with Cons.prems(3) [of 0] have "\<not> P x" by simp
    moreover have "find_index P xs = Some k"
      using Cons.prems(1,2) Cons.prems(3) [of "Suc _"] Suc by (intro Cons.IH) simp_all
    ultimately show ?thesis using Suc by simp
  qed
qed

lemma find_index_ex: "x \<in> set xs \<Longrightarrow> P x \<Longrightarrow> \<exists>i. find_index P xs = Some i"
  using find_index_None_iff [of P xs] by (cases "find_index P xs") auto

text \<open>Where at most one entry can satisfy the test, the scan finds exactly that entry.\<close>

lemma find_index_unique:
  assumes "i < length xs" and "P (xs ! i)"
    and "\<And>j. j < length xs \<Longrightarrow> P (xs ! j) \<Longrightarrow> j = i"
  shows "find_index P xs = Some i"
proof (rule find_index_SomeI [where P = P, OF assms(1,2)])
  fix j assume "j < i"
  with assms(1) assms(3) [of j] show "\<not> P (xs ! j)" by auto
qed

lemma find_SomeD: "find P xs = Some x \<Longrightarrow> x \<in> set xs \<and> P x"
  by (induction xs) (auto split: if_splits)

lemma find_index_replicate [simp]:
  "find_index P (replicate n x) = (if 0 < n \<and> P x then Some 0 else None)"
  by (induction n) auto

lemma replicate_update_hd: "0 < n \<Longrightarrow> (replicate n x)[0 := y] = y # replicate (n - 1) x"
  by (cases n) simp_all

lemma nth_list_update_cases:
  "j < length xs \<Longrightarrow> (xs[i := x]) ! j = (if j = i then x else xs ! j)"
  by (simp add: nth_list_update)

lemma nth_list_update_if: "xs[i := x] ! j = (if i = j \<and> i < length xs then x else xs ! j)"
  by (cases "i < length xs") (auto simp: nth_list_update list_update_beyond)

subsection \<open>Accounted sums\<close>

lemma live_sum_Nil [simp]: "live_sum P w [] = 0"
  by (simp add: live_sum_def)

lemma live_sum_Cons [simp]:
  "live_sum P w (x # xs) = (if P x then w x else 0) + live_sum P w xs"
  by (simp add: live_sum_def)

lemma live_sum_append [simp]: "live_sum P w (xs @ ys) = live_sum P w xs + live_sum P w ys"
  by (simp add: live_sum_def)

lemma live_sum_replicate_dead [simp]: "\<not> P x \<Longrightarrow> live_sum P w (replicate n x) = 0"
  by (induction n) auto

lemma live_sum_update:
  "i < length xs \<Longrightarrow>
     live_sum P w (xs[i := x]) + (if P (xs ! i) then w (xs ! i) else 0) =
       live_sum P w xs + (if P x then w x else 0)"
proof (induction xs arbitrary: i)
  case Nil
  then show ?case by simp
next
  case (Cons y xs)
  show ?case
  proof (cases i)
    case 0
    then show ?thesis by simp
  next
    case (Suc k)
    with Cons.prems Cons.IH [of k] show ?thesis by (simp split: if_splits)
  qed
qed

lemma live_sum_insert:
  "i < length xs \<Longrightarrow> \<not> P (xs ! i) \<Longrightarrow> P x \<Longrightarrow>
     live_sum P w (xs[i := x]) = live_sum P w xs + w x"
  using live_sum_update [of i xs P w x] by simp

lemma live_sum_delete:
  "i < length xs \<Longrightarrow> P (xs ! i) \<Longrightarrow> \<not> P x \<Longrightarrow>
     live_sum P w (xs[i := x]) + w (xs ! i) = live_sum P w xs"
  using live_sum_update [of i xs P w x] by simp

lemma live_sum_ge: "i < length xs \<Longrightarrow> P (xs ! i) \<Longrightarrow> w (xs ! i) \<le> live_sum P w xs"
proof (induction xs arbitrary: i)
  case Nil
  then show ?case by simp
next
  case (Cons y xs)
  then show ?case by (cases i) (auto intro: trans_le_add2)
qed

lemma live_sum_cong:
  "length xs = length ys \<Longrightarrow>
     (\<And>i. i < length xs \<Longrightarrow> P (xs ! i) = P (ys ! i) \<and> (P (xs ! i) \<longrightarrow> w (xs ! i) = w (ys ! i))) \<Longrightarrow>
     live_sum P w xs = live_sum P w ys"
proof (induction xs ys rule: list_induct2)
  case Nil
  then show ?case by simp
next
  case (Cons x xs y ys)
  from Cons.prems [of 0] have "P x = P y \<and> (P x \<longrightarrow> w x = w y)" by simp
  moreover have "live_sum P w xs = live_sum P w ys"
    by (rule Cons.IH) (use Cons.prems [of "Suc _"] in simp)
  ultimately show ?case by simp
qed

lemma live_sum_bound: "(\<And>x. x \<in> set xs \<Longrightarrow> P x \<Longrightarrow> w x \<le> b) \<Longrightarrow> live_sum P w xs \<le> length xs * b"
  by (induction xs) (auto simp: add_mono trans_le_add2)

lemma live_sum_length: "live_sum P (\<lambda>_. 1) xs \<le> length xs"
  by (induction xs) auto

lemma live_sum_full: "live_sum P (\<lambda>_. 1) xs < length xs \<Longrightarrow> \<exists>x \<in> set xs. \<not> P x"
  by (induction xs) (auto split: if_splits)

lemma live_sum_all: "\<forall>x \<in> set xs. P x \<Longrightarrow> live_sum P (\<lambda>_. 1) xs = length xs"
  by (induction xs) auto

lemma live_count_lt: "x \<in> set xs \<Longrightarrow> \<not> P x \<Longrightarrow> live_sum P (\<lambda>_. 1) xs < length xs"
proof (induction xs)
  case Nil
  then show ?case by simp
next
  case (Cons y ys)
  then show ?case using live_sum_length [of P ys] by (auto split: if_splits)
qed

subsection \<open>Pairwise relations on a table\<close>

lemma sorted_wrt_nth_sym:
  assumes "symp R"
  shows "sorted_wrt R xs \<longleftrightarrow>
    (\<forall>i < length xs. \<forall>j < length xs. i \<noteq> j \<longrightarrow> R (xs ! i) (xs ! j))"
  using assms
  by (auto simp: sorted_wrt_iff_nth_less symp_def) (metis linorder_neqE_nat)

lemma sorted_wrt_update:
  assumes "symp R" and "sorted_wrt R xs"
    and "\<And>j. j < length xs \<Longrightarrow> j \<noteq> i \<Longrightarrow> R x (xs ! j)"
  shows "sorted_wrt R (xs[i := x])"
proof -
  have R: "R (xs ! k) (xs ! j)" if "k < length xs" "j < length xs" "k \<noteq> j" for k j
    using assms(1,2) that by (simp add: sorted_wrt_nth_sym)
  have S: "R (xs ! j) x" if "j < length xs" "j \<noteq> i" for j
    using assms(1) assms(3) [OF that] by (rule sympD)
  show ?thesis
    unfolding sorted_wrt_nth_sym [OF assms(1)]
    using R S assms(3) by (simp add: nth_list_update_cases)
qed

subsection \<open>Ranges of bytes\<close>

lemma bytes_from_empty_iff [simp]: "bytes_from b n = {} \<longleftrightarrow> n = 0"
  by (auto simp: bytes_from_def unat_eq_zero)

lemma bytes_from_disjoint:
  "n \<noteq> 0 \<Longrightarrow> m \<noteq> 0 \<Longrightarrow>
     bytes_from a n \<inter> bytes_from b m = {} \<longleftrightarrow>
       \<not> (unat a < unat b + unat m \<and> unat b < unat a + unat n)"
proof -
  assume "n \<noteq> 0" "m \<noteq> 0"
  then have "0 < unat n" "0 < unat m" by (simp_all add: unat_gt_0)
  then show ?thesis
    by (auto simp: bytes_from_def disjoint_iff)
qed

text \<open>Disjoint entries inside a finite set cannot account for more than the set holds.\<close>

lemma live_sum_card:
  assumes "sorted_wrt (\<lambda>x y. P x \<longrightarrow> P y \<longrightarrow> span x \<inter> span y = {}) xs"
    and "\<And>x. x \<in> set xs \<Longrightarrow> P x \<Longrightarrow> finite (span x) \<and> w x = card (span x)"
  shows "live_sum P w xs = card (\<Union>x \<in> {x \<in> set xs. P x}. span x)"
  using assms
proof (induction xs)
  case Nil
  then show ?case by simp
next
  case (Cons x xs)
  let ?U = "\<Union>y \<in> {y \<in> set xs. P y}. span y"
  have IH: "live_sum P w xs = card ?U" using Cons by simp
  show ?case
  proof (cases "P x")
    case True
    then have eq: "(\<Union>y \<in> {y \<in> set (x # xs). P y}. span y) = span x \<union> ?U" by auto
    have "finite ?U" using Cons.prems(2) by auto
    moreover have "span x \<inter> ?U = {}" using Cons.prems(1) True by auto
    ultimately show ?thesis
      using IH True Cons.prems(2) [of x] unfolding eq by (simp add: card_Un_disjoint)
  next
    case False
    then have "{y \<in> set (x # xs). P y} = {y \<in> set xs. P y}" by auto
    with IH False show ?thesis by simp
  qed
qed

lemma live_sum_le_card:
  assumes "sorted_wrt (\<lambda>x y. P x \<longrightarrow> P y \<longrightarrow> span x \<inter> span y = {}) xs"
    and "\<And>x. x \<in> set xs \<Longrightarrow> P x \<Longrightarrow> span x \<subseteq> S \<and> w x = card (span x)"
    and "finite S"
  shows "live_sum P w xs \<le> card S"
proof -
  have "live_sum P w xs = card (\<Union>x \<in> {x \<in> set xs. P x}. span x)"
    using assms by (intro live_sum_card) (auto intro: finite_subset)
  also have "\<dots> \<le> card S"
    using assms(2,3) by (intro card_mono) auto
  finally show ?thesis .
qed

lemma card_bytes_from [simp]: "card (bytes_from b n) = unat n"
  by (simp add: bytes_from_def)

lemma finite_bytes_from [simp]: "finite (bytes_from b n)"
  by (simp add: bytes_from_def)

lemma live_sum_zeroD: "live_sum P w xs = 0 \<Longrightarrow> x \<in> set xs \<Longrightarrow> P x \<Longrightarrow> w x = 0"
  by (induction xs) (auto split: if_splits)

lemma live_sum_none: "(\<And>x. x \<in> set xs \<Longrightarrow> \<not> P x) \<Longrightarrow> live_sum P w xs = 0"
  by (induction xs) auto

lemma live_sum_mono: "(\<And>x. x \<in> set xs \<Longrightarrow> P x \<Longrightarrow> Q x) \<Longrightarrow> live_sum P w xs \<le> live_sum Q w xs"
  by (induction xs) (auto intro: add_mono trans_le_add2)

subsection \<open>The slot-table interface\<close>

text \<open>
  What a client of a bounded table may rely on. \<open>ins t e i t'\<close> says that a successful
  insertion stored the live entry \<open>e\<close> in slot \<open>i\<close>, \<open>del t i t'\<close> that a successful removal
  emptied slot \<open>i\<close>. The provider promises that it writes one slot only, that it never
  overwrites a live entry, that a new entry's addresses are fresh, and that both
  operations keep its invariant.
\<close>

locale slot_table =
  fixes entries :: "'t \<Rightarrow> 'e list"
    and live :: "'e \<Rightarrow> bool"
    and span :: "'e \<Rightarrow> nat set"
    and inv :: "'t \<Rightarrow> bool"
    and ins :: "'t \<Rightarrow> 'e \<Rightarrow> nat \<Rightarrow> 't \<Rightarrow> bool"
    and del :: "'t \<Rightarrow> nat \<Rightarrow> 't \<Rightarrow> bool"
  assumes inv_disjoint: "inv t \<Longrightarrow> i < length (entries t) \<Longrightarrow> j < length (entries t) \<Longrightarrow>
      i \<noteq> j \<Longrightarrow> live (entries t ! i) \<Longrightarrow> live (entries t ! j) \<Longrightarrow>
      span (entries t ! i) \<inter> span (entries t ! j) = {}"
    and ins_slot: "inv t \<Longrightarrow> ins t e i t' \<Longrightarrow>
      i < length (entries t) \<and> \<not> live (entries t ! i) \<and> live e \<and>
      entries t' = (entries t)[i := e]"
    and ins_inv: "inv t \<Longrightarrow> ins t e i t' \<Longrightarrow> inv t'"
    and del_slot: "inv t \<Longrightarrow> del t i t' \<Longrightarrow>
      i < length (entries t) \<and> live (entries t ! i) \<and>
      (\<exists>z. \<not> live z \<and> entries t' = (entries t)[i := z])"
    and del_inv: "inv t \<Longrightarrow> del t i t' \<Longrightarrow> inv t'"
begin

text \<open>The abstract table: a finite partial map from slots to entries.\<close>

definition slots :: "'t \<Rightarrow> nat \<rightharpoonup> 'e" where
  "slots t = (\<lambda>i. if i < length (entries t) \<and> live (entries t ! i)
                  then Some (entries t ! i) else None)"

definition footprint :: "'t \<Rightarrow> nat set" where
  "footprint t = (\<Union>e \<in> ran (slots t). span e)"

lemma slots_ins: "inv t \<Longrightarrow> ins t e i t' \<Longrightarrow> slots t' = (slots t)(i \<mapsto> e) \<and> slots t i = None"
  by (drule (1) ins_slot) (auto simp: slots_def fun_eq_iff nth_list_update_cases)

lemma slots_del: "inv t \<Longrightarrow> del t i t' \<Longrightarrow> slots t' = (slots t)(i := None) \<and> slots t i \<noteq> None"
  by (drule (1) del_slot) (auto simp: slots_def fun_eq_iff nth_list_update_cases split: if_splits)

lemma slots_disjoint:
  "inv t \<Longrightarrow> slots t i = Some a \<Longrightarrow> slots t j = Some b \<Longrightarrow> i \<noteq> j \<Longrightarrow> span a \<inter> span b = {}"
  by (auto simp: slots_def split: if_splits dest: inv_disjoint)

text \<open>An address has at most one live owner.\<close>

lemma owner_unique:
  "inv t \<Longrightarrow> slots t i = Some a \<Longrightarrow> slots t j = Some b \<Longrightarrow> x \<in> span a \<Longrightarrow> x \<in> span b \<Longrightarrow> i = j"
  using slots_disjoint by blast

text \<open>A new entry's addresses were owned by nobody, and are owned after the insertion.\<close>

lemma ins_fresh: "inv t \<Longrightarrow> ins t e i t' \<Longrightarrow> span e \<inter> footprint t = {}"
proof -
  assume t: "inv t" "ins t e i t'"
  then have t': "inv t'" by (rule ins_inv)
  have s: "slots t' = (slots t)(i \<mapsto> e)" "slots t i = None"
    using slots_ins [OF t] by auto
  show ?thesis
  proof (rule ccontr)
    assume "span e \<inter> footprint t \<noteq> {}"
    then obtain x a j where x: "x \<in> span e" "x \<in> span a" "slots t j = Some a"
      by (auto simp: footprint_def ran_def)
    with s(2) have "j \<noteq> i" by auto
    with x s(1) have "slots t' j = Some a" "slots t' i = Some e" by auto
    with x(1,2) \<open>j \<noteq> i\<close> owner_unique [OF t'] show False by blast
  qed
qed

lemma footprint_ins: "inv t \<Longrightarrow> ins t e i t' \<Longrightarrow> footprint t' = footprint t \<union> span e"
  by (drule (1) slots_ins) (auto simp: footprint_def)

lemma footprint_del:
  "inv t \<Longrightarrow> del t i t' \<Longrightarrow> slots t i = Some e \<Longrightarrow> footprint t' = footprint t - span e"
proof -
  assume t: "inv t" "del t i t'" and e: "slots t i = Some e"
  have s: "slots t' = (slots t)(i := None)" using slots_del [OF t] by simp
  show ?thesis
  proof (intro equalityI subsetI)
    fix x assume "x \<in> footprint t'"
    then obtain j a where "slots t j = Some a" "j \<noteq> i" "x \<in> span a"
      by (auto simp: footprint_def ran_def s split: if_splits)
    with e slots_disjoint [OF t(1)] show "x \<in> footprint t - span e"
      by (fastforce simp: footprint_def ran_def)
  next
    fix x assume "x \<in> footprint t - span e"
    then obtain j a where "slots t j = Some a" "x \<in> span a" "x \<notin> span e"
      by (auto simp: footprint_def ran_def)
    moreover from this e have "j \<noteq> i" by auto
    ultimately have "slots t' j = Some a" "x \<in> span a" using s by auto
    then show "x \<in> footprint t'" by (auto simp: footprint_def ran_def)
  qed
qed

text \<open>Removing what was just inserted restores the abstract table.\<close>

lemma ins_del: "inv t \<Longrightarrow> ins t e i t' \<Longrightarrow> del t' i t'' \<Longrightarrow> slots t'' = slots t"
  using slots_ins [of t e i t'] slots_del [of t' i t''] ins_inv [of t e i t']
  by (auto simp: fun_eq_iff)

end

end
