(* ===== verification/Checked_Arith.thy ===== *)
theory Checked_Arith
  imports Prelude
begin

text \<open>
  The overflow-checked helpers at the top of \<open>src/src/Gate4Harness/memory_accounting.c\<close>
  (\<open>vm_substrate.c\<close> repeats \<open>add_u64\<close> and \<open>range_end\<close> word for word). A helper that reports
  success through its return value and its result through a pointer returns an option.
  The lemmas read every helper as a statement about natural numbers or sets of addresses.
\<close>

abbreviation (input) GXOS_VM_PAGE_SIZE :: u64 where
  "GXOS_VM_PAGE_SIZE \<equiv> 0x1000"

abbreviation (input) GXOS_MEMORY_PAGE_SIZE :: u64 where
  "GXOS_MEMORY_PAGE_SIZE \<equiv> 4096"

abbreviation (input) GXOS_VM_RESERVATION_GRANULARITY :: u64 where
  "GXOS_VM_RESERVATION_GRANULARITY \<equiv> 0x10000"

definition add_u64 :: "u64 \<Rightarrow> u64 \<Rightarrow> u64 option" where
  "add_u64 left right = (if left > UINT64_MAX - right then None else Some (left + right))"

definition multiply_u64 :: "u64 \<Rightarrow> u64 \<Rightarrow> u64 option" where
  "multiply_u64 left right =
     (if left \<noteq> 0 \<and> right > UINT64_MAX div left then None else Some (left * right))"

definition range_end :: "u64 \<Rightarrow> u64 \<Rightarrow> u64 option" where
  "range_end base bytes =
     (if bytes = 0 \<or> base > UINT64_MAX - bytes then None else Some (base + bytes))"

definition ranges_overlap :: "u64 \<Rightarrow> u64 \<Rightarrow> u64 \<Rightarrow> u64 \<Rightarrow> bool" where
  "ranges_overlap left_base left_bytes right_base right_bytes =
     (case (range_end left_base left_bytes, range_end right_base right_bytes) of
        (Some left_end, Some right_end) \<Rightarrow> left_base < right_end \<and> right_base < left_end
      | _ \<Rightarrow> True)"

definition range_contains :: "u64 \<Rightarrow> u64 \<Rightarrow> u64 \<Rightarrow> u64 \<Rightarrow> bool" where
  "range_contains outer_base outer_bytes inner_base inner_bytes =
     (case (range_end outer_base outer_bytes, range_end inner_base inner_bytes) of
        (Some outer_end, Some inner_end) \<Rightarrow> inner_base \<ge> outer_base \<and> inner_end \<le> outer_end
      | _ \<Rightarrow> False)"

definition align_up_u64 :: "u64 \<Rightarrow> u64 \<Rightarrow> u64 option" where
  "align_up_u64 value' alignment =
     (if alignment = 0 then None
      else let remainder = value' mod alignment;
               increment = (if remainder = 0 then 0 else alignment - remainder)
           in add_u64 value' increment)"

definition page_round_bytes :: "u64 \<Rightarrow> u64" where
  "page_round_bytes bytes =
     (if bytes = 0 \<or> bytes > UINT64_MAX - (GXOS_VM_PAGE_SIZE - 1) then 0
      else let rounded = bytes + GXOS_VM_PAGE_SIZE - 1
           in rounded AND NOT (GXOS_VM_PAGE_SIZE - 1))"

subsection \<open>Sums, products and ranges\<close>

lemma add_u64_Some_iff [word_nat]:
  "add_u64 a b = Some c \<longleftrightarrow> unat a + unat b < 2 ^ 64 \<and> c = a + b"
  by (auto simp: add_u64_def fits_iff)

lemma add_u64_None_iff [word_nat]: "add_u64 a b = None \<longleftrightarrow> unat a + unat b \<ge> 2 ^ 64"
  by (simp add: add_u64_def fits_iff)

lemma add_u64_unat: "add_u64 a b = Some c \<Longrightarrow> unat c = unat a + unat b"
  by (auto simp: add_u64_Some_iff unat_add_fits)

lemma multiply_fits_iff:
  "(a :: u64) \<noteq> 0 \<and> b > UINT64_MAX div a \<longleftrightarrow> unat a * unat b \<ge> 2 ^ 64"
proof (cases "a = 0")
  case True
  then show ?thesis by simp
next
  case False
  then have pos: "0 < unat a" by (simp add: unat_gt_0)
  have "b > UINT64_MAX div a \<longleftrightarrow> (2 ^ 64 - 1) div unat a < unat b"
    using unat_UINT64_MAX [of 0] by (simp add: word_less_nat_alt unat_div_u64)
  also have "\<dots> \<longleftrightarrow> 2 ^ 64 - 1 < unat b * unat a"
    using pos by (rule div_less_iff_less_mult)
  also have "\<dots> \<longleftrightarrow> unat a * unat b \<ge> 2 ^ 64"
    by (simp add: mult.commute) linarith
  finally show ?thesis using False by simp
qed

lemma multiply_u64_Some_iff [word_nat]:
  "multiply_u64 a b = Some c \<longleftrightarrow> unat a * unat b < 2 ^ 64 \<and> c = a * b"
  by (auto simp: multiply_u64_def multiply_fits_iff)

lemma multiply_u64_None_iff [word_nat]:
  "multiply_u64 a b = None \<longleftrightarrow> unat a * unat b \<ge> 2 ^ 64"
  by (simp add: multiply_u64_def multiply_fits_iff)

lemma multiply_u64_unat: "multiply_u64 a b = Some c \<Longrightarrow> unat c = unat a * unat b"
  using unat_mult_lem [of a b] by (simp add: multiply_u64_Some_iff)

lemma range_end_Some_iff [word_nat]:
  "range_end b n = Some e \<longleftrightarrow> n \<noteq> 0 \<and> unat b + unat n < 2 ^ 64 \<and> e = b + n"
  by (auto simp: range_end_def fits_iff)

lemma range_end_None_iff [word_nat]:
  "range_end b n = None \<longleftrightarrow> n = 0 \<or> unat b + unat n \<ge> 2 ^ 64"
  by (simp add: range_end_def fits_iff)

lemma range_end_unat: "range_end b n = Some e \<Longrightarrow> unat e = unat b + unat n"
  by (auto simp: range_end_Some_iff unat_add_fits)

text \<open>A range is well formed when it is not empty and its end is representable.\<close>

definition range_ok :: "u64 \<Rightarrow> u64 \<Rightarrow> bool" where
  "range_ok b n \<longleftrightarrow> n \<noteq> 0 \<and> unat b + unat n < 2 ^ 64"

lemma range_end_range_ok: "range_end b n = (if range_ok b n then Some (b + n) else None)"
  by (auto simp: range_ok_def range_end_def fits_iff)

lemma range_ok_unat: "range_ok b n \<Longrightarrow> unat (b + n) = unat b + unat n"
  by (simp add: range_ok_def unat_add_fits)

lemma ranges_overlap_iff:
  "range_ok a n \<Longrightarrow> range_ok b m \<Longrightarrow>
     ranges_overlap a n b m \<longleftrightarrow> bytes_from a n \<inter> bytes_from b m \<noteq> {}"
proof -
  assume ok: "range_ok a n" "range_ok b m"
  then have "n \<noteq> 0" "m \<noteq> 0" by (auto simp: range_ok_def)
  then show ?thesis
    using ok by (simp add: ranges_overlap_def range_end_range_ok word_less_nat_alt
        range_ok_unat bytes_from_disjoint)
qed

lemma ranges_overlap_sym: "ranges_overlap a n b m = ranges_overlap b m a n"
  by (auto simp: ranges_overlap_def split: option.splits)

lemma not_ranges_overlapD:
  "\<not> ranges_overlap a n b m \<Longrightarrow>
     range_ok a n \<and> range_ok b m \<and> bytes_from a n \<inter> bytes_from b m = {}"
proof -
  assume no: "\<not> ranges_overlap a n b m"
  then have "range_ok a n" "range_ok b m"
    by (auto simp: ranges_overlap_def range_end_range_ok split: if_splits)
  with no ranges_overlap_iff show ?thesis by blast
qed

lemma range_contains_iff:
  "range_contains a n b m \<longleftrightarrow>
     range_ok a n \<and> range_ok b m \<and> unat a \<le> unat b \<and> unat b + unat m \<le> unat a + unat n"
  by (auto simp: range_contains_def range_end_range_ok word_le_nat_alt range_ok_unat)

lemma range_contains_subset:
  "range_contains a n b m \<Longrightarrow> bytes_from b m \<subseteq> bytes_from a n"
  by (auto simp: range_contains_iff bytes_from_def)

lemma range_contains_sub:
  "range_ok a n \<Longrightarrow> unat a \<le> unat b \<Longrightarrow> unat b + unat m \<le> unat a + unat n \<Longrightarrow> m \<noteq> 0 \<Longrightarrow>
     range_contains a n b m"
  by (simp add: range_contains_iff range_ok_def)

subsection \<open>Rounding\<close>

lemma unat_and_not_mask: "unat ((x :: u64) AND NOT (mask n)) = unat x - unat x mod 2 ^ n"
proof -
  have "(x AND NOT (mask n)) AND take_bit n x = 0"
    by (rule bit_word_eqI) (auto simp: bit_simps)
  then have "(x AND NOT (mask n)) + take_bit n x = (x AND NOT (mask n)) OR take_bit n x"
    by (rule disjunctive_add_eq_or)
  also have "\<dots> = x"
    by (rule bit_word_eqI) (auto simp: bit_simps)
  finally have x: "x AND NOT (mask n) = x - take_bit n x"
    by (simp add: eq_diff_eq)
  have t: "unat (take_bit n x) = unat x mod 2 ^ n"
    by (subst unsigned_take_bit_eq) (rule take_bit_eq_mod)
  then have "take_bit n x \<le> x" by (simp add: word_le_nat_alt)
  then show ?thesis by (simp add: x unat_sub_le t)
qed

lemma page_mask: "GXOS_VM_PAGE_SIZE - 1 = (mask 12 :: u64)"
  by (simp add: mask_eq_exp_minus_1)

lemma unat_page_down:
  "unat ((x :: u64) AND NOT (GXOS_VM_PAGE_SIZE - 1)) = unat x - unat x mod 4096"
  unfolding page_mask by (simp add: unat_and_not_mask)

text \<open>The least multiple of \<open>a\<close> that is not below \<open>v\<close>, on natural numbers.\<close>

definition ceil_to :: "nat \<Rightarrow> nat \<Rightarrow> nat" where
  "ceil_to a v = (v + a - 1) div a * a"

lemma ceil_to_ge: "0 < a \<Longrightarrow> v \<le> ceil_to a v"
proof -
  assume a: "0 < a"
  have "(v + a - 1) div a * a = (v + a - 1) - (v + a - 1) mod a"
    by (rule minus_mod_eq_div_mult [symmetric])
  moreover have "(v + a - 1) mod a < a" using a by simp
  ultimately show ?thesis unfolding ceil_to_def using a by linarith
qed

lemma ceil_to_dvd: "a dvd ceil_to a v"
  by (simp add: ceil_to_def)

lemma ceil_to_least:
  assumes "0 < a" and "a dvd w" and "v \<le> w"
  shows "ceil_to a v \<le> w"
proof -
  from assms(2) obtain k where w: "w = k * a" by (auto simp: dvd_def mult.commute)
  have "(v + a - 1) div a \<le> (k * a + (a - 1)) div a"
    by (rule div_le_mono) (use assms(1,3) w in simp)
  also have "\<dots> = k"
    using assms(1) by (subst add.commute) (simp only: div_mult_self1, simp)
  finally show ?thesis
    by (simp add: ceil_to_def w)
qed

lemma ceil_to_less: "0 < a \<Longrightarrow> ceil_to a v < v + a"
proof -
  assume "0 < a"
  moreover have "(v + a - 1) div a * a \<le> v + a - 1"
    by (rule div_times_less_eq_dividend)
  ultimately show ?thesis unfolding ceil_to_def by linarith
qed

lemma ceil_to_self: "0 < a \<Longrightarrow> a dvd v \<Longrightarrow> ceil_to a v = v"
  by (simp add: ceil_to_ge ceil_to_least le_antisym)

lemma ceil_to_mod:
  assumes "0 < a"
  shows "ceil_to a v = v + (if v mod a = 0 then 0 else a - v mod a)"
proof (rule le_antisym)
  let ?w = "v + (if v mod a = 0 then 0 else a - v mod a)"
  have "v mod a < a" using assms by simp
  then have "v + (a - v mod a) = v div a * a + a" using div_mult_mod_eq [of v a] by linarith
  then have w: "?w = (v div a + (if v mod a = 0 then 0 else 1)) * a"
    by (cases "v mod a = 0") (auto simp: add_mult_distrib)
  show "ceil_to a v \<le> ?w"
    using assms by (intro ceil_to_least) (simp_all only: w dvd_triv_right, simp add: w [symmetric])
  obtain k where k: "ceil_to a v = k * a"
    using ceil_to_dvd [of a v] by (auto simp: dvd_def mult.commute)
  have "v \<le> k * a" using ceil_to_ge [OF assms] k by metis
  show "?w \<le> ceil_to a v"
  proof (cases "v mod a = 0")
    case True
    with \<open>v \<le> k * a\<close> k show ?thesis by simp
  next
    case False
    have "v div a < k"
    proof (rule ccontr)
      assume "\<not> v div a < k"
      then have "k * a \<le> v div a * a" by simp
      with \<open>v \<le> k * a\<close> False div_mult_mod_eq [of v a] show False by linarith
    qed
    then have "(v div a + 1) * a \<le> k * a" by (intro mult_le_mono1) simp
    with w False k show ?thesis by simp
  qed
qed

lemma align_up_u64_Some_iff:
  assumes "a \<noteq> 0"
  shows "align_up_u64 v a = Some r \<longleftrightarrow> ceil_to (unat a) (unat v) < 2 ^ 64 \<and> unat r = ceil_to (unat a) (unat v)"
proof -
  have pos: "0 < unat a" using assms by (simp add: unat_gt_0)
  define inc where "inc = (if v mod a = 0 then 0 else a - v mod a)"
  have le: "v mod a \<le> a" using pos by (simp add: word_le_nat_alt unat_mod_u64 less_imp_le)
  have "unat inc = (if unat v mod unat a = 0 then 0 else unat a - unat v mod unat a)"
    by (simp add: inc_def unat_sub_le [OF le] unat_mod_u64 unat_eq_iff [of "v mod a" 0])
  then have c: "ceil_to (unat a) (unat v) = unat v + unat inc"
    by (simp add: ceil_to_mod [OF pos])
  have "align_up_u64 v a = add_u64 v inc"
    using assms by (simp add: align_up_u64_def inc_def Let_def)
  then show ?thesis
    by (auto simp: c add_u64_Some_iff unat_add_fits unat_eq_iff)
qed

lemma page_round_bytes_nat:
  "page_round_bytes n \<noteq> 0 \<longleftrightarrow> n \<noteq> 0 \<and> unat n + 4095 < 2 ^ 64"
  "page_round_bytes n \<noteq> 0 \<Longrightarrow> unat (page_round_bytes n) = ceil_to 4096 (unat n)"
proof -
  have *: "unat (page_round_bytes n) = ceil_to 4096 (unat n)"
    if n: "n \<noteq> 0" "unat n + 4095 < 2 ^ 64"
  proof -
    have "\<not> n > UINT64_MAX - (GXOS_VM_PAGE_SIZE - 1)"
      by (subst fits_iff) (use n(2) in simp)
    then have "page_round_bytes n = (n + 4095) AND NOT (GXOS_VM_PAGE_SIZE - 1)"
      using n(1) by (simp add: page_round_bytes_def Let_def add.commute)
    moreover have "unat (n + 4095) = unat n + 4095"
      using n(2) by (simp add: unat_add_fits)
    ultimately show ?thesis
      by (simp only: unat_page_down ceil_to_def minus_mod_eq_div_mult) simp
  qed
  have pos: "0 < ceil_to 4096 (unat n)" if "n \<noteq> 0"
    using ceil_to_ge [of 4096 "unat n"] that by (simp add: unat_gt_0 [symmetric])
  have zero: "page_round_bytes n = 0" if "n = 0 \<or> unat n + 4095 \<ge> 2 ^ 64"
    unfolding page_round_bytes_def fits_iff using that by auto
  show "page_round_bytes n \<noteq> 0 \<longleftrightarrow> n \<noteq> 0 \<and> unat n + 4095 < 2 ^ 64"
    using * pos zero unat_gt_0 [of "page_round_bytes n"] by (metis linorder_not_less)
  then show "page_round_bytes n \<noteq> 0 \<Longrightarrow> unat (page_round_bytes n) = ceil_to 4096 (unat n)"
    using * by simp
qed

end
