(* ===== verification/VM_Arena.thy ===== *)
theory VM_Arena
  imports Checked_Arith
begin

text \<open>
  The virtual address arena of \<open>src/src/Gate4Harness/memory_accounting.c\<close>
  (\<open>gxos_vm_arena_*\<close>): a table of reservations and a table of commitments inside them, with
  running totals. \<open>arena_inv\<close> is the code's validator together with the capacities of the
  two arrays. Slot numbers, also the one a commitment stores for its reservation, are natural
  numbers; an access through a stored slot number that the code does not guard is an
  unguarded list access here, and the invariant puts every stored slot in range.
\<close>

abbreviation (input) GXOS_VM_MAX_RESERVATIONS :: nat where
  "GXOS_VM_MAX_RESERVATIONS \<equiv> 256"

abbreviation (input) GXOS_VM_MAX_COMMITMENTS :: nat where
  "GXOS_VM_MAX_COMMITMENTS \<equiv> 4096"

abbreviation (input) GXOS_VM_RESERVATION_STATE_FREE :: u32 where
  "GXOS_VM_RESERVATION_STATE_FREE \<equiv> 0"

abbreviation (input) GXOS_VM_RESERVATION_STATE_RESERVED :: u32 where
  "GXOS_VM_RESERVATION_STATE_RESERVED \<equiv> 1"

abbreviation (input) GXOS_VM_RESERVATION_STATE_COMMITTED :: u32 where
  "GXOS_VM_RESERVATION_STATE_COMMITTED \<equiv> 2"

datatype GXOS_VM_STATUS =
    GXOS_VM_STATUS_OK
  | GXOS_VM_STATUS_INVALID_ARGUMENT
  | GXOS_VM_STATUS_OUTSIDE_ARENA
  | GXOS_VM_STATUS_OVERFLOW
  | GXOS_VM_STATUS_OVERLAP
  | GXOS_VM_STATUS_CAPACITY
  | GXOS_VM_STATUS_NOT_FOUND
  | GXOS_VM_STATUS_COMMIT_OVERLAP
  | GXOS_VM_STATUS_COMMIT_OUTSIDE_RESERVATION
  | GXOS_VM_STATUS_COMMITTED_RESERVATION
  | GXOS_VM_STATUS_ALIGNMENT
  | GXOS_VM_STATUS_INVALID_STATE

record GXOS_VM_RESERVATION =
  vr_live :: bool
  vr_base :: u64
  vr_bytes :: u64
  vr_requested_bytes :: u64
  vr_committed_bytes :: u64
  vr_kind :: u32
  vr_state :: u32
  vr_owner :: u32
  vr_generation :: u64

record GXOS_VM_COMMITMENT =
  vc_live :: bool
  vc_reservation_slot :: nat
  vc_base :: u64
  vc_bytes :: u64
  vc_physical_base :: u64
  vc_page_count :: u64
  vc_state :: u32
  vc_generation :: u64

record GXOS_VM_ARENA =
  va_base :: u64
  va_length :: u64
  va_reservations :: "GXOS_VM_RESERVATION list"
  va_commitments :: "GXOS_VM_COMMITMENT list"
  va_reservation_count :: u32
  va_commitment_count :: u32
  va_total_reserved_bytes :: u64
  va_total_committed_bytes :: u64
  va_generation :: u64
  va_valid :: bool

definition zero_vm_reservation :: GXOS_VM_RESERVATION where
  "zero_vm_reservation =
     \<lparr> vr_live = False, vr_base = 0, vr_bytes = 0, vr_requested_bytes = 0,
       vr_committed_bytes = 0, vr_kind = 0, vr_state = 0, vr_owner = 0, vr_generation = 0 \<rparr>"

definition zero_vm_commitment :: GXOS_VM_COMMITMENT where
  "zero_vm_commitment =
     \<lparr> vc_live = False, vc_reservation_slot = 0, vc_base = 0, vc_bytes = 0,
       vc_physical_base = 0, vc_page_count = 0, vc_state = 0, vc_generation = 0 \<rparr>"

definition gxos_vm_arena_init :: "u64 \<Rightarrow> u64 \<Rightarrow> u64 \<Rightarrow> GXOS_VM_ARENA" where
  "gxos_vm_arena_init base len generation =
     \<lparr> va_base = base, va_length = len,
       va_reservations = replicate GXOS_VM_MAX_RESERVATIONS zero_vm_reservation,
       va_commitments = replicate GXOS_VM_MAX_COMMITMENTS zero_vm_commitment,
       va_reservation_count = 0, va_commitment_count = 0,
       va_total_reserved_bytes = 0, va_total_committed_bytes = 0,
       va_generation = generation,
       va_valid = (generation \<noteq> 0 \<and> len \<noteq> 0 \<and> base \<le> UINT64_MAX - len) \<rparr>"

definition gxos_vm_arena_contains :: "GXOS_VM_ARENA \<Rightarrow> u64 \<Rightarrow> u64 \<Rightarrow> bool" where
  "gxos_vm_arena_contains arena base bytes \<longleftrightarrow>
     va_valid arena \<and> range_contains (va_base arena) (va_length arena) base bytes"

subsection \<open>Reservations\<close>

definition gxos_vm_arena_reserve ::
    "GXOS_VM_ARENA \<Rightarrow> u64 \<Rightarrow> u64 \<Rightarrow> u32 \<Rightarrow> u64 \<Rightarrow>
     GXOS_VM_STATUS \<times> GXOS_VM_ARENA \<times> nat option" where
  "gxos_vm_arena_reserve arena base bytes kind generation =
     (if \<not> va_valid arena \<or> generation = 0 \<or> bytes = 0
      then (GXOS_VM_STATUS_INVALID_ARGUMENT, arena, None)
      else if base > UINT64_MAX - bytes then (GXOS_VM_STATUS_OVERFLOW, arena, None)
      else if \<not> gxos_vm_arena_contains arena base bytes
      then (GXOS_VM_STATUS_OUTSIDE_ARENA, arena, None)
      else if list_ex (\<lambda>r. vr_live r \<and> ranges_overlap base bytes (vr_base r) (vr_bytes r))
                (va_reservations arena)
      then (GXOS_VM_STATUS_OVERLAP, arena, None)
      else if unat (va_reservation_count arena) \<ge> GXOS_VM_MAX_RESERVATIONS
      then (GXOS_VM_STATUS_CAPACITY, arena, None)
      else case add_u64 (va_total_reserved_bytes arena) bytes of
        None \<Rightarrow> (GXOS_VM_STATUS_OVERFLOW, arena, None)
      | Some new_total_reserved \<Rightarrow>
          (case find_index (\<lambda>r. \<not> vr_live r) (va_reservations arena) of
             None \<Rightarrow> (GXOS_VM_STATUS_CAPACITY, arena, None)
           | Some index \<Rightarrow>
               (GXOS_VM_STATUS_OK,
                arena\<lparr> va_reservations := (va_reservations arena)[index :=
                         \<lparr> vr_live = True, vr_base = base, vr_bytes = bytes,
                           vr_requested_bytes = bytes, vr_committed_bytes = 0,
                           vr_kind = kind, vr_state = GXOS_VM_RESERVATION_STATE_RESERVED,
                           vr_owner = 0, vr_generation = generation \<rparr>],
                       va_reservation_count := va_reservation_count arena + 1,
                       va_total_reserved_bytes := new_total_reserved \<rparr>,
                Some index)))"

definition gxos_vm_arena_reserve_fixed ::
    "GXOS_VM_ARENA \<Rightarrow> u64 \<Rightarrow> u64 \<Rightarrow> u32 \<Rightarrow> u32 \<Rightarrow> u64 \<Rightarrow>
     GXOS_VM_STATUS \<times> GXOS_VM_ARENA \<times> nat option" where
  "gxos_vm_arena_reserve_fixed arena base requested_bytes kind owner generation =
     (if requested_bytes = 0 then (GXOS_VM_STATUS_INVALID_ARGUMENT, arena, None)
      else if base mod GXOS_VM_RESERVATION_GRANULARITY \<noteq> 0
      then (GXOS_VM_STATUS_ALIGNMENT, arena, None)
      else let reserved_bytes = page_round_bytes requested_bytes in
        if reserved_bytes = 0 then (GXOS_VM_STATUS_OVERFLOW, arena, None)
        else case gxos_vm_arena_reserve arena base reserved_bytes kind generation of
          (GXOS_VM_STATUS_OK, arena', Some slot) \<Rightarrow>
            (GXOS_VM_STATUS_OK,
             arena'\<lparr> va_reservations := (va_reservations arena')[slot :=
                       (va_reservations arena' ! slot)
                         \<lparr> vr_requested_bytes := requested_bytes, vr_owner := owner,
                           vr_state := GXOS_VM_RESERVATION_STATE_RESERVED \<rparr>] \<rparr>,
             Some slot)
        | other \<Rightarrow> other)"

text \<open>
  The search's inner loop over the reservations: the next candidate and whether any live
  reservation conflicts, or the status it returns early with.
\<close>

fun reserve_any_scan ::
    "GXOS_VM_RESERVATION list \<Rightarrow> u64 \<Rightarrow> u64 \<Rightarrow> u64 \<Rightarrow> bool \<Rightarrow> GXOS_VM_STATUS + u64 \<times> bool" where
  "reserve_any_scan [] candidate reserved_bytes next_candidate conflict =
     Inr (next_candidate, conflict)"
| "reserve_any_scan (r # rest) candidate reserved_bytes next_candidate conflict =
     (if \<not> vr_live r
      then reserve_any_scan rest candidate reserved_bytes next_candidate conflict
      else case range_end (vr_base r) (vr_bytes r) of
        None \<Rightarrow> Inl GXOS_VM_STATUS_INVALID_STATE
      | Some reservation_end \<Rightarrow>
          if ranges_overlap candidate reserved_bytes (vr_base r) (vr_bytes r)
          then if reservation_end > next_candidate
               then case align_up_u64 reservation_end GXOS_VM_RESERVATION_GRANULARITY of
                      None \<Rightarrow> Inl GXOS_VM_STATUS_OVERFLOW
                    | Some next_candidate' \<Rightarrow>
                        reserve_any_scan rest candidate reserved_bytes next_candidate' True
               else reserve_any_scan rest candidate reserved_bytes next_candidate True
          else reserve_any_scan rest candidate reserved_bytes next_candidate conflict)"

text \<open>The search loop. Every iteration that does not return raises the candidate.\<close>

function reserve_any_loop ::
    "GXOS_VM_ARENA \<Rightarrow> u64 \<Rightarrow> u32 \<Rightarrow> u32 \<Rightarrow> u64 \<Rightarrow> u64 \<Rightarrow> u64 \<Rightarrow> u64 \<Rightarrow>
     GXOS_VM_STATUS \<times> GXOS_VM_ARENA \<times> (u64 \<times> nat) option" where
  "reserve_any_loop arena requested_bytes kind owner generation reserved_bytes arena_end
     candidate =
     (if candidate \<le> arena_end \<and> reserved_bytes \<le> arena_end - candidate
      then case reserve_any_scan (va_reservations arena) candidate reserved_bytes candidate False of
        Inl status \<Rightarrow> (status, arena, None)
      | Inr (next_candidate, conflict) \<Rightarrow>
          if \<not> conflict
          then case gxos_vm_arena_reserve_fixed arena candidate requested_bytes kind owner
                      generation of
                 (status, arena', slot) \<Rightarrow>
                   (status, arena',
                    if status = GXOS_VM_STATUS_OK
                    then map_option (\<lambda>s. (candidate, s)) slot else None)
          else if next_candidate \<le> candidate then (GXOS_VM_STATUS_OVERFLOW, arena, None)
          else reserve_any_loop arena requested_bytes kind owner generation reserved_bytes
                 arena_end next_candidate
      else (GXOS_VM_STATUS_OUTSIDE_ARENA, arena, None))"
  by pat_completeness auto
termination
  by (relation "measure (\<lambda>(_, _, _, _, _, _, _, candidate). 2 ^ 64 - unat candidate)")
     (auto simp: word_less_nat_alt not_le intro!: diff_less_mono2)

declare reserve_any_loop.simps [simp del]

definition gxos_vm_arena_reserve_any ::
    "GXOS_VM_ARENA \<Rightarrow> u64 \<Rightarrow> u32 \<Rightarrow> u32 \<Rightarrow> u64 \<Rightarrow>
     GXOS_VM_STATUS \<times> GXOS_VM_ARENA \<times> (u64 \<times> nat) option" where
  "gxos_vm_arena_reserve_any arena requested_bytes kind owner generation =
     (if requested_bytes = 0 \<or> \<not> va_valid arena \<or> generation = 0
      then (GXOS_VM_STATUS_INVALID_ARGUMENT, arena, None)
      else let reserved_bytes = page_round_bytes requested_bytes in
        if reserved_bytes = 0 then (GXOS_VM_STATUS_OVERFLOW, arena, None)
        else case (range_end (va_base arena) (va_length arena),
                   align_up_u64 (va_base arena) GXOS_VM_RESERVATION_GRANULARITY) of
          (Some arena_end, Some candidate) \<Rightarrow>
            reserve_any_loop arena requested_bytes kind owner generation reserved_bytes
              arena_end candidate
        | _ \<Rightarrow> (GXOS_VM_STATUS_OVERFLOW, arena, None))"

definition gxos_vm_arena_find_reservation :: "GXOS_VM_ARENA \<Rightarrow> u64 \<Rightarrow> nat option" where
  "gxos_vm_arena_find_reservation arena address =
     find_index (\<lambda>r. vr_live r \<and> address \<ge> vr_base r \<and> address - vr_base r < vr_bytes r)
       (va_reservations arena)"

subsection \<open>Commitments\<close>

text \<open>The last writes of a successful commit, which both commit operations perform.\<close>

definition arena_record_commit ::
    "GXOS_VM_ARENA \<Rightarrow> nat \<Rightarrow> GXOS_VM_COMMITMENT \<Rightarrow> GXOS_VM_ARENA" where
  "arena_record_commit arena index c =
     arena\<lparr> va_commitments := (va_commitments arena)[index := c],
            va_commitment_count := va_commitment_count arena + 1,
            va_total_committed_bytes := va_total_committed_bytes arena + vc_bytes c,
            va_reservations := (va_reservations arena)[vc_reservation_slot c :=
              (va_reservations arena ! vc_reservation_slot c)
                \<lparr> vr_committed_bytes :=
                    vr_committed_bytes (va_reservations arena ! vc_reservation_slot c) +
                    vc_bytes c,
                  vr_state := GXOS_VM_RESERVATION_STATE_COMMITTED \<rparr>] \<rparr>"

definition gxos_vm_arena_commit ::
    "GXOS_VM_ARENA \<Rightarrow> u64 \<Rightarrow> u64 \<Rightarrow> u64 \<Rightarrow> GXOS_VM_STATUS \<times> GXOS_VM_ARENA" where
  "gxos_vm_arena_commit arena base bytes generation =
     (if \<not> va_valid arena \<or> generation = 0 \<or> bytes = 0
      then (GXOS_VM_STATUS_INVALID_ARGUMENT, arena)
      else if base > UINT64_MAX - bytes then (GXOS_VM_STATUS_OVERFLOW, arena)
      else case find_index (\<lambda>r. vr_live r \<and> range_contains (vr_base r) (vr_bytes r) base bytes)
                  (va_reservations arena) of
        None \<Rightarrow> (GXOS_VM_STATUS_COMMIT_OUTSIDE_RESERVATION, arena)
      | Some reservation_slot \<Rightarrow>
          if list_ex (\<lambda>c. vc_live c \<and> ranges_overlap base bytes (vc_base c) (vc_bytes c))
               (va_commitments arena)
          then (GXOS_VM_STATUS_COMMIT_OVERLAP, arena)
          else if unat (va_commitment_count arena) \<ge> GXOS_VM_MAX_COMMITMENTS
          then (GXOS_VM_STATUS_CAPACITY, arena)
          else if add_u64 (va_total_committed_bytes arena) bytes = None \<or>
                  add_u64 (vr_committed_bytes (va_reservations arena ! reservation_slot))
                    bytes = None
          then (GXOS_VM_STATUS_OVERFLOW, arena)
          else case find_index (\<lambda>c. \<not> vc_live c) (va_commitments arena) of
                 None \<Rightarrow> (GXOS_VM_STATUS_CAPACITY, arena)
               | Some index \<Rightarrow>
                   (GXOS_VM_STATUS_OK,
                    arena_record_commit arena index
                      \<lparr> vc_live = True, vc_reservation_slot = reservation_slot,
                        vc_base = base, vc_bytes = bytes, vc_physical_base = 0,
                        vc_page_count = bytes div GXOS_VM_PAGE_SIZE +
                          (if bytes mod GXOS_VM_PAGE_SIZE \<noteq> 0 then 1 else 0),
                        vc_state = GXOS_VM_RESERVATION_STATE_COMMITTED,
                        vc_generation = generation \<rparr>))"

definition gxos_vm_arena_find_commitment :: "GXOS_VM_ARENA \<Rightarrow> u64 \<Rightarrow> GXOS_VM_STATUS \<times> nat option" where
  "gxos_vm_arena_find_commitment arena address =
     (case find_index (\<lambda>c. vc_live c \<and> address \<ge> vc_base c \<and> address - vc_base c < vc_bytes c)
             (va_commitments arena) of
        Some index \<Rightarrow> (GXOS_VM_STATUS_OK, Some index)
      | None \<Rightarrow> (GXOS_VM_STATUS_NOT_FOUND, None))"

text \<open>The last component of the result is \<open>*already_committed_out\<close>.\<close>

definition gxos_vm_arena_commit_page ::
    "GXOS_VM_ARENA \<Rightarrow> u64 \<Rightarrow> u64 \<Rightarrow> u64 \<Rightarrow> GXOS_VM_STATUS \<times> GXOS_VM_ARENA \<times> bool" where
  "gxos_vm_arena_commit_page arena virtual_page physical_page generation =
     (if generation = 0 \<or> physical_page = 0
      then (GXOS_VM_STATUS_INVALID_ARGUMENT, arena, False)
      else if virtual_page mod GXOS_VM_PAGE_SIZE \<noteq> 0 \<or> physical_page mod GXOS_VM_PAGE_SIZE \<noteq> 0
      then (GXOS_VM_STATUS_ALIGNMENT, arena, False)
      else case gxos_vm_arena_find_reservation arena virtual_page of
        None \<Rightarrow> (GXOS_VM_STATUS_COMMIT_OUTSIDE_RESERVATION, arena, False)
      | Some reservation_slot \<Rightarrow>
          if \<not> gxos_vm_arena_contains arena virtual_page GXOS_VM_PAGE_SIZE \<or>
             \<not> range_contains (vr_base (va_reservations arena ! reservation_slot))
                 (vr_bytes (va_reservations arena ! reservation_slot))
                 virtual_page GXOS_VM_PAGE_SIZE
          then (GXOS_VM_STATUS_COMMIT_OUTSIDE_RESERVATION, arena, False)
          else case find_index (\<lambda>c. vc_live c \<and> vc_base c = virtual_page \<and>
                                 vc_bytes c = GXOS_VM_PAGE_SIZE) (va_commitments arena) of
            Some index \<Rightarrow>
              if vc_physical_base (va_commitments arena ! index) \<noteq> physical_page
              then (GXOS_VM_STATUS_COMMIT_OVERLAP, arena, False)
              else (GXOS_VM_STATUS_OK, arena, True)
          | None \<Rightarrow>
              if unat (va_commitment_count arena) \<ge> GXOS_VM_MAX_COMMITMENTS
              then (GXOS_VM_STATUS_CAPACITY, arena, False)
              else if add_u64 (va_total_committed_bytes arena) GXOS_VM_PAGE_SIZE = None \<or>
                      add_u64 (vr_committed_bytes (va_reservations arena ! reservation_slot))
                        GXOS_VM_PAGE_SIZE = None
              then (GXOS_VM_STATUS_OVERFLOW, arena, False)
              else case find_index (\<lambda>c. \<not> vc_live c) (va_commitments arena) of
                     None \<Rightarrow> (GXOS_VM_STATUS_CAPACITY, arena, False)
                   | Some index \<Rightarrow>
                       (GXOS_VM_STATUS_OK,
                        arena_record_commit arena index
                          \<lparr> vc_live = True, vc_reservation_slot = reservation_slot,
                            vc_base = virtual_page, vc_bytes = GXOS_VM_PAGE_SIZE,
                            vc_physical_base = physical_page, vc_page_count = 1,
                            vc_state = GXOS_VM_RESERVATION_STATE_COMMITTED,
                            vc_generation = generation \<rparr>,
                        False))"

text \<open>The last writes of a successful decommit, which both decommit operations perform.\<close>

definition arena_record_decommit :: "GXOS_VM_ARENA \<Rightarrow> nat \<Rightarrow> GXOS_VM_ARENA" where
  "arena_record_decommit arena index =
     (let c = va_commitments arena ! index;
          r = va_reservations arena ! vc_reservation_slot c;
          committed = vr_committed_bytes r - vc_bytes c
      in arena\<lparr> va_commitment_count := va_commitment_count arena - 1,
                va_total_committed_bytes := va_total_committed_bytes arena - vc_bytes c,
                va_reservations := (va_reservations arena)[vc_reservation_slot c :=
                  r\<lparr> vr_committed_bytes := committed,
                     vr_state := (if committed = 0 then GXOS_VM_RESERVATION_STATE_RESERVED
                                  else vr_state r) \<rparr>],
                va_commitments := (va_commitments arena)[index := zero_vm_commitment] \<rparr>)"

text \<open>The last component of the result is \<open>*physical_page_out\<close>.\<close>

definition gxos_vm_arena_decommit_page ::
    "GXOS_VM_ARENA \<Rightarrow> u64 \<Rightarrow> GXOS_VM_STATUS \<times> GXOS_VM_ARENA \<times> u64" where
  "gxos_vm_arena_decommit_page arena virtual_page =
     (if virtual_page mod GXOS_VM_PAGE_SIZE \<noteq> 0
      then (GXOS_VM_STATUS_INVALID_ARGUMENT, arena, 0)
      else case find_index (\<lambda>c. vc_live c \<and> vc_base c = virtual_page \<and>
                             vc_bytes c = GXOS_VM_PAGE_SIZE) (va_commitments arena) of
        None \<Rightarrow> (GXOS_VM_STATUS_NOT_FOUND, arena, 0)
      | Some index \<Rightarrow>
          let c = va_commitments arena ! index in
          if vc_reservation_slot c \<ge> GXOS_VM_MAX_RESERVATIONS
          then (GXOS_VM_STATUS_INVALID_STATE, arena, 0)
          else let r = va_reservations arena ! vc_reservation_slot c in
            if \<not> vr_live r \<or> va_commitment_count arena = 0 \<or>
               va_total_committed_bytes arena < GXOS_VM_PAGE_SIZE \<or>
               vr_committed_bytes r < GXOS_VM_PAGE_SIZE
            then (GXOS_VM_STATUS_INVALID_STATE, arena, 0)
            else (GXOS_VM_STATUS_OK, arena_record_decommit arena index, vc_physical_base c))"

definition gxos_vm_arena_decommit ::
    "GXOS_VM_ARENA \<Rightarrow> u64 \<Rightarrow> u64 \<Rightarrow> GXOS_VM_STATUS \<times> GXOS_VM_ARENA" where
  "gxos_vm_arena_decommit arena base bytes =
     (if \<not> va_valid arena \<or> bytes = 0 then (GXOS_VM_STATUS_INVALID_ARGUMENT, arena)
      else case find_index (\<lambda>c. vc_live c \<and> vc_base c = base \<and> vc_bytes c = bytes)
                  (va_commitments arena) of
        None \<Rightarrow> (GXOS_VM_STATUS_NOT_FOUND, arena)
      | Some index \<Rightarrow>
          let r = va_reservations arena ! vc_reservation_slot (va_commitments arena ! index) in
          if va_commitment_count arena = 0 \<or> va_total_committed_bytes arena < bytes \<or>
             vr_committed_bytes r < bytes
          then (GXOS_VM_STATUS_INVALID_ARGUMENT, arena)
          else (GXOS_VM_STATUS_OK, arena_record_decommit arena index))"

definition gxos_vm_arena_release :: "GXOS_VM_ARENA \<Rightarrow> nat \<Rightarrow> GXOS_VM_STATUS \<times> GXOS_VM_ARENA" where
  "gxos_vm_arena_release arena slot =
     (if \<not> va_valid arena \<or> slot \<ge> GXOS_VM_MAX_RESERVATIONS
      then (GXOS_VM_STATUS_INVALID_ARGUMENT, arena)
      else let r = va_reservations arena ! slot in
        if \<not> vr_live r then (GXOS_VM_STATUS_NOT_FOUND, arena)
        else if vr_committed_bytes r \<noteq> 0 then (GXOS_VM_STATUS_COMMITTED_RESERVATION, arena)
        else if va_reservation_count arena = 0 \<or> va_total_reserved_bytes arena < vr_bytes r
        then (GXOS_VM_STATUS_INVALID_ARGUMENT, arena)
        else (GXOS_VM_STATUS_OK,
              arena\<lparr> va_total_reserved_bytes := va_total_reserved_bytes arena - vr_bytes r,
                     va_reservation_count := va_reservation_count arena - 1,
                     va_reservations := (va_reservations arena)[slot := zero_vm_reservation] \<rparr>))"

subsection \<open>The validator\<close>

fun validate_reservations_loop ::
    "GXOS_VM_ARENA \<Rightarrow> GXOS_VM_RESERVATION list \<Rightarrow> u32 \<Rightarrow> u64 \<Rightarrow> (u32 \<times> u64) option" where
  "validate_reservations_loop arena [] reservations reserved = Some (reservations, reserved)"
| "validate_reservations_loop arena (r # rest) reservations reserved =
     (if \<not> vr_live r then validate_reservations_loop arena rest reservations reserved
      else if \<not> gxos_vm_arena_contains arena (vr_base r) (vr_bytes r) \<or>
              vr_generation r = 0 \<or> vr_requested_bytes r = 0 \<or>
              vr_requested_bytes r > vr_bytes r \<or>
              vr_state r < GXOS_VM_RESERVATION_STATE_RESERVED \<or>
              vr_state r > GXOS_VM_RESERVATION_STATE_COMMITTED \<or>
              (vr_committed_bytes r = 0 \<and> vr_state r \<noteq> GXOS_VM_RESERVATION_STATE_RESERVED) \<or>
              (vr_committed_bytes r \<noteq> 0 \<and> vr_state r \<noteq> GXOS_VM_RESERVATION_STATE_COMMITTED) \<or>
              vr_committed_bytes r > vr_bytes r
      then None
      else case add_u64 reserved (vr_bytes r) of
        None \<Rightarrow> None
      | Some reserved' \<Rightarrow>
          if list_ex (\<lambda>right. vr_live right \<and>
               ranges_overlap (vr_base r) (vr_bytes r) (vr_base right) (vr_bytes right)) rest
          then None
          else validate_reservations_loop arena rest (reservations + 1) reserved')"

fun validate_commitments_loop ::
    "GXOS_VM_ARENA \<Rightarrow> GXOS_VM_COMMITMENT list \<Rightarrow> u32 \<Rightarrow> u64 \<Rightarrow> u64 list \<Rightarrow>
     (u32 \<times> u64 \<times> u64 list) option" where
  "validate_commitments_loop arena [] commitments committed reservation_committed =
     Some (commitments, committed, reservation_committed)"
| "validate_commitments_loop arena (c # rest) commitments committed reservation_committed =
     (if \<not> vc_live c
      then validate_commitments_loop arena rest commitments committed reservation_committed
      else if vc_reservation_slot c \<ge> GXOS_VM_MAX_RESERVATIONS \<or>
              \<not> vr_live (va_reservations arena ! vc_reservation_slot c) \<or>
              vc_generation c = 0 \<or> vc_state c \<noteq> GXOS_VM_RESERVATION_STATE_COMMITTED \<or>
              (vc_physical_base c \<noteq> 0 \<and> vc_page_count c = 0) \<or>
              \<not> range_contains (vr_base (va_reservations arena ! vc_reservation_slot c))
                  (vr_bytes (va_reservations arena ! vc_reservation_slot c))
                  (vc_base c) (vc_bytes c)
      then None
      else case (add_u64 committed (vc_bytes c),
                 add_u64 (reservation_committed ! vc_reservation_slot c) (vc_bytes c)) of
        (Some committed', Some slot_committed) \<Rightarrow>
          if list_ex (\<lambda>right. vc_live right \<and>
               ranges_overlap (vc_base c) (vc_bytes c) (vc_base right) (vc_bytes right)) rest
          then None
          else validate_commitments_loop arena rest (commitments + 1) committed'
                 (reservation_committed[vc_reservation_slot c := slot_committed])
      | _ \<Rightarrow> None)"

definition gxos_vm_arena_validate :: "GXOS_VM_ARENA \<Rightarrow> bool" where
  "gxos_vm_arena_validate arena \<longleftrightarrow>
     \<not> (\<not> va_valid arena \<or> va_length arena = 0 \<or>
        va_base arena > UINT64_MAX - va_length arena \<or> va_generation arena = 0) \<and>
     (case validate_reservations_loop arena (va_reservations arena) 0 0 of
        None \<Rightarrow> False
      | Some (reservations, reserved) \<Rightarrow>
          (case validate_commitments_loop arena (va_commitments arena) 0 0
                  (replicate GXOS_VM_MAX_RESERVATIONS 0) of
             None \<Rightarrow> False
           | Some (commitments, committed, reservation_committed) \<Rightarrow>
               \<not> list_ex (\<lambda>(r, sum). vr_live r \<and> sum \<noteq> vr_committed_bytes r)
                   (zip (va_reservations arena) reservation_committed) \<and>
               reservations = va_reservation_count arena \<and>
               commitments = va_commitment_count arena \<and>
               reserved = va_total_reserved_bytes arena \<and>
               committed = va_total_committed_bytes arena))"

definition gxos_vm_arena_available :: "GXOS_VM_ARENA \<Rightarrow> u64" where
  "gxos_vm_arena_available arena =
     (if \<not> va_valid arena \<or> va_total_reserved_bytes arena > va_length arena then 0
      else va_length arena - va_total_reserved_bytes arena)"

subsection \<open>The invariant\<close>

definition arena_inv :: "GXOS_VM_ARENA \<Rightarrow> bool" where
  "arena_inv a \<longleftrightarrow> length (va_reservations a) = GXOS_VM_MAX_RESERVATIONS \<and>
     length (va_commitments a) = GXOS_VM_MAX_COMMITMENTS \<and> gxos_vm_arena_validate a"

text \<open>What the validator asks of one live reservation and of one live commitment.\<close>

definition reservation_ok :: "GXOS_VM_ARENA \<Rightarrow> GXOS_VM_RESERVATION \<Rightarrow> bool" where
  "reservation_ok a r \<longleftrightarrow> gxos_vm_arena_contains a (vr_base r) (vr_bytes r) \<and>
     vr_generation r \<noteq> 0 \<and> vr_requested_bytes r \<noteq> 0 \<and> vr_requested_bytes r \<le> vr_bytes r \<and>
     vr_committed_bytes r \<le> vr_bytes r \<and>
     vr_state r = (if vr_committed_bytes r = 0 then GXOS_VM_RESERVATION_STATE_RESERVED
                   else GXOS_VM_RESERVATION_STATE_COMMITTED)"

definition commitment_ok :: "GXOS_VM_RESERVATION list \<Rightarrow> GXOS_VM_COMMITMENT \<Rightarrow> bool" where
  "commitment_ok rs c \<longleftrightarrow> vc_reservation_slot c < GXOS_VM_MAX_RESERVATIONS \<and>
     vr_live (rs ! vc_reservation_slot c) \<and> vc_generation c \<noteq> 0 \<and>
     vc_state c = GXOS_VM_RESERVATION_STATE_COMMITTED \<and>
     (vc_physical_base c \<noteq> 0 \<longrightarrow> vc_page_count c \<noteq> 0) \<and>
     range_contains (vr_base (rs ! vc_reservation_slot c)) (vr_bytes (rs ! vc_reservation_slot c))
       (vc_base c) (vc_bytes c)"

abbreviation reservation_span :: "GXOS_VM_RESERVATION \<Rightarrow> nat set" where
  "reservation_span r \<equiv> bytes_from (vr_base r) (vr_bytes r)"

abbreviation commitment_span :: "GXOS_VM_COMMITMENT \<Rightarrow> nat set" where
  "commitment_span c \<equiv> bytes_from (vc_base c) (vc_bytes c)"

definition reservation_compatible ::
    "GXOS_VM_RESERVATION \<Rightarrow> GXOS_VM_RESERVATION \<Rightarrow> bool" where
  "reservation_compatible r s \<longleftrightarrow> vr_live r \<longrightarrow> vr_live s \<longrightarrow>
     \<not> ranges_overlap (vr_base r) (vr_bytes r) (vr_base s) (vr_bytes s)"

definition commitment_compatible ::
    "GXOS_VM_COMMITMENT \<Rightarrow> GXOS_VM_COMMITMENT \<Rightarrow> bool" where
  "commitment_compatible c d \<longleftrightarrow> vc_live c \<longrightarrow> vc_live d \<longrightarrow>
     \<not> ranges_overlap (vc_base c) (vc_bytes c) (vc_base d) (vc_bytes d)"

text \<open>The bytes committed inside reservation \<open>i\<close>.\<close>

abbreviation slot_committed :: "nat \<Rightarrow> GXOS_VM_COMMITMENT list \<Rightarrow> nat" where
  "slot_committed i cs \<equiv>
     live_sum (\<lambda>c. vc_live c \<and> vc_reservation_slot c = i) (\<lambda>c. unat (vc_bytes c)) cs"

abbreviation reserved_sum :: "GXOS_VM_RESERVATION list \<Rightarrow> nat" where
  "reserved_sum rs \<equiv> live_sum vr_live (\<lambda>r. unat (vr_bytes r)) rs"

abbreviation committed_sum :: "GXOS_VM_COMMITMENT list \<Rightarrow> nat" where
  "committed_sum cs \<equiv> live_sum vc_live (\<lambda>c. unat (vc_bytes c)) cs"

lemma symp_reservation_compatible: "symp reservation_compatible"
  by (auto simp: symp_def reservation_compatible_def ranges_overlap_sym)

lemma symp_commitment_compatible: "symp commitment_compatible"
  by (auto simp: symp_def commitment_compatible_def ranges_overlap_sym)

lemma reservations_loop_iff:
  "validate_reservations_loop a rs n s = Some p \<longleftrightarrow>
     (\<forall>r \<in> set rs. vr_live r \<longrightarrow> reservation_ok a r) \<and> sorted_wrt reservation_compatible rs \<and>
     unat s + reserved_sum rs < 2 ^ 64 \<and>
     p = (n + of_nat (live_sum vr_live (\<lambda>_. 1) rs), s + of_nat (reserved_sum rs))"
proof (induction rs arbitrary: n s)
  case Nil
  then show ?case by auto
next
  case (Cons r rest)
  show ?case
  proof (cases "vr_live r")
    case False
    then show ?thesis by (auto simp: Cons.IH reservation_compatible_def)
  next
    case True
    let ?bad = "list_ex (\<lambda>right. vr_live right \<and>
        ranges_overlap (vr_base r) (vr_bytes r) (vr_base right) (vr_bytes right)) rest"
    have pair: "sorted_wrt reservation_compatible (r # rest) \<longleftrightarrow>
        \<not> ?bad \<and> sorted_wrt reservation_compatible rest"
      using True by (auto simp: reservation_compatible_def list_ex_iff)
    have ok: "reservation_ok a r \<longleftrightarrow>
        \<not> (\<not> gxos_vm_arena_contains a (vr_base r) (vr_bytes r) \<or>
              vr_generation r = 0 \<or> vr_requested_bytes r = 0 \<or>
              vr_requested_bytes r > vr_bytes r \<or>
              vr_state r < GXOS_VM_RESERVATION_STATE_RESERVED \<or>
              vr_state r > GXOS_VM_RESERVATION_STATE_COMMITTED \<or>
              (vr_committed_bytes r = 0 \<and> vr_state r \<noteq> GXOS_VM_RESERVATION_STATE_RESERVED) \<or>
              (vr_committed_bytes r \<noteq> 0 \<and> vr_state r \<noteq> GXOS_VM_RESERVATION_STATE_COMMITTED) \<or>
              vr_committed_bytes r > vr_bytes r)"
      by (auto simp: reservation_ok_def not_less)
    show ?thesis
      using True
      by (auto simp: pair ok Cons.IH add_u64_def fits_iff unat_add_fits not_le add.assoc
          simp del: sorted_wrt.simps split: option.splits if_splits)
  qed
qed

lemma bounded_all_cong:
  fixes f g :: "nat \<Rightarrow> nat"
  shows "(\<And>i. i < n \<Longrightarrow> f i = g i) \<Longrightarrow> (\<forall>i < n. f i < N) \<longleftrightarrow> (\<forall>i < n. g i < N)"
  by simp

lemma commitments_loop_iff:
  "length rc = GXOS_VM_MAX_RESERVATIONS \<Longrightarrow>
   validate_commitments_loop a cs n s rc = Some p \<longleftrightarrow>
     (\<forall>c \<in> set cs. vc_live c \<longrightarrow> commitment_ok (va_reservations a) c) \<and>
     sorted_wrt commitment_compatible cs \<and> unat s + committed_sum cs < 2 ^ 64 \<and>
     (\<forall>i < GXOS_VM_MAX_RESERVATIONS. unat (rc ! i) + slot_committed i cs < 2 ^ 64) \<and>
     p = (n + of_nat (live_sum vc_live (\<lambda>_. 1) cs), s + of_nat (committed_sum cs),
          map (\<lambda>i. rc ! i + of_nat (slot_committed i cs)) [0..<GXOS_VM_MAX_RESERVATIONS])"
proof (induction cs arbitrary: n s rc)
  case Nil
  then show ?case using map_nth [of rc] by auto
next
  case (Cons c rest)
  show ?case
  proof (cases "vc_live c")
    case False
    with Cons show ?thesis by (auto simp: commitment_compatible_def)
  next
    case True
    let ?k = "vc_reservation_slot c"
    let ?bad = "list_ex (\<lambda>right. vc_live right \<and>
        ranges_overlap (vc_base c) (vc_bytes c) (vc_base right) (vc_bytes right)) rest"
    have pair: "sorted_wrt commitment_compatible (c # rest) \<longleftrightarrow>
        \<not> ?bad \<and> sorted_wrt commitment_compatible rest"
      using True by (auto simp: commitment_compatible_def list_ex_iff)
    have ok: "(?k \<ge> GXOS_VM_MAX_RESERVATIONS \<or> \<not> vr_live (va_reservations a ! ?k) \<or>
              vc_generation c = 0 \<or> vc_state c \<noteq> GXOS_VM_RESERVATION_STATE_COMMITTED \<or>
              (vc_physical_base c \<noteq> 0 \<and> vc_page_count c = 0) \<or>
              \<not> range_contains (vr_base (va_reservations a ! ?k))
                  (vr_bytes (va_reservations a ! ?k)) (vc_base c) (vc_bytes c)) \<longleftrightarrow>
        \<not> commitment_ok (va_reservations a) c"
      by (auto simp: commitment_ok_def not_le)
    show ?thesis
    proof (cases "commitment_ok (va_reservations a) c")
      case False
      with True show ?thesis unfolding validate_commitments_loop.simps ok by simp
    next
      case cok: True
      then have k: "?k < GXOS_VM_MAX_RESERVATIONS" by (simp add: commitment_ok_def)
      let ?rc = "rc[?k := rc ! ?k + vc_bytes c]"
      have slots: "(\<forall>i < GXOS_VM_MAX_RESERVATIONS.
            unat (rc ! i) + slot_committed i (c # rest) < 2 ^ 64) \<longleftrightarrow>
          unat (rc ! ?k) + unat (vc_bytes c) < 2 ^ 64 \<and>
          (\<forall>i < GXOS_VM_MAX_RESERVATIONS. unat (?rc ! i) + slot_committed i rest < 2 ^ 64)"
        (is "?L \<longleftrightarrow> ?F \<and> ?R")
      proof (cases ?F)
        case True
        have "unat (?rc ! i) + slot_committed i rest = unat (rc ! i) + slot_committed i (c # rest)"
          if "i < GXOS_VM_MAX_RESERVATIONS" for i
          using \<open>vc_live c\<close> that Cons.prems k unat_add_fits [OF True]
          by (auto simp: nth_list_update_cases)
        then have "?L \<longleftrightarrow> ?R" by (intro bounded_all_cong) (rule sym)
        with True show ?thesis by blast
      next
        case False
        with \<open>vc_live c\<close> k show ?thesis by (auto intro!: exI [of _ ?k])
      qed
      have eq: "map (\<lambda>i. ?rc ! i + of_nat (slot_committed i rest)) [0..<GXOS_VM_MAX_RESERVATIONS] =
          map (\<lambda>i. rc ! i + of_nat (slot_committed i (c # rest))) [0..<GXOS_VM_MAX_RESERVATIONS]"
        using \<open>vc_live c\<close> Cons.prems k by (auto simp: nth_list_update_cases)
      have IH: "validate_commitments_loop a rest n' s' ?rc = Some p \<longleftrightarrow>
         (\<forall>c \<in> set rest. vc_live c \<longrightarrow> commitment_ok (va_reservations a) c) \<and>
         sorted_wrt commitment_compatible rest \<and> unat s' + committed_sum rest < 2 ^ 64 \<and>
         (\<forall>i < GXOS_VM_MAX_RESERVATIONS. unat (?rc ! i) + slot_committed i rest < 2 ^ 64) \<and>
         p = (n' + of_nat (live_sum vc_live (\<lambda>_. 1) rest), s' + of_nat (committed_sum rest),
              map (\<lambda>i. ?rc ! i + of_nat (slot_committed i rest)) [0..<GXOS_VM_MAX_RESERVATIONS])"
        for n' s' by (rule Cons.IH) (use Cons.prems in simp)
      have step: "validate_commitments_loop a (c # rest) n s rc = Some p \<longleftrightarrow>
          unat s + unat (vc_bytes c) < 2 ^ 64 \<and> unat (rc ! ?k) + unat (vc_bytes c) < 2 ^ 64 \<and>
          \<not> ?bad \<and> validate_commitments_loop a rest (n + 1) (s + vc_bytes c) ?rc = Some p"
        using True cok unfolding validate_commitments_loop.simps ok
        by (auto simp: add_u64_def fits_iff split: option.splits if_splits)
      show ?thesis
        unfolding step IH slots eq pair using True cok
        by (auto simp: unat_add_fits add.assoc)
    qed
  qed
qed

text \<open>
  The invariant in closed form. The last conjunct ties each live reservation's committed bytes
  to the commitments inside it.
\<close>

lemma arena_inv_iff:
  "arena_inv a \<longleftrightarrow>
     length (va_reservations a) = GXOS_VM_MAX_RESERVATIONS \<and>
     length (va_commitments a) = GXOS_VM_MAX_COMMITMENTS \<and>
     va_valid a \<and> range_ok (va_base a) (va_length a) \<and> va_generation a \<noteq> 0 \<and>
     (\<forall>r \<in> set (va_reservations a). vr_live r \<longrightarrow> reservation_ok a r) \<and>
     sorted_wrt reservation_compatible (va_reservations a) \<and>
     (\<forall>c \<in> set (va_commitments a). vc_live c \<longrightarrow> commitment_ok (va_reservations a) c) \<and>
     sorted_wrt commitment_compatible (va_commitments a) \<and>
     unat (va_reservation_count a) = live_sum vr_live (\<lambda>_. 1) (va_reservations a) \<and>
     unat (va_commitment_count a) = live_sum vc_live (\<lambda>_. 1) (va_commitments a) \<and>
     unat (va_total_reserved_bytes a) = reserved_sum (va_reservations a) \<and>
     unat (va_total_committed_bytes a) = committed_sum (va_commitments a) \<and>
     (\<forall>i < GXOS_VM_MAX_RESERVATIONS. vr_live (va_reservations a ! i) \<longrightarrow>
        unat (vr_committed_bytes (va_reservations a ! i)) = slot_committed i (va_commitments a))"
  (is "?I \<longleftrightarrow> ?lr \<and> ?lc \<and> ?v \<and> ?ok \<and> ?g \<and> ?ro \<and> ?rs \<and> ?co \<and> ?cs \<and> ?nr \<and> ?nc \<and> ?tr \<and> ?tc \<and> ?sl")
proof (cases "?lr \<and> ?lc")
  case False
  then show ?thesis by (auto simp: arena_inv_def)
next
  case len: True
  let ?R = "va_reservations a" and ?C = "va_commitments a"
  have nr: "live_sum vr_live (\<lambda>_. 1) ?R < 2 ^ 32" and nc: "live_sum vc_live (\<lambda>_. 1) ?C < 2 ^ 32"
    using live_sum_length [of vr_live ?R] live_sum_length [of vc_live ?C] len by simp_all
  have slot_le: "slot_committed i ?C \<le> committed_sum ?C" for i
    by (rule live_sum_mono) simp
  have zip_iff: "\<not> list_ex (\<lambda>(r, sum). vr_live r \<and> sum \<noteq> vr_committed_bytes r)
        (zip ?R (map (\<lambda>i. (replicate GXOS_VM_MAX_RESERVATIONS 0) ! i + of_nat (slot_committed i ?C))
           [0..<GXOS_VM_MAX_RESERVATIONS])) \<longleftrightarrow>
      (\<forall>i < GXOS_VM_MAX_RESERVATIONS. vr_live (?R ! i) \<longrightarrow>
         vr_committed_bytes (?R ! i) = of_nat (slot_committed i ?C))"
    using len by (auto simp: list_ex_length)
  have hd: "\<not> (\<not> va_valid a \<or> va_length a = 0 \<or> va_base a > UINT64_MAX - va_length a \<or>
      va_generation a = 0) \<longleftrightarrow> ?v \<and> ?ok \<and> ?g"
    by (auto simp: range_ok_def fits_iff)
  have val: "gxos_vm_arena_validate a \<longleftrightarrow> (?v \<and> ?ok \<and> ?g) \<and> (\<exists>n s m t rc.
      validate_reservations_loop a ?R 0 0 = Some (n, s) \<and>
      validate_commitments_loop a ?C 0 0 (replicate GXOS_VM_MAX_RESERVATIONS 0) = Some (m, t, rc) \<and>
      \<not> list_ex (\<lambda>(r, sum). vr_live r \<and> sum \<noteq> vr_committed_bytes r) (zip ?R rc) \<and>
      n = va_reservation_count a \<and> m = va_commitment_count a \<and>
      s = va_total_reserved_bytes a \<and> t = va_total_committed_bytes a)"
    unfolding gxos_vm_arena_validate_def hd by (auto split: option.splits)
  also have "\<dots> \<longleftrightarrow> (?v \<and> ?ok \<and> ?g) \<and> ?ro \<and> ?rs \<and> reserved_sum ?R < 2 ^ 64 \<and> ?co \<and> ?cs \<and>
      committed_sum ?C < 2 ^ 64 \<and>
      (\<forall>i < GXOS_VM_MAX_RESERVATIONS. vr_live (?R ! i) \<longrightarrow>
         vr_committed_bytes (?R ! i) = of_nat (slot_committed i ?C)) \<and>
      va_reservation_count a = of_nat (live_sum vr_live (\<lambda>_. 1) ?R) \<and>
      va_commitment_count a = of_nat (live_sum vc_live (\<lambda>_. 1) ?C) \<and>
      va_total_reserved_bytes a = of_nat (reserved_sum ?R) \<and>
      va_total_committed_bytes a = of_nat (committed_sum ?C)"
    using slot_le unfolding zip_iff [symmetric]
    by (simp add: reservations_loop_iff commitments_loop_iff) (auto intro: le_less_trans)
  finally have val': "gxos_vm_arena_validate a \<longleftrightarrow> \<dots>" .
  have of_slot: "vr_committed_bytes (?R ! i) = of_nat (slot_committed i ?C) \<longleftrightarrow>
      unat (vr_committed_bytes (?R ! i)) = slot_committed i ?C" if "committed_sum ?C < 2 ^ 64" for i
    using sum_is_u64 [of "slot_committed i ?C" "vr_committed_bytes (?R ! i)"] le_less_trans [OF slot_le that]
    by blast
  have sl: "(\<forall>i < GXOS_VM_MAX_RESERVATIONS. vr_live (?R ! i) \<longrightarrow>
      vr_committed_bytes (?R ! i) = of_nat (slot_committed i ?C)) \<longleftrightarrow> ?sl"
    if "committed_sum ?C < 2 ^ 64"
    using of_slot [OF that] by simp
  have tr: "reserved_sum ?R < 2 ^ 64 \<and> va_total_reserved_bytes a = of_nat (reserved_sum ?R) \<longleftrightarrow> ?tr"
    and tc: "committed_sum ?C < 2 ^ 64 \<and> va_total_committed_bytes a = of_nat (committed_sum ?C) \<longleftrightarrow> ?tc"
    by (rule sum_is_u64)+
  show ?thesis
    unfolding arena_inv_def val' eq_of_nat_u32 [OF nr] eq_of_nat_u32 [OF nc]
    using len sl tr tc by blast
qed

end
