(* ===== verification/VM_Arena_Ops.thy ===== *)
theory VM_Arena_Ops
  imports VM_Arena
begin

text \<open>
  What the operations of \<open>VM_Arena\<close> do on an arena that satisfies its invariant: each
  succeeds exactly under a condition on address ranges and free slots, keeps the invariant,
  and leaves the arena as it was when it fails. The reservation table and the commitment table
  are interpretations of the slot-table interface.
\<close>

subsection \<open>Consequences of the invariant\<close>

lemma arena_inv_reservation:
  assumes "arena_inv a" and "i < GXOS_VM_MAX_RESERVATIONS" and "vr_live (va_reservations a ! i)"
  shows "reservation_ok a (va_reservations a ! i)"
  using assms by (simp add: arena_inv_iff)

lemma arena_inv_commitment:
  assumes "arena_inv a" and "i < GXOS_VM_MAX_COMMITMENTS" and "vc_live (va_commitments a ! i)"
  shows "commitment_ok (va_reservations a) (va_commitments a ! i)"
  using assms by (simp add: arena_inv_iff)

lemma reservation_ok_range: "reservation_ok a r \<Longrightarrow> range_ok (vr_base r) (vr_bytes r)"
  by (simp add: reservation_ok_def gxos_vm_arena_contains_def range_contains_iff)

lemma commitment_ok_range: "commitment_ok rs c \<Longrightarrow> range_ok (vc_base c) (vc_bytes c)"
  by (simp add: commitment_ok_def range_contains_iff)

lemma reservations_disjoint:
  "sorted_wrt reservation_compatible rs \<Longrightarrow>
     sorted_wrt (\<lambda>r s. vr_live r \<longrightarrow> vr_live s \<longrightarrow> reservation_span r \<inter> reservation_span s = {}) rs"
  by (erule sorted_wrt_mono_rel [rotated])
     (auto simp: reservation_compatible_def dest: not_ranges_overlapD)

lemma commitments_disjoint:
  "sorted_wrt commitment_compatible cs \<Longrightarrow>
     sorted_wrt (\<lambda>c d. vc_live c \<longrightarrow> vc_live d \<longrightarrow> commitment_span c \<inter> commitment_span d = {}) cs"
  by (erule sorted_wrt_mono_rel [rotated])
     (auto simp: commitment_compatible_def dest: not_ranges_overlapD)

lemma arena_reservations_disjoint:
  assumes "arena_inv a" and "i < length (va_reservations a)" "j < length (va_reservations a)" "i \<noteq> j"
    and "vr_live (va_reservations a ! i)" "vr_live (va_reservations a ! j)"
  shows "reservation_span (va_reservations a ! i) \<inter> reservation_span (va_reservations a ! j) = {}"
proof -
  have "reservation_compatible (va_reservations a ! i) (va_reservations a ! j)"
    using assms by (simp add: arena_inv_iff sorted_wrt_nth_sym [OF symp_reservation_compatible])
  with assms(5,6) show ?thesis using not_ranges_overlapD by (auto simp: reservation_compatible_def)
qed

lemma arena_commitments_disjoint:
  assumes "arena_inv a" and "i < length (va_commitments a)" "j < length (va_commitments a)" "i \<noteq> j"
    and "vc_live (va_commitments a ! i)" "vc_live (va_commitments a ! j)"
  shows "commitment_span (va_commitments a ! i) \<inter> commitment_span (va_commitments a ! j) = {}"
proof -
  have "commitment_compatible (va_commitments a ! i) (va_commitments a ! j)"
    using assms by (simp add: arena_inv_iff sorted_wrt_nth_sym [OF symp_commitment_compatible])
  with assms(5,6) show ?thesis using not_ranges_overlapD by (auto simp: commitment_compatible_def)
qed

text \<open>
  Reservations, and commitments, never account for more than the space that holds them, even
  when a further disjoint range is set aside.
\<close>

lemma reserved_sum_le:
  assumes "arena_inv a" and "range_contains (va_base a) (va_length a) b n \<or> n = 0"
    and "\<And>r. r \<in> set (va_reservations a) \<Longrightarrow> vr_live r \<Longrightarrow> bytes_from b n \<inter> reservation_span r = {}"
  shows "reserved_sum (va_reservations a) + unat n \<le> unat (va_length a)"
proof -
  let ?S = "bytes_from (va_base a) (va_length a) - bytes_from b n"
  have sub: "bytes_from b n \<subseteq> bytes_from (va_base a) (va_length a)"
    using assms(2) range_contains_subset bytes_from_empty_iff [of b n] by blast
  have "reserved_sum (va_reservations a) \<le> card ?S"
  proof (rule live_sum_le_card [where span = reservation_span])
    show "sorted_wrt (\<lambda>r s. vr_live r \<longrightarrow> vr_live s \<longrightarrow> reservation_span r \<inter> reservation_span s = {})
        (va_reservations a)"
      using assms(1) by (intro reservations_disjoint) (simp add: arena_inv_iff)
    fix r assume r: "r \<in> set (va_reservations a)" "vr_live r"
    then have "reservation_ok a r" using assms(1) by (simp add: arena_inv_iff)
    then have "reservation_span r \<subseteq> bytes_from (va_base a) (va_length a)"
      by (intro range_contains_subset) (simp add: reservation_ok_def gxos_vm_arena_contains_def)
    with assms(3) [OF r] show "reservation_span r \<subseteq> ?S \<and> unat (vr_bytes r) = card (reservation_span r)"
      by auto
  qed simp
  also have "\<dots> = unat (va_length a) - unat n"
    using card_Diff_subset [OF _ sub] by simp
  finally have "reserved_sum (va_reservations a) \<le> unat (va_length a) - unat n" .
  moreover have "unat n \<le> unat (va_length a)"
    using card_mono [OF _ sub] by simp
  ultimately show ?thesis by linarith
qed

lemma slot_committed_le:
  fixes r :: GXOS_VM_RESERVATION
  assumes "sorted_wrt commitment_compatible cs"
    and "\<And>c. c \<in> set cs \<Longrightarrow> vc_live c \<Longrightarrow> vc_reservation_slot c = i \<Longrightarrow>
      range_contains (vr_base r) (vr_bytes r) (vc_base c) (vc_bytes c)"
  shows "slot_committed i cs \<le> unat (vr_bytes r)"
proof -
  have "slot_committed i cs \<le> card (reservation_span r)"
  proof (rule live_sum_le_card [where span = commitment_span])
    show "sorted_wrt (\<lambda>c d. vc_live c \<and> vc_reservation_slot c = i \<longrightarrow>
        vc_live d \<and> vc_reservation_slot d = i \<longrightarrow> commitment_span c \<inter> commitment_span d = {}) cs"
      using commitments_disjoint [OF assms(1)] by (rule sorted_wrt_mono_rel [rotated]) auto
  qed (use assms(2) range_contains_subset in auto)
  then show ?thesis by simp
qed

lemma committed_sum_le:
  assumes "sorted_wrt commitment_compatible cs"
    and "\<And>c. c \<in> set cs \<Longrightarrow> vc_live c \<Longrightarrow> commitment_span c \<subseteq> bytes_from b n"
  shows "committed_sum cs \<le> unat n"
  using live_sum_le_card [OF commitments_disjoint [OF assms(1)], of "bytes_from b n"] assms(2)
  by auto

lemma commitment_in_arena:
  assumes "arena_inv a" and "commitment_ok (va_reservations a) c"
  shows "commitment_span c \<subseteq> bytes_from (va_base a) (va_length a)"
proof -
  let ?r = "va_reservations a ! vc_reservation_slot c"
  have "reservation_ok a ?r"
    using assms by (intro arena_inv_reservation) (simp_all add: commitment_ok_def)
  then have "reservation_span ?r \<subseteq> bytes_from (va_base a) (va_length a)"
    by (intro range_contains_subset) (simp add: reservation_ok_def gxos_vm_arena_contains_def)
  moreover have "commitment_span c \<subseteq> reservation_span ?r"
    using assms(2) by (intro range_contains_subset) (simp add: commitment_ok_def)
  ultimately show ?thesis by blast
qed

lemma arena_inv_init:
  assumes "generation \<noteq> 0" and "range_ok base len"
  shows "arena_inv (gxos_vm_arena_init base len generation)"
proof -
  have "base \<le> UINT64_MAX - len \<and> len \<noteq> 0"
    using assms(2) unfolding not_less [symmetric] fits_iff by (simp add: range_ok_def)
  with assms show ?thesis
    by (simp add: arena_inv_iff gxos_vm_arena_init_def zero_vm_reservation_def zero_vm_commitment_def
        sorted_wrt_iff_nth_less reservation_compatible_def commitment_compatible_def)
qed

subsection \<open>Reserving\<close>

text \<open>A range that can be reserved: not empty, inside the arena and free.\<close>

definition reservable :: "GXOS_VM_ARENA \<Rightarrow> u64 \<Rightarrow> u64 \<Rightarrow> bool" where
  "reservable a b n \<longleftrightarrow> range_contains (va_base a) (va_length a) b n \<and>
     (\<forall>r \<in> set (va_reservations a). vr_live r \<longrightarrow> bytes_from b n \<inter> reservation_span r = {})"

definition arena_reserved :: "GXOS_VM_ARENA \<Rightarrow> nat \<Rightarrow> GXOS_VM_RESERVATION \<Rightarrow> GXOS_VM_ARENA" where
  "arena_reserved a i r =
     a\<lparr> va_reservations := (va_reservations a)[i := r],
        va_reservation_count := va_reservation_count a + 1,
        va_total_reserved_bytes := va_total_reserved_bytes a + vr_bytes r \<rparr>"

abbreviation new_reservation :: "u64 \<Rightarrow> u64 \<Rightarrow> u64 \<Rightarrow> u32 \<Rightarrow> u32 \<Rightarrow> u64 \<Rightarrow> GXOS_VM_RESERVATION" where
  "new_reservation b n req kind owner g \<equiv>
     \<lparr> vr_live = True, vr_base = b, vr_bytes = n, vr_requested_bytes = req,
       vr_committed_bytes = 0, vr_kind = kind, vr_state = GXOS_VM_RESERVATION_STATE_RESERVED,
       vr_owner = owner, vr_generation = g \<rparr>"

lemma reservable_range: "reservable a b n \<Longrightarrow> range_ok b n"
  by (simp add: reservable_def range_contains_iff)

lemma reservable_no_overlap:
  assumes "arena_inv a" and "range_ok b n"
  shows "list_ex (\<lambda>r. vr_live r \<and> ranges_overlap b n (vr_base r) (vr_bytes r)) (va_reservations a) \<longleftrightarrow>
    \<not> (\<forall>r \<in> set (va_reservations a). vr_live r \<longrightarrow> bytes_from b n \<inter> reservation_span r = {})"
proof -
  have "ranges_overlap b n (vr_base r) (vr_bytes r) \<longleftrightarrow> bytes_from b n \<inter> reservation_span r \<noteq> {}"
    if "r \<in> set (va_reservations a)" "vr_live r" for r
    using assms that by (intro ranges_overlap_iff) (auto simp: arena_inv_iff reservation_ok_range)
  then show ?thesis by (auto simp: list_ex_iff)
qed

lemma reservation_total_fits:
  assumes "arena_inv a" and "reservable a b n"
  shows "unat (va_total_reserved_bytes a) + unat n < 2 ^ 64"
proof -
  have "reserved_sum (va_reservations a) + unat n \<le> unat (va_length a)"
    using assms by (intro reserved_sum_le) (auto simp: reservable_def)
  also have "\<dots> < 2 ^ 64" by simp
  finally show ?thesis using assms(1) by (simp add: arena_inv_iff)
qed

lemma reservation_count_lt:
  assumes "arena_inv a" and "r \<in> set (va_reservations a)" and "\<not> vr_live r"
  shows "unat (va_reservation_count a) < GXOS_VM_MAX_RESERVATIONS"
  using assms live_count_lt [of r "va_reservations a" vr_live] by (simp add: arena_inv_iff)

lemma arena_reserve_OK:
  assumes "arena_inv a" and "reservable a b n" and "g \<noteq> 0"
    and "find_index (\<lambda>r. \<not> vr_live r) (va_reservations a) = Some i"
  shows "gxos_vm_arena_reserve a b n kind g =
    (GXOS_VM_STATUS_OK, arena_reserved a i (new_reservation b n n kind 0 g), Some i)"
proof -
  note ok = reservable_range [OF assms(2)]
  have valid: "va_valid a" using assms(1) by (simp add: arena_inv_iff)
  have g1: "\<not> (\<not> va_valid a \<or> g = 0 \<or> n = 0)"
    using valid assms(3) ok by (simp add: range_ok_def)
  have g2: "\<not> b > UINT64_MAX - n" using ok by (simp add: fits_iff range_ok_def)
  have g3: "gxos_vm_arena_contains a b n"
    using valid assms(2) by (simp add: gxos_vm_arena_contains_def reservable_def)
  have g4: "\<not> list_ex (\<lambda>r. vr_live r \<and> ranges_overlap b n (vr_base r) (vr_bytes r)) (va_reservations a)"
    using reservable_no_overlap [OF assms(1) ok] assms(2) by (simp add: reservable_def)
  have g5: "\<not> unat (va_reservation_count a) \<ge> GXOS_VM_MAX_RESERVATIONS"
    using find_index_SomeD [OF assms(4)] reservation_count_lt [OF assms(1) nth_mem] by auto
  have g6: "add_u64 (va_total_reserved_bytes a) n = Some (va_total_reserved_bytes a + n)"
    using reservation_total_fits [OF assms(1,2)] by (simp add: add_u64_Some_iff)
  show ?thesis
    unfolding gxos_vm_arena_reserve_def arena_reserved_def
    by (simp only: g1 g2 g3 g4 g5 g6 assms(4) if_False simp_thms option.case) simp
qed

lemma arena_reserve_fails:
  assumes "arena_inv a"
    and "\<not> (reservable a b n \<and> g \<noteq> 0 \<and> (\<exists>r \<in> set (va_reservations a). \<not> vr_live r))"
  shows "\<exists>st. gxos_vm_arena_reserve a b n kind g = (st, a, None) \<and> st \<noteq> GXOS_VM_STATUS_OK"
proof (rule ccontr)
  assume no: "\<not> ?thesis"
  have g: "\<not> (\<not> va_valid a \<or> g = 0 \<or> n = 0)" "\<not> b > UINT64_MAX - n"
    "gxos_vm_arena_contains a b n"
    "\<not> list_ex (\<lambda>r. vr_live r \<and> ranges_overlap b n (vr_base r) (vr_bytes r)) (va_reservations a)"
    "find_index (\<lambda>r. \<not> vr_live r) (va_reservations a) \<noteq> None"
    using no unfolding gxos_vm_arena_reserve_def
    by (auto split: option.splits if_splits)
  then have ok: "range_ok b n" by (simp add: fits_iff range_ok_def not_le)
  have "reservable a b n"
    using g(3,4) reservable_no_overlap [OF assms(1) ok]
    by (simp add: reservable_def gxos_vm_arena_contains_def)
  with g(1,5) assms(2) find_index_None_iff [of "\<lambda>r. \<not> vr_live r" "va_reservations a"]
  show False by auto
qed

text \<open>Adding a well-formed uncommitted reservation in a free slot keeps the invariant.\<close>

lemma arena_reserved_inv:
  assumes "arena_inv a" and "i < GXOS_VM_MAX_RESERVATIONS" and dead: "\<not> vr_live (va_reservations a ! i)"
    and "vr_live r" and "reservation_ok a r" and "vr_committed_bytes r = 0"
    and "reservable a (vr_base r) (vr_bytes r)"
  shows "arena_inv (arena_reserved a i r)"
proof -
  let ?R = "va_reservations a"
  have len: "length ?R = GXOS_VM_MAX_RESERVATIONS" using assms(1) by (simp add: arena_inv_iff)
  have "sorted_wrt reservation_compatible (?R[i := r])"
  proof (rule sorted_wrt_update [OF symp_reservation_compatible])
    show "sorted_wrt reservation_compatible ?R" using assms(1) by (simp add: arena_inv_iff)
    fix j assume "j < length ?R"
    with reservable_no_overlap [OF assms(1) reservation_ok_range [OF assms(5)]] assms(7)
    show "reservation_compatible r (?R ! j)"
      by (auto simp: reservation_compatible_def reservable_def list_ex_iff)
  qed
  moreover have "\<forall>x \<in> set (?R[i := r]). vr_live x \<longrightarrow> reservation_ok a x"
    using assms(1,5) by (auto simp: arena_inv_iff dest!: set_update_subset_insert [THEN subsetD])
  moreover have slots: "vc_reservation_slot c \<noteq> i"
    if "c \<in> set (va_commitments a)" "vc_live c" for c
    using assms(1) dead that by (auto simp: arena_inv_iff commitment_ok_def)
  moreover have "commitment_ok (?R[i := r]) c" if "c \<in> set (va_commitments a)" "vc_live c" for c
    using slots [OF that] assms(1) that by (simp add: arena_inv_iff commitment_ok_def)
  moreover have "slot_committed i (va_commitments a) = 0"
    using slots by (intro live_sum_none) auto
  moreover have "unat (va_reservation_count a) < GXOS_VM_MAX_RESERVATIONS"
    using reservation_count_lt [OF assms(1) _ dead] assms(2) len by simp
  moreover have "reservation_ok (arena_reserved a i r) x = reservation_ok a x" for x
    by (simp add: reservation_ok_def gxos_vm_arena_contains_def arena_reserved_def)
  ultimately show ?thesis
    using assms(1,2,4,6) dead len reservation_total_fits [OF assms(1,7)]
    by (simp add: arena_inv_iff arena_reserved_def live_sum_insert unat_Suc32 unat_add_fits
        nth_list_update_cases)
qed

text \<open>
  Both fixed-address operations, with the record they store: the range must be reservable and
  a slot free.
\<close>

lemma arena_reserve_fixed_OK:
  assumes "arena_inv a" and "reservable a b (page_round_bytes req)" and "g \<noteq> 0" and "req \<noteq> 0"
    and "b mod GXOS_VM_RESERVATION_GRANULARITY = 0"
    and "find_index (\<lambda>r. \<not> vr_live r) (va_reservations a) = Some i"
  shows "gxos_vm_arena_reserve_fixed a b req kind owner g =
    (GXOS_VM_STATUS_OK,
     arena_reserved a i (new_reservation b (page_round_bytes req) req kind owner g), Some i)"
proof -
  have n: "page_round_bytes req \<noteq> 0"
    using reservable_range [OF assms(2)] by (simp add: range_ok_def)
  have i: "i < length (va_reservations a)" using find_index_SomeD [OF assms(6)] by simp
  show ?thesis
    using n i assms(4,5) arena_reserve_OK [OF assms(1,2,3,6)]
    by (simp add: gxos_vm_arena_reserve_fixed_def Let_def arena_reserved_def)
qed

lemma arena_reserve_fixed_fails:
  assumes "arena_inv a"
    and "\<not> (reservable a b (page_round_bytes req) \<and> g \<noteq> 0 \<and> req \<noteq> 0 \<and>
      b mod GXOS_VM_RESERVATION_GRANULARITY = 0 \<and> (\<exists>r \<in> set (va_reservations a). \<not> vr_live r))"
  shows "\<exists>st. gxos_vm_arena_reserve_fixed a b req kind owner g = (st, a, None) \<and>
    st \<noteq> GXOS_VM_STATUS_OK"
proof (cases "req = 0 \<or> b mod GXOS_VM_RESERVATION_GRANULARITY \<noteq> 0 \<or> page_round_bytes req = 0")
  case True
  then show ?thesis by (auto simp: gxos_vm_arena_reserve_fixed_def Let_def)
next
  case False
  with assms(2) have "\<not> (reservable a b (page_round_bytes req) \<and> g \<noteq> 0 \<and>
      (\<exists>r \<in> set (va_reservations a). \<not> vr_live r))" by blast
  from arena_reserve_fails [OF assms(1) this, of kind] obtain st
    where "gxos_vm_arena_reserve a b (page_round_bytes req) kind g = (st, a, None)"
      "st \<noteq> GXOS_VM_STATUS_OK" by blast
  with False show ?thesis
    by (cases st) (auto simp: gxos_vm_arena_reserve_fixed_def Let_def)
qed

lemma new_reservation_ok:
  assumes "arena_inv a" and "reservable a b n" and "g \<noteq> 0" and "req \<noteq> 0" and "req \<le> n"
  shows "reservation_ok a (new_reservation b n req kind owner g)"
  using assms by (simp add: reservation_ok_def gxos_vm_arena_contains_def arena_inv_iff reservable_def)

lemma page_round_ge: "page_round_bytes req \<noteq> 0 \<Longrightarrow> req \<le> page_round_bytes req"
  by (simp add: word_le_nat_alt page_round_bytes_nat(2) ceil_to_ge)

lemma new_reservation_inv:
  assumes "arena_inv a" and "reservable a b n" and "g \<noteq> 0" and "req \<noteq> 0" and "req \<le> n"
    and "find_index (\<lambda>r. \<not> vr_live r) (va_reservations a) = Some i"
  shows "arena_inv (arena_reserved a i (new_reservation b n req kind owner g))"
  using assms find_index_SomeD [OF assms(6)] new_reservation_ok [OF assms(1-5)]
  by (intro arena_reserved_inv) (simp_all add: arena_inv_iff)

lemma arena_reserve_keeps:
  assumes "arena_inv a" and "gxos_vm_arena_reserve a b n kind g = (st, a', s)"
  shows "arena_inv a'"
proof (cases "reservable a b n \<and> g \<noteq> 0 \<and> (\<exists>r \<in> set (va_reservations a). \<not> vr_live r)")
  case True
  then obtain i where i: "find_index (\<lambda>r. \<not> vr_live r) (va_reservations a) = Some i"
    using find_index_ex [where P = "\<lambda>r. \<not> vr_live r"] by blast
  have "n \<noteq> 0" using True reservable_range by (auto simp: range_ok_def)
  with arena_reserve_OK [OF assms(1) _ _ i] new_reservation_inv [OF assms(1) _ _ _ _ i] True assms(2)
  show ?thesis by auto
next
  case False
  from arena_reserve_fails [OF assms(1) False, of kind] assms show ?thesis by auto
qed

lemma arena_reserve_fixed_keeps:
  assumes "arena_inv a" and "gxos_vm_arena_reserve_fixed a b req kind owner g = (st, a', s)"
  shows "arena_inv a'"
proof (cases "reservable a b (page_round_bytes req) \<and> g \<noteq> 0 \<and> req \<noteq> 0 \<and>
    b mod GXOS_VM_RESERVATION_GRANULARITY = 0 \<and> (\<exists>r \<in> set (va_reservations a). \<not> vr_live r)")
  case True
  then obtain i where i: "find_index (\<lambda>r. \<not> vr_live r) (va_reservations a) = Some i"
    using find_index_ex [where P = "\<lambda>r. \<not> vr_live r"] by blast
  have "page_round_bytes req \<noteq> 0" using True reservable_range by (auto simp: range_ok_def)
  then have "req \<le> page_round_bytes req" by (rule page_round_ge)
  with arena_reserve_fixed_OK [OF assms(1) _ _ _ _ i] new_reservation_inv [OF assms(1) _ _ _ _ i]
    True assms(2) show ?thesis by auto
next
  case False
  from arena_reserve_fixed_fails [OF assms(1) False, of kind owner] assms show ?thesis by auto
qed

subsection \<open>Releasing\<close>

definition arena_released :: "GXOS_VM_ARENA \<Rightarrow> nat \<Rightarrow> GXOS_VM_ARENA" where
  "arena_released a i =
     a\<lparr> va_total_reserved_bytes := va_total_reserved_bytes a - vr_bytes (va_reservations a ! i),
        va_reservation_count := va_reservation_count a - 1,
        va_reservations := (va_reservations a)[i := zero_vm_reservation] \<rparr>"

text \<open>A reservation can be released when it is live and nothing is committed in it.\<close>

definition releasable :: "GXOS_VM_ARENA \<Rightarrow> nat \<Rightarrow> bool" where
  "releasable a i \<longleftrightarrow> i < GXOS_VM_MAX_RESERVATIONS \<and> vr_live (va_reservations a ! i) \<and>
     (\<forall>c \<in> set (va_commitments a). vc_live c \<longrightarrow> vc_reservation_slot c \<noteq> i)"

lemma committed_zero_iff:
  assumes "arena_inv a" and "i < GXOS_VM_MAX_RESERVATIONS" and "vr_live (va_reservations a ! i)"
  shows "vr_committed_bytes (va_reservations a ! i) = 0 \<longleftrightarrow>
    (\<forall>c \<in> set (va_commitments a). vc_live c \<longrightarrow> vc_reservation_slot c \<noteq> i)" (is "?L \<longleftrightarrow> ?R")
proof -
  have L: "?L \<longleftrightarrow> slot_committed i (va_commitments a) = 0"
    using assms by (simp add: arena_inv_iff unat_eq_iff [of _ 0])
  show ?thesis
  proof
    assume ?L
    show ?R
    proof (intro ballI impI notI)
      fix c assume c: "c \<in> set (va_commitments a)" "vc_live c" "vc_reservation_slot c = i"
      with \<open>?L\<close> L have "unat (vc_bytes c) = 0" by (auto dest: live_sum_zeroD)
      moreover have "range_ok (vc_base c) (vc_bytes c)"
        using assms(1) c by (intro commitment_ok_range) (auto simp: arena_inv_iff)
      ultimately show False by (simp add: range_ok_def unat_eq_zero)
    qed
  next
    assume ?R
    then show ?L unfolding L by (intro live_sum_none) auto
  qed
qed

lemma reservation_le_total:
  assumes "arena_inv a" and "i < GXOS_VM_MAX_RESERVATIONS" and "vr_live (va_reservations a ! i)"
  shows "vr_bytes (va_reservations a ! i) \<le> va_total_reserved_bytes a"
    and "va_reservation_count a \<noteq> 0"
proof -
  note ge = live_sum_ge [where P = vr_live and xs = "va_reservations a" and i = i]
  show "vr_bytes (va_reservations a ! i) \<le> va_total_reserved_bytes a"
    using ge [of "\<lambda>r. unat (vr_bytes r)"] assms by (simp add: arena_inv_iff word_le_nat_alt)
  show "va_reservation_count a \<noteq> 0"
    using ge [of "\<lambda>_. 1"] assms by (auto simp: arena_inv_iff)
qed

lemma arena_release_OK:
  assumes "arena_inv a" and "releasable a i"
  shows "gxos_vm_arena_release a i = (GXOS_VM_STATUS_OK, arena_released a i)"
proof -
  have i: "i < GXOS_VM_MAX_RESERVATIONS" "vr_live (va_reservations a ! i)"
    using assms(2) by (auto simp: releasable_def)
  have "vr_committed_bytes (va_reservations a ! i) = 0"
    using committed_zero_iff [OF assms(1) i] assms(2) by (simp add: releasable_def)
  then show ?thesis
    using i assms(1) reservation_le_total [OF assms(1) i]
    by (simp add: gxos_vm_arena_release_def arena_released_def Let_def arena_inv_iff
        not_less [symmetric])
qed

lemma arena_release_fails:
  assumes "arena_inv a" and "\<not> releasable a i"
  shows "\<exists>st. gxos_vm_arena_release a i = (st, a) \<and> st \<noteq> GXOS_VM_STATUS_OK"
  using assms committed_zero_iff [OF assms(1), of i]
  by (auto simp: gxos_vm_arena_release_def releasable_def Let_def)

lemma zero_vm_reservation_dead [simp]: "\<not> vr_live zero_vm_reservation"
  by (simp add: zero_vm_reservation_def)

lemma arena_released_inv:
  assumes "arena_inv a" and "releasable a i"
  shows "arena_inv (arena_released a i)"
proof -
  let ?R = "va_reservations a"
  have i: "i < length ?R" "vr_live (?R ! i)"
    using assms by (auto simp: releasable_def arena_inv_iff)
  note del = live_sum_delete [where P = vr_live and xs = ?R and i = i and x = zero_vm_reservation,
      OF i zero_vm_reservation_dead]
  have "sorted_wrt reservation_compatible (?R[i := zero_vm_reservation])"
    by (rule sorted_wrt_update [OF symp_reservation_compatible])
       (use assms(1) in \<open>simp_all add: arena_inv_iff reservation_compatible_def\<close>)
  moreover have "\<forall>x \<in> set (?R[i := zero_vm_reservation]). vr_live x \<longrightarrow> reservation_ok a x"
    using assms(1) by (auto simp: arena_inv_iff dest!: set_update_subset_insert [THEN subsetD])
  moreover have "commitment_ok (?R[i := zero_vm_reservation]) c"
    if "c \<in> set (va_commitments a)" "vc_live c" for c
    using assms that by (auto simp: arena_inv_iff commitment_ok_def releasable_def)
  moreover have "reservation_ok (arena_released a i) x = reservation_ok a x" for x
    by (simp add: reservation_ok_def gxos_vm_arena_contains_def arena_released_def)
  moreover have "vr_bytes (?R ! i) \<le> va_total_reserved_bytes a" "va_reservation_count a \<noteq> 0"
    using reservation_le_total [OF assms(1)] assms(2) by (auto simp: releasable_def)
  ultimately show ?thesis
    using assms(1) i del [of "\<lambda>r. unat (vr_bytes r)"] del [of "\<lambda>_. 1"]
    by (auto simp: arena_inv_iff arena_released_def unat_sub_le unat_pred nth_list_update_cases)
qed

lemma arena_release_keeps:
  assumes "arena_inv a" and "gxos_vm_arena_release a i = (st, a')"
  shows "arena_inv a'"
  using assms arena_release_OK [OF assms(1), of i] arena_release_fails [OF assms(1), of i]
    arena_released_inv [OF assms(1), of i]
  by (cases "releasable a i") auto

subsection \<open>Committing\<close>

text \<open>A commitment can be recorded when it lies in its live reservation and its range is free.\<close>

definition committable :: "GXOS_VM_ARENA \<Rightarrow> GXOS_VM_COMMITMENT \<Rightarrow> bool" where
  "committable a c \<longleftrightarrow> vc_live c \<and> commitment_ok (va_reservations a) c \<and>
     (\<forall>d \<in> set (va_commitments a). vc_live d \<longrightarrow> commitment_span c \<inter> commitment_span d = {})"

lemma commit_sorted:
  assumes "arena_inv a" and "committable a c"
  shows "sorted_wrt commitment_compatible ((va_commitments a)[i := c])"
proof (rule sorted_wrt_update [OF symp_commitment_compatible])
  show "sorted_wrt commitment_compatible (va_commitments a)" using assms(1) by (simp add: arena_inv_iff)
  fix j assume j: "j < length (va_commitments a)"
  let ?d = "va_commitments a ! j"
  have "ranges_overlap (vc_base c) (vc_bytes c) (vc_base ?d) (vc_bytes ?d) \<longleftrightarrow>
      commitment_span c \<inter> commitment_span ?d \<noteq> {}" if "vc_live ?d"
    using assms j that
    by (intro ranges_overlap_iff) (auto simp: arena_inv_iff committable_def intro: commitment_ok_range)
  with assms(2) j show "commitment_compatible c ?d"
    by (auto simp: commitment_compatible_def committable_def)
qed

lemma commit_sums:
  assumes "arena_inv a" and "i < GXOS_VM_MAX_COMMITMENTS" and "\<not> vc_live (va_commitments a ! i)"
    and "committable a c"
  shows "unat (va_total_committed_bytes a) + unat (vc_bytes c) < 2 ^ 64"
    and "unat (vr_committed_bytes (va_reservations a ! vc_reservation_slot c)) + unat (vc_bytes c) \<le>
      unat (vr_bytes (va_reservations a ! vc_reservation_slot c))"
proof -
  let ?C = "va_commitments a" and ?k = "vc_reservation_slot c"
  have i: "i < length ?C" using assms(1,2) by (simp add: arena_inv_iff)
  have c: "vc_live c" "commitment_ok (va_reservations a) c" using assms(4) by (auto simp: committable_def)
  have mem: "d = c \<or> d \<in> set ?C" if "d \<in> set (?C[i := c])" for d
    using that by (auto dest!: set_update_subset_insert [THEN subsetD])
  have ok: "commitment_ok (va_reservations a) d" if "d \<in> set (?C[i := c])" "vc_live d" for d
    using mem [OF that(1)] that(2) c assms(1) by (auto simp: arena_inv_iff)
  have "committed_sum (?C[i := c]) \<le> unat (va_length a)"
    using ok commitment_in_arena [OF assms(1)]
    by (intro committed_sum_le [OF commit_sorted [OF assms(1,4)], of i "va_base a"]) blast
  also have "\<dots> < 2 ^ 64" by simp
  finally show "unat (va_total_committed_bytes a) + unat (vc_bytes c) < 2 ^ 64"
    using i assms(1,3) c by (simp add: arena_inv_iff live_sum_insert)
  have "slot_committed ?k (?C[i := c]) \<le> unat (vr_bytes (va_reservations a ! ?k))"
  proof (rule slot_committed_le [OF commit_sorted [OF assms(1,4)]])
    fix d assume "d \<in> set (?C[i := c])" "vc_live d" "vc_reservation_slot d = ?k"
    with ok [of d] show "range_contains (vr_base (va_reservations a ! ?k))
        (vr_bytes (va_reservations a ! ?k)) (vc_base d) (vc_bytes d)"
      by (simp add: commitment_ok_def)
  qed
  with i assms(1,3) c
  show "unat (vr_committed_bytes (va_reservations a ! ?k)) + unat (vc_bytes c) \<le>
      unat (vr_bytes (va_reservations a ! ?k))"
    by (simp add: arena_inv_iff commitment_ok_def live_sum_insert)
qed

lemma commitment_count_lt:
  assumes "arena_inv a" and "c \<in> set (va_commitments a)" and "\<not> vc_live c"
  shows "unat (va_commitment_count a) < GXOS_VM_MAX_COMMITMENTS"
  using assms live_count_lt [of c "va_commitments a" vc_live] by (simp add: arena_inv_iff)

text \<open>
  Both directions of a commit rewrite one commitment slot and one reservation's committed
  bytes. The invariant survives when the new sums are right.
\<close>

lemma arena_retable_inv:
  assumes "arena_inv a" and "k < GXOS_VM_MAX_RESERVATIONS" and "vr_live (va_reservations a ! k)"
    and r: "r = (va_reservations a ! k)\<lparr> vr_committed_bytes := m, vr_state := s \<rparr>"
    and "reservation_ok a r"
    and a': "a' = a\<lparr> va_commitments := cs, va_commitment_count := n, va_total_committed_bytes := t,
      va_reservations := (va_reservations a)[k := r] \<rparr>"
    and "length cs = GXOS_VM_MAX_COMMITMENTS"
    and "\<And>c. c \<in> set cs \<Longrightarrow> vc_live c \<Longrightarrow> commitment_ok (va_reservations a) c"
    and "sorted_wrt commitment_compatible cs"
    and "unat n = live_sum vc_live (\<lambda>_. 1) cs" and "unat t = committed_sum cs"
    and "\<And>j. j \<noteq> k \<Longrightarrow> slot_committed j cs = slot_committed j (va_commitments a)"
    and "unat m = slot_committed k cs"
  shows "arena_inv a'"
proof -
  let ?R = "va_reservations a"
  have len: "length ?R = GXOS_VM_MAX_RESERVATIONS" using assms(1) by (simp add: arena_inv_iff)
  have same: "commitment_ok (?R[k := r]) d = commitment_ok ?R d" for d
    using assms(2,3) len by (auto simp: commitment_ok_def r nth_list_update)
  have ra: "reservation_ok a' x = reservation_ok a x" for x
    by (simp add: reservation_ok_def gxos_vm_arena_contains_def a')
  have 1: "\<forall>x \<in> set (?R[k := r]). vr_live x \<longrightarrow> reservation_ok a' x"
    using assms(1,5) ra by (auto simp: arena_inv_iff dest!: set_update_subset_insert [THEN subsetD])
  have 2: "sorted_wrt reservation_compatible (?R[k := r])"
  proof (rule sorted_wrt_update [OF symp_reservation_compatible])
    show so: "sorted_wrt reservation_compatible ?R" using assms(1) by (simp add: arena_inv_iff)
    fix j assume "j < length ?R" "j \<noteq> k"
    with so assms(2) len have "reservation_compatible (?R ! k) (?R ! j)"
      by (auto simp: sorted_wrt_nth_sym [OF symp_reservation_compatible])
    then show "reservation_compatible r (?R ! j)" by (simp add: reservation_compatible_def r)
  qed
  have "live_sum vr_live w (?R[k := r]) = live_sum vr_live w ?R" if "w r = w (?R ! k)" for w :: "_ \<Rightarrow> nat"
    using live_sum_update [of k ?R vr_live w r] assms(2,3) len that by (simp add: r)
  then have 3: "live_sum vr_live (\<lambda>_. 1) (?R[k := r]) = live_sum vr_live (\<lambda>_. 1) ?R"
    "reserved_sum (?R[k := r]) = reserved_sum ?R"
    by (simp_all add: r)
  have 4: "\<forall>j < GXOS_VM_MAX_RESERVATIONS. vr_live (?R[k := r] ! j) \<longrightarrow>
      unat (vr_committed_bytes (?R[k := r] ! j)) = slot_committed j cs"
    using assms(1,2,12,13) len by (auto simp: nth_list_update arena_inv_iff r)
  have 5: "\<forall>c \<in> set cs. vc_live c \<longrightarrow> commitment_ok (?R[k := r]) c" using assms(8) same by simp
  have sel: "va_reservations a' = ?R[k := r]" "va_commitments a' = cs" "va_commitment_count a' = n"
    "va_total_committed_bytes a' = t" "va_valid a' = va_valid a" "va_base a' = va_base a"
    "va_length a' = va_length a" "va_generation a' = va_generation a"
    "va_reservation_count a' = va_reservation_count a"
    "va_total_reserved_bytes a' = va_total_reserved_bytes a"
    by (simp_all add: a')
  show ?thesis
    using assms(1,7,9,10,11) 1 2 4 5 unfolding arena_inv_iff sel 3 by simp
qed

lemma arena_commit_inv:
  assumes "arena_inv a" and "i < GXOS_VM_MAX_COMMITMENTS" and dead: "\<not> vc_live (va_commitments a ! i)"
    and c: "committable a c"
  shows "arena_inv (arena_record_commit a i c)"
proof (rule arena_retable_inv [OF assms(1)])
  let ?R = "va_reservations a" and ?C = "va_commitments a" and ?k = "vc_reservation_slot c"
  let ?m = "vr_committed_bytes (?R ! ?k) + vc_bytes c"
  have len: "length ?C = GXOS_VM_MAX_COMMITMENTS" using assms(1) by (simp add: arena_inv_iff)
  show k: "?k < GXOS_VM_MAX_RESERVATIONS" "vr_live (?R ! ?k)"
    using c by (auto simp: committable_def commitment_ok_def)
  have live: "vc_live c" and bytes: "vc_bytes c \<noteq> 0" and ok: "commitment_ok ?R c"
    using c by (auto simp: committable_def commitment_ok_def range_contains_iff range_ok_def)
  note sums = commit_sums [OF assms(1,2) dead c]
  have "unat (vr_committed_bytes (?R ! ?k)) + unat (vc_bytes c) < 2 ^ 64"
    using le_less_trans [OF sums(2) unat_lt_2p64] by simp
  then have m: "unat ?m = unat (vr_committed_bytes (?R ! ?k)) + unat (vc_bytes c)"
    by (rule unat_add_fits)
  then have "?m \<noteq> 0" using bytes by (auto simp: unat_eq_iff)
  moreover have "?m \<le> vr_bytes (?R ! ?k)" using m sums(2) by (simp add: word_le_nat_alt)
  ultimately show "reservation_ok a ((?R ! ?k)\<lparr> vr_committed_bytes := ?m,
      vr_state := GXOS_VM_RESERVATION_STATE_COMMITTED \<rparr>)"
    using arena_inv_reservation [OF assms(1) k] by (simp add: reservation_ok_def)
  show "d \<in> set (?C[i := c]) \<Longrightarrow> vc_live d \<Longrightarrow> commitment_ok ?R d" for d
    using assms(1) ok by (auto simp: arena_inv_iff dest!: set_update_subset_insert [THEN subsetD])
  show "sorted_wrt commitment_compatible (?C[i := c])" using assms(1) c by (rule commit_sorted)
  have "unat (va_commitment_count a) < GXOS_VM_MAX_COMMITMENTS"
    using commitment_count_lt [OF assms(1) nth_mem dead] assms(2) len by simp
  then show "unat (va_commitment_count a + 1) = live_sum vc_live (\<lambda>_. 1) (?C[i := c])"
    using assms dead live by (simp add: live_sum_insert unat_Suc32 arena_inv_iff)
  show "unat (va_total_committed_bytes a + vc_bytes c) = committed_sum (?C[i := c])"
    using assms dead live sums(1) by (simp add: live_sum_insert unat_add_fits arena_inv_iff)
  have slot: "slot_committed j (?C[i := c]) =
      slot_committed j ?C + (if j = ?k then unat (vc_bytes c) else 0)" for j
    using live_sum_update [of i ?C "\<lambda>c. vc_live c \<and> vc_reservation_slot c = j" "\<lambda>c. unat (vc_bytes c)" c]
      dead live assms(2) len by auto
  show "j \<noteq> ?k \<Longrightarrow> slot_committed j (?C[i := c]) = slot_committed j ?C" for j
    using slot by simp
  show "unat ?m = slot_committed ?k (?C[i := c])"
    using slot [of ?k] m assms(1) k by (simp add: arena_inv_iff)
qed (use assms(1) in \<open>simp_all add: arena_record_commit_def arena_inv_iff\<close>)

lemma commitment_overlap_iff:
  assumes "arena_inv a" and "range_ok b n"
  shows "list_ex (\<lambda>c. vc_live c \<and> ranges_overlap b n (vc_base c) (vc_bytes c)) (va_commitments a) \<longleftrightarrow>
    \<not> (\<forall>d \<in> set (va_commitments a). vc_live d \<longrightarrow> bytes_from b n \<inter> commitment_span d = {})"
proof -
  have "ranges_overlap b n (vc_base c) (vc_bytes c) \<longleftrightarrow> bytes_from b n \<inter> commitment_span c \<noteq> {}"
    if "c \<in> set (va_commitments a)" "vc_live c" for c
    using assms that by (intro ranges_overlap_iff) (auto simp: arena_inv_iff intro: commitment_ok_range)
  then show ?thesis by (auto simp: list_ex_iff)
qed

abbreviation new_commitment :: "nat \<Rightarrow> u64 \<Rightarrow> u64 \<Rightarrow> u64 \<Rightarrow> u64 \<Rightarrow> u64 \<Rightarrow> GXOS_VM_COMMITMENT" where
  "new_commitment k b n phys pages g \<equiv>
     \<lparr> vc_live = True, vc_reservation_slot = k, vc_base = b, vc_bytes = n,
       vc_physical_base = phys, vc_page_count = pages,
       vc_state = GXOS_VM_RESERVATION_STATE_COMMITTED, vc_generation = g \<rparr>"

text \<open>When a commit of a range can succeed.\<close>

definition commit_ready :: "GXOS_VM_ARENA \<Rightarrow> u64 \<Rightarrow> u64 \<Rightarrow> u64 \<Rightarrow> bool" where
  "commit_ready a b n g \<longleftrightarrow> g \<noteq> 0 \<and>
     (\<exists>r \<in> set (va_reservations a). vr_live r \<and> range_contains (vr_base r) (vr_bytes r) b n) \<and>
     (\<forall>d \<in> set (va_commitments a). vc_live d \<longrightarrow> bytes_from b n \<inter> commitment_span d = {}) \<and>
     (\<exists>d \<in> set (va_commitments a). \<not> vc_live d)"

lemma arena_commit_OK:
  assumes "arena_inv a" and "commit_ready a b n g"
  shows "\<exists>i k. find_index (\<lambda>c. \<not> vc_live c) (va_commitments a) = Some i \<and>
    committable a (new_commitment k b n 0 (n div GXOS_VM_PAGE_SIZE +
      (if n mod GXOS_VM_PAGE_SIZE \<noteq> 0 then 1 else 0)) g) \<and>
    gxos_vm_arena_commit a b n g = (GXOS_VM_STATUS_OK,
      arena_record_commit a i (new_commitment k b n 0 (n div GXOS_VM_PAGE_SIZE +
        (if n mod GXOS_VM_PAGE_SIZE \<noteq> 0 then 1 else 0)) g))"
proof -
  let ?P = "\<lambda>r. vr_live r \<and> range_contains (vr_base r) (vr_bytes r) b n"
  let ?c = "\<lambda>k. new_commitment k b n 0 (n div GXOS_VM_PAGE_SIZE +
        (if n mod GXOS_VM_PAGE_SIZE \<noteq> 0 then 1 else 0)) g"
  obtain k where k: "find_index ?P (va_reservations a) = Some k"
    using assms(2) find_index_ex [of _ "va_reservations a" ?P] unfolding commit_ready_def by blast
  obtain i where i: "find_index (\<lambda>c. \<not> vc_live c) (va_commitments a) = Some i"
    using assms(2) find_index_ex [of _ "va_commitments a" "\<lambda>c. \<not> vc_live c"]
    unfolding commit_ready_def by blast
  note kD = find_index_SomeD [OF k] and iD = find_index_SomeD [OF i]
  have i': "i < GXOS_VM_MAX_COMMITMENTS" "\<not> vc_live (va_commitments a ! i)"
    using iD assms(1) by (simp_all add: arena_inv_iff)
  have ok: "range_ok b n" using kD by (simp add: range_contains_iff)
  have c: "committable a (?c k)"
    using kD assms by (simp add: committable_def commitment_ok_def commit_ready_def arena_inv_iff)
  note sums = commit_sums [OF assms(1) i' c]
  have g1: "\<not> (\<not> va_valid a \<or> g = 0 \<or> n = 0)"
    using assms ok by (simp add: arena_inv_iff commit_ready_def range_ok_def)
  have g2: "\<not> b > UINT64_MAX - n" using ok by (simp add: fits_iff range_ok_def)
  have g3: "\<not> list_ex (\<lambda>c. vc_live c \<and> ranges_overlap b n (vc_base c) (vc_bytes c)) (va_commitments a)"
    using commitment_overlap_iff [OF assms(1) ok] assms(2) by (simp add: commit_ready_def)
  have g4: "\<not> unat (va_commitment_count a) \<ge> GXOS_VM_MAX_COMMITMENTS"
    using commitment_count_lt [OF assms(1) nth_mem i'(2)] iD by simp
  have "unat (vr_committed_bytes (va_reservations a ! k)) + unat n < 2 ^ 64"
    using le_less_trans [OF sums(2) unat_lt_2p64] by simp
  with sums(1) have g5: "\<not> (add_u64 (va_total_committed_bytes a) n = None \<or>
      add_u64 (vr_committed_bytes (va_reservations a ! k)) n = None)"
    by (simp add: add_u64_None_iff)
  have "gxos_vm_arena_commit a b n g = (GXOS_VM_STATUS_OK, arena_record_commit a i (?c k))"
    unfolding gxos_vm_arena_commit_def
    by (simp only: g1 g2 k g3 g4 g5 i if_False option.case)
  with i c show ?thesis by blast
qed

lemma arena_commit_fails:
  assumes "arena_inv a" and "\<not> commit_ready a b n g"
  shows "\<exists>st. gxos_vm_arena_commit a b n g = (st, a) \<and> st \<noteq> GXOS_VM_STATUS_OK"
proof (rule ccontr)
  assume no: "\<not> ?thesis"
  let ?P = "\<lambda>r. vr_live r \<and> range_contains (vr_base r) (vr_bytes r) b n"
  have g: "\<not> (\<not> va_valid a \<or> g = 0 \<or> n = 0)" "\<not> b > UINT64_MAX - n"
    "find_index ?P (va_reservations a) \<noteq> None"
    "\<not> list_ex (\<lambda>c. vc_live c \<and> ranges_overlap b n (vc_base c) (vc_bytes c)) (va_commitments a)"
    "find_index (\<lambda>c. \<not> vc_live c) (va_commitments a) \<noteq> None"
    using no unfolding gxos_vm_arena_commit_def by (auto split: option.splits if_splits)
  then have ok: "range_ok b n" by (simp add: fits_iff range_ok_def not_le)
  have "commit_ready a b n g"
    using g commitment_overlap_iff [OF assms(1) ok]
      find_index_None_iff [of ?P "va_reservations a"]
      find_index_None_iff [of "\<lambda>c. \<not> vc_live c" "va_commitments a"]
    by (simp add: commit_ready_def)
  with assms(2) show False ..
qed

lemma arena_commit_keeps:
  assumes "arena_inv a" and "gxos_vm_arena_commit a b n g = (st, a')"
  shows "arena_inv a'"
proof (cases "commit_ready a b n g")
  case True
  from arena_commit_OK [OF assms(1) True] assms(2) obtain i c where
    "find_index (\<lambda>c. \<not> vc_live c) (va_commitments a) = Some i" "committable a c"
    "a' = arena_record_commit a i c" by auto
  with arena_commit_inv [OF assms(1), of i c] find_index_SomeD [of _ "va_commitments a" i] assms(1)
  show ?thesis by (auto simp: arena_inv_iff)
next
  case False
  from arena_commit_fails [OF assms(1) False] assms show ?thesis by auto
qed

subsection \<open>Decommitting\<close>

lemma zero_vm_commitment_dead [simp]: "\<not> vc_live zero_vm_commitment"
  by (simp add: zero_vm_commitment_def)

lemma commitment_le_totals:
  assumes "arena_inv a" and "i < GXOS_VM_MAX_COMMITMENTS" and "vc_live (va_commitments a ! i)"
  defines "k \<equiv> vc_reservation_slot (va_commitments a ! i)"
  shows "vc_bytes (va_commitments a ! i) \<le> va_total_committed_bytes a"
    and "vc_bytes (va_commitments a ! i) \<le> vr_committed_bytes (va_reservations a ! k)"
    and "va_commitment_count a \<noteq> 0"
    and "k < GXOS_VM_MAX_RESERVATIONS" and "vr_live (va_reservations a ! k)"
proof -
  have i: "i < length (va_commitments a)" using assms(1,2) by (simp add: arena_inv_iff)
  note ge = live_sum_ge [OF i]
  show k: "k < GXOS_VM_MAX_RESERVATIONS" "vr_live (va_reservations a ! k)"
    using arena_inv_commitment [OF assms(1-3)] by (simp_all add: commitment_ok_def k_def)
  show "vc_bytes (va_commitments a ! i) \<le> va_total_committed_bytes a"
    using ge [of vc_live "\<lambda>c. unat (vc_bytes c)"] assms(1,3) by (simp add: arena_inv_iff word_le_nat_alt)
  show "va_commitment_count a \<noteq> 0"
    using ge [of vc_live "\<lambda>_. 1"] assms(1,3) by (auto simp: arena_inv_iff)
  show "vc_bytes (va_commitments a ! i) \<le> vr_committed_bytes (va_reservations a ! k)"
    using ge [of "\<lambda>c. vc_live c \<and> vc_reservation_slot c = k" "\<lambda>c. unat (vc_bytes c)"] assms(1,3) k
    by (simp add: arena_inv_iff word_le_nat_alt k_def)
qed

lemma arena_decommit_inv:
  assumes "arena_inv a" and "i < GXOS_VM_MAX_COMMITMENTS" and live: "vc_live (va_commitments a ! i)"
  shows "arena_inv (arena_record_decommit a i)"
proof (rule arena_retable_inv [OF assms(1)])
  let ?R = "va_reservations a" and ?C = "va_commitments a" and ?c = "va_commitments a ! i"
  let ?k = "vc_reservation_slot ?c" and ?D = "(va_commitments a)[i := zero_vm_commitment]"
  let ?m = "vr_committed_bytes (?R ! ?k) - vc_bytes ?c"
  let ?s = "if ?m = 0 then GXOS_VM_RESERVATION_STATE_RESERVED else vr_state (?R ! ?k)"
  note tot = commitment_le_totals [OF assms]
  have len: "length ?C = GXOS_VM_MAX_COMMITMENTS" using assms(1) by (simp add: arena_inv_iff)
  show "?k < GXOS_VM_MAX_RESERVATIONS" "vr_live (?R ! ?k)" by (fact tot)+
  have bytes: "vc_bytes ?c \<noteq> 0"
    using commitment_ok_range [OF arena_inv_commitment [OF assms]] by (simp add: range_ok_def)
  have m: "unat ?m = unat (vr_committed_bytes (?R ! ?k)) - unat (vc_bytes ?c)"
    by (rule unat_sub_le [OF tot(2)])
  have "vr_committed_bytes (?R ! ?k) \<noteq> 0" using tot(2) bytes by (auto simp: word_le_nat_alt unat_eq_iff)
  moreover have "?m \<le> vr_committed_bytes (?R ! ?k)" using m by (simp add: word_le_nat_alt)
  ultimately show "reservation_ok a ((?R ! ?k)\<lparr> vr_committed_bytes := ?m, vr_state := ?s \<rparr>)"
    using arena_inv_reservation [OF assms(1) tot(4,5)]
    by (auto simp: reservation_ok_def intro: order_trans)
  show "d \<in> set ?D \<Longrightarrow> vc_live d \<Longrightarrow> commitment_ok ?R d" for d
    using assms(1) by (auto simp: arena_inv_iff dest!: set_update_subset_insert [THEN subsetD])
  show "sorted_wrt commitment_compatible ?D"
    by (rule sorted_wrt_update [OF symp_commitment_compatible])
       (use assms(1) in \<open>simp_all add: arena_inv_iff commitment_compatible_def\<close>)
  show "unat (va_commitment_count a - 1) = live_sum vc_live (\<lambda>_. 1) ?D"
    using live_sum_delete [of i ?C vc_live zero_vm_commitment "\<lambda>_. 1"] assms tot(3) len
    by (simp add: unat_pred arena_inv_iff)
  show "unat (va_total_committed_bytes a - vc_bytes ?c) = committed_sum ?D"
    using live_sum_delete [of i ?C vc_live zero_vm_commitment "\<lambda>c. unat (vc_bytes c)"] assms tot(1) len
    by (simp add: unat_sub_le arena_inv_iff)
  have slot: "slot_committed j ?D + (if j = ?k then unat (vc_bytes ?c) else 0) = slot_committed j ?C" for j
    using live_sum_update [of i ?C "\<lambda>c. vc_live c \<and> vc_reservation_slot c = j"
        "\<lambda>c. unat (vc_bytes c)" zero_vm_commitment] live assms(2) len by auto
  show "j \<noteq> ?k \<Longrightarrow> slot_committed j ?D = slot_committed j ?C" for j
    using slot [of j] by simp
  show "unat ?m = slot_committed ?k ?D"
    using slot [of ?k] m assms(1) tot(4,5) by (simp add: arena_inv_iff)
qed (use assms(1) in \<open>simp_all add: arena_record_decommit_def Let_def arena_inv_iff\<close>)

lemma arena_decommit_eq:
  assumes "arena_inv a"
  shows "gxos_vm_arena_decommit a b n =
    (if n = 0 then (GXOS_VM_STATUS_INVALID_ARGUMENT, a)
     else case find_index (\<lambda>c. vc_live c \<and> vc_base c = b \<and> vc_bytes c = n) (va_commitments a) of
       None \<Rightarrow> (GXOS_VM_STATUS_NOT_FOUND, a)
     | Some i \<Rightarrow> (GXOS_VM_STATUS_OK, arena_record_decommit a i))"
proof (cases "find_index (\<lambda>c. vc_live c \<and> vc_base c = b \<and> vc_bytes c = n) (va_commitments a)")
  case None
  with assms show ?thesis by (simp add: gxos_vm_arena_decommit_def arena_inv_iff)
next
  case (Some i)
  from find_index_SomeD [OF Some] assms
  have "i < GXOS_VM_MAX_COMMITMENTS" "vc_live (va_commitments a ! i)" "vc_bytes (va_commitments a ! i) = n"
    by (auto simp: arena_inv_iff)
  with commitment_le_totals [OF assms this(1,2)] Some assms show ?thesis
    by (simp add: gxos_vm_arena_decommit_def Let_def not_less [symmetric] arena_inv_iff)
qed

lemma arena_decommit_page_eq:
  assumes "arena_inv a"
  shows "gxos_vm_arena_decommit_page a p =
    (if p mod GXOS_VM_PAGE_SIZE \<noteq> 0 then (GXOS_VM_STATUS_INVALID_ARGUMENT, a, 0)
     else case find_index (\<lambda>c. vc_live c \<and> vc_base c = p \<and> vc_bytes c = GXOS_VM_PAGE_SIZE)
            (va_commitments a) of
       None \<Rightarrow> (GXOS_VM_STATUS_NOT_FOUND, a, 0)
     | Some i \<Rightarrow> (GXOS_VM_STATUS_OK, arena_record_decommit a i,
                  vc_physical_base (va_commitments a ! i)))"
proof (cases "find_index (\<lambda>c. vc_live c \<and> vc_base c = p \<and> vc_bytes c = GXOS_VM_PAGE_SIZE)
    (va_commitments a)")
  case None
  then show ?thesis by (simp add: gxos_vm_arena_decommit_page_def)
next
  case (Some i)
  from find_index_SomeD [OF Some] assms
  have "i < GXOS_VM_MAX_COMMITMENTS" "vc_live (va_commitments a ! i)"
    "vc_bytes (va_commitments a ! i) = GXOS_VM_PAGE_SIZE"
    by (auto simp: arena_inv_iff)
  with commitment_le_totals [OF assms this(1,2)] Some show ?thesis
    by (simp add: gxos_vm_arena_decommit_page_def Let_def leD)
qed

lemma arena_found_inv:
  assumes "arena_inv a" and "find_index (\<lambda>c. vc_live c \<and> Q c) (va_commitments a) = Some i"
  shows "arena_inv (arena_record_decommit a i)"
  using find_index_SomeD [OF assms(2)] assms(1)
  by (intro arena_decommit_inv) (auto simp: arena_inv_iff)

lemma arena_decommit_keeps:
  "arena_inv a \<Longrightarrow> gxos_vm_arena_decommit a b n = (st, a') \<Longrightarrow> arena_inv a'"
  by (auto simp: arena_decommit_eq dest: arena_found_inv split: if_splits option.splits)

lemma arena_decommit_page_keeps:
  "arena_inv a \<Longrightarrow> gxos_vm_arena_decommit_page a p = (st, a', q) \<Longrightarrow> arena_inv a'"
  by (auto simp: arena_decommit_page_eq dest: arena_found_inv split: if_splits option.splits)

subsection \<open>Page-granular use\<close>

text \<open>
  \<open>gxos_vm_arena_commit_page\<close> compares a page only with commitments of exactly one page. It
  keeps the invariant on arenas whose commitments are all aligned single pages.
\<close>

definition arena_paged :: "GXOS_VM_ARENA \<Rightarrow> bool" where
  "arena_paged a \<longleftrightarrow> (\<forall>c \<in> set (va_commitments a). vc_live c \<longrightarrow>
     vc_bytes c = GXOS_VM_PAGE_SIZE \<and> vc_base c mod GXOS_VM_PAGE_SIZE = 0)"

lemma pages_meet:
  fixes p q :: u64
  assumes "p mod GXOS_VM_PAGE_SIZE = 0" and "q mod GXOS_VM_PAGE_SIZE = 0"
    and "bytes_from p GXOS_VM_PAGE_SIZE \<inter> bytes_from q GXOS_VM_PAGE_SIZE \<noteq> {}"
  shows "p = q"
proof -
  from assms(1,2) obtain x y where "unat p = 4096 * x" "unat q = 4096 * y"
    using unat_mod_u64 [of p 4096] unat_mod_u64 [of q 4096]
    by (auto simp: mod_eq_0_iff_dvd dvd_def)
  with assms(3) show ?thesis
    by (auto simp: bytes_from_def unat_eq_iff)
qed

lemma find_reservation_iff:
  assumes "arena_inv a"
  shows "gxos_vm_arena_find_reservation a x = Some i \<longleftrightarrow>
    i < GXOS_VM_MAX_RESERVATIONS \<and> vr_live (va_reservations a ! i) \<and>
    unat x \<in> reservation_span (va_reservations a ! i)"
proof -
  let ?R = "va_reservations a"
  let ?P = "\<lambda>r. vr_live r \<and> x \<ge> vr_base r \<and> x - vr_base r < vr_bytes r"
  have P: "?P r \<longleftrightarrow> vr_live r \<and> unat x \<in> reservation_span r" for r
    by (auto simp: bytes_from_def word_le_nat_alt word_less_nat_alt unat_sub_le)
  have len: "length ?R = GXOS_VM_MAX_RESERVATIONS" using assms by (simp add: arena_inv_iff)
  have dis: "j = k" if "j < GXOS_VM_MAX_RESERVATIONS" "k < GXOS_VM_MAX_RESERVATIONS" "vr_live (?R ! j)"
      "vr_live (?R ! k)" "unat x \<in> reservation_span (?R ! j)" "unat x \<in> reservation_span (?R ! k)" for j k
    using arena_reservations_disjoint [OF assms, of j k] that len by auto
  show ?thesis
  proof
    assume "gxos_vm_arena_find_reservation a x = Some i"
    from find_index_SomeD [OF this [unfolded gxos_vm_arena_find_reservation_def]]
    show "i < GXOS_VM_MAX_RESERVATIONS \<and> vr_live (?R ! i) \<and> unat x \<in> reservation_span (?R ! i)"
      using len unfolding P by simp
  next
    assume i: "i < GXOS_VM_MAX_RESERVATIONS \<and> vr_live (?R ! i) \<and> unat x \<in> reservation_span (?R ! i)"
    show "gxos_vm_arena_find_reservation a x = Some i"
      unfolding gxos_vm_arena_find_reservation_def P
      by (rule find_index_unique) (use i len dis in auto)
  qed
qed

definition page_ready :: "GXOS_VM_ARENA \<Rightarrow> u64 \<Rightarrow> u64 \<Rightarrow> u64 \<Rightarrow> bool" where
  "page_ready a p phys g \<longleftrightarrow> g \<noteq> 0 \<and> phys \<noteq> 0 \<and>
     p mod GXOS_VM_PAGE_SIZE = 0 \<and> phys mod GXOS_VM_PAGE_SIZE = 0 \<and>
     (\<exists>r \<in> set (va_reservations a). vr_live r \<and>
        range_contains (vr_base r) (vr_bytes r) p GXOS_VM_PAGE_SIZE)"

abbreviation page_at :: "u64 \<Rightarrow> GXOS_VM_COMMITMENT \<Rightarrow> bool" where
  "page_at p c \<equiv> vc_live c \<and> vc_base c = p \<and> vc_bytes c = GXOS_VM_PAGE_SIZE"

lemma page_ready_reservation:
  assumes "arena_inv a" and "page_ready a p phys g"
  obtains k where "gxos_vm_arena_find_reservation a p = Some k" "k < GXOS_VM_MAX_RESERVATIONS"
    "vr_live (va_reservations a ! k)" "gxos_vm_arena_contains a p GXOS_VM_PAGE_SIZE"
    "range_contains (vr_base (va_reservations a ! k)) (vr_bytes (va_reservations a ! k))
       p GXOS_VM_PAGE_SIZE"
proof -
  from assms obtain k where k: "k < GXOS_VM_MAX_RESERVATIONS" "vr_live (va_reservations a ! k)"
    "range_contains (vr_base (va_reservations a ! k)) (vr_bytes (va_reservations a ! k))
       p GXOS_VM_PAGE_SIZE"
    by (auto simp: page_ready_def arena_inv_iff in_set_conv_nth)
  have "unat p \<in> bytes_from p GXOS_VM_PAGE_SIZE" by (simp add: bytes_from_def)
  then have "gxos_vm_arena_find_reservation a p = Some k"
    using k range_contains_subset [OF k(3)] by (auto simp: find_reservation_iff [OF assms(1)])
  moreover have "gxos_vm_arena_contains a p GXOS_VM_PAGE_SIZE"
    using arena_inv_reservation [OF assms(1) k(1,2)] k(3)
    by (auto simp: reservation_ok_def gxos_vm_arena_contains_def range_contains_iff)
  ultimately show thesis using k that by blast
qed

lemma page_committable:
  assumes "arena_inv a" and "arena_paged a" and "page_ready a p phys g"
    and "gxos_vm_arena_find_reservation a p = Some k"
    and none: "find_index (page_at p) (va_commitments a) = None"
  shows "committable a (new_commitment k p GXOS_VM_PAGE_SIZE phys 1 g)"
proof -
  have "bytes_from p GXOS_VM_PAGE_SIZE \<inter> commitment_span d = {}"
    if d: "d \<in> set (va_commitments a)" "vc_live d" for d
  proof (rule ccontr)
    assume "\<not> ?thesis"
    moreover have paged: "vc_bytes d = GXOS_VM_PAGE_SIZE" "vc_base d mod GXOS_VM_PAGE_SIZE = 0"
      using assms(2) d unfolding arena_paged_def by blast+
    ultimately have "p = vc_base d"
      using assms(3) by - (rule pages_meet, simp_all only: page_ready_def simp_thms)
    with d paged none show False unfolding find_index_None_iff by blast
  qed
  moreover obtain k' where "gxos_vm_arena_find_reservation a p = Some k'" "k' < GXOS_VM_MAX_RESERVATIONS"
    "vr_live (va_reservations a ! k')"
    "range_contains (vr_base (va_reservations a ! k')) (vr_bytes (va_reservations a ! k'))
       p GXOS_VM_PAGE_SIZE"
    using page_ready_reservation [OF assms(1,3)] by metis
  ultimately show ?thesis
    using assms(3,4) by (simp add: committable_def commitment_ok_def page_ready_def)
qed

lemma arena_commit_page_eq:
  assumes "arena_inv a" and "arena_paged a" and ready: "page_ready a p phys g"
    and k: "gxos_vm_arena_find_reservation a p = Some k"
  shows "gxos_vm_arena_commit_page a p phys g =
    (case find_index (page_at p) (va_commitments a) of
       Some i \<Rightarrow> if vc_physical_base (va_commitments a ! i) \<noteq> phys
                 then (GXOS_VM_STATUS_COMMIT_OVERLAP, a, False) else (GXOS_VM_STATUS_OK, a, True)
     | None \<Rightarrow>
         (case find_index (\<lambda>c. \<not> vc_live c) (va_commitments a) of
            None \<Rightarrow> (GXOS_VM_STATUS_CAPACITY, a, False)
          | Some i \<Rightarrow> (GXOS_VM_STATUS_OK,
              arena_record_commit a i (new_commitment k p GXOS_VM_PAGE_SIZE phys 1 g), False)))"
proof -
  have g1: "\<not> (g = 0 \<or> phys = 0)" "\<not> (p mod GXOS_VM_PAGE_SIZE \<noteq> 0 \<or> phys mod GXOS_VM_PAGE_SIZE \<noteq> 0)"
    using ready by (auto simp: page_ready_def)
  have g2: "\<not> (\<not> gxos_vm_arena_contains a p GXOS_VM_PAGE_SIZE \<or>
      \<not> range_contains (vr_base (va_reservations a ! k)) (vr_bytes (va_reservations a ! k))
          p GXOS_VM_PAGE_SIZE)"
    using page_ready_reservation [OF assms(1) ready] k by (metis option.inject)
  note start = gxos_vm_arena_commit_page_def if_not_P [OF g1(1)] if_not_P [OF g1(2)] k option.case
    if_not_P [OF g2]
  show ?thesis
  proof (cases "find_index (page_at p) (va_commitments a)")
    case (Some i)
    show ?thesis unfolding start Some ..
  next
    case None
    note c = page_committable [OF assms(1-4) None]
    show ?thesis
    proof (cases "find_index (\<lambda>c. \<not> vc_live c) (va_commitments a)")
      case full: None
      then have "unat (va_commitment_count a) = GXOS_VM_MAX_COMMITMENTS"
        using assms(1) live_sum_all [of "va_commitments a" vc_live]
        by (simp add: find_index_None_iff arena_inv_iff)
      then show ?thesis unfolding start None full by simp
    next
      case (Some i)
      have i: "i < GXOS_VM_MAX_COMMITMENTS" "\<not> vc_live (va_commitments a ! i)"
        using find_index_SomeD [OF Some] assms(1) by (simp_all add: arena_inv_iff)
      note sums = commit_sums [OF assms(1) i c]
      have g3: "\<not> unat (va_commitment_count a) \<ge> GXOS_VM_MAX_COMMITMENTS"
        using commitment_count_lt [OF assms(1) nth_mem i(2)] find_index_SomeD [OF Some] by simp
      have "unat (vr_committed_bytes (va_reservations a ! k)) + 4096 < 2 ^ 64"
        using le_less_trans [OF sums(2) unat_lt_2p64] by simp
      with sums(1) have g4: "\<not> (add_u64 (va_total_committed_bytes a) GXOS_VM_PAGE_SIZE = None \<or>
          add_u64 (vr_committed_bytes (va_reservations a ! k)) GXOS_VM_PAGE_SIZE = None)"
        by (simp add: add_u64_None_iff)
      show ?thesis unfolding start None Some if_not_P [OF g3] if_not_P [OF g4] ..
    qed
  qed
qed

lemma arena_commit_page_fails:
  assumes "arena_inv a" and "\<not> page_ready a p phys g"
  shows "\<exists>st. gxos_vm_arena_commit_page a p phys g = (st, a, False) \<and> st \<noteq> GXOS_VM_STATUS_OK"
proof (cases "gxos_vm_arena_find_reservation a p")
  case None
  then show ?thesis by (auto simp: gxos_vm_arena_commit_page_def)
next
  case (Some k)
  from find_reservation_iff [OF assms(1), THEN iffD1, OF Some] assms(1)
  have "va_reservations a ! k \<in> set (va_reservations a)" "vr_live (va_reservations a ! k)"
    by (auto simp: arena_inv_iff)
  with assms(2) Some show ?thesis
    by (auto simp: gxos_vm_arena_commit_page_def page_ready_def)
qed

lemma arena_record_commit_paged:
  assumes "arena_paged a" and "vc_bytes c = GXOS_VM_PAGE_SIZE" and "vc_base c mod GXOS_VM_PAGE_SIZE = 0"
  shows "arena_paged (arena_record_commit a i c)"
proof -
  have "va_commitments (arena_record_commit a i c) = (va_commitments a)[i := c]"
    by (simp add: arena_record_commit_def)
  then have mem: "d = c \<or> d \<in> set (va_commitments a)"
    if "d \<in> set (va_commitments (arena_record_commit a i c))" for d
    using that set_update_subset_insert [of "va_commitments a" i c] by auto
  show ?thesis
    unfolding arena_paged_def
  proof (intro ballI impI)
    fix d assume "d \<in> set (va_commitments (arena_record_commit a i c))" "vc_live d"
    with mem [of d] assms(1)
    consider "d = c" | "vc_bytes d = GXOS_VM_PAGE_SIZE \<and> vc_base d mod GXOS_VM_PAGE_SIZE = 0"
      unfolding arena_paged_def by blast
    then show "vc_bytes d = GXOS_VM_PAGE_SIZE \<and> vc_base d mod GXOS_VM_PAGE_SIZE = 0"
      using assms(2,3) by cases simp_all
  qed
qed

lemma arena_commit_page_keeps:
  assumes "arena_inv a" and "arena_paged a" and "gxos_vm_arena_commit_page a p phys g = (st, a', b)"
  shows "arena_inv a' \<and> arena_paged a'"
proof (cases "page_ready a p phys g")
  case True
  then obtain k where k: "gxos_vm_arena_find_reservation a p = Some k"
    using page_ready_reservation [OF assms(1)] by blast
  consider "a' = a" | i where "find_index (page_at p) (va_commitments a) = None"
      "find_index (\<lambda>c. \<not> vc_live c) (va_commitments a) = Some i"
      "a' = arena_record_commit a i (new_commitment k p GXOS_VM_PAGE_SIZE phys 1 g)"
    using assms(3) arena_commit_page_eq [OF assms(1,2) True k] by (auto split: option.splits if_splits)
  then show ?thesis
  proof cases
    case 1
    with assms show ?thesis by simp
  next
    case (2 i)
    from find_index_SomeD [OF 2(2)] assms(1)
    have i: "i < GXOS_VM_MAX_COMMITMENTS" "\<not> vc_live (va_commitments a ! i)"
      by (auto simp: arena_inv_iff)
    with 2 arena_commit_inv [OF assms(1) i page_committable [OF assms(1,2) True k 2(1)]] True
      arena_record_commit_paged [OF assms(2)]
    show ?thesis by (simp add: page_ready_def)
  qed
next
  case False
  from arena_commit_page_fails [OF assms(1) False] assms show ?thesis by auto
qed

end
