(* ===== verification/VM_Arena_Search.thy ===== *)
theory VM_Arena_Search
  imports VM_Arena_Ops
begin

text \<open>
  The address search of \<open>gxos_vm_arena_reserve_any\<close>: on an arena that satisfies its
  invariant it finds the lowest aligned free range whenever there is one. Then the
  arena-wide properties: the invariant over every run of operations, and the two tables as
  slot tables.
\<close>

subsection \<open>The inner scan\<close>

abbreviation (input) conflicts :: "u64 \<Rightarrow> u64 \<Rightarrow> GXOS_VM_RESERVATION \<Rightarrow> bool" where
  "conflicts c n r \<equiv> vr_live r \<and> ranges_overlap c n (vr_base r) (vr_bytes r)"

abbreviation (input) ranges_fit :: "GXOS_VM_RESERVATION list \<Rightarrow> bool" where
  "ranges_fit rs \<equiv> \<forall>r \<in> set rs. vr_live r \<longrightarrow> range_ok (vr_base r) (vr_bytes r)"

lemma granularity_align:
  "align_up_u64 v GXOS_VM_RESERVATION_GRANULARITY = Some r \<longleftrightarrow>
     ceil_to 65536 (unat v) < 2 ^ 64 \<and> unat r = ceil_to 65536 (unat v)"
  by (subst align_up_u64_Some_iff) simp_all

lemma granularity_align_None:
  "align_up_u64 v GXOS_VM_RESERVATION_GRANULARITY = None \<longleftrightarrow> ceil_to 65536 (unat v) \<ge> 2 ^ 64"
proof (cases "ceil_to 65536 (unat v) < 2 ^ 64")
  case True
  then have "align_up_u64 v GXOS_VM_RESERVATION_GRANULARITY = Some (of_nat (ceil_to 65536 (unat v)))"
    unfolding granularity_align by (simp add: unat_of_nat)
  with True show ?thesis by simp
next
  case False
  then have "align_up_u64 v GXOS_VM_RESERVATION_GRANULARITY \<noteq> Some r" for r
    unfolding granularity_align by simp
  with False show ?thesis by (cases "align_up_u64 v GXOS_VM_RESERVATION_GRANULARITY") auto
qed

lemma granularity_dvd:
  "(b :: u64) mod GXOS_VM_RESERVATION_GRANULARITY = 0 \<longleftrightarrow> 65536 dvd unat b"
  unfolding unat_eq_iff [of "b mod _"] unat_mod_u64 by (simp add: mod_eq_0_iff_dvd)

lemma scan_Inr:
  "reserve_any_scan rs c n nx cf = Inr (nx', cf') \<Longrightarrow> ranges_fit rs \<Longrightarrow>
     (cf' \<longleftrightarrow> cf \<or> (\<exists>r \<in> set rs. conflicts c n r)) \<and> unat nx \<le> unat nx' \<and>
     (\<forall>r \<in> set rs. conflicts c n r \<longrightarrow> unat (vr_base r) + unat (vr_bytes r) \<le> unat nx') \<and>
     (nx' = nx \<or> (\<exists>r \<in> set rs. conflicts c n r \<and>
        unat nx' = ceil_to 65536 (unat (vr_base r) + unat (vr_bytes r))))"
proof (induction rs arbitrary: nx cf)
  case Nil
  then show ?case by simp
next
  case (Cons r rest)
  have fit: "ranges_fit rest" using Cons.prems(2) by simp
  show ?case
  proof (cases "conflicts c n r")
    case False
    have "reserve_any_scan rest c n nx cf = Inr (nx', cf')"
      using False Cons.prems by (auto simp: range_end_range_ok split: if_splits)
    from Cons.IH [OF this fit] False show ?thesis by auto
  next
    case True
    let ?e = "vr_base r + vr_bytes r"
    have e: "range_end (vr_base r) (vr_bytes r) = Some ?e"
      "unat ?e = unat (vr_base r) + unat (vr_bytes r)"
      using True Cons.prems(2) by (auto simp: range_end_range_ok range_ok_unat)
    show ?thesis
    proof (cases "?e > nx")
      case True': True
      with True e(1) Cons.prems(1) obtain m where
        m: "align_up_u64 ?e GXOS_VM_RESERVATION_GRANULARITY = Some m"
          "reserve_any_scan rest c n m True = Inr (nx', cf')"
        by (auto split: option.splits)
      have um: "unat m = ceil_to 65536 (unat ?e)" using m(1) by (simp add: granularity_align)
      moreover have "unat ?e \<le> ceil_to 65536 (unat ?e)" by (rule ceil_to_ge) simp
      ultimately have "unat nx \<le> unat m" "unat ?e \<le> unat m"
        using True' by (simp_all add: word_less_nat_alt)
      with Cons.IH [OF m(2) fit] True e(2) um show ?thesis by auto
    next
      case False
      then have le: "unat ?e \<le> unat nx" by (simp add: word_less_nat_alt)
      have "reserve_any_scan rest c n nx True = Inr (nx', cf')"
        using True e(1) False Cons.prems(1) by simp
      from Cons.IH [OF this fit] True e(2) le show ?thesis by auto
    qed
  qed
qed

lemma scan_Inl:
  "reserve_any_scan rs c n nx cf = Inl st \<Longrightarrow> ranges_fit rs \<Longrightarrow>
     st \<noteq> GXOS_VM_STATUS_OK \<and>
     (\<exists>r \<in> set rs. conflicts c n r \<and>
        ceil_to 65536 (unat (vr_base r) + unat (vr_bytes r)) \<ge> 2 ^ 64)"
proof (induction rs arbitrary: nx cf)
  case Nil
  then show ?case by simp
next
  case (Cons r rest)
  have fit: "ranges_fit rest" using Cons.prems(2) by simp
  show ?case
  proof (cases "vr_live r")
    case False
    with Cons.prems(1) have "reserve_any_scan rest c n nx cf = Inl st" by simp
    from Cons.IH [OF this fit] show ?thesis by auto
  next
    case True
    let ?e = "vr_base r + vr_bytes r"
    have e: "range_end (vr_base r) (vr_bytes r) = Some ?e"
      "unat ?e = unat (vr_base r) + unat (vr_bytes r)"
      using True Cons.prems(2) by (auto simp: range_end_range_ok range_ok_unat)
    show ?thesis
    proof (cases "align_up_u64 ?e GXOS_VM_RESERVATION_GRANULARITY = None \<and> conflicts c n r \<and> ?e > nx")
      case True
      with e Cons.prems have "st = GXOS_VM_STATUS_OVERFLOW" by auto
      moreover have "ceil_to 65536 (unat ?e) \<ge> 2 ^ 64"
        using True granularity_align_None [of ?e] by simp
      ultimately show ?thesis using True e(2) by auto
    next
      case False
      with Cons.prems(1) e(1) True obtain nx2 cf2 where "reserve_any_scan rest c n nx2 cf2 = Inl st"
        by (auto split: if_splits option.splits)
      from Cons.IH [OF this fit] show ?thesis by auto
    qed
  qed
qed

subsection \<open>The search\<close>

text \<open>A candidate the search may return, and the lowest one.\<close>

definition gap :: "GXOS_VM_ARENA \<Rightarrow> u64 \<Rightarrow> u64 \<Rightarrow> bool" where
  "gap a n b \<longleftrightarrow> b mod GXOS_VM_RESERVATION_GRANULARITY = 0 \<and> reservable a b n"

definition first_fit :: "GXOS_VM_ARENA \<Rightarrow> u64 \<Rightarrow> u64 \<Rightarrow> bool" where
  "first_fit a n b \<longleftrightarrow> gap a n b \<and> (\<forall>b'. gap a n b' \<longrightarrow> b \<le> b')"

text \<open>A conflicting reservation rules out every aligned address up to its rounded end.\<close>

lemma conflict_skips:
  assumes "range_ok c n" and "r \<in> set (va_reservations a)" and "conflicts c n r"
    and "range_ok (vr_base r) (vr_bytes r)" and "gap a n b" and "c \<le> b"
  shows "ceil_to 65536 (unat (vr_base r) + unat (vr_bytes r)) \<le> unat b"
proof (rule ceil_to_least)
  show "65536 dvd unat b" using assms(5) granularity_dvd [of b] by (simp add: gap_def)
  have n: "n \<noteq> 0" "vr_bytes r \<noteq> 0" using assms(1,4) by (auto simp: range_ok_def)
  have "bytes_from c n \<inter> reservation_span r \<noteq> {}"
    using assms(1,3,4) ranges_overlap_iff by blast
  then have "unat (vr_base r) < unat c + unat n"
    using bytes_from_disjoint [OF n] by blast
  then have "unat (vr_base r) < unat b + unat n" using assms(6) by (simp add: word_le_nat_alt)
  moreover have "bytes_from b n \<inter> reservation_span r = {}"
    using assms(2,3,5) by (simp add: gap_def reservable_def)
  ultimately show "unat (vr_base r) + unat (vr_bytes r) \<le> unat b"
    using bytes_from_disjoint [OF n, of b "vr_base r"] by linarith
qed simp

lemma gap_in_arena:
  assumes "gap a n b"
  shows "b \<le> va_base a + va_length a \<and> n \<le> va_base a + va_length a - b"
proof -
  have "range_ok (va_base a) (va_length a)" "unat b + unat n \<le> unat (va_base a) + unat (va_length a)"
    using assms by (auto simp: gap_def reservable_def range_contains_iff)
  then have le: "unat b + unat n \<le> unat (va_base a + va_length a)" by (simp add: range_ok_unat)
  then have "b \<le> va_base a + va_length a" by (simp add: word_le_nat_alt)
  with le show ?thesis by (simp add: word_le_nat_alt unat_sub_le)
qed

definition search_done ::
    "GXOS_VM_ARENA \<Rightarrow> u64 \<Rightarrow> u64 \<Rightarrow> u32 \<Rightarrow> u32 \<Rightarrow> u64 \<Rightarrow>
     GXOS_VM_STATUS \<times> GXOS_VM_ARENA \<times> (u64 \<times> nat) option \<Rightarrow> bool" where
  "search_done a n req kind owner g res \<longleftrightarrow>
     (\<exists>b i. first_fit a n b \<and> find_index (\<lambda>r. \<not> vr_live r) (va_reservations a) = Some i \<and>
        res = (GXOS_VM_STATUS_OK, arena_reserved a i (new_reservation b n req kind owner g),
               Some (b, i))) \<or>
     ((\<forall>b. \<not> gap a n b) \<or> (\<forall>r \<in> set (va_reservations a). vr_live r)) \<and>
     (\<exists>st. st \<noteq> GXOS_VM_STATUS_OK \<and> res = (st, a, None))"

lemma search_failed:
  "(\<And>b. \<not> gap a n b) \<Longrightarrow> st \<noteq> GXOS_VM_STATUS_OK \<Longrightarrow> search_done a n req kind owner g (st, a, None)"
  by (auto simp: search_done_def)

lemma search_fixed:
  assumes "arena_inv a" and "req \<noteq> 0" and "g \<noteq> 0" and n: "n = page_round_bytes req"
    and "first_fit a n c"
  shows "search_done a n req kind owner g
    (case gxos_vm_arena_reserve_fixed a c req kind owner g of (status, a', slot) \<Rightarrow>
       (status, a', if status = GXOS_VM_STATUS_OK then map_option (\<lambda>s. (c, s)) slot else None))"
proof (cases "find_index (\<lambda>r. \<not> vr_live r) (va_reservations a)")
  case None
  then have full: "\<forall>r \<in> set (va_reservations a). vr_live r" by (simp add: find_index_None_iff)
  obtain st where "gxos_vm_arena_reserve_fixed a c req kind owner g = (st, a, None)"
    "st \<noteq> GXOS_VM_STATUS_OK"
    using arena_reserve_fixed_fails [OF assms(1), of c req g kind owner] full by blast
  with full show ?thesis by (simp add: search_done_def)
next
  case (Some i)
  have "gxos_vm_arena_reserve_fixed a c req kind owner g =
      (GXOS_VM_STATUS_OK, arena_reserved a i (new_reservation c n req kind owner g), Some i)"
    unfolding n using assms
    by (intro arena_reserve_fixed_OK [OF assms(1) _ _ _ _ Some]) (simp_all add: first_fit_def gap_def)
  with Some assms(5) show ?thesis by (simp add: search_done_def)
qed

text \<open>What one iteration establishes: the candidate is a gap, or the next one skips no gap.\<close>

lemma arena_ranges_fit: "arena_inv a \<Longrightarrow> ranges_fit (va_reservations a)"
  by (auto simp: arena_inv_iff intro: reservation_ok_range)

lemma scan_clear:
  assumes "arena_inv a" and "range_contains (va_base a) (va_length a) c n"
    and "c mod GXOS_VM_RESERVATION_GRANULARITY = 0"
    and "reserve_any_scan (va_reservations a) c n c False = Inr (nx, False)"
  shows "gap a n c"
proof -
  have cn: "range_ok c n" using assms(2) by (simp add: range_contains_iff)
  note fit = arena_ranges_fit [OF assms(1)]
  have "bytes_from c n \<inter> reservation_span r = {}"
    if "r \<in> set (va_reservations a)" "vr_live r" for r
    using scan_Inr [OF assms(4) fit] fit that ranges_overlap_iff [OF cn] by blast
  with assms(2,3) show ?thesis by (simp add: gap_def reservable_def)
qed

lemma scan_conflict:
  assumes "arena_inv a" and cn: "range_ok c n"
    and "reserve_any_scan (va_reservations a) c n c False = Inr (nx, True)"
  shows "c < nx" and "nx mod GXOS_VM_RESERVATION_GRANULARITY = 0"
    and "gap a n b \<Longrightarrow> c \<le> b \<Longrightarrow> nx \<le> b"
proof -
  note fit = arena_ranges_fit [OF assms(1)]
  note scan = scan_Inr [OF assms(3) fit]
  then obtain r where r: "r \<in> set (va_reservations a)" "conflicts c n r"
    "unat (vr_base r) + unat (vr_bytes r) \<le> unat nx" by auto
  have "bytes_from c n \<inter> reservation_span r \<noteq> {}"
    using r fit ranges_overlap_iff [OF cn] by blast
  then have "unat c < unat (vr_base r) + unat (vr_bytes r)" by (auto simp: bytes_from_def)
  with r(3) show lt: "c < nx" by (simp add: word_less_nat_alt)
  with scan obtain s where s: "s \<in> set (va_reservations a)" "conflicts c n s"
    "unat nx = ceil_to 65536 (unat (vr_base s) + unat (vr_bytes s))" by blast
  then show "nx mod GXOS_VM_RESERVATION_GRANULARITY = 0"
    using ceil_to_dvd by (simp only: granularity_dvd)
  show "gap a n b \<Longrightarrow> c \<le> b \<Longrightarrow> nx \<le> b"
    using conflict_skips [OF cn s(1,2)] fit s by (simp add: word_le_nat_alt)
qed

lemma scan_overflow:
  assumes "arena_inv a" and cn: "range_ok c n" and "gap a n b" and "c \<le> b"
  shows "reserve_any_scan (va_reservations a) c n c False \<noteq> Inl st"
proof
  note fit = arena_ranges_fit [OF assms(1)]
  assume "reserve_any_scan (va_reservations a) c n c False = Inl st"
  from scan_Inl [OF this fit] obtain r where r: "r \<in> set (va_reservations a)" "conflicts c n r"
    "ceil_to 65536 (unat (vr_base r) + unat (vr_bytes r)) \<ge> 2 ^ 64" by blast
  with fit have "ceil_to 65536 (unat (vr_base r) + unat (vr_bytes r)) \<le> unat b"
    by (intro conflict_skips [OF cn r(1,2) _ assms(3,4)]) blast
  with r(3) unat_lt_2p64 [of b] show False by simp
qed

lemma reserve_any_loop_done:
  assumes "arena_inv a" and "req \<noteq> 0" and "g \<noteq> 0" and "n = page_round_bytes req" and "n \<noteq> 0"
  shows "c mod GXOS_VM_RESERVATION_GRANULARITY = 0 \<Longrightarrow> va_base a \<le> c \<Longrightarrow>
    (\<And>b. gap a n b \<Longrightarrow> c \<le> b) \<Longrightarrow>
    search_done a n req kind owner g
      (reserve_any_loop a req kind owner g n (va_base a + va_length a) c)"
proof (induction "2 ^ 64 - unat c" arbitrary: c rule: less_induct)
  case less
  let ?e = "va_base a + va_length a"
  have arena: "range_ok (va_base a) (va_length a)" using assms(1) by (simp add: arena_inv_iff)
  show ?case
  proof (cases "c \<le> ?e \<and> n \<le> ?e - c")
    case False
    have "\<not> gap a n b" for b
      using gap_in_arena [of a n b] less.prems(3) [of b] False
      by (auto simp: word_le_nat_alt unat_sub_le)
    then show ?thesis
      by (subst reserve_any_loop.simps, subst if_not_P [OF False]) (simp add: search_failed)
  next
    case room: True
    then have top: "unat c + unat n \<le> unat ?e" by (auto simp: word_le_nat_alt unat_sub_le)
    then have cn: "range_ok c n"
      using assms(5) le_less_trans [OF top unat_lt_2p64] by (simp add: range_ok_def)
    have inside: "range_contains (va_base a) (va_length a) c n"
      using arena top less.prems(2) assms(5)
      by (intro range_contains_sub) (simp_all add: word_le_nat_alt range_ok_unat)
    consider (err) st where "reserve_any_scan (va_reservations a) c n c False = Inl st"
      | (clear) nx where "reserve_any_scan (va_reservations a) c n c False = Inr (nx, False)"
      | (conflict) nx where "reserve_any_scan (va_reservations a) c n c False = Inr (nx, True)"
      by (cases "reserve_any_scan (va_reservations a) c n c False") auto
    then show ?thesis
    proof cases
      case err
      then have "\<not> gap a n b" for b
        using scan_overflow [OF assms(1) cn] less.prems(3) by blast
      moreover have "st \<noteq> GXOS_VM_STATUS_OK"
        using scan_Inl [OF err arena_ranges_fit [OF assms(1)]] by simp
      ultimately show ?thesis
        using room err by (subst reserve_any_loop.simps) (simp add: search_failed)
    next
      case clear
      then have "first_fit a n c"
        using scan_clear [OF assms(1) inside less.prems(1)] less.prems(3) by (simp add: first_fit_def)
      from search_fixed [OF assms(1-4) this] show ?thesis
        using room clear by (subst reserve_any_loop.simps) simp
    next
      case conflict
      note step = scan_conflict [OF assms(1) cn conflict]
      have "search_done a n req kind owner g (reserve_any_loop a req kind owner g n ?e nx)"
      proof (rule less.hyps)
        show "2 ^ 64 - unat nx < 2 ^ 64 - unat c"
          using step(1) unat_lt_2p64 [of nx] by (simp add: word_less_nat_alt diff_less_mono2)
        show "va_base a \<le> nx" using less.prems(2) step(1) by simp
      qed (use step less.prems(3) in auto)
      then show ?thesis
        using room conflict step(1) [folded not_le] by (subst reserve_any_loop.simps) simp
    qed
  qed
qed

lemma reserve_any_done:
  assumes "arena_inv a" and "req \<noteq> 0" and "g \<noteq> 0" and n: "page_round_bytes req \<noteq> 0"
  shows "search_done a (page_round_bytes req) req kind owner g
    (gxos_vm_arena_reserve_any a req kind owner g)"
proof -
  have arena: "range_ok (va_base a) (va_length a)" "va_valid a"
    using assms(1) by (simp_all add: arena_inv_iff)
  let ?n = "page_round_bytes req"
  have above: "ceil_to 65536 (unat (va_base a)) \<le> unat b" if "gap a ?n b" for b
    using that granularity_dvd [of b]
    by (intro ceil_to_least) (auto simp: gap_def reservable_def range_contains_iff)
  show ?thesis
  proof (cases "align_up_u64 (va_base a) GXOS_VM_RESERVATION_GRANULARITY")
    case None
    then have "ceil_to 65536 (unat (va_base a)) \<ge> 2 ^ 64" by (simp only: granularity_align_None)
    then have "\<not> gap a ?n b" for b
      using above [of b] unat_lt_2p64 [of b] by (auto simp del: unat_lt_2p64)
    then show ?thesis
      using assms arena None
      by (simp add: gxos_vm_arena_reserve_any_def Let_def range_end_range_ok search_failed)
  next
    case (Some c)
    then have c: "unat c = ceil_to 65536 (unat (va_base a))" by (simp add: granularity_align)
    have "search_done a ?n req kind owner g
        (reserve_any_loop a req kind owner g ?n (va_base a + va_length a) c)"
    proof (rule reserve_any_loop_done [OF assms(1-3) refl n])
      show "c mod GXOS_VM_RESERVATION_GRANULARITY = 0"
        using c ceil_to_dvd by (simp only: granularity_dvd)
      show "va_base a \<le> c" using c ceil_to_ge [of 65536 "unat (va_base a)"] by (simp add: word_le_nat_alt)
      show "c \<le> b" if "gap a ?n b" for b using above [OF that] c by (simp add: word_le_nat_alt)
    qed
    then show ?thesis
      using assms arena Some by (simp add: gxos_vm_arena_reserve_any_def Let_def range_end_range_ok)
  qed
qed

lemma arena_reserve_any_keeps:
  assumes "arena_inv a" and "gxos_vm_arena_reserve_any a req kind owner g = (st, a', s)"
  shows "arena_inv a'"
proof (cases "req \<noteq> 0 \<and> g \<noteq> 0 \<and> page_round_bytes req \<noteq> 0")
  case True
  let ?n = "page_round_bytes req"
  consider "a' = a" | b i where "first_fit a ?n b"
      "find_index (\<lambda>r. \<not> vr_live r) (va_reservations a) = Some i"
      "a' = arena_reserved a i (new_reservation b ?n req kind owner g)"
    using reserve_any_done [OF assms(1), of req g kind owner] True assms(2)
    by (auto simp: search_done_def)
  then show ?thesis
  proof cases
    case 1
    with assms show ?thesis by simp
  next
    case 2
    with True page_round_ge [of req] show ?thesis
      using new_reservation_inv [OF assms(1) _ _ _ _ 2(2)] by (simp add: first_fit_def gap_def)
  qed
next
  case False
  with assms show ?thesis by (auto simp: gxos_vm_arena_reserve_any_def Let_def split: if_splits)
qed

subsection \<open>The tables as slot tables\<close>

definition reservation_ins where
  "reservation_ins a r i a' \<longleftrightarrow> (\<exists>b n kind g.
     gxos_vm_arena_reserve a b n kind g = (GXOS_VM_STATUS_OK, a', Some i) \<and>
     r = new_reservation b n n kind 0 g)"

definition reservation_del where
  "reservation_del a i a' \<longleftrightarrow> gxos_vm_arena_release a i = (GXOS_VM_STATUS_OK, a')"

lemma arena_reserveE:
  assumes "arena_inv a" and "gxos_vm_arena_reserve a b n kind g = (GXOS_VM_STATUS_OK, a', s)"
  obtains i where "s = Some i" "reservable a b n" "g \<noteq> 0"
    "find_index (\<lambda>r. \<not> vr_live r) (va_reservations a) = Some i"
    "a' = arena_reserved a i (new_reservation b n n kind 0 g)"
proof -
  have ok: "reservable a b n \<and> g \<noteq> 0 \<and> (\<exists>r \<in> set (va_reservations a). \<not> vr_live r)"
    using arena_reserve_fails [OF assms(1), of b n g kind] assms(2) by fastforce
  then obtain i where i: "find_index (\<lambda>r. \<not> vr_live r) (va_reservations a) = Some i"
    using find_index_ex [where P = "\<lambda>r. \<not> vr_live r"] by blast
  with arena_reserve_OK [OF assms(1) _ _ i, of b n g kind] ok assms(2) that show thesis by auto
qed

lemma arena_releaseE:
  assumes "arena_inv a" and "gxos_vm_arena_release a i = (GXOS_VM_STATUS_OK, a')"
  shows "releasable a i" and "a' = arena_released a i"
proof -
  show r: "releasable a i" using arena_release_fails [OF assms(1), of i] assms(2) by fastforce
  show "a' = arena_released a i" using arena_release_OK [OF assms(1) r] assms(2) by simp
qed

interpretation reservations: slot_table va_reservations vr_live reservation_span arena_inv
  reservation_ins reservation_del
proof unfold_locales
  fix a :: GXOS_VM_ARENA and i j
  assume "arena_inv a" "i < length (va_reservations a)" "j < length (va_reservations a)" "i \<noteq> j"
    "vr_live (va_reservations a ! i)" "vr_live (va_reservations a ! j)"
  then show "reservation_span (va_reservations a ! i) \<inter> reservation_span (va_reservations a ! j) = {}"
    by (rule arena_reservations_disjoint)
next
  fix a r i a'
  assume a: "arena_inv a" and "reservation_ins a r i a'"
  then obtain b n kind g where r: "r = new_reservation b n n kind 0 g"
    and op: "gxos_vm_arena_reserve a b n kind g = (GXOS_VM_STATUS_OK, a', Some i)"
    by (auto simp: reservation_ins_def)
  from arena_reserveE [OF a op]
  have "find_index (\<lambda>r. \<not> vr_live r) (va_reservations a) = Some i" "a' = arena_reserved a i r"
    unfolding r by auto
  then show "i < length (va_reservations a) \<and> \<not> vr_live (va_reservations a ! i) \<and> vr_live r \<and>
      va_reservations a' = (va_reservations a)[i := r]"
    using find_index_SomeD [of _ "va_reservations a" i] r by (auto simp: arena_reserved_def)
  show "arena_inv a'" by (rule arena_reserve_keeps [OF a op])
next
  fix a i a'
  assume a: "arena_inv a" and "reservation_del a i a'"
  then have op: "gxos_vm_arena_release a i = (GXOS_VM_STATUS_OK, a')" by (simp add: reservation_del_def)
  show "i < length (va_reservations a) \<and> vr_live (va_reservations a ! i) \<and>
      (\<exists>z. \<not> vr_live z \<and> va_reservations a' = (va_reservations a)[i := z])"
    using arena_releaseE [OF a op] a
    by (auto simp: releasable_def arena_released_def arena_inv_iff intro!: exI [of _ zero_vm_reservation])
  show "arena_inv a'" by (rule arena_release_keeps [OF a op])
qed

definition page_ins where
  "page_ins a c i a' \<longleftrightarrow> (\<exists>p phys g k.
     gxos_vm_arena_commit_page a p phys g = (GXOS_VM_STATUS_OK, a', False) \<and>
     c = new_commitment k p GXOS_VM_PAGE_SIZE phys 1 g \<and> va_commitments a' ! i = c \<and>
     find_index (\<lambda>c. \<not> vc_live c) (va_commitments a) = Some i)"

definition page_del where
  "page_del a i a' \<longleftrightarrow> (\<exists>p phys.
     gxos_vm_arena_decommit_page a p = (GXOS_VM_STATUS_OK, a', phys) \<and>
     find_index (page_at p) (va_commitments a) = Some i)"

lemma arena_commit_pageE:
  assumes "arena_inv a" and "arena_paged a"
    and "gxos_vm_arena_commit_page a p phys g = (GXOS_VM_STATUS_OK, a', False)"
  obtains i k where "page_ready a p phys g" "find_index (page_at p) (va_commitments a) = None"
    "gxos_vm_arena_find_reservation a p = Some k"
    "find_index (\<lambda>c. \<not> vc_live c) (va_commitments a) = Some i"
    "a' = arena_record_commit a i (new_commitment k p GXOS_VM_PAGE_SIZE phys 1 g)"
proof -
  have ready: "page_ready a p phys g"
    using arena_commit_page_fails [OF assms(1), of p phys g] assms(3) by fastforce
  then obtain k where k: "gxos_vm_arena_find_reservation a p = Some k"
    using page_ready_reservation [OF assms(1)] by blast
  with ready assms(3) arena_commit_page_eq [OF assms(1,2) ready k] that show thesis
    by (auto split: option.splits if_splits)
qed

lemma arena_record_decommit_paged:
  assumes "arena_paged a" shows "arena_paged (arena_record_decommit a i)"
proof -
  have "va_commitments (arena_record_decommit a i) = (va_commitments a)[i := zero_vm_commitment]"
    by (simp add: arena_record_decommit_def Let_def)
  then have "d = zero_vm_commitment \<or> d \<in> set (va_commitments a)"
    if "d \<in> set (va_commitments (arena_record_decommit a i))" for d
    using that set_update_subset_insert [of "va_commitments a" i zero_vm_commitment] by auto
  with assms zero_vm_commitment_dead show ?thesis unfolding arena_paged_def by metis
qed

interpretation pages: slot_table va_commitments vc_live commitment_span
  "\<lambda>a. arena_inv a \<and> arena_paged a" page_ins page_del
proof unfold_locales
  fix a :: GXOS_VM_ARENA and i j
  assume "arena_inv a \<and> arena_paged a" "i < length (va_commitments a)" "j < length (va_commitments a)"
    "i \<noteq> j" "vc_live (va_commitments a ! i)" "vc_live (va_commitments a ! j)"
  then show "commitment_span (va_commitments a ! i) \<inter> commitment_span (va_commitments a ! j) = {}"
    by (intro arena_commitments_disjoint) simp_all
next
  fix a c i a'
  assume a: "arena_inv a \<and> arena_paged a" and "page_ins a c i a'"
  then obtain p phys g k where op: "gxos_vm_arena_commit_page a p phys g = (GXOS_VM_STATUS_OK, a', False)"
    and c: "c = new_commitment k p GXOS_VM_PAGE_SIZE phys 1 g" "va_commitments a' ! i = c"
    and i: "find_index (\<lambda>c. \<not> vc_live c) (va_commitments a) = Some i"
    by (auto simp: page_ins_def)
  have "va_commitments a' = (va_commitments a)[i := c]"
    by (rule arena_commit_pageE [OF _ _ op])
       (use a c i find_index_SomeD [OF i] in \<open>auto simp: arena_record_commit_def\<close>)
  with c i find_index_SomeD [OF i]
  show "i < length (va_commitments a) \<and> \<not> vc_live (va_commitments a ! i) \<and> vc_live c \<and>
      va_commitments a' = (va_commitments a)[i := c]" by simp
  show "arena_inv a' \<and> arena_paged a'" using arena_commit_page_keeps a op by blast
next
  fix a i a'
  assume a: "arena_inv a \<and> arena_paged a" and "page_del a i a'"
  then obtain p phys where op: "gxos_vm_arena_decommit_page a p = (GXOS_VM_STATUS_OK, a', phys)"
    and i: "find_index (page_at p) (va_commitments a) = Some i"
    by (auto simp: page_del_def)
  then have a': "a' = arena_record_decommit a i"
    using a by (auto simp: arena_decommit_page_eq split: if_splits)
  then show "i < length (va_commitments a) \<and> vc_live (va_commitments a ! i) \<and>
      (\<exists>z. \<not> vc_live z \<and> va_commitments a' = (va_commitments a)[i := z])"
    using find_index_SomeD [OF i]
    by (auto simp: arena_record_decommit_def Let_def intro!: exI [of _ zero_vm_commitment])
  show "arena_inv a' \<and> arena_paged a'"
    using a a' arena_decommit_page_keeps [OF _ op] arena_record_decommit_paged by blast
qed

end
