(* ===== verification/VM_Arena_Correct.thy ===== *)
theory VM_Arena_Correct
  imports VM_Arena_Search
begin

text \<open>
  The properties of the virtual address arena: its invariant over every run of operations in
  page-granular use, first fit, the round trips of commit and reserve, and the one
  combination of operations that the validator rejects afterwards.
\<close>

subsection \<open>Runs\<close>

lemma reserve_commitments:
  "gxos_vm_arena_reserve a b n kind g = (st, a', s) \<Longrightarrow> va_commitments a' = va_commitments a"
  by (auto simp: gxos_vm_arena_reserve_def split: if_splits option.splits)

lemma reserve_fixed_commitments:
  "gxos_vm_arena_reserve_fixed a b req kind owner g = (st, a', s) \<Longrightarrow>
     va_commitments a' = va_commitments a"
  by (auto simp: gxos_vm_arena_reserve_fixed_def Let_def split: if_splits prod.splits option.splits
      GXOS_VM_STATUS.splits dest!: reserve_commitments)

lemma reserve_any_commitments:
  assumes "arena_inv a" and "gxos_vm_arena_reserve_any a req kind owner g = (st, a', s)"
  shows "va_commitments a' = va_commitments a"
proof (cases "req \<noteq> 0 \<and> g \<noteq> 0 \<and> page_round_bytes req \<noteq> 0")
  case True
  with reserve_any_done [OF assms(1), of req g kind owner] assms(2) show ?thesis
    by (auto simp: search_done_def arena_reserved_def)
next
  case False
  with assms show ?thesis by (auto simp: gxos_vm_arena_reserve_any_def Let_def split: if_splits)
qed

lemma release_commitments:
  "gxos_vm_arena_release a i = (st, a') \<Longrightarrow> va_commitments a' = va_commitments a"
  by (auto simp: gxos_vm_arena_release_def Let_def split: if_splits)

lemma paged_eq: "va_commitments a' = va_commitments a \<Longrightarrow> arena_paged a' = arena_paged a"
  by (simp add: arena_paged_def)

text \<open>
  The arenas that any sequence of calls reaches when the range-based commit is used on
  single aligned pages; failing calls are part of a run.
\<close>

inductive arena_run :: "GXOS_VM_ARENA \<Rightarrow> bool" where
  run_init: "g \<noteq> 0 \<Longrightarrow> range_ok b n \<Longrightarrow> arena_run (gxos_vm_arena_init b n g)"
| run_reserve: "arena_run a \<Longrightarrow> gxos_vm_arena_reserve a b n kind g = (st, a', s) \<Longrightarrow> arena_run a'"
| run_reserve_fixed: "arena_run a \<Longrightarrow>
    gxos_vm_arena_reserve_fixed a b req kind owner g = (st, a', s) \<Longrightarrow> arena_run a'"
| run_reserve_any: "arena_run a \<Longrightarrow>
    gxos_vm_arena_reserve_any a req kind owner g = (st, a', bs) \<Longrightarrow> arena_run a'"
| run_commit: "arena_run a \<Longrightarrow> b mod GXOS_VM_PAGE_SIZE = 0 \<Longrightarrow>
    gxos_vm_arena_commit a b GXOS_VM_PAGE_SIZE g = (st, a') \<Longrightarrow> arena_run a'"
| run_commit_page: "arena_run a \<Longrightarrow>
    gxos_vm_arena_commit_page a p phys g = (st, a', already) \<Longrightarrow> arena_run a'"
| run_decommit: "arena_run a \<Longrightarrow> gxos_vm_arena_decommit a b n = (st, a') \<Longrightarrow> arena_run a'"
| run_decommit_page: "arena_run a \<Longrightarrow>
    gxos_vm_arena_decommit_page a p = (st, a', phys) \<Longrightarrow> arena_run a'"
| run_release: "arena_run a \<Longrightarrow> gxos_vm_arena_release a i = (st, a') \<Longrightarrow> arena_run a'"

lemma arena_commit_one_page_paged:
  assumes "arena_inv a" and "arena_paged a" and "b mod GXOS_VM_PAGE_SIZE = 0"
    and "gxos_vm_arena_commit a b GXOS_VM_PAGE_SIZE g = (st, a')"
  shows "arena_paged a'"
proof (cases "commit_ready a b GXOS_VM_PAGE_SIZE g")
  case True
  from arena_commit_OK [OF assms(1) True] assms(4)
  show ?thesis by (auto intro!: arena_record_commit_paged assms(2) simp: assms(3))
next
  case False
  from arena_commit_fails [OF assms(1) False] assms(2,4) show ?thesis by auto
qed

lemma arena_decommit_paged:
  "arena_inv a \<Longrightarrow> arena_paged a \<Longrightarrow> gxos_vm_arena_decommit a b n = (st, a') \<Longrightarrow> arena_paged a'"
  by (auto simp: arena_decommit_eq split: if_splits option.splits intro: arena_record_decommit_paged)

lemma arena_decommit_page_paged:
  "arena_inv a \<Longrightarrow> arena_paged a \<Longrightarrow> gxos_vm_arena_decommit_page a p = (st, a', q) \<Longrightarrow> arena_paged a'"
  by (auto simp: arena_decommit_page_eq split: if_splits option.splits
      intro: arena_record_decommit_paged)

lemma arena_run_inv: "arena_run a \<Longrightarrow> arena_inv a \<and> arena_paged a"
proof (induction rule: arena_run.induct)
  case (run_init g b n)
  then have "arena_inv (gxos_vm_arena_init b n g)" by (rule arena_inv_init)
  then show ?case by (simp add: arena_paged_def gxos_vm_arena_init_def)
next
  case run_reserve
  then show ?case using arena_reserve_keeps reserve_commitments paged_eq by metis
next
  case run_reserve_fixed
  then show ?case using arena_reserve_fixed_keeps reserve_fixed_commitments paged_eq by metis
next
  case run_reserve_any
  then show ?case using arena_reserve_any_keeps reserve_any_commitments paged_eq by metis
next
  case (run_commit a b g st a')
  then show ?case
    using arena_commit_keeps [OF _ run_commit(3)] arena_commit_one_page_paged [OF _ _ run_commit(2,3)]
    by simp
next
  case run_commit_page
  then show ?case using arena_commit_page_keeps by blast
next
  case run_decommit
  then show ?case using arena_decommit_keeps arena_decommit_paged by blast
next
  case run_decommit_page
  then show ?case using arena_decommit_page_keeps arena_decommit_page_paged by blast
next
  case run_release
  then show ?case using arena_release_keeps release_commitments paged_eq by metis
qed

subsection \<open>Properties\<close>

text \<open>
  C3. After any sequence of arena operations in page-granular use, failing calls included,
  the code's own validator accepts the arena, no address lies in two reservations or in two
  commitments, every committed address is reserved, and the reported available space is
  exactly the arena's length less the sum of the live reservations, which never exceeds it.
\<close>

theorem vm_arena_always_valid:
  assumes "arena_run a"
  shows "gxos_vm_arena_validate a \<and>
    (\<forall>i j r s x. reservations.slots a i = Some r \<longrightarrow> reservations.slots a j = Some s \<longrightarrow>
       x \<in> reservation_span r \<longrightarrow> x \<in> reservation_span s \<longrightarrow> i = j) \<and>
    (\<forall>i j c d x. pages.slots a i = Some c \<longrightarrow> pages.slots a j = Some d \<longrightarrow>
       x \<in> commitment_span c \<longrightarrow> x \<in> commitment_span d \<longrightarrow> i = j) \<and>
    pages.footprint a \<subseteq> reservations.footprint a \<and>
    reserved_sum (va_reservations a) \<le> unat (va_length a) \<and>
    unat (gxos_vm_arena_available a) = unat (va_length a) - reserved_sum (va_reservations a)"
proof -
  have inv: "arena_inv a" and paged: "arena_paged a" using arena_run_inv [OF assms] by auto
  have le: "reserved_sum (va_reservations a) \<le> unat (va_length a)"
    using reserved_sum_le [OF inv, of 0 0] by (simp add: bytes_from_def)
  have "unat (gxos_vm_arena_available a) = unat (va_length a) - reserved_sum (va_reservations a)"
    using inv le by (auto simp: gxos_vm_arena_available_def arena_inv_iff word_less_nat_alt
        word_le_nat_alt unat_sub_le)
  moreover have "pages.footprint a \<subseteq> reservations.footprint a"
  proof
    fix x assume "x \<in> pages.footprint a"
    then obtain i where i: "i < GXOS_VM_MAX_COMMITMENTS" "vc_live (va_commitments a ! i)"
      "x \<in> commitment_span (va_commitments a ! i)"
      using inv by (auto simp: pages.footprint_def pages.slots_def ran_def arena_inv_iff split: if_splits)
    let ?k = "vc_reservation_slot (va_commitments a ! i)"
    have k: "?k < GXOS_VM_MAX_RESERVATIONS" "vr_live (va_reservations a ! ?k)"
      "x \<in> reservation_span (va_reservations a ! ?k)"
      using arena_inv_commitment [OF inv i(1,2)] i(3)
      by (auto simp: commitment_ok_def dest!: range_contains_subset)
    have "reservations.slots a ?k = Some (va_reservations a ! ?k)"
      using inv k by (simp add: reservations.slots_def arena_inv_iff)
    then show "x \<in> reservations.footprint a"
      using k(3) unfolding reservations.footprint_def ran_def by blast
  qed
  ultimately show ?thesis
    using inv paged le reservations.owner_unique [OF inv] pages.owner_unique [of a]
    unfolding arena_inv_def by blast
qed

theorem vm_arena_always_valid_witness:
  "gxos_vm_arena_validate (gxos_vm_arena_init 0x400000000000 0x40000000 1)"
  using vm_arena_always_valid [OF run_init [of 1 "0x400000000000" "0x40000000"]]
  by (simp add: range_ok_def)

text \<open>
  C4. Asked for any address, the arena's search always returns. It reserves the lowest
  address that is a multiple of the 64 KiB granularity and whose page-rounded range lies in
  the arena and is free, in the first free slot; it fails, leaving the arena as it was, only
  when there is no such address or no free slot.
\<close>

theorem vm_arena_reserve_any_first_fit:
  assumes "arena_inv a" and "req \<noteq> 0" and "g \<noteq> 0" and "page_round_bytes req \<noteq> 0"
  defines "n \<equiv> page_round_bytes req"
  shows "case gxos_vm_arena_reserve_any a req kind owner g of (st, a', res) \<Rightarrow>
    arena_inv a' \<and>
    (if (\<exists>b. gap a n b) \<and> (\<exists>r \<in> set (va_reservations a). \<not> vr_live r)
     then st = GXOS_VM_STATUS_OK \<and>
       (\<exists>b i. res = Some (b, i) \<and> gap a n b \<and> (\<forall>b'. gap a n b' \<longrightarrow> b \<le> b') \<and>
          find_index (\<lambda>r. \<not> vr_live r) (va_reservations a) = Some i \<and>
          a' = arena_reserved a i (new_reservation b n req kind owner g))
     else st \<noteq> GXOS_VM_STATUS_OK \<and> a' = a \<and> res = None)"
proof -
  obtain st a' res where r: "gxos_vm_arena_reserve_any a req kind owner g = (st, a', res)"
    by (cases "gxos_vm_arena_reserve_any a req kind owner g") auto
  have inv: "arena_inv a'" by (rule arena_reserve_any_keeps [OF assms(1) r])
  have "search_done a n req kind owner g (st, a', res)"
    using reserve_any_done [OF assms(1-4)] r unfolding n_def by metis
  moreover have "find_index (\<lambda>r. \<not> vr_live r) (va_reservations a) = Some i \<Longrightarrow>
      \<exists>r \<in> set (va_reservations a). \<not> vr_live r" for i
    using find_index_SomeD [of "\<lambda>r. \<not> vr_live r"] nth_mem by metis
  ultimately show ?thesis
    unfolding r search_done_def first_fit_def prod.case using inv by (elim disjE) auto
qed

theorem vm_arena_reserve_any_first_fit_witness:
  "fst (gxos_vm_arena_reserve_any (gxos_vm_arena_init 0x400000000000 0x40000000 1) 5 0 0 1) =
     GXOS_VM_STATUS_OK"
proof -
  let ?a = "gxos_vm_arena_init 0x400000000000 0x40000000 1"
  have inv: "arena_inv ?a" by (rule arena_inv_init) (simp_all add: range_ok_def)
  have n: "page_round_bytes 5 = 0x1000" by (simp add: page_round_bytes_def Let_def)
  have "gap ?a 0x1000 0x400000000000"
    by (simp add: gap_def reservable_def gxos_vm_arena_init_def zero_vm_reservation_def range_contains_iff
        range_ok_def)
  moreover have "\<exists>r \<in> set (va_reservations ?a). \<not> vr_live r"
    by (simp add: gxos_vm_arena_init_def)
  ultimately have "(\<exists>b. gap ?a (page_round_bytes 5) b) \<and>
      (\<exists>r \<in> set (va_reservations ?a). \<not> vr_live r)" unfolding n by blast
  then show ?thesis
    using vm_arena_reserve_any_first_fit [OF inv, of 5 1 0 0] n
    by (simp add: split_beta)
qed

text \<open>
  A page that was newly committed is found again, with its physical page, from every
  address in it; committing it once more to the same physical page changes nothing and says
  so, to another one is refused. Decommitting it hands back that physical page and restores
  the commitment table and the committed totals of before.
\<close>

theorem vm_arena_commit_page_roundtrip:
  assumes "arena_inv a" and "arena_paged a"
    and op: "gxos_vm_arena_commit_page a p phys g = (GXOS_VM_STATUS_OK, a', False)"
  shows "\<exists>i. pages.slots a' i \<noteq> None \<and> vc_physical_base (va_commitments a' ! i) = phys \<and>
    (\<forall>x. unat x \<in> bytes_from p GXOS_VM_PAGE_SIZE \<longrightarrow>
       gxos_vm_arena_find_commitment a' x = (GXOS_VM_STATUS_OK, Some i)) \<and>
    (\<forall>phys'. page_ready a' p phys' g \<longrightarrow> gxos_vm_arena_commit_page a' p phys' g =
       (if phys' = phys then (GXOS_VM_STATUS_OK, a', True)
        else (GXOS_VM_STATUS_COMMIT_OVERLAP, a', False))) \<and>
    (\<exists>a''. gxos_vm_arena_decommit_page a' p = (GXOS_VM_STATUS_OK, a'', phys) \<and>
       pages.slots a'' = pages.slots a \<and>
       va_total_committed_bytes a'' = va_total_committed_bytes a \<and>
       va_commitment_count a'' = va_commitment_count a)"
proof -
  obtain i k where ready: "page_ready a p phys g"
    and i: "find_index (\<lambda>c. \<not> vc_live c) (va_commitments a) = Some i"
    and a': "a' = arena_record_commit a i (new_commitment k p GXOS_VM_PAGE_SIZE phys 1 g)"
    using arena_commit_pageE [OF assms] by metis
  have inv': "arena_inv a'" "arena_paged a'" using arena_commit_page_keeps [OF assms] by auto
  note iD = find_index_SomeD [OF i]
  have at: "va_commitments a' ! i = new_commitment k p GXOS_VM_PAGE_SIZE phys 1 g"
    "i < length (va_commitments a')"
    using iD by (simp_all add: a' arena_record_commit_def)
  have only: "j = i" if "j < length (va_commitments a')" "vc_live (va_commitments a' ! j)"
      "unat x \<in> commitment_span (va_commitments a' ! j)" "unat x \<in> bytes_from p GXOS_VM_PAGE_SIZE"
    for j and x :: u64
    using arena_commitments_disjoint [OF inv'(1) that(1) at(2)] that at(1) by auto
  have find: "gxos_vm_arena_find_commitment a' x = (GXOS_VM_STATUS_OK, Some i)"
    if x: "unat x \<in> bytes_from p GXOS_VM_PAGE_SIZE" for x
  proof -
    have P: "(vc_live c \<and> x \<ge> vc_base c \<and> x - vc_base c < vc_bytes c) \<longleftrightarrow>
        vc_live c \<and> unat x \<in> commitment_span c" for c
      by (auto simp: bytes_from_def word_le_nat_alt word_less_nat_alt unat_sub_le)
    have "find_index (\<lambda>c. vc_live c \<and> unat x \<in> commitment_span c) (va_commitments a') = Some i"
    proof (rule find_index_unique [OF at(2)])
      show "vc_live (va_commitments a' ! i) \<and> unat x \<in> commitment_span (va_commitments a' ! i)"
        using at(1) x by simp
      show "j = i" if "j < length (va_commitments a')"
        "vc_live (va_commitments a' ! j) \<and> unat x \<in> commitment_span (va_commitments a' ! j)" for j
        using only that x by blast
    qed
    then show ?thesis by (simp add: gxos_vm_arena_find_commitment_def P)
  qed
  have pp: "unat p \<in> bytes_from p GXOS_VM_PAGE_SIZE" by (simp add: bytes_from_def)
  have page: "find_index (page_at p) (va_commitments a') = Some i"
  proof (rule find_index_unique [OF at(2)])
    show "page_at p (va_commitments a' ! i)" using at(1) by simp
    show "j = i" if j: "j < length (va_commitments a')" "page_at p (va_commitments a' ! j)" for j
      by (rule only [OF j(1) _ _ pp]) (use j(2) pp in auto)
  qed
  have again: "gxos_vm_arena_commit_page a' p phys' g =
      (if phys' = phys then (GXOS_VM_STATUS_OK, a', True)
       else (GXOS_VM_STATUS_COMMIT_OVERLAP, a', False))" if r: "page_ready a' p phys' g" for phys'
  proof -
    obtain k' where k': "gxos_vm_arena_find_reservation a' p = Some k'"
      using page_ready_reservation [OF inv'(1) r] by blast
    show ?thesis
      using arena_commit_page_eq [OF inv' r k'] page at(1) by auto
  qed
  have dec: "gxos_vm_arena_decommit_page a' p = (GXOS_VM_STATUS_OK, arena_record_decommit a' i, phys)"
    using arena_decommit_page_eq [OF inv'(1), of p] page at(1) ready by (simp add: page_ready_def)
  have "page_ins a (va_commitments a' ! i) i a'" "page_del a' i (arena_record_decommit a' i)"
    using op i at dec page unfolding page_ins_def page_del_def by blast+
  then have "pages.slots (arena_record_decommit a' i) = pages.slots a"
    using assms(1,2) by (intro pages.ins_del) auto
  moreover have "pages.slots a' i \<noteq> None" using at by (simp add: pages.slots_def)
  ultimately show ?thesis
    using find again dec at(1)
    by (intro exI [of _ i]) (auto simp: arena_record_decommit_def Let_def a' arena_record_commit_def)
qed

text \<open>A small arena for the concrete instances: one reservation of 64 KiB.\<close>

abbreviation sample_base :: u64 where
  "sample_base \<equiv> 0x400000000000"

definition sample_arena :: GXOS_VM_ARENA where
  "sample_arena = arena_reserved (gxos_vm_arena_init sample_base 0x40000000 1) 0
     (new_reservation sample_base 0x10000 0x10000 0 0 1)"

lemma sample_init: "arena_inv (gxos_vm_arena_init sample_base 0x40000000 1)"
  by (rule arena_inv_init) (simp_all add: range_ok_def)

lemma sample_free: "reservable (gxos_vm_arena_init sample_base 0x40000000 1) sample_base 0x10000"
  by (simp add: reservable_def gxos_vm_arena_init_def zero_vm_reservation_def range_contains_iff
      range_ok_def)

lemma sample_slot:
  "find_index (\<lambda>r. \<not> vr_live r) (va_reservations (gxos_vm_arena_init sample_base 0x40000000 1)) = Some 0"
  by (simp add: gxos_vm_arena_init_def)

lemma sample_arena_inv: "arena_inv sample_arena"
  unfolding sample_arena_def
  by (rule new_reservation_inv [OF sample_init sample_free _ _ _ sample_slot]) simp_all

lemma sample_reservation: "va_reservations sample_arena ! 0 = new_reservation sample_base 0x10000 0x10000 0 0 1"
  by (simp add: sample_arena_def arena_reserved_def gxos_vm_arena_init_def)

lemma sample_commitments: "va_commitments sample_arena = replicate 4096 zero_vm_commitment"
  by (simp add: sample_arena_def arena_reserved_def gxos_vm_arena_init_def)

lemma sample_paged: "arena_paged sample_arena"
  by (simp add: arena_paged_def sample_commitments)

lemma sample_page_ready: "page_ready sample_arena sample_base 0x1000 1"
proof -
  have "va_reservations sample_arena ! 0 \<in> set (va_reservations sample_arena)"
    using sample_arena_inv by (simp add: arena_inv_iff)
  then have "\<exists>r \<in> set (va_reservations sample_arena). vr_live r \<and>
      range_contains (vr_base r) (vr_bytes r) sample_base GXOS_VM_PAGE_SIZE"
    by (rule bexI [rotated]) (simp add: sample_reservation range_contains_iff range_ok_def)
  then show ?thesis by (simp add: page_ready_def)
qed

lemma sample_find: "gxos_vm_arena_find_reservation sample_arena sample_base = Some 0"
  using find_reservation_iff [OF sample_arena_inv, of sample_base 0]
  by (simp add: sample_reservation bytes_from_def)

lemma sample_commit_page:
  "gxos_vm_arena_commit_page sample_arena sample_base 0x1000 1 =
     (GXOS_VM_STATUS_OK, arena_record_commit sample_arena 0
        (new_commitment 0 sample_base GXOS_VM_PAGE_SIZE 0x1000 1 1), False)"
  using arena_commit_page_eq [OF sample_arena_inv sample_paged sample_page_ready sample_find]
  by (simp add: sample_commitments)

theorem vm_arena_commit_page_roundtrip_witness:
  "fst (gxos_vm_arena_find_commitment
     (fst (snd (gxos_vm_arena_commit_page sample_arena sample_base 0x1000 1))) sample_base) =
   GXOS_VM_STATUS_OK"
proof -
  have "unat sample_base \<in> bytes_from sample_base GXOS_VM_PAGE_SIZE" by (simp add: bytes_from_def)
  with vm_arena_commit_page_roundtrip [OF sample_arena_inv sample_paged sample_commit_page]
  obtain i where "gxos_vm_arena_find_commitment (arena_record_commit sample_arena 0
      (new_commitment 0 sample_base GXOS_VM_PAGE_SIZE 0x1000 1 1)) sample_base =
      (GXOS_VM_STATUS_OK, Some i)" by blast
  then show ?thesis by (simp add: sample_commit_page)
qed

text \<open>
  A reservation is released exactly when its slot is live and no commitment lies in it.
  Its whole range can then be reserved again, and no other reservation has changed; in every
  other case the call fails and the arena is as it was.
\<close>

theorem vm_arena_release_correct:
  assumes "arena_inv a"
  shows "case gxos_vm_arena_release a i of (st, a') \<Rightarrow>
    arena_inv a' \<and>
    (if releasable a i
     then st = GXOS_VM_STATUS_OK \<and> reservations.slots a' = (reservations.slots a)(i := None) \<and>
       (\<forall>b n. bytes_from b n \<subseteq> reservation_span (va_reservations a ! i) \<longrightarrow> range_ok b n \<longrightarrow>
          reservable a' b n) \<and>
       reservations.footprint a' =
         reservations.footprint a - reservation_span (va_reservations a ! i)
     else st \<noteq> GXOS_VM_STATUS_OK \<and> a' = a)"
proof (cases "releasable a i")
  case False
  with arena_release_fails [OF assms False] assms show ?thesis by auto
next
  case True
  note op = arena_release_OK [OF assms True] and inv' = arena_released_inv [OF assms True]
  let ?r = "va_reservations a ! i" and ?a = "arena_released a i"
  have i: "i < length (va_reservations a)" "vr_live ?r"
    using True assms by (simp_all add: releasable_def arena_inv_iff)
  have del: "reservation_del a i ?a" using op by (simp add: reservation_del_def)
  have slot: "reservations.slots a i = Some ?r" using i by (simp add: reservations.slots_def)
  have "reservable ?a b n" if sub: "bytes_from b n \<subseteq> reservation_span ?r" and ok: "range_ok b n" for b n
  proof -
    have r: "range_contains (va_base a) (va_length a) (vr_base ?r) (vr_bytes ?r)"
      using arena_inv_reservation [OF assms _ i(2)] i(1) assms
      by (simp add: reservation_ok_def gxos_vm_arena_contains_def arena_inv_iff)
    have "unat (vr_base ?r) \<le> unat b \<and> unat b + unat n \<le> unat (vr_base ?r) + unat (vr_bytes ?r)"
      using sub ok unat_gt_0 [of n] by (auto simp: bytes_from_def range_ok_def)
    then have "range_contains (va_base a) (va_length a) b n"
      using r ok by (auto simp: range_contains_iff)
    moreover have "bytes_from b n \<inter> reservation_span s = {}"
      if "s \<in> set (va_reservations ?a)" "vr_live s" for s
    proof -
      from that(1) obtain j where j: "j < length (va_reservations a)"
        and s: "s = (va_reservations a)[i := zero_vm_reservation] ! j"
        by (auto simp: arena_released_def in_set_conv_nth)
      with that(2) have "j \<noteq> i" "s = va_reservations a ! j"
        using nth_list_update_cases [OF j, of i zero_vm_reservation] by (auto split: if_splits)
      with arena_reservations_disjoint [OF assms i(1) j] i(2) that(2) sub show ?thesis by blast
    qed
    ultimately show ?thesis by (simp add: reservable_def arena_released_def)
  qed
  with op inv' True reservations.slots_del [OF assms del] reservations.footprint_del [OF assms del slot]
  show ?thesis by simp
qed

theorem vm_arena_release_correct_witness:
  "fst (gxos_vm_arena_release sample_arena 0) = GXOS_VM_STATUS_OK"
proof -
  have "releasable sample_arena 0"
    by (simp add: releasable_def sample_reservation sample_commitments)
  with vm_arena_release_correct [OF sample_arena_inv, of 0] show ?thesis by (simp add: split_beta)
qed

subsection \<open>Mixing the two commits\<close>

lemma sample_reservations:
  "va_reservations sample_arena =
     new_reservation sample_base 0x10000 0x10000 0 0 1 # replicate 255 zero_vm_reservation"
  by (simp add: sample_arena_def arena_reserved_def gxos_vm_arena_init_def replicate_update_hd)

definition sample_two_pages :: GXOS_VM_ARENA where
  "sample_two_pages =
     arena_record_commit sample_arena 0 (new_commitment 0 sample_base 0x2000 0 2 1)"

lemma sample_two_pages_sel:
  "va_valid sample_two_pages" "va_base sample_two_pages = sample_base"
  "va_length sample_two_pages = 0x40000000" "va_commitment_count sample_two_pages = 1"
  "va_total_committed_bytes sample_two_pages = 0x2000"
  "va_reservations sample_two_pages =
     (new_reservation sample_base 0x10000 0x10000 0 0 1)
       \<lparr>vr_committed_bytes := 0x2000, vr_state := GXOS_VM_RESERVATION_STATE_COMMITTED\<rparr> #
     replicate 255 zero_vm_reservation"
  "va_commitments sample_two_pages =
     new_commitment 0 sample_base 0x2000 0 2 1 # replicate 4095 zero_vm_commitment"
  by (simp_all add: sample_two_pages_def arena_record_commit_def sample_reservations
      sample_commitments replicate_update_hd sample_arena_def arena_reserved_def
      gxos_vm_arena_init_def word_le_nat_alt)

lemma sample_commit_two:
  "gxos_vm_arena_commit sample_arena sample_base 0x2000 1 = (GXOS_VM_STATUS_OK, sample_two_pages)"
proof -
  have "commit_ready sample_arena sample_base 0x2000 1"
    by (simp add: commit_ready_def sample_reservations sample_commitments range_contains_iff range_ok_def)
  from arena_commit_OK [OF sample_arena_inv this]
  show ?thesis
    by (simp add: gxos_vm_arena_commit_def sample_reservations sample_commitments list_ex_iff
        range_contains_iff range_ok_def sample_two_pages_def split: if_splits option.splits)
qed

definition sample_mixed :: GXOS_VM_ARENA where
  "sample_mixed = arena_record_commit sample_two_pages 1
     (new_commitment 0 sample_base GXOS_VM_PAGE_SIZE 0x1000 1 1)"

lemma sample_commit_again:
  "gxos_vm_arena_commit_page sample_two_pages sample_base 0x1000 1 =
     (GXOS_VM_STATUS_OK, sample_mixed, False)"
  by (simp add: gxos_vm_arena_commit_page_def gxos_vm_arena_find_reservation_def
      gxos_vm_arena_contains_def sample_two_pages_sel sample_mixed_def range_contains_iff
      range_ok_def add_u64_None_iff)

lemma sample_mixed_invalid: "\<not> gxos_vm_arena_validate sample_mixed"
proof
  have C: "va_commitments sample_mixed = new_commitment 0 sample_base 0x2000 0 2 1 #
      new_commitment 0 sample_base GXOS_VM_PAGE_SIZE 0x1000 1 1 # replicate 4094 zero_vm_commitment"
    by (simp add: sample_mixed_def arena_record_commit_def sample_two_pages_sel replicate_update_hd)
  have R: "length (va_reservations sample_mixed) = GXOS_VM_MAX_RESERVATIONS"
    by (simp add: sample_mixed_def arena_record_commit_def sample_two_pages_sel)
  assume "gxos_vm_arena_validate sample_mixed"
  with C R have "arena_inv sample_mixed" by (simp add: arena_inv_def)
  then have "sorted_wrt commitment_compatible (va_commitments sample_mixed)" by (simp add: arena_inv_iff)
  then show False
    by (simp add: C commitment_compatible_def ranges_overlap_def range_end_range_ok range_ok_def)
qed

text \<open>
  The range-based and the page-based commit do not compose: on a valid arena, after a
  successful commit of two pages, the page-based commit of the first of them succeeds as a
  new commitment, and the code's validator rejects the arena that results.
\<close>

theorem vm_arena_commits_do_not_compose:
  "\<exists>a a' a'' b phys g. gxos_vm_arena_validate a \<and>
     gxos_vm_arena_commit a b (2 * GXOS_VM_PAGE_SIZE) g = (GXOS_VM_STATUS_OK, a') \<and>
     gxos_vm_arena_validate a' \<and>
     gxos_vm_arena_commit_page a' b phys g = (GXOS_VM_STATUS_OK, a'', False) \<and>
     \<not> gxos_vm_arena_validate a''"
proof -
  have "gxos_vm_arena_validate sample_arena" using sample_arena_inv by (simp add: arena_inv_def)
  moreover have "gxos_vm_arena_validate sample_two_pages"
    using arena_commit_keeps [OF sample_arena_inv sample_commit_two] by (simp add: arena_inv_def)
  moreover have "gxos_vm_arena_commit sample_arena sample_base (2 * GXOS_VM_PAGE_SIZE) 1 =
      (GXOS_VM_STATUS_OK, sample_two_pages)" using sample_commit_two by simp
  ultimately show ?thesis using sample_commit_again sample_mixed_invalid by blast
qed

end
