(* ===== verification/Memory_Map.thy ===== *)
theory Memory_Map
  imports Checked_Arith
begin

text \<open>
  The firmware memory map of \<open>src/src/Gate4Harness/memory_accounting.c\<close>
  (\<open>gxos_uefi_memory_map_*\<close>, \<open>gxos_memory_class_*\<close>): sizing and acquiring the map from
  firmware, checked access to its descriptors, and the classification of physical memory.

  Firmware is code outside the repository: its three services are arguments of the model that
  take and return a state of the outside world, \<open>None\<close> being a null service pointer. A service
  returns its status and the values it leaves in the variables it was given pointers to.
  Memory is a function from addresses to bytes and a descriptor is read field by field,
  little-endian, at the offsets the header fixes. A memory class is a \<open>uint32_t\<close> that indexes
  the classification's arrays.
\<close>

abbreviation (input) GXOS_EFI_SUCCESS :: u64 where "GXOS_EFI_SUCCESS \<equiv> 0"
abbreviation (input) GXOS_EFI_BUFFER_TOO_SMALL :: u64 where
  "GXOS_EFI_BUFFER_TOO_SMALL \<equiv> 0x8000000000000005"
abbreviation (input) GXOS_EFI_LOADER_DATA :: u32 where "GXOS_EFI_LOADER_DATA \<equiv> 4"
abbreviation (input) GXOS_MEMORY_MAP_MAX_BYTES :: u64 where "GXOS_MEMORY_MAP_MAX_BYTES \<equiv> 131072"
abbreviation (input) GXOS_MEMORY_MAP_MAX_DESCRIPTORS :: u64 where
  "GXOS_MEMORY_MAP_MAX_DESCRIPTORS \<equiv> 2048"
abbreviation (input) GXOS_MEMORY_MAP_GROWTH_SLACK_DESCRIPTORS :: u64 where
  "GXOS_MEMORY_MAP_GROWTH_SLACK_DESCRIPTORS \<equiv> 8"
abbreviation (input) GXOS_MEMORY_MAP_MAX_RETRIES :: nat where "GXOS_MEMORY_MAP_MAX_RETRIES \<equiv> 4"
abbreviation (input) sizeof_EFI_MEMORY_DESCRIPTOR :: u64 where "sizeof_EFI_MEMORY_DESCRIPTOR \<equiv> 40"
abbreviation (input) GXOS_MEMORY_CLASS_COUNT :: nat where "GXOS_MEMORY_CLASS_COUNT \<equiv> 16"
abbreviation (input) GXOS_MEMORY_CLASS_CONVENTIONAL :: u32 where "GXOS_MEMORY_CLASS_CONVENTIONAL \<equiv> 0"

datatype GXOS_MEMORY_MAP_STATUS =
    GXOS_MEMORY_MAP_STATUS_OK
  | GXOS_MEMORY_MAP_STATUS_INVALID_ARGUMENT
  | GXOS_MEMORY_MAP_STATUS_FIRMWARE_QUERY
  | GXOS_MEMORY_MAP_STATUS_ALLOCATION
  | GXOS_MEMORY_MAP_STATUS_CAPACITY
  | GXOS_MEMORY_MAP_STATUS_MALFORMED
  | GXOS_MEMORY_MAP_STATUS_OVERFLOW
  | GXOS_MEMORY_MAP_STATUS_RETRY_EXHAUSTED

datatype GXOS_MEMORY_CLASSIFICATION_STATUS =
    GXOS_MEMORY_CLASSIFICATION_OK
  | GXOS_MEMORY_CLASSIFICATION_INVALID_ARGUMENT
  | GXOS_MEMORY_CLASSIFICATION_MALFORMED
  | GXOS_MEMORY_CLASSIFICATION_OVERFLOW

record EFI_MEMORY_DESCRIPTOR =
  ed_Type :: u32
  ed_Pad :: u32
  ed_PhysicalStart :: u64
  ed_VirtualStart :: u64
  ed_NumberOfPages :: u64
  ed_Attribute :: u64

record GXOS_UEFI_MEMORY_MAP =
  mm_backing :: u64
  mm_backing_bytes :: u64
  mm_map_bytes :: u64
  mm_descriptor_size :: u64
  mm_descriptor_version :: u32
  mm_map_key :: u64
  mm_descriptor_count :: u32
  mm_generation :: u64
  mm_valid :: bool

record GXOS_MEMORY_CLASSIFICATION =
  mc_valid :: bool
  mc_descriptor_count :: u32
  mc_class_bytes :: "u64 list"
  mc_class_pages :: "u64 list"
  mc_total_ram_like_bytes :: u64
  mc_conventional_bytes :: u64

type_synonym 'w efi_get_memory_map = "'w \<Rightarrow> u64 \<Rightarrow> u64 \<Rightarrow> 'w \<times> u64 \<times> u64 \<times> u64 \<times> u64 \<times> u32"
type_synonym 'w efi_allocate_pool = "'w \<Rightarrow> u32 \<Rightarrow> u64 \<Rightarrow> 'w \<times> u64 \<times> u64"
type_synonym 'w efi_free_pool = "'w \<Rightarrow> u64 \<Rightarrow> 'w \<times> u64"

subsection \<open>Acquiring the map\<close>

definition map_growth_size :: "u64 \<Rightarrow> u64 \<Rightarrow> u64 option" where
  "map_growth_size map_bytes descriptor_size =
     (if descriptor_size < sizeof_EFI_MEMORY_DESCRIPTOR \<or>
         descriptor_size > GXOS_MEMORY_MAP_MAX_BYTES then None
      else case multiply_u64 descriptor_size GXOS_MEMORY_MAP_GROWTH_SLACK_DESCRIPTORS of
        None \<Rightarrow> None
      | Some slack \<Rightarrow>
          (case add_u64 map_bytes slack of
             None \<Rightarrow> None
           | Some required \<Rightarrow> if required > GXOS_MEMORY_MAP_MAX_BYTES then None else Some required))"

definition gxos_uefi_memory_map_parse :: "u64 \<Rightarrow> u64 \<Rightarrow> u64 \<Rightarrow> u32 option" where
  "gxos_uefi_memory_map_parse memory_map map_bytes descriptor_size =
     (if descriptor_size < sizeof_EFI_MEMORY_DESCRIPTOR \<or>
         descriptor_size > GXOS_MEMORY_MAP_MAX_BYTES \<or> map_bytes > GXOS_MEMORY_MAP_MAX_BYTES
      then None
      else if map_bytes = 0 then Some 0
      else if memory_map = 0 \<or> map_bytes mod descriptor_size \<noteq> 0 then None
      else let count = map_bytes div descriptor_size in
        if count = 0 \<or> count > GXOS_MEMORY_MAP_MAX_DESCRIPTORS \<or> count > 0xFFFFFFFF
        then None else Some (ucast count))"

definition zero_uefi_memory_map :: GXOS_UEFI_MEMORY_MAP where
  "zero_uefi_memory_map =
     \<lparr> mm_backing = 0, mm_backing_bytes = 0, mm_map_bytes = 0, mm_descriptor_size = 0,
       mm_descriptor_version = 0, mm_map_key = 0, mm_descriptor_count = 0, mm_generation = 0,
       mm_valid = False \<rparr>"

text \<open>The retry loop; the number is that of the iterations left.\<close>

fun acquire_loop ::
    "'w efi_get_memory_map \<Rightarrow> 'w efi_allocate_pool \<Rightarrow> 'w efi_free_pool \<Rightarrow> nat \<Rightarrow> 'w \<Rightarrow>
     GXOS_UEFI_MEMORY_MAP \<Rightarrow> u64 \<Rightarrow> u64 \<Rightarrow> u64 \<Rightarrow>
     GXOS_MEMORY_MAP_STATUS \<times> GXOS_UEFI_MEMORY_MAP \<times> 'w" where
  "acquire_loop get_memory_map allocate_pool free_pool 0 w uefi_map map_bytes descriptor_size backing =
     (GXOS_MEMORY_MAP_STATUS_RETRY_EXHAUSTED, uefi_map,
      if backing \<noteq> 0 then fst (free_pool w backing) else w)"
| "acquire_loop get_memory_map allocate_pool free_pool (Suc retries) w uefi_map map_bytes
     descriptor_size backing =
     (case map_growth_size map_bytes descriptor_size of
        None \<Rightarrow> (GXOS_MEMORY_MAP_STATUS_OVERFLOW, uefi_map, w)
      | Some required \<Rightarrow>
          (case (if backing \<noteq> 0 then free_pool w backing else (w, GXOS_EFI_SUCCESS)) of
             (w1, freed) \<Rightarrow>
               if freed \<noteq> GXOS_EFI_SUCCESS then (GXOS_MEMORY_MAP_STATUS_ALLOCATION, uefi_map, w1)
               else case allocate_pool w1 GXOS_EFI_LOADER_DATA required of
                 (w2, allocated, buffer) \<Rightarrow>
                   if allocated \<noteq> GXOS_EFI_SUCCESS \<or> buffer = 0
                   then (GXOS_MEMORY_MAP_STATUS_ALLOCATION, uefi_map, w2)
                   else case get_memory_map w2 required buffer of
                     (w3, status, returned_bytes, map_key, dsize, version) \<Rightarrow>
                       if status = GXOS_EFI_BUFFER_TOO_SMALL
                       then if returned_bytes \<le> required
                            then (GXOS_MEMORY_MAP_STATUS_RETRY_EXHAUSTED, uefi_map,
                                  fst (free_pool w3 buffer))
                            else acquire_loop get_memory_map allocate_pool free_pool retries w3
                                   uefi_map returned_bytes
                                   (if dsize = 0 then sizeof_EFI_MEMORY_DESCRIPTOR else dsize) buffer
                       else if status \<noteq> GXOS_EFI_SUCCESS
                       then (GXOS_MEMORY_MAP_STATUS_FIRMWARE_QUERY, uefi_map, fst (free_pool w3 buffer))
                       else case (if returned_bytes > required then None
                                  else gxos_uefi_memory_map_parse buffer returned_bytes dsize) of
                         None \<Rightarrow> (GXOS_MEMORY_MAP_STATUS_MALFORMED, uefi_map, fst (free_pool w3 buffer))
                       | Some count \<Rightarrow>
                           (GXOS_MEMORY_MAP_STATUS_OK,
                            uefi_map\<lparr> mm_descriptor_count := count, mm_backing := buffer,
                                 mm_backing_bytes := required, mm_map_bytes := returned_bytes,
                                 mm_descriptor_size := dsize, mm_descriptor_version := version,
                                 mm_map_key := map_key, mm_generation := 1, mm_valid := True \<rparr>,
                            w3)))"

text \<open>The \<open>None\<close> map is the caller's map left as it was.\<close>

definition gxos_uefi_memory_map_acquire ::
    "'w efi_get_memory_map option \<Rightarrow> 'w efi_allocate_pool option \<Rightarrow> 'w efi_free_pool option \<Rightarrow>
     'w \<Rightarrow> GXOS_MEMORY_MAP_STATUS \<times> GXOS_UEFI_MEMORY_MAP option \<times> 'w" where
  "gxos_uefi_memory_map_acquire get_memory_map allocate_pool free_pool w =
     (case (get_memory_map, allocate_pool, free_pool) of
        (Some get, Some alloc, Some free) \<Rightarrow>
          (case get w 0 0 of
             (w1, status, map_bytes, map_key, descriptor_size, descriptor_version) \<Rightarrow>
               if status \<noteq> GXOS_EFI_BUFFER_TOO_SMALL \<and> status \<noteq> GXOS_EFI_SUCCESS
               then (GXOS_MEMORY_MAP_STATUS_FIRMWARE_QUERY, Some zero_uefi_memory_map, w1)
               else if status = GXOS_EFI_SUCCESS \<and> map_bytes = 0
               then (GXOS_MEMORY_MAP_STATUS_OK,
                     Some (zero_uefi_memory_map
                       \<lparr> mm_descriptor_size :=
                           (if descriptor_size = 0 then sizeof_EFI_MEMORY_DESCRIPTOR
                            else descriptor_size),
                         mm_descriptor_version := descriptor_version, mm_map_key := map_key,
                         mm_generation := 1, mm_valid := True \<rparr>), w1)
               else if map_bytes = 0
               then (GXOS_MEMORY_MAP_STATUS_MALFORMED, Some zero_uefi_memory_map, w1)
               else case acquire_loop get alloc free GXOS_MEMORY_MAP_MAX_RETRIES w1
                           zero_uefi_memory_map map_bytes
                           (if descriptor_size = 0 then sizeof_EFI_MEMORY_DESCRIPTOR
                            else descriptor_size) 0 of
                      (st, uefi_map, w2) \<Rightarrow> (st, Some uefi_map, w2))
      | _ \<Rightarrow> (GXOS_MEMORY_MAP_STATUS_INVALID_ARGUMENT, None, w))"

subsection \<open>Descriptors and classes\<close>

text \<open>The result is the descriptor's address, \<open>None\<close> a null pointer.\<close>

definition gxos_uefi_memory_map_descriptor :: "GXOS_UEFI_MEMORY_MAP \<Rightarrow> u32 \<Rightarrow> u64 option" where
  "gxos_uefi_memory_map_descriptor uefi_map index =
     (if \<not> mm_valid uefi_map \<or> mm_backing uefi_map = 0 \<or> index \<ge> mm_descriptor_count uefi_map then None
      else case multiply_u64 (ucast index) (mm_descriptor_size uefi_map) of
        None \<Rightarrow> None
      | Some offset \<Rightarrow>
          if offset > mm_map_bytes uefi_map \<or>
             sizeof_EFI_MEMORY_DESCRIPTOR > mm_map_bytes uefi_map - offset \<or>
             offset > mm_backing_bytes uefi_map \<or>
             sizeof_EFI_MEMORY_DESCRIPTOR > mm_backing_bytes uefi_map - offset
          then None
          else Some (mm_backing uefi_map + offset))"

primrec load_le :: "(u64 \<Rightarrow> u8) \<Rightarrow> u64 \<Rightarrow> nat \<Rightarrow> nat" where
  "load_le mem a 0 = 0"
| "load_le mem a (Suc n) = unat (mem a) + 256 * load_le mem (a + 1) n"

definition load_descriptor :: "(u64 \<Rightarrow> u8) \<Rightarrow> u64 \<Rightarrow> EFI_MEMORY_DESCRIPTOR" where
  "load_descriptor mem p =
     \<lparr> ed_Type = of_nat (load_le mem p 4), ed_Pad = of_nat (load_le mem (p + 4) 4),
       ed_PhysicalStart = of_nat (load_le mem (p + 8) 8),
       ed_VirtualStart = of_nat (load_le mem (p + 16) 8),
       ed_NumberOfPages = of_nat (load_le mem (p + 24) 8),
       ed_Attribute = of_nat (load_le mem (p + 32) 8) \<rparr>"

definition gxos_memory_class_for_efi_type :: "u32 \<Rightarrow> u32" where
  "gxos_memory_class_for_efi_type t =
     (if t = 7 then 0 else if t = 1 then 1 else if t = 2 then 2 else if t = 3 then 3
      else if t = 4 then 4 else if t = 5 then 5 else if t = 6 then 6 else if t = 9 then 7
      else if t = 10 then 8 else if t = 0 then 9 else if t = 8 then 10 else if t = 11 then 11
      else if t = 12 then 12 else if t = 14 then 13 else if t = 13 then 14 else 15)"

definition gxos_memory_class_name :: "u32 \<Rightarrow> string" where
  "gxos_memory_class_name memory_class =
     (if unat memory_class \<ge> GXOS_MEMORY_CLASS_COUNT then ''INVALID''
      else [''CONVENTIONAL'', ''LOADER_CODE'', ''LOADER_DATA'', ''BOOT_SERVICES_CODE'',
            ''BOOT_SERVICES_DATA'', ''RUNTIME_SERVICES_CODE'', ''RUNTIME_SERVICES_DATA'',
            ''ACPI_RECLAIM'', ''ACPI_NVS'', ''RESERVED'', ''UNUSABLE'', ''MMIO'',
            ''MMIO_PORT_SPACE'', ''PERSISTENT'', ''PAL_CODE'', ''UNKNOWN''] ! unat memory_class)"

definition gxos_memory_class_is_ram_like :: "u32 \<Rightarrow> bool" where
  "gxos_memory_class_is_ram_like c \<longleftrightarrow>
     c = 0 \<or> c = 1 \<or> c = 2 \<or> c = 3 \<or> c = 4 \<or> c = 5 \<or> c = 6 \<or> c = 7 \<or> c = 8 \<or> c = 13 \<or> c = 14"

subsection \<open>Classification\<close>

definition zero_memory_classification :: GXOS_MEMORY_CLASSIFICATION where
  "zero_memory_classification =
     \<lparr> mc_valid = False, mc_descriptor_count = 0,
       mc_class_bytes = replicate GXOS_MEMORY_CLASS_COUNT 0,
       mc_class_pages = replicate GXOS_MEMORY_CLASS_COUNT 0,
       mc_total_ram_like_bytes = 0, mc_conventional_bytes = 0 \<rparr>"

definition descriptor_at ::
    "(u64 \<Rightarrow> u8) \<Rightarrow> GXOS_UEFI_MEMORY_MAP \<Rightarrow> nat \<Rightarrow> EFI_MEMORY_DESCRIPTOR option" where
  "descriptor_at mem uefi_map index =
     map_option (load_descriptor mem) (gxos_uefi_memory_map_descriptor uefi_map (of_nat index))"

text \<open>The extent of a descriptor: its bytes and its end, when neither overflows.\<close>

definition descriptor_extent :: "EFI_MEMORY_DESCRIPTOR \<Rightarrow> (u64 \<times> u64) option" where
  "descriptor_extent d =
     (case multiply_u64 (ed_NumberOfPages d) GXOS_MEMORY_PAGE_SIZE of
        None \<Rightarrow> None
      | Some bytes \<Rightarrow>
          map_option (\<lambda>end. (bytes, end)) (add_u64 (ed_PhysicalStart d) bytes))"

definition prior_conflict ::
    "EFI_MEMORY_DESCRIPTOR \<Rightarrow> u64 \<Rightarrow> EFI_MEMORY_DESCRIPTOR option \<Rightarrow> bool" where
  "prior_conflict d end previous =
     (case previous of
        None \<Rightarrow> True
      | Some p \<Rightarrow> ed_NumberOfPages p = 0 \<or>
          (case descriptor_extent p of
             None \<Rightarrow> True
           | Some (_, previous_end) \<Rightarrow>
               ed_PhysicalStart d < previous_end \<and> ed_PhysicalStart p < end))"

text \<open>The four checked additions of one descriptor, in order.\<close>

definition classify_add ::
    "GXOS_MEMORY_CLASSIFICATION \<Rightarrow> u32 \<Rightarrow> u64 \<Rightarrow> u64 \<Rightarrow>
     GXOS_MEMORY_CLASSIFICATION_STATUS \<times> GXOS_MEMORY_CLASSIFICATION" where
  "classify_add cl memory_class bytes pages =
     (case add_u64 (mc_class_bytes cl ! unat memory_class) bytes of
        None \<Rightarrow> (GXOS_MEMORY_CLASSIFICATION_OVERFLOW, cl)
      | Some class_bytes \<Rightarrow>
          let cl = cl\<lparr> mc_class_bytes := (mc_class_bytes cl)[unat memory_class := class_bytes] \<rparr> in
          case add_u64 (mc_class_pages cl ! unat memory_class) pages of
            None \<Rightarrow> (GXOS_MEMORY_CLASSIFICATION_OVERFLOW, cl)
          | Some class_pages \<Rightarrow>
              let cl = cl\<lparr> mc_class_pages := (mc_class_pages cl)[unat memory_class := class_pages] \<rparr> in
              case (if memory_class = GXOS_MEMORY_CLASS_CONVENTIONAL
                    then add_u64 (mc_conventional_bytes cl) bytes
                    else Some (mc_conventional_bytes cl)) of
                None \<Rightarrow> (GXOS_MEMORY_CLASSIFICATION_OVERFLOW, cl)
              | Some conventional \<Rightarrow>
                  let cl = cl\<lparr> mc_conventional_bytes := conventional \<rparr> in
                  case (if gxos_memory_class_is_ram_like memory_class
                        then add_u64 (mc_total_ram_like_bytes cl) bytes
                        else Some (mc_total_ram_like_bytes cl)) of
                    None \<Rightarrow> (GXOS_MEMORY_CLASSIFICATION_OVERFLOW, cl)
                  | Some ram_like \<Rightarrow>
                      (GXOS_MEMORY_CLASSIFICATION_OK, cl\<lparr> mc_total_ram_like_bytes := ram_like \<rparr>))"

fun classify_loop ::
    "(nat \<Rightarrow> EFI_MEMORY_DESCRIPTOR option) \<Rightarrow> nat list \<Rightarrow> GXOS_MEMORY_CLASSIFICATION \<Rightarrow>
     GXOS_MEMORY_CLASSIFICATION_STATUS \<times> GXOS_MEMORY_CLASSIFICATION" where
  "classify_loop D [] cl = (GXOS_MEMORY_CLASSIFICATION_OK, cl)"
| "classify_loop D (index # rest) cl =
     (case D index of
        None \<Rightarrow> (GXOS_MEMORY_CLASSIFICATION_MALFORMED, cl)
      | Some descriptor \<Rightarrow>
          if ed_NumberOfPages descriptor = 0 then (GXOS_MEMORY_CLASSIFICATION_MALFORMED, cl)
          else case descriptor_extent descriptor of
            None \<Rightarrow> (GXOS_MEMORY_CLASSIFICATION_OVERFLOW, cl)
          | Some (bytes, end) \<Rightarrow>
              if list_ex (\<lambda>prior. prior_conflict descriptor end (D prior)) [0..<index]
              then (GXOS_MEMORY_CLASSIFICATION_MALFORMED, cl)
              else (case classify_add cl (gxos_memory_class_for_efi_type (ed_Type descriptor)) bytes
                           (ed_NumberOfPages descriptor) of
                      (GXOS_MEMORY_CLASSIFICATION_OK, cl') \<Rightarrow> classify_loop D rest cl'
                    | (st, cl') \<Rightarrow> (st, cl')))"

text \<open>\<open>None\<close> is a classification left as it was.\<close>

definition gxos_uefi_memory_map_classify ::
    "(u64 \<Rightarrow> u8) \<Rightarrow> GXOS_UEFI_MEMORY_MAP \<Rightarrow>
     GXOS_MEMORY_CLASSIFICATION_STATUS \<times> GXOS_MEMORY_CLASSIFICATION option" where
  "gxos_uefi_memory_map_classify mem uefi_map =
     (if \<not> mm_valid uefi_map then (GXOS_MEMORY_CLASSIFICATION_INVALID_ARGUMENT, None)
      else case classify_loop (descriptor_at mem uefi_map) [0..<unat (mm_descriptor_count uefi_map)]
                  zero_memory_classification of
        (GXOS_MEMORY_CLASSIFICATION_OK, cl) \<Rightarrow>
          (GXOS_MEMORY_CLASSIFICATION_OK,
           Some (cl\<lparr> mc_descriptor_count := mm_descriptor_count uefi_map, mc_valid := True \<rparr>))
      | (st, cl) \<Rightarrow> (st, Some cl))"

subsection \<open>What a well-formed map promises\<close>

text \<open>
  A map as \<open>acquire\<close> leaves it: empty without a buffer, or with whole descriptors inside a
  buffer of known size.
\<close>

definition memory_map_wf :: "GXOS_UEFI_MEMORY_MAP \<Rightarrow> bool" where
  "memory_map_wf m \<longleftrightarrow> mm_valid m \<and> mm_generation m = 1 \<and>
     (if mm_backing m = 0 then mm_descriptor_count m = 0 \<and> mm_map_bytes m = 0
      else mm_map_bytes m \<le> mm_backing_bytes m \<and> mm_backing_bytes m \<le> GXOS_MEMORY_MAP_MAX_BYTES \<and>
        sizeof_EFI_MEMORY_DESCRIPTOR \<le> mm_descriptor_size m \<and>
        unat (mm_map_bytes m) = unat (mm_descriptor_count m) * unat (mm_descriptor_size m) \<and>
        unat (mm_descriptor_count m) \<le> 2048)"

lemma map_growth_size_Some:
  assumes "map_growth_size n s = Some r"
  shows "r \<le> GXOS_MEMORY_MAP_MAX_BYTES" and "unat r = unat n + 8 * unat s"
proof -
  obtain k where k: "multiply_u64 s 8 = Some k" "add_u64 n k = Some r" "r \<le> GXOS_MEMORY_MAP_MAX_BYTES"
    using assms by (auto simp: map_growth_size_def not_less split: if_splits option.splits)
  then show "r \<le> GXOS_MEMORY_MAP_MAX_BYTES" by simp
  show "unat r = unat n + 8 * unat s"
    using add_u64_unat [OF k(2)] multiply_u64_unat [OF k(1)] by simp
qed

lemma parse_Some:
  assumes "gxos_uefi_memory_map_parse b n s = Some c"
  shows "sizeof_EFI_MEMORY_DESCRIPTOR \<le> s" and "unat n = unat c * unat s" and "unat c \<le> 2048"
    and "n \<le> GXOS_MEMORY_MAP_MAX_BYTES"
proof -
  have g: "\<not> (s < sizeof_EFI_MEMORY_DESCRIPTOR \<or> s > GXOS_MEMORY_MAP_MAX_BYTES \<or>
      n > GXOS_MEMORY_MAP_MAX_BYTES)"
    using assms by (auto simp: gxos_uefi_memory_map_parse_def split: if_splits)
  then show "sizeof_EFI_MEMORY_DESCRIPTOR \<le> s" "n \<le> GXOS_MEMORY_MAP_MAX_BYTES" by (simp_all add: not_less)
  show "unat n = unat c * unat s" "unat c \<le> 2048"
  proof -
    consider "n = 0" "c = 0" | "n \<noteq> 0" "n mod s = 0" "n div s \<le> 2048" "c = ucast (n div s)"
      using assms g by (auto simp: gxos_uefi_memory_map_parse_def Let_def not_less split: if_splits)
    then have "unat n = unat c * unat s \<and> unat c \<le> 2048"
    proof cases
      case 1
      then show ?thesis by simp
    next
      case 2
      have le: "unat (n div s) \<le> 2048" using 2(3) by (simp add: word_le_nat_alt)
      then have c: "unat c = unat (n div s)"
        unfolding 2(4) by (simp add: unsigned_ucast_eq take_bit_nat_eq_self)
      have "unat n mod unat s = 0" using 2(2) unat_mod_u64 [of n s] by simp
      then have "unat n = unat (n div s) * unat s"
        by (simp add: unat_div_u64 dvd_div_mult_self mod_eq_0_iff_dvd)
      with c le show ?thesis by simp
    qed
    then show "unat n = unat c * unat s" "unat c \<le> 2048" by auto
  qed
qed

lemma acquire_loop_wf:
  "acquire_loop get alloc free k w m n s b = (GXOS_MEMORY_MAP_STATUS_OK, m', w') \<Longrightarrow>
     memory_map_wf m' \<and> mm_backing m' \<noteq> 0"
proof (induction k arbitrary: w n s b)
  case 0
  then show ?case by simp
next
  case (Suc k)
  show ?case
  proof (cases "\<exists>w n s b. acquire_loop get alloc free k w m n s b = (GXOS_MEMORY_MAP_STATUS_OK, m', w')")
    case True
    then show ?thesis using Suc.IH by blast
  next
    case False
    with Suc.prems obtain required buffer returned dsize count where
      r: "map_growth_size n s = Some required" "buffer \<noteq> 0" "returned \<le> required"
        "gxos_uefi_memory_map_parse buffer returned dsize = Some count"
      and m': "mm_valid m'" "mm_generation m' = 1" "mm_backing m' = buffer" "mm_backing_bytes m' = required"
        "mm_map_bytes m' = returned" "mm_descriptor_size m' = dsize" "mm_descriptor_count m' = count"
      by (auto simp: not_less split: option.splits prod.splits if_splits)
    with map_growth_size_Some [OF r(1)] parse_Some [OF r(4)] show ?thesis
      by (simp add: memory_map_wf_def)
  qed
qed

lemma acquire_wf:
  assumes "gxos_uefi_memory_map_acquire get alloc free w = (GXOS_MEMORY_MAP_STATUS_OK, res, w')"
  shows "\<exists>m. res = Some m \<and> memory_map_wf m"
proof -
  obtain g a f where gaf: "get = Some g" "alloc = Some a" "free = Some f"
    using assms by (auto simp: gxos_uefi_memory_map_acquire_def split: option.splits)
  obtain w1 st n key s v where get: "g w 0 0 = (w1, st, n, key, s, v)" by (cases "g w 0 0") auto
  show ?thesis
  proof (cases "st = GXOS_EFI_SUCCESS \<and> n = 0")
    case True
    with assms gaf get show ?thesis
      by (auto simp: gxos_uefi_memory_map_acquire_def memory_map_wf_def zero_uefi_memory_map_def)
  next
    case False
    with assms gaf get show ?thesis
      by (auto simp: gxos_uefi_memory_map_acquire_def split: if_splits prod.splits
          dest: acquire_loop_wf)
  qed
qed

lemma descriptor_in_bounds:
  assumes "memory_map_wf m" and "i < mm_descriptor_count m"
  shows "gxos_uefi_memory_map_descriptor m i =
      Some (mm_backing m + ucast i * mm_descriptor_size m)"
    and "unat i * unat (mm_descriptor_size m) + 40 \<le> unat (mm_map_bytes m)"
proof -
  let ?s = "mm_descriptor_size m" and ?n = "mm_map_bytes m" and ?b = "mm_backing_bytes m"
  have buf: "mm_backing m \<noteq> 0" using assms by (auto simp: memory_map_wf_def)
  with assms(1) have wf: "?n \<le> ?b" "?b \<le> GXOS_MEMORY_MAP_MAX_BYTES" "40 \<le> unat ?s"
    "unat ?n = unat (mm_descriptor_count m) * unat ?s"
    by (auto simp: memory_map_wf_def word_le_nat_alt)
  have i: "Suc (unat i) \<le> unat (mm_descriptor_count m)" using assms(2) by (simp add: word_less_nat_alt)
  have "Suc (unat i) * unat ?s \<le> unat ?n" unfolding wf(4) by (rule mult_le_mono1 [OF i])
  then show b: "unat i * unat ?s + 40 \<le> unat ?n" using wf(3) by simp
  have "unat (ucast i :: u64) = unat i" by simp
  moreover have "unat i * unat ?s < 2 ^ 64" using b le_less_trans [OF _ unat_lt_2p64, of "unat i * unat ?s" ?n] by simp
  ultimately have off: "multiply_u64 (ucast i) ?s = Some (ucast i * ?s)"
    "unat (ucast i * ?s) = unat i * unat ?s"
    using multiply_u64_unat [of "ucast i" ?s] by (auto simp: multiply_u64_Some_iff)
  have le: "ucast i * ?s \<le> ?n" "ucast i * ?s \<le> ?b"
    using b wf(1) off(2) by (auto simp: word_le_nat_alt)
  then have "\<not> sizeof_EFI_MEMORY_DESCRIPTOR > ?n - ucast i * ?s" "\<not> sizeof_EFI_MEMORY_DESCRIPTOR > ?b - ucast i * ?s"
    using b wf(1) off(2) by (auto simp: word_less_nat_alt word_le_nat_alt unat_sub_le)
  with le off(1) buf assms show "gxos_uefi_memory_map_descriptor m i = Some (mm_backing m + ucast i * ?s)"
    by (simp add: gxos_uefi_memory_map_descriptor_def memory_map_wf_def not_less not_le)
qed

subsection \<open>What classification computes\<close>

abbreviation descriptor_bytes :: "EFI_MEMORY_DESCRIPTOR \<Rightarrow> nat" where
  "descriptor_bytes d \<equiv> unat (ed_NumberOfPages d) * 4096"

definition descriptor_ok :: "EFI_MEMORY_DESCRIPTOR \<Rightarrow> bool" where
  "descriptor_ok d \<longleftrightarrow> ed_NumberOfPages d \<noteq> 0 \<and>
     unat (ed_PhysicalStart d) + descriptor_bytes d < 2 ^ 64"

definition descriptor_span :: "EFI_MEMORY_DESCRIPTOR \<Rightarrow> nat set" where
  "descriptor_span d =
     {unat (ed_PhysicalStart d) ..< unat (ed_PhysicalStart d) + descriptor_bytes d}"

abbreviation descriptor_class :: "EFI_MEMORY_DESCRIPTOR \<Rightarrow> u32" where
  "descriptor_class d \<equiv> gxos_memory_class_for_efi_type (ed_Type d)"

text \<open>Readable, well-formed and pairwise disjoint descriptors.\<close>

definition descriptors_wf ::
    "(nat \<Rightarrow> EFI_MEMORY_DESCRIPTOR option) \<Rightarrow> nat \<Rightarrow> EFI_MEMORY_DESCRIPTOR list \<Rightarrow> bool" where
  "descriptors_wf D n ds \<longleftrightarrow> length ds = n \<and> (\<forall>i < n. D i = Some (ds ! i)) \<and>
     (\<forall>d \<in> set ds. descriptor_ok d) \<and>
     sorted_wrt (\<lambda>d e. descriptor_span d \<inter> descriptor_span e = {}) ds"

text \<open>The totals of a list of descriptors.\<close>

definition classified :: "EFI_MEMORY_DESCRIPTOR list \<Rightarrow> GXOS_MEMORY_CLASSIFICATION" where
  "classified ds =
     \<lparr> mc_valid = False, mc_descriptor_count = 0,
       mc_class_bytes = map (\<lambda>c. of_nat (live_sum (\<lambda>d. unat (descriptor_class d) = c)
         descriptor_bytes ds)) [0..<GXOS_MEMORY_CLASS_COUNT],
       mc_class_pages = map (\<lambda>c. of_nat (live_sum (\<lambda>d. unat (descriptor_class d) = c)
         (\<lambda>d. unat (ed_NumberOfPages d)) ds)) [0..<GXOS_MEMORY_CLASS_COUNT],
       mc_total_ram_like_bytes = of_nat (live_sum
         (\<lambda>d. gxos_memory_class_is_ram_like (descriptor_class d)) descriptor_bytes ds),
       mc_conventional_bytes = of_nat (live_sum
         (\<lambda>d. descriptor_class d = GXOS_MEMORY_CLASS_CONVENTIONAL) descriptor_bytes ds) \<rparr>"

lemma classified_Nil: "zero_memory_classification = classified []"
  by (simp add: zero_memory_classification_def classified_def map_replicate_const)

lemma descriptor_class_lt: "unat (descriptor_class d) < GXOS_MEMORY_CLASS_COUNT"
  by (simp add: gxos_memory_class_for_efi_type_def)

lemma descriptor_extent_ok:
  "descriptor_ok d \<Longrightarrow> descriptor_extent d =
     Some (ed_NumberOfPages d * 4096, ed_PhysicalStart d + ed_NumberOfPages d * 4096) \<and>
     unat (ed_NumberOfPages d * 4096) = descriptor_bytes d \<and>
     unat (ed_PhysicalStart d + ed_NumberOfPages d * 4096) = unat (ed_PhysicalStart d) + descriptor_bytes d"
proof -
  assume ok: "descriptor_ok d"
  then have m: "multiply_u64 (ed_NumberOfPages d) GXOS_MEMORY_PAGE_SIZE = Some (ed_NumberOfPages d * 4096)"
    by (simp add: multiply_u64_Some_iff descriptor_ok_def)
  have u: "unat (ed_NumberOfPages d * 4096) = descriptor_bytes d"
    using multiply_u64_unat [OF m] by simp
  then have "add_u64 (ed_PhysicalStart d) (ed_NumberOfPages d * 4096) =
      Some (ed_PhysicalStart d + ed_NumberOfPages d * 4096)"
    using ok by (simp add: add_u64_Some_iff descriptor_ok_def)
  with m u ok show ?thesis by (simp add: descriptor_extent_def unat_add_fits descriptor_ok_def)
qed

lemma descriptor_extent_Some:
  assumes "descriptor_extent d = Some p" and "ed_NumberOfPages d \<noteq> 0"
  shows "descriptor_ok d"
proof -
  obtain b where b: "multiply_u64 (ed_NumberOfPages d) GXOS_MEMORY_PAGE_SIZE = Some b"
    "add_u64 (ed_PhysicalStart d) b \<noteq> None"
    using assms(1) by (auto simp: descriptor_extent_def split: option.splits)
  with multiply_u64_unat [OF b(1)] assms(2) show ?thesis
    by (simp add: descriptor_ok_def add_u64_None_iff)
qed

lemma prior_conflict_iff:
  assumes "descriptor_ok d" and "descriptor_ok p"
    and "e = ed_PhysicalStart d + ed_NumberOfPages d * 4096"
  shows "prior_conflict d e (Some p) \<longleftrightarrow> descriptor_span p \<inter> descriptor_span d \<noteq> {}"
proof -
  note d = descriptor_extent_ok [OF assms(1)] and p = descriptor_extent_ok [OF assms(2)]
  have pos: "0 < descriptor_bytes d" "0 < descriptor_bytes p"
    using assms(1,2) by (simp_all add: descriptor_ok_def unat_gt_0)
  have "prior_conflict d e (Some p) \<longleftrightarrow>
      unat (ed_PhysicalStart d) < unat (ed_PhysicalStart p) + descriptor_bytes p \<and>
      unat (ed_PhysicalStart p) < unat (ed_PhysicalStart d) + descriptor_bytes d"
    using d p assms(2,3) by (simp add: prior_conflict_def word_less_nat_alt descriptor_ok_def)
  also have "\<dots> \<longleftrightarrow> descriptor_span p \<inter> descriptor_span d \<noteq> {}"
    using pos by (auto simp: descriptor_span_def)
  finally show ?thesis .
qed

lemma descriptors_sum_lt:
  assumes "descriptors_wf D n ds"
  shows "live_sum P descriptor_bytes ds < 2 ^ 64"
    and "live_sum P (\<lambda>d. unat (ed_NumberOfPages d)) ds < 2 ^ 64"
proof -
  have "live_sum P descriptor_bytes ds \<le> card {0 ..< 2 ^ 64 - (1 :: nat)}"
  proof (rule live_sum_le_card [where span = descriptor_span])
    show "sorted_wrt (\<lambda>d e. P d \<longrightarrow> P e \<longrightarrow> descriptor_span d \<inter> descriptor_span e = {}) ds"
      using assms by (auto simp: descriptors_wf_def elim!: sorted_wrt_mono_rel [rotated])
    fix d assume "d \<in> set ds"
    with assms show "descriptor_span d \<subseteq> {0 ..< 2 ^ 64 - 1} \<and> descriptor_bytes d = card (descriptor_span d)"
      by (auto simp: descriptors_wf_def descriptor_ok_def descriptor_span_def)
  qed simp
  then show b: "live_sum P descriptor_bytes ds < 2 ^ 64" by simp
  have "live_sum P (\<lambda>d. unat (ed_NumberOfPages d)) ds \<le> live_sum P descriptor_bytes ds"
    by (induction ds) auto
  with b show "live_sum P (\<lambda>d. unat (ed_NumberOfPages d)) ds < 2 ^ 64" by simp
qed

lemma checked_total:
  assumes "live_sum P w (ds @ [d]) < 2 ^ 64" and "unat x = w d" and "P d"
  shows "add_u64 (of_nat (live_sum P w ds)) x = Some (of_nat (live_sum P w ds + w d))"
proof -
  have s: "live_sum P w ds + w d < 2 ^ 64" using assms(1,3) by simp
  then have "unat (of_nat (live_sum P w ds) :: u64) = live_sum P w ds"
    by (intro unat_of_nat_u64) simp
  moreover have "of_nat (live_sum P w ds) + x = of_nat (live_sum P w ds + w d)"
    using assms(2) by (simp add: unat_eq_iff [of x] flip: assms(2))
  ultimately show ?thesis using s assms(2) by (simp add: add_u64_Some_iff)
qed

lemma class_table_update:
  assumes "k < n"
  shows "(map (\<lambda>c. f c) [0..<n])[k := v] = map (\<lambda>c. if c = k then v else f c) [0..<n]"
  using assms by (intro nth_equalityI) (auto simp: nth_list_update)

lemma classify_add_OK:
  assumes "add_u64 (mc_class_bytes cl ! unat c) bytes = Some cb"
    and "add_u64 (mc_class_pages cl ! unat c) pages = Some cp"
    and "(if c = GXOS_MEMORY_CLASS_CONVENTIONAL then add_u64 (mc_conventional_bytes cl) bytes
      else Some (mc_conventional_bytes cl)) = Some cv"
    and "(if gxos_memory_class_is_ram_like c then add_u64 (mc_total_ram_like_bytes cl) bytes
      else Some (mc_total_ram_like_bytes cl)) = Some rl"
  shows "classify_add cl c bytes pages = (GXOS_MEMORY_CLASSIFICATION_OK,
    cl\<lparr> mc_class_bytes := (mc_class_bytes cl)[unat c := cb],
        mc_class_pages := (mc_class_pages cl)[unat c := cp],
        mc_conventional_bytes := cv, mc_total_ram_like_bytes := rl \<rparr>)"
proof -
  have sel: "mc_class_pages (cl\<lparr>mc_class_bytes := x\<rparr>) = mc_class_pages cl"
    "mc_conventional_bytes (cl\<lparr>mc_class_bytes := x, mc_class_pages := y\<rparr>) = mc_conventional_bytes cl"
    "mc_total_ram_like_bytes (cl\<lparr>mc_class_bytes := x, mc_class_pages := y, mc_conventional_bytes := z\<rparr>) =
       mc_total_ram_like_bytes cl" for x y z by simp_all
  show ?thesis
    unfolding classify_add_def assms(1) option.case Let_def sel assms(2) assms(3) assms(4) by simp
qed

lemma classify_add_classified:
  assumes "descriptors_wf D n (ds @ [d])"
  shows "classify_add (classified ds) (descriptor_class d) (ed_NumberOfPages d * 4096)
    (ed_NumberOfPages d) = (GXOS_MEMORY_CLASSIFICATION_OK, classified (ds @ [d]))"
proof -
  let ?k = "unat (descriptor_class d)"
  have ok: "descriptor_ok d" using assms by (simp add: descriptors_wf_def)
  note lt = descriptors_sum_lt [OF assms] and k = descriptor_class_lt [of d]
  have u: "unat (ed_NumberOfPages d * 4096) = descriptor_bytes d"
    using descriptor_extent_ok [OF ok] by simp
  note add = checked_total [OF lt(1) u] checked_total [OF lt(2) refl]
  have 1: "add_u64 (mc_class_bytes (classified ds) ! ?k) (ed_NumberOfPages d * 4096) =
      Some (of_nat (live_sum (\<lambda>e. unat (descriptor_class e) = ?k) descriptor_bytes ds + descriptor_bytes d))"
    using k add(1) [of "\<lambda>e. unat (descriptor_class e) = ?k"] by (simp add: classified_def)
  have 2: "add_u64 (mc_class_pages (classified ds) ! ?k) (ed_NumberOfPages d) =
      Some (of_nat (live_sum (\<lambda>e. unat (descriptor_class e) = ?k) (\<lambda>e. unat (ed_NumberOfPages e)) ds +
        unat (ed_NumberOfPages d)))"
    using k add(2) [of "\<lambda>e. unat (descriptor_class e) = ?k"] by (simp add: classified_def)
  have 3: "(if descriptor_class d = 0 then add_u64 (mc_conventional_bytes (classified ds)) (ed_NumberOfPages d * 4096)
      else Some (mc_conventional_bytes (classified ds))) = Some (mc_conventional_bytes (classified (ds @ [d])))"
    using add(1) [of "\<lambda>e. descriptor_class e = 0"] by (simp add: classified_def)
  have 4: "(if gxos_memory_class_is_ram_like (descriptor_class d)
      then add_u64 (mc_total_ram_like_bytes (classified ds)) (ed_NumberOfPages d * 4096)
      else Some (mc_total_ram_like_bytes (classified ds))) = Some (mc_total_ram_like_bytes (classified (ds @ [d])))"
    using add(1) [of "\<lambda>e. gxos_memory_class_is_ram_like (descriptor_class e)"] by (simp add: classified_def)
  have 5: "(mc_class_bytes (classified ds))[?k := of_nat (live_sum (\<lambda>e. unat (descriptor_class e) = ?k)
        descriptor_bytes ds + descriptor_bytes d)] = mc_class_bytes (classified (ds @ [d]))"
    using k by (auto simp: classified_def class_table_update)
  have 6: "(mc_class_pages (classified ds))[?k := of_nat (live_sum (\<lambda>e. unat (descriptor_class e) = ?k)
        (\<lambda>e. unat (ed_NumberOfPages e)) ds + unat (ed_NumberOfPages d))] = mc_class_pages (classified (ds @ [d]))"
    using k by (auto simp: classified_def class_table_update)
  show ?thesis
    unfolding classify_add_OK [OF 1 2 3 4] 5 6 by (simp add: classified_def)
qed

lemma descriptors_wf_unique: "descriptors_wf D n ds \<Longrightarrow> descriptors_wf D n es \<Longrightarrow> ds = es"
  by (auto simp: descriptors_wf_def intro: nth_equalityI)

lemma descriptors_wf_take:
  assumes "descriptors_wf D n es" and "k \<le> n"
  shows "descriptors_wf D k (take k es)"
  using assms by (auto simp: descriptors_wf_def sorted_wrt_take dest: in_set_takeD)

lemma descriptors_wf_snoc:
  assumes "descriptors_wf D k ds"
  shows "descriptors_wf D (Suc k) (ds @ [d]) \<longleftrightarrow> D k = Some d \<and> descriptor_ok d \<and>
    (\<forall>i < k. descriptor_span (ds ! i) \<inter> descriptor_span d = {})"
proof -
  have len: "length ds = k" using assms by (simp add: descriptors_wf_def)
  have "(\<forall>i < Suc k. D i = Some ((ds @ [d]) ! i)) \<longleftrightarrow> D k = Some d"
    using assms len by (auto simp: descriptors_wf_def nth_append less_Suc_eq)
  with assms len show ?thesis
    by (auto simp: descriptors_wf_def sorted_wrt_append all_set_conv_all_nth)
qed

text \<open>One iteration: it extends a well-formed prefix or stops with an error.\<close>

lemma classify_step:
  assumes "descriptors_wf D k ds"
  shows "if \<exists>d. descriptors_wf D (Suc k) (ds @ [d])
    then \<exists>d. descriptors_wf D (Suc k) (ds @ [d]) \<and>
      classify_loop D (k # rest) (classified ds) = classify_loop D rest (classified (ds @ [d]))
    else fst (classify_loop D (k # rest) (classified ds)) \<noteq> GXOS_MEMORY_CLASSIFICATION_OK"
proof (cases "\<exists>d. D k = Some d \<and> descriptor_ok d")
  case False
  then have "\<not> descriptors_wf D (Suc k) (ds @ [d])" for d using descriptors_wf_snoc [OF assms] by auto
  moreover have "fst (classify_loop D (k # rest) (classified ds)) \<noteq> GXOS_MEMORY_CLASSIFICATION_OK"
    using False by (auto split: option.splits dest: descriptor_extent_Some)
  ultimately show ?thesis by simp
next
  case True
  then obtain d where d: "D k = Some d" "descriptor_ok d" by blast
  let ?e = "ed_PhysicalStart d + ed_NumberOfPages d * 4096"
  let ?bad = "list_ex (\<lambda>prior. prior_conflict d ?e (D prior)) [0..<k]"
  have pages: "ed_NumberOfPages d \<noteq> 0" using d(2) by (simp add: descriptor_ok_def)
  have ext: "descriptor_extent d = Some (ed_NumberOfPages d * 4096, ?e)"
    using descriptor_extent_ok [OF d(2)] by simp
  have bad: "?bad \<longleftrightarrow> \<not> (\<forall>i < k. descriptor_span (ds ! i) \<inter> descriptor_span d = {})"
    using assms d(2) prior_conflict_iff [OF d(2) _ refl] by (auto simp: list_ex_iff descriptors_wf_def)
  note snoc = descriptors_wf_snoc [OF assms]
  show ?thesis
  proof (cases ?bad)
    case True
    then have "\<not> descriptors_wf D (Suc k) (ds @ [d'])" for d' using snoc [of d'] d(1) bad by auto
    with True d(1) pages ext show ?thesis by simp
  next
    case False
    then have wf: "descriptors_wf D (Suc k) (ds @ [d])" using snoc [of d] d bad by simp
    have "classify_loop D (k # rest) (classified ds) = classify_loop D rest (classified (ds @ [d]))"
      using False d(1) pages ext classify_add_classified [OF wf] by simp
    with wf show ?thesis by auto
  qed
qed

lemma classify_loop_result:
  assumes "descriptors_wf D k ds" and "k \<le> n"
  shows "if \<exists>es. descriptors_wf D n es
    then \<exists>es. descriptors_wf D n es \<and>
      classify_loop D [k..<n] (classified ds) = (GXOS_MEMORY_CLASSIFICATION_OK, classified es)
    else fst (classify_loop D [k..<n] (classified ds)) \<noteq> GXOS_MEMORY_CLASSIFICATION_OK"
  using assms
proof (induction "n - k" arbitrary: k ds)
  case 0
  then show ?case by auto
next
  case (Suc j)
  then have upt: "[k..<n] = k # [Suc k..<n]" by (simp add: upt_rec)
  show ?case
  proof (cases "\<exists>d. descriptors_wf D (Suc k) (ds @ [d])")
    case True
    with classify_step [OF Suc.prems(1), of "[Suc k..<n]"] obtain d where
      d: "descriptors_wf D (Suc k) (ds @ [d])"
        "classify_loop D [k..<n] (classified ds) = classify_loop D [Suc k..<n] (classified (ds @ [d]))"
      unfolding upt by auto
    show ?thesis
      unfolding d(2) by (rule Suc.hyps(1) [OF _ d(1)]) (use Suc.hyps(2) in auto)
  next
    case False
    have "\<not> descriptors_wf D n es" for es
    proof
      assume es: "descriptors_wf D n es"
      have k: "k < length es" using es Suc.hyps(2) by (simp add: descriptors_wf_def)
      have "take k es = ds"
        using descriptors_wf_unique [OF descriptors_wf_take [OF es Suc.prems(2)] Suc.prems(1)] .
      then have "take (Suc k) es = ds @ [es ! k]" using k by (simp add: take_Suc_conv_app_nth)
      moreover have "descriptors_wf D (Suc k) (take (Suc k) es)"
        by (rule descriptors_wf_take [OF es]) (use Suc.hyps(2) in simp)
      ultimately show False using False by simp
    qed
    with False classify_step [OF Suc.prems(1), of "[Suc k..<n]"] show ?thesis unfolding upt by simp
  qed
qed

lemma classify_add_valid: "mc_valid (snd (classify_add cl c b p)) = mc_valid cl"
  by (simp add: classify_add_def Let_def split: option.splits)

lemma classify_loop_valid: "mc_valid (snd (classify_loop D is cl)) = mc_valid cl"
proof (induction "is" arbitrary: cl)
  case Nil
  then show ?case by simp
next
  case (Cons i rest)
  have "mc_valid (snd (case classify_add cl c b p of
      (GXOS_MEMORY_CLASSIFICATION_OK, cl') \<Rightarrow> classify_loop D rest cl' | (st, cl') \<Rightarrow> (st, cl'))) =
      mc_valid cl" for c b p
    using classify_add_valid [of cl c b p] Cons.IH
    by (cases "classify_add cl c b p") (auto split: GXOS_MEMORY_CLASSIFICATION_STATUS.splits)
  then show ?case by (auto split: option.splits)
qed

subsection \<open>Correctness of the memory map\<close>

text \<open>
  C7. Classifying a valid map succeeds exactly when every descriptor can be read, has pages,
  does not wrap around and overlaps no other. The classification then holds, class by class,
  the exact number of bytes and pages of the descriptors of that class; the conventional
  bytes are those of class zero and never exceed the RAM-like bytes. Otherwise an error is
  reported and the classification is not marked valid.
\<close>

theorem memory_map_classify_correct:
  fixes mem :: "u64 \<Rightarrow> u8" and m :: GXOS_UEFI_MEMORY_MAP
  assumes "mm_valid m"
  defines "n \<equiv> unat (mm_descriptor_count m)" and "D \<equiv> descriptor_at mem m"
  shows "case gxos_uefi_memory_map_classify mem m of (st, res) \<Rightarrow>
    \<exists>cl. res = Some cl \<and>
    (if \<exists>ds. descriptors_wf D n ds
     then st = GXOS_MEMORY_CLASSIFICATION_OK \<and> mc_valid cl \<and>
       mc_descriptor_count cl = mm_descriptor_count m \<and>
       (\<exists>ds. descriptors_wf D n ds \<and>
          (\<forall>c < GXOS_MEMORY_CLASS_COUNT.
             unat (mc_class_bytes cl ! c) =
               live_sum (\<lambda>d. unat (descriptor_class d) = c) descriptor_bytes ds \<and>
             unat (mc_class_pages cl ! c) =
               live_sum (\<lambda>d. unat (descriptor_class d) = c) (\<lambda>d. unat (ed_NumberOfPages d)) ds) \<and>
          unat (mc_total_ram_like_bytes cl) =
            live_sum (\<lambda>d. gxos_memory_class_is_ram_like (descriptor_class d)) descriptor_bytes ds) \<and>
       mc_conventional_bytes cl = mc_class_bytes cl ! 0 \<and>
       mc_conventional_bytes cl \<le> mc_total_ram_like_bytes cl
     else st \<noteq> GXOS_MEMORY_CLASSIFICATION_OK \<and> \<not> mc_valid cl)"
proof -
  have "descriptors_wf D 0 []" by (simp add: descriptors_wf_def)
  note loop = classify_loop_result [OF this, of n, folded classified_Nil]
  show ?thesis
  proof (cases "\<exists>ds. descriptors_wf D n ds")
    case True
    with loop obtain ds where ds: "descriptors_wf D n ds"
      "classify_loop D [0..<n] zero_memory_classification = (GXOS_MEMORY_CLASSIFICATION_OK, classified ds)"
      by auto
    note lt = descriptors_sum_lt [OF ds(1)]
    have le: "live_sum (\<lambda>d. descriptor_class d = 0) descriptor_bytes ds \<le>
        live_sum (\<lambda>d. gxos_memory_class_is_ram_like (descriptor_class d)) descriptor_bytes ds"
      by (rule live_sum_mono) (simp add: gxos_memory_class_is_ram_like_def)
    have res: "gxos_uefi_memory_map_classify mem m = (GXOS_MEMORY_CLASSIFICATION_OK,
        Some (classified ds\<lparr>mc_descriptor_count := mm_descriptor_count m, mc_valid := True\<rparr>))"
      using ds(2) assms by (simp add: gxos_uefi_memory_map_classify_def)
    have "descriptor_class d = 0 \<longleftrightarrow> unat (descriptor_class d) = 0" for d by (simp add: unat_eq_zero)
    then show ?thesis
      using True ds(1) le lt unfolding res
      by (auto simp: classified_def unat_of_nat_u64 word_le_nat_alt intro!: exI [of _ ds])
  next
    case False
    with loop have "fst (classify_loop D [0..<n] zero_memory_classification) \<noteq> GXOS_MEMORY_CLASSIFICATION_OK"
      by simp
    moreover have "\<not> mc_valid (snd (classify_loop D [0..<n] zero_memory_classification))"
      by (simp add: classify_loop_valid zero_memory_classification_def)
    ultimately show ?thesis
      using False assms unfolding gxos_uefi_memory_map_classify_def D_def n_def
      by (auto split: prod.splits GXOS_MEMORY_CLASSIFICATION_STATUS.splits)
  qed
qed

lemma load_le_4: "load_le mem a 4 = unat (mem a) + 256 * (unat (mem (a + 1)) +
    256 * (unat (mem (a + 2)) + 256 * unat (mem (a + 3))))"
proof -
  have "(4 :: nat) = Suc (Suc (Suc (Suc 0)))" by simp
  then show ?thesis by (simp only: load_le.simps) (simp add: add.assoc)
qed

lemma load_le_8: "load_le mem a 8 = load_le mem a 4 + 4294967296 * load_le mem (a + 4) 4"
proof -
  have "(8 :: nat) = Suc (Suc (Suc (Suc 4)))" by simp
  then show ?thesis by (simp only: load_le.simps) (simp add: load_le_4 add.assoc)
qed

text \<open>A map of one descriptor with one page, for the concrete instances.\<close>

definition sample_map :: GXOS_UEFI_MEMORY_MAP where
  "sample_map = zero_uefi_memory_map\<lparr> mm_backing := 0x1000, mm_backing_bytes := 40, mm_map_bytes := 40,
     mm_descriptor_size := 40, mm_descriptor_count := 1, mm_generation := 1, mm_valid := True \<rparr>"

definition sample_memory :: "u64 \<Rightarrow> u8" where
  "sample_memory a = (if a = 0x1018 then 1 else 0)"

lemma sample_map_wf: "memory_map_wf sample_map"
  by (simp add: memory_map_wf_def sample_map_def zero_uefi_memory_map_def)

lemma sample_descriptors:
  "descriptors_wf (descriptor_at sample_memory sample_map) 1 [load_descriptor sample_memory 0x1000]"
proof -
  have "gxos_uefi_memory_map_descriptor sample_map 0 = Some 0x1000"
    using descriptor_in_bounds(1) [OF sample_map_wf, of 0]
    by (simp add: sample_map_def zero_uefi_memory_map_def)
  then have "descriptor_at sample_memory sample_map 0 = Some (load_descriptor sample_memory 0x1000)"
    by (simp add: descriptor_at_def)
  moreover have "descriptor_ok (load_descriptor sample_memory 0x1000)"
    by (simp add: descriptor_ok_def load_descriptor_def sample_memory_def load_le_8 load_le_4)
  ultimately show ?thesis by (simp add: descriptors_wf_def)
qed

theorem memory_map_classify_correct_witness:
  "fst (gxos_uefi_memory_map_classify sample_memory sample_map) = GXOS_MEMORY_CLASSIFICATION_OK"
proof -
  have m: "mm_valid sample_map" "unat (mm_descriptor_count sample_map) = 1"
    by (simp_all add: sample_map_def)
  have "\<exists>ds. descriptors_wf (descriptor_at sample_memory sample_map)
      (unat (mm_descriptor_count sample_map)) ds"
    unfolding m(2) using sample_descriptors by blast
  with memory_map_classify_correct [OF m(1), of sample_memory]
  show ?thesis by (simp only: split_beta if_True) blast
qed

text \<open>
  C8. When acquiring the map succeeds, the map is empty or holds whole descriptors in a buffer
  of at most 128 KiB, and then every descriptor below the count can be accessed: its address is
  inside the part of the buffer that firmware filled, its 40 bytes included.
\<close>

theorem memory_map_acquire_readable:
  assumes "gxos_uefi_memory_map_acquire get alloc free w = (GXOS_MEMORY_MAP_STATUS_OK, res, w')"
  shows "\<exists>m. res = Some m \<and> mm_valid m \<and>
    (\<forall>i < mm_descriptor_count m.
       gxos_uefi_memory_map_descriptor m i = Some (mm_backing m + ucast i * mm_descriptor_size m) \<and>
       unat i * unat (mm_descriptor_size m) + 40 \<le> unat (mm_map_bytes m) \<and>
       mm_map_bytes m \<le> mm_backing_bytes m \<and> mm_backing_bytes m \<le> GXOS_MEMORY_MAP_MAX_BYTES)"
proof -
  obtain m where m: "res = Some m" "memory_map_wf m" using acquire_wf [OF assms] by blast
  have "mm_map_bytes m \<le> mm_backing_bytes m \<and> mm_backing_bytes m \<le> GXOS_MEMORY_MAP_MAX_BYTES"
    if "i < mm_descriptor_count m" for i
    using m(2) that by (auto simp: memory_map_wf_def split: if_splits)
  moreover have "mm_valid m" using m(2) by (simp add: memory_map_wf_def)
  ultimately show ?thesis using m descriptor_in_bounds [OF m(2)] by blast
qed

text \<open>A firmware that reports one 40-byte descriptor and hands out one buffer.\<close>

definition one_descriptor_get :: "unit efi_get_memory_map" where
  "one_descriptor_get w bytes buffer =
     (if buffer = 0 then ((), GXOS_EFI_BUFFER_TOO_SMALL, 40, 1, 40, 1)
      else ((), GXOS_EFI_SUCCESS, 40, 1, 40, 1))"

definition one_buffer_alloc :: "unit efi_allocate_pool" where
  "one_buffer_alloc w kind bytes = ((), GXOS_EFI_SUCCESS, 0x1000)"

definition accepting_free :: "unit efi_free_pool" where
  "accepting_free w buffer = ((), GXOS_EFI_SUCCESS)"

theorem memory_map_acquire_readable_witness:
  "\<exists>m. fst (snd (gxos_uefi_memory_map_acquire (Some one_descriptor_get) (Some one_buffer_alloc)
     (Some accepting_free) ())) = Some m \<and> gxos_uefi_memory_map_descriptor m 0 = Some 0x1000"
proof -
  let ?m = "zero_uefi_memory_map\<lparr> mm_descriptor_count := 1, mm_backing := 0x1000,
      mm_backing_bytes := 360, mm_map_bytes := 40, mm_descriptor_size := 40,
      mm_descriptor_version := 1, mm_map_key := 1, mm_generation := 1, mm_valid := True \<rparr>"
  have 4: "(4 :: nat) = Suc 3" by simp
  have parse: "gxos_uefi_memory_map_parse 0x1000 40 40 = Some 1"
    by (simp add: gxos_uefi_memory_map_parse_def Let_def)
  have grow: "map_growth_size 40 40 = Some 360"
    by (simp add: map_growth_size_def multiply_u64_def add_u64_def)
  have loop: "acquire_loop one_descriptor_get one_buffer_alloc accepting_free 4 () zero_uefi_memory_map
      40 40 0 = (GXOS_MEMORY_MAP_STATUS_OK, ?m, ())"
    unfolding 4 acquire_loop.simps grow
    by (simp add: one_descriptor_get_def one_buffer_alloc_def parse)
  have run: "gxos_uefi_memory_map_acquire (Some one_descriptor_get) (Some one_buffer_alloc)
      (Some accepting_free) () = (GXOS_MEMORY_MAP_STATUS_OK, Some ?m, ())"
    by (simp add: gxos_uefi_memory_map_acquire_def one_descriptor_get_def [of _ 0 0] loop)
  from memory_map_acquire_readable [OF run] run show ?thesis
    by (auto dest!: spec [of _ 0] simp: zero_uefi_memory_map_def)
qed

subsection \<open>Ownership of the firmware's buffers\<close>

text \<open>
  What the UEFI specification documents of the pool services, over the set of buffers a world
  has handed out: an allocation that succeeds hands out a new buffer, a buffer that is freed
  is gone, and reading the memory map does neither.
\<close>

definition pool_services ::
    "('w \<Rightarrow> u64 set) \<Rightarrow> 'w efi_get_memory_map \<Rightarrow> 'w efi_allocate_pool \<Rightarrow> 'w efi_free_pool \<Rightarrow> bool" where
  "pool_services own get alloc free \<longleftrightarrow>
     (\<forall>w n b. own (fst (get w n b)) = own w) \<and>
     (\<forall>w k n w' st b. alloc w k n = (w', st, b) \<longrightarrow>
        (if st = GXOS_EFI_SUCCESS \<and> b \<noteq> 0 then b \<notin> own w \<and> own w' = insert b (own w)
         else own w' = own w)) \<and>
     (\<forall>w b w' st. b \<in> own w \<longrightarrow> free w b = (w', st) \<longrightarrow>
        st = GXOS_EFI_SUCCESS \<and> own w' = own w - {b})"

text \<open>The buffers a call still holds when it returns with a status.\<close>

definition pool_outcome ::
    "u64 set \<Rightarrow> GXOS_MEMORY_MAP_STATUS \<Rightarrow> GXOS_UEFI_MEMORY_MAP \<Rightarrow> u64 set \<Rightarrow> bool" where
  "pool_outcome P st m Q \<longleftrightarrow>
     (st = GXOS_MEMORY_MAP_STATUS_OK \<longrightarrow>
        Q = (if mm_backing m = 0 then P else insert (mm_backing m) P)) \<and>
     (st = GXOS_MEMORY_MAP_STATUS_OVERFLOW \<longrightarrow> (\<exists>b. Q = P \<or> Q = insert b P)) \<and>
     (st \<noteq> GXOS_MEMORY_MAP_STATUS_OK \<and> st \<noteq> GXOS_MEMORY_MAP_STATUS_OVERFLOW \<longrightarrow> Q = P)"

lemma pool_freed:
  assumes "pool_services own get alloc free" and "own w = insert b P" and "b \<notin> P"
  shows "own (fst (free w b)) = P \<and> snd (free w b) = GXOS_EFI_SUCCESS"
proof -
  obtain w' st where f: "free w b = (w', st)" by (cases "free w b")
  have "b \<in> own w" using assms(2) by simp
  with assms(1) f have "st = GXOS_EFI_SUCCESS \<and> own w' = own w - {b}"
    unfolding pool_services_def by blast
  with assms(2,3) f show ?thesis by simp
qed

lemma acquire_loop_pool:
  assumes "pool_services own get alloc free"
  shows "acquire_loop get alloc free k w m n s b = (st, m', w') \<Longrightarrow> mm_backing m = 0 \<Longrightarrow>
    own w = (if b = 0 then P else insert b P) \<Longrightarrow> (b \<noteq> 0 \<Longrightarrow> b \<notin> P) \<Longrightarrow>
    pool_outcome P st m' (own w')"
proof (induction k arbitrary: w n s b)
  case 0
  then show ?case using pool_freed [OF assms, of w b P] by (auto simp: pool_outcome_def split: if_splits)
next
  case (Suc k)
  show ?case
  proof (cases "map_growth_size n s")
    case None
    with Suc.prems show ?thesis by (auto simp: pool_outcome_def)
  next
    case (Some required)
    define f where "f = (if b \<noteq> 0 then free w b else (w, GXOS_EFI_SUCCESS))"
    have f: "own (fst f) = P" "snd f = GXOS_EFI_SUCCESS"
      using pool_freed [OF assms, of w b P] Suc.prems(3,4) by (auto simp: f_def split: if_splits)
    obtain w2 as buffer where a: "alloc (fst f) GXOS_EFI_LOADER_DATA required = (w2, as, buffer)"
      by (cases "alloc (fst f) GXOS_EFI_LOADER_DATA required") auto
    have own2: "if as = GXOS_EFI_SUCCESS \<and> buffer \<noteq> 0
        then buffer \<notin> P \<and> own w2 = insert buffer P else own w2 = P"
      using assms a f(1) unfolding pool_services_def by metis
    obtain w3 gs returned key dsize ver where g: "get w2 required buffer = (w3, gs, returned, key, dsize, ver)"
      by (cases "get w2 required buffer") auto
    have own3: "own w3 = own w2" using assms g unfolding pool_services_def by (metis fst_conv)
    have step: "acquire_loop get alloc free (Suc k) w m n s b =
      (if as \<noteq> GXOS_EFI_SUCCESS \<or> buffer = 0 then (GXOS_MEMORY_MAP_STATUS_ALLOCATION, m, w2)
       else if gs = GXOS_EFI_BUFFER_TOO_SMALL
       then if returned \<le> required
            then (GXOS_MEMORY_MAP_STATUS_RETRY_EXHAUSTED, m, fst (free w3 buffer))
            else acquire_loop get alloc free k w3 m returned
                   (if dsize = 0 then sizeof_EFI_MEMORY_DESCRIPTOR else dsize) buffer
       else if gs \<noteq> GXOS_EFI_SUCCESS
       then (GXOS_MEMORY_MAP_STATUS_FIRMWARE_QUERY, m, fst (free w3 buffer))
       else case (if returned > required then None
                  else gxos_uefi_memory_map_parse buffer returned dsize) of
         None \<Rightarrow> (GXOS_MEMORY_MAP_STATUS_MALFORMED, m, fst (free w3 buffer))
       | Some count \<Rightarrow> (GXOS_MEMORY_MAP_STATUS_OK,
            m\<lparr> mm_descriptor_count := count, mm_backing := buffer, mm_backing_bytes := required,
               mm_map_bytes := returned, mm_descriptor_size := dsize, mm_descriptor_version := ver,
               mm_map_key := key, mm_generation := 1, mm_valid := True \<rparr>, w3))"
      using f(2) a g Some unfolding f_def by (cases f) (simp add: f_def split: if_splits)
    show ?thesis
    proof (cases "as \<noteq> GXOS_EFI_SUCCESS \<or> buffer = 0")
      case True
      with own2 step Suc.prems(1) show ?thesis by (auto simp: pool_outcome_def split: if_splits)
    next
      case False
      with own2 own3 have own: "own w3 = insert buffer P" "buffer \<notin> P" by auto
      note freed = pool_freed [OF assms own]
      show ?thesis
      proof (cases "gs = GXOS_EFI_BUFFER_TOO_SMALL \<and> \<not> returned \<le> required")
        case True
        with False step Suc.prems(1) have "acquire_loop get alloc free k w3 m returned
            (if dsize = 0 then sizeof_EFI_MEMORY_DESCRIPTOR else dsize) buffer = (st, m', w')" by simp
        then show ?thesis by (rule Suc.IH) (use own False Suc.prems(2) in simp_all)
      next
        case stop: False
        with False Suc.prems(1)
        consider (freed) "st \<noteq> GXOS_MEMORY_MAP_STATUS_OK" "st \<noteq> GXOS_MEMORY_MAP_STATUS_OVERFLOW"
            "w' = fst (free w3 buffer)"
          | (ok) "st = GXOS_MEMORY_MAP_STATUS_OK" "w' = w3" "mm_backing m' = buffer"
          unfolding step by (auto split: if_splits option.splits)
        then show ?thesis
          using own freed False by cases (simp_all add: pool_outcome_def)
      qed
    qed
  qed
qed

text \<open>
  With firmware whose pool services behave as documented, a successful acquisition owns
  exactly the buffer the map refers to, and no failed one owns any, except that the failure
  for a map that has grown too large may still own one.
\<close>

theorem memory_map_acquire_ownership:
  assumes "pool_services own get alloc free"
    and "gxos_uefi_memory_map_acquire (Some get) (Some alloc) (Some free) w = (st, Some m, w')"
  shows "pool_outcome (own w) st m (own w')"
proof -
  obtain w1 gs n key s v where g: "get w 0 0 = (w1, gs, n, key, s, v)" by (cases "get w 0 0") auto
  have own: "own w1 = own w" using assms(1) g unfolding pool_services_def by (metis fst_conv)
  show ?thesis
  proof (cases "(gs = GXOS_EFI_BUFFER_TOO_SMALL \<or> gs = GXOS_EFI_SUCCESS) \<and> n \<noteq> 0")
    case True
    with assms(2) g have "acquire_loop get alloc free GXOS_MEMORY_MAP_MAX_RETRIES w1 zero_uefi_memory_map n
        (if s = 0 then sizeof_EFI_MEMORY_DESCRIPTOR else s) 0 = (st, m, w')"
      by (auto simp: gxos_uefi_memory_map_acquire_def split: prod.splits)
    then show ?thesis
      by (rule acquire_loop_pool [OF assms(1)]) (use own in \<open>simp_all add: zero_uefi_memory_map_def\<close>)
  next
    case False
    have "w' = w1 \<and> mm_backing m = 0 \<and> st \<noteq> GXOS_MEMORY_MAP_STATUS_OVERFLOW"
      using assms(2) g False
      by (simp add: gxos_uefi_memory_map_acquire_def split: if_splits) (auto simp: zero_uefi_memory_map_def)
    then show ?thesis using own by (simp add: pool_outcome_def)
  qed
qed

text \<open>
  A world that counts the calls to the map service and keeps the set of buffers handed out. Its
  map fits at first, then has grown to 128 KiB.
\<close>

definition growing_get :: "(nat \<times> u64 set) efi_get_memory_map" where
  "growing_get w bytes buffer =
     (if fst w = 0 then ((1, snd w), GXOS_EFI_BUFFER_TOO_SMALL, 40, 1, 40, 1)
      else ((Suc (fst w), snd w), GXOS_EFI_BUFFER_TOO_SMALL, 131072, 1, 40, 1))"

definition fresh_alloc :: "(nat \<times> u64 set) efi_allocate_pool" where
  "fresh_alloc w kind bytes =
     (if 0x1000 \<in> snd w then (w, GXOS_EFI_BUFFER_TOO_SMALL, 0)
      else ((fst w, insert 0x1000 (snd w)), GXOS_EFI_SUCCESS, 0x1000))"

definition tracked_free :: "(nat \<times> u64 set) efi_free_pool" where
  "tracked_free w buffer = ((fst w, snd w - {buffer}), GXOS_EFI_SUCCESS)"

lemma growing_services: "pool_services snd growing_get fresh_alloc tracked_free"
  by (auto simp: pool_services_def growing_get_def fresh_alloc_def tracked_free_def split: if_splits)

lemma growing_run:
  "gxos_uefi_memory_map_acquire (Some growing_get) (Some fresh_alloc) (Some tracked_free) (0, {}) =
     (GXOS_MEMORY_MAP_STATUS_OVERFLOW, Some zero_uefi_memory_map, (2, {0x1000}))"
proof -
  have 4: "(4 :: nat) = Suc (Suc 2)" by simp
  have grow: "map_growth_size 40 40 = Some 360" "map_growth_size 131072 40 = None"
    by (simp_all add: map_growth_size_def multiply_u64_def add_u64_def)
  have "acquire_loop growing_get fresh_alloc tracked_free 4 (1, {}) zero_uefi_memory_map 40 40 0 =
      (GXOS_MEMORY_MAP_STATUS_OVERFLOW, zero_uefi_memory_map, (2, {0x1000}))"
    unfolding 4 acquire_loop.simps grow
    by (simp add: growing_get_def fresh_alloc_def grow)
  then show ?thesis by (simp add: gxos_uefi_memory_map_acquire_def growing_get_def)
qed

theorem memory_map_acquire_ownership_witness:
  "pool_outcome {} GXOS_MEMORY_MAP_STATUS_OVERFLOW zero_uefi_memory_map {0x1000}"
  using memory_map_acquire_ownership [OF growing_services growing_run] by simp

text \<open>
  The exception is real: with firmware that behaves as documented, an acquisition whose map
  outgrows the limit on a retry fails and leaves a buffer allocated that nothing refers to.
\<close>

theorem memory_map_acquire_leaks:
  "\<exists>(get :: (nat \<times> u64 set) efi_get_memory_map) alloc free w m w'. pool_services snd get alloc free \<and>
     gxos_uefi_memory_map_acquire (Some get) (Some alloc) (Some free) w =
       (GXOS_MEMORY_MAP_STATUS_OVERFLOW, Some m, w') \<and>
     mm_backing m = 0 \<and> snd w = {} \<and> snd w' \<noteq> {}"
proof -
  have "mm_backing zero_uefi_memory_map = 0" by (simp add: zero_uefi_memory_map_def)
  with growing_services growing_run show ?thesis by fastforce
qed

end
