(* ===== verification/Physical_Ledger.thy ===== *)
theory Physical_Ledger
  imports Checked_Arith
begin

text \<open>
  The physical allocation ledger of \<open>src/src/Gate4Harness/memory_accounting.c\<close>
  (\<open>gxos_physical_ledger_*\<close>): a table of 4096 entries with running totals of the bytes the
  live entries account for. The invariant is the code's own validator together with the
  table's capacity, and every operation keeps it; the ledger is a slot table in the sense
  of the prelude's interface. Slot numbers are natural numbers: the code compares them with
  the capacity and uses them as indices only.
\<close>

abbreviation (input) GXOS_PHYSICAL_LEDGER_CAPACITY :: nat where
  "GXOS_PHYSICAL_LEDGER_CAPACITY \<equiv> 4096"

abbreviation (input) GXOS_MEMORY_ALLOCATION_COUNT :: u32 where
  "GXOS_MEMORY_ALLOCATION_COUNT \<equiv> 15"

abbreviation (input) GXOS_MEMORY_OWNER_COUNT :: u32 where
  "GXOS_MEMORY_OWNER_COUNT \<equiv> 10"

datatype GXOS_LEDGER_STATUS =
    GXOS_LEDGER_STATUS_OK
  | GXOS_LEDGER_STATUS_INVALID_ARGUMENT
  | GXOS_LEDGER_STATUS_ZERO_LENGTH
  | GXOS_LEDGER_STATUS_OVERFLOW
  | GXOS_LEDGER_STATUS_OVERLAP
  | GXOS_LEDGER_STATUS_CAPACITY
  | GXOS_LEDGER_STATUS_NOT_FOUND
  | GXOS_LEDGER_STATUS_INVALID_STATE

record GXOS_PHYSICAL_ALLOCATION =
  pa_live :: bool
  pa_base :: u64
  pa_bytes :: u64
  pa_pages :: u64
  pa_allocation_class :: u32
  pa_owner :: u32
  pa_physical_impact_bytes :: u64
  pa_commit_impact_bytes :: u64
  pa_virtual_reservation_impact_bytes :: u64
  pa_generation :: u64

record GXOS_PHYSICAL_LEDGER =
  pl_entries :: "GXOS_PHYSICAL_ALLOCATION list"
  pl_live_count :: u32
  pl_exhausted :: bool
  pl_physical_bytes :: u64
  pl_commit_bytes :: u64
  pl_virtual_reservation_bytes :: u64
  pl_generation :: u64

definition zero_physical_allocation :: GXOS_PHYSICAL_ALLOCATION where
  "zero_physical_allocation =
     \<lparr> pa_live = False, pa_base = 0, pa_bytes = 0, pa_pages = 0, pa_allocation_class = 0,
       pa_owner = 0, pa_physical_impact_bytes = 0, pa_commit_impact_bytes = 0,
       pa_virtual_reservation_impact_bytes = 0, pa_generation = 0 \<rparr>"

definition gxos_physical_ledger_init :: "u64 \<Rightarrow> GXOS_PHYSICAL_LEDGER" where
  "gxos_physical_ledger_init generation =
     \<lparr> pl_entries = replicate GXOS_PHYSICAL_LEDGER_CAPACITY zero_physical_allocation,
       pl_live_count = 0, pl_exhausted = False, pl_physical_bytes = 0, pl_commit_bytes = 0,
       pl_virtual_reservation_bytes = 0, pl_generation = generation \<rparr>"

text \<open>The conflict test of the two overlap loops: bases of zero never conflict.\<close>

definition physical_conflict ::
    "GXOS_PHYSICAL_ALLOCATION \<Rightarrow> GXOS_PHYSICAL_ALLOCATION \<Rightarrow> bool" where
  "physical_conflict a e \<longleftrightarrow> pa_base a \<noteq> 0 \<and> pa_base e \<noteq> 0 \<and>
     ranges_overlap (pa_base a) (pa_bytes a) (pa_base e) (pa_bytes e)"

definition gxos_physical_ledger_insert ::
    "GXOS_PHYSICAL_LEDGER \<Rightarrow> GXOS_PHYSICAL_ALLOCATION \<Rightarrow>
     GXOS_LEDGER_STATUS \<times> GXOS_PHYSICAL_LEDGER \<times> nat option" where
  "gxos_physical_ledger_insert ledger allocation =
     (if pa_generation allocation = 0 \<or> pa_bytes allocation = 0 \<or>
         pa_allocation_class allocation \<ge> GXOS_MEMORY_ALLOCATION_COUNT \<or>
         pa_owner allocation \<ge> GXOS_MEMORY_OWNER_COUNT
      then (if pa_bytes allocation = 0 then GXOS_LEDGER_STATUS_ZERO_LENGTH
            else GXOS_LEDGER_STATUS_INVALID_ARGUMENT, ledger, None)
      else if pa_base allocation \<noteq> 0 \<and>
              range_end (pa_base allocation) (pa_bytes allocation) = None
      then (GXOS_LEDGER_STATUS_OVERFLOW, ledger, None)
      else if pa_pages allocation \<noteq> 0 \<and>
              (case multiply_u64 (pa_pages allocation) GXOS_MEMORY_PAGE_SIZE of
                 None \<Rightarrow> True | Some page_bytes \<Rightarrow> page_bytes < pa_bytes allocation)
      then (GXOS_LEDGER_STATUS_OVERFLOW, ledger, None)
      else if list_ex (\<lambda>existing. pa_live existing \<and> physical_conflict allocation existing)
                (pl_entries ledger)
      then (GXOS_LEDGER_STATUS_OVERLAP, ledger, None)
      else if unat (pl_live_count ledger) \<ge> GXOS_PHYSICAL_LEDGER_CAPACITY
      then (GXOS_LEDGER_STATUS_CAPACITY, ledger\<lparr>pl_exhausted := True\<rparr>, None)
      else if add_u64 (pl_physical_bytes ledger) (pa_physical_impact_bytes allocation) = None \<or>
              add_u64 (pl_commit_bytes ledger) (pa_commit_impact_bytes allocation) = None \<or>
              add_u64 (pl_virtual_reservation_bytes ledger)
                      (pa_virtual_reservation_impact_bytes allocation) = None
      then (GXOS_LEDGER_STATUS_OVERFLOW, ledger, None)
      else case find_index (\<lambda>e. \<not> pa_live e) (pl_entries ledger) of
             None \<Rightarrow> (GXOS_LEDGER_STATUS_CAPACITY, ledger\<lparr>pl_exhausted := True\<rparr>, None)
           | Some index \<Rightarrow>
               (GXOS_LEDGER_STATUS_OK,
                ledger\<lparr> pl_entries := (pl_entries ledger)[index := allocation\<lparr>pa_live := True\<rparr>],
                        pl_live_count := pl_live_count ledger + 1,
                        pl_physical_bytes :=
                          pl_physical_bytes ledger + pa_physical_impact_bytes allocation,
                        pl_commit_bytes :=
                          pl_commit_bytes ledger + pa_commit_impact_bytes allocation,
                        pl_virtual_reservation_bytes :=
                          pl_virtual_reservation_bytes ledger +
                          pa_virtual_reservation_impact_bytes allocation \<rparr>,
                Some index))"

definition gxos_physical_ledger_remove ::
    "GXOS_PHYSICAL_LEDGER \<Rightarrow> nat \<Rightarrow> GXOS_LEDGER_STATUS \<times> GXOS_PHYSICAL_LEDGER" where
  "gxos_physical_ledger_remove ledger slot =
     (if slot \<ge> GXOS_PHYSICAL_LEDGER_CAPACITY
      then (GXOS_LEDGER_STATUS_INVALID_ARGUMENT, ledger)
      else let allocation = pl_entries ledger ! slot in
        if \<not> pa_live allocation \<or> pl_live_count ledger = 0 \<or>
           pl_physical_bytes ledger < pa_physical_impact_bytes allocation \<or>
           pl_commit_bytes ledger < pa_commit_impact_bytes allocation \<or>
           pl_virtual_reservation_bytes ledger < pa_virtual_reservation_impact_bytes allocation
        then (GXOS_LEDGER_STATUS_INVALID_STATE, ledger)
        else (GXOS_LEDGER_STATUS_OK,
              ledger\<lparr> pl_physical_bytes :=
                        pl_physical_bytes ledger - pa_physical_impact_bytes allocation,
                      pl_commit_bytes :=
                        pl_commit_bytes ledger - pa_commit_impact_bytes allocation,
                      pl_virtual_reservation_bytes :=
                        pl_virtual_reservation_bytes ledger -
                        pa_virtual_reservation_impact_bytes allocation,
                      pl_entries := (pl_entries ledger)[slot := zero_physical_allocation],
                      pl_live_count := pl_live_count ledger - 1 \<rparr>))"

definition gxos_physical_ledger_find ::
    "GXOS_PHYSICAL_LEDGER \<Rightarrow> u64 \<Rightarrow> u64 \<Rightarrow> nat option" where
  "gxos_physical_ledger_find ledger base bytes =
     (if base = 0 \<or> bytes = 0 then None
      else find_index (\<lambda>e. pa_live e \<and> pa_base e = base \<and> pa_bytes e = bytes)
             (pl_entries ledger))"

text \<open>The validator's loop, with its four accumulators; \<open>None\<close> is its early \<open>return 0\<close>.\<close>

fun physical_ledger_validate_loop ::
    "GXOS_PHYSICAL_ALLOCATION list \<Rightarrow> u32 \<Rightarrow> u64 \<Rightarrow> u64 \<Rightarrow> u64 \<Rightarrow>
     (u32 \<times> u64 \<times> u64 \<times> u64) option" where
  "physical_ledger_validate_loop [] live_count physical commit virtual_bytes =
     Some (live_count, physical, commit, virtual_bytes)"
| "physical_ledger_validate_loop (allocation # rest) live_count physical commit virtual_bytes =
     (if \<not> pa_live allocation
      then physical_ledger_validate_loop rest live_count physical commit virtual_bytes
      else if pa_bytes allocation = 0 \<or> pa_generation allocation = 0 \<or>
              pa_allocation_class allocation \<ge> GXOS_MEMORY_ALLOCATION_COUNT \<or>
              pa_owner allocation \<ge> GXOS_MEMORY_OWNER_COUNT \<or>
              (pa_base allocation \<noteq> 0 \<and>
               range_end (pa_base allocation) (pa_bytes allocation) = None)
      then None
      else if list_ex (\<lambda>right. pa_live right \<and> physical_conflict allocation right) rest
      then None
      else case (add_u64 physical (pa_physical_impact_bytes allocation),
                 add_u64 commit (pa_commit_impact_bytes allocation),
                 add_u64 virtual_bytes (pa_virtual_reservation_impact_bytes allocation)) of
             (Some physical', Some commit', Some virtual') \<Rightarrow>
               physical_ledger_validate_loop rest (live_count + 1) physical' commit' virtual'
           | _ \<Rightarrow> None)"

definition gxos_physical_ledger_validate :: "GXOS_PHYSICAL_LEDGER \<Rightarrow> bool" where
  "gxos_physical_ledger_validate ledger \<longleftrightarrow>
     pl_generation ledger \<noteq> 0 \<and>
     physical_ledger_validate_loop (pl_entries ledger) 0 0 0 0 =
       Some (pl_live_count ledger, pl_physical_bytes ledger, pl_commit_bytes ledger,
             pl_virtual_reservation_bytes ledger)"

text \<open>
  The component's invariant: the array has its capacity and the validator accepts.
\<close>

definition ledger_inv :: "GXOS_PHYSICAL_LEDGER \<Rightarrow> bool" where
  "ledger_inv l \<longleftrightarrow> length (pl_entries l) = GXOS_PHYSICAL_LEDGER_CAPACITY \<and>
     gxos_physical_ledger_validate l"

text \<open>What the validator's loop decides, entry by entry and in total.\<close>

definition physical_entry_ok :: "GXOS_PHYSICAL_ALLOCATION \<Rightarrow> bool" where
  "physical_entry_ok a \<longleftrightarrow> pa_bytes a \<noteq> 0 \<and> pa_generation a \<noteq> 0 \<and>
     pa_allocation_class a < GXOS_MEMORY_ALLOCATION_COUNT \<and>
     pa_owner a < GXOS_MEMORY_OWNER_COUNT \<and>
     (pa_base a \<noteq> 0 \<longrightarrow> range_ok (pa_base a) (pa_bytes a))"

definition physical_compatible ::
    "GXOS_PHYSICAL_ALLOCATION \<Rightarrow> GXOS_PHYSICAL_ALLOCATION \<Rightarrow> bool" where
  "physical_compatible a b \<longleftrightarrow> pa_live a \<longrightarrow> pa_live b \<longrightarrow> \<not> physical_conflict a b"

definition physical_span :: "GXOS_PHYSICAL_ALLOCATION \<Rightarrow> nat set" where
  "physical_span a = (if pa_base a = 0 then {} else bytes_from (pa_base a) (pa_bytes a))"

abbreviation "pl_sum w l \<equiv> live_sum pa_live (\<lambda>e. unat (w e)) (pl_entries l)"

subsection \<open>The validator\<close>

lemma symp_physical_compatible: "symp physical_compatible"
  by (auto simp: symp_def physical_compatible_def physical_conflict_def ranges_overlap_sym)

lemma of_nat_sum_step:
  "unat (p :: u64) + (unat x + s) < 2 ^ 64 \<Longrightarrow>
     unat (p + x) + s < 2 ^ 64 \<and> p + x + of_nat s = p + of_nat (unat x + s)"
  by (simp add: unat_add_fits)

lemma physical_loop_iff:
  "physical_ledger_validate_loop xs n p c v = Some r \<longleftrightarrow>
     (\<forall>x \<in> set xs. pa_live x \<longrightarrow> physical_entry_ok x) \<and> sorted_wrt physical_compatible xs \<and>
     unat p + live_sum pa_live (\<lambda>e. unat (pa_physical_impact_bytes e)) xs < 2 ^ 64 \<and>
     unat c + live_sum pa_live (\<lambda>e. unat (pa_commit_impact_bytes e)) xs < 2 ^ 64 \<and>
     unat v + live_sum pa_live (\<lambda>e. unat (pa_virtual_reservation_impact_bytes e)) xs < 2 ^ 64 \<and>
     r = (n + of_nat (live_sum pa_live (\<lambda>_. 1) xs),
          p + of_nat (live_sum pa_live (\<lambda>e. unat (pa_physical_impact_bytes e)) xs),
          c + of_nat (live_sum pa_live (\<lambda>e. unat (pa_commit_impact_bytes e)) xs),
          v + of_nat (live_sum pa_live (\<lambda>e. unat (pa_virtual_reservation_impact_bytes e)) xs))"
proof (induction xs arbitrary: n p c v)
  case Nil
  then show ?case by auto
next
  case (Cons a rest)
  show ?case
  proof (cases "pa_live a")
    case False
    then show ?thesis by (auto simp: Cons.IH physical_compatible_def)
  next
    case True
    let ?bad = "list_ex (\<lambda>right. pa_live right \<and> physical_conflict a right) rest"
    have pair: "sorted_wrt physical_compatible (a # rest) \<longleftrightarrow>
        \<not> ?bad \<and> sorted_wrt physical_compatible rest"
      using True by (auto simp: physical_compatible_def list_ex_iff)
    have ok: "physical_entry_ok a \<longleftrightarrow> \<not> (pa_bytes a = 0 \<or> pa_generation a = 0 \<or>
        pa_allocation_class a \<ge> GXOS_MEMORY_ALLOCATION_COUNT \<or>
        pa_owner a \<ge> GXOS_MEMORY_OWNER_COUNT \<or>
        (pa_base a \<noteq> 0 \<and> range_end (pa_base a) (pa_bytes a) = None))"
      by (auto simp: physical_entry_ok_def range_end_range_ok not_le split: if_splits)
    show ?thesis
      using True
      by (auto simp: pair ok Cons.IH add_u64_def fits_iff unat_add_fits not_le add.assoc
          simp del: sorted_wrt.simps split: option.splits if_splits)
  qed
qed

text \<open>
  The invariant in closed form: every live entry is well formed, live ranges are pairwise
  disjoint, and each running total is the sum over the live entries.
\<close>

lemma ledger_inv_iff:
  "ledger_inv l \<longleftrightarrow>
     length (pl_entries l) = GXOS_PHYSICAL_LEDGER_CAPACITY \<and> pl_generation l \<noteq> 0 \<and>
     (\<forall>x \<in> set (pl_entries l). pa_live x \<longrightarrow> physical_entry_ok x) \<and>
     sorted_wrt physical_compatible (pl_entries l) \<and>
     unat (pl_live_count l) = live_sum pa_live (\<lambda>_. 1) (pl_entries l) \<and>
     unat (pl_physical_bytes l) = pl_sum pa_physical_impact_bytes l \<and>
     unat (pl_commit_bytes l) = pl_sum pa_commit_impact_bytes l \<and>
     unat (pl_virtual_reservation_bytes l) = pl_sum pa_virtual_reservation_impact_bytes l"
proof -
  have count: "live_sum pa_live (\<lambda>_. 1) (pl_entries l) < 2 ^ 32"
    if "length (pl_entries l) = GXOS_PHYSICAL_LEDGER_CAPACITY"
    using live_sum_length [of pa_live "pl_entries l"] that by simp
  show ?thesis
    unfolding ledger_inv_def gxos_physical_ledger_validate_def physical_loop_iff
      sum_is_u64 [symmetric]
    using count by (auto simp: eq_of_nat_u32)
qed

lemma ledger_inv_init: "generation \<noteq> 0 \<Longrightarrow> ledger_inv (gxos_physical_ledger_init generation)"
  by (simp add: ledger_inv_iff gxos_physical_ledger_init_def zero_physical_allocation_def
      sorted_wrt_iff_nth_less physical_compatible_def)

lemma physical_conflict_span:
  "physical_entry_ok a \<Longrightarrow> physical_entry_ok b \<Longrightarrow>
     physical_conflict a b \<longleftrightarrow> physical_span a \<inter> physical_span b \<noteq> {}"
  by (auto simp: physical_conflict_def physical_span_def physical_entry_ok_def ranges_overlap_iff)

subsection \<open>Insertion\<close>

text \<open>The test on the page count: the pages must cover the bytes without overflow.\<close>

definition physical_pages_ok :: "GXOS_PHYSICAL_ALLOCATION \<Rightarrow> bool" where
  "physical_pages_ok a \<longleftrightarrow> pa_pages a = 0 \<or>
     unat (pa_pages a) * 4096 < 2 ^ 64 \<and> unat (pa_bytes a) \<le> unat (pa_pages a) * 4096"

lemma physical_pages_ok_iff:
  "physical_pages_ok a \<longleftrightarrow> \<not> (pa_pages a \<noteq> 0 \<and>
     (case multiply_u64 (pa_pages a) GXOS_MEMORY_PAGE_SIZE of
        None \<Rightarrow> True | Some page_bytes \<Rightarrow> page_bytes < pa_bytes a))"
proof (cases "multiply_u64 (pa_pages a) GXOS_MEMORY_PAGE_SIZE")
  case None
  then have "\<not> unat (pa_pages a) * 4096 < 2 ^ 64"
    by (simp add: multiply_u64_None_iff)
  with None show ?thesis by (simp add: physical_pages_ok_def)
next
  case (Some b)
  then have "unat (pa_pages a) * 4096 < 2 ^ 64" "unat b = unat (pa_pages a) * 4096"
    using multiply_u64_unat [OF Some] by (simp_all add: multiply_u64_Some_iff)
  with Some show ?thesis by (auto simp: physical_pages_ok_def word_less_nat_alt)
qed

text \<open>When an insertion is accepted.\<close>

definition physical_admissible :: "GXOS_PHYSICAL_LEDGER \<Rightarrow> GXOS_PHYSICAL_ALLOCATION \<Rightarrow> bool" where
  "physical_admissible l a \<longleftrightarrow> physical_entry_ok a \<and> physical_pages_ok a \<and>
     (\<forall>e \<in> set (pl_entries l). pa_live e \<longrightarrow> \<not> physical_conflict a e) \<and>
     (\<exists>e \<in> set (pl_entries l). \<not> pa_live e) \<and>
     unat (pl_physical_bytes l) + unat (pa_physical_impact_bytes a) < 2 ^ 64 \<and>
     unat (pl_commit_bytes l) + unat (pa_commit_impact_bytes a) < 2 ^ 64 \<and>
     unat (pl_virtual_reservation_bytes l) + unat (pa_virtual_reservation_impact_bytes a) < 2 ^ 64"

definition physical_inserted ::
    "GXOS_PHYSICAL_LEDGER \<Rightarrow> GXOS_PHYSICAL_ALLOCATION \<Rightarrow> nat \<Rightarrow> GXOS_PHYSICAL_LEDGER" where
  "physical_inserted l a i =
     l\<lparr> pl_entries := (pl_entries l)[i := a\<lparr>pa_live := True\<rparr>],
        pl_live_count := pl_live_count l + 1,
        pl_physical_bytes := pl_physical_bytes l + pa_physical_impact_bytes a,
        pl_commit_bytes := pl_commit_bytes l + pa_commit_impact_bytes a,
        pl_virtual_reservation_bytes :=
          pl_virtual_reservation_bytes l + pa_virtual_reservation_impact_bytes a \<rparr>"

lemma ledger_count_lt:
  assumes "ledger_inv l" and "e \<in> set (pl_entries l)" and "\<not> pa_live e"
  shows "unat (pl_live_count l) < GXOS_PHYSICAL_LEDGER_CAPACITY"
proof -
  obtain i where i: "i < length (pl_entries l)" "\<not> pa_live (pl_entries l ! i)"
    using assms(2,3) by (auto simp: in_set_conv_nth)
  let ?ys = "(pl_entries l)[i := e\<lparr>pa_live := True\<rparr>]"
  have "live_sum pa_live (\<lambda>_. 1) ?ys = live_sum pa_live (\<lambda>_. 1) (pl_entries l) + 1"
    using i by (simp add: live_sum_insert)
  moreover have "live_sum pa_live (\<lambda>_. 1) ?ys \<le> length ?ys" by (rule live_sum_length)
  ultimately show ?thesis using assms(1) by (simp add: ledger_inv_iff)
qed

lemma physical_insert_OK:
  assumes "ledger_inv l" and "physical_admissible l a"
  shows "\<exists>i. find_index (\<lambda>e. \<not> pa_live e) (pl_entries l) = Some i \<and>
    gxos_physical_ledger_insert l a = (GXOS_LEDGER_STATUS_OK, physical_inserted l a i, Some i)"
proof -
  obtain e where e: "e \<in> set (pl_entries l)" "\<not> pa_live e"
    using assms(2) by (auto simp: physical_admissible_def)
  then obtain i where i: "find_index (\<lambda>e. \<not> pa_live e) (pl_entries l) = Some i"
    using find_index_ex by fastforce
  have ok: "physical_entry_ok a" "physical_pages_ok a" using assms(2) by (auto simp: physical_admissible_def)
  have "\<not> unat (pl_live_count l) \<ge> GXOS_PHYSICAL_LEDGER_CAPACITY"
    using ledger_count_lt [OF assms(1) e] by simp
  moreover have "\<not> list_ex (\<lambda>e. pa_live e \<and> physical_conflict a e) (pl_entries l)"
    using assms(2) by (auto simp: physical_admissible_def list_ex_iff)
  moreover have "\<not> (pa_generation a = 0 \<or> pa_bytes a = 0 \<or>
      pa_allocation_class a \<ge> GXOS_MEMORY_ALLOCATION_COUNT \<or>
      pa_owner a \<ge> GXOS_MEMORY_OWNER_COUNT)"
    "\<not> (pa_base a \<noteq> 0 \<and> range_end (pa_base a) (pa_bytes a) = None)"
    using ok(1) by (auto simp: physical_entry_ok_def not_le range_end_range_ok)
  ultimately show ?thesis
    using assms(2) i ok(2) [unfolded physical_pages_ok_iff]
    unfolding gxos_physical_ledger_insert_def physical_inserted_def physical_admissible_def
    by (simp only: if_False simp_thms add_u64_None_iff not_le [symmetric] option.case) simp
qed

lemma physical_insert_inv:
  assumes "ledger_inv l" and "physical_admissible l a"
    and "i < length (pl_entries l)" and "\<not> pa_live (pl_entries l ! i)"
  shows "ledger_inv (physical_inserted l a i)"
proof -
  let ?a = "a\<lparr>pa_live := True\<rparr>"
  have "sorted_wrt physical_compatible ((pl_entries l)[i := ?a])"
  proof (rule sorted_wrt_update [OF symp_physical_compatible])
    show "sorted_wrt physical_compatible (pl_entries l)" using assms(1) by (simp add: ledger_inv_iff)
    fix j assume "j < length (pl_entries l)"
    with assms(2) show "physical_compatible ?a (pl_entries l ! j)"
      by (auto simp: physical_admissible_def physical_compatible_def physical_conflict_def)
  qed
  moreover have "physical_entry_ok ?a"
    using assms(2) by (simp add: physical_admissible_def physical_entry_ok_def)
  moreover have "unat (pl_live_count l) < 2 ^ 32 - 1"
    using ledger_count_lt [OF assms(1) nth_mem [OF assms(3)] assms(4)] by simp
  ultimately show ?thesis
    using assms
    by (auto simp: ledger_inv_iff physical_inserted_def live_sum_insert unat_Suc32 unat_add_fits
        physical_admissible_def dest!: set_update_subset_insert [THEN subsetD])
qed

lemma physical_insert_rejected:
  assumes "ledger_inv l" and "\<not> physical_admissible l a"
  shows "\<exists>st x. gxos_physical_ledger_insert l a = (st, l\<lparr>pl_exhausted := x\<rparr>, None) \<and>
    st \<noteq> GXOS_LEDGER_STATUS_OK"
proof -
  define R where "R r \<longleftrightarrow> (\<exists>st x. r = (st, l\<lparr>pl_exhausted := x\<rparr>, None) \<and> st \<noteq> GXOS_LEDGER_STATUS_OK)"
    for r :: "GXOS_LEDGER_STATUS \<times> GXOS_PHYSICAL_LEDGER \<times> nat option"
  have "l = l\<lparr>pl_exhausted := pl_exhausted l\<rparr>" by simp
  then have R1: "R (st, l, None)" if "st \<noteq> GXOS_LEDGER_STATUS_OK" for st
    using that unfolding R_def by blast
  have R2: "R (st, l\<lparr>pl_exhausted := x\<rparr>, None)" if "st \<noteq> GXOS_LEDGER_STATUS_OK" for st x
    using that unfolding R_def by blast
  have Rif: "(c \<Longrightarrow> R x) \<Longrightarrow> (\<not> c \<Longrightarrow> R y) \<Longrightarrow> R (if c then x else y)" for c x y
    by simp
  have Ropt: "R x \<Longrightarrow> (\<And>i. v = Some i \<Longrightarrow> R (y i)) \<Longrightarrow>
      R (case v of None \<Rightarrow> x | Some i \<Rightarrow> y i)" for v x and y :: "nat \<Rightarrow> _"
    by (cases v) simp_all
  have ok: "physical_entry_ok a \<longleftrightarrow> \<not> (pa_generation a = 0 \<or> pa_bytes a = 0 \<or>
      pa_allocation_class a \<ge> GXOS_MEMORY_ALLOCATION_COUNT \<or>
      pa_owner a \<ge> GXOS_MEMORY_OWNER_COUNT) \<and>
      \<not> (pa_base a \<noteq> 0 \<and> range_end (pa_base a) (pa_bytes a) = None)"
    by (auto simp: physical_entry_ok_def range_end_range_ok not_le split: if_splits)
  have adm: "physical_admissible l a"
    if "\<not> (pa_generation a = 0 \<or> pa_bytes a = 0 \<or>
      pa_allocation_class a \<ge> GXOS_MEMORY_ALLOCATION_COUNT \<or>
      pa_owner a \<ge> GXOS_MEMORY_OWNER_COUNT)"
      "\<not> (pa_base a \<noteq> 0 \<and> range_end (pa_base a) (pa_bytes a) = None)"
      "\<not> (pa_pages a \<noteq> 0 \<and>
        (case multiply_u64 (pa_pages a) GXOS_MEMORY_PAGE_SIZE of
           None \<Rightarrow> True | Some page_bytes \<Rightarrow> page_bytes < pa_bytes a))"
      "\<not> list_ex (\<lambda>e. pa_live e \<and> physical_conflict a e) (pl_entries l)"
      "\<not> (add_u64 (pl_physical_bytes l) (pa_physical_impact_bytes a) = None \<or>
        add_u64 (pl_commit_bytes l) (pa_commit_impact_bytes a) = None \<or>
        add_u64 (pl_virtual_reservation_bytes l)
                (pa_virtual_reservation_impact_bytes a) = None)"
      "find_index (\<lambda>e. \<not> pa_live e) (pl_entries l) = Some i" for i
    using that find_index_SomeD [OF that(6)] nth_mem
    unfolding physical_admissible_def ok physical_pages_ok_iff add_u64_None_iff
    by (auto simp: list_ex_iff not_le)
  have "R (gxos_physical_ledger_insert l a)"
    unfolding gxos_physical_ledger_insert_def
    apply (rule Rif, rule R1, simp)
    apply (rule Rif, rule R1, simp)
    apply (rule Rif, rule R1, simp)
    apply (rule Rif, rule R1, simp)
    apply (rule Rif, rule R2, simp)
    apply (rule Rif, rule R1, simp)
    apply (rule Ropt, rule R2, simp)
    apply (rule notE [OF assms(2)], rule adm, assumption+)
    done
  then show ?thesis by (simp add: R_def)
qed

lemma ledger_inv_exhausted [simp]: "ledger_inv (l\<lparr>pl_exhausted := x\<rparr>) = ledger_inv l"
  by (simp add: ledger_inv_iff)

subsection \<open>Removal\<close>

definition physical_removed :: "GXOS_PHYSICAL_LEDGER \<Rightarrow> nat \<Rightarrow> GXOS_PHYSICAL_LEDGER" where
  "physical_removed l i =
     l\<lparr> pl_physical_bytes := pl_physical_bytes l - pa_physical_impact_bytes (pl_entries l ! i),
        pl_commit_bytes := pl_commit_bytes l - pa_commit_impact_bytes (pl_entries l ! i),
        pl_virtual_reservation_bytes :=
          pl_virtual_reservation_bytes l -
          pa_virtual_reservation_impact_bytes (pl_entries l ! i),
        pl_entries := (pl_entries l)[i := zero_physical_allocation],
        pl_live_count := pl_live_count l - 1 \<rparr>"

lemma zero_physical_dead [simp]: "\<not> pa_live zero_physical_allocation"
  by (simp add: zero_physical_allocation_def)

lemma ledger_impact_le:
  assumes "ledger_inv l" and "i < length (pl_entries l)" and "pa_live (pl_entries l ! i)"
  shows "pa_physical_impact_bytes (pl_entries l ! i) \<le> pl_physical_bytes l"
    and "pa_commit_impact_bytes (pl_entries l ! i) \<le> pl_commit_bytes l"
    and "pa_virtual_reservation_impact_bytes (pl_entries l ! i) \<le> pl_virtual_reservation_bytes l"
    and "pl_live_count l \<noteq> 0"
proof -
  note ge = live_sum_ge [where P = pa_live and xs = "pl_entries l" and i = i, OF assms(2,3)]
  show "pa_physical_impact_bytes (pl_entries l ! i) \<le> pl_physical_bytes l"
    using ge [of "\<lambda>e. unat (pa_physical_impact_bytes e)"] assms(1)
    by (simp add: ledger_inv_iff word_le_nat_alt)
  show "pa_commit_impact_bytes (pl_entries l ! i) \<le> pl_commit_bytes l"
    using ge [of "\<lambda>e. unat (pa_commit_impact_bytes e)"] assms(1)
    by (simp add: ledger_inv_iff word_le_nat_alt)
  show "pa_virtual_reservation_impact_bytes (pl_entries l ! i) \<le> pl_virtual_reservation_bytes l"
    using ge [of "\<lambda>e. unat (pa_virtual_reservation_impact_bytes e)"] assms(1)
    by (simp add: ledger_inv_iff word_le_nat_alt)
  show "pl_live_count l \<noteq> 0"
    using ge [of "\<lambda>_. 1"] assms(1) by (auto simp: ledger_inv_iff)
qed

lemma physical_remove_OK:
  assumes "ledger_inv l" and "i < length (pl_entries l)" and "pa_live (pl_entries l ! i)"
  shows "gxos_physical_ledger_remove l i = (GXOS_LEDGER_STATUS_OK, physical_removed l i)"
  using assms ledger_impact_le [OF assms]
  by (simp add: gxos_physical_ledger_remove_def physical_removed_def Let_def ledger_inv_iff
      not_less [symmetric])

lemma physical_remove_rejected:
  assumes "\<not> (i < length (pl_entries l) \<and> pa_live (pl_entries l ! i))" and "ledger_inv l"
  shows "\<exists>st. gxos_physical_ledger_remove l i = (st, l) \<and> st \<noteq> GXOS_LEDGER_STATUS_OK"
  using assms by (auto simp: gxos_physical_ledger_remove_def Let_def ledger_inv_iff)

lemma physical_remove_inv:
  assumes "ledger_inv l" and "i < length (pl_entries l)" and "pa_live (pl_entries l ! i)"
  shows "ledger_inv (physical_removed l i)"
proof -
  note del = live_sum_delete [where P = pa_live and xs = "pl_entries l" and i = i
      and x = zero_physical_allocation, OF assms(2,3) zero_physical_dead]
  have "sorted_wrt physical_compatible ((pl_entries l)[i := zero_physical_allocation])"
    by (rule sorted_wrt_update [OF symp_physical_compatible])
       (use assms(1) in \<open>simp_all add: ledger_inv_iff physical_compatible_def\<close>)
  moreover have "x \<in> set ((pl_entries l)[i := zero_physical_allocation]) \<Longrightarrow> pa_live x \<Longrightarrow>
      x \<in> set (pl_entries l)" for x
    by (auto dest!: set_update_subset_insert [THEN subsetD])
  ultimately show ?thesis
    using assms(1) ledger_impact_le [OF assms]
      del [of "\<lambda>e. unat (pa_physical_impact_bytes e)"]
      del [of "\<lambda>e. unat (pa_commit_impact_bytes e)"]
      del [of "\<lambda>e. unat (pa_virtual_reservation_impact_bytes e)"] del [of "\<lambda>_. 1"]
    by (auto simp: ledger_inv_iff physical_removed_def unat_sub_le unat_pred)
qed

subsection \<open>The ledger as a slot table\<close>

definition physical_ins ::
    "GXOS_PHYSICAL_LEDGER \<Rightarrow> GXOS_PHYSICAL_ALLOCATION \<Rightarrow> nat \<Rightarrow> GXOS_PHYSICAL_LEDGER \<Rightarrow> bool" where
  "physical_ins l e i l' \<longleftrightarrow> (\<exists>a. e = a\<lparr>pa_live := True\<rparr> \<and>
     gxos_physical_ledger_insert l a = (GXOS_LEDGER_STATUS_OK, l', Some i))"

definition physical_del ::
    "GXOS_PHYSICAL_LEDGER \<Rightarrow> nat \<Rightarrow> GXOS_PHYSICAL_LEDGER \<Rightarrow> bool" where
  "physical_del l i l' \<longleftrightarrow> gxos_physical_ledger_remove l i = (GXOS_LEDGER_STATUS_OK, l')"

lemma physical_insE:
  assumes "ledger_inv l" and "gxos_physical_ledger_insert l a = (GXOS_LEDGER_STATUS_OK, l', r)"
  obtains i where "physical_admissible l a" "r = Some i" "l' = physical_inserted l a i"
    "find_index (\<lambda>e. \<not> pa_live e) (pl_entries l) = Some i"
    "i < length (pl_entries l)" "\<not> pa_live (pl_entries l ! i)" "ledger_inv l'"
proof -
  have adm: "physical_admissible l a"
    using physical_insert_rejected [OF assms(1), of a] assms(2) by fastforce
  from physical_insert_OK [OF assms(1) adm] obtain i
    where i: "find_index (\<lambda>e. \<not> pa_live e) (pl_entries l) = Some i"
      "r = Some i" "l' = physical_inserted l a i"
    using assms(2) by auto
  with find_index_SomeD [OF i(1)] physical_insert_inv [OF assms(1) adm] adm that
  show thesis by blast
qed

lemma physical_delE:
  assumes "ledger_inv l" and "gxos_physical_ledger_remove l i = (GXOS_LEDGER_STATUS_OK, l')"
  obtains "i < length (pl_entries l)" "pa_live (pl_entries l ! i)" "l' = physical_removed l i"
    "ledger_inv l'"
proof -
  have live: "i < length (pl_entries l)" "pa_live (pl_entries l ! i)"
    using physical_remove_rejected [OF _ assms(1), of i] assms(2) by force+
  with physical_remove_OK [OF assms(1) live] physical_remove_inv [OF assms(1) live] assms(2) that
  show thesis by simp
qed

interpretation ledger: slot_table pl_entries pa_live physical_span ledger_inv
  physical_ins physical_del
proof unfold_locales
  fix l :: GXOS_PHYSICAL_LEDGER and i j
  assume l: "ledger_inv l" and ij: "i < length (pl_entries l)" "j < length (pl_entries l)" "i \<noteq> j"
    and live: "pa_live (pl_entries l ! i)" "pa_live (pl_entries l ! j)"
  have "physical_compatible (pl_entries l ! i) (pl_entries l ! j)"
    using l ij sorted_wrt_nth_sym [OF symp_physical_compatible] by (simp add: ledger_inv_iff)
  moreover have "physical_entry_ok (pl_entries l ! i)" "physical_entry_ok (pl_entries l ! j)"
    using l ij live by (simp_all add: ledger_inv_iff)
  ultimately show "physical_span (pl_entries l ! i) \<inter> physical_span (pl_entries l ! j) = {}"
    using live physical_conflict_span by (metis physical_compatible_def)
next
  fix l e i l'
  assume l: "ledger_inv l" and "physical_ins l e i l'"
  then obtain a where a: "e = a\<lparr>pa_live := True\<rparr>"
    "gxos_physical_ledger_insert l a = (GXOS_LEDGER_STATUS_OK, l', Some i)"
    by (auto simp: physical_ins_def)
  show "i < length (pl_entries l) \<and> \<not> pa_live (pl_entries l ! i) \<and> pa_live e \<and>
      pl_entries l' = (pl_entries l)[i := e]"
    by (rule physical_insE [OF l a(2)]) (use a in \<open>simp add: physical_inserted_def\<close>)
  show "ledger_inv l'" by (rule physical_insE [OF l a(2)])
next
  fix l i l'
  assume l: "ledger_inv l" and "physical_del l i l'"
  then have d: "gxos_physical_ledger_remove l i = (GXOS_LEDGER_STATUS_OK, l')"
    by (simp add: physical_del_def)
  show "i < length (pl_entries l) \<and> pa_live (pl_entries l ! i) \<and>
      (\<exists>z. \<not> pa_live z \<and> pl_entries l' = (pl_entries l)[i := z])"
    by (rule physical_delE [OF l d])
       (auto simp: physical_removed_def intro!: exI [of _ zero_physical_allocation])
  show "ledger_inv l'" by (rule physical_delE [OF l d])
qed

subsection \<open>Correctness of the ledger\<close>

text \<open>The ledgers a run of insertions and removals reaches, whatever each call returns.\<close>

inductive ledger_reachable :: "u64 \<Rightarrow> GXOS_PHYSICAL_LEDGER \<Rightarrow> bool" for g where
  reach_init: "ledger_reachable g (gxos_physical_ledger_init g)"
| reach_insert: "ledger_reachable g l \<Longrightarrow> gxos_physical_ledger_insert l a = (st, l', r) \<Longrightarrow>
    ledger_reachable g l'"
| reach_remove: "ledger_reachable g l \<Longrightarrow> gxos_physical_ledger_remove l i = (st, l') \<Longrightarrow>
    ledger_reachable g l'"

lemma physical_insert_keeps:
  assumes "ledger_inv l" and "gxos_physical_ledger_insert l a = (st, l', r)"
  shows "ledger_inv l'"
proof (cases "physical_admissible l a")
  case True
  from physical_insert_OK [OF assms(1) True] assms(2)
  have "gxos_physical_ledger_insert l a = (GXOS_LEDGER_STATUS_OK, l', r)" by auto
  with assms(1) show ?thesis by (rule physical_insE)
next
  case False
  from physical_insert_rejected [OF assms(1) False] assms(1,2) show ?thesis by auto
qed

lemma physical_remove_keeps:
  assumes "ledger_inv l" and "gxos_physical_ledger_remove l i = (st, l')"
  shows "ledger_inv l'"
proof (cases "i < length (pl_entries l) \<and> pa_live (pl_entries l ! i)")
  case True
  then show ?thesis
    using physical_remove_OK [OF assms(1)] physical_remove_inv [OF assms(1)] assms(2) by auto
next
  case False
  from physical_remove_rejected [OF False assms(1)] assms show ?thesis by auto
qed

lemma ledger_reachable_inv: "ledger_reachable g l \<Longrightarrow> g \<noteq> 0 \<Longrightarrow> ledger_inv l"
  by (induction rule: ledger_reachable.induct)
     (auto intro: ledger_inv_init physical_insert_keeps physical_remove_keeps)

text \<open>
  C1. Whatever sequence of insertions and removals a ledger has gone through since its
  initialisation with a nonzero generation, whether the calls succeeded or not, the code's
  own validator accepts it, no address is owned by two live entries, and its three byte
  totals and its live count are exactly the sums over the live entries.
\<close>

theorem physical_ledger_always_accounts:
  assumes "ledger_reachable g l" and "g \<noteq> 0"
  shows "gxos_physical_ledger_validate l \<and>
    (\<forall>i j a b x. ledger.slots l i = Some a \<longrightarrow> ledger.slots l j = Some b \<longrightarrow>
       x \<in> physical_span a \<longrightarrow> x \<in> physical_span b \<longrightarrow> i = j) \<and>
    unat (pl_live_count l) = live_sum pa_live (\<lambda>_. 1) (pl_entries l) \<and>
    unat (pl_physical_bytes l) = pl_sum pa_physical_impact_bytes l \<and>
    unat (pl_commit_bytes l) = pl_sum pa_commit_impact_bytes l \<and>
    unat (pl_virtual_reservation_bytes l) = pl_sum pa_virtual_reservation_impact_bytes l"
proof -
  note inv = ledger_reachable_inv [OF assms]
  then have "gxos_physical_ledger_validate l" by (simp add: ledger_inv_def)
  with inv ledger.owner_unique [OF inv] show ?thesis
    by (simp add: ledger_inv_iff)
qed

theorem physical_ledger_always_accounts_witness:
  "gxos_physical_ledger_validate
     (fst (snd (gxos_physical_ledger_insert (gxos_physical_ledger_init 1)
       (zero_physical_allocation\<lparr>pa_base := 0x1000, pa_bytes := 0x1000, pa_generation := 1\<rparr>))))"
proof -
  let ?r = "gxos_physical_ledger_insert (gxos_physical_ledger_init 1)
       (zero_physical_allocation\<lparr>pa_base := 0x1000, pa_bytes := 0x1000, pa_generation := 1\<rparr>)"
  have "ledger_reachable 1 (fst (snd ?r))"
    by (rule reach_insert [OF reach_init, of _ _ "fst ?r" _ "snd (snd ?r)"]) simp
  from physical_ledger_always_accounts [OF this] show ?thesis by simp
qed

text \<open>
  C2. On a ledger that satisfies its invariant an insertion succeeds exactly when the
  allocation is well formed, its pages cover its bytes, its range is free, a slot is free and
  no total would overflow. It then fills the first free slot, adds the three impacts and
  keeps the invariant; otherwise it reports an error and changes nothing but the flag that
  records exhaustion.
\<close>

theorem physical_ledger_insert_correct:
  assumes "ledger_inv l"
  shows "case gxos_physical_ledger_insert l a of (st, l', r) \<Rightarrow>
    ledger_inv l' \<and>
    (if physical_admissible l a
     then st = GXOS_LEDGER_STATUS_OK \<and>
       (\<exists>i. find_index (\<lambda>e. \<not> pa_live e) (pl_entries l) = Some i \<and> r = Some i \<and>
            l' = physical_inserted l a i)
     else st \<noteq> GXOS_LEDGER_STATUS_OK \<and> r = None \<and> (\<exists>x. l' = l\<lparr>pl_exhausted := x\<rparr>))"
  using physical_insert_OK [OF assms, of a] physical_insert_rejected [OF assms, of a]
    physical_insert_keeps [OF assms, of a]
  by (cases "physical_admissible l a") auto

theorem physical_ledger_insert_correct_witness:
  "case gxos_physical_ledger_insert (gxos_physical_ledger_init 7)
     (zero_physical_allocation\<lparr>pa_bytes := 8, pa_generation := 7\<rparr>) of (st, l', r) \<Rightarrow>
     st = GXOS_LEDGER_STATUS_OK \<and> r = Some 0 \<and> ledger_inv l'"
proof -
  let ?a = "zero_physical_allocation\<lparr>pa_bytes := 8, pa_generation := 7\<rparr>"
  have "physical_admissible (gxos_physical_ledger_init 7) ?a"
    by (simp add: physical_admissible_def physical_entry_ok_def physical_pages_ok_def
        gxos_physical_ledger_init_def zero_physical_allocation_def)
  with physical_ledger_insert_correct [OF ledger_inv_init [of 7], of ?a] show ?thesis
    by (auto simp: gxos_physical_ledger_init_def)
qed

text \<open>
  An inserted allocation with a nonzero base is the one a search for its range finds,
  and removing it gives back the abstract table and the three totals of before.
\<close>

theorem physical_ledger_insert_find_remove:
  assumes "ledger_inv l" and "gxos_physical_ledger_insert l a = (GXOS_LEDGER_STATUS_OK, l', Some i)"
  shows "(pa_base a \<noteq> 0 \<longrightarrow> gxos_physical_ledger_find l' (pa_base a) (pa_bytes a) = Some i) \<and>
    (\<exists>l''. gxos_physical_ledger_remove l' i = (GXOS_LEDGER_STATUS_OK, l'') \<and>
       ledger.slots l'' = ledger.slots l \<and> pl_live_count l'' = pl_live_count l \<and>
       pl_physical_bytes l'' = pl_physical_bytes l \<and> pl_commit_bytes l'' = pl_commit_bytes l \<and>
       pl_virtual_reservation_bytes l'' = pl_virtual_reservation_bytes l)"
proof -
  from physical_insE [OF assms] have i: "i < length (pl_entries l)" "\<not> pa_live (pl_entries l ! i)"
    and l': "l' = physical_inserted l a i" "ledger_inv l'" and adm: "physical_admissible l a"
    by auto
  have at: "pl_entries l' ! i = a\<lparr>pa_live := True\<rparr>" "i < length (pl_entries l')"
    using i l' by (simp_all add: physical_inserted_def)
  have rem: "gxos_physical_ledger_remove l' i = (GXOS_LEDGER_STATUS_OK, physical_removed l' i)"
    by (rule physical_remove_OK [OF l'(2) at(2)]) (simp add: at(1))
  have "physical_ins l (a\<lparr>pa_live := True\<rparr>) i l'" "physical_del l' i (physical_removed l' i)"
    using assms(2) rem by (auto simp: physical_ins_def physical_del_def)
  from ledger.ins_del [OF assms(1) this] have "ledger.slots (physical_removed l' i) = ledger.slots l" .
  moreover have "gxos_physical_ledger_find l' (pa_base a) (pa_bytes a) = Some i" if "pa_base a \<noteq> 0"
  proof -
    have bytes: "pa_bytes a \<noteq> 0" using adm by (simp add: physical_admissible_def physical_entry_ok_def)
    have "j = i" if j: "j < length (pl_entries l')" "pa_live (pl_entries l' ! j)"
        "pa_base (pl_entries l' ! j) = pa_base a" "pa_bytes (pl_entries l' ! j) = pa_bytes a" for j
    proof -
      have "unat (pa_base a) \<in> bytes_from (pa_base a) (pa_bytes a)"
        using bytes by (simp add: bytes_from_def unat_gt_0)
      then show ?thesis
        using j at \<open>pa_base a \<noteq> 0\<close>
        by (intro ledger.owner_unique [OF l'(2), of j _ i _ "unat (pa_base a)"])
           (auto simp: ledger.slots_def physical_span_def)
    qed
    then have "find_index (\<lambda>e. pa_live e \<and> pa_base e = pa_base a \<and> pa_bytes e = pa_bytes a)
        (pl_entries l') = Some i"
      by (intro find_index_unique at(2)) (simp_all only: at(1), simp_all)
    with that bytes show ?thesis by (simp only: gxos_physical_ledger_find_def if_False simp_thms)
  qed
  ultimately show ?thesis
    using rem at(1) l'(1) by (auto simp: physical_removed_def physical_inserted_def)
qed

theorem physical_ledger_insert_find_remove_witness:
  "gxos_physical_ledger_find
     (fst (snd (gxos_physical_ledger_insert (gxos_physical_ledger_init 1)
       (zero_physical_allocation\<lparr>pa_base := 0x1000, pa_bytes := 0x1000, pa_generation := 1\<rparr>))))
     0x1000 0x1000 = Some 0"
proof -
  let ?a = "zero_physical_allocation\<lparr>pa_base := 0x1000, pa_bytes := 0x1000, pa_generation := 1\<rparr>"
  let ?l = "gxos_physical_ledger_init 1"
  have "physical_admissible ?l ?a"
    by (simp add: physical_admissible_def physical_entry_ok_def physical_pages_ok_def
        gxos_physical_ledger_init_def zero_physical_allocation_def range_ok_def)
  from physical_insert_OK [OF ledger_inv_init [of 1] this]
  have ins: "gxos_physical_ledger_insert ?l ?a = (GXOS_LEDGER_STATUS_OK, physical_inserted ?l ?a 0, Some 0)"
    by (auto simp: gxos_physical_ledger_init_def)
  from physical_ledger_insert_find_remove [OF ledger_inv_init this] show ?thesis
    by (simp add: ins)
qed

end
