(* ===== verification/Memory_Snapshot.thy ===== *)
theory Memory_Snapshot
  imports Memory_Map Physical_Ledger VM_Arena_Ops
begin

text \<open>
  The commit model and the memory snapshots of
  \<open>src/src/Gate4Harness/memory_accounting.c\<close> (\<open>gxos_commit_model_*\<close>,
  \<open>gxos_physical_snapshot_create\<close>, \<open>gxos_memory_snapshot_*\<close>), which derive one view from the
  classification, the ledger and the arena. An operation that fills a structure returns it as
  an option: \<open>None\<close> is a structure left as it was.
\<close>

datatype GXOS_COMMIT_STATUS =
    GXOS_COMMIT_STATUS_OK
  | GXOS_COMMIT_STATUS_INVALID_ARGUMENT
  | GXOS_COMMIT_STATUS_OVERFLOW
  | GXOS_COMMIT_STATUS_OVERCOMMIT
  | GXOS_COMMIT_STATUS_INVALID_STATE

datatype GXOS_SNAPSHOT_STATUS =
    GXOS_SNAPSHOT_STATUS_OK
  | GXOS_SNAPSHOT_STATUS_INVALID_ARGUMENT
  | GXOS_SNAPSHOT_STATUS_INVALID_PHYSICAL
  | GXOS_SNAPSHOT_STATUS_INVALID_COMMIT
  | GXOS_SNAPSHOT_STATUS_INVALID_VIRTUAL
  | GXOS_SNAPSHOT_STATUS_OVERFLOW

record GXOS_COMMIT_MODEL =
  cm_commit_limit :: u64
  cm_committed_bytes :: u64
  cm_available_commit :: u64
  cm_generation :: u64
  cm_valid :: bool
  cm_no_pagefile :: bool

record GXOS_MEMORY_SNAPSHOT =
  ms_generation :: u64
  ms_valid :: bool
  ms_total_physical_bytes :: u64
  ms_available_physical_bytes :: u64
  ms_memory_load_percent :: u32
  ms_commit_limit_bytes :: u64
  ms_available_commit_bytes :: u64
  ms_process_virtual_total_bytes :: u64
  ms_process_virtual_available_bytes :: u64
  ms_accounted_physical_usage_bytes :: u64
  ms_process_reserved_virtual_bytes :: u64
  ms_process_committed_virtual_bytes :: u64

record GXOS_PHYSICAL_SNAPSHOT =
  ps_valid :: bool
  ps_total_ram_like_bytes :: u64
  ps_available_physical_bytes :: u64
  ps_accounted_used_bytes :: u64
  ps_post_epoch_physical_bytes :: u64
  ps_generation :: u64
  ps_descriptor_class_bytes :: "u64 list"

definition zero_memory_snapshot :: GXOS_MEMORY_SNAPSHOT where
  "zero_memory_snapshot =
     \<lparr> ms_generation = 0, ms_valid = False, ms_total_physical_bytes = 0,
       ms_available_physical_bytes = 0, ms_memory_load_percent = 0, ms_commit_limit_bytes = 0,
       ms_available_commit_bytes = 0, ms_process_virtual_total_bytes = 0,
       ms_process_virtual_available_bytes = 0, ms_accounted_physical_usage_bytes = 0,
       ms_process_reserved_virtual_bytes = 0, ms_process_committed_virtual_bytes = 0 \<rparr>"

definition zero_physical_snapshot :: GXOS_PHYSICAL_SNAPSHOT where
  "zero_physical_snapshot =
     \<lparr> ps_valid = False, ps_total_ram_like_bytes = 0, ps_available_physical_bytes = 0,
       ps_accounted_used_bytes = 0, ps_post_epoch_physical_bytes = 0, ps_generation = 0,
       ps_descriptor_class_bytes = replicate GXOS_MEMORY_CLASS_COUNT 0 \<rparr>"

definition gxos_commit_model_create ::
    "u64 \<Rightarrow> u64 \<Rightarrow> u64 \<Rightarrow> GXOS_COMMIT_STATUS \<times> GXOS_COMMIT_MODEL option" where
  "gxos_commit_model_create commit_limit committed_bytes generation =
     (if generation = 0 then (GXOS_COMMIT_STATUS_INVALID_ARGUMENT, None)
      else if committed_bytes > commit_limit then (GXOS_COMMIT_STATUS_OVERCOMMIT, None)
      else (GXOS_COMMIT_STATUS_OK,
            Some \<lparr> cm_commit_limit = commit_limit, cm_committed_bytes = committed_bytes,
                   cm_available_commit = commit_limit - committed_bytes,
                   cm_generation = generation, cm_valid = True, cm_no_pagefile = False \<rparr>))"

definition gxos_commit_model_create_no_pagefile ::
    "u64 \<Rightarrow> u64 \<Rightarrow> u64 \<Rightarrow> u64 \<Rightarrow> GXOS_COMMIT_STATUS \<times> GXOS_COMMIT_MODEL option" where
  "gxos_commit_model_create_no_pagefile total_physical_bytes available_physical_bytes
     committed_bytes generation =
     (if total_physical_bytes = 0 \<or> available_physical_bytes > total_physical_bytes
      then (GXOS_COMMIT_STATUS_INVALID_ARGUMENT, None)
      else case add_u64 available_physical_bytes committed_bytes of
        None \<Rightarrow> (GXOS_COMMIT_STATUS_OVERFLOW, None)
      | Some limit0 \<Rightarrow>
          let limit = (if limit0 > total_physical_bytes then total_physical_bytes else limit0) in
          case gxos_commit_model_create limit committed_bytes generation of
            (status, model) \<Rightarrow>
              (status, if status = GXOS_COMMIT_STATUS_OK
                       then map_option (\<lambda>m. m\<lparr>cm_no_pagefile := True\<rparr>) model else model))"

definition gxos_physical_snapshot_create ::
    "GXOS_MEMORY_CLASSIFICATION \<Rightarrow> GXOS_PHYSICAL_LEDGER \<Rightarrow> u64 \<Rightarrow>
     GXOS_SNAPSHOT_STATUS \<times> GXOS_PHYSICAL_SNAPSHOT option" where
  "gxos_physical_snapshot_create classification ledger generation =
     (if generation = 0 then (GXOS_SNAPSHOT_STATUS_INVALID_ARGUMENT, None)
      else if \<not> mc_valid classification \<or> \<not> gxos_physical_ledger_validate ledger \<or>
              mc_total_ram_like_bytes classification = 0 \<or>
              pl_physical_bytes ledger > mc_conventional_bytes classification
      then (GXOS_SNAPSHOT_STATUS_INVALID_PHYSICAL, Some zero_physical_snapshot)
      else let snapshot = zero_physical_snapshot
                 \<lparr> ps_total_ram_like_bytes := mc_total_ram_like_bytes classification,
                   ps_available_physical_bytes :=
                     mc_conventional_bytes classification - pl_physical_bytes ledger \<rparr> in
        if ps_available_physical_bytes snapshot > ps_total_ram_like_bytes snapshot
        then (GXOS_SNAPSHOT_STATUS_INVALID_PHYSICAL, Some snapshot)
        else (GXOS_SNAPSHOT_STATUS_OK,
              Some (snapshot
                \<lparr> ps_accounted_used_bytes :=
                    ps_total_ram_like_bytes snapshot - ps_available_physical_bytes snapshot,
                  ps_post_epoch_physical_bytes := pl_physical_bytes ledger,
                  ps_generation := generation,
                  ps_descriptor_class_bytes :=
                    map (\<lambda>i. mc_class_bytes classification ! i) [0..<GXOS_MEMORY_CLASS_COUNT],
                  ps_valid := True \<rparr>)))"

text \<open>The loop of \<open>percentage_100\<close>; the number is that of the iterations left.\<close>

fun percentage_loop :: "nat \<Rightarrow> u64 \<Rightarrow> u64 \<Rightarrow> u64 \<Rightarrow> u64 \<Rightarrow> u64" where
  "percentage_loop 0 used total' quotient' remainder = quotient'"
| "percentage_loop (Suc n) used total' quotient' remainder =
     (let threshold = total' - used in
      if remainder \<ge> threshold
      then percentage_loop n used total' (quotient' + 1) (remainder - threshold)
      else percentage_loop n used total' quotient' (remainder + used))"

definition percentage_100 :: "u64 \<Rightarrow> u64 \<Rightarrow> u32" where
  "percentage_100 used total' =
     (if total' = 0 \<or> used > total' then 0
      else if used = total' then 100
      else let quotient' = percentage_loop 100 used total' 0 0
           in if quotient' > 100 then 100 else ucast quotient')"

definition gxos_memory_snapshot_create ::
    "GXOS_PHYSICAL_SNAPSHOT \<Rightarrow> GXOS_VM_ARENA \<Rightarrow> GXOS_COMMIT_MODEL \<Rightarrow> u64 \<Rightarrow>
     GXOS_SNAPSHOT_STATUS \<times> GXOS_MEMORY_SNAPSHOT option" where
  "gxos_memory_snapshot_create physical virtual_arena commit generation =
     (if generation = 0 then (GXOS_SNAPSHOT_STATUS_INVALID_ARGUMENT, None)
      else if \<not> ps_valid physical \<or> ps_total_ram_like_bytes physical = 0 \<or>
              ps_available_physical_bytes physical > ps_total_ram_like_bytes physical
      then (GXOS_SNAPSHOT_STATUS_INVALID_PHYSICAL, Some zero_memory_snapshot)
      else if \<not> va_valid virtual_arena \<or> \<not> gxos_vm_arena_validate virtual_arena \<or>
              va_total_reserved_bytes virtual_arena > va_length virtual_arena \<or>
              va_total_committed_bytes virtual_arena > va_length virtual_arena
      then (GXOS_SNAPSHOT_STATUS_INVALID_VIRTUAL, Some zero_memory_snapshot)
      else if \<not> cm_valid commit \<or> cm_committed_bytes commit > cm_commit_limit commit \<or>
              cm_available_commit commit \<noteq> cm_commit_limit commit - cm_committed_bytes commit
      then (GXOS_SNAPSHOT_STATUS_INVALID_COMMIT, Some zero_memory_snapshot)
      else let available_virtual = gxos_vm_arena_available virtual_arena in
        if available_virtual > va_length virtual_arena
        then (GXOS_SNAPSHOT_STATUS_INVALID_VIRTUAL, Some zero_memory_snapshot)
        else (GXOS_SNAPSHOT_STATUS_OK,
              Some \<lparr> ms_generation = generation, ms_valid = True,
                     ms_total_physical_bytes = ps_total_ram_like_bytes physical,
                     ms_available_physical_bytes = ps_available_physical_bytes physical,
                     ms_memory_load_percent =
                       percentage_100 (ps_total_ram_like_bytes physical -
                                       ps_available_physical_bytes physical)
                                      (ps_total_ram_like_bytes physical),
                     ms_commit_limit_bytes = cm_commit_limit commit,
                     ms_available_commit_bytes = cm_available_commit commit,
                     ms_process_virtual_total_bytes = va_length virtual_arena,
                     ms_process_virtual_available_bytes = available_virtual,
                     ms_accounted_physical_usage_bytes = ps_accounted_used_bytes physical,
                     ms_process_reserved_virtual_bytes = va_total_reserved_bytes virtual_arena,
                     ms_process_committed_virtual_bytes =
                       va_total_committed_bytes virtual_arena \<rparr>))"

definition memory_snapshot_is_coherent :: "GXOS_MEMORY_SNAPSHOT \<Rightarrow> bool" where
  "memory_snapshot_is_coherent snapshot \<longleftrightarrow>
     \<not> (\<not> ms_valid snapshot \<or> ms_generation snapshot = 0 \<or>
        ms_total_physical_bytes snapshot = 0 \<or>
        ms_available_physical_bytes snapshot > ms_total_physical_bytes snapshot \<or>
        ms_memory_load_percent snapshot > 100 \<or>
        ms_available_commit_bytes snapshot > ms_commit_limit_bytes snapshot \<or>
        ms_process_committed_virtual_bytes snapshot > ms_commit_limit_bytes snapshot \<or>
        ms_process_virtual_available_bytes snapshot > ms_process_virtual_total_bytes snapshot \<or>
        ms_process_reserved_virtual_bytes snapshot > ms_process_virtual_total_bytes snapshot \<or>
        ms_process_committed_virtual_bytes snapshot >
          ms_process_reserved_virtual_bytes snapshot) \<and>
     (let used = ms_total_physical_bytes snapshot - ms_available_physical_bytes snapshot in
      ms_accounted_physical_usage_bytes snapshot = used \<and>
      ms_available_commit_bytes snapshot =
        ms_commit_limit_bytes snapshot - ms_process_committed_virtual_bytes snapshot \<and>
      ms_memory_load_percent snapshot =
        percentage_100 used (ms_total_physical_bytes snapshot))"

definition gxos_memory_snapshot_query_current ::
    "GXOS_MEMORY_CLASSIFICATION \<Rightarrow> GXOS_MEMORY_SNAPSHOT \<Rightarrow> GXOS_PHYSICAL_LEDGER \<Rightarrow>
     GXOS_VM_ARENA \<Rightarrow> u64 \<Rightarrow> GXOS_SNAPSHOT_STATUS \<times> GXOS_MEMORY_SNAPSHOT option" where
  "gxos_memory_snapshot_query_current classification startup_snapshot ledger virtual_arena
     generation =
     (if generation = 0 \<or> generation < ms_generation startup_snapshot \<or>
         \<not> mc_valid classification \<or> mc_total_ram_like_bytes classification = 0 \<or>
         \<not> memory_snapshot_is_coherent startup_snapshot \<or>
         ms_total_physical_bytes startup_snapshot \<noteq> mc_total_ram_like_bytes classification
      then (GXOS_SNAPSHOT_STATUS_INVALID_ARGUMENT, None)
      else case gxos_physical_snapshot_create classification ledger generation of
        (GXOS_SNAPSHOT_STATUS_OK, Some physical) \<Rightarrow>
          (case gxos_commit_model_create_no_pagefile (ps_total_ram_like_bytes physical)
                  (ps_available_physical_bytes physical)
                  (va_total_committed_bytes virtual_arena) generation of
             (GXOS_COMMIT_STATUS_OVERFLOW, _) \<Rightarrow>
               (GXOS_SNAPSHOT_STATUS_OVERFLOW, Some zero_memory_snapshot)
           | (GXOS_COMMIT_STATUS_OK, Some commit) \<Rightarrow>
               gxos_memory_snapshot_create physical virtual_arena commit generation
           | _ \<Rightarrow> (GXOS_SNAPSHOT_STATUS_INVALID_COMMIT, Some zero_memory_snapshot))
      | (status, _) \<Rightarrow> (status, Some zero_memory_snapshot))"

subsection \<open>The load percentage\<close>

lemma percentage_step:
  fixes u t :: u64
  assumes "u < t" and "r < t"
  shows "(if r \<ge> t - u then unat (r - (t - u)) else unat (r + u)) = (unat r + unat u) mod unat t"
    and "r \<ge> t - u \<longleftrightarrow> unat r + unat u \<ge> unat t"
    and "\<not> r \<ge> t - u \<Longrightarrow> r + u < t" and "r \<ge> t - u \<Longrightarrow> r - (t - u) < t"
proof -
  have lt: "unat u < unat t" "unat r < unat t" using assms by (simp_all add: word_less_nat_alt)
  have sub: "unat (t - u) = unat t - unat u" using assms(1) by (intro unat_sub_le) simp
  show iff: "r \<ge> t - u \<longleftrightarrow> unat r + unat u \<ge> unat t"
    using lt sub by (simp add: word_le_nat_alt le_diff_conv)
  have small: "unat (r + u) = unat r + unat u" if "\<not> r \<ge> t - u"
    using that iff less_trans [OF _ unat_lt_2p64, of "unat r + unat u" t] by (simp add: unat_add_fits)
  have big: "unat (r - (t - u)) = unat r + unat u - unat t" if "r \<ge> t - u"
    using that iff lt sub by (simp add: unat_sub_le)
  show "(if r \<ge> t - u then unat (r - (t - u)) else unat (r + u)) = (unat r + unat u) mod unat t"
    using small big iff lt by (auto simp: le_mod_geq)
  show "\<not> r \<ge> t - u \<Longrightarrow> r + u < t" using small iff by (simp add: word_less_nat_alt)
  show "r \<ge> t - u \<Longrightarrow> r - (t - u) < t" using big lt by (simp add: word_less_nat_alt)
qed

lemma percentage_loop_eq:
  assumes "u < t"
  shows "r < t \<Longrightarrow> unat q + n < 2 ^ 64 \<Longrightarrow>
    unat (percentage_loop n u t q r) = unat q + (unat r + n * unat u) div unat t"
proof (induction n arbitrary: q r)
  case 0
  then show ?case by (simp add: word_less_nat_alt)
next
  case (Suc n)
  note step = percentage_step [OF assms Suc.prems(1)]
  have t: "0 < unat t" using assms by (auto simp: word_less_nat_alt)
  show ?case
  proof (cases "r \<ge> t - u")
    case True
    have q: "unat (q + 1) = unat q + 1" using Suc.prems(2) by (simp add: unat_add_fits)
    have "unat (r - (t - u)) + unat t = unat r + unat u"
      using True step(1,2) Suc.prems(1) assms by (simp add: word_less_nat_alt le_mod_geq)
    then have "unat r + Suc n * unat u = unat (r - (t - u)) + n * unat u + unat t" by simp
    then have "(unat r + Suc n * unat u) div unat t = (unat (r - (t - u)) + n * unat u + unat t) div unat t"
      by (rule arg_cong)
    also have "\<dots> = (unat (r - (t - u)) + n * unat u) div unat t + 1"
      using t by (subst div_add_self2) simp_all
    finally show ?thesis
      using True Suc.IH [OF step(4) [OF True], of "q + 1"] Suc.prems(2) q by (simp add: Let_def)
  next
    case False
    have "unat (r + u) = unat r + unat u" using False step(1,2) by simp
    then show ?thesis
      using False Suc.IH [OF step(3) [OF False], of q] Suc.prems(2) by (simp add: Let_def algebra_simps)
  qed
qed

lemma percentage_100_eq:
  "percentage_100 u t = (if t = 0 \<or> u > t then 0 else of_nat (100 * unat u div unat t))"
proof (cases "t = 0 \<or> u > t")
  case True
  then show ?thesis by (auto simp: percentage_100_def)
next
  case False
  then have t: "0 < unat t" "unat u \<le> unat t"
    by (simp_all add: unat_gt_0 word_le_nat_alt not_less)
  show ?thesis
  proof (cases "u = t")
    case True
    with False t show ?thesis by (simp add: percentage_100_def)
  next
    case neq: False
    with False have lt: "u < t" by (auto simp: not_less order_le_less)
    let ?q = "percentage_loop 100 u t 0 0"
    have q: "unat ?q = 100 * unat u div unat t"
      using percentage_loop_eq [OF lt, of 0 0 100] lt by (simp add: word_less_nat_alt)
    have "100 * unat u div unat t \<le> 100 * unat t div unat t" using t(2) by (intro div_le_mono) simp
    then have le: "unat ?q \<le> 100" using q t(1) by simp
    then have "\<not> ?q > 100" by (simp add: word_less_nat_alt)
    then have "percentage_100 u t = ucast ?q" using False neq by (simp add: percentage_100_def Let_def)
    also have "\<dots> = of_nat (unat ?q)" by simp
    finally show ?thesis using False q by simp
  qed
qed

lemma percentage_100_le: "percentage_100 u t \<le> 100"
proof (cases "t = 0 \<or> u > t")
  case True
  then show ?thesis by (simp add: percentage_100_eq)
next
  case False
  then have "100 * unat u div unat t \<le> 100 * unat t div unat t"
    by (intro div_le_mono) (simp add: word_le_nat_alt not_less)
  then have le: "100 * unat u div unat t \<le> 100" by (simp split: if_splits)
  then have "unat (of_nat (100 * unat u div unat t) :: u32) = 100 * unat u div unat t"
    by (subst unat_of_nat) simp
  with le False show ?thesis by (simp add: percentage_100_eq word_le_nat_alt)
qed

text \<open>
  C6. The load percentage, computed by a hundred additions and comparisons that never
  overflow, is the exact integer quotient \<open>100 * used / total\<close>, computed without overflow for every
  pair of 64-bit values with \<open>used \<le> total\<close> and \<open>total\<close> nonzero, and zero for the others.
\<close>

theorem memory_load_percentage_exact:
  "unat (percentage_100 used total_bytes) =
     (if total_bytes = 0 \<or> used > total_bytes then 0 else 100 * unat used div unat total_bytes)"
proof (cases "total_bytes = 0 \<or> used > total_bytes")
  case True
  then show ?thesis by (simp add: percentage_100_eq)
next
  case False
  then have "100 * unat used div unat total_bytes \<le> 100 * unat total_bytes div unat total_bytes"
    by (intro div_le_mono) (simp add: word_le_nat_alt not_less)
  then have "100 * unat used div unat total_bytes \<le> 100" by (simp split: if_splits)
  with False show ?thesis by (simp add: percentage_100_eq unat_of_nat)
qed

subsection \<open>Snapshots\<close>

lemma committed_le_reserved:
  assumes "arena_inv a"
  shows "va_total_committed_bytes a \<le> va_total_reserved_bytes a"
    and "va_total_reserved_bytes a \<le> va_length a"
proof -
  let ?R = "va_reservations a" and ?C = "va_commitments a"
  have c: "committed_sum ?C = card (\<Union>c \<in> {c \<in> set ?C. vc_live c}. commitment_span c)"
    using assms by (intro live_sum_card commitments_disjoint) (simp_all add: arena_inv_iff)
  have r: "reserved_sum ?R = card (\<Union>r \<in> {r \<in> set ?R. vr_live r}. reservation_span r)"
    using assms by (intro live_sum_card reservations_disjoint) (simp_all add: arena_inv_iff)
  have "(\<Union>c \<in> {c \<in> set ?C. vc_live c}. commitment_span c) \<subseteq> (\<Union>r \<in> {r \<in> set ?R. vr_live r}. reservation_span r)"
  proof
    fix x assume "x \<in> (\<Union>c \<in> {c \<in> set ?C. vc_live c}. commitment_span c)"
    then obtain c where c: "commitment_ok ?R c" "x \<in> commitment_span c"
      using assms by (auto simp: arena_inv_iff)
    then have "?R ! vc_reservation_slot c \<in> set ?R" "vr_live (?R ! vc_reservation_slot c)"
      "x \<in> reservation_span (?R ! vc_reservation_slot c)"
      using assms by (auto simp: commitment_ok_def arena_inv_iff dest!: range_contains_subset)
    then show "x \<in> (\<Union>r \<in> {r \<in> set ?R. vr_live r}. reservation_span r)" by blast
  qed
  then have "committed_sum ?C \<le> reserved_sum ?R" unfolding c r by (intro card_mono) auto
  with assms show "va_total_committed_bytes a \<le> va_total_reserved_bytes a"
    by (simp add: arena_inv_iff word_le_nat_alt)
  have "reserved_sum ?R \<le> unat (va_length a)"
    using reserved_sum_le [OF assms, of 0 0] by (simp add: bytes_from_def)
  with assms show "va_total_reserved_bytes a \<le> va_length a" by (simp add: arena_inv_iff word_le_nat_alt)
qed

lemma physical_snapshot_OK_iff:
  assumes "generation \<noteq> 0" and "mc_valid cl" and "mc_total_ram_like_bytes cl \<noteq> 0"
    and "gxos_physical_ledger_validate l"
  defines "avail \<equiv> mc_conventional_bytes cl - pl_physical_bytes l"
  shows "if pl_physical_bytes l \<le> mc_conventional_bytes cl \<and> avail \<le> mc_total_ram_like_bytes cl
    then \<exists>ps. gxos_physical_snapshot_create cl l generation = (GXOS_SNAPSHOT_STATUS_OK, Some ps) \<and>
      ps_valid ps \<and> ps_total_ram_like_bytes ps = mc_total_ram_like_bytes cl \<and>
      ps_available_physical_bytes ps = avail \<and>
      ps_accounted_used_bytes ps = mc_total_ram_like_bytes cl - avail
    else fst (gxos_physical_snapshot_create cl l generation) = GXOS_SNAPSHOT_STATUS_INVALID_PHYSICAL"
  using assms by (auto simp: gxos_physical_snapshot_create_def Let_def not_le not_less)

lemma no_pagefile_OK_iff:
  assumes "generation \<noteq> 0" and "total_bytes \<noteq> 0" and "avail \<le> total_bytes"
  shows "if unat avail + unat c < 2 ^ 64 \<and> c \<le> total_bytes
    then \<exists>m. gxos_commit_model_create_no_pagefile total_bytes avail c generation = (GXOS_COMMIT_STATUS_OK, Some m) \<and>
      cm_valid m \<and> cm_no_pagefile m \<and> cm_committed_bytes m = c \<and>
      cm_commit_limit m = min total_bytes (avail + c) \<and>
      c \<le> cm_commit_limit m \<and> cm_available_commit m = cm_commit_limit m - c
    else fst (gxos_commit_model_create_no_pagefile total_bytes avail c generation) \<noteq> GXOS_COMMIT_STATUS_OK \<and>
      (fst (gxos_commit_model_create_no_pagefile total_bytes avail c generation) = GXOS_COMMIT_STATUS_OVERFLOW \<longleftrightarrow>
        \<not> unat avail + unat c < 2 ^ 64)"
proof (cases "unat avail + unat c < 2 ^ 64")
  case True
  then have add: "add_u64 avail c = Some (avail + c)" by (simp add: add_u64_Some_iff)
  have "c \<le> avail + c" using unat_add_fits [OF True] by (simp add: word_le_nat_alt)
  with True add assms show ?thesis
    by (auto simp: gxos_commit_model_create_no_pagefile_def gxos_commit_model_create_def Let_def not_less
        min_def not_le)
next
  case False
  then have "add_u64 avail c = None" by (simp add: add_u64_None_iff)
  with False assms show ?thesis
    by (auto simp: gxos_commit_model_create_no_pagefile_def not_less)
qed

lemma snapshot_create_OK:
  assumes "arena_inv a" and "generation \<noteq> 0"
    and "ps_valid ps" "ps_total_ram_like_bytes ps \<noteq> 0"
      "ps_available_physical_bytes ps \<le> ps_total_ram_like_bytes ps"
      "ps_accounted_used_bytes ps = ps_total_ram_like_bytes ps - ps_available_physical_bytes ps"
    and "cm_valid m" "cm_committed_bytes m = va_total_committed_bytes a"
      "cm_committed_bytes m \<le> cm_commit_limit m"
      "cm_available_commit m = cm_commit_limit m - cm_committed_bytes m"
  shows "\<exists>v. gxos_memory_snapshot_create ps a m generation = (GXOS_SNAPSHOT_STATUS_OK, Some v) \<and>
    memory_snapshot_is_coherent v \<and> ms_generation v = generation \<and>
    ms_total_physical_bytes v = ps_total_ram_like_bytes ps \<and>
    ms_available_physical_bytes v = ps_available_physical_bytes ps \<and>
    ms_commit_limit_bytes v = cm_commit_limit m \<and>
    ms_process_virtual_total_bytes v = va_length a \<and>
    ms_process_virtual_available_bytes v = va_length a - va_total_reserved_bytes a \<and>
    ms_process_reserved_virtual_bytes v = va_total_reserved_bytes a \<and>
    ms_process_committed_virtual_bytes v = va_total_committed_bytes a"
proof -
  note le = committed_le_reserved [OF assms(1)]
  have valid: "va_valid a" "gxos_vm_arena_validate a"
    using assms(1) by (simp add: arena_inv_iff) (use assms(1) in \<open>simp add: arena_inv_def\<close>)
  have avail: "gxos_vm_arena_available a = va_length a - va_total_reserved_bytes a"
    using valid leD [OF le(2)] by (simp add: gxos_vm_arena_available_def)
  have sub: "va_length a - va_total_reserved_bytes a \<le> va_length a"
    "cm_commit_limit m - cm_committed_bytes m \<le> cm_commit_limit m"
    using le(2) assms(9) by (simp_all add: word_le_nat_alt unat_sub_le)
  show ?thesis
    using assms valid le order_trans [OF le] sub avail
    by (simp add: gxos_memory_snapshot_create_def not_less Let_def memory_snapshot_is_coherent_def
        percentage_100_le)
qed

text \<open>What the query asks of the generation, the classification and the snapshot at start-up.\<close>

definition query_admits :: "GXOS_MEMORY_CLASSIFICATION \<Rightarrow> GXOS_MEMORY_SNAPSHOT \<Rightarrow> u64 \<Rightarrow> bool" where
  "query_admits cl startup generation \<longleftrightarrow> generation \<noteq> 0 \<and> ms_generation startup \<le> generation \<and> mc_valid cl
     \<and> mc_total_ram_like_bytes cl \<noteq> 0 \<and> memory_snapshot_is_coherent startup
     \<and> ms_total_physical_bytes startup = mc_total_ram_like_bytes cl"

lemma query_refused:
  "\<not> query_admits cl startup generation \<Longrightarrow>
     gxos_memory_snapshot_query_current cl startup l a generation = (GXOS_SNAPSHOT_STATUS_INVALID_ARGUMENT, None)"
  by (auto simp: gxos_memory_snapshot_query_current_def query_admits_def not_le)

lemma query_start:
  assumes "query_admits cl startup generation"
  shows "\<not> (generation = 0 \<or> generation < ms_generation startup \<or> \<not> mc_valid cl \<or>
      mc_total_ram_like_bytes cl = 0 \<or> \<not> memory_snapshot_is_coherent startup \<or>
      ms_total_physical_bytes startup \<noteq> mc_total_ram_like_bytes cl)"
  using assms by (simp add: query_admits_def not_less)

lemma query_physical:
  assumes "ledger_inv l" and "query_admits cl startup generation"
  defines "avail \<equiv> mc_conventional_bytes cl - pl_physical_bytes l"
  shows "if pl_physical_bytes l \<le> mc_conventional_bytes cl \<and> avail \<le> mc_total_ram_like_bytes cl
    then \<exists>ps. gxos_physical_snapshot_create cl l generation = (GXOS_SNAPSHOT_STATUS_OK, Some ps) \<and> ps_valid ps
      \<and> ps_total_ram_like_bytes ps = mc_total_ram_like_bytes cl \<and> ps_available_physical_bytes ps = avail
      \<and> ps_accounted_used_bytes ps = mc_total_ram_like_bytes cl - avail
    else fst (gxos_physical_snapshot_create cl l generation) = GXOS_SNAPSHOT_STATUS_INVALID_PHYSICAL"
  using physical_snapshot_OK_iff [of generation cl l, folded avail_def] assms(1,2) by (auto simp: ledger_inv_def query_admits_def)

lemma query_succeeds:
  assumes "arena_inv a" and "ledger_inv l" and q: "query_admits cl startup generation"
  defines "avail \<equiv> mc_conventional_bytes cl - pl_physical_bytes l"
  assumes fits: "pl_physical_bytes l \<le> mc_conventional_bytes cl" "avail \<le> mc_total_ram_like_bytes cl"
    "unat avail + unat (va_total_committed_bytes a) < 2 ^ 64" "va_total_committed_bytes a \<le> mc_total_ram_like_bytes cl"
  shows "\<exists>v. gxos_memory_snapshot_query_current cl startup l a generation = (GXOS_SNAPSHOT_STATUS_OK, Some v)
    \<and> memory_snapshot_is_coherent v \<and> ms_generation v = generation
    \<and> ms_total_physical_bytes v = mc_total_ram_like_bytes cl \<and> ms_available_physical_bytes v = avail
    \<and> ms_commit_limit_bytes v = min (mc_total_ram_like_bytes cl) (avail + va_total_committed_bytes a)
    \<and> ms_process_virtual_total_bytes v = va_length a
    \<and> ms_process_virtual_available_bytes v = va_length a - va_total_reserved_bytes a
    \<and> ms_process_reserved_virtual_bytes v = va_total_reserved_bytes a
    \<and> ms_process_committed_virtual_bytes v = va_total_committed_bytes a"
proof -
  note start = gxos_memory_snapshot_query_current_def if_not_P [OF query_start [OF q]]
  have gen: "generation \<noteq> 0" and ram: "mc_total_ram_like_bytes cl \<noteq> 0" using q by (simp_all add: query_admits_def)
  obtain ps where ps: "gxos_physical_snapshot_create cl l generation = (GXOS_SNAPSHOT_STATUS_OK, Some ps)"
      "ps_valid ps" "ps_total_ram_like_bytes ps = mc_total_ram_like_bytes cl"
      "ps_available_physical_bytes ps = avail" "ps_accounted_used_bytes ps = mc_total_ram_like_bytes cl - avail"
    using query_physical [OF assms(2) q, folded avail_def] fits(1,2) by auto
  obtain m where m: "gxos_commit_model_create_no_pagefile (mc_total_ram_like_bytes cl) avail
      (va_total_committed_bytes a) generation = (GXOS_COMMIT_STATUS_OK, Some m)" "cm_valid m"
    "cm_committed_bytes m = va_total_committed_bytes a"
    "cm_commit_limit m = min (mc_total_ram_like_bytes cl) (avail + va_total_committed_bytes a)"
    "va_total_committed_bytes a \<le> cm_commit_limit m"
    "cm_available_commit m = cm_commit_limit m - va_total_committed_bytes a"
    using no_pagefile_OK_iff [OF gen ram fits(2), of "va_total_committed_bytes a"] fits(3,4) by auto
  have "gxos_memory_snapshot_query_current cl startup l a generation = gxos_memory_snapshot_create ps a m generation"
    unfolding start ps(1) by (simp add: ps m(1))
  with snapshot_create_OK [OF assms(1) gen, of ps m] ps m fits ram show ?thesis by auto
qed

lemma query_fails:
  assumes "ledger_inv l" and q: "query_admits cl startup generation"
  defines "avail \<equiv> mc_conventional_bytes cl - pl_physical_bytes l"
  assumes full: "\<not> (pl_physical_bytes l \<le> mc_conventional_bytes cl \<and> avail \<le> mc_total_ram_like_bytes cl \<and>
    unat avail + unat (va_total_committed_bytes a) < 2 ^ 64 \<and> va_total_committed_bytes a \<le> mc_total_ram_like_bytes cl)"
  shows "fst (gxos_memory_snapshot_query_current cl startup l a generation) \<noteq> GXOS_SNAPSHOT_STATUS_OK
    \<and> snd (gxos_memory_snapshot_query_current cl startup l a generation) = Some zero_memory_snapshot"
proof -
  note start = gxos_memory_snapshot_query_current_def if_not_P [OF query_start [OF q]]
  have gen: "generation \<noteq> 0" and ram: "mc_total_ram_like_bytes cl \<noteq> 0" using q by (simp_all add: query_admits_def)
  note phys = query_physical [OF assms(1) q, folded avail_def]
  show ?thesis
  proof (cases "pl_physical_bytes l \<le> mc_conventional_bytes cl \<and> avail \<le> mc_total_ram_like_bytes cl")
    case False
    with phys have "fst (gxos_physical_snapshot_create cl l generation) = GXOS_SNAPSHOT_STATUS_INVALID_PHYSICAL"
      by (simp only: if_False)
    then show ?thesis unfolding start by (cases "gxos_physical_snapshot_create cl l generation") auto
  next
    case True
    with phys obtain ps where ps: "gxos_physical_snapshot_create cl l generation = (GXOS_SNAPSHOT_STATUS_OK, Some ps)"
      "ps_total_ram_like_bytes ps = mc_total_ram_like_bytes cl" "ps_available_physical_bytes ps = avail" by auto
    have "fst (gxos_commit_model_create_no_pagefile (mc_total_ram_like_bytes cl) avail
        (va_total_committed_bytes a) generation) \<noteq> GXOS_COMMIT_STATUS_OK"
      using no_pagefile_OK_iff [OF gen ram conjunct2 [OF True], of "va_total_committed_bytes a"] full True by auto
    then show ?thesis unfolding start ps(1) by (auto simp: ps split: prod.splits GXOS_COMMIT_STATUS.splits)
  qed
qed

text \<open>
  C5. For a ledger and an arena that satisfy their invariants, the current-memory query succeeds exactly when the
  generation is not zero and not older than the one at start-up, the classification is valid and names some RAM, the snapshot at
  start-up is coherent and has the same total, the ledger's physical bytes fit into conventional memory, what remains fits into
  RAM, and the committed bytes neither overflow nor exceed RAM. The view it returns is coherent by the code's own test and has
  exactly the generation, the available bytes, the commit limit and the virtual totals of the inputs; on failure it
  returns no valid view.
\<close>

theorem memory_snapshot_query_correct:
  fixes generation :: u64 and cl :: GXOS_MEMORY_CLASSIFICATION
  assumes "arena_inv a" and "ledger_inv l"
  defines "avail \<equiv> mc_conventional_bytes cl - pl_physical_bytes l"
  shows "case gxos_memory_snapshot_query_current cl startup l a generation of (st, view) \<Rightarrow>
    (if generation \<noteq> 0 \<and> ms_generation startup \<le> generation \<and> mc_valid cl \<and> mc_total_ram_like_bytes cl \<noteq> 0 \<and>
        memory_snapshot_is_coherent startup \<and> ms_total_physical_bytes startup = mc_total_ram_like_bytes cl \<and>
        pl_physical_bytes l \<le> mc_conventional_bytes cl \<and> avail \<le> mc_total_ram_like_bytes cl \<and>
        unat avail + unat (va_total_committed_bytes a) < 2 ^ 64 \<and>
        va_total_committed_bytes a \<le> mc_total_ram_like_bytes cl
     then st = GXOS_SNAPSHOT_STATUS_OK \<and> (\<exists>v. view = Some v \<and> memory_snapshot_is_coherent v \<and>
       ms_generation v = generation \<and> ms_total_physical_bytes v = mc_total_ram_like_bytes cl \<and>
       ms_available_physical_bytes v = avail \<and>
       ms_commit_limit_bytes v =
         min (mc_total_ram_like_bytes cl) (avail + va_total_committed_bytes a) \<and>
       ms_process_virtual_total_bytes v = va_length a \<and>
       ms_process_virtual_available_bytes v = va_length a - va_total_reserved_bytes a \<and>
       ms_process_reserved_virtual_bytes v = va_total_reserved_bytes a \<and>
       ms_process_committed_virtual_bytes v = va_total_committed_bytes a)
     else st \<noteq> GXOS_SNAPSHOT_STATUS_OK \<and> (\<forall>v. view = Some v \<longrightarrow> \<not> ms_valid v))"
proof (cases "query_admits cl startup generation")
  case False
  then show ?thesis by (auto simp: query_refused) (auto simp: query_admits_def)
next
  case q: True
  have zero: "\<not> ms_valid zero_memory_snapshot" by (simp add: zero_memory_snapshot_def)
  show ?thesis
  proof (cases "pl_physical_bytes l \<le> mc_conventional_bytes cl \<and> avail \<le> mc_total_ram_like_bytes cl \<and>
      unat avail + unat (va_total_committed_bytes a) < 2 ^ 64 \<and> va_total_committed_bytes a \<le> mc_total_ram_like_bytes cl")
    case True
    then show ?thesis using query_succeeds [OF assms(1,2) q, folded avail_def] q by (auto simp: query_admits_def)
  next
    case False
    from query_fails [OF assms(2) q, folded avail_def, OF False] zero show ?thesis
      unfolding split_beta using False by auto
  qed
qed

definition sample_classification :: GXOS_MEMORY_CLASSIFICATION where
  "sample_classification = zero_memory_classification
     \<lparr> mc_valid := True, mc_total_ram_like_bytes := 0x4000, mc_conventional_bytes := 0x3000 \<rparr>"

definition sample_startup :: GXOS_MEMORY_SNAPSHOT where
  "sample_startup = zero_memory_snapshot
     \<lparr> ms_generation := 2, ms_valid := True, ms_total_physical_bytes := 0x4000,
       ms_available_physical_bytes := 0x4000 \<rparr>"

theorem memory_snapshot_query_correct_witness:
  "\<exists>v. gxos_memory_snapshot_query_current sample_classification sample_startup
     (gxos_physical_ledger_init 1) (gxos_vm_arena_init 0x400000000000 0x40000000 1) 3 =
       (GXOS_SNAPSHOT_STATUS_OK, Some v) \<and> memory_snapshot_is_coherent v \<and>
     ms_available_physical_bytes v = 0x3000"
proof -
  let ?a = "gxos_vm_arena_init 0x400000000000 0x40000000 1" and ?l = "gxos_physical_ledger_init 1"
  have a: "arena_inv ?a" by (rule arena_inv_init) (simp_all add: range_ok_def)
  have l: "ledger_inv ?l" by (rule ledger_inv_init) simp
  have s: "memory_snapshot_is_coherent sample_startup"
    by (simp add: memory_snapshot_is_coherent_def sample_startup_def zero_memory_snapshot_def
        percentage_100_eq Let_def)
  have "pl_physical_bytes ?l = 0" "va_total_committed_bytes ?a = 0"
    by (simp_all add: gxos_physical_ledger_init_def gxos_vm_arena_init_def)
  with memory_snapshot_query_correct [OF a l, where cl = sample_classification and startup = sample_startup and generation = 3] s show ?thesis
    by (auto simp: sample_classification_def sample_startup_def split_beta prod_eq_iff)
qed

end
