(* ===== verification/VM_Regions.thy ===== *)
theory VM_Regions
  imports VM_Arena
begin

text \<open>
  The queryable-region ledger of \<open>src/src/Gate4Harness/vm_substrate.c\<close>
  (\<open>gxos_vm_region_*\<close>): 64 page-aligned, pairwise disjoint regions, each with an identity that
  the caller needs to unregister it, and the \<open>VirtualQuery\<close>-style lookup of the region that
  contains an address. The padding fields of the two structures are always zero and are left
  out.
\<close>

abbreviation (input) GXOS_VM_REGION_LEDGER_CAPACITY :: nat where
  "GXOS_VM_REGION_LEDGER_CAPACITY \<equiv> 64"

abbreviation (input) GXOS_VM_REGION_STATE_COMMIT :: u32 where
  "GXOS_VM_REGION_STATE_COMMIT \<equiv> 0x1000"

abbreviation (input) GXOS_VM_REGION_STATE_RESERVE :: u32 where
  "GXOS_VM_REGION_STATE_RESERVE \<equiv> 0x2000"

abbreviation (input) sizeof_MEMORY_BASIC_INFORMATION :: u64 where
  "sizeof_MEMORY_BASIC_INFORMATION \<equiv> 48"

record GXOS_VM_MEMORY_BASIC_INFORMATION =
  bi_BaseAddress :: u64
  bi_AllocationBase :: u64
  bi_AllocationProtect :: u32
  bi_RegionSize :: u64
  bi_State :: u32
  bi_Protect :: u32
  bi_Type :: u32

record GXOS_VM_REGION =
  rg_live :: bool
  rg_base :: u64
  rg_bytes :: u64
  rg_allocation_base :: u64
  rg_allocation_protect :: u32
  rg_state :: u32
  rg_protect :: u32
  rg_type :: u32
  rg_allocation_identity :: u64

record GXOS_VM_REGION_LEDGER =
  rl_entries :: "GXOS_VM_REGION list"
  rl_live_count :: u32
  rl_exhausted :: bool
  rl_next_identity :: u64

definition zero_vm_region :: GXOS_VM_REGION where
  "zero_vm_region =
     \<lparr> rg_live = False, rg_base = 0, rg_bytes = 0, rg_allocation_base = 0,
       rg_allocation_protect = 0, rg_state = 0, rg_protect = 0, rg_type = 0,
       rg_allocation_identity = 0 \<rparr>"

definition vm_region_contains :: "GXOS_VM_REGION \<Rightarrow> u64 \<Rightarrow> bool" where
  "vm_region_contains region address \<longleftrightarrow> rg_live region \<and>
     (case range_end (rg_base region) (rg_bytes region) of
        None \<Rightarrow> False
      | Some end \<Rightarrow> address \<ge> rg_base region \<and> address < end)"

definition gxos_vm_region_ledger_init :: GXOS_VM_REGION_LEDGER where
  "gxos_vm_region_ledger_init =
     \<lparr> rl_entries = replicate GXOS_VM_REGION_LEDGER_CAPACITY zero_vm_region, rl_live_count = 0,
       rl_exhausted = False, rl_next_identity = 1 \<rparr>"

text \<open>The overlap loop of a registration: the status it returns early with, if any.\<close>

fun region_register_scan :: "GXOS_VM_REGION list \<Rightarrow> u64 \<Rightarrow> u64 \<Rightarrow> GXOS_VM_STATUS option" where
  "region_register_scan [] base end = None"
| "region_register_scan (existing # rest) base end =
     (if \<not> rg_live existing then region_register_scan rest base end
      else case range_end (rg_base existing) (rg_bytes existing) of
        None \<Rightarrow> Some GXOS_VM_STATUS_INVALID_STATE
      | Some existing_end \<Rightarrow>
          if base < existing_end \<and> rg_base existing < end then Some GXOS_VM_STATUS_OVERLAP
          else region_register_scan rest base end)"

definition region_args_bad :: "u64 \<Rightarrow> u64 \<Rightarrow> u64 \<Rightarrow> u32 \<Rightarrow> u32 \<Rightarrow> bool" where
  "region_args_bad base bytes allocation_base state type' \<longleftrightarrow>
     base = 0 \<or> allocation_base = 0 \<or> bytes = 0 \<or> base mod GXOS_VM_PAGE_SIZE \<noteq> 0 \<or>
     bytes mod GXOS_VM_PAGE_SIZE \<noteq> 0 \<or> allocation_base mod GXOS_VM_PAGE_SIZE \<noteq> 0 \<or>
     range_end base bytes = None \<or> allocation_base > base \<or>
     (state \<noteq> GXOS_VM_REGION_STATE_COMMIT \<and> state \<noteq> GXOS_VM_REGION_STATE_RESERVE) \<or> type' = 0"

text \<open>The last component of the result is \<open>*allocation_identity_out\<close>.\<close>

definition gxos_vm_region_register ::
    "GXOS_VM_REGION_LEDGER \<Rightarrow> u64 \<Rightarrow> u64 \<Rightarrow> u64 \<Rightarrow> u32 \<Rightarrow> u32 \<Rightarrow> u32 \<Rightarrow> u32 \<Rightarrow>
     GXOS_VM_STATUS \<times> GXOS_VM_REGION_LEDGER \<times> u64" where
  "gxos_vm_region_register ledger base bytes allocation_base allocation_protect state protect
     type' =
     (if region_args_bad base bytes allocation_base state type'
      then (if base \<noteq> 0 \<and> bytes \<noteq> 0 \<and> base > UINT64_MAX - bytes
            then GXOS_VM_STATUS_OVERFLOW else GXOS_VM_STATUS_INVALID_ARGUMENT, ledger, 0)
      else case region_register_scan (rl_entries ledger) base (base + bytes) of
        Some status \<Rightarrow> (status, ledger, 0)
      | None \<Rightarrow>
          if unat (rl_live_count ledger) \<ge> GXOS_VM_REGION_LEDGER_CAPACITY
          then (GXOS_VM_STATUS_CAPACITY, ledger\<lparr> rl_exhausted := True \<rparr>, 0)
          else let next_identity = (if rl_next_identity ledger = 0 then 1
                                    else rl_next_identity ledger) in
            case find_index (\<lambda>region. \<not> rg_live region) (rl_entries ledger) of
              None \<Rightarrow> (GXOS_VM_STATUS_CAPACITY,
                       ledger\<lparr> rl_next_identity := next_identity, rl_exhausted := True \<rparr>, 0)
            | Some index \<Rightarrow>
                let (identity, next_identity) =
                      (if next_identity = 0 then (next_identity + 1, next_identity + 2)
                       else (next_identity, next_identity + 1)) in
                if identity = 0
                then (GXOS_VM_STATUS_OVERFLOW, ledger\<lparr> rl_next_identity := next_identity \<rparr>, 0)
                else (GXOS_VM_STATUS_OK,
                      ledger\<lparr> rl_entries := (rl_entries ledger)[index :=
                                \<lparr> rg_live = True, rg_base = base, rg_bytes = bytes,
                                  rg_allocation_base = allocation_base,
                                  rg_allocation_protect = allocation_protect,
                                  rg_state = state, rg_protect = protect, rg_type = type',
                                  rg_allocation_identity = identity \<rparr>],
                              rl_live_count := rl_live_count ledger + 1,
                              rl_next_identity := next_identity \<rparr>,
                      identity))"

definition gxos_vm_region_unregister ::
    "GXOS_VM_REGION_LEDGER \<Rightarrow> u64 \<Rightarrow> u64 \<Rightarrow> u64 \<Rightarrow> GXOS_VM_STATUS \<times> GXOS_VM_REGION_LEDGER" where
  "gxos_vm_region_unregister ledger base bytes allocation_identity =
     (if base = 0 \<or> bytes = 0 \<or> allocation_identity = 0
      then (GXOS_VM_STATUS_INVALID_ARGUMENT, ledger)
      else case find_index (\<lambda>region. rg_live region \<and> rg_base region = base \<and>
                  rg_bytes region = bytes \<and> rg_allocation_identity region = allocation_identity)
                  (rl_entries ledger) of
        None \<Rightarrow> (GXOS_VM_STATUS_NOT_FOUND, ledger)
      | Some index \<Rightarrow>
          let ledger' = ledger\<lparr> rl_entries := (rl_entries ledger)[index := zero_vm_region] \<rparr> in
          if rl_live_count ledger = 0 then (GXOS_VM_STATUS_INVALID_STATE, ledger')
          else (GXOS_VM_STATUS_OK, ledger'\<lparr> rl_live_count := rl_live_count ledger - 1 \<rparr>))"

fun region_validate_loop :: "GXOS_VM_REGION list \<Rightarrow> u32 \<Rightarrow> u32 option" where
  "region_validate_loop [] live_count = Some live_count"
| "region_validate_loop (region # rest) live_count =
     (if \<not> rg_live region then region_validate_loop rest live_count
      else if region_args_bad (rg_base region) (rg_bytes region) (rg_allocation_base region)
                (rg_state region) (rg_type region) \<or> rg_allocation_identity region = 0
      then None
      else if list_ex (\<lambda>candidate. rg_live candidate \<and>
                (case range_end (rg_base candidate) (rg_bytes candidate) of
                   None \<Rightarrow> True
                 | Some candidate_end \<Rightarrow>
                     rg_base region < candidate_end \<and>
                     rg_base candidate < rg_base region + rg_bytes region)) rest
      then None
      else region_validate_loop rest (live_count + 1))"

definition gxos_vm_region_ledger_validate :: "GXOS_VM_REGION_LEDGER \<Rightarrow> bool" where
  "gxos_vm_region_ledger_validate ledger \<longleftrightarrow>
     \<not> (rl_next_identity ledger = 0 \<or>
        unat (rl_live_count ledger) > GXOS_VM_REGION_LEDGER_CAPACITY) \<and>
     region_validate_loop (rl_entries ledger) 0 = Some (rl_live_count ledger)"

text \<open>The size returned, and the information when it was written.\<close>

definition gxos_vm_region_virtual_query ::
    "GXOS_VM_REGION_LEDGER \<Rightarrow> u64 \<Rightarrow> u64 \<Rightarrow> u64 \<times> GXOS_VM_MEMORY_BASIC_INFORMATION option" where
  "gxos_vm_region_virtual_query ledger address len =
     (if len < sizeof_MEMORY_BASIC_INFORMATION then (0, None)
      else case find_index (\<lambda>region. vm_region_contains region address) (rl_entries ledger) of
        None \<Rightarrow> (0, None)
      | Some index \<Rightarrow>
          let region = rl_entries ledger ! index in
          (sizeof_MEMORY_BASIC_INFORMATION,
           Some \<lparr> bi_BaseAddress = rg_base region, bi_AllocationBase = rg_allocation_base region,
                  bi_AllocationProtect = rg_allocation_protect region,
                  bi_RegionSize = rg_bytes region, bi_State = rg_state region,
                  bi_Protect = rg_protect region, bi_Type = rg_type region \<rparr>))"

subsection \<open>The invariant\<close>

text \<open>
  The validator, the capacity, and what identities are for: live regions have different ones,
  all below the next, which has not wrapped.
\<close>

definition region_ok :: "GXOS_VM_REGION \<Rightarrow> bool" where
  "region_ok r \<longleftrightarrow> \<not> region_args_bad (rg_base r) (rg_bytes r) (rg_allocation_base r) (rg_state r) (rg_type r) \<and>
     rg_allocation_identity r \<noteq> 0"

abbreviation region_span :: "GXOS_VM_REGION \<Rightarrow> nat set" where
  "region_span r \<equiv> bytes_from (rg_base r) (rg_bytes r)"

definition region_compatible :: "GXOS_VM_REGION \<Rightarrow> GXOS_VM_REGION \<Rightarrow> bool" where
  "region_compatible r s \<longleftrightarrow> rg_live r \<longrightarrow> rg_live s \<longrightarrow>
     \<not> ranges_overlap (rg_base r) (rg_bytes r) (rg_base s) (rg_bytes s)"

definition identities_ok :: "GXOS_VM_REGION_LEDGER \<Rightarrow> bool" where
  "identities_ok l \<longleftrightarrow>
     (\<forall>r \<in> set (rl_entries l). rg_live r \<longrightarrow> rg_allocation_identity r < rl_next_identity l) \<and>
     sorted_wrt (\<lambda>r s. rg_live r \<longrightarrow> rg_live s \<longrightarrow>
       rg_allocation_identity r \<noteq> rg_allocation_identity s) (rl_entries l)"

definition region_inv :: "GXOS_VM_REGION_LEDGER \<Rightarrow> bool" where
  "region_inv l \<longleftrightarrow> length (rl_entries l) = GXOS_VM_REGION_LEDGER_CAPACITY \<and>
     gxos_vm_region_ledger_validate l \<and> identities_ok l"

lemma region_ok_range: "region_ok r \<Longrightarrow> range_ok (rg_base r) (rg_bytes r)"
  by (simp add: region_ok_def region_args_bad_def range_end_range_ok split: if_splits)

lemma overlap_by_ends:
  "range_ok b n \<Longrightarrow> (case range_end c m of None \<Rightarrow> True | Some e \<Rightarrow> b < e \<and> c < b + n) \<longleftrightarrow>
     ranges_overlap b n c m"
  by (simp add: ranges_overlap_def range_end_range_ok split: option.splits if_splits)

lemma region_loop_iff:
  "region_validate_loop rs n = Some k \<longleftrightarrow>
     (\<forall>r \<in> set rs. rg_live r \<longrightarrow> region_ok r) \<and> sorted_wrt region_compatible rs \<and>
     k = n + of_nat (live_sum rg_live (\<lambda>_. 1) rs)"
proof (induction rs arbitrary: n)
  case Nil
  then show ?case by auto
next
  case (Cons r rest)
  show ?case
  proof (cases "rg_live r \<and> region_ok r")
    case False
    then show ?thesis by (auto simp: Cons.IH region_compatible_def region_ok_def)
  next
    case True
    note ok = region_ok_range [OF conjunct2 [OF True]]
    have "list_ex (\<lambda>c. rg_live c \<and> (case range_end (rg_base c) (rg_bytes c) of None \<Rightarrow> True
        | Some e \<Rightarrow> rg_base r < e \<and> rg_base c < rg_base r + rg_bytes r)) rest \<longleftrightarrow>
        \<not> (\<forall>c \<in> set rest. region_compatible r c)"
      using True by (auto simp: list_ex_iff overlap_by_ends [OF ok] region_compatible_def)
    with True show ?thesis
      by (auto simp: Cons.IH region_ok_def add.assoc)
  qed
qed

lemma region_inv_iff:
  "region_inv l \<longleftrightarrow>
     length (rl_entries l) = GXOS_VM_REGION_LEDGER_CAPACITY \<and> rl_next_identity l \<noteq> 0 \<and>
     (\<forall>r \<in> set (rl_entries l). rg_live r \<longrightarrow> region_ok r) \<and>
     sorted_wrt region_compatible (rl_entries l) \<and>
     unat (rl_live_count l) = live_sum rg_live (\<lambda>_. 1) (rl_entries l) \<and> identities_ok l"
  (is "?I \<longleftrightarrow> ?len \<and> ?nx \<and> ?ok \<and> ?so \<and> ?cnt \<and> ?id")
proof (cases ?len)
  case False
  then show ?thesis by (simp add: region_inv_def)
next
  case True
  have le: "live_sum rg_live (\<lambda>_. 1) (rl_entries l) \<le> 64"
    using live_sum_length [of rg_live "rl_entries l"] True by simp
  then have "rl_live_count l = of_nat (live_sum rg_live (\<lambda>_. 1) (rl_entries l)) \<longleftrightarrow> ?cnt"
    by (intro eq_of_nat_u32) simp
  with True le show ?thesis
    by (auto simp: region_inv_def gxos_vm_region_ledger_validate_def region_loop_iff not_less)
qed

lemma symp_region_compatible: "symp region_compatible"
  by (auto simp: symp_def region_compatible_def ranges_overlap_sym)

lemma symp_identities:
  "symp (\<lambda>r s. rg_live r \<longrightarrow> rg_live s \<longrightarrow> rg_allocation_identity r \<noteq> rg_allocation_identity s)"
  by (auto simp: symp_def)

lemma zero_vm_region_dead [simp]: "\<not> rg_live zero_vm_region"
  by (simp add: zero_vm_region_def)

lemma region_inv_init: "region_inv gxos_vm_region_ledger_init"
  by (simp add: region_inv_iff gxos_vm_region_ledger_init_def identities_ok_def
      sorted_wrt_iff_nth_less region_compatible_def)

subsection \<open>Registering\<close>

definition registrable :: "GXOS_VM_REGION_LEDGER \<Rightarrow> u64 \<Rightarrow> u64 \<Rightarrow> u64 \<Rightarrow> u32 \<Rightarrow> u32 \<Rightarrow> bool" where
  "registrable l b n ab st ty \<longleftrightarrow> \<not> region_args_bad b n ab st ty \<and>
     (\<forall>r \<in> set (rl_entries l). rg_live r \<longrightarrow> bytes_from b n \<inter> region_span r = {}) \<and>
     (\<exists>r \<in> set (rl_entries l). \<not> rg_live r)"

definition region_registered :: "GXOS_VM_REGION_LEDGER \<Rightarrow> nat \<Rightarrow> GXOS_VM_REGION \<Rightarrow> GXOS_VM_REGION_LEDGER" where
  "region_registered l i r = l\<lparr> rl_entries := (rl_entries l)[i := r],
     rl_live_count := rl_live_count l + 1, rl_next_identity := rl_next_identity l + 1 \<rparr>"

abbreviation new_region :: "GXOS_VM_REGION_LEDGER \<Rightarrow> u64 \<Rightarrow> u64 \<Rightarrow> u64 \<Rightarrow> u32 \<Rightarrow> u32 \<Rightarrow> u32 \<Rightarrow> u32 \<Rightarrow> GXOS_VM_REGION" where
  "new_region l b n ab ap st pr ty \<equiv>
     \<lparr> rg_live = True, rg_base = b, rg_bytes = n, rg_allocation_base = ab, rg_allocation_protect = ap,
       rg_state = st, rg_protect = pr, rg_type = ty, rg_allocation_identity = rl_next_identity l \<rparr>"

lemma region_scan_iff:
  assumes "range_ok b n"
  shows "\<forall>r \<in> set rs. rg_live r \<longrightarrow> region_ok r \<Longrightarrow>
    (if \<forall>r \<in> set rs. rg_live r \<longrightarrow> bytes_from b n \<inter> region_span r = {}
     then region_register_scan rs b (b + n) = None
     else region_register_scan rs b (b + n) = Some GXOS_VM_STATUS_OVERLAP)"
proof (induction rs)
  case Nil
  then show ?case by simp
next
  case (Cons r rest)
  show ?case
  proof (cases "rg_live r")
    case False
    with Cons show ?thesis by simp
  next
    case True
    then have ok: "range_ok (rg_base r) (rg_bytes r)" using Cons.prems by (auto intro: region_ok_range)
    have "(b < rg_base r + rg_bytes r \<and> rg_base r < b + n) \<longleftrightarrow> bytes_from b n \<inter> region_span r \<noteq> {}"
      using overlap_by_ends [OF assms, of "rg_base r" "rg_bytes r"] ranges_overlap_iff [OF assms ok] ok
      by (simp add: range_end_range_ok)
    with True ok Cons show ?thesis by (simp add: range_end_range_ok)
  qed
qed

lemma region_args_range: "\<not> region_args_bad b n ab st ty \<Longrightarrow> range_ok b n"
  by (simp add: region_args_bad_def range_end_range_ok split: if_splits)

lemma region_count_lt:
  assumes "region_inv l" and "r \<in> set (rl_entries l)" and "\<not> rg_live r"
  shows "unat (rl_live_count l) < GXOS_VM_REGION_LEDGER_CAPACITY"
  using assms live_count_lt [of r "rl_entries l" rg_live] by (simp add: region_inv_iff)

lemma region_register_OK:
  assumes "region_inv l" and "registrable l b n ab st ty"
    and i: "find_index (\<lambda>r. \<not> rg_live r) (rl_entries l) = Some i"
  shows "gxos_vm_region_register l b n ab ap st pr ty =
    (GXOS_VM_STATUS_OK, region_registered l i (new_region l b n ab ap st pr ty), rl_next_identity l)"
proof -
  have good: "\<not> region_args_bad b n ab st ty" using assms(2) by (simp add: registrable_def)
  have scan: "region_register_scan (rl_entries l) b (b + n) = None"
    using region_scan_iff [OF region_args_range [OF good], of "rl_entries l"] assms(1,2)
    by (simp add: registrable_def region_inv_iff)
  have "\<not> unat (rl_live_count l) \<ge> GXOS_VM_REGION_LEDGER_CAPACITY"
    using region_count_lt [OF assms(1) nth_mem] find_index_SomeD [OF i] by auto
  moreover have "rl_next_identity l \<noteq> 0" using assms(1) by (simp add: region_inv_iff)
  ultimately show ?thesis
    using good scan i by (simp add: gxos_vm_region_register_def region_registered_def Let_def)
qed

lemma region_register_fails:
  assumes "region_inv l" and "\<not> registrable l b n ab st ty"
  shows "\<exists>status x. gxos_vm_region_register l b n ab ap st pr ty = (status, l\<lparr>rl_exhausted := x\<rparr>, 0) \<and>
    status \<noteq> GXOS_VM_STATUS_OK"
proof -
  have same: "l\<lparr>rl_exhausted := rl_exhausted l\<rparr> = l" by simp
  have nz: "rl_next_identity l \<noteq> 0" using assms(1) by (simp add: region_inv_iff)
  consider (bad) "region_args_bad b n ab st ty"
    | (overlap) "\<not> region_args_bad b n ab st ty"
      "region_register_scan (rl_entries l) b (b + n) = Some GXOS_VM_STATUS_OVERLAP"
    | (full) "\<not> region_args_bad b n ab st ty" "region_register_scan (rl_entries l) b (b + n) = None"
      "find_index (\<lambda>r. \<not> rg_live r) (rl_entries l) = None"
  proof (cases "region_args_bad b n ab st ty")
    case False
    have "\<forall>r \<in> set (rl_entries l). rg_live r \<longrightarrow> region_ok r" using assms(1) by (simp add: region_inv_iff)
    from region_scan_iff [OF region_args_range [OF False] this] False assms(2) that(2,3)
    show ?thesis
      by (cases "\<forall>r \<in> set (rl_entries l). rg_live r \<longrightarrow> bytes_from b n \<inter> region_span r = {}")
         (auto simp: registrable_def find_index_None_iff)
  qed (use that in blast)
  then show ?thesis
  proof cases
    case bad
    then show ?thesis using same by (auto simp: gxos_vm_region_register_def intro!: exI [of _ "rl_exhausted l"])
  next
    case overlap
    then show ?thesis using same
      by (auto simp: gxos_vm_region_register_def intro!: exI [of _ "rl_exhausted l"])
  next
    case full
    have "l\<lparr>rl_next_identity := rl_next_identity l, rl_exhausted := True\<rparr> = l\<lparr>rl_exhausted := True\<rparr>" by simp
    with full nz show ?thesis by (auto simp: gxos_vm_region_register_def Let_def)
  qed
qed

lemma region_registered_inv:
  assumes "region_inv l" and "registrable l b n ab st ty" and "rl_next_identity l \<noteq> UINT64_MAX"
    and i: "find_index (\<lambda>r. \<not> rg_live r) (rl_entries l) = Some i"
  shows "region_inv (region_registered l i (new_region l b n ab ap st pr ty))"
proof -
  let ?r = "new_region l b n ab ap st pr ty" and ?E = "rl_entries l"
  note iD = find_index_SomeD [OF i]
  have good: "region_ok ?r"
    using assms(1,2) by (simp add: registrable_def region_ok_def region_inv_iff)
  have mem: "x = ?r \<or> x \<in> set ?E" if "x \<in> set (?E[i := ?r])" for x
    using that set_update_subset_insert [of ?E i ?r] by auto
  have "unat (rl_next_identity l) \<noteq> 2 ^ 64 - 1"
    using assms(3) unat_UINT64_MAX [of 0] by (metis diff_zero unat_0 word_unat_eq_iff)
  moreover have "unat (rl_next_identity l) < 2 ^ 64" by simp
  ultimately have "unat (rl_next_identity l) + unat (1 :: u64) < 2 ^ 64" unfolding unat_1 by linarith
  then have nx: "unat (rl_next_identity l + 1) = unat (rl_next_identity l) + 1"
    by (simp add: unat_add_fits)
  then have lt: "x \<le> rl_next_identity l \<Longrightarrow> x < rl_next_identity l + 1" for x
    by (simp add: word_less_nat_alt word_le_nat_alt)
  have "sorted_wrt region_compatible (?E[i := ?r])"
  proof (rule sorted_wrt_update [OF symp_region_compatible])
    show "sorted_wrt region_compatible ?E" using assms(1) by (simp add: region_inv_iff)
    fix j assume "j < length ?E"
    then show "region_compatible ?r (?E ! j)"
      using assms(1,2) ranges_overlap_iff [of b n "rg_base (?E ! j)" "rg_bytes (?E ! j)"]
        region_ok_range [OF good]
      by (auto simp: region_compatible_def registrable_def region_inv_iff region_ok_range)
  qed
  moreover have "identities_ok (region_registered l i ?r)"
  proof -
    have old: "rg_allocation_identity x < rl_next_identity l" if "x \<in> set ?E" "rg_live x" for x
      using assms(1) that by (simp add: region_inv_iff identities_ok_def)
    have "sorted_wrt (\<lambda>r s. rg_live r \<longrightarrow> rg_live s \<longrightarrow>
        rg_allocation_identity r \<noteq> rg_allocation_identity s) (?E[i := ?r])"
    proof (rule sorted_wrt_update [OF symp_identities])
      show "sorted_wrt (\<lambda>r s. rg_live r \<longrightarrow> rg_live s \<longrightarrow>
          rg_allocation_identity r \<noteq> rg_allocation_identity s) ?E"
        using assms(1) by (simp add: region_inv_iff identities_ok_def)
      fix j assume "j < length ?E"
      then show "rg_live ?r \<longrightarrow> rg_live (?E ! j) \<longrightarrow>
          rg_allocation_identity ?r \<noteq> rg_allocation_identity (?E ! j)" using old [of "?E ! j"] by auto
    qed
    moreover have "rg_allocation_identity x < rl_next_identity l + 1"
      if "x \<in> set (?E[i := ?r])" "rg_live x" for x
      using mem [OF that(1)] old [of x] that(2) by (intro lt) auto
    ultimately show ?thesis by (simp add: identities_ok_def region_registered_def)
  qed
  moreover have "unat (rl_live_count l) < GXOS_VM_REGION_LEDGER_CAPACITY"
    using region_count_lt [OF assms(1) nth_mem] iD by auto
  moreover have "rl_next_identity l + 1 \<noteq> 0" using nx by (auto simp: unat_eq_iff)
  ultimately show ?thesis
    using assms(1) good iD mem
    by (auto simp: region_inv_iff region_registered_def live_sum_insert unat_Suc32)
qed

subsection \<open>Unregistering and querying\<close>

definition region_unregistered :: "GXOS_VM_REGION_LEDGER \<Rightarrow> nat \<Rightarrow> GXOS_VM_REGION_LEDGER" where
  "region_unregistered l i = l\<lparr> rl_entries := (rl_entries l)[i := zero_vm_region],
     rl_live_count := rl_live_count l - 1 \<rparr>"

lemma region_identity_unique:
  assumes "region_inv l" and "i < length (rl_entries l)" "j < length (rl_entries l)"
    and "rg_live (rl_entries l ! i)" "rg_live (rl_entries l ! j)"
    and "rg_allocation_identity (rl_entries l ! i) = rg_allocation_identity (rl_entries l ! j)"
  shows "i = j"
proof (rule ccontr)
  assume "i \<noteq> j"
  with assms show False
    by (simp add: region_inv_iff identities_ok_def sorted_wrt_nth_sym [OF symp_identities])
qed

lemma region_unregister_OK:
  assumes "region_inv l" and "i < length (rl_entries l)" and "rg_live (rl_entries l ! i)"
  defines "r \<equiv> rl_entries l ! i"
  shows "gxos_vm_region_unregister l (rg_base r) (rg_bytes r) (rg_allocation_identity r) =
    (GXOS_VM_STATUS_OK, region_unregistered l i)"
proof -
  have ok: "region_ok r" using assms by (simp add: region_inv_iff)
  then have nz: "rg_base r \<noteq> 0" "rg_bytes r \<noteq> 0" "rg_allocation_identity r \<noteq> 0"
    by (auto simp: region_ok_def region_args_bad_def)
  have find: "find_index (\<lambda>s. rg_live s \<and> rg_base s = rg_base r \<and> rg_bytes s = rg_bytes r \<and>
      rg_allocation_identity s = rg_allocation_identity r) (rl_entries l) = Some i"
    by (rule find_index_unique) (use assms region_identity_unique [OF assms(1)] in auto)
  have "rl_live_count l \<noteq> 0"
    using live_sum_ge [OF assms(2), of rg_live "\<lambda>_. 1"] assms by (auto simp: region_inv_iff)
  with nz find show ?thesis
    by (simp add: gxos_vm_region_unregister_def Let_def region_unregistered_def)
qed

lemma region_unregister_fails:
  assumes "region_inv l"
    and "\<not> (\<exists>i < length (rl_entries l). rg_live (rl_entries l ! i) \<and> rg_base (rl_entries l ! i) = b \<and>
      rg_bytes (rl_entries l ! i) = n \<and> rg_allocation_identity (rl_entries l ! i) = d)"
  shows "\<exists>st. gxos_vm_region_unregister l b n d = (st, l) \<and> st \<noteq> GXOS_VM_STATUS_OK"
proof -
  have "find_index (\<lambda>s. rg_live s \<and> rg_base s = b \<and> rg_bytes s = n \<and> rg_allocation_identity s = d)
      (rl_entries l) = None"
    using assms(2) by (auto simp: find_index_None_iff in_set_conv_nth)
  then show ?thesis by (auto simp: gxos_vm_region_unregister_def)
qed

lemma region_unregistered_inv:
  assumes "region_inv l" and "i < length (rl_entries l)" and "rg_live (rl_entries l ! i)"
  shows "region_inv (region_unregistered l i)"
proof -
  let ?E = "rl_entries l"
  have "sorted_wrt region_compatible (?E[i := zero_vm_region])"
    by (rule sorted_wrt_update [OF symp_region_compatible])
       (use assms(1) in \<open>simp_all add: region_inv_iff region_compatible_def\<close>)
  moreover have mem: "x = zero_vm_region \<or> x \<in> set ?E" if "x \<in> set (?E[i := zero_vm_region])" for x
    using that set_update_subset_insert [of ?E i zero_vm_region] by auto
  moreover have "identities_ok (region_unregistered l i)"
  proof -
    have "sorted_wrt (\<lambda>r s. rg_live r \<longrightarrow> rg_live s \<longrightarrow>
        rg_allocation_identity r \<noteq> rg_allocation_identity s) (?E[i := zero_vm_region])"
      by (rule sorted_wrt_update [OF symp_identities])
         (use assms(1) in \<open>simp_all add: region_inv_iff identities_ok_def\<close>)
    moreover have "rg_allocation_identity x < rl_next_identity l"
      if "x \<in> set (?E[i := zero_vm_region])" "rg_live x" for x
      using mem [OF that(1)] that(2) assms(1) by (auto simp: region_inv_iff identities_ok_def)
    ultimately show ?thesis by (simp add: identities_ok_def region_unregistered_def)
  qed
  moreover have "rl_live_count l \<noteq> 0"
    using live_sum_ge [OF assms(2), of rg_live "\<lambda>_. 1"] assms by (auto simp: region_inv_iff)
  moreover have "\<forall>x \<in> set (?E[i := zero_vm_region]). rg_live x \<longrightarrow> region_ok x"
  proof (intro ballI impI)
    fix x assume "x \<in> set (?E[i := zero_vm_region])" "rg_live x"
    with mem [of x] assms(1) show "region_ok x" by (auto simp: region_inv_iff)
  qed
  ultimately show ?thesis
    using assms live_sum_delete [OF assms(2,3) zero_vm_region_dead, of "\<lambda>_. 1"]
    by (simp add: region_inv_iff region_unregistered_def unat_pred)
qed

lemma vm_region_contains_iff:
  "(rg_live r \<Longrightarrow> region_ok r) \<Longrightarrow> vm_region_contains r x \<longleftrightarrow> rg_live r \<and> unat x \<in> region_span r"
  using region_ok_range [of r]
  by (auto simp: vm_region_contains_def range_end_range_ok bytes_from_def word_le_nat_alt
      word_less_nat_alt range_ok_unat)

definition region_ins where
  "region_ins l r i l' \<longleftrightarrow> (\<exists>b n ab ap st pr ty d.
     gxos_vm_region_register l b n ab ap st pr ty = (GXOS_VM_STATUS_OK, l', d) \<and>
     rl_next_identity l \<noteq> UINT64_MAX \<and> r = new_region l b n ab ap st pr ty \<and>
     find_index (\<lambda>r. \<not> rg_live r) (rl_entries l) = Some i)"

definition region_del where
  "region_del l i l' \<longleftrightarrow> i < length (rl_entries l) \<and> rg_live (rl_entries l ! i) \<and>
     gxos_vm_region_unregister l (rg_base (rl_entries l ! i)) (rg_bytes (rl_entries l ! i))
       (rg_allocation_identity (rl_entries l ! i)) = (GXOS_VM_STATUS_OK, l')"

lemma region_registerE:
  assumes "region_inv l" and "gxos_vm_region_register l b n ab ap st pr ty = (GXOS_VM_STATUS_OK, l', d)"
  obtains i where "registrable l b n ab st ty" "find_index (\<lambda>r. \<not> rg_live r) (rl_entries l) = Some i"
    "l' = region_registered l i (new_region l b n ab ap st pr ty)" "d = rl_next_identity l"
proof -
  have r: "registrable l b n ab st ty"
    using region_register_fails [OF assms(1), of b n ab st ty ap pr] assms(2) by fastforce
  then obtain i where i: "find_index (\<lambda>r. \<not> rg_live r) (rl_entries l) = Some i"
    using find_index_ex [where P = "\<lambda>r. \<not> rg_live r"] unfolding registrable_def by blast
  have "l' = region_registered l i (new_region l b n ab ap st pr ty)" "d = rl_next_identity l"
    using region_register_OK [OF assms(1) r i, of ap pr] assms(2) by simp_all
  with r i show thesis by (rule that)
qed

interpretation regions: slot_table rl_entries rg_live region_span region_inv region_ins region_del
proof unfold_locales
  fix l :: GXOS_VM_REGION_LEDGER and i j
  assume l: "region_inv l" "i < length (rl_entries l)" "j < length (rl_entries l)" "i \<noteq> j"
    "rg_live (rl_entries l ! i)" "rg_live (rl_entries l ! j)"
  then have "region_compatible (rl_entries l ! i) (rl_entries l ! j)"
    by (simp add: region_inv_iff sorted_wrt_nth_sym [OF symp_region_compatible])
  with l(5,6) show "region_span (rl_entries l ! i) \<inter> region_span (rl_entries l ! j) = {}"
    using not_ranges_overlapD by (auto simp: region_compatible_def)
next
  fix l r i l'
  assume l: "region_inv l" and "region_ins l r i l'"
  then obtain b n ab ap st pr ty d where
    op: "gxos_vm_region_register l b n ab ap st pr ty = (GXOS_VM_STATUS_OK, l', d)"
    and nm: "rl_next_identity l \<noteq> UINT64_MAX" and r: "r = new_region l b n ab ap st pr ty"
    and i: "find_index (\<lambda>r. \<not> rg_live r) (rl_entries l) = Some i"
    by (auto simp: region_ins_def)
  from region_registerE [OF l op] i r have reg: "registrable l b n ab st ty" "l' = region_registered l i r"
    by auto
  with find_index_SomeD [OF i] r show "i < length (rl_entries l) \<and> \<not> rg_live (rl_entries l ! i) \<and> rg_live r \<and>
      rl_entries l' = (rl_entries l)[i := r]"
    by (simp add: region_registered_def)
  show "region_inv l'" using region_registered_inv [OF l reg(1) nm i] reg(2) r by simp
next
  fix l i l'
  assume l: "region_inv l" and d: "region_del l i l'"
  then have i: "i < length (rl_entries l)" "rg_live (rl_entries l ! i)" by (auto simp: region_del_def)
  with d region_unregister_OK [OF l i] have l': "l' = region_unregistered l i" by (simp add: region_del_def)
  with i show "i < length (rl_entries l) \<and> rg_live (rl_entries l ! i) \<and>
      (\<exists>z. \<not> rg_live z \<and> rl_entries l' = (rl_entries l)[i := z])"
    by (auto simp: region_unregistered_def intro!: exI [of _ zero_vm_region])
  show "region_inv l'" using region_unregistered_inv [OF l i] l' by simp
qed

subsection \<open>Correctness of the region ledger\<close>

lemma region_query_eq:
  assumes "region_inv l" and "i < length (rl_entries l)" and "rg_live (rl_entries l ! i)"
    and "unat x \<in> region_span (rl_entries l ! i)"
  shows "find_index (\<lambda>r. vm_region_contains r x) (rl_entries l) = Some i"
proof (rule find_index_unique [OF assms(2)])
  have ok: "rg_live (rl_entries l ! j) \<Longrightarrow> region_ok (rl_entries l ! j)" if "j < length (rl_entries l)" for j
    using assms(1) that by (simp add: region_inv_iff)
  show "vm_region_contains (rl_entries l ! i) x"
    using vm_region_contains_iff [OF ok [OF assms(2)]] assms(3,4) by simp
  show "j = i" if j: "j < length (rl_entries l)" "vm_region_contains (rl_entries l ! j) x" for j
  proof -
    have "rg_live (rl_entries l ! j)" "unat x \<in> region_span (rl_entries l ! j)"
      using vm_region_contains_iff [OF ok [OF j(1)]] j(2) by auto
    with j(1) assms(2-4) show ?thesis
      using regions.owner_unique [OF assms(1), of j "rl_entries l ! j" i "rl_entries l ! i" "unat x"]
      by (simp add: regions.slots_def)
  qed
qed

lemma region_query_none:
  assumes "region_inv l" and "unat x \<notin> regions.footprint l"
  shows "find_index (\<lambda>r. vm_region_contains r x) (rl_entries l) = None"
  unfolding find_index_None_iff
proof (intro ballI notI)
  fix r assume r: "r \<in> set (rl_entries l)" "vm_region_contains r x"
  then have "rg_live r \<Longrightarrow> region_ok r" using assms(1) by (simp add: region_inv_iff)
  from vm_region_contains_iff [OF this] r(2) have live: "rg_live r" "unat x \<in> region_span r" by auto
  from r(1) obtain i where i: "i < length (rl_entries l)" "r = rl_entries l ! i" by (auto simp: in_set_conv_nth)
  then have "regions.slots l i = Some r" using live(1) by (simp add: regions.slots_def)
  then have "unat x \<in> regions.footprint l" using live(2) unfolding regions.footprint_def ran_def by blast
  with assms(2) show False ..
qed

text \<open>
  Registering a region succeeds exactly when its arguments are well formed, its range meets
  no live region and a slot is free. The region then has an identity that no live region has,
  a query of any address in it describes it, and unregistering it with that identity restores
  the table; as long as the identity counter has not reached its last value the ledger's
  invariant is kept.
\<close>

theorem vm_region_register_correct:
  assumes "region_inv l" and "rl_next_identity l \<noteq> UINT64_MAX"
  shows "case gxos_vm_region_register l b n ab ap st pr ty of (status, l', d) \<Rightarrow>
    region_inv l' \<and>
    (if registrable l b n ab st ty
     then status = GXOS_VM_STATUS_OK \<and> d \<noteq> 0 \<and>
       (\<forall>r \<in> set (rl_entries l). rg_live r \<longrightarrow> rg_allocation_identity r \<noteq> d) \<and>
       (\<forall>x. unat x \<in> bytes_from b n \<longrightarrow> gxos_vm_region_virtual_query l' x 48 =
          (48, Some \<lparr> bi_BaseAddress = b, bi_AllocationBase = ab, bi_AllocationProtect = ap,
                       bi_RegionSize = n, bi_State = st, bi_Protect = pr, bi_Type = ty \<rparr>)) \<and>
       (\<exists>l''. gxos_vm_region_unregister l' b n d = (GXOS_VM_STATUS_OK, l'') \<and>
          regions.slots l'' = regions.slots l)
     else status \<noteq> GXOS_VM_STATUS_OK \<and> d = 0 \<and> (\<exists>x. l' = l\<lparr>rl_exhausted := x\<rparr>))"
proof (cases "registrable l b n ab st ty")
  case False
  have "region_inv (l\<lparr>rl_exhausted := x\<rparr>)" for x
    using assms(1) by (simp add: region_inv_iff identities_ok_def)
  with region_register_fails [OF assms(1) False, of ap pr] False show ?thesis by auto
next
  case True
  then obtain i where i: "find_index (\<lambda>r. \<not> rg_live r) (rl_entries l) = Some i"
    using find_index_ex [where P = "\<lambda>r. \<not> rg_live r"] unfolding registrable_def by blast
  let ?r = "new_region l b n ab ap st pr ty"
  define l' where "l' = region_registered l i ?r"
  have op: "gxos_vm_region_register l b n ab ap st pr ty = (GXOS_VM_STATUS_OK, l', rl_next_identity l)"
    unfolding l'_def by (rule region_register_OK [OF assms(1) True i])
  have inv': "region_inv l'" unfolding l'_def by (rule region_registered_inv [OF assms(1) True assms(2) i])
  have at: "i < length (rl_entries l')" "rl_entries l' ! i = ?r"
    using find_index_SomeD [OF i] by (simp_all add: l'_def region_registered_def)
  have query: "gxos_vm_region_virtual_query l' x 48 =
      (48, Some \<lparr> bi_BaseAddress = b, bi_AllocationBase = ab, bi_AllocationProtect = ap,
                   bi_RegionSize = n, bi_State = st, bi_Protect = pr, bi_Type = ty \<rparr>)"
    if "unat x \<in> bytes_from b n" for x
    using region_query_eq [OF inv' at(1), of x] at(2) that
    by (simp add: gxos_vm_region_virtual_query_def Let_def)
  have un: "gxos_vm_region_unregister l' b n (rl_next_identity l) = (GXOS_VM_STATUS_OK, region_unregistered l' i)"
    using region_unregister_OK [OF inv' at(1)] at(2) by simp
  have "region_ins l ?r i l'" using op assms(2) i unfolding region_ins_def by blast
  moreover have "region_del l' i (region_unregistered l' i)" using un at by (simp add: region_del_def)
  ultimately have "regions.slots (region_unregistered l' i) = regions.slots l"
    by (rule regions.ins_del [OF assms(1)])
  moreover have "rl_next_identity l \<noteq> 0" "\<forall>r \<in> set (rl_entries l). rg_live r \<longrightarrow>
      rg_allocation_identity r \<noteq> rl_next_identity l"
    using assms(1) by (auto simp: region_inv_iff identities_ok_def)
  ultimately show ?thesis using True inv' query un unfolding op by simp
qed

theorem vm_region_register_correct_witness:
  "fst (gxos_vm_region_register gxos_vm_region_ledger_init 0x10000 0x2000 0x10000 4
     GXOS_VM_REGION_STATE_COMMIT 4 0x20000) = GXOS_VM_STATUS_OK"
proof -
  have "registrable gxos_vm_region_ledger_init 0x10000 0x2000 0x10000 GXOS_VM_REGION_STATE_COMMIT 0x20000"
    by (simp add: registrable_def region_args_bad_def gxos_vm_region_ledger_init_def range_end_def)
  moreover have "rl_next_identity gxos_vm_region_ledger_init \<noteq> UINT64_MAX"
    by (simp add: gxos_vm_region_ledger_init_def)
  ultimately show ?thesis
    using vm_region_register_correct [OF region_inv_init, where b = "0x10000" and n = "0x2000"
        and ab = "0x10000" and ap = 4 and st = GXOS_VM_REGION_STATE_COMMIT and pr = 4 and ty = "0x20000"]
    by (simp add: split_beta)
qed

text \<open>
  On a ledger that satisfies its invariant a query with room for the answer returns the description of the one live region that
  contains the address, and nothing when no region does; with too little room it returns
  nothing. Unregistering needs the base, the size and the identity of a live region, removes
  that region only and otherwise changes nothing.
\<close>

theorem vm_region_query_unregister_correct:
  assumes "region_inv l"
  shows "(\<forall>x len. if len < sizeof_MEMORY_BASIC_INFORMATION \<or> unat x \<notin> regions.footprint l
       then gxos_vm_region_virtual_query l x len = (0, None)
       else \<exists>i r. regions.slots l i = Some r \<and> unat x \<in> region_span r \<and>
         (\<forall>j s. regions.slots l j = Some s \<longrightarrow> unat x \<in> region_span s \<longrightarrow> j = i) \<and>
         gxos_vm_region_virtual_query l x len =
           (48, Some \<lparr> bi_BaseAddress = rg_base r, bi_AllocationBase = rg_allocation_base r,
                        bi_AllocationProtect = rg_allocation_protect r, bi_RegionSize = rg_bytes r,
                        bi_State = rg_state r, bi_Protect = rg_protect r, bi_Type = rg_type r \<rparr>)) \<and>
    (\<forall>b n d. case gxos_vm_region_unregister l b n d of (st, l') \<Rightarrow> region_inv l' \<and>
       (if \<exists>i r. regions.slots l i = Some r \<and> rg_base r = b \<and> rg_bytes r = n \<and> rg_allocation_identity r = d
        then st = GXOS_VM_STATUS_OK \<and> (\<exists>i. regions.slots l' = (regions.slots l)(i := None) \<and>
          regions.footprint l' = regions.footprint l - bytes_from b n)
        else st \<noteq> GXOS_VM_STATUS_OK \<and> l' = l))"
proof (intro conjI allI)
  fix x len :: u64
  show "if len < sizeof_MEMORY_BASIC_INFORMATION \<or> unat x \<notin> regions.footprint l
       then gxos_vm_region_virtual_query l x len = (0, None)
       else \<exists>i r. regions.slots l i = Some r \<and> unat x \<in> region_span r \<and>
         (\<forall>j s. regions.slots l j = Some s \<longrightarrow> unat x \<in> region_span s \<longrightarrow> j = i) \<and>
         gxos_vm_region_virtual_query l x len =
           (48, Some \<lparr> bi_BaseAddress = rg_base r, bi_AllocationBase = rg_allocation_base r,
                        bi_AllocationProtect = rg_allocation_protect r, bi_RegionSize = rg_bytes r,
                        bi_State = rg_state r, bi_Protect = rg_protect r, bi_Type = rg_type r \<rparr>)"
  proof (cases "unat x \<in> regions.footprint l")
    case False
    then show ?thesis
      using region_query_none [OF assms False] by (simp add: gxos_vm_region_virtual_query_def)
  next
    case True
    then obtain i r where r: "regions.slots l i = Some r" "unat x \<in> region_span r"
      unfolding regions.footprint_def ran_def by blast
    then have i: "i < length (rl_entries l)" "rg_live (rl_entries l ! i)" "r = rl_entries l ! i"
      by (auto simp: regions.slots_def split: if_splits)
    note find = region_query_eq [OF assms i(1,2) r(2) [unfolded i(3)]]
    have "\<forall>j s. regions.slots l j = Some s \<longrightarrow> unat x \<in> region_span s \<longrightarrow> j = i"
      using regions.owner_unique [OF assms _ r(1) _ r(2)] by blast
    moreover have "gxos_vm_region_virtual_query l x len =
           (48, Some \<lparr> bi_BaseAddress = rg_base r, bi_AllocationBase = rg_allocation_base r,
                        bi_AllocationProtect = rg_allocation_protect r, bi_RegionSize = rg_bytes r,
                        bi_State = rg_state r, bi_Protect = rg_protect r, bi_Type = rg_type r \<rparr>)"
      if "\<not> len < sizeof_MEMORY_BASIC_INFORMATION"
      using that find i(3) by (simp add: gxos_vm_region_virtual_query_def Let_def)
    moreover have "gxos_vm_region_virtual_query l x len = (0, None)" if "len < sizeof_MEMORY_BASIC_INFORMATION"
      using that by (simp add: gxos_vm_region_virtual_query_def)
    ultimately show ?thesis using True r
      by (cases "len < sizeof_MEMORY_BASIC_INFORMATION") (simp_all, blast)
  qed
next
  fix b n d :: u64
  let ?ex = "\<exists>i r. regions.slots l i = Some r \<and> rg_base r = b \<and> rg_bytes r = n \<and> rg_allocation_identity r = d"
  show "case gxos_vm_region_unregister l b n d of (st, l') \<Rightarrow> region_inv l' \<and>
       (if ?ex then st = GXOS_VM_STATUS_OK \<and> (\<exists>i. regions.slots l' = (regions.slots l)(i := None) \<and>
          regions.footprint l' = regions.footprint l - bytes_from b n)
        else st \<noteq> GXOS_VM_STATUS_OK \<and> l' = l)"
  proof (cases ?ex)
    case True
    then obtain i r where r: "regions.slots l i = Some r" "rg_base r = b" "rg_bytes r = n"
      "rg_allocation_identity r = d" by blast
    then have i: "i < length (rl_entries l)" "rg_live (rl_entries l ! i)" "rl_entries l ! i = r"
      by (auto simp: regions.slots_def split: if_splits)
    note op = region_unregister_OK [OF assms i(1,2), unfolded i(3) r]
    have del: "region_del l i (region_unregistered l i)" using op i r by (simp add: region_del_def)
    from True op region_unregistered_inv [OF assms i(1,2)] regions.slots_del [OF assms del]
      regions.footprint_del [OF assms del r(1)] r show ?thesis by auto
  next
    case False
    then have "\<not> (\<exists>i < length (rl_entries l). rg_live (rl_entries l ! i) \<and> rg_base (rl_entries l ! i) = b \<and>
        rg_bytes (rl_entries l ! i) = n \<and> rg_allocation_identity (rl_entries l ! i) = d)"
      by (auto simp: regions.slots_def split: if_splits)
    from region_unregister_fails [OF assms this] False assms show ?thesis by auto
  qed
qed

theorem vm_region_query_unregister_correct_witness:
  "gxos_vm_region_virtual_query gxos_vm_region_ledger_init 0x1000 48 = (0, None)"
proof -
  have "unat (0x1000 :: u64) \<notin> regions.footprint gxos_vm_region_ledger_init"
    by (auto simp: regions.footprint_def regions.slots_def ran_def gxos_vm_region_ledger_init_def
        split: if_splits)
  then show ?thesis
    using conjunct1 [OF vm_region_query_unregister_correct [OF region_inv_init], rule_format, of 48 "0x1000"]
    by simp
qed

end
