(* ===== verification/VM_Paging.thy ===== *)
theory VM_Paging
  imports VM_Arena
begin

text \<open>
  The x64 page tables of \<open>src/src/Gate4Harness/vm_substrate.c\<close> (\<open>gxos_vm_paging_*\<close>): the
  four-level walk, the audit of the firmware's identity map, and the owned root whose arena
  slot the loader maps page by page.

  The machine is explicit. \<open>mc_cells\<close> is the memory that table pointers reach, one 64-bit cell
  per address of a \<open>uint64_t\<close>; \<open>mc_cr0\<close>, \<open>mc_cr3\<close>, \<open>mc_cr4\<close> and \<open>mc_efer\<close> are the control
  registers the inline assembly reads and writes; \<open>mc_invlpg\<close> lists the addresses of the
  \<open>invlpg\<close> instructions executed, the last one first; \<open>mc_world\<close> is whatever state the page
  allocator's callbacks keep. A \<open>void *\<close> is the address it holds, 0 for null. The callbacks
  of \<open>GXOS_VM_PAGE_ALLOCATOR\<close> are functions on the machine, \<open>None\<close> when the pointer is null,
  with their context argument applied; a call the code does not guard is \<open>the\<close> of it.
  An allocation returns whether it succeeded and what the two out-parameters, which hold
  zero before the call, hold after it. The build is the x86-64 one, so the branches for
  other processors are left out.
\<close>

abbreviation (input) GXOS_X64_PAGING_ENTRY_PRESENT :: u64 where
  "GXOS_X64_PAGING_ENTRY_PRESENT \<equiv> 1"

abbreviation (input) GXOS_X64_PAGING_ENTRY_WRITABLE :: u64 where
  "GXOS_X64_PAGING_ENTRY_WRITABLE \<equiv> 2"

abbreviation (input) GXOS_X64_PAGING_ENTRY_PAGE_SIZE :: u64 where
  "GXOS_X64_PAGING_ENTRY_PAGE_SIZE \<equiv> 0x80"

abbreviation (input) GXOS_X64_PAGING_ENTRY_NO_EXECUTE :: u64 where
  "GXOS_X64_PAGING_ENTRY_NO_EXECUTE \<equiv> 0x8000000000000000"

abbreviation (input) GXOS_X64_PAGING_PHYSICAL_MASK :: u64 where
  "GXOS_X64_PAGING_PHYSICAL_MASK \<equiv> 0x000FFFFFFFFFF000"

abbreviation (input) GXOS_VM_MAX_OWNED_TABLE_PAGES :: nat where
  "GXOS_VM_MAX_OWNED_TABLE_PAGES \<equiv> 64"

record 'w machine =
  mc_cells :: "u64 \<Rightarrow> u64"
  mc_cr0 :: u64
  mc_cr3 :: u64
  mc_cr4 :: u64
  mc_efer :: u64
  mc_invlpg :: "u64 list"
  mc_world :: 'w

record 'w GXOS_VM_PAGE_ALLOCATOR =
  pa_allocate_page :: "('w machine \<Rightarrow> bool \<times> u64 \<times> u64 \<times> 'w machine) option"
  pa_free_page :: "('w machine \<Rightarrow> u64 \<Rightarrow> u64 \<Rightarrow> 'w machine) option"
  pa_physical_alias :: "('w machine \<Rightarrow> u64 \<Rightarrow> u64) option"

datatype GXOS_VM_PAGING_STATUS =
    GXOS_VM_PAGING_STATUS_OK
  | GXOS_VM_PAGING_STATUS_INVALID_ARGUMENT
  | GXOS_VM_PAGING_STATUS_NONCANONICAL
  | GXOS_VM_PAGING_STATUS_ALIGNMENT
  | GXOS_VM_PAGING_STATUS_OUTSIDE_ARENA
  | GXOS_VM_PAGING_STATUS_NOT_PRESENT
  | GXOS_VM_PAGING_STATUS_CONFLICT
  | GXOS_VM_PAGING_STATUS_LARGE_PAGE
  | GXOS_VM_PAGING_STATUS_ARENA_CONFLICT
  | GXOS_VM_PAGING_STATUS_ALLOCATION
  | GXOS_VM_PAGING_STATUS_INVALID_TABLE
  | GXOS_VM_PAGING_STATUS_OVERFLOW
  | GXOS_VM_PAGING_STATUS_CAPACITY

record GXOS_VM_MAPPING =
  mp_physical_base :: u64
  mp_page_size :: u64
  mp_entry_flags :: u64
  mp_level :: u32
  mp_present :: bool

record GXOS_X64_PAGING_AUDIT =
  au_cr0 :: u64
  au_cr3 :: u64
  au_cr4 :: u64
  au_efer :: u64
  au_pae_enabled :: bool
  au_la57_enabled :: bool
  au_nx_enabled :: bool
  au_page_4k_count :: u32
  au_page_2m_count :: u32
  au_page_1g_count :: u32
  au_direct_identity_bytes :: u64

text \<open>An owned table page is the pair of its physical base and its alias.\<close>

record 'w GXOS_VM_PAGING =
  vp_root_physical :: u64
  vp_root_alias :: u64
  vp_arena_base :: u64
  vp_arena_length :: u64
  vp_arena_pml4_index :: u32
  vp_nx_enabled :: bool
  vp_active :: bool
  vp_owned_table_page_count :: nat
  vp_previous_cr3 :: u64
  vp_owned_table_pages :: "(u64 \<times> u64) list"
  vp_table_allocator :: "'w GXOS_VM_PAGE_ALLOCATOR"

definition zero_mapping :: GXOS_VM_MAPPING where
  "zero_mapping = \<lparr> mp_physical_base = 0, mp_page_size = 0, mp_entry_flags = 0, mp_level = 0,
                    mp_present = False \<rparr>"

definition zero_audit :: GXOS_X64_PAGING_AUDIT where
  "zero_audit = \<lparr> au_cr0 = 0, au_cr3 = 0, au_cr4 = 0, au_efer = 0, au_pae_enabled = False,
     au_la57_enabled = False, au_nx_enabled = False, au_page_4k_count = 0, au_page_2m_count = 0,
     au_page_1g_count = 0, au_direct_identity_bytes = 0 \<rparr>"

definition zero_paging :: "'w GXOS_VM_PAGING" where
  "zero_paging = \<lparr> vp_root_physical = 0, vp_root_alias = 0, vp_arena_base = 0, vp_arena_length = 0,
     vp_arena_pml4_index = 0, vp_nx_enabled = False, vp_active = False,
     vp_owned_table_page_count = 0, vp_previous_cr3 = 0,
     vp_owned_table_pages = replicate GXOS_VM_MAX_OWNED_TABLE_PAGES (0, 0),
     vp_table_allocator = \<lparr> pa_allocate_page = None, pa_free_page = None,
                            pa_physical_alias = None \<rparr> \<rparr>"

subsection \<open>Memory\<close>

text \<open>\<open>table[index]\<close> as a value and as the target of an assignment, and \<open>zero_bytes\<close> of a page.\<close>

definition table_get :: "'w machine \<Rightarrow> u64 \<Rightarrow> u64 \<Rightarrow> u64" where
  "table_get m table index = mc_cells m (table + 8 * index)"

definition table_set :: "'w machine \<Rightarrow> u64 \<Rightarrow> u64 \<Rightarrow> u64 \<Rightarrow> 'w machine" where
  "table_set m table index v = m\<lparr> mc_cells := (mc_cells m)(table + 8 * index := v) \<rparr>"

definition zero_page :: "'w machine \<Rightarrow> u64 \<Rightarrow> 'w machine" where
  "zero_page m page = m\<lparr> mc_cells := (\<lambda>x. if x - page < GXOS_VM_PAGE_SIZE then 0 else mc_cells m x) \<rparr>"

subsection \<open>Addresses\<close>

definition canonical48 :: "u64 \<Rightarrow> bool" where
  "canonical48 address =
     (let upper = drop_bit 48 address; bit47 = drop_bit 47 address AND 1
      in (bit47 = 0 \<and> upper = 0) \<or> (bit47 \<noteq> 0 \<and> upper = 0xFFFF))"

definition pml4_index :: "u64 \<Rightarrow> u64" where
  "pml4_index address = drop_bit 39 address AND 0x1FF"

definition pdpt_index :: "u64 \<Rightarrow> u64" where
  "pdpt_index address = drop_bit 30 address AND 0x1FF"

definition pd_index :: "u64 \<Rightarrow> u64" where
  "pd_index address = drop_bit 21 address AND 0x1FF"

definition pt_index :: "u64 \<Rightarrow> u64" where
  "pt_index address = drop_bit 12 address AND 0x1FF"

definition entry_address :: "u64 \<Rightarrow> u64" where
  "entry_address entry = entry AND GXOS_X64_PAGING_PHYSICAL_MASK"

definition arena_contains_page :: "'w GXOS_VM_PAGING \<Rightarrow> u64 \<Rightarrow> bool" where
  "arena_contains_page paging virtual_page =
     (if vp_arena_length paging = 0 then False
      else case range_end (vp_arena_base paging) (vp_arena_length paging) of
        None \<Rightarrow> False
      | Some end' \<Rightarrow>
          if virtual_page mod GXOS_VM_PAGE_SIZE \<noteq> 0 then False
          else virtual_page \<ge> vp_arena_base paging \<and> virtual_page \<le> end' - GXOS_VM_PAGE_SIZE)"

definition table_alias ::
    "'w machine \<Rightarrow> u64 \<Rightarrow> ('w machine \<Rightarrow> u64 \<Rightarrow> u64) option \<Rightarrow> GXOS_VM_PAGING_STATUS + u64" where
  "table_alias m physical physical_alias =
     (case physical_alias of
        None \<Rightarrow> Inl GXOS_VM_PAGING_STATUS_INVALID_ARGUMENT
      | Some al \<Rightarrow>
          if al m physical = 0 then Inl GXOS_VM_PAGING_STATUS_INVALID_TABLE
          else Inr (al m physical))"

subsection \<open>Control registers\<close>

definition current_control_state :: "'w machine \<Rightarrow> u64 \<times> u64 \<times> u64 \<times> u64" where
  "current_control_state m = (mc_cr0 m, mc_cr3 m, mc_cr4 m, mc_efer m)"

definition invalidate_page :: "'w GXOS_VM_PAGING \<Rightarrow> 'w machine \<Rightarrow> u64 \<Rightarrow> 'w machine" where
  "invalidate_page paging m address =
     (if vp_active paging then m\<lparr> mc_invlpg := address # mc_invlpg m \<rparr> else m)"

subsection \<open>The table walk\<close>

text \<open>
  The mapping of a result whose status is not OK is the zeroed out-parameter; on the first
  branch the code leaves the out-parameter alone and no caller reads it.
\<close>

definition gxos_vm_paging_query_root ::
    "'w machine \<Rightarrow> u64 \<Rightarrow> u64 \<Rightarrow> ('w machine \<Rightarrow> u64 \<Rightarrow> u64) option \<Rightarrow>
     GXOS_VM_PAGING_STATUS \<times> GXOS_VM_MAPPING" where
  "gxos_vm_paging_query_root m root_physical virtual_address physical_alias =
     (if physical_alias = None \<or> root_physical = 0
      then (GXOS_VM_PAGING_STATUS_INVALID_ARGUMENT, zero_mapping)
      else if \<not> canonical48 virtual_address then (GXOS_VM_PAGING_STATUS_NONCANONICAL, zero_mapping)
      else case table_alias m (entry_address root_physical) physical_alias of
        Inl status \<Rightarrow> (status, zero_mapping)
      | Inr pml4 \<Rightarrow>
     (let entry = table_get m pml4 (pml4_index virtual_address) in
      if entry AND GXOS_X64_PAGING_ENTRY_PRESENT = 0
      then (GXOS_VM_PAGING_STATUS_NOT_PRESENT, zero_mapping)
      else case table_alias m (entry_address entry) physical_alias of
        Inl status \<Rightarrow> (status, zero_mapping)
      | Inr pdpt \<Rightarrow>
     (let entry = table_get m pdpt (pdpt_index virtual_address) in
      if entry AND GXOS_X64_PAGING_ENTRY_PRESENT = 0
      then (GXOS_VM_PAGING_STATUS_NOT_PRESENT, zero_mapping)
      else if entry AND GXOS_X64_PAGING_ENTRY_PAGE_SIZE \<noteq> 0
      then (GXOS_VM_PAGING_STATUS_OK,
            \<lparr> mp_physical_base = (entry_address entry AND NOT (0x40000000 - 1)) +
                                 (virtual_address AND (0x40000000 - 1)),
              mp_page_size = 0x40000000, mp_entry_flags = entry, mp_level = 3,
              mp_present = True \<rparr>)
      else case table_alias m (entry_address entry) physical_alias of
        Inl status \<Rightarrow> (status, zero_mapping)
      | Inr pd \<Rightarrow>
     (let entry = table_get m pd (pd_index virtual_address) in
      if entry AND GXOS_X64_PAGING_ENTRY_PRESENT = 0
      then (GXOS_VM_PAGING_STATUS_NOT_PRESENT, zero_mapping)
      else if entry AND GXOS_X64_PAGING_ENTRY_PAGE_SIZE \<noteq> 0
      then (GXOS_VM_PAGING_STATUS_OK,
            \<lparr> mp_physical_base = (entry_address entry AND NOT (0x200000 - 1)) +
                                 (virtual_address AND (0x200000 - 1)),
              mp_page_size = 0x200000, mp_entry_flags = entry, mp_level = 2,
              mp_present = True \<rparr>)
      else case table_alias m (entry_address entry) physical_alias of
        Inl status \<Rightarrow> (status, zero_mapping)
      | Inr pt \<Rightarrow>
     (let entry = table_get m pt (pt_index virtual_address) in
      if entry AND GXOS_X64_PAGING_ENTRY_PRESENT = 0
      then (GXOS_VM_PAGING_STATUS_NOT_PRESENT, zero_mapping)
      else (GXOS_VM_PAGING_STATUS_OK,
            \<lparr> mp_physical_base = entry_address entry +
                                 (virtual_address AND (GXOS_VM_PAGE_SIZE - 1)),
              mp_page_size = GXOS_VM_PAGE_SIZE, mp_entry_flags = entry, mp_level = 1,
              mp_present = True \<rparr>))))))"

lemma table_alias_not_OK [simp]: "table_alias m ph al \<noteq> Inl GXOS_VM_PAGING_STATUS_OK"
  by (simp add: table_alias_def split: option.splits)

lemma query_root_page_size:
  "gxos_vm_paging_query_root m root va al = (GXOS_VM_PAGING_STATUS_OK, mp) \<Longrightarrow>
     mp_page_size mp \<in> {0x1000, 0x200000, 0x40000000} \<and> mp_present mp"
  unfolding gxos_vm_paging_query_root_def Let_def
  by (auto split: if_splits sum.splits)

subsection \<open>The audit of the firmware's map\<close>

lemma audit_step:
  assumes "(GXOS_VM_PAGING_STATUS_OK, mp) = gxos_vm_paging_query_root m root va al"
    and "add_u64 a (mp_page_size mp) = Some a'"
  shows "unat a < unat a'"
proof -
  have "mp_page_size mp \<in> {0x1000, 0x200000, 0x40000000}"
    using query_root_page_size [OF assms(1) [symmetric]] ..
  then have "0 < unat (mp_page_size mp)" by auto
  with add_u64_unat [OF assms(2)] show ?thesis by simp
qed

function audit_loop ::
    "'w machine \<Rightarrow> ('w machine \<Rightarrow> u64 \<Rightarrow> u64) option \<Rightarrow> GXOS_X64_PAGING_AUDIT \<Rightarrow> u64 \<Rightarrow>
     GXOS_X64_PAGING_AUDIT" where
  "audit_loop m physical_alias audit address =
     (if \<not> address < 0x100000000 then audit
      else case gxos_vm_paging_query_root m (au_cr3 audit AND GXOS_X64_PAGING_PHYSICAL_MASK)
                  address physical_alias of
        (status, mapping) \<Rightarrow>
          if status \<noteq> GXOS_VM_PAGING_STATUS_OK \<or> \<not> mp_present mapping then audit
          else if mp_physical_base mapping \<noteq> (address AND NOT (mp_page_size mapping - 1)) then audit
          else
            let audit' = audit
                  \<lparr> au_direct_identity_bytes := au_direct_identity_bytes audit + mp_page_size mapping,
                    au_page_4k_count := (if mp_page_size mapping = GXOS_VM_PAGE_SIZE
                       then au_page_4k_count audit + 1 else au_page_4k_count audit),
                    au_page_2m_count := (if mp_page_size mapping = 0x200000
                       then au_page_2m_count audit + 1 else au_page_2m_count audit),
                    au_page_1g_count := (if mp_page_size mapping = 0x40000000
                       then au_page_1g_count audit + 1 else au_page_1g_count audit) \<rparr>
            in case add_u64 address (mp_page_size mapping) of
                 None \<Rightarrow> audit'
               | Some address' \<Rightarrow> audit_loop m physical_alias audit' address')"
  by pat_completeness auto
termination
  apply (relation "measure (\<lambda>(_, _, _, address). 2 ^ 64 - unat address)")
   apply simp
  using audit_step by (fastforce intro: diff_less_mono2)

declare audit_loop.simps [simp del]

definition gxos_vm_paging_audit_current ::
    "'w machine \<Rightarrow> GXOS_X64_PAGING_AUDIT \<Rightarrow> ('w machine \<Rightarrow> u64 \<Rightarrow> u64) option \<Rightarrow>
     GXOS_VM_PAGING_STATUS \<times> GXOS_X64_PAGING_AUDIT" where
  "gxos_vm_paging_audit_current m audit physical_alias =
     (if physical_alias = None then (GXOS_VM_PAGING_STATUS_INVALID_ARGUMENT, audit)
      else case current_control_state m of (cr0, cr3, cr4, efer) \<Rightarrow>
        let audit = zero_audit
              \<lparr> au_cr0 := cr0, au_cr3 := cr3, au_cr4 := cr4, au_efer := efer,
                au_pae_enabled := cr4 AND push_bit 5 1 \<noteq> 0,
                au_la57_enabled := cr4 AND push_bit 12 1 \<noteq> 0,
                au_nx_enabled := efer AND push_bit 11 1 \<noteq> 0 \<rparr>
        in (GXOS_VM_PAGING_STATUS_OK, audit_loop m physical_alias audit 0))"

subsection \<open>The owned root\<close>

text \<open>The loop that copies the 512 entries of the current root.\<close>

definition copy_root :: "'w machine \<Rightarrow> u64 \<Rightarrow> u64 \<Rightarrow> 'w machine" where
  "copy_root m root_alias current_root =
     fold (\<lambda>index m. table_set m root_alias (of_nat index) (table_get m current_root (of_nat index)))
       [0..<512] m"

definition gxos_vm_paging_create ::
    "'w GXOS_VM_PAGING \<Rightarrow> 'w machine \<Rightarrow> u64 \<Rightarrow> u64 \<Rightarrow> u64 \<Rightarrow> bool \<Rightarrow> 'w GXOS_VM_PAGE_ALLOCATOR \<Rightarrow>
     GXOS_VM_PAGING_STATUS \<times> 'w GXOS_VM_PAGING \<times> 'w machine" where
  "gxos_vm_paging_create paging m current_cr3 arena_base arena_length nx_enabled table_allocator =
     (if current_cr3 = 0 \<or> arena_length = 0 \<or> pa_allocate_page table_allocator = None \<or>
         pa_free_page table_allocator = None \<or> pa_physical_alias table_allocator = None \<or>
         \<not> canonical48 arena_base
      then (GXOS_VM_PAGING_STATUS_INVALID_ARGUMENT, paging, m)
      else case range_end arena_base arena_length of
        None \<Rightarrow> (GXOS_VM_PAGING_STATUS_INVALID_ARGUMENT, paging, m)
      | Some arena_end \<Rightarrow>
     (if pml4_index arena_base \<noteq> pml4_index (arena_end - 1)
      then (GXOS_VM_PAGING_STATUS_INVALID_ARGUMENT, paging, m)
      else case table_alias m (current_cr3 AND GXOS_X64_PAGING_PHYSICAL_MASK)
                  (pa_physical_alias table_allocator) of
        Inl _ \<Rightarrow> (GXOS_VM_PAGING_STATUS_INVALID_TABLE, zero_paging, m)
      | Inr current_root \<Rightarrow>
     (case the (pa_allocate_page table_allocator) m of
        (allocated, root_physical, root_alias, m) \<Rightarrow>
      if \<not> allocated then (GXOS_VM_PAGING_STATUS_ALLOCATION, zero_paging, m)
      else if root_physical = 0 \<or> root_alias = 0
      then (GXOS_VM_PAGING_STATUS_ALLOCATION, zero_paging,
            the (pa_free_page table_allocator) m root_physical root_alias)
      else let m = copy_root (zero_page m root_alias) root_alias current_root in
        if table_get m root_alias (pml4_index arena_base) AND GXOS_X64_PAGING_ENTRY_PRESENT \<noteq> 0
        then (GXOS_VM_PAGING_STATUS_ARENA_CONFLICT, zero_paging,
              the (pa_free_page table_allocator) m root_physical root_alias)
        else (GXOS_VM_PAGING_STATUS_OK,
              zero_paging
                \<lparr> vp_root_physical := root_physical, vp_root_alias := root_alias,
                  vp_arena_base := arena_base, vp_arena_length := arena_length,
                  vp_arena_pml4_index := ucast (pml4_index arena_base),
                  vp_nx_enabled := nx_enabled, vp_table_allocator := table_allocator,
                  vp_owned_table_page_count := 1,
                  vp_owned_table_pages := (vp_owned_table_pages (zero_paging :: 'w GXOS_VM_PAGING))
                    [0 := (root_physical, root_alias)] \<rparr>,
              m))))"

text \<open>The last components of the result are \<open>*old_cr3_out\<close> and \<open>*new_cr3_out\<close>.\<close>

definition gxos_vm_paging_switch_to_owned_root ::
    "'w GXOS_VM_PAGING \<Rightarrow> 'w machine \<Rightarrow>
     GXOS_VM_PAGING_STATUS \<times> 'w GXOS_VM_PAGING \<times> 'w machine \<times> (u64 \<times> u64) option" where
  "gxos_vm_paging_switch_to_owned_root paging m =
     (if vp_root_physical paging = 0 then (GXOS_VM_PAGING_STATUS_INVALID_ARGUMENT, paging, m, None)
      else (GXOS_VM_PAGING_STATUS_OK,
            paging\<lparr> vp_previous_cr3 := mc_cr3 m, vp_active := True \<rparr>,
            m\<lparr> mc_cr3 := vp_root_physical paging \<rparr>,
            Some (mc_cr3 m, vp_root_physical paging)))"

definition gxos_vm_paging_switch_to_previous_root ::
    "'w GXOS_VM_PAGING \<Rightarrow> 'w machine \<Rightarrow> GXOS_VM_PAGING_STATUS \<times> 'w GXOS_VM_PAGING \<times> 'w machine" where
  "gxos_vm_paging_switch_to_previous_root paging m =
     (if \<not> vp_active paging \<or> vp_previous_cr3 paging = 0
      then (GXOS_VM_PAGING_STATUS_INVALID_ARGUMENT, paging, m)
      else (GXOS_VM_PAGING_STATUS_OK, paging\<lparr> vp_active := False \<rparr>,
            m\<lparr> mc_cr3 := vp_previous_cr3 paging \<rparr>))"

definition gxos_vm_paging_destroy ::
    "'w GXOS_VM_PAGING \<Rightarrow> 'w machine \<Rightarrow> GXOS_VM_PAGING_STATUS \<times> 'w GXOS_VM_PAGING \<times> 'w machine" where
  "gxos_vm_paging_destroy paging m =
     (if vp_root_physical paging = 0 \<or> pa_free_page (vp_table_allocator paging) = None
      then (GXOS_VM_PAGING_STATUS_INVALID_ARGUMENT, paging, m)
      else case (if vp_active paging then gxos_vm_paging_switch_to_previous_root paging m
                 else (GXOS_VM_PAGING_STATUS_OK, paging, m)) of
        (status, paging, m) \<Rightarrow>
          if status \<noteq> GXOS_VM_PAGING_STATUS_OK
          then (GXOS_VM_PAGING_STATUS_INVALID_ARGUMENT, paging, m)
          else (GXOS_VM_PAGING_STATUS_OK, zero_paging,
                fold (\<lambda>(physical_base, alias) m.
                        the (pa_free_page (vp_table_allocator paging)) m physical_base alias)
                  (rev (take (vp_owned_table_page_count paging) (vp_owned_table_pages paging))) m))"

definition gxos_vm_paging_mark_active :: "'w GXOS_VM_PAGING \<Rightarrow> bool \<Rightarrow> 'w GXOS_VM_PAGING" where
  "gxos_vm_paging_mark_active paging active = paging\<lparr> vp_active := active \<rparr>"

definition gxos_vm_paging_query ::
    "'w GXOS_VM_PAGING \<Rightarrow> 'w machine \<Rightarrow> u64 \<Rightarrow> GXOS_VM_PAGING_STATUS \<times> GXOS_VM_MAPPING" where
  "gxos_vm_paging_query paging m virtual_address =
     (if vp_root_physical paging = 0 \<or> pa_physical_alias (vp_table_allocator paging) = None
      then (GXOS_VM_PAGING_STATUS_INVALID_ARGUMENT, zero_mapping)
      else gxos_vm_paging_query_root m (vp_root_physical paging) virtual_address
             (pa_physical_alias (vp_table_allocator paging)))"

subsection \<open>Mapping pages\<close>

definition allocate_table ::
    "'w GXOS_VM_PAGING \<Rightarrow> 'w machine \<Rightarrow> u64 \<Rightarrow> u64 \<Rightarrow>
     (GXOS_VM_PAGING_STATUS + u64) \<times> 'w GXOS_VM_PAGING \<times> 'w machine" where
  "allocate_table paging m parent index =
     (let al = vp_table_allocator paging; count = vp_owned_table_page_count paging in
      if table_get m parent index AND GXOS_X64_PAGING_ENTRY_PRESENT \<noteq> 0
      then if table_get m parent index AND GXOS_X64_PAGING_ENTRY_PAGE_SIZE \<noteq> 0
           then (Inl GXOS_VM_PAGING_STATUS_LARGE_PAGE, paging, m)
           else (table_alias m (entry_address (table_get m parent index)) (pa_physical_alias al),
                 paging, m)
      else if count \<ge> GXOS_VM_MAX_OWNED_TABLE_PAGES
      then (Inl GXOS_VM_PAGING_STATUS_CAPACITY, paging, m)
      else case the (pa_allocate_page al) m of (allocated, physical, alias, m) \<Rightarrow>
        if \<not> allocated then (Inl GXOS_VM_PAGING_STATUS_ALLOCATION, paging, m)
        else if physical = 0 \<or> alias = 0
        then (Inl GXOS_VM_PAGING_STATUS_ALLOCATION, paging, the (pa_free_page al) m physical alias)
        else
          let m = table_set (zero_page m alias) parent index
                    (physical OR GXOS_X64_PAGING_ENTRY_PRESENT OR GXOS_X64_PAGING_ENTRY_WRITABLE);
              paging = paging\<lparr> vp_owned_table_pages :=
                                 (vp_owned_table_pages paging)[count := (physical, alias)],
                               vp_owned_table_page_count := count + 1 \<rparr>
          in case table_alias m physical (pa_physical_alias al) of
               Inr child \<Rightarrow> (Inr child, paging, m)
             | Inl status \<Rightarrow>
                 (Inl status,
                  paging\<lparr> vp_owned_table_page_count := count,
                          vp_owned_table_pages := (vp_owned_table_pages paging)[count := (0, 0)] \<rparr>,
                  the (pa_free_page al) (table_set m parent index 0) physical alias))"

definition gxos_vm_paging_map_page ::
    "'w GXOS_VM_PAGING \<Rightarrow> 'w machine \<Rightarrow> u64 \<Rightarrow> u64 \<Rightarrow> bool \<Rightarrow> bool \<Rightarrow>
     GXOS_VM_PAGING_STATUS \<times> 'w GXOS_VM_PAGING \<times> 'w machine" where
  "gxos_vm_paging_map_page paging m virtual_page physical_page writable executable =
     (if physical_page = 0 \<or> \<not> canonical48 virtual_page
      then (if \<not> canonical48 virtual_page then GXOS_VM_PAGING_STATUS_NONCANONICAL
            else GXOS_VM_PAGING_STATUS_INVALID_ARGUMENT, paging, m)
      else if virtual_page mod GXOS_VM_PAGE_SIZE \<noteq> 0 \<or> physical_page mod GXOS_VM_PAGE_SIZE \<noteq> 0
      then (GXOS_VM_PAGING_STATUS_ALIGNMENT, paging, m)
      else if \<not> arena_contains_page paging virtual_page
      then (GXOS_VM_PAGING_STATUS_OUTSIDE_ARENA, paging, m)
      else if vp_root_alias paging = 0 then (GXOS_VM_PAGING_STATUS_INVALID_TABLE, paging, m)
      else case allocate_table paging m (vp_root_alias paging) (pml4_index virtual_page) of
        (Inl status, paging, m) \<Rightarrow> (status, paging, m)
      | (Inr pdpt, paging, m) \<Rightarrow>
     (case allocate_table paging m pdpt (pdpt_index virtual_page) of
        (Inl status, paging, m) \<Rightarrow> (status, paging, m)
      | (Inr pd, paging, m) \<Rightarrow>
     (case allocate_table paging m pd (pd_index virtual_page) of
        (Inl status, paging, m) \<Rightarrow> (status, paging, m)
      | (Inr pt, paging, m) \<Rightarrow>
     (if table_get m pt (pt_index virtual_page) AND GXOS_X64_PAGING_ENTRY_PRESENT \<noteq> 0
      then (GXOS_VM_PAGING_STATUS_CONFLICT, paging, m)
      else
        let flags = GXOS_X64_PAGING_ENTRY_PRESENT OR
                      (if writable then GXOS_X64_PAGING_ENTRY_WRITABLE else 0);
            flags = (if \<not> executable \<and> vp_nx_enabled paging
                     then flags OR GXOS_X64_PAGING_ENTRY_NO_EXECUTE else flags)
        in (GXOS_VM_PAGING_STATUS_OK, paging,
            invalidate_page paging
              (table_set m pt (pt_index virtual_page) (physical_page OR flags)) virtual_page)))))"

text \<open>The last component of the result is \<open>*physical_page_out\<close>.\<close>

definition gxos_vm_paging_unmap_page ::
    "'w GXOS_VM_PAGING \<Rightarrow> 'w machine \<Rightarrow> u64 \<Rightarrow> GXOS_VM_PAGING_STATUS \<times> 'w machine \<times> u64" where
  "gxos_vm_paging_unmap_page paging m virtual_page =
     (let al = pa_physical_alias (vp_table_allocator paging) in
      if \<not> canonical48 virtual_page then (GXOS_VM_PAGING_STATUS_NONCANONICAL, m, 0)
      else if virtual_page mod GXOS_VM_PAGE_SIZE \<noteq> 0 then (GXOS_VM_PAGING_STATUS_ALIGNMENT, m, 0)
      else if \<not> arena_contains_page paging virtual_page
      then (GXOS_VM_PAGING_STATUS_OUTSIDE_ARENA, m, 0)
      else if vp_root_alias paging = 0 then (GXOS_VM_PAGING_STATUS_INVALID_TABLE, m, 0)
      else let entry = table_get m (vp_root_alias paging) (pml4_index virtual_page) in
      if entry AND GXOS_X64_PAGING_ENTRY_PRESENT = 0
      then (GXOS_VM_PAGING_STATUS_NOT_PRESENT, m, 0)
      else case table_alias m (entry_address entry) al of
        Inl status \<Rightarrow> (status, m, 0)
      | Inr pdpt \<Rightarrow>
     (let entry = table_get m pdpt (pdpt_index virtual_page) in
      if entry AND GXOS_X64_PAGING_ENTRY_PRESENT = 0
      then (GXOS_VM_PAGING_STATUS_NOT_PRESENT, m, 0)
      else if entry AND GXOS_X64_PAGING_ENTRY_PAGE_SIZE \<noteq> 0
      then (GXOS_VM_PAGING_STATUS_LARGE_PAGE, m, 0)
      else case table_alias m (entry_address entry) al of
        Inl status \<Rightarrow> (status, m, 0)
      | Inr pd \<Rightarrow>
     (let entry = table_get m pd (pd_index virtual_page) in
      if entry AND GXOS_X64_PAGING_ENTRY_PRESENT = 0
      then (GXOS_VM_PAGING_STATUS_NOT_PRESENT, m, 0)
      else if entry AND GXOS_X64_PAGING_ENTRY_PAGE_SIZE \<noteq> 0
      then (GXOS_VM_PAGING_STATUS_LARGE_PAGE, m, 0)
      else case table_alias m (entry_address entry) al of
        Inl status \<Rightarrow> (status, m, 0)
      | Inr pt \<Rightarrow>
     (let entry = table_get m pt (pt_index virtual_page) in
      if entry AND GXOS_X64_PAGING_ENTRY_PRESENT = 0
      then (GXOS_VM_PAGING_STATUS_NOT_PRESENT, m, 0)
      else (GXOS_VM_PAGING_STATUS_OK,
            invalidate_page paging (table_set m pt (pt_index virtual_page) 0) virtual_page,
            entry_address entry)))))"

text \<open>
  \<open>map_range_loop\<close> has mapped the pages below \<open>index\<close> and still has to map \<open>left\<close> pages.
\<close>

fun map_range_loop ::
    "'w GXOS_VM_PAGING \<Rightarrow> 'w machine \<Rightarrow> u64 \<Rightarrow> u64 \<Rightarrow> bool \<Rightarrow> bool \<Rightarrow> nat \<Rightarrow> nat \<Rightarrow>
     GXOS_VM_PAGING_STATUS \<times> 'w GXOS_VM_PAGING \<times> 'w machine" where
  "map_range_loop paging m virtual_start physical_start writable executable index 0 =
     (GXOS_VM_PAGING_STATUS_OK, paging, m)"
| "map_range_loop paging m virtual_start physical_start writable executable index (Suc left) =
     (case gxos_vm_paging_map_page paging m (virtual_start + of_nat index * GXOS_VM_PAGE_SIZE)
             (physical_start + of_nat index * GXOS_VM_PAGE_SIZE) writable executable of
        (status, paging, m) \<Rightarrow>
          if status \<noteq> GXOS_VM_PAGING_STATUS_OK
          then (status, paging,
                fold (\<lambda>i m. fst (snd (gxos_vm_paging_unmap_page paging m
                                      (virtual_start + of_nat i * GXOS_VM_PAGE_SIZE))))
                  (rev [0..<index]) m)
          else map_range_loop paging m virtual_start physical_start writable executable
                 (Suc index) left)"

definition gxos_vm_paging_map_range ::
    "'w GXOS_VM_PAGING \<Rightarrow> 'w machine \<Rightarrow> u64 \<Rightarrow> u64 \<Rightarrow> u64 \<Rightarrow> bool \<Rightarrow> bool \<Rightarrow>
     GXOS_VM_PAGING_STATUS \<times> 'w GXOS_VM_PAGING \<times> 'w machine" where
  "gxos_vm_paging_map_range paging m virtual_start physical_start page_count writable executable =
     (if page_count = 0 \<or> unat page_count > GXOS_VM_MAX_COMMITMENTS \<or>
         virtual_start mod GXOS_VM_PAGE_SIZE \<noteq> 0 \<or> physical_start mod GXOS_VM_PAGE_SIZE \<noteq> 0 \<or>
         page_count > (UINT64_MAX - virtual_start) div GXOS_VM_PAGE_SIZE \<or>
         page_count > (UINT64_MAX - physical_start) div GXOS_VM_PAGE_SIZE
      then (GXOS_VM_PAGING_STATUS_INVALID_ARGUMENT, paging, m)
      else map_range_loop paging m virtual_start physical_start writable executable 0
             (unat page_count))"

end
