(* ===== verification/VM_Commit.thy ===== *)
theory VM_Commit
  imports VM_Paging
begin

text \<open>
  Committing a range of pages: \<open>gxos_vm_commit_range\<close> of
  \<open>src/src/Gate4Harness/vm_substrate.c\<close>. Each page of the range is allocated, mapped in the
  owned page tables and recorded in the arena; a failure undoes the pages made so far. The
  arena and the page tables that the operation record points to are passed and returned
  together with the machine (\<open>vm_state\<close>); the operation's allocator and generation are
  arguments. The global array of created pages, zeroed on entry, is the list \<open>created\<close> with
  the last page first.
\<close>

datatype GXOS_VM_COMMIT_OPERATION_STATUS =
    GXOS_VM_COMMIT_OPERATION_OK
  | GXOS_VM_COMMIT_OPERATION_INVALID_ARGUMENT
  | GXOS_VM_COMMIT_OPERATION_OVERFLOW
  | GXOS_VM_COMMIT_OPERATION_OUTSIDE_RESERVATION
  | GXOS_VM_COMMIT_OPERATION_ALLOCATION
  | GXOS_VM_COMMIT_OPERATION_MAPPING
  | GXOS_VM_COMMIT_OPERATION_BOOKKEEPING
  | GXOS_VM_COMMIT_OPERATION_INCONSISTENT
  | GXOS_VM_COMMIT_OPERATION_CAPACITY

record 'w vm_state =
  vs_arena :: GXOS_VM_ARENA
  vs_paging :: "'w GXOS_VM_PAGING"
  vs_machine :: "'w machine"

record GXOS_VM_CREATED_PAGE =
  cp_virtual_page :: u64
  cp_physical_page :: u64
  cp_alias :: u64

definition round_down_page :: "u64 \<Rightarrow> u64" where
  "round_down_page v = v AND NOT (GXOS_VM_PAGE_SIZE - 1)"

definition round_up_page :: "u64 \<Rightarrow> u64 option" where
  "round_up_page v =
     (if v > UINT64_MAX - (GXOS_VM_PAGE_SIZE - 1) then None
      else Some ((v + GXOS_VM_PAGE_SIZE - 1) AND NOT (GXOS_VM_PAGE_SIZE - 1)))"

text \<open>The operations on the parts of the state.\<close>

definition vs_free_page :: "'w GXOS_VM_PAGE_ALLOCATOR \<Rightarrow> 'w vm_state \<Rightarrow> u64 \<Rightarrow> u64 \<Rightarrow> 'w vm_state" where
  "vs_free_page al s physical alias =
     s\<lparr> vs_machine := the (pa_free_page al) (vs_machine s) physical alias \<rparr>"

definition vs_unmap_page :: "'w vm_state \<Rightarrow> u64 \<Rightarrow> GXOS_VM_PAGING_STATUS \<times> 'w vm_state \<times> u64" where
  "vs_unmap_page s page =
     (case gxos_vm_paging_unmap_page (vs_paging s) (vs_machine s) page of
        (status, m, physical) \<Rightarrow> (status, s\<lparr> vs_machine := m \<rparr>, physical))"

definition vs_map_page ::
    "'w vm_state \<Rightarrow> u64 \<Rightarrow> u64 \<Rightarrow> bool \<Rightarrow> bool \<Rightarrow> GXOS_VM_PAGING_STATUS \<times> 'w vm_state" where
  "vs_map_page s page physical writable executable =
     (case gxos_vm_paging_map_page (vs_paging s) (vs_machine s) page physical writable executable of
        (status, paging, m) \<Rightarrow> (status, s\<lparr> vs_paging := paging, vs_machine := m \<rparr>))"

definition vs_commit_page :: "'w vm_state \<Rightarrow> u64 \<Rightarrow> u64 \<Rightarrow> u64 \<Rightarrow> GXOS_VM_STATUS \<times> 'w vm_state" where
  "vs_commit_page s page physical generation =
     (case gxos_vm_arena_commit_page (vs_arena s) page physical generation of
        (status, arena, _) \<Rightarrow> (status, s\<lparr> vs_arena := arena \<rparr>))"

definition vs_decommit_page :: "'w vm_state \<Rightarrow> u64 \<Rightarrow> GXOS_VM_STATUS \<times> 'w vm_state" where
  "vs_decommit_page s page =
     (case gxos_vm_arena_decommit_page (vs_arena s) page of
        (status, arena, _) \<Rightarrow> (status, s\<lparr> vs_arena := arena \<rparr>))"

text \<open>The two rollback loops have the same body.\<close>

fun commit_rollback ::
    "'w GXOS_VM_PAGE_ALLOCATOR \<Rightarrow> 'w vm_state \<Rightarrow> GXOS_VM_CREATED_PAGE list \<Rightarrow> 'w vm_state" where
  "commit_rollback al s [] = s"
| "commit_rollback al s (c # created) =
     (let s = fst (snd (vs_unmap_page s (cp_virtual_page c)));
          s = snd (vs_decommit_page s (cp_virtual_page c));
          s = vs_free_page al s (cp_physical_page c) (cp_alias c)
      in commit_rollback al s created)"

text \<open>
  Whether the page table agrees with a commitment found for the page; if not the code goes
  to \<open>inconsistent\<close>.
\<close>

definition commitment_consistent :: "'w vm_state \<Rightarrow> nat \<Rightarrow> u64 \<Rightarrow> bool" where
  "commitment_consistent s existing_slot virtual_page =
     (let existing = va_commitments (vs_arena s) ! existing_slot in
      case gxos_vm_paging_query (vs_paging s) (vs_machine s) virtual_page of (status, mapping) \<Rightarrow>
        \<not> (vc_base existing \<noteq> virtual_page \<or> vc_physical_base existing = 0 \<or>
           status \<noteq> GXOS_VM_PAGING_STATUS_OK \<or> mp_page_size mapping \<noteq> GXOS_VM_PAGE_SIZE \<or>
           mp_physical_base mapping \<noteq> vc_physical_base existing))"

fun commit_loop ::
    "'w GXOS_VM_PAGE_ALLOCATOR \<Rightarrow> u64 \<Rightarrow> bool \<Rightarrow> bool \<Rightarrow> u64 \<Rightarrow> 'w vm_state \<Rightarrow>
     GXOS_VM_CREATED_PAGE list \<Rightarrow> nat \<Rightarrow> nat \<Rightarrow>
     GXOS_VM_COMMIT_OPERATION_STATUS \<times> 'w vm_state \<times> nat" where
  "commit_loop al generation writable executable start_page s created index 0 =
     (GXOS_VM_COMMIT_OPERATION_OK, s, length created)"
| "commit_loop al generation writable executable start_page s created index (Suc left) =
     (let virtual_page = start_page + of_nat index * GXOS_VM_PAGE_SIZE in
      case gxos_vm_arena_find_commitment (vs_arena s) virtual_page of
        (GXOS_VM_STATUS_OK, Some existing_slot) \<Rightarrow>
          if \<not> commitment_consistent s existing_slot virtual_page
          then (GXOS_VM_COMMIT_OPERATION_INCONSISTENT, commit_rollback al s created, 0)
          else commit_loop al generation writable executable start_page s created (Suc index) left
      | _ \<Rightarrow>
     (case the (pa_allocate_page al) (vs_machine s) of (allocated, physical_page, alias, m) \<Rightarrow>
      let s = s\<lparr> vs_machine := m \<rparr> in
      if \<not> allocated \<or> physical_page = 0 \<or> alias = 0
      then (GXOS_VM_COMMIT_OPERATION_ALLOCATION,
            commit_rollback al
              (if physical_page \<noteq> 0 \<or> alias \<noteq> 0 then vs_free_page al s physical_page alias else s)
              created, 0)
      else
     (case vs_map_page (s\<lparr> vs_machine := zero_page (vs_machine s) alias \<rparr>) virtual_page physical_page
             writable executable of (map_status, s) \<Rightarrow>
      if map_status \<noteq> GXOS_VM_PAGING_STATUS_OK
      then (GXOS_VM_COMMIT_OPERATION_ALLOCATION,
            commit_rollback al (vs_free_page al s physical_page alias) created, 0)
      else
     (case vs_commit_page s virtual_page physical_page generation of (status, s) \<Rightarrow>
      if status \<noteq> GXOS_VM_STATUS_OK
      then (GXOS_VM_COMMIT_OPERATION_ALLOCATION,
            commit_rollback al
              (vs_free_page al (fst (snd (vs_unmap_page s virtual_page))) physical_page alias)
              created, 0)
      else commit_loop al generation writable executable start_page s
             (\<lparr> cp_virtual_page = virtual_page, cp_physical_page = physical_page,
                cp_alias = alias \<rparr> # created) (Suc index) left))))"

text \<open>The last component of the result is \<open>*new_page_count_out\<close>.\<close>

definition gxos_vm_commit_range ::
    "'w GXOS_VM_PAGE_ALLOCATOR \<Rightarrow> u64 \<Rightarrow> 'w vm_state \<Rightarrow> nat \<Rightarrow> u64 \<Rightarrow> u64 \<Rightarrow> bool \<Rightarrow> bool \<Rightarrow>
     GXOS_VM_COMMIT_OPERATION_STATUS \<times> 'w vm_state \<times> nat" where
  "gxos_vm_commit_range al generation s reservation_slot requested_start requested_bytes
     writable executable =
     (if generation = 0 \<or> pa_allocate_page al = None \<or> pa_free_page al = None \<or>
         requested_bytes = 0 \<or> reservation_slot \<ge> GXOS_VM_MAX_RESERVATIONS
      then (GXOS_VM_COMMIT_OPERATION_INVALID_ARGUMENT, s, 0)
      else let reservation = va_reservations (vs_arena s) ! reservation_slot in
        if \<not> vr_live reservation then (GXOS_VM_COMMIT_OPERATION_OVERFLOW, s, 0)
        else case Option.bind (range_end requested_start requested_bytes) round_up_page of
          None \<Rightarrow> (GXOS_VM_COMMIT_OPERATION_OVERFLOW, s, 0)
        | Some end_page \<Rightarrow>
            let start_page = round_down_page requested_start in
            if end_page \<le> start_page \<or> range_end start_page (end_page - start_page) = None
            then (GXOS_VM_COMMIT_OPERATION_OUTSIDE_RESERVATION, s, 0)
            else case range_end (vr_base reservation) (vr_bytes reservation) of
              None \<Rightarrow> (GXOS_VM_COMMIT_OPERATION_OUTSIDE_RESERVATION, s, 0)
            | Some reservation_end \<Rightarrow>
                if start_page < vr_base reservation \<or> end_page > reservation_end
                then (GXOS_VM_COMMIT_OPERATION_OUTSIDE_RESERVATION, s, 0)
                else let page_count = (end_page - start_page) div GXOS_VM_PAGE_SIZE in
                  if page_count = 0 \<or> unat page_count > GXOS_VM_MAX_COMMITMENTS
                  then (GXOS_VM_COMMIT_OPERATION_CAPACITY, s, 0)
                  else commit_loop al generation writable executable start_page s [] 0
                         (unat page_count))"

end
