(* ===== verification/VM_Public.thy ===== *)
theory VM_Public
  imports VM_Commit
begin

text \<open>
  \<open>VirtualAlloc\<close> and \<open>VirtualFree\<close> as the payload sees them:
  \<open>src/src/Gate4Harness/virtual_memory.c\<close>. A context holds the arena, the page tables and
  the machine (\<open>pc_state\<close>), the allocator of data pages, the generation and the last-error
  cell, \<open>None\<close> when the context has no cell. An operation returns its status, the context
  and its out-parameters.
\<close>

abbreviation (input) GXOS_VM_PUBLIC_MEM_COMMIT :: u32 where "GXOS_VM_PUBLIC_MEM_COMMIT \<equiv> 0x1000"
abbreviation (input) GXOS_VM_PUBLIC_MEM_RESERVE :: u32 where "GXOS_VM_PUBLIC_MEM_RESERVE \<equiv> 0x2000"
abbreviation (input) GXOS_VM_PUBLIC_MEM_DECOMMIT :: u32 where "GXOS_VM_PUBLIC_MEM_DECOMMIT \<equiv> 0x4000"
abbreviation (input) GXOS_VM_PUBLIC_MEM_RELEASE :: u32 where "GXOS_VM_PUBLIC_MEM_RELEASE \<equiv> 0x8000"
abbreviation (input) GXOS_VM_PUBLIC_MEM_RESET :: u32 where "GXOS_VM_PUBLIC_MEM_RESET \<equiv> 0x80000"
abbreviation (input) GXOS_VM_PUBLIC_MEM_TOP_DOWN :: u32 where "GXOS_VM_PUBLIC_MEM_TOP_DOWN \<equiv> 0x100000"
abbreviation (input) GXOS_VM_PUBLIC_MEM_WRITE_WATCH :: u32 where
  "GXOS_VM_PUBLIC_MEM_WRITE_WATCH \<equiv> 0x200000"
abbreviation (input) GXOS_VM_PUBLIC_MEM_PHYSICAL :: u32 where "GXOS_VM_PUBLIC_MEM_PHYSICAL \<equiv> 0x400000"
abbreviation (input) GXOS_VM_PUBLIC_MEM_LARGE_PAGES :: u32 where
  "GXOS_VM_PUBLIC_MEM_LARGE_PAGES \<equiv> 0x20000000"
abbreviation (input) GXOS_VM_PUBLIC_PAGE_READWRITE :: u32 where "GXOS_VM_PUBLIC_PAGE_READWRITE \<equiv> 4"
abbreviation (input) GXOS_VM_PUBLIC_ERROR_INVALID_PARAMETER :: u32 where
  "GXOS_VM_PUBLIC_ERROR_INVALID_PARAMETER \<equiv> 87"
abbreviation (input) GXOS_VM_PUBLIC_ERROR_NOT_ENOUGH_MEMORY :: u32 where
  "GXOS_VM_PUBLIC_ERROR_NOT_ENOUGH_MEMORY \<equiv> 8"
abbreviation (input) GXOS_VM_PUBLIC_ERROR_NOT_SUPPORTED :: u32 where
  "GXOS_VM_PUBLIC_ERROR_NOT_SUPPORTED \<equiv> 50"
abbreviation (input) GXOS_MEMORY_ALLOCATION_VM_DATA :: u32 where "GXOS_MEMORY_ALLOCATION_VM_DATA \<equiv> 13"
abbreviation (input) GXOS_MEMORY_OWNER_NATIVEAOT :: u32 where "GXOS_MEMORY_OWNER_NATIVEAOT \<equiv> 1"

datatype GXOS_VM_PUBLIC_STATUS =
    GXOS_VM_PUBLIC_STATUS_OK
  | GXOS_VM_PUBLIC_STATUS_INVALID_ARGUMENT
  | GXOS_VM_PUBLIC_STATUS_UNSUPPORTED
  | GXOS_VM_PUBLIC_STATUS_CAPACITY
  | GXOS_VM_PUBLIC_STATUS_ALLOCATION
  | GXOS_VM_PUBLIC_STATUS_MAPPING
  | GXOS_VM_PUBLIC_STATUS_INCONSISTENT

record 'w GXOS_VM_PUBLIC_CONTEXT =
  pc_state :: "'w vm_state"
  pc_data_allocator :: "'w GXOS_VM_PAGE_ALLOCATOR"
  pc_generation :: u64
  pc_last_error :: "u32 option"

record GXOS_VM_PUBLIC_RESULT =
  pr_requested_bytes :: u64
  pr_rounded_bytes :: u64
  pr_effective_base :: u64
  pr_reservation_base :: u64
  pr_reservation_slot :: nat
  pr_new_page_count :: nat
  pr_existing_page_count :: nat
  pr_reserved :: bool
  pr_committed :: bool

definition zero_public_result :: GXOS_VM_PUBLIC_RESULT where
  "zero_public_result =
     \<lparr> pr_requested_bytes = 0, pr_rounded_bytes = 0, pr_effective_base = 0, pr_reservation_base = 0,
       pr_reservation_slot = 0, pr_new_page_count = 0, pr_existing_page_count = 0,
       pr_reserved = False, pr_committed = False \<rparr>"

abbreviation pc_arena :: "'w GXOS_VM_PUBLIC_CONTEXT \<Rightarrow> GXOS_VM_ARENA" where
  "pc_arena context \<equiv> vs_arena (pc_state context)"

subsection \<open>Checked arithmetic of this file\<close>

text \<open>Unlike its namesakes elsewhere, this file's \<open>range_end\<close> accepts an empty range.\<close>

definition public_range_end :: "u64 \<Rightarrow> u64 \<Rightarrow> u64 option" where
  "public_range_end base bytes = add_u64 base bytes"

definition public_range_contains :: "u64 \<Rightarrow> u64 \<Rightarrow> u64 \<Rightarrow> u64 \<Rightarrow> bool" where
  "public_range_contains outer_base outer_bytes inner_base inner_bytes =
     (case (public_range_end outer_base outer_bytes, public_range_end inner_base inner_bytes) of
        (Some outer_end, Some inner_end) \<Rightarrow> inner_base \<ge> outer_base \<and> inner_end \<le> outer_end
      | _ \<Rightarrow> False)"

definition page_round :: "u64 \<Rightarrow> u64 option" where
  "page_round v =
     (if v = 0 \<or> v > UINT64_MAX - (GXOS_VM_PAGE_SIZE - 1) then None
      else let rounded = (v + GXOS_VM_PAGE_SIZE - 1) AND NOT (GXOS_VM_PAGE_SIZE - 1)
        in if rounded \<noteq> 0 then Some rounded else None)"

definition page_down :: "u64 \<Rightarrow> u64" where
  "page_down v = v AND NOT (GXOS_VM_PAGE_SIZE - 1)"

definition canonical_address :: "u64 \<Rightarrow> bool" where
  "canonical_address address =
     (let high = drop_bit 48 address; sign = drop_bit 47 address AND 1
      in if sign \<noteq> 0 then high = 0xFFFF else high = 0)"

subsection \<open>Errors\<close>

definition set_error :: "'w GXOS_VM_PUBLIC_CONTEXT \<Rightarrow> u32 \<Rightarrow> 'w GXOS_VM_PUBLIC_CONTEXT" where
  "set_error context error = context\<lparr> pc_last_error := map_option (\<lambda>_. error) (pc_last_error context) \<rparr>"

definition invalid_argument ::
    "'w GXOS_VM_PUBLIC_CONTEXT \<Rightarrow> GXOS_VM_PUBLIC_STATUS \<times> 'w GXOS_VM_PUBLIC_CONTEXT" where
  "invalid_argument context =
     (GXOS_VM_PUBLIC_STATUS_INVALID_ARGUMENT, set_error context GXOS_VM_PUBLIC_ERROR_INVALID_PARAMETER)"

definition unsupported ::
    "'w GXOS_VM_PUBLIC_CONTEXT \<Rightarrow> GXOS_VM_PUBLIC_STATUS \<times> 'w GXOS_VM_PUBLIC_CONTEXT" where
  "unsupported context =
     (GXOS_VM_PUBLIC_STATUS_UNSUPPORTED, set_error context GXOS_VM_PUBLIC_ERROR_NOT_SUPPORTED)"

definition capacity_failure ::
    "'w GXOS_VM_PUBLIC_CONTEXT \<Rightarrow> GXOS_VM_PUBLIC_STATUS \<times> 'w GXOS_VM_PUBLIC_CONTEXT" where
  "capacity_failure context =
     (GXOS_VM_PUBLIC_STATUS_CAPACITY, set_error context GXOS_VM_PUBLIC_ERROR_NOT_ENOUGH_MEMORY)"

definition allocation_failure ::
    "'w GXOS_VM_PUBLIC_CONTEXT \<Rightarrow> GXOS_VM_PUBLIC_STATUS \<times> 'w GXOS_VM_PUBLIC_CONTEXT" where
  "allocation_failure context =
     (GXOS_VM_PUBLIC_STATUS_ALLOCATION, set_error context GXOS_VM_PUBLIC_ERROR_NOT_ENOUGH_MEMORY)"

definition inconsistent ::
    "'w GXOS_VM_PUBLIC_CONTEXT \<Rightarrow> GXOS_VM_PUBLIC_STATUS \<times> 'w GXOS_VM_PUBLIC_CONTEXT" where
  "inconsistent context =
     (GXOS_VM_PUBLIC_STATUS_INCONSISTENT, set_error context GXOS_VM_PUBLIC_ERROR_INVALID_PARAMETER)"

definition valid_context :: "'w GXOS_VM_PUBLIC_CONTEXT \<Rightarrow> bool" where
  "valid_context context \<longleftrightarrow>
     pc_generation context \<noteq> 0 \<and> va_valid (pc_arena context) \<and>
     pa_allocate_page (pc_data_allocator context) \<noteq> None \<and>
     pa_free_page (pc_data_allocator context) \<noteq> None \<and>
     pa_physical_alias (pc_data_allocator context) \<noteq> None"

fun map_reserve_status ::
    "'w GXOS_VM_PUBLIC_CONTEXT \<Rightarrow> GXOS_VM_STATUS \<Rightarrow> GXOS_VM_PUBLIC_STATUS \<times> 'w GXOS_VM_PUBLIC_CONTEXT" where
  "map_reserve_status context GXOS_VM_STATUS_OVERFLOW = invalid_argument context"
| "map_reserve_status context GXOS_VM_STATUS_CAPACITY = capacity_failure context"
| "map_reserve_status context GXOS_VM_STATUS_OUTSIDE_ARENA = capacity_failure context"
| "map_reserve_status context GXOS_VM_STATUS_OK = (GXOS_VM_PUBLIC_STATUS_OK, context)"
| "map_reserve_status context _ = invalid_argument context"

fun map_commit_status ::
    "'w GXOS_VM_PUBLIC_CONTEXT \<Rightarrow> GXOS_VM_COMMIT_OPERATION_STATUS \<Rightarrow>
     GXOS_VM_PUBLIC_STATUS \<times> 'w GXOS_VM_PUBLIC_CONTEXT" where
  "map_commit_status context GXOS_VM_COMMIT_OPERATION_OK = (GXOS_VM_PUBLIC_STATUS_OK, context)"
| "map_commit_status context GXOS_VM_COMMIT_OPERATION_OVERFLOW = invalid_argument context"
| "map_commit_status context GXOS_VM_COMMIT_OPERATION_OUTSIDE_RESERVATION = invalid_argument context"
| "map_commit_status context GXOS_VM_COMMIT_OPERATION_CAPACITY = allocation_failure context"
| "map_commit_status context GXOS_VM_COMMIT_OPERATION_ALLOCATION = allocation_failure context"
| "map_commit_status context GXOS_VM_COMMIT_OPERATION_MAPPING =
     (GXOS_VM_PUBLIC_STATUS_MAPPING, set_error context GXOS_VM_PUBLIC_ERROR_NOT_ENOUGH_MEMORY)"
| "map_commit_status context _ = inconsistent context"

subsection \<open>Committing\<close>

text \<open>
  The loop \<open>for (page = start; page < end; page += GXOS_VM_PAGE_SIZE)\<close>. Its caller passes
  page-aligned bounds, so the addition does not wrap.
\<close>

definition pages_between :: "u64 \<Rightarrow> u64 \<Rightarrow> u64 list" where
  "pages_between start end' =
     map (\<lambda>i. start + of_nat i * GXOS_VM_PAGE_SIZE)
       [0..<(unat end' - unat start + 4095) div 4096]"

fun count_existing_loop :: "GXOS_VM_ARENA \<Rightarrow> u64 list \<Rightarrow> nat \<Rightarrow> nat option" where
  "count_existing_loop arena [] count = Some count"
| "count_existing_loop arena (page # pages) count =
     (case gxos_vm_arena_find_commitment arena page of
        (GXOS_VM_STATUS_OK, Some slot) \<Rightarrow>
          if vc_base (va_commitments arena ! slot) \<noteq> page \<or>
             vc_bytes (va_commitments arena ! slot) \<noteq> GXOS_VM_PAGE_SIZE \<or> count = 2 ^ 32 - 1
          then None
          else count_existing_loop arena pages (count + 1)
      | _ \<Rightarrow> count_existing_loop arena pages count)"

text \<open>\<open>None\<close> is the code's \<open>UINT32_MAX\<close>.\<close>

definition count_existing_pages :: "GXOS_VM_ARENA \<Rightarrow> u64 \<Rightarrow> u64 \<Rightarrow> nat option" where
  "count_existing_pages arena start end' =
     (case count_existing_loop arena (pages_between start end') 0 of
        Some count \<Rightarrow> if count = 2 ^ 32 - 1 then None else Some count
      | None \<Rightarrow> None)"

definition commit_range ::
    "'w GXOS_VM_PUBLIC_CONTEXT \<Rightarrow> nat \<Rightarrow> u64 \<Rightarrow> u64 \<Rightarrow> GXOS_VM_PUBLIC_RESULT \<Rightarrow>
     (GXOS_VM_PUBLIC_STATUS \<times> 'w GXOS_VM_PUBLIC_CONTEXT) \<times> GXOS_VM_PUBLIC_RESULT" where
  "commit_range context reservation_slot requested_start requested_bytes result =
     (case Option.bind (public_range_end requested_start requested_bytes) page_round of
        None \<Rightarrow> (invalid_argument context, result)
      | Some end' \<Rightarrow>
          if requested_start = 0 then (invalid_argument context, result)
          else let start_page = page_down requested_start in
            if end' \<le> start_page \<or> public_range_end start_page (end' - start_page) = None \<or>
               \<not> gxos_vm_arena_contains (pc_arena context) start_page (end' - start_page) \<or>
               reservation_slot \<ge> GXOS_VM_MAX_RESERVATIONS \<or>
               \<not> vr_live (va_reservations (pc_arena context) ! reservation_slot) \<or>
               \<not> public_range_contains
                   (vr_base (va_reservations (pc_arena context) ! reservation_slot))
                   (vr_bytes (va_reservations (pc_arena context) ! reservation_slot))
                   start_page (end' - start_page)
            then (invalid_argument context, result)
            else case count_existing_pages (pc_arena context) start_page end' of
              None \<Rightarrow> (invalid_argument context, result)
            | Some existing_count \<Rightarrow>
                (case gxos_vm_commit_range (pc_data_allocator context) (pc_generation context)
                        (pc_state context) reservation_slot requested_start requested_bytes
                        True False of
                   (commit_status, state, new_count) \<Rightarrow>
                     (case map_commit_status (context\<lparr> pc_state := state \<rparr>) commit_status of
                        (public_status, context) \<Rightarrow>
                          if public_status \<noteq> GXOS_VM_PUBLIC_STATUS_OK
                          then ((public_status, context), result)
                          else ((GXOS_VM_PUBLIC_STATUS_OK, context),
                                result\<lparr> pr_rounded_bytes := end' - start_page,
                                        pr_effective_base := start_page,
                                        pr_reservation_base :=
                                          vr_base (va_reservations (pc_arena context) ! reservation_slot),
                                        pr_reservation_slot := reservation_slot,
                                        pr_new_page_count := new_count,
                                        pr_existing_page_count := existing_count,
                                        pr_committed := True \<rparr>))))"

subsection \<open>VirtualAlloc\<close>

text \<open>The cleanup when a combined reserve and commit fails to commit.\<close>

definition alloc_undo_slot ::
    "'w GXOS_VM_PAGE_ALLOCATOR \<Rightarrow> nat \<Rightarrow> nat \<Rightarrow> 'w vm_state \<Rightarrow> 'w vm_state" where
  "alloc_undo_slot al reservation_slot index s =
     (let commitment = va_commitments (vs_arena s) ! index in
      if vc_live commitment \<and> vc_reservation_slot commitment = reservation_slot
      then let page = vc_base commitment; physical = vc_physical_base commitment;
               alias = the (pa_physical_alias al) (vs_machine s) physical;
               s = fst (snd (vs_unmap_page s page));
               s = snd (vs_decommit_page s page)
           in vs_free_page al s physical alias
      else s)"

definition alloc_undo :: "'w GXOS_VM_PUBLIC_CONTEXT \<Rightarrow> nat \<Rightarrow> 'w GXOS_VM_PUBLIC_CONTEXT" where
  "alloc_undo context reservation_slot =
     context\<lparr> pc_state := fold (alloc_undo_slot (pc_data_allocator context) reservation_slot)
                            [0..<GXOS_VM_MAX_COMMITMENTS] (pc_state context) \<rparr>"

definition context_release ::
    "'w GXOS_VM_PUBLIC_CONTEXT \<Rightarrow> nat \<Rightarrow> GXOS_VM_STATUS \<times> 'w GXOS_VM_PUBLIC_CONTEXT" where
  "context_release context slot =
     (case gxos_vm_arena_release (pc_arena context) slot of
        (status, arena) \<Rightarrow> (status, context\<lparr> pc_state := (pc_state context)\<lparr> vs_arena := arena \<rparr> \<rparr>))"

definition context_reserve_any ::
    "'w GXOS_VM_PUBLIC_CONTEXT \<Rightarrow> u64 \<Rightarrow>
     (GXOS_VM_PUBLIC_STATUS \<times> 'w GXOS_VM_PUBLIC_CONTEXT) \<times> (u64 \<times> nat) option" where
  "context_reserve_any context bytes =
     (case gxos_vm_arena_reserve_any (pc_arena context) bytes GXOS_MEMORY_ALLOCATION_VM_DATA
             GXOS_MEMORY_OWNER_NATIVEAOT (pc_generation context) of
        (reserve_status, arena, out) \<Rightarrow>
          (map_reserve_status (context\<lparr> pc_state := (pc_state context)\<lparr> vs_arena := arena \<rparr> \<rparr>)
             reserve_status, out))"

definition alloc_unsupported_flags :: "u32 \<Rightarrow> bool" where
  "alloc_unsupported_flags allocation_type \<longleftrightarrow>
     allocation_type AND GXOS_VM_PUBLIC_MEM_WRITE_WATCH \<noteq> 0 \<or>
     allocation_type AND GXOS_VM_PUBLIC_MEM_RESET \<noteq> 0 \<or>
     allocation_type AND GXOS_VM_PUBLIC_MEM_LARGE_PAGES \<noteq> 0 \<or>
     allocation_type AND GXOS_VM_PUBLIC_MEM_PHYSICAL \<noteq> 0 \<or>
     allocation_type AND GXOS_VM_PUBLIC_MEM_TOP_DOWN \<noteq> 0"

text \<open>The last component of the result is \<open>*address_out\<close>.\<close>

definition gxos_vm_public_virtual_alloc ::
    "'w GXOS_VM_PUBLIC_CONTEXT \<Rightarrow> u64 \<Rightarrow> u64 \<Rightarrow> u32 \<Rightarrow> u32 \<Rightarrow>
     (GXOS_VM_PUBLIC_STATUS \<times> 'w GXOS_VM_PUBLIC_CONTEXT) \<times> GXOS_VM_PUBLIC_RESULT \<times> u64" where
  "gxos_vm_public_virtual_alloc context address bytes allocation_type protection =
     (if \<not> valid_context context \<or> bytes = 0 then (invalid_argument context, zero_public_result, 0)
      else let result = zero_public_result\<lparr> pr_requested_bytes := bytes \<rparr> in
      if protection \<noteq> GXOS_VM_PUBLIC_PAGE_READWRITE then (invalid_argument context, result, 0)
      else if alloc_unsupported_flags allocation_type then (unsupported context, result, 0)
      else if allocation_type AND NOT (GXOS_VM_PUBLIC_MEM_RESERVE OR GXOS_VM_PUBLIC_MEM_COMMIT) \<noteq> 0
      then (invalid_argument context, result, 0)
      else if page_round bytes = None then (invalid_argument context, result, 0)
      else if allocation_type = GXOS_VM_PUBLIC_MEM_RESERVE \<and> address = 0
      then case context_reserve_any context bytes of
             ((GXOS_VM_PUBLIC_STATUS_OK, context), Some (reservation_base, reservation_slot)) \<Rightarrow>
               ((GXOS_VM_PUBLIC_STATUS_OK, context),
                result\<lparr> pr_rounded_bytes := vr_bytes (va_reservations (pc_arena context) ! reservation_slot),
                        pr_effective_base := reservation_base,
                        pr_reservation_base := reservation_base,
                        pr_reservation_slot := reservation_slot, pr_reserved := True \<rparr>,
                reservation_base)
           | (failure, _) \<Rightarrow> (failure, result, 0)
      else if allocation_type = (GXOS_VM_PUBLIC_MEM_RESERVE OR GXOS_VM_PUBLIC_MEM_COMMIT) \<and> address = 0
      then case context_reserve_any context bytes of
             ((GXOS_VM_PUBLIC_STATUS_OK, context), Some (reservation_base, reservation_slot)) \<Rightarrow>
               (case commit_range context reservation_slot reservation_base bytes
                       (zero_public_result\<lparr> pr_requested_bytes := bytes, pr_reserved := True \<rparr>) of
                  ((GXOS_VM_PUBLIC_STATUS_OK, context), local_result) \<Rightarrow>
                    ((GXOS_VM_PUBLIC_STATUS_OK, context), local_result, reservation_base)
                | ((public_status, context), _) \<Rightarrow>
                    (case context_release (alloc_undo context reservation_slot) reservation_slot of
                       (release_status, context) \<Rightarrow>
                         if release_status \<noteq> GXOS_VM_STATUS_OK then (inconsistent context, result, 0)
                         else ((public_status, context), result, 0)))
           | (failure, _) \<Rightarrow> (failure, result, 0)
      else if allocation_type \<noteq> GXOS_VM_PUBLIC_MEM_COMMIT \<or> address = 0 \<or> \<not> canonical_address address
      then (invalid_argument context, result, 0)
      else case gxos_vm_arena_find_reservation (pc_arena context) address of
        None \<Rightarrow> (invalid_argument context, result, 0)
      | Some reservation_slot \<Rightarrow>
          (case commit_range context reservation_slot address bytes result of
             ((public_status, context), result) \<Rightarrow>
               if public_status \<noteq> GXOS_VM_PUBLIC_STATUS_OK then ((public_status, context), result, 0)
               else ((GXOS_VM_PUBLIC_STATUS_OK, context), result, pr_effective_base result)))"

subsection \<open>VirtualFree\<close>

text \<open>
  The first pass over the commitments checks that each commitment of the reservation is one
  mapped page and counts them; an \<open>Inl\<close> is the code's early return.
\<close>

fun free_check_loop ::
    "'w GXOS_VM_PUBLIC_CONTEXT \<Rightarrow> nat \<Rightarrow> GXOS_VM_COMMITMENT list \<Rightarrow> nat \<Rightarrow> u64 \<Rightarrow>
     (GXOS_VM_PUBLIC_STATUS \<times> 'w GXOS_VM_PUBLIC_CONTEXT) + nat \<times> u64" where
  "free_check_loop context reservation_slot [] committed_count committed_bytes =
     Inr (committed_count, committed_bytes)"
| "free_check_loop context reservation_slot (commitment # rest) committed_count committed_bytes =
     (if \<not> vc_live commitment \<or> vc_reservation_slot commitment \<noteq> reservation_slot
      then free_check_loop context reservation_slot rest committed_count committed_bytes
      else case gxos_vm_paging_query (vs_paging (pc_state context)) (vs_machine (pc_state context))
                  (vc_base commitment) of (status, mapping) \<Rightarrow>
        if vc_base commitment = 0 \<or> vc_bytes commitment \<noteq> GXOS_VM_PAGE_SIZE \<or>
           vc_physical_base commitment = 0 \<or> status \<noteq> GXOS_VM_PAGING_STATUS_OK \<or>
           \<not> mp_present mapping \<or> mp_page_size mapping \<noteq> GXOS_VM_PAGE_SIZE \<or>
           mp_physical_base mapping \<noteq> vc_physical_base commitment
        then Inl (inconsistent context)
        else if the (pa_physical_alias (pc_data_allocator context)) (vs_machine (pc_state context))
                  (vc_physical_base commitment) = 0
        then Inl (inconsistent context)
        else if committed_bytes > UINT64_MAX - vc_bytes commitment then Inl (invalid_argument context)
        else free_check_loop context reservation_slot rest (committed_count + 1)
               (committed_bytes + vc_bytes commitment))"

text \<open>The second pass releases the pages; \<open>None\<close> is its early return.\<close>

definition free_slot ::
    "'w GXOS_VM_PAGE_ALLOCATOR \<Rightarrow> nat \<Rightarrow> 'w vm_state \<Rightarrow> nat \<Rightarrow> bool \<times> 'w vm_state" where
  "free_slot al reservation_slot s index =
     (let commitment = va_commitments (vs_arena s) ! index in
      if \<not> vc_live commitment \<or> vc_reservation_slot commitment \<noteq> reservation_slot then (True, s)
      else let page = vc_base commitment; physical = vc_physical_base commitment;
               alias = the (pa_physical_alias al) (vs_machine s) physical in
        if alias = 0 then (False, s)
        else case vs_unmap_page s page of (status, s, unmapped) \<Rightarrow>
          if status \<noteq> GXOS_VM_PAGING_STATUS_OK \<or> unmapped \<noteq> physical then (False, s)
          else case vs_decommit_page s page of (status, s) \<Rightarrow>
            if status \<noteq> GXOS_VM_STATUS_OK then (False, s)
            else (True, vs_free_page al s physical alias))"

fun free_loop ::
    "'w GXOS_VM_PAGE_ALLOCATOR \<Rightarrow> nat \<Rightarrow> 'w vm_state \<Rightarrow> nat list \<Rightarrow> bool \<times> 'w vm_state" where
  "free_loop al reservation_slot s [] = (True, s)"
| "free_loop al reservation_slot s (index # rest) =
     (case free_slot al reservation_slot s index of
        (True, s) \<Rightarrow> free_loop al reservation_slot s rest
      | (False, s) \<Rightarrow> (False, s))"

text \<open>The last component of the result is \<open>*success_out\<close>.\<close>

definition gxos_vm_public_virtual_free ::
    "'w GXOS_VM_PUBLIC_CONTEXT \<Rightarrow> u64 \<Rightarrow> u64 \<Rightarrow> u32 \<Rightarrow>
     (GXOS_VM_PUBLIC_STATUS \<times> 'w GXOS_VM_PUBLIC_CONTEXT) \<times> GXOS_VM_PUBLIC_RESULT \<times> bool" where
  "gxos_vm_public_virtual_free context address bytes free_type =
     (if \<not> valid_context context \<or> address = 0 \<or> bytes \<noteq> 0 \<or> \<not> canonical_address address
      then (invalid_argument context, zero_public_result, False)
      else if free_type = GXOS_VM_PUBLIC_MEM_DECOMMIT \<or> free_type AND GXOS_VM_PUBLIC_MEM_DECOMMIT \<noteq> 0
      then (unsupported context, zero_public_result, False)
      else if free_type \<noteq> GXOS_VM_PUBLIC_MEM_RELEASE
      then (invalid_argument context, zero_public_result, False)
      else case gxos_vm_arena_find_reservation (pc_arena context) address of
        None \<Rightarrow> (invalid_argument context, zero_public_result, False)
      | Some reservation_slot \<Rightarrow>
     (if vr_base (va_reservations (pc_arena context) ! reservation_slot) \<noteq> address
      then (invalid_argument context, zero_public_result, False)
      else case free_check_loop context reservation_slot (va_commitments (pc_arena context)) 0 0 of
        Inl failure \<Rightarrow> (failure, zero_public_result, False)
      | Inr (committed_count, committed_bytes) \<Rightarrow>
     (case free_loop (pc_data_allocator context) reservation_slot (pc_state context)
             [0..<GXOS_VM_MAX_COMMITMENTS] of (freed, state) \<Rightarrow>
      let context = context\<lparr> pc_state := state \<rparr> in
      if \<not> freed then (inconsistent context, zero_public_result, False)
      else case context_release context reservation_slot of (release_status, context) \<Rightarrow>
        if release_status \<noteq> GXOS_VM_STATUS_OK
        then (inconsistent context, zero_public_result, False)
        else ((GXOS_VM_PUBLIC_STATUS_OK, context),
              zero_public_result
                \<lparr> pr_effective_base := address, pr_reservation_base := address,
                  pr_reservation_slot := reservation_slot,
                  pr_existing_page_count := committed_count, pr_rounded_bytes := committed_bytes,
                  pr_reserved := True, pr_committed := committed_count \<noteq> 0 \<rparr>,
              True))))"

end
