(* ===== verification/VM_Paging_Tree.thy ===== *)
theory VM_Paging_Tree
  imports VM_Paging
begin

text \<open>
  The owned page tables as a tree. \<open>paging_tree\<close> says that the owned table pages form a tree
  of depth at most three below the root, in which the entry at index \<open>i\<close> of the table with
  path \<open>p\<close> is absent or points to the table with path \<open>p @ [i]\<close>; on such a tree the walk of the
  code is \<open>probe\<close>, and an entry written in one table is seen by the addresses of one page only.
\<close>

subsection \<open>Indices and cells\<close>

lemma mask9: "(0x1FF :: u64) = mask 9"
  by (simp add: mask_eq_exp_minus_1)

lemma physical_mask: "GXOS_X64_PAGING_PHYSICAL_MASK = mask 52 AND NOT (mask 12 :: u64)"
  by (simp add: mask_eq_exp_minus_1)

lemma entry_address_aligned: "entry_address e AND NOT (mask 12) = entry_address e"
  unfolding entry_address_def physical_mask by (rule bit_word_eqI) (auto simp: bit_simps)

lemma unat_index: "unat (drop_bit k (a :: u64) AND 0x1FF) = unat a div 2 ^ k mod 512"
proof -
  have "unat (take_bit 9 (drop_bit k a)) = take_bit 9 (drop_bit k (unat a))"
    by (simp add: unsigned_take_bit_eq unsigned_drop_bit_eq take_bit_nat_eq_self)
  then show ?thesis unfolding mask9 take_bit_eq_mask [symmetric]
    by (simp add: take_bit_eq_mod [of 9 "unat a div 2 ^ k"] drop_bit_eq_div [of k "unat a"])
qed

lemmas unat_indices =
  unat_index [of 39, folded pml4_index_def] unat_index [of 30, folded pdpt_index_def]
  unat_index [of 21, folded pd_index_def] unat_index [of 12, folded pt_index_def]

lemma index_lt [simp]:
  "pml4_index a < 0x200" "pdpt_index a < 0x200" "pd_index a < 0x200" "pt_index a < 0x200"
  by (simp_all add: word_less_nat_alt unat_indices)

text \<open>A page-aligned table and an index below 512 determine the address of a cell.\<close>

definition page_aligned :: "u64 \<Rightarrow> bool" where
  "page_aligned a \<longleftrightarrow> unat a mod 4096 = 0"

lemma page_aligned_iff: "a mod GXOS_VM_PAGE_SIZE = 0 \<longleftrightarrow> page_aligned a"
  by (simp add: page_aligned_def unat_eq_iff [of "a mod 0x1000"] unat_mod_u64)

lemma page_alignedE:
  assumes "page_aligned a"
  obtains k where "unat a = 4096 * k" "k < 2 ^ 52"
proof
  show "unat a = 4096 * (unat a div 4096)"
    using assms by (simp add: page_aligned_def minus_mod_eq_mult_div [symmetric])
  show "unat a div 4096 < 2 ^ 52" using less_mult_imp_div_less [of "unat a" "2 ^ 52" 4096] by simp
qed

lemma cell_div: "i < (0x200 :: u64) \<Longrightarrow> (4096 * k + 8 * unat i) div 4096 = k"
  by (simp add: word_less_nat_alt)

lemma unat_cell:
  assumes "page_aligned t" and "i < 0x200"
  shows "unat (t + 8 * i) = unat t + 8 * unat i"
proof -
  have i: "unat i < 512" using assms(2) by (simp add: word_less_nat_alt)
  then have i8: "unat (8 * i) = 8 * unat i" by (simp add: unat_word_ariths)
  from assms(1) obtain k where "unat t = 4096 * k" "k < 2 ^ 52" by (rule page_alignedE)
  with i i8 show ?thesis by (subst unat_add_fits) auto
qed

lemma cell_div_page:
  assumes "page_aligned t" and "i < 0x200"
  shows "unat (t + 8 * i) div 4096 = unat t div 4096"
proof -
  from assms(1) obtain k where "unat t = 4096 * k" by (rule page_alignedE)
  then show ?thesis using cell_div [OF assms(2)] by (simp add: unat_cell [OF assms])
qed

lemma page_aligned_eq_iff:
  "page_aligned s \<Longrightarrow> page_aligned t \<Longrightarrow> s = t \<longleftrightarrow> unat s div 4096 = unat t div 4096"
  by (elim page_alignedE) (simp add: unat_eq_iff)

lemma cell_eq_iff:
  assumes "page_aligned t" "page_aligned t'" "i < 0x200" "i' < 0x200"
  shows "t + 8 * i = t' + 8 * i' \<longleftrightarrow> t = t' \<and> i = i'"
proof
  assume eq: "t + 8 * i = t' + 8 * i'"
  then have "t = t'"
    using cell_div_page [OF assms(1,3)] cell_div_page [OF assms(2,4)]
      page_aligned_eq_iff [OF assms(1,2)] by simp
  moreover from eq have "unat t + 8 * unat i = unat t' + 8 * unat i'"
    using unat_cell [OF assms(1,3)] unat_cell [OF assms(2,4)] by simp
  ultimately show "t = t' \<and> i = i'" by (simp add: unat_eq_iff [of i])
qed simp

lemma in_page_iff:
  assumes "page_aligned p"
  shows "x - p < 0x1000 \<longleftrightarrow> unat x div 4096 = unat p div 4096"
proof -
  obtain k where k: "unat p = 4096 * k" "k < 2 ^ 52" using assms by (rule page_alignedE)
  show ?thesis
  proof (cases "p \<le> x")
    case True
    then have "4096 * k \<le> unat x" using k by (simp add: word_le_nat_alt)
    then have "unat x - 4096 * k < 4096 \<longleftrightarrow> unat x div 4096 = k" by linarith
    with True k show ?thesis by (simp add: word_less_nat_alt unat_sub_le)
  next
    case False
    then have lt: "unat x < 4096 * k" using k by (simp add: word_le_nat_alt)
    have "unat (x - p) = 2 ^ 64 + unat x - 4096 * k"
      using lt k by (simp add: unat_sub_if')
    with k(2) have "\<not> x - p < 0x1000" by (simp add: word_less_nat_alt)
    moreover from lt have "unat x div 4096 < k" by linarith
    ultimately show ?thesis using k by simp
  qed
qed

lemma cell_in_page_iff:
  assumes "page_aligned t" "page_aligned p" "i < 0x200"
  shows "t + 8 * i - p < 0x1000 \<longleftrightarrow> t = p"
  using in_page_iff [OF assms(2)] cell_div_page [OF assms(1,3)] page_aligned_eq_iff [OF assms(1,2)]
  by simp

lemma table_get_set:
  assumes "page_aligned t" "page_aligned t'" "i < 0x200" "i' < 0x200"
  shows "table_get (table_set m t i v) t' i' = (if t' = t \<and> i' = i then v else table_get m t' i')"
  using cell_eq_iff [OF assms(2,1,4,3)] by (auto simp: table_get_def table_set_def)

lemma table_get_zero_page:
  assumes "page_aligned t" "page_aligned p" "i < 0x200"
  shows "table_get (zero_page m p) t i = (if t = p then 0 else table_get m t i)"
  using cell_in_page_iff [OF assms] by (auto simp: table_get_def zero_page_def)

subsection \<open>Virtual pages\<close>

definition vpath :: "u64 \<Rightarrow> u64 list" where
  "vpath v = [pml4_index v, pdpt_index v, pd_index v, pt_index v]"

lemma four_digits:
  "(x :: nat) mod 2 ^ 36 = x mod 512 + 512 * (x div 512 mod 512) +
     2 ^ 18 * (x div 2 ^ 18 mod 512) + 2 ^ 27 * (x div 2 ^ 27 mod 512)"
proof -
  have "x mod (2 ^ 27 * 512) = 2 ^ 27 * (x div 2 ^ 27 mod 512) + x mod 2 ^ 27" by (rule mod_mult2_eq)
  moreover have "x mod (2 ^ 18 * 512) = 2 ^ 18 * (x div 2 ^ 18 mod 512) + x mod 2 ^ 18" by (rule mod_mult2_eq)
  moreover have "x mod (512 * 512) = 512 * (x div 512 mod 512) + x mod 512" by (rule mod_mult2_eq)
  ultimately show ?thesis by simp
qed

lemma canonical48_nat:
  "canonical48 v \<longleftrightarrow>
     (if unat v div 2 ^ 47 mod 2 = 0 then unat v div 2 ^ 48 = 0 else unat v div 2 ^ 48 = 0xFFFF)"
proof -
  have "unat (drop_bit 47 v AND 1) = unat v div 2 ^ 47 mod 2"
    by (simp add: and_one_eq unat_mod_distrib unsigned_drop_bit_eq drop_bit_eq_div take_bit_nat_eq_self
        unat_div_distrib)
  moreover have "unat (drop_bit 48 v) = unat v div 2 ^ 48"
    by (simp add: unsigned_drop_bit_eq drop_bit_eq_div take_bit_nat_eq_self unat_div_distrib)
  ultimately show ?thesis
    by (simp add: canonical48_def Let_def unat_eq_iff [of "drop_bit 47 v AND 1"]
        unat_eq_iff [of "drop_bit 48 v"])
qed

lemma canonical48_page:
  assumes "canonical48 v" and "x = unat v div 4096"
  shows "x div 2 ^ 36 = (if x mod 2 ^ 36 div 2 ^ 35 = 0 then 0 else 0xFFFF)"
proof -
  have "unat v div 2 ^ 47 = x div 2 ^ 35" "unat v div 2 ^ 48 = x div 2 ^ 36"
    unfolding assms(2) by (simp_all flip: div_mult2_eq)
  moreover have "x mod 2 ^ 36 div 2 ^ 35 = x div 2 ^ 35 mod 2"
    using mod_mult2_eq [of x "2 ^ 35" 2] by simp
  ultimately show ?thesis using assms(1) by (simp add: canonical48_nat split: if_splits)
qed

lemma vpath_page: "unat v div 4096 = unat w div 4096 \<Longrightarrow> vpath v = vpath w"
proof -
  assume eq: "unat v div 4096 = unat w div 4096"
  have "unat v div 2 ^ (12 + k) = unat w div 2 ^ (12 + k)" for k
    using eq by (simp add: power_add div_mult2_eq)
  from this [of 27] this [of 18] this [of 9] this [of 0] show ?thesis
    by (simp add: vpath_def unat_eq_iff unat_indices)
qed

text \<open>The four indices of a canonical address determine its page.\<close>

lemma vpath_eq_iff:
  assumes "canonical48 v" and "canonical48 w"
  shows "vpath v = vpath w \<longleftrightarrow> unat v div 4096 = unat w div 4096"
proof
  assume eq: "vpath v = vpath w"
  define x y where "x = unat v div 4096" and "y = unat w div 4096"
  have sh: "unat u div 2 ^ 21 = unat u div 4096 div 512" "unat u div 2 ^ 30 = unat u div 4096 div 2 ^ 18"
    "unat u div 2 ^ 39 = unat u div 4096 div 2 ^ 27" for u :: u64
    by (simp_all flip: div_mult2_eq)
  from eq have "x mod 2 ^ 36 = y mod 2 ^ 36"
    unfolding four_digits x_def y_def
    by (simp only: vpath_def list.inject unat_eq_iff unat_indices sh) simp
  moreover from this have "x div 2 ^ 36 = y div 2 ^ 36"
    using canonical48_page [OF assms(1) x_def] canonical48_page [OF assms(2) y_def] by simp
  ultimately have "x = y" by (metis div_mult_mod_eq)
  then show "unat v div 4096 = unat w div 4096" by (simp add: x_def y_def)
qed (rule vpath_page)

subsection \<open>The tree of owned tables\<close>

abbreviation entry_present :: "u64 \<Rightarrow> bool" where
  "entry_present e \<equiv> e AND GXOS_X64_PAGING_ENTRY_PRESENT \<noteq> 0"

fun probe :: "(u64 \<Rightarrow> u64) \<Rightarrow> 'w machine \<Rightarrow> u64 \<Rightarrow> u64 list \<Rightarrow> u64 option" where
  "probe g m t [] = None"
| "probe g m t [i] = (if entry_present (table_get m t i) then Some (table_get m t i) else None)"
| "probe g m t (i # j # ks) =
     (if entry_present (table_get m t i) then probe g m (g (entry_address (table_get m t i))) (j # ks)
      else None)"

abbreviation tab :: "'w GXOS_VM_PAGING \<Rightarrow> nat \<Rightarrow> u64" where
  "tab p k \<equiv> snd (vp_owned_table_pages p ! k)"

definition owned_ok :: "(u64 \<Rightarrow> u64) \<Rightarrow> u64 \<times> u64 \<Rightarrow> bool" where
  "owned_ok g e \<longleftrightarrow> fst e \<noteq> 0 \<and> snd e \<noteq> 0 \<and> page_aligned (snd e) \<and>
     entry_address (fst e) = fst e \<and> g (fst e) = snd e"

definition entry_ok ::
    "'w GXOS_VM_PAGING \<Rightarrow> 'w machine \<Rightarrow> (nat \<Rightarrow> u64 list) \<Rightarrow> nat \<Rightarrow> u64 \<Rightarrow> bool" where
  "entry_ok p m path k i \<longleftrightarrow>
     (length (path k) < 3 \<and> (k = 0 \<longrightarrow> i = ucast (vp_arena_pml4_index p)) \<and>
      entry_present (table_get m (tab p k) i) \<longrightarrow>
        table_get m (tab p k) i AND GXOS_X64_PAGING_ENTRY_PAGE_SIZE = 0 \<and>
        (\<exists>k' < vp_owned_table_page_count p. path k' = path k @ [i] \<and>
           entry_address (table_get m (tab p k) i) = fst (vp_owned_table_pages p ! k')))"

text \<open>Every table but the root is referenced by the table whose path its own extends.\<close>

definition linked :: "'w GXOS_VM_PAGING \<Rightarrow> 'w machine \<Rightarrow> (nat \<Rightarrow> u64 list) \<Rightarrow> nat \<Rightarrow> bool" where
  "linked p m path k \<longleftrightarrow> (\<exists>j < vp_owned_table_page_count p. \<exists>i < 0x200. path k = path j @ [i] \<and>
     (j = 0 \<longrightarrow> i = ucast (vp_arena_pml4_index p)) \<and> entry_present (table_get m (tab p j) i))"

definition paging_tree ::
    "(u64 \<Rightarrow> u64) \<Rightarrow> 'w GXOS_VM_PAGING \<Rightarrow> 'w machine \<Rightarrow> (nat \<Rightarrow> u64 list) \<Rightarrow> bool" where
  "paging_tree g p m path \<longleftrightarrow>
     length (vp_owned_table_pages p) = GXOS_VM_MAX_OWNED_TABLE_PAGES \<and>
     0 < vp_owned_table_page_count p \<and>
     vp_owned_table_page_count p \<le> GXOS_VM_MAX_OWNED_TABLE_PAGES \<and>
     vp_owned_table_pages p ! 0 = (vp_root_physical p, vp_root_alias p) \<and>
     (\<forall>k < vp_owned_table_page_count p. owned_ok g (vp_owned_table_pages p ! k)) \<and>
     inj_on (tab p) {..<vp_owned_table_page_count p} \<and>
     path 0 = [] \<and> inj_on path {..<vp_owned_table_page_count p} \<and>
     (\<forall>k < vp_owned_table_page_count p. length (path k) \<le> 3 \<and> (k \<noteq> 0 \<longrightarrow> linked p m path k)) \<and>
     (\<forall>k < vp_owned_table_page_count p. \<forall>i < 0x200. entry_ok p m path k i)"

lemma paging_treeD:
  assumes "paging_tree g p m path"
  shows "path 0 = []" and "0 < vp_owned_table_page_count p"
    and "tab p 0 = vp_root_alias p" and "fst (vp_owned_table_pages p ! 0) = vp_root_physical p"
    and "k < vp_owned_table_page_count p \<Longrightarrow> owned_ok g (vp_owned_table_pages p ! k)"
    and "k < vp_owned_table_page_count p \<Longrightarrow> i < 0x200 \<Longrightarrow> entry_ok p m path k i"
    and "k < vp_owned_table_page_count p \<Longrightarrow> length (path k) \<le> 3"
    and "j < vp_owned_table_page_count p \<Longrightarrow> k < vp_owned_table_page_count p \<Longrightarrow> tab p j = tab p k \<longleftrightarrow> j = k"
    and "j < vp_owned_table_page_count p \<Longrightarrow> k < vp_owned_table_page_count p \<Longrightarrow> path j = path k \<longleftrightarrow> j = k"
    and "k < vp_owned_table_page_count p \<Longrightarrow> k \<noteq> 0 \<Longrightarrow> linked p m path k"
  using assms inj_onD [of "tab p" "{..<vp_owned_table_page_count p}"]
    inj_onD [of path "{..<vp_owned_table_page_count p}"]
  unfolding paging_tree_def by auto

lemma tree_nonroot: "paging_tree g p m path \<Longrightarrow> path k \<noteq> [] \<Longrightarrow> k \<noteq> 0"
  using paging_treeD(1) by metis

lemma tree_aligned: "paging_tree g p m path \<Longrightarrow> k < vp_owned_table_page_count p \<Longrightarrow> page_aligned (tab p k)"
  using paging_treeD(5) by (fastforce simp: owned_ok_def)

text \<open>Following a present entry of an inner table leads to the owned table one step deeper.\<close>

lemma tree_child:
  assumes "paging_tree g p m path" "k < vp_owned_table_page_count p" "i < 0x200" "length (path k) < 3"
    "k = 0 \<longrightarrow> i = ucast (vp_arena_pml4_index p)" "entry_present (table_get m (tab p k) i)"
  obtains k' where "k' < vp_owned_table_page_count p" "path k' = path k @ [i]"
    "g (entry_address (table_get m (tab p k) i)) = tab p k'" "tab p k' \<noteq> 0"
    "table_get m (tab p k) i AND GXOS_X64_PAGING_ENTRY_PAGE_SIZE = 0"
proof -
  from paging_treeD(6) [OF assms(1-3)] assms(4-6) obtain k'
    where k': "k' < vp_owned_table_page_count p" "path k' = path k @ [i]"
      "entry_address (table_get m (tab p k) i) = fst (vp_owned_table_pages p ! k')"
      "table_get m (tab p k) i AND GXOS_X64_PAGING_ENTRY_PAGE_SIZE = 0"
    unfolding entry_ok_def by auto
  with paging_treeD(5) [OF assms(1) k'(1)] show thesis
    by (intro that [of k']) (simp_all add: owned_ok_def)
qed

lemma tree_prefix:
  assumes tree: "paging_tree g p m path"
  shows "k < vp_owned_table_page_count p \<Longrightarrow> path k = q @ i # r \<Longrightarrow>
    \<exists>j < vp_owned_table_page_count p. path j = q \<and> entry_present (table_get m (tab p j) i)"
proof (induction r arbitrary: k rule: rev_induct)
  case Nil
  then have "k \<noteq> 0" by (intro tree_nonroot [OF tree]) simp
  from paging_treeD(10) [OF tree Nil(1) this] Nil(2) show ?case by (auto simp: linked_def)
next
  case (snoc x r)
  then have "k \<noteq> 0" by (intro tree_nonroot [OF tree]) simp
  from paging_treeD(10) [OF tree snoc(2) this] snoc(3) obtain j
    where "j < vp_owned_table_page_count p" "path j = q @ i # r" by (auto simp: linked_def)
  then show ?case by (rule snoc.IH)
qed

text \<open>A probe that starts at the root with the path of a table continues at that table.\<close>

lemma probe_path:
  assumes tree: "paging_tree g p m path" and ks: "ks \<noteq> []" and k: "k < vp_owned_table_page_count p"
  shows "probe g m (tab p 0) (path k @ ks) = probe g m (tab p k) ks"
  using ks k
proof (induction "path k" arbitrary: k ks rule: rev_induct)
  case Nil
  then have "path k = path 0" using paging_treeD(1) [OF tree] by simp
  then have "k = 0" using paging_treeD(2,9) [OF tree] Nil by blast
  with Nil show ?case using paging_treeD(1) [OF tree] by simp
next
  case (snoc i q)
  note q = snoc(2) [symmetric]
  have "k \<noteq> 0" using q by (intro tree_nonroot [OF tree]) simp
  from paging_treeD(10) [OF tree snoc(4) this] q obtain j where j: "j < vp_owned_table_page_count p" "path j = q"
    "i < 0x200" "j = 0 \<longrightarrow> i = ucast (vp_arena_pml4_index p)" "entry_present (table_get m (tab p j) i)"
    by (auto simp: linked_def)
  have len: "length (path j) < 3" using paging_treeD(7) [OF tree snoc(4)] q j(2) by simp
  obtain k' where "k' < vp_owned_table_page_count p" "path k' = q @ [i]"
    "g (entry_address (table_get m (tab p j) i)) = tab p k'"
    using tree_child [OF tree j(1,3) len j(4,5)] j(2) by metis
  with q snoc(4) paging_treeD(9) [OF tree] have g: "g (entry_address (table_get m (tab p j) i)) = tab p k" by metis
  have "probe g m (tab p 0) (path j @ i # ks) = probe g m (tab p j) (i # ks)"
    using j by (intro snoc.hyps(1)) auto
  with g j(2,5) q snoc(3) show ?case by (cases ks) simp_all
qed

text \<open>Memory outside the owned tables does not matter to a probe.\<close>

lemma tree_cong:
  assumes tree: "paging_tree g p m path"
    and get: "\<And>k i. k < vp_owned_table_page_count p \<Longrightarrow> i < 0x200 \<Longrightarrow>
      table_get m' (tab p k) i = table_get m (tab p k) i"
  shows "paging_tree g p m' path"
proof -
  have "linked p m' path k" if "linked p m path k" for k using that get unfolding linked_def by metis
  moreover have "entry_ok p m' path k i" if "k < vp_owned_table_page_count p" "i < 0x200" for k i
    using paging_treeD(6) [OF tree that] get [OF that] by (simp add: entry_ok_def)
  ultimately show ?thesis using tree unfolding paging_tree_def by blast
qed

lemma probe_cong:
  assumes tree: "paging_tree g p m path"
    and get: "\<And>k i. k < vp_owned_table_page_count p \<Longrightarrow> i < 0x200 \<Longrightarrow>
      table_get m' (tab p k) i = table_get m (tab p k) i"
    and k: "k < vp_owned_table_page_count p" and len: "length (path k) + length ks = 4"
    and ks: "\<forall>i \<in> set ks. i < 0x200" and slot: "k = 0 \<longrightarrow> hd ks = ucast (vp_arena_pml4_index p)"
  shows "probe g m' (tab p k) ks = probe g m (tab p k) ks"
  using k len ks slot
proof (induction ks arbitrary: k rule: induct_list012)
  case (3 i j rest)
  then have i: "i < 0x200" and len: "length (path k) < 3" by auto
  note e = get [OF "3"(3) i]
  show ?case
  proof (cases "entry_present (table_get m (tab p k) i)")
    case True
    with 3 i len obtain k' where k': "k' < vp_owned_table_page_count p" "path k' = path k @ [i]"
      "g (entry_address (table_get m (tab p k) i)) = tab p k'"
      using tree_child [OF tree "3"(3) i len] by (metis list.sel(1))
    have "k' \<noteq> 0" using k'(2) by (intro tree_nonroot [OF tree]) simp
    with 3 k' have "probe g m' (tab p k') (j # rest) = probe g m (tab p k') (j # rest)"
      by (intro "3.IH"(2)) auto
    with True e k' show ?thesis by simp
  qed (simp add: e)
qed (simp_all add: get)

text \<open>Writing one entry of a leaf table changes the probes of one path only.\<close>

lemma probe_leaf_update:
  assumes tree: "paging_tree g p m path"
    and t: "tt < vp_owned_table_page_count p" "length (path tt) = 3"
    and get: "\<And>k i. k < vp_owned_table_page_count p \<Longrightarrow> i < 0x200 \<Longrightarrow>
      table_get m' (tab p k) i = (if k = tt \<and> i = x then v else table_get m (tab p k) i)"
    and k: "k < vp_owned_table_page_count p" and len: "length (path k) + length ks = 4"
    and ks: "\<forall>i \<in> set ks. i < 0x200" and slot: "k = 0 \<longrightarrow> hd ks = ucast (vp_arena_pml4_index p)"
  shows "probe g m' (tab p k) ks =
    (if path k @ ks = path tt @ [x] then (if entry_present v then Some v else None)
     else probe g m (tab p k) ks)"
  using k len ks slot
proof (induction ks arbitrary: k rule: induct_list012)
  case 1
  with paging_treeD(7) [OF tree "1"(1)] show ?case by simp
next
  case (2 i)
  then have "path k @ [i] = path tt @ [x] \<longleftrightarrow> k = tt \<and> i = x"
    using paging_treeD(9) [OF tree "2"(1) t(1)] by auto
  with 2 get [of k i] show ?case by (cases "k = tt \<and> i = x") auto
next
  case (3 i j rest)
  then have ne: "k \<noteq> tt" and i: "i < 0x200" and len: "length (path k) < 3" using t(2) by auto
  then have g: "table_get m' (tab p k) i = table_get m (tab p k) i" using get 3 by simp
  show ?case
  proof (cases "entry_present (table_get m (tab p k) i)")
    case True
    with 3 i len obtain k' where k': "k' < vp_owned_table_page_count p" "path k' = path k @ [i]"
      "g (entry_address (table_get m (tab p k) i)) = tab p k'"
      using tree_child [OF tree "3"(3) i len] by (metis list.sel(1))
    have "k' \<noteq> 0" using k'(2) by (intro tree_nonroot [OF tree]) simp
    with 3 k' have "probe g m' (tab p k') (j # rest) =
      (if path k' @ j # rest = path tt @ [x] then (if entry_present v then Some v else None)
       else probe g m (tab p k') (j # rest))"
      by (intro "3.IH"(2)) auto
    with True g k' show ?thesis by simp
  next
    case False
    have "path k @ i # j # rest \<noteq> path tt @ [x]"
    proof
      assume "path k @ i # j # rest = path tt @ [x]"
      then have "path tt = path k @ i # butlast (j # rest)"
        by (metis butlast.simps(2) butlast_append butlast_snoc list.distinct(1))
      from tree_prefix [OF tree t(1) this] False show False
        using paging_treeD(9) [OF tree _ "3"(3)] by auto
    qed
    with False g show ?thesis by simp
  qed
qed

lemma leaf_update_tree:
  assumes tree: "paging_tree g p m path" and t: "tt < vp_owned_table_page_count p" "length (path tt) = 3"
    and get: "\<And>k i. k < vp_owned_table_page_count p \<Longrightarrow> i < 0x200 \<Longrightarrow>
      table_get m' (tab p k) i = (if k = tt \<and> i = x then v else table_get m (tab p k) i)"
  shows "paging_tree g p m' path"
proof -
  have "linked p m' path k" if k: "k < vp_owned_table_page_count p" "linked p m path k" for k
  proof -
    from k(2) obtain j i where j: "j < vp_owned_table_page_count p" "i < 0x200" "path k = path j @ [i]"
      "j = 0 \<longrightarrow> i = ucast (vp_arena_pml4_index p)" "entry_present (table_get m (tab p j) i)"
      by (auto simp: linked_def)
    then have "j \<noteq> tt" using t(2) paging_treeD(7) [OF tree k(1)] by auto
    with j get [OF j(1,2)] show ?thesis unfolding linked_def by auto
  qed
  moreover have "entry_ok p m' path k i" if "k < vp_owned_table_page_count p" "i < 0x200" for k i
    using paging_treeD(6) [OF tree that] get [OF that] t(2) by (auto simp: entry_ok_def)
  ultimately show ?thesis using tree unfolding paging_tree_def by blast
qed

text \<open>Linking an empty table under an absent inner entry changes no probe.\<close>

lemma probe_link:
  assumes tree: "paging_tree g p m path"
    and get: "\<And>k i. k < vp_owned_table_page_count p \<Longrightarrow> i < 0x200 \<Longrightarrow>
      table_get m' (tab p k) i = (if k = kk \<and> i = x then e else table_get m (tab p k) i)"
    and absent: "\<not> entry_present (table_get m (tab p kk) x)" and inner: "length (path kk) < 3"
    and empty: "\<And>i. i < 0x200 \<Longrightarrow> table_get m' (g (entry_address e)) i = 0"
    and k: "k < vp_owned_table_page_count p" and len: "length (path k) + length ks = 4"
    and ks: "\<forall>i \<in> set ks. i < 0x200" and slot: "k = 0 \<longrightarrow> hd ks = ucast (vp_arena_pml4_index p)"
  shows "probe g m' (tab p k) ks = probe g m (tab p k) ks"
  using k len ks slot
proof (induction ks arbitrary: k rule: induct_list012)
  case 1
  then show ?case by simp
next
  case (2 i)
  with inner have "k \<noteq> kk" by auto
  with 2 get [of k i] show ?case by simp
next
  case (3 i j rest)
  then have i: "i < 0x200" and len: "length (path k) < 3" by auto
  have none: "probe g m' (g (entry_address e)) (j # rest) = None"
    using empty [of j] 3 by (cases rest) simp_all
  show ?case
  proof (cases "k = kk \<and> i = x")
    case True
    with get [OF "3"(3) i] absent none show ?thesis by simp
  next
    case False
    then have g: "table_get m' (tab p k) i = table_get m (tab p k) i" using get 3 by auto
    show ?thesis
    proof (cases "entry_present (table_get m (tab p k) i)")
      case True
      with 3 i len obtain k' where k': "k' < vp_owned_table_page_count p" "path k' = path k @ [i]"
        "g (entry_address (table_get m (tab p k) i)) = tab p k'"
        using tree_child [OF tree "3"(3) i len] by (metis list.sel(1))
      have "k' \<noteq> 0" using k'(2) by (intro tree_nonroot [OF tree]) simp
      with 3 k' have "probe g m' (tab p k') (j # rest) = probe g m (tab p k') (j # rest)"
        by (intro "3.IH"(2)) auto
      with True g k' show ?thesis by simp
    qed (simp add: g)
  qed
qed

subsection \<open>The walk of the code on a tree\<close>

definition leaf_mapping :: "u64 \<Rightarrow> u64 \<Rightarrow> GXOS_VM_MAPPING" where
  "leaf_mapping e v =
     \<lparr> mp_physical_base = entry_address e + (v AND (GXOS_VM_PAGE_SIZE - 1)),
       mp_page_size = GXOS_VM_PAGE_SIZE, mp_entry_flags = e, mp_level = 1, mp_present = True \<rparr>"

lemma query_probe:
  assumes tree: "paging_tree g p m path"
    and al: "pa_physical_alias (vp_table_allocator p) = Some pal" "\<And>ph. pal m ph = g ph"
    and v: "canonical48 v" "pml4_index v = ucast (vp_arena_pml4_index p)"
  shows "gxos_vm_paging_query p m v =
    (case probe g m (vp_root_alias p) (vpath v) of
       None \<Rightarrow> (GXOS_VM_PAGING_STATUS_NOT_PRESENT, zero_mapping)
     | Some e \<Rightarrow> (GXOS_VM_PAGING_STATUS_OK, leaf_mapping e v))"
proof -
  note root = paging_treeD(1-4) [OF tree]
  have r: "vp_root_physical p \<noteq> 0" "entry_address (vp_root_physical p) = vp_root_physical p"
    "g (vp_root_physical p) = vp_root_alias p" "vp_root_alias p \<noteq> 0"
    using paging_treeD(5) [OF tree root(2)] root(3,4) by (auto simp: owned_ok_def)
  have ta: "table_alias m ph (Some pal) = Inr (g ph)" if "g ph \<noteq> 0" for ph
    using that al(2) by (simp add: table_alias_def)
  let ?e4 = "table_get m (vp_root_alias p) (pml4_index v)"
  show ?thesis
  proof (cases "entry_present ?e4")
    case False
    with r v ta al show ?thesis
      by (simp add: gxos_vm_paging_query_def gxos_vm_paging_query_root_def vpath_def)
  next
    case p4: True
    have "length (path 0) < 3" "(0 :: nat) = 0 \<longrightarrow> pml4_index v = ucast (vp_arena_pml4_index p)"
      "entry_present (table_get m (tab p 0) (pml4_index v))" using p4 v root by simp_all
    from tree_child [OF tree root(2) index_lt(1) this] obtain k3
      where k3: "k3 < vp_owned_table_page_count p" "path k3 = [pml4_index v]"
        "g (entry_address ?e4) = tab p k3" "tab p k3 \<noteq> 0"
      using root by auto
    have k30: "k3 \<noteq> 0" using k3(2) by (intro tree_nonroot [OF tree]) simp
    let ?e3 = "table_get m (tab p k3) (pdpt_index v)"
    show ?thesis
    proof (cases "entry_present ?e3")
      case False
      with p4 k3 r v ta al show ?thesis
        by (simp add: gxos_vm_paging_query_def gxos_vm_paging_query_root_def vpath_def)
    next
      case p3: True
      have "length (path k3) < 3" "k3 = 0 \<longrightarrow> pdpt_index v = ucast (vp_arena_pml4_index p)"
        using k3 k30 by simp_all
      from tree_child [OF tree k3(1) index_lt(2) this p3] obtain k2
        where k2: "k2 < vp_owned_table_page_count p" "path k2 = [pml4_index v, pdpt_index v]"
        "g (entry_address ?e3) = tab p k2" "tab p k2 \<noteq> 0" "?e3 AND GXOS_X64_PAGING_ENTRY_PAGE_SIZE = 0"
        using k3(2) by (metis append_Cons append_Nil)
      have k20: "k2 \<noteq> 0" using k2(2) by (intro tree_nonroot [OF tree]) simp
      let ?e2 = "table_get m (tab p k2) (pd_index v)"
      show ?thesis
      proof (cases "entry_present ?e2")
        case False
        with p4 k3 p3 k2 r v ta al show ?thesis
          by (simp add: gxos_vm_paging_query_def gxos_vm_paging_query_root_def vpath_def)
      next
        case p2: True
        have "length (path k2) < 3" "k2 = 0 \<longrightarrow> pd_index v = ucast (vp_arena_pml4_index p)"
          using k2 k20 by simp_all
        from tree_child [OF tree k2(1) index_lt(3) this p2] obtain k1
          where k1: "g (entry_address ?e2) = tab p k1" "tab p k1 \<noteq> 0"
            "?e2 AND GXOS_X64_PAGING_ENTRY_PAGE_SIZE = 0"
          by metis
        with p4 k3 p3 k2 p2 r v ta al show ?thesis
          by (simp add: gxos_vm_paging_query_def gxos_vm_paging_query_root_def vpath_def leaf_mapping_def
              Let_def)
      qed
    qed
  qed
qed

end
