(* ===== verification/VM_Paging_Map.thy ===== *)
theory VM_Paging_Map
  imports VM_Paging_Tree
begin

text \<open>
  What the page tables rely on from their page allocator (\<open>page_provider\<close>), and what mapping
  and unmapping then do to the translation of every address of the arena.
\<close>

subsection \<open>The allocator's contract\<close>

text \<open>
  \<open>held m\<close> are the aliases of the pages that the allocator has handed out, \<open>foreign\<close> those of
  pages that it never hands out, and \<open>ok m\<close> is its invariant. It hands out page-aligned pages
  that are neither held nor foreign, reachable through the physical alias; it writes no held
  and no foreign page, and takes a page back without touching the others. Its state does not
  depend on the memory it hands out.
\<close>

locale page_provider =
  fixes al :: "'w GXOS_VM_PAGE_ALLOCATOR"
    and alloc :: "'w machine \<Rightarrow> bool \<times> u64 \<times> u64 \<times> 'w machine"
    and free :: "'w machine \<Rightarrow> u64 \<Rightarrow> u64 \<Rightarrow> 'w machine"
    and palias :: "'w machine \<Rightarrow> u64 \<Rightarrow> u64"
    and g :: "u64 \<Rightarrow> u64"
    and held :: "'w machine \<Rightarrow> u64 set"
    and foreign :: "u64 set"
    and ok :: "'w machine \<Rightarrow> bool"
  assumes callbacks: "pa_allocate_page al = Some alloc" "pa_free_page al = Some free"
      "pa_physical_alias al = Some palias"
    and palias: "ok m \<Longrightarrow> palias m ph = g ph"
    and ok_cells: "ok (m\<lparr> mc_cells := c \<rparr>) = ok m" "held (m\<lparr> mc_cells := c \<rparr>) = held m"
    and ok_invlpg: "ok (m\<lparr> mc_invlpg := l \<rparr>) = ok m" "held (m\<lparr> mc_invlpg := l \<rparr>) = held m"
    and ok_cr3: "ok (m\<lparr> mc_cr3 := r \<rparr>) = ok m" "held (m\<lparr> mc_cr3 := r \<rparr>) = held m"
    and held_foreign: "ok m \<Longrightarrow> a \<in> held m \<Longrightarrow> page_aligned a \<and> a \<notin> foreign"
    and alloc_ok: "ok m \<Longrightarrow> alloc m = (True, ph, a, m') \<Longrightarrow>
      ok m' \<and> held m' = insert a (held m) \<and> a \<notin> held m \<and> a \<notin> foreign \<and> owned_ok g (ph, a) \<and>
      (\<forall>x. \<not> x - a < GXOS_VM_PAGE_SIZE \<longrightarrow> mc_cells m' x = mc_cells m x)"
    and alloc_fails: "ok m \<Longrightarrow> alloc m = (False, ph, a, m') \<Longrightarrow>
      ok m' \<and> held m' = held m \<and> ph = 0 \<and> a = 0 \<and>
      (\<forall>t \<in> held m \<union> foreign. page_aligned t \<longrightarrow> (\<forall>i < 0x200. table_get m' t i = table_get m t i))"
    and free_ok: "ok m \<Longrightarrow> a \<in> held m \<Longrightarrow> owned_ok g (ph, a) \<Longrightarrow>
      ok (free m ph a) \<and> held m - {a} \<subseteq> held (free m ph a) \<and> held (free m ph a) \<subseteq> held m \<and>
      mc_cells (free m ph a) = mc_cells m"

subsection \<open>Entries\<close>

lemma and_or_numeral: "((a :: u64) OR b) AND c = (a AND c) OR (b AND c)"
  by (rule bit_word_eqI) (auto simp: bit_simps)

lemma masked_and:
  assumes "entry_address (ph :: u64) = ph" and "GXOS_X64_PAGING_PHYSICAL_MASK AND c = 0"
  shows "ph AND c = 0"
proof -
  have "ph AND c = (ph AND GXOS_X64_PAGING_PHYSICAL_MASK) AND c" using assms(1) by (simp add: entry_address_def)
  also have "\<dots> = ph AND (GXOS_X64_PAGING_PHYSICAL_MASK AND c)" by (simp only: and.assoc)
  finally show ?thesis using assms(2) by simp
qed

lemma table_entry:
  assumes "entry_address ph = ph"
  shows "entry_address (ph OR 1 OR 2) = ph" and "entry_present (ph OR 1 OR 2)"
    and "(ph OR 1 OR 2) AND GXOS_X64_PAGING_ENTRY_PAGE_SIZE = 0"
  using assms masked_and [OF assms, where c = "0x80"] masked_and [OF assms, where c = 1]
  by (simp_all add: entry_address_def and_or_numeral)

definition leaf_entry :: "bool \<Rightarrow> u64 \<Rightarrow> bool \<Rightarrow> bool \<Rightarrow> u64" where
  "leaf_entry nx ph writable executable =
     ph OR (let flags = 1 OR (if writable then 2 else 0)
            in if \<not> executable \<and> nx then flags OR 0x8000000000000000 else flags)"

lemma leaf_entry_present [simp]: "entry_present (leaf_entry nx ph w x)"
  by (auto simp: leaf_entry_def Let_def and_or_numeral)

lemma leaf_entry_address: "entry_address ph = ph \<Longrightarrow> entry_address (leaf_entry nx ph w x) = ph"
  by (auto simp: entry_address_def leaf_entry_def Let_def and_or_numeral)

subsection \<open>The arena\<close>

text \<open>The arena lies in one slot of the root and is at least a page long.\<close>

definition arena_ok :: "'w GXOS_VM_PAGING \<Rightarrow> bool" where
  "arena_ok p \<longleftrightarrow> range_ok (vp_arena_base p) (vp_arena_length p) \<and> 4096 \<le> unat (vp_arena_length p) \<and>
     canonical48 (vp_arena_base p) \<and>
     unat (vp_arena_base p) div 2 ^ 39 =
       (unat (vp_arena_base p) + unat (vp_arena_length p) - 1) div 2 ^ 39 \<and>
     ucast (vp_arena_pml4_index p) = pml4_index (vp_arena_base p)"

lemma same_slot:
  assumes "unat v div 2 ^ 39 = unat w div 2 ^ 39"
  shows "pml4_index v = pml4_index w" and "canonical48 v = canonical48 w"
proof -
  show "pml4_index v = pml4_index w" using assms by (simp add: unat_eq_iff unat_indices)
  have sh: "unat u div 2 ^ 47 = unat u div 2 ^ 39 div 2 ^ 8" "unat u div 2 ^ 48 = unat u div 2 ^ 39 div 2 ^ 9"
    for u :: u64 by (simp_all flip: div_mult2_eq)
  show "canonical48 v = canonical48 w" unfolding canonical48_nat sh assms ..
qed

lemma arena_slot:
  assumes "arena_ok p"
    and "unat (vp_arena_base p) \<le> unat v" "unat v < unat (vp_arena_base p) + unat (vp_arena_length p)"
  shows "canonical48 v" and "pml4_index v = ucast (vp_arena_pml4_index p)"
proof -
  let ?b = "unat (vp_arena_base p)" and ?n = "unat (vp_arena_length p)"
  have "?b div 2 ^ 39 \<le> unat v div 2 ^ 39" "unat v div 2 ^ 39 \<le> (?b + ?n - 1) div 2 ^ 39"
    using assms(2,3) by (auto intro!: div_le_mono)
  with assms(1) have eq: "unat v div 2 ^ 39 = ?b div 2 ^ 39" by (simp add: arena_ok_def)
  from same_slot [OF eq] assms(1) show "canonical48 v" "pml4_index v = ucast (vp_arena_pml4_index p)"
    by (simp_all add: arena_ok_def)
qed

lemma arena_contains_page_iff:
  assumes "arena_ok p"
  shows "arena_contains_page p v \<longleftrightarrow> page_aligned v \<and> unat (vp_arena_base p) \<le> unat v \<and>
    unat v + 4096 \<le> unat (vp_arena_base p) + unat (vp_arena_length p)"
proof -
  from assms have r: "range_ok (vp_arena_base p) (vp_arena_length p)" "4096 \<le> unat (vp_arena_length p)"
    by (auto simp: arena_ok_def)
  then have e: "unat (vp_arena_base p + vp_arena_length p) = unat (vp_arena_base p) + unat (vp_arena_length p)"
    by (simp add: range_ok_unat)
  then have "(0x1000 :: u64) \<le> vp_arena_base p + vp_arena_length p"
    using r(2) by (simp add: word_le_nat_alt)
  then have "unat (vp_arena_base p + vp_arena_length p - 0x1000) =
      unat (vp_arena_base p) + unat (vp_arena_length p) - 4096"
    by (simp add: unat_sub_le e)
  moreover have "vp_arena_length p \<noteq> 0" using r(2) by auto
  ultimately show ?thesis
    using r unfolding arena_contains_page_def range_end_range_ok
    by (auto simp: page_aligned_iff word_le_nat_alt)
qed

subsection \<open>Mapping through a provider\<close>

text \<open>Fields that an operation on the tables never changes.\<close>

definition same_root :: "'w GXOS_VM_PAGING \<Rightarrow> 'w GXOS_VM_PAGING \<Rightarrow> bool" where
  "same_root p p' \<longleftrightarrow> vp_root_physical p' = vp_root_physical p \<and> vp_root_alias p' = vp_root_alias p \<and>
     vp_arena_base p' = vp_arena_base p \<and> vp_arena_length p' = vp_arena_length p \<and>
     vp_arena_pml4_index p' = vp_arena_pml4_index p \<and> vp_nx_enabled p' = vp_nx_enabled p \<and>
     vp_active p' = vp_active p \<and> vp_previous_cr3 p' = vp_previous_cr3 p \<and>
     vp_table_allocator p' = vp_table_allocator p"

lemma same_root_refl [simp]: "same_root p p" by (simp add: same_root_def)

lemma same_root_trans: "same_root p q \<Longrightarrow> same_root q r \<Longrightarrow> same_root p r" by (simp add: same_root_def)

lemma same_root_arena: "same_root p p' \<Longrightarrow> arena_ok p' = arena_ok p"
  by (simp add: same_root_def arena_ok_def)

text \<open>
  Linking a fresh page \<open>(ph, a)\<close> under the absent entry \<open>i\<close> of the inner table \<open>k\<close>: what the
  memory \<open>m'\<close> after it must satisfy.
\<close>

definition push_table :: "'w GXOS_VM_PAGING \<Rightarrow> u64 \<times> u64 \<Rightarrow> 'w GXOS_VM_PAGING" where
  "push_table p e =
     p\<lparr> vp_owned_table_pages := (vp_owned_table_pages p)[vp_owned_table_page_count p := e],
        vp_owned_table_page_count := vp_owned_table_page_count p + 1 \<rparr>"

definition link_step ::
    "(u64 \<Rightarrow> u64) \<Rightarrow> 'w GXOS_VM_PAGING \<Rightarrow> 'w machine \<Rightarrow> (nat \<Rightarrow> u64 list) \<Rightarrow> nat \<Rightarrow> u64 \<Rightarrow> u64 \<Rightarrow> u64 \<Rightarrow>
     'w machine \<Rightarrow> bool" where
  "link_step g p m path k i ph a m' \<longleftrightarrow>
     paging_tree g p m path \<and> k < vp_owned_table_page_count p \<and> length (path k) < 3 \<and> i < 0x200 \<and>
     (k = 0 \<longrightarrow> i = ucast (vp_arena_pml4_index p)) \<and> \<not> entry_present (table_get m (tab p k) i) \<and>
     vp_owned_table_page_count p < 64 \<and> owned_ok g (ph, a) \<and>
     (\<forall>j < vp_owned_table_page_count p. tab p j \<noteq> a) \<and>
     (\<forall>j < vp_owned_table_page_count p. \<forall>x < 0x200. table_get m' (tab p j) x =
        (if j = k \<and> x = i then ph OR 1 OR 2 else table_get m (tab p j) x)) \<and>
     (\<forall>x < 0x200. table_get m' a x = 0)"

lemma same_root_push: "same_root p (push_table p e)"
  by (simp add: push_table_def same_root_def)

lemma push_table_simps [simp]:
  "vp_owned_table_page_count (push_table p e) = Suc (vp_owned_table_page_count p)"
  "vp_arena_pml4_index (push_table p e) = vp_arena_pml4_index p"
  "vp_root_physical (push_table p e) = vp_root_physical p" "vp_root_alias (push_table p e) = vp_root_alias p"
  by (simp_all add: push_table_def)

lemma inj_on_extend:
  assumes "inj_on f {..<n}" and "\<And>j. j < n \<Longrightarrow> f' j = f j" and "\<And>j. j < n \<Longrightarrow> f j \<noteq> f' n"
  shows "inj_on f' {..<Suc n :: nat}"
proof (rule inj_onI)
  fix x y assume "x \<in> {..<Suc n}" "y \<in> {..<Suc n}" "f' x = f' y"
  with assms(2,3) inj_onD [OF assms(1), of x y] show "x = y"
    by (cases "x = n"; cases "y = n") (auto simp: less_Suc_eq)
qed

lemma link_stepD:
  assumes "link_step g p m path k i ph a m'"
  shows "paging_tree g p m path" "k < vp_owned_table_page_count p" "length (path k) < 3" "i < 0x200"
    "k = 0 \<longrightarrow> i = ucast (vp_arena_pml4_index p)" "\<not> entry_present (table_get m (tab p k) i)"
    "vp_owned_table_page_count p < 64" "owned_ok g (ph, a)" "entry_address ph = ph" "g ph = a"
    "j < vp_owned_table_page_count p \<Longrightarrow> tab p j \<noteq> a"
    "j < vp_owned_table_page_count p \<Longrightarrow> x < 0x200 \<Longrightarrow> table_get m' (tab p j) x =
        (if j = k \<and> x = i then ph OR 1 OR 2 else table_get m (tab p j) x)"
    "x < 0x200 \<Longrightarrow> table_get m' a x = 0"
  using assms unfolding link_step_def by (auto simp: owned_ok_def)

lemma link_pages:
  assumes "link_step g p m path k i ph a m'" and "j < Suc (vp_owned_table_page_count p)"
  shows "vp_owned_table_pages (push_table p (ph, a)) ! j =
    (if j = vp_owned_table_page_count p then (ph, a) else vp_owned_table_pages p ! j)"
  using assms link_stepD(1,7) [OF assms(1)] by (simp add: push_table_def paging_tree_def)

lemma link_fresh:
  assumes "link_step g p m path k i ph a m'" and "j < vp_owned_table_page_count p"
  shows "path j \<noteq> path k @ [i]"
proof
  note L = link_stepD [OF assms(1)]
  assume "path j = path k @ [i]"
  from tree_prefix [OF L(1) assms(2) this [folded append_Cons]] L(6) paging_treeD(9) [OF L(1) _ L(2)]
  show False by auto
qed

lemma link_entry_ok:
  assumes step: "link_step g p m path k i ph a m'" and j: "j < Suc (vp_owned_table_page_count p)" "x < 0x200"
  shows "entry_ok (push_table p (ph, a)) m' (path(vp_owned_table_page_count p := path k @ [i])) j x"
proof (cases "j = vp_owned_table_page_count p")
  case True
  with link_stepD(13) [OF step j(2)] link_pages [OF step j(1)] show ?thesis by (simp add: entry_ok_def)
next
  let ?n = "vp_owned_table_page_count p" and ?p = "push_table p (ph, a)"
  case False
  note L = link_stepD [OF step]
  have jn: "j < ?n" using j False by simp
  note pages = link_pages [OF step]
  show ?thesis
  proof (cases "j = k \<and> x = i")
    case True
    with L(12) [OF jn j(2)] pages [OF j(1)] pages [of ?n] table_entry [OF L(9)] jn show ?thesis
      by (auto simp: entry_ok_def intro!: exI [of _ ?n])
  next
    case ne: False
    then have e: "table_get m' (tab ?p j) x = table_get m (tab p j) x"
        "(path(?n := path k @ [i])) j = path j"
      using L(12) [OF jn j(2)] pages [OF j(1)] jn by auto
    have "\<exists>k' < Suc ?n. (path(?n := path k @ [i])) k' = path j @ [x] \<and> q = fst (vp_owned_table_pages ?p ! k')"
      if "k' < ?n" "path k' = path j @ [x]" "q = fst (vp_owned_table_pages p ! k')" for k' q
      using that pages [of k'] by (intro exI [of _ k']) auto
    with paging_treeD(6) [OF L(1) jn j(2)] show ?thesis unfolding entry_ok_def e push_table_simps by blast
  qed
qed

lemma link_linked:
  assumes step: "link_step g p m path k i ph a m'" and j: "j < Suc (vp_owned_table_page_count p)" "j \<noteq> 0"
  shows "linked (push_table p (ph, a)) m' (path(vp_owned_table_page_count p := path k @ [i])) j"
proof (cases "j = vp_owned_table_page_count p")
  case True
  note L = link_stepD [OF step]
  from True L(2,5) L(12) [OF L(2,4)] table_entry [OF L(9)] link_pages [OF step, of k] L(4) show ?thesis
    unfolding linked_def by (intro exI [of _ k] conjI exI [of _ i]) auto
next
  case False
  note L = link_stepD [OF step]
  have jn: "j < vp_owned_table_page_count p" using j False by simp
  from paging_treeD(10) [OF L(1) jn j(2)] obtain q x
    where "q < vp_owned_table_page_count p" "x < 0x200" "path j = path q @ [x]"
      "q = 0 \<longrightarrow> x = ucast (vp_arena_pml4_index p)" "entry_present (table_get m (tab p q) x)"
    by (auto simp: linked_def)
  with jn L(12) [of q x] link_pages [OF step, of q] table_entry [OF L(9)] show ?thesis
    unfolding linked_def by (intro exI [of _ q] conjI exI [of _ x]) auto
qed

lemma link_tree:
  assumes step: "link_step g p m path k i ph a m'"
  shows "paging_tree g (push_table p (ph, a)) m' (path(vp_owned_table_page_count p := path k @ [i]))"
proof -
  let ?n = "vp_owned_table_page_count p" and ?p = "push_table p (ph, a)"
  note L = link_stepD [OF step] and pages = link_pages [OF step]
  have "inj_on (tab ?p) {..<Suc ?n}"
    using L(1,11) pages by (intro inj_on_extend [of "tab p"]) (auto simp: paging_tree_def)
  moreover have "inj_on (path(?n := path k @ [i])) {..<Suc ?n}"
    using L(1) link_fresh [OF step] by (intro inj_on_extend [of path]) (auto simp: paging_tree_def)
  moreover have "owned_ok g (vp_owned_table_pages ?p ! j)" if "j < Suc ?n" for j
    using that pages [OF that] L(8) paging_treeD(5) [OF L(1), of j] by (auto simp: less_Suc_eq)
  moreover have "length ((path(?n := path k @ [i])) j) \<le> 3" if "j < Suc ?n" for j
    using that L(3) paging_treeD(7) [OF L(1), of j] by (auto simp: less_Suc_eq)
  moreover have "length (vp_owned_table_pages ?p) = 64" using L(1) by (simp add: push_table_def paging_tree_def)
  moreover have "vp_owned_table_pages ?p ! 0 = (vp_root_physical p, vp_root_alias p)" "?n \<noteq> 0"
    using pages [of 0] paging_treeD(2-4) [OF L(1)] by (simp_all add: prod_eq_iff)
  ultimately show ?thesis
    using link_entry_ok [OF step] link_linked [OF step] L(7) paging_treeD(1) [OF L(1)]
    unfolding paging_tree_def push_table_simps by simp
qed

lemma vpath_slot:
  assumes "pml4_index v = s"
  shows "\<forall>i \<in> set (vpath v). i < 0x200" "length (vpath v) = 4" "hd (vpath v) = s"
proof -
  show "\<forall>i \<in> set (vpath v). i < 0x200" by (simp add: vpath_def)
  show "length (vpath v) = 4" "hd (vpath v) = s" using assms by (simp_all add: vpath_def)
qed

lemma link_probe:
  assumes step: "link_step g p m path k i ph a m'" and v: "pml4_index v = ucast (vp_arena_pml4_index p)"
  shows "probe g m' (vp_root_alias p) (vpath v) = probe g m (vp_root_alias p) (vpath v)"
proof -
  note L = link_stepD [OF step]
  have "probe g m' (tab p 0) (vpath v) = probe g m (tab p 0) (vpath v)"
    using paging_treeD(1,2) [OF L(1)] L(3,6,10,13) table_entry(1) [OF L(9)] vpath_slot [OF v]
    by (intro probe_link [OF L(1) L(12)]) auto
  then show ?thesis using paging_treeD(3) [OF L(1)] by simp
qed

text \<open>The guards of a map request.\<close>

definition map_args_ok :: "'w GXOS_VM_PAGING \<Rightarrow> u64 \<Rightarrow> u64 \<Rightarrow> bool" where
  "map_args_ok p v ph \<longleftrightarrow> ph \<noteq> 0 \<and> page_aligned ph \<and> arena_contains_page p v"

text \<open>The three calls of \<open>allocate_table\<close> in \<open>gxos_vm_paging_map_page\<close>.\<close>

definition descend :: "'w GXOS_VM_PAGING \<Rightarrow> 'w machine \<Rightarrow> u64 \<Rightarrow>
    (GXOS_VM_PAGING_STATUS + u64) \<times> 'w GXOS_VM_PAGING \<times> 'w machine" where
  "descend p m v = (case allocate_table p m (vp_root_alias p) (pml4_index v) of
        (Inl status, p, m) \<Rightarrow> (Inl status, p, m)
      | (Inr pdpt, p, m) \<Rightarrow> (case allocate_table p m pdpt (pdpt_index v) of
          (Inl status, p, m) \<Rightarrow> (Inl status, p, m)
        | (Inr pd, p, m) \<Rightarrow> allocate_table p m pd (pd_index v)))"

text \<open>The outcome of a request for the table with path \<open>q\<close>.\<close>

definition leads :: "(GXOS_VM_PAGING_STATUS + u64) \<Rightarrow> 'w GXOS_VM_PAGING \<Rightarrow> (nat \<Rightarrow> u64 list) \<Rightarrow> u64 list \<Rightarrow> bool" where
  "leads r p path q \<longleftrightarrow>
     (case r of Inl status \<Rightarrow> status \<in> {GXOS_VM_PAGING_STATUS_CAPACITY, GXOS_VM_PAGING_STATUS_ALLOCATION}
      | Inr table \<Rightarrow> \<exists>k < vp_owned_table_page_count p. table = tab p k \<and> path k = q)"

lemma leads_Inl: "leads (Inl st) p path q \<longleftrightarrow>
    st = GXOS_VM_PAGING_STATUS_CAPACITY \<or> st = GXOS_VM_PAGING_STATUS_ALLOCATION"
  by (simp add: leads_def)

lemma leads_Inr: "leads (Inr t) p path q \<longleftrightarrow>
    (\<exists>k < vp_owned_table_page_count p. t = tab p k \<and> path k = q)"
  by (simp add: leads_def)

context page_provider
begin

lemma ok_table_set [simp]: "ok (table_set m t i v) = ok m" "held (table_set m t i v) = held m"
  by (simp_all add: table_set_def ok_cells)

lemma ok_zero_page [simp]: "ok (zero_page m a) = ok m" "held (zero_page m a) = held m"
  by (simp_all add: zero_page_def ok_cells)

lemma ok_invalidate [simp]: "ok (invalidate_page p m v) = ok m" "held (invalidate_page p m v) = held m"
  by (simp_all add: invalidate_page_def ok_invlpg)

lemma get_invalidate [simp]: "table_get (invalidate_page p m v) t i = table_get m t i"
  by (simp add: invalidate_page_def table_get_def)

definition good :: "'w GXOS_VM_PAGING \<Rightarrow> 'w machine \<Rightarrow> (nat \<Rightarrow> u64 list) \<Rightarrow> bool" where
  "good p m path \<longleftrightarrow> paging_tree g p m path \<and> ok m \<and> vp_table_allocator p = al \<and> arena_ok p \<and>
     tab p ` {..<vp_owned_table_page_count p} \<subseteq> held m"

text \<open>What the walk finds for an address of the arena's slot.\<close>

abbreviation entry_of :: "'w GXOS_VM_PAGING \<Rightarrow> 'w machine \<Rightarrow> u64 \<Rightarrow> u64 option" where
  "entry_of p m v \<equiv> probe g m (vp_root_alias p) (vpath v)"

lemma query_good:
  assumes "good p m path" "canonical48 v" "pml4_index v = ucast (vp_arena_pml4_index p)"
  shows "gxos_vm_paging_query p m v =
    (case entry_of p m v of
       None \<Rightarrow> (GXOS_VM_PAGING_STATUS_NOT_PRESENT, zero_mapping)
     | Some e \<Rightarrow> (GXOS_VM_PAGING_STATUS_OK, leaf_mapping e v))"
  using assms callbacks palias by (intro query_probe [of g p m path palias]) (auto simp: good_def)

definition same_pages :: "'w GXOS_VM_PAGING \<Rightarrow> 'w machine \<Rightarrow> 'w machine \<Rightarrow> bool" where
  "same_pages p m m' \<longleftrightarrow> (\<forall>v. pml4_index v = ucast (vp_arena_pml4_index p) \<longrightarrow>
     entry_of p m' v = entry_of p m v)"

lemma get_alloc:
  assumes "ok m" "alloc m = (True, ph, a, m')" "page_aligned t" "t \<noteq> a" "i < 0x200"
  shows "table_get m' t i = table_get m t i"
proof -
  note A = alloc_ok [OF assms(1,2)]
  then have "page_aligned a" by (simp add: owned_ok_def)
  from cell_in_page_iff [OF assms(3) this assms(5)] assms(4) A show ?thesis by (simp add: table_get_def)
qed

text \<open>A fresh page linked through a provider gives such a step.\<close>

lemma link_step_alloc:
  assumes good: "good p m path" and k: "k < vp_owned_table_page_count p" "length (path k) < 3"
    and i: "i < 0x200" "k = 0 \<longrightarrow> i = ucast (vp_arena_pml4_index p)"
    and absent: "\<not> entry_present (table_get m (tab p k) i)"
    and room: "vp_owned_table_page_count p < 64" and al: "alloc m = (True, ph, a, m1)"
  shows "link_step g p m path k i ph a (table_set (zero_page m1 a) (tab p k) i (ph OR 1 OR 2))"
proof -
  have tree: "paging_tree g p m path" and ok: "ok m" and held: "j < vp_owned_table_page_count p \<Longrightarrow> tab p j \<in> held m" for j
    using good by (auto simp: good_def)
  note A = alloc_ok [OF ok al]
  then have a: "page_aligned a" "owned_ok g (ph, a)" "a \<notin> held m" by (auto simp: owned_ok_def)
  have tabs: "tab p j \<noteq> a" if "j < vp_owned_table_page_count p" for j using held [OF that] a(3) by auto
  have "table_get (table_set (zero_page m1 a) (tab p k) i (ph OR 1 OR 2)) (tab p j) x =
      (if j = k \<and> x = i then ph OR 1 OR 2 else table_get m (tab p j) x)"
    if "j < vp_owned_table_page_count p" "x < 0x200" for j x
    using that a tabs tree_aligned [OF tree] k(1) i(1) paging_treeD(8) [OF tree that(1) k(1)]
      get_alloc [OF ok al _ tabs [OF that(1)] that(2)]
    by (simp add: table_get_set table_get_zero_page)
  moreover have "table_get (table_set (zero_page m1 a) (tab p k) i (ph OR 1 OR 2)) a x = 0"
    if "x < 0x200" for x
    using that a(1) tabs [OF k(1)] tree_aligned [OF tree k(1)] i(1)
    by (simp add: table_get_set table_get_zero_page)
  ultimately show ?thesis using tree k i absent room a(2) tabs by (simp add: link_step_def)
qed

lemma link_good:
  assumes good: "good p m path" and k: "k < vp_owned_table_page_count p" "length (path k) < 3"
    and i: "i < 0x200" "k = 0 \<longrightarrow> i = ucast (vp_arena_pml4_index p)"
    and absent: "\<not> entry_present (table_get m (tab p k) i)"
    and room: "vp_owned_table_page_count p < 64" and al: "alloc m = (True, ph, a, m1)"
    and m2: "m2 = table_set (zero_page m1 a) (tab p k) i (ph OR 1 OR 2)"
  shows "good (push_table p (ph, a)) m2 (path(vp_owned_table_page_count p := path k @ [i]))"
    and "same_pages p m m2"
    and "page_aligned t \<Longrightarrow> t \<in> foreign \<Longrightarrow> x < 0x200 \<Longrightarrow> table_get m2 t x = table_get m t x"
proof -
  note step = link_step_alloc [OF assms(1-8), folded m2]
  have tree: "paging_tree g p m path" and ok: "ok m" and held: "j < vp_owned_table_page_count p \<Longrightarrow> tab p j \<in> held m" for j
    using good by (auto simp: good_def)
  note A = alloc_ok [OF ok al]
  have "tab (push_table p (ph, a)) j \<in> held m2" if "j < Suc (vp_owned_table_page_count p)" for j
    using that A held link_pages [OF step, of j] by (auto simp: m2 less_Suc_eq)
  then show "good (push_table p (ph, a)) m2 (path(vp_owned_table_page_count p := path k @ [i]))"
    using good A link_tree [OF step] same_root_arena [OF same_root_push]
    by (auto simp: good_def m2 push_table_def)
  show "same_pages p m m2" using link_probe [OF step] by (simp add: same_pages_def)
  show "table_get m2 t x = table_get m t x" if t: "page_aligned t" "t \<in> foreign" "x < 0x200"
  proof -
    have "t \<noteq> a" "t \<noteq> tab p k" "page_aligned a"
      using t(2) A held [OF k(1)] held_foreign [OF ok] by (auto simp: owned_ok_def)
    with t tree_aligned [OF tree k(1)] i(1) get_alloc [OF ok al t(1)] show ?thesis
      by (simp add: m2 table_get_set table_get_zero_page)
  qed
qed

text \<open>Memory that is not an owned table may change freely.\<close>

lemma good_cong:
  assumes good: "good p m path" and ok: "ok m'" and held: "tab p ` {..<vp_owned_table_page_count p} \<subseteq> held m'"
    and get: "\<And>k i. k < vp_owned_table_page_count p \<Longrightarrow> i < 0x200 \<Longrightarrow>
      table_get m' (tab p k) i = table_get m (tab p k) i"
  shows "good p m' path" and "same_pages p m m'"
proof -
  have tree: "paging_tree g p m path" using good by (simp add: good_def)
  show "good p m' path" using good ok held tree_cong [OF tree get] by (simp add: good_def)
  have "probe g m' (tab p 0) (vpath v) = probe g m (tab p 0) (vpath v)"
    if "pml4_index v = ucast (vp_arena_pml4_index p)" for v
    using paging_treeD(1,2) [OF tree] vpath_slot [OF that] by (intro probe_cong [OF tree get]) auto
  then show "same_pages p m m'" using paging_treeD(3) [OF tree] by (simp add: same_pages_def)
qed

definition foreign_kept :: "'w machine \<Rightarrow> 'w machine \<Rightarrow> bool" where
  "foreign_kept m m' \<longleftrightarrow> (\<forall>t \<in> foreign. page_aligned t \<longrightarrow> (\<forall>i < 0x200. table_get m' t i = table_get m t i))"

lemma foreign_kept_refl [simp]: "foreign_kept m m" by (simp add: foreign_kept_def)

lemma foreign_kept_trans: "foreign_kept m m1 \<Longrightarrow> foreign_kept m1 m2 \<Longrightarrow> foreign_kept m m2"
  by (simp add: foreign_kept_def)

text \<open>What \<open>allocate_table\<close> does on a good tree, in every case.\<close>

definition grown :: "'w GXOS_VM_PAGING \<Rightarrow> 'w machine \<Rightarrow> (nat \<Rightarrow> u64 list) \<Rightarrow>
    'w GXOS_VM_PAGING \<Rightarrow> 'w machine \<Rightarrow> (nat \<Rightarrow> u64 list) \<Rightarrow> bool" where
  "grown p m path p' m' path' \<longleftrightarrow> good p' m' path' \<and> same_root p p' \<and> same_pages p m m' \<and>
     held m \<subseteq> held m' \<and>
     foreign_kept m m'"

lemma grown_refl: "good p m path \<Longrightarrow> grown p m path p m path"
  by (simp add: grown_def same_pages_def)

lemma grown_trans: "grown p m path p1 m1 path1 \<Longrightarrow> grown p1 m1 path1 p2 m2 path2 \<Longrightarrow> grown p m path p2 m2 path2"
  unfolding grown_def same_pages_def
  by (auto intro: same_root_trans foreign_kept_trans) (auto simp: same_root_def)

lemma allocate_table_spec:
  assumes good: "good p m path" and k: "k < vp_owned_table_page_count p" "length (path k) < 3"
    and i: "i < 0x200" "k = 0 \<longrightarrow> i = ucast (vp_arena_pml4_index p)"
    and op: "allocate_table p m (tab p k) i = (r, p', m')"
  shows "\<exists>path'. grown p m path p' m' path' \<and> leads r p' path' (path k @ [i])"
proof -
  have tree: "paging_tree g p m path" and ok: "ok m" and al: "vp_table_allocator p = al"
    using good by (auto simp: good_def)
  show ?thesis
  proof (cases "entry_present (table_get m (tab p k) i)")
    case True
    then obtain k' where k': "k' < vp_owned_table_page_count p" "path k' = path k @ [i]"
      "g (entry_address (table_get m (tab p k) i)) = tab p k'" "tab p k' \<noteq> 0"
      "table_get m (tab p k) i AND GXOS_X64_PAGING_ENTRY_PAGE_SIZE = 0"
      by (rule tree_child [OF tree k(1) i(1) k(2) i(2)])
    with op True palias [OF ok] callbacks al have "r = Inr (tab p k')" "p' = p" "m' = m"
      by (auto simp: allocate_table_def table_alias_def)
    with k' grown_refl [OF good] show ?thesis by (auto simp: leads_Inr)
  next
    case absent: False
    show ?thesis
    proof (cases "vp_owned_table_page_count p < 64")
      case False
      with op absent have "r = Inl GXOS_VM_PAGING_STATUS_CAPACITY" "p' = p" "m' = m"
        by (auto simp: allocate_table_def)
      with grown_refl [OF good] show ?thesis by (auto simp: leads_Inl)
    next
      case room: True
      obtain b ph a m1 where res: "alloc m = (b, ph, a, m1)" by (metis prod_cases4)
      show ?thesis
      proof (cases b)
        case False
        note F = alloc_fails [OF ok, of ph a m1]
        from op absent room res False callbacks al
        have "r = Inl GXOS_VM_PAGING_STATUS_ALLOCATION" "p' = p" "m' = m1"
          by (auto simp: allocate_table_def)
        moreover have "grown p m path p m1 path"
          using F res False good good_cong [OF good, of m1] tree_aligned [OF tree]
          by (auto simp: grown_def foreign_kept_def good_def image_subset_iff)
        ultimately show ?thesis by (auto simp: leads_Inl)
      next
        case True
        then have res: "alloc m = (True, ph, a, m1)" using res by simp
        note A = alloc_ok [OF ok res]
        define m2 where "m2 = table_set (zero_page m1 a) (tab p k) i (ph OR 1 OR 2)"
        have "ok m2" using A by (simp add: m2_def)
        then have ta: "table_alias m2 ph (Some palias) = Inr a"
          using A palias by (simp add: table_alias_def owned_ok_def)
        from op absent room res callbacks al A ta have "r = Inr a" "p' = push_table p (ph, a)" "m' = m2"
          by (auto simp: allocate_table_def m2_def owned_ok_def push_table_def Let_def)
        moreover note link_good [OF good k i absent room res m2_def] 
        moreover have "tab (push_table p (ph, a)) (vp_owned_table_page_count p) = a"
          using link_pages [OF link_step_alloc [OF good k i absent room res], of "vp_owned_table_page_count p"] by simp
        ultimately show ?thesis using A same_root_push
          by (intro exI [of _ "path(vp_owned_table_page_count p := path k @ [i])"])
            (auto simp: grown_def foreign_kept_def leads_Inr m2_def intro!: exI [of _ "vp_owned_table_page_count p"])
      qed
    qed
  qed
qed

lemma write_leaf:
  assumes good: "good p m path" and t: "tt < vp_owned_table_page_count p" "path tt = [pml4_index v, pdpt_index v, pd_index v]"
    and m': "m' = invalidate_page p' (table_set m (tab p tt) (pt_index v) e) v'"
  shows "good p m' path" and "held m' = held m"
    and "pml4_index u = ucast (vp_arena_pml4_index p) \<Longrightarrow> entry_of p m' u =
      (if vpath u = vpath v then (if entry_present e then Some e else None) else entry_of p m u)"
    and "foreign_kept m m'"
proof -
  have tree: "paging_tree g p m path" and held: "tab p tt \<in> held m" using good t(1) by (auto simp: good_def)
  have get: "table_get m' (tab p k) i = (if k = tt \<and> i = pt_index v then e else table_get m (tab p k) i)"
    if "k < vp_owned_table_page_count p" "i < 0x200" for k i
    using that tree_aligned [OF tree] t(1) paging_treeD(8) [OF tree that(1) t(1)]
    by (simp add: m' table_get_set)
  have len: "length (path tt) = 3" using t(2) by simp
  show "good p m' path" using good leaf_update_tree [OF tree t(1) len get] by (simp add: good_def m')
  show "held m' = held m" by (simp add: m')
  show "foreign_kept m m'"
    using held held_foreign [of m "tab p tt"] tree_aligned [OF tree t(1)] good
    by (auto simp: m' table_get_set foreign_kept_def good_def)
  show "entry_of p m' u = (if vpath u = vpath v then (if entry_present e then Some e else None) else entry_of p m u)"
    if u: "pml4_index u = ucast (vp_arena_pml4_index p)"
  proof -
    have "probe g m' (tab p 0) (vpath u) =
        (if path 0 @ vpath u = path tt @ [pt_index v] then (if entry_present e then Some e else None)
         else probe g m (tab p 0) (vpath u))"
      using paging_treeD(1,2) [OF tree] vpath_slot [OF u]
      by (intro probe_leaf_update [OF tree t(1) len get]) auto
    moreover have "path 0 @ vpath u = path tt @ [pt_index v] \<longleftrightarrow> vpath u = vpath v"
      using paging_treeD(1) [OF tree] t(2) by (simp add: vpath_def)
    ultimately show ?thesis using paging_treeD(3) [OF tree] by simp
  qed
qed

lemma entry_of_leaf:
  assumes "good p m path" "tt < vp_owned_table_page_count p" "path tt = [pml4_index v, pdpt_index v, pd_index v]"
  shows "entry_of p m v = (if entry_present (table_get m (tab p tt) (pt_index v))
    then Some (table_get m (tab p tt) (pt_index v)) else None)"
proof -
  have tree: "paging_tree g p m path" using assms(1) by (simp add: good_def)
  have "vpath v = path tt @ [pt_index v]" using assms(3) by (simp add: vpath_def)
  with probe_path [OF tree, of "[pt_index v]", OF _ assms(2)] paging_treeD(3) [OF tree] show ?thesis by simp
qed

text \<open>The three calls of \<open>allocate_table\<close> that lead to the leaf table of a page.\<close>

lemma descend_spec:
  assumes good: "good p m path" and v: "pml4_index v = ucast (vp_arena_pml4_index p)"
    and op: "descend p m v = (r, p', m')"
  shows "\<exists>path'. grown p m path p' m' path' \<and> leads r p' path' [pml4_index v, pdpt_index v, pd_index v]"
proof -
  have tree: "paging_tree g p m path" using good by (simp add: good_def)
  note root = paging_treeD(1-3) [OF tree]
  obtain r1 p1 m1 where a1: "allocate_table p m (vp_root_alias p) (pml4_index v) = (r1, p1, m1)" by (metis prod_cases3)
  have "\<exists>path1. grown p m path p1 m1 path1 \<and> leads r1 p1 path1 (path 0 @ [pml4_index v])"
    using allocate_table_spec [OF good root(2) _ index_lt(1)] root a1 v by simp
  then obtain path1 where s1: "grown p m path p1 m1 path1" and c1: "leads r1 p1 path1 [pml4_index v]"
    using root(1) by auto
  show ?thesis
  proof (cases r1)
    case (Inl st)
    with a1 op s1 c1 show ?thesis by (auto simp: descend_def leads_Inl)
  next
    case (Inr pdpt)
    with c1 obtain k1 where k1: "k1 < vp_owned_table_page_count p1" "pdpt = tab p1 k1" "path1 k1 = [pml4_index v]"
      by (auto simp: leads_Inr)
    have g1: "good p1 m1 path1" using s1 by (simp add: grown_def)
    then have t1: "paging_tree g p1 m1 path1" by (simp add: good_def)
    have k10: "k1 \<noteq> 0" using k1(3) by (intro tree_nonroot [OF t1]) simp
    obtain r2 p2 m2 where a2: "allocate_table p1 m1 pdpt (pdpt_index v) = (r2, p2, m2)" by (metis prod_cases3)
    have "\<exists>path2. grown p1 m1 path1 p2 m2 path2 \<and> leads r2 p2 path2 (path1 k1 @ [pdpt_index v])"
      using allocate_table_spec [OF g1 k1(1) _ index_lt(2)] k1 k10 a2 by simp
    then obtain path2 where s2: "grown p1 m1 path1 p2 m2 path2"
      and c2: "leads r2 p2 path2 [pml4_index v, pdpt_index v]" using k1(3) by auto
    note s12 = grown_trans [OF s1 s2]
    show ?thesis
    proof (cases r2)
      case Inl2: (Inl st)
      with Inr a1 a2 op s12 c2 show ?thesis by (auto simp: descend_def leads_Inl)
    next
      case Inr2: (Inr pd)
      with c2 obtain k2 where k2: "k2 < vp_owned_table_page_count p2" "pd = tab p2 k2"
        "path2 k2 = [pml4_index v, pdpt_index v]" by (auto simp: leads_Inr)
      have g2: "good p2 m2 path2" using s2 by (simp add: grown_def)
      then have t2: "paging_tree g p2 m2 path2" by (simp add: good_def)
      have k20: "k2 \<noteq> 0" using k2(3) by (intro tree_nonroot [OF t2]) simp
      from op Inr Inr2 a1 a2 have a3: "allocate_table p2 m2 (tab p2 k2) (pd_index v) = (r, p', m')"
        using k2 by (simp add: descend_def)
      have "\<exists>path3. grown p2 m2 path2 p' m' path3 \<and> leads r p' path3 (path2 k2 @ [pd_index v])"
        using allocate_table_spec [OF g2 k2(1) _ index_lt(3) _ a3] k2 k20 by simp
      with grown_trans [OF s12] show ?thesis using k2(3) by auto
    qed
  qed
qed

text \<open>
  Mapping a page. On success exactly the addresses of that page are translated anew; otherwise
  no translation changes.
\<close>

definition mapped_pages :: "'w GXOS_VM_PAGING \<Rightarrow> 'w machine \<Rightarrow> 'w machine \<Rightarrow> u64 \<Rightarrow> u64 option \<Rightarrow> bool" where
  "mapped_pages p m m' v e \<longleftrightarrow> (\<forall>u. pml4_index u = ucast (vp_arena_pml4_index p) \<longrightarrow>
     entry_of p m' u = (if vpath u = vpath v then e else entry_of p m u))"

lemma map_args_slot:
  assumes "good p m path" "map_args_ok p v ph"
  shows "canonical48 v" "pml4_index v = ucast (vp_arena_pml4_index p)" "page_aligned v" "page_aligned ph" "ph \<noteq> 0"
proof -
  have a: "arena_ok p" using assms(1) by (simp add: good_def)
  from assms(2) have "page_aligned v" "unat (vp_arena_base p) \<le> unat v"
    "unat v + 4096 \<le> unat (vp_arena_base p) + unat (vp_arena_length p)"
    by (auto simp: map_args_ok_def arena_contains_page_iff [OF a])
  with arena_slot [OF a, of v] assms(2)
  show "canonical48 v" "pml4_index v = ucast (vp_arena_pml4_index p)" "page_aligned v" "page_aligned ph" "ph \<noteq> 0"
    by (auto simp: map_args_ok_def)
qed

lemma map_page_descend:
  assumes good: "good p m path" and args: "map_args_ok p v ph"
  shows "gxos_vm_paging_map_page p m v ph w x =
    (case descend p m v of
       (Inl status, p', m') \<Rightarrow> (status, p', m')
     | (Inr pt, p', m') \<Rightarrow>
         if entry_present (table_get m' pt (pt_index v)) then (GXOS_VM_PAGING_STATUS_CONFLICT, p', m')
         else (GXOS_VM_PAGING_STATUS_OK, p', invalidate_page p'
           (table_set m' pt (pt_index v) (leaf_entry (vp_nx_enabled p') ph w x)) v))"
proof -
  have "vp_root_alias p \<noteq> 0"
    using good paging_treeD(2,3) [of g p m path] paging_treeD(5) [of g p m path 0]
    by (auto simp: good_def owned_ok_def)
  with map_args_slot [OF assms] args show ?thesis
    unfolding gxos_vm_paging_map_page_def descend_def leaf_entry_def Let_def
    by (simp add: page_aligned_iff map_args_ok_def split: prod.split sum.split)
qed

lemma map_page_refused:
  assumes good: "good p m path" and args: "\<not> map_args_ok p v ph"
  shows "\<exists>st. gxos_vm_paging_map_page p m v ph w x = (st, p, m) \<and> st \<noteq> GXOS_VM_PAGING_STATUS_OK"
  using args unfolding gxos_vm_paging_map_page_def
  by (auto simp: page_aligned_iff map_args_ok_def)

lemma map_page_spec:
  assumes good: "good p m path" and op: "gxos_vm_paging_map_page p m v ph w x = (st, p', m')"
  shows "\<exists>path'. good p' m' path' \<and> same_root p p' \<and> held m \<subseteq> held m' \<and>
    foreign_kept m m' \<and>
    (if st = GXOS_VM_PAGING_STATUS_OK
     then map_args_ok p v ph \<and> entry_of p m v = None \<and>
       mapped_pages p m m' v (Some (leaf_entry (vp_nx_enabled p) ph w x))
     else same_pages p m m' \<and> (map_args_ok p v ph \<and> entry_of p m v = None \<longrightarrow>
       st \<in> {GXOS_VM_PAGING_STATUS_CAPACITY, GXOS_VM_PAGING_STATUS_ALLOCATION}))"
proof (cases "map_args_ok p v ph")
  case False
  with map_page_refused [OF good False, of w x] op good grown_refl [OF good] show ?thesis
    by (auto simp: grown_def)
next
  case args: True
  note v = map_args_slot [OF good args]
  obtain r p1 m1 where d: "descend p m v = (r, p1, m1)" by (metis prod_cases3)
  obtain path1 where gr: "grown p m path p1 m1 path1"
    and lead: "leads r p1 path1 [pml4_index v, pdpt_index v, pd_index v]"
    using descend_spec [OF good v(2) d] by blast
  have g1: "good p1 m1 path1" and sr: "same_root p p1" and sp: "same_pages p m m1"
    using gr by (simp_all add: grown_def)
  note op' = op [unfolded map_page_descend [OF good args] d, simplified]
  show ?thesis
  proof (cases r)
    case (Inl status)
    with op' lead gr show ?thesis by (auto simp: grown_def leads_Inl)
  next
    case (Inr pt)
    with lead obtain tt where tt: "tt < vp_owned_table_page_count p1" "pt = tab p1 tt"
      "path1 tt = [pml4_index v, pdpt_index v, pd_index v]" by (auto simp: leads_Inr)
    have root: "vp_root_alias p1 = vp_root_alias p" "vp_arena_pml4_index p1 = vp_arena_pml4_index p"
      "vp_nx_enabled p1 = vp_nx_enabled p" using sr by (simp_all add: same_root_def)
    have e: "entry_of p m v = (if entry_present (table_get m1 pt (pt_index v))
        then Some (table_get m1 pt (pt_index v)) else None)"
      using entry_of_leaf [OF g1 tt(1,3)] sp v(2) root tt(2) by (simp add: same_pages_def)
    show ?thesis
    proof (cases "entry_present (table_get m1 pt (pt_index v))")
      case True
      with op' Inr e gr show ?thesis by (auto simp: grown_def)
    next
      case False
      with op' Inr have res: "st = GXOS_VM_PAGING_STATUS_OK" "p' = p1"
        "m' = invalidate_page p1 (table_set m1 (tab p1 tt) (pt_index v) (leaf_entry (vp_nx_enabled p) ph w x)) v"
        using tt(2) root by auto
      note W = write_leaf [OF g1 tt(1,3) res(3)]
      have "mapped_pages p m m' v (Some (leaf_entry (vp_nx_enabled p) ph w x))"
        using W(3) sp root by (simp add: mapped_pages_def same_pages_def)
      moreover have "foreign_kept m m'" using W(4) gr by (auto simp: grown_def intro: foreign_kept_trans)
      ultimately show ?thesis using W(1,2) False res e args gr by (auto simp: grown_def)
    qed
  qed
qed

text \<open>Unmapping a page.\<close>

lemma tree_steps:
  assumes good: "good p m path" and v: "pml4_index v = ucast (vp_arena_pml4_index p)"
    and k: "k < vp_owned_table_page_count p" "length q < 3" "path k = q" "q = [] \<longrightarrow> i = pml4_index v" "i < 0x200"
    and e: "entry_present (table_get m (tab p k) i)"
  shows "\<exists>k' < vp_owned_table_page_count p. path k' = q @ [i] \<and>
    table_alias m (entry_address (table_get m (tab p k) i)) (pa_physical_alias (vp_table_allocator p)) = Inr (tab p k') \<and>
    table_get m (tab p k) i AND GXOS_X64_PAGING_ENTRY_PAGE_SIZE = 0"
proof -
  have tree: "paging_tree g p m path" and ok: "ok m" and al: "vp_table_allocator p = al"
    using good by (auto simp: good_def)
  have "k = 0 \<longrightarrow> i = ucast (vp_arena_pml4_index p)" using k v paging_treeD(1) [OF tree] by auto
  from tree_child [OF tree k(1,5) _ this e] k(2,3) obtain k'
    where "k' < vp_owned_table_page_count p" "path k' = q @ [i]"
      "g (entry_address (table_get m (tab p k) i)) = tab p k'" "tab p k' \<noteq> 0"
      "table_get m (tab p k) i AND GXOS_X64_PAGING_ENTRY_PAGE_SIZE = 0" by metis
  with palias [OF ok] callbacks al show ?thesis by (auto simp: table_alias_def)
qed

lemma unmap_page_eq:
  assumes good: "good p m path" and args: "arena_contains_page p v"
  shows "(gxos_vm_paging_unmap_page p m v = (GXOS_VM_PAGING_STATUS_NOT_PRESENT, m, 0) \<and> entry_of p m v = None) \<or>
    (\<exists>tt < vp_owned_table_page_count p. path tt = [pml4_index v, pdpt_index v, pd_index v] \<and>
       entry_of p m v = Some (table_get m (tab p tt) (pt_index v)) \<and>
       gxos_vm_paging_unmap_page p m v = (GXOS_VM_PAGING_STATUS_OK,
         invalidate_page p (table_set m (tab p tt) (pt_index v) 0) v,
         entry_address (table_get m (tab p tt) (pt_index v))))"
proof -
  have tree: "paging_tree g p m path" and al: "vp_table_allocator p = al" using good by (auto simp: good_def)
  note root = paging_treeD(1-3) [OF tree]
  have r0: "vp_root_alias p \<noteq> 0" using paging_treeD(5) [OF tree root(2)] root(3) by (simp add: owned_ok_def)
  have "map_args_ok p v 0x1000" using args by (simp add: map_args_ok_def page_aligned_def)
  note v = map_args_slot(1-3) [OF good this]
  note U = gxos_vm_paging_unmap_page_def page_aligned_iff v(1,3) args r0
  have rp: "entry_of p m v = probe g m (tab p 0) (vpath v)" by (simp add: root)
  show ?thesis
  proof (cases "entry_present (table_get m (tab p 0) (pml4_index v))")
    case False
    then show ?thesis unfolding rp by (simp add: U root vpath_def)
  next
    case p4: True
    obtain k3 where k3: "k3 < vp_owned_table_page_count p" "path k3 = [pml4_index v]"
      "table_alias m (entry_address (table_get m (tab p 0) (pml4_index v))) (pa_physical_alias (vp_table_allocator p)) = Inr (tab p k3)"
      using tree_steps [OF good v(2) root(2) _ root(1) _ index_lt(1), OF _ _ p4] by auto
    note q3 = probe_path [OF tree _ k3(1), unfolded k3(2), of "[pdpt_index v, pd_index v, pt_index v]"]
    show ?thesis
    proof (cases "entry_present (table_get m (tab p k3) (pdpt_index v))")
      case False
      with p4 k3 q3 show ?thesis unfolding rp by (simp add: U root vpath_def)
    next
      case p3: True
      obtain k2 where k2: "k2 < vp_owned_table_page_count p" "path k2 = [pml4_index v, pdpt_index v]"
        "table_alias m (entry_address (table_get m (tab p k3) (pdpt_index v))) (pa_physical_alias (vp_table_allocator p)) = Inr (tab p k2)"
        "table_get m (tab p k3) (pdpt_index v) AND GXOS_X64_PAGING_ENTRY_PAGE_SIZE = 0"
        using tree_steps [OF good v(2) k3(1) _ k3(2) _ index_lt(2), OF _ _ p3] by auto
      note q2 = probe_path [OF tree _ k2(1), unfolded k2(2), of "[pd_index v, pt_index v]"]
      show ?thesis
      proof (cases "entry_present (table_get m (tab p k2) (pd_index v))")
        case False
        with p4 k3 p3 k2 q2 show ?thesis unfolding rp by (simp add: U root vpath_def)
      next
        case p2: True
        obtain k1 where k1: "k1 < vp_owned_table_page_count p" "path k1 = [pml4_index v, pdpt_index v, pd_index v]"
          "table_alias m (entry_address (table_get m (tab p k2) (pd_index v))) (pa_physical_alias (vp_table_allocator p)) = Inr (tab p k1)"
          "table_get m (tab p k2) (pd_index v) AND GXOS_X64_PAGING_ENTRY_PAGE_SIZE = 0"
          using tree_steps [OF good v(2) k2(1) _ k2(2) _ index_lt(3), OF _ _ p2] by auto
        note e = entry_of_leaf [OF good k1(1,2)]
        show ?thesis
        proof (cases "entry_present (table_get m (tab p k1) (pt_index v))")
          case False
          with e p4 k3 p3 k2 p2 k1 show ?thesis by (simp add: U root)
        next
          case True
          with e p4 k3 p3 k2 p2 k1 show ?thesis
            by (intro disjI2 exI [of _ k1]) (simp add: U root)
        qed
      qed
    qed
  qed
qed

lemma unmap_page_spec:
  assumes good: "good p m path" and op: "gxos_vm_paging_unmap_page p m v = (st, m', out)"
  shows "good p m' path \<and> held m' = held m \<and>
    foreign_kept m m' \<and>
    (if st = GXOS_VM_PAGING_STATUS_OK
     then arena_contains_page p v \<and> entry_of p m v \<noteq> None \<and> out = entry_address (the (entry_of p m v)) \<and>
       mapped_pages p m m' v None
     else m' = m \<and> out = 0 \<and> (arena_contains_page p v \<longrightarrow> entry_of p m v = None))"
proof (cases "arena_contains_page p v")
  case False
  then have "\<exists>st. st \<noteq> GXOS_VM_PAGING_STATUS_OK \<and> gxos_vm_paging_unmap_page p m v = (st, m, 0)"
    by (auto simp: gxos_vm_paging_unmap_page_def Let_def)
  with op good False show ?thesis by auto
next
  case True
  from unmap_page_eq [OF good True] show ?thesis
  proof (elim disjE conjE exE)
    assume "gxos_vm_paging_unmap_page p m v = (GXOS_VM_PAGING_STATUS_NOT_PRESENT, m, 0)" "entry_of p m v = None"
    with good op show ?thesis by auto
  next
    fix tt assume tt: "tt < vp_owned_table_page_count p" "path tt = [pml4_index v, pdpt_index v, pd_index v]"
      "entry_of p m v = Some (table_get m (tab p tt) (pt_index v))"
      "gxos_vm_paging_unmap_page p m v = (GXOS_VM_PAGING_STATUS_OK,
         invalidate_page p (table_set m (tab p tt) (pt_index v) 0) v,
         entry_address (table_get m (tab p tt) (pt_index v)))"
    with op have res: "st = GXOS_VM_PAGING_STATUS_OK" "m' = invalidate_page p (table_set m (tab p tt) (pt_index v) 0) v"
      "out = entry_address (table_get m (tab p tt) (pt_index v))" by auto
    note W = write_leaf [OF good tt(1,2) res(2)]
    then have "mapped_pages p m m' v None" by (simp add: mapped_pages_def)
    with W res tt True show ?thesis by auto
  qed
qed

text \<open>Creating the owned root.\<close>

lemma ok_copy_root [simp]: "ok (copy_root m r c) = ok m" "held (copy_root m r c) = held m"
proof -
  have "ok (fold (\<lambda>index m. table_set m r (of_nat index) (table_get m c (of_nat index))) xs m) = ok m \<and>
      held (fold (\<lambda>index m. table_set m r (of_nat index) (table_get m c (of_nat index))) xs m) = held m"
    for xs :: "nat list" by (induction xs arbitrary: m) auto
  then show "ok (copy_root m r c) = ok m" "held (copy_root m r c) = held m" by (simp_all add: copy_root_def)
qed

lemma root_tree:
  assumes "owned_ok g (ph, a)" and "\<not> entry_present (table_get m a (ucast (vp_arena_pml4_index p)))"
    and "vp_owned_table_page_count p = 1" "length (vp_owned_table_pages p) = 64"
    and "vp_owned_table_pages p ! 0 = (ph, a)" "vp_root_physical p = ph" "vp_root_alias p = a"
  shows "paging_tree g p m (\<lambda>_. [])"
  using assms by (auto simp: paging_tree_def entry_ok_def inj_on_def)

lemma create_spec:
  assumes ok: "ok m"
    and arena: "4096 \<le> unat len" "unat base div 2 ^ 39 = (unat base + unat len - 1) div 2 ^ 39"
    and op: "gxos_vm_paging_create p0 m cr3 base len nx al = (GXOS_VM_PAGING_STATUS_OK, p, m')"
  shows "good p m' (\<lambda>_. []) \<and> held m' = insert (vp_root_alias p) (held m) \<and>
    vp_root_alias p \<notin> held m \<and> vp_arena_base p = base \<and> vp_arena_length p = len \<and>
    (\<forall>v. pml4_index v = pml4_index base \<longrightarrow> entry_of p m' v = None)"
proof -
  let ?cur = "table_alias m (cr3 AND GXOS_X64_PAGING_PHYSICAL_MASK) (Some palias)"
  have guards: "canonical48 base" "range_ok base len"
    using op arena(1) unfolding gxos_vm_paging_create_def range_end_range_ok by (auto split: if_splits)
  obtain c where c: "?cur = Inr c"
    using op callbacks guards unfolding gxos_vm_paging_create_def range_end_range_ok
    by (cases ?cur) (auto split: if_splits)
  obtain b ph a m1 where res: "alloc m = (b, ph, a, m1)" by (metis prod_cases4)
  define m2 where "m2 = copy_root (zero_page m1 a) a c"
  have b: "b" using op callbacks guards c res unfolding gxos_vm_paging_create_def range_end_range_ok
    by (auto split: if_splits)
  then have A: "ok m1 \<and> held m1 = insert a (held m) \<and> a \<notin> held m \<and> owned_ok g (ph, a)"
    using alloc_ok [OF ok, of ph a m1] res by simp
  have "unat (ucast (pml4_index base) :: u32) = unat (pml4_index base)"
    by (simp add: unsigned_ucast_eq take_bit_nat_eq_self unat_indices)
  then have idx: "ucast (ucast (pml4_index base) :: u32) = pml4_index base"
    by (simp only: unat_eq_iff unat_ucast_u32_u64)
  from op callbacks guards c res b A have out: "m' = m2"
    "p = zero_paging
       \<lparr> vp_root_physical := ph, vp_root_alias := a, vp_arena_base := base, vp_arena_length := len,
         vp_arena_pml4_index := ucast (pml4_index base), vp_nx_enabled := nx, vp_table_allocator := al,
         vp_owned_table_page_count := 1,
         vp_owned_table_pages := (vp_owned_table_pages (zero_paging :: 'w GXOS_VM_PAGING))[0 := (ph, a)] \<rparr>"
    and absent: "\<not> entry_present (table_get m2 a (pml4_index base))"
    unfolding gxos_vm_paging_create_def range_end_range_ok
    by (auto simp: owned_ok_def m2_def Let_def split: if_splits)
  have fields: "vp_root_alias p = a" "vp_arena_base p = base" "vp_arena_length p = len" "vp_table_allocator p = al"
    "vp_owned_table_page_count p = 1" "vp_owned_table_pages p ! 0 = (ph, a)" "vp_root_physical p = ph"
    "length (vp_owned_table_pages p) = 64" "ucast (vp_arena_pml4_index p) = pml4_index base"
    using idx by (simp_all add: out zero_paging_def)
  have tree: "paging_tree g p m' (\<lambda>_. [])"
    using A absent fields by (intro root_tree [of ph a]) (simp_all add: out(1))
  have held': "ok m'" "held m' = insert a (held m)" using A by (simp_all add: out m2_def)
  then have "good p m' (\<lambda>_. [])"
    using tree fields guards arena by (auto simp: good_def arena_ok_def)
  with A absent fields held' show ?thesis by (simp add: vpath_def out)
qed

end

end
