(* ===== verification/VM_Uefi_Pages.thy ===== *)
theory VM_Uefi_Pages
  imports VM_Paging_Range Physical_Ledger
begin

text \<open>
  The loader's page allocator, \<open>vm_uefi_physical_alias\<close>, \<open>vm_uefi_allocate_page\<close> and
  \<open>vm_uefi_free_page\<close> of \<open>src/src/Gate4Harness/gate4_loader.c\<close>: one firmware page per request,
  reachable through the firmware's identity map and recorded in the physical ledger. It is the
  provider of the page tables, and the ledger's check against overlaps is what makes a page
  it hands out fresh.

  \<open>AllocatePages\<close> and \<open>FreePages\<close> are services of the firmware: parameters, called with the
  loader's fixed arguments, that act on the firmware's own state. \<open>None\<close> is a missing service.
  \<open>fail\<close>, which never returns, is recorded in \<open>lw_halted\<close>; nothing after it is observed.
\<close>

record 'f EFI_BOOT_SERVICES =
  bs_AllocatePages :: "('f \<Rightarrow> u64 \<times> u64 \<times> 'f) option"
  bs_FreePages :: "('f \<Rightarrow> u64 \<Rightarrow> u64 \<times> 'f) option"

record 'f loader_vm =
  lw_ledger :: GXOS_PHYSICAL_LEDGER
  lw_audit :: GXOS_X64_PAGING_AUDIT
  lw_audit_complete :: bool
  lw_firmware :: 'f
  lw_halted :: "string option"

record GXOS_VM_UEFI_PAGE_CONTEXT =
  uc_generation :: u64
  uc_allocation_class :: u32
  uc_owner :: u32
  uc_commit_impact_bytes :: u64

abbreviation (input) EFI_PAGE_SIZE :: u64 where
  "EFI_PAGE_SIZE \<equiv> 0x1000"

definition efi_error :: "u64 \<Rightarrow> bool" where
  "efi_error status \<longleftrightarrow> drop_bit 63 status \<noteq> 0"

definition upd_world :: "('w \<Rightarrow> 'w) \<Rightarrow> 'w machine \<Rightarrow> 'w machine" where
  "upd_world f m = m\<lparr> mc_world := f (mc_world m) \<rparr>"

definition fail :: "string \<Rightarrow> 'f loader_vm machine \<Rightarrow> 'f loader_vm machine" where
  "fail reason m = upd_world (\<lambda>w. w\<lparr> lw_halted := Some reason \<rparr>) m"

definition vm_uefi_physical_alias :: "'f loader_vm machine \<Rightarrow> u64 \<Rightarrow> u64" where
  "vm_uefi_physical_alias m physical_address =
     (if physical_address mod EFI_PAGE_SIZE \<noteq> 0 \<or> physical_address > UINT64_MAX - EFI_PAGE_SIZE then 0
      else let bytes = au_direct_identity_bytes (lw_audit (mc_world m)) in
        if lw_audit_complete (mc_world m) \<and>
           (bytes < EFI_PAGE_SIZE \<or> physical_address > bytes - EFI_PAGE_SIZE)
        then 0
        else physical_address)"

text \<open>The calls of the firmware, with the arguments the loader passes.\<close>

definition firmware_free :: "'f EFI_BOOT_SERVICES \<Rightarrow> u64 \<Rightarrow> 'f loader_vm machine \<Rightarrow> u64 \<times> 'f loader_vm machine" where
  "firmware_free boot physical m =
     (case the (bs_FreePages boot) (lw_firmware (mc_world m)) physical of
        (status, f) \<Rightarrow> (status, upd_world (\<lambda>w. w\<lparr> lw_firmware := f \<rparr>) m))"

definition identity_mapped :: "'f loader_vm machine \<Rightarrow> u64 \<Rightarrow> bool" where
  "identity_mapped m physical =
     (case gxos_vm_paging_query_root m
             (au_cr3 (lw_audit (mc_world m)) AND GXOS_X64_PAGING_PHYSICAL_MASK) physical
             (Some vm_uefi_physical_alias) of
        (status, mapping) \<Rightarrow> \<not> (status \<noteq> GXOS_VM_PAGING_STATUS_OK \<or> \<not> mp_present mapping \<or>
                              mp_physical_base mapping \<noteq> physical))"

definition uefi_allocation :: "GXOS_VM_UEFI_PAGE_CONTEXT \<Rightarrow> u64 \<Rightarrow> GXOS_PHYSICAL_ALLOCATION" where
  "uefi_allocation ctx physical =
     zero_physical_allocation
       \<lparr> pa_base := physical, pa_bytes := EFI_PAGE_SIZE, pa_pages := 1,
         pa_allocation_class := uc_allocation_class ctx, pa_owner := uc_owner ctx,
         pa_physical_impact_bytes := EFI_PAGE_SIZE,
         pa_commit_impact_bytes := uc_commit_impact_bytes ctx,
         pa_virtual_reservation_impact_bytes := 0, pa_generation := uc_generation ctx \<rparr>"

text \<open>What the allocator does with the page the firmware returned.\<close>

definition uefi_take_page ::
    "'f EFI_BOOT_SERVICES \<Rightarrow> GXOS_VM_UEFI_PAGE_CONTEXT \<Rightarrow> u64 \<Rightarrow> 'f loader_vm machine \<Rightarrow>
     bool \<times> u64 \<times> u64 \<times> 'f loader_vm machine" where
  "uefi_take_page boot ctx physical m =
     (if physical = 0 then (False, 0, 0, snd (firmware_free boot physical m))
      else if au_cr3 (lw_audit (mc_world m)) \<noteq> 0 \<and> \<not> identity_mapped m physical
      then (False, 0, 0, snd (firmware_free boot physical m))
      else let alias = vm_uefi_physical_alias m physical in
        if alias = 0 then (False, 0, 0, snd (firmware_free boot physical m))
        else
          let m = zero_page m alias in
          case gxos_physical_ledger_insert (lw_ledger (mc_world m)) (uefi_allocation ctx physical) of
            (ledger_status, ledger, _) \<Rightarrow>
              let m = upd_world (\<lambda>w. w\<lparr> lw_ledger := ledger \<rparr>) m in
              if ledger_status \<noteq> GXOS_LEDGER_STATUS_OK
              then (False, 0, 0, snd (firmware_free boot physical m))
              else (True, physical, alias, m))"

definition vm_uefi_allocate_page ::
    "'f EFI_BOOT_SERVICES \<Rightarrow> GXOS_VM_UEFI_PAGE_CONTEXT \<Rightarrow> 'f loader_vm machine \<Rightarrow>
     bool \<times> u64 \<times> u64 \<times> 'f loader_vm machine" where
  "vm_uefi_allocate_page boot ctx m =
     (if uc_generation ctx = 0 \<or> bs_AllocatePages boot = None \<or> bs_FreePages boot = None
      then (False, 0, 0, m)
      else case the (bs_AllocatePages boot) (lw_firmware (mc_world m)) of (status, physical, f) \<Rightarrow>
        let m = upd_world (\<lambda>w. w\<lparr> lw_firmware := f \<rparr>) m in
        if efi_error status then (False, 0, 0, m)
        else uefi_take_page boot ctx physical m)"

definition vm_uefi_free_page ::
    "'f EFI_BOOT_SERVICES \<Rightarrow> 'f loader_vm machine \<Rightarrow> u64 \<Rightarrow> u64 \<Rightarrow> 'f loader_vm machine" where
  "vm_uefi_free_page boot m physical_address alias =
     (case gxos_physical_ledger_find (lw_ledger (mc_world m)) physical_address EFI_PAGE_SIZE of
        None \<Rightarrow> fail ''vm-page-free-ledger'' m
      | Some ledger_slot \<Rightarrow>
          if bs_FreePages boot = None then fail ''vm-page-free-firmware'' m
          else case firmware_free boot physical_address m of (status, m) \<Rightarrow>
            if efi_error status then fail ''vm-page-free-firmware'' m
            else case gxos_physical_ledger_remove (lw_ledger (mc_world m)) ledger_slot of
              (ledger_status, ledger) \<Rightarrow>
                let m = upd_world (\<lambda>w. w\<lparr> lw_ledger := ledger \<rparr>) m in
                if ledger_status \<noteq> GXOS_LEDGER_STATUS_OK then fail ''vm-page-free-accounting'' m
                else m)"

definition vm_uefi_allocator ::
    "'f EFI_BOOT_SERVICES \<Rightarrow> GXOS_VM_UEFI_PAGE_CONTEXT \<Rightarrow> 'f loader_vm GXOS_VM_PAGE_ALLOCATOR" where
  "vm_uefi_allocator boot ctx =
     \<lparr> pa_allocate_page = Some (vm_uefi_allocate_page boot ctx),
       pa_free_page = Some (vm_uefi_free_page boot),
       pa_physical_alias = Some vm_uefi_physical_alias \<rparr>"

subsection \<open>What the allocator relies on and what it keeps\<close>

text \<open>
  The documented behaviour of the firmware: a page it hands out is not one it has handed out
  before and not taken back, nor a foreign one; a failing call changes nothing; freeing a
  page frees that page only. \<open>fw\<close> are the pages in use in a state of the firmware.
\<close>

definition honest_firmware :: "'f EFI_BOOT_SERVICES \<Rightarrow> ('f \<Rightarrow> u64 set) \<Rightarrow> u64 set \<Rightarrow> bool" where
  "honest_firmware boot fw foreign \<longleftrightarrow>
     (\<forall>allocate f st ph f'. bs_AllocatePages boot = Some allocate \<longrightarrow> allocate f = (st, ph, f') \<longrightarrow>
        (if efi_error st then fw f \<subseteq> fw f'
         else ph \<notin> fw f \<and> ph \<notin> foreign \<and> insert ph (fw f) \<subseteq> fw f')) \<and>
     (\<forall>free f st ph f'. bs_FreePages boot = Some free \<longrightarrow> free f ph = (st, f') \<longrightarrow>
        (if efi_error st then fw f else fw f - {ph}) \<subseteq> fw f')"

definition uefi_alias :: "GXOS_X64_PAGING_AUDIT \<Rightarrow> u64 \<Rightarrow> u64" where
  "uefi_alias audit ph =
     (if ph mod EFI_PAGE_SIZE \<noteq> 0 \<or> ph > UINT64_MAX - EFI_PAGE_SIZE \<or>
         au_direct_identity_bytes audit < EFI_PAGE_SIZE \<or> ph > au_direct_identity_bytes audit - EFI_PAGE_SIZE
      then 0 else ph)"

text \<open>The pages that the ledger records as single pages.\<close>

definition ledger_pages :: "GXOS_PHYSICAL_LEDGER \<Rightarrow> u64 set" where
  "ledger_pages l = {pa_base e | e. e \<in> set (pl_entries l) \<and> pa_live e \<and> pa_bytes e = EFI_PAGE_SIZE \<and>
     pa_base e \<noteq> 0 \<and> page_aligned (pa_base e)}"

definition uefi_held :: "'f loader_vm machine \<Rightarrow> u64 set" where
  "uefi_held m = ledger_pages (lw_ledger (mc_world m))"

definition uefi_ok ::
    "'f EFI_BOOT_SERVICES \<Rightarrow> ('f \<Rightarrow> u64 set) \<Rightarrow> u64 set \<Rightarrow> GXOS_X64_PAGING_AUDIT \<Rightarrow>
     'f loader_vm machine \<Rightarrow> bool" where
  "uefi_ok boot fw foreign audit m \<longleftrightarrow>
     honest_firmware boot fw foreign \<and> ledger_inv (lw_ledger (mc_world m)) \<and>
     lw_audit (mc_world m) = audit \<and> lw_audit_complete (mc_world m) \<and>
     unat (au_direct_identity_bytes audit) \<le> 2 ^ 52 \<and>
     uefi_held m \<subseteq> fw (lw_firmware (mc_world m)) \<and> uefi_held m \<inter> foreign = {}"

lemma uefi_alias_eq:
  "uefi_ok boot fw foreign audit m \<Longrightarrow> vm_uefi_physical_alias m ph = uefi_alias audit ph"
  by (simp add: uefi_ok_def vm_uefi_physical_alias_def uefi_alias_def Let_def)

lemma entry_address_self:
  assumes "page_aligned ph" and "unat ph < 2 ^ 52"
  shows "entry_address ph = ph"
proof -
  have "take_bit 52 ph = ph"
    using assms(2) by (simp add: unat_eq_iff unsigned_take_bit_eq take_bit_nat_eq_self)
  moreover have "unat (ph AND NOT (mask 12)) = unat ph"
    using assms(1) unat_and_not_mask [of ph 12] by (simp add: page_aligned_def)
  ultimately show ?thesis
    unfolding entry_address_def physical_mask
    by (metis and.assoc take_bit_eq_mask word_unat_eq_iff)
qed

lemma uefi_alias_owned:
  assumes "uefi_alias audit ph \<noteq> 0" and "unat (au_direct_identity_bytes audit) \<le> 2 ^ 52"
  shows "uefi_alias audit ph = ph" and "owned_ok (uefi_alias audit) (ph, ph)"
proof -
  from assms(1) have ph: "ph \<noteq> 0" "page_aligned ph" "\<not> au_direct_identity_bytes audit < EFI_PAGE_SIZE"
    "\<not> ph > au_direct_identity_bytes audit - EFI_PAGE_SIZE" and self: "uefi_alias audit ph = ph"
    by (auto simp: uefi_alias_def page_aligned_iff split: if_splits)
  show "uefi_alias audit ph = ph" by fact
  have "unat ph \<le> unat (au_direct_identity_bytes audit) - 4096"
    using ph(3,4) by (simp add: word_le_nat_alt word_less_nat_alt unat_sub_le not_less)
  moreover have "4096 \<le> unat (au_direct_identity_bytes audit)"
    using ph(3) by (simp add: word_less_nat_alt not_less)
  ultimately have "unat ph < 2 ^ 52" using assms(2) by linarith
  with ph self entry_address_self show "owned_ok (uefi_alias audit) (ph, ph)" by (simp add: owned_ok_def)
qed

lemma filter_set_update:
  assumes "i < length xs"
  shows "\<not> P (xs ! i) \<Longrightarrow> P x \<Longrightarrow> {e \<in> set (xs[i := x]). P e} = insert x {e \<in> set xs. P e}"
    and "\<not> P x \<Longrightarrow> {e \<in> set (xs[i := x]). P e} \<subseteq> {e \<in> set xs. P e}"
    and "\<not> P x \<Longrightarrow> {e \<in> set xs. P e} - {xs ! i} \<subseteq> {e \<in> set (xs[i := x]). P e}"
  using assms by (fastforce simp: in_set_conv_nth nth_list_update_cases)+

lemma ledger_pages_image:
  "ledger_pages l = pa_base ` {e \<in> set (pl_entries l). pa_live e \<and> pa_bytes e = EFI_PAGE_SIZE \<and>
     pa_base e \<noteq> 0 \<and> page_aligned (pa_base e)}"
  by (auto simp: ledger_pages_def)

lemma ledger_pages_insert:
  assumes "ledger_inv l" and "gxos_physical_ledger_insert l (uefi_allocation ctx ph) = (st, l', r)"
    and "ph \<noteq> 0" "page_aligned ph"
  shows "ledger_inv l'" and "ledger_pages l' = (if st = GXOS_LEDGER_STATUS_OK then insert ph (ledger_pages l)
    else ledger_pages l)"
proof -
  show "ledger_inv l'" by (rule physical_insert_keeps [OF assms(1,2)])
  show "ledger_pages l' = (if st = GXOS_LEDGER_STATUS_OK then insert ph (ledger_pages l) else ledger_pages l)"
  proof (cases "st = GXOS_LEDGER_STATUS_OK")
    case True
    with assms(2) obtain i where i: "l' = physical_inserted l (uefi_allocation ctx ph) i"
      "i < length (pl_entries l)" "\<not> pa_live (pl_entries l ! i)"
      by (auto elim: physical_insE [OF assms(1)])
    have "ledger_pages l' = insert ph (ledger_pages l)"
      unfolding ledger_pages_image i(1) physical_inserted_def
      using i(2,3) assms(3,4)
      by (simp add: filter_set_update(1) uefi_allocation_def)
    with True show ?thesis by simp
  next
    case False
    with physical_insert_rejected [OF assms(1)] physical_insert_OK [OF assms(1)] assms(2)
    obtain x where "l' = l\<lparr>pl_exhausted := x\<rparr>" by (metis prod.inject)
    with False show ?thesis by (simp add: ledger_pages_def)
  qed
qed

lemma ledger_pages_remove:
  assumes "ledger_inv l" and "gxos_physical_ledger_find l ph EFI_PAGE_SIZE = Some i"
  shows "gxos_physical_ledger_remove l i = (GXOS_LEDGER_STATUS_OK, physical_removed l i)"
    and "ledger_inv (physical_removed l i)"
    and "ledger_pages (physical_removed l i) = ledger_pages l - {ph}"
proof -
  from assms(2) have i: "i < length (pl_entries l)" "pa_live (pl_entries l ! i)" "pa_base (pl_entries l ! i) = ph"
    "pa_bytes (pl_entries l ! i) = EFI_PAGE_SIZE"
    by (auto simp: gxos_physical_ledger_find_def dest!: find_index_SomeD split: if_splits)
  show "gxos_physical_ledger_remove l i = (GXOS_LEDGER_STATUS_OK, physical_removed l i)"
    by (rule physical_remove_OK [OF assms(1) i(1,2)])
  show "ledger_inv (physical_removed l i)" by (rule physical_remove_inv [OF assms(1) i(1,2)])
  let ?P = "\<lambda>e. pa_live e \<and> pa_bytes e = EFI_PAGE_SIZE \<and> pa_base e \<noteq> 0 \<and> page_aligned (pa_base e)"
  have e: "pl_entries (physical_removed l i) = (pl_entries l)[i := zero_physical_allocation]"
    by (simp add: physical_removed_def)
  have z: "\<not> ?P zero_physical_allocation" by simp
  have "ph \<notin> ledger_pages (physical_removed l i)"
  proof
    assume "ph \<in> ledger_pages (physical_removed l i)"
    then obtain e where e': "e \<in> set ((pl_entries l)[i := zero_physical_allocation])" "?P e" "pa_base e = ph"
      by (auto simp: ledger_pages_image e)
    then obtain j where j: "j < length (pl_entries l)" "j \<noteq> i" "pl_entries l ! j = e"
      by (auto simp: in_set_conv_nth nth_list_update_cases split: if_splits)
    with e' i ledger.inv_disjoint [OF assms(1) i(1) j(1)] i(4) have "bytes_from ph EFI_PAGE_SIZE = {}"
      by (simp add: physical_span_def)
    then show False by simp
  qed
  then show "ledger_pages (physical_removed l i) = ledger_pages l - {ph}"
    using filter_set_update(2,3) [of i "pl_entries l" ?P, OF i(1) z] i(3) unfolding ledger_pages_image e by blast
qed

lemma firmware_freeD:
  assumes "honest_firmware boot fw foreign" "bs_FreePages boot \<noteq> None" "firmware_free boot ph m = (st, m')"
  shows "\<exists>f. m' = upd_world (\<lambda>w. w\<lparr> lw_firmware := f \<rparr>) m \<and>
    (if efi_error st then fw (lw_firmware (mc_world m)) else fw (lw_firmware (mc_world m)) - {ph}) \<subseteq> fw f"
  using assms unfolding honest_firmware_def firmware_free_def by (fastforce split: prod.splits)

text \<open>A failed allocation gives the page back to the firmware and leaves every held page as it was.\<close>

lemma uefi_give_back:
  assumes ok: "uefi_ok boot fw foreign audit m" and free: "bs_FreePages boot \<noteq> None"
    and f: "fw (lw_firmware (mc_world m)) \<subseteq> fw f" "ph \<notin> fw (lw_firmware (mc_world m))"
    and m1: "mc_world m1 = (mc_world m)\<lparr> lw_firmware := f, lw_ledger := l \<rparr>"
    and l: "ledger_inv l" "ledger_pages l = uefi_held m"
  shows "uefi_ok boot fw foreign audit (snd (firmware_free boot ph m1)) \<and>
    uefi_held (snd (firmware_free boot ph m1)) = uefi_held m \<and>
    mc_cells (snd (firmware_free boot ph m1)) = mc_cells m1"
proof -
  obtain st m2 where r: "firmware_free boot ph m1 = (st, m2)" by force
  have "honest_firmware boot fw foreign" using ok by (simp add: uefi_ok_def)
  from firmware_freeD [OF this free r] obtain f2 where m2: "m2 = upd_world (\<lambda>w. w\<lparr> lw_firmware := f2 \<rparr>) m1"
    and f2: "fw f - {ph} \<subseteq> fw f2" by (auto simp: m1 split: if_splits)
  have "uefi_held m \<subseteq> fw f2" using ok f f2 by (auto simp: uefi_ok_def)
  with ok l show ?thesis by (simp add: r m2 uefi_ok_def uefi_held_def upd_world_def m1)
qed

text \<open>The outcome of an allocation.\<close>

definition uefi_outcome ::
    "'f EFI_BOOT_SERVICES \<Rightarrow> ('f \<Rightarrow> u64 set) \<Rightarrow> u64 set \<Rightarrow> GXOS_X64_PAGING_AUDIT \<Rightarrow> 'f loader_vm machine \<Rightarrow>
     bool \<times> u64 \<times> u64 \<times> 'f loader_vm machine \<Rightarrow> bool" where
  "uefi_outcome boot fw foreign audit m r \<longleftrightarrow> (case r of (b, ph, a, m') \<Rightarrow>
     uefi_ok boot fw foreign audit m' \<and>
     (if b then uefi_held m' = insert a (uefi_held m) \<and> a \<notin> uefi_held m \<and> a \<notin> foreign \<and>
        owned_ok (uefi_alias audit) (ph, a) \<and> (\<forall>x. \<not> x - a < GXOS_VM_PAGE_SIZE \<longrightarrow> mc_cells m' x = mc_cells m x)
      else uefi_held m' = uefi_held m \<and> ph = 0 \<and> a = 0 \<and>
        (\<forall>t \<in> uefi_held m \<union> foreign. page_aligned t \<longrightarrow> (\<forall>i < 0x200. table_get m' t i = table_get m t i))))"

lemma uefi_take_spec:
  assumes ok: "uefi_ok boot fw foreign audit m" and free: "bs_FreePages boot \<noteq> None"
    and f: "insert q (fw (lw_firmware (mc_world m))) \<subseteq> fw f" "q \<notin> fw (lw_firmware (mc_world m))" "q \<notin> foreign"
    and m1: "m1 = upd_world (\<lambda>w. w\<lparr> lw_firmware := f \<rparr>) m"
  shows "uefi_outcome boot fw foreign audit m (uefi_take_page boot ctx q m1)"
proof -
  have grow: "fw (lw_firmware (mc_world m)) \<subseteq> fw f" using f(1) by auto
  have lim: "unat (au_direct_identity_bytes audit) \<le> 2 ^ 52"
    and inv: "ledger_inv (lw_ledger (mc_world m))" and pages: "ledger_pages (lw_ledger (mc_world m)) = uefi_held m"
    using ok by (simp_all add: uefi_ok_def uefi_held_def)
  have qh: "q \<notin> uefi_held m" using f(2) ok by (auto simp: uefi_ok_def)
  have w1: "mc_world m1 = (mc_world m)\<lparr> lw_firmware := f, lw_ledger := lw_ledger (mc_world m) \<rparr>" "mc_cells m1 = mc_cells m"
    by (simp_all add: m1 upd_world_def)
  have "uefi_ok boot fw foreign audit m1" using ok grow by (auto simp: uefi_ok_def uefi_held_def w1)
  note al1 = uefi_alias_eq [OF this, of q]
  note back1 = uefi_give_back [OF ok free grow f(2) w1(1) inv pages]
  show ?thesis
  proof (cases "q = 0 \<or> (au_cr3 (lw_audit (mc_world m1)) \<noteq> 0 \<and> \<not> identity_mapped m1 q) \<or> uefi_alias audit q = 0")
    case True
    then have "uefi_take_page boot ctx q m1 = (False, 0, 0, snd (firmware_free boot q m1))"
      using al1 by (auto simp: uefi_take_page_def)
    with back1 show ?thesis by (simp add: uefi_outcome_def table_get_def w1)
  next
    case reach: False
    then have own: "uefi_alias audit q = q" "owned_ok (uefi_alias audit) (q, q)"
      using uefi_alias_owned [OF _ lim, of q] by auto
    then have qp: "q \<noteq> 0" "page_aligned q" by (auto simp: owned_ok_def)
    define m2 where "m2 = zero_page m1 q"
    obtain ls l' sl where ins: "gxos_physical_ledger_insert (lw_ledger (mc_world m)) (uefi_allocation ctx q) = (ls, l', sl)"
      by (metis prod_cases3)
    define m3 where "m3 = upd_world (\<lambda>w. w\<lparr> lw_ledger := l' \<rparr>) m2"
    have w2: "mc_world m2 = mc_world m1" by (simp add: m2_def zero_page_def)
    have w3: "mc_world m3 = (mc_world m)\<lparr> lw_firmware := f, lw_ledger := l' \<rparr>" "mc_cells m3 = mc_cells m2"
      by (simp_all add: m3_def upd_world_def w2 w1)
    note L = ledger_pages_insert [OF inv ins qp]
    have res: "uefi_take_page boot ctx q m1 =
        (if ls \<noteq> GXOS_LEDGER_STATUS_OK then (False, 0, 0, snd (firmware_free boot q m3)) else (True, q, q, m3))"
      using reach own(1) al1 ins w2 w1
      by (auto simp: uefi_take_page_def m3_def Let_def simp flip: m2_def)
    have cell: "table_get m2 t i = table_get m t i" if "t \<in> uefi_held m \<union> foreign" "page_aligned t" "i < 0x200" for t i
      using that f(3) qh qp table_get_zero_page [of t q i m1] by (auto simp: m2_def table_get_def w1)
    show ?thesis
    proof (cases "ls = GXOS_LEDGER_STATUS_OK")
      case True
      have h3: "uefi_held m3 = insert q (uefi_held m)" using L(2) True by (simp add: uefi_held_def w3)
      have ok3: "uefi_ok boot fw foreign audit m3" using ok f L(1) unfolding uefi_ok_def h3 by (auto simp: w3)
      have "mc_cells m3 x = mc_cells m x" if "\<not> x - q < GXOS_VM_PAGE_SIZE" for x
        using that by (simp add: w3 m2_def zero_page_def w1)
      with True res own qh f(3) h3 ok3 show ?thesis by (simp add: uefi_outcome_def)
    next
      case no: False
      with L pages have "ledger_inv l'" "ledger_pages l' = uefi_held m" by simp_all
      from uefi_give_back [OF ok free grow f(2) w3(1) this] res no cell show ?thesis
        by (simp add: uefi_outcome_def table_get_def w3)
    qed
  qed
qed

lemma uefi_allocate_spec:
  assumes ok: "uefi_ok boot fw foreign audit m"
  shows "uefi_outcome boot fw foreign audit m (vm_uefi_allocate_page boot ctx m)"
proof (cases "uc_generation ctx = 0 \<or> bs_AllocatePages boot = None \<or> bs_FreePages boot = None")
  case True
  with ok show ?thesis by (auto simp: vm_uefi_allocate_page_def uefi_outcome_def)
next
  case False
  then obtain allocate where gen: "uc_generation ctx \<noteq> 0" and al: "bs_AllocatePages boot = Some allocate"
    and free: "bs_FreePages boot \<noteq> None" by auto
  obtain st q f where r: "allocate (lw_firmware (mc_world m)) = (st, q, f)" by (metis prod_cases3)
  define m1 where "m1 = upd_world (\<lambda>w. w\<lparr> lw_firmware := f \<rparr>) m"
  have honest: "if efi_error st then fw (lw_firmware (mc_world m)) \<subseteq> fw f
      else q \<notin> fw (lw_firmware (mc_world m)) \<and> q \<notin> foreign \<and> insert q (fw (lw_firmware (mc_world m))) \<subseteq> fw f"
    using ok al r unfolding uefi_ok_def honest_firmware_def by blast
  have op: "vm_uefi_allocate_page boot ctx m =
      (if efi_error st then (False, 0, 0, m1) else uefi_take_page boot ctx q m1)"
    using gen al free r by (auto simp: vm_uefi_allocate_page_def m1_def Let_def)
  show ?thesis
  proof (cases "efi_error st")
    case True
    with ok honest have "uefi_ok boot fw foreign audit m1" "uefi_held m1 = uefi_held m" "mc_cells m1 = mc_cells m"
      by (auto simp: uefi_ok_def uefi_held_def m1_def upd_world_def)
    with op True show ?thesis by (simp add: uefi_outcome_def table_get_def)
  next
    case False
    with honest op uefi_take_spec [OF ok free _ _ _ m1_def] show ?thesis by simp
  qed
qed

lemma uefi_free_spec:
  assumes ok: "uefi_ok boot fw foreign audit m" and a: "a \<in> uefi_held m" "owned_ok (uefi_alias audit) (ph, a)"
  shows "uefi_ok boot fw foreign audit (vm_uefi_free_page boot m ph a) \<and>
    uefi_held m - {a} \<subseteq> uefi_held (vm_uefi_free_page boot m ph a) \<and>
    uefi_held (vm_uefi_free_page boot m ph a) \<subseteq> uefi_held m \<and>
    mc_cells (vm_uefi_free_page boot m ph a) = mc_cells m"
proof -
  have pa: "ph = a" using a(2) by (auto simp: owned_ok_def uefi_alias_def split: if_splits)
  have inv: "ledger_inv (lw_ledger (mc_world m))" using ok by (simp add: uefi_ok_def)
  have halt: "uefi_ok boot fw foreign audit (fail s m1) = uefi_ok boot fw foreign audit m1"
    "uefi_held (fail s m1) = uefi_held m1" "mc_cells (fail s m1) = mc_cells m1" for s m1
    by (simp_all add: fail_def upd_world_def uefi_ok_def uefi_held_def)
  show ?thesis
  proof (cases "gxos_physical_ledger_find (lw_ledger (mc_world m)) ph EFI_PAGE_SIZE")
    case None
    with ok halt show ?thesis by (simp add: vm_uefi_free_page_def)
  next
    case (Some i)
    note L = ledger_pages_remove [OF inv Some]
    show ?thesis
    proof (cases "bs_FreePages boot = None")
      case True
      with Some ok halt show ?thesis by (simp add: vm_uefi_free_page_def)
    next
      case free: False
      then obtain release where rel: "bs_FreePages boot = Some release" by auto
      obtain st m1 where r: "firmware_free boot ph m = (st, m1)" by force
      have "honest_firmware boot fw foreign" using ok by (simp add: uefi_ok_def)
      from firmware_freeD [OF this free r] obtain f where m1: "m1 = upd_world (\<lambda>w. w\<lparr> lw_firmware := f \<rparr>) m"
        and f: "(if efi_error st then fw (lw_firmware (mc_world m)) else fw (lw_firmware (mc_world m)) - {ph}) \<subseteq> fw f"
        by blast
      show ?thesis
      proof (cases "efi_error st")
        case True
        with f ok have "uefi_ok boot fw foreign audit m1" "uefi_held m1 = uefi_held m" "mc_cells m1 = mc_cells m"
          by (auto simp: m1 upd_world_def uefi_ok_def uefi_held_def)
        with Some rel r True halt show ?thesis by (simp add: vm_uefi_free_page_def)
      next
        case False
        define m2 where "m2 = upd_world (\<lambda>w. w\<lparr> lw_ledger := physical_removed (lw_ledger (mc_world m)) i \<rparr>) m1"
        from Some rel r False L(1) have res: "vm_uefi_free_page boot m ph a = m2"
          by (simp add: vm_uefi_free_page_def m2_def m1 upd_world_def)
        have "uefi_held m2 = uefi_held m - {a}" using L(3) pa
          by (simp add: m2_def uefi_held_def upd_world_def)
        moreover have "uefi_ok boot fw foreign audit m2"
          using ok L(2,3) f False by (auto simp: m2_def m1 uefi_ok_def uefi_held_def upd_world_def)
        moreover have "mc_cells m2 = mc_cells m" by (simp add: m2_def m1 upd_world_def)
        ultimately show ?thesis unfolding res by auto
      qed
    qed
  qed
qed

text \<open>The loader's allocator is a provider of the page tables, whatever its context.\<close>

interpretation uefi: page_provider "vm_uefi_allocator boot ctx" "vm_uefi_allocate_page boot ctx"
  "vm_uefi_free_page boot" vm_uefi_physical_alias "uefi_alias audit" uefi_held foreign
  "uefi_ok boot fw foreign audit"
  for boot :: "'f EFI_BOOT_SERVICES" and ctx audit foreign and fw :: "'f \<Rightarrow> u64 set"
proof unfold_locales
  fix m m' :: "'f loader_vm machine" and ph a
  show "vm_uefi_physical_alias m ph = uefi_alias audit ph" if "uefi_ok boot fw foreign audit m"
    using that by (rule uefi_alias_eq)
  show "page_aligned a \<and> a \<notin> foreign" if "uefi_ok boot fw foreign audit m" "a \<in> uefi_held m"
    using that by (auto simp: uefi_ok_def uefi_held_def ledger_pages_def)
  show "uefi_ok boot fw foreign audit m' \<and> uefi_held m' = insert a (uefi_held m) \<and> a \<notin> uefi_held m \<and>
      a \<notin> foreign \<and> owned_ok (uefi_alias audit) (ph, a) \<and>
      (\<forall>x. \<not> x - a < GXOS_VM_PAGE_SIZE \<longrightarrow> mc_cells m' x = mc_cells m x)"
    if "uefi_ok boot fw foreign audit m" "vm_uefi_allocate_page boot ctx m = (True, ph, a, m')"
    using uefi_allocate_spec [OF that(1), of ctx] that(2) by (simp add: uefi_outcome_def)
  show "uefi_ok boot fw foreign audit m' \<and> uefi_held m' = uefi_held m \<and> ph = 0 \<and> a = 0 \<and>
      (\<forall>t \<in> uefi_held m \<union> foreign. page_aligned t \<longrightarrow> (\<forall>i < 0x200. table_get m' t i = table_get m t i))"
    if "uefi_ok boot fw foreign audit m" "vm_uefi_allocate_page boot ctx m = (False, ph, a, m')"
    using uefi_allocate_spec [OF that(1), of ctx] that(2) by (simp add: uefi_outcome_def)
  show "uefi_ok boot fw foreign audit (vm_uefi_free_page boot m ph a) \<and>
      uefi_held m - {a} \<subseteq> uefi_held (vm_uefi_free_page boot m ph a) \<and>
      uefi_held (vm_uefi_free_page boot m ph a) \<subseteq> uefi_held m \<and>
      mc_cells (vm_uefi_free_page boot m ph a) = mc_cells m"
    if "uefi_ok boot fw foreign audit m" "a \<in> uefi_held m" "owned_ok (uefi_alias audit) (ph, a)"
    using that by (rule uefi_free_spec)
qed (simp_all add: vm_uefi_allocator_def uefi_ok_def uefi_held_def)

end
