(* ===== verification/VM_Paging_Correct.thy ===== *)
theory VM_Paging_Correct
  imports VM_Uefi_Pages
begin

text \<open>
  The page tables of the loader, fed by the loader's own page allocator: what mapping,
  unmapping, mapping a range and creating the root do to the translation of addresses, and
  what the audit of the firmware's map measures. The statements are those of the
  \<open>page_provider\<close> interface, read over \<open>gxos_vm_paging_query\<close>.
\<close>

subsection \<open>The invariant\<close>

definition paging_inv ::
    "'f EFI_BOOT_SERVICES \<Rightarrow> GXOS_VM_UEFI_PAGE_CONTEXT \<Rightarrow> ('f \<Rightarrow> u64 set) \<Rightarrow> u64 set \<Rightarrow> GXOS_X64_PAGING_AUDIT \<Rightarrow>
     'f loader_vm GXOS_VM_PAGING \<Rightarrow> 'f loader_vm machine \<Rightarrow> bool" where
  "paging_inv boot ctx fw foreign audit p m \<longleftrightarrow>
     (\<exists>path. paging_tree (uefi_alias audit) p m path) \<and> uefi_ok boot fw foreign audit m \<and>
     vp_table_allocator p = vm_uefi_allocator boot ctx \<and> arena_ok p \<and>
     tab p ` {..<vp_owned_table_page_count p} \<subseteq> uefi_held m"

lemma paging_inv_good:
  "paging_inv boot ctx fw foreign audit p m \<longleftrightarrow>
     (\<exists>path. page_provider.good (vm_uefi_allocator boot ctx) (uefi_alias audit) uefi_held
       (uefi_ok boot fw foreign audit) p m path)"
  by (auto simp: paging_inv_def uefi.good_def)

text \<open>The addresses that the arena's slot of the root translates.\<close>

definition slot_address :: "'w GXOS_VM_PAGING \<Rightarrow> u64 \<Rightarrow> bool" where
  "slot_address p u \<longleftrightarrow> canonical48 u \<and> pml4_index u = ucast (vp_arena_pml4_index p)"

definition unmapped :: "GXOS_VM_PAGING_STATUS \<times> GXOS_VM_MAPPING" where
  "unmapped = (GXOS_VM_PAGING_STATUS_NOT_PRESENT, zero_mapping)"

definition mapped_to :: "u64 \<Rightarrow> u64 \<Rightarrow> u64 \<Rightarrow> GXOS_VM_PAGING_STATUS \<times> GXOS_VM_MAPPING" where
  "mapped_to flags ph u =
     (GXOS_VM_PAGING_STATUS_OK,
      \<lparr> mp_physical_base = ph + (u AND (GXOS_VM_PAGE_SIZE - 1)), mp_page_size = GXOS_VM_PAGE_SIZE,
        mp_entry_flags = flags, mp_level = 1, mp_present = True \<rparr>)"

lemma leaf_mapping_to:
  "entry_address ph = ph \<Longrightarrow>
     (GXOS_VM_PAGING_STATUS_OK, leaf_mapping (leaf_entry nx ph w x) u) = mapped_to (leaf_entry nx ph w x) ph u"
  by (simp add: leaf_mapping_def mapped_to_def leaf_entry_address)

definition same_page :: "u64 \<Rightarrow> u64 \<Rightarrow> bool" where
  "same_page u v \<longleftrightarrow> unat u div 4096 = unat v div 4096"

lemma slot_query:
  assumes "page_provider.good (vm_uefi_allocator boot ctx) (uefi_alias audit) uefi_held
       (uefi_ok boot fw foreign audit) p m path" and "slot_address p u"
  shows "gxos_vm_paging_query p m u =
    (case probe (uefi_alias audit) m (vp_root_alias p) (vpath u) of
       None \<Rightarrow> unmapped | Some e \<Rightarrow> (GXOS_VM_PAGING_STATUS_OK, leaf_mapping e u))"
  unfolding unmapped_def using assms(2) by (intro uefi.query_good [OF assms(1)]) (simp_all add: slot_address_def)

lemma slot_query_unmapped:
  assumes "page_provider.good (vm_uefi_allocator boot ctx) (uefi_alias audit) uefi_held
       (uefi_ok boot fw foreign audit) p m path" and "slot_address p u"
  shows "gxos_vm_paging_query p m u = unmapped \<longleftrightarrow>
    probe (uefi_alias audit) m (vp_root_alias p) (vpath u) = None"
  unfolding slot_query [OF assms] by (simp add: unmapped_def split: option.split)

lemma same_page_vpath: "slot_address p u \<Longrightarrow> slot_address p v \<Longrightarrow> vpath u = vpath v \<longleftrightarrow> same_page u v"
  by (simp add: slot_address_def same_page_def vpath_eq_iff)

lemma arena_page_slot:
  assumes "paging_inv boot ctx fw foreign audit p m" "arena_contains_page p v"
  shows "slot_address p v" "page_aligned v"
proof -
  obtain path where good: "page_provider.good (vm_uefi_allocator boot ctx) (uefi_alias audit) uefi_held
       (uefi_ok boot fw foreign audit) p m path" using assms(1) by (auto simp: paging_inv_good)
  have "map_args_ok p v 0x1000" using assms(2) by (simp add: map_args_ok_def page_aligned_def)
  from uefi.map_args_slot [OF good this] show "slot_address p v" "page_aligned v"
    by (simp_all add: slot_address_def)
qed

lemma same_root_slot: "same_root p p' \<Longrightarrow> slot_address p' u = slot_address p u"
  by (simp add: same_root_def slot_address_def)

subsection \<open>A concrete machine\<close>

text \<open>
  A firmware that hands out consecutive pages from page 16 on, an empty memory, and the page
  tables that the loader creates on it: an instance of the hypotheses below.
\<close>

definition sample_boot :: "nat EFI_BOOT_SERVICES" where
  "sample_boot = \<lparr> bs_AllocatePages =
       Some (\<lambda>n. if n < 1000 then (0, of_nat n * 0x1000, n + 1) else (0x8000000000000009, 0, n)),
     bs_FreePages = Some (\<lambda>n ph. (0, n)) \<rparr>"

definition sample_pages :: "nat \<Rightarrow> u64 set" where
  "sample_pages n = {a. unat a < n * 4096}"

definition sample_context :: GXOS_VM_UEFI_PAGE_CONTEXT where
  "sample_context = \<lparr> uc_generation = 1, uc_allocation_class = 12, uc_owner = 7, uc_commit_impact_bytes = 0 \<rparr>"

definition sample_audit :: GXOS_X64_PAGING_AUDIT where
  "sample_audit = zero_audit\<lparr> au_direct_identity_bytes := 0x1000000 \<rparr>"

definition sample_machine :: "GXOS_PHYSICAL_LEDGER \<Rightarrow> nat \<Rightarrow> nat loader_vm machine" where
  "sample_machine l n =
     \<lparr> mc_cells = (\<lambda>_. 0), mc_cr0 = 0, mc_cr3 = 0x1000, mc_cr4 = 0, mc_efer = 0, mc_invlpg = [],
       mc_world = \<lparr> lw_ledger = l, lw_audit = sample_audit, lw_audit_complete = True,
                    lw_firmware = n, lw_halted = None \<rparr> \<rparr>"

definition sample_ledger :: GXOS_PHYSICAL_LEDGER where
  "sample_ledger = fst (snd (gxos_physical_ledger_insert (gxos_physical_ledger_init 1)
     (uefi_allocation sample_context 0x10000)))"

definition sample_paging :: "nat loader_vm GXOS_VM_PAGING" where
  "sample_paging = fst (snd (gxos_vm_paging_create zero_paging (sample_machine (gxos_physical_ledger_init 1) 16)
     0x1000 0x8000000000 0x100000 True (vm_uefi_allocator sample_boot sample_context)))"

lemma sample_honest: "honest_firmware sample_boot sample_pages {}"
proof -
  have "unat (of_nat n * 0x1000 :: u64) = n * 4096" if "n < 1000" for n
    using that by (simp add: unat_word_ariths unat_of_nat)
  then show ?thesis
    by (auto simp: honest_firmware_def sample_boot_def sample_pages_def efi_error_def split: if_splits)
qed

lemma sample_ok: "uefi_ok sample_boot sample_pages {} sample_audit (sample_machine (gxos_physical_ledger_init 1) 16)"
  using sample_honest ledger_inv_init [of 1]
  by (simp add: uefi_ok_def sample_machine_def sample_audit_def zero_audit_def uefi_held_def ledger_pages_def
      gxos_physical_ledger_init_def zero_physical_allocation_def)

lemma sample_insert:
  "gxos_physical_ledger_insert (gxos_physical_ledger_init 1) (uefi_allocation sample_context 0x10000) =
     (GXOS_LEDGER_STATUS_OK, sample_ledger, Some 0)"
proof -
  have "physical_admissible (gxos_physical_ledger_init 1) (uefi_allocation sample_context 0x10000)"
    by (simp add: physical_admissible_def physical_entry_ok_def physical_pages_ok_def uefi_allocation_def
        sample_context_def gxos_physical_ledger_init_def zero_physical_allocation_def range_ok_def)
  from physical_insert_OK [OF ledger_inv_init [of 1] this] show ?thesis
    by (auto simp: sample_ledger_def gxos_physical_ledger_init_def zero_physical_allocation_def)
qed

lemma zero_cells:
  assumes "mc_cells m = (\<lambda>_. 0)"
  shows "zero_page m a = m" "table_get m t i = 0" "copy_root m r c = m"
proof -
  have set0: "table_set m t i 0 = m" for t i
    using assms by (simp add: table_set_def fun_upd_idem)
  show get: "table_get m t i = 0" for t i using assms by (simp add: table_get_def)
  have "(\<lambda>x. if x - a < GXOS_VM_PAGE_SIZE then 0 else mc_cells m x) = mc_cells m" by (rule ext) (simp add: assms)
  then show "zero_page m a = m" by (simp add: zero_page_def)
  have "fold (\<lambda>index m. table_set m r (of_nat index) (table_get m c (of_nat index))) xs m = m" for xs :: "nat list"
    by (induction xs) (simp_all add: set0 get)
  then show "copy_root m r c = m" by (simp add: copy_root_def)
qed

lemma sample_alloc:
  "vm_uefi_allocate_page sample_boot sample_context (sample_machine (gxos_physical_ledger_init 1) 16) =
     (True, 0x10000, 0x10000, sample_machine sample_ledger 17)"
proof -
  have "vm_uefi_physical_alias (sample_machine l n) 0x10000 = 0x10000" for l n
    by (simp add: vm_uefi_physical_alias_def sample_machine_def sample_audit_def zero_audit_def)
  moreover have "upd_world (lw_firmware_update (\<lambda>_. n')) (sample_machine l n) = sample_machine l n'"
    "upd_world (lw_ledger_update (\<lambda>_. l')) (sample_machine l n) = sample_machine l' n" for l l' n n'
    by (simp_all add: upd_world_def sample_machine_def)
  moreover have "zero_page (sample_machine l n) a = sample_machine l n" for l n a
    by (rule zero_cells) (simp add: sample_machine_def)
  moreover have "lw_ledger (mc_world (sample_machine l n)) = l" "au_cr3 (lw_audit (mc_world (sample_machine l n))) = 0"
    "lw_firmware (mc_world (sample_machine l n)) = n" for l n
    by (simp_all add: sample_machine_def sample_audit_def zero_audit_def)
  ultimately show ?thesis
    by (simp add: vm_uefi_allocate_page_def uefi_take_page_def sample_insert sample_boot_def sample_context_def
        [THEN arg_cong [where f = uc_generation]] efi_error_def)
qed

lemma sample_create:
  "gxos_vm_paging_create zero_paging (sample_machine (gxos_physical_ledger_init 1) 16)
     0x1000 0x8000000000 0x100000 True (vm_uefi_allocator sample_boot sample_context) =
     (GXOS_VM_PAGING_STATUS_OK, sample_paging, sample_machine sample_ledger 17)"
proof -
  have "vm_uefi_physical_alias (sample_machine l n) 0x1000 = 0x1000" for l n
    by (simp add: vm_uefi_physical_alias_def sample_machine_def sample_audit_def zero_audit_def)
  then have cur: "table_alias (sample_machine l n) 0x1000 (Some vm_uefi_physical_alias) = Inr 0x1000" for l n
    by (simp add: table_alias_def)
  have z: "mc_cells (sample_machine l n) = (\<lambda>_. 0)" for l n by (simp add: sample_machine_def)
  have idx: "pml4_index 0x8000000000 = 1" "pml4_index (0x8000000000 + 0x100000 - 1) = 1" "canonical48 0x8000000000"
    by (simp_all add: pml4_index_def canonical48_def)
  have "snd (snd r) = sample_machine sample_ledger 17 \<and> fst r = GXOS_VM_PAGING_STATUS_OK"
    if "r = gxos_vm_paging_create zero_paging (sample_machine (gxos_physical_ledger_init 1) 16)
      0x1000 0x8000000000 0x100000 True (vm_uefi_allocator sample_boot sample_context)" for r
    unfolding that gxos_vm_paging_create_def using idx
    by (simp add: vm_uefi_allocator_def range_end_def cur sample_alloc zero_cells [OF z])
  then show ?thesis by (simp add: sample_paging_def prod_eq_iff)
qed

lemma sample_inv: "paging_inv sample_boot sample_context sample_pages {} sample_audit sample_paging
    (sample_machine sample_ledger 17)"
  and sample_arena: "vp_arena_base sample_paging = 0x8000000000" "vp_arena_length sample_paging = 0x100000"
proof -
  have "4096 \<le> unat (0x100000 :: u64)"
    "unat (0x8000000000 :: u64) div 2 ^ 39 = (unat (0x8000000000 :: u64) + unat (0x100000 :: u64) - 1) div 2 ^ 39"
    by simp_all
  note C = uefi.create_spec [OF sample_ok this sample_create]
  show "paging_inv sample_boot sample_context sample_pages {} sample_audit sample_paging (sample_machine sample_ledger 17)"
    using C unfolding paging_inv_good by blast
  show "vp_arena_base sample_paging = 0x8000000000" "vp_arena_length sample_paging = 0x100000" using C by blast+
qed

text \<open>
  C9. Mapping a page in the loader's page tables keeps their invariant. When it succeeds, the
  page was an unmapped page of the arena and afterwards exactly the addresses of that page are
  translated to the physical page, with the requested access, while every other address of
  the arena's slot keeps its translation; when it fails no translation changes, and on
  well-formed arguments for an unmapped page it fails only because the owned tables are full
  or the allocator has no page. Memory that the allocator never hands out is not written.
\<close>

theorem paging_map_page_correct:
  assumes inv: "paging_inv boot ctx fw foreign audit p m" and ph: "unat ph < 2 ^ 52"
  shows "case gxos_vm_paging_map_page p m v ph w x of (st, p', m') \<Rightarrow>
    paging_inv boot ctx fw foreign audit p' m' \<and> same_root p p' \<and>
    (\<forall>t \<in> foreign. page_aligned t \<longrightarrow> (\<forall>i < 0x200. table_get m' t i = table_get m t i)) \<and>
    (if st = GXOS_VM_PAGING_STATUS_OK
     then arena_contains_page p v \<and> gxos_vm_paging_query p m v = unmapped \<and>
       (\<forall>u. slot_address p u \<longrightarrow> gxos_vm_paging_query p' m' u =
          (if same_page u v then mapped_to (leaf_entry (vp_nx_enabled p) ph w x) ph u
           else gxos_vm_paging_query p m u))
     else (\<forall>u. slot_address p u \<longrightarrow> gxos_vm_paging_query p' m' u = gxos_vm_paging_query p m u) \<and>
       (ph \<noteq> 0 \<and> page_aligned ph \<and> arena_contains_page p v \<and> gxos_vm_paging_query p m v = unmapped \<longrightarrow>
          st \<in> {GXOS_VM_PAGING_STATUS_CAPACITY, GXOS_VM_PAGING_STATUS_ALLOCATION}))"
proof -
  let ?good = "page_provider.good (vm_uefi_allocator boot ctx) (uefi_alias audit) uefi_held
       (uefi_ok boot fw foreign audit)"
  obtain path where good: "?good p m path" using inv by (auto simp: paging_inv_good)
  obtain st p' m' where op: "gxos_vm_paging_map_page p m v ph w x = (st, p', m')" by (metis prod_cases3)
  obtain path' where good': "?good p' m' path'" and sr: "same_root p p'"
    and kept: "\<forall>t \<in> foreign. page_aligned t \<longrightarrow> (\<forall>i < 0x200. table_get m' t i = table_get m t i)"
    and res: "if st = GXOS_VM_PAGING_STATUS_OK
     then map_args_ok p v ph \<and> probe (uefi_alias audit) m (vp_root_alias p) (vpath v) = None \<and>
       (\<forall>u. pml4_index u = ucast (vp_arena_pml4_index p) \<longrightarrow> probe (uefi_alias audit) m' (vp_root_alias p) (vpath u) =
          (if vpath u = vpath v then Some (leaf_entry (vp_nx_enabled p) ph w x)
           else probe (uefi_alias audit) m (vp_root_alias p) (vpath u)))
     else (\<forall>u. pml4_index u = ucast (vp_arena_pml4_index p) \<longrightarrow> probe (uefi_alias audit) m' (vp_root_alias p) (vpath u) =
          probe (uefi_alias audit) m (vp_root_alias p) (vpath u)) \<and>
       (map_args_ok p v ph \<and> probe (uefi_alias audit) m (vp_root_alias p) (vpath v) = None \<longrightarrow>
          st \<in> {GXOS_VM_PAGING_STATUS_CAPACITY, GXOS_VM_PAGING_STATUS_ALLOCATION})"
    using uefi.map_page_spec [OF good op]
    unfolding uefi.foreign_kept_def uefi.mapped_pages_def uefi.same_pages_def by blast
  have inv': "paging_inv boot ctx fw foreign audit p' m'" using good' by (auto simp: paging_inv_good)
  have root: "vp_root_alias p' = vp_root_alias p" using sr by (simp add: same_root_def)
  have q: "gxos_vm_paging_query p m u = (case probe (uefi_alias audit) m (vp_root_alias p) (vpath u) of
       None \<Rightarrow> unmapped | Some e \<Rightarrow> (GXOS_VM_PAGING_STATUS_OK, leaf_mapping e u))"
    "gxos_vm_paging_query p' m' u = (case probe (uefi_alias audit) m' (vp_root_alias p) (vpath u) of
       None \<Rightarrow> unmapped | Some e \<Rightarrow> (GXOS_VM_PAGING_STATUS_OK, leaf_mapping e u))"
    if "slot_address p u" for u
    using slot_query [OF good that] slot_query [OF good'] same_root_slot [OF sr] that root by simp_all
  show ?thesis
  proof (cases "st = GXOS_VM_PAGING_STATUS_OK")
    case True
    with res have args: "map_args_ok p v ph" by simp
    then have v: "slot_address p v" using arena_page_slot(1) [OF inv] by (simp add: map_args_ok_def)
    have e: "entry_address ph = ph" using entry_address_self [OF _ ph] args by (simp add: map_args_ok_def)
    have "gxos_vm_paging_query p' m' u = (if same_page u v then mapped_to (leaf_entry (vp_nx_enabled p) ph w x) ph u
        else gxos_vm_paging_query p m u)" if u: "slot_address p u" for u
      using res True q [OF u] u same_page_vpath [OF u v] leaf_mapping_to [OF e]
      by (simp add: slot_address_def)
    moreover have "gxos_vm_paging_query p m v = unmapped" using res True slot_query_unmapped [OF good v] by simp
    ultimately show ?thesis using True op inv' sr kept args by (simp add: map_args_ok_def)
  next
    case False
    have "gxos_vm_paging_query p' m' u = gxos_vm_paging_query p m u" if u: "slot_address p u" for u
      using res False q [OF u] u by (simp add: slot_address_def)
    moreover have "st \<in> {GXOS_VM_PAGING_STATUS_CAPACITY, GXOS_VM_PAGING_STATUS_ALLOCATION}"
      if "ph \<noteq> 0 \<and> page_aligned ph \<and> arena_contains_page p v \<and> gxos_vm_paging_query p m v = unmapped"
      using that res False slot_query_unmapped [OF good arena_page_slot(1) [OF inv]] by (auto simp: map_args_ok_def)
    ultimately show ?thesis using False op inv' sr kept by simp
  qed
qed

theorem paging_map_page_correct_witness:
  "case gxos_vm_paging_map_page sample_paging (sample_machine sample_ledger 17) 0x8000000000 0x20000 True False of
     (st, p', m') \<Rightarrow> paging_inv sample_boot sample_context sample_pages {} sample_audit p' m'"
proof -
  have "unat (0x20000 :: u64) < 2 ^ 52" by simp
  from paging_map_page_correct [OF sample_inv this, of "0x8000000000" True False] show ?thesis
    by (auto split: prod.splits)
qed

lemma map_unmap_restores:
  assumes inv: "paging_inv boot ctx fw foreign audit p m" and ph: "unat ph < 2 ^ 52"
    and op: "gxos_vm_paging_map_page p m v ph w x = (GXOS_VM_PAGING_STATUS_OK, p', m')"
  shows "\<exists>m''. gxos_vm_paging_unmap_page p' m' v = (GXOS_VM_PAGING_STATUS_OK, m'', ph) \<and>
    (\<forall>u. slot_address p u \<longrightarrow> gxos_vm_paging_query p' m'' u = gxos_vm_paging_query p m u)"
proof -
  obtain path where good: "uefi.good boot ctx audit fw foreign p m path" using inv by (auto simp: paging_inv_good)
  obtain path' where good': "uefi.good boot ctx audit fw foreign p' m' path'" and sr: "same_root p p'"
    and args: "map_args_ok p v ph" and absent: "uefi.entry_of audit p m v = None"
    and map: "uefi.mapped_pages audit p m m' v (Some (leaf_entry (vp_nx_enabled p) ph w x))"
    using uefi.map_page_spec [OF good op] by auto
  have root: "vp_root_alias p' = vp_root_alias p" "vp_arena_pml4_index p' = vp_arena_pml4_index p"
    using sr by (simp_all add: same_root_def)
  have v: "slot_address p v" using arena_page_slot(1) [OF inv] args by (simp add: map_args_ok_def)
  then have e: "uefi.entry_of audit p' m' v = Some (leaf_entry (vp_nx_enabled p) ph w x)"
    using map by (simp add: uefi.mapped_pages_def slot_address_def root)
  have a: "arena_contains_page p' v" using args same_root_contains [OF sr] by (simp add: map_args_ok_def)
  obtain st m'' out where un: "gxos_vm_paging_unmap_page p' m' v = (st, m'', out)" by (metis prod_cases3)
  note U = uefi.unmap_page_spec [OF good' un]
  with a e have res: "st = GXOS_VM_PAGING_STATUS_OK" "out = ph" "uefi.mapped_pages audit p' m' m'' v None"
    and good'': "uefi.good boot ctx audit fw foreign p' m'' path'"
    using leaf_entry_address [OF entry_address_self [OF _ ph]] args
    by (auto simp: map_args_ok_def split: if_splits)
  have "gxos_vm_paging_query p' m'' u = gxos_vm_paging_query p m u" if u: "slot_address p u" for u
  proof -
    have "uefi.entry_of audit p m'' u = uefi.entry_of audit p m u"
      using map res(3) u absent root by (simp add: uefi.mapped_pages_def slot_address_def)
    then show ?thesis
      using slot_query [OF good u] slot_query [OF good''] same_root_slot [OF sr] u root by simp
  qed
  with un res show ?thesis by auto
qed

text \<open>
  C10. Unmapping a page keeps the invariant. A mapped page of the arena is unmapped: the result
  is the physical page of its translation, its addresses are translated no more and every
  other address of the arena's slot keeps its translation. In every other case nothing
  changes. Unmapping a page that was just mapped returns the physical page it was mapped to
  and restores every translation.
\<close>

theorem paging_unmap_page_correct:
  assumes inv: "paging_inv boot ctx fw foreign audit p m"
  shows "(case gxos_vm_paging_unmap_page p m v of (st, m', out) \<Rightarrow>
      paging_inv boot ctx fw foreign audit p m' \<and>
      (if arena_contains_page p v \<and> gxos_vm_paging_query p m v \<noteq> unmapped
       then st = GXOS_VM_PAGING_STATUS_OK \<and> out = mp_physical_base (snd (gxos_vm_paging_query p m v)) \<and>
         (\<forall>u. slot_address p u \<longrightarrow> gxos_vm_paging_query p m' u =
            (if same_page u v then unmapped else gxos_vm_paging_query p m u))
       else st \<noteq> GXOS_VM_PAGING_STATUS_OK \<and> m' = m \<and> out = 0)) \<and>
    (\<forall>ph w x p' m'. unat ph < 2 ^ 52 \<longrightarrow>
       gxos_vm_paging_map_page p m v ph w x = (GXOS_VM_PAGING_STATUS_OK, p', m') \<longrightarrow>
       (\<exists>m''. gxos_vm_paging_unmap_page p' m' v = (GXOS_VM_PAGING_STATUS_OK, m'', ph) \<and>
          (\<forall>u. slot_address p u \<longrightarrow> gxos_vm_paging_query p' m'' u = gxos_vm_paging_query p m u)))"
proof -
  obtain path where good: "uefi.good boot ctx audit fw foreign p m path" using inv by (auto simp: paging_inv_good)
  obtain st m' out where un: "gxos_vm_paging_unmap_page p m v = (st, m', out)" by (metis prod_cases3)
  note U = uefi.unmap_page_spec [OF good un]
  then have good': "uefi.good boot ctx audit fw foreign p m' path" by simp
  then have inv': "paging_inv boot ctx fw foreign audit p m'" by (auto simp: paging_inv_good)
  have "if arena_contains_page p v \<and> gxos_vm_paging_query p m v \<noteq> unmapped
      then st = GXOS_VM_PAGING_STATUS_OK \<and> out = mp_physical_base (snd (gxos_vm_paging_query p m v)) \<and>
        (\<forall>u. slot_address p u \<longrightarrow> gxos_vm_paging_query p m' u =
          (if same_page u v then unmapped else gxos_vm_paging_query p m u))
      else st \<noteq> GXOS_VM_PAGING_STATUS_OK \<and> m' = m \<and> out = 0"
  proof (cases "arena_contains_page p v \<and> gxos_vm_paging_query p m v \<noteq> unmapped")
    case True
    then have v: "slot_address p v" "page_aligned v" using arena_page_slot [OF inv] by auto
    from True slot_query_unmapped [OF good v(1)] obtain e where e: "uefi.entry_of audit p m v = Some e" by auto
    have off: "v AND (GXOS_VM_PAGE_SIZE - 1) = 0"
      using v(2) unfolding page_mask take_bit_eq_mask [symmetric]
      by (simp add: take_bit_eq_mod page_aligned_iff)
    from U True e have st: "st = GXOS_VM_PAGING_STATUS_OK" "out = entry_address e"
      "uefi.mapped_pages audit p m m' v None" by (auto split: if_splits)
    have "out = mp_physical_base (snd (gxos_vm_paging_query p m v))"
      using slot_query [OF good v(1)] e st(2) off by (simp add: leaf_mapping_def)
    moreover have "gxos_vm_paging_query p m' u = (if same_page u v then unmapped else gxos_vm_paging_query p m u)"
      if u: "slot_address p u" for u
      using st(3) slot_query [OF good u] slot_query [OF good' u] same_page_vpath [OF u v(1)] u
      by (simp add: uefi.mapped_pages_def slot_address_def)
    ultimately show ?thesis using True st(1) by simp
  next
    case False
    have "st \<noteq> GXOS_VM_PAGING_STATUS_OK"
    proof
      assume "st = GXOS_VM_PAGING_STATUS_OK"
      with U have "arena_contains_page p v" "uefi.entry_of audit p m v \<noteq> None" by auto
      with False slot_query_unmapped [OF good arena_page_slot(1) [OF inv]] show False by auto
    qed
    with U False show ?thesis by auto
  qed
  with un inv' map_unmap_restores [OF inv] show ?thesis by auto
qed

theorem paging_unmap_page_correct_witness:
  "fst (gxos_vm_paging_unmap_page sample_paging (sample_machine sample_ledger 17) 0x7000000000) \<noteq>
     GXOS_VM_PAGING_STATUS_OK"
proof -
  have "\<not> arena_contains_page sample_paging 0x7000000000"
    by (simp add: arena_contains_page_def sample_arena range_end_def)
  then show ?thesis using conjunct1 [OF paging_unmap_page_correct [OF sample_inv, of "0x7000000000"]]
    by (auto split: prod.splits)
qed

text \<open>
  C11. Mapping a range of pages is all or nothing. If it succeeds every page of the range is
  translated to the physical page at the same distance and no other translation of the
  arena's slot changes; if it fails, at whatever page, every translation is as before the call.
\<close>

theorem paging_map_range_atomic:
  assumes inv: "paging_inv boot ctx fw foreign audit p m" and ph: "unat ps + unat n * 4096 < 2 ^ 52"
  shows "case gxos_vm_paging_map_range p m vs ps n w x of (st, p', m') \<Rightarrow>
    paging_inv boot ctx fw foreign audit p' m' \<and>
    (if st = GXOS_VM_PAGING_STATUS_OK
     then (\<forall>i < unat n. arena_contains_page p (nth_page vs i) \<and>
         gxos_vm_paging_query p m (nth_page vs i) = unmapped \<and>
         gxos_vm_paging_query p' m' (nth_page vs i) =
           mapped_to (leaf_entry (vp_nx_enabled p) (nth_page ps i) w x) (nth_page ps i) (nth_page vs i)) \<and>
       (\<forall>u. slot_address p u \<longrightarrow> (\<forall>i < unat n. \<not> same_page u (nth_page vs i)) \<longrightarrow>
          gxos_vm_paging_query p' m' u = gxos_vm_paging_query p m u)
     else \<forall>u. slot_address p u \<longrightarrow> gxos_vm_paging_query p' m' u = gxos_vm_paging_query p m u)"
proof -
  obtain path where good: "uefi.good boot ctx audit fw foreign p m path" using inv by (auto simp: paging_inv_good)
  obtain st p' m' where op: "gxos_vm_paging_map_range p m vs ps n w x = (st, p', m')" by (metis prod_cases3)
  show ?thesis
  proof (cases "gxos_vm_paging_map_range p m vs ps n w x = map_range_loop p m vs ps w x 0 (unat n)")
    case False
    with op have "st = GXOS_VM_PAGING_STATUS_INVALID_ARGUMENT" "p' = p" "m' = m"
      by (auto simp: gxos_vm_paging_map_range_def split: if_splits)
    with op inv show ?thesis by simp
  next
    case True
    have "uefi.range_mapped audit p m m vs ps w x 0" by (simp add: uefi.range_mapped_def)
    from uefi.map_range_loop_spec [OF good this, of "unat n" st p' m', unfolded add_0] op True obtain path'
      where good': "uefi.good boot ctx audit fw foreign p' m' path'" and sr: "same_root p p'"
        and res: "if st = GXOS_VM_PAGING_STATUS_OK then uefi.range_mapped audit p m m' vs ps w x (unat n)
          else uefi.same_pages audit p m m'" by auto
    have root: "vp_root_alias p' = vp_root_alias p" using sr by (simp add: same_root_def)
    have q: "gxos_vm_paging_query p m u = (case uefi.entry_of audit p m u of
         None \<Rightarrow> unmapped | Some e \<Rightarrow> (GXOS_VM_PAGING_STATUS_OK, leaf_mapping e u))"
      "gxos_vm_paging_query p' m' u = (case uefi.entry_of audit p m' u of
         None \<Rightarrow> unmapped | Some e \<Rightarrow> (GXOS_VM_PAGING_STATUS_OK, leaf_mapping e u))"
      if "slot_address p u" for u
      using slot_query [OF good that] slot_query [OF good'] same_root_slot [OF sr] that root by simp_all
    have inv': "paging_inv boot ctx fw foreign audit p' m'" using good' by (auto simp: paging_inv_good)
    show ?thesis
    proof (cases "st = GXOS_VM_PAGING_STATUS_OK")
      case False
      with res q inv' op show ?thesis by (simp add: uefi.same_pages_def slot_address_def)
    next
      case True
      with res have R: "uefi.range_mapped audit p m m' vs ps w x (unat n)" by simp
      have slot: "slot_address p (nth_page vs i)" "arena_contains_page p (nth_page vs i)" if "i < unat n" for i
        using R that arena_page_slot(1) [OF inv] by (simp_all add: uefi.range_mapped_def map_args_ok_def)
      have e: "entry_address (nth_page ps i) = nth_page ps i" if i: "i < unat n" for i
      proof -
        have "i * 4096 \<le> unat n * 4096" using i by simp
        then have "unat ps + i * 4096 < 2 ^ 52" using ph by linarith
        then have "unat (nth_page ps i) = unat ps + i * 4096"
          by (simp add: unat_word_ariths unat_of_nat)
        with \<open>unat ps + i * 4096 < 2 ^ 52\<close> R i show ?thesis
          by (intro entry_address_self) (auto simp: uefi.range_mapped_def map_args_ok_def)
      qed
      have "gxos_vm_paging_query p m (nth_page vs i) = unmapped \<and> gxos_vm_paging_query p' m' (nth_page vs i) =
           mapped_to (leaf_entry (vp_nx_enabled p) (nth_page ps i) w x) (nth_page ps i) (nth_page vs i)"
        if i: "i < unat n" for i
        using R i q [OF slot(1) [OF i]] leaf_mapping_to [OF e [OF i]] by (simp add: uefi.range_mapped_def)
      moreover have "gxos_vm_paging_query p' m' u = gxos_vm_paging_query p m u"
        if u: "slot_address p u" "\<forall>i < unat n. \<not> same_page u (nth_page vs i)" for u
        using R q [OF u(1)] u same_page_vpath [OF u(1) slot(1)] by (simp add: uefi.range_mapped_def slot_address_def)
      ultimately show ?thesis using True op inv' slot by simp
    qed
  qed
qed

theorem paging_map_range_atomic_witness:
  "case gxos_vm_paging_map_range sample_paging (sample_machine sample_ledger 17) 0x8000000000 0x20000 2 True False of
     (st, p', m') \<Rightarrow> paging_inv sample_boot sample_context sample_pages {} sample_audit p' m'"
proof -
  have "unat (0x20000 :: u64) + unat (2 :: u64) * 4096 < 2 ^ 52" by simp
  from paging_map_range_atomic [OF sample_inv this, of "0x8000000000" True False] show ?thesis
    by (auto split: prod.splits)
qed

text \<open>
  A successful creation gives page tables that satisfy the invariant and translate no
  address of the arena's slot, on a root page that was not in use before.
\<close>

theorem paging_create_correct:
  assumes ok: "uefi_ok boot fw foreign audit m"
    and arena: "4096 \<le> unat len" "unat base div 2 ^ 39 = (unat base + unat len - 1) div 2 ^ 39"
    and op: "gxos_vm_paging_create p0 m cr3 base len nx (vm_uefi_allocator boot ctx) =
      (GXOS_VM_PAGING_STATUS_OK, p, m')"
  shows "paging_inv boot ctx fw foreign audit p m' \<and> vp_arena_base p = base \<and> vp_arena_length p = len \<and>
    vp_root_alias p \<notin> uefi_held m \<and> uefi_held m' = insert (vp_root_alias p) (uefi_held m) \<and>
    (\<forall>u. slot_address p u \<longrightarrow> gxos_vm_paging_query p m' u = unmapped)"
proof -
  note C = uefi.create_spec [OF ok arena op]
  then have good: "uefi.good boot ctx audit fw foreign p m' (\<lambda>_. [])" by blast
  have "gxos_vm_paging_query p m' u = unmapped" if u: "slot_address p u" for u
  proof -
    have "vp_arena_base p = base" using C by blast
    moreover have "arena_ok p" using good by (simp add: uefi.good_def)
    ultimately have "ucast (vp_arena_pml4_index p) = pml4_index base" by (simp add: arena_ok_def)
    with u have "pml4_index u = pml4_index base" unfolding slot_address_def by (rule trans [OF conjunct2])
    then have "uefi.entry_of audit p m' u = None" using C by blast
    then show ?thesis using slot_query_unmapped [OF good u] by simp
  qed
  moreover have "paging_inv boot ctx fw foreign audit p m'" using good by (auto simp: paging_inv_good)
  ultimately show ?thesis using C by blast
qed

theorem paging_create_correct_witness:
  "paging_inv sample_boot sample_context sample_pages {} sample_audit sample_paging (sample_machine sample_ledger 17) \<and>
   vp_arena_base sample_paging = 0x8000000000"
proof -
  have "4096 \<le> unat (0x100000 :: u64)"
    "unat (0x8000000000 :: u64) div 2 ^ 39 = (unat (0x8000000000 :: u64) + unat (0x100000 :: u64) - 1) div 2 ^ 39"
    by simp_all
  from paging_create_correct [OF sample_ok this sample_create] show ?thesis by blast
qed

end
