(* ===== verification/VM_Paging_Audit.thy ===== *)
theory VM_Paging_Audit
  imports VM_Paging_Tree
begin

text \<open>
  What \<open>gxos_vm_paging_audit_current\<close> measures: every address below the number of bytes it
  reports is translated to itself by the current root.
\<close>

lemma same_indices:
  "unat x div 2 ^ 30 = unat a div 2 ^ 30 \<Longrightarrow> pml4_index x = pml4_index a \<and> pdpt_index x = pdpt_index a"
  "unat x div 2 ^ 21 = unat a div 2 ^ 21 \<Longrightarrow>
     pml4_index x = pml4_index a \<and> pdpt_index x = pdpt_index a \<and> pd_index x = pd_index a"
  "unat x div 2 ^ 12 = unat a div 2 ^ 12 \<Longrightarrow>
     pml4_index x = pml4_index a \<and> pdpt_index x = pdpt_index a \<and> pd_index x = pd_index a \<and> pt_index x = pt_index a"
proof -
  have sh: "unat u div 2 ^ (k + j) = unat u div 2 ^ k div 2 ^ j" for u :: u64 and k j
    by (simp add: power_add div_mult2_eq)
  show "unat x div 2 ^ 30 = unat a div 2 ^ 30 \<Longrightarrow> pml4_index x = pml4_index a \<and> pdpt_index x = pdpt_index a"
    using sh [of _ 30 9] by (simp add: unat_eq_iff unat_indices)
  show "unat x div 2 ^ 21 = unat a div 2 ^ 21 \<Longrightarrow>
     pml4_index x = pml4_index a \<and> pdpt_index x = pdpt_index a \<and> pd_index x = pd_index a"
    using sh [of _ 21 9] sh [of _ 21 18] by (simp add: unat_eq_iff unat_indices)
  show "unat x div 2 ^ 12 = unat a div 2 ^ 12 \<Longrightarrow>
     pml4_index x = pml4_index a \<and> pdpt_index x = pdpt_index a \<and> pd_index x = pd_index a \<and> pt_index x = pt_index a"
    using sh [of _ 12 9] sh [of _ 12 18] sh [of _ 12 27] by (simp add: unat_eq_iff unat_indices)
qed

lemma query_same_page:
  assumes q: "gxos_vm_paging_query_root m r a al = (GXOS_VM_PAGING_STATUS_OK, mp)"
  shows "\<exists>e k. mp_page_size mp = 2 ^ k \<and> k \<in> {12, 21, 30} \<and>
    mp_physical_base mp = (entry_address e AND NOT (mask k)) + (a AND mask k) \<and>
    (\<forall>x. canonical48 x \<longrightarrow> unat x div 2 ^ k = unat a div 2 ^ k \<longrightarrow>
       gxos_vm_paging_query_root m r x al =
         (GXOS_VM_PAGING_STATUS_OK, mp\<lparr> mp_physical_base := (entry_address e AND NOT (mask k)) + (x AND mask k) \<rparr>))"
proof -
  note Q = gxos_vm_paging_query_root_def Let_def
  have ne: "al \<noteq> None" "r \<noteq> 0" using q by (auto simp: Q split: if_splits)
  obtain pml4 where t4: "table_alias m (entry_address r) al = Inr pml4"
    using q ne by (cases "table_alias m (entry_address r) al") (auto simp: Q split: if_splits)
  define e4 where "e4 = table_get m pml4 (pml4_index a)"
  have p4: "e4 AND 1 \<noteq> 0" using q ne t4 by (auto simp: Q e4_def split: if_splits)
  obtain pdpt where t3: "table_alias m (entry_address e4) al = Inr pdpt"
    using q ne t4 p4 by (cases "table_alias m (entry_address e4) al") (auto simp: Q e4_def split: if_splits)
  define e3 where "e3 = table_get m pdpt (pdpt_index a)"
  have p3: "e3 AND 1 \<noteq> 0" using q ne t4 p4 t3 by (auto simp: Q e4_def e3_def split: if_splits)
  note known = ne t4 p4 t3 p3
  have m30: "NOT (0x40000000 - 1) = NOT (mask 30 :: u64)" "(0x40000000 - 1 :: u64) = mask 30"
    and m21: "NOT (0x200000 - 1) = NOT (mask 21 :: u64)" "(0x200000 - 1 :: u64) = mask 21"
    by (simp_all add: mask_eq_exp_minus_1)
  show ?thesis
  proof (cases "e3 AND 0x80 = 0")
    case False
    have "gxos_vm_paging_query_root m r x al = (GXOS_VM_PAGING_STATUS_OK,
        \<lparr> mp_physical_base = (entry_address e3 AND NOT (mask 30)) + (x AND mask 30), mp_page_size = 2 ^ 30,
          mp_entry_flags = e3, mp_level = 3, mp_present = True \<rparr>)"
      if "canonical48 x" "unat x div 2 ^ 30 = unat a div 2 ^ 30" for x
      using that known False same_indices(1) [OF that(2)] m30 by (simp add: Q e4_def e3_def)
    moreover have "canonical48 a" using q ne by (auto simp: Q split: if_splits)
    ultimately show ?thesis using q by (intro exI [of _ e3] exI [of _ 30]) auto
  next
    case s3: True
    obtain pd where t2: "table_alias m (entry_address e3) al = Inr pd"
      using q known s3 by (cases "table_alias m (entry_address e3) al") (auto simp: Q e4_def e3_def split: if_splits)
    define e2 where "e2 = table_get m pd (pd_index a)"
    have p2: "e2 AND 1 \<noteq> 0" using q known s3 t2 by (auto simp: Q e4_def e3_def e2_def split: if_splits)
    show ?thesis
    proof (cases "e2 AND 0x80 = 0")
      case False
      have "gxos_vm_paging_query_root m r x al = (GXOS_VM_PAGING_STATUS_OK,
          \<lparr> mp_physical_base = (entry_address e2 AND NOT (mask 21)) + (x AND mask 21), mp_page_size = 2 ^ 21,
            mp_entry_flags = e2, mp_level = 2, mp_present = True \<rparr>)"
        if "canonical48 x" "unat x div 2 ^ 21 = unat a div 2 ^ 21" for x
        using that known s3 t2 p2 False same_indices(2) [OF that(2)] m21 by (simp add: Q e4_def e3_def e2_def)
      moreover have "canonical48 a" using q ne by (auto simp: Q split: if_splits)
      ultimately show ?thesis using q by (intro exI [of _ e2] exI [of _ 21]) auto
    next
      case s2: True
      obtain pt where t1: "table_alias m (entry_address e2) al = Inr pt"
        using q known s3 t2 p2 s2
        by (cases "table_alias m (entry_address e2) al") (auto simp: Q e4_def e3_def e2_def split: if_splits)
      define e1 where "e1 = table_get m pt (pt_index a)"
      have p1: "e1 AND 1 \<noteq> 0"
        using q known s3 t2 p2 s2 t1 by (auto simp: Q e4_def e3_def e2_def e1_def split: if_splits)
      have "gxos_vm_paging_query_root m r x al = (GXOS_VM_PAGING_STATUS_OK,
          \<lparr> mp_physical_base = (entry_address e1 AND NOT (mask 12)) + (x AND mask 12), mp_page_size = 2 ^ 12,
            mp_entry_flags = e1, mp_level = 1, mp_present = True \<rparr>)"
        if "canonical48 x" "unat x div 2 ^ 12 = unat a div 2 ^ 12" for x
        using that known s3 t2 p2 s2 t1 p1 same_indices(3) [OF that(2)] page_mask entry_address_aligned
        by (simp add: Q e4_def e3_def e2_def e1_def)
      moreover have "canonical48 a" using q ne by (auto simp: Q split: if_splits)
      ultimately show ?thesis using q by (intro exI [of _ e1] exI [of _ 12]) auto
    qed
  qed
qed

subsection \<open>The loop\<close>

definition identity_at :: "'w machine \<Rightarrow> u64 \<Rightarrow> ('w machine \<Rightarrow> u64 \<Rightarrow> u64) option \<Rightarrow> u64 \<Rightarrow> bool" where
  "identity_at m r al x = (case gxos_vm_paging_query_root m r x al of (status, mapping) \<Rightarrow>
     status = GXOS_VM_PAGING_STATUS_OK \<and> mp_present mapping \<and> mp_physical_base mapping = x)"

lemma unat_and_mask: "unat ((x :: u64) AND mask k) = unat x mod 2 ^ k"
  unfolding take_bit_eq_mask [symmetric] by (subst unsigned_take_bit_eq) (rule take_bit_eq_mod)

lemma low_canonical: "unat x < 2 ^ 47 \<Longrightarrow> canonical48 x"
  by (simp add: canonical48_nat)

lemma aligned_offset:
  assumes "k \<in> {12, 21, 30 :: nat}" and "unat (b :: u64) mod 2 ^ k = 0"
  shows "unat (b + (x AND mask k)) = unat b + unat x mod 2 ^ k"
proof -
  obtain q where q: "unat b = 2 ^ k * q" using assms(2) by auto
  have "unat x mod 2 ^ k < 2 ^ k" by simp
  moreover have "2 ^ k * q + 2 ^ k \<le> 2 ^ 64"
  proof -
    have "2 ^ k * q < 2 ^ 64" using unat_lt_2p64 [of b] q by simp
    moreover have "(2 :: nat) ^ 64 = 2 ^ k * 2 ^ (64 - k)" using assms(1) by auto
    ultimately have "2 ^ k * q < 2 ^ k * 2 ^ (64 - k)" by simp
    then have "q < 2 ^ (64 - k)" by simp
    then have "2 ^ k * (q + 1) \<le> 2 ^ k * 2 ^ (64 - k)" by (intro mult_le_mono2) simp
    with \<open>(2 :: nat) ^ 64 = 2 ^ k * 2 ^ (64 - k)\<close> show ?thesis by simp
  qed
  ultimately have "unat b + unat (x AND mask k) < 2 ^ 64"
    unfolding q unat_and_mask by linarith
  then show ?thesis by (simp add: unat_add_fits unat_and_mask)
qed

text \<open>One step: a mapping that the audit accepts translates its whole page to itself.\<close>

lemma audit_page:
  assumes q: "gxos_vm_paging_query_root m r a al = (GXOS_VM_PAGING_STATUS_OK, mp)"
    and base: "mp_physical_base mp = (a AND NOT (mp_page_size mp - 1))" and low: "unat a < 2 ^ 32"
    and x: "unat a \<le> unat x" "unat x < unat a + unat (mp_page_size mp)"
  shows "identity_at m r al x"
proof -
  from query_same_page [OF q] obtain e k where k: "mp_page_size mp = 2 ^ k" "k \<in> {12, 21, 30}"
    and pb: "mp_physical_base mp = (entry_address e AND NOT (mask k)) + (a AND mask k)"
    and same: "\<And>x. canonical48 x \<Longrightarrow> unat x div 2 ^ k = unat a div 2 ^ k \<Longrightarrow>
       gxos_vm_paging_query_root m r x al =
         (GXOS_VM_PAGING_STATUS_OK, mp\<lparr> mp_physical_base := (entry_address e AND NOT (mask k)) + (x AND mask k) \<rparr>)"
    by blast
  define b where "b = entry_address e AND NOT (mask k)"
  have b: "unat b mod 2 ^ k = 0"
    unfolding b_def unat_and_not_mask by (simp add: minus_mod_eq_mult_div)
  have ps: "mp_page_size mp - 1 = mask k" by (simp add: k(1) mask_eq_exp_minus_1)
  have u: "unat (mp_page_size mp) = 2 ^ k" using k by auto
  have "unat b + unat a mod 2 ^ k = unat a - unat a mod 2 ^ k"
    using arg_cong [OF base, of unat] aligned_offset [OF k(2) b, of a]
    by (simp add: pb ps unat_and_not_mask flip: b_def)
  moreover have "(unat b + unat a mod 2 ^ k) mod 2 ^ k = unat a mod 2 ^ k"
    using b by (metis add_0 mod_add_left_eq mod_mod_trivial)
  moreover have "(unat a - unat a mod 2 ^ k) mod 2 ^ k = 0" by (simp add: minus_mod_eq_mult_div)
  ultimately have a0: "unat a mod 2 ^ k = 0" by metis
  with \<open>unat b + unat a mod 2 ^ k = unat a - unat a mod 2 ^ k\<close> have ba: "unat b = unat a" by simp
  obtain j where j: "unat a = 2 ^ k * j" using a0 by auto
  obtain d where d: "unat x = 2 ^ k * j + d" "d < 2 ^ k"
    using x u j by (metis add_less_cancel_left le_Suc_ex)
  have "2 ^ k \<le> (2 :: nat) ^ 30" using k(2) by auto
  then have "unat x < 2 ^ 47" using x u low by (simp add: order_less_le_trans)
  moreover have "unat x div 2 ^ k = unat a div 2 ^ k" using d by (simp add: j)
  ultimately have "gxos_vm_paging_query_root m r x al =
      (GXOS_VM_PAGING_STATUS_OK, mp\<lparr> mp_physical_base := b + (x AND mask k) \<rparr>)"
    using same [OF low_canonical] by (simp add: b_def)
  moreover have "b + (x AND mask k) = x"
    using aligned_offset [OF k(2) b, of x] d by (simp add: unat_eq_iff ba j)
  moreover have "mp_present mp" using query_root_page_size [OF q] by simp
  ultimately show ?thesis by (simp add: identity_at_def)
qed

lemma audit_loop_sound:
  assumes "au_direct_identity_bytes audit = address" "unat address \<le> 5 * 2 ^ 30"
    and "\<And>x. unat x < unat address \<Longrightarrow> identity_at m (au_cr3 audit AND GXOS_X64_PAGING_PHYSICAL_MASK) al x"
  shows "au_cr3 (audit_loop m al audit address) = au_cr3 audit \<and>
    unat (au_direct_identity_bytes (audit_loop m al audit address)) \<le> 5 * 2 ^ 30 \<and>
    (\<forall>x. unat x < unat (au_direct_identity_bytes (audit_loop m al audit address)) \<longrightarrow>
       identity_at m (au_cr3 audit AND GXOS_X64_PAGING_PHYSICAL_MASK) al x)"
  using assms
proof (induction m al audit address rule: audit_loop.induct)
  case (1 m al audit address)
  let ?r = "au_cr3 audit AND GXOS_X64_PAGING_PHYSICAL_MASK"
  obtain st mp where q: "gxos_vm_paging_query_root m ?r address al = (st, mp)" by force
  show ?case
  proof (cases "address < 0x100000000 \<and> st = GXOS_VM_PAGING_STATUS_OK \<and> mp_present mp \<and>
      mp_physical_base mp = (address AND NOT (mp_page_size mp - 1))")
    case False
    then have "audit_loop m al audit address = audit" using q by (subst audit_loop.simps) auto
    with "1.prems" show ?thesis by simp
  next
    case True
    then have low: "unat address < 2 ^ 32" and st: "st = GXOS_VM_PAGING_STATUS_OK" "mp_present mp"
      and base: "mp_physical_base mp = (address AND NOT (mp_page_size mp - 1))" by (auto simp: word_less_nat_alt)
    define audit' where "audit' = audit
      \<lparr> au_direct_identity_bytes := au_direct_identity_bytes audit + mp_page_size mp,
        au_page_4k_count := (if mp_page_size mp = GXOS_VM_PAGE_SIZE then au_page_4k_count audit + 1 else au_page_4k_count audit),
        au_page_2m_count := (if mp_page_size mp = 0x200000 then au_page_2m_count audit + 1 else au_page_2m_count audit),
        au_page_1g_count := (if mp_page_size mp = 0x40000000 then au_page_1g_count audit + 1 else au_page_1g_count audit) \<rparr>"
    have "mp_page_size mp \<in> {0x1000, 0x200000, 0x40000000}"
      using query_root_page_size [of m ?r address al mp] q st by simp
    then have ps: "unat (mp_page_size mp) \<le> 2 ^ 30" by auto
    then have fit: "add_u64 address (mp_page_size mp) = Some (address + mp_page_size mp)"
      "unat (address + mp_page_size mp) = unat address + unat (mp_page_size mp)"
      using low by (simp_all add: add_u64_Some_iff unat_add_fits)
    have unfold: "audit_loop m al audit address = audit_loop m al audit' (address + mp_page_size mp)"
      using q True fit by (subst audit_loop.simps) (simp add: audit'_def Let_def)
    have "au_cr3 (audit_loop m al audit' (address + mp_page_size mp)) = au_cr3 audit' \<and>
      unat (au_direct_identity_bytes (audit_loop m al audit' (address + mp_page_size mp))) \<le> 5 * 2 ^ 30 \<and>
      (\<forall>x. unat x < unat (au_direct_identity_bytes (audit_loop m al audit' (address + mp_page_size mp))) \<longrightarrow>
         identity_at m (au_cr3 audit' AND GXOS_X64_PAGING_PHYSICAL_MASK) al x)"
    proof (rule "1.IH" [OF _ q [symmetric] _ _ audit'_def fit(1)])
      show "identity_at m (au_cr3 audit' AND GXOS_X64_PAGING_PHYSICAL_MASK) al x"
        if "unat x < unat (address + mp_page_size mp)" for x
      proof (cases "unat x < unat address")
        case True
        with "1.prems" show ?thesis by (simp add: audit'_def)
      next
        case False
        with that fit(2) audit_page [OF q [unfolded st(1)] base low, of x] show ?thesis by (simp add: audit'_def)
      qed
    qed (use True "1.prems" low ps fit in \<open>auto simp: audit'_def\<close>)
    then show ?thesis unfolding unfold by (simp add: audit'_def)
  qed
qed

subsection \<open>The property\<close>

text \<open>
  C12. \<open>gxos_vm_paging_audit_current\<close>, given a physical alias, reports the current root, reports at most
  5 GiB (the scan starts a page only below 4 GiB), and every address below the number of bytes it reports is
  present and translated to itself by the four-level walk from that root, whatever mixture of 4 KiB, 2 MiB and
  1 GiB pages the firmware used.
\<close>

theorem paging_audit_identity:
  assumes "gxos_vm_paging_audit_current m old (Some al) = (st, audit)"
  shows "st = GXOS_VM_PAGING_STATUS_OK \<and> au_cr3 audit = mc_cr3 m \<and>
    unat (au_direct_identity_bytes audit) \<le> 5 * 2 ^ 30 \<and>
    (\<forall>x. unat x < unat (au_direct_identity_bytes audit) \<longrightarrow>
       identity_at m (mc_cr3 m AND GXOS_X64_PAGING_PHYSICAL_MASK) (Some al) x)"
proof -
  define start where "start = zero_audit
    \<lparr> au_cr0 := mc_cr0 m, au_cr3 := mc_cr3 m, au_cr4 := mc_cr4 m, au_efer := mc_efer m,
      au_pae_enabled := mc_cr4 m AND push_bit 5 1 \<noteq> 0, au_la57_enabled := mc_cr4 m AND push_bit 12 1 \<noteq> 0,
      au_nx_enabled := mc_efer m AND push_bit 11 1 \<noteq> 0 \<rparr>"
  have a: "st = GXOS_VM_PAGING_STATUS_OK" "audit = audit_loop m (Some al) start 0"
    using assms by (simp_all add: gxos_vm_paging_audit_current_def current_control_state_def start_def)
  have cr3: "au_cr3 start = mc_cr3 m" by (simp add: start_def)
  have "au_direct_identity_bytes start = 0" by (simp add: start_def zero_audit_def)
  from audit_loop_sound [OF this, of m "Some al"] show ?thesis
    unfolding a(2) by (simp add: a(1) cr3)
qed

definition gigabyte_machine :: "unit machine" where
  "gigabyte_machine = \<lparr> mc_cells = (\<lambda>x. if x = 0x1000 then 0x2003 else if x = 0x2000 then 0x83 else 0),
     mc_cr0 = 0, mc_cr3 = 0x1000, mc_cr4 = 0x20, mc_efer = 0, mc_invlpg = [], mc_world = () \<rparr>"

lemma gigabyte_audit:
  "au_direct_identity_bytes (snd (gxos_vm_paging_audit_current gigabyte_machine zero_audit (Some (\<lambda>_ x. x)))) = 0x40000000"
  by (simp add: gxos_vm_paging_audit_current_def current_control_state_def audit_loop.simps zero_audit_def
      gxos_vm_paging_query_root_def canonical48_def table_alias_def table_get_def pml4_index_def pdpt_index_def
      entry_address_def gigabyte_machine_def add_u64_def)

theorem paging_audit_identity_witness:
  "identity_at gigabyte_machine 0x1000 (Some (\<lambda>_ x. x)) 0x3FFFFFFF"
  using paging_audit_identity [of gigabyte_machine zero_audit "\<lambda>_ x. x", OF surjective_pairing] gigabyte_audit
  by (simp add: gigabyte_machine_def)

end
