(* ===== verification/Scheduler_Types.thy ===== *)
theory Scheduler_Types
  imports Prelude
begin

text \<open>
  The data of the cooperative scheduler, \<open>src/src/Gate4Harness/scheduler_foundation.h\<close>, and the
  memory, handle and object-table helpers at the top of \<open>scheduler_foundation.c\<close>.

  The scheduler is single-instance: \<open>'w sched\<close> is the one \<open>GXOS_SCHEDULER\<close> together with the flag
  \<open>g_scheduler\<close> that says whether the global pointer is set to it, and the machine the code
  touches: byte-addressed memory, the GS base register, the flags and the stack pointer, the
  link-time addresses of the two assembly entry points, and the state \<open>'w\<close> of the services
  (page allocator, clock, registration of stacks). A callback is \<open>None\<close> when its pointer is null.
  Pointers into the scheduler's own arrays are slot numbers, \<open>None\<close> for null; an object's \<open>void *\<close>
  target names the array and the slot. The pointer arrays with a count (\<open>runnable_queue\<close>,
  \<open>waiters\<close>) are lists of exactly \<open>count\<close> slots: the code keeps the rest of the array null and
  never reads it. The log callbacks, which the code only stores, are left
  out, so are fields that nothing reads and the branches of the host-test build.
\<close>

abbreviation (input) GXOS_SCHEDULER_MAX_THREADS :: nat where "GXOS_SCHEDULER_MAX_THREADS \<equiv> 6"
abbreviation (input) GXOS_SCHEDULER_MAX_EVENTS :: nat where "GXOS_SCHEDULER_MAX_EVENTS \<equiv> 12"
abbreviation (input) GXOS_SCHEDULER_MAX_MEMORY_RESOURCE_NOTIFICATIONS :: nat where
  "GXOS_SCHEDULER_MAX_MEMORY_RESOURCE_NOTIFICATIONS \<equiv> 1"
abbreviation (input) GXOS_SCHEDULER_MAX_OBJECTS :: nat where "GXOS_SCHEDULER_MAX_OBJECTS \<equiv> 16"
abbreviation (input) GXOS_SCHEDULER_MAX_WAITERS :: nat where "GXOS_SCHEDULER_MAX_WAITERS \<equiv> 6"
abbreviation (input) GXOS_SCHEDULER_MAX_WAIT_RECORDS :: nat where "GXOS_SCHEDULER_MAX_WAIT_RECORDS \<equiv> 6"
abbreviation (input) GXOS_SCHEDULER_FLS_SLOTS :: nat where "GXOS_SCHEDULER_FLS_SLOTS \<equiv> 64"
abbreviation (input) GXOS_SCHEDULER_PAGE_SIZE :: u64 where "GXOS_SCHEDULER_PAGE_SIZE \<equiv> 4096"
abbreviation (input) GXOS_SCHEDULER_STACK_SIZE :: u64 where "GXOS_SCHEDULER_STACK_SIZE \<equiv> 16384"
abbreviation (input) GXOS_SCHEDULER_STACK_PAGES :: u64 where "GXOS_SCHEDULER_STACK_PAGES \<equiv> 4"
abbreviation (input) GXOS_SCHEDULER_CANARY_BYTES :: u64 where "GXOS_SCHEDULER_CANARY_BYTES \<equiv> 16"
abbreviation (input) GXOS_SCHEDULER_HANDLE_MAGIC :: u8 where "GXOS_SCHEDULER_HANDLE_MAGIC \<equiv> 0xA7"
abbreviation (input) GXOS_SCHEDULER_TLS_OFFSET :: u64 where "GXOS_SCHEDULER_TLS_OFFSET \<equiv> 0x100"
abbreviation (input) GXOS_WAIT_OBJECT_0 :: u32 where "GXOS_WAIT_OBJECT_0 \<equiv> 0"
abbreviation (input) GXOS_WAIT_TIMEOUT :: u32 where "GXOS_WAIT_TIMEOUT \<equiv> 0x102"
abbreviation (input) GXOS_WAIT_FAILED :: u32 where "GXOS_WAIT_FAILED \<equiv> 0xFFFFFFFF"
abbreviation (input) GXOS_INFINITE :: u32 where "GXOS_INFINITE \<equiv> 0xFFFFFFFF"

abbreviation (input) GXOS_SCHEDULER_OBJECT_THREAD :: u8 where "GXOS_SCHEDULER_OBJECT_THREAD \<equiv> 1"
abbreviation (input) GXOS_SCHEDULER_OBJECT_EVENT :: u8 where "GXOS_SCHEDULER_OBJECT_EVENT \<equiv> 2"
abbreviation (input) GXOS_SCHEDULER_OBJECT_MEMORY_RESOURCE_NOTIFICATION :: u8 where
  "GXOS_SCHEDULER_OBJECT_MEMORY_RESOURCE_NOTIFICATION \<equiv> 3"
abbreviation (input) GXOS_SCHEDULER_OBJECT_STANDARD_STREAM :: u8 where
  "GXOS_SCHEDULER_OBJECT_STANDARD_STREAM \<equiv> 4"

abbreviation (input) GXOS_SCHEDULER_STANDARD_STREAM_ROLE_INPUT :: u8 where
  "GXOS_SCHEDULER_STANDARD_STREAM_ROLE_INPUT \<equiv> 1"
abbreviation (input) GXOS_SCHEDULER_STANDARD_STREAM_ROLE_OUTPUT :: u8 where
  "GXOS_SCHEDULER_STANDARD_STREAM_ROLE_OUTPUT \<equiv> 2"
abbreviation (input) GXOS_SCHEDULER_STANDARD_STREAM_ROLE_ERROR :: u8 where
  "GXOS_SCHEDULER_STANDARD_STREAM_ROLE_ERROR \<equiv> 4"
abbreviation (input) GXOS_SCHEDULER_STANDARD_STREAM_BACKEND_NONE :: u8 where
  "GXOS_SCHEDULER_STANDARD_STREAM_BACKEND_NONE \<equiv> 0"

definition GXOS_SCHEDULER_WORKER_GPR_SENTINEL :: "u64 \<Rightarrow> u64" where
  "GXOS_SCHEDULER_WORKER_GPR_SENTINEL index = 0x5757000000000000 + index"

type_synonym GXOS_SCHEDULER_HANDLE = u64

record GXOS_SCHEDULER_CONTEXT =
  cx_rbx :: u64
  cx_rbp :: u64
  cx_rsi :: u64
  cx_rdi :: u64
  cx_r12 :: u64
  cx_r13 :: u64
  cx_r14 :: u64
  cx_r15 :: u64
  cx_rsp :: u64
  cx_rip :: u64
  cx_rflags :: u64
  cx_mxcsr :: u32
  cx_x87_control :: u16
  cx_gs_base :: u64
  cx_xmm :: "u8 list list"

datatype GXOS_SCHEDULER_THREAD_STATE =
    GXOS_SCHEDULER_THREAD_FREE
  | GXOS_SCHEDULER_THREAD_CREATED_SUSPENDED
  | GXOS_SCHEDULER_THREAD_RUNNABLE
  | GXOS_SCHEDULER_THREAD_RUNNING
  | GXOS_SCHEDULER_THREAD_BLOCKED
  | GXOS_SCHEDULER_THREAD_TERMINATED

datatype GXOS_SCHEDULER_WAIT_RESULT =
    GXOS_SCHEDULER_WAIT_FAILURE
  | GXOS_SCHEDULER_WAIT_BLOCKED
  | GXOS_SCHEDULER_WAIT_SIGNALED
  | GXOS_SCHEDULER_WAIT_TIMED_OUT

datatype GXOS_SCHEDULER_WAIT_KIND =
    GXOS_SCHEDULER_WAIT_KIND_NONE
  | GXOS_SCHEDULER_WAIT_KIND_EVENT

text \<open>What \<open>void *target\<close> of an object and the \<open>GXOS_SCHEDULER_WAITABLE *\<close> of a record point to.\<close>

datatype object_target =
    Target_Null
  | Target_Thread nat
  | Target_Event nat
  | Target_Notification nat
  | Target_Stream

datatype waitable_ref = Waitable_Event nat | Waitable_Notification nat

text \<open>
  \<open>old_context\<close> is the address of a thread's \<open>saved_context\<close>, \<open>new_context\<close> the value of one; a
  context pointer is the slot of the thread that holds the context.
\<close>

record GXOS_SCHEDULER_SWITCH_PLAN =
  sp_old_context :: nat
  sp_new_context :: "nat option"

record GXOS_SCHEDULER_OBJECT =
  ob_live :: bool
  ob_type :: u8
  ob_close_state :: bool
  ob_generation :: u16
  ob_slot :: nat
  ob_public_handle_refs :: u32
  ob_internal_refs :: u32
  ob_target :: object_target

record GXOS_SCHEDULER_WAITABLE =
  wt_live :: bool
  wt_manual_reset :: bool
  wt_signaled :: bool
  wt_generation :: u16
  wt_object_slot :: nat
  wt_waiters :: "nat list"

record GXOS_SCHEDULER_WAIT_RECORD =
  wr_valid :: bool
  wr_active :: bool
  wr_completed :: bool
  wr_waiter_linked :: bool
  wr_pin_held :: bool
  wr_wait_kind :: GXOS_SCHEDULER_WAIT_KIND
  wr_timeout_armed :: bool
  wr_generation :: u32
  wr_waiting_identity :: u32
  wr_waiting_thread_slot :: nat
  wr_waiting_thread_generation :: u16
  wr_object_slot :: nat
  wr_object_generation :: u16
  wr_waiter_index :: u32
  wr_completion_result :: u32
  wr_deadline_ms :: u64
  wr_thread :: "nat option"
  wr_object :: "nat option"
  wr_waitable :: "waitable_ref option"

record GXOS_SCHEDULER_MEMORY_RESOURCE_NOTIFICATION =
  mn_live :: bool
  mn_close_state :: bool
  mn_generation :: u16
  mn_object_slot :: nat
  mn_registry_slot :: nat
  mn_notification_type :: u32
  mn_waitable :: GXOS_SCHEDULER_WAITABLE

record GXOS_SCHEDULER_STANDARD_STREAM =
  st_live :: bool
  st_role_mask :: u8
  st_backend :: u8
  st_capabilities :: u8
  st_generation :: u16
  st_object_slot :: nat
  st_handle :: GXOS_SCHEDULER_HANDLE

record GXOS_SCHEDULER_TCB =
  th_live :: bool
  th_is_boot_thread :: bool
  th_environment_owned :: bool
  th_identity :: u32
  th_generation :: u16
  th_object_slot :: nat
  th_state :: GXOS_SCHEDULER_THREAD_STATE
  th_runnable_queued :: bool
  th_suspend_count :: u32
  th_relative_priority :: int
  th_public_handle_refs :: u32
  th_execution_refs :: u32
  th_execution_count :: u64
  th_deferred_reclaim :: bool
  th_context :: GXOS_SCHEDULER_CONTEXT
  th_saved_context :: "nat option"
  th_entry :: u64
  th_entry_argument :: u64
  th_return_value :: u64
  th_stack_base :: u64
  th_stack_limit :: u64
  th_initial_rsp :: u64
  th_stack_pages_memory :: u64
  th_stack_canary_memory :: u64
  th_stack_vm_identity :: u64
  th_teb_base :: u64
  th_gs_base :: u64
  th_tls_vector_base :: u64
  th_tls_block_base :: u64
  th_fls_values :: "u64 list"
  th_fls_allocated :: "u8 list"
  th_last_error :: u32
  th_com_initialized :: bool
  th_com_model :: u8
  th_com_ancillary_flags :: u8
  th_com_initialization_count :: u32
  th_com_generation :: u16
  th_blocked_object :: GXOS_SCHEDULER_HANDLE
  th_blocked_result :: GXOS_SCHEDULER_WAIT_RESULT
  th_wait_record :: "nat option"
  th_low_canary :: "u8 list"
  th_high_canary :: "u8 list"

record 'w GXOS_SCHEDULER =
  sc_allocate_pages :: "('w \<Rightarrow> u64 \<Rightarrow> u64 \<times> u64 \<times> 'w) option"
  sc_free_pages :: "('w \<Rightarrow> u64 \<Rightarrow> u64 \<Rightarrow> 'w) option"
  sc_now_ms :: "('w \<Rightarrow> bool \<times> u64 \<times> 'w) option"
  sc_register_stack_vm :: "('w \<Rightarrow> u64 \<Rightarrow> u64 \<Rightarrow> bool \<times> u64 \<times> 'w) option"
  sc_unregister_stack_vm :: "('w \<Rightarrow> u64 \<Rightarrow> u64 \<Rightarrow> u64 \<Rightarrow> bool \<times> 'w) option"
  sc_threads :: "GXOS_SCHEDULER_TCB list"
  sc_wait_records :: "GXOS_SCHEDULER_WAIT_RECORD list"
  sc_events :: "GXOS_SCHEDULER_WAITABLE list"
  sc_memory_resource_notifications :: "GXOS_SCHEDULER_MEMORY_RESOURCE_NOTIFICATION list"
  sc_standard_stream :: GXOS_SCHEDULER_STANDARD_STREAM
  sc_standard_input_handle :: GXOS_SCHEDULER_HANDLE
  sc_standard_output_handle :: GXOS_SCHEDULER_HANDLE
  sc_standard_error_handle :: GXOS_SCHEDULER_HANDLE
  sc_objects :: "GXOS_SCHEDULER_OBJECT list"
  sc_runnable_queue :: "nat list"
  sc_current :: "nat option"
  sc_boot_thread :: "nat option"
  sc_next_identity :: u32
  sc_next_wait_generation :: u32
  sc_active_wait_count :: u32
  sc_saved_boot_gs_base :: u64
  sc_saved_boot_flags :: u64
  sc_boot_stack_lower :: u64
  sc_boot_stack_upper :: u64
  sc_active :: bool
  sc_pending_wait_timeout_armed :: bool
  sc_pending_wait_deadline_ms :: u64
  sc_pending_plan :: "GXOS_SCHEDULER_SWITCH_PLAN option"

record 'w sched = "'w GXOS_SCHEDULER" +
  g_scheduler :: bool
  sy_memory :: "u64 \<Rightarrow> u8"
  sy_gs_base :: u64
  sy_flags :: u64
  sy_rsp :: u64
  sy_start_worker :: u64
  sy_invalid_thread_return :: u64
  sy_world :: 'w

end
