(* ===== verification/Scheduler_Base.thy ===== *)
theory Scheduler_Base
  imports Scheduler_Types
begin

text \<open>
  The internal helpers of \<open>src/src/Gate4Harness/scheduler_foundation.c\<close>, in the order of the
  file: memory and pages, handles and the object table, canaries and thread environments, the
  runnable queue and the round-robin choice, wait lists and wait records.
\<close>

subsection \<open>Zeroed storage\<close>

definition zero_context :: GXOS_SCHEDULER_CONTEXT where
  "zero_context = \<lparr> cx_rbx = 0, cx_rbp = 0, cx_rsi = 0, cx_rdi = 0, cx_r12 = 0, cx_r13 = 0, cx_r14 = 0,
     cx_r15 = 0, cx_rsp = 0, cx_rip = 0, cx_rflags = 0, cx_mxcsr = 0, cx_x87_control = 0, cx_gs_base = 0,
     cx_xmm = replicate 10 (replicate 16 0) \<rparr>"

definition zero_object :: GXOS_SCHEDULER_OBJECT where
  "zero_object = \<lparr> ob_live = False, ob_type = 0, ob_close_state = False, ob_generation = 0, ob_slot = 0,
     ob_public_handle_refs = 0, ob_internal_refs = 0, ob_target = Target_Null \<rparr>"

definition zero_waitable :: GXOS_SCHEDULER_WAITABLE where
  "zero_waitable = \<lparr> wt_live = False, wt_manual_reset = False, wt_signaled = False, wt_generation = 0,
     wt_object_slot = 0, wt_waiters = [] \<rparr>"

definition zero_wait_record :: GXOS_SCHEDULER_WAIT_RECORD where
  "zero_wait_record = \<lparr> wr_valid = False, wr_active = False, wr_completed = False, wr_waiter_linked = False,
     wr_pin_held = False, wr_wait_kind = GXOS_SCHEDULER_WAIT_KIND_NONE, wr_timeout_armed = False,
     wr_generation = 0, wr_waiting_identity = 0, wr_waiting_thread_slot = 0, wr_waiting_thread_generation = 0,
     wr_object_slot = 0, wr_object_generation = 0, wr_waiter_index = 0, wr_completion_result = 0,
     wr_deadline_ms = 0, wr_thread = None, wr_object = None, wr_waitable = None \<rparr>"

definition zero_notification :: GXOS_SCHEDULER_MEMORY_RESOURCE_NOTIFICATION where
  "zero_notification = \<lparr> mn_live = False, mn_close_state = False, mn_generation = 0, mn_object_slot = 0,
     mn_registry_slot = 0, mn_notification_type = 0, mn_waitable = zero_waitable \<rparr>"

definition zero_standard_stream :: GXOS_SCHEDULER_STANDARD_STREAM where
  "zero_standard_stream = \<lparr> st_live = False, st_role_mask = 0, st_backend = 0, st_capabilities = 0,
     st_generation = 0, st_object_slot = 0, st_handle = 0 \<rparr>"

text \<open>\<open>blocked_result\<close> zeroed is the enumerator with value 0.\<close>

definition zero_tcb :: GXOS_SCHEDULER_TCB where
  "zero_tcb = \<lparr> th_live = False, th_is_boot_thread = False, th_environment_owned = False, th_identity = 0,
     th_generation = 0, th_object_slot = 0, th_state = GXOS_SCHEDULER_THREAD_FREE, th_runnable_queued = False,
     th_suspend_count = 0, th_relative_priority = 0, th_public_handle_refs = 0, th_execution_refs = 0,
     th_execution_count = 0, th_deferred_reclaim = False, th_context = zero_context, th_saved_context = None,
     th_entry = 0, th_entry_argument = 0, th_return_value = 0, th_stack_base = 0, th_stack_limit = 0,
     th_initial_rsp = 0, th_stack_pages_memory = 0, th_stack_canary_memory = 0, th_stack_vm_identity = 0,
     th_teb_base = 0, th_gs_base = 0, th_tls_vector_base = 0, th_tls_block_base = 0,
     th_fls_values = replicate GXOS_SCHEDULER_FLS_SLOTS 0, th_fls_allocated = replicate GXOS_SCHEDULER_FLS_SLOTS 0,
     th_last_error = 0, th_com_initialized = False, th_com_model = 0, th_com_ancillary_flags = 0,
     th_com_initialization_count = 0, th_com_generation = 0, th_blocked_object = 0,
     th_blocked_result = GXOS_SCHEDULER_WAIT_BLOCKED, th_wait_record = None,
     th_low_canary = replicate 16 0, th_high_canary = replicate 16 0 \<rparr>"

subsection \<open>Access to the arrays\<close>

definition upd_thread :: "nat \<Rightarrow> (GXOS_SCHEDULER_TCB \<Rightarrow> GXOS_SCHEDULER_TCB) \<Rightarrow> 'w sched \<Rightarrow> 'w sched" where
  "upd_thread t f s = s\<lparr> sc_threads := (sc_threads s)[t := f (sc_threads s ! t)] \<rparr>"

definition upd_record ::
    "nat \<Rightarrow> (GXOS_SCHEDULER_WAIT_RECORD \<Rightarrow> GXOS_SCHEDULER_WAIT_RECORD) \<Rightarrow> 'w sched \<Rightarrow> 'w sched" where
  "upd_record r f s = s\<lparr> sc_wait_records := (sc_wait_records s)[r := f (sc_wait_records s ! r)] \<rparr>"

definition upd_event ::
    "nat \<Rightarrow> (GXOS_SCHEDULER_WAITABLE \<Rightarrow> GXOS_SCHEDULER_WAITABLE) \<Rightarrow> 'w sched \<Rightarrow> 'w sched" where
  "upd_event e f s = s\<lparr> sc_events := (sc_events s)[e := f (sc_events s ! e)] \<rparr>"

definition upd_notification ::
    "nat \<Rightarrow> (GXOS_SCHEDULER_MEMORY_RESOURCE_NOTIFICATION \<Rightarrow> GXOS_SCHEDULER_MEMORY_RESOURCE_NOTIFICATION) \<Rightarrow>
     'w sched \<Rightarrow> 'w sched" where
  "upd_notification n f s = s\<lparr> sc_memory_resource_notifications :=
     (sc_memory_resource_notifications s)[n := f (sc_memory_resource_notifications s ! n)] \<rparr>"

definition upd_object :: "nat \<Rightarrow> (GXOS_SCHEDULER_OBJECT \<Rightarrow> GXOS_SCHEDULER_OBJECT) \<Rightarrow> 'w sched \<Rightarrow> 'w sched" where
  "upd_object i f s = s\<lparr> sc_objects := (sc_objects s)[i := f (sc_objects s ! i)] \<rparr>"

definition waitable_at :: "'w sched \<Rightarrow> waitable_ref \<Rightarrow> GXOS_SCHEDULER_WAITABLE" where
  "waitable_at s w = (case w of Waitable_Event e \<Rightarrow> sc_events s ! e
     | Waitable_Notification n \<Rightarrow> mn_waitable (sc_memory_resource_notifications s ! n))"

definition upd_waitable ::
    "waitable_ref \<Rightarrow> (GXOS_SCHEDULER_WAITABLE \<Rightarrow> GXOS_SCHEDULER_WAITABLE) \<Rightarrow> 'w sched \<Rightarrow> 'w sched" where
  "upd_waitable w f s = (case w of Waitable_Event e \<Rightarrow> upd_event e f s
     | Waitable_Notification n \<Rightarrow> upd_notification n (\<lambda>x. x\<lparr> mn_waitable := f (mn_waitable x) \<rparr>) s)"

definition valid_waitable :: "'w sched \<Rightarrow> waitable_ref \<Rightarrow> bool" where
  "valid_waitable s w = (case w of Waitable_Event e \<Rightarrow> e < length (sc_events s)
     | Waitable_Notification n \<Rightarrow> n < length (sc_memory_resource_notifications s))"

text \<open>The casts of \<open>object->target\<close>.\<close>

fun target_thread :: "object_target \<Rightarrow> nat option" where
  "target_thread (Target_Thread t) = Some t"
| "target_thread _ = None"

fun target_event :: "object_target \<Rightarrow> nat option" where
  "target_event (Target_Event e) = Some e"
| "target_event _ = None"

fun target_notification :: "object_target \<Rightarrow> nat option" where
  "target_notification (Target_Notification n) = Some n"
| "target_notification _ = None"

subsection \<open>Memory and pages\<close>

definition zero_bytes :: "(u64 \<Rightarrow> u8) \<Rightarrow> u64 \<Rightarrow> u64 \<Rightarrow> (u64 \<Rightarrow> u8)" where
  "zero_bytes mem destination count = (\<lambda>a. if a - destination < count then 0 else mem a)"

text \<open>\<open>*(uint64_t *)a\<close>, least significant byte first, and the store of a byte sequence.\<close>

definition read_u64 :: "(u64 \<Rightarrow> u8) \<Rightarrow> u64 \<Rightarrow> u64" where
  "read_u64 mem a = foldr (\<lambda>i v. push_bit 8 v OR ucast (mem (a + of_nat i))) [0..<8] 0"

definition write_bytes :: "(u64 \<Rightarrow> u8) \<Rightarrow> u64 \<Rightarrow> u8 list \<Rightarrow> (u64 \<Rightarrow> u8)" where
  "write_bytes mem base bs = (\<lambda>a. if unat (a - base) < length bs then bs ! unat (a - base) else mem a)"

definition write_u64 :: "(u64 \<Rightarrow> u8) \<Rightarrow> u64 \<Rightarrow> u64 \<Rightarrow> (u64 \<Rightarrow> u8)" where
  "write_u64 mem a v = write_bytes mem a (map (\<lambda>i. ucast (drop_bit (8 * i) v)) [0..<8])"

definition poke :: "u64 \<Rightarrow> u64 \<Rightarrow> 'w sched \<Rightarrow> 'w sched" where
  "poke a v s = s\<lparr> sy_memory := write_u64 (sy_memory s) a v \<rparr>"

definition set_gs_base :: "u64 \<Rightarrow> 'w sched \<Rightarrow> 'w sched" where
  "set_gs_base v s = s\<lparr> sy_gs_base := v \<rparr>"

definition restore_boot_flags :: "u64 \<Rightarrow> 'w sched \<Rightarrow> 'w sched" where
  "restore_boot_flags flags s = s\<lparr> sy_flags := flags \<rparr>"

definition page_allocate :: "'w sched \<Rightarrow> u64 \<times> 'w sched" where
  "page_allocate s =
     (case sc_allocate_pages s of
        None \<Rightarrow> (0, s)
      | Some allocate_pages \<Rightarrow>
          (case allocate_pages (sy_world s) 1 of (status, memory, w) \<Rightarrow>
             let s = s\<lparr> sy_world := w \<rparr> in
             if status \<noteq> 0 \<or> memory = 0 then (0, s)
             else (memory, s\<lparr> sy_memory := zero_bytes (sy_memory s) memory GXOS_SCHEDULER_PAGE_SIZE \<rparr>)))"

definition page_free :: "u64 \<Rightarrow> 'w sched \<Rightarrow> 'w sched" where
  "page_free memory s =
     (case sc_free_pages s of
        None \<Rightarrow> s
      | Some free_pages \<Rightarrow> if memory \<noteq> 0 then s\<lparr> sy_world := free_pages (sy_world s) memory 1 \<rparr> else s)"

subsection \<open>Handles and the object table\<close>

definition make_handle :: "u8 \<Rightarrow> nat \<Rightarrow> u16 \<Rightarrow> GXOS_SCHEDULER_HANDLE" where
  "make_handle type slot generation =
     push_bit 56 (ucast GXOS_SCHEDULER_HANDLE_MAGIC) OR push_bit 48 (ucast type) OR
     push_bit 16 (ucast generation) OR (of_nat slot + 1)"

definition decode_handle :: "GXOS_SCHEDULER_HANDLE \<Rightarrow> u8 \<Rightarrow> (nat \<times> u16) option" where
  "decode_handle handle expected_type =
     (let magic = (ucast (drop_bit 56 handle) :: u8);
          type = (ucast (drop_bit 48 handle) :: u8);
          decoded_slot = unat (ucast (handle AND 0xFFFF) :: u16);
          decoded_generation = (ucast (drop_bit 16 handle) :: u16)
      in if magic \<noteq> GXOS_SCHEDULER_HANDLE_MAGIC \<or> type \<noteq> expected_type \<or> decoded_slot = 0 \<or>
            decoded_slot > GXOS_SCHEDULER_MAX_OBJECTS \<or> decoded_generation = 0
         then None else Some (decoded_slot - 1, decoded_generation))"

definition lookup_object :: "'w sched \<Rightarrow> GXOS_SCHEDULER_HANDLE \<Rightarrow> u8 \<Rightarrow> nat option" where
  "lookup_object s handle expected_type =
     (if \<not> g_scheduler s then None
      else case decode_handle handle expected_type of
        None \<Rightarrow> None
      | Some (slot, generation) \<Rightarrow>
          let object = sc_objects s ! slot in
          if \<not> ob_live object \<or> ob_type object \<noteq> expected_type \<or> ob_generation object \<noteq> generation
          then None else Some slot)"

definition next_object_generation :: "u16 \<Rightarrow> u16" where
  "next_object_generation g = (if g + 1 = 0 then 1 else g + 1)"

definition allocate_object ::
    "u8 \<Rightarrow> object_target \<Rightarrow> 'w sched \<Rightarrow> (nat \<times> GXOS_SCHEDULER_HANDLE) option \<times> 'w sched" where
  "allocate_object type target s =
     (if \<not> g_scheduler s then (None, s)
      else case find_index (\<lambda>ob. \<not> ob_live ob) (sc_objects s) of
        None \<Rightarrow> (None, s)
      | Some index \<Rightarrow>
          let generation = next_object_generation (ob_generation (sc_objects s ! index)) in
          (Some (index, make_handle type index generation),
           upd_object index (\<lambda>_. zero_object
             \<lparr> ob_live := True, ob_type := type, ob_generation := generation, ob_slot := index,
               ob_public_handle_refs := 1, ob_internal_refs := 1, ob_target := target \<rparr>) s))"

definition release_object_record :: "nat \<Rightarrow> 'w sched \<Rightarrow> 'w sched" where
  "release_object_record slot s =
     upd_object slot (\<lambda>ob. zero_object\<lparr> ob_generation := ob_generation ob \<rparr>) s"

subsection \<open>Canaries and thread environments\<close>

definition set_canaries :: "nat \<Rightarrow> 'w sched \<Rightarrow> 'w sched" where
  "set_canaries t s =
     (let s = upd_thread t (\<lambda>x. x\<lparr> th_low_canary := map (\<lambda>i. 0xC1 + of_nat i) [0..<16],
                                  th_high_canary := map (\<lambda>i. 0xD7 + of_nat i) [0..<16] \<rparr>) s;
          thread = sc_threads s ! t
      in s\<lparr> sy_memory := fold (\<lambda>index mem. mem
             (th_stack_canary_memory thread + of_nat index := th_low_canary thread ! index,
              th_stack_limit thread - GXOS_SCHEDULER_CANARY_BYTES + of_nat index := th_high_canary thread ! index))
             [0..<16] (sy_memory s) \<rparr>)"

definition gxos_scheduler_check_canaries :: "'w sched \<Rightarrow> nat option \<Rightarrow> bool" where
  "gxos_scheduler_check_canaries s pointer =
     (case pointer of
        None \<Rightarrow> False
      | Some t \<Rightarrow>
          let thread = sc_threads s ! t in
          if \<not> th_live thread \<or> th_stack_base thread = 0 \<or> th_stack_canary_memory thread = 0 \<or>
             th_stack_limit thread \<le> th_stack_base thread + GXOS_SCHEDULER_CANARY_BYTES
          then False
          else list_all (\<lambda>index.
                 sy_memory s (th_stack_canary_memory thread + of_nat index) = th_low_canary thread ! index \<and>
                 sy_memory s (th_stack_limit thread - GXOS_SCHEDULER_CANARY_BYTES + of_nat index) =
                   th_high_canary thread ! index) [0..<16])"

definition allocate_thread_environment :: "nat \<Rightarrow> 'w sched \<Rightarrow> bool \<times> 'w sched" where
  "allocate_thread_environment t s =
     (if \<not> g_scheduler s then (False, s)
      else case page_allocate s of (gs_area, s) \<Rightarrow>
           case page_allocate s of (vector, s) \<Rightarrow>
           case page_allocate s of (block, s) \<Rightarrow>
           case page_allocate s of (teb, s) \<Rightarrow>
      if gs_area = 0 \<or> vector = 0 \<or> block = 0 \<or> teb = 0
      then (False, page_free teb (page_free block (page_free vector (page_free gs_area s))))
      else
        let s = upd_thread t (\<lambda>x. x\<lparr> th_gs_base := gs_area, th_tls_vector_base := vector,
                                     th_tls_block_base := block, th_teb_base := teb \<rparr>) s;
            thread = sc_threads s ! t;
            s = poke vector block s;
            s = poke (gs_area + 0x30) teb s;
            s = poke (gs_area + 0x58) vector s;
            s = poke (teb + 0x08) (if th_is_boot_thread thread then sc_boot_stack_upper s else th_stack_limit thread) s;
            s = poke (teb + 0x10) (if th_is_boot_thread thread then sc_boot_stack_lower s else th_stack_base thread) s;
            s = poke (teb + 0x100) (ucast (th_identity thread)) s;
            s = s\<lparr> sy_memory := zero_bytes (sy_memory s) block GXOS_SCHEDULER_PAGE_SIZE \<rparr>
        in (True, upd_thread t (\<lambda>x. x\<lparr> th_environment_owned := True \<rparr>) s))"

definition free_thread_environment :: "nat \<Rightarrow> 'w sched \<Rightarrow> 'w sched" where
  "free_thread_environment t s =
     (if \<not> g_scheduler s then s
      else let thread = sc_threads s ! t;
               s = (if th_environment_owned thread
                    then page_free (th_teb_base thread) (page_free (th_tls_block_base thread)
                           (page_free (th_tls_vector_base thread) (page_free (th_gs_base thread) s)))
                    else s)
           in upd_thread t (\<lambda>x. x\<lparr> th_gs_base := 0, th_tls_vector_base := 0, th_tls_block_base := 0,
                                   th_teb_base := 0, th_environment_owned := False \<rparr>) s)"

definition find_free_thread :: "'w sched \<Rightarrow> nat option" where
  "find_free_thread s = find_index (\<lambda>x. \<not> th_live x) (sc_threads s)"

definition canonical_nonzero_pointer :: "u64 \<Rightarrow> bool" where
  "canonical_nonzero_pointer v =
     (let high = drop_bit 48 v in v \<ge> 0x10000 \<and> (high = 0 \<or> high = 0xFFFF))"

definition aligned_page_pointer :: "u64 \<Rightarrow> bool" where
  "aligned_page_pointer v \<longleftrightarrow>
     canonical_nonzero_pointer v \<and> v AND (GXOS_SCHEDULER_PAGE_SIZE - 1) = 0"

subsection \<open>The runnable queue\<close>

definition enqueue_runnable :: "nat \<Rightarrow> 'w sched \<Rightarrow> bool \<times> 'w sched" where
  "enqueue_runnable t s =
     (let thread = sc_threads s ! t in
      if \<not> g_scheduler s \<or> \<not> th_live thread \<or> th_state thread \<noteq> GXOS_SCHEDULER_THREAD_RUNNABLE
      then (False, s)
      else if th_runnable_queued thread then (True, s)
      else if length (sc_runnable_queue s) \<ge> GXOS_SCHEDULER_MAX_THREADS then (False, s)
      else (True, upd_thread t (\<lambda>x. x\<lparr> th_runnable_queued := True \<rparr>)
                    (s\<lparr> sc_runnable_queue := sc_runnable_queue s @ [t] \<rparr>)))"

text \<open>Removing the entry at an index shifts the later ones down by one.\<close>

definition remove_runnable :: "nat \<Rightarrow> 'w sched \<Rightarrow> bool \<times> 'w sched" where
  "remove_runnable t s =
     (if \<not> g_scheduler s \<or> \<not> th_runnable_queued (sc_threads s ! t) then (False, s)
      else let unqueue = upd_thread t (\<lambda>x. x\<lparr> th_runnable_queued := False \<rparr>) in
        case find_index (\<lambda>q. q = t) (sc_runnable_queue s) of
          Some index \<Rightarrow>
            (True, unqueue (s\<lparr> sc_runnable_queue :=
                     take index (sc_runnable_queue s) @ drop (index + 1) (sc_runnable_queue s) \<rparr>))
        | None \<Rightarrow> (False, unqueue s))"

definition find_free_memory_resource_notification :: "'w sched \<Rightarrow> nat option" where
  "find_free_memory_resource_notification s =
     find_index (\<lambda>n. \<not> mn_live n) (sc_memory_resource_notifications s)"

definition ready :: "GXOS_SCHEDULER_TCB \<Rightarrow> bool" where
  "ready x \<longleftrightarrow> th_live x \<and> th_state x = GXOS_SCHEDULER_THREAD_RUNNABLE \<and> th_runnable_queued x"

definition pick_next_runnable :: "'w sched \<Rightarrow> nat \<Rightarrow> nat option" where
  "pick_next_runnable s current_index =
     find (\<lambda>index. ready (sc_threads s ! index))
       (map (\<lambda>offset. (current_index + offset) mod GXOS_SCHEDULER_MAX_THREADS)
          [1..<GXOS_SCHEDULER_MAX_THREADS + 1])"

definition choose_next :: "nat \<Rightarrow> 'w sched \<Rightarrow> GXOS_SCHEDULER_SWITCH_PLAN \<times> 'w sched" where
  "choose_next next s =
     (let old = the (sc_current s);
          s = snd (remove_runnable next s);
          s = upd_thread next (\<lambda>x. x\<lparr> th_state := GXOS_SCHEDULER_THREAD_RUNNING \<rparr>) s
      in (\<lparr> sp_old_context = old, sp_new_context = th_saved_context (sc_threads s ! next) \<rparr>,
          s\<lparr> sc_current := Some next \<rparr>))"

subsection \<open>Wait lists and wait records\<close>

definition add_waiter :: "waitable_ref \<Rightarrow> nat \<Rightarrow> 'w sched \<Rightarrow> bool \<times> 'w sched" where
  "add_waiter w r s =
     (let waiters = wt_waiters (waitable_at s w); record = sc_wait_records s ! r in
      if length waiters \<ge> GXOS_SCHEDULER_MAX_WAITERS \<or> wr_waiter_linked record then (False, s)
      else if list_ex (\<lambda>q. q = r \<or> wr_thread (sc_wait_records s ! q) = wr_thread record) waiters then (False, s)
      else (True, upd_waitable w (\<lambda>x. x\<lparr> wt_waiters := wt_waiters x @ [r] \<rparr>)
              (upd_record r (\<lambda>x. x\<lparr> wr_waiter_index := of_nat (length waiters), wr_waiter_linked := True \<rparr>) s)))"

text \<open>The last waiter takes the place of the removed one.\<close>

definition remove_waiter :: "waitable_ref \<Rightarrow> nat \<Rightarrow> 'w sched \<Rightarrow> 'w sched" where
  "remove_waiter w index s =
     (let waiters = wt_waiters (waitable_at s w) in
      if index \<ge> length waiters then s
      else let record = waiters ! index;
               moved = waiters ! (length waiters - 1);
               s = upd_record moved (\<lambda>x. x\<lparr> wr_waiter_index := of_nat index \<rparr>) s;
               s = upd_waitable w (\<lambda>x. x\<lparr> wt_waiters := butlast (waiters[index := moved]) \<rparr>) s
           in upd_record record (\<lambda>x. x\<lparr> wr_waiter_linked := False, wr_waiter_index := UINT32_MAX \<rparr>) s)"

definition complete_waiter ::
    "waitable_ref \<Rightarrow> nat \<Rightarrow> u32 \<Rightarrow> GXOS_SCHEDULER_WAIT_RESULT \<Rightarrow> 'w sched \<Rightarrow> 'w sched" where
  "complete_waiter w index completion_result wait_result s =
     (let waiters = wt_waiters (waitable_at s w) in
      if index \<ge> length waiters then s
      else let r = waiters ! index; record = sc_wait_records s ! r in
        case wr_thread record of
          None \<Rightarrow> remove_waiter w index s
        | Some thread \<Rightarrow>
            if \<not> wr_valid record \<or> \<not> wr_active record \<or> \<not> wr_waiter_linked record
            then remove_waiter w index s
            else
              let s = remove_waiter w index s;
                  s = upd_record r (\<lambda>x. x\<lparr> wr_completed := True, wr_completion_result := completion_result \<rparr>) s;
                  s = upd_thread thread (\<lambda>x. x\<lparr> th_blocked_object := 0, th_blocked_result := wait_result,
                                                th_state := GXOS_SCHEDULER_THREAD_RUNNABLE \<rparr>) s
              in case enqueue_runnable thread s of (queued, s) \<Rightarrow>
                   if queued then s
                   else upd_thread thread (\<lambda>x. x\<lparr> th_state := GXOS_SCHEDULER_THREAD_BLOCKED \<rparr>) s)"

definition wake_waiter :: "waitable_ref \<Rightarrow> nat \<Rightarrow> 'w sched \<Rightarrow> 'w sched" where
  "wake_waiter w index = complete_waiter w index GXOS_WAIT_OBJECT_0 GXOS_SCHEDULER_WAIT_SIGNALED"

definition timeout_waiter :: "nat \<Rightarrow> 'w sched \<Rightarrow> 'w sched" where
  "timeout_waiter r s =
     (let record = sc_wait_records s ! r in
      case wr_waitable record of
        None \<Rightarrow> s
      | Some w \<Rightarrow>
          if \<not> wr_waiter_linked record then s
          else complete_waiter w (unat (wr_waiter_index record)) GXOS_WAIT_TIMEOUT
                 GXOS_SCHEDULER_WAIT_TIMED_OUT s)"

definition find_free_wait_record :: "'w sched \<Rightarrow> nat option" where
  "find_free_wait_record s =
     (if \<not> g_scheduler s then None else find_index (\<lambda>x. \<not> wr_valid x) (sc_wait_records s))"

definition allocate_wait_record :: "'w sched \<Rightarrow> nat option \<times> 'w sched" where
  "allocate_wait_record s =
     (case find_free_wait_record s of
        None \<Rightarrow> (None, s)
      | Some r \<Rightarrow>
          let generation = sc_next_wait_generation s;
              s = s\<lparr> sc_next_wait_generation := generation + 1 \<rparr>;
              (generation, s) =
                (if generation = 0
                 then let generation = sc_next_wait_generation s in
                   (if generation = 0 then 1 else generation,
                    s\<lparr> sc_next_wait_generation := generation + 1 \<rparr>)
                 else (generation, s))
          in (Some r, upd_record r (\<lambda>_. zero_wait_record
                \<lparr> wr_valid := True, wr_generation := generation, wr_waiter_index := UINT32_MAX \<rparr>) s))"

definition pin_object :: "nat \<Rightarrow> 'w sched \<Rightarrow> bool \<times> 'w sched" where
  "pin_object i s =
     (if \<not> ob_live (sc_objects s ! i) \<or> ob_internal_refs (sc_objects s ! i) = 0 then (False, s)
      else (True, upd_object i (\<lambda>ob. ob\<lparr> ob_internal_refs := ob_internal_refs ob + 1 \<rparr>) s))"

definition unpin_wait_record :: "nat \<Rightarrow> 'w sched \<Rightarrow> 'w sched" where
  "unpin_wait_record r s =
     (let record = sc_wait_records s ! r in
      if \<not> wr_pin_held record then s
      else let s = (case wr_object record of
                      None \<Rightarrow> s
                    | Some i \<Rightarrow>
                        if ob_internal_refs (sc_objects s ! i) \<noteq> 0
                        then upd_object i (\<lambda>ob. ob\<lparr> ob_internal_refs := ob_internal_refs ob - 1 \<rparr>) s else s)
           in upd_record r (\<lambda>x. x\<lparr> wr_pin_held := False \<rparr>) s)"

definition release_wait_record :: "nat \<Rightarrow> 'w sched \<Rightarrow> 'w sched" where
  "release_wait_record r s =
     (if \<not> wr_valid (sc_wait_records s ! r) then s
      else let s = (if wr_active (sc_wait_records s ! r) \<and> g_scheduler s \<and> sc_active_wait_count s \<noteq> 0
                    then s\<lparr> sc_active_wait_count := sc_active_wait_count s - 1 \<rparr> else s);
               s = upd_record r (\<lambda>x. x\<lparr> wr_active := False \<rparr>) s;
               s = unpin_wait_record r s
           in upd_record r (\<lambda>_. zero_wait_record) s)"

definition decode_event_identity :: "GXOS_SCHEDULER_HANDLE \<Rightarrow> (nat \<times> u16) option" where
  "decode_event_identity handle = decode_handle handle GXOS_SCHEDULER_OBJECT_EVENT"

text \<open>The object slot and the event of an open handle.\<close>

definition validate_open_event_handle :: "'w sched \<Rightarrow> GXOS_SCHEDULER_HANDLE \<Rightarrow> (nat \<times> nat) option" where
  "validate_open_event_handle s handle =
     (case decode_event_identity handle of
        None \<Rightarrow> None
      | Some (slot, generation) \<Rightarrow>
          let object = sc_objects s ! slot in
          if \<not> ob_live object \<or> ob_type object \<noteq> GXOS_SCHEDULER_OBJECT_EVENT \<or>
             ob_generation object \<noteq> generation \<or> ob_close_state object \<or>
             ob_public_handle_refs object = 0 \<or> ob_internal_refs object = 0
          then None
          else case target_event (ob_target object) of
            None \<Rightarrow> None
          | Some e \<Rightarrow>
              let event = sc_events s ! e in
              if \<not> wt_live event \<or> wt_object_slot event \<noteq> slot \<or> wt_generation event \<noteq> generation
              then None else Some (slot, e))"

end
