(* ===== verification/Scheduler_Ops.thy ===== *)
theory Scheduler_Ops
  imports Scheduler_Base
begin

text \<open>
  The operations of the scheduler, \<open>src/src/Gate4Harness/scheduler_foundation.c\<close> from
  \<open>gxos_scheduler_initialize\<close> on: set-up and configuration, timeouts, creation of events,
  notifications, streams and threads, resuming, closing, waiting, yielding, terminating,
  reclaiming and tearing down. An operation that creates something returns \<open>None\<close> where the C
  function returns 0, and otherwise what it stores through its out-parameters.
\<close>

subsection \<open>Set-up\<close>

text \<open>\<open>zero_bytes(scheduler, sizeof(*scheduler))\<close>; the machine is not part of the structure.\<close>

definition zero_scheduler :: "'w sched \<Rightarrow> 'w sched" where
  "zero_scheduler s = s
     \<lparr> sc_allocate_pages := None, sc_free_pages := None, sc_now_ms := None, sc_register_stack_vm := None,
       sc_unregister_stack_vm := None,
       sc_threads := replicate GXOS_SCHEDULER_MAX_THREADS zero_tcb,
       sc_wait_records := replicate GXOS_SCHEDULER_MAX_WAIT_RECORDS zero_wait_record,
       sc_events := replicate GXOS_SCHEDULER_MAX_EVENTS zero_waitable,
       sc_memory_resource_notifications :=
         replicate GXOS_SCHEDULER_MAX_MEMORY_RESOURCE_NOTIFICATIONS zero_notification,
       sc_standard_stream := zero_standard_stream, sc_standard_input_handle := 0,
       sc_standard_output_handle := 0, sc_standard_error_handle := 0,
       sc_objects := replicate GXOS_SCHEDULER_MAX_OBJECTS zero_object,
       sc_runnable_queue := [], sc_current := None, sc_boot_thread := None, sc_next_identity := 0,
       sc_next_wait_generation := 0, sc_active_wait_count := 0, sc_saved_boot_gs_base := 0,
       sc_saved_boot_flags := 0, sc_boot_stack_lower := 0, sc_boot_stack_upper := 0, sc_active := False,
       sc_pending_wait_timeout_armed := False, sc_pending_wait_deadline_ms := 0, sc_pending_plan := None \<rparr>"

definition gxos_scheduler_initialize ::
    "('w \<Rightarrow> u64 \<Rightarrow> u64 \<times> u64 \<times> 'w) option \<Rightarrow> ('w \<Rightarrow> u64 \<Rightarrow> u64 \<Rightarrow> 'w) option \<Rightarrow> 'w sched \<Rightarrow> bool \<times> 'w sched" where
  "gxos_scheduler_initialize allocate_pages free_pages s =
     (if allocate_pages = None \<or> free_pages = None then (False, s)
      else if sc_active s then (False, s)
      else
        let lower = sy_rsp s AND NOT (GXOS_SCHEDULER_PAGE_SIZE - 1);
            s = (zero_scheduler s)
              \<lparr> sc_allocate_pages := allocate_pages, sc_free_pages := free_pages,
                sc_next_wait_generation := 1, sc_saved_boot_gs_base := sy_gs_base s,
                sc_saved_boot_flags := sy_flags s, sc_boot_stack_lower := lower,
                sc_boot_stack_upper := lower + 0x100000, sc_next_identity := 2, g_scheduler := True \<rparr>;
            s = upd_thread 0 (\<lambda>_. zero_tcb
              \<lparr> th_live := True, th_is_boot_thread := True, th_identity := 1, th_generation := 1,
                th_state := GXOS_SCHEDULER_THREAD_RUNNING, th_relative_priority := 0,
                th_execution_refs := 1 \<rparr>) s
        in case allocate_object GXOS_SCHEDULER_OBJECT_THREAD (Target_Thread 0) s of
             (None, s) \<Rightarrow> (False, (free_thread_environment 0 s)\<lparr> g_scheduler := False \<rparr>)
           | (Some (object_slot, _), s) \<Rightarrow>
               (case allocate_thread_environment 0 s of
                  (False, s) \<Rightarrow>
                    (False, (free_thread_environment 0 (release_object_record object_slot s))
                              \<lparr> g_scheduler := False \<rparr>)
                | (True, s) \<Rightarrow>
                    let gs = th_gs_base (sc_threads s ! 0);
                        s = upd_object object_slot (\<lambda>ob. ob\<lparr> ob_public_handle_refs := 0 \<rparr>) s;
                        s = upd_thread 0 (\<lambda>x. x\<lparr> th_object_slot := object_slot, th_public_handle_refs := 0,
                              th_context := (th_context x)\<lparr> cx_gs_base := gs \<rparr>, th_saved_context := Some 0 \<rparr>) s;
                        s = s\<lparr> sc_current := Some 0, sc_boot_thread := Some 0, sc_active := True \<rparr>
                    in (True, set_gs_base gs s)))"

definition at_boot :: "'w sched \<Rightarrow> bool" where
  "at_boot s \<longleftrightarrow> g_scheduler s \<and> sc_active s \<and> sc_current s = sc_boot_thread s"

definition gxos_scheduler_configure_stack_vm ::
    "('w \<Rightarrow> u64 \<Rightarrow> u64 \<Rightarrow> bool \<times> u64 \<times> 'w) option \<Rightarrow> ('w \<Rightarrow> u64 \<Rightarrow> u64 \<Rightarrow> u64 \<Rightarrow> bool \<times> 'w) option \<Rightarrow>
     'w sched \<Rightarrow> bool \<times> 'w sched" where
  "gxos_scheduler_configure_stack_vm register_stack_vm unregister_stack_vm s =
     (if \<not> at_boot s \<or> register_stack_vm = None \<or> unregister_stack_vm = None then (False, s)
      else if list_ex (\<lambda>index. th_live (sc_threads s ! index)) [1..<GXOS_SCHEDULER_MAX_THREADS] then (False, s)
      else (True, s\<lparr> sc_register_stack_vm := register_stack_vm,
                     sc_unregister_stack_vm := unregister_stack_vm \<rparr>))"

definition gxos_scheduler_configure_clock ::
    "('w \<Rightarrow> bool \<times> u64 \<times> 'w) option \<Rightarrow> 'w sched \<Rightarrow> bool \<times> 'w sched" where
  "gxos_scheduler_configure_clock now_ms s =
     (if \<not> at_boot s \<or> now_ms = None then (False, s) else (True, s\<lparr> sc_now_ms := now_ms \<rparr>))"

definition gxos_scheduler_adopt_boot_environment ::
    "u64 \<Rightarrow> u64 \<Rightarrow> u64 \<Rightarrow> u64 \<Rightarrow> u64 \<Rightarrow> u64 \<Rightarrow> 'w sched \<Rightarrow> bool \<times> 'w sched" where
  "gxos_scheduler_adopt_boot_environment gs_base teb_base tls_vector_base tls_block_base stack_lower stack_upper s =
     (case sc_boot_thread s of
        None \<Rightarrow> (False, s)
      | Some boot \<Rightarrow>
          if \<not> at_boot s \<or> gs_base = 0 \<or> teb_base = 0 \<or> tls_vector_base = 0 \<or> tls_block_base = 0 \<or>
             stack_upper \<le> stack_lower
          then (False, s)
          else
            let s = free_thread_environment boot s;
                s = upd_thread boot (\<lambda>x. x\<lparr> th_gs_base := gs_base, th_teb_base := teb_base,
                      th_tls_vector_base := tls_vector_base, th_tls_block_base := tls_block_base,
                      th_environment_owned := False \<rparr>) s;
                s = s\<lparr> sc_boot_stack_lower := stack_lower, sc_boot_stack_upper := stack_upper \<rparr>;
                s = poke (gs_base + 0x30) teb_base s;
                s = poke (gs_base + 0x58) tls_vector_base s;
                s = poke (teb_base + 0x08) stack_upper s;
                s = poke (teb_base + 0x10) stack_lower s;
                s = upd_thread boot (\<lambda>x. x\<lparr> th_context := (th_context x)\<lparr> cx_gs_base := gs_base \<rparr>,
                      th_saved_context := Some boot \<rparr>) s
            in (True, set_gs_base gs_base s))"

subsection \<open>Timeouts\<close>

definition gxos_scheduler_arm_wait_timeout :: "u64 \<Rightarrow> 'w sched \<Rightarrow> bool \<times> 'w sched" where
  "gxos_scheduler_arm_wait_timeout deadline_ms s =
     (case sc_current s of
        None \<Rightarrow> (False, s)
      | Some current \<Rightarrow>
          if \<not> g_scheduler s \<or> \<not> sc_active s \<or>
             th_state (sc_threads s ! current) \<noteq> GXOS_SCHEDULER_THREAD_RUNNING \<or>
             th_wait_record (sc_threads s ! current) \<noteq> None
          then (False, s)
          else (True, s\<lparr> sc_pending_wait_timeout_armed := True,
                         sc_pending_wait_deadline_ms := deadline_ms \<rparr>))"

definition timeout_due :: "u64 \<Rightarrow> GXOS_SCHEDULER_WAIT_RECORD \<Rightarrow> bool" where
  "timeout_due now_ms record \<longleftrightarrow>
     \<not> (\<not> wr_valid record \<or> \<not> wr_active record \<or> \<not> wr_timeout_armed record \<or>
        wr_completed record \<or> now_ms < wr_deadline_ms record)"

definition service_timeout :: "u64 \<Rightarrow> nat \<Rightarrow> nat \<times> 'w sched \<Rightarrow> nat \<times> 'w sched" where
  "service_timeout now_ms index = (\<lambda>(completed, s).
     if timeout_due now_ms (sc_wait_records s ! index)
     then (completed + 1, timeout_waiter index s) else (completed, s))"

definition gxos_scheduler_service_timeouts :: "u64 \<Rightarrow> 'w sched \<Rightarrow> nat \<times> 'w sched" where
  "gxos_scheduler_service_timeouts now_ms s =
     (if \<not> g_scheduler s \<or> \<not> sc_active s then (0, s)
      else fold (service_timeout now_ms) [0..<GXOS_SCHEDULER_MAX_WAIT_RECORDS] (0, s))"

definition gxos_scheduler_poll_timeouts :: "'w sched \<Rightarrow> nat \<times> 'w sched" where
  "gxos_scheduler_poll_timeouts s =
     (if \<not> g_scheduler s \<or> \<not> sc_active s then (0, s)
      else case sc_now_ms s of
        None \<Rightarrow> (0, s)
      | Some now \<Rightarrow>
          (case now (sy_world s) of (known, now_ms, w) \<Rightarrow>
             let s = s\<lparr> sy_world := w \<rparr> in
             if \<not> known then (0, s) else gxos_scheduler_service_timeouts now_ms s))"

subsection \<open>Events, notifications, streams\<close>

definition gxos_scheduler_create_event ::
    "bool \<Rightarrow> bool \<Rightarrow> 'w sched \<Rightarrow> GXOS_SCHEDULER_HANDLE option \<times> 'w sched" where
  "gxos_scheduler_create_event manual_reset initial_signaled s =
     (if \<not> g_scheduler s then (None, s)
      else case find_index (\<lambda>e. \<not> wt_live e) (sc_events s) of
        None \<Rightarrow> (None, s)
      | Some e \<Rightarrow>
          (case allocate_object GXOS_SCHEDULER_OBJECT_EVENT (Target_Event e) (upd_event e (\<lambda>_. zero_waitable) s) of
             (None, s) \<Rightarrow> (None, upd_event e (\<lambda>_. zero_waitable) s)
           | (Some (object_slot, handle), s) \<Rightarrow>
               (Some handle, upd_event e (\<lambda>x. x
                  \<lparr> wt_live := True, wt_manual_reset := manual_reset, wt_signaled := initial_signaled,
                    wt_generation := ob_generation (sc_objects s ! object_slot),
                    wt_object_slot := object_slot \<rparr>) s)))"

definition gxos_scheduler_create_memory_resource_notification ::
    "u32 \<Rightarrow> 'w sched \<Rightarrow> GXOS_SCHEDULER_HANDLE option \<times> 'w sched" where
  "gxos_scheduler_create_memory_resource_notification notification_type s =
     (if \<not> g_scheduler s \<or> \<not> sc_active s \<or> notification_type \<noteq> 0 then (None, s)
      else case find_free_memory_resource_notification s of
        None \<Rightarrow> (None, s)
      | Some n \<Rightarrow>
          (case allocate_object GXOS_SCHEDULER_OBJECT_MEMORY_RESOURCE_NOTIFICATION (Target_Notification n) s of
             (None, s) \<Rightarrow> (None, s)
           | (Some (object_slot, handle), s) \<Rightarrow>
               let generation = ob_generation (sc_objects s ! object_slot) in
               (Some handle, upd_notification n (\<lambda>_. zero_notification
                  \<lparr> mn_live := True, mn_generation := generation, mn_object_slot := object_slot,
                    mn_registry_slot := n, mn_notification_type := notification_type,
                    mn_waitable := zero_waitable
                      \<lparr> wt_live := True, wt_manual_reset := True, wt_signaled := False,
                        wt_generation := generation, wt_object_slot := object_slot \<rparr> \<rparr>) s)))"

text \<open>The two assignments of the standard handles, for the roles of a mask.\<close>

definition set_role_handles :: "u8 \<Rightarrow> GXOS_SCHEDULER_HANDLE \<Rightarrow> 'w sched \<Rightarrow> 'w sched" where
  "set_role_handles roles handle s =
     (let s = (if roles AND GXOS_SCHEDULER_STANDARD_STREAM_ROLE_OUTPUT \<noteq> 0
               then s\<lparr> sc_standard_output_handle := handle \<rparr> else s)
      in if roles AND GXOS_SCHEDULER_STANDARD_STREAM_ROLE_ERROR \<noteq> 0
         then s\<lparr> sc_standard_error_handle := handle \<rparr> else s)"

definition gxos_scheduler_install_standard_stream :: "u8 \<Rightarrow> u8 \<Rightarrow> u8 \<Rightarrow> 'w sched \<Rightarrow> bool \<times> 'w sched" where
  "gxos_scheduler_install_standard_stream role_mask backend capabilities s =
     (if \<not> g_scheduler s \<or> \<not> sc_active s \<or> role_mask = 0 \<or>
         role_mask AND NOT (GXOS_SCHEDULER_STANDARD_STREAM_ROLE_OUTPUT OR
                            GXOS_SCHEDULER_STANDARD_STREAM_ROLE_ERROR) \<noteq> 0 \<or>
         backend = GXOS_SCHEDULER_STANDARD_STREAM_BACKEND_NONE \<or> capabilities = 0
      then (False, s)
      else let stream = sc_standard_stream s in
        if st_live stream
        then if st_backend stream \<noteq> backend \<or> st_capabilities stream \<noteq> capabilities then (False, s)
             else let roles = st_role_mask stream OR role_mask in
               (True, set_role_handles roles (st_handle stream)
                        (s\<lparr> sc_standard_stream := stream\<lparr> st_role_mask := roles \<rparr> \<rparr>))
        else
          (case allocate_object GXOS_SCHEDULER_OBJECT_STANDARD_STREAM Target_Stream
                  (s\<lparr> sc_standard_stream := zero_standard_stream \<rparr>) of
             (None, s) \<Rightarrow> (False, s)
           | (Some (object_slot, handle), s) \<Rightarrow>
               (True, set_role_handles role_mask handle
                 (s\<lparr> sc_standard_stream :=
                      \<lparr> st_live = True, st_role_mask = role_mask, st_backend = backend,
                        st_capabilities = capabilities,
                        st_generation = ob_generation (sc_objects s ! object_slot),
                        st_object_slot = object_slot, st_handle = handle \<rparr> \<rparr>))))"

subsection \<open>Threads\<close>

text \<open>What every failing path of the creation does last.\<close>

definition create_thread_undo :: "nat \<Rightarrow> nat \<Rightarrow> 'w sched \<Rightarrow> 'w sched" where
  "create_thread_undo t object_slot s =
     (let s = release_object_record object_slot s;
          s = s\<lparr> sc_next_identity := sc_next_identity s - 1 \<rparr>
      in upd_thread t (\<lambda>_. zero_tcb) s)"

definition worker_context :: "'w sched \<Rightarrow> GXOS_SCHEDULER_TCB \<Rightarrow> GXOS_SCHEDULER_CONTEXT" where
  "worker_context s thread = zero_context
     \<lparr> cx_rbx := GXOS_SCHEDULER_WORKER_GPR_SENTINEL 1, cx_rbp := GXOS_SCHEDULER_WORKER_GPR_SENTINEL 2,
       cx_rsi := GXOS_SCHEDULER_WORKER_GPR_SENTINEL 3, cx_rdi := GXOS_SCHEDULER_WORKER_GPR_SENTINEL 4,
       cx_r12 := th_entry thread, cx_r13 := th_entry_argument thread,
       cx_r14 := GXOS_SCHEDULER_WORKER_GPR_SENTINEL 7, cx_r15 := GXOS_SCHEDULER_WORKER_GPR_SENTINEL 8,
       cx_rsp := th_initial_rsp thread, cx_rip := sy_start_worker s, cx_rflags := 2, cx_mxcsr := 0x3F80,
       cx_x87_control := 0x077F, cx_gs_base := th_gs_base thread \<rparr>"

text \<open>The part after the registration of the stack: the initial stack frame and register context.\<close>

definition prepare_worker :: "nat \<Rightarrow> u64 \<Rightarrow> 'w sched \<Rightarrow> 'w sched" where
  "prepare_worker t stack_vm_identity s =
     (let stack_top = (th_stack_limit (sc_threads s ! t) - GXOS_SCHEDULER_CANARY_BYTES) AND NOT 0xF;
          s = upd_thread t (\<lambda>x. x\<lparr> th_stack_vm_identity := stack_vm_identity, th_initial_rsp := stack_top - 8 \<rparr>) s;
          s = poke (stack_top - 8) (sy_invalid_thread_return s) s
      in upd_thread t (\<lambda>x. x\<lparr> th_context := worker_context s x, th_saved_context := Some t \<rparr>) s)"

definition gxos_scheduler_create_suspended_thread ::
    "u64 \<Rightarrow> u64 \<Rightarrow> 'w sched \<Rightarrow> (GXOS_SCHEDULER_HANDLE \<times> nat) option \<times> 'w sched" where
  "gxos_scheduler_create_suspended_thread entry argument s =
     (if \<not> g_scheduler s \<or> entry = 0 \<or> sc_register_stack_vm s = None \<or> sc_unregister_stack_vm s = None
      then (None, s)
      else case find_free_thread s of
        None \<Rightarrow> (None, s)
      | Some t \<Rightarrow>
     (let s = upd_thread t (\<lambda>_. zero_tcb
            \<lparr> th_live := True, th_state := GXOS_SCHEDULER_THREAD_CREATED_SUSPENDED, th_suspend_count := 1,
              th_relative_priority := 0, th_public_handle_refs := 1, th_execution_refs := 1,
              th_entry := entry, th_entry_argument := argument \<rparr>) s
      in case allocate_object GXOS_SCHEDULER_OBJECT_THREAD (Target_Thread t) s of
        (None, s) \<Rightarrow> (None, upd_thread t (\<lambda>_. zero_tcb) s)
      | (Some (object_slot, handle), s) \<Rightarrow>
     (let s = upd_thread t (\<lambda>x. x\<lparr> th_identity := sc_next_identity s,
                th_generation := ob_generation (sc_objects s ! object_slot), th_object_slot := object_slot \<rparr>)
              (s\<lparr> sc_next_identity := sc_next_identity s + 1 \<rparr>)
      in case the (sc_allocate_pages s) (sy_world s) GXOS_SCHEDULER_STACK_PAGES of (status, stack_memory, w) \<Rightarrow>
     (let s = s\<lparr> sy_world := w \<rparr> in
      if status \<noteq> 0 \<or> stack_memory = 0 then (None, create_thread_undo t object_slot s)
      else
      let s = s\<lparr> sy_memory := zero_bytes (sy_memory s) stack_memory GXOS_SCHEDULER_STACK_SIZE \<rparr>
      in case page_allocate s of (canary_memory, s) \<Rightarrow>
     (let s = upd_thread t (\<lambda>x. x\<lparr> th_stack_pages_memory := stack_memory, th_stack_base := stack_memory,
                th_stack_limit := stack_memory + GXOS_SCHEDULER_STACK_SIZE,
                th_stack_canary_memory := canary_memory \<rparr>) s
      in if canary_memory = 0 then (None, create_thread_undo t object_slot (page_free stack_memory s))
         else case allocate_thread_environment t (set_canaries t s) of
           (False, s) \<Rightarrow>
             (None, create_thread_undo t object_slot (page_free stack_memory (page_free canary_memory s)))
         | (True, s) \<Rightarrow>
     (case the (sc_register_stack_vm s) (sy_world s) (th_stack_base (sc_threads s ! t))
             (th_stack_limit (sc_threads s ! t) - th_stack_base (sc_threads s ! t)) of
        (registered, stack_vm_identity, w) \<Rightarrow>
          let s = s\<lparr> sy_world := w \<rparr> in
          if \<not> registered \<or> stack_vm_identity = 0
          then (None, create_thread_undo t object_slot
                  (page_free stack_memory (page_free canary_memory (free_thread_environment t s))))
          else (Some (handle, t), prepare_worker t stack_vm_identity s)))))))"

definition gxos_scheduler_note_worker_started :: "'w sched \<Rightarrow> 'w sched" where
  "gxos_scheduler_note_worker_started s =
     (case sc_current s of
        None \<Rightarrow> s
      | Some current \<Rightarrow>
          if g_scheduler s \<and> \<not> th_is_boot_thread (sc_threads s ! current) \<and> th_live (sc_threads s ! current)
          then upd_thread current (\<lambda>x. x\<lparr> th_execution_count := th_execution_count x + 1 \<rparr>) s
          else s)"

definition gxos_scheduler_validate_thread_context :: "'w sched \<Rightarrow> nat option \<Rightarrow> bool" where
  "gxos_scheduler_validate_thread_context s pointer =
     (case pointer of
        None \<Rightarrow> False
      | Some t \<Rightarrow>
          let thread = sc_threads s ! t; context = th_context thread in
          if \<not> th_live thread \<or> th_is_boot_thread thread \<or> th_execution_refs thread = 0 \<or>
             th_saved_context thread \<noteq> Some t \<or> th_entry thread = 0 \<or>
             \<not> canonical_nonzero_pointer (th_entry thread) \<or> th_stack_pages_memory thread = 0 \<or>
             th_stack_canary_memory thread = 0 \<or> \<not> aligned_page_pointer (th_stack_base thread) \<or>
             th_stack_limit thread \<noteq> th_stack_base thread + GXOS_SCHEDULER_STACK_SIZE \<or>
             th_initial_rsp thread < th_stack_base thread + GXOS_SCHEDULER_CANARY_BYTES \<or>
             th_initial_rsp thread \<ge> th_stack_limit thread - GXOS_SCHEDULER_CANARY_BYTES \<or>
             th_initial_rsp thread AND 0xF \<noteq> 8 \<or>
             cx_rsp context \<noteq> th_initial_rsp thread \<or> cx_rip context \<noteq> sy_start_worker s \<or>
             cx_r12 context \<noteq> th_entry thread \<or> cx_r13 context \<noteq> th_entry_argument thread \<or>
             cx_rbx context \<noteq> GXOS_SCHEDULER_WORKER_GPR_SENTINEL 1 \<or>
             cx_rbp context \<noteq> GXOS_SCHEDULER_WORKER_GPR_SENTINEL 2 \<or>
             cx_rsi context \<noteq> GXOS_SCHEDULER_WORKER_GPR_SENTINEL 3 \<or>
             cx_rdi context \<noteq> GXOS_SCHEDULER_WORKER_GPR_SENTINEL 4 \<or>
             cx_r14 context \<noteq> GXOS_SCHEDULER_WORKER_GPR_SENTINEL 7 \<or>
             cx_r15 context \<noteq> GXOS_SCHEDULER_WORKER_GPR_SENTINEL 8 \<or>
             cx_rflags context AND 2 = 0 \<or> cx_mxcsr context AND 0xFFFF0000 \<noteq> 0 \<or>
             cx_gs_base context \<noteq> th_gs_base thread \<or> \<not> th_environment_owned thread \<or>
             \<not> aligned_page_pointer (th_gs_base thread) \<or> \<not> aligned_page_pointer (th_teb_base thread) \<or>
             \<not> aligned_page_pointer (th_tls_vector_base thread) \<or>
             \<not> aligned_page_pointer (th_tls_block_base thread) \<or>
             \<not> gxos_scheduler_check_canaries s (Some t)
          then False
          else if read_u64 (sy_memory s) (th_gs_base thread + 0x30) \<noteq> th_teb_base thread \<or>
             read_u64 (sy_memory s) (th_gs_base thread + 0x58) \<noteq> th_tls_vector_base thread \<or>
             read_u64 (sy_memory s) (th_tls_vector_base thread) \<noteq> th_tls_block_base thread \<or>
             read_u64 (sy_memory s) (th_teb_base thread + 0x08) \<noteq> th_stack_limit thread \<or>
             read_u64 (sy_memory s) (th_teb_base thread + 0x10) \<noteq> th_stack_base thread \<or>
             read_u64 (sy_memory s) (th_teb_base thread + 0x100) \<noteq> ucast (th_identity thread)
          then False
          else list_all (\<lambda>a. a \<le> 1) (th_fls_allocated thread))"

text \<open>The result is the previous suspend count.\<close>

definition gxos_scheduler_resume_thread :: "GXOS_SCHEDULER_HANDLE \<Rightarrow> 'w sched \<Rightarrow> u32 option \<times> 'w sched" where
  "gxos_scheduler_resume_thread handle s =
     (case lookup_object s handle GXOS_SCHEDULER_OBJECT_THREAD of
        None \<Rightarrow> (None, s)
      | Some i \<Rightarrow>
     (let object = sc_objects s ! i in
      if ob_public_handle_refs object = 0 \<or> ob_internal_refs object = 0 then (None, s)
      else case target_thread (ob_target object) of
        None \<Rightarrow> (None, s)
      | Some t \<Rightarrow>
     (let thread = sc_threads s ! t in
      if \<not> th_live thread \<or> th_execution_refs thread = 0 \<or> th_deferred_reclaim thread \<or>
         th_object_slot thread \<noteq> ob_slot object \<or> th_generation thread \<noteq> ob_generation object \<or>
         th_state thread = GXOS_SCHEDULER_THREAD_FREE \<or> th_state thread = GXOS_SCHEDULER_THREAD_TERMINATED
      then (None, s)
      else if th_suspend_count thread = 0
      then if th_state thread = GXOS_SCHEDULER_THREAD_RUNNABLE \<and> \<not> th_runnable_queued thread then (None, s)
           else (Some 0, s)
      else if th_state thread \<noteq> GXOS_SCHEDULER_THREAD_CREATED_SUSPENDED \<or> th_suspend_count thread \<noteq> 1 \<or>
              \<not> gxos_scheduler_validate_thread_context s (Some t)
      then (None, s)
      else case enqueue_runnable t (upd_thread t (\<lambda>x. x\<lparr> th_suspend_count := 0,
                  th_state := GXOS_SCHEDULER_THREAD_RUNNABLE \<rparr>) s) of
        (True, s) \<Rightarrow> (Some 1, s)
      | (False, s) \<Rightarrow> (None, upd_thread t (\<lambda>x. x\<lparr> th_state := GXOS_SCHEDULER_THREAD_CREATED_SUSPENDED,
                               th_suspend_count := 1 \<rparr>) s))))"

subsection \<open>Reclaiming and closing\<close>

text \<open>The registration of the thread's stack is given back first; the result is false on the early return.\<close>

definition unregister_stack :: "nat \<Rightarrow> 'w sched \<Rightarrow> bool \<times> 'w sched" where
  "unregister_stack t s =
     (let thread = sc_threads s ! t in
      if th_stack_pages_memory thread = 0 then (True, s)
      else if th_stack_vm_identity thread = 0 then (False, s)
      else case sc_unregister_stack_vm s of
        None \<Rightarrow> (False, s)
      | Some unregister_stack_vm \<Rightarrow>
          (case unregister_stack_vm (sy_world s) (th_stack_base thread)
                  (th_stack_limit thread - th_stack_base thread) (th_stack_vm_identity thread) of
             (unregistered, w) \<Rightarrow>
               let s = s\<lparr> sy_world := w \<rparr> in
               if \<not> unregistered then (False, s)
               else (True, upd_thread t (\<lambda>x. x\<lparr> th_stack_vm_identity := 0 \<rparr>) s)))"

definition maybe_reclaim_thread :: "nat \<Rightarrow> 'w sched \<Rightarrow> 'w sched" where
  "maybe_reclaim_thread t s =
     (let thread = sc_threads s ! t; object_slot = th_object_slot thread; object = sc_objects s ! object_slot in
      if \<not> th_live thread \<or> sc_current s = Some t \<or> th_state thread \<noteq> GXOS_SCHEDULER_THREAD_TERMINATED \<or>
         th_execution_refs thread \<noteq> 0 \<or> th_public_handle_refs thread \<noteq> 0 \<or> th_runnable_queued thread \<or>
         \<not> gxos_scheduler_check_canaries s (Some t)
      then s
      else if \<not> ob_live object \<or> ob_type object \<noteq> GXOS_SCHEDULER_OBJECT_THREAD then s
      else case unregister_stack t s of (unregistered, s) \<Rightarrow>
        if \<not> unregistered then s
        else
          let s = upd_object object_slot (\<lambda>ob. ob\<lparr> ob_internal_refs := 0 \<rparr>) s;
              s = page_free (th_stack_pages_memory thread) s;
              s = page_free (th_stack_canary_memory thread) s;
              s = free_thread_environment t s;
              s = release_object_record object_slot s
          in upd_thread t (\<lambda>_. zero_tcb) s)"

definition gxos_scheduler_close_handle :: "GXOS_SCHEDULER_HANDLE \<Rightarrow> 'w sched \<Rightarrow> bool \<times> 'w sched" where
  "gxos_scheduler_close_handle handle s =
     (let type = (ucast (drop_bit 48 handle) :: u8) in
      if type \<noteq> GXOS_SCHEDULER_OBJECT_THREAD \<and> type \<noteq> GXOS_SCHEDULER_OBJECT_EVENT then (False, s)
      else case lookup_object s handle type of
        None \<Rightarrow> (False, s)
      | Some i \<Rightarrow>
          if ob_public_handle_refs (sc_objects s ! i) = 0 then (False, s)
          else
            let s = upd_object i (\<lambda>ob. ob\<lparr> ob_public_handle_refs := ob_public_handle_refs ob - 1,
                                          ob_close_state := True \<rparr>) s
            in if type = GXOS_SCHEDULER_OBJECT_THREAD
               then case target_thread (ob_target (sc_objects s ! i)) of
                      None \<Rightarrow> (True, s)
                    | Some t \<Rightarrow>
                        let s = (if th_public_handle_refs (sc_threads s ! t) \<noteq> 0
                                 then upd_thread t (\<lambda>x. x\<lparr> th_public_handle_refs := th_public_handle_refs x - 1 \<rparr>) s
                                 else s)
                        in (True, maybe_reclaim_thread t s)
               else (True, s))"

end
