(* ===== verification/Scheduler_Waits.thy ===== *)
theory Scheduler_Waits
  imports Scheduler_Ops
begin

text \<open>
  Signalling, waiting, yielding, terminating, destroying and tearing down:
  \<open>src/src/Gate4Harness/scheduler_foundation.c\<close> from \<open>gxos_scheduler_signal_event\<close> on.
\<close>

subsection \<open>The waiters of a waitable\<close>

lemma upd_sel [simp]:
  "sc_threads (upd_record r f s) = sc_threads s" "sc_threads (upd_event e g s) = sc_threads s"
  "sc_threads (upd_notification n h s) = sc_threads s" "sc_threads (upd_object i k s) = sc_threads s"
  "sc_events (upd_record r f s) = sc_events s" "sc_events (upd_thread t l s) = sc_events s"
  "sc_events (upd_notification n h s) = sc_events s" "sc_events (upd_object i k s) = sc_events s"
  "sc_wait_records (upd_thread t l s) = sc_wait_records s" "sc_wait_records (upd_event e g s) = sc_wait_records s"
  "sc_wait_records (upd_notification n h s) = sc_wait_records s" "sc_wait_records (upd_object i k s) = sc_wait_records s"
  "sc_memory_resource_notifications (upd_record r f s) = sc_memory_resource_notifications s"
  "sc_memory_resource_notifications (upd_event e g s) = sc_memory_resource_notifications s"
  "sc_memory_resource_notifications (upd_thread t l s) = sc_memory_resource_notifications s"
  "sc_memory_resource_notifications (upd_object i k s) = sc_memory_resource_notifications s"
  "sc_objects (upd_record r f s) = sc_objects s" "sc_objects (upd_event e g s) = sc_objects s"
  "sc_objects (upd_notification n h s) = sc_objects s" "sc_objects (upd_thread t l s) = sc_objects s"
  by (simp_all add: upd_thread_def upd_record_def upd_event_def upd_notification_def upd_object_def)

lemma upd_eq [simp]:
  "sc_threads (upd_thread t f s) = (sc_threads s)[t := f (sc_threads s ! t)]"
  "sc_wait_records (upd_record r g s) = (sc_wait_records s)[r := g (sc_wait_records s ! r)]"
  "sc_events (upd_event e h s) = (sc_events s)[e := h (sc_events s ! e)]"
  "sc_objects (upd_object i k s) = (sc_objects s)[i := k (sc_objects s ! i)]"
  "sc_memory_resource_notifications (upd_notification n l s) =
     (sc_memory_resource_notifications s)[n := l (sc_memory_resource_notifications s ! n)]"
  by (simp_all add: upd_thread_def upd_record_def upd_event_def upd_notification_def upd_object_def)

lemma waitable_at_upd [simp]:
  "valid_waitable s w \<Longrightarrow> waitable_at (upd_waitable w f s) w = f (waitable_at s w)"
  "waitable_at (upd_record r g s) w = waitable_at s w" "waitable_at (upd_thread t h s) w = waitable_at s w"
  "waitable_at (upd_object i k s) w = waitable_at s w"
  by (auto simp: waitable_at_def upd_waitable_def valid_waitable_def split: waitable_ref.splits)

lemma valid_waitable_upd [simp]:
  "valid_waitable (upd_waitable v f s) w = valid_waitable s w" "valid_waitable (upd_record r g s) w = valid_waitable s w"
  "valid_waitable (upd_thread t h s) w = valid_waitable s w" "valid_waitable (upd_object i k s) w = valid_waitable s w"
  by (auto simp: valid_waitable_def upd_waitable_def split: waitable_ref.splits)

lemma enqueue_waitable [simp]:
  "waitable_at (snd (enqueue_runnable t s)) w = waitable_at s w"
  "valid_waitable (snd (enqueue_runnable t s)) w = valid_waitable s w"
  by (simp_all add: enqueue_runnable_def Let_def waitable_at_def valid_waitable_def split: waitable_ref.splits)

lemma remove_waiter_waitable:
  assumes "valid_waitable s w"
  shows "wt_waiters (waitable_at (remove_waiter w index s) w) = (let ws = wt_waiters (waitable_at s w) in
      if index < length ws then butlast (ws[index := ws ! (length ws - 1)]) else ws)"
    and "valid_waitable (remove_waiter w index s) v = valid_waitable s v"
  using assms by (simp_all add: remove_waiter_def Let_def)

lemma complete_waiter_waitable:
  assumes "valid_waitable s w"
  shows "wt_waiters (waitable_at (complete_waiter w index c r s) w) = wt_waiters (waitable_at (remove_waiter w index s) w)"
    and "valid_waitable (complete_waiter w index c r s) v = valid_waitable s v"
  using assms remove_waiter_waitable(2) [OF assms]
  by (auto simp: complete_waiter_def Let_def split_beta remove_waiter_def split: option.split)

lemma wake_waiter_shrinks:
  assumes "valid_waitable s w" and "wt_waiters (waitable_at s w) \<noteq> []"
  shows "length (wt_waiters (waitable_at (wake_waiter w 0 s) w)) < length (wt_waiters (waitable_at s w))"
  using assms by (simp add: wake_waiter_def complete_waiter_waitable remove_waiter_waitable Let_def)

subsection \<open>Signalling\<close>

text \<open>
  \<open>while (event->waiter_count != 0) wake_waiter(event, 0)\<close>; every step takes a waiter off the
  list, so the loop ends. The pointer is valid.
\<close>

function wake_all :: "waitable_ref \<Rightarrow> 'w sched \<Rightarrow> 'w sched" where
  "wake_all w s =
     (if valid_waitable s w \<and> wt_waiters (waitable_at s w) \<noteq> [] then wake_all w (wake_waiter w 0 s) else s)"
  by pat_completeness auto
termination
  by (relation "measure (\<lambda>(w, s). length (wt_waiters (waitable_at s w)))") (auto simp: wake_waiter_shrinks)

declare wake_all.simps [simp del]

definition event_of_handle :: "'w sched \<Rightarrow> GXOS_SCHEDULER_HANDLE \<Rightarrow> nat option" where
  "event_of_handle s handle =
     (case lookup_object s handle GXOS_SCHEDULER_OBJECT_EVENT of
        None \<Rightarrow> None
      | Some i \<Rightarrow> target_event (ob_target (sc_objects s ! i)))"

definition gxos_scheduler_signal_event :: "GXOS_SCHEDULER_HANDLE \<Rightarrow> 'w sched \<Rightarrow> bool \<times> 'w sched" where
  "gxos_scheduler_signal_event handle s =
     (case event_of_handle s handle of
        None \<Rightarrow> (False, s)
      | Some e \<Rightarrow>
          let event = sc_events s ! e in
          if \<not> wt_live event then (False, s)
          else if wt_manual_reset event
          then (True, wake_all (Waitable_Event e) (upd_event e (\<lambda>x. x\<lparr> wt_signaled := True \<rparr>) s))
          else if wt_waiters event \<noteq> []
          then (True, wake_waiter (Waitable_Event e) 0 (upd_event e (\<lambda>x. x\<lparr> wt_signaled := False \<rparr>) s))
          else (True, upd_event e (\<lambda>x. x\<lparr> wt_signaled := True \<rparr>) s))"

definition gxos_scheduler_reset_event :: "GXOS_SCHEDULER_HANDLE \<Rightarrow> 'w sched \<Rightarrow> bool \<times> 'w sched" where
  "gxos_scheduler_reset_event handle s =
     (case event_of_handle s handle of
        None \<Rightarrow> (False, s)
      | Some e \<Rightarrow>
          if \<not> wt_live (sc_events s ! e) then (False, s)
          else (True, upd_event e (\<lambda>x. x\<lparr> wt_signaled := False \<rparr>) s))"

subsection \<open>Lookups by handle\<close>

definition gxos_scheduler_object_from_handle :: "'w sched \<Rightarrow> GXOS_SCHEDULER_HANDLE \<Rightarrow> nat option" where
  "gxos_scheduler_object_from_handle s handle =
     (let type = (ucast (drop_bit 48 handle) :: u8) in
      if type \<noteq> GXOS_SCHEDULER_OBJECT_THREAD \<and> type \<noteq> GXOS_SCHEDULER_OBJECT_EVENT \<and>
         type \<noteq> GXOS_SCHEDULER_OBJECT_MEMORY_RESOURCE_NOTIFICATION \<and>
         type \<noteq> GXOS_SCHEDULER_OBJECT_STANDARD_STREAM
      then None else lookup_object s handle type)"

definition gxos_scheduler_waitable_from_handle :: "'w sched \<Rightarrow> GXOS_SCHEDULER_HANDLE \<Rightarrow> waitable_ref option" where
  "gxos_scheduler_waitable_from_handle s handle =
     (case gxos_scheduler_object_from_handle s handle of
        None \<Rightarrow> None
      | Some i \<Rightarrow>
          let object = sc_objects s ! i in
          if ob_type object = GXOS_SCHEDULER_OBJECT_EVENT
          then map_option Waitable_Event (target_event (ob_target object))
          else if ob_type object = GXOS_SCHEDULER_OBJECT_MEMORY_RESOURCE_NOTIFICATION
          then map_option Waitable_Notification (target_notification (ob_target object))
          else None)"

definition gxos_scheduler_thread_from_handle :: "'w sched \<Rightarrow> GXOS_SCHEDULER_HANDLE \<Rightarrow> nat option" where
  "gxos_scheduler_thread_from_handle s handle =
     (case lookup_object s handle GXOS_SCHEDULER_OBJECT_THREAD of
        None \<Rightarrow> None
      | Some i \<Rightarrow> target_thread (ob_target (sc_objects s ! i)))"

definition gxos_scheduler_event_from_handle :: "'w sched \<Rightarrow> GXOS_SCHEDULER_HANDLE \<Rightarrow> nat option" where
  "gxos_scheduler_event_from_handle s handle = event_of_handle s handle"

definition gxos_scheduler_memory_resource_notification_from_handle ::
    "'w sched \<Rightarrow> GXOS_SCHEDULER_HANDLE \<Rightarrow> nat option" where
  "gxos_scheduler_memory_resource_notification_from_handle s handle =
     (case lookup_object s handle GXOS_SCHEDULER_OBJECT_MEMORY_RESOURCE_NOTIFICATION of
        None \<Rightarrow> None
      | Some i \<Rightarrow> target_notification (ob_target (sc_objects s ! i)))"

text \<open>The stream is a single object: whether the pointer is set.\<close>

definition gxos_scheduler_standard_stream_from_handle :: "'w sched \<Rightarrow> GXOS_SCHEDULER_HANDLE \<Rightarrow> bool" where
  "gxos_scheduler_standard_stream_from_handle s handle =
     (case lookup_object s handle GXOS_SCHEDULER_OBJECT_STANDARD_STREAM of
        None \<Rightarrow> False
      | Some i \<Rightarrow> ob_target (sc_objects s ! i) = Target_Stream)"

definition gxos_scheduler_standard_handle_for_role :: "'w sched \<Rightarrow> u8 \<Rightarrow> GXOS_SCHEDULER_HANDLE" where
  "gxos_scheduler_standard_handle_for_role s role =
     (if \<not> g_scheduler s then 0
      else if role = GXOS_SCHEDULER_STANDARD_STREAM_ROLE_INPUT then sc_standard_input_handle s
      else if role = GXOS_SCHEDULER_STANDARD_STREAM_ROLE_OUTPUT then sc_standard_output_handle s
      else if role = GXOS_SCHEDULER_STANDARD_STREAM_ROLE_ERROR then sc_standard_error_handle s
      else 0)"

subsection \<open>Waiting\<close>

text \<open>The record filled in for a wait of \<open>current\<close> on the event \<open>e\<close> with object \<open>i\<close>.\<close>

definition fill_wait_record ::
    "nat \<Rightarrow> nat \<Rightarrow> nat \<Rightarrow> bool \<Rightarrow> u64 \<Rightarrow> 'w sched \<Rightarrow> GXOS_SCHEDULER_WAIT_RECORD \<Rightarrow> GXOS_SCHEDULER_WAIT_RECORD" where
  "fill_wait_record current i e timeout_armed deadline_ms s record = record
     \<lparr> wr_wait_kind := GXOS_SCHEDULER_WAIT_KIND_EVENT,
       wr_waiting_identity := th_identity (sc_threads s ! current),
       wr_waiting_thread_slot := current,
       wr_waiting_thread_generation := th_generation (sc_threads s ! current),
       wr_object_slot := ob_slot (sc_objects s ! i),
       wr_object_generation := ob_generation (sc_objects s ! i),
       wr_thread := Some current, wr_object := Some i, wr_waitable := Some (Waitable_Event e),
       wr_pin_held := True, wr_completion_result := GXOS_WAIT_FAILED,
       wr_timeout_armed := timeout_armed, wr_deadline_ms := deadline_ms \<rparr>"

definition set_blocked_result :: "nat \<Rightarrow> GXOS_SCHEDULER_WAIT_RESULT \<Rightarrow> 'w sched \<Rightarrow> 'w sched" where
  "set_blocked_result t r = upd_thread t (\<lambda>x. x\<lparr> th_blocked_result := r \<rparr>)"

text \<open>Taking the signal of a signaled waitable: an automatic one is reset.\<close>

definition take_signal :: "waitable_ref \<Rightarrow> 'w sched \<Rightarrow> 'w sched" where
  "take_signal w s =
     (if \<not> wt_manual_reset (waitable_at s w) then upd_waitable w (\<lambda>x. x\<lparr> wt_signaled := False \<rparr>) s else s)"

text \<open>From the registration of the record on; \<open>r\<close> is the filled-in record.\<close>

definition enter_wait ::
    "GXOS_SCHEDULER_HANDLE \<Rightarrow> nat \<Rightarrow> nat \<Rightarrow> nat \<Rightarrow> 'w sched \<Rightarrow>
     GXOS_SCHEDULER_WAIT_RESULT \<times> (GXOS_SCHEDULER_SWITCH_PLAN \<times> nat) option \<times> 'w sched" where
  "enter_wait handle current e r s =
     (let (added, s) = (if wt_signaled (sc_events s ! e) then (False, s) else add_waiter (Waitable_Event e) r s) in
      if \<not> added
      then let s = (if wr_waiter_linked (sc_wait_records s ! r)
                    then remove_waiter (Waitable_Event e) (unat (wr_waiter_index (sc_wait_records s ! r))) s else s);
               s = release_wait_record r s
           in if wt_signaled (sc_events s ! e)
              then (GXOS_SCHEDULER_WAIT_SIGNALED, None, set_blocked_result current GXOS_SCHEDULER_WAIT_SIGNALED s)
              else (GXOS_SCHEDULER_WAIT_FAILURE, None, s)
      else
        let s = upd_record r (\<lambda>x. x\<lparr> wr_active := True \<rparr>) s;
            s = s\<lparr> sc_active_wait_count := sc_active_wait_count s + 1 \<rparr>;
            s = upd_thread current (\<lambda>x. x\<lparr> th_wait_record := Some r, th_blocked_object := handle,
                  th_blocked_result := GXOS_SCHEDULER_WAIT_FAILURE, th_state := GXOS_SCHEDULER_THREAD_BLOCKED \<rparr>) s
        in case pick_next_runnable s current of
             None \<Rightarrow>
               let s = upd_thread current (\<lambda>x. x\<lparr> th_state := GXOS_SCHEDULER_THREAD_RUNNING, th_wait_record := None,
                         th_blocked_object := 0, th_blocked_result := GXOS_SCHEDULER_WAIT_FAILURE \<rparr>) s;
                   s = remove_waiter (Waitable_Event e) (unat (wr_waiter_index (sc_wait_records s ! r))) s
               in (GXOS_SCHEDULER_WAIT_FAILURE, None, release_wait_record r s)
           | Some next \<Rightarrow>
               (case choose_next next s of (plan, s) \<Rightarrow> (GXOS_SCHEDULER_WAIT_BLOCKED, Some (plan, r), s)))"

text \<open>The second component of the result is the switch plan and \<open>*record_out\<close>.\<close>

definition gxos_scheduler_prepare_wait_record ::
    "GXOS_SCHEDULER_HANDLE \<Rightarrow> 'w sched \<Rightarrow>
     GXOS_SCHEDULER_WAIT_RESULT \<times> (GXOS_SCHEDULER_SWITCH_PLAN \<times> nat) option \<times> 'w sched" where
  "gxos_scheduler_prepare_wait_record handle s =
     (if \<not> g_scheduler s \<or> \<not> sc_active s then (GXOS_SCHEDULER_WAIT_FAILURE, None, s)
      else
        let timeout_armed = sc_pending_wait_timeout_armed s; deadline_ms = sc_pending_wait_deadline_ms s;
            s = s\<lparr> sc_pending_wait_timeout_armed := False, sc_pending_wait_deadline_ms := 0 \<rparr>
        in case sc_current s of
             None \<Rightarrow> (GXOS_SCHEDULER_WAIT_FAILURE, None, s)
           | Some current \<Rightarrow>
               if th_state (sc_threads s ! current) \<noteq> GXOS_SCHEDULER_THREAD_RUNNING \<or>
                  th_wait_record (sc_threads s ! current) \<noteq> None
               then (GXOS_SCHEDULER_WAIT_FAILURE, None, s)
               else case validate_open_event_handle s handle of
                 None \<Rightarrow>
                   (case gxos_scheduler_waitable_from_handle s handle of
                      None \<Rightarrow> (GXOS_SCHEDULER_WAIT_FAILURE, None, s)
                    | Some w \<Rightarrow>
                        if wt_live (waitable_at s w) \<and> wt_signaled (waitable_at s w)
                        then (GXOS_SCHEDULER_WAIT_SIGNALED, None,
                              set_blocked_result current GXOS_SCHEDULER_WAIT_SIGNALED (take_signal w s))
                        else (GXOS_SCHEDULER_WAIT_FAILURE, None, s))
               | Some (i, e) \<Rightarrow>
                   if wt_signaled (sc_events s ! e)
                   then (GXOS_SCHEDULER_WAIT_SIGNALED, None,
                         set_blocked_result current GXOS_SCHEDULER_WAIT_SIGNALED (take_signal (Waitable_Event e) s))
                   else case pin_object i s of
                     (False, s) \<Rightarrow> (GXOS_SCHEDULER_WAIT_FAILURE, None, s)
                   | (True, s) \<Rightarrow>
                       (case allocate_wait_record s of
                          (None, s) \<Rightarrow>
                            (GXOS_SCHEDULER_WAIT_FAILURE, None,
                             upd_object i (\<lambda>ob. ob\<lparr> ob_internal_refs := ob_internal_refs ob - 1 \<rparr>) s)
                        | (Some r, s) \<Rightarrow>
                            enter_wait handle current e r
                              (upd_record r (fill_wait_record current i e timeout_armed deadline_ms s) s)))"

definition gxos_scheduler_prepare_wait ::
    "GXOS_SCHEDULER_HANDLE \<Rightarrow> 'w sched \<Rightarrow>
     GXOS_SCHEDULER_WAIT_RESULT \<times> GXOS_SCHEDULER_SWITCH_PLAN option \<times> 'w sched" where
  "gxos_scheduler_prepare_wait handle s =
     (case gxos_scheduler_prepare_wait_record handle s of
        (result, out, s) \<Rightarrow> (result, map_option fst out, s))"

definition gxos_scheduler_finish_wait ::
    "GXOS_SCHEDULER_HANDLE \<Rightarrow> 'w sched \<Rightarrow> GXOS_SCHEDULER_WAIT_RESULT \<times> 'w sched" where
  "gxos_scheduler_finish_wait handle s =
     (if \<not> g_scheduler s then (GXOS_SCHEDULER_WAIT_FAILURE, s)
      else case sc_current s of
        None \<Rightarrow> (GXOS_SCHEDULER_WAIT_FAILURE, s)
      | Some current \<Rightarrow>
     (let thread = sc_threads s ! current; wait_result = th_blocked_result thread;
          clear = upd_thread current (\<lambda>x. x\<lparr> th_wait_record := None, th_blocked_object := 0,
                    th_blocked_result := GXOS_SCHEDULER_WAIT_FAILURE \<rparr>)
      in if wait_result \<noteq> GXOS_SCHEDULER_WAIT_SIGNALED \<and> wait_result \<noteq> GXOS_SCHEDULER_WAIT_TIMED_OUT
         then (GXOS_SCHEDULER_WAIT_FAILURE, s)
         else case th_wait_record thread of
           None \<Rightarrow> (wait_result, clear s)
         | Some r \<Rightarrow>
     (let record = sc_wait_records s ! r in
      if \<not> wr_valid record \<or> \<not> wr_active record \<or> \<not> wr_completed record \<or> wr_thread record \<noteq> Some current \<or>
         (wait_result = GXOS_SCHEDULER_WAIT_SIGNALED \<and> wr_completion_result record \<noteq> GXOS_WAIT_OBJECT_0) \<or>
         (wait_result = GXOS_SCHEDULER_WAIT_TIMED_OUT \<and> wr_completion_result record \<noteq> GXOS_WAIT_TIMEOUT) \<or>
         (handle \<noteq> 0 \<and> decode_event_identity handle \<noteq> Some (wr_object_slot record, wr_object_generation record))
      then (GXOS_SCHEDULER_WAIT_FAILURE, s)
      else (wait_result, release_wait_record r (clear s)))))"

subsection \<open>Yielding and terminating\<close>

definition gxos_scheduler_prepare_yield :: "'w sched \<Rightarrow> GXOS_SCHEDULER_SWITCH_PLAN option \<times> 'w sched" where
  "gxos_scheduler_prepare_yield s =
     (if \<not> g_scheduler s then (None, s)
      else case sc_current s of
        None \<Rightarrow> (None, s)
      | Some current \<Rightarrow>
     (if th_state (sc_threads s ! current) \<noteq> GXOS_SCHEDULER_THREAD_RUNNING then (None, s)
      else case enqueue_runnable current
                  (upd_thread current (\<lambda>x. x\<lparr> th_state := GXOS_SCHEDULER_THREAD_RUNNABLE \<rparr>) s) of
        (False, s) \<Rightarrow> (None, upd_thread current (\<lambda>x. x\<lparr> th_state := GXOS_SCHEDULER_THREAD_RUNNING \<rparr>) s)
      | (True, s) \<Rightarrow>
     (case pick_next_runnable s current of
        None \<Rightarrow>
          (None, upd_thread current (\<lambda>x. x\<lparr> th_state := GXOS_SCHEDULER_THREAD_RUNNING \<rparr>)
                   (snd (remove_runnable current s)))
      | Some next \<Rightarrow>
          (case choose_next next s of (plan, s) \<Rightarrow> (Some plan, s\<lparr> sc_pending_plan := Some plan \<rparr>)))))"

definition gxos_scheduler_prepare_terminate ::
    "u64 \<Rightarrow> 'w sched \<Rightarrow> GXOS_SCHEDULER_SWITCH_PLAN option \<times> 'w sched" where
  "gxos_scheduler_prepare_terminate return_value s =
     (if \<not> g_scheduler s then (None, s)
      else case sc_current s of
        None \<Rightarrow> (None, s)
      | Some current \<Rightarrow>
          if th_state (sc_threads s ! current) \<noteq> GXOS_SCHEDULER_THREAD_RUNNING \<or>
             th_is_boot_thread (sc_threads s ! current)
          then (None, s)
          else
            let s = upd_thread current (\<lambda>x. x\<lparr> th_return_value := return_value,
                      th_state := GXOS_SCHEDULER_THREAD_TERMINATED, th_deferred_reclaim := True,
                      th_execution_refs := 0 \<rparr>) s
            in case pick_next_runnable s current of
                 None \<Rightarrow> (None, s)
               | Some next \<Rightarrow> (case choose_next next s of (plan, s) \<Rightarrow> (Some plan, s)))"

definition gxos_scheduler_thread_is_terminated :: "'w sched \<Rightarrow> nat option \<Rightarrow> bool" where
  "gxos_scheduler_thread_is_terminated s pointer =
     (case pointer of None \<Rightarrow> False
      | Some t \<Rightarrow> th_live (sc_threads s ! t) \<and> th_state (sc_threads s ! t) = GXOS_SCHEDULER_THREAD_TERMINATED)"

definition gxos_scheduler_event_is_signaled :: "'w sched \<Rightarrow> GXOS_SCHEDULER_HANDLE \<Rightarrow> bool" where
  "gxos_scheduler_event_is_signaled s handle =
     (case event_of_handle s handle of None \<Rightarrow> False
      | Some e \<Rightarrow> wt_live (sc_events s ! e) \<and> wt_signaled (sc_events s ! e))"

subsection \<open>Destroying, reclaiming, tearing down\<close>

definition gxos_scheduler_try_destroy_event :: "GXOS_SCHEDULER_HANDLE \<Rightarrow> 'w sched \<Rightarrow> bool \<times> 'w sched" where
  "gxos_scheduler_try_destroy_event handle s =
     (case lookup_object s handle GXOS_SCHEDULER_OBJECT_EVENT of
        None \<Rightarrow> (False, s)
      | Some i \<Rightarrow>
          (case target_event (ob_target (sc_objects s ! i)) of
             None \<Rightarrow> (False, s)
           | Some e \<Rightarrow>
               if wt_waiters (sc_events s ! e) \<noteq> [] \<or> ob_public_handle_refs (sc_objects s ! i) \<noteq> 0 \<or>
                  ob_internal_refs (sc_objects s ! i) > 1
               then (False, s)
               else (True, release_object_record i
                       (upd_object i (\<lambda>ob. ob\<lparr> ob_internal_refs := 0 \<rparr>)
                         (upd_event e (\<lambda>x. x\<lparr> wt_live := False \<rparr>) s)))))"

definition gxos_scheduler_try_destroy_memory_resource_notification ::
    "GXOS_SCHEDULER_HANDLE \<Rightarrow> 'w sched \<Rightarrow> bool \<times> 'w sched" where
  "gxos_scheduler_try_destroy_memory_resource_notification handle s =
     (case lookup_object s handle GXOS_SCHEDULER_OBJECT_MEMORY_RESOURCE_NOTIFICATION of
        None \<Rightarrow> (False, s)
      | Some i \<Rightarrow>
          (case target_notification (ob_target (sc_objects s ! i)) of
             None \<Rightarrow> (False, s)
           | Some n \<Rightarrow>
               if wt_waiters (mn_waitable (sc_memory_resource_notifications s ! n)) \<noteq> [] \<or>
                  ob_public_handle_refs (sc_objects s ! i) \<noteq> 0
               then (False, s)
               else (True, release_object_record i
                       (upd_object i (\<lambda>ob. ob\<lparr> ob_internal_refs := 0 \<rparr>)
                         (upd_notification n (\<lambda>x. x\<lparr> mn_close_state := True, mn_live := False \<rparr>) s)))))"

definition gxos_scheduler_try_reclaim_thread :: "nat option \<Rightarrow> 'w sched \<Rightarrow> bool \<times> 'w sched" where
  "gxos_scheduler_try_reclaim_thread pointer s =
     (case pointer of
        None \<Rightarrow> (False, s)
      | Some t \<Rightarrow>
          if \<not> th_live (sc_threads s ! t) \<or> th_execution_refs (sc_threads s ! t) \<noteq> 0 \<or>
             th_state (sc_threads s ! t) = GXOS_SCHEDULER_THREAD_BLOCKED \<or>
             th_state (sc_threads s ! t) \<noteq> GXOS_SCHEDULER_THREAD_TERMINATED
          then (False, s)
          else let s = maybe_reclaim_thread t s in (\<not> th_live (sc_threads s ! t), s))"

definition gxos_scheduler_discard_created_thread :: "nat option \<Rightarrow> 'w sched \<Rightarrow> bool \<times> 'w sched" where
  "gxos_scheduler_discard_created_thread pointer s =
     (case pointer of
        None \<Rightarrow> (False, s)
      | Some t \<Rightarrow>
          let thread = sc_threads s ! t in
          if \<not> th_live thread \<or>
             (th_state thread \<noteq> GXOS_SCHEDULER_THREAD_CREATED_SUSPENDED \<and>
              th_state thread \<noteq> GXOS_SCHEDULER_THREAD_RUNNABLE) \<or> th_public_handle_refs thread \<noteq> 0
          then (False, s)
          else case (if th_runnable_queued thread then remove_runnable t s else (True, s)) of
            (False, s) \<Rightarrow> (False, s)
          | (True, s) \<Rightarrow>
              let s = upd_thread t (\<lambda>x. x\<lparr> th_state := GXOS_SCHEDULER_THREAD_TERMINATED, th_execution_refs := 0 \<rparr>) s;
                  s = maybe_reclaim_thread t s
              in (\<not> th_live (sc_threads s ! t), s))"

definition gxos_scheduler_collect :: "'w sched \<Rightarrow> bool \<times> 'w sched" where
  "gxos_scheduler_collect s =
     (if \<not> g_scheduler s then (False, s)
      else (True, fold maybe_reclaim_thread [0..<GXOS_SCHEDULER_MAX_THREADS] s))"

text \<open>The standard stream's part of the teardown; \<open>None\<close> is its early return.\<close>

definition teardown_stream :: "'w sched \<Rightarrow> 'w sched option" where
  "teardown_stream s =
     (let stream = sc_standard_stream s; i = st_object_slot stream; object = sc_objects s ! i in
      if \<not> st_live stream then Some s
      else if \<not> ob_live object \<or> ob_type object \<noteq> GXOS_SCHEDULER_OBJECT_STANDARD_STREAM \<or>
              ob_generation object \<noteq> st_generation stream \<or> ob_public_handle_refs object = 0
      then None
      else Some ((release_object_record i (upd_object i (\<lambda>ob. ob\<lparr> ob_internal_refs := 0 \<rparr>) s))
             \<lparr> sc_standard_stream := zero_standard_stream, sc_standard_input_handle := 0,
               sc_standard_output_handle := 0, sc_standard_error_handle := 0 \<rparr>))"

definition gxos_scheduler_teardown :: "'w sched \<Rightarrow> bool \<times> 'w sched" where
  "gxos_scheduler_teardown s =
     (case sc_boot_thread s of
        None \<Rightarrow> (False, s)
      | Some boot \<Rightarrow>
     (if \<not> at_boot s then (False, s)
      else if th_state (sc_threads s ! boot) \<noteq> GXOS_SCHEDULER_THREAD_RUNNING then (False, s)
      else
        let s = snd (gxos_scheduler_collect s);
            success = (\<not> list_ex wt_live (sc_events s) \<and> \<not> list_ex mn_live (sc_memory_resource_notifications s) \<and>
                       \<not> list_ex (\<lambda>index. th_live (sc_threads s ! index)) [1..<GXOS_SCHEDULER_MAX_THREADS])
        in if \<not> success then (False, s)
           else let boot_object = th_object_slot (sc_threads s ! boot) in
             case teardown_stream s of
               None \<Rightarrow> (False, s)
             | Some s \<Rightarrow>
                 let s = free_thread_environment boot s;
                     s = upd_object boot_object (\<lambda>ob. ob\<lparr> ob_internal_refs := 0 \<rparr>) s;
                     s = release_object_record boot_object s;
                     s = upd_thread boot (\<lambda>_. zero_tcb) s;
                     s = set_gs_base (sc_saved_boot_gs_base s) s;
                     s = restore_boot_flags (sc_saved_boot_flags s) s
                 in (True, s\<lparr> sc_current := None, sc_boot_thread := None, sc_active := False,
                              g_scheduler := False \<rparr>)))"

subsection \<open>Queries and per-thread cells\<close>

definition gxos_scheduler_current_thread :: "'w sched \<Rightarrow> nat option" where
  "gxos_scheduler_current_thread s = (if \<not> g_scheduler s then None else sc_current s)"

definition gxos_scheduler_runnable_count :: "'w sched \<Rightarrow> nat" where
  "gxos_scheduler_runnable_count s = (if \<not> g_scheduler s then 0 else length (sc_runnable_queue s))"

text \<open>\<open>None\<close> is \<open>UINT32_MAX\<close>.\<close>

definition gxos_scheduler_runnable_position :: "'w sched \<Rightarrow> nat option \<Rightarrow> nat option" where
  "gxos_scheduler_runnable_position s pointer =
     (case pointer of
        None \<Rightarrow> None
      | Some t \<Rightarrow>
          if \<not> g_scheduler s \<or> \<not> th_runnable_queued (sc_threads s ! t) then None
          else find_index (\<lambda>q. q = t) (sc_runnable_queue s))"

definition gxos_scheduler_is_runnable_queued :: "'w sched \<Rightarrow> nat option \<Rightarrow> bool" where
  "gxos_scheduler_is_runnable_queued s pointer \<longleftrightarrow> gxos_scheduler_runnable_position s pointer \<noteq> None"

definition gxos_scheduler_active_wait_record :: "'w sched \<Rightarrow> nat option" where
  "gxos_scheduler_active_wait_record s =
     (case gxos_scheduler_current_thread s of None \<Rightarrow> None | Some t \<Rightarrow> th_wait_record (sc_threads s ! t))"

definition gxos_scheduler_active_wait_count :: "'w sched \<Rightarrow> u32" where
  "gxos_scheduler_active_wait_count s = (if \<not> g_scheduler s then 0 else sc_active_wait_count s)"

definition gxos_scheduler_blocked_count :: "'w sched \<Rightarrow> nat" where
  "gxos_scheduler_blocked_count s =
     (if \<not> g_scheduler s then 0
      else length (filter (\<lambda>x. th_live x \<and> th_state x = GXOS_SCHEDULER_THREAD_BLOCKED) (sc_threads s)))"

definition gxos_scheduler_current_gs_base :: "'w sched \<Rightarrow> u64" where
  "gxos_scheduler_current_gs_base s = sy_gs_base s"

definition gxos_scheduler_current_teb_base :: "'w sched \<Rightarrow> u64" where
  "gxos_scheduler_current_teb_base s = read_u64 (sy_memory s) (sy_gs_base s + 0x30)"

definition gxos_scheduler_current_tls_vector :: "'w sched \<Rightarrow> u64" where
  "gxos_scheduler_current_tls_vector s = read_u64 (sy_memory s) (sy_gs_base s + 0x58)"

definition gxos_scheduler_current_tls_block :: "'w sched \<Rightarrow> u64" where
  "gxos_scheduler_current_tls_block s =
     (let vector = gxos_scheduler_current_tls_vector s in if vector = 0 then 0 else read_u64 (sy_memory s) vector)"

definition gxos_scheduler_gs_tls_read :: "'w sched \<Rightarrow> u64" where
  "gxos_scheduler_gs_tls_read s =
     (let block = gxos_scheduler_current_tls_block s
      in if block = 0 then 0 else read_u64 (sy_memory s) (block + GXOS_SCHEDULER_TLS_OFFSET))"

definition gxos_scheduler_gs_tls_write :: "u64 \<Rightarrow> 'w sched \<Rightarrow> 'w sched" where
  "gxos_scheduler_gs_tls_write v s =
     (let block = gxos_scheduler_current_tls_block s
      in if block \<noteq> 0 then poke (block + GXOS_SCHEDULER_TLS_OFFSET) v s else s)"

definition gxos_scheduler_set_fls :: "u32 \<Rightarrow> u64 \<Rightarrow> 'w sched \<Rightarrow> 'w sched" where
  "gxos_scheduler_set_fls slot v s =
     (case gxos_scheduler_current_thread s of
        None \<Rightarrow> s
      | Some t \<Rightarrow>
          if unat slot < GXOS_SCHEDULER_FLS_SLOTS
          then upd_thread t (\<lambda>x. x\<lparr> th_fls_allocated := (th_fls_allocated x)[unat slot := 1],
                                    th_fls_values := (th_fls_values x)[unat slot := v] \<rparr>) s
          else s)"

definition gxos_scheduler_get_fls :: "'w sched \<Rightarrow> u32 \<Rightarrow> u64" where
  "gxos_scheduler_get_fls s slot =
     (case gxos_scheduler_current_thread s of
        None \<Rightarrow> 0
      | Some t \<Rightarrow>
          if unat slot \<ge> GXOS_SCHEDULER_FLS_SLOTS \<or> th_fls_allocated (sc_threads s ! t) ! unat slot = 0 then 0
          else th_fls_values (sc_threads s ! t) ! unat slot)"

definition gxos_scheduler_set_last_error :: "u32 \<Rightarrow> 'w sched \<Rightarrow> 'w sched" where
  "gxos_scheduler_set_last_error v s =
     (case gxos_scheduler_current_thread s of
        None \<Rightarrow> s
      | Some t \<Rightarrow> upd_thread t (\<lambda>x. x\<lparr> th_last_error := v \<rparr>) s)"

definition gxos_scheduler_get_last_error :: "'w sched \<Rightarrow> u32" where
  "gxos_scheduler_get_last_error s =
     (case gxos_scheduler_current_thread s of None \<Rightarrow> 0 | Some t \<Rightarrow> th_last_error (sc_threads s ! t))"

end
