(* ===== verification/Scheduler_Handles.thy ===== *)
theory Scheduler_Handles
  imports Scheduler_Waits
begin

text \<open>
  Handles and the object table: the packing of a handle is inverted by \<open>decode_handle\<close>, and a
  handle denotes its object from its allocation until its release, and again only after its slot
  has been reused 65535 times.
\<close>

subsection \<open>Packing\<close>

definition pack_handle :: "u8 \<Rightarrow> u8 \<Rightarrow> u16 \<Rightarrow> u64 \<Rightarrow> u64" where
  "pack_handle magic type generation low =
     push_bit 56 (ucast magic) OR push_bit 48 (ucast type) OR push_bit 16 (ucast generation) OR low"

lemma low_bits: "take_bit 16 (c :: u64) = c \<Longrightarrow> 16 \<le> n \<Longrightarrow> \<not> bit c n"
  by (metis bit_take_bit_iff not_less)

lemma short_bits: "8 \<le> n \<Longrightarrow> \<not> bit (x :: u8) n" "16 \<le> n \<Longrightarrow> \<not> bit (y :: u16) n"
  using bit_imp_le_length [of x n] bit_imp_le_length [of y n] by auto

lemma pack_handle_fields:
  assumes "take_bit 16 c = c"
  shows "(ucast (drop_bit 56 (pack_handle mg ty g c)) :: u8) = mg"
    and "(ucast (drop_bit 48 (pack_handle mg ty g c)) :: u8) = ty"
    and "(ucast (drop_bit 16 (pack_handle mg ty g c)) :: u16) = g"
    and "pack_handle mg ty g c AND 0xFFFF = c"
proof -
  show "(ucast (drop_bit 56 (pack_handle mg ty g c)) :: u8) = mg"
    by (rule bit_word_eqI) (auto simp: pack_handle_def bit_simps low_bits [OF assms] short_bits)
  show "(ucast (drop_bit 48 (pack_handle mg ty g c)) :: u8) = ty"
    by (rule bit_word_eqI) (auto simp: pack_handle_def bit_simps low_bits [OF assms] short_bits)
  show "(ucast (drop_bit 16 (pack_handle mg ty g c)) :: u16) = g"
    by (rule bit_word_eqI) (auto simp: pack_handle_def bit_simps low_bits [OF assms] short_bits)
  have "(0xFFFF :: u64) = mask 16" by (simp add: mask_eq_exp_minus_1)
  then have "pack_handle mg ty g c AND 0xFFFF = take_bit 16 (pack_handle mg ty g c)" by (simp add: take_bit_eq_mask)
  also have "\<dots> = c"
  proof (rule bit_word_eqI)
    show "bit (take_bit 16 (pack_handle mg ty g c)) n = bit c n" for n
      by (cases "n < 16") (auto simp: pack_handle_def bit_simps low_bits [OF assms])
  qed
  finally show "pack_handle mg ty g c AND 0xFFFF = c" .
qed

lemma take_bit_16: "unat (c :: u64) < 2 ^ 16 \<Longrightarrow> take_bit 16 c = c"
  by (intro word_unat_eq_iff [THEN iffD2], subst unsigned_take_bit_eq) (rule take_bit_nat_eq_self)

lemma decode_make:
  assumes "slot < 16"
  shows "decode_handle (make_handle ty slot g) ty' = (if ty' = ty \<and> g \<noteq> 0 then Some (slot, g) else None)"
proof -
  define c :: u64 where "c = of_nat slot + 1"
  have u: "unat c = slot + 1" using assms by (simp add: c_def unat_word_ariths unat_of_nat)
  have c: "take_bit 16 c = c"
    using assms u by (intro take_bit_16) simp
  have "make_handle ty slot g = pack_handle 0xA7 ty g c" by (simp add: make_handle_def pack_handle_def c_def)
  moreover have "unat (ucast c :: u16) = slot + 1" using assms by (simp add: unsigned_ucast_eq u take_bit_eq_mod)
  ultimately show ?thesis using assms
    by (auto simp: decode_handle_def Let_def pack_handle_fields(1-3) [OF c] pack_handle_fields(4) [OF c, simplified])
qed

lemma make_handle_type [simp]: "slot < 16 \<Longrightarrow> (ucast (drop_bit 48 (make_handle ty slot g)) :: u8) = ty"
proof -
  assume "slot < 16"
  then have "unat (of_nat slot + 1 :: u64) < 2 ^ 16" by (simp add: unat_word_ariths unat_of_nat)
  then have "take_bit 16 (of_nat slot + 1 :: u64) = of_nat slot + 1"
    by (rule take_bit_16)
  from pack_handle_fields(2) [OF this, of "0xA7" ty g] show ?thesis unfolding make_handle_def pack_handle_def .
qed

lemma decode_handle_bounds:
  "decode_handle h ty = Some (slot, g) \<Longrightarrow> slot < 16 \<and> g \<noteq> 0"
  by (auto simp: decode_handle_def Let_def split: if_splits)

lemma decode_handle_type: "decode_handle h ty = Some x \<Longrightarrow> ty = ucast (drop_bit 48 h)"
  by (auto simp: decode_handle_def Let_def split: if_splits)

subsection \<open>The object table\<close>

lemma next_object_generation: "next_object_generation g \<noteq> 0 \<and> next_object_generation g \<noteq> g"
  by (auto simp: next_object_generation_def)

lemma allocate_objectD:
  assumes "allocate_object ty tg s = (Some (i, h), s')" and "length (sc_objects s) = 16"
  shows "i < 16" "\<not> ob_live (sc_objects s ! i)" "g_scheduler s"
    "h = make_handle ty i (next_object_generation (ob_generation (sc_objects s ! i)))"
    "s' = s\<lparr> sc_objects := (sc_objects s)[i := zero_object\<lparr> ob_live := True, ob_type := ty,
        ob_generation := next_object_generation (ob_generation (sc_objects s ! i)), ob_slot := i,
        ob_public_handle_refs := 1, ob_internal_refs := 1, ob_target := tg \<rparr>] \<rparr>"
  using assms find_index_SomeD [of _ "sc_objects s" i]
  by (auto simp: allocate_object_def Let_def upd_object_def split: if_splits option.splits)

lemma allocate_object_None: "allocate_object ty tg s = (None, s') \<Longrightarrow> s' = s"
  by (auto simp: allocate_object_def Let_def split: if_splits option.splits)

lemma lookup_object_iff:
  "lookup_object s h ty = Some i \<longleftrightarrow> g_scheduler s \<and> decode_handle h ty = Some (i, ob_generation (sc_objects s ! i)) \<and>
     ob_live (sc_objects s ! i) \<and> ob_type (sc_objects s ! i) = ty"
  by (auto simp: lookup_object_def Let_def split: option.splits if_splits)

lemma lookup_object_bound: "lookup_object s h ty = Some i \<Longrightarrow> i < 16"
  using decode_handle_bounds by (auto simp: lookup_object_iff)

subsection \<open>Generations along a run\<close>

text \<open>
  A run of the object table after a given state: allocations and releases of any slots in any
  order, and any other change that leaves alone which slots are live, their types and their
  generations. \<open>table_run s i a r s'\<close> counts the allocations \<open>a\<close> and the releases \<open>r\<close> of slot \<open>i\<close>.
\<close>

inductive table_run :: "'w sched \<Rightarrow> nat \<Rightarrow> nat \<Rightarrow> nat \<Rightarrow> 'w sched \<Rightarrow> bool" for s :: "'w sched" and i :: nat where
  start: "table_run s i 0 0 s"
| allocate: "table_run s i a r u \<Longrightarrow> allocate_object ty tg u = (Some (j, h), v) \<Longrightarrow>
    table_run s i (if j = i then Suc a else a) r v"
| release: "table_run s i a r u \<Longrightarrow> table_run s i a (if j = i then Suc r else r) (release_object_record j u)"
| touch: "table_run s i a r u \<Longrightarrow> length (sc_objects v) = length (sc_objects u) \<Longrightarrow>
    (\<And>j. j < length (sc_objects u) \<Longrightarrow> ob_live (sc_objects v ! j) = ob_live (sc_objects u ! j) \<and>
       ob_type (sc_objects v ! j) = ob_type (sc_objects u ! j) \<and>
       ob_generation (sc_objects v ! j) = ob_generation (sc_objects u ! j)) \<Longrightarrow>
    table_run s i a r v"

text \<open>The generations of a slot go round the 65535 nonzero values.\<close>

lemma next_generation_cycle:
  assumes "unat g = n mod 65535 + 1"
  shows "unat (next_object_generation g) = Suc n mod 65535 + 1"
proof (cases "n mod 65535 = 65534")
  case True
  with assms have "unat g = unat (0xFFFF :: u16)" by simp
  then have "g = 0xFFFF" by (simp only: word_unat_eq_iff)
  moreover have "Suc n mod 65535 = 0" using True by (simp add: mod_Suc)
  ultimately show ?thesis by (simp add: next_object_generation_def)
next
  case False
  have "n mod 65535 < 65535" by simp
  with False have "n mod 65535 < 65534" by linarith
  with assms have u: "unat (g + 1) = n mod 65535 + 2" by (simp add: unat_word_ariths)
  then have "g + 1 \<noteq> 0" by auto
  with u False show ?thesis by (simp add: next_object_generation_def mod_Suc)
qed

lemma table_run_slot:
  assumes "table_run s i a r v" and "length (sc_objects s) = 16" and "i < 16"
    and "ob_live (sc_objects s ! i)" and "ob_type (sc_objects s ! i) = ty" and "ob_generation (sc_objects s ! i) \<noteq> 0"
  shows "length (sc_objects v) = 16 \<and>
    unat (ob_generation (sc_objects v ! i)) = (unat (ob_generation (sc_objects s ! i)) - 1 + a) mod 65535 + 1 \<and>
    (r = 0 \<longrightarrow> a = 0 \<and> ob_live (sc_objects v ! i) \<and> ob_type (sc_objects v ! i) = ty) \<and>
    (0 < r \<and> a = 0 \<longrightarrow> \<not> ob_live (sc_objects v ! i))"
  using assms
proof (induction rule: table_run.induct)
  case start
  have "0 < unat (ob_generation (sc_objects s ! i))" using start.prems(5) by (simp add: unat_gt_0)
  moreover have "unat (ob_generation (sc_objects s ! i)) < 65536"
    using unsigned_less [of "ob_generation (sc_objects s ! i)"] by simp
  ultimately show ?case using start.prems by simp
next
  case (allocate a r u ty' tg j h v)
  note IH = allocate.IH [OF allocate.prems]
  note A = allocate_objectD [OF allocate.hyps(2) IH [THEN conjunct1]]
  show ?case
  proof (cases "j = i")
    case True
    with A(2) IH have r: "r \<noteq> 0" by auto
    from IH True A show ?thesis by (simp add: next_generation_cycle r)
  next
    case False
    then show ?thesis using IH A(5) by simp
  qed
next
  case (release a r u j)
  then show ?case by (auto simp: release_object_record_def zero_object_def nth_list_update)
next
  case (touch a r u v)
  then show ?case by simp
qed

lemma cycle_returns:
  "1 \<le> g \<Longrightarrow> g < 65536 \<Longrightarrow> (g - 1 + a) mod 65535 + 1 = g \<longleftrightarrow> 65535 dvd (a :: nat)"
proof -
  assume g: "1 \<le> g" "g < 65536"
  then have "(g - 1 + a) mod 65535 + 1 = g \<longleftrightarrow> (g - 1 + a) mod 65535 = (g - 1 + 0) mod 65535" by auto
  also have "\<dots> \<longleftrightarrow> 65535 dvd (g - 1 + a) - (g - 1 + 0)" by (subst mod_eq_dvd_iff_nat) auto
  finally show ?thesis by simp
qed

text \<open>
  C13. What a handle denotes, from the allocation that returns it and along every later run of the
  object table. The handle denoted nothing before; right after the allocation it denotes the new slot under
  its own type and under no other, every handle that was valid still denotes the same object, and
  no other decoded handle denotes the new slot. Along any run of allocations, releases and
  changes that touch neither, the handle goes on denoting its slot for as long as that slot has not been released.
  After a release it denotes nothing, also when the slot is reused, until the slot
  has been allocated 65535 more times: the 16-bit generation skips zero and then comes round.
  Exactly: after \<open>a\<close> reallocations of its slot the handle is accepted if and only if the slot
  is live with the handle's type and \<open>a\<close> is a multiple of 65535, so a stale handle can
  revive after 65535 reuses of one slot, and never earlier.
\<close>

theorem scheduler_handle_lifetime:
  assumes a: "allocate_object ty tg s = (Some (i, h), s')" and n: "length (sc_objects s) = 16"
  shows "(\<forall>t. lookup_object s h t = None) \<and>
    (\<forall>t. lookup_object s' h t = (if t = ty then Some i else None)) \<and>
    (\<forall>h' t j. lookup_object s h' t = Some j \<longrightarrow> lookup_object s' h' t = Some j) \<and>
    (\<forall>h' t. lookup_object s' h' t = Some i \<longrightarrow> decode_handle h' t = decode_handle h ty) \<and>
    (\<forall>a r v t. table_run s' i a r v \<longrightarrow>
       (r = 0 \<and> g_scheduler v \<longrightarrow> lookup_object v h t = (if t = ty then Some i else None)) \<and>
       (0 < r \<and> a < 65535 \<longrightarrow> lookup_object v h t = None) \<and>
       lookup_object v h t = (if g_scheduler v \<and> t = ty \<and> ob_live (sc_objects v ! i) \<and> ob_type (sc_objects v ! i) = ty \<and>
         65535 dvd a then Some i else None))"
proof -
  note A = allocate_objectD [OF a n]
  define g where "g = next_object_generation (ob_generation (sc_objects s ! i))"
  have g: "g \<noteq> 0" using next_object_generation by (simp add: g_def)
  have d: "decode_handle h t = (if t = ty then Some (i, g) else None)" for t
    using g A(1) by (simp add: A(4) decode_make flip: g_def)
  have 1: "lookup_object s h t = None" for t
    using A(2) by (cases "lookup_object s h t") (auto simp: lookup_object_iff d split: if_splits)
  have 2: "lookup_object s' h t = (if t = ty then Some i else None)" for t
    using A(1,3) n by (simp add: lookup_object_def d A(5) flip: g_def)
  have 3: "lookup_object s' h' t = Some j" if "lookup_object s h' t = Some j" for h' t j
    using that A n by (cases "j = i") (auto simp: lookup_object_iff)
  have 4: "decode_handle h' t = decode_handle h ty" if "lookup_object s' h' t = Some i" for h' t
    using that A(1) n d [of ty] by (auto simp: lookup_object_iff A(5) simp flip: g_def)
  have 5: "lookup_object v h t = (if g_scheduler v \<and> t = ty \<and> ob_live (sc_objects v ! i) \<and> ob_type (sc_objects v ! i) = ty \<and>
        65535 dvd a then Some i else None)"
    "r = 0 \<longrightarrow> a = 0 \<and> ob_live (sc_objects v ! i) \<and> ob_type (sc_objects v ! i) = ty"
    "0 < r \<and> a = 0 \<longrightarrow> \<not> ob_live (sc_objects v ! i)" if "table_run s' i a r v" for a r v t
  proof -
    have new: "sc_objects s' ! i = zero_object\<lparr> ob_live := True, ob_type := ty, ob_generation := g, ob_slot := i,
        ob_public_handle_refs := 1, ob_internal_refs := 1, ob_target := tg \<rparr>" using A(1) n by (simp add: A(5) g_def)
    have "length (sc_objects s') = 16" using n by (simp add: A(5))
    note S = table_run_slot [OF that this A(1), of ty, unfolded new, simplified, OF g]
    then show "r = 0 \<longrightarrow> a = 0 \<and> ob_live (sc_objects v ! i) \<and> ob_type (sc_objects v ! i) = ty"
      "0 < r \<and> a = 0 \<longrightarrow> \<not> ob_live (sc_objects v ! i)" by blast+
    have "ob_generation (sc_objects v ! i) = g \<longleftrightarrow> unat (ob_generation (sc_objects v ! i)) = unat g"
      by (simp only: word_unat_eq_iff)
    also have "\<dots> \<longleftrightarrow> 65535 dvd a"
      using S cycle_returns [of "unat g" a] g unsigned_less [of g] by (simp add: Suc_le_eq unat_gt_0)
    finally show "lookup_object v h t = (if g_scheduler v \<and> t = ty \<and> ob_live (sc_objects v ! i) \<and>
        ob_type (sc_objects v ! i) = ty \<and> 65535 dvd a then Some i else None)"
      by (auto simp: lookup_object_def d)
  qed
  have 6: "\<not> 65535 dvd a \<or> a = 0" if "a < 65535" for a :: nat using that by (auto dest: dvd_imp_le)
  show ?thesis
  proof (intro conjI allI impI)
    fix a r v t assume run: "table_run s' i a r v"
    note R = 5 [OF run]
    show "lookup_object v h t = (if t = ty then Some i else None)" if "r = 0 \<and> g_scheduler v"
      using that R(1) [of t] R(2) by simp
    show "lookup_object v h t = None" if "0 < r \<and> a < 65535" using that R(1) [of t] R(3) 6 [of a] by auto
    show "lookup_object v h t = (if g_scheduler v \<and> t = ty \<and> ob_live (sc_objects v ! i) \<and>
        ob_type (sc_objects v ! i) = ty \<and> 65535 dvd a then Some i else None)" by (rule R(1))
  qed (use 1 2 3 4 in \<open>blast+\<close>)
qed

text \<open>The machine before the scheduler is set up; its services' state is the next free page.\<close>

definition empty_sched :: "nat sched" where
  "empty_sched = (zero_scheduler \<lparr> sc_allocate_pages = None, sc_free_pages = None, sc_now_ms = None,
     sc_register_stack_vm = None, sc_unregister_stack_vm = None, sc_threads = [], sc_wait_records = [],
     sc_events = [], sc_memory_resource_notifications = [], sc_standard_stream = zero_standard_stream,
     sc_standard_input_handle = 0, sc_standard_output_handle = 0, sc_standard_error_handle = 0,
     sc_objects = [], sc_runnable_queue = [], sc_current = None, sc_boot_thread = None, sc_next_identity = 0,
     sc_next_wait_generation = 0, sc_active_wait_count = 0, sc_saved_boot_gs_base = 0, sc_saved_boot_flags = 0,
     sc_boot_stack_lower = 0, sc_boot_stack_upper = 0, sc_active = False, sc_pending_wait_timeout_armed = False,
     sc_pending_wait_deadline_ms = 0, sc_pending_plan = None, g_scheduler = False, sy_memory = (\<lambda>_. 0),
     sy_gs_base = 0x7000, sy_flags = 0x202, sy_rsp = 0x80000, sy_start_worker = 0x100000,
     sy_invalid_thread_return = 0x100100, sy_world = 0x20 \<rparr>)"

theorem scheduler_handle_lifetime_witness:
  "let s = snd (allocate_object 2 (Target_Event 0) (empty_sched\<lparr> g_scheduler := True \<rparr>)) in
     lookup_object s 0xA702000000010001 2 = Some 0 \<and>
     lookup_object (release_object_record 0 s) 0xA702000000010001 2 = None"
proof -
  let ?s = "empty_sched\<lparr> g_scheduler := True \<rparr>"
  let ?s' = "snd (allocate_object 2 (Target_Event 0) ?s)"
  have "allocate_object 2 (Target_Event 0) ?s = (Some (0, 0xA702000000010001), ?s')"
    by (simp add: allocate_object_def empty_sched_def zero_scheduler_def Let_def zero_object_def
        next_object_generation_def make_handle_def)
  note life = scheduler_handle_lifetime [OF this]
  have "length (sc_objects ?s) = 16" by (simp add: empty_sched_def zero_scheduler_def)
  note life = life [OF this]
  have "table_run ?s' 0 0 1 (release_object_record 0 ?s')"
    using table_run.release [OF table_run.start, of ?s' 0 0] by simp
  with life have "lookup_object (release_object_record 0 ?s') 0xA702000000010001 2 = None" by fastforce
  moreover from life have "lookup_object ?s' 0xA702000000010001 2 = Some 0" by simp
  ultimately show ?thesis by (simp add: Let_def)
qed

end
