(* ===== verification/Scheduler_Run.thy ===== *)
theory Scheduler_Run
  imports Scheduler_Handles
begin

text \<open>
  The run queue: which threads are queued, that exactly the current thread runs, and what
  enqueueing, dequeueing and dispatching do to a consistent pool of threads.
\<close>

subsection \<open>A consistent pool\<close>

definition thread_ok :: "GXOS_SCHEDULER_TCB \<Rightarrow> bool" where
  "thread_ok x \<longleftrightarrow> (th_runnable_queued x \<longleftrightarrow> th_live x \<and> th_state x = GXOS_SCHEDULER_THREAD_RUNNABLE) \<and>
     (\<not> th_live x \<longrightarrow> x = zero_tcb)"

definition pool_ok :: "GXOS_SCHEDULER_TCB list \<Rightarrow> nat list \<Rightarrow> bool" where
  "pool_ok ts q \<longleftrightarrow> length ts = 6 \<and> distinct q \<and> (\<forall>t. t \<in> set q \<longleftrightarrow> t < 6 \<and> th_runnable_queued (ts ! t)) \<and>
     (\<forall>t < 6. thread_ok (ts ! t))"

definition none_running :: "GXOS_SCHEDULER_TCB list \<Rightarrow> bool" where
  "none_running ts \<longleftrightarrow> (\<forall>t < 6. th_state (ts ! t) \<noteq> GXOS_SCHEDULER_THREAD_RUNNING)"

text \<open>
  The current thread is live and is the only one that may be running; it is terminated
  instead only when it has terminated with no thread left to run.
\<close>

definition current_ok :: "GXOS_SCHEDULER_TCB list \<Rightarrow> nat option \<Rightarrow> bool" where
  "current_ok ts c \<longleftrightarrow> (\<exists>k < 6. c = Some k \<and> th_live (ts ! k) \<and>
     th_state (ts ! k) \<in> {GXOS_SCHEDULER_THREAD_RUNNING, GXOS_SCHEDULER_THREAD_TERMINATED} \<and>
     (\<forall>t < 6. t \<noteq> k \<longrightarrow> th_state (ts ! t) \<noteq> GXOS_SCHEDULER_THREAD_RUNNING))"

lemma zero_tcb_sel [simp]:
  "\<not> th_live zero_tcb" "th_state zero_tcb = GXOS_SCHEDULER_THREAD_FREE" "\<not> th_runnable_queued zero_tcb"
  "th_wait_record zero_tcb = None" "\<not> th_is_boot_thread zero_tcb" "\<not> th_environment_owned zero_tcb"
  "\<not> th_deferred_reclaim zero_tcb" "th_stack_pages_memory zero_tcb = 0" "th_stack_canary_memory zero_tcb = 0"
  "th_stack_vm_identity zero_tcb = 0" "th_object_slot zero_tcb = 0" "th_generation zero_tcb = 0"
  by (simp_all add: zero_tcb_def)

lemma pool_okD:
  assumes "pool_ok ts q"
  shows "length ts = 6" "distinct q" "t \<in> set q \<longleftrightarrow> t < 6 \<and> th_runnable_queued (ts ! t)" "t < 6 \<Longrightarrow> thread_ok (ts ! t)"
  using assms by (auto simp: pool_ok_def)

lemma pool_queued: "pool_ok ts q \<Longrightarrow> t < 6 \<Longrightarrow>
    th_runnable_queued (ts ! t) \<longleftrightarrow> th_live (ts ! t) \<and> th_state (ts ! t) = GXOS_SCHEDULER_THREAD_RUNNABLE"
  by (simp add: pool_ok_def thread_ok_def)

lemma pool_dead: "pool_ok ts q \<Longrightarrow> t < 6 \<Longrightarrow> \<not> th_live (ts ! t) \<Longrightarrow> ts ! t = zero_tcb"
  by (simp add: pool_ok_def thread_ok_def)

lemma pool_ready: "pool_ok ts q \<Longrightarrow> t < 6 \<Longrightarrow> ready (ts ! t) \<longleftrightarrow> t \<in> set q"
  by (auto simp: ready_def pool_okD(3) pool_queued)

lemma pool_upd:
  "pool_ok ts q \<Longrightarrow> thread_ok x \<Longrightarrow> th_runnable_queued x = th_runnable_queued (ts ! t) \<Longrightarrow> pool_ok (ts[t := x]) q"
  by (auto simp: pool_ok_def nth_list_update_cases split: if_splits)

lemma pool_enq:
  "pool_ok ts q \<Longrightarrow> t < 6 \<Longrightarrow> \<not> th_runnable_queued (ts ! t) \<Longrightarrow> thread_ok x \<Longrightarrow> th_runnable_queued x \<Longrightarrow>
     pool_ok (ts[t := x]) (q @ [t])"
  by (auto simp: pool_ok_def nth_list_update_cases split: if_splits)

lemma pool_deq:
  "pool_ok ts q \<Longrightarrow> t < 6 \<Longrightarrow> thread_ok x \<Longrightarrow> \<not> th_runnable_queued x \<Longrightarrow> pool_ok (ts[t := x]) (remove1 t q)"
  by (auto simp: pool_ok_def nth_list_update_cases split: if_splits)

lemma pool_room:
  assumes "pool_ok ts q" and "t < 6" and "\<not> th_runnable_queued (ts ! t)"
  shows "length q < 6"
proof -
  have "set q \<subseteq> {0..<6} - {t}" using assms by (auto simp: pool_okD(3))
  then have "card (set q) \<le> card ({0..<6} - {t})" by (intro card_mono) auto
  with assms show ?thesis by (simp add: distinct_card pool_okD(2))
qed

lemma current_upd:
  assumes "current_ok ts c" and "c \<noteq> Some t" and "th_state x \<noteq> GXOS_SCHEDULER_THREAD_RUNNING"
  shows "current_ok (ts[t := x]) c"
proof -
  obtain k where k: "k < 6" "c = Some k" "th_live (ts ! k)"
    "th_state (ts ! k) \<in> {GXOS_SCHEDULER_THREAD_RUNNING, GXOS_SCHEDULER_THREAD_TERMINATED}"
    "\<forall>t < 6. t \<noteq> k \<longrightarrow> th_state (ts ! t) \<noteq> GXOS_SCHEDULER_THREAD_RUNNING"
    using assms(1) unfolding current_ok_def by blast
  then have "(ts[t := x]) ! k = ts ! k" using assms(2) by simp
  with k assms(3) show ?thesis unfolding current_ok_def by (intro exI [of _ k]) (auto simp: nth_list_update_if)
qed

lemma current_not:
  "current_ok ts c \<Longrightarrow> th_state (ts ! t) \<notin> {GXOS_SCHEDULER_THREAD_RUNNING, GXOS_SCHEDULER_THREAD_TERMINATED} \<Longrightarrow> c \<noteq> Some t"
  by (auto simp: current_ok_def)

subsection \<open>The queue operations\<close>

lemma enqueue_ready:
  assumes "pool_ok ts q" and "t < 6" and "\<not> th_runnable_queued (ts ! t)" and "g_scheduler s"
    and "sc_threads s = ts[t := x]" and "sc_runnable_queue s = q"
    and "th_live x" and "th_state x = GXOS_SCHEDULER_THREAD_RUNNABLE" and "\<not> th_runnable_queued x"
  shows "enqueue_runnable t s = (True, s\<lparr> sc_threads := ts[t := x\<lparr> th_runnable_queued := True \<rparr>],
           sc_runnable_queue := q @ [t] \<rparr>)"
proof -
  have "length q < 6" using pool_room assms(1-3) .
  with assms show ?thesis by (simp add: enqueue_runnable_def upd_thread_def pool_okD(1))
qed

lemma find_index_remove1:
  "find_index (\<lambda>y. y = x) xs = Some i \<Longrightarrow> take i xs @ drop (i + 1) xs = remove1 x xs"
proof (induction xs arbitrary: i)
  case Nil
  then show ?case by simp
next
  case (Cons y xs)
  then show ?case by (cases "y = x") auto
qed

lemma remove_queued:
  assumes "pool_ok (sc_threads s) (sc_runnable_queue s)" and "t < 6" and "th_runnable_queued (sc_threads s ! t)"
    and "g_scheduler s"
  shows "remove_runnable t s = (True, s\<lparr> sc_threads := (sc_threads s)[t := (sc_threads s ! t)\<lparr> th_runnable_queued := False \<rparr>],
           sc_runnable_queue := remove1 t (sc_runnable_queue s) \<rparr>)"
proof -
  have "t \<in> set (sc_runnable_queue s)" using assms by (simp add: pool_okD(3))
  then obtain i where "find_index (\<lambda>q. q = t) (sc_runnable_queue s) = Some i" using find_index_ex [of t _ "\<lambda>q. q = t"] by auto
  with find_index_remove1 [OF this] assms show ?thesis by (simp add: remove_runnable_def upd_thread_def)
qed

text \<open>Dispatching a queued thread makes it the one running thread.\<close>

lemma choose_ready:
  assumes "pool_ok (sc_threads s) (sc_runnable_queue s)" and "t < 6" and "ready (sc_threads s ! t)"
    and "g_scheduler s" and "sc_current s = Some k"
  shows "choose_next t s = (\<lparr> sp_old_context = k, sp_new_context = th_saved_context (sc_threads s ! t) \<rparr>,
      s\<lparr> sc_threads := (sc_threads s)[t := (sc_threads s ! t)
           \<lparr> th_runnable_queued := False, th_state := GXOS_SCHEDULER_THREAD_RUNNING \<rparr>],
         sc_runnable_queue := remove1 t (sc_runnable_queue s), sc_current := Some t \<rparr>)"
proof -
  have q: "th_runnable_queued (sc_threads s ! t)" using assms(3) by (simp add: ready_def)
  show ?thesis
    using assms(1,2,5) by (simp add: choose_next_def remove_queued [OF assms(1,2) q assms(4)] upd_thread_def pool_okD(1))
qed

lemma dispatch_ok:
  assumes "pool_ok ts q" and "none_running ts" and "t < 6" and "ready (ts ! t)"
  shows "pool_ok (ts[t := (ts ! t)\<lparr> th_runnable_queued := False, th_state := GXOS_SCHEDULER_THREAD_RUNNING \<rparr>]) (remove1 t q)"
    and "current_ok (ts[t := (ts ! t)\<lparr> th_runnable_queued := False, th_state := GXOS_SCHEDULER_THREAD_RUNNING \<rparr>]) (Some t)"
proof -
  have "th_live (ts ! t)" using assms(4) by (simp add: ready_def)
  with assms show "pool_ok (ts[t := (ts ! t)\<lparr> th_runnable_queued := False, th_state := GXOS_SCHEDULER_THREAD_RUNNING \<rparr>]) (remove1 t q)"
    by (intro pool_deq) (auto simp: thread_ok_def)
  show "current_ok (ts[t := (ts ! t)\<lparr> th_runnable_queued := False, th_state := GXOS_SCHEDULER_THREAD_RUNNING \<rparr>]) (Some t)"
    using assms \<open>th_live (ts ! t)\<close> pool_okD(1) [OF assms(1)]
    by (auto simp: current_ok_def none_running_def nth_list_update)
qed

subsection \<open>The round-robin choice\<close>

text \<open>How far round the ring \<open>t\<close> is from \<open>c\<close>: 1 for the next slot, 6 for \<open>c\<close> itself.\<close>

definition ring_distance :: "nat \<Rightarrow> nat \<Rightarrow> nat" where
  "ring_distance c t = (if c < t then t - c else t + 6 - c)"

lemma ring_distance_bounds: "c < 6 \<Longrightarrow> t < 6 \<Longrightarrow> 1 \<le> ring_distance c t \<and> ring_distance c t \<le> 6"
  by (auto simp: ring_distance_def)

lemma ring_distance_at: "c < 6 \<Longrightarrow> t < 6 \<Longrightarrow> (c + ring_distance c t) mod 6 = t"
  by (auto simp: ring_distance_def)

lemma ring_distance_mod: "c < 6 \<Longrightarrow> 1 \<le> d \<Longrightarrow> d \<le> 6 \<Longrightarrow> ring_distance c ((c + d) mod 6) = d"
  by (auto simp: ring_distance_def mod_if split: if_splits)

lemma ring_distance_inj:
  "c < 6 \<Longrightarrow> t < 6 \<Longrightarrow> u < 6 \<Longrightarrow> ring_distance c t = ring_distance c u \<Longrightarrow> t = u"
  by (metis ring_distance_at)

lemma ring_distance_step:
  "c < 6 \<Longrightarrow> t < 6 \<Longrightarrow> n < 6 \<Longrightarrow> ring_distance c n < ring_distance c t \<Longrightarrow>
     ring_distance n t = ring_distance c t - ring_distance c n"
  by (auto simp: ring_distance_def split: if_splits)

lemma pick_next_None: "pick_next_runnable s c = None \<Longrightarrow> c < 6 \<Longrightarrow> t < 6 \<Longrightarrow> \<not> ready (sc_threads s ! t)"
proof -
  assume n: "pick_next_runnable s c = None" and c: "c < 6" and t: "t < 6"
  have "ring_distance c t \<in> set [1..<GXOS_SCHEDULER_MAX_THREADS + 1]"
    using ring_distance_bounds [OF c t] by auto
  moreover have "\<not> ready (sc_threads s ! ((c + d) mod 6))" if "d \<in> set [1..<GXOS_SCHEDULER_MAX_THREADS + 1]" for d
    using n that by (simp add: pick_next_runnable_def find_None_iff)
  ultimately show "\<not> ready (sc_threads s ! t)" using ring_distance_at [OF c t] by metis
qed

lemma pick_next_Some:
  assumes "pick_next_runnable s c = Some n" and "c < 6"
  shows "n < 6 \<and> ready (sc_threads s ! n) \<and>
    (\<forall>t < 6. ready (sc_threads s ! t) \<longrightarrow> ring_distance c n \<le> ring_distance c t)"
proof -
  from assms(1) obtain i where i: "i < 6" "n = (c + Suc i) mod 6" "ready (sc_threads s ! n)"
    and before: "\<forall>j < i. \<not> ready (sc_threads s ! ((c + Suc j) mod 6))"
    by (auto simp: pick_next_runnable_def find_Some_iff nth_append split: if_splits)
  have n: "ring_distance c n = Suc i" using i ring_distance_mod [OF assms(2), of "Suc i"] by simp
  have "ring_distance c n \<le> ring_distance c t" if t: "t < 6" "ready (sc_threads s ! t)" for t
  proof (rule ccontr)
    assume "\<not> ring_distance c n \<le> ring_distance c t"
    moreover from ring_distance_bounds [OF assms(2) t(1)] obtain j where "ring_distance c t = Suc j"
      by (cases "ring_distance c t") auto
    ultimately have "j < i" using n by simp
    with before ring_distance_at [OF assms(2) t(1)] \<open>ring_distance c t = Suc j\<close> t(2) show False by auto
  qed
  with i show ?thesis by simp
qed

lemma pick_next_ready:
  assumes "ready (sc_threads s ! t)" and "t < 6" and "c < 6"
  obtains n where "pick_next_runnable s c = Some n"
  using pick_next_None [OF _ assms(3,2)] assms(1) by (cases "pick_next_runnable s c") auto

subsection \<open>Yielding\<close>

definition run_inv :: "'w sched \<Rightarrow> bool" where
  "run_inv s \<longleftrightarrow> g_scheduler s \<and> pool_ok (sc_threads s) (sc_runnable_queue s) \<and>
     current_ok (sc_threads s) (sc_current s)"

definition running :: "'w sched \<Rightarrow> nat \<Rightarrow> bool" where
  "running s k \<longleftrightarrow> sc_current s = Some k \<and> th_state (sc_threads s ! k) = GXOS_SCHEDULER_THREAD_RUNNING"

definition yield_state :: "'w sched \<Rightarrow> 'w sched" where
  "yield_state s = snd (gxos_scheduler_prepare_yield s)"

lemma run_inv_current:
  assumes "run_inv s" and "sc_current s = Some k"
  shows "k < 6" "th_live (sc_threads s ! k)" "\<not> th_runnable_queued (sc_threads s ! k)"
    "t < 6 \<Longrightarrow> t \<noteq> k \<Longrightarrow> th_state (sc_threads s ! t) \<noteq> GXOS_SCHEDULER_THREAD_RUNNING"
proof -
  have c: "current_ok (sc_threads s) (Some k)" and p: "pool_ok (sc_threads s) (sc_runnable_queue s)"
    using assms by (simp_all add: run_inv_def)
  then show k: "k < 6" and "th_live (sc_threads s ! k)"
    and "t < 6 \<Longrightarrow> t \<noteq> k \<Longrightarrow> th_state (sc_threads s ! t) \<noteq> GXOS_SCHEDULER_THREAD_RUNNING" by (auto simp: current_ok_def)
  show "\<not> th_runnable_queued (sc_threads s ! k)" using c pool_queued [OF p k] by (auto simp: current_ok_def)
qed

text \<open>The state in which the thread that yields has joined the queue and the next one is chosen.\<close>

lemma yield_spec:
  assumes inv: "run_inv s" and k: "running s k"
  defines "ts \<equiv> (sc_threads s)[k := (sc_threads s ! k)
      \<lparr> th_state := GXOS_SCHEDULER_THREAD_RUNNABLE, th_runnable_queued := True \<rparr>]"
  shows "\<exists>n < 6. ready (ts ! n) \<and> (\<forall>t < 6. ready (ts ! t) \<longrightarrow> ring_distance k n \<le> ring_distance k t) \<and>
    gxos_scheduler_prepare_yield s =
      (Some \<lparr> sp_old_context = k, sp_new_context = th_saved_context (ts ! n) \<rparr>,
       s\<lparr> sc_threads := ts[n := (ts ! n)\<lparr> th_runnable_queued := False, th_state := GXOS_SCHEDULER_THREAD_RUNNING \<rparr>],
          sc_runnable_queue := remove1 n (sc_runnable_queue s @ [k]), sc_current := Some n,
          sc_pending_plan := Some \<lparr> sp_old_context = k, sp_new_context = th_saved_context (ts ! n) \<rparr> \<rparr>) \<and>
    run_inv (yield_state s) \<and> running (yield_state s) n"
proof -
  have cur: "sc_current s = Some k" and st: "th_state (sc_threads s ! k) = GXOS_SCHEDULER_THREAD_RUNNING"
    using k by (simp_all add: running_def)
  note K = run_inv_current [OF inv cur]
  have g: "g_scheduler s" and pool: "pool_ok (sc_threads s) (sc_runnable_queue s)" using inv by (simp_all add: run_inv_def)
  define x where "x = (sc_threads s ! k)\<lparr> th_state := GXOS_SCHEDULER_THREAD_RUNNABLE \<rparr>"
  have x: "th_live x" "th_state x = GXOS_SCHEDULER_THREAD_RUNNABLE" "\<not> th_runnable_queued x" using K by (simp_all add: x_def)
  have ts: "ts = (sc_threads s)[k := x\<lparr> th_runnable_queued := True \<rparr>]" by (simp add: ts_def x_def)
  define s1 where "s1 = s\<lparr> sc_threads := ts, sc_runnable_queue := sc_runnable_queue s @ [k] \<rparr>"
  have enq: "enqueue_runnable k (upd_thread k (\<lambda>x. x\<lparr> th_state := GXOS_SCHEDULER_THREAD_RUNNABLE \<rparr>) s) = (True, s1)"
    using enqueue_ready [OF pool K(1,3), of "upd_thread k (\<lambda>x. x\<lparr> th_state := GXOS_SCHEDULER_THREAD_RUNNABLE \<rparr>) s" x] x g
    by (simp add: upd_thread_def x_def s1_def ts)
  have pool1: "pool_ok ts (sc_runnable_queue s @ [k])"
    unfolding ts using x by (intro pool_enq [OF pool K(1,3)]) (simp_all add: thread_ok_def)
  have none: "none_running ts" using K(4) x pool_okD(1) [OF pool] by (auto simp: none_running_def ts nth_list_update_cases)
  have "ready (ts ! k)" using x K(1) pool_okD(1) [OF pool] by (simp add: ts ready_def)
  then obtain n where n: "pick_next_runnable s1 k = Some n"
    using pick_next_ready [of s1 k k] K(1) by (auto simp: s1_def)
  note N = pick_next_Some [OF n K(1)]
  have ch: "choose_next n s1 = (\<lparr> sp_old_context = k, sp_new_context = th_saved_context (ts ! n) \<rparr>,
      s1\<lparr> sc_threads := ts[n := (ts ! n)\<lparr> th_runnable_queued := False, th_state := GXOS_SCHEDULER_THREAD_RUNNING \<rparr>],
          sc_runnable_queue := remove1 n (sc_runnable_queue s @ [k]), sc_current := Some n \<rparr>)"
    using choose_ready [of s1 n k] pool1 N g cur by (simp add: s1_def)
  have y: "gxos_scheduler_prepare_yield s =
      (Some \<lparr> sp_old_context = k, sp_new_context = th_saved_context (ts ! n) \<rparr>,
       s\<lparr> sc_threads := ts[n := (ts ! n)\<lparr> th_runnable_queued := False, th_state := GXOS_SCHEDULER_THREAD_RUNNING \<rparr>],
          sc_runnable_queue := remove1 n (sc_runnable_queue s @ [k]), sc_current := Some n,
          sc_pending_plan := Some \<lparr> sp_old_context = k, sp_new_context = th_saved_context (ts ! n) \<rparr> \<rparr>)"
    by (simp add: gxos_scheduler_prepare_yield_def g cur st enq n ch) (simp add: s1_def)
  have len: "length ts = 6" using pool_okD(1) [OF pool1] .
  have "run_inv (yield_state s) \<and> running (yield_state s) n"
    using dispatch_ok [OF pool1 none, of n] N g len by (simp add: yield_state_def y run_inv_def running_def s1_def)
  with y N show ?thesis by (intro exI [of _ n]) (simp add: s1_def)
qed

text \<open>A queued thread stays queued, one place nearer, until it is chosen.\<close>

lemma yield_progress:
  assumes inv: "run_inv s" and k: "running s k" and t: "t < 6" "ready (sc_threads s ! t)"
  shows "running (yield_state s) t \<or> (\<exists>n. run_inv (yield_state s) \<and> running (yield_state s) n \<and>
    ready (sc_threads (yield_state s) ! t) \<and> ring_distance n t < ring_distance k t)"
proof -
  define ts where "ts = (sc_threads s)[k := (sc_threads s ! k)
      \<lparr> th_state := GXOS_SCHEDULER_THREAD_RUNNABLE, th_runnable_queued := True \<rparr>]"
  have cur: "sc_current s = Some k" using k by (simp add: running_def)
  note K = run_inv_current [OF inv cur]
  have tk: "t \<noteq> k" using t(2) k by (auto simp: ready_def running_def)
  from yield_spec [OF inv k, folded ts_def] obtain n where n: "n < 6"
    and least: "\<forall>u < 6. ready (ts ! u) \<longrightarrow> ring_distance k n \<le> ring_distance k u"
    and op: "sc_threads (yield_state s) = ts[n := (ts ! n)\<lparr> th_runnable_queued := False, th_state := GXOS_SCHEDULER_THREAD_RUNNING \<rparr>]"
    and inv': "run_inv (yield_state s)" "running (yield_state s) n"
    by (auto simp: yield_state_def)
  show ?thesis
  proof (cases "n = t")
    case True
    with inv' show ?thesis by simp
  next
    case False
    have "ready (ts ! t)" using t tk by (simp add: ts_def)
    then have "ring_distance k n \<le> ring_distance k t" using least t(1) by blast
    moreover have "ring_distance k n \<noteq> ring_distance k t" using ring_distance_inj [OF K(1) n t(1)] False by blast
    ultimately have "ring_distance n t = ring_distance k t - ring_distance k n" "0 < ring_distance k n"
      using ring_distance_step [OF K(1) t(1) n] ring_distance_bounds [OF K(1) n] by auto
    moreover have "0 < ring_distance k t" using ring_distance_bounds [OF K(1) t(1)] by simp
    ultimately have "ring_distance n t < ring_distance k t" by simp
    moreover have "ready (sc_threads (yield_state s) ! t)" using op False \<open>ready (ts ! t)\<close> by simp
    ultimately show ?thesis using inv' by blast
  qed
qed

text \<open>The thread that runs next is the nearest ready one; the thread that yields runs on when no other is ready.\<close>

lemma yield_nearest:
  assumes inv: "run_inv s" and k: "running s k"
  shows "\<exists>n < 6. running (yield_state s) n \<and>
    (if \<exists>t < 6. ready (sc_threads s ! t)
     then ready (sc_threads s ! n) \<and> (\<forall>t < 6. ready (sc_threads s ! t) \<longrightarrow> ring_distance k n \<le> ring_distance k t)
     else n = k)"
proof -
  define ts where "ts = (sc_threads s)[k := (sc_threads s ! k)
      \<lparr> th_state := GXOS_SCHEDULER_THREAD_RUNNABLE, th_runnable_queued := True \<rparr>]"
  from yield_spec [OF inv k, folded ts_def] obtain n where n: "n < 6" "ready (ts ! n)" "running (yield_state s) n"
    and least: "\<forall>t < 6. ready (ts ! t) \<longrightarrow> ring_distance k n \<le> ring_distance k t" by blast
  have k6: "k < 6" using run_inv_current(1) [OF inv] k by (simp add: running_def)
  have not_k: "\<not> ready (sc_threads s ! k)" using k by (simp add: ready_def running_def)
  have other: "ts ! t = sc_threads s ! t" if "t \<noteq> k" for t using that by (simp add: ts_def)
  have near: "\<forall>t < 6. ready (sc_threads s ! t) \<longrightarrow> ring_distance k n \<le> ring_distance k t"
    using least other not_k by metis
  have "n \<noteq> k" if "t < 6" "ready (sc_threads s ! t)" for t
  proof
    assume "n = k"
    with near that have "6 \<le> ring_distance k t" by (auto simp: ring_distance_def)
    moreover have "t \<noteq> k" using not_k that(2) by blast
    ultimately show False using that(1) k6 by (auto simp: ring_distance_def split: if_splits)
  qed
  with n near other show ?thesis by metis
qed

text \<open>A ready thread runs after at most as many yields as it is slots away.\<close>

lemma yield_reaches:
  "run_inv s \<Longrightarrow> running s k \<Longrightarrow> t < 6 \<Longrightarrow> ready (sc_threads s ! t) \<Longrightarrow>
     \<exists>n. 1 \<le> n \<and> n \<le> ring_distance k t \<and> running ((yield_state ^^ n) s) t"
proof (induction "ring_distance k t" arbitrary: s k rule: less_induct)
  case less
  from yield_progress [OF less.prems] show ?case
  proof (elim disjE exE conjE)
    assume "running (yield_state s) t"
    moreover have "1 \<le> ring_distance k t"
      using ring_distance_bounds [OF run_inv_current(1) [OF less.prems(1)] less.prems(3)] less.prems(2)
      by (simp add: running_def)
    ultimately show ?thesis by (intro exI [of _ 1]) simp
  next
    fix n assume n: "run_inv (yield_state s)" "running (yield_state s) n" "ready (sc_threads (yield_state s) ! t)"
      "ring_distance n t < ring_distance k t"
    from less.hyps [OF n(4,1,2) less.prems(3) n(3)] obtain m where
      "1 \<le> m" "m \<le> ring_distance n t" "running ((yield_state ^^ m) (yield_state s)) t" by blast
    with n(4) show ?thesis by (intro exI [of _ "Suc m"]) (simp add: funpow_Suc_right del: funpow.simps)
  qed
qed

text \<open>
  C14. Yielding never fails and is fair. When the running thread \<open>k\<close> of a consistent scheduler
  yields, a switch plan always comes back, the state stays consistent and some thread runs next:
  of the threads that were ready, the nearest one after \<open>k\<close> round the ring of slots, and \<open>k\<close>
  itself when no thread was ready. Hence every thread that is ready runs after at most as many
  consecutive yields as it is slots away from \<open>k\<close>, so at most five: no ready thread starves.
\<close>

theorem scheduler_yield_fair:
  assumes "run_inv s" and "running s k"
  shows "fst (gxos_scheduler_prepare_yield s) \<noteq> None \<and> run_inv (yield_state s) \<and>
    (\<exists>n < 6. running (yield_state s) n \<and>
      (if \<exists>t < 6. ready (sc_threads s ! t)
       then ready (sc_threads s ! n) \<and> (\<forall>t < 6. ready (sc_threads s ! t) \<longrightarrow> ring_distance k n \<le> ring_distance k t)
       else n = k)) \<and>
    (\<forall>t < 6. ready (sc_threads s ! t) \<longrightarrow>
      (\<exists>n. 1 \<le> n \<and> n \<le> ring_distance k t \<and> n \<le> 5 \<and> running ((yield_state ^^ n) s) t))"
proof -
  have "ring_distance k t \<le> 5" if "t < 6" "ready (sc_threads s ! t)" for t
  proof -
    have "t \<noteq> k" using assms(2) that(2) by (auto simp: ready_def running_def)
    moreover have "k < 6" using run_inv_current(1) [OF assms(1)] assms(2) by (simp add: running_def)
    ultimately show ?thesis using that(1) by (auto simp: ring_distance_def)
  qed
  then have "\<forall>t < 6. ready (sc_threads s ! t) \<longrightarrow>
      (\<exists>n. 1 \<le> n \<and> n \<le> ring_distance k t \<and> n \<le> 5 \<and> running ((yield_state ^^ n) s) t)"
    using yield_reaches [OF assms] by (meson le_trans)
  moreover have "fst (gxos_scheduler_prepare_yield s) \<noteq> None \<and> run_inv (yield_state s)"
    using yield_spec [OF assms] by auto
  ultimately show ?thesis using yield_nearest [OF assms] by blast
qed

text \<open>A boot thread that runs and a worker that is ready.\<close>

definition two_threads :: "nat sched" where
  "two_threads = empty_sched\<lparr> g_scheduler := True, sc_active := True, sc_current := Some 0, sc_boot_thread := Some 0,
     sc_runnable_queue := [1],
     sc_threads := zero_tcb\<lparr> th_live := True, th_is_boot_thread := True, th_state := GXOS_SCHEDULER_THREAD_RUNNING \<rparr> #
       zero_tcb\<lparr> th_live := True, th_state := GXOS_SCHEDULER_THREAD_RUNNABLE, th_runnable_queued := True \<rparr> #
       replicate 4 zero_tcb \<rparr>"

lemma two_threads_inv: "run_inv two_threads" "running two_threads 0" "ready (sc_threads two_threads ! 1)"
proof -
  have lt: "t < 6 \<longleftrightarrow> t = 0 \<or> t = 1 \<or> t = 2 \<or> t = 3 \<or> t = 4 \<or> t = (5 :: nat)" for t by auto
  have "replicate 4 zero_tcb = [zero_tcb, zero_tcb, zero_tcb, zero_tcb]" by (simp add: eval_nat_numeral)
  note two = two_threads_def this
  show "run_inv two_threads"
    by (auto simp: two run_inv_def pool_ok_def current_ok_def thread_ok_def lt)
  show "running two_threads 0" "ready (sc_threads two_threads ! 1)"
    by (simp_all add: two running_def ready_def)
qed

theorem scheduler_yield_fair_witness:
  "(\<exists>n < 6. running (yield_state two_threads) n \<and> ready (sc_threads two_threads ! n)) \<and>
   (\<exists>n. 1 \<le> n \<and> n \<le> 5 \<and> running ((yield_state ^^ n) two_threads) 1)"
proof -
  have "\<exists>t < 6. ready (sc_threads two_threads ! t)" using two_threads_inv(3) by (intro exI [of _ 1]) simp
  note this [THEN if_P]
  from scheduler_yield_fair [OF two_threads_inv(1,2), unfolded this] two_threads_inv(3)
  have "\<exists>n < 6. running (yield_state two_threads) n \<and> ready (sc_threads two_threads ! n)"
    and "\<forall>t < 6. ready (sc_threads two_threads ! t) \<longrightarrow>
      (\<exists>n. 1 \<le> n \<and> n \<le> ring_distance 0 t \<and> n \<le> 5 \<and> running ((yield_state ^^ n) two_threads) t)" by blast+
  moreover from this(2) [rule_format, of 1] two_threads_inv(3)
  have "\<exists>n. 1 \<le> n \<and> n \<le> 5 \<and> running ((yield_state ^^ n) two_threads) 1" by auto
  ultimately show ?thesis by blast
qed

end
