(* ===== verification/Scheduler_Wait_Lists.thy ===== *)
theory Scheduler_Wait_Lists
  imports Scheduler_Run
begin

text \<open>
  Wait records: the invariant that ties blocked threads, wait records and the waiter lists of
  the events together, and what completing, entering and finishing a wait do to it. The
  statements are about the arrays of the scheduler; the operations follow in the next theory.
\<close>

subsection \<open>The invariant\<close>

text \<open>Position \<open>k\<close> of the list of event \<open>e\<close> holds a valid record that points back to it.\<close>

definition waiters_ok :: "GXOS_SCHEDULER_WAIT_RECORD list \<Rightarrow> nat \<Rightarrow> nat list \<Rightarrow> bool" where
  "waiters_ok rs e ws \<longleftrightarrow> (\<forall>k < length ws. ws ! k < 6 \<and> wr_valid (rs ! (ws ! k)) \<and> wr_waiter_linked (rs ! (ws ! k)) \<and>
     wr_waitable (rs ! (ws ! k)) = Some (Waitable_Event e) \<and> unat (wr_waiter_index (rs ! (ws ! k))) = k)"

definition outcome_ok :: "GXOS_SCHEDULER_WAIT_RESULT \<Rightarrow> u32 \<Rightarrow> bool" where
  "outcome_ok result completion \<longleftrightarrow>
     result = GXOS_SCHEDULER_WAIT_SIGNALED \<and> completion = GXOS_WAIT_OBJECT_0 \<or>
     result = GXOS_SCHEDULER_WAIT_TIMED_OUT \<and> completion = GXOS_WAIT_TIMEOUT"

text \<open>The thread side and the event side of a valid record.\<close>

definition record_thread_ok :: "nat \<Rightarrow> GXOS_SCHEDULER_WAIT_RECORD \<Rightarrow> GXOS_SCHEDULER_TCB \<Rightarrow> bool" where
  "record_thread_ok r x th \<longleftrightarrow> th_live th \<and> th_wait_record th = Some r \<and>
     (if wr_completed x
      then th_state th \<in> {GXOS_SCHEDULER_THREAD_RUNNABLE, GXOS_SCHEDULER_THREAD_RUNNING} \<and>
        outcome_ok (th_blocked_result th) (wr_completion_result x)
      else th_state th = GXOS_SCHEDULER_THREAD_BLOCKED)"

definition record_event_ok :: "nat \<Rightarrow> GXOS_SCHEDULER_WAIT_RECORD \<Rightarrow> GXOS_SCHEDULER_WAITABLE \<Rightarrow> bool" where
  "record_event_ok r x ev \<longleftrightarrow> wt_live ev \<and>
     (if wr_completed x then \<not> wr_waiter_linked x
      else wr_waiter_linked x \<and> unat (wr_waiter_index x) < length (wt_waiters ev) \<and>
        wt_waiters ev ! unat (wr_waiter_index x) = r)"

definition record_ok ::
    "GXOS_SCHEDULER_TCB list \<Rightarrow> GXOS_SCHEDULER_WAITABLE list \<Rightarrow> nat \<Rightarrow> GXOS_SCHEDULER_WAIT_RECORD \<Rightarrow> bool" where
  "record_ok ts es r x \<longleftrightarrow> wr_active x \<and> wr_pin_held x \<and>
     (\<exists>t < 6. wr_thread x = Some t \<and> record_thread_ok r x (ts ! t)) \<and>
     (\<exists>e < 12. wr_waitable x = Some (Waitable_Event e) \<and> record_event_ok r x (es ! e))"

definition thread_wait_ok :: "GXOS_SCHEDULER_WAIT_RECORD list \<Rightarrow> nat \<Rightarrow> GXOS_SCHEDULER_TCB \<Rightarrow> bool" where
  "thread_wait_ok rs t th \<longleftrightarrow>
     (case th_wait_record th of
        None \<Rightarrow> th_state th \<noteq> GXOS_SCHEDULER_THREAD_BLOCKED
      | Some r \<Rightarrow> r < 6 \<and> wr_valid (rs ! r) \<and> wr_thread (rs ! r) = Some t)"

definition wait_ok ::
    "GXOS_SCHEDULER_TCB list \<Rightarrow> GXOS_SCHEDULER_WAIT_RECORD list \<Rightarrow> GXOS_SCHEDULER_WAITABLE list \<Rightarrow> u32 \<Rightarrow> bool" where
  "wait_ok ts rs es n \<longleftrightarrow> length ts = 6 \<and> length rs = 6 \<and> length es = 12 \<and>
     (\<forall>r < 6. if wr_valid (rs ! r) then record_ok ts es r (rs ! r) else rs ! r = zero_wait_record) \<and>
     (\<forall>e < 12. waiters_ok rs e (wt_waiters (es ! e))) \<and>
     (\<forall>t < 6. thread_wait_ok rs t (ts ! t)) \<and>
     unat n = live_sum wr_valid (\<lambda>_. 1) rs"

lemma wait_okD:
  assumes "wait_ok ts rs es n"
  shows "length ts = 6" "length rs = 6" "length es = 12"
    "r < 6 \<Longrightarrow> wr_valid (rs ! r) \<Longrightarrow> record_ok ts es r (rs ! r)"
    "r < 6 \<Longrightarrow> \<not> wr_valid (rs ! r) \<Longrightarrow> rs ! r = zero_wait_record"
    "e < 12 \<Longrightarrow> waiters_ok rs e (wt_waiters (es ! e))" "t < 6 \<Longrightarrow> thread_wait_ok rs t (ts ! t)"
    "unat n = live_sum wr_valid (\<lambda>_. 1) rs"
  using assms by (auto simp: wait_ok_def)

lemma zero_wait_record_sel [simp]:
  "\<not> wr_valid zero_wait_record" "\<not> wr_active zero_wait_record" "\<not> wr_pin_held zero_wait_record"
  "\<not> wr_waiter_linked zero_wait_record" "wr_object zero_wait_record = None" "wr_thread zero_wait_record = None"
  by (simp_all add: zero_wait_record_def)

lemma waiters_distinct:
  assumes "waiters_ok rs e ws" shows "distinct ws"
proof (unfold distinct_conv_nth, intro allI impI)
  fix i j assume "i < length ws" "j < length ws" "i \<noteq> j"
  moreover from this assms have "unat (wr_waiter_index (rs ! (ws ! i))) = i" "unat (wr_waiter_index (rs ! (ws ! j))) = j"
    by (simp_all add: waiters_ok_def)
  ultimately show "ws ! i \<noteq> ws ! j" by metis
qed

lemma waiters_frame: "waiters_ok rs e ws \<Longrightarrow> (\<And>q. q \<in> set ws \<Longrightarrow> rs' ! q = rs ! q) \<Longrightarrow> waiters_ok rs' e ws"
  by (simp add: waiters_ok_def)

lemma waiters_le: "waiters_ok rs e ws \<Longrightarrow> length ws \<le> 6"
proof -
  assume w: "waiters_ok rs e ws"
  then have "set ws \<subseteq> {0..<6}" by (auto simp: waiters_ok_def in_set_conv_nth)
  then have "card (set ws) \<le> 6" using card_mono [of "{0..<6 :: nat}" "set ws"] by simp
  with waiters_distinct [OF w] show ?thesis by (simp add: distinct_card)
qed

text \<open>Two valid records belong to different threads.\<close>

lemma record_thread_unique:
  assumes "wait_ok ts rs es n" and "r < 6" "wr_valid (rs ! r)" and "r' < 6" "wr_valid (rs ! r')"
    and "wr_thread (rs ! r) = wr_thread (rs ! r')"
  shows "r = r'"
  using wait_okD(4) [OF assms(1-3)] wait_okD(4) [OF assms(1,4,5)] assms(6)
  by (auto simp: record_ok_def record_thread_ok_def)

lemma waiter_record:
  assumes "wait_ok ts rs es n" and "e < 12" and "k < length (wt_waiters (es ! e))"
  defines "r \<equiv> wt_waiters (es ! e) ! k"
  shows "r < 6" "wr_valid (rs ! r)" "wr_waiter_linked (rs ! r)" "wr_waitable (rs ! r) = Some (Waitable_Event e)"
    "unat (wr_waiter_index (rs ! r)) = k" "\<not> wr_completed (rs ! r)" "wr_active (rs ! r)"
    "\<exists>t < 6. wr_thread (rs ! r) = Some t \<and> th_live (ts ! t) \<and> th_wait_record (ts ! t) = Some r \<and>
       th_state (ts ! t) = GXOS_SCHEDULER_THREAD_BLOCKED"
proof -
  show A: "r < 6" "wr_valid (rs ! r)" "wr_waiter_linked (rs ! r)" "wr_waitable (rs ! r) = Some (Waitable_Event e)"
    "unat (wr_waiter_index (rs ! r)) = k"
    using wait_okD(6) [OF assms(1,2)] assms(3) by (simp_all add: waiters_ok_def r_def)
  have R: "record_ok ts es r (rs ! r)" using wait_okD(4) [OF assms(1) A(1,2)] .
  then show "\<not> wr_completed (rs ! r)" using A(3) by (auto simp: record_ok_def record_event_ok_def)
  with R show "wr_active (rs ! r)" "\<exists>t < 6. wr_thread (rs ! r) = Some t \<and> th_live (ts ! t) \<and>
      th_wait_record (ts ! t) = Some r \<and> th_state (ts ! t) = GXOS_SCHEDULER_THREAD_BLOCKED"
    by (auto simp: record_ok_def record_thread_ok_def)
qed

subsection \<open>Updates that leave the wait structure alone\<close>

text \<open>A thread may change in every way that respects the record it waits with.\<close>

lemma wait_upd_thread:
  assumes w: "wait_ok ts rs es n" and t: "t < 6" and same: "th_wait_record x = th_wait_record (ts ! t)"
    and free: "th_wait_record x = None \<Longrightarrow> th_state x \<noteq> GXOS_SCHEDULER_THREAD_BLOCKED"
    and held: "\<And>r. th_wait_record x = Some r \<Longrightarrow> record_thread_ok r (rs ! r) (ts ! t) \<Longrightarrow> record_thread_ok r (rs ! r) x"
  shows "wait_ok (ts[t := x]) rs es n"
proof -
  have "record_ok (ts[t := x]) es r (rs ! r)" if "r < 6" "wr_valid (rs ! r)" for r
  proof -
    have R: "record_ok ts es r (rs ! r)" using wait_okD(4) [OF w that] .
    then obtain u where u: "u < 6" "wr_thread (rs ! r) = Some u" "record_thread_ok r (rs ! r) (ts ! u)"
      by (auto simp: record_ok_def)
    have "record_thread_ok r (rs ! r) ((ts[t := x]) ! u)"
    proof (cases "u = t")
      case True
      with u same have "th_wait_record x = Some r" by (simp add: record_thread_ok_def)
      from held [OF this] True u wait_okD(1) [OF w] show ?thesis by simp
    qed (use u in simp)
    with R u show ?thesis by (auto simp: record_ok_def)
  qed
  moreover have "thread_wait_ok rs u ((ts[t := x]) ! u)" if "u < 6" for u
    using wait_okD(7) [OF w that] wait_okD(1) [OF w] same free that
    by (cases "u = t") (auto simp: thread_wait_ok_def split: option.splits)
  ultimately show ?thesis using w by (auto simp: wait_ok_def)
qed

text \<open>An event may change in every way that keeps its waiters, and its life while it has records.\<close>

lemma wait_upd_event:
  assumes w: "wait_ok ts rs es n" and same: "wt_waiters x = wt_waiters (es ! e)"
    and live: "wt_live x \<or> (\<forall>r < 6. wr_valid (rs ! r) \<longrightarrow> wr_waitable (rs ! r) \<noteq> Some (Waitable_Event e))"
  shows "wait_ok ts rs (es[e := x]) n"
proof -
  have "record_ok ts (es[e := x]) r (rs ! r)" if "r < 6" "wr_valid (rs ! r)" for r
  proof -
    have R: "record_ok ts es r (rs ! r)" using wait_okD(4) [OF w that] .
    then obtain f where f: "f < 12" "wr_waitable (rs ! r) = Some (Waitable_Event f)" "record_event_ok r (rs ! r) (es ! f)"
      by (auto simp: record_ok_def)
    have "record_event_ok r (rs ! r) ((es[e := x]) ! f)"
    proof (cases "f = e")
      case True
      then have "wt_live x" using live f that by blast
      with True f same wait_okD(3) [OF w] show ?thesis by (simp add: record_event_ok_def)
    qed (use f in simp)
    with R f show ?thesis by (auto simp: record_ok_def)
  qed
  moreover have "waiters_ok rs f (wt_waiters ((es[e := x]) ! f))" if "f < 12" for f
    using wait_okD(6) [OF w that] wait_okD(3) [OF w] same that by (cases "f = e") auto
  ultimately show ?thesis using w by (auto simp: wait_ok_def)
qed

subsection \<open>Taking a waiter off its list\<close>

definition drop_waiter :: "nat list \<Rightarrow> nat \<Rightarrow> nat list" where
  "drop_waiter ws k = butlast (ws[k := ws ! (length ws - 1)])"

lemma drop_waiter_nth:
  assumes "k < length ws"
  shows "length (drop_waiter ws k) = length ws - 1"
    "j < length ws - 1 \<Longrightarrow> drop_waiter ws k ! j = (if j = k then ws ! (length ws - 1) else ws ! j)"
  using assms by (auto simp: drop_waiter_def nth_butlast nth_list_update_cases)

lemma drop_waiter_set:
  assumes "distinct ws" and "k < length ws"
  shows "set (drop_waiter ws k) = set ws - {ws ! k}" "distinct (drop_waiter ws k)"
proof -
  define d where "d = drop_waiter ws k"
  note N = drop_waiter_nth [OF assms(2), folded d_def]
  have inj: "ws ! i = ws ! j \<longleftrightarrow> i = j" if "i < length ws" "j < length ws" for i j
    using assms(1) that by (simp add: nth_eq_iff_index_eq)
  have sub: "set d \<subseteq> set ws - {ws ! k}"
  proof
    fix q assume "q \<in> set d"
    then obtain j where j: "j < length ws - 1" "d ! j = q" using N(1) by (auto simp: in_set_conv_nth)
    moreover define i where "i = (if j = k then length ws - 1 else j)"
    ultimately have "i < length ws" "q = ws ! i" "i \<noteq> k" using N(2) [OF j(1)] by (auto split: if_splits)
    then show "q \<in> set ws - {ws ! k}" using inj [of i k] assms(2) by simp
  qed
  show dist: "distinct (drop_waiter ws k)" unfolding d_def [symmetric] distinct_conv_nth
  proof (intro allI impI)
    fix i j assume "i < length d" "j < length d" "i \<noteq> j"
    moreover have "length ws - 1 < length ws" using assms(2) by simp
    ultimately show "d ! i \<noteq> d ! j"
      using N inj [of "length ws - 1" i] inj [of "length ws - 1" j] inj [of i j] by (auto split: if_splits)
  qed
  have "card (set ws - {ws ! k}) = card (set d)"
    using dist assms N(1) by (simp add: distinct_card flip: d_def)
  then show "set (drop_waiter ws k) = set ws - {ws ! k}"
    unfolding d_def [symmetric] using sub card_subset_eq [of "set ws - {ws ! k}" "set d"] by simp
qed

text \<open>
  The records after \<open>complete_waiter\<close>: the last waiter has moved to position \<open>k\<close>, the record \<open>r\<close>
  that was there is unlinked and completed.
\<close>

definition completed_records ::
    "GXOS_SCHEDULER_WAIT_RECORD list \<Rightarrow> nat list \<Rightarrow> nat \<Rightarrow> u32 \<Rightarrow> GXOS_SCHEDULER_WAIT_RECORD list" where
  "completed_records rs ws k c =
     (let m = ws ! (length ws - 1); r = ws ! k; rs = rs[m := (rs ! m)\<lparr> wr_waiter_index := of_nat k \<rparr>]
      in rs[r := (rs ! r)\<lparr> wr_waiter_linked := False, wr_waiter_index := UINT32_MAX, wr_completed := True,
           wr_completion_result := c \<rparr>])"

lemma completed_records_nth:
  assumes "length rs = 6" and "q < 6"
  shows "completed_records rs ws k c ! q =
    (if q = ws ! k then (rs ! q)\<lparr> wr_waiter_linked := False, wr_waiter_index := UINT32_MAX, wr_completed := True,
           wr_completion_result := c \<rparr>
     else if q = ws ! (length ws - 1) then (rs ! q)\<lparr> wr_waiter_index := of_nat k \<rparr> else rs ! q)"
  using assms by (auto simp: completed_records_def Let_def nth_list_update_cases)

lemma completed_records_valid [simp]:
  "length (completed_records rs ws k c) = length rs"
  by (simp add: completed_records_def Let_def)

lemma wait_complete:
  assumes w: "wait_ok ts rs es n" and e: "e < 12" and k: "k < length (wt_waiters (es ! e))"
    and t: "wr_thread (rs ! (wt_waiters (es ! e) ! k)) = Some t" and out: "outcome_ok res c"
    and x: "th_live x" "th_wait_record x = th_wait_record (ts ! t)" "th_state x = GXOS_SCHEDULER_THREAD_RUNNABLE"
      "th_blocked_result x = res"
    and ev: "wt_waiters y = drop_waiter (wt_waiters (es ! e)) k" "wt_live y"
  shows "wait_ok (ts[t := x]) (completed_records rs (wt_waiters (es ! e)) k c) (es[e := y]) n"
proof -
  define ws r m where "ws = wt_waiters (es ! e)" and "r = ws ! k" and "m = ws ! (length ws - 1)"
  define rs' where "rs' = completed_records rs ws k c"
  note R = waiter_record [OF w e k, folded ws_def, folded r_def]
  have kws: "k < length ws" using k by (simp add: ws_def)
  have nth: "rs' ! q = (if q = r then (rs ! q)\<lparr> wr_waiter_linked := False, wr_waiter_index := UINT32_MAX,
      wr_completed := True, wr_completion_result := c \<rparr>
     else if q = m then (rs ! q)\<lparr> wr_waiter_index := of_nat k \<rparr> else rs ! q)" if "q < 6" for q
    using completed_records_nth [OF wait_okD(2) [OF w] that] by (simp add: rs'_def r_def m_def)
  have valid: "wr_valid (rs' ! q) = wr_valid (rs ! q)" "wr_thread (rs' ! q) = wr_thread (rs ! q)" if "q < 6" for q
    using nth [OF that] by simp_all
  have dist: "distinct ws" using waiters_distinct [OF wait_okD(6) [OF w e]] by (simp add: ws_def)
  have inj: "ws ! i = ws ! j \<longleftrightarrow> i = j" if "i < length ws" "j < length ws" for i j
    using dist that by (simp add: nth_eq_iff_index_eq)
  have k6: "k < 6" using waiters_le [OF wait_okD(6) [OF w e]] k by simp
  have m: "m < 6" "wr_waitable (rs ! m) = Some (Waitable_Event e)" "wr_valid (rs ! m)"
    using waiter_record(1,4,2) [OF w e, of "length ws - 1"] kws by (simp_all add: ws_def m_def)
  have t6: "t < 6" and tR: "th_wait_record (ts ! t) = Some r" using R(8) t by (auto simp: ws_def r_def)
  have rec: "record_ok (ts[t := x]) (es[e := y]) q (rs' ! q)" if q: "q < 6" "wr_valid (rs ! q)" for q
  proof (cases "q = r")
    case True
    have "wr_thread (rs ! r) = Some t" using t by (simp add: r_def ws_def)
    then show ?thesis using True R e t6 tR x out ev(2) wait_okD(1,3) [OF w] wait_okD(4) [OF w q]
      by (auto simp: record_ok_def record_thread_ok_def record_event_ok_def nth)
  next
    case False
    have old: "record_ok ts es q (rs ! q)" using wait_okD(4) [OF w q] .
    then obtain u f where u: "u < 6" "wr_thread (rs ! q) = Some u" "record_thread_ok q (rs ! q) (ts ! u)"
      and f: "f < 12" "wr_waitable (rs ! q) = Some (Waitable_Event f)" "record_event_ok q (rs ! q) (es ! f)"
      and act: "wr_active (rs ! q)" "wr_pin_held (rs ! q)" by (auto simp: record_ok_def)
    have ut: "u \<noteq> t" using record_thread_unique [OF w q R(1,2)] False u(2) t by (auto simp: r_def ws_def)
    have "record_event_ok q (rs' ! q) ((es[e := y]) ! f)"
    proof (cases "f = e \<and> \<not> wr_completed (rs ! q)")
      case True
      define j where "j = unat (wr_waiter_index (rs ! q))"
      have j: "j < length ws" "ws ! j = q" using f(3) True by (auto simp: record_event_ok_def j_def ws_def)
      have "j \<noteq> k" using j False by (auto simp: r_def)
      show ?thesis
      proof (cases "j = length ws - 1")
        case True
        then have qm: "q = m" using j by (simp add: m_def)
        have "k < length ws - 1" using \<open>j \<noteq> k\<close> True kws by linarith
        moreover have "unat (of_nat k :: u32) = k" using k6 by (simp add: unat_of_nat)
        moreover have "wr_waiter_linked (rs ! m)" using f(3) qm \<open>f = e \<and> _\<close> by (auto simp: record_event_ok_def)
        ultimately show ?thesis
          using drop_waiter_nth [OF kws] ev False qm \<open>f = e \<and> _\<close> e wait_okD(3) [OF w] nth [OF q(1)]
          by (simp add: record_event_ok_def ws_def m_def)
      next
        case False
        then have "q \<noteq> m" "j < length ws - 1" using inj [of j "length ws - 1"] j kws by (auto simp: m_def)
        then show ?thesis
          using drop_waiter_nth [OF kws] ev \<open>q \<noteq> r\<close> \<open>j \<noteq> k\<close> j f(3) \<open>f = e \<and> _\<close> e wait_okD(3) [OF w] nth [OF q(1)]
          by (simp add: record_event_ok_def ws_def j_def)
      qed
    next
      case F: False
      have "q \<noteq> m \<or> wr_completed (rs ! q)" using F f(2) m(2) by auto
      with F f(3) ev(2) False nth [OF q(1)] wait_okD(3) [OF w] e show ?thesis
        by (cases "f = e") (auto simp: record_event_ok_def)
    qed
    moreover have "record_thread_ok q (rs' ! q) ((ts[t := x]) ! u)"
      using u(3) ut False nth [OF q(1)] by (auto simp: record_thread_ok_def)
    ultimately show ?thesis using u f act False nth [OF q(1)] by (auto simp: record_ok_def)
  qed
  have lists: "waiters_ok rs' f (wt_waiters ((es[e := y]) ! f))" if f: "f < 12" for f
  proof (cases "f = e")
    case True
    have "drop_waiter ws k ! j < 6 \<and> wr_valid (rs' ! (drop_waiter ws k ! j)) \<and> wr_waiter_linked (rs' ! (drop_waiter ws k ! j)) \<and>
        wr_waitable (rs' ! (drop_waiter ws k ! j)) = Some (Waitable_Event e) \<and>
        unat (wr_waiter_index (rs' ! (drop_waiter ws k ! j))) = j" if j: "j < length ws - 1" for j
    proof -
      define i where "i = (if j = k then length ws - 1 else j)"
      have i: "i < length ws" "drop_waiter ws k ! j = ws ! i" using j kws drop_waiter_nth(2) [OF kws j] by (auto simp: i_def)
      note Q = waiter_record [OF w e, of i, folded ws_def, OF i(1)]
      have "ws ! i \<noteq> r" using inj [OF i(1) kws] j by (auto simp: r_def i_def)
      moreover have "ws ! i = m \<longleftrightarrow> j = k" using inj [of i "length ws - 1"] i j by (auto simp: m_def i_def)
      ultimately show ?thesis using Q nth [OF Q(1)] k6 i by (auto simp: unat_of_nat i_def)
    qed
    then show ?thesis using True ev(1) e wait_okD(3) [OF w] drop_waiter_nth(1) [OF kws]
      by (simp add: waiters_ok_def flip: ws_def)
  next
    case False
    have "rs' ! q = rs ! q" if "q \<in> set (wt_waiters (es ! f))" for q
    proof -
      from that obtain j where "j < length (wt_waiters (es ! f))" "wt_waiters (es ! f) ! j = q" by (auto simp: in_set_conv_nth)
      with waiter_record(1,4) [OF w f, of j] False R(4) m(2) show ?thesis by (auto simp: nth)
    qed
    with wait_okD(6) [OF w f] False show ?thesis by (simp add: waiters_frame)
  qed
  have thr: "thread_wait_ok rs' u ((ts[t := x]) ! u)" if "u < 6" for u
  proof (cases "u = t")
    case True
    then show ?thesis using wait_okD(7) [OF w that] x tR wait_okD(1) [OF w] that valid
      by (auto simp: thread_wait_ok_def split: option.splits)
  next
    case False
    then show ?thesis using wait_okD(7) [OF w that] valid by (auto simp: thread_wait_ok_def split: option.splits)
  qed
  have inv0: "rs' ! q = zero_wait_record" if "q < 6" "\<not> wr_valid (rs ! q)" for q
  proof -
    have "q \<noteq> r" "q \<noteq> m" using R(2) m(3) that(2) by metis+
    with nth [OF that(1)] wait_okD(5) [OF w that] show ?thesis by simp
  qed
  have "live_sum wr_valid (\<lambda>_. 1) rs' = live_sum wr_valid (\<lambda>_. 1) rs"
    using valid(1) wait_okD(2) [OF w] by (intro live_sum_cong) (simp_all add: rs'_def)
  then show ?thesis
    unfolding ws_def [symmetric] rs'_def [symmetric]
    using rec lists thr inv0 valid wait_okD(1,2,3,8) [OF w] by (simp add: wait_ok_def rs'_def)
qed

subsection \<open>Entering and finishing a wait\<close>

lemma valid_room:
  assumes "wait_ok ts rs es n" and "r < 6" and "\<not> wr_valid (rs ! r)"
  shows "unat n < 6"
  using live_count_lt [of "rs ! r" rs wr_valid] wait_okD(2,8) [OF assms(1)] assms(2,3) by simp

lemma wait_enter:
  assumes w: "wait_ok ts rs es n" and e: "e < 12" and r: "r < 6" "\<not> wr_valid (rs ! r)"
    and k: "k < 6" "th_wait_record (ts ! k) = None"
    and z: "wr_valid z" "wr_active z" "wr_pin_held z" "wr_thread z = Some k" "wr_waitable z = Some (Waitable_Event e)"
      "wr_waiter_linked z" "wr_waiter_index z = of_nat (length (wt_waiters (es ! e)))" "\<not> wr_completed z"
    and x: "th_live x" "th_wait_record x = Some r" "th_state x = GXOS_SCHEDULER_THREAD_BLOCKED"
    and y: "wt_live y" "wt_waiters y = wt_waiters (es ! e) @ [r]"
  shows "wait_ok (ts[k := x]) (rs[r := z]) (es[e := y]) (n + 1)"
proof -
  note len = wait_okD(1,2,3) [OF w]
  have idx: "unat (wr_waiter_index z) = length (wt_waiters (es ! e))"
    using z(7) waiters_le [OF wait_okD(6) [OF w e]] by (simp add: unat_of_nat)
  have rec: "record_ok (ts[k := x]) (es[e := y]) q (rs ! q)" if q: "q < 6" "wr_valid (rs ! q)" for q
  proof -
    obtain u f where u: "u < 6" "wr_thread (rs ! q) = Some u" "record_thread_ok q (rs ! q) (ts ! u)"
      and f: "f < 12" "wr_waitable (rs ! q) = Some (Waitable_Event f)" "record_event_ok q (rs ! q) (es ! f)"
      and act: "wr_active (rs ! q)" "wr_pin_held (rs ! q)" using wait_okD(4) [OF w q] by (auto simp: record_ok_def)
    have "u \<noteq> k" using u(3) k(2) by (auto simp: record_thread_ok_def)
    moreover have "record_event_ok q (rs ! q) ((es[e := y]) ! f)"
      using f y e len by (cases "f = e") (auto simp: record_event_ok_def nth_append)
    ultimately show ?thesis using u f act by (auto simp: record_ok_def)
  qed
  have new: "record_ok (ts[k := x]) (es[e := y]) r z"
    using z x y k(1) e len idx by (auto simp: record_ok_def record_thread_ok_def record_event_ok_def)
  have lists: "waiters_ok (rs[r := z]) f (wt_waiters ((es[e := y]) ! f))" if f: "f < 12" for f
  proof -
    have "q \<noteq> r" if "q \<in> set (wt_waiters (es ! f))" for q
      using wait_okD(6) [OF w f] that r by (auto simp: waiters_ok_def in_set_conv_nth)
    then have old: "waiters_ok (rs[r := z]) f (wt_waiters (es ! f))"
      by (intro waiters_frame [OF wait_okD(6) [OF w f]]) (metis nth_list_update_neq)
    show ?thesis
    proof (cases "f = e")
      case True
      then show ?thesis using old y len e r z idx by (auto simp: waiters_ok_def nth_append less_Suc_eq)
    qed (use old in simp)
  qed
  have thr: "thread_wait_ok (rs[r := z]) u ((ts[k := x]) ! u)" if "u < 6" for u
  proof (cases "u = k")
    case True
    then show ?thesis using x z r k len by (simp add: thread_wait_ok_def)
  next
    case False
    then show ?thesis using wait_okD(7) [OF w that] r by (auto simp: thread_wait_ok_def nth_list_update_if split: option.splits)
  qed
  have "live_sum wr_valid (\<lambda>_. 1) (rs[r := z]) = live_sum wr_valid (\<lambda>_. 1) rs + 1"
    using live_sum_insert [of r rs wr_valid z "\<lambda>_. 1"] r z(1) len by simp
  moreover have "unat (n + 1) = unat n + 1" using valid_room [OF w r] by (simp add: unat_Suc32)
  ultimately have "unat (n + 1) = live_sum wr_valid (\<lambda>_. 1) (rs[r := z])" using wait_okD(8) [OF w] by simp
  then show ?thesis using rec new lists thr len r wait_okD(5) [OF w] z(1)
    by (auto simp: wait_ok_def nth_list_update_cases)
qed

lemma wait_finish:
  assumes w: "wait_ok ts rs es n" and r: "r < 6" "wr_valid (rs ! r)" "wr_completed (rs ! r)" "wr_thread (rs ! r) = Some t"
    and x: "th_wait_record x = None" "th_state x \<noteq> GXOS_SCHEDULER_THREAD_BLOCKED"
  shows "wait_ok (ts[t := x]) (rs[r := zero_wait_record]) es (n - 1)" "n \<noteq> 0"
proof -
  note len = wait_okD(1,2,3) [OF w]
  have t6: "t < 6" using wait_okD(4) [OF w r(1,2)] r(4) by (auto simp: record_ok_def)
  have rec: "record_ok (ts[t := x]) es q (rs ! q)" if q: "q < 6" "wr_valid (rs ! q)" "q \<noteq> r" for q
  proof -
    obtain u where u: "u < 6" "wr_thread (rs ! q) = Some u" "record_thread_ok q (rs ! q) (ts ! u)"
      using wait_okD(4) [OF w q(1,2)] by (auto simp: record_ok_def)
    have "u \<noteq> t" using record_thread_unique [OF w q(1,2) r(1,2)] q(3) u(2) r(4) by auto
    then show ?thesis using wait_okD(4) [OF w q(1,2)] u by (auto simp: record_ok_def)
  qed
  have lists: "waiters_ok (rs[r := zero_wait_record]) f (wt_waiters (es ! f))" if f: "f < 12" for f
  proof -
    have "q \<noteq> r" if "q \<in> set (wt_waiters (es ! f))" for q
      using waiter_record(6) [OF w f] that r(3) by (auto simp: in_set_conv_nth)
    then show ?thesis by (intro waiters_frame [OF wait_okD(6) [OF w f]]) (metis nth_list_update_neq)
  qed
  have thr: "thread_wait_ok (rs[r := zero_wait_record]) u ((ts[t := x]) ! u)" if u: "u < 6" for u
  proof (cases "u = t")
    case True
    then show ?thesis using x t6 len by (simp add: thread_wait_ok_def)
  next
    case False
    have "th_wait_record (ts ! u) \<noteq> Some r" using wait_okD(7) [OF w u] False r(4) by (auto simp: thread_wait_ok_def)
    then show ?thesis using wait_okD(7) [OF w u] False
      by (auto simp: thread_wait_ok_def nth_list_update_if split: option.splits)
  qed
  have "live_sum wr_valid (\<lambda>_. 1) (rs[r := zero_wait_record]) + 1 = live_sum wr_valid (\<lambda>_. 1) rs"
    using live_sum_delete [of r rs wr_valid zero_wait_record "\<lambda>_. 1"] live_sum_ge [of r rs wr_valid "\<lambda>_. 1"] r len by simp
  then have n: "unat n = live_sum wr_valid (\<lambda>_. 1) (rs[r := zero_wait_record]) + 1" using wait_okD(8) [OF w] by simp
  then show "n \<noteq> 0" by auto
  then have "unat (n - 1) = unat n - 1" by (rule unat_pred)
  then show "wait_ok (ts[t := x]) (rs[r := zero_wait_record]) es (n - 1)"
    using rec lists thr len wait_okD(5) [OF w] n by (auto simp: wait_ok_def nth_list_update_cases)
qed

end
