(* ===== verification/Scheduler_Object_Table.thy ===== *)
theory Scheduler_Object_Table
  imports Scheduler_Wait_Lists
begin

text \<open>
  The object table and what it names: every live thread, event, notification and stream owns
  exactly one live object of its type and generation, and the internal references of an event
  count its wait records. Then the invariant of the whole scheduler.
\<close>

subsection \<open>The invariant\<close>

definition pins :: "GXOS_SCHEDULER_WAIT_RECORD list \<Rightarrow> nat \<Rightarrow> nat" where
  "pins rs i = live_sum (\<lambda>x. wr_valid x \<and> wr_object x = Some i) (\<lambda>_. 1) rs"

definition owned :: "GXOS_SCHEDULER_OBJECT list \<Rightarrow> nat \<Rightarrow> object_target \<Rightarrow> bool" where
  "owned obs i tg \<longleftrightarrow> i < 16 \<and> ob_live (obs ! i) \<and> ob_target (obs ! i) = tg"

definition thread_object_ok :: "nat \<Rightarrow> GXOS_SCHEDULER_OBJECT \<Rightarrow> GXOS_SCHEDULER_TCB \<Rightarrow> bool" where
  "thread_object_ok i ob x \<longleftrightarrow> ob_type ob = GXOS_SCHEDULER_OBJECT_THREAD \<and> th_live x \<and> th_object_slot x = i \<and>
     th_generation x = ob_generation ob \<and> th_public_handle_refs x = ob_public_handle_refs ob \<and> ob_internal_refs ob = 1"

definition event_object_ok :: "nat \<Rightarrow> nat \<Rightarrow> GXOS_SCHEDULER_OBJECT \<Rightarrow> GXOS_SCHEDULER_WAITABLE \<Rightarrow> bool" where
  "event_object_ok p i ob x \<longleftrightarrow> ob_type ob = GXOS_SCHEDULER_OBJECT_EVENT \<and> wt_live x \<and> wt_object_slot x = i \<and>
     wt_generation x = ob_generation ob \<and> unat (ob_internal_refs ob) = 1 + p"

definition notification_object_ok ::
    "nat \<Rightarrow> GXOS_SCHEDULER_OBJECT \<Rightarrow> GXOS_SCHEDULER_MEMORY_RESOURCE_NOTIFICATION \<Rightarrow> bool" where
  "notification_object_ok i ob x \<longleftrightarrow> ob_type ob = GXOS_SCHEDULER_OBJECT_MEMORY_RESOURCE_NOTIFICATION \<and> mn_live x \<and>
     mn_object_slot x = i \<and> mn_generation x = ob_generation ob \<and> wt_waiters (mn_waitable x) = [] \<and>
     ob_public_handle_refs ob \<noteq> 0"

definition stream_object_ok :: "nat \<Rightarrow> GXOS_SCHEDULER_OBJECT \<Rightarrow> GXOS_SCHEDULER_STANDARD_STREAM \<Rightarrow> bool" where
  "stream_object_ok i ob x \<longleftrightarrow> ob_type ob = GXOS_SCHEDULER_OBJECT_STANDARD_STREAM \<and> st_live x \<and>
     st_object_slot x = i \<and> st_generation x = ob_generation ob \<and> ob_public_handle_refs ob \<noteq> 0"

definition target_ok ::
    "GXOS_SCHEDULER_TCB list \<Rightarrow> GXOS_SCHEDULER_WAITABLE list \<Rightarrow> GXOS_SCHEDULER_MEMORY_RESOURCE_NOTIFICATION list \<Rightarrow>
     GXOS_SCHEDULER_STANDARD_STREAM \<Rightarrow> GXOS_SCHEDULER_WAIT_RECORD list \<Rightarrow> nat \<Rightarrow> GXOS_SCHEDULER_OBJECT \<Rightarrow> bool" where
  "target_ok ts es ns st rs i ob =
     (case ob_target ob of
        Target_Null \<Rightarrow> False
      | Target_Thread t \<Rightarrow> t < 6 \<and> thread_object_ok i ob (ts ! t)
      | Target_Event e \<Rightarrow> e < 12 \<and> event_object_ok (pins rs i) i ob (es ! e)
      | Target_Notification n \<Rightarrow> n < 1 \<and> notification_object_ok i ob (ns ! n)
      | Target_Stream \<Rightarrow> stream_object_ok i ob st)"

definition record_object_ok :: "GXOS_SCHEDULER_OBJECT list \<Rightarrow> GXOS_SCHEDULER_WAIT_RECORD \<Rightarrow> bool" where
  "record_object_ok obs x \<longleftrightarrow> (\<exists>i e. wr_object x = Some i \<and> wr_waitable x = Some (Waitable_Event e) \<and>
     owned obs i (Target_Event e) \<and> wr_object_slot x = i \<and> wr_object_generation x = ob_generation (obs ! i))"

definition objects_ok ::
    "GXOS_SCHEDULER_OBJECT list \<Rightarrow> GXOS_SCHEDULER_TCB list \<Rightarrow> GXOS_SCHEDULER_WAITABLE list \<Rightarrow>
     GXOS_SCHEDULER_MEMORY_RESOURCE_NOTIFICATION list \<Rightarrow> GXOS_SCHEDULER_STANDARD_STREAM \<Rightarrow>
     GXOS_SCHEDULER_WAIT_RECORD list \<Rightarrow> bool" where
  "objects_ok obs ts es ns st rs \<longleftrightarrow> length obs = 16 \<and> length ts = 6 \<and> length es = 12 \<and> length ns = 1 \<and> length rs = 6 \<and>
     (\<forall>i < 16. ob_live (obs ! i) \<longrightarrow> ob_slot (obs ! i) = i \<and> ob_generation (obs ! i) \<noteq> 0 \<and> target_ok ts es ns st rs i (obs ! i)) \<and>
     (\<forall>t < 6. th_live (ts ! t) \<longrightarrow> owned obs (th_object_slot (ts ! t)) (Target_Thread t)) \<and>
     (\<forall>e < 12. wt_live (es ! e) \<longrightarrow> owned obs (wt_object_slot (es ! e)) (Target_Event e)) \<and>
     (\<forall>n < 1. mn_live (ns ! n) \<longrightarrow> owned obs (mn_object_slot (ns ! n)) (Target_Notification n)) \<and>
     (st_live st \<longrightarrow> owned obs (st_object_slot st) Target_Stream) \<and>
     (\<forall>r < 6. wr_valid (rs ! r) \<longrightarrow> record_object_ok obs (rs ! r))"

lemma objects_okD:
  assumes "objects_ok obs ts es ns st rs"
  shows "length obs = 16" "length ts = 6" "length es = 12" "length ns = 1" "length rs = 6"
    "i < 16 \<Longrightarrow> ob_live (obs ! i) \<Longrightarrow> ob_slot (obs ! i) = i"
    "i < 16 \<Longrightarrow> ob_live (obs ! i) \<Longrightarrow> ob_generation (obs ! i) \<noteq> 0"
    "i < 16 \<Longrightarrow> ob_live (obs ! i) \<Longrightarrow> target_ok ts es ns st rs i (obs ! i)"
    "t < 6 \<Longrightarrow> th_live (ts ! t) \<Longrightarrow> owned obs (th_object_slot (ts ! t)) (Target_Thread t)"
    "e < 12 \<Longrightarrow> wt_live (es ! e) \<Longrightarrow> owned obs (wt_object_slot (es ! e)) (Target_Event e)"
    "n < 1 \<Longrightarrow> mn_live (ns ! n) \<Longrightarrow> owned obs (mn_object_slot (ns ! n)) (Target_Notification n)"
    "st_live st \<Longrightarrow> owned obs (st_object_slot st) Target_Stream"
    "r < 6 \<Longrightarrow> wr_valid (rs ! r) \<Longrightarrow> record_object_ok obs (rs ! r)"
  using assms by (auto simp: objects_ok_def)

lemma owned_thread:
  "objects_ok obs ts es ns st rs \<Longrightarrow> owned obs i (Target_Thread t) \<Longrightarrow> t < 6 \<and> thread_object_ok i (obs ! i) (ts ! t)"
  using objects_okD(8) [of obs ts es ns st rs i] by (auto simp: owned_def target_ok_def)

lemma owned_event:
  "objects_ok obs ts es ns st rs \<Longrightarrow> owned obs i (Target_Event e) \<Longrightarrow> e < 12 \<and> event_object_ok (pins rs i) i (obs ! i) (es ! e)"
  using objects_okD(8) [of obs ts es ns st rs i] by (auto simp: owned_def target_ok_def)

text \<open>An object that a handle finds has a target of the type that the handle names.\<close>

lemma typed_target:
  assumes "objects_ok obs ts es ns st rs" and "i < 16" and "ob_live (obs ! i)"
  shows "ob_type (obs ! i) = 1 \<Longrightarrow> \<exists>t. owned obs i (Target_Thread t)"
    and "ob_type (obs ! i) = 2 \<Longrightarrow> \<exists>e. owned obs i (Target_Event e)"
    and "ob_type (obs ! i) = 3 \<Longrightarrow> \<exists>n. owned obs i (Target_Notification n)"
    and "ob_type (obs ! i) = 4 \<Longrightarrow> owned obs i Target_Stream"
  using objects_okD(8) [OF assms] assms(2,3)
  by (auto simp: owned_def target_ok_def thread_object_ok_def event_object_ok_def notification_object_ok_def
      stream_object_ok_def split: object_target.splits)

subsection \<open>Updates that keep the table\<close>

lemma objects_upd_thread:
  assumes o: "objects_ok obs ts es ns st rs"
    and same: "th_live x = th_live (ts ! t)" "th_object_slot x = th_object_slot (ts ! t)" "th_generation x = th_generation (ts ! t)"
      "th_public_handle_refs x = th_public_handle_refs (ts ! t)"
  shows "objects_ok obs (ts[t := x]) es ns st rs"
proof -
  have "thread_object_ok i (obs ! i) ((ts[t := x]) ! u) = thread_object_ok i (obs ! i) (ts ! u)" for i u
    using same by (auto simp: thread_object_ok_def nth_list_update_if)
  then have "target_ok (ts[t := x]) es ns st rs i (obs ! i) = target_ok ts es ns st rs i (obs ! i)" for i
    by (simp add: target_ok_def split: object_target.splits)
  moreover have "owned obs (th_object_slot ((ts[t := x]) ! u)) (Target_Thread u)" if "u < 6" "th_live ((ts[t := x]) ! u)" for u
    using objects_okD(9) [OF o that(1)] that(2) same by (auto simp: nth_list_update_if split: if_splits)
  ultimately show ?thesis using o by (auto simp: objects_ok_def)
qed

lemma objects_upd_event:
  assumes o: "objects_ok obs ts es ns st rs"
    and same: "wt_live x = wt_live (es ! e)" "wt_object_slot x = wt_object_slot (es ! e)" "wt_generation x = wt_generation (es ! e)"
  shows "objects_ok obs ts (es[e := x]) ns st rs"
proof -
  have "event_object_ok p i (obs ! i) ((es[e := x]) ! f) = event_object_ok p i (obs ! i) (es ! f)" for p i f
    using same by (auto simp: event_object_ok_def nth_list_update_if)
  then have "target_ok ts (es[e := x]) ns st rs i (obs ! i) = target_ok ts es ns st rs i (obs ! i)" for i
    by (simp add: target_ok_def split: object_target.splits)
  moreover have "owned obs (wt_object_slot ((es[e := x]) ! f)) (Target_Event f)" if "f < 12" "wt_live ((es[e := x]) ! f)" for f
    using objects_okD(10) [OF o that(1)] that(2) same by (auto simp: nth_list_update_if split: if_splits)
  ultimately show ?thesis using o by (auto simp: objects_ok_def)
qed

lemma objects_upd_notification:
  assumes o: "objects_ok obs ts es ns st rs"
    and same: "mn_live x = mn_live (ns ! n)" "mn_object_slot x = mn_object_slot (ns ! n)" "mn_generation x = mn_generation (ns ! n)"
      "wt_waiters (mn_waitable x) = wt_waiters (mn_waitable (ns ! n))"
  shows "objects_ok obs ts es (ns[n := x]) st rs"
proof -
  have "notification_object_ok i (obs ! i) ((ns[n := x]) ! m) = notification_object_ok i (obs ! i) (ns ! m)" for i m
    using same by (auto simp: notification_object_ok_def nth_list_update_if)
  then have "target_ok ts es (ns[n := x]) st rs i (obs ! i) = target_ok ts es ns st rs i (obs ! i)" for i
    by (simp add: target_ok_def split: object_target.splits)
  then show ?thesis using o same by (auto simp: objects_ok_def nth_list_update_if)
qed

lemma objects_upd_records:
  assumes o: "objects_ok obs ts es ns st rs" and l: "length rs' = 6"
    and same: "\<And>q. q < 6 \<Longrightarrow> wr_valid (rs' ! q) = wr_valid (rs ! q) \<and> wr_object (rs' ! q) = wr_object (rs ! q) \<and>
      wr_waitable (rs' ! q) = wr_waitable (rs ! q) \<and> wr_object_slot (rs' ! q) = wr_object_slot (rs ! q) \<and>
      wr_object_generation (rs' ! q) = wr_object_generation (rs ! q)"
  shows "objects_ok obs ts es ns st rs'"
proof -
  have "pins rs' i = pins rs i" for i
    unfolding pins_def using same l objects_okD(5) [OF o] by (intro live_sum_cong) auto
  then have "target_ok ts es ns st rs' i ob = target_ok ts es ns st rs i ob" for i ob
    by (simp add: target_ok_def split: object_target.splits)
  moreover have "record_object_ok obs (rs' ! q)" if "q < 6" "wr_valid (rs' ! q)" for q
    using objects_okD(13) [OF o, of q] that same [of q] by (simp add: record_object_ok_def)
  ultimately show ?thesis using o l by (auto simp: objects_ok_def)
qed

subsection \<open>Pinning and unpinning\<close>

lemma pins_update:
  "r < length rs \<Longrightarrow> pins (rs[r := z]) i + (if wr_valid (rs ! r) \<and> wr_object (rs ! r) = Some i then 1 else 0) =
     pins rs i + (if wr_valid z \<and> wr_object z = Some i then 1 else 0)"
  unfolding pins_def using live_sum_update [of r rs "\<lambda>x. wr_valid x \<and> wr_object x = Some i" "\<lambda>_. 1" z] by simp

lemma pins_le: "length rs = 6 \<Longrightarrow> pins rs i \<le> 6"
  unfolding pins_def using live_sum_length [of "\<lambda>x. wr_valid x \<and> wr_object x = Some i" rs] by simp

lemma objects_pin:
  assumes o: "objects_ok obs ts es ns st rs" and r: "r < 6" "\<not> wr_valid (rs ! r)"
    and i: "owned obs i (Target_Event e)"
    and z: "wr_valid z" "wr_object z = Some i" "wr_waitable z = Some (Waitable_Event e)" "wr_object_slot z = i"
      "wr_object_generation z = ob_generation (obs ! i)"
  shows "objects_ok (obs[i := (obs ! i)\<lparr> ob_internal_refs := ob_internal_refs (obs ! i) + 1 \<rparr>]) ts es ns st (rs[r := z])"
    (is "objects_ok ?obs _ _ _ _ ?rs")
proof -
  note len = objects_okD(1-5) [OF o]
  have i16: "i < 16" "ob_live (obs ! i)" "ob_target (obs ! i) = Target_Event e" using i by (auto simp: owned_def)
  have ev: "event_object_ok (pins rs i) i (obs ! i) (es ! e)" "e < 12" using owned_event [OF o i] by auto
  have pin: "pins ?rs j = (if j = i then pins rs i + 1 else pins rs j)" for j
    using pins_update [of r rs z j] r z len by auto
  have "unat (ob_internal_refs (obs ! i) + 1) = unat (ob_internal_refs (obs ! i)) + 1"
    using ev(1) pins_le [OF len(5), of i] by (simp add: event_object_ok_def unat_Suc32)
  then have new: "event_object_ok (pins ?rs i) i (?obs ! i) (es ! e)"
    using ev(1) i16 len by (simp add: event_object_ok_def pin)
  have ow: "owned ?obs j tg = owned obs j tg" for j tg
    using i16 len by (cases "j = i") (auto simp: owned_def)
  have "target_ok ts es ns st ?rs j (?obs ! j)" if "j < 16" "ob_live (?obs ! j)" for j
  proof (cases "j = i")
    case True
    then show ?thesis using new i16 len ev(2) by (simp add: target_ok_def)
  next
    case False
    then show ?thesis using objects_okD(8) [OF o, of j] that pin [of j] by (simp add: target_ok_def split: object_target.splits)
  qed
  moreover have "record_object_ok ?obs (?rs ! q)" if q: "q < 6" "wr_valid (?rs ! q)" for q
  proof (cases "q = r")
    case True
    then show ?thesis using z i ow len r i16 by (auto simp: record_object_ok_def)
  next
    case False
    then have "record_object_ok obs (rs ! q)" using objects_okD(13) [OF o, of q] q by simp
    then show ?thesis using False ow len i16 by (auto simp: record_object_ok_def nth_list_update_if)
  qed
  ultimately show ?thesis using o i16
    by (auto simp: objects_ok_def ow nth_list_update_if)
qed

lemma objects_unpin:
  assumes o: "objects_ok obs ts es ns st rs" and r: "r < 6" "wr_valid (rs ! r)" "wr_object (rs ! r) = Some i"
  shows "objects_ok (obs[i := (obs ! i)\<lparr> ob_internal_refs := ob_internal_refs (obs ! i) - 1 \<rparr>]) ts es ns st (rs[r := zero_wait_record])"
    (is "objects_ok ?obs _ _ _ _ ?rs") and "ob_internal_refs (obs ! i) \<noteq> 0"
proof -
  note len = objects_okD(1-5) [OF o]
  obtain e where i: "owned obs i (Target_Event e)" using objects_okD(13) [OF o r(1,2)] r(3) by (auto simp: record_object_ok_def)
  have i16: "i < 16" "ob_live (obs ! i)" "ob_target (obs ! i) = Target_Event e" using i by (auto simp: owned_def)
  have ev: "event_object_ok (pins rs i) i (obs ! i) (es ! e)" "e < 12" using owned_event [OF o i] by auto
  then show nz: "ob_internal_refs (obs ! i) \<noteq> 0" by (auto simp: event_object_ok_def)
  have pin: "pins rs j = (if j = i then pins ?rs i + 1 else pins ?rs j)" for j
    using pins_update [of r rs zero_wait_record j] r len by auto
  have "unat (ob_internal_refs (obs ! i) - 1) = unat (ob_internal_refs (obs ! i)) - 1" using nz by (rule unat_pred)
  then have new: "event_object_ok (pins ?rs i) i (?obs ! i) (es ! e)"
    using ev(1) i16 len pin [of i] by (simp add: event_object_ok_def)
  have ow: "owned ?obs j tg = owned obs j tg" for j tg
    using i16 len by (cases "j = i") (auto simp: owned_def)
  have "target_ok ts es ns st ?rs j (?obs ! j)" if "j < 16" "ob_live (?obs ! j)" for j
  proof (cases "j = i")
    case True
    then show ?thesis using new i16 len ev(2) by (simp add: target_ok_def)
  next
    case False
    then show ?thesis using objects_okD(8) [OF o, of j] that pin [of j] by (simp add: target_ok_def split: object_target.splits)
  qed
  moreover have "record_object_ok ?obs (?rs ! q)" if q: "q < 6" "wr_valid (?rs ! q)" for q
  proof -
    have "q \<noteq> r" using q r len by auto
    then have "record_object_ok obs (rs ! q)" using objects_okD(13) [OF o, of q] q by simp
    then show ?thesis using \<open>q \<noteq> r\<close> ow len i16 by (auto simp: record_object_ok_def nth_list_update_if)
  qed
  ultimately show "objects_ok ?obs ts es ns st ?rs" using o i16
    by (auto simp: objects_ok_def ow nth_list_update_if)
qed

subsection \<open>Creating and destroying\<close>

definition target_live ::
    "object_target \<Rightarrow> GXOS_SCHEDULER_TCB list \<Rightarrow> GXOS_SCHEDULER_WAITABLE list \<Rightarrow>
     GXOS_SCHEDULER_MEMORY_RESOURCE_NOTIFICATION list \<Rightarrow> GXOS_SCHEDULER_STANDARD_STREAM \<Rightarrow> bool" where
  "target_live tg ts es ns st = (case tg of Target_Null \<Rightarrow> False | Target_Thread t \<Rightarrow> t < 6 \<and> th_live (ts ! t)
     | Target_Event e \<Rightarrow> e < 12 \<and> wt_live (es ! e) | Target_Notification n \<Rightarrow> n < 1 \<and> mn_live (ns ! n) | Target_Stream \<Rightarrow> st_live st)"

text \<open>The arrays differ at most at the target.\<close>

definition same_but ::
    "object_target \<Rightarrow> GXOS_SCHEDULER_TCB list \<Rightarrow> GXOS_SCHEDULER_WAITABLE list \<Rightarrow>
     GXOS_SCHEDULER_MEMORY_RESOURCE_NOTIFICATION list \<Rightarrow> GXOS_SCHEDULER_STANDARD_STREAM \<Rightarrow>
     GXOS_SCHEDULER_TCB list \<Rightarrow> GXOS_SCHEDULER_WAITABLE list \<Rightarrow>
     GXOS_SCHEDULER_MEMORY_RESOURCE_NOTIFICATION list \<Rightarrow> GXOS_SCHEDULER_STANDARD_STREAM \<Rightarrow> bool" where
  "same_but tg ts es ns st ts' es' ns' st' \<longleftrightarrow>
     length ts' = length ts \<and> length es' = length es \<and> length ns' = length ns \<and>
     (\<forall>t. tg \<noteq> Target_Thread t \<longrightarrow> ts' ! t = ts ! t) \<and> (\<forall>e. tg \<noteq> Target_Event e \<longrightarrow> es' ! e = es ! e) \<and>
     (\<forall>n. tg \<noteq> Target_Notification n \<longrightarrow> ns' ! n = ns ! n) \<and> (tg \<noteq> Target_Stream \<longrightarrow> st' = st)"

lemma same_but_upd [simp]:
  "same_but (Target_Thread t) ts es ns st (ts[t := x]) es ns st"
  "same_but (Target_Event e) ts es ns st ts (es[e := y]) ns st"
  "same_but (Target_Notification n) ts es ns st ts es (ns[n := z]) st"
  "same_but Target_Stream ts es ns st ts es ns st'"
  by (auto simp: same_but_def nth_list_update_if)

lemma target_ok_live: "target_ok ts es ns st rs i ob \<Longrightarrow> target_live (ob_target ob) ts es ns st"
  by (auto simp: target_ok_def target_live_def thread_object_ok_def event_object_ok_def notification_object_ok_def
      stream_object_ok_def split: object_target.splits)

lemma target_ok_same:
  "same_but tg ts es ns st ts' es' ns' st' \<Longrightarrow> ob_target ob \<noteq> tg \<Longrightarrow> target_ok ts es ns st rs i ob \<Longrightarrow> target_ok ts' es' ns' st' rs i ob"
  by (auto simp: target_ok_def same_but_def split: object_target.splits)

lemma unpinned_dead:
  assumes o: "objects_ok obs ts es ns st rs" and i: "\<not> ob_live (obs ! i)"
  shows "pins rs i = 0"
  unfolding pins_def
proof (rule live_sum_none)
  fix x assume "x \<in> set rs"
  then obtain r where "r < 6" "x = rs ! r" using objects_okD(5) [OF o] by (auto simp: in_set_conv_nth)
  with objects_okD(13) [OF o, of r] i show "\<not> (wr_valid x \<and> wr_object x = Some i)" by (auto simp: record_object_ok_def owned_def)
qed

lemma objects_add:
  assumes o: "objects_ok obs ts es ns st rs" and i: "i < 16" "\<not> ob_live (obs ! i)"
    and ob: "ob_live ob" "ob_slot ob = i" "ob_generation ob \<noteq> 0" "target_ok ts' es' ns' st' rs i ob"
    and fresh: "\<not> target_live (ob_target ob) ts es ns st" and same: "same_but (ob_target ob) ts es ns st ts' es' ns' st'"
  shows "objects_ok (obs[i := ob]) ts' es' ns' st' rs"
proof -
  note len = objects_okD(1-5) [OF o]
  have ow: "owned (obs[i := ob]) j tg" if "owned obs j tg" for j tg
    using that i by (auto simp: owned_def nth_list_update_if)
  have here: "owned (obs[i := ob]) i (ob_target ob)" using i ob len by (simp add: owned_def)
  have slot: "tg = ob_target ob \<Longrightarrow> owned (obs[i := ob]) i tg" for tg using here by simp
  have 1: "target_ok ts' es' ns' st' rs j (obs[i := ob] ! j)" if j: "j < 16" "ob_live (obs[i := ob] ! j)" for j
  proof (cases "j = i")
    case True
    then show ?thesis using ob len i by simp
  next
    case False
    then have t: "target_ok ts es ns st rs j (obs ! j)" using objects_okD(8) [OF o, of j] j by simp
    then have "ob_target (obs ! j) \<noteq> ob_target ob" using target_ok_live fresh by metis
    with target_ok_same [OF same _ t] False show ?thesis by simp
  qed
  have 2: "owned (obs[i := ob]) (th_object_slot (ts' ! t)) (Target_Thread t)" if "t < 6" "th_live (ts' ! t)" for t
  proof (cases "ob_target ob = Target_Thread t")
    case True
    then show ?thesis using ob(4) here by (auto simp: target_ok_def thread_object_ok_def)
  next
    case False
    then have "ts' ! t = ts ! t" using same by (simp add: same_but_def)
    then show ?thesis using objects_okD(9) [OF o that(1)] that(2) ow by simp
  qed
  have 3: "owned (obs[i := ob]) (wt_object_slot (es' ! e)) (Target_Event e)" if "e < 12" "wt_live (es' ! e)" for e
  proof (cases "ob_target ob = Target_Event e")
    case True
    then show ?thesis using ob(4) here by (auto simp: target_ok_def event_object_ok_def)
  next
    case False
    then have "es' ! e = es ! e" using same by (simp add: same_but_def)
    then show ?thesis using objects_okD(10) [OF o that(1)] that(2) ow by simp
  qed
  have 4: "owned (obs[i := ob]) (mn_object_slot (ns' ! n)) (Target_Notification n)" if "n < 1" "mn_live (ns' ! n)" for n
  proof (cases "ob_target ob = Target_Notification n")
    case True
    then show ?thesis using ob(4) here by (auto simp: target_ok_def notification_object_ok_def)
  next
    case False
    then have "ns' ! n = ns ! n" using same by (simp add: same_but_def)
    then show ?thesis using objects_okD(11) [OF o that(1)] that(2) ow by simp
  qed
  have 5: "owned (obs[i := ob]) (st_object_slot st') Target_Stream" if "st_live st'"
  proof (cases "ob_target ob = Target_Stream")
    case True
    then show ?thesis using ob(4) here by (auto simp: target_ok_def stream_object_ok_def)
  next
    case False
    then show ?thesis using objects_okD(12) [OF o] that ow same by (simp add: same_but_def)
  qed
  have 6: "record_object_ok (obs[i := ob]) (rs ! r)" if "r < 6" "wr_valid (rs ! r)" for r
    using objects_okD(13) [OF o that] ow i by (auto simp: record_object_ok_def owned_def nth_list_update_if)
  have 7: "ob_slot (obs[i := ob] ! j) = j \<and> ob_generation (obs[i := ob] ! j) \<noteq> 0" if "j < 16" "ob_live (obs[i := ob] ! j)" for j
    using objects_okD(6,7) [OF o, of j] that ob len by (cases "j = i") auto
  have "length ts' = 6" "length es' = 12" "length ns' = 1" using same len by (simp_all add: same_but_def)
  with 1 2 3 4 5 6 7 len show ?thesis by (simp add: objects_ok_def)
qed

lemma objects_remove:
  assumes o: "objects_ok obs ts es ns st rs" and i: "owned obs i tg" and p: "pins rs i = 0"
    and ob: "\<not> ob_live ob"
    and dead: "\<not> target_live tg ts' es' ns' st'" and same: "same_but tg ts es ns st ts' es' ns' st'"
  shows "objects_ok (obs[i := ob]) ts' es' ns' st' rs"
proof -
  note len = objects_okD(1-5) [OF o]
  have i16: "i < 16" "ob_live (obs ! i)" "ob_target (obs ! i) = tg" using i by (auto simp: owned_def)
  have ow: "owned (obs[i := ob]) j tg'" if "owned obs j tg'" "tg' \<noteq> tg" for j tg'
    using that i16 by (auto simp: owned_def nth_list_update_if)
  have 1: "target_ok ts' es' ns' st' rs j (obs[i := ob] ! j)" if j: "j < 16" "ob_live (obs[i := ob] ! j)" for j
  proof -
    have ji: "j \<noteq> i" using j ob len by auto
    then have t: "target_ok ts es ns st rs j (obs ! j)" using objects_okD(8) [OF o, of j] j by simp
    have "ob_target (obs ! j) \<noteq> tg"
    proof
      assume tg: "ob_target (obs ! j) = tg"
      have "target_ok ts es ns st rs i (obs ! i)" using objects_okD(8) [OF o i16(1,2)] .
      then have "i = j" using t tg i16(3)
        by (auto simp: target_ok_def thread_object_ok_def event_object_ok_def notification_object_ok_def
            stream_object_ok_def split: object_target.splits)
      with ji show False by simp
    qed
    with target_ok_same [OF same _ t] ji show ?thesis by simp
  qed
  have 2: "owned (obs[i := ob]) (th_object_slot (ts' ! t)) (Target_Thread t)" if "t < 6" "th_live (ts' ! t)" for t
  proof -
    have "tg \<noteq> Target_Thread t" using dead that by (auto simp: target_live_def)
    then show ?thesis using objects_okD(9) [OF o that(1)] that(2) ow same by (simp add: same_but_def)
  qed
  have 3: "owned (obs[i := ob]) (wt_object_slot (es' ! e)) (Target_Event e)" if "e < 12" "wt_live (es' ! e)" for e
  proof -
    have "tg \<noteq> Target_Event e" using dead that by (auto simp: target_live_def)
    then show ?thesis using objects_okD(10) [OF o that(1)] that(2) ow same by (simp add: same_but_def)
  qed
  have 4: "owned (obs[i := ob]) (mn_object_slot (ns' ! n)) (Target_Notification n)" if "n < 1" "mn_live (ns' ! n)" for n
  proof -
    have "tg \<noteq> Target_Notification n" using dead that by (auto simp: target_live_def)
    then show ?thesis using objects_okD(11) [OF o that(1)] that(2) ow same by (simp add: same_but_def)
  qed
  have 5: "owned (obs[i := ob]) (st_object_slot st') Target_Stream" if "st_live st'"
  proof -
    have "tg \<noteq> Target_Stream" using dead that by (auto simp: target_live_def)
    then show ?thesis using objects_okD(12) [OF o] that ow same by (simp add: same_but_def)
  qed
  have 6: "record_object_ok (obs[i := ob]) (rs ! r)" if r: "r < 6" "wr_valid (rs ! r)" for r
  proof -
    obtain j where j: "wr_object (rs ! r) = Some j" using objects_okD(13) [OF o r] by (auto simp: record_object_ok_def)
    have "j \<noteq> i"
    proof
      assume "j = i"
      then have "1 \<le> pins rs i" unfolding pins_def using r j len
        by (intro order_trans [OF _ live_sum_ge [of r rs "\<lambda>x. wr_valid x \<and> wr_object x = Some i" "\<lambda>_. 1"]]) auto
      with p show False by simp
    qed
    then show ?thesis using objects_okD(13) [OF o r] j by (auto simp: record_object_ok_def owned_def)
  qed
  have 7: "ob_slot (obs[i := ob] ! j) = j \<and> ob_generation (obs[i := ob] ! j) \<noteq> 0" if "j < 16" "ob_live (obs[i := ob] ! j)" for j
    using objects_okD(6,7) [OF o, of j] that ob len by (cases "j = i") auto
  have "length ts' = 6" "length es' = 12" "length ns' = 1" using same len by (simp_all add: same_but_def)
  with 1 2 3 4 5 6 7 len show ?thesis by (simp add: objects_ok_def)
qed

subsection \<open>The scheduler\<close>

definition boot_ok :: "GXOS_SCHEDULER_TCB list \<Rightarrow> bool" where
  "boot_ok ts \<longleftrightarrow> th_live (ts ! 0) \<and> (\<forall>t < 6. th_is_boot_thread (ts ! t) \<longleftrightarrow> t = 0) \<and>
     th_state (ts ! 0) \<in> {GXOS_SCHEDULER_THREAD_RUNNABLE, GXOS_SCHEDULER_THREAD_RUNNING, GXOS_SCHEDULER_THREAD_BLOCKED}"

definition sched_inv :: "'w sched \<Rightarrow> bool" where
  "sched_inv s \<longleftrightarrow> g_scheduler s \<and> sc_active s \<and> sc_boot_thread s = Some 0 \<and> boot_ok (sc_threads s) \<and>
     pool_ok (sc_threads s) (sc_runnable_queue s) \<and> current_ok (sc_threads s) (sc_current s) \<and>
     wait_ok (sc_threads s) (sc_wait_records s) (sc_events s) (sc_active_wait_count s) \<and>
     objects_ok (sc_objects s) (sc_threads s) (sc_events s) (sc_memory_resource_notifications s)
       (sc_standard_stream s) (sc_wait_records s)"

lemma sched_invD:
  assumes "sched_inv s"
  shows "g_scheduler s" "sc_active s" "sc_boot_thread s = Some 0" "boot_ok (sc_threads s)"
    "pool_ok (sc_threads s) (sc_runnable_queue s)" "current_ok (sc_threads s) (sc_current s)"
    "wait_ok (sc_threads s) (sc_wait_records s) (sc_events s) (sc_active_wait_count s)"
    "objects_ok (sc_objects s) (sc_threads s) (sc_events s) (sc_memory_resource_notifications s)
       (sc_standard_stream s) (sc_wait_records s)"
    "run_inv s"
  using assms by (auto simp: sched_inv_def run_inv_def)

lemma sched_current:
  assumes "sched_inv s"
  obtains k where "k < 6" "sc_current s = Some k" "th_live (sc_threads s ! k)"
    "th_state (sc_threads s ! k) \<in> {GXOS_SCHEDULER_THREAD_RUNNING, GXOS_SCHEDULER_THREAD_TERMINATED}"
    "\<not> th_runnable_queued (sc_threads s ! k)"
proof -
  from sched_invD(6) [OF assms] obtain k where k: "k < 6" "sc_current s = Some k" "th_live (sc_threads s ! k)"
    "th_state (sc_threads s ! k) \<in> {GXOS_SCHEDULER_THREAD_RUNNING, GXOS_SCHEDULER_THREAD_TERMINATED}"
    unfolding current_ok_def by blast
  moreover have "\<not> th_runnable_queued (sc_threads s ! k)" using run_inv_current(3) [OF sched_invD(9) [OF assms] k(2)] .
  ultimately show thesis using that by blast
qed

end
