(* ===== verification/Scheduler_Threads.thy ===== *)
theory Scheduler_Threads
  imports Scheduler_Object_Table
begin

text \<open>
  The invariant under the operations on threads: the environment of a thread, creation,
  resuming, reclaiming and closing, yielding and terminating.
\<close>

subsection \<open>What the invariant does not see\<close>

lemma sched_inv_frame [simp]:
  "sched_inv (s\<lparr> sy_memory := m \<rparr>) = sched_inv s" "sched_inv (s\<lparr> sy_world := w \<rparr>) = sched_inv s"
  "sched_inv (s\<lparr> sy_gs_base := a \<rparr>) = sched_inv s" "sched_inv (s\<lparr> sc_now_ms := f \<rparr>) = sched_inv s"
  "sched_inv (s\<lparr> sc_register_stack_vm := g, sc_unregister_stack_vm := h \<rparr>) = sched_inv s"
  "sched_inv (s\<lparr> sc_boot_stack_lower := a, sc_boot_stack_upper := b \<rparr>) = sched_inv s"
  "sched_inv (s\<lparr> sc_pending_wait_timeout_armed := p, sc_pending_wait_deadline_ms := a \<rparr>) = sched_inv s"
  "sched_inv (s\<lparr> sc_pending_plan := pl \<rparr>) = sched_inv s" "sched_inv (s\<lparr> sc_next_identity := v \<rparr>) = sched_inv s"
  "sched_inv (s\<lparr> sc_next_wait_generation := v \<rparr>) = sched_inv s"
  "sched_inv (s\<lparr> sc_standard_output_handle := a \<rparr>) = sched_inv s" "sched_inv (s\<lparr> sc_standard_error_handle := a \<rparr>) = sched_inv s"
  by (simp_all add: sched_inv_def)

text \<open>The fields of a thread that the invariant reads.\<close>

definition same_core :: "GXOS_SCHEDULER_TCB \<Rightarrow> GXOS_SCHEDULER_TCB \<Rightarrow> bool" where
  "same_core x y \<longleftrightarrow> th_live x = th_live y \<and> th_is_boot_thread x = th_is_boot_thread y \<and> th_state x = th_state y \<and>
     th_runnable_queued x = th_runnable_queued y \<and> th_wait_record x = th_wait_record y \<and>
     th_object_slot x = th_object_slot y \<and> th_generation x = th_generation y \<and>
     th_public_handle_refs x = th_public_handle_refs y \<and> th_blocked_result x = th_blocked_result y"

text \<open>A step on the environment of thread \<open>t\<close>: memory, services and its other fields.\<close>

definition env_step :: "nat \<Rightarrow> 'w sched \<Rightarrow> 'w sched \<Rightarrow> bool" where
  "env_step t s s' \<longleftrightarrow> (\<exists>x w m. same_core x (sc_threads s ! t) \<and>
     s' = s\<lparr> sc_threads := (sc_threads s)[t := x], sy_world := w, sy_memory := m \<rparr>)"

lemma same_core_refl [simp]: "same_core x x"
  by (simp add: same_core_def)

lemma same_core_trans: "same_core x y \<Longrightarrow> same_core y z \<Longrightarrow> same_core x z"
  by (simp add: same_core_def)

lemma env_step_refl [simp]: "env_step t s s"
  unfolding env_step_def
  by (intro exI [of _ "sc_threads s ! t"] exI [of _ "sy_world s"] exI [of _ "sy_memory s"]) simp

lemma env_step_trans: "env_step t s s' \<Longrightarrow> env_step t s' s'' \<Longrightarrow> env_step t s s''"
proof -
  assume "env_step t s s'" and "env_step t s' s''"
  then obtain x w m y w' m' where x: "same_core x (sc_threads s ! t)"
    and s': "s' = s\<lparr> sc_threads := (sc_threads s)[t := x], sy_world := w, sy_memory := m \<rparr>"
    and y: "same_core y (sc_threads s' ! t)"
    and s'': "s'' = s'\<lparr> sc_threads := (sc_threads s')[t := y], sy_world := w', sy_memory := m' \<rparr>"
    by (auto simp: env_step_def)
  have "same_core y (sc_threads s ! t)"
    using x y same_core_trans by (cases "t < length (sc_threads s)") (auto simp: s' list_update_beyond)
  then show ?thesis unfolding env_step_def s'' s' by (intro exI conjI) simp_all
qed

lemma env_step_thread: "same_core (f (sc_threads s ! t)) (sc_threads s ! t) \<Longrightarrow> env_step t s (upd_thread t f s)"
  unfolding env_step_def upd_thread_def
  by (intro exI [of _ "f (sc_threads s ! t)"] exI [of _ "sy_world s"] exI [of _ "sy_memory s"]) simp

lemma env_step_machine: "env_step t s (s\<lparr> sy_world := w \<rparr>)" "env_step t s (s\<lparr> sy_memory := m \<rparr>)"
  unfolding env_step_def
  by (intro exI [of _ "sc_threads s ! t"] exI [of _ w] exI [of _ "sy_memory s"], simp)
    (intro exI [of _ "sc_threads s ! t"] exI [of _ "sy_world s"] exI [of _ m], simp)

lemma env_step_pages:
  "env_step t s (page_free a s)" "env_step t s (snd (page_allocate s))" "env_step t s (poke a v s)"
proof -
  show "env_step t s (page_free a s)"
    by (auto simp: page_free_def env_step_machine split: option.split)
  show "env_step t s (snd (page_allocate s))"
    by (auto simp: page_allocate_def Let_def split_beta intro: env_step_trans [OF env_step_machine(1) env_step_machine(2)]
        env_step_machine split: option.split)
  show "env_step t s (poke a v s)" by (simp add: poke_def env_step_machine)
qed

text \<open>Any sequence of such steps.\<close>

lemma env_then:
  "env_step t s s' \<Longrightarrow> env_step t s (page_free a s')" "env_step t s s' \<Longrightarrow> env_step t s (poke a v s')"
  "env_step t s s' \<Longrightarrow> env_step t s (s'\<lparr> sy_memory := m \<rparr>)" "env_step t s s' \<Longrightarrow> env_step t s (s'\<lparr> sy_world := w \<rparr>)"
  "env_step t s s' \<Longrightarrow> same_core (f (sc_threads s' ! t)) (sc_threads s' ! t) \<Longrightarrow> env_step t s (upd_thread t f s')"
  by (blast intro: env_step_trans env_step_pages env_step_machine env_step_thread)+

lemma env_page_allocate: "page_allocate s' = (a, s'') \<Longrightarrow> env_step t s s' \<Longrightarrow> env_step t s s''"
  using env_step_pages(2) [of t s'] env_step_trans by (metis snd_conv)

lemma env_step_set_canaries: "env_step t s (set_canaries t s)"
  by (auto simp: set_canaries_def Let_def same_core_def intro!: env_then)

lemma env_step_allocate: "env_step t s (snd (allocate_thread_environment t s))"
proof -
  obtain a s1 where a: "page_allocate s = (a, s1)" by force
  obtain b s2 where b: "page_allocate s1 = (b, s2)" by force
  obtain c s3 where c: "page_allocate s2 = (c, s3)" by force
  obtain d s4 where d: "page_allocate s3 = (d, s4)" by force
  have s4: "env_step t s s4" using env_page_allocate [OF d] env_page_allocate [OF c] env_page_allocate [OF b]
      env_page_allocate [OF a] by simp
  show ?thesis
    unfolding allocate_thread_environment_def Let_def a b c d split
    by (auto simp: same_core_def intro!: env_then s4)
qed

lemma env_step_free: "env_step t s (free_thread_environment t s)"
  by (auto simp: free_thread_environment_def Let_def same_core_def intro!: env_then)

lemma env_step_prepare: "env_step t s (prepare_worker t v s)"
  by (auto simp: prepare_worker_def Let_def same_core_def intro!: env_then)

text \<open>Steps on the environment keep the invariant.\<close>

lemma sched_inv_env:
  assumes inv: "sched_inv s" and t: "t < 6" "th_live (sc_threads s ! t)" and step: "env_step t s s'"
  shows "sched_inv s'"
proof -
  from step obtain x w m where x: "same_core x (sc_threads s ! t)"
    and s': "s' = s\<lparr> sc_threads := (sc_threads s)[t := x], sy_world := w, sy_memory := m \<rparr>" by (auto simp: env_step_def)
  note I = sched_invD [OF inv]
  have len: "length (sc_threads s) = 6" using pool_okD(1) [OF I(5)] .
  have "pool_ok ((sc_threads s)[t := x]) (sc_runnable_queue s)"
    using x t pool_okD(4) [OF I(5) t(1)] by (intro pool_upd [OF I(5)]) (auto simp: thread_ok_def same_core_def)
  moreover have "current_ok ((sc_threads s)[t := x]) (sc_current s)"
    using I(6) x len by (auto simp: current_ok_def same_core_def nth_list_update_if)
  moreover have "boot_ok ((sc_threads s)[t := x])"
    using I(4) x len by (auto simp: boot_ok_def same_core_def nth_list_update_if)
  moreover have "wait_ok ((sc_threads s)[t := x]) (sc_wait_records s) (sc_events s) (sc_active_wait_count s)"
    using wait_okD(7) [OF I(7) t(1)] x
    by (intro wait_upd_thread [OF I(7) t(1)]) (auto simp: same_core_def record_thread_ok_def thread_wait_ok_def)
  moreover have "objects_ok (sc_objects s) ((sc_threads s)[t := x]) (sc_events s) (sc_memory_resource_notifications s)
       (sc_standard_stream s) (sc_wait_records s)"
    using x by (intro objects_upd_thread [OF I(8)]) (auto simp: same_core_def)
  ultimately show ?thesis using I by (simp add: s' sched_inv_def)
qed

subsection \<open>Adding and removing a thread\<close>

lemma thread_unwaiting:
  assumes inv: "sched_inv s" and t: "t < 6"
    and st: "th_state (sc_threads s ! t) \<notin> {GXOS_SCHEDULER_THREAD_RUNNABLE, GXOS_SCHEDULER_THREAD_RUNNING, GXOS_SCHEDULER_THREAD_BLOCKED}"
  shows "th_wait_record (sc_threads s ! t) = None"
proof (cases "th_wait_record (sc_threads s ! t)")
  case (Some r)
  note I = sched_invD [OF inv]
  have r: "r < 6" "wr_valid (sc_wait_records s ! r)" "wr_thread (sc_wait_records s ! r) = Some t"
    using wait_okD(7) [OF I(7) t] Some by (auto simp: thread_wait_ok_def)
  with wait_okD(4) [OF I(7) r(1,2)] st show ?thesis by (auto simp: record_ok_def record_thread_ok_def split: if_splits)
qed simp

lemma sched_inv_add_thread:
  assumes inv: "sched_inv s" and t: "t < 6" "\<not> th_live (sc_threads s ! t)" and i: "i < 16" "\<not> ob_live (sc_objects s ! i)"
    and x: "th_live x" "\<not> th_is_boot_thread x" "th_state x = GXOS_SCHEDULER_THREAD_CREATED_SUSPENDED"
      "\<not> th_runnable_queued x" "th_wait_record x = None" "th_object_slot x = i"
    and ob: "ob_live ob" "ob_slot ob = i" "ob_generation ob \<noteq> 0" "ob_target ob = Target_Thread t" "thread_object_ok i ob x"
  shows "sched_inv (s\<lparr> sc_threads := (sc_threads s)[t := x], sc_objects := (sc_objects s)[i := ob] \<rparr>)"
proof -
  note I = sched_invD [OF inv]
  have len: "length (sc_threads s) = 6" using pool_okD(1) [OF I(5)] .
  have z: "sc_threads s ! t = zero_tcb" using pool_dead [OF I(5) t] .
  have "pool_ok ((sc_threads s)[t := x]) (sc_runnable_queue s)"
    using x z by (intro pool_upd [OF I(5)]) (simp_all add: thread_ok_def)
  moreover have "current_ok ((sc_threads s)[t := x]) (sc_current s)"
    using I(6) x t len by (auto simp: current_ok_def nth_list_update_if)
  moreover have "boot_ok ((sc_threads s)[t := x])"
    using I(4) x t len by (auto simp: boot_ok_def nth_list_update_if)
  moreover have "wait_ok ((sc_threads s)[t := x]) (sc_wait_records s) (sc_events s) (sc_active_wait_count s)"
    using x z by (intro wait_upd_thread [OF I(7) t(1)]) simp_all
  moreover have "objects_ok ((sc_objects s)[i := ob]) ((sc_threads s)[t := x]) (sc_events s) (sc_memory_resource_notifications s)
       (sc_standard_stream s) (sc_wait_records s)"
    using t len ob by (intro objects_add [OF I(8) i ob(1-3)]) (auto simp: target_ok_def target_live_def)
  ultimately show ?thesis using I by (simp add: sched_inv_def)
qed

lemma sched_inv_remove_thread:
  assumes inv: "sched_inv s" and t: "t < 6" "th_live (sc_threads s ! t)" "sc_current s \<noteq> Some t"
    and st: "th_state (sc_threads s ! t) \<in> {GXOS_SCHEDULER_THREAD_CREATED_SUSPENDED, GXOS_SCHEDULER_THREAD_TERMINATED}"
    and ob: "\<not> ob_live ob"
  shows "sched_inv (s\<lparr> sc_threads := (sc_threads s)[t := zero_tcb], sc_objects := (sc_objects s)[th_object_slot (sc_threads s ! t) := ob] \<rparr>)"
proof -
  note I = sched_invD [OF inv]
  have len: "length (sc_threads s) = 6" using pool_okD(1) [OF I(5)] .
  have nq: "\<not> th_runnable_queued (sc_threads s ! t)" using pool_queued [OF I(5) t(1)] st by auto
  have t0: "t \<noteq> 0" using I(4) st by (cases "t = 0") (auto simp: boot_ok_def)
  have nw: "th_wait_record (sc_threads s ! t) = None" using st by (intro thread_unwaiting [OF inv t(1)]) auto
  have ow: "owned (sc_objects s) (th_object_slot (sc_threads s ! t)) (Target_Thread t)" using objects_okD(9) [OF I(8) t(1,2)] .
  have "pool_ok ((sc_threads s)[t := zero_tcb]) (sc_runnable_queue s)"
    using nq by (intro pool_upd [OF I(5)]) (simp_all add: thread_ok_def)
  moreover have "current_ok ((sc_threads s)[t := zero_tcb]) (sc_current s)"
    using I(6) t len by (auto simp: current_ok_def nth_list_update_if)
  moreover have "boot_ok ((sc_threads s)[t := zero_tcb])"
    using I(4) t0 len by (auto simp: boot_ok_def nth_list_update_if)
  moreover have "wait_ok ((sc_threads s)[t := zero_tcb]) (sc_wait_records s) (sc_events s) (sc_active_wait_count s)"
    using nw by (intro wait_upd_thread [OF I(7) t(1)]) simp_all
  moreover have "pins (sc_wait_records s) (th_object_slot (sc_threads s ! t)) = 0"
    unfolding pins_def
  proof (rule live_sum_none)
    fix y assume "y \<in> set (sc_wait_records s)"
    then obtain r where "r < 6" "y = sc_wait_records s ! r" using objects_okD(5) [OF I(8)] by (auto simp: in_set_conv_nth)
    with objects_okD(13) [OF I(8), of r] ow
    show "\<not> (wr_valid y \<and> wr_object y = Some (th_object_slot (sc_threads s ! t)))" by (auto simp: record_object_ok_def owned_def)
  qed
  then have "objects_ok ((sc_objects s)[th_object_slot (sc_threads s ! t) := ob]) ((sc_threads s)[t := zero_tcb]) (sc_events s)
      (sc_memory_resource_notifications s) (sc_standard_stream s) (sc_wait_records s)"
    using t len by (intro objects_remove [OF I(8) ow _ ob]) (auto simp: target_live_def)
  ultimately show ?thesis using I by (simp add: sched_inv_def)
qed

subsection \<open>Creating a thread\<close>

text \<open>Object tables that differ only in free slots.\<close>

definition same_objects :: "GXOS_SCHEDULER_OBJECT list \<Rightarrow> GXOS_SCHEDULER_OBJECT list \<Rightarrow> bool" where
  "same_objects obs obs' \<longleftrightarrow> length obs' = length obs \<and>
     (\<forall>i. obs' ! i = obs ! i \<or> \<not> ob_live (obs' ! i) \<and> \<not> ob_live (obs ! i))"

lemma same_objects_refl [simp]: "same_objects obs obs"
  by (simp add: same_objects_def)

lemma same_objects_upd: "\<not> ob_live (obs ! i) \<Longrightarrow> \<not> ob_live ob \<Longrightarrow> same_objects obs (obs[i := ob])"
  by (simp add: same_objects_def nth_list_update_if)

lemma objects_ok_same:
  assumes o: "objects_ok obs ts es ns st rs" and s: "same_objects obs obs'"
  shows "objects_ok obs' ts es ns st rs"
proof -
  have live: "ob_live (obs' ! i) \<Longrightarrow> obs' ! i = obs ! i" "ob_live (obs ! i) \<Longrightarrow> obs' ! i = obs ! i" for i
    using s by (auto simp: same_objects_def)
  have ow: "owned obs i tg \<Longrightarrow> owned obs' i tg" for i tg using live(2) [of i] by (auto simp: owned_def)
  have "record_object_ok obs x \<Longrightarrow> record_object_ok obs' x" for x
    using ow live(2) by (auto simp: record_object_ok_def owned_def)
  then show ?thesis using o s ow live(1) unfolding objects_ok_def by (auto simp: same_objects_def)
qed

lemma sched_inv_same_objects:
  "sched_inv s \<Longrightarrow> same_objects (sc_objects s) obs \<Longrightarrow> sched_inv (s\<lparr> sc_objects := obs \<rparr>)"
  by (auto simp: sched_inv_def objects_ok_same)

text \<open>
  Either the thread is there, suspended, with its object and handle; or nothing of the
  scheduler has changed but the generation of a free object slot.
\<close>

definition created_nothing :: "'w sched \<Rightarrow> 'w sched \<Rightarrow> bool" where
  "created_nothing s s' \<longleftrightarrow> (\<exists>obs w m. same_objects (sc_objects s) obs \<and>
     s' = s\<lparr> sc_objects := obs, sy_world := w, sy_memory := m \<rparr>)"

lemma created_nothing_refl [simp]: "created_nothing s s"
  unfolding created_nothing_def
  by (intro exI [of _ "sc_objects s"] exI [of _ "sy_world s"] exI [of _ "sy_memory s"]) simp

text \<open>The state once the thread has its object and identity, before its memory is allocated.\<close>

definition new_thread :: "u64 \<Rightarrow> u64 \<Rightarrow> GXOS_SCHEDULER_TCB" where
  "new_thread entry argument = zero_tcb\<lparr> th_live := True, th_state := GXOS_SCHEDULER_THREAD_CREATED_SUSPENDED,
     th_suspend_count := 1, th_relative_priority := 0, th_public_handle_refs := 1, th_execution_refs := 1,
     th_entry := entry, th_entry_argument := argument \<rparr>"

definition new_object :: "'w sched \<Rightarrow> nat \<Rightarrow> u8 \<Rightarrow> object_target \<Rightarrow> GXOS_SCHEDULER_OBJECT" where
  "new_object s i ty tg = zero_object\<lparr> ob_live := True, ob_type := ty,
     ob_generation := next_object_generation (ob_generation (sc_objects s ! i)), ob_slot := i,
     ob_public_handle_refs := 1, ob_internal_refs := 1, ob_target := tg \<rparr>"

lemma new_object_sel [simp]:
  "ob_live (new_object s i ty tg)" "ob_type (new_object s i ty tg) = ty" "ob_slot (new_object s i ty tg) = i"
  "ob_public_handle_refs (new_object s i ty tg) = 1" "ob_internal_refs (new_object s i ty tg) = 1"
  "ob_target (new_object s i ty tg) = tg" "ob_generation (new_object s i ty tg) = next_object_generation (ob_generation (sc_objects s ! i))"
  by (simp_all add: new_object_def)

lemma next_object_generation_nz [simp]: "next_object_generation g \<noteq> 0"
  using next_object_generation by blast

definition created_base :: "nat \<Rightarrow> nat \<Rightarrow> u64 \<Rightarrow> u64 \<Rightarrow> 'w sched \<Rightarrow> 'w sched" where
  "created_base t i entry argument s = s
     \<lparr> sc_threads := (sc_threads s)[t := (new_thread entry argument)\<lparr> th_identity := sc_next_identity s,
         th_generation := next_object_generation (ob_generation (sc_objects s ! i)), th_object_slot := i \<rparr>],
       sc_objects := (sc_objects s)[i := new_object s i GXOS_SCHEDULER_OBJECT_THREAD (Target_Thread t)],
       sc_next_identity := sc_next_identity s + 1 \<rparr>"

lemma created_base_inv:
  assumes inv: "sched_inv s" and t: "t < 6" "\<not> th_live (sc_threads s ! t)" and i: "i < 16" "\<not> ob_live (sc_objects s ! i)"
  shows "sched_inv (created_base t i entry argument s)"
proof -
  let ?x = "(new_thread entry argument)\<lparr> th_identity := sc_next_identity s,
         th_generation := next_object_generation (ob_generation (sc_objects s ! i)), th_object_slot := i \<rparr>"
  have "sched_inv (s\<lparr> sc_threads := (sc_threads s)[t := ?x],
      sc_objects := (sc_objects s)[i := new_object s i GXOS_SCHEDULER_OBJECT_THREAD (Target_Thread t)] \<rparr>)"
    by (rule sched_inv_add_thread [OF inv t i]) (simp_all add: new_thread_def thread_object_ok_def)
  then show ?thesis by (simp add: created_base_def sched_inv_def)
qed

lemma created_undone:
  assumes inv: "sched_inv s" and t: "t < 6" "\<not> th_live (sc_threads s ! t)" and i: "i < 16" "\<not> ob_live (sc_objects s ! i)"
    and r: "env_step t (created_base t i entry argument s) r"
  shows "created_nothing s (create_thread_undo t i r)"
proof -
  let ?z = "zero_object\<lparr> ob_generation := next_object_generation (ob_generation (sc_objects s ! i)) \<rparr>"
  note I = sched_invD [OF inv]
  have len: "length (sc_objects s) = 16" using objects_okD(1) [OF I(8)] .
  have z: "(sc_threads s)[t := zero_tcb] = sc_threads s" using pool_dead [OF I(5) t] by (metis list_update_id)
  from r obtain x w m where "r = (created_base t i entry argument s)
      \<lparr> sc_threads := (sc_threads (created_base t i entry argument s))[t := x], sy_world := w, sy_memory := m \<rparr>"
    by (auto simp: env_step_def)
  then have "create_thread_undo t i r = s\<lparr> sc_objects := (sc_objects s)[i := ?z], sy_world := w, sy_memory := m \<rparr>"
    using i len z by (simp add: create_thread_undo_def release_object_record_def upd_thread_def upd_object_def created_base_def Let_def)
  moreover have "same_objects (sc_objects s) ((sc_objects s)[i := ?z])"
    using i(2) by (intro same_objects_upd) (simp_all add: zero_object_def)
  ultimately show ?thesis unfolding created_nothing_def by blast
qed

definition created_thread :: "'w sched \<Rightarrow> GXOS_SCHEDULER_HANDLE \<Rightarrow> nat \<Rightarrow> 'w sched \<Rightarrow> bool" where
  "created_thread s handle t s' \<longleftrightarrow> t < 6 \<and> \<not> th_live (sc_threads s ! t) \<and> th_live (sc_threads s' ! t) \<and>
     th_state (sc_threads s' ! t) = GXOS_SCHEDULER_THREAD_CREATED_SUSPENDED \<and>
     gxos_scheduler_thread_from_handle s' handle = Some t \<and> gxos_scheduler_thread_from_handle s handle = None \<and>
     (\<forall>u. u \<noteq> t \<longrightarrow> sc_threads s' ! u = sc_threads s ! u) \<and> sc_runnable_queue s' = sc_runnable_queue s \<and>
     sc_current s' = sc_current s \<and> sched_inv s'"

lemma created_done:
  assumes inv: "sched_inv s" and t: "t < 6" "\<not> th_live (sc_threads s ! t)" and i: "i < 16" "\<not> ob_live (sc_objects s ! i)"
    and r: "env_step t (created_base t i entry argument s) r"
  shows "created_thread s (make_handle GXOS_SCHEDULER_OBJECT_THREAD i (next_object_generation (ob_generation (sc_objects s ! i)))) t r"
    (is "created_thread s ?h t r")
proof -
  let ?b = "created_base t i entry argument s"
  note I = sched_invD [OF inv]
  have len: "length (sc_threads s) = 6" "length (sc_objects s) = 16" using pool_okD(1) [OF I(5)] objects_okD(1) [OF I(8)] by auto
  have "sched_inv r" using sched_inv_env [OF created_base_inv [OF inv t i] t(1) _ r] t(1) len
    by (simp add: created_base_def new_thread_def)
  moreover from r obtain x w m where x: "same_core x (sc_threads ?b ! t)"
    and r': "r = ?b\<lparr> sc_threads := (sc_threads ?b)[t := x], sy_world := w, sy_memory := m \<rparr>" by (auto simp: env_step_def)
  moreover have "lookup_object r ?h GXOS_SCHEDULER_OBJECT_THREAD = Some i"
    using i(1) len I(1) by (simp add: lookup_object_iff r' created_base_def decode_make)
  moreover have "lookup_object s ?h GXOS_SCHEDULER_OBJECT_THREAD = None"
    using i by (simp add: lookup_object_def decode_make Let_def)
  ultimately show ?thesis using t len i(1)
    by (auto simp: created_thread_def created_base_def new_thread_def same_core_def gxos_scheduler_thread_from_handle_def)
qed

text \<open>The creation as a sequence of steps on the thread's environment.\<close>

lemma create_thread_stages:
  assumes inv: "sched_inv s" and op: "gxos_scheduler_create_suspended_thread entry argument s = (out, s')"
  shows "out = None \<and> s' = s \<or>
    (\<exists>t i r. t < 6 \<and> \<not> th_live (sc_threads s ! t) \<and> i < 16 \<and> \<not> ob_live (sc_objects s ! i) \<and>
       env_step t (created_base t i entry argument s) r \<and>
       (out = None \<and> s' = create_thread_undo t i r \<or>
        out = Some (make_handle GXOS_SCHEDULER_OBJECT_THREAD i (next_object_generation (ob_generation (sc_objects s ! i))), t) \<and> s' = r))"
proof -
  note I = sched_invD [OF inv] and def = gxos_scheduler_create_suspended_thread_def
  have len: "length (sc_threads s) = 6" "length (sc_objects s) = 16" using pool_okD(1) [OF I(5)] objects_okD(1) [OF I(8)] by auto
  define bad where "bad \<longleftrightarrow> \<not> g_scheduler s \<or> entry = 0 \<or> sc_register_stack_vm s = None \<or> sc_unregister_stack_vm s = None"
  consider (early) "find_free_thread s = None \<or> bad" | (go) t where "find_free_thread s = Some t" "\<not> bad"
    by (cases "find_free_thread s") auto
  then show ?thesis
  proof cases
    case early
    then have "gxos_scheduler_create_suspended_thread entry argument s = (None, s)" by (rule disjE) (simp_all add: def bad_def)
    with op show ?thesis by simp
  next
    case go
    then have go: "find_free_thread s = Some t" "\<not> (\<not> g_scheduler s \<or> entry = 0 \<or> sc_register_stack_vm s = None \<or>
      sc_unregister_stack_vm s = None)" by (simp_all add: bad_def)
    have t: "t < 6" "\<not> th_live (sc_threads s ! t)" using find_index_SomeD [of _ "sc_threads s" t] go(1) len by (auto simp: find_free_thread_def)
    define s0 where "s0 = upd_thread t (\<lambda>_. new_thread entry argument) s"
    have o0: "sc_objects s0 = sc_objects s" by (simp add: s0_def)
    obtain alloc s1 where al: "allocate_object GXOS_SCHEDULER_OBJECT_THREAD (Target_Thread t) s0 = (alloc, s1)" by force
    show ?thesis
    proof (cases alloc)
      case None
      have "(sc_threads s)[t := zero_tcb] = sc_threads s" using pool_dead [OF I(5) t] by (metis list_update_id)
      then have "gxos_scheduler_create_suspended_thread entry argument s = (None, s)"
        using go al None allocate_object_None [OF al [unfolded None]]
        by (simp add: def flip: new_thread_def s0_def) (simp add: s0_def upd_thread_def)
      with op show ?thesis by simp
    next
      case (Some ih)
      then obtain i handle where al': "allocate_object GXOS_SCHEDULER_OBJECT_THREAD (Target_Thread t) s0 = (Some (i, handle), s1)"
        using al by (cases ih) auto
      note A = allocate_objectD [OF al', unfolded o0, OF len(2)]
      let ?b = "created_base t i entry argument s"
      have b: "upd_thread t (\<lambda>x. x\<lparr> th_identity := sc_next_identity s1, th_generation := ob_generation (sc_objects s1 ! i),
            th_object_slot := i \<rparr>) (s1\<lparr> sc_next_identity := sc_next_identity s1 + 1 \<rparr>) = ?b"
        using A(1) len t by (simp add: A(5) s0_def created_base_def upd_thread_def) (simp add: new_object_def)
      obtain status stack_memory w where st: "the (sc_allocate_pages ?b) (sy_world ?b) GXOS_SCHEDULER_STACK_PAGES = (status, stack_memory, w)"
        by (metis prod_cases3)
      define s4 where "s4 = ?b\<lparr> sy_world := w, sy_memory := zero_bytes (sy_memory ?b) stack_memory GXOS_SCHEDULER_STACK_SIZE \<rparr>"
      obtain canary s5 where c: "page_allocate s4 = (canary, s5)" by force
      define s6 where "s6 = upd_thread t (\<lambda>x. x\<lparr> th_stack_pages_memory := stack_memory, th_stack_base := stack_memory,
              th_stack_limit := stack_memory + GXOS_SCHEDULER_STACK_SIZE, th_stack_canary_memory := canary \<rparr>) s5"
      obtain ok s7 where e: "allocate_thread_environment t (set_canaries t s6) = (ok, s7)" by force
      obtain registered identity w' where reg: "the (sc_register_stack_vm s7) (sy_world s7) (th_stack_base (sc_threads s7 ! t))
           (th_stack_limit (sc_threads s7 ! t) - th_stack_base (sc_threads s7 ! t)) = (registered, identity, w')"
        by (metis prod_cases3)
      have E4: "env_step t ?b s4" unfolding s4_def by (intro env_then env_step_refl)
      have E6: "env_step t ?b s6" unfolding s6_def
        by (rule env_then(5) [OF env_page_allocate [OF c E4]]) (simp add: same_core_def)
      have E7: "env_step t ?b s7"
        using env_step_trans [OF E6 env_step_trans [OF env_step_set_canaries env_step_allocate]] e by (metis snd_conv)
      have "(out, s') =
         (if status \<noteq> 0 \<or> stack_memory = 0 then (None, create_thread_undo t i (?b\<lparr> sy_world := w \<rparr>))
          else if canary = 0 then (None, create_thread_undo t i (page_free stack_memory s6))
          else if \<not> ok then (None, create_thread_undo t i (page_free stack_memory (page_free canary s7)))
          else if \<not> registered \<or> identity = 0
          then (None, create_thread_undo t i (page_free stack_memory (page_free canary (free_thread_environment t (s7\<lparr> sy_world := w' \<rparr>)))))
          else (Some (handle, t), prepare_worker t identity (s7\<lparr> sy_world := w' \<rparr>)))"
        using go al' st c e reg unfolding op [symmetric] def
        by (simp add: b flip: new_thread_def s0_def) (auto simp: s4_def s6_def)
      moreover have "env_step t ?b (?b\<lparr> sy_world := w \<rparr>)" "env_step t ?b (page_free stack_memory s6)"
        "env_step t ?b (page_free stack_memory (page_free canary s7))"
        "env_step t ?b (page_free stack_memory (page_free canary (free_thread_environment t (s7\<lparr> sy_world := w' \<rparr>))))"
        "env_step t ?b (prepare_worker t identity (s7\<lparr> sy_world := w' \<rparr>))"
        by (blast intro: env_then env_step_refl E6 E7 env_step_trans [OF _ env_step_free] env_step_trans [OF _ env_step_prepare])+
      ultimately show ?thesis using t A(1,2,4) by (simp split: if_splits) blast+
    qed
  qed
qed

lemma create_thread_spec:
  assumes inv: "sched_inv s" and op: "gxos_scheduler_create_suspended_thread entry argument s = (out, s')"
  shows "case out of None \<Rightarrow> created_nothing s s' | Some (handle, t) \<Rightarrow> created_thread s handle t s'"
  using create_thread_stages [OF inv op] created_undone [OF inv] created_done [OF inv] by auto

end
