(* ===== verification/Scheduler_Dispatch.thy ===== *)
theory Scheduler_Dispatch
  imports Scheduler_Threads
begin

text \<open>
  The invariant under the operations that change which threads are ready or run: resuming,
  reclaiming, discarding and closing, yielding and terminating.
\<close>

subsection \<open>Between two running threads\<close>

text \<open>The invariant without the clause on the current thread.\<close>

definition sched_mid :: "'w sched \<Rightarrow> bool" where
  "sched_mid s \<longleftrightarrow> g_scheduler s \<and> sc_active s \<and> sc_boot_thread s = Some 0 \<and> boot_ok (sc_threads s) \<and>
     pool_ok (sc_threads s) (sc_runnable_queue s) \<and>
     wait_ok (sc_threads s) (sc_wait_records s) (sc_events s) (sc_active_wait_count s) \<and>
     objects_ok (sc_objects s) (sc_threads s) (sc_events s) (sc_memory_resource_notifications s)
       (sc_standard_stream s) (sc_wait_records s)"

lemma sched_inv_mid: "sched_inv s \<longleftrightarrow> sched_mid s \<and> current_ok (sc_threads s) (sc_current s)"
  by (auto simp: sched_inv_def sched_mid_def)

lemma sched_midD:
  assumes "sched_mid s"
  shows "g_scheduler s" "sc_active s" "sc_boot_thread s = Some 0" "boot_ok (sc_threads s)"
    "pool_ok (sc_threads s) (sc_runnable_queue s)"
    "wait_ok (sc_threads s) (sc_wait_records s) (sc_events s) (sc_active_wait_count s)"
    "objects_ok (sc_objects s) (sc_threads s) (sc_events s) (sc_memory_resource_notifications s)
       (sc_standard_stream s) (sc_wait_records s)" "length (sc_threads s) = 6"
  using assms pool_okD(1) by (auto simp: sched_mid_def)

text \<open>A thread changes its state, and the queue with it.\<close>

definition same_identity :: "GXOS_SCHEDULER_TCB \<Rightarrow> GXOS_SCHEDULER_TCB \<Rightarrow> bool" where
  "same_identity x y \<longleftrightarrow> th_live x = th_live y \<and> th_is_boot_thread x = th_is_boot_thread y \<and>
     th_wait_record x = th_wait_record y \<and> th_object_slot x = th_object_slot y \<and>
     th_generation x = th_generation y \<and> th_public_handle_refs x = th_public_handle_refs y"

lemma mid_upd_thread:
  assumes mid: "sched_mid s" and t: "t < 6" and x: "same_identity x (sc_threads s ! t)"
    and boot: "t = 0 \<Longrightarrow> th_state x \<in> {GXOS_SCHEDULER_THREAD_RUNNABLE, GXOS_SCHEDULER_THREAD_RUNNING, GXOS_SCHEDULER_THREAD_BLOCKED}"
    and pool: "pool_ok ((sc_threads s)[t := x]) q"
    and free: "th_wait_record x = None \<Longrightarrow> th_state x \<noteq> GXOS_SCHEDULER_THREAD_BLOCKED"
    and held: "\<And>r. th_wait_record x = Some r \<Longrightarrow> record_thread_ok r (sc_wait_records s ! r) (sc_threads s ! t) \<Longrightarrow>
      record_thread_ok r (sc_wait_records s ! r) x"
  shows "sched_mid (s\<lparr> sc_threads := (sc_threads s)[t := x], sc_runnable_queue := q \<rparr>)"
proof -
  note M = sched_midD [OF mid]
  have "boot_ok ((sc_threads s)[t := x])"
    using M(4,8) x boot t by (auto simp: boot_ok_def same_identity_def nth_list_update_if)
  moreover have "wait_ok ((sc_threads s)[t := x]) (sc_wait_records s) (sc_events s) (sc_active_wait_count s)"
    using x free held by (intro wait_upd_thread [OF M(6) t]) (auto simp: same_identity_def)
  moreover have "objects_ok (sc_objects s) ((sc_threads s)[t := x]) (sc_events s) (sc_memory_resource_notifications s)
       (sc_standard_stream s) (sc_wait_records s)"
    using x by (intro objects_upd_thread [OF M(7)]) (auto simp: same_identity_def)
  ultimately show ?thesis using M pool by (simp add: sched_mid_def)
qed

lemma dispatch_inv:
  assumes mid: "sched_mid s" and none: "none_running (sc_threads s)" and t: "t < 6" "ready (sc_threads s ! t)"
    and cur: "sc_current s = Some k"
  shows "sched_inv (snd (choose_next t s))" "sc_current (snd (choose_next t s)) = Some t"
proof -
  note M = sched_midD [OF mid]
  let ?x = "(sc_threads s ! t)\<lparr> th_runnable_queued := False, th_state := GXOS_SCHEDULER_THREAD_RUNNING \<rparr>"
  note D = dispatch_ok [OF M(5) none t]
  have "sched_mid (s\<lparr> sc_threads := (sc_threads s)[t := ?x], sc_runnable_queue := remove1 t (sc_runnable_queue s) \<rparr>)"
    using t(2) by (intro mid_upd_thread [OF mid t(1)] D(1))
      (auto simp: same_identity_def record_thread_ok_def ready_def split: if_splits)
  then show "sched_inv (snd (choose_next t s))" "sc_current (snd (choose_next t s)) = Some t"
    using D(2) choose_ready [OF M(5) t M(1) cur] by (simp_all add: sched_inv_mid) (simp add: sched_mid_def)
qed

lemma pick_dispatch:
  assumes mid: "sched_mid s" and none: "none_running (sc_threads s)" and cur: "sc_current s = Some k" "k < 6"
    and pick: "pick_next_runnable s k = Some n"
  shows "sched_inv (snd (choose_next n s))" "n < 6" "ready (sc_threads s ! n)"
  using dispatch_inv [OF mid none _ _ cur(1)] pick_next_Some [OF pick cur(2)] by auto

subsection \<open>Yielding and terminating\<close>

lemma yield_inv:
  assumes inv: "sched_inv s"
  shows "sched_inv (snd (gxos_scheduler_prepare_yield s))"
proof -
  obtain k where k: "k < 6" "sc_current s = Some k" "th_live (sc_threads s ! k)" "\<not> th_runnable_queued (sc_threads s ! k)"
    using sched_current [OF inv] by metis
  note I = sched_invD [OF inv]
  show ?thesis
  proof (cases "th_state (sc_threads s ! k) = GXOS_SCHEDULER_THREAD_RUNNING")
    case False
    then show ?thesis using inv k I(1) by (simp add: gxos_scheduler_prepare_yield_def)
  next
    case True
    define ts where "ts = (sc_threads s)[k := (sc_threads s ! k)
        \<lparr> th_state := GXOS_SCHEDULER_THREAD_RUNNABLE, th_runnable_queued := True \<rparr>]"
    define s1 where "s1 = s\<lparr> sc_threads := ts, sc_runnable_queue := sc_runnable_queue s @ [k] \<rparr>"
    have pool: "pool_ok ts (sc_runnable_queue s @ [k])"
      unfolding ts_def using k by (intro pool_enq [OF I(5)]) (auto simp: thread_ok_def)
    have mid: "sched_mid s1" unfolding s1_def ts_def
      using inv True pool by (intro mid_upd_thread) (auto simp: sched_inv_mid ts_def k same_identity_def record_thread_ok_def split: if_splits)
    have none: "none_running ts"
      using run_inv_current(4) [OF I(9) k(2)] k(1) pool_okD(1) [OF I(5)] by (auto simp: none_running_def ts_def nth_list_update_if)
    from yield_spec [OF I(9), of k, folded ts_def] True k(2) obtain n where n: "n < 6" "ready (ts ! n)"
      and y: "snd (gxos_scheduler_prepare_yield s) =
       s\<lparr> sc_threads := ts[n := (ts ! n)\<lparr> th_runnable_queued := False, th_state := GXOS_SCHEDULER_THREAD_RUNNING \<rparr>],
          sc_runnable_queue := remove1 n (sc_runnable_queue s @ [k]), sc_current := Some n,
          sc_pending_plan := Some \<lparr> sp_old_context = k, sp_new_context = th_saved_context (ts ! n) \<rparr> \<rparr>"
      by (auto simp: running_def)
    have "sched_inv (snd (choose_next n s1))"
      using dispatch_inv(1) [OF mid, of n k] none n k(2) by (simp add: s1_def)
    moreover have "snd (choose_next n s1) = s1\<lparr> sc_threads := ts[n := (ts ! n)
          \<lparr> th_runnable_queued := False, th_state := GXOS_SCHEDULER_THREAD_RUNNING \<rparr>],
        sc_runnable_queue := remove1 n (sc_runnable_queue s @ [k]), sc_current := Some n \<rparr>"
      using choose_ready [of s1 n k] pool n k(2) I(1) by (simp add: s1_def)
    ultimately show ?thesis unfolding y by (simp add: s1_def sched_inv_def)
  qed
qed

lemma terminate_inv:
  assumes inv: "sched_inv s" and free: "\<And>k. sc_current s = Some k \<Longrightarrow>
      th_state (sc_threads s ! k) = GXOS_SCHEDULER_THREAD_RUNNING \<Longrightarrow> \<not> th_is_boot_thread (sc_threads s ! k) \<Longrightarrow>
      th_wait_record (sc_threads s ! k) = None"
  shows "sched_inv (snd (gxos_scheduler_prepare_terminate v s))"
proof -
  obtain k where k: "k < 6" "sc_current s = Some k" "th_live (sc_threads s ! k)" "\<not> th_runnable_queued (sc_threads s ! k)"
    using sched_current [OF inv] by metis
  note I = sched_invD [OF inv]
  show ?thesis
  proof (cases "th_state (sc_threads s ! k) = GXOS_SCHEDULER_THREAD_RUNNING \<and> \<not> th_is_boot_thread (sc_threads s ! k)")
    case False
    then show ?thesis using inv k I(1) by (auto simp: gxos_scheduler_prepare_terminate_def)
  next
    case True
    define x where "x = (sc_threads s ! k)\<lparr> th_return_value := v, th_state := GXOS_SCHEDULER_THREAD_TERMINATED,
        th_deferred_reclaim := True, th_execution_refs := 0 \<rparr>"
    define s1 where "s1 = s\<lparr> sc_threads := (sc_threads s)[k := x], sc_runnable_queue := sc_runnable_queue s \<rparr>"
    have s1: "upd_thread k (\<lambda>x. x\<lparr> th_return_value := v, th_state := GXOS_SCHEDULER_THREAD_TERMINATED,
        th_deferred_reclaim := True, th_execution_refs := 0 \<rparr>) s = s1"
      by (simp add: s1_def upd_thread_def x_def)
    have k0: "k \<noteq> 0" using True I(4) by (cases "k = 0") (auto simp: boot_ok_def)
    have pool: "pool_ok ((sc_threads s)[k := x]) (sc_runnable_queue s)"
      using k by (intro pool_upd [OF I(5)]) (simp_all add: x_def thread_ok_def)
    have mid: "sched_mid s1" unfolding s1_def
      using inv pool free [OF k(2)] True k0 by (intro mid_upd_thread) (auto simp: sched_inv_mid k(1) x_def same_identity_def)
    have len: "length (sc_threads s) = 6" using pool_okD(1) [OF I(5)] .
    have none: "none_running (sc_threads s1)"
      using run_inv_current(4) [OF I(9) k(2)] k(1) len by (auto simp: none_running_def s1_def x_def nth_list_update_if)
    show ?thesis
    proof (cases "pick_next_runnable s1 k")
      case None
      have "current_ok (sc_threads s1) (Some k)"
        using none k len by (auto simp: current_ok_def none_running_def s1_def x_def)
      then have "sched_inv s1" using mid k(2) by (simp add: sched_inv_mid s1_def)
      then show ?thesis using None True k(2) I(1) by (simp add: gxos_scheduler_prepare_terminate_def s1 Let_def)
    next
      case (Some n)
      then show ?thesis using pick_dispatch(1) [OF mid none _ k(1) Some] True k(2) I(1)
        by (simp add: gxos_scheduler_prepare_terminate_def s1 Let_def split_beta) (simp add: s1_def)
    qed
  qed
qed

subsection \<open>Resuming\<close>

lemma make_ready_inv:
  assumes inv: "sched_inv s" and t: "t < 6" "th_live (sc_threads s ! t)"
    and st: "th_state (sc_threads s ! t) = GXOS_SCHEDULER_THREAD_CREATED_SUSPENDED"
  shows "sched_inv (s\<lparr> sc_threads := (sc_threads s)[t := (sc_threads s ! t)\<lparr> th_suspend_count := 0,
      th_state := GXOS_SCHEDULER_THREAD_RUNNABLE, th_runnable_queued := True \<rparr>], sc_runnable_queue := sc_runnable_queue s @ [t] \<rparr>)"
    (is "sched_inv (s\<lparr> sc_threads := (sc_threads s)[t := ?x], sc_runnable_queue := _ \<rparr>)")
proof -
  note I = sched_invD [OF inv]
  have nq: "\<not> th_runnable_queued (sc_threads s ! t)" using pool_queued [OF I(5) t(1)] st by auto
  have nw: "th_wait_record (sc_threads s ! t) = None" using st by (intro thread_unwaiting [OF inv t(1)]) auto
  have "pool_ok ((sc_threads s)[t := ?x]) (sc_runnable_queue s @ [t])"
    using t nq by (intro pool_enq [OF I(5)]) (simp_all add: thread_ok_def)
  then have "sched_mid (s\<lparr> sc_threads := (sc_threads s)[t := ?x], sc_runnable_queue := sc_runnable_queue s @ [t] \<rparr>)"
    using inv nw by (intro mid_upd_thread) (simp_all add: sched_inv_mid t same_identity_def)
  moreover have "current_ok ((sc_threads s)[t := ?x]) (sc_current s)"
    using current_not [OF I(6), of t] st by (intro current_upd [OF I(6)]) auto
  ultimately show ?thesis by (simp add: sched_inv_mid)
qed

lemma resume_cases:
  assumes inv: "sched_inv s" and op: "gxos_scheduler_resume_thread handle s = (out, s')"
  shows "out \<noteq> Some 1 \<and> s' = s \<or>
    (\<exists>t < 6. out = Some 1 \<and> gxos_scheduler_thread_from_handle s handle = Some t \<and> th_live (sc_threads s ! t) \<and>
      th_state (sc_threads s ! t) = GXOS_SCHEDULER_THREAD_CREATED_SUSPENDED \<and>
      s' = s\<lparr> sc_threads := (sc_threads s)[t := (sc_threads s ! t)\<lparr> th_suspend_count := 0,
        th_state := GXOS_SCHEDULER_THREAD_RUNNABLE, th_runnable_queued := True \<rparr>], sc_runnable_queue := sc_runnable_queue s @ [t] \<rparr>)"
proof -
  note I = sched_invD [OF inv] and def = gxos_scheduler_resume_thread_def
  consider (same) "out \<noteq> Some 1 \<and> s' = s"
    | (go) i t where "lookup_object s handle GXOS_SCHEDULER_OBJECT_THREAD = Some i" "target_thread (ob_target (sc_objects s ! i)) = Some t"
      "th_live (sc_threads s ! t)" "th_state (sc_threads s ! t) = GXOS_SCHEDULER_THREAD_CREATED_SUSPENDED"
      "(out, s') = (case enqueue_runnable t (upd_thread t (\<lambda>x. x\<lparr> th_suspend_count := 0, th_state := GXOS_SCHEDULER_THREAD_RUNNABLE \<rparr>) s) of
        (True, s) \<Rightarrow> (Some 1, s)
      | (False, s) \<Rightarrow> (None, upd_thread t (\<lambda>x. x\<lparr> th_state := GXOS_SCHEDULER_THREAD_CREATED_SUSPENDED, th_suspend_count := 1 \<rparr>) s))"
    using op unfolding def Let_def by (auto split: option.splits if_splits)
  then show ?thesis
  proof cases
    case go
    have i: "i < 16" "ob_live (sc_objects s ! i)" "ob_type (sc_objects s ! i) = GXOS_SCHEDULER_OBJECT_THREAD"
      using lookup_object_bound [OF go(1)] go(1) by (simp_all add: lookup_object_iff)
    with typed_target(1) [OF I(8) i(1,2)] go(2) have "owned (sc_objects s) i (Target_Thread t)" by (auto simp: owned_def)
    then have t: "t < 6" using owned_thread [OF I(8)] by blast
    have nq: "\<not> th_runnable_queued (sc_threads s ! t)" using pool_queued [OF I(5) t] go(4) by auto
    let ?x = "(sc_threads s ! t)\<lparr> th_suspend_count := 0, th_state := GXOS_SCHEDULER_THREAD_RUNNABLE \<rparr>"
    have "enqueue_runnable t (upd_thread t (\<lambda>x. x\<lparr> th_suspend_count := 0, th_state := GXOS_SCHEDULER_THREAD_RUNNABLE \<rparr>) s) =
        (True, s\<lparr> sc_threads := (sc_threads s)[t := ?x\<lparr> th_runnable_queued := True \<rparr>], sc_runnable_queue := sc_runnable_queue s @ [t] \<rparr>)"
      using enqueue_ready [OF I(5) t nq, of "upd_thread t (\<lambda>x. x\<lparr> th_suspend_count := 0, th_state := GXOS_SCHEDULER_THREAD_RUNNABLE \<rparr>) s" ?x]
        go(3) nq I(1) by (simp add: upd_thread_def)
    with go t show ?thesis by (auto simp: gxos_scheduler_thread_from_handle_def)
  qed blast
qed

lemma resume_inv: "sched_inv s \<Longrightarrow> sched_inv (snd (gxos_scheduler_resume_thread handle s))"
  using resume_cases [of s handle "fst (gxos_scheduler_resume_thread handle s)" "snd (gxos_scheduler_resume_thread handle s)"]
    make_ready_inv by (auto simp del: snd_conv)

end
