(* ===== verification/Scheduler_Reclaim.thy ===== *)
theory Scheduler_Reclaim
  imports Scheduler_Dispatch
begin

text \<open>
  The invariant under reclaiming, discarding and collecting threads, closing handles and
  destroying events and notifications.
\<close>

subsection \<open>Reclaiming\<close>

text \<open>The guards of a reclaim that takes place.\<close>

definition reclaimable :: "'w sched \<Rightarrow> nat \<Rightarrow> bool" where
  "reclaimable s t \<longleftrightarrow> th_live (sc_threads s ! t) \<and> sc_current s \<noteq> Some t \<and>
     th_state (sc_threads s ! t) = GXOS_SCHEDULER_THREAD_TERMINATED \<and> th_execution_refs (sc_threads s ! t) = 0 \<and>
     th_public_handle_refs (sc_threads s ! t) = 0 \<and> \<not> th_runnable_queued (sc_threads s ! t) \<and>
     gxos_scheduler_check_canaries s (Some t)"

definition reclaimed :: "nat \<Rightarrow> 'w sched \<Rightarrow> 'w sched \<Rightarrow> bool" where
  "reclaimed t s s' \<longleftrightarrow> (\<exists>w m ob. \<not> ob_live ob \<and> s' = s\<lparr> sc_threads := (sc_threads s)[t := zero_tcb],
     sc_objects := (sc_objects s)[th_object_slot (sc_threads s ! t) := ob], sy_world := w, sy_memory := m \<rparr>)"

lemma reclaim_cases:
  assumes len: "length (sc_threads s) = 6" "t < 6"
  shows "(\<exists>w. maybe_reclaim_thread t s = s\<lparr> sy_world := w \<rparr>) \<or> reclaimable s t \<and> reclaimed t s (maybe_reclaim_thread t s)"
proof -
  let ?th = "sc_threads s ! t" and ?i = "th_object_slot (sc_threads s ! t)"
  have keep: "\<exists>w. s = s\<lparr> sy_world := w \<rparr>" by (rule exI [of _ "sy_world s"]) simp
  have gone: "reclaimed t s (upd_thread t (\<lambda>_. zero_tcb) (release_object_record ?i (free_thread_environment t
      (page_free b (page_free a (upd_object ?i (\<lambda>ob. ob\<lparr> ob_internal_refs := 0 \<rparr>) r))))))"
    if r: "env_step t s r" for r a b
  proof -
    define s1 where "s1 = upd_object ?i (\<lambda>ob. ob\<lparr> ob_internal_refs := 0 \<rparr>) r"
    have "env_step t s1 (free_thread_environment t (page_free b (page_free a s1)))"
      by (blast intro: env_then env_step_refl env_step_trans [OF _ env_step_free])
    then obtain x w m where F: "free_thread_environment t (page_free b (page_free a s1)) =
        s1\<lparr> sc_threads := (sc_threads s1)[t := x], sy_world := w, sy_memory := m \<rparr>" by (auto simp: env_step_def)
    from r obtain y w' m' where R: "r = s\<lparr> sc_threads := (sc_threads s)[t := y], sy_world := w', sy_memory := m' \<rparr>"
      by (auto simp: env_step_def)
    let ?f = "\<lambda>ob. zero_object\<lparr> ob_generation := ob_generation ob \<rparr>"
    have "upd_thread t (\<lambda>_. zero_tcb) (release_object_record ?i (free_thread_environment t (page_free b (page_free a s1)))) =
        s\<lparr> sc_threads := (sc_threads s)[t := zero_tcb],
           sc_objects := (sc_objects s)[?i := ?f ((sc_objects s)[?i := (sc_objects s ! ?i)\<lparr> ob_internal_refs := 0 \<rparr>] ! ?i)],
           sy_world := w, sy_memory := m \<rparr>"
      unfolding F by (simp add: upd_thread_def release_object_record_def upd_object_def s1_def R)
    then show ?thesis unfolding reclaimed_def s1_def [symmetric]
      by (intro exI [of _ w] exI [of _ m] exI [of _ "?f _"]) (simp add: zero_object_def)
  qed
  show ?thesis
  proof (cases "reclaimable s t \<and> ob_live (sc_objects s ! ?i) \<and> ob_type (sc_objects s ! ?i) = GXOS_SCHEDULER_OBJECT_THREAD")
    case False
    then have "maybe_reclaim_thread t s = s" unfolding maybe_reclaim_thread_def reclaimable_def Let_def by auto
    then show ?thesis using keep by simp
  next
    case True
    have M: "maybe_reclaim_thread t s = (case unregister_stack t s of (unregistered, s) \<Rightarrow>
        if \<not> unregistered then s
        else upd_thread t (\<lambda>_. zero_tcb) (release_object_record ?i (free_thread_environment t
          (page_free (th_stack_canary_memory ?th) (page_free (th_stack_pages_memory ?th)
            (upd_object ?i (\<lambda>ob. ob\<lparr> ob_internal_refs := 0 \<rparr>) s))))))"
      using True by (simp add: maybe_reclaim_thread_def reclaimable_def Let_def split_beta)
    obtain u r where u: "unregister_stack t s = (u, r)" by force
    have E: "env_step t s r" using u
      by (auto simp: unregister_stack_def Let_def split_beta same_core_def intro!: env_then split: if_splits option.splits)
    have W: "\<exists>w. r = s\<lparr> sy_world := w \<rparr>" if "\<not> u"
      using u that keep by (auto simp: unregister_stack_def Let_def split_beta split: if_splits option.splits)
    show ?thesis using True gone [OF E] W by (cases u) (simp_all add: M u)
  qed
qed

lemma reclaim_inv:
  assumes inv: "sched_inv s" and t: "t < 6"
  shows "sched_inv (maybe_reclaim_thread t s)"
proof -
  have len: "length (sc_threads s) = 6" using pool_okD(1) [OF sched_invD(5) [OF inv]] .
  from reclaim_cases [OF len t] show ?thesis
  proof (elim disjE exE conjE)
    fix w assume "maybe_reclaim_thread t s = s\<lparr> sy_world := w \<rparr>"
    with inv show ?thesis by simp
  next
    assume r: "reclaimable s t" "reclaimed t s (maybe_reclaim_thread t s)"
    then obtain w m ob where ob: "\<not> ob_live ob" and eq: "maybe_reclaim_thread t s = s\<lparr> sc_threads := (sc_threads s)[t := zero_tcb],
       sc_objects := (sc_objects s)[th_object_slot (sc_threads s ! t) := ob], sy_world := w, sy_memory := m \<rparr>"
      by (auto simp: reclaimed_def)
    have "sched_inv (s\<lparr> sc_threads := (sc_threads s)[t := zero_tcb], sc_objects := (sc_objects s)[th_object_slot (sc_threads s ! t) := ob] \<rparr>)"
      using r(1) by (intro sched_inv_remove_thread [OF inv t _ _ _ ob]) (simp_all add: reclaimable_def)
    then show ?thesis unfolding eq by (simp add: sched_inv_def)
  qed
qed

lemma collect_inv: "sched_inv s \<Longrightarrow> sched_inv (snd (gxos_scheduler_collect s))"
proof -
  assume inv: "sched_inv s"
  have "sched_inv (fold maybe_reclaim_thread ts s)" if "\<forall>t \<in> set ts. t < 6" "sched_inv s" for ts and s :: "'a sched"
    using that by (induction ts arbitrary: s) (simp_all add: reclaim_inv)
  with inv show ?thesis by (simp add: gxos_scheduler_collect_def)
qed

lemma collect_frame:
  assumes "length (sc_threads s) = 6"
  shows "sc_memory_resource_notifications (snd (gxos_scheduler_collect s)) = sc_memory_resource_notifications s"
proof -
  have step: "length (sc_threads (maybe_reclaim_thread t s)) = 6 \<and>
      sc_memory_resource_notifications (maybe_reclaim_thread t s) = sc_memory_resource_notifications s"
    if "length (sc_threads s) = 6" "t < 6" for t and s :: "'a sched"
    using reclaim_cases [OF that] that(1) by (auto simp: reclaimed_def)
  have "sc_memory_resource_notifications (fold maybe_reclaim_thread ts s) = sc_memory_resource_notifications s"
    if "\<forall>t \<in> set ts. t < 6" "length (sc_threads s) = 6" for ts and s :: "'a sched"
    using that by (induction ts arbitrary: s) (simp_all add: step)
  with assms show ?thesis by (simp add: gxos_scheduler_collect_def)
qed

lemma try_reclaim_inv:
  "sched_inv s \<Longrightarrow> (\<And>t. p = Some t \<Longrightarrow> t < 6) \<Longrightarrow> sched_inv (snd (gxos_scheduler_try_reclaim_thread p s))"
  by (auto simp: gxos_scheduler_try_reclaim_thread_def Let_def reclaim_inv split: option.split)

subsection \<open>Discarding a thread that has not run\<close>

text \<open>A thread that is runnable is a worker and has collected its last wait; a thread that was never started is both.\<close>

lemma discard_inv:
  assumes inv: "sched_inv s" and t: "t < 6" and settled: "th_state (sc_threads s ! t) = GXOS_SCHEDULER_THREAD_RUNNABLE \<Longrightarrow>
      t \<noteq> 0 \<and> th_wait_record (sc_threads s ! t) = None"
  shows "sched_inv (snd (gxos_scheduler_discard_created_thread (Some t) s))"
proof -
  note I = sched_invD [OF inv]
  let ?th = "sc_threads s ! t"
  have len: "length (sc_threads s) = 6" using pool_okD(1) [OF I(5)] .
  show ?thesis
  proof (cases "th_live ?th \<and> th_state ?th \<in> {GXOS_SCHEDULER_THREAD_CREATED_SUSPENDED, GXOS_SCHEDULER_THREAD_RUNNABLE} \<and>
      th_public_handle_refs ?th = 0")
    case False
    then have "gxos_scheduler_discard_created_thread (Some t) s = (False, s)"
      by (auto simp: gxos_scheduler_discard_created_thread_def Let_def)
    with inv show ?thesis by simp
  next
    case True
    have nw: "t \<noteq> 0 \<and> th_wait_record ?th = None"
    proof (cases "th_state ?th = GXOS_SCHEDULER_THREAD_RUNNABLE")
      case False
      then have st: "th_state ?th = GXOS_SCHEDULER_THREAD_CREATED_SUSPENDED" using True by simp
      then have "t \<noteq> 0" using I(4) by (cases "t = 0") (auto simp: boot_ok_def)
      moreover have "th_wait_record ?th = None" using st by (intro thread_unwaiting [OF inv t]) auto
      ultimately show ?thesis by simp
    qed (rule settled)
    define x where "x = ?th\<lparr> th_runnable_queued := False, th_state := GXOS_SCHEDULER_THREAD_TERMINATED, th_execution_refs := 0 \<rparr>"
    define q where "q = remove1 t (sc_runnable_queue s)"
    define s1 where "s1 = s\<lparr> sc_threads := (sc_threads s)[t := x], sc_runnable_queue := q \<rparr>"
    have pool: "pool_ok ((sc_threads s)[t := x]) q"
      unfolding q_def using True by (intro pool_deq [OF I(5) t]) (simp_all add: x_def thread_ok_def)
    have "sched_mid s1" unfolding s1_def
      using inv nw by (intro mid_upd_thread [OF _ t _ _ pool]) (simp_all add: sched_inv_mid x_def same_identity_def)
    moreover have "current_ok ((sc_threads s)[t := x]) (sc_current s)"
      using True current_not [OF I(6), of t] by (intro current_upd [OF I(6)]) (auto simp: x_def)
    ultimately have inv1: "sched_inv s1" by (simp add: sched_inv_mid s1_def)
    have "gxos_scheduler_discard_created_thread (Some t) s =
        (\<not> th_live (sc_threads (maybe_reclaim_thread t s1) ! t), maybe_reclaim_thread t s1)"
    proof (cases "th_runnable_queued ?th")
      case q': True
      have "snd (remove_runnable t s) = s\<lparr> sc_threads := (sc_threads s)[t := ?th\<lparr> th_runnable_queued := False \<rparr>], sc_runnable_queue := q \<rparr>"
        "fst (remove_runnable t s)"
        using remove_queued [OF I(5) t q' I(1)] by (simp_all add: q_def)
      then have "upd_thread t (\<lambda>x. x\<lparr> th_state := GXOS_SCHEDULER_THREAD_TERMINATED, th_execution_refs := 0 \<rparr>) (snd (remove_runnable t s)) = s1"
        using len t by (simp add: upd_thread_def s1_def x_def)
      then show ?thesis using True q' \<open>fst (remove_runnable t s)\<close>
        by (auto simp: gxos_scheduler_discard_created_thread_def Let_def split: prod.splits)
    next
      case False
      have "t \<notin> set (sc_runnable_queue s)" using False by (simp add: pool_okD(3) [OF I(5)])
      then have "q = sc_runnable_queue s" by (simp add: q_def remove1_idem)
      moreover have "?th\<lparr> th_runnable_queued := False \<rparr> = ?th" using False by simp
      ultimately have "upd_thread t (\<lambda>x. x\<lparr> th_state := GXOS_SCHEDULER_THREAD_TERMINATED, th_execution_refs := 0 \<rparr>) s = s1"
        by (simp add: upd_thread_def s1_def x_def)
      then show ?thesis using True False by (auto simp: gxos_scheduler_discard_created_thread_def Let_def)
    qed
    then show ?thesis using reclaim_inv [OF inv1 t] by simp
  qed
qed

subsection \<open>Closing a handle\<close>

lemma objects_close:
  assumes o: "objects_ok obs ts es ns st rs" and i: "owned obs i tg"
    and tg: "(\<exists>e. tg = Target_Event e) \<and> ts' = ts \<or> (\<exists>t. tg = Target_Thread t \<and> ts' = ts[t := (ts ! t)\<lparr> th_public_handle_refs := v \<rparr>])"
  shows "objects_ok (obs[i := (obs ! i)\<lparr> ob_public_handle_refs := v, ob_close_state := c \<rparr>]) ts' es ns st rs"
    (is "objects_ok ?obs _ _ _ _ _")
proof -
  note len = objects_okD(1-5) [OF o]
  have i16: "i < 16" "ob_live (obs ! i)" "ob_target (obs ! i) = tg" using i by (auto simp: owned_def)
  have ow: "owned ?obs j x = owned obs j x" for j x using i16 len by (cases "j = i") (auto simp: owned_def)
  have old: "target_ok ts es ns st rs i (obs ! i)" using objects_okD(8) [OF o i16(1,2)] .
  have 1: "target_ok ts' es ns st rs j (?obs ! j)" if j: "j < 16" "ob_live (?obs ! j)" for j
  proof (cases "j = i")
    case True
    then show ?thesis using old tg i16 len
      by (auto simp: target_ok_def thread_object_ok_def event_object_ok_def)
  next
    case False
    then have t: "target_ok ts es ns st rs j (obs ! j)" using objects_okD(8) [OF o, of j] j by simp
    have "ob_target (obs ! j) \<noteq> tg" if "tg = Target_Thread u" for u
      using t old that i16(3) False by (auto simp: target_ok_def thread_object_ok_def)
    then show ?thesis using t tg False by (auto simp: target_ok_def nth_list_update_if split: object_target.splits)
  qed
  have "length ts' = 6 \<and> (\<forall>t < 6. th_live (ts' ! t) = th_live (ts ! t) \<and> th_object_slot (ts' ! t) = th_object_slot (ts ! t))"
    using tg len by (auto simp: nth_list_update_if split: if_splits)
  moreover have "record_object_ok ?obs (rs ! r)" if "r < 6" "wr_valid (rs ! r)" for r
    using objects_okD(13) [OF o that] ow i16 len by (auto simp: record_object_ok_def nth_list_update_if)
  moreover have "ob_slot (?obs ! j) = j \<and> ob_generation (?obs ! j) \<noteq> 0" if "j < 16" "ob_live (?obs ! j)" for j
    using objects_okD(6,7) [OF o, of j] that by (auto simp: nth_list_update_if split: if_splits)
  ultimately show ?thesis using o 1 by (simp add: objects_ok_def ow)
qed

lemma close_inv:
  assumes inv: "sched_inv s"
  shows "sched_inv (snd (gxos_scheduler_close_handle h s))"
proof -
  note I = sched_invD [OF inv]
  have len: "length (sc_threads s) = 6" "length (sc_objects s) = 16" using pool_okD(1) [OF I(5)] objects_okD(1) [OF I(8)] by auto
  define ty where "ty = (ucast (drop_bit 48 h) :: u8)"
  show ?thesis
  proof (cases "ty \<in> {1, 2} \<and> (\<exists>i. lookup_object s h ty = Some i \<and> ob_public_handle_refs (sc_objects s ! i) \<noteq> 0)")
    case False
    then have "gxos_scheduler_close_handle h s = (False, s)"
      by (auto simp: gxos_scheduler_close_handle_def Let_def ty_def split: option.split)
    with inv show ?thesis by simp
  next
    case True
    then obtain i where i: "lookup_object s h ty = Some i" "ob_public_handle_refs (sc_objects s ! i) \<noteq> 0" by blast
    let ?v = "ob_public_handle_refs (sc_objects s ! i) - 1"
    define obs where "obs = (sc_objects s)[i := (sc_objects s ! i)\<lparr> ob_public_handle_refs := ?v, ob_close_state := True \<rparr>]"
    have i16: "i < 16" "ob_live (sc_objects s ! i)" "ob_type (sc_objects s ! i) = ty"
      using lookup_object_bound [OF i(1)] i(1) by (simp_all add: lookup_object_iff)
    show ?thesis
    proof (cases "ty = 2")
      case True
      then obtain e where e: "owned (sc_objects s) i (Target_Event e)" using typed_target(2) [OF I(8) i16(1,2)] i16(3) by blast
      have "snd (gxos_scheduler_close_handle h s) = s\<lparr> sc_objects := obs \<rparr>"
        using True i by (simp add: gxos_scheduler_close_handle_def Let_def obs_def upd_object_def flip: ty_def)
      moreover have "sched_inv (s\<lparr> sc_objects := obs \<rparr>)"
        using I objects_close [OF I(8) e, of "sc_threads s" ?v True] by (simp add: sched_inv_def obs_def)
      ultimately show ?thesis by simp
    next
      case False
      then have ty: "ty = 1" using True by simp
      then obtain t where t: "owned (sc_objects s) i (Target_Thread t)" using typed_target(1) [OF I(8) i16(1,2)] i16(3) by blast
      have T: "t < 6" "th_live (sc_threads s ! t)" "th_public_handle_refs (sc_threads s ! t) = ob_public_handle_refs (sc_objects s ! i)"
        using owned_thread [OF I(8) t] by (auto simp: thread_object_ok_def)
      let ?x = "(sc_threads s ! t)\<lparr> th_public_handle_refs := ?v \<rparr>"
      define s1 where "s1 = s\<lparr> sc_objects := obs, sc_threads := (sc_threads s)[t := ?x] \<rparr>"
      have "snd (gxos_scheduler_close_handle h s) = maybe_reclaim_thread t s1"
        using ty i t T len i16 by (simp add: gxos_scheduler_close_handle_def Let_def obs_def upd_object_def upd_thread_def s1_def
            owned_def flip: ty_def)
      moreover have "sched_inv s1"
      proof -
        have "pool_ok ((sc_threads s)[t := ?x]) (sc_runnable_queue s)"
          using pool_okD(4) [OF I(5) T(1)] T(2) by (intro pool_upd [OF I(5)]) (simp_all add: thread_ok_def)
        moreover have "current_ok ((sc_threads s)[t := ?x]) (sc_current s)"
          using I(6) by (auto simp: current_ok_def nth_list_update_if)
        moreover have "boot_ok ((sc_threads s)[t := ?x])" using I(4) by (auto simp: boot_ok_def nth_list_update_if)
        moreover have "wait_ok ((sc_threads s)[t := ?x]) (sc_wait_records s) (sc_events s) (sc_active_wait_count s)"
          using wait_okD(7) [OF I(7) T(1)]
          by (intro wait_upd_thread [OF I(7) T(1)]) (auto simp: record_thread_ok_def thread_wait_ok_def)
        ultimately show ?thesis using I objects_close [OF I(8) t, of "(sc_threads s)[t := ?x]" ?v True]
          by (simp add: sched_inv_def s1_def obs_def)
      qed
      ultimately show ?thesis using reclaim_inv [OF _ T(1)] by simp
    qed
  qed
qed

end
