(* ===== verification/Scheduler_Signals.thy ===== *)
theory Scheduler_Signals
  imports Scheduler_Reclaim
begin

text \<open>
  Completing waits: what waking a waiter does to a consistent scheduler, hence what
  signalling an event, resetting it and servicing the timeouts do.
\<close>

subsection \<open>Completing one wait\<close>

abbreviation waiters :: "'w sched \<Rightarrow> nat \<Rightarrow> nat list" where
  "waiters s e \<equiv> wt_waiters (sc_events s ! e)"

text \<open>The thread behind position \<open>k\<close> of the list of event \<open>e\<close>.\<close>

definition waiting_thread :: "'w sched \<Rightarrow> nat \<Rightarrow> nat \<Rightarrow> nat" where
  "waiting_thread s e k = the (wr_thread (sc_wait_records s ! (waiters s e ! k)))"

definition completed :: "nat \<Rightarrow> nat \<Rightarrow> u32 \<Rightarrow> GXOS_SCHEDULER_WAIT_RESULT \<Rightarrow> 'w sched \<Rightarrow> 'w sched" where
  "completed e k c res s =
     (let t = waiting_thread s e k in
      s\<lparr> sc_wait_records := completed_records (sc_wait_records s) (waiters s e) k c,
         sc_events := (sc_events s)[e := (sc_events s ! e)\<lparr> wt_waiters := drop_waiter (waiters s e) k \<rparr>],
         sc_threads := (sc_threads s)[t := (sc_threads s ! t)\<lparr> th_blocked_object := 0, th_blocked_result := res,
           th_state := GXOS_SCHEDULER_THREAD_RUNNABLE, th_runnable_queued := True \<rparr>],
         sc_runnable_queue := sc_runnable_queue s @ [t] \<rparr>)"

lemma waiting_thread:
  assumes inv: "sched_inv s" and e: "e < 12" and k: "k < length (waiters s e)"
  defines "t \<equiv> waiting_thread s e k" and "r \<equiv> waiters s e ! k"
  shows "t < 6" "th_live (sc_threads s ! t)" "th_state (sc_threads s ! t) = GXOS_SCHEDULER_THREAD_BLOCKED"
    "wr_thread (sc_wait_records s ! r) = Some t" "th_wait_record (sc_threads s ! t) = Some r"
    "\<not> th_runnable_queued (sc_threads s ! t)" "r < 6"
proof -
  note I = sched_invD [OF inv]
  note W = waiter_record [OF I(7) e k]
  show T: "t < 6" "th_live (sc_threads s ! t)" "th_state (sc_threads s ! t) = GXOS_SCHEDULER_THREAD_BLOCKED"
    "wr_thread (sc_wait_records s ! r) = Some t" "th_wait_record (sc_threads s ! t) = Some r"
    using W(8) by (auto simp: t_def r_def waiting_thread_def)
  show "\<not> th_runnable_queued (sc_threads s ! t)" using pool_queued [OF I(5) T(1)] T(3) by simp
  show "r < 6" using W(1) by (simp add: r_def)
qed

lemma remove_waiter_eq:
  assumes "e < length (sc_events s)" and "k < length (waiters s e)"
  shows "remove_waiter (Waitable_Event e) k s = s\<lparr>
      sc_wait_records := (let m = waiters s e ! (length (waiters s e) - 1); r = waiters s e ! k;
          rs = (sc_wait_records s)[m := (sc_wait_records s ! m)\<lparr> wr_waiter_index := of_nat k \<rparr>]
        in rs[r := (rs ! r)\<lparr> wr_waiter_linked := False, wr_waiter_index := UINT32_MAX \<rparr>]),
      sc_events := (sc_events s)[e := (sc_events s ! e)\<lparr> wt_waiters := drop_waiter (waiters s e) k \<rparr>] \<rparr>"
  using assms by (simp add: remove_waiter_def waitable_at_def upd_waitable_def upd_record_def upd_event_def drop_waiter_def Let_def)

lemma complete_waiter_eq:
  assumes inv: "sched_inv s" and e: "e < 12" and k: "k < length (waiters s e)"
  shows "complete_waiter (Waitable_Event e) k c res s = completed e k c res s"
proof -
  note I = sched_invD [OF inv]
  let ?ws = "waiters s e" and ?t = "waiting_thread s e k"
  let ?r = "?ws ! k"
  note W = waiter_record [OF I(7) e k] and T = waiting_thread [OF inv e k]
  define s1 where "s1 = remove_waiter (Waitable_Event e) k s"
  have es: "length (sc_events s) = 12" using wait_okD(3) [OF I(7)] .
  have s1: "s1 = s\<lparr> sc_wait_records := sc_wait_records s1, sc_events := sc_events s1 \<rparr>"
    "sc_events s1 = (sc_events s)[e := (sc_events s ! e)\<lparr> wt_waiters := drop_waiter ?ws k \<rparr>]"
    using remove_waiter_eq [of e s k] e k es by (simp_all add: s1_def)
  have rs1: "(sc_wait_records s1)[?r := (sc_wait_records s1 ! ?r)\<lparr> wr_completed := True, wr_completion_result := c \<rparr>] =
      completed_records (sc_wait_records s) ?ws k c"
    using remove_waiter_eq [of e s k] e k es W(1) wait_okD(2) [OF I(7)] by (simp add: s1_def completed_records_def Let_def)
  define s2 where "s2 = upd_record ?r (\<lambda>x. x\<lparr> wr_completed := True, wr_completion_result := c \<rparr>) s1"
  have s2: "s2 = s\<lparr> sc_wait_records := completed_records (sc_wait_records s) ?ws k c, sc_events := sc_events s1 \<rparr>"
    unfolding s2_def upd_record_def rs1 by (subst s1(1)) simp
  define x where "x = (sc_threads s ! ?t)\<lparr> th_blocked_object := 0, th_blocked_result := res, th_state := GXOS_SCHEDULER_THREAD_RUNNABLE \<rparr>"
  have s3: "upd_thread ?t (\<lambda>x. x\<lparr> th_blocked_object := 0, th_blocked_result := res, th_state := GXOS_SCHEDULER_THREAD_RUNNABLE \<rparr>) s2 =
      s2\<lparr> sc_threads := (sc_threads s)[?t := x] \<rparr>"
    by (simp add: upd_thread_def s2 x_def)
  have "enqueue_runnable ?t (s2\<lparr> sc_threads := (sc_threads s)[?t := x] \<rparr>) =
      (True, s2\<lparr> sc_threads := (sc_threads s)[?t := x\<lparr> th_runnable_queued := True \<rparr>], sc_runnable_queue := sc_runnable_queue s @ [?t] \<rparr>)"
    using enqueue_ready [OF I(5) T(1,6), of "s2\<lparr> sc_threads := (sc_threads s)[?t := x] \<rparr>" x] T I(1) by (simp add: x_def s2)
  moreover have "complete_waiter (Waitable_Event e) k c res s =
      (case enqueue_runnable ?t (s2\<lparr> sc_threads := (sc_threads s)[?t := x] \<rparr>) of (queued, s) \<Rightarrow>
         if queued then s else upd_thread ?t (\<lambda>x. x\<lparr> th_state := GXOS_SCHEDULER_THREAD_BLOCKED \<rparr>) s)"
    using W(2,3,7) T(4) k
    by (simp add: complete_waiter_def waitable_at_def Let_def flip: s1_def) (simp add: s3 flip: s2_def)
  ultimately show ?thesis by (simp add: completed_def Let_def s2 s1(2) x_def)
qed

lemma completed_inv:
  assumes inv: "sched_inv s" and e: "e < 12" and k: "k < length (waiters s e)" and out: "outcome_ok res c"
  shows "sched_inv (completed e k c res s)"
proof -
  note I = sched_invD [OF inv] and T = waiting_thread [OF inv e k]
  let ?t = "waiting_thread s e k" and ?ws = "waiters s e"
  let ?x = "(sc_threads s ! ?t)\<lparr> th_blocked_object := 0, th_blocked_result := res,
           th_state := GXOS_SCHEDULER_THREAD_RUNNABLE, th_runnable_queued := True \<rparr>"
  let ?y = "(sc_events s ! e)\<lparr> wt_waiters := drop_waiter ?ws k \<rparr>"
  have rs: "length (sc_wait_records s) = 6" using wait_okD(2) [OF I(7)] .
  have live: "wt_live (sc_events s ! e)"
  proof -
    note R = waiter_record [OF I(7) e k]
    with wait_okD(4) [OF I(7) R(1,2)] show ?thesis by (auto simp: record_ok_def record_event_ok_def)
  qed
  have "pool_ok ((sc_threads s)[?t := ?x]) (sc_runnable_queue s @ [?t])"
    using T by (intro pool_enq [OF I(5)]) (simp_all add: thread_ok_def)
  moreover have "current_ok ((sc_threads s)[?t := ?x]) (sc_current s)"
    using T(3) current_not [OF I(6), of ?t] by (intro current_upd [OF I(6)]) simp_all
  moreover have "boot_ok ((sc_threads s)[?t := ?x])" using I(4) by (auto simp: boot_ok_def nth_list_update_if)
  moreover have "wait_ok ((sc_threads s)[?t := ?x]) (completed_records (sc_wait_records s) ?ws k c)
      ((sc_events s)[e := ?y]) (sc_active_wait_count s)"
    using T live out by (intro wait_complete [OF I(7) e k T(4) out]) simp_all
  moreover have "objects_ok (sc_objects s) ((sc_threads s)[?t := ?x]) ((sc_events s)[e := ?y]) (sc_memory_resource_notifications s)
      (sc_standard_stream s) (completed_records (sc_wait_records s) ?ws k c)"
  proof (rule objects_upd_records)
    show "objects_ok (sc_objects s) ((sc_threads s)[?t := ?x]) ((sc_events s)[e := ?y]) (sc_memory_resource_notifications s)
      (sc_standard_stream s) (sc_wait_records s)"
      using T by (intro objects_upd_event objects_upd_thread [OF I(8)]) simp_all
  qed (use rs in \<open>auto simp: completed_records_nth\<close>)
  ultimately show ?thesis using I by (simp add: sched_inv_def completed_def Let_def)
qed

lemma wake_waiter_eq:
  "sched_inv s \<Longrightarrow> e < 12 \<Longrightarrow> k < length (waiters s e) \<Longrightarrow>
     wake_waiter (Waitable_Event e) k s = completed e k GXOS_WAIT_OBJECT_0 GXOS_SCHEDULER_WAIT_SIGNALED s"
  by (simp add: wake_waiter_def complete_waiter_eq)

lemma completed_waiters:
  "e < length (sc_events s) \<Longrightarrow> waiters (completed e k c res s) f = (if f = e then drop_waiter (waiters s e) k else waiters s f)"
  by (auto simp: completed_def Let_def nth_list_update_if)

subsection \<open>Waking every waiter\<close>

text \<open>What a thread becomes when its wait ends with a result.\<close>

definition woken :: "GXOS_SCHEDULER_WAIT_RESULT \<Rightarrow> GXOS_SCHEDULER_TCB \<Rightarrow> GXOS_SCHEDULER_TCB" where
  "woken res x = x\<lparr> th_blocked_object := 0, th_blocked_result := res, th_state := GXOS_SCHEDULER_THREAD_RUNNABLE,
     th_runnable_queued := True \<rparr>"

definition waits_on :: "'w sched \<Rightarrow> nat \<Rightarrow> nat \<Rightarrow> bool" where
  "waits_on s t e \<longleftrightarrow> (\<exists>k < length (waiters s e). waiting_thread s e k = t)"

lemma ex_nth_conv: "(\<exists>k < length xs. P (xs ! k)) \<longleftrightarrow> (\<exists>x \<in> set xs. P x)"
  by (metis in_set_conv_nth)

lemma waits_on_completed:
  assumes inv: "sched_inv s" and e: "e < 12" and k: "k < length (waiters s e)" and out: "outcome_ok res c"
  shows "waits_on (completed e k c res s) t e \<longleftrightarrow> waits_on s t e \<and> t \<noteq> waiting_thread s e k"
proof -
  note I = sched_invD [OF inv]
  let ?ws = "waiters s e" and ?s = "completed e k c res s"
  have len: "length (sc_events s) = 12" "length (sc_wait_records s) = 6" using wait_okD(2,3) [OF I(7)] by auto
  have dist: "distinct ?ws" using waiters_distinct [OF wait_okD(6) [OF I(7) e]] .
  have thr: "wr_thread (sc_wait_records ?s ! r) = wr_thread (sc_wait_records s ! r)" if "r < 6" for r
    using completed_records_nth [OF len(2) that] by (simp add: completed_def Let_def)
  have lt: "r < 6" if "r \<in> set ?ws" for r using that waiter_record(1) [OF I(7) e] by (auto simp: in_set_conv_nth)
  have as_set: "waits_on s t e \<longleftrightarrow> (\<exists>r \<in> set ?ws. the (wr_thread (sc_wait_records s ! r)) = t)"
    unfolding waits_on_def waiting_thread_def by (rule ex_nth_conv)
  have "waits_on ?s t e \<longleftrightarrow> (\<exists>r \<in> set (drop_waiter ?ws k). the (wr_thread (sc_wait_records s ! r)) = t)"
  proof -
    have w: "waiters ?s e = drop_waiter ?ws k" using completed_waiters [of e s k c res e] e len by simp
    have "set (drop_waiter ?ws k) \<subseteq> set ?ws" using drop_waiter_set(1) [OF dist k] by auto
    then have "\<forall>r \<in> set (drop_waiter ?ws k). wr_thread (sc_wait_records ?s ! r) = wr_thread (sc_wait_records s ! r)"
      using thr lt by blast
    then show ?thesis unfolding waits_on_def waiting_thread_def w
      using ex_nth_conv [of "drop_waiter ?ws k" "\<lambda>r. the (wr_thread (sc_wait_records ?s ! r)) = t"] by auto
  qed
  also have "\<dots> \<longleftrightarrow> (\<exists>r \<in> set ?ws. r \<noteq> ?ws ! k \<and> the (wr_thread (sc_wait_records s ! r)) = t)"
    using drop_waiter_set(1) [OF dist k] by auto
  also have "\<dots> \<longleftrightarrow> waits_on s t e \<and> t \<noteq> waiting_thread s e k"
  proof -
    have "r = ?ws ! k" if r: "r \<in> set ?ws" "the (wr_thread (sc_wait_records s ! r)) = waiting_thread s e k" for r
    proof -
      obtain j where j: "j < length ?ws" "r = ?ws ! j" using r(1) by (auto simp: in_set_conv_nth)
      have "waiting_thread s e j = waiting_thread s e k" using r(2) j by (simp add: waiting_thread_def)
      then show ?thesis using waiting_thread(5) [OF inv e j(1)] waiting_thread(5) [OF inv e k] j(2) by simp
    qed
    then show ?thesis unfolding as_set waiting_thread_def by metis
  qed
  finally show ?thesis .
qed

lemma wake_all_spec:
  assumes "sched_inv s" and "e < 12"
  defines "s' \<equiv> wake_all (Waitable_Event e) s"
  shows "sched_inv s' \<and> waiters s' e = [] \<and>
    (\<forall>t < 6. sc_threads s' ! t = (if waits_on s t e then woken GXOS_SCHEDULER_WAIT_SIGNALED (sc_threads s ! t) else sc_threads s ! t)) \<and>
    (\<forall>f. f \<noteq> e \<longrightarrow> sc_events s' ! f = sc_events s ! f) \<and>
    sc_events s' ! e = (sc_events s ! e)\<lparr> wt_waiters := [] \<rparr> \<and> sc_current s' = sc_current s"
  using assms(1,2) unfolding s'_def
proof (induction "length (waiters s e)" arbitrary: s)
  case 0
  then have "wake_all (Waitable_Event e) s = s" by (subst wake_all.simps) (simp add: waitable_at_def)
  moreover have "\<not> waits_on s t e" for t using 0 by (simp add: waits_on_def)
  ultimately show ?case using 0 by simp
next
  case (Suc n)
  note I = sched_invD [OF Suc.prems(1)] and e = Suc.prems(2)
  have len: "length (sc_events s) = 12" "length (sc_threads s) = 6" using wait_okD(1,3) [OF I(7)] by auto
  have k: "0 < length (waiters s e)" using Suc.hyps(2) by linarith
  have out: "outcome_ok GXOS_SCHEDULER_WAIT_SIGNALED GXOS_WAIT_OBJECT_0" by (simp add: outcome_ok_def)
  define s1 where "s1 = completed e 0 GXOS_WAIT_OBJECT_0 GXOS_SCHEDULER_WAIT_SIGNALED s"
  have unfold: "wake_all (Waitable_Event e) s = wake_all (Waitable_Event e) s1"
    using k e len wake_waiter_eq [OF Suc.prems(1) e k] by (subst wake_all.simps) (simp add: waitable_at_def valid_waitable_def s1_def)
  have "n = length (waiters s1 e)"
    using Suc.hyps(2) completed_waiters [of e s 0] e len drop_waiter_nth(1) [OF k] by (simp add: s1_def)
  note IH = Suc.hyps(1) [OF this completed_inv [OF Suc.prems(1) e k out, folded s1_def] e]
  have w1: "waits_on s1 t e \<longleftrightarrow> waits_on s t e \<and> t \<noteq> waiting_thread s e 0" for t
    using waits_on_completed [OF Suc.prems(1) e k out] by (simp add: s1_def)
  have w0: "waits_on s (waiting_thread s e 0) e" using k by (auto simp: waits_on_def)
  have t1: "sc_threads s1 ! t = (if t = waiting_thread s e 0 then woken GXOS_SCHEDULER_WAIT_SIGNALED (sc_threads s ! t) else sc_threads s ! t)"
    if "t < 6" for t
    using that len by (auto simp: s1_def completed_def Let_def woken_def nth_list_update_if)
  have e1: "f \<noteq> e \<Longrightarrow> sc_events s1 ! f = sc_events s ! f" "sc_events s1 ! e = (sc_events s ! e)\<lparr> wt_waiters := drop_waiter (waiters s e) 0 \<rparr>" for f
    using e len by (simp_all add: s1_def completed_def Let_def)
  have c1: "sc_current s1 = sc_current s" by (simp add: s1_def completed_def Let_def)
  show ?case unfolding unfold using IH w1 w0 t1 e1 c1 by auto
qed

subsection \<open>Signalling and resetting\<close>

lemma event_of_handle:
  assumes inv: "sched_inv s" and h: "event_of_handle s h = Some e"
  shows "e < 12" "wt_live (sc_events s ! e)"
proof -
  note I = sched_invD [OF inv]
  obtain i where i: "lookup_object s h GXOS_SCHEDULER_OBJECT_EVENT = Some i" "target_event (ob_target (sc_objects s ! i)) = Some e"
    using h by (auto simp: event_of_handle_def split: option.splits)
  have "owned (sc_objects s) i (Target_Event e)"
    using i lookup_object_bound [OF i(1)] by (cases "ob_target (sc_objects s ! i)") (auto simp: owned_def lookup_object_iff)
  from owned_event [OF I(8) this] show "e < 12" "wt_live (sc_events s ! e)" by (auto simp: event_object_ok_def)
qed

lemma set_signal_inv:
  assumes inv: "sched_inv s"
  shows "sched_inv (upd_event e (\<lambda>x. x\<lparr> wt_signaled := b \<rparr>) s)"
proof -
  note I = sched_invD [OF inv]
  let ?x = "(sc_events s ! e)\<lparr> wt_signaled := b \<rparr>"
  have "wait_ok (sc_threads s) (sc_wait_records s) ((sc_events s)[e := ?x]) (sc_active_wait_count s)"
  proof (rule wait_upd_event [OF I(7)])
    show "wt_live ?x \<or> (\<forall>r < 6. wr_valid (sc_wait_records s ! r) \<longrightarrow> wr_waitable (sc_wait_records s ! r) \<noteq> Some (Waitable_Event e))"
    proof -
      have "wt_live (sc_events s ! e)" if "r < 6" "wr_valid (sc_wait_records s ! r)"
        "wr_waitable (sc_wait_records s ! r) = Some (Waitable_Event e)" for r
        using wait_okD(4) [OF I(7) that(1,2)] that(3) by (auto simp: record_ok_def record_event_ok_def)
      then show ?thesis by auto
    qed
  qed simp
  moreover have "objects_ok (sc_objects s) (sc_threads s) ((sc_events s)[e := ?x]) (sc_memory_resource_notifications s)
       (sc_standard_stream s) (sc_wait_records s)" by (rule objects_upd_event [OF I(8)]) simp_all
  ultimately show ?thesis using I by (simp add: sched_inv_def upd_event_def)
qed

lemma waits_on_signal [simp]: "waits_on (upd_event e (\<lambda>x. x\<lparr> wt_signaled := b \<rparr>) s) t f = waits_on s t f"
  by (auto simp: waits_on_def waiting_thread_def nth_list_update_if)

lemma signal_inv:
  assumes inv: "sched_inv s"
  shows "sched_inv (snd (gxos_scheduler_signal_event h s))"
proof (cases "event_of_handle s h")
  case None
  then show ?thesis using inv by (simp add: gxos_scheduler_signal_event_def)
next
  case (Some e)
  note E = event_of_handle [OF inv Some]
  have out: "outcome_ok GXOS_SCHEDULER_WAIT_SIGNALED GXOS_WAIT_OBJECT_0" by (simp add: outcome_ok_def)
  have "sched_inv (wake_waiter (Waitable_Event e) 0 (upd_event e (\<lambda>x. x\<lparr> wt_signaled := False \<rparr>) s))" if "waiters s e \<noteq> []"
  proof -
    let ?s = "upd_event e (\<lambda>x. x\<lparr> wt_signaled := False \<rparr>) s"
    have k: "0 < length (waiters ?s e)" using that by (simp add: nth_list_update_if)
    show ?thesis using completed_inv [OF set_signal_inv [OF inv] E(1) k out]
      by (simp only: wake_waiter_eq [OF set_signal_inv [OF inv] E(1) k])
  qed
  then show ?thesis using Some E wake_all_spec [OF set_signal_inv [OF inv] E(1)] set_signal_inv [OF inv]
    by (simp add: gxos_scheduler_signal_event_def Let_def)
qed

lemma reset_inv: "sched_inv s \<Longrightarrow> sched_inv (snd (gxos_scheduler_reset_event h s))"
  by (auto simp: gxos_scheduler_reset_event_def set_signal_inv split: option.split)

subsection \<open>Timeouts\<close>

text \<open>The position of a waiting record in the list of its event.\<close>

lemma due_record:
  assumes inv: "sched_inv s" and r: "r < 6" and due: "timeout_due now (sc_wait_records s ! r)"
  shows "\<exists>e k t. e < 12 \<and> k < length (waiters s e) \<and> waiters s e ! k = r \<and> waiting_thread s e k = t \<and>
    wr_thread (sc_wait_records s ! r) = Some t \<and>
    timeout_waiter r s = completed e k GXOS_WAIT_TIMEOUT GXOS_SCHEDULER_WAIT_TIMED_OUT s"
proof -
  note I = sched_invD [OF inv]
  have v: "wr_valid (sc_wait_records s ! r)" "\<not> wr_completed (sc_wait_records s ! r)" using due by (simp_all add: timeout_due_def)
  from wait_okD(4) [OF I(7) r v(1)] v(2) obtain t e where te: "wr_thread (sc_wait_records s ! r) = Some t" "e < 12"
    "wr_waitable (sc_wait_records s ! r) = Some (Waitable_Event e)" "record_event_ok r (sc_wait_records s ! r) (sc_events s ! e)"
    by (auto simp: record_ok_def)
  define k where "k = unat (wr_waiter_index (sc_wait_records s ! r))"
  have k: "k < length (waiters s e)" "waiters s e ! k = r" "wr_waiter_linked (sc_wait_records s ! r)"
    using te(4) v(2) by (auto simp: record_event_ok_def k_def)
  have "timeout_waiter r s = completed e k GXOS_WAIT_TIMEOUT GXOS_SCHEDULER_WAIT_TIMED_OUT s"
    using te k complete_waiter_eq [OF inv te(2) k(1)] by (simp add: timeout_waiter_def Let_def k_def)
  with te k show ?thesis by (intro exI [of _ e] exI [of _ k] exI [of _ t]) (simp add: waiting_thread_def)
qed

lemma service_step:
  assumes inv: "sched_inv s" and r: "r < 6" and due: "timeout_due now (sc_wait_records s ! r)"
    and t: "wr_thread (sc_wait_records s ! r) = Some t"
  defines "s' \<equiv> timeout_waiter r s"
  shows "sched_inv s'" and "sc_current s' = sc_current s"
    and "u < 6 \<Longrightarrow> sc_threads s' ! u = (if u = t then woken GXOS_SCHEDULER_WAIT_TIMED_OUT (sc_threads s ! u) else sc_threads s ! u)"
    and "q < 6 \<Longrightarrow> q \<noteq> r \<Longrightarrow> timeout_due now (sc_wait_records s' ! q) = timeout_due now (sc_wait_records s ! q)"
    and "q < 6 \<Longrightarrow> wr_thread (sc_wait_records s' ! q) = wr_thread (sc_wait_records s ! q)"
    and "\<not> timeout_due now (sc_wait_records s' ! r)"
proof -
  note I = sched_invD [OF inv]
  have len: "length (sc_wait_records s) = 6" "length (sc_threads s) = 6" using wait_okD(1,2) [OF I(7)] by auto
  from due_record [OF inv r due] t obtain e k where e: "e < 12" "k < length (waiters s e)" "waiters s e ! k = r"
    "waiting_thread s e k = t" and s': "s' = completed e k GXOS_WAIT_TIMEOUT GXOS_SCHEDULER_WAIT_TIMED_OUT s"
    unfolding s'_def by auto
  have "outcome_ok GXOS_SCHEDULER_WAIT_TIMED_OUT GXOS_WAIT_TIMEOUT" by (simp add: outcome_ok_def)
  then show "sched_inv s'" unfolding s' using completed_inv [OF inv e(1,2)] by blast
  show "sc_current s' = sc_current s" by (simp add: s' completed_def Let_def)
  show "u < 6 \<Longrightarrow> sc_threads s' ! u = (if u = t then woken GXOS_SCHEDULER_WAIT_TIMED_OUT (sc_threads s ! u) else sc_threads s ! u)"
    using e(4) len by (auto simp: s' completed_def Let_def woken_def nth_list_update_if)
  show "q < 6 \<Longrightarrow> q \<noteq> r \<Longrightarrow> timeout_due now (sc_wait_records s' ! q) = timeout_due now (sc_wait_records s ! q)"
    using e(3) completed_records_nth [OF len(1)] by (simp add: s' completed_def Let_def timeout_due_def)
  show "q < 6 \<Longrightarrow> wr_thread (sc_wait_records s' ! q) = wr_thread (sc_wait_records s ! q)"
    using completed_records_nth [OF len(1)] by (simp add: s' completed_def Let_def)
  show "\<not> timeout_due now (sc_wait_records s' ! r)"
    using e(3) r completed_records_nth [OF len(1)] by (simp add: s' completed_def Let_def timeout_due_def)
qed

lemma service_fold:
  fixes now :: u64 and n :: nat
  assumes "sched_inv s" and "distinct rs" and "\<forall>r \<in> set rs. r < 6"
  defines "p \<equiv> fold (service_timeout now) rs (n, s)"
  shows "sched_inv (snd p) \<and> sc_current (snd p) = sc_current s \<and>
    fst p = n + length (filter (\<lambda>r. timeout_due now (sc_wait_records s ! r)) rs) \<and>
    (\<forall>t < 6. sc_threads (snd p) ! t =
       (if \<exists>r \<in> set rs. timeout_due now (sc_wait_records s ! r) \<and> wr_thread (sc_wait_records s ! r) = Some t
        then woken GXOS_SCHEDULER_WAIT_TIMED_OUT (sc_threads s ! t) else sc_threads s ! t)) \<and>
    (\<forall>q < 6. timeout_due now (sc_wait_records (snd p) ! q) \<longleftrightarrow> timeout_due now (sc_wait_records s ! q) \<and> q \<notin> set rs)"
  using assms(1-3) unfolding p_def
proof (induction rs arbitrary: s n)
  case Nil
  then show ?case by simp
next
  case (Cons r rs)
  have r: "r < 6" using Cons.prems by simp
  show ?case
  proof (cases "timeout_due now (sc_wait_records s ! r)")
    case False
    then have "service_timeout now r (n, s) = (n, s)" by (simp add: service_timeout_def)
    with Cons.IH [of s n] Cons.prems False show ?thesis by auto
  next
    case True
    obtain t where t: "wr_thread (sc_wait_records s ! r) = Some t" using due_record [OF Cons.prems(1) r True] by blast
    note S = service_step [OF Cons.prems(1) r True t]
    have "service_timeout now r (n, s) = (n + 1, timeout_waiter r s)" using True by (simp add: service_timeout_def)
    moreover have q: "q < 6" "q \<noteq> r" if "q \<in> set rs" for q using Cons.prems that by auto
    have f: "filter (\<lambda>r. timeout_due now (sc_wait_records (timeout_waiter r' s) ! r)) rs =
        filter (\<lambda>r. timeout_due now (sc_wait_records s ! r)) rs" if "r' = r" for r'
      using S(4) q that by (intro filter_cong) auto
    have ex: "(\<exists>q \<in> set rs. timeout_due now (sc_wait_records (timeout_waiter r s) ! q) \<and> wr_thread (sc_wait_records (timeout_waiter r s) ! q) = Some u)
        \<longleftrightarrow> (\<exists>q \<in> set rs. timeout_due now (sc_wait_records s ! q) \<and> wr_thread (sc_wait_records s ! q) = Some u)" for u
      using S(4,5) q by (metis (no_types, lifting))
    have once: "\<not> (timeout_due now (sc_wait_records s ! q) \<and> wr_thread (sc_wait_records s ! q) = Some t)" if "q \<in> set rs" for q
    proof
      assume "timeout_due now (sc_wait_records s ! q) \<and> wr_thread (sc_wait_records s ! q) = Some t"
      then have "q = r" using record_thread_unique [OF sched_invD(7) [OF Cons.prems(1)] q(1) [OF that] _ r] t True
        by (simp add: timeout_due_def)
      with q(2) [OF that] show False by simp
    qed
    moreover note IH = Cons.IH [OF S(1), of "n + 1"]
    have "sc_threads (snd (fold (service_timeout now) rs (n + 1, timeout_waiter r s))) ! u =
       (if \<exists>q \<in> set (r # rs). timeout_due now (sc_wait_records s ! q) \<and> wr_thread (sc_wait_records s ! q) = Some u
        then woken GXOS_SCHEDULER_WAIT_TIMED_OUT (sc_threads s ! u) else sc_threads s ! u)" if u: "u < 6" for u
    proof (cases "u = t")
      case u': True
      then show ?thesis using IH Cons.prems u once True t S(3) [OF u] by (auto simp: ex)
    next
      case False
      then show ?thesis using IH Cons.prems u t S(3) [OF u] by (auto simp: ex)
    qed
    moreover have "timeout_due now (sc_wait_records (snd (fold (service_timeout now) rs (n + 1, timeout_waiter r s))) ! u) \<longleftrightarrow>
        timeout_due now (sc_wait_records s ! u) \<and> u \<notin> set (r # rs)" if u: "u < 6" for u
      using IH Cons.prems u S(4) [OF u] S(6) by (cases "u = r") auto
    ultimately show ?thesis using IH Cons.prems True S(2) f [OF refl] by simp
  qed
qed

lemma service_inv: "sched_inv s \<Longrightarrow> sched_inv (snd (gxos_scheduler_service_timeouts now s))"
  using service_fold [of s "[0..<6]" now 0] by (simp add: gxos_scheduler_service_timeouts_def)

lemma poll_inv: "sched_inv s \<Longrightarrow> sched_inv (snd (gxos_scheduler_poll_timeouts s))"
  by (auto simp: gxos_scheduler_poll_timeouts_def Let_def split_beta intro!: service_inv split: option.split)

end
