(* ===== verification/Scheduler_Blocking.thy ===== *)
theory Scheduler_Blocking
  imports Scheduler_Signals
begin

text \<open>
  Waiting: in a consistent scheduler a wait on an open event either takes the signal, or
  blocks the running thread and dispatches the next one, or, when no thread could run,
  fails without a trace; finishing a completed wait frees its record.
\<close>

subsection \<open>Room for a wait\<close>

text \<open>Every valid record belongs to a thread of its own, so a thread that does not wait finds a free one.\<close>

lemma free_record:
  assumes inv: "sched_inv s" and k: "k < 6" "th_wait_record (sc_threads s ! k) = None"
  shows "\<exists>r. find_free_wait_record s = Some r \<and> r < 6 \<and> \<not> wr_valid (sc_wait_records s ! r)"
proof -
  note I = sched_invD [OF inv]
  have len: "length (sc_wait_records s) = 6" using wait_okD(2) [OF I(7)] .
  define V where "V = {r. r < 6 \<and> wr_valid (sc_wait_records s ! r)}"
  define f where "f r = the (wr_thread (sc_wait_records s ! r))" for r
  have f: "f r < 6 \<and> f r \<noteq> k \<and> wr_thread (sc_wait_records s ! r) = Some (f r)" if "r \<in> V" for r
    using wait_okD(4) [OF I(7), of r] that k by (auto simp: V_def f_def record_ok_def record_thread_ok_def)
  have "inj_on f V"
  proof (rule inj_onI)
    fix r q assume "r \<in> V" "q \<in> V" "f r = f q"
    then show "r = q" using f record_thread_unique [OF I(7), of r q] by (auto simp: V_def)
  qed
  moreover have "f ` V \<subseteq> {0..<6} - {k}" using f by auto
  ultimately have "card V \<le> card ({0..<6} - {k})" by (intro card_inj_on_le) auto
  then have "card V < 6" using k by simp
  have "\<exists>r < 6. \<not> wr_valid (sc_wait_records s ! r)"
  proof (rule ccontr)
    assume "\<not> (\<exists>r < 6. \<not> wr_valid (sc_wait_records s ! r))"
    then have "V = {0..<6}" by (auto simp: V_def)
    with \<open>card V < 6\<close> show False by simp
  qed
  then obtain x where "x \<in> set (sc_wait_records s)" "\<not> wr_valid x" using len by (metis nth_mem)
  then obtain r where r: "find_index (\<lambda>x. \<not> wr_valid x) (sc_wait_records s) = Some r"
    using find_index_ex [of x _ "\<lambda>x. \<not> wr_valid x"] by blast
  from find_index_SomeD [OF r] show ?thesis using r len I(1) by (auto simp: find_free_wait_record_def)
qed

text \<open>The state in which the record is linked and the thread blocked, before the next thread is chosen.\<close>

definition wait_entry ::
    "GXOS_SCHEDULER_HANDLE \<Rightarrow> nat \<Rightarrow> nat \<Rightarrow> nat \<Rightarrow> nat \<Rightarrow> GXOS_SCHEDULER_WAIT_RECORD \<Rightarrow> 'w sched \<Rightarrow> 'w sched" where
  "wait_entry handle k i e r z s = s
     \<lparr> sc_objects := (sc_objects s)[i := (sc_objects s ! i)\<lparr> ob_internal_refs := ob_internal_refs (sc_objects s ! i) + 1 \<rparr>],
       sc_wait_records := (sc_wait_records s)[r := z\<lparr> wr_waiter_index := of_nat (length (waiters s e)), wr_waiter_linked := True,
         wr_active := True \<rparr>],
       sc_events := (sc_events s)[e := (sc_events s ! e)\<lparr> wt_waiters := waiters s e @ [r] \<rparr>],
       sc_active_wait_count := sc_active_wait_count s + 1,
       sc_threads := (sc_threads s)[k := (sc_threads s ! k)\<lparr> th_wait_record := Some r, th_blocked_object := handle,
         th_blocked_result := GXOS_SCHEDULER_WAIT_FAILURE, th_state := GXOS_SCHEDULER_THREAD_BLOCKED \<rparr>] \<rparr>"

text \<open>A record filled in for the wait, not yet linked.\<close>

definition wait_record_for :: "'w sched \<Rightarrow> nat \<Rightarrow> nat \<Rightarrow> nat \<Rightarrow> GXOS_SCHEDULER_WAIT_RECORD \<Rightarrow> bool" where
  "wait_record_for s k i e z \<longleftrightarrow> wr_valid z \<and> wr_pin_held z \<and> wr_thread z = Some k \<and> wr_object z = Some i \<and>
     wr_waitable z = Some (Waitable_Event e) \<and> wr_object_slot z = i \<and>
     wr_object_generation z = ob_generation (sc_objects s ! i) \<and> \<not> wr_completed z \<and> \<not> wr_waiter_linked z \<and> \<not> wr_active z"

lemma wait_entry_mid:
  assumes inv: "sched_inv s" and k: "running s k" "th_wait_record (sc_threads s ! k) = None"
    and i: "owned (sc_objects s) i (Target_Event e)" and r: "r < 6" "\<not> wr_valid (sc_wait_records s ! r)"
    and z: "wait_record_for s k i e z"
  shows "sched_mid (wait_entry handle k i e r z s)" "none_running (sc_threads (wait_entry handle k i e r z s))"
proof -
  note I = sched_invD [OF inv]
  have cur: "sc_current s = Some k" using k by (simp add: running_def)
  note K = run_inv_current [OF I(9) cur]
  have len: "length (sc_threads s) = 6" using pool_okD(1) [OF I(5)] .
  have ev: "e < 12" "wt_live (sc_events s ! e)" using owned_event [OF I(8) i] by (auto simp: event_object_ok_def)
  let ?x = "(sc_threads s ! k)\<lparr> th_wait_record := Some r, th_blocked_object := handle,
      th_blocked_result := GXOS_SCHEDULER_WAIT_FAILURE, th_state := GXOS_SCHEDULER_THREAD_BLOCKED \<rparr>"
  let ?z = "z\<lparr> wr_waiter_index := of_nat (length (waiters s e)), wr_waiter_linked := True, wr_active := True \<rparr>"
  let ?y = "(sc_events s ! e)\<lparr> wt_waiters := waiters s e @ [r] \<rparr>"
  have "pool_ok ((sc_threads s)[k := ?x]) (sc_runnable_queue s)"
    using K by (intro pool_upd [OF I(5)]) (simp_all add: thread_ok_def)
  moreover have "boot_ok ((sc_threads s)[k := ?x])" using I(4) by (auto simp: boot_ok_def nth_list_update_if)
  moreover have "wait_ok ((sc_threads s)[k := ?x]) ((sc_wait_records s)[r := ?z]) ((sc_events s)[e := ?y]) (sc_active_wait_count s + 1)"
    using z K(2) ev(2) by (intro wait_enter [OF I(7) ev(1) r K(1) k(2)]) (simp_all add: wait_record_for_def)
  moreover have "objects_ok ((sc_objects s)[i := (sc_objects s ! i)\<lparr> ob_internal_refs := ob_internal_refs (sc_objects s ! i) + 1 \<rparr>])
      ((sc_threads s)[k := ?x]) ((sc_events s)[e := ?y]) (sc_memory_resource_notifications s) (sc_standard_stream s)
      ((sc_wait_records s)[r := ?z])"
    using z by (intro objects_upd_event objects_upd_thread objects_pin [OF I(8) r i]) (simp_all add: wait_record_for_def)
  ultimately show "sched_mid (wait_entry handle k i e r z s)" using I by (simp add: sched_mid_def wait_entry_def)
  show "none_running (sc_threads (wait_entry handle k i e r z s))"
    using K(4) K(1) len by (auto simp: none_running_def wait_entry_def nth_list_update_if)
qed

subsection \<open>Entering\<close>

lemma enter_wait_eq:
  fixes handle :: GXOS_SCHEDULER_HANDLE
  assumes inv: "sched_inv s" and k: "running s k" "th_wait_record (sc_threads s ! k) = None"
    and i: "owned (sc_objects s) i (Target_Event e)" and r: "r < 6" "\<not> wr_valid (sc_wait_records s ! r)"
    and z: "wait_record_for s k i e z" and sig: "\<not> wt_signaled (sc_events s ! e)"
  defines "s1 \<equiv> s\<lparr> sc_objects := (sc_objects s)[i := (sc_objects s ! i)\<lparr> ob_internal_refs := ob_internal_refs (sc_objects s ! i) + 1 \<rparr>],
      sc_wait_records := (sc_wait_records s)[r := z] \<rparr>"
    and "s2 \<equiv> wait_entry handle k i e r z s"
  shows "enter_wait handle k e r s1 =
    (case pick_next_runnable s2 k of
       None \<Rightarrow> (GXOS_SCHEDULER_WAIT_FAILURE, None, upd_thread k (\<lambda>x. x\<lparr> th_state := GXOS_SCHEDULER_THREAD_RUNNING, th_wait_record := None,
                 th_blocked_object := 0, th_blocked_result := GXOS_SCHEDULER_WAIT_FAILURE \<rparr>) s)
     | Some next \<Rightarrow> (GXOS_SCHEDULER_WAIT_BLOCKED, Some (fst (choose_next next s2), r), snd (choose_next next s2)))"
proof -
  note I = sched_invD [OF inv]
  have ev: "e < 12" using owned_event [OF I(8) i] by simp
  have len: "length (sc_events s) = 12" "length (sc_wait_records s) = 6" "length (sc_threads s) = 6" using wait_okD(1-3) [OF I(7)] by auto
  have i16: "i < length (sc_objects s)" using i objects_okD(1) [OF I(8)] by (simp add: owned_def)
  have k6: "k < 6" using run_inv_current(1) [OF I(9)] k(1) by (simp add: running_def)
  let ?ws = "waiters s e"
  have ws: "q < 6 \<and> q \<noteq> r \<and> wr_thread (sc_wait_records s ! q) \<noteq> Some k" if "q \<in> set ?ws" for q
  proof -
    from that obtain j where "j < length ?ws" "q = ?ws ! j" by (auto simp: in_set_conv_nth)
    with waiter_record(1,2,8) [OF I(7) ev, of j] r k(2) show ?thesis by auto
  qed
  have "length ?ws < 6"
  proof -
    have sub: "insert r (set ?ws) \<subseteq> {0..<6}" and new: "r \<notin> set ?ws" using ws r by auto
    from card_mono [OF finite_atLeastLessThan sub] new show ?thesis
      using waiters_distinct [OF wait_okD(6) [OF I(7) ev]] by (simp add: distinct_card)
  qed
  moreover have "\<not> list_ex (\<lambda>q. q = r \<or> wr_thread (sc_wait_records s1 ! q) = wr_thread (sc_wait_records s1 ! r)) ?ws"
    using ws z r len by (auto simp: list_ex_iff s1_def wait_record_for_def nth_list_update_if)
  moreover define s1a where "s1a = s1\<lparr>
      sc_wait_records := (sc_wait_records s)[r := z\<lparr> wr_waiter_index := of_nat (length ?ws), wr_waiter_linked := True \<rparr>],
      sc_events := (sc_events s)[e := (sc_events s ! e)\<lparr> wt_waiters := ?ws @ [r] \<rparr>] \<rparr>"
  ultimately have add: "add_waiter (Waitable_Event e) r s1 = (True, s1a)"
    using z r len by (simp add: s1a_def add_waiter_def waitable_at_def upd_waitable_def upd_event_def upd_record_def s1_def wait_record_for_def Let_def)
  define s3 where "s3 = upd_thread k (\<lambda>x. x\<lparr> th_state := GXOS_SCHEDULER_THREAD_RUNNING, th_wait_record := None,
      th_blocked_object := 0, th_blocked_result := GXOS_SCHEDULER_WAIT_FAILURE \<rparr>) s2"
  have idx: "unat (wr_waiter_index (sc_wait_records s3 ! r)) = length ?ws"
    using \<open>length ?ws < 6\<close> r len by (simp add: s3_def s2_def wait_entry_def unat_of_nat)
  have undo: "release_wait_record r (remove_waiter (Waitable_Event e) (length ?ws) s3) =
      upd_thread k (\<lambda>x. x\<lparr> th_state := GXOS_SCHEDULER_THREAD_RUNNING, th_wait_record := None,
        th_blocked_object := 0, th_blocked_result := GXOS_SCHEDULER_WAIT_FAILURE \<rparr>) s"
  proof -
    have w3: "waiters s3 e = ?ws @ [r]" using ev len by (simp add: s3_def s2_def wait_entry_def)
    have "drop_waiter (?ws @ [r]) (length ?ws) = ?ws" by (simp add: drop_waiter_def)
    then have R: "remove_waiter (Waitable_Event e) (length ?ws) s3 = s3
        \<lparr> sc_wait_records := (sc_wait_records s)[r := z\<lparr> wr_active := True, wr_waiter_linked := False, wr_waiter_index := UINT32_MAX \<rparr>],
          sc_events := sc_events s \<rparr>"
      using remove_waiter_eq [of e s3 "length ?ws"] w3 ev len r by (simp add: s3_def s2_def wait_entry_def upd_thread_def)
    have cnt: "sc_active_wait_count s + 1 \<noteq> 0"
    proof
      assume "sc_active_wait_count s + 1 = 0"
      then have "unat (sc_active_wait_count s + 1) = 0" by simp
      then show False using valid_room [OF I(7) r] by (simp add: unat_Suc32)
    qed
    have refs: "ob_internal_refs (sc_objects s ! i) + 1 \<noteq> 0"
    proof
      assume "ob_internal_refs (sc_objects s ! i) + 1 = 0"
      then have "unat (ob_internal_refs (sc_objects s ! i) + 1) = 0" by simp
      moreover have "unat (ob_internal_refs (sc_objects s ! i)) \<le> 7"
        using owned_event [OF I(8) i] pins_le [OF len(2), of i] by (simp add: event_object_ok_def)
      ultimately show False by (simp add: unat_Suc32)
    qed
    have z0: "sc_wait_records s ! r = zero_wait_record" using wait_okD(5) [OF I(7) r] .
    then have rs: "(sc_wait_records s)[r := zero_wait_record] = sc_wait_records s" by (metis list_update_id)
    show ?thesis unfolding R
      using z r len i16 cnt refs rs I(1) k6
      by (simp add: release_wait_record_def unpin_wait_record_def upd_record_def upd_object_def s3_def s2_def wait_entry_def
          upd_thread_def wait_record_for_def)
  qed
  have blocked: "upd_thread k (\<lambda>x. x\<lparr> th_wait_record := Some r, th_blocked_object := handle, th_blocked_result := GXOS_SCHEDULER_WAIT_FAILURE,
        th_state := GXOS_SCHEDULER_THREAD_BLOCKED \<rparr>)
      ((upd_record r (\<lambda>x. x\<lparr> wr_active := True \<rparr>) s1a)
        \<lparr> sc_active_wait_count := sc_active_wait_count (upd_record r (\<lambda>x. x\<lparr> wr_active := True \<rparr>) s1a) + 1 \<rparr>) = s2"
    using r len by (simp add: s1a_def upd_thread_def upd_record_def s2_def wait_entry_def s1_def)
  have "\<not> wt_signaled (sc_events s1 ! e)" using sig by (simp add: s1_def)
  then show ?thesis
    by (simp add: enter_wait_def Let_def add blocked split_beta flip: s3_def split: option.split) (simp add: idx undo)
qed

subsection \<open>The whole operation\<close>

lemma open_event:
  assumes inv: "sched_inv s" and v: "validate_open_event_handle s h = Some (i, e)"
  shows "owned (sc_objects s) i (Target_Event e)" "e < 12" "wt_live (sc_events s ! e)" "ob_internal_refs (sc_objects s ! i) \<noteq> 0"
    "ob_slot (sc_objects s ! i) = i" "decode_event_identity h = Some (i, ob_generation (sc_objects s ! i))"
proof -
  note I = sched_invD [OF inv]
  obtain g where g: "decode_event_identity h = Some (i, g)" "ob_live (sc_objects s ! i)" "ob_generation (sc_objects s ! i) = g"
      "target_event (ob_target (sc_objects s ! i)) = Some e" "ob_internal_refs (sc_objects s ! i) \<noteq> 0"
    using v by (auto simp: validate_open_event_handle_def Let_def split: option.splits prod.splits if_splits)
  then show "ob_internal_refs (sc_objects s ! i) \<noteq> 0" "decode_event_identity h = Some (i, ob_generation (sc_objects s ! i))" by auto
  have i: "i < 16" using g(1) decode_handle_bounds by (auto simp: decode_event_identity_def)
  then show ow: "owned (sc_objects s) i (Target_Event e)"
    using g by (cases "ob_target (sc_objects s ! i)") (auto simp: owned_def)
  show "e < 12" "wt_live (sc_events s ! e)" using owned_event [OF I(8) ow] by (auto simp: event_object_ok_def)
  show "ob_slot (sc_objects s ! i) = i" using objects_okD(6) [OF I(8) i g(2)] .
qed

lemma validate_open_frame:
  assumes a: "sc_objects s' = sc_objects s" "sc_events s' = sc_events s"
  shows "validate_open_event_handle s' h = validate_open_event_handle s h"
  unfolding validate_open_event_handle_def a ..

text \<open>The results of a thread that does not wait are its own.\<close>

lemma blocked_result_inv:
  assumes inv: "sched_inv s" and k: "sc_current s = Some k" "th_wait_record (sc_threads s ! k) = None"
    and x: "same_core (x\<lparr> th_blocked_result := th_blocked_result (sc_threads s ! k) \<rparr>) (sc_threads s ! k)"
  shows "sched_inv (s\<lparr> sc_threads := (sc_threads s)[k := x] \<rparr>)"
proof -
  note I = sched_invD [OF inv]
  note K = run_inv_current [OF I(9) k(1)]
  have X: "same_identity x (sc_threads s ! k)" "th_state x = th_state (sc_threads s ! k)"
    "th_runnable_queued x = th_runnable_queued (sc_threads s ! k)" "th_live x" "th_wait_record x = None"
    using x K(2) k(2) by (auto simp: same_core_def same_identity_def)
  have st: "th_state (sc_threads s ! k) \<in> {GXOS_SCHEDULER_THREAD_RUNNING, GXOS_SCHEDULER_THREAD_TERMINATED}"
    using I(6) k(1) by (auto simp: current_ok_def)
  have pool: "pool_ok ((sc_threads s)[k := x]) (sc_runnable_queue s)"
    using X K st by (intro pool_upd [OF I(5)]) (auto simp: thread_ok_def)
  have "sched_mid (s\<lparr> sc_threads := (sc_threads s)[k := x], sc_runnable_queue := sc_runnable_queue s \<rparr>)"
    using inv X st pool I(4) by (intro mid_upd_thread K) (auto simp: sched_inv_mid boot_ok_def)
  moreover have "current_ok ((sc_threads s)[k := x]) (sc_current s)"
    using X I(6) k(1) K(1) pool_okD(1) [OF I(5)] by (auto simp: current_ok_def nth_list_update_if)
  ultimately show ?thesis by (simp add: sched_inv_mid)
qed

text \<open>The state in which the pending deadline has been consumed and a record generation used.\<close>

definition wait_begun :: "u32 \<Rightarrow> 'w sched \<Rightarrow> 'w sched" where
  "wait_begun g s = s\<lparr> sc_next_wait_generation := g, sc_pending_wait_timeout_armed := False, sc_pending_wait_deadline_ms := 0 \<rparr>"

lemma wait_begun_sel [simp]:
  "sched_inv (wait_begun g s) = sched_inv s" "sc_threads (wait_begun g s) = sc_threads s" "sc_objects (wait_begun g s) = sc_objects s"
  "sc_events (wait_begun g s) = sc_events s" "sc_wait_records (wait_begun g s) = sc_wait_records s"
  "sc_current (wait_begun g s) = sc_current s" "g_scheduler (wait_begun g s) = g_scheduler s" "running (wait_begun g s) k = running s k"
  by (auto simp: wait_begun_def sched_inv_def running_def)

lemma allocate_wait_record_eq:
  assumes "find_free_wait_record s = Some r"
  shows "\<exists>g c. allocate_wait_record s = (Some r, upd_record r (\<lambda>_. zero_wait_record
      \<lparr> wr_valid := True, wr_generation := c, wr_waiter_index := UINT32_MAX \<rparr>) (s\<lparr> sc_next_wait_generation := g \<rparr>))"
  using assms by (cases "sc_next_wait_generation s = 0") (auto simp: allocate_wait_record_def Let_def)

lemma prepare_wait_enters:
  assumes inv: "sched_inv s" and k: "running s k" "th_wait_record (sc_threads s ! k) = None"
    and v: "validate_open_event_handle s h = Some (i, e)" and sig: "\<not> wt_signaled (sc_events s ! e)"
  shows "\<exists>g r z. r < 6 \<and> \<not> wr_valid (sc_wait_records s ! r) \<and> wait_record_for s k i e z \<and>
      wr_timeout_armed z = sc_pending_wait_timeout_armed s \<and> wr_deadline_ms z = sc_pending_wait_deadline_ms s \<and>
      gxos_scheduler_prepare_wait_record h s =
    (case pick_next_runnable (wait_entry h k i e r z (wait_begun g s)) k of
       None \<Rightarrow> (GXOS_SCHEDULER_WAIT_FAILURE, None, upd_thread k (\<lambda>x. x\<lparr> th_state := GXOS_SCHEDULER_THREAD_RUNNING, th_wait_record := None,
                 th_blocked_object := 0, th_blocked_result := GXOS_SCHEDULER_WAIT_FAILURE \<rparr>) (wait_begun g s))
     | Some next \<Rightarrow> (GXOS_SCHEDULER_WAIT_BLOCKED, Some (fst (choose_next next (wait_entry h k i e r z (wait_begun g s))), r),
         snd (choose_next next (wait_entry h k i e r z (wait_begun g s)))))"
proof -
  note I = sched_invD [OF inv] and O = open_event [OF inv v]
  obtain r where r: "find_free_wait_record s = Some r" "r < 6" "\<not> wr_valid (sc_wait_records s ! r)"
    using free_record [OF inv _ k(2)] run_inv_current(1) [OF I(9)] k(1) by (auto simp: running_def)
  let ?s = "s\<lparr> sc_pending_wait_timeout_armed := False, sc_pending_wait_deadline_ms := 0 \<rparr>"
  let ?p = "upd_object i (\<lambda>ob. ob\<lparr> ob_internal_refs := ob_internal_refs ob + 1 \<rparr>) ?s"
  have pin: "pin_object i ?s = (True, ?p)" using O(1,4) by (simp add: pin_object_def owned_def)
  have "find_free_wait_record ?p = Some r" using r(1) by (simp add: find_free_wait_record_def upd_object_def split: if_splits)
  then obtain g c where alloc: "allocate_wait_record ?p = (Some r, upd_record r (\<lambda>_. zero_wait_record
      \<lparr> wr_valid := True, wr_generation := c, wr_waiter_index := UINT32_MAX \<rparr>) (?p\<lparr> sc_next_wait_generation := g \<rparr>))"
    using allocate_wait_record_eq by blast
  define z where "z = fill_wait_record k i e (sc_pending_wait_timeout_armed s) (sc_pending_wait_deadline_ms s)
      (upd_record r (\<lambda>_. zero_wait_record \<lparr> wr_valid := True, wr_generation := c, wr_waiter_index := UINT32_MAX \<rparr>)
         (?p\<lparr> sc_next_wait_generation := g \<rparr>))
      (zero_wait_record \<lparr> wr_valid := True, wr_generation := c, wr_waiter_index := UINT32_MAX \<rparr>)"
  have z: "wait_record_for s k i e z" "wr_timeout_armed z = sc_pending_wait_timeout_armed s" "wr_deadline_ms z = sc_pending_wait_deadline_ms s"
    using O(5) O(1) objects_okD(1) [OF I(8)]
    by (simp_all add: z_def fill_wait_record_def wait_record_for_def zero_wait_record_def upd_object_def upd_record_def owned_def)
  have s1: "upd_record r (fill_wait_record k i e (sc_pending_wait_timeout_armed s) (sc_pending_wait_deadline_ms s)
        (upd_record r (\<lambda>_. zero_wait_record \<lparr> wr_valid := True, wr_generation := c, wr_waiter_index := UINT32_MAX \<rparr>)
         (?p\<lparr> sc_next_wait_generation := g \<rparr>)))
      (upd_record r (\<lambda>_. zero_wait_record \<lparr> wr_valid := True, wr_generation := c, wr_waiter_index := UINT32_MAX \<rparr>)
         (?p\<lparr> sc_next_wait_generation := g \<rparr>)) = (wait_begun g s)\<lparr>
      sc_objects := (sc_objects s)[i := (sc_objects s ! i)\<lparr> ob_internal_refs := ob_internal_refs (sc_objects s ! i) + 1 \<rparr>],
      sc_wait_records := (sc_wait_records s)[r := z] \<rparr>"
    using r(2) wait_okD(2) [OF I(7)] by (simp add: z_def wait_begun_def upd_object_def upd_record_def)
  have v': "validate_open_event_handle ?s h = Some (i, e)" using v by (subst validate_open_frame [of _ s]) simp_all
  have "gxos_scheduler_prepare_wait_record h s = enter_wait h k e r ((wait_begun g s)\<lparr>
      sc_objects := (sc_objects s)[i := (sc_objects s ! i)\<lparr> ob_internal_refs := ob_internal_refs (sc_objects s ! i) + 1 \<rparr>],
      sc_wait_records := (sc_wait_records s)[r := z] \<rparr>)"
    using I(1,2) k v' sig pin alloc s1 by (simp add: gxos_scheduler_prepare_wait_record_def Let_def running_def)
  moreover note enter_wait_eq [of "wait_begun g s" k i e r z h, simplified, OF inv k O(1) r(2,3) _ sig]
  moreover have "wait_record_for (wait_begun g s) k i e z" using z(1) by (simp add: wait_record_for_def)
  ultimately show ?thesis using r z by (intro exI [of _ g] exI [of _ r] exI [of _ z] conjI) simp_all
qed

text \<open>A waitable that a handle finds, other than an open event, keeps the invariant when its signal is taken.\<close>

lemma set_notification_signal_inv:
  assumes inv: "sched_inv s"
  shows "sched_inv (upd_waitable w (\<lambda>x. x\<lparr> wt_signaled := b \<rparr>) s)"
proof (cases w)
  case (Waitable_Event e)
  then show ?thesis using set_signal_inv [OF inv] by (simp add: upd_waitable_def)
next
  case (Waitable_Notification n)
  note I = sched_invD [OF inv]
  let ?y = "(sc_memory_resource_notifications s ! n)\<lparr> mn_waitable := (mn_waitable (sc_memory_resource_notifications s ! n))\<lparr> wt_signaled := b \<rparr> \<rparr>"
  have "objects_ok (sc_objects s) (sc_threads s) (sc_events s) ((sc_memory_resource_notifications s)[n := ?y])
      (sc_standard_stream s) (sc_wait_records s)"
    by (rule objects_upd_notification [OF I(8)]) simp_all
  then show ?thesis using Waitable_Notification I by (simp add: sched_inv_def upd_waitable_def upd_notification_def)
qed

lemma take_signal_inv: "sched_inv s \<Longrightarrow> sched_inv (take_signal w s)"
  by (simp add: take_signal_def set_notification_signal_inv)

lemma take_signal_frame [simp]:
  "sc_current (take_signal w s) = sc_current s" "sc_threads (take_signal w s) = sc_threads s"
  by (simp_all add: take_signal_def upd_waitable_def upd_event_def upd_notification_def split: waitable_ref.split)

lemma prepare_wait_inv:
  assumes inv: "sched_inv s"
  shows "sched_inv (snd (snd (gxos_scheduler_prepare_wait_record h s)))"
proof -
  note I = sched_invD [OF inv] and def = gxos_scheduler_prepare_wait_record_def
  obtain k where k: "k < 6" "sc_current s = Some k" using sched_current [OF inv] by metis
  let ?s = "s\<lparr> sc_pending_wait_timeout_armed := False, sc_pending_wait_deadline_ms := 0 \<rparr>"
  have taken: "sched_inv (set_blocked_result k GXOS_SCHEDULER_WAIT_SIGNALED (take_signal w ?s))"
    if "th_wait_record (sc_threads s ! k) = None" for w
    unfolding set_blocked_result_def upd_thread_def
    using that k inv by (intro blocked_result_inv take_signal_inv) (simp_all add: same_core_def)
  have v': "validate_open_event_handle ?s h = validate_open_event_handle s h" by (rule validate_open_frame) simp_all
  show ?thesis
  proof (cases "running s k \<and> th_wait_record (sc_threads s ! k) = None")
    case False
    then show ?thesis using inv k I(1,2) by (auto simp: def running_def Let_def)
  next
    case True
    note R = True [THEN conjunct1] and N = True [THEN conjunct2]
    show ?thesis
    proof (cases "validate_open_event_handle s h")
      case None
      then show ?thesis using inv k I(1,2) True taken v' by (auto simp: def running_def Let_def split: option.split)
    next
      case (Some p)
      obtain i e where p: "p = (i, e)" by (cases p)
      note v = Some [unfolded p]
      show ?thesis
      proof (cases "wt_signaled (sc_events s ! e)")
        case True
        then show ?thesis using k I(1,2) R N taken v v' by (simp add: def running_def Let_def)
      next
        case False
        from prepare_wait_enters [OF inv R N v False] obtain g r z where r: "r < 6" "\<not> wr_valid (sc_wait_records s ! r)"
          and z: "wait_record_for s k i e z"
          and eq: "gxos_scheduler_prepare_wait_record h s =
            (case pick_next_runnable (wait_entry h k i e r z (wait_begun g s)) k of
               None \<Rightarrow> (GXOS_SCHEDULER_WAIT_FAILURE, None, upd_thread k (\<lambda>x. x\<lparr> th_state := GXOS_SCHEDULER_THREAD_RUNNING, th_wait_record := None,
                 th_blocked_object := 0, th_blocked_result := GXOS_SCHEDULER_WAIT_FAILURE \<rparr>) (wait_begun g s))
             | Some next \<Rightarrow> (GXOS_SCHEDULER_WAIT_BLOCKED, Some (fst (choose_next next (wait_entry h k i e r z (wait_begun g s))), r),
                 snd (choose_next next (wait_entry h k i e r z (wait_begun g s)))))" by blast
        have z': "wait_record_for (wait_begun g s) k i e z" using z by (simp add: wait_record_for_def)
        note mid = wait_entry_mid [of "wait_begun g s" k i e r z h, simplified, OF inv R N open_event(1) [OF inv v] r z']
        have cur: "sc_current (wait_entry h k i e r z (wait_begun g s)) = Some k" using k(2) by (simp add: wait_entry_def)
        have "sched_inv (upd_thread k (\<lambda>x. x\<lparr> th_state := GXOS_SCHEDULER_THREAD_RUNNING, th_wait_record := None,
                 th_blocked_object := 0, th_blocked_result := GXOS_SCHEDULER_WAIT_FAILURE \<rparr>) (wait_begun g s))"
          unfolding upd_thread_def using inv k(2) R N by (intro blocked_result_inv) (simp_all add: same_core_def running_def)
        then show ?thesis unfolding eq using pick_dispatch(1) [OF mid cur k(1)] by (auto split: option.split)
      qed
    qed
  qed
qed

subsection \<open>Finishing\<close>

definition wait_done :: "GXOS_SCHEDULER_TCB \<Rightarrow> GXOS_SCHEDULER_TCB" where
  "wait_done x = x\<lparr> th_wait_record := None, th_blocked_object := 0, th_blocked_result := GXOS_SCHEDULER_WAIT_FAILURE \<rparr>"

lemma finish_wait_cases:
  assumes inv: "sched_inv s" and k: "sc_current s = Some k"
  obtains (failure) "gxos_scheduler_finish_wait h s = (GXOS_SCHEDULER_WAIT_FAILURE, s)"
  | (at_once) "th_wait_record (sc_threads s ! k) = None" "gxos_scheduler_finish_wait h s =
      (th_blocked_result (sc_threads s ! k), s\<lparr> sc_threads := (sc_threads s)[k := wait_done (sc_threads s ! k)] \<rparr>)"
  | (blocked) r i where "th_wait_record (sc_threads s ! k) = Some r" "r < 6" "wr_valid (sc_wait_records s ! r)"
      "wr_completed (sc_wait_records s ! r)" "wr_thread (sc_wait_records s ! r) = Some k" "wr_object (sc_wait_records s ! r) = Some i"
      "gxos_scheduler_finish_wait h s = (th_blocked_result (sc_threads s ! k), s
            \<lparr> sc_threads := (sc_threads s)[k := wait_done (sc_threads s ! k)],
              sc_objects := (sc_objects s)[i := (sc_objects s ! i)\<lparr> ob_internal_refs := ob_internal_refs (sc_objects s ! i) - 1 \<rparr>],
              sc_wait_records := (sc_wait_records s)[r := zero_wait_record],
              sc_active_wait_count := sc_active_wait_count s - 1 \<rparr>)"
proof -
  note I = sched_invD [OF inv]
  have k6: "k < 6" using run_inv_current(1) [OF I(9) k] .
  have len: "length (sc_wait_records s) = 6" using wait_okD(2) [OF I(7)] .
  show ?thesis
  proof (cases "th_wait_record (sc_threads s ! k)")
    case None
    then have "gxos_scheduler_finish_wait h s = (GXOS_SCHEDULER_WAIT_FAILURE, s) \<or> gxos_scheduler_finish_wait h s =
      (th_blocked_result (sc_threads s ! k), s\<lparr> sc_threads := (sc_threads s)[k := wait_done (sc_threads s ! k)] \<rparr>)"
      using k I(1) by (simp add: gxos_scheduler_finish_wait_def Let_def upd_thread_def wait_done_def)
    then show ?thesis using failure at_once None by blast
  next
    case (Some r)
    with wait_okD(7) [OF I(7) k6] have r: "r < 6" "wr_valid (sc_wait_records s ! r)" "wr_thread (sc_wait_records s ! r) = Some k"
      by (simp_all add: thread_wait_ok_def)
    obtain i where i: "wr_object (sc_wait_records s ! r) = Some i" using objects_okD(13) [OF I(8) r(1,2)] by (auto simp: record_object_ok_def)
    have act: "wr_active (sc_wait_records s ! r)" "wr_pin_held (sc_wait_records s ! r)"
      using wait_okD(4) [OF I(7) r(1,2)] by (auto simp: record_ok_def)
    have refs: "ob_internal_refs (sc_objects s ! i) \<noteq> 0" using objects_unpin(2) [OF I(8) r(1,2) i] .
    let ?clear = "upd_thread k (\<lambda>x. x\<lparr> th_wait_record := None, th_blocked_object := 0, th_blocked_result := GXOS_SCHEDULER_WAIT_FAILURE \<rparr>) s"
    have "gxos_scheduler_finish_wait h s = (GXOS_SCHEDULER_WAIT_FAILURE, s) \<or> wr_completed (sc_wait_records s ! r) \<and>
        gxos_scheduler_finish_wait h s = (th_blocked_result (sc_threads s ! k), release_wait_record r ?clear)"
      using Some k I(1) by (simp add: gxos_scheduler_finish_wait_def Let_def)
    then show ?thesis
    proof (elim disjE conjE)
      assume 2: "wr_completed (sc_wait_records s ! r)"
        "gxos_scheduler_finish_wait h s = (th_blocked_result (sc_threads s ! k), release_wait_record r ?clear)"
      have n0: "sc_active_wait_count s \<noteq> 0"
        using wait_finish(2) [OF I(7) r(1,2) 2(1) r(3), of "(sc_threads s ! k)\<lparr> th_wait_record := None, th_state := GXOS_SCHEDULER_THREAD_RUNNING \<rparr>"] by simp
      have "release_wait_record r ?clear = s\<lparr> sc_threads := (sc_threads s)[k := wait_done (sc_threads s ! k)],
              sc_objects := (sc_objects s)[i := (sc_objects s ! i)\<lparr> ob_internal_refs := ob_internal_refs (sc_objects s ! i) - 1 \<rparr>],
              sc_wait_records := (sc_wait_records s)[r := zero_wait_record],
              sc_active_wait_count := sc_active_wait_count s - 1 \<rparr>"
        using I(1) r i act n0 refs len
        by (simp add: upd_thread_def release_wait_record_def unpin_wait_record_def upd_record_def upd_object_def wait_done_def)
      then show ?thesis using blocked Some r 2 i by metis
    qed (rule failure)
  qed
qed

lemma finish_wait_inv:
  assumes inv: "sched_inv s"
  shows "sched_inv (snd (gxos_scheduler_finish_wait h s))"
proof -
  note I = sched_invD [OF inv]
  obtain k where k: "k < 6" "sc_current s = Some k" "th_live (sc_threads s ! k)"
    "th_state (sc_threads s ! k) \<in> {GXOS_SCHEDULER_THREAD_RUNNING, GXOS_SCHEDULER_THREAD_TERMINATED}" "\<not> th_runnable_queued (sc_threads s ! k)"
    using sched_current [OF inv] by metis
  let ?x = "wait_done (sc_threads s ! k)"
  show ?thesis
  proof (rule finish_wait_cases [OF inv k(2), of h], goal_cases failure at_once blocked)
    case failure
    then show ?thesis using inv by simp
  next
    case at_once
    then show ?thesis using blocked_result_inv [OF inv k(2) at_once(1), of ?x] by (simp add: same_core_def wait_done_def)
  next
    case (blocked r i)
    have st: "th_state ?x \<noteq> GXOS_SCHEDULER_THREAD_BLOCKED" using k(4) by (auto simp: wait_done_def)
    have "pool_ok ((sc_threads s)[k := ?x]) (sc_runnable_queue s)"
      using k by (intro pool_upd [OF I(5)]) (auto simp: thread_ok_def wait_done_def)
    moreover have "boot_ok ((sc_threads s)[k := ?x])" using I(4) by (auto simp: boot_ok_def nth_list_update_if wait_done_def)
    moreover have "current_ok ((sc_threads s)[k := ?x]) (sc_current s)"
      using I(6) k(1,2) pool_okD(1) [OF I(5)] by (auto simp: current_ok_def nth_list_update_if wait_done_def)
    moreover have "wait_ok ((sc_threads s)[k := ?x]) ((sc_wait_records s)[r := zero_wait_record]) (sc_events s) (sc_active_wait_count s - 1)"
      using st by (intro wait_finish(1) [OF I(7) blocked(2-5)]) (simp_all add: wait_done_def)
    moreover have "objects_ok ((sc_objects s)[i := (sc_objects s ! i)\<lparr> ob_internal_refs := ob_internal_refs (sc_objects s ! i) - 1 \<rparr>])
        ((sc_threads s)[k := ?x]) (sc_events s) (sc_memory_resource_notifications s) (sc_standard_stream s) ((sc_wait_records s)[r := zero_wait_record])"
      by (intro objects_upd_thread objects_unpin(1) [OF I(8) blocked(2,3,6)]) (simp_all add: wait_done_def)
    ultimately show ?thesis unfolding blocked(7) snd_conv using I by (simp add: sched_inv_def)
  qed
qed

end
