(* ===== verification/Scheduler_Lifecycle.thy ===== *)
theory Scheduler_Lifecycle
  imports Scheduler_Blocking
begin

text \<open>
  The invariant under the remaining operations: set-up, creating and destroying events, notifications
  and the standard stream, configuration and the cells of the running thread.
\<close>

subsection \<open>Allocating an object\<close>

lemma allocate_object_cases:
  assumes "g_scheduler s" and "length (sc_objects s) = 16"
  obtains (full) "allocate_object ty tg s = (None, s)"
  | (slot) i where "i < 16" "\<not> ob_live (sc_objects s ! i)"
      "allocate_object ty tg s = (Some (i, make_handle ty i (next_object_generation (ob_generation (sc_objects s ! i)))),
         s\<lparr> sc_objects := (sc_objects s)[i := new_object s i ty tg] \<rparr>)"
proof (cases "find_index (\<lambda>ob. \<not> ob_live ob) (sc_objects s)")
  case None
  then show ?thesis using full assms by (simp add: allocate_object_def)
next
  case (Some i)
  have "allocate_object ty tg s = (Some (i, make_handle ty i (next_object_generation (ob_generation (sc_objects s ! i)))),
         s\<lparr> sc_objects := (sc_objects s)[i := new_object s i ty tg] \<rparr>)"
    using Some assms by (simp add: allocate_object_def Let_def upd_object_def new_object_def)
  with find_index_SomeD [OF Some] assms(2) show ?thesis by (intro slot [of i]) simp_all
qed

subsection \<open>Events\<close>

lemma dead_event_waiters:
  assumes inv: "sched_inv s" and e: "e < 12" "\<not> wt_live (sc_events s ! e)"
  shows "waiters s e = []"
proof (rule ccontr)
  assume "waiters s e \<noteq> []"
  then have k: "0 < length (waiters s e)" by simp
  note I = sched_invD [OF inv]
  note R = waiter_record [OF I(7) e(1) k]
  from wait_okD(4) [OF I(7) R(1,2)] R(4) e(2) show False by (auto simp: record_ok_def record_event_ok_def)
qed

lemma set_event_inv:
  assumes inv: "sched_inv s" and e: "e < 12" "\<not> wt_live (sc_events s ! e)" and x: "wt_waiters x = []"
  shows "\<not> wt_live x \<Longrightarrow> sched_inv (s\<lparr> sc_events := (sc_events s)[e := x] \<rparr>)"
    and "wt_live x \<Longrightarrow> i < 16 \<Longrightarrow> \<not> ob_live (sc_objects s ! i) \<Longrightarrow> wt_object_slot x = i \<Longrightarrow>
      wt_generation x = next_object_generation (ob_generation (sc_objects s ! i)) \<Longrightarrow>
      sched_inv (s\<lparr> sc_objects := (sc_objects s)[i := new_object s i GXOS_SCHEDULER_OBJECT_EVENT (Target_Event e)],
        sc_events := (sc_events s)[e := x] \<rparr>)"
proof -
  note I = sched_invD [OF inv]
  have len: "length (sc_events s) = 12" using wait_okD(3) [OF I(7)] .
  have "wr_waitable (sc_wait_records s ! r) \<noteq> Some (Waitable_Event e)" if "r < 6" "wr_valid (sc_wait_records s ! r)" for r
    using wait_okD(4) [OF I(7) that] e(2) by (auto simp: record_ok_def record_event_ok_def)
  then have w: "wait_ok (sc_threads s) (sc_wait_records s) ((sc_events s)[e := x]) (sc_active_wait_count s)"
    using x dead_event_waiters [OF inv e] by (intro wait_upd_event [OF I(7)]) auto
  { assume dead: "\<not> wt_live x"
    have "event_object_ok p j ob ((sc_events s)[e := x] ! f) = event_object_ok p j ob (sc_events s ! f)" for p j ob f
      using dead e(2) by (auto simp: event_object_ok_def nth_list_update_if)
    then have "target_ok (sc_threads s) ((sc_events s)[e := x]) ns st rs j ob = target_ok (sc_threads s) (sc_events s) ns st rs j ob" for ns st rs j ob
      by (simp add: target_ok_def split: object_target.split)
    then have "objects_ok (sc_objects s) (sc_threads s) ((sc_events s)[e := x]) (sc_memory_resource_notifications s)
        (sc_standard_stream s) (sc_wait_records s)"
      using I(8) dead by (auto simp: objects_ok_def nth_list_update_if)
    with w I show "sched_inv (s\<lparr> sc_events := (sc_events s)[e := x] \<rparr>)" by (simp add: sched_inv_def) }
  { assume new: "wt_live x" "i < 16" "\<not> ob_live (sc_objects s ! i)" "wt_object_slot x = i"
      "wt_generation x = next_object_generation (ob_generation (sc_objects s ! i))"
    have "objects_ok ((sc_objects s)[i := new_object s i GXOS_SCHEDULER_OBJECT_EVENT (Target_Event e)]) (sc_threads s)
        ((sc_events s)[e := x]) (sc_memory_resource_notifications s) (sc_standard_stream s) (sc_wait_records s)"
      using new e len by (intro objects_add [OF I(8)])
        (auto simp: target_ok_def event_object_ok_def unpinned_dead [OF I(8)] target_live_def)
    with w I show "sched_inv (s\<lparr> sc_objects := (sc_objects s)[i := new_object s i GXOS_SCHEDULER_OBJECT_EVENT (Target_Event e)],
        sc_events := (sc_events s)[e := x] \<rparr>)" by (simp add: sched_inv_def) }
qed

text \<open>A fresh event of the requested kind behind the handle, or nothing.\<close>

definition new_event :: "bool \<Rightarrow> bool \<Rightarrow> u16 \<Rightarrow> nat \<Rightarrow> GXOS_SCHEDULER_WAITABLE" where
  "new_event manual signaled g i = zero_waitable\<lparr> wt_live := True, wt_manual_reset := manual, wt_signaled := signaled,
     wt_generation := g, wt_object_slot := i \<rparr>"

lemma create_event_cases:
  assumes inv: "sched_inv s"
  obtains (full) e where "e < 12 \<Longrightarrow> \<not> wt_live (sc_events s ! e)"
      "gxos_scheduler_create_event m b s = (None, if e < 12 then s\<lparr> sc_events := (sc_events s)[e := zero_waitable] \<rparr> else s)"
  | (new) e i g where "e < 12" "i < 16" "\<not> wt_live (sc_events s ! e)" "\<not> ob_live (sc_objects s ! i)"
      "g = next_object_generation (ob_generation (sc_objects s ! i))"
      "gxos_scheduler_create_event m b s = (Some (make_handle GXOS_SCHEDULER_OBJECT_EVENT i g),
         s\<lparr> sc_objects := (sc_objects s)[i := new_object s i GXOS_SCHEDULER_OBJECT_EVENT (Target_Event e)],
            sc_events := (sc_events s)[e := new_event m b g i] \<rparr>)"
proof -
  note I = sched_invD [OF inv]
  have len: "length (sc_events s) = 12" "length (sc_objects s) = 16" using wait_okD(3) [OF I(7)] objects_okD(1) [OF I(8)] by auto
  show ?thesis
  proof (cases "find_index (\<lambda>e. \<not> wt_live e) (sc_events s)")
    case None
    show ?thesis by (rule full [of 12]) (use None I(1) in \<open>simp_all add: gxos_scheduler_create_event_def\<close>)
  next
    case (Some e)
    from find_index_SomeD [OF Some] len have e: "e < 12" "\<not> wt_live (sc_events s ! e)" by auto
    let ?s = "upd_event e (\<lambda>_. zero_waitable) s"
    note def = gxos_scheduler_create_event_def
    have s1: "g_scheduler ?s" "length (sc_objects ?s) = 16" using I(1) len by (simp_all add: upd_event_def)
    show ?thesis
    proof (rule allocate_object_cases [OF s1, of GXOS_SCHEDULER_OBJECT_EVENT "Target_Event e"], goal_cases no yes)
      case no
      then show ?thesis using Some I(1) e len by (intro full [of e]) (simp_all add: def upd_event_def)
    next
      case (yes i)
      have "new_object ?s i GXOS_SCHEDULER_OBJECT_EVENT (Target_Event e) = new_object s i GXOS_SCHEDULER_OBJECT_EVENT (Target_Event e)"
        by (simp add: new_object_def)
      then show ?thesis using yes Some I(1) e len
        by (intro new [of e i "next_object_generation (ob_generation (sc_objects s ! i))"])
          (simp_all add: def upd_event_def new_event_def)
    qed
  qed
qed

lemma create_event_inv:
  assumes inv: "sched_inv s"
  shows "sched_inv (snd (gxos_scheduler_create_event m b s))"
proof (rule create_event_cases [OF inv, of m b], goal_cases full new)
  case (full e)
  then show ?case using inv set_event_inv(1) [OF inv, of e zero_waitable] by (simp add: zero_waitable_def)
next
  case (new e i g)
  then show ?case using set_event_inv(2) [OF inv new(1,3), of "new_event m b g i" i]
    by (simp add: new_event_def zero_waitable_def)
qed

lemma destroy_event_inv:
  assumes inv: "sched_inv s"
  shows "sched_inv (snd (gxos_scheduler_try_destroy_event h s))"
proof (cases "fst (gxos_scheduler_try_destroy_event h s)")
  case False
  then have "snd (gxos_scheduler_try_destroy_event h s) = s"
    by (auto simp: gxos_scheduler_try_destroy_event_def split: option.splits if_splits)
  with inv show ?thesis by simp
next
  case True
  note I = sched_invD [OF inv]
  have len: "length (sc_events s) = 12" "length (sc_objects s) = 16" using wait_okD(3) [OF I(7)] objects_okD(1) [OF I(8)] by auto
  obtain i e where i: "lookup_object s h GXOS_SCHEDULER_OBJECT_EVENT = Some i" and e: "target_event (ob_target (sc_objects s ! i)) = Some e"
    and g: "waiters s e = []" "\<not> ob_internal_refs (sc_objects s ! i) > 1"
    using True by (auto simp: gxos_scheduler_try_destroy_event_def split: option.splits if_splits)
  have ow: "owned (sc_objects s) i (Target_Event e)"
    using i e lookup_object_bound [OF i] by (cases "ob_target (sc_objects s ! i)") (auto simp: owned_def lookup_object_iff)
  note E = owned_event [OF I(8) ow]
  have p: "pins (sc_wait_records s) i = 0"
    using E g(2) by (auto simp: event_object_ok_def word_less_nat_alt)
  let ?x = "(sc_events s ! e)\<lparr> wt_live := False \<rparr>"
  have "wr_waitable (sc_wait_records s ! r) \<noteq> Some (Waitable_Event e)" if r: "r < 6" "wr_valid (sc_wait_records s ! r)" for r
  proof
    assume "wr_waitable (sc_wait_records s ! r) = Some (Waitable_Event e)"
    with objects_okD(13) [OF I(8) r] obtain j where j: "wr_object (sc_wait_records s ! r) = Some j" "owned (sc_objects s) j (Target_Event e)"
      by (auto simp: record_object_ok_def)
    then have "j = i" using owned_event [OF I(8) j(2)] E by (simp add: event_object_ok_def)
    then have "pins (sc_wait_records s) i \<noteq> 0"
      using pins_update [of r "sc_wait_records s" zero_wait_record i] j(1) r wait_okD(2) [OF I(7)] by simp
    with p show False by simp
  qed
  then have "wait_ok (sc_threads s) (sc_wait_records s) ((sc_events s)[e := ?x]) (sc_active_wait_count s)"
    by (intro wait_upd_event [OF I(7)]) auto
  moreover have "objects_ok ((sc_objects s)[i := zero_object\<lparr> ob_generation := ob_generation (sc_objects s ! i) \<rparr>]) (sc_threads s)
      ((sc_events s)[e := ?x]) (sc_memory_resource_notifications s) (sc_standard_stream s) (sc_wait_records s)"
    using p E len by (intro objects_remove [OF I(8) ow]) (simp_all add: zero_object_def target_live_def)
  moreover have "snd (gxos_scheduler_try_destroy_event h s) = s\<lparr> sc_events := (sc_events s)[e := ?x],
      sc_objects := (sc_objects s)[i := zero_object\<lparr> ob_generation := ob_generation (sc_objects s ! i) \<rparr>] \<rparr>"
    using True i e len lookup_object_bound [OF i]
    by (simp add: gxos_scheduler_try_destroy_event_def release_object_record_def upd_object_def upd_event_def split: if_splits)
  ultimately show ?thesis using I by (simp add: sched_inv_def)
qed

subsection \<open>Notifications and the standard stream\<close>

lemma create_notification_inv:
  assumes inv: "sched_inv s"
  shows "sched_inv (snd (gxos_scheduler_create_memory_resource_notification ty s))"
proof -
  note I = sched_invD [OF inv] and def = gxos_scheduler_create_memory_resource_notification_def
  have len: "length (sc_memory_resource_notifications s) = 1" "length (sc_objects s) = 16" using objects_okD(1,4) [OF I(8)] by auto
  show ?thesis
  proof (cases "ty = 0 \<and> find_free_memory_resource_notification s \<noteq> None")
    case False
    then show ?thesis using inv I(1,2) by (auto simp: def split: option.split)
  next
    case True
    then obtain n where n: "find_free_memory_resource_notification s = Some n" by blast
    from find_index_SomeD [OF n [unfolded find_free_memory_resource_notification_def]] len(1)
    have n1: "n < 1" "\<not> mn_live (sc_memory_resource_notifications s ! n)" by auto
    show ?thesis
    proof (rule allocate_object_cases [OF I(1) len(2), of GXOS_SCHEDULER_OBJECT_MEMORY_RESOURCE_NOTIFICATION "Target_Notification n"],
        goal_cases full slot)
      case full
      then show ?case using True n inv I(1,2) by (simp add: def)
    next
      case (slot i)
      let ?y = "zero_notification \<lparr> mn_live := True, mn_generation := next_object_generation (ob_generation (sc_objects s ! i)),
          mn_object_slot := i, mn_registry_slot := n, mn_notification_type := ty,
          mn_waitable := zero_waitable \<lparr> wt_live := True, wt_manual_reset := True, wt_signaled := False,
            wt_generation := next_object_generation (ob_generation (sc_objects s ! i)), wt_object_slot := i \<rparr> \<rparr>"
      have "objects_ok ((sc_objects s)[i := new_object s i GXOS_SCHEDULER_OBJECT_MEMORY_RESOURCE_NOTIFICATION (Target_Notification n)])
          (sc_threads s) (sc_events s) ((sc_memory_resource_notifications s)[n := ?y]) (sc_standard_stream s) (sc_wait_records s)"
        using slot n1 len by (intro objects_add [OF I(8)])
          (auto simp: target_ok_def notification_object_ok_def target_live_def zero_waitable_def)
      then show ?case using True n I slot len by (simp add: def Let_def upd_notification_def sched_inv_def)
    qed
  qed
qed

text \<open>The last public reference of a notification is never given back: it cannot be destroyed.\<close>

lemma destroy_notification_fails:
  assumes inv: "sched_inv s"
  shows "gxos_scheduler_try_destroy_memory_resource_notification h s = (False, s)"
proof (cases "lookup_object s h GXOS_SCHEDULER_OBJECT_MEMORY_RESOURCE_NOTIFICATION")
  case None
  then show ?thesis by (simp add: gxos_scheduler_try_destroy_memory_resource_notification_def)
next
  case (Some i)
  note I = sched_invD [OF inv]
  from Some have i: "i < 16" "ob_live (sc_objects s ! i)" "ob_type (sc_objects s ! i) = 3"
    using lookup_object_bound [OF Some] by (simp_all add: lookup_object_iff)
  from typed_target(3) [OF I(8) i] obtain n where "ob_target (sc_objects s ! i) = Target_Notification n" by (auto simp: owned_def)
  moreover from this have "ob_public_handle_refs (sc_objects s ! i) \<noteq> 0"
    using objects_okD(8) [OF I(8) i(1,2)] by (simp add: target_ok_def notification_object_ok_def)
  ultimately show ?thesis using Some by (simp add: gxos_scheduler_try_destroy_memory_resource_notification_def)
qed

lemma objects_upd_stream:
  assumes o: "objects_ok obs ts es ns st rs"
    and same: "st_live st' = st_live st" "st_live st \<Longrightarrow> st_object_slot st' = st_object_slot st \<and> st_generation st' = st_generation st"
  shows "objects_ok obs ts es ns st' rs"
proof -
  have "stream_object_ok i ob st' = stream_object_ok i ob st" for i ob using same by (auto simp: stream_object_ok_def)
  then have "target_ok ts es ns st' rs i ob = target_ok ts es ns st rs i ob" for i ob
    by (simp add: target_ok_def split: object_target.split)
  then show ?thesis using o same by (auto simp: objects_ok_def)
qed

lemma set_role_handles_inv [simp]: "sched_inv (set_role_handles roles h s) = sched_inv s"
  by (simp add: set_role_handles_def Let_def)

lemma install_stream_inv:
  assumes inv: "sched_inv s"
  shows "sched_inv (snd (gxos_scheduler_install_standard_stream role backend cap s))"
proof -
  note I = sched_invD [OF inv] and def = gxos_scheduler_install_standard_stream_def
  let ?st = "sc_standard_stream s"
  let ?bad = "role = 0 \<or> role AND NOT (GXOS_SCHEDULER_STANDARD_STREAM_ROLE_OUTPUT OR GXOS_SCHEDULER_STANDARD_STREAM_ROLE_ERROR) \<noteq> 0 \<or>
         backend = GXOS_SCHEDULER_STANDARD_STREAM_BACKEND_NONE \<or> cap = 0"
  have upd: "sched_inv (s\<lparr> sc_standard_stream := x \<rparr>)"
    if "st_live x = st_live ?st" "st_live ?st \<Longrightarrow> st_object_slot x = st_object_slot ?st \<and> st_generation x = st_generation ?st" for x
    using I objects_upd_stream [OF I(8), of x] that by (simp add: sched_inv_def)
  consider (bad) ?bad | (live) "\<not> ?bad" "st_live ?st" | (dead) "\<not> ?bad" "\<not> st_live ?st" by blast
  then show ?thesis
  proof cases
    case bad
    then have "gxos_scheduler_install_standard_stream role backend cap s = (False, s)" unfolding def by auto
    then show ?thesis using inv by simp
  next
    case live
    then show ?thesis using inv I(1,2) upd [of "?st\<lparr> st_role_mask := st_role_mask ?st OR role \<rparr>"] by (simp add: def Let_def)
  next
    case dead
    let ?s = "s\<lparr> sc_standard_stream := zero_standard_stream \<rparr>"
    have z: "sched_inv ?s" using dead(2) by (intro upd) (simp_all add: zero_standard_stream_def)
    note J = sched_invD [OF z]
    note eq = def [of role backend cap s, unfolded Let_def] and g = J(1) objects_okD(1) [OF J(8)]
    have op: "gxos_scheduler_install_standard_stream role backend cap s =
        (case allocate_object GXOS_SCHEDULER_OBJECT_STANDARD_STREAM Target_Stream ?s of
             (None, s) \<Rightarrow> (False, s)
           | (Some (object_slot, handle), s) \<Rightarrow>
               (True, set_role_handles role handle (s\<lparr> sc_standard_stream :=
                      \<lparr> st_live = True, st_role_mask = role, st_backend = backend, st_capabilities = cap,
                        st_generation = ob_generation (sc_objects s ! object_slot), st_object_slot = object_slot, st_handle = handle \<rparr> \<rparr>)))"
      unfolding eq using dead I(1,2) by simp
    show ?thesis
    proof (rule allocate_object_cases [OF g, of GXOS_SCHEDULER_OBJECT_STANDARD_STREAM Target_Stream], goal_cases full slot)
      case full
      then show ?case using z by (simp add: op)
    next
      case (slot i)
      let ?g = "next_object_generation (ob_generation (sc_objects s ! i))"
      have len: "length (sc_objects s) = 16" using objects_okD(1) [OF I(8)] .
      have "new_object ?s i GXOS_SCHEDULER_OBJECT_STANDARD_STREAM Target_Stream = new_object s i GXOS_SCHEDULER_OBJECT_STANDARD_STREAM Target_Stream"
        by (simp add: new_object_def)
      moreover have "objects_ok ((sc_objects s)[i := new_object s i GXOS_SCHEDULER_OBJECT_STANDARD_STREAM Target_Stream]) (sc_threads s)
          (sc_events s) (sc_memory_resource_notifications s) \<lparr> st_live = True, st_role_mask = role, st_backend = backend, st_capabilities = cap,
            st_generation = ?g, st_object_slot = i, st_handle = h \<rparr> (sc_wait_records s)" for h
        using slot dead(2) by (intro objects_add [OF I(8)]) (auto simp: target_ok_def stream_object_ok_def target_live_def)
      ultimately show ?case using slot I len by (simp add: op sched_inv_def [of "_\<lparr> sc_standard_stream := _ \<rparr>"])
    qed
  qed
qed

subsection \<open>Configuration and the cells of a thread\<close>

lemma configure_inv:
  assumes inv: "sched_inv s"
  shows "sched_inv (snd (gxos_scheduler_configure_stack_vm f g s))" "sched_inv (snd (gxos_scheduler_configure_clock c s))"
    "sched_inv (snd (gxos_scheduler_arm_wait_timeout d s))"
  using inv by (auto simp: gxos_scheduler_configure_stack_vm_def gxos_scheduler_configure_clock_def
      gxos_scheduler_arm_wait_timeout_def split: option.split)

lemma cells_inv:
  assumes inv: "sched_inv s"
  shows "sched_inv (gxos_scheduler_set_fls slot v s)" "sched_inv (gxos_scheduler_set_last_error e s)"
    "sched_inv (gxos_scheduler_note_worker_started s)" "sched_inv (gxos_scheduler_gs_tls_write v s)"
proof -
  obtain k where k: "k < 6" "sc_current s = Some k" "th_live (sc_threads s ! k)" using sched_current [OF inv] by metis
  have step: "sched_inv (upd_thread k f s)" if "same_core (f (sc_threads s ! k)) (sc_threads s ! k)" for f
    using sched_inv_env [OF inv k(1,3)] env_step_thread [of f s k, OF that] .
  show "sched_inv (gxos_scheduler_set_fls slot v s)" "sched_inv (gxos_scheduler_set_last_error e s)"
    "sched_inv (gxos_scheduler_note_worker_started s)"
    using inv k by (auto simp: gxos_scheduler_set_fls_def gxos_scheduler_set_last_error_def gxos_scheduler_note_worker_started_def
        gxos_scheduler_current_thread_def same_core_def intro!: step)
  show "sched_inv (gxos_scheduler_gs_tls_write v s)" using inv by (simp add: gxos_scheduler_gs_tls_write_def poke_def Let_def)
qed

lemma adopt_inv:
  assumes inv: "sched_inv s"
  shows "sched_inv (snd (gxos_scheduler_adopt_boot_environment gs teb vec block lo hi s))"
proof -
  note I = sched_invD [OF inv]
  have live: "th_live (sc_threads s ! 0)" using I(4) by (simp add: boot_ok_def)
  let ?s1 = "upd_thread 0 (\<lambda>x. x\<lparr> th_gs_base := gs, th_teb_base := teb, th_tls_vector_base := vec, th_tls_block_base := block,
      th_environment_owned := False \<rparr>) (free_thread_environment 0 s)"
  have e1: "env_step 0 s ?s1" by (intro env_then env_step_free) (simp add: same_core_def)
  have inv1: "sched_inv (?s1\<lparr> sc_boot_stack_lower := lo, sc_boot_stack_upper := hi \<rparr>)" (is "sched_inv ?s2")
    using sched_inv_env [OF inv _ live e1] by simp
  from sched_invD(4) [OF inv1] have live2: "th_live (sc_threads ?s2 ! 0)" unfolding boot_ok_def by blast
  let ?s3 = "upd_thread 0 (\<lambda>x. x\<lparr> th_context := (th_context x)\<lparr> cx_gs_base := gs \<rparr>, th_saved_context := Some 0 \<rparr>)
    (poke (teb + 0x10) lo (poke (teb + 0x08) hi (poke (gs + 0x58) vec (poke (gs + 0x30) teb ?s2))))"
  have "env_step 0 ?s2 ?s3" by (intro env_then env_step_refl) (simp add: same_core_def)
  then have "sched_inv ?s3" using sched_inv_env [OF inv1 _ live2] by simp
  then show ?thesis using inv I(3) by (simp add: gxos_scheduler_adopt_boot_environment_def Let_def set_gs_base_def)
qed

end
