(* ===== verification/Scheduler_Correct.thy ===== *)
theory Scheduler_Correct
  imports Scheduler_Lifecycle
begin

text \<open>
  The scheduler as a state machine: its states from a successful initialisation on, the
  invariant of all of them, and the contracts of its operations on these states.
\<close>

subsection \<open>Initialisation\<close>

lemma boot_state_inv:
  assumes ts: "sc_threads s = (replicate 6 zero_tcb)[0 := x]"
    and x: "th_live x" "th_is_boot_thread x" "th_state x = GXOS_SCHEDULER_THREAD_RUNNING" "\<not> th_runnable_queued x"
      "th_wait_record x = None" "th_object_slot x = 0" "th_generation x = ob_generation ob" "th_public_handle_refs x = 0"
    and obs: "sc_objects s = (replicate 16 zero_object)[0 := ob]"
    and ob: "ob_live ob" "ob_type ob = GXOS_SCHEDULER_OBJECT_THREAD" "ob_slot ob = 0" "ob_generation ob \<noteq> 0"
      "ob_public_handle_refs ob = 0" "ob_internal_refs ob = 1" "ob_target ob = Target_Thread 0"
    and rest: "sc_wait_records s = replicate 6 zero_wait_record" "sc_events s = replicate 12 zero_waitable"
      "sc_memory_resource_notifications s = replicate 1 zero_notification" "sc_standard_stream s = zero_standard_stream"
      "sc_runnable_queue s = []" "sc_active_wait_count s = 0" "sc_current s = Some 0" "sc_boot_thread s = Some 0" "sc_active s" "g_scheduler s"
  shows "sched_inv s"
proof -
  have th: "sc_threads s ! t = (if t = 0 then x else zero_tcb)" if "t < 6" for t using that ts by (simp add: nth_list_update_if)
  have o: "sc_objects s ! i = (if i = 0 then ob else zero_object)" if "i < 16" for i using that obs by (simp add: nth_list_update_if)
  have len: "length (sc_threads s) = 6" "length (sc_objects s) = 16" using ts obs by simp_all
  have dead: "\<not> ob_live zero_object" "\<not> wt_live zero_waitable" "\<not> mn_live zero_notification" "\<not> st_live zero_standard_stream"
    "wt_waiters zero_waitable = []"
    by (simp_all add: zero_object_def zero_waitable_def zero_notification_def zero_standard_stream_def)
  have "boot_ok (sc_threads s)" using th x by (auto simp: boot_ok_def)
  moreover have "pool_ok (sc_threads s) (sc_runnable_queue s)"
    using th x rest len by (auto simp: pool_ok_def thread_ok_def)
  moreover have "current_ok (sc_threads s) (sc_current s)" using th x rest by (auto simp: current_ok_def)
  moreover have "wait_ok (sc_threads s) (sc_wait_records s) (sc_events s) (sc_active_wait_count s)"
    using th x rest len dead by (auto simp: wait_ok_def waiters_ok_def thread_wait_ok_def)
  moreover have "objects_ok (sc_objects s) (sc_threads s) (sc_events s) (sc_memory_resource_notifications s)
      (sc_standard_stream s) (sc_wait_records s)"
    using th o x ob rest len dead
    by (auto simp: objects_ok_def target_ok_def thread_object_ok_def owned_def)
  ultimately show ?thesis using rest by (simp add: sched_inv_def)
qed

lemma initialize_inv:
  assumes "gxos_scheduler_initialize alloc free s = (True, s')"
  shows "sched_inv s'"
proof -
  note def = gxos_scheduler_initialize_def
  let ?x = "zero_tcb \<lparr> th_live := True, th_is_boot_thread := True, th_identity := 1, th_generation := 1,
                th_state := GXOS_SCHEDULER_THREAD_RUNNING, th_relative_priority := 0, th_execution_refs := 1 \<rparr>"
  define lower where "lower = sy_rsp s AND NOT (GXOS_SCHEDULER_PAGE_SIZE - 1)"
  define s0 where "s0 = upd_thread 0 (\<lambda>_. ?x) ((zero_scheduler s)
              \<lparr> sc_allocate_pages := alloc, sc_free_pages := free,
                sc_next_wait_generation := 1, sc_saved_boot_gs_base := sy_gs_base s,
                sc_saved_boot_flags := sy_flags s, sc_boot_stack_lower := lower,
                sc_boot_stack_upper := lower + 0x100000, sc_next_identity := 2, g_scheduler := True \<rparr>)"
  let ?ob = "new_object s0 0 GXOS_SCHEDULER_OBJECT_THREAD (Target_Thread 0)"
  have obs: "sc_objects s0 = replicate 16 zero_object" "g_scheduler s0" by (simp_all add: s0_def upd_thread_def zero_scheduler_def)
  define s1 where "s1 = s0\<lparr> sc_objects := (sc_objects s0)[0 := ?ob] \<rparr>"
  have "find_index (\<lambda>ob. \<not> ob_live ob) (sc_objects s0) = Some 0"
    by (simp add: obs find_index_replicate zero_object_def)
  then have alloc: "\<exists>h. allocate_object GXOS_SCHEDULER_OBJECT_THREAD (Target_Thread 0) s0 = (Some (0, h), s1)"
    using obs(2) by (simp add: allocate_object_def Let_def upd_object_def new_object_def s1_def)
  obtain b s2 where b: "allocate_thread_environment 0 s1 = (b, s2)" by force
  have env: "env_step 0 s1 s2" using env_step_allocate [of 0 s1] b by simp
  then obtain y w m where y: "same_core y (sc_threads s1 ! 0)"
    and s2: "s2 = s1\<lparr> sc_threads := (sc_threads s1)[0 := y], sy_world := w, sy_memory := m \<rparr>" by (auto simp: env_step_def)
  let ?gs = "th_gs_base (sc_threads s2 ! 0)"
  let ?done = "\<lambda>s. set_gs_base (th_gs_base (sc_threads s ! 0))
      ((upd_thread 0 (\<lambda>x. x\<lparr> th_object_slot := 0, th_public_handle_refs := 0,
          th_context := (th_context x)\<lparr> cx_gs_base := th_gs_base (sc_threads s ! 0) \<rparr>, th_saved_context := Some 0 \<rparr>)
         (upd_object 0 (\<lambda>ob. ob\<lparr> ob_public_handle_refs := 0 \<rparr>) s))
       \<lparr> sc_current := Some 0, sc_boot_thread := Some 0, sc_active := True \<rparr>)"
  have "alloc \<noteq> None" "free \<noteq> None" "\<not> sc_active s" using assms by (auto simp: def split: if_splits)
  then have "gxos_scheduler_initialize alloc free s =
     (case allocate_object GXOS_SCHEDULER_OBJECT_THREAD (Target_Thread 0) s0 of
        (None, s) \<Rightarrow> (False, (free_thread_environment 0 s)\<lparr> g_scheduler := False \<rparr>)
      | (Some (object_slot, _), s) \<Rightarrow>
          (case allocate_thread_environment 0 s of
             (False, s) \<Rightarrow> (False, (free_thread_environment 0 (release_object_record object_slot s))\<lparr> g_scheduler := False \<rparr>)
           | (True, s) \<Rightarrow>
               let gs = th_gs_base (sc_threads s ! 0);
                   s = upd_object object_slot (\<lambda>ob. ob\<lparr> ob_public_handle_refs := 0 \<rparr>) s;
                   s = upd_thread 0 (\<lambda>x. x\<lparr> th_object_slot := object_slot, th_public_handle_refs := 0,
                         th_context := (th_context x)\<lparr> cx_gs_base := gs \<rparr>, th_saved_context := Some 0 \<rparr>) s;
                   s = s\<lparr> sc_current := Some 0, sc_boot_thread := Some 0, sc_active := True \<rparr>
               in (True, set_gs_base gs s)))"
    unfolding def s0_def lower_def by (simp add: Let_def del: not_None_eq)
  moreover obtain h where "allocate_object GXOS_SCHEDULER_OBJECT_THREAD (Target_Thread 0) s0 = (Some (0, h), s1)" using alloc ..
  ultimately have op: "s' = ?done s2" using assms b by (cases b) (simp_all add: Let_def)
  have z: "sc_threads s0 = (replicate 6 zero_tcb)[0 := ?x]" "sc_wait_records s0 = replicate 6 zero_wait_record"
    "sc_events s0 = replicate 12 zero_waitable" "sc_memory_resource_notifications s0 = replicate 1 zero_notification"
    "sc_standard_stream s0 = zero_standard_stream" "sc_runnable_queue s0 = []" "sc_active_wait_count s0 = 0"
    by (simp_all add: s0_def upd_thread_def zero_scheduler_def)
  have y': "th_live y" "th_is_boot_thread y" "th_state y = GXOS_SCHEDULER_THREAD_RUNNING" "\<not> th_runnable_queued y"
    "th_wait_record y = None" "th_generation y = 1"
    using y by (simp_all add: same_core_def s1_def z)
  have gen: "ob_generation ?ob = 1" by (simp add: obs zero_object_def next_object_generation_def)
  let ?y = "y\<lparr> th_object_slot := 0, th_public_handle_refs := 0, th_context := (th_context y)\<lparr> cx_gs_base := th_gs_base y \<rparr>,
      th_saved_context := Some 0 \<rparr>"
  have s': "s' = s0\<lparr> sc_threads := (replicate 6 zero_tcb)[0 := ?y],
      sc_objects := (replicate 16 zero_object)[0 := ?ob\<lparr> ob_public_handle_refs := 0 \<rparr>], sy_world := w, sy_memory := m,
      sc_current := Some 0, sc_boot_thread := Some 0, sc_active := True, sy_gs_base := th_gs_base y \<rparr>"
    unfolding op s2 s1_def by (simp add: upd_thread_def upd_object_def set_gs_base_def z obs)
  show ?thesis
    by (rule boot_state_inv [of s' ?y "?ob\<lparr> ob_public_handle_refs := 0 \<rparr>"]) (use y' gen z obs in \<open>simp_all add: s'\<close>)
qed

subsection \<open>Tearing down\<close>

text \<open>Nothing of the scheduler is live any more.\<close>

definition nothing_live :: "'w sched \<Rightarrow> bool" where
  "nothing_live s \<longleftrightarrow> (\<forall>t < 6. \<not> th_live (sc_threads s ! t)) \<and> (\<forall>e < 12. \<not> wt_live (sc_events s ! e)) \<and>
     (\<forall>n < 1. \<not> mn_live (sc_memory_resource_notifications s ! n)) \<and> \<not> st_live (sc_standard_stream s) \<and>
     (\<forall>i < 16. \<not> ob_live (sc_objects s ! i))"

lemma teardown_stream_eq:
  assumes inv: "sched_inv s"
  shows "teardown_stream s = Some (if st_live (sc_standard_stream s) then s
      \<lparr> sc_objects := (sc_objects s)[st_object_slot (sc_standard_stream s) :=
          zero_object\<lparr> ob_generation := ob_generation (sc_objects s ! st_object_slot (sc_standard_stream s)) \<rparr>],
        sc_standard_stream := zero_standard_stream, sc_standard_input_handle := 0, sc_standard_output_handle := 0, sc_standard_error_handle := 0 \<rparr>
      else s)"
proof (cases "st_live (sc_standard_stream s)")
  case False
  then show ?thesis by (simp add: teardown_stream_def Let_def)
next
  case True
  note I = sched_invD [OF inv]
  let ?i = "st_object_slot (sc_standard_stream s)"
  have "owned (sc_objects s) ?i Target_Stream" using objects_okD(12) [OF I(8)] True by simp
  then have "?i < 16" "ob_live (sc_objects s ! ?i)" "stream_object_ok ?i (sc_objects s ! ?i) (sc_standard_stream s)"
    using objects_okD(8) [OF I(8), of ?i] by (auto simp: owned_def target_ok_def)
  then show ?thesis using True objects_okD(1) [OF I(8)]
    by (simp add: teardown_stream_def Let_def stream_object_ok_def release_object_record_def upd_object_def)
qed

lemma free_thread_environment_sel [simp]:
  "sc_threads (free_thread_environment t s) ! u = (if u = t \<and> t < length (sc_threads s) \<and> g_scheduler s then
     (sc_threads s ! t)\<lparr> th_gs_base := 0, th_tls_vector_base := 0, th_tls_block_base := 0, th_teb_base := 0, th_environment_owned := False \<rparr>
     else sc_threads s ! u)"
  "sc_objects (free_thread_environment t s) = sc_objects s" "sc_events (free_thread_environment t s) = sc_events s"
  "sc_memory_resource_notifications (free_thread_environment t s) = sc_memory_resource_notifications s"
  "sc_standard_stream (free_thread_environment t s) = sc_standard_stream s"
  "sc_saved_boot_gs_base (free_thread_environment t s) = sc_saved_boot_gs_base s"
  "sc_saved_boot_flags (free_thread_environment t s) = sc_saved_boot_flags s"
  "length (sc_threads (free_thread_environment t s)) = length (sc_threads s)"
proof -
  have pf: "sc_threads (page_free a r) = sc_threads r" "sc_objects (page_free a r) = sc_objects r" "sc_events (page_free a r) = sc_events r"
    "sc_memory_resource_notifications (page_free a r) = sc_memory_resource_notifications r"
    "sc_standard_stream (page_free a r) = sc_standard_stream r" "sc_saved_boot_gs_base (page_free a r) = sc_saved_boot_gs_base r"
    "sc_saved_boot_flags (page_free a r) = sc_saved_boot_flags r" for a and r :: "'w sched"
    by (simp_all add: page_free_def split: option.split)
  note d = free_thread_environment_def Let_def upd_thread_def pf
  show "sc_threads (free_thread_environment t s) ! u = (if u = t \<and> t < length (sc_threads s) \<and> g_scheduler s then
     (sc_threads s ! t)\<lparr> th_gs_base := 0, th_tls_vector_base := 0, th_tls_block_base := 0, th_teb_base := 0, th_environment_owned := False \<rparr>
     else sc_threads s ! u)" by (auto simp: d nth_list_update_if)
  show "sc_objects (free_thread_environment t s) = sc_objects s" "sc_events (free_thread_environment t s) = sc_events s"
    "sc_memory_resource_notifications (free_thread_environment t s) = sc_memory_resource_notifications s"
    "sc_standard_stream (free_thread_environment t s) = sc_standard_stream s"
    "sc_saved_boot_gs_base (free_thread_environment t s) = sc_saved_boot_gs_base s"
    "sc_saved_boot_flags (free_thread_environment t s) = sc_saved_boot_flags s"
    "length (sc_threads (free_thread_environment t s)) = length (sc_threads s)" by (simp_all add: d)
qed

text \<open>The objects that are live when only the boot thread and the stream are.\<close>

lemma remaining_objects:
  assumes inv: "sched_inv s" and "\<forall>t < 6. t \<noteq> 0 \<longrightarrow> \<not> th_live (sc_threads s ! t)" and "\<forall>e < 12. \<not> wt_live (sc_events s ! e)"
    and "\<forall>n < 1. \<not> mn_live (sc_memory_resource_notifications s ! n)" and i: "i < 16" "ob_live (sc_objects s ! i)"
  shows "i = th_object_slot (sc_threads s ! 0) \<or> st_live (sc_standard_stream s) \<and> i = st_object_slot (sc_standard_stream s)"
  using objects_okD(8) [OF sched_invD(8) [OF inv] i] assms(2-4)
  by (auto simp: target_ok_def thread_object_ok_def event_object_ok_def notification_object_ok_def stream_object_ok_def
      split: object_target.splits)

lemma teardown_success:
  assumes inv: "sched_inv s" and op: "gxos_scheduler_teardown s = (True, s')"
  shows "nothing_live s'" "\<not> g_scheduler s'" "\<not> sc_active s'" "sc_current s' = None"
    "sy_gs_base s' = sc_saved_boot_gs_base (snd (gxos_scheduler_collect s))" "sy_flags s' = sc_saved_boot_flags (snd (gxos_scheduler_collect s))"
proof -
  define r where "r = snd (gxos_scheduler_collect s)"
  have R: "sched_inv r" using collect_inv [OF inv] by (simp add: r_def)
  note I = sched_invD [OF inv] and J = sched_invD [OF R] and def = gxos_scheduler_teardown_def
  have len: "length (sc_events r) = 12" "length (sc_threads r) = 6" "length (sc_objects r) = 16" "length (sc_memory_resource_notifications r) = 1"
    using objects_okD(1-4) [OF J(8)] by auto
  let ?i = "th_object_slot (sc_threads r ! 0)"
  define q where "q = the (teardown_stream r)"
  have q: "teardown_stream r = Some q" using teardown_stream_eq [OF R] by (simp add: q_def)
  have success: "\<not> list_ex wt_live (sc_events r)" "\<not> list_ex mn_live (sc_memory_resource_notifications r)"
    "\<not> list_ex (\<lambda>index. th_live (sc_threads r ! index)) [1..<6]"
    using op I(3) unfolding def by (auto simp: r_def Let_def split: if_splits option.splits)
  have s': "s' = (restore_boot_flags (sc_saved_boot_flags r) (set_gs_base (sc_saved_boot_gs_base r)
      (upd_thread 0 (\<lambda>_. zero_tcb) (release_object_record ?i (upd_object ?i (\<lambda>ob. ob\<lparr> ob_internal_refs := 0 \<rparr>)
        (free_thread_environment 0 q))))))
      \<lparr> sc_current := None, sc_boot_thread := None, sc_active := False, g_scheduler := False \<rparr>"
  proof -
    have "sc_saved_boot_gs_base q = sc_saved_boot_gs_base r" "sc_saved_boot_flags q = sc_saved_boot_flags r"
      using teardown_stream_eq [OF R] by (auto simp: q_def)
    then show ?thesis using op I(3) success q unfolding def
      by (auto simp: r_def [symmetric] Let_def upd_thread_def upd_object_def release_object_record_def set_gs_base_def split: if_splits)
  qed
  show "\<not> g_scheduler s'" "\<not> sc_active s'" "sc_current s' = None"
    "sy_gs_base s' = sc_saved_boot_gs_base (snd (gxos_scheduler_collect s))" "sy_flags s' = sc_saved_boot_flags (snd (gxos_scheduler_collect s))"
    by (simp_all add: s' restore_boot_flags_def set_gs_base_def flip: r_def)
  have dead: "\<forall>t < 6. t \<noteq> 0 \<longrightarrow> \<not> th_live (sc_threads r ! t)" "\<forall>e < 12. \<not> wt_live (sc_events r ! e)"
    "\<forall>n < 1. \<not> mn_live (sc_memory_resource_notifications r ! n)"
    using success len by (auto simp: list_ex_iff)
  note left = remaining_objects [OF R dead]
  have i16: "?i < 16" using objects_okD(9) [OF J(8), of 0] J(4) by (auto simp: boot_ok_def owned_def)
  have q': "sc_threads q = sc_threads r" "sc_events q = sc_events r" "sc_memory_resource_notifications q = sc_memory_resource_notifications r"
    "\<not> st_live (sc_standard_stream q)" "g_scheduler q" "length (sc_objects q) = 16"
    "\<And>i. i < 16 \<Longrightarrow> ob_live (sc_objects q ! i) \<Longrightarrow> i = ?i"
    using teardown_stream_eq [OF R] left J(1) len
    by (auto simp: q_def zero_standard_stream_def zero_object_def nth_list_update_if split: if_splits)
  have "\<not> ob_live (sc_objects s' ! i)" if "i < 16" for i
    using that q'(6,7) i16
    by (auto simp: s' restore_boot_flags_def set_gs_base_def release_object_record_def nth_list_update_if zero_object_def)
  moreover have "\<not> st_live (sc_standard_stream s')"
    using q'(4) by (simp add: s' restore_boot_flags_def set_gs_base_def release_object_record_def upd_thread_def upd_object_def)
  ultimately show "nothing_live s'" using q' dead len
    by (auto simp: nothing_live_def s' restore_boot_flags_def set_gs_base_def release_object_record_def nth_list_update_if)
qed

lemma teardown_inv:
  assumes inv: "sched_inv s" and "\<not> fst (gxos_scheduler_teardown s)"
  shows "sched_inv (snd (gxos_scheduler_teardown s))"
  using assms collect_inv [OF inv] sched_invD(3) [OF inv] teardown_stream_eq [OF collect_inv [OF inv]]
  by (auto simp: gxos_scheduler_teardown_def Let_def split: if_splits option.splits)

subsection \<open>The state machine\<close>

text \<open>
  What two operations leave to their callers. A worker calls \<open>prepare_terminate\<close> only after it has
  collected the result of its last wait, which the assembly wrappers of the waits do on their way back
  (\<open>scheduler_context.S\<close>). A thread that has been resumed is discarded only if it is
  not the boot thread and has collected its last wait. The code tests neither; a call that it refuses, and the
  discarding of a thread that was never resumed, are free of the obligation.
\<close>

definition terminate_allowed :: "'w sched \<Rightarrow> bool" where
  "terminate_allowed s =
     (case sc_current s of
        None \<Rightarrow> True
      | Some k \<Rightarrow> th_state (sc_threads s ! k) = GXOS_SCHEDULER_THREAD_RUNNING \<and> \<not> th_is_boot_thread (sc_threads s ! k) \<longrightarrow>
          th_wait_record (sc_threads s ! k) = None)"

definition discard_allowed :: "nat option \<Rightarrow> 'w sched \<Rightarrow> bool" where
  "discard_allowed p s =
     (case p of
        None \<Rightarrow> True
      | Some t \<Rightarrow> t < 6 \<and> (th_state (sc_threads s ! t) = GXOS_SCHEDULER_THREAD_RUNNABLE \<longrightarrow>
          t \<noteq> 0 \<and> th_wait_record (sc_threads s ! t) = None))"

text \<open>
  One call of an operation by a caller that keeps these obligations. The pointers are null or point into the thread
  array. A tear-down that succeeds ends the run.
\<close>

inductive sched_step :: "'w sched \<Rightarrow> 'w sched \<Rightarrow> bool" where
  initialize: "sched_step s (snd (gxos_scheduler_initialize alloc free s))"
| configure_stack_vm: "sched_step s (snd (gxos_scheduler_configure_stack_vm reg unreg s))"
| configure_clock: "sched_step s (snd (gxos_scheduler_configure_clock now s))"
| adopt: "sched_step s (snd (gxos_scheduler_adopt_boot_environment gs teb vec block lo hi s))"
| create_event: "sched_step s (snd (gxos_scheduler_create_event manual signaled s))"
| create_notification: "sched_step s (snd (gxos_scheduler_create_memory_resource_notification ty s))"
| install_stream: "sched_step s (snd (gxos_scheduler_install_standard_stream role backend capabilities s))"
| create_thread: "sched_step s (snd (gxos_scheduler_create_suspended_thread entry argument s))"
| worker_started: "sched_step s (gxos_scheduler_note_worker_started s)"
| resume: "sched_step s (snd (gxos_scheduler_resume_thread handle s))"
| close: "sched_step s (snd (gxos_scheduler_close_handle handle s))"
| signal: "sched_step s (snd (gxos_scheduler_signal_event handle s))"
| reset: "sched_step s (snd (gxos_scheduler_reset_event handle s))"
| arm: "sched_step s (snd (gxos_scheduler_arm_wait_timeout deadline s))"
| service: "sched_step s (snd (gxos_scheduler_service_timeouts now_ms s))"
| poll: "sched_step s (snd (gxos_scheduler_poll_timeouts s))"
| wait: "sched_step s (snd (snd (gxos_scheduler_prepare_wait_record handle s)))"
| finish: "sched_step s (snd (gxos_scheduler_finish_wait handle s))"
| yield: "sched_step s (snd (gxos_scheduler_prepare_yield s))"
| terminate: "terminate_allowed s \<Longrightarrow> sched_step s (snd (gxos_scheduler_prepare_terminate v s))"
| destroy_event: "sched_step s (snd (gxos_scheduler_try_destroy_event handle s))"
| destroy_notification: "sched_step s (snd (gxos_scheduler_try_destroy_memory_resource_notification handle s))"
| reclaim: "(\<And>t. p = Some t \<Longrightarrow> t < 6) \<Longrightarrow> sched_step s (snd (gxos_scheduler_try_reclaim_thread p s))"
| discard: "discard_allowed p s \<Longrightarrow> sched_step s (snd (gxos_scheduler_discard_created_thread p s))"
| collect: "sched_step s (snd (gxos_scheduler_collect s))"
| teardown_refused: "\<not> fst (gxos_scheduler_teardown s) \<Longrightarrow> sched_step s (snd (gxos_scheduler_teardown s))"
| set_fls: "sched_step s (gxos_scheduler_set_fls slot value s)"
| set_last_error: "sched_step s (gxos_scheduler_set_last_error code s)"
| tls_write: "sched_step s (gxos_scheduler_gs_tls_write value s)"

inductive sched_reachable :: "'w sched \<Rightarrow> bool" where
  boot: "gxos_scheduler_initialize alloc free s = (True, s') \<Longrightarrow> sched_reachable s'"
| step: "sched_reachable s \<Longrightarrow> sched_step s s' \<Longrightarrow> sched_reachable s'"

lemma create_thread_inv:
  assumes inv: "sched_inv s"
  shows "sched_inv (snd (gxos_scheduler_create_suspended_thread entry argument s))"
proof -
  obtain out s' where op: "gxos_scheduler_create_suspended_thread entry argument s = (out, s')" by force
  have "sched_inv s'" if "created_nothing s s'"
    using that sched_inv_same_objects [OF inv] by (auto simp: created_nothing_def)
  moreover have "sched_inv s'" if "created_thread s h t s'" for h t using that by (simp add: created_thread_def)
  ultimately show ?thesis using create_thread_spec [OF inv op] op by (auto split: option.splits)
qed

lemma initialize_again: "sched_inv s \<Longrightarrow> gxos_scheduler_initialize alloc free s = (False, s)"
  by (simp add: gxos_scheduler_initialize_def sched_invD)

lemma sched_step_inv: "sched_step s s' \<Longrightarrow> sched_inv s \<Longrightarrow> sched_inv s'"
proof (induction rule: sched_step.induct)
  case (terminate s v)
  then show ?case by (intro terminate_inv) (simp_all add: terminate_allowed_def)
next
  case (reclaim p s)
  then show ?case by (intro try_reclaim_inv)
next
  case (discard p s)
  show ?case
  proof (cases p)
    case None
    then show ?thesis using discard by (simp add: gxos_scheduler_discard_created_thread_def)
  next
    case (Some t)
    then show ?thesis using discard discard_inv [of s t] by (simp add: discard_allowed_def)
  qed
qed (simp_all add: initialize_again configure_inv adopt_inv create_event_inv create_notification_inv install_stream_inv
    create_thread_inv cells_inv resume_inv close_inv signal_inv reset_inv service_inv poll_inv prepare_wait_inv
    finish_wait_inv yield_inv destroy_event_inv destroy_notification_fails collect_inv teardown_inv)

lemma reachable_inv: "sched_reachable s \<Longrightarrow> sched_inv s"
  by (induction rule: sched_reachable.induct) (auto intro: initialize_inv sched_step_inv)

end
