(* ===== verification/Scheduler_Contracts.thy ===== *)
theory Scheduler_Contracts
  imports Scheduler_Correct
begin

text \<open>
  What the scheduler promises its clients, on every state that a successful initialisation can
  lead to: consistency of the tables, signalling, waiting, finishing a wait, timeouts, creation and
  tear-down, with concrete runs that reach such states.
\<close>

subsection \<open>A machine that boots\<close>

text \<open>The services hand out consecutive pages from a counter; the clock and the registrations work.\<close>

definition bump_alloc :: "nat \<Rightarrow> u64 \<Rightarrow> u64 \<times> u64 \<times> nat" where
  "bump_alloc w n = (0, of_nat w * 4096, w + unat n)"

definition booted :: "nat sched" where
  "booted = snd (gxos_scheduler_initialize (Some bump_alloc) (Some (\<lambda>w a n. w)) empty_sched)"

lemma empty_sched_sel [simp]:
  "\<not> sc_active empty_sched" "sy_world empty_sched = 32" "\<not> g_scheduler empty_sched"
  by (simp_all add: empty_sched_def zero_scheduler_def)

lemma booted_run: "gxos_scheduler_initialize (Some bump_alloc) (Some (\<lambda>w a n. w)) empty_sched = (True, booted)"
proof -
  have "fst (gxos_scheduler_initialize (Some bump_alloc) (Some (\<lambda>w a n. w)) empty_sched)"
    by (simp add: gxos_scheduler_initialize_def Let_def allocate_object_def zero_scheduler_def upd_thread_def upd_object_def
        zero_object_def allocate_thread_environment_def page_allocate_def bump_alloc_def poke_def)
  then show ?thesis by (simp add: booted_def prod_eq_iff)
qed

lemma booted_reachable: "sched_reachable booted"
  using booted_run by (rule sched_reachable.boot)

subsection \<open>Consistency\<close>

lemma live_sum_one_card: "live_sum P (\<lambda>_. 1) xs = card {i. i < length xs \<and> P (xs ! i)}"
proof (induction xs)
  case (Cons x xs)
  have "{i. i < length (x # xs) \<and> P ((x # xs) ! i)} =
      (if P x then {0} else {}) \<union> Suc ` {i. i < length xs \<and> P (xs ! i)}" by (auto simp: less_Suc_eq_0_disj)
  moreover have "card ((if P x then {0} else {}) \<union> Suc ` {i. i < length xs \<and> P (xs ! i)}) =
      (if P x then 1 else 0) + card {i. i < length xs \<and> P (xs ! i)}"
    by (subst card_Un_disjoint) (auto simp: card_image)
  ultimately show ?case using Cons by (simp add: ac_simps)
qed simp

text \<open>The event that a blocked thread waits for.\<close>

definition waits_for :: "'w sched \<Rightarrow> nat \<Rightarrow> nat option" where
  "waits_for s t =
     (if th_state (sc_threads s ! t) = GXOS_SCHEDULER_THREAD_BLOCKED
      then case th_wait_record (sc_threads s ! t) of
             None \<Rightarrow> None
           | Some r \<Rightarrow> (case wr_waitable (sc_wait_records s ! r) of Some (Waitable_Event e) \<Rightarrow> Some e | _ \<Rightarrow> None)
      else None)"

lemma blocked_waits:
  assumes inv: "sched_inv s" and t: "t < 6" "th_state (sc_threads s ! t) = GXOS_SCHEDULER_THREAD_BLOCKED"
  shows "\<exists>e < 12. \<exists>j < length (waiters s e). waits_for s t = Some e \<and> th_live (sc_threads s ! t) \<and> wt_live (sc_events s ! e) \<and>
    th_wait_record (sc_threads s ! t) = Some (waiters s e ! j) \<and> waiting_thread s e j = t"
proof -
  note I = sched_invD [OF inv]
  from wait_okD(7) [OF I(7) t(1)] t(2) obtain r where r: "th_wait_record (sc_threads s ! t) = Some r" "r < 6"
    "wr_valid (sc_wait_records s ! r)" "wr_thread (sc_wait_records s ! r) = Some t"
    by (auto simp: thread_wait_ok_def split: option.splits)
  from wait_okD(4) [OF I(7) r(2,3)] r(4) obtain e where e: "e < 12" "wr_waitable (sc_wait_records s ! r) = Some (Waitable_Event e)"
    "record_event_ok r (sc_wait_records s ! r) (sc_events s ! e)" "record_thread_ok r (sc_wait_records s ! r) (sc_threads s ! t)"
    by (auto simp: record_ok_def)
  have nc: "\<not> wr_completed (sc_wait_records s ! r)" using e(4) t(2) by (auto simp: record_thread_ok_def split: if_splits)
  let ?j = "unat (wr_waiter_index (sc_wait_records s ! r))"
  have "?j < length (waiters s e)" "waiters s e ! ?j = r" "wt_live (sc_events s ! e)" using e(3) nc by (auto simp: record_event_ok_def)
  moreover have "th_live (sc_threads s ! t)" using e(4) by (simp add: record_thread_ok_def)
  ultimately show ?thesis using e(1,2) r t(2) by (intro exI [of _ e] conjI exI [of _ ?j]) (simp_all add: waits_for_def waiting_thread_def)
qed

lemma waits_on_iff:
  assumes inv: "sched_inv s" and t: "t < 6" and e: "e < 12"
  shows "waits_on s t e \<longleftrightarrow> waits_for s t = Some e"
proof
  assume "waits_on s t e"
  then obtain j where j: "j < length (waiters s e)" "waiting_thread s e j = t" by (auto simp: waits_on_def)
  note W = waiting_thread [OF inv e j(1), unfolded j(2)]
  have "wr_waitable (sc_wait_records s ! (waiters s e ! j)) = Some (Waitable_Event e)"
    using waiter_record(4) [OF sched_invD(7) [OF inv] e j(1)] .
  with W show "waits_for s t = Some e" by (simp add: waits_for_def)
next
  assume w: "waits_for s t = Some e"
  then have "th_state (sc_threads s ! t) = GXOS_SCHEDULER_THREAD_BLOCKED" by (auto simp: waits_for_def split: if_splits)
  from blocked_waits [OF inv t this] w show "waits_on s t e" by (auto simp: waits_on_def)
qed

lemma consistent_state:
  assumes inv: "sched_inv s"
  shows "\<exists>k < 6. sc_current s = Some k \<and> th_live (sc_threads s ! k) \<and>
      (\<forall>t < 6. t \<noteq> k \<longrightarrow> th_state (sc_threads s ! t) \<noteq> GXOS_SCHEDULER_THREAD_RUNNING)"
    and "distinct (sc_runnable_queue s)"
    and "t \<in> set (sc_runnable_queue s) \<longleftrightarrow>
      t < 6 \<and> th_live (sc_threads s ! t) \<and> th_state (sc_threads s ! t) = GXOS_SCHEDULER_THREAD_RUNNABLE"
    and "t < 6 \<Longrightarrow> th_state (sc_threads s ! t) = GXOS_SCHEDULER_THREAD_BLOCKED \<longleftrightarrow> (\<exists>!e. e < 12 \<and> waits_on s t e)"
    and "e < 12 \<Longrightarrow> r \<in> set (waiters s e) \<Longrightarrow> wt_live (sc_events s ! e) \<and> (\<exists>t < 6. wr_thread (sc_wait_records s ! r) = Some t \<and>
      th_wait_record (sc_threads s ! t) = Some r \<and> th_state (sc_threads s ! t) = GXOS_SCHEDULER_THREAD_BLOCKED)"
    and "unat (sc_active_wait_count s) = card {r. r < 6 \<and> wr_valid (sc_wait_records s ! r)}"
    and "i < 16 \<Longrightarrow> ob_live (sc_objects s ! i) \<Longrightarrow> target_ok (sc_threads s) (sc_events s) (sc_memory_resource_notifications s)
      (sc_standard_stream s) (sc_wait_records s) i (sc_objects s ! i)"
    and "e < 12 \<Longrightarrow> wt_live (sc_events s ! e) \<Longrightarrow> unat (ob_internal_refs (sc_objects s ! wt_object_slot (sc_events s ! e))) =
      1 + card {r. r < 6 \<and> wr_valid (sc_wait_records s ! r) \<and> wr_object (sc_wait_records s ! r) = Some (wt_object_slot (sc_events s ! e))}"
proof -
  note I = sched_invD [OF inv]
  have len: "length (sc_wait_records s) = 6" using wait_okD(2) [OF I(7)] .
  show "\<exists>k < 6. sc_current s = Some k \<and> th_live (sc_threads s ! k) \<and>
      (\<forall>t < 6. t \<noteq> k \<longrightarrow> th_state (sc_threads s ! t) \<noteq> GXOS_SCHEDULER_THREAD_RUNNING)"
    using I(6) by (auto simp: current_ok_def)
  show "distinct (sc_runnable_queue s)" and "t \<in> set (sc_runnable_queue s) \<longleftrightarrow>
      t < 6 \<and> th_live (sc_threads s ! t) \<and> th_state (sc_threads s ! t) = GXOS_SCHEDULER_THREAD_RUNNABLE"
    using I(5) by (auto simp: pool_ok_def thread_ok_def)
  show "th_state (sc_threads s ! t) = GXOS_SCHEDULER_THREAD_BLOCKED \<longleftrightarrow> (\<exists>!e. e < 12 \<and> waits_on s t e)" if t: "t < 6"
  proof
    assume b: "th_state (sc_threads s ! t) = GXOS_SCHEDULER_THREAD_BLOCKED"
    from blocked_waits [OF inv t b] show "\<exists>!e. e < 12 \<and> waits_on s t e" using waits_on_iff [OF inv t] by auto
  next
    assume "\<exists>!e. e < 12 \<and> waits_on s t e"
    then show "th_state (sc_threads s ! t) = GXOS_SCHEDULER_THREAD_BLOCKED"
      using waits_on_iff [OF inv t] by (auto simp: waits_for_def split: if_splits)
  qed
  show "wt_live (sc_events s ! e) \<and> (\<exists>t < 6. wr_thread (sc_wait_records s ! r) = Some t \<and> th_wait_record (sc_threads s ! t) = Some r \<and>
      th_state (sc_threads s ! t) = GXOS_SCHEDULER_THREAD_BLOCKED)" if e: "e < 12" and r: "r \<in> set (waiters s e)"
  proof -
    from r obtain j where j: "j < length (waiters s e)" "r = waiters s e ! j" by (auto simp: in_set_conv_nth)
    have "wt_live (sc_events s ! e)" using dead_event_waiters [OF inv e] r by (cases "wt_live (sc_events s ! e)") auto
    then show ?thesis using waiter_record(8) [OF I(7) e j(1)] j(2) by auto
  qed
  show "unat (sc_active_wait_count s) = card {r. r < 6 \<and> wr_valid (sc_wait_records s ! r)}"
    using wait_okD(8) [OF I(7)] live_sum_one_card [of wr_valid "sc_wait_records s"] len by simp
  show "i < 16 \<Longrightarrow> ob_live (sc_objects s ! i) \<Longrightarrow> target_ok (sc_threads s) (sc_events s) (sc_memory_resource_notifications s)
      (sc_standard_stream s) (sc_wait_records s) i (sc_objects s ! i)" using objects_okD(8) [OF I(8)] .
  show "unat (ob_internal_refs (sc_objects s ! wt_object_slot (sc_events s ! e))) =
      1 + card {r. r < 6 \<and> wr_valid (sc_wait_records s ! r) \<and> wr_object (sc_wait_records s ! r) = Some (wt_object_slot (sc_events s ! e))}"
    if "e < 12" "wt_live (sc_events s ! e)"
    using owned_event [OF I(8) objects_okD(10) [OF I(8) that]] len
      live_sum_one_card [of "\<lambda>x. wr_valid x \<and> wr_object x = Some (wt_object_slot (sc_events s ! e))" "sc_wait_records s"]
    by (simp add: event_object_ok_def pins_def)
qed

text \<open>
  C15. Every state that a sequence of calls of the scheduler's operations, in any order and with any arguments,
  reaches from a successful initialisation is consistent, provided the callers keep two obligations that the code does not test: a worker
  terminates only after it has collected the result of its last wait (\<open>terminate_allowed\<close>), and a
  thread that has been resumed is discarded only if it is not the boot thread and has collected its
  last wait (\<open>discard_allowed\<close>). Thread pointers are null or point into the thread array.
  In such a state the following holds. There is exactly one current thread, it is live and no other thread is running. The runnable queue holds
  each live runnable thread exactly once and nothing else. A blocked thread sits on the waiter
  list of exactly one live event and every entry of a waiter list belongs to a blocked thread. The count of active
  waits is the number of valid wait records. Every live object has a live target that points back to it with the
  same generation, and the object of an event is kept by one reference plus one for each wait record
  that pins it: no reference is lost or counted twice.
\<close>

theorem scheduler_always_consistent:
  assumes "sched_reachable s"
  shows "(\<exists>k < 6. sc_current s = Some k \<and> th_live (sc_threads s ! k) \<and>
      (\<forall>t < 6. t \<noteq> k \<longrightarrow> th_state (sc_threads s ! t) \<noteq> GXOS_SCHEDULER_THREAD_RUNNING)) \<and>
    distinct (sc_runnable_queue s) \<and>
    (\<forall>t. t \<in> set (sc_runnable_queue s) \<longleftrightarrow>
      t < 6 \<and> th_live (sc_threads s ! t) \<and> th_state (sc_threads s ! t) = GXOS_SCHEDULER_THREAD_RUNNABLE) \<and>
    (\<forall>t < 6. th_state (sc_threads s ! t) = GXOS_SCHEDULER_THREAD_BLOCKED \<longleftrightarrow> (\<exists>!e. e < 12 \<and> waits_on s t e)) \<and>
    (\<forall>e < 12. \<forall>r \<in> set (waiters s e). wt_live (sc_events s ! e) \<and> (\<exists>t < 6. wr_thread (sc_wait_records s ! r) = Some t \<and>
      th_wait_record (sc_threads s ! t) = Some r \<and> th_state (sc_threads s ! t) = GXOS_SCHEDULER_THREAD_BLOCKED)) \<and>
    unat (sc_active_wait_count s) = card {r. r < 6 \<and> wr_valid (sc_wait_records s ! r)} \<and>
    (\<forall>i < 16. ob_live (sc_objects s ! i) \<longrightarrow> target_ok (sc_threads s) (sc_events s) (sc_memory_resource_notifications s)
      (sc_standard_stream s) (sc_wait_records s) i (sc_objects s ! i)) \<and>
    (\<forall>e < 12. wt_live (sc_events s ! e) \<longrightarrow> unat (ob_internal_refs (sc_objects s ! wt_object_slot (sc_events s ! e))) =
      1 + card {r. r < 6 \<and> wr_valid (sc_wait_records s ! r) \<and> wr_object (sc_wait_records s ! r) = Some (wt_object_slot (sc_events s ! e))})"
proof -
  note C = consistent_state [OF reachable_inv [OF assms]]
  show ?thesis by (intro conjI allI impI ballI C) assumption+
qed

theorem scheduler_always_consistent_witness:
  "sched_reachable booted \<and> distinct (sc_runnable_queue booted) \<and>
   unat (sc_active_wait_count booted) = card {r. r < 6 \<and> wr_valid (sc_wait_records booted ! r)} \<and>
   (th_state (sc_threads booted ! 0) = GXOS_SCHEDULER_THREAD_BLOCKED \<longleftrightarrow> (\<exists>!e. e < 12 \<and> waits_on booted 0 e))"
  using scheduler_always_consistent [OF booted_reachable] booted_reachable by simp

subsection \<open>Signalling\<close>

text \<open>The boot thread has created an event.\<close>

definition with_event :: "bool \<Rightarrow> bool \<Rightarrow> nat sched" where
  "with_event manual signaled = snd (gxos_scheduler_create_event manual signaled booted)"

abbreviation (input) event_handle :: GXOS_SCHEDULER_HANDLE where "event_handle \<equiv> 0xA702000000010002"

lemma booted_sel:
  "sc_events booted = replicate 12 zero_waitable" "g_scheduler booted" "sc_active booted"
  "map ob_live (sc_objects booted) = True # replicate 15 False" "map ob_generation (sc_objects booted) = 1 # replicate 15 0"
  "sc_current booted = Some 0" "th_state (sc_threads booted ! 0) = GXOS_SCHEDULER_THREAD_RUNNING"
  "th_wait_record (sc_threads booted ! 0) = None"
  by (simp_all add: booted_def gxos_scheduler_initialize_def Let_def allocate_object_def zero_scheduler_def upd_thread_def upd_object_def
        zero_object_def allocate_thread_environment_def page_allocate_def bump_alloc_def poke_def set_gs_base_def
        next_object_generation_def replicate_update_hd)

lemma booted_rest:
  "t < 6 \<Longrightarrow> t \<noteq> 0 \<Longrightarrow> sc_threads booted ! t = zero_tcb" "sc_memory_resource_notifications booted = [zero_notification]"
  "sc_standard_stream booted = zero_standard_stream" "sc_boot_thread booted = Some 0"
  by (simp_all add: booted_def gxos_scheduler_initialize_def Let_def allocate_object_def zero_scheduler_def upd_thread_def upd_object_def
        zero_object_def allocate_thread_environment_def page_allocate_def bump_alloc_def poke_def set_gs_base_def)

lemma with_event_run:
  "gxos_scheduler_create_event m b booted = (Some event_handle, with_event m b)"
  "event_of_handle (with_event m b) event_handle = Some 0"
  "sc_events (with_event m b) ! 0 = new_event m b 1 1"
  "validate_open_event_handle (with_event m b) event_handle = Some (1, 0)"
proof -
  have live: "map ob_live (sc_objects booted) = [True, False, False, False, False, False, False, False, False, False, False, False, False, False, False, False]"
    by (simp add: booted_sel eval_nat_numeral)
  then obtain o0 o1 os where obs: "sc_objects booted = o0 # o1 # os" "ob_live o0" "\<not> ob_live o1" by (auto simp: Cons_eq_map_conv map_eq_Cons_conv)
  have "ob_generation o1 = 0" using booted_sel(5) by (simp add: obs eval_nat_numeral)
  note d = gxos_scheduler_create_event_def with_event_def booted_sel allocate_object_def obs this Let_def upd_event_def upd_object_def
    next_object_generation_def make_handle_def new_event_def zero_waitable_def event_of_handle_def lookup_object_def decode_handle_def
    validate_open_event_handle_def decode_event_identity_def zero_object_def
  show "gxos_scheduler_create_event m b booted = (Some event_handle, with_event m b)"
    "event_of_handle (with_event m b) event_handle = Some 0" "sc_events (with_event m b) ! 0 = new_event m b 1 1"
    "validate_open_event_handle (with_event m b) event_handle = Some (1, 0)" by (simp_all add: d)
qed

lemma with_event_threads:
  "sc_threads (with_event m b) = sc_threads booted" "sc_current (with_event m b) = sc_current booted"
  by (simp_all add: with_event_def gxos_scheduler_create_event_def allocate_object_def Let_def upd_event_def upd_object_def split: option.split)

lemma with_event_reachable: "sched_reachable (with_event m b)"
  unfolding with_event_def by (intro sched_reachable.step [OF booted_reachable] sched_step.create_event)

text \<open>
  C16. Setting an event does exactly what a manual or automatic event promises. A set on an open
  handle succeeds; a manual event stays signaled and every thread that waited for it becomes
  runnable with the result \<open>signaled\<close>; an automatic event with waiters wakes exactly one of them, the first of
  the list, and stays unsignaled, and without waiters it keeps the signal. No other thread, no other event and not the
  current thread changes.
\<close>

theorem scheduler_signal_correct:
  assumes "sched_reachable s" and "event_of_handle s h = Some e"
  shows "\<exists>s'. gxos_scheduler_signal_event h s = (True, s') \<and> sc_current s' = sc_current s \<and>
    (\<forall>f. f \<noteq> e \<longrightarrow> sc_events s' ! f = sc_events s ! f) \<and>
    (let woken_by = (\<lambda>t. waits_on s t e \<and> (wt_manual_reset (sc_events s ! e) \<or> t = waiting_thread s e 0)) in
     (\<forall>t < 6. sc_threads s' ! t =
        (if woken_by t then woken GXOS_SCHEDULER_WAIT_SIGNALED (sc_threads s ! t) else sc_threads s ! t)) \<and>
     (\<forall>t < 6. waits_on s' t e \<longleftrightarrow> waits_on s t e \<and> \<not> woken_by t) \<and>
     wt_signaled (sc_events s' ! e) = (wt_manual_reset (sc_events s ! e) \<or> waiters s e = []))"
proof -
  note inv = reachable_inv [OF assms(1)]
  note E = event_of_handle [OF inv assms(2)] and def = gxos_scheduler_signal_event_def
  let ?sig = "\<lambda>b. upd_event e (\<lambda>x. x\<lparr> wt_signaled := b \<rparr>) s"
  have len: "length (sc_events s) = 12" "length (sc_threads s) = 6" using wait_okD(1,3) [OF sched_invD(7) [OF inv]] by auto
  have si: "sched_inv (?sig b)" for b by (rule set_signal_inv [OF inv])
  have frame: "sc_events (?sig b) ! f = (if f = e then (sc_events s ! e)\<lparr> wt_signaled := b \<rparr> else sc_events s ! f)"
    "sc_threads (?sig b) = sc_threads s" "sc_current (?sig b) = sc_current s" "waiting_thread (?sig b) e 0 = waiting_thread s e 0" for b f
    using E len by (simp_all add: upd_event_def waiting_thread_def)
  consider (manual) "wt_manual_reset (sc_events s ! e)" | (one) "\<not> wt_manual_reset (sc_events s ! e)" "waiters s e \<noteq> []"
    | (keep) "\<not> wt_manual_reset (sc_events s ! e)" "waiters s e = []" by blast
  then show ?thesis
  proof cases
    case manual
    have "\<not> waits_on (wake_all (Waitable_Event e) (?sig True)) t e" for t
      using wake_all_spec [OF si E(1), of True] by (simp add: waits_on_def)
    then show ?thesis using manual assms(2) E wake_all_spec [OF si E(1), of True] frame by (simp add: def Let_def)
  next
    case one
    have k: "0 < length (waiters (?sig False) e)" using one(2) E len by simp
    have out: "outcome_ok GXOS_SCHEDULER_WAIT_SIGNALED GXOS_WAIT_OBJECT_0" by (simp add: outcome_ok_def)
    let ?s' = "completed e 0 GXOS_WAIT_OBJECT_0 GXOS_SCHEDULER_WAIT_SIGNALED (?sig False)"
    have w0: "waits_on s (waiting_thread s e 0) e" using one(2) by (auto simp: waits_on_def)
    have "gxos_scheduler_signal_event h s = (True, ?s')"
      using one assms(2) E wake_waiter_eq [OF si E(1) k] by (simp add: def Let_def)
    moreover have "waits_on ?s' t e \<longleftrightarrow> waits_on s t e \<and> t \<noteq> waiting_thread s e 0" for t
      using waits_on_completed [OF si E(1) k out] by (simp add: frame(4))
    moreover have "sc_events ?s' ! f = (if f = e then (sc_events s ! e)\<lparr> wt_signaled := False, wt_waiters := drop_waiter (waiters s e) 0 \<rparr> else sc_events s ! f)"
      "sc_current ?s' = sc_current s" for f
      using E len by (auto simp: completed_def Let_def upd_event_def)
    moreover have "sc_threads ?s' ! t = (if t = waiting_thread s e 0 then woken GXOS_SCHEDULER_WAIT_SIGNALED (sc_threads s ! t) else sc_threads s ! t)"
      if "t < 6" for t
      using that len by (auto simp: completed_def Let_def woken_def nth_list_update_if frame)
    ultimately show ?thesis using one w0 by auto
  next
    case keep
    then have "\<not> waits_on s t e" for t by (simp add: waits_on_def)
    then show ?thesis using keep assms(2) E frame by (simp add: def Let_def)
  qed
qed

theorem scheduler_signal_correct_witness:
  "\<exists>s'. gxos_scheduler_signal_event event_handle (with_event False False) = (True, s') \<and> wt_signaled (sc_events s' ! 0)"
  using scheduler_signal_correct [OF with_event_reachable with_event_run(2), of False False]
  by (auto simp: Let_def with_event_run(3) new_event_def zero_waitable_def)

subsection \<open>Waiting\<close>

lemma wait_takes_signal:
  assumes inv: "sched_inv s" and k: "running s k" "th_wait_record (sc_threads s ! k) = None"
    and v: "validate_open_event_handle s h = Some (i, e)" and sig: "wt_signaled (sc_events s ! e)"
  shows "\<exists>s'. gxos_scheduler_prepare_wait_record h s = (GXOS_SCHEDULER_WAIT_SIGNALED, None, s') \<and> sc_current s' = sc_current s \<and>
    sc_wait_records s' = sc_wait_records s \<and> (\<forall>t. sc_threads s' ! t = (if t = k \<and> k < length (sc_threads s)
      then (sc_threads s ! k)\<lparr> th_blocked_result := GXOS_SCHEDULER_WAIT_SIGNALED \<rparr> else sc_threads s ! t)) \<and>
    (\<forall>f < 12. sc_events s' ! f = (if f = e \<and> \<not> wt_manual_reset (sc_events s ! e)
      then (sc_events s ! e)\<lparr> wt_signaled := False \<rparr> else sc_events s ! f))"
proof -
  note I = sched_invD [OF inv]
  let ?s = "s\<lparr> sc_pending_wait_timeout_armed := False, sc_pending_wait_deadline_ms := 0 \<rparr>"
  have v': "validate_open_event_handle ?s h = Some (i, e)" using v by (subst validate_open_frame [of _ s]) simp_all
  have "gxos_scheduler_prepare_wait_record h s = (GXOS_SCHEDULER_WAIT_SIGNALED, None,
      set_blocked_result k GXOS_SCHEDULER_WAIT_SIGNALED (take_signal (Waitable_Event e) ?s))"
    using I(1,2) k v' sig by (simp add: gxos_scheduler_prepare_wait_record_def Let_def running_def)
  moreover have "length (sc_events s) = 12" using wait_okD(3) [OF I(7)] .
  ultimately show ?thesis
    by (auto simp: set_blocked_result_def upd_thread_def take_signal_def upd_waitable_def upd_event_def waitable_at_def nth_list_update_if)
qed

lemma wait_entry_threads:
  assumes "k < length (sc_threads s)"
  shows "sc_threads (wait_entry h k i e r z s) ! t = (if t = k then (sc_threads s ! k)\<lparr> th_wait_record := Some r, th_blocked_object := h,
      th_blocked_result := GXOS_SCHEDULER_WAIT_FAILURE, th_state := GXOS_SCHEDULER_THREAD_BLOCKED \<rparr> else sc_threads s ! t)"
  using assms by (simp add: wait_entry_def)

lemma wait_blocks:
  assumes inv: "sched_inv s" and k: "running s k" "th_wait_record (sc_threads s ! k) = None"
    and v: "validate_open_event_handle s h = Some (i, e)" and sig: "\<not> wt_signaled (sc_events s ! e)"
    and t: "t < 6" "ready (sc_threads s ! t)"
  shows "\<exists>n r s'. gxos_scheduler_prepare_wait_record h s =
      (GXOS_SCHEDULER_WAIT_BLOCKED, Some (\<lparr> sp_old_context = k, sp_new_context = th_saved_context (sc_threads s ! n) \<rparr>, r), s') \<and>
    n < 6 \<and> ready (sc_threads s ! n) \<and> running s' n \<and> th_state (sc_threads s' ! k) = GXOS_SCHEDULER_THREAD_BLOCKED \<and>
    r < 6 \<and> th_wait_record (sc_threads s' ! k) = Some r \<and> waits_on s' k e \<and>
    wr_timeout_armed (sc_wait_records s' ! r) = sc_pending_wait_timeout_armed s \<and>
    wr_deadline_ms (sc_wait_records s' ! r) = sc_pending_wait_deadline_ms s \<and>
    (\<forall>u. u \<noteq> k \<longrightarrow> u \<noteq> n \<longrightarrow> sc_threads s' ! u = sc_threads s ! u) \<and>
    (\<forall>q. q \<noteq> r \<longrightarrow> sc_wait_records s' ! q = sc_wait_records s ! q)"
proof -
  note I = sched_invD [OF inv] and O = open_event [OF inv v]
  have cur: "sc_current s = Some k" using k(1) by (simp add: running_def)
  note K = run_inv_current [OF I(9) cur]
  have len: "length (sc_threads s) = 6" "length (sc_events s) = 12" "length (sc_wait_records s) = 6" using wait_okD(1-3) [OF I(7)] by auto
  from prepare_wait_enters [OF inv k v sig] obtain g r z where r: "r < 6" "\<not> wr_valid (sc_wait_records s ! r)"
    and z: "wait_record_for s k i e z" "wr_timeout_armed z = sc_pending_wait_timeout_armed s" "wr_deadline_ms z = sc_pending_wait_deadline_ms s"
    and eq: "gxos_scheduler_prepare_wait_record h s =
            (case pick_next_runnable (wait_entry h k i e r z (wait_begun g s)) k of
               None \<Rightarrow> (GXOS_SCHEDULER_WAIT_FAILURE, None, upd_thread k (\<lambda>x. x\<lparr> th_state := GXOS_SCHEDULER_THREAD_RUNNING, th_wait_record := None,
                 th_blocked_object := 0, th_blocked_result := GXOS_SCHEDULER_WAIT_FAILURE \<rparr>) (wait_begun g s))
             | Some next \<Rightarrow> (GXOS_SCHEDULER_WAIT_BLOCKED, Some (fst (choose_next next (wait_entry h k i e r z (wait_begun g s))), r),
                 snd (choose_next next (wait_entry h k i e r z (wait_begun g s)))))" by blast
  define w where "w = wait_entry h k i e r z (wait_begun g s)"
  have z': "wait_record_for (wait_begun g s) k i e z" using z(1) by (simp add: wait_record_for_def)
  note M = wait_entry_mid [of "wait_begun g s" k i e r z h, simplified, OF inv k O(1) r z', folded w_def]
  have wt: "sc_threads w ! u = (if u = k then (sc_threads s ! k)\<lparr> th_wait_record := Some r, th_blocked_object := h,
      th_blocked_result := GXOS_SCHEDULER_WAIT_FAILURE, th_state := GXOS_SCHEDULER_THREAD_BLOCKED \<rparr> else sc_threads s ! u)" for u
    using wait_entry_threads [of k "wait_begun g s"] K(1) len by (simp add: w_def)
  have "t \<noteq> k" using t(2) k(1) by (auto simp: ready_def running_def)
  then have "ready (sc_threads w ! t)" using t(2) by (simp add: wt)
  then obtain n where n: "pick_next_runnable w k = Some n" using pick_next_None [of w k t] t(1) K(1) by (cases "pick_next_runnable w k") auto
  from pick_next_Some [OF n K(1)] have n': "n < 6" "ready (sc_threads w ! n)" by auto
  then have nk: "n \<noteq> k" "ready (sc_threads s ! n)" by (auto simp: wt ready_def split: if_splits)
  have cw: "sc_current w = Some k" using cur by (simp add: w_def wait_entry_def)
  let ?s' = "w\<lparr> sc_threads := (sc_threads w)[n := (sc_threads w ! n)\<lparr> th_runnable_queued := False, th_state := GXOS_SCHEDULER_THREAD_RUNNING \<rparr>],
         sc_runnable_queue := remove1 n (sc_runnable_queue w), sc_current := Some n \<rparr>"
  have run: "gxos_scheduler_prepare_wait_record h s =
      (GXOS_SCHEDULER_WAIT_BLOCKED, Some (\<lparr> sp_old_context = k, sp_new_context = th_saved_context (sc_threads s ! n) \<rparr>, r), ?s')"
    using choose_ready [OF sched_midD(5) [OF M(1)] n' sched_midD(1) [OF M(1)] cw] nk(1)
    unfolding eq w_def [symmetric] n by (simp add: wt)
  have ww: "waiters w e = waiters s e @ [r]" "sc_wait_records w = (sc_wait_records s)[r := z\<lparr> wr_waiter_index := of_nat (length (waiters s e)),
      wr_waiter_linked := True, wr_active := True \<rparr>]"
    using O(2) len by (simp_all add: w_def wait_entry_def)
  have on: "waits_on ?s' k e"
    using z(1) r len by (auto simp: waits_on_def waiting_thread_def ww wait_record_for_def intro!: exI [of _ "length (waiters s e)"])
  have lw: "length (sc_threads w) = 6" using sched_midD(8) [OF M(1)] .
  have "running ?s' n" "th_state (sc_threads ?s' ! k) = GXOS_SCHEDULER_THREAD_BLOCKED" "th_wait_record (sc_threads ?s' ! k) = Some r"
    "\<And>u. u \<noteq> k \<Longrightarrow> u \<noteq> n \<Longrightarrow> sc_threads ?s' ! u = sc_threads s ! u"
    using nk n'(1) lw by (simp_all add: running_def wt)
  moreover have "wr_timeout_armed (sc_wait_records ?s' ! r) = sc_pending_wait_timeout_armed s"
    "wr_deadline_ms (sc_wait_records ?s' ! r) = sc_pending_wait_deadline_ms s" "\<And>q. q \<noteq> r \<Longrightarrow> sc_wait_records ?s' ! q = sc_wait_records s ! q"
    using z r len by (simp_all add: ww)
  ultimately show ?thesis using run n'(1) nk(2) r(1) on by (intro exI [of _ n] exI [of _ r] exI [of _ ?s'] conjI) simp_all
qed

lemma wait_refused:
  assumes inv: "sched_inv s" and k: "running s k" "th_wait_record (sc_threads s ! k) = None"
    and v: "validate_open_event_handle s h = Some (i, e)" and sig: "\<not> wt_signaled (sc_events s ! e)"
    and none: "\<forall>t < 6. \<not> ready (sc_threads s ! t)"
  shows "\<exists>s'. gxos_scheduler_prepare_wait_record h s = (GXOS_SCHEDULER_WAIT_FAILURE, None, s') \<and> running s' k \<and>
    sc_events s' = sc_events s \<and> sc_objects s' = sc_objects s \<and> sc_wait_records s' = sc_wait_records s \<and>
    sc_active_wait_count s' = sc_active_wait_count s \<and> sc_runnable_queue s' = sc_runnable_queue s \<and>
    (\<forall>u. u \<noteq> k \<longrightarrow> sc_threads s' ! u = sc_threads s ! u)"
proof -
  note I = sched_invD [OF inv]
  have cur: "sc_current s = Some k" using k(1) by (simp add: running_def)
  note K = run_inv_current [OF I(9) cur]
  have len: "length (sc_threads s) = 6" using wait_okD(1) [OF I(7)] .
  from prepare_wait_enters [OF inv k v sig] obtain g r z where
    eq: "gxos_scheduler_prepare_wait_record h s =
            (case pick_next_runnable (wait_entry h k i e r z (wait_begun g s)) k of
               None \<Rightarrow> (GXOS_SCHEDULER_WAIT_FAILURE, None, upd_thread k (\<lambda>x. x\<lparr> th_state := GXOS_SCHEDULER_THREAD_RUNNING, th_wait_record := None,
                 th_blocked_object := 0, th_blocked_result := GXOS_SCHEDULER_WAIT_FAILURE \<rparr>) (wait_begun g s))
             | Some next \<Rightarrow> (GXOS_SCHEDULER_WAIT_BLOCKED, Some (fst (choose_next next (wait_entry h k i e r z (wait_begun g s))), r),
                 snd (choose_next next (wait_entry h k i e r z (wait_begun g s)))))" by blast
  have "pick_next_runnable (wait_entry h k i e r z (wait_begun g s)) k = None"
  proof (rule ccontr)
    assume "pick_next_runnable (wait_entry h k i e r z (wait_begun g s)) k \<noteq> None"
    then obtain n where "pick_next_runnable (wait_entry h k i e r z (wait_begun g s)) k = Some n" by blast
    from pick_next_Some [OF this K(1)] show False
      using none K(1) len wait_entry_threads [of k "wait_begun g s" h i e r z n] by (auto simp: ready_def split: if_splits)
  qed
  then show ?thesis unfolding eq using K(1) len cur by (simp add: upd_thread_def running_def) (simp add: wait_begun_def)
qed

end
