(* ===== verification/Scheduler_Guarantees.thy ===== *)
theory Scheduler_Guarantees
  imports Scheduler_Contracts
begin

text \<open>
  The guarantees on waiting, timeouts, the creation of threads and tear-down, and two defects.
\<close>

subsection \<open>Waiting and finishing a wait\<close>

text \<open>
  C17. A wait on an open event has exactly one of three outcomes. If the event is signaled the wait
  returns at once and takes the signal of an automatic event. If it is not and some thread is
  ready, the caller is blocked on the list of the event with the deadline that was armed, and a
  ready thread runs instead; no other thread and no other record changes. If nothing could
  run, the wait fails and leaves the lists, the records, the references and the queue as they were: it never
  blocks the last runnable thread.
\<close>

theorem scheduler_wait_correct:
  assumes "sched_reachable s" and "running s k" and "th_wait_record (sc_threads s ! k) = None"
    and "validate_open_event_handle s h = Some (i, e)"
  shows "if wt_signaled (sc_events s ! e) then
      \<exists>s'. gxos_scheduler_prepare_wait_record h s = (GXOS_SCHEDULER_WAIT_SIGNALED, None, s') \<and> running s' k \<and>
        sc_wait_records s' = sc_wait_records s \<and>
        (\<forall>f < 12. sc_events s' ! f = (if f = e \<and> \<not> wt_manual_reset (sc_events s ! e)
          then (sc_events s ! e)\<lparr> wt_signaled := False \<rparr> else sc_events s ! f))
    else if \<exists>t < 6. ready (sc_threads s ! t) then
      \<exists>n r s'. gxos_scheduler_prepare_wait_record h s =
          (GXOS_SCHEDULER_WAIT_BLOCKED, Some (\<lparr> sp_old_context = k, sp_new_context = th_saved_context (sc_threads s ! n) \<rparr>, r), s') \<and>
        n < 6 \<and> ready (sc_threads s ! n) \<and> running s' n \<and> th_state (sc_threads s' ! k) = GXOS_SCHEDULER_THREAD_BLOCKED \<and>
        r < 6 \<and> th_wait_record (sc_threads s' ! k) = Some r \<and> waits_on s' k e \<and>
        wr_timeout_armed (sc_wait_records s' ! r) = sc_pending_wait_timeout_armed s \<and>
        wr_deadline_ms (sc_wait_records s' ! r) = sc_pending_wait_deadline_ms s \<and>
        (\<forall>u. u \<noteq> k \<longrightarrow> u \<noteq> n \<longrightarrow> sc_threads s' ! u = sc_threads s ! u) \<and>
        (\<forall>q. q \<noteq> r \<longrightarrow> sc_wait_records s' ! q = sc_wait_records s ! q)
    else
      \<exists>s'. gxos_scheduler_prepare_wait_record h s = (GXOS_SCHEDULER_WAIT_FAILURE, None, s') \<and> running s' k \<and>
        sc_events s' = sc_events s \<and> sc_objects s' = sc_objects s \<and> sc_wait_records s' = sc_wait_records s \<and>
        sc_active_wait_count s' = sc_active_wait_count s \<and> sc_runnable_queue s' = sc_runnable_queue s \<and>
        (\<forall>u. u \<noteq> k \<longrightarrow> sc_threads s' ! u = sc_threads s ! u)"
proof -
  note W = reachable_inv [OF assms(1)] assms(2-4)
  have "\<exists>s'. gxos_scheduler_prepare_wait_record h s = (GXOS_SCHEDULER_WAIT_SIGNALED, None, s') \<and> running s' k \<and>
        sc_wait_records s' = sc_wait_records s \<and>
        (\<forall>f < 12. sc_events s' ! f = (if f = e \<and> \<not> wt_manual_reset (sc_events s ! e)
          then (sc_events s ! e)\<lparr> wt_signaled := False \<rparr> else sc_events s ! f))" if "wt_signaled (sc_events s ! e)"
    using wait_takes_signal [OF W that] assms(2) by (force simp: running_def)
  then show ?thesis using wait_blocks [OF W] wait_refused [OF W] by (simp split: if_split) blast
qed

theorem scheduler_wait_correct_witness:
  "\<exists>s'. gxos_scheduler_prepare_wait_record event_handle (with_event False True) = (GXOS_SCHEDULER_WAIT_SIGNALED, None, s') \<and>
     \<not> wt_signaled (sc_events s' ! 0)"
proof -
  have r: "running (with_event False True) 0" "th_wait_record (sc_threads (with_event False True) ! 0) = None"
    using with_event_threads [of False True] booted_sel by (simp_all add: running_def)
  from scheduler_wait_correct [OF with_event_reachable r with_event_run(4)] show ?thesis
    by (auto simp: with_event_run(3) new_event_def zero_waitable_def)
qed

subsection \<open>Timeouts and the end of a wait\<close>

text \<open>The boot thread runs; a worker waits for an event with a deadline at 5 ms.\<close>

definition blocked_sched :: "nat sched" where
  "blocked_sched = empty_sched
     \<lparr> g_scheduler := True, sc_active := True, sc_current := Some 0, sc_boot_thread := Some 0, sc_active_wait_count := 1,
       sc_threads := [zero_tcb\<lparr> th_live := True, th_is_boot_thread := True, th_generation := 1, th_state := GXOS_SCHEDULER_THREAD_RUNNING \<rparr>,
         zero_tcb\<lparr> th_live := True, th_generation := 1, th_object_slot := 1, th_public_handle_refs := 1,
           th_state := GXOS_SCHEDULER_THREAD_BLOCKED, th_wait_record := Some 0 \<rparr>, zero_tcb, zero_tcb, zero_tcb, zero_tcb],
       sc_wait_records := [zero_wait_record\<lparr> wr_valid := True, wr_active := True, wr_waiter_linked := True, wr_pin_held := True,
           wr_timeout_armed := True, wr_deadline_ms := 5, wr_object_slot := 2, wr_object_generation := 1, wr_thread := Some 1,
           wr_object := Some 2, wr_waitable := Some (Waitable_Event 0) \<rparr>,
         zero_wait_record, zero_wait_record, zero_wait_record, zero_wait_record, zero_wait_record],
       sc_events := zero_waitable\<lparr> wt_live := True, wt_generation := 1, wt_object_slot := 2, wt_waiters := [0] \<rparr> # replicate 11 zero_waitable,
       sc_objects := [zero_object\<lparr> ob_live := True, ob_type := 1, ob_generation := 1, ob_internal_refs := 1, ob_target := Target_Thread 0 \<rparr>,
         zero_object\<lparr> ob_live := True, ob_type := 1, ob_generation := 1, ob_slot := 1, ob_public_handle_refs := 1, ob_internal_refs := 1,
           ob_target := Target_Thread 1 \<rparr>,
         zero_object\<lparr> ob_live := True, ob_type := 2, ob_generation := 1, ob_slot := 2, ob_public_handle_refs := 1, ob_internal_refs := 2,
           ob_target := Target_Event 0 \<rparr>] @ replicate 13 zero_object \<rparr>"

lemma blocked_sched_parts:
  defines "s \<equiv> blocked_sched"
  shows blocked_threads: "length (sc_threads s) = 6" "t < 6 \<Longrightarrow> t \<noteq> 0 \<Longrightarrow> t \<noteq> 1 \<Longrightarrow> sc_threads s ! t = zero_tcb"
      "th_live (sc_threads s ! 0)" "th_is_boot_thread (sc_threads s ! 0)" "th_state (sc_threads s ! 0) = GXOS_SCHEDULER_THREAD_RUNNING"
      "\<not> th_runnable_queued (sc_threads s ! 0)" "th_wait_record (sc_threads s ! 0) = None" "th_object_slot (sc_threads s ! 0) = 0"
      "th_generation (sc_threads s ! 0) = 1" "th_public_handle_refs (sc_threads s ! 0) = 0"
      "th_live (sc_threads s ! 1)" "\<not> th_is_boot_thread (sc_threads s ! 1)" "th_state (sc_threads s ! 1) = GXOS_SCHEDULER_THREAD_BLOCKED"
      "\<not> th_runnable_queued (sc_threads s ! 1)" "th_wait_record (sc_threads s ! 1) = Some 0" "th_object_slot (sc_threads s ! 1) = 1"
      "th_generation (sc_threads s ! 1) = 1" "th_public_handle_refs (sc_threads s ! 1) = 1"
    and blocked_records: "length (sc_wait_records s) = 6" "r < 6 \<Longrightarrow> r \<noteq> 0 \<Longrightarrow> sc_wait_records s ! r = zero_wait_record"
      "wr_valid (sc_wait_records s ! 0)" "wr_active (sc_wait_records s ! 0)" "wr_pin_held (sc_wait_records s ! 0)"
      "wr_waiter_linked (sc_wait_records s ! 0)" "\<not> wr_completed (sc_wait_records s ! 0)" "wr_waiter_index (sc_wait_records s ! 0) = 0"
      "wr_timeout_armed (sc_wait_records s ! 0)" "wr_deadline_ms (sc_wait_records s ! 0) = 5" "wr_thread (sc_wait_records s ! 0) = Some 1"
      "wr_object (sc_wait_records s ! 0) = Some 2" "wr_waitable (sc_wait_records s ! 0) = Some (Waitable_Event 0)"
      "wr_object_slot (sc_wait_records s ! 0) = 2" "wr_object_generation (sc_wait_records s ! 0) = 1"
      "live_sum wr_valid (\<lambda>_. 1) (sc_wait_records s) = 1" "pins (sc_wait_records s) 2 = 1"
    and blocked_events: "length (sc_events s) = 12" "e < 12 \<Longrightarrow> e \<noteq> 0 \<Longrightarrow> sc_events s ! e = zero_waitable"
      "wt_live (sc_events s ! 0)" "waiters s 0 = [0]" "wt_object_slot (sc_events s ! 0) = 2" "wt_generation (sc_events s ! 0) = 1"
    and blocked_objects: "length (sc_objects s) = 16" "i < 16 \<Longrightarrow> i \<noteq> 0 \<Longrightarrow> i \<noteq> 1 \<Longrightarrow> i \<noteq> 2 \<Longrightarrow> sc_objects s ! i = zero_object"
      "sc_objects s ! 0 = zero_object\<lparr> ob_live := True, ob_type := 1, ob_generation := 1, ob_internal_refs := 1, ob_target := Target_Thread 0 \<rparr>"
      "sc_objects s ! 1 = zero_object\<lparr> ob_live := True, ob_type := 1, ob_generation := 1, ob_slot := 1, ob_public_handle_refs := 1,
        ob_internal_refs := 1, ob_target := Target_Thread 1 \<rparr>"
      "sc_objects s ! 2 = zero_object\<lparr> ob_live := True, ob_type := 2, ob_generation := 1, ob_slot := 2, ob_public_handle_refs := 1,
        ob_internal_refs := 2, ob_target := Target_Event 0 \<rparr>"
    and blocked_rest: "sc_memory_resource_notifications s = [zero_notification]" "sc_standard_stream s = zero_standard_stream"
      "sc_runnable_queue s = []" "sc_current s = Some 0" "sc_boot_thread s = Some 0" "sc_active_wait_count s = 1" "g_scheduler s" "sc_active s"
  unfolding s_def
  by (simp_all add: blocked_sched_def nth_append nth_Cons' pins_def empty_sched_def zero_scheduler_def) (simp_all add: zero_wait_record_def zero_waitable_def zero_tcb_def)

lemma blocked_sched_inv: "sched_inv blocked_sched"
proof -
  let ?s = blocked_sched
  note T = blocked_threads(1,3-) and R = blocked_records(1,3-) and E = blocked_events(1,3-) and O = blocked_objects(1,3-) and X = blocked_rest
  have dead: "\<not> ob_live zero_object" "\<not> wt_live zero_waitable" "wt_waiters zero_waitable = []" "\<not> mn_live zero_notification"
    "\<not> st_live zero_standard_stream" "ob_slot zero_object = 0" "ob_public_handle_refs zero_object = 0"
    by (simp_all add: zero_object_def zero_waitable_def zero_notification_def zero_standard_stream_def)
  have allT: "P 0 (sc_threads ?s ! 0) \<Longrightarrow> P 1 (sc_threads ?s ! 1) \<Longrightarrow> (\<And>t. t \<noteq> 0 \<Longrightarrow> P t zero_tcb) \<Longrightarrow> t < 6 \<Longrightarrow> P t (sc_threads ?s ! t)" for P t
    using blocked_threads(2) [of t] by (cases "t = 0"; cases "t = 1") auto
  have allE: "P 0 (sc_events ?s ! 0) \<Longrightarrow> (\<And>e. P e zero_waitable) \<Longrightarrow> e < 12 \<Longrightarrow> P e (sc_events ?s ! e)" for P e
    using blocked_events(2) [of e] by (cases "e = 0") auto
  have allR: "P 0 (sc_wait_records ?s ! 0) \<Longrightarrow> (\<And>r. P r zero_wait_record) \<Longrightarrow> r < 6 \<Longrightarrow> P r (sc_wait_records ?s ! r)" for P r
    using blocked_records(2) [of r] by (cases "r = 0") auto
  have "thread_ok (sc_threads ?s ! t) \<and> \<not> th_runnable_queued (sc_threads ?s ! t)" if "t < 6" for t
    by (rule allT [of "\<lambda>_ x. thread_ok x \<and> \<not> th_runnable_queued x", OF _ _ _ that]) (use T in \<open>auto simp: thread_ok_def\<close>)
  then have "pool_ok (sc_threads ?s) (sc_runnable_queue ?s)" using T(1) X(3) by (auto simp: pool_ok_def)
  moreover have "th_is_boot_thread (sc_threads ?s ! t) \<longleftrightarrow> t = 0" if "t < 6" for t
    by (rule allT [of "\<lambda>t x. th_is_boot_thread x \<longleftrightarrow> t = 0", OF _ _ _ that]) (use T in \<open>auto\<close>)
  then have "boot_ok (sc_threads ?s)" using T by (simp add: boot_ok_def)
  moreover have "t \<noteq> 0 \<longrightarrow> th_state (sc_threads ?s ! t) \<noteq> GXOS_SCHEDULER_THREAD_RUNNING" if "t < 6" for t
    by (rule allT [of "\<lambda>t x. t \<noteq> 0 \<longrightarrow> th_state x \<noteq> GXOS_SCHEDULER_THREAD_RUNNING", OF _ _ _ that]) (use T in \<open>auto\<close>)
  then have "current_ok (sc_threads ?s) (sc_current ?s)" using T X(4) by (auto simp: current_ok_def)
  moreover have "wait_ok (sc_threads ?s) (sc_wait_records ?s) (sc_events ?s) (sc_active_wait_count ?s)"
  proof -
    have "waiters_ok (sc_wait_records ?s) e (waiters ?s e)" if "e < 12" for e
      by (rule allE [of "\<lambda>e x. waiters_ok (sc_wait_records ?s) e (wt_waiters x)", OF _ _ that]) (use R E in \<open>auto simp: waiters_ok_def dead\<close>)
    moreover have "if wr_valid (sc_wait_records ?s ! r) then record_ok (sc_threads ?s) (sc_events ?s) r (sc_wait_records ?s ! r)
        else sc_wait_records ?s ! r = zero_wait_record" if "r < 6" for r
      by (rule allR [of "\<lambda>r x. if wr_valid x then record_ok (sc_threads ?s) (sc_events ?s) r x else x = zero_wait_record", OF _ _ that]) (use R E T in \<open>auto simp: record_ok_def record_thread_ok_def record_event_ok_def\<close>)
    moreover have "thread_wait_ok (sc_wait_records ?s) t (sc_threads ?s ! t)" if "t < 6" for t
      by (rule allT [of "thread_wait_ok (sc_wait_records ?s)", OF _ _ _ that]) (use T R in \<open>auto simp: thread_wait_ok_def\<close>)
    ultimately show ?thesis using T(1) R(1,15) E(1) X(6) by (simp add: wait_ok_def)
  qed
  moreover have "objects_ok (sc_objects ?s) (sc_threads ?s) (sc_events ?s) (sc_memory_resource_notifications ?s) (sc_standard_stream ?s) (sc_wait_records ?s)"
  proof -
    have "ob_slot (sc_objects ?s ! i) = i \<and> ob_generation (sc_objects ?s ! i) \<noteq> 0 \<and> target_ok (sc_threads ?s) (sc_events ?s)
        (sc_memory_resource_notifications ?s) (sc_standard_stream ?s) (sc_wait_records ?s) i (sc_objects ?s ! i)"
      if "i < 16" "ob_live (sc_objects ?s ! i)" for i
    proof -
      have "i = 0 \<or> i = 1 \<or> i = 2" using that blocked_objects(2) [of i] dead(1) by metis
      then show ?thesis using O T R E dead by (auto simp: target_ok_def thread_object_ok_def event_object_ok_def)
    qed
    moreover have "wt_live (sc_events ?s ! e) \<longrightarrow> owned (sc_objects ?s) (wt_object_slot (sc_events ?s ! e)) (Target_Event e)" if "e < 12" for e
      by (rule allE [of "\<lambda>e x. wt_live x \<longrightarrow> owned (sc_objects ?s) (wt_object_slot x) (Target_Event e)", OF _ _ that]) (use E O in \<open>auto simp: owned_def dead\<close>)
    moreover have "th_live (sc_threads ?s ! t) \<longrightarrow> owned (sc_objects ?s) (th_object_slot (sc_threads ?s ! t)) (Target_Thread t)" if "t < 6" for t
      by (rule allT [of "\<lambda>t x. th_live x \<longrightarrow> owned (sc_objects ?s) (th_object_slot x) (Target_Thread t)", OF _ _ _ that]) (use T O in \<open>auto simp: owned_def\<close>)
    moreover have "wr_valid (sc_wait_records ?s ! r) \<longrightarrow> record_object_ok (sc_objects ?s) (sc_wait_records ?s ! r)" if "r < 6" for r
      by (rule allR [of "\<lambda>_ x. wr_valid x \<longrightarrow> record_object_ok (sc_objects ?s) x", OF _ _ that]) (use R O in \<open>auto simp: record_object_ok_def owned_def\<close>)
    ultimately show ?thesis using T(1) R(1) E(1) O(1) X(1,2) dead by (simp add: objects_ok_def)
  qed
  ultimately show ?thesis using X by (simp add: sched_inv_def)
qed

text \<open>
  C18. Servicing the timeouts at a time \<open>now\<close> completes exactly the waits that are due: the armed ones whose
  deadline is at or before \<open>now\<close> and that have not completed. It returns their number, each of their threads becomes
  runnable with the result \<open>timed out\<close>, no other thread changes, and no wait is due afterwards.
\<close>

theorem scheduler_timeouts_exact:
  assumes "sched_inv s"
  shows "\<exists>n s'. gxos_scheduler_service_timeouts now s = (n, s') \<and> sched_inv s' \<and>
    n = card {r. r < 6 \<and> timeout_due now (sc_wait_records s ! r)} \<and>
    (\<forall>t < 6. sc_threads s' ! t =
       (if \<exists>r < 6. timeout_due now (sc_wait_records s ! r) \<and> wr_thread (sc_wait_records s ! r) = Some t
        then woken GXOS_SCHEDULER_WAIT_TIMED_OUT (sc_threads s ! t) else sc_threads s ! t)) \<and>
    (\<forall>r < 6. \<not> timeout_due now (sc_wait_records s' ! r))"
proof -
  obtain n s' where op: "gxos_scheduler_service_timeouts now s = (n, s')" by force
  have p: "fold (service_timeout now) [0..<6] (0, s) = (n, s')"
    using op sched_invD(1,2) [OF assms] by (simp add: gxos_scheduler_service_timeouts_def)
  have "length (filter (\<lambda>r. timeout_due now (sc_wait_records s ! r)) [0..<6]) = card {r. r < 6 \<and> timeout_due now (sc_wait_records s ! r)}"
    by (subst distinct_card [symmetric]) (auto intro: arg_cong [where f = card])
  then show ?thesis using service_fold [OF assms, of "[0..<6]" now 0] by (auto simp: op p Bex_def)
qed

lemma blocked_due: "{r. r < 6 \<and> timeout_due 9 (sc_wait_records blocked_sched ! r)} = {0}"
proof -
  have "timeout_due 9 (sc_wait_records blocked_sched ! r) \<longleftrightarrow> r = 0" if "r < 6" for r
    using blocked_records(2) [OF that] blocked_records(3-10) by (cases "r = 0") (auto simp: timeout_due_def)
  then show ?thesis by auto
qed

theorem scheduler_timeouts_exact_witness:
  "\<exists>s'. gxos_scheduler_service_timeouts 9 blocked_sched = (1, s') \<and>
     th_blocked_result (sc_threads s' ! 1) = GXOS_SCHEDULER_WAIT_TIMED_OUT"
proof -
  have "\<exists>r < 6. timeout_due 9 (sc_wait_records blocked_sched ! r) \<and> wr_thread (sc_wait_records blocked_sched ! r) = Some 1"
    using blocked_due blocked_records(11) by (intro exI [of _ 0]) auto
  then show ?thesis using scheduler_timeouts_exact [OF blocked_sched_inv, of 9] by (auto simp: blocked_due woken_def)
qed

lemma running_completed:
  assumes inv: "sched_inv s" and k: "running s k" "th_wait_record (sc_threads s ! k) = Some r"
  shows "r < 6" "wr_valid (sc_wait_records s ! r)" "wr_active (sc_wait_records s ! r)" "wr_completed (sc_wait_records s ! r)"
    "wr_thread (sc_wait_records s ! r) = Some k" "outcome_ok (th_blocked_result (sc_threads s ! k)) (wr_completion_result (sc_wait_records s ! r))"
proof -
  note I = sched_invD [OF inv]
  have k6: "k < 6" using run_inv_current(1) [OF I(9)] k(1) by (simp add: running_def)
  show r: "r < 6" "wr_valid (sc_wait_records s ! r)" "wr_thread (sc_wait_records s ! r) = Some k"
    using wait_okD(7) [OF I(7) k6] k(2) by (auto simp: thread_wait_ok_def)
  have "record_ok (sc_threads s) (sc_events s) r (sc_wait_records s ! r)" using wait_okD(4) [OF I(7) r(1,2)] .
  then show "wr_active (sc_wait_records s ! r)" "wr_completed (sc_wait_records s ! r)"
    "outcome_ok (th_blocked_result (sc_threads s ! k)) (wr_completion_result (sc_wait_records s ! r))"
    using r(3) k(1) by (auto simp: record_ok_def record_thread_ok_def running_def split: if_splits)
qed

text \<open>
  A thread that runs again after a blocking wait gets the outcome of that wait exactly once.
  Finishing the wait with no handle or with the handle it waited on returns \<open>signaled\<close> or \<open>timed out\<close>, as
  recorded, frees the wait record, drops the reference that kept the event and lowers the count of active
  waits; every other thread, record and event stays. With another handle it fails and changes nothing, and a
  second call fails.
\<close>

theorem scheduler_finish_wait_once:
  assumes "sched_inv s" and "running s k" and "th_wait_record (sc_threads s ! k) = Some r"
  defines "x \<equiv> sc_wait_records s ! r" and "res \<equiv> th_blocked_result (sc_threads s ! k)"
  shows "if h = 0 \<or> decode_event_identity h = Some (wr_object_slot x, wr_object_generation x) then
      \<exists>i s'. gxos_scheduler_finish_wait h s = (res, s') \<and> wr_object x = Some i \<and>
        (res = GXOS_SCHEDULER_WAIT_SIGNALED \<or> res = GXOS_SCHEDULER_WAIT_TIMED_OUT) \<and>
        s' = s\<lparr> sc_threads := (sc_threads s)[k := wait_done (sc_threads s ! k)],
          sc_objects := (sc_objects s)[i := (sc_objects s ! i)\<lparr> ob_internal_refs := ob_internal_refs (sc_objects s ! i) - 1 \<rparr>],
          sc_wait_records := (sc_wait_records s)[r := zero_wait_record], sc_active_wait_count := sc_active_wait_count s - 1 \<rparr> \<and>
        sched_inv s' \<and> gxos_scheduler_finish_wait h' s' = (GXOS_SCHEDULER_WAIT_FAILURE, s')
    else gxos_scheduler_finish_wait h s = (GXOS_SCHEDULER_WAIT_FAILURE, s)"
proof -
  note R = running_completed [OF assms(1-3)] and I = sched_invD [OF assms(1)] and def = gxos_scheduler_finish_wait_def
  have cur: "sc_current s = Some k" using assms(2) by (simp add: running_def)
  have k6: "k < 6" "length (sc_threads s) = 6" using run_inv_current(1) [OF I(9) cur] pool_okD(1) [OF I(5)] by auto
  have res: "res = GXOS_SCHEDULER_WAIT_SIGNALED \<and> wr_completion_result x = GXOS_WAIT_OBJECT_0 \<or>
      res = GXOS_SCHEDULER_WAIT_TIMED_OUT \<and> wr_completion_result x = GXOS_WAIT_TIMEOUT"
    using R(6) by (simp add: outcome_ok_def res_def x_def)
  show ?thesis
  proof (cases "h = 0 \<or> decode_event_identity h = Some (wr_object_slot x, wr_object_generation x)")
    case False
    then show ?thesis using I(1) cur assms(3) by (simp add: def Let_def x_def)
  next
    case True
    then have "fst (gxos_scheduler_finish_wait h s) = res"
      using I(1) cur assms(3) R res by (auto simp: def Let_def x_def res_def)
    moreover from this res have "fst (gxos_scheduler_finish_wait h s) \<noteq> GXOS_SCHEDULER_WAIT_FAILURE" by auto
    ultimately show ?thesis
    proof (cases rule: finish_wait_cases [OF assms(1) cur, of h, case_names failure at_once blocked])
      case (blocked q i)
      define s' where "s' = s\<lparr> sc_threads := (sc_threads s)[k := wait_done (sc_threads s ! k)],
          sc_objects := (sc_objects s)[i := (sc_objects s ! i)\<lparr> ob_internal_refs := ob_internal_refs (sc_objects s ! i) - 1 \<rparr>],
          sc_wait_records := (sc_wait_records s)[r := zero_wait_record], sc_active_wait_count := sc_active_wait_count s - 1 \<rparr>"
      have op: "gxos_scheduler_finish_wait h s = (res, s')" "wr_object x = Some i"
        using blocked assms(3) by (simp_all add: s'_def res_def x_def)
      moreover have "sched_inv s'" using finish_wait_inv [OF assms(1), of h] op by simp
      moreover have "gxos_scheduler_finish_wait h' s' = (GXOS_SCHEDULER_WAIT_FAILURE, s')"
        using cur k6 I(1) by (simp add: def Let_def s'_def wait_done_def)
      ultimately show ?thesis using True res unfolding s'_def by auto
    qed (use assms(3) in auto)
  qed
qed

definition resumed_sched :: "nat sched" where
  "resumed_sched = snd (gxos_scheduler_prepare_yield (snd (gxos_scheduler_service_timeouts 9 blocked_sched)))"

lemma resumed_sched_run:
  "running resumed_sched 1" "th_wait_record (sc_threads resumed_sched ! 1) = Some 0"
  "th_blocked_result (sc_threads resumed_sched ! 1) = GXOS_SCHEDULER_WAIT_TIMED_OUT"
  by code_simp+

theorem scheduler_finish_wait_once_witness:
  "\<exists>s'. gxos_scheduler_finish_wait 0 resumed_sched = (GXOS_SCHEDULER_WAIT_TIMED_OUT, s') \<and>
     gxos_scheduler_finish_wait 0 s' = (GXOS_SCHEDULER_WAIT_FAILURE, s')"
proof -
  have "sched_inv resumed_sched" unfolding resumed_sched_def by (intro yield_inv service_inv blocked_sched_inv)
  from scheduler_finish_wait_once [OF this resumed_sched_run(1,2), of 0 0, unfolded resumed_sched_run(3)] show ?thesis by auto
qed

subsection \<open>Creation and tear-down\<close>

text \<open>
  Creating a thread succeeds or leaves no trace. On success the new thread is suspended, its handle, which
  denoted nothing before, denotes it, and the other threads, the queue and the current thread are unchanged. When any
  allocation or the registration of the stack fails, the tables of the scheduler are as before, except that the
  generation of one free object slot may have advanced.
\<close>

theorem scheduler_create_thread_atomic:
  assumes "sched_inv s" and "gxos_scheduler_create_suspended_thread entry argument s = (out, s')"
  shows "(case out of
       None \<Rightarrow> sc_threads s' = sc_threads s \<and> sc_events s' = sc_events s \<and> sc_wait_records s' = sc_wait_records s \<and>
         sc_runnable_queue s' = sc_runnable_queue s \<and> sc_current s' = sc_current s \<and> sc_next_identity s' = sc_next_identity s \<and>
         (\<forall>i. sc_objects s' ! i = sc_objects s ! i \<or> \<not> ob_live (sc_objects s' ! i) \<and> \<not> ob_live (sc_objects s ! i))
     | Some (handle, t) \<Rightarrow> t < 6 \<and> \<not> th_live (sc_threads s ! t) \<and> th_live (sc_threads s' ! t) \<and>
         th_state (sc_threads s' ! t) = GXOS_SCHEDULER_THREAD_CREATED_SUSPENDED \<and>
         gxos_scheduler_thread_from_handle s handle = None \<and> gxos_scheduler_thread_from_handle s' handle = Some t \<and>
         (\<forall>u. u \<noteq> t \<longrightarrow> sc_threads s' ! u = sc_threads s ! u) \<and> sc_runnable_queue s' = sc_runnable_queue s \<and>
         sc_current s' = sc_current s) \<and> sched_inv s'"
  using create_thread_spec [OF assms] create_thread_inv [OF assms(1), of entry argument] assms(2)
  by (cases out) (auto simp: created_nothing_def created_thread_def same_objects_def)

text \<open>The same state with services that allocate pages and register stacks.\<close>

definition with_stack_vm :: "nat sched" where
  "with_stack_vm = blocked_sched\<lparr> sc_allocate_pages := Some bump_alloc, sc_free_pages := Some (\<lambda>w a n. w),
     sc_register_stack_vm := Some (\<lambda>w base len. (True, 7, w)), sc_unregister_stack_vm := Some (\<lambda>w base len identity. (True, w)) \<rparr>"

lemma with_stack_vm_inv: "sched_inv with_stack_vm"
  using blocked_sched_inv by (simp add: with_stack_vm_def sched_inv_def)

lemma with_stack_vm_create: "map_option snd (fst (gxos_scheduler_create_suspended_thread 0x400000 0 with_stack_vm)) = Some 2"
  by (simp add: gxos_scheduler_create_suspended_thread_def with_stack_vm_def blocked_sched_def Let_def find_free_thread_def
      allocate_object_def upd_thread_def upd_object_def zero_object_def page_allocate_def bump_alloc_def set_canaries_def
      allocate_thread_environment_def poke_def)

theorem scheduler_create_thread_atomic_witness:
  "th_state (sc_threads (snd (gxos_scheduler_create_suspended_thread 0x400000 0 with_stack_vm)) ! 2) =
     GXOS_SCHEDULER_THREAD_CREATED_SUSPENDED"
proof -
  obtain h where "fst (gxos_scheduler_create_suspended_thread 0x400000 0 with_stack_vm) = Some (h, 2)"
    using with_stack_vm_create by auto
  then have "gxos_scheduler_create_suspended_thread 0x400000 0 with_stack_vm =
      (Some (h, 2), snd (gxos_scheduler_create_suspended_thread 0x400000 0 with_stack_vm))" by (simp add: prod_eq_iff)
  from scheduler_create_thread_atomic [OF with_stack_vm_inv this] show ?thesis by simp
qed

text \<open>
  C19. A tear-down that succeeds leaves nothing behind. No thread, event, notification, stream or object is live, no thread is
  current, the scheduler is inactive and its global pointer cleared, and the GS base and the flags
  of the boot processor are the saved ones. One that is refused leaves a consistent, active scheduler.
\<close>

theorem scheduler_teardown_complete:
  assumes "sched_inv s" and "gxos_scheduler_teardown s = (ok, s')"
  shows "if ok then (\<forall>t < 6. \<not> th_live (sc_threads s' ! t)) \<and> (\<forall>e < 12. \<not> wt_live (sc_events s' ! e)) \<and>
      \<not> mn_live (sc_memory_resource_notifications s' ! 0) \<and> \<not> st_live (sc_standard_stream s') \<and>
      (\<forall>i < 16. \<not> ob_live (sc_objects s' ! i)) \<and> sc_current s' = None \<and> \<not> sc_active s' \<and> \<not> g_scheduler s' \<and>
      sy_gs_base s' = sc_saved_boot_gs_base (snd (gxos_scheduler_collect s)) \<and>
      sy_flags s' = sc_saved_boot_flags (snd (gxos_scheduler_collect s))
    else sched_inv s'"
  using teardown_success [OF assms(1), of s'] teardown_inv [OF assms(1)] assms(2)
  by (cases ok) (auto simp: nothing_live_def)

theorem scheduler_teardown_complete_witness:
  "fst (gxos_scheduler_teardown booted) \<and> \<not> th_live (sc_threads (snd (gxos_scheduler_teardown booted)) ! 0)"
proof -
  have "maybe_reclaim_thread t booted = booted" if "t < 6" for t
    using booted_sel(7) booted_rest(1) [OF that] by (cases "t = 0") (simp_all add: maybe_reclaim_thread_def Let_def)
  then have "fold maybe_reclaim_thread ts booted = booted" if "\<forall>t \<in> set ts. t < 6" for ts
    using that by (induction ts) simp_all
  then have "snd (gxos_scheduler_collect booted) = booted" by (simp add: gxos_scheduler_collect_def booted_sel(2))
  moreover have "\<not> list_ex (\<lambda>t. th_live (sc_threads booted ! t)) [1..<6]" using booted_rest(1) by (auto simp: list_ex_iff)
  ultimately have "fst (gxos_scheduler_teardown booted)"
    using booted_sel booted_rest(2-4)
    by (simp add: gxos_scheduler_teardown_def Let_def at_boot_def teardown_stream_def zero_standard_stream_def zero_notification_def
        zero_waitable_def list_ex_iff)
  then show ?thesis
    using scheduler_teardown_complete [OF reachable_inv [OF booted_reachable] prod.collapse [symmetric]] by simp
qed

subsection \<open>Two defects\<close>

text \<open>
  A memory resource notification cannot be given back. Once one is live, its handle cannot be
  closed, it cannot be destroyed and the tear-down is refused, each without touching the notification: the close
  operation accepts only handles of threads and events, so the public reference never drops to zero.
\<close>

theorem scheduler_notification_blocks_teardown:
  assumes "sched_inv s" and "lookup_object s h GXOS_SCHEDULER_OBJECT_MEMORY_RESOURCE_NOTIFICATION = Some i"
  shows "gxos_scheduler_close_handle h s = (False, s) \<and>
    gxos_scheduler_try_destroy_memory_resource_notification h s = (False, s) \<and> \<not> fst (gxos_scheduler_teardown s)"
proof -
  note I = sched_invD [OF assms(1)]
  have i: "i < 16" "ob_live (sc_objects s ! i)" "ob_type (sc_objects s ! i) = 3"
    using lookup_object_bound [OF assms(2)] assms(2) by (simp_all add: lookup_object_iff)
  have ty: "(ucast (drop_bit 48 h) :: u8) = 3" using assms(2) decode_handle_type by (auto simp: lookup_object_iff)
  from typed_target(3) [OF I(8) i] obtain n where n: "ob_target (sc_objects s ! i) = Target_Notification n" by (auto simp: owned_def)
  then have live: "n < 1 \<and> mn_live (sc_memory_resource_notifications s ! n)"
    using objects_okD(8) [OF I(8) i(1,2)] by (auto simp: target_ok_def notification_object_ok_def)
  have same: "sc_memory_resource_notifications (snd (gxos_scheduler_collect s)) = sc_memory_resource_notifications s"
    using collect_frame pool_okD(1) [OF I(5)] by blast
  have "list_ex mn_live (sc_memory_resource_notifications s)" using live objects_okD(4) [OF I(8)] by (auto simp: list_ex_length)
  then have "\<not> fst (gxos_scheduler_teardown s)"
    using I(3) same by (simp add: gxos_scheduler_teardown_def Let_def)
  then show ?thesis using ty destroy_notification_fails [OF assms(1)] by (simp add: gxos_scheduler_close_handle_def)
qed

theorem scheduler_notification_blocks_teardown_witness:
  "\<not> fst (gxos_scheduler_teardown (snd (gxos_scheduler_create_memory_resource_notification 0 blocked_sched)))"
proof -
  let ?s = "snd (gxos_scheduler_create_memory_resource_notification 0 blocked_sched)"
  have "lookup_object ?s 0xA703000000010004 GXOS_SCHEDULER_OBJECT_MEMORY_RESOURCE_NOTIFICATION = Some 3"
    by (simp add: gxos_scheduler_create_memory_resource_notification_def find_free_memory_resource_notification_def blocked_rest
        allocate_object_def lookup_object_def decode_handle_def Let_def upd_notification_def upd_object_def zero_notification_def
        next_object_generation_def) (simp add: blocked_sched_def zero_object_def Let_def upd_object_def upd_notification_def next_object_generation_def)
  then show ?thesis
    using scheduler_notification_blocks_teardown [OF create_notification_inv [OF blocked_sched_inv]] by blast
qed

text \<open>A service that counts the pages it has handed out, and has a stack left but no single page.\<close>

definition one_stack_left :: "nat sched" where
  "one_stack_left = with_stack_vm
     \<lparr> sc_allocate_pages := Some (\<lambda>used n. if n = 1 then (1, 0, used) else (0, 0x100000, used + unat n)),
       sc_free_pages := Some (\<lambda>used memory n. used - unat n) \<rparr>"

text \<open>
  A creation that fails after the stack was allocated leaks three of its four pages. The stack is
  allocated as four pages and freed as one: on a machine whose counting page service has a stack left but no
  single page, the creation fails, and three pages that were free before stay handed out. The same one-page
  free is used when a thread is reclaimed.
\<close>

theorem scheduler_stack_pages_leak:
  "fst (gxos_scheduler_create_suspended_thread 0x400000 0 one_stack_left) = None \<and>
   sy_world (snd (gxos_scheduler_create_suspended_thread 0x400000 0 one_stack_left)) = sy_world one_stack_left + 3"
  by (simp add: gxos_scheduler_create_suspended_thread_def one_stack_left_def with_stack_vm_def blocked_sched_def Let_def find_free_thread_def
      allocate_object_def upd_thread_def upd_object_def zero_object_def page_allocate_def page_free_def create_thread_undo_def
      release_object_record_def)

end
