(* ===== verification/Crt_Malloc.thy ===== *)
theory Crt_Malloc
  imports Prelude
begin

text \<open>
  The C heap of the run-time library, \<open>src/src/Gate4Harness/crt_malloc.c\<close>: a registry of at most 64
  live blocks over the firmware's pool services, with a history of released blocks and diagnostics.

  The context is a record; \<open>cm_world\<close> is the state behind \<open>allocator_context\<close>, on which the pool services and the
  trace callback act. A service or callback is \<open>None\<close> when its pointer is null. \<open>allocate_pool\<close> takes the
  pool type and the size and returns its status and the buffer it stored (0 when it stored none).
  Arrays with a count (\<open>protected_ranges\<close>, \<open>diagnostics\<close>, \<open>free_diagnostics\<close>) are lists of exactly \<open>count\<close> entries,
  the code reads no other; \<open>release_records\<close> is a list of \<open>release_record_count\<close> entries. A registry slot is
  \<open>None\<close> for \<open>GXOS_CRT_MALLOC_NO_SLOT\<close>. Fields that nothing in the file reads are left out.
  \<open>uintptr_t\<close> has 64 bits.
\<close>

subsection \<open>Data\<close>

abbreviation (input) GXOS_CRT_MALLOC_EFI_LOADER_DATA :: u32 where "GXOS_CRT_MALLOC_EFI_LOADER_DATA \<equiv> 4"
abbreviation (input) GXOS_CRT_MALLOC_MAX_REQUEST :: u64 where "GXOS_CRT_MALLOC_MAX_REQUEST \<equiv> 0xC8000"
abbreviation (input) GXOS_CRT_MALLOC_REGISTRY_CAPACITY :: nat where "GXOS_CRT_MALLOC_REGISTRY_CAPACITY \<equiv> 64"
abbreviation (input) GXOS_CRT_MALLOC_MAX_PROTECTED_RANGES :: nat where "GXOS_CRT_MALLOC_MAX_PROTECTED_RANGES \<equiv> 8"
abbreviation (input) GXOS_CRT_MALLOC_MAX_DIAGNOSTICS :: nat where "GXOS_CRT_MALLOC_MAX_DIAGNOSTICS \<equiv> 256"
abbreviation (input) GXOS_CRT_FREE_DIAGNOSTIC_CAPACITY :: nat where "GXOS_CRT_FREE_DIAGNOSTIC_CAPACITY \<equiv> 64"
abbreviation (input) GXOS_CRT_MALLOC_NO_LIVE_COUNT :: u32 where "GXOS_CRT_MALLOC_NO_LIVE_COUNT \<equiv> UINT32_MAX"
abbreviation (input) GXOS_CRT_MALLOC_RECORD_LIVE :: u32 where "GXOS_CRT_MALLOC_RECORD_LIVE \<equiv> 1"
abbreviation (input) GXOS_CRT_MALLOC_RECORD_FREED :: u32 where "GXOS_CRT_MALLOC_RECORD_FREED \<equiv> 2"
abbreviation (input) GXOS_CRT_MALLOC_OWNER_CRT :: u32 where "GXOS_CRT_MALLOC_OWNER_CRT \<equiv> 1"
abbreviation (input) GXOS_CRT_MALLOC_CLASS_PERSISTENT_POOL :: u32 where "GXOS_CRT_MALLOC_CLASS_PERSISTENT_POOL \<equiv> 1"

datatype GXOS_CRT_MALLOC_FAILURE =
    GXOS_CRT_MALLOC_FAILURE_NONE
  | GXOS_CRT_MALLOC_FAILURE_NULL_CONTEXT
  | GXOS_CRT_MALLOC_FAILURE_MALFORMED_REGISTRY
  | GXOS_CRT_MALLOC_FAILURE_INVALID_PROTECTED_RANGE
  | GXOS_CRT_MALLOC_FAILURE_ZERO_SIZE
  | GXOS_CRT_MALLOC_FAILURE_NOT_UINTN
  | GXOS_CRT_MALLOC_FAILURE_SIZE_LIMIT
  | GXOS_CRT_MALLOC_FAILURE_BOOT_SERVICES_UNAVAILABLE
  | GXOS_CRT_MALLOC_FAILURE_POOL_SERVICE_UNAVAILABLE
  | GXOS_CRT_MALLOC_FAILURE_METADATA_EXHAUSTED
  | GXOS_CRT_MALLOC_FAILURE_POOL_ALLOCATION
  | GXOS_CRT_MALLOC_FAILURE_NULL_SUCCESS
  | GXOS_CRT_MALLOC_FAILURE_UNALIGNED
  | GXOS_CRT_MALLOC_FAILURE_RANGE_OVERFLOW
  | GXOS_CRT_MALLOC_FAILURE_PROTECTED_OVERLAP
  | GXOS_CRT_MALLOC_FAILURE_EXISTING_OVERLAP
  | GXOS_CRT_MALLOC_FAILURE_DUPLICATE_POINTER
  | GXOS_CRT_MALLOC_FAILURE_SEQUENCE_EXHAUSTED
  | GXOS_CRT_MALLOC_FAILURE_ACCOUNTING_OVERFLOW

datatype GXOS_CRT_FREE_FAILURE =
    GXOS_CRT_FREE_FAILURE_NONE
  | GXOS_CRT_FREE_FAILURE_NULL_CONTEXT
  | GXOS_CRT_FREE_FAILURE_MALFORMED_REGISTRY
  | GXOS_CRT_FREE_FAILURE_BACKING_SERVICE_UNAVAILABLE
  | GXOS_CRT_FREE_FAILURE_BACKING_RELEASE
  | GXOS_CRT_FREE_FAILURE_INTERIOR_POINTER
  | GXOS_CRT_FREE_FAILURE_UNKNOWN_POINTER
  | GXOS_CRT_FREE_FAILURE_DOUBLE_FREE
  | GXOS_CRT_FREE_FAILURE_ACCOUNTING

record GXOS_CRT_MALLOC_PROTECTED_RANGE =
  pr_base :: u64
  pr_end :: u64
  pr_kind :: u32

record GXOS_CRT_MALLOC_RECORD =
  mr_pointer :: u64
  mr_requested_size :: u64
  mr_backing_size :: u64
  mr_allocation_sequence :: u64
  mr_occupied :: u32
  mr_state :: u32
  mr_owner :: u32
  mr_allocation_class :: u32

record GXOS_CRT_MALLOC_RELEASE_RECORD =
  rr_pointer :: u64
  rr_requested_size :: u64
  rr_backing_size :: u64
  rr_allocation_sequence :: u64
  rr_release_sequence :: u64
  rr_registry_slot :: nat
  rr_state :: u32

record GXOS_CRT_MALLOC_DIAGNOSTIC =
  md_invocation_number :: u64
  md_static_call_site :: u64
  md_runtime_call_site :: u64
  md_requested_size :: u64
  md_live_count_before :: u32
  md_registry_slot :: "nat option"
  md_pool_service_available :: bool
  md_allocate_pool_status :: u64
  md_returned_pointer :: u64
  md_alignment_mod8 :: u32
  md_alignment_mod16 :: u32
  md_allocation_range_base :: u64
  md_allocation_range_end :: u64
  md_overlap_validation :: bool
  md_live_count_after :: u32
  md_rollback_count :: u32
  md_rollback_status :: u64
  md_return_value :: u64
  md_failure :: GXOS_CRT_MALLOC_FAILURE

record GXOS_CRT_FREE_DIAGNOSTIC =
  fd_invocation_number :: u64
  fd_static_call_site :: u64
  fd_runtime_call_site :: u64
  fd_pointer :: u64
  fd_live_count_before :: u32
  fd_live_count_after :: u32
  fd_registry_slot :: "nat option"
  fd_record_state_before :: u32
  fd_record_state_after :: u32
  fd_allocation_sequence :: u64
  fd_requested_size :: u64
  fd_backing_size :: u64
  fd_owner :: u32
  fd_allocation_class :: u32
  fd_total_requested_bytes_before :: u64
  fd_total_requested_bytes_after :: u64
  fd_largest_request_before :: u64
  fd_largest_request_after :: u64
  fd_accounting_generation_before :: u64
  fd_accounting_generation_after :: u64
  fd_backing_release_status :: u64
  fd_backing_release_attempted :: bool
  fd_backing_released :: bool
  fd_failure :: GXOS_CRT_FREE_FAILURE

record 'w GXOS_CRT_MALLOC_CONTEXT =
  cm_boot_services :: u64
  cm_boot_services_available :: bool
  cm_allocate_pool :: "('w \<Rightarrow> u32 \<Rightarrow> u64 \<Rightarrow> u64 \<times> u64 \<times> 'w) option"
  cm_free_pool :: "('w \<Rightarrow> u64 \<Rightarrow> u64 \<times> 'w) option"
  cm_preferred_image_base :: u64
  cm_image_base :: u64
  cm_protected_ranges :: "GXOS_CRT_MALLOC_PROTECTED_RANGE list"
  cm_live_count :: u32
  cm_total_requested_bytes :: u64
  cm_largest_request :: u64
  cm_max_live_allocation_count :: u64
  cm_allocation_failure_count :: u64
  cm_metadata_exhaustion_count :: u64
  cm_duplicate_pointer_rejection_count :: u64
  cm_pool_rollback_count :: u64
  cm_invocation_count :: u64
  cm_next_allocation_sequence :: u64
  cm_accounting_generation :: u64
  cm_free_invocation_count :: u64
  cm_successful_free_count :: u64
  cm_null_free_count :: u64
  cm_invalid_free_count :: u64
  cm_double_free_count :: u64
  cm_next_release_record_slot :: nat
  cm_diagnostic_overflow_count :: u32
  cm_free_diagnostic_overflow_count :: u32
  cm_records :: "GXOS_CRT_MALLOC_RECORD list"
  cm_release_records :: "GXOS_CRT_MALLOC_RELEASE_RECORD list"
  cm_diagnostics :: "GXOS_CRT_MALLOC_DIAGNOSTIC list"
  cm_free_diagnostics :: "GXOS_CRT_FREE_DIAGNOSTIC list"
  cm_trace :: "('w \<Rightarrow> GXOS_CRT_MALLOC_DIAGNOSTIC \<Rightarrow> 'w) option"
  cm_world :: 'w

definition zero_malloc_record :: GXOS_CRT_MALLOC_RECORD where
  "zero_malloc_record = \<lparr> mr_pointer = 0, mr_requested_size = 0, mr_backing_size = 0, mr_allocation_sequence = 0,
     mr_occupied = 0, mr_state = 0, mr_owner = 0, mr_allocation_class = 0 \<rparr>"

definition zero_malloc_diagnostic :: GXOS_CRT_MALLOC_DIAGNOSTIC where
  "zero_malloc_diagnostic = \<lparr> md_invocation_number = 0, md_static_call_site = 0, md_runtime_call_site = 0,
     md_requested_size = 0, md_live_count_before = 0, md_registry_slot = Some 0, md_pool_service_available = False,
     md_allocate_pool_status = 0, md_returned_pointer = 0, md_alignment_mod8 = 0, md_alignment_mod16 = 0,
     md_allocation_range_base = 0, md_allocation_range_end = 0, md_overlap_validation = False,
     md_live_count_after = 0, md_rollback_count = 0, md_rollback_status = 0, md_return_value = 0,
     md_failure = GXOS_CRT_MALLOC_FAILURE_NONE \<rparr>"

definition zero_free_diagnostic :: GXOS_CRT_FREE_DIAGNOSTIC where
  "zero_free_diagnostic = \<lparr> fd_invocation_number = 0, fd_static_call_site = 0, fd_runtime_call_site = 0, fd_pointer = 0,
     fd_live_count_before = 0, fd_live_count_after = 0, fd_registry_slot = Some 0, fd_record_state_before = 0,
     fd_record_state_after = 0, fd_allocation_sequence = 0, fd_requested_size = 0, fd_backing_size = 0, fd_owner = 0,
     fd_allocation_class = 0, fd_total_requested_bytes_before = 0, fd_total_requested_bytes_after = 0,
     fd_largest_request_before = 0, fd_largest_request_after = 0, fd_accounting_generation_before = 0,
     fd_accounting_generation_after = 0, fd_backing_release_status = 0, fd_backing_release_attempted = False,
     fd_backing_released = False, fd_failure = GXOS_CRT_FREE_FAILURE_NONE \<rparr>"

subsection \<open>Validation\<close>

definition gxos_crt_malloc_ranges_overlap :: "u64 \<Rightarrow> u64 \<Rightarrow> u64 \<Rightarrow> u64 \<Rightarrow> bool" where
  "gxos_crt_malloc_ranges_overlap left_base left_end right_base right_end \<longleftrightarrow>
     left_base < right_end \<and> right_base < left_end"

definition gxos_crt_malloc_range_valid :: "u64 \<Rightarrow> u64 \<Rightarrow> bool" where
  "gxos_crt_malloc_range_valid base end \<longleftrightarrow> base \<noteq> 0 \<and> base < end"

definition gxos_crt_malloc_context_ranges_valid :: "'w GXOS_CRT_MALLOC_CONTEXT \<Rightarrow> bool" where
  "gxos_crt_malloc_context_ranges_valid context =
     (if length (cm_protected_ranges context) > GXOS_CRT_MALLOC_MAX_PROTECTED_RANGES then False
      else list_all (\<lambda>range. gxos_crt_malloc_range_valid (pr_base range) (pr_end range)) (cm_protected_ranges context))"

text \<open>The tests of one occupied record, and against the records after it.\<close>

definition malformed_record :: "GXOS_CRT_MALLOC_RECORD \<Rightarrow> bool" where
  "malformed_record record \<longleftrightarrow>
     mr_pointer record = 0 \<or> mr_requested_size record = 0 \<or>
     mr_backing_size record \<noteq> mr_requested_size record \<or>
     mr_requested_size record > GXOS_CRT_MALLOC_MAX_REQUEST \<or> mr_requested_size record > UINT64_MAX \<or>
     mr_pointer record AND 7 \<noteq> 0 \<or> mr_allocation_sequence record = 0 \<or> mr_occupied record \<noteq> 1 \<or>
     mr_state record \<noteq> GXOS_CRT_MALLOC_RECORD_LIVE \<or> mr_owner record \<noteq> GXOS_CRT_MALLOC_OWNER_CRT \<or>
     mr_allocation_class record \<noteq> GXOS_CRT_MALLOC_CLASS_PERSISTENT_POOL"

definition record_end :: "GXOS_CRT_MALLOC_RECORD \<Rightarrow> u64" where
  "record_end record = mr_pointer record + mr_requested_size record"

definition conflicting_record :: "GXOS_CRT_MALLOC_RECORD \<Rightarrow> GXOS_CRT_MALLOC_RECORD \<Rightarrow> bool" where
  "conflicting_record record other_record \<longleftrightarrow> mr_occupied other_record \<noteq> 0 \<and>
     (mr_pointer other_record = mr_pointer record \<or>
      mr_allocation_sequence record = mr_allocation_sequence other_record \<or>
      gxos_crt_malloc_ranges_overlap (mr_pointer record) (record_end record)
        (mr_pointer other_record) (record_end other_record))"

fun registry_loop :: "GXOS_CRT_MALLOC_RECORD list \<Rightarrow> u32 \<Rightarrow> u64 \<Rightarrow> u64 \<Rightarrow> (u32 \<times> u64 \<times> u64) option" where
  "registry_loop [] live_count total_requested_bytes largest_request =
     Some (live_count, total_requested_bytes, largest_request)"
| "registry_loop (record # later) live_count total_requested_bytes largest_request =
     (if mr_occupied record > 1 then None
      else if mr_occupied record = 0 then registry_loop later live_count total_requested_bytes largest_request
      else if malformed_record record then None
      else if record_end record < mr_pointer record then None
      else if list_ex (conflicting_record record) later then None
      else if total_requested_bytes > UINT64_MAX - mr_requested_size record then None
      else registry_loop later (live_count + 1) (total_requested_bytes + mr_requested_size record)
             (if mr_requested_size record > largest_request then mr_requested_size record else largest_request))"

definition gxos_crt_malloc_registry_valid :: "'w GXOS_CRT_MALLOC_CONTEXT \<Rightarrow> bool" where
  "gxos_crt_malloc_registry_valid context =
     (if cm_next_allocation_sequence context = 0 then False
      else if unat (cm_live_count context) > GXOS_CRT_MALLOC_REGISTRY_CAPACITY \<or>
              length (cm_release_records context) > GXOS_CRT_MALLOC_REGISTRY_CAPACITY \<or>
              cm_next_release_record_slot context \<ge> GXOS_CRT_MALLOC_REGISTRY_CAPACITY then False
      else registry_loop (cm_records context) 0 0 0 =
             Some (cm_live_count context, cm_total_requested_bytes context, cm_largest_request context))"

definition gxos_crt_malloc_context_reset :: "'w GXOS_CRT_MALLOC_CONTEXT \<Rightarrow> 'w GXOS_CRT_MALLOC_CONTEXT" where
  "gxos_crt_malloc_context_reset context =
     \<lparr> cm_boot_services = 0, cm_boot_services_available = False, cm_allocate_pool = None, cm_free_pool = None,
       cm_preferred_image_base = 0, cm_image_base = 0, cm_protected_ranges = [], cm_live_count = 0,
       cm_total_requested_bytes = 0, cm_largest_request = 0, cm_max_live_allocation_count = 0,
       cm_allocation_failure_count = 0, cm_metadata_exhaustion_count = 0, cm_duplicate_pointer_rejection_count = 0,
       cm_pool_rollback_count = 0, cm_invocation_count = 0, cm_next_allocation_sequence = 1,
       cm_accounting_generation = 1, cm_free_invocation_count = 0, cm_successful_free_count = 0,
       cm_null_free_count = 0, cm_invalid_free_count = 0, cm_double_free_count = 0,
       cm_next_release_record_slot = 0, cm_diagnostic_overflow_count = 0, cm_free_diagnostic_overflow_count = 0,
       cm_records = replicate GXOS_CRT_MALLOC_REGISTRY_CAPACITY zero_malloc_record, cm_release_records = [],
       cm_diagnostics = [], cm_free_diagnostics = [], cm_trace = None, cm_world = cm_world context \<rparr>"

definition gxos_crt_malloc_add_protected_range ::
    "u64 \<Rightarrow> u64 \<Rightarrow> u32 \<Rightarrow> 'w GXOS_CRT_MALLOC_CONTEXT \<Rightarrow> bool \<times> 'w GXOS_CRT_MALLOC_CONTEXT" where
  "gxos_crt_malloc_add_protected_range base end kind context =
     (if \<not> gxos_crt_malloc_range_valid base end \<or>
         length (cm_protected_ranges context) \<ge> GXOS_CRT_MALLOC_MAX_PROTECTED_RANGES then (False, context)
      else (True, context\<lparr> cm_protected_ranges := cm_protected_ranges context @
              [\<lparr> pr_base = base, pr_end = end, pr_kind = kind \<rparr>] \<rparr>))"

subsection \<open>Lookups\<close>

definition gxos_crt_malloc_find_live_record :: "'w GXOS_CRT_MALLOC_CONTEXT \<Rightarrow> u64 \<Rightarrow> nat option" where
  "gxos_crt_malloc_find_live_record context pointer =
     (if pointer = 0 then None
      else find_index (\<lambda>record. mr_occupied record \<noteq> 0 \<and> mr_pointer record = pointer) (cm_records context))"

definition gxos_crt_malloc_find_live_containing_record :: "'w GXOS_CRT_MALLOC_CONTEXT \<Rightarrow> u64 \<Rightarrow> nat option" where
  "gxos_crt_malloc_find_live_containing_record context pointer =
     (if pointer = 0 then None
      else find_index (\<lambda>record.
             \<not> (mr_occupied record = 0 \<or> mr_pointer record = pointer \<or> mr_requested_size record = 0 \<or>
                mr_pointer record > UINT64_MAX - mr_requested_size record) \<and>
             pointer > mr_pointer record \<and> pointer < record_end record) (cm_records context))"

definition gxos_crt_malloc_find_release_record :: "'w GXOS_CRT_MALLOC_CONTEXT \<Rightarrow> u64 \<Rightarrow> nat option" where
  "gxos_crt_malloc_find_release_record context pointer =
     (if pointer = 0 then None
      else find_index (\<lambda>record. rr_state record = GXOS_CRT_MALLOC_RECORD_FREED \<and> rr_pointer record = pointer)
             (cm_release_records context))"

definition gxos_crt_malloc_get_diagnostic ::
    "'w GXOS_CRT_MALLOC_CONTEXT \<Rightarrow> nat \<Rightarrow> GXOS_CRT_MALLOC_DIAGNOSTIC option" where
  "gxos_crt_malloc_get_diagnostic context index =
     (if index \<ge> length (cm_diagnostics context) \<or> index \<ge> GXOS_CRT_MALLOC_MAX_DIAGNOSTICS then None
      else Some (cm_diagnostics context ! index))"

definition gxos_crt_malloc_get_free_diagnostic ::
    "'w GXOS_CRT_MALLOC_CONTEXT \<Rightarrow> nat \<Rightarrow> GXOS_CRT_FREE_DIAGNOSTIC option" where
  "gxos_crt_malloc_get_free_diagnostic context index =
     (if index \<ge> length (cm_free_diagnostics context) \<or> index \<ge> GXOS_CRT_FREE_DIAGNOSTIC_CAPACITY then None
      else Some (cm_free_diagnostics context ! index))"

definition gxos_crt_malloc_find_free_slot :: "'w GXOS_CRT_MALLOC_CONTEXT \<Rightarrow> nat option" where
  "gxos_crt_malloc_find_free_slot context = find_index (\<lambda>record. mr_occupied record = 0) (cm_records context)"

definition gxos_crt_malloc_record_diagnostic ::
    "GXOS_CRT_MALLOC_DIAGNOSTIC \<Rightarrow> 'w GXOS_CRT_MALLOC_CONTEXT \<Rightarrow> 'w GXOS_CRT_MALLOC_CONTEXT" where
  "gxos_crt_malloc_record_diagnostic diagnostic context =
     (let context = (if length (cm_diagnostics context) < GXOS_CRT_MALLOC_MAX_DIAGNOSTICS
                     then context\<lparr> cm_diagnostics := cm_diagnostics context @ [diagnostic] \<rparr>
                     else context\<lparr> cm_diagnostic_overflow_count := cm_diagnostic_overflow_count context + 1 \<rparr>)
      in case cm_trace context of
           None \<Rightarrow> context
         | Some trace \<Rightarrow> context\<lparr> cm_world := trace (cm_world context) diagnostic \<rparr>)"

definition gxos_crt_malloc_rollback ::
    "u64 \<Rightarrow> GXOS_CRT_MALLOC_DIAGNOSTIC \<Rightarrow> 'w GXOS_CRT_MALLOC_CONTEXT \<Rightarrow>
     GXOS_CRT_MALLOC_DIAGNOSTIC \<times> 'w GXOS_CRT_MALLOC_CONTEXT" where
  "gxos_crt_malloc_rollback pointer diagnostic context =
     (let diagnostic = diagnostic\<lparr> md_rollback_count := 1 \<rparr>;
          context = context\<lparr> cm_pool_rollback_count := cm_pool_rollback_count context + 1 \<rparr>
      in case cm_free_pool context of
           None \<Rightarrow> (diagnostic, context)
         | Some free_pool \<Rightarrow>
             (case free_pool (cm_world context) pointer of (status, w) \<Rightarrow>
                (diagnostic\<lparr> md_rollback_status := status \<rparr>, context\<lparr> cm_world := w \<rparr>)))"

definition gxos_crt_malloc_set_call_sites :: "'w GXOS_CRT_MALLOC_CONTEXT \<Rightarrow> u64 \<Rightarrow> u64 \<times> u64" where
  "gxos_crt_malloc_set_call_sites context runtime_return_address =
     (let runtime_call_site = (if runtime_return_address \<ge> 5 then runtime_return_address - 5 else 0)
      in (runtime_call_site,
          if cm_image_base context \<noteq> 0 \<and> cm_preferred_image_base context \<noteq> 0 \<and>
             runtime_call_site \<ge> cm_image_base context
          then cm_preferred_image_base context + (runtime_call_site - cm_image_base context) else 0))"

subsection \<open>Allocation\<close>

text \<open>
  The tests before the pool is asked. The result is the failure or the slot, with the diagnostic
  and the context as the tests leave them.
\<close>

definition malloc_admit ::
    "u64 \<Rightarrow> GXOS_CRT_MALLOC_DIAGNOSTIC \<Rightarrow> 'w GXOS_CRT_MALLOC_CONTEXT \<Rightarrow>
     (GXOS_CRT_MALLOC_FAILURE + nat) \<times> GXOS_CRT_MALLOC_DIAGNOSTIC \<times> 'w GXOS_CRT_MALLOC_CONTEXT" where
  "malloc_admit requested_size diagnostic context =
     (if \<not> gxos_crt_malloc_registry_valid context
      then (Inl GXOS_CRT_MALLOC_FAILURE_MALFORMED_REGISTRY,
            diagnostic\<lparr> md_live_count_before := GXOS_CRT_MALLOC_NO_LIVE_COUNT \<rparr>, context)
      else if \<not> gxos_crt_malloc_context_ranges_valid context
      then (Inl GXOS_CRT_MALLOC_FAILURE_INVALID_PROTECTED_RANGE, diagnostic, context)
      else if requested_size = 0 then (Inl GXOS_CRT_MALLOC_FAILURE_ZERO_SIZE, diagnostic, context)
      else if requested_size > UINT64_MAX then (Inl GXOS_CRT_MALLOC_FAILURE_NOT_UINTN, diagnostic, context)
      else if requested_size > GXOS_CRT_MALLOC_MAX_REQUEST
      then (Inl GXOS_CRT_MALLOC_FAILURE_SIZE_LIMIT, diagnostic, context)
      else if cm_boot_services context = 0 \<or> \<not> cm_boot_services_available context
      then (Inl GXOS_CRT_MALLOC_FAILURE_BOOT_SERVICES_UNAVAILABLE, diagnostic, context)
      else
        let available = (cm_allocate_pool context \<noteq> None \<and> cm_free_pool context \<noteq> None);
            diagnostic = diagnostic\<lparr> md_pool_service_available := available \<rparr>
        in if \<not> available then (Inl GXOS_CRT_MALLOC_FAILURE_POOL_SERVICE_UNAVAILABLE, diagnostic, context)
           else
             let slot = gxos_crt_malloc_find_free_slot context;
                 diagnostic = diagnostic\<lparr> md_registry_slot := slot \<rparr>
             in case slot of
                  None \<Rightarrow> (Inl GXOS_CRT_MALLOC_FAILURE_METADATA_EXHAUSTED, diagnostic,
                            context\<lparr> cm_metadata_exhaustion_count := cm_metadata_exhaustion_count context + 1 \<rparr>)
                | Some index \<Rightarrow>
                    if cm_next_allocation_sequence context = UINT64_MAX
                    then (Inl GXOS_CRT_MALLOC_FAILURE_SEQUENCE_EXHAUSTED, diagnostic, context)
                    else (Inr index, diagnostic, context))"

text \<open>The scan of the records for the new block: the failure of the first record that is in its way.\<close>

fun placement_conflict :: "u64 \<Rightarrow> u64 \<Rightarrow> GXOS_CRT_MALLOC_RECORD list \<Rightarrow> GXOS_CRT_MALLOC_FAILURE option" where
  "placement_conflict allocation_base allocation_end [] = None"
| "placement_conflict allocation_base allocation_end (record # later) =
     (if mr_occupied record = 0 then placement_conflict allocation_base allocation_end later
      else if mr_pointer record = allocation_base then Some GXOS_CRT_MALLOC_FAILURE_DUPLICATE_POINTER
      else if gxos_crt_malloc_ranges_overlap allocation_base allocation_end (mr_pointer record) (record_end record)
      then Some GXOS_CRT_MALLOC_FAILURE_EXISTING_OVERLAP
      else placement_conflict allocation_base allocation_end later)"

text \<open>The tests of the block that the pool returned.\<close>

definition malloc_check ::
    "u64 \<Rightarrow> u64 \<Rightarrow> GXOS_CRT_MALLOC_DIAGNOSTIC \<Rightarrow> 'w GXOS_CRT_MALLOC_CONTEXT \<Rightarrow>
     GXOS_CRT_MALLOC_FAILURE option \<times> GXOS_CRT_MALLOC_DIAGNOSTIC \<times> 'w GXOS_CRT_MALLOC_CONTEXT" where
  "malloc_check allocation_base requested_size diagnostic context =
     (if allocation_base = 0 then (Some GXOS_CRT_MALLOC_FAILURE_NULL_SUCCESS, diagnostic, context)
      else if allocation_base AND 7 \<noteq> 0 then (Some GXOS_CRT_MALLOC_FAILURE_UNALIGNED, diagnostic, context)
      else if allocation_base > UINT64_MAX - requested_size
      then (Some GXOS_CRT_MALLOC_FAILURE_RANGE_OVERFLOW, diagnostic, context)
      else
        let allocation_end = allocation_base + requested_size;
            diagnostic = diagnostic\<lparr> md_allocation_range_base := allocation_base,
                                     md_allocation_range_end := allocation_end \<rparr>
        in if list_ex (\<lambda>range. gxos_crt_malloc_ranges_overlap allocation_base allocation_end (pr_base range) (pr_end range))
                (cm_protected_ranges context)
           then (Some GXOS_CRT_MALLOC_FAILURE_PROTECTED_OVERLAP, diagnostic, context)
           else case placement_conflict allocation_base allocation_end (cm_records context) of
             Some failure \<Rightarrow>
               (Some failure, diagnostic,
                if failure = GXOS_CRT_MALLOC_FAILURE_DUPLICATE_POINTER
                then context\<lparr> cm_duplicate_pointer_rejection_count := cm_duplicate_pointer_rejection_count context + 1 \<rparr>
                else context)
           | None \<Rightarrow>
               let diagnostic = diagnostic\<lparr> md_overlap_validation := True \<rparr> in
               if cm_total_requested_bytes context > UINT64_MAX - requested_size
               then (Some GXOS_CRT_MALLOC_FAILURE_ACCOUNTING_OVERFLOW, diagnostic, context)
               else if cm_accounting_generation context = UINT64_MAX
               then (Some GXOS_CRT_MALLOC_FAILURE_ACCOUNTING_OVERFLOW, diagnostic, context)
               else (None, diagnostic, context))"

definition malloc_commit ::
    "nat \<Rightarrow> u64 \<Rightarrow> u64 \<Rightarrow> 'w GXOS_CRT_MALLOC_CONTEXT \<Rightarrow> 'w GXOS_CRT_MALLOC_CONTEXT" where
  "malloc_commit slot allocation_base requested_size context =
     (let live_count = cm_live_count context + 1 in
      context\<lparr>
        cm_records := (cm_records context)[slot :=
          \<lparr> mr_pointer = allocation_base, mr_requested_size = requested_size, mr_backing_size = requested_size,
            mr_allocation_sequence = cm_next_allocation_sequence context, mr_occupied = 1,
            mr_state = GXOS_CRT_MALLOC_RECORD_LIVE, mr_owner = GXOS_CRT_MALLOC_OWNER_CRT,
            mr_allocation_class = GXOS_CRT_MALLOC_CLASS_PERSISTENT_POOL \<rparr>],
        cm_next_allocation_sequence := cm_next_allocation_sequence context + 1,
        cm_live_count := live_count,
        cm_total_requested_bytes := cm_total_requested_bytes context + requested_size,
        cm_largest_request := (if requested_size > cm_largest_request context then requested_size
                               else cm_largest_request context),
        cm_max_live_allocation_count := (if ucast live_count > cm_max_live_allocation_count context
                                         then ucast live_count else cm_max_live_allocation_count context),
        cm_accounting_generation := cm_accounting_generation context + 1 \<rparr>)"

text \<open>The label \<open>complete\<close>.\<close>

definition malloc_complete ::
    "u64 \<Rightarrow> GXOS_CRT_MALLOC_FAILURE \<Rightarrow> GXOS_CRT_MALLOC_DIAGNOSTIC \<Rightarrow> 'w GXOS_CRT_MALLOC_CONTEXT \<Rightarrow>
     u64 \<times> 'w GXOS_CRT_MALLOC_CONTEXT" where
  "malloc_complete result failure diagnostic context =
     (let context = (if result = 0
                     then context\<lparr> cm_allocation_failure_count := cm_allocation_failure_count context + 1 \<rparr> else context);
          diagnostic = diagnostic\<lparr> md_failure := failure \<rparr>;
          diagnostic = (if md_live_count_after diagnostic = 0 \<and> cm_live_count context \<noteq> 0
                        then diagnostic\<lparr> md_live_count_after := cm_live_count context \<rparr> else diagnostic)
      in (result, gxos_crt_malloc_record_diagnostic diagnostic context))"

text \<open>From the call of the pool service on.\<close>

definition malloc_from_pool ::
    "('w \<Rightarrow> u32 \<Rightarrow> u64 \<Rightarrow> u64 \<times> u64 \<times> 'w) \<Rightarrow> u64 \<Rightarrow> nat \<Rightarrow> GXOS_CRT_MALLOC_DIAGNOSTIC \<Rightarrow> 'w GXOS_CRT_MALLOC_CONTEXT \<Rightarrow>
     u64 \<times> 'w GXOS_CRT_MALLOC_CONTEXT" where
  "malloc_from_pool allocate_pool requested_size slot diagnostic context =
     (case allocate_pool (cm_world context) GXOS_CRT_MALLOC_EFI_LOADER_DATA requested_size of
        (pool_status, allocation, w) \<Rightarrow>
          let context = context\<lparr> cm_world := w \<rparr>;
              diagnostic = diagnostic\<lparr> md_allocate_pool_status := pool_status \<rparr>
          in if drop_bit 63 pool_status \<noteq> 0
             then malloc_complete 0 GXOS_CRT_MALLOC_FAILURE_POOL_ALLOCATION diagnostic context
             else
               let diagnostic = diagnostic\<lparr> md_returned_pointer := allocation,
                     md_alignment_mod8 := ucast (allocation AND 7), md_alignment_mod16 := ucast (allocation AND 15) \<rparr>
               in case malloc_check allocation requested_size diagnostic context of
                    (Some failure, diagnostic, context) \<Rightarrow>
                      (case gxos_crt_malloc_rollback allocation diagnostic context of (diagnostic, context) \<Rightarrow>
                         malloc_complete 0 failure diagnostic context)
                  | (None, diagnostic, context) \<Rightarrow>
                      let context = malloc_commit slot allocation requested_size context in
                      malloc_complete allocation GXOS_CRT_MALLOC_FAILURE_NONE
                        (diagnostic\<lparr> md_live_count_after := cm_live_count context, md_return_value := allocation \<rparr>) context)"

definition gxos_crt_malloc_call ::
    "u64 \<Rightarrow> u64 \<Rightarrow> u64 \<Rightarrow> 'w GXOS_CRT_MALLOC_CONTEXT \<Rightarrow> u64 \<times> 'w GXOS_CRT_MALLOC_CONTEXT" where
  "gxos_crt_malloc_call requested_size runtime_call_site static_call_site context =
     (let context = context\<lparr> cm_invocation_count := cm_invocation_count context + 1 \<rparr>;
          diagnostic = zero_malloc_diagnostic
            \<lparr> md_invocation_number := cm_invocation_count context, md_static_call_site := static_call_site,
              md_runtime_call_site := runtime_call_site, md_requested_size := requested_size,
              md_registry_slot := None, md_live_count_before := cm_live_count context \<rparr>
      in case malloc_admit requested_size diagnostic context of
           (Inl failure, diagnostic, context) \<Rightarrow> malloc_complete 0 failure diagnostic context
         | (Inr slot, diagnostic, context) \<Rightarrow>
             malloc_from_pool (the (cm_allocate_pool context)) requested_size slot diagnostic context)"

definition gxos_crt_malloc_entry ::
    "u64 \<Rightarrow> u64 \<Rightarrow> 'w GXOS_CRT_MALLOC_CONTEXT \<Rightarrow> u64 \<times> 'w GXOS_CRT_MALLOC_CONTEXT" where
  "gxos_crt_malloc_entry requested_size runtime_return_address context =
     (case gxos_crt_malloc_set_call_sites context runtime_return_address of
        (runtime_call_site, static_call_site) \<Rightarrow>
          gxos_crt_malloc_call requested_size runtime_call_site static_call_site context)"

subsection \<open>Release\<close>

definition gxos_crt_free_record_diagnostic ::
    "GXOS_CRT_FREE_DIAGNOSTIC \<Rightarrow> 'w GXOS_CRT_MALLOC_CONTEXT \<Rightarrow> 'w GXOS_CRT_MALLOC_CONTEXT" where
  "gxos_crt_free_record_diagnostic diagnostic context =
     (if length (cm_free_diagnostics context) < GXOS_CRT_FREE_DIAGNOSTIC_CAPACITY
      then context\<lparr> cm_free_diagnostics := cm_free_diagnostics context @ [diagnostic] \<rparr>
      else context\<lparr> cm_free_diagnostic_overflow_count := cm_free_diagnostic_overflow_count context + 1 \<rparr>)"

definition gxos_crt_free_recompute_largest :: "'w GXOS_CRT_MALLOC_CONTEXT \<Rightarrow> u64" where
  "gxos_crt_free_recompute_largest context =
     fold (\<lambda>record largest. if mr_occupied record \<noteq> 0 \<and> mr_requested_size record > largest
             then mr_requested_size record else largest) (cm_records context) 0"

definition gxos_crt_free_remember_release ::
    "GXOS_CRT_MALLOC_RECORD \<Rightarrow> nat \<Rightarrow> 'w GXOS_CRT_MALLOC_CONTEXT \<Rightarrow> 'w GXOS_CRT_MALLOC_CONTEXT" where
  "gxos_crt_free_remember_release record registry_slot context =
     (let release_record = \<lparr> rr_pointer = mr_pointer record, rr_requested_size = mr_requested_size record,
            rr_backing_size = mr_backing_size record, rr_allocation_sequence = mr_allocation_sequence record,
            rr_release_sequence = cm_successful_free_count context, rr_registry_slot = registry_slot,
            rr_state = GXOS_CRT_MALLOC_RECORD_FREED \<rparr>;
          count = length (cm_release_records context);
          slot = (if count < GXOS_CRT_MALLOC_REGISTRY_CAPACITY then count else cm_next_release_record_slot context)
      in context\<lparr>
           cm_release_records := (if count < GXOS_CRT_MALLOC_REGISTRY_CAPACITY
             then cm_release_records context @ [release_record] else (cm_release_records context)[slot := release_record]),
           cm_next_release_record_slot := (slot + 1) mod GXOS_CRT_MALLOC_REGISTRY_CAPACITY \<rparr>)"

text \<open>The failing exits count and record.\<close>

definition free_refused ::
    "GXOS_CRT_FREE_FAILURE \<Rightarrow> GXOS_CRT_FREE_DIAGNOSTIC \<Rightarrow> 'w GXOS_CRT_MALLOC_CONTEXT \<Rightarrow> 'w GXOS_CRT_MALLOC_CONTEXT" where
  "free_refused failure diagnostic context =
     gxos_crt_free_record_diagnostic (diagnostic\<lparr> fd_failure := failure \<rparr>)
       (context\<lparr> cm_invalid_free_count := cm_invalid_free_count context + 1 \<rparr>)"

text \<open>A pointer that is no live block.\<close>

definition free_unknown ::
    "u64 \<Rightarrow> GXOS_CRT_FREE_DIAGNOSTIC \<Rightarrow> 'w GXOS_CRT_MALLOC_CONTEXT \<Rightarrow> 'w GXOS_CRT_MALLOC_CONTEXT" where
  "free_unknown pointer diagnostic context =
     (if gxos_crt_malloc_find_live_containing_record context pointer \<noteq> None
      then free_refused GXOS_CRT_FREE_FAILURE_INTERIOR_POINTER diagnostic context
      else case gxos_crt_malloc_find_release_record context pointer of
        None \<Rightarrow> free_refused GXOS_CRT_FREE_FAILURE_UNKNOWN_POINTER diagnostic context
      | Some r \<Rightarrow>
          let release_record = cm_release_records context ! r in
          free_refused GXOS_CRT_FREE_FAILURE_DOUBLE_FREE
            (diagnostic\<lparr> fd_registry_slot := Some (rr_registry_slot release_record),
               fd_record_state_before := rr_state release_record, fd_record_state_after := rr_state release_record,
               fd_allocation_sequence := rr_allocation_sequence release_record,
               fd_requested_size := rr_requested_size release_record,
               fd_backing_size := rr_backing_size release_record \<rparr>)
            (context\<lparr> cm_double_free_count := cm_double_free_count context + 1 \<rparr>))"

text \<open>The bookkeeping once the pool has taken the block back.\<close>

definition free_commit :: "nat \<Rightarrow> 'w GXOS_CRT_MALLOC_CONTEXT \<Rightarrow> 'w GXOS_CRT_MALLOC_CONTEXT" where
  "free_commit slot context =
     (let record = cm_records context ! slot;
          context = gxos_crt_free_remember_release record slot context;
          context = context\<lparr> cm_records := (cm_records context)[slot := zero_malloc_record],
                             cm_live_count := cm_live_count context - 1,
                             cm_total_requested_bytes := cm_total_requested_bytes context - mr_requested_size record \<rparr>
      in context\<lparr> cm_largest_request := gxos_crt_free_recompute_largest context,
                  cm_accounting_generation := cm_accounting_generation context + 1,
                  cm_successful_free_count := cm_successful_free_count context + 1 \<rparr>)"

definition gxos_crt_free_call ::
    "u64 \<Rightarrow> u64 \<Rightarrow> u64 \<Rightarrow> 'w GXOS_CRT_MALLOC_CONTEXT \<Rightarrow> 'w GXOS_CRT_MALLOC_CONTEXT" where
  "gxos_crt_free_call pointer runtime_call_site static_call_site context =
     (let context = context\<lparr> cm_free_invocation_count := cm_free_invocation_count context + 1 \<rparr>;
          diagnostic = zero_free_diagnostic
            \<lparr> fd_invocation_number := cm_free_invocation_count context, fd_static_call_site := static_call_site,
              fd_runtime_call_site := runtime_call_site, fd_pointer := pointer, fd_registry_slot := None,
              fd_live_count_before := cm_live_count context, fd_live_count_after := cm_live_count context,
              fd_total_requested_bytes_before := cm_total_requested_bytes context,
              fd_total_requested_bytes_after := cm_total_requested_bytes context,
              fd_largest_request_before := cm_largest_request context, fd_largest_request_after := cm_largest_request context,
              fd_accounting_generation_before := cm_accounting_generation context,
              fd_accounting_generation_after := cm_accounting_generation context \<rparr>
      in if pointer = 0
         then gxos_crt_free_record_diagnostic (diagnostic\<lparr> fd_failure := GXOS_CRT_FREE_FAILURE_NONE \<rparr>)
                (context\<lparr> cm_null_free_count := cm_null_free_count context + 1 \<rparr>)
         else if \<not> gxos_crt_malloc_registry_valid context
         then free_refused GXOS_CRT_FREE_FAILURE_MALFORMED_REGISTRY diagnostic context
         else case find_index (\<lambda>record. mr_occupied record \<noteq> 0 \<and> mr_pointer record = pointer) (cm_records context) of
           None \<Rightarrow> free_unknown pointer diagnostic context
         | Some slot \<Rightarrow>
             let record = cm_records context ! slot;
                 diagnostic = diagnostic\<lparr> fd_registry_slot := Some slot, fd_record_state_before := mr_state record,
                   fd_record_state_after := GXOS_CRT_MALLOC_RECORD_FREED,
                   fd_allocation_sequence := mr_allocation_sequence record, fd_requested_size := mr_requested_size record,
                   fd_backing_size := mr_backing_size record, fd_owner := mr_owner record,
                   fd_allocation_class := mr_allocation_class record \<rparr>
             in case cm_free_pool context of
                  None \<Rightarrow> free_refused GXOS_CRT_FREE_FAILURE_BACKING_SERVICE_UNAVAILABLE diagnostic context
                | Some free_pool \<Rightarrow>
                    if cm_live_count context = 0 \<or> cm_total_requested_bytes context < mr_requested_size record \<or>
                       cm_accounting_generation context = UINT64_MAX
                    then free_refused GXOS_CRT_FREE_FAILURE_ACCOUNTING diagnostic context
                    else case free_pool (cm_world context) pointer of (status, w) \<Rightarrow>
                      let context = context\<lparr> cm_world := w \<rparr>;
                          diagnostic = diagnostic\<lparr> fd_backing_release_attempted := True, fd_backing_release_status := status \<rparr>
                      in if status \<noteq> 0 then free_refused GXOS_CRT_FREE_FAILURE_BACKING_RELEASE diagnostic context
                         else
                           let context = free_commit slot context in
                           gxos_crt_free_record_diagnostic
                             (diagnostic\<lparr> fd_backing_released := True, fd_live_count_after := cm_live_count context,
                                fd_total_requested_bytes_after := cm_total_requested_bytes context,
                                fd_largest_request_after := cm_largest_request context,
                                fd_accounting_generation_after := cm_accounting_generation context,
                                fd_failure := GXOS_CRT_FREE_FAILURE_NONE \<rparr>) context)"

definition gxos_crt_free_entry :: "u64 \<Rightarrow> u64 \<Rightarrow> 'w GXOS_CRT_MALLOC_CONTEXT \<Rightarrow> 'w GXOS_CRT_MALLOC_CONTEXT" where
  "gxos_crt_free_entry pointer runtime_return_address context =
     (case gxos_crt_malloc_set_call_sites context runtime_return_address of
        (runtime_call_site, static_call_site) \<Rightarrow>
          gxos_crt_free_call pointer runtime_call_site static_call_site context)"

end
