(* ===== verification/Crt_Malloc_Registry.thy ===== *)
theory Crt_Malloc_Registry
  imports Crt_Malloc
begin

text \<open>
  The registry of the C heap: what its run-time validation accepts, and that recording a block and
  releasing one keep it valid.
\<close>

subsection \<open>What the validation accepts\<close>

abbreviation block_live :: "GXOS_CRT_MALLOC_RECORD \<Rightarrow> bool" where
  "block_live r \<equiv> mr_occupied r \<noteq> 0"

abbreviation block_bytes :: "GXOS_CRT_MALLOC_RECORD \<Rightarrow> nat" where
  "block_bytes r \<equiv> unat (mr_requested_size r)"

definition block_span :: "GXOS_CRT_MALLOC_RECORD \<Rightarrow> nat set" where
  "block_span r = bytes_from (mr_pointer r) (mr_requested_size r)"

definition block_ok :: "GXOS_CRT_MALLOC_RECORD \<Rightarrow> bool" where
  "block_ok r \<longleftrightarrow> \<not> malformed_record r \<and> \<not> record_end r < mr_pointer r"

definition blocks_apart :: "GXOS_CRT_MALLOC_RECORD \<Rightarrow> GXOS_CRT_MALLOC_RECORD \<Rightarrow> bool" where
  "blocks_apart r q \<longleftrightarrow> (block_live r \<longrightarrow> \<not> conflicting_record r q)"

definition larger :: "GXOS_CRT_MALLOC_RECORD \<Rightarrow> u64 \<Rightarrow> u64" where
  "larger r m = (if block_live r \<and> mr_requested_size r > m then mr_requested_size r else m)"

lemma symp_blocks_apart: "symp blocks_apart"
  by (auto simp: symp_def blocks_apart_def conflicting_record_def gxos_crt_malloc_ranges_overlap_def)

lemma block_ok_fits:
  assumes "block_ok r"
  shows "unat (record_end r) = unat (mr_pointer r) + unat (mr_requested_size r)"
    and "0 < unat (mr_requested_size r)" "unat (mr_requested_size r) \<le> 0xC8000"
proof -
  have s: "mr_requested_size r \<noteq> 0" "mr_requested_size r \<le> 0xC8000" "\<not> record_end r < mr_pointer r"
    using assms by (auto simp: block_ok_def malformed_record_def not_less)
  show "0 < unat (mr_requested_size r)" using s(1) by (simp add: unat_gt_0)
  show le: "unat (mr_requested_size r) \<le> 0xC8000" using s(2) by (simp add: word_le_nat_alt)
  have "mr_pointer r \<le> mr_pointer r + mr_requested_size r" using s(3) by (simp add: record_end_def)
  then show "unat (record_end r) = unat (mr_pointer r) + unat (mr_requested_size r)"
    by (simp add: record_end_def unat_plus_simple)
qed

lemma block_spans_apart:
  assumes "block_ok r" and "block_ok q"
  shows "block_span r \<inter> block_span q = {} \<longleftrightarrow>
    \<not> gxos_crt_malloc_ranges_overlap (mr_pointer r) (record_end r) (mr_pointer q) (record_end q)"
  using block_ok_fits [OF assms(1)] block_ok_fits [OF assms(2)]
  by (simp add: block_span_def bytes_from_disjoint gxos_crt_malloc_ranges_overlap_def word_less_nat_alt unat_gt_0 [symmetric] del: unat_gt_0)

lemma registry_loop_iff:
  assumes "unat tot + length rs * 0xC8000 < 2 ^ 64"
  shows "registry_loop rs lc tot lar = Some x \<longleftrightarrow>
    (\<forall>r \<in> set rs. mr_occupied r \<le> 1 \<and> (block_live r \<longrightarrow> block_ok r)) \<and> sorted_wrt blocks_apart rs \<and>
    x = (lc + of_nat (live_sum block_live (\<lambda>_. 1) rs),
         tot + of_nat (live_sum block_live block_bytes rs), fold larger rs lar)"
  using assms
proof (induction rs arbitrary: lc tot lar)
  case Nil
  then show ?case by auto
next
  case (Cons r rs)
  show ?case
  proof (cases "block_live r")
    case False
    have "blocks_apart r q" for q using False by (simp add: blocks_apart_def)
    then show ?thesis using Cons.IH [of tot lc lar] Cons.prems False by (simp add: larger_def not_less)
  next
    case True
    show ?thesis
    proof (cases "mr_occupied r \<le> 1 \<and> block_ok r \<and> \<not> list_ex (conflicting_record r) rs")
      case False
      then show ?thesis using True by (auto simp: block_ok_def blocks_apart_def list_ex_iff)
    next
      case ok: True
      note F = block_ok_fits [of r]
      have fits: "unat tot + unat (mr_requested_size r) < 2 ^ 64" "unat (tot + mr_requested_size r) = unat tot + unat (mr_requested_size r)"
      proof -
        show "unat tot + unat (mr_requested_size r) < 2 ^ 64" using Cons.prems F(3) ok by simp
        then show "unat (tot + mr_requested_size r) = unat tot + unat (mr_requested_size r)" by (simp add: unat_word_ariths)
      qed
      have no: "\<not> tot > UINT64_MAX - mr_requested_size r"
        using fits(1) by (simp add: word_less_nat_alt unat_sub_le unat_UINT64_MAX)
      have IH: "registry_loop rs (lc + 1) (tot + mr_requested_size r) (larger r lar) = Some x \<longleftrightarrow>
          (\<forall>r \<in> set rs. mr_occupied r \<le> 1 \<and> (block_live r \<longrightarrow> block_ok r)) \<and> sorted_wrt blocks_apart rs \<and>
          x = (lc + 1 + of_nat (live_sum block_live (\<lambda>_. 1) rs),
            tot + mr_requested_size r + of_nat (live_sum block_live block_bytes rs), fold larger rs (larger r lar))"
        using Cons.prems F(3) ok fits by (intro Cons.IH) simp
      have ap: "(\<forall>q \<in> set rs. blocks_apart r q)" using ok True by (auto simp: blocks_apart_def list_ex_iff)
      have lar: "(if mr_requested_size r > lar then mr_requested_size r else lar) = larger r lar" using True by (simp add: larger_def)
      have "registry_loop (r # rs) lc tot lar = registry_loop rs (lc + 1) (tot + mr_requested_size r) (larger r lar)"
      proof -
        have "\<not> mr_occupied r > 1" using ok by (simp only: not_less)
        moreover have "\<not> malformed_record r" "\<not> record_end r < mr_pointer r" using ok by (simp_all add: block_ok_def)
        moreover have "\<not> list_ex (conflicting_record r) rs" using ok by blast
        ultimately show ?thesis using True no by (simp only: registry_loop.simps lar if_False)
      qed
      then show ?thesis using ok ap True by (simp only: IH) (auto simp: algebra_simps)
    qed
  qed
qed

lemma larger_commute: "larger r (larger q m) = larger q (larger r m)"
  by (auto simp: larger_def)

lemma larger_dead [simp]: "\<not> block_live r \<Longrightarrow> larger r m = m"
  by (simp add: larger_def)

lemma fold_larger_commute: "fold larger rs (larger r m) = larger r (fold larger rs m)"
  by (induction rs arbitrary: m) (simp_all add: larger_commute [of _ r])

lemma fold_larger_insert:
  "i < length rs \<Longrightarrow> \<not> block_live (rs ! i) \<Longrightarrow> fold larger (rs[i := r]) m = larger r (fold larger rs m)"
proof (induction rs arbitrary: i m)
  case (Cons q rs)
  then show ?case by (cases i) (simp_all add: fold_larger_commute larger_commute)
qed simp

lemma recompute_largest: "gxos_crt_free_recompute_largest c = fold larger (cm_records c) 0"
  by (simp add: gxos_crt_free_recompute_largest_def larger_def [abs_def])

subsection \<open>The invariant of the heap\<close>

definition records_ok :: "u64 \<Rightarrow> GXOS_CRT_MALLOC_RECORD list \<Rightarrow> bool" where
  "records_ok s rs \<longleftrightarrow> length rs = 64 \<and> sorted_wrt blocks_apart rs \<and>
     (\<forall>r \<in> set rs. block_live r \<longrightarrow> block_ok r \<and> mr_allocation_sequence r < s)"

definition heap_inv :: "'w GXOS_CRT_MALLOC_CONTEXT \<Rightarrow> bool" where
  "heap_inv c \<longleftrightarrow>
     records_ok (cm_next_allocation_sequence c) (cm_records c) \<and> cm_next_allocation_sequence c \<noteq> 0 \<and>
     length (cm_release_records c) \<le> 64 \<and> cm_next_release_record_slot c < 64 \<and>
     unat (cm_live_count c) = live_sum block_live (\<lambda>_. 1) (cm_records c) \<and>
     unat (cm_total_requested_bytes c) = live_sum block_live block_bytes (cm_records c) \<and>
     cm_largest_request c = fold larger (cm_records c) 0"

lemma block_ok_occupied: "block_ok r \<Longrightarrow> mr_occupied r = 1"
  by (simp add: block_ok_def malformed_record_def)

lemma heap_inv_occupied: "heap_inv c \<Longrightarrow> r \<in> set (cm_records c) \<Longrightarrow> mr_occupied r \<le> 1"
  by (cases "block_live r") (auto simp: heap_inv_def records_ok_def dest!: bspec block_ok_occupied)

lemma heap_inv_nth: "heap_inv c \<Longrightarrow> i < length (cm_records c) \<Longrightarrow> block_live (cm_records c ! i) \<Longrightarrow> block_ok (cm_records c ! i)"
  by (simp add: heap_inv_def records_ok_def)

lemma heap_inv_apart:
  assumes "heap_inv c" "i < length (cm_records c)" "j < length (cm_records c)" "i \<noteq> j"
    and "block_live (cm_records c ! i)" "block_live (cm_records c ! j)"
  shows "mr_pointer (cm_records c ! i) \<noteq> mr_pointer (cm_records c ! j) \<and>
    \<not> gxos_crt_malloc_ranges_overlap (mr_pointer (cm_records c ! i)) (record_end (cm_records c ! i))
        (mr_pointer (cm_records c ! j)) (record_end (cm_records c ! j))"
proof -
  have "blocks_apart (cm_records c ! i) (cm_records c ! j)"
    using assms(1-4) by (simp add: heap_inv_def records_ok_def sorted_wrt_nth_sym [OF symp_blocks_apart])
  then show ?thesis using assms(5,6) by (auto simp: blocks_apart_def conflicting_record_def)
qed

text \<open>The run-time validation never fails on a state of the invariant.\<close>

lemma heap_inv_valid: assumes "heap_inv c" shows "gxos_crt_malloc_registry_valid c"
proof -
  note I = assms [unfolded heap_inv_def records_ok_def]
  have of_unat: "word_of_nat n = x" if "unat x = n" for n and x :: "'z::len word" using that by auto
  have "live_sum block_live (\<lambda>_. 1) (cm_records c) \<le> 64" using I live_sum_length [of block_live "cm_records c"] by simp
  moreover have "registry_loop (cm_records c) 0 0 0 =
      Some (cm_live_count c, cm_total_requested_bytes c, cm_largest_request c)"
    using I heap_inv_occupied [OF assms] by (subst registry_loop_iff) (auto simp: of_unat)
  ultimately show ?thesis using I by (simp add: gxos_crt_malloc_registry_valid_def)
qed

lemma heap_inv_reset: "heap_inv (gxos_crt_malloc_context_reset c)"
proof -
  have "sorted_wrt blocks_apart (replicate n zero_malloc_record)" for n
    by (induction n) (simp_all add: blocks_apart_def zero_malloc_record_def)
  moreover have "fold larger (replicate n zero_malloc_record) 0 = 0" for n
    by (induction n) (simp_all add: zero_malloc_record_def)
  ultimately show ?thesis
    by (auto simp: heap_inv_def records_ok_def gxos_crt_malloc_context_reset_def zero_malloc_record_def)
qed

subsection \<open>Recording a block\<close>

text \<open>A block the heap can take: aligned, within the address space, clear of the live blocks.\<close>

definition new_block :: "u64 \<Rightarrow> u64 \<Rightarrow> u64 \<Rightarrow> GXOS_CRT_MALLOC_RECORD" where
  "new_block p n s = \<lparr> mr_pointer = p, mr_requested_size = n, mr_backing_size = n, mr_allocation_sequence = s,
     mr_occupied = 1, mr_state = GXOS_CRT_MALLOC_RECORD_LIVE, mr_owner = GXOS_CRT_MALLOC_OWNER_CRT,
     mr_allocation_class = GXOS_CRT_MALLOC_CLASS_PERSISTENT_POOL \<rparr>"

definition clear_of :: "u64 \<Rightarrow> u64 \<Rightarrow> GXOS_CRT_MALLOC_RECORD \<Rightarrow> bool" where
  "clear_of p n r \<longleftrightarrow> (block_live r \<longrightarrow> mr_pointer r \<noteq> p \<and>
     \<not> gxos_crt_malloc_ranges_overlap p (p + n) (mr_pointer r) (record_end r))"

definition placeable :: "u64 \<Rightarrow> u64 \<Rightarrow> bool" where
  "placeable p n \<longleftrightarrow> p \<noteq> 0 \<and> p AND 7 = 0 \<and> n \<noteq> 0 \<and> n \<le> 0xC8000 \<and> unat p + unat n < 2 ^ 64"

lemma new_block_sel [simp]:
  "mr_pointer (new_block p n s) = p" "mr_requested_size (new_block p n s) = n" "mr_occupied (new_block p n s) = 1"
  "mr_allocation_sequence (new_block p n s) = s" "record_end (new_block p n s) = p + n"
  "block_span (new_block p n s) = bytes_from p n"
  by (simp_all add: new_block_def record_end_def block_span_def)

lemma placeable_ok: "placeable p n \<Longrightarrow> s \<noteq> 0 \<Longrightarrow> block_ok (new_block p n s)"
proof -
  assume p: "placeable p n" "s \<noteq> 0"
  have "p \<le> p + n" using p by (simp add: placeable_def unat_plus_simple unat_word_ariths)
  moreover have "n \<le> UINT64_MAX" by simp
  ultimately show ?thesis using p
    by (auto simp: block_ok_def malformed_record_def new_block_def record_end_def placeable_def not_less)
qed

lemma placement_conflict_None:
  "placement_conflict p (p + n) rs = None \<longleftrightarrow> (\<forall>r \<in> set rs. clear_of p n r)"
  by (induction rs) (auto simp: clear_of_def)

lemma clear_of_apart:
  "clear_of p n r \<Longrightarrow> (block_live r \<Longrightarrow> mr_allocation_sequence r < s) \<Longrightarrow> blocks_apart (new_block p n s) r"
  by (auto simp: clear_of_def blocks_apart_def conflicting_record_def)

lemma malloc_commit_records:
  "malloc_commit slot p n c = c\<lparr>
     cm_records := (cm_records c)[slot := new_block p n (cm_next_allocation_sequence c)],
     cm_next_allocation_sequence := cm_next_allocation_sequence c + 1,
     cm_live_count := cm_live_count c + 1,
     cm_total_requested_bytes := cm_total_requested_bytes c + n,
     cm_largest_request := larger (new_block p n (cm_next_allocation_sequence c)) (cm_largest_request c),
     cm_max_live_allocation_count := max (cm_max_live_allocation_count c) (ucast (cm_live_count c + 1)),
     cm_accounting_generation := cm_accounting_generation c + 1 \<rparr>"
  by (auto simp: malloc_commit_def Let_def new_block_def [symmetric] larger_def max_def)

lemma heap_inv_commit:
  assumes c: "heap_inv c" and s: "slot < length (cm_records c)" "\<not> block_live (cm_records c ! slot)"
    and p: "placeable p n" "\<forall>r \<in> set (cm_records c). clear_of p n r"
    and q: "cm_next_allocation_sequence c \<noteq> UINT64_MAX"
  shows "heap_inv (malloc_commit slot p n c)"
proof -
  note I = c [unfolded heap_inv_def records_ok_def]
  let ?s = "cm_next_allocation_sequence c" and ?rs = "cm_records c"
  let ?r = "new_block p n ?s"
  have r: "block_ok ?r" using placeable_ok p(1) I by blast
  have nx: "unat (?s + 1) = unat ?s + 1"
  proof -
    have "1 + ?s \<noteq> 0" using q by (metis add_diff_cancel_left' diff_0)
    then show ?thesis by (simp add: unatSuc add.commute)
  qed
  have sorted: "sorted_wrt blocks_apart (?rs[slot := ?r])"
    using p(2) I by (intro sorted_wrt_update [OF symp_blocks_apart] clear_of_apart) auto
  have seq: "\<forall>r \<in> set (?rs[slot := ?r]). block_live r \<longrightarrow> block_ok r \<and> mr_allocation_sequence r < ?s + 1"
  proof
    fix r assume "r \<in> set (?rs[slot := ?r])"
    then have "r = ?r \<or> r \<in> set ?rs" using set_update_subset_insert by fast
    then show "block_live r \<longrightarrow> block_ok r \<and> mr_allocation_sequence r < ?s + 1"
      using I r nx by (fastforce simp: word_less_nat_alt)
  qed
  have "live_sum block_live (\<lambda>_. 1) ?rs < 64" using live_count_lt [of "?rs ! slot" ?rs block_live] s I by simp
  then have cnt: "unat (cm_live_count c + 1) = live_sum block_live (\<lambda>_. 1) (?rs[slot := ?r])"
    using I s by (simp add: live_sum_insert unat_Suc32)
  have "live_sum block_live block_bytes (?rs[slot := ?r]) \<le> 64 * 0xC8000"
    using live_sum_bound [of "?rs[slot := ?r]" block_live block_bytes "0xC8000"] seq I block_ok_fits(3) by auto
  then have tot: "unat (cm_total_requested_bytes c + n) = live_sum block_live block_bytes (?rs[slot := ?r])"
    using I s by (simp add: live_sum_insert unat_word_ariths)
  show ?thesis unfolding heap_inv_def records_ok_def malloc_commit_records
    using I s sorted seq cnt tot nx by (auto simp: fold_larger_insert)
qed

subsection \<open>Releasing a block\<close>

lemma zero_malloc_record_dead [simp]: "mr_occupied zero_malloc_record = 0"
  by (simp add: zero_malloc_record_def)

lemma free_commit_records:
  "\<exists>h k. free_commit slot c = c\<lparr>
     cm_records := (cm_records c)[slot := zero_malloc_record],
     cm_release_records := h, cm_next_release_record_slot := k,
     cm_live_count := cm_live_count c - 1,
     cm_total_requested_bytes := cm_total_requested_bytes c - mr_requested_size (cm_records c ! slot),
     cm_largest_request := fold larger ((cm_records c)[slot := zero_malloc_record]) 0,
     cm_accounting_generation := cm_accounting_generation c + 1,
     cm_successful_free_count := cm_successful_free_count c + 1 \<rparr> \<and> k < 64 \<and>
     (length (cm_release_records c) \<le> 64 \<longrightarrow> length h \<le> 64) \<and>
     (length (cm_release_records c) \<le> 64 \<longrightarrow> cm_next_release_record_slot c < 64 \<longrightarrow>
       (\<exists>rr \<in> set h. rr_state rr = GXOS_CRT_MALLOC_RECORD_FREED \<and> rr_pointer rr = mr_pointer (cm_records c ! slot)))"
proof -
  let ?q = "gxos_crt_free_remember_release (cm_records c ! slot) slot c"
  have q: "?q = c\<lparr> cm_release_records := cm_release_records ?q, cm_next_release_record_slot := cm_next_release_record_slot ?q \<rparr>"
    "cm_next_release_record_slot ?q < 64" "length (cm_release_records c) \<le> 64 \<Longrightarrow> length (cm_release_records ?q) \<le> 64"
    by (simp_all add: gxos_crt_free_remember_release_def Let_def)
  have "\<exists>rr \<in> set (cm_release_records ?q). rr_state rr = GXOS_CRT_MALLOC_RECORD_FREED \<and> rr_pointer rr = mr_pointer (cm_records c ! slot)"
    if "length (cm_release_records c) \<le> 64" "cm_next_release_record_slot c < 64"
    using that by (auto simp: gxos_crt_free_remember_release_def Let_def intro!: bexI [OF _ set_update_memI])
  moreover obtain h k where e: "?q = c\<lparr> cm_release_records := h, cm_next_release_record_slot := k \<rparr>" using q(1) by blast
  ultimately show ?thesis using q(2,3)
    by (intro exI [of _ h] exI [of _ k]) (simp add: free_commit_def Let_def e recompute_largest)
qed

lemma heap_inv_release:
  assumes c: "heap_inv c" and s: "slot < length (cm_records c)" "block_live (cm_records c ! slot)"
  shows "heap_inv (free_commit slot c)"
proof -
  note I = c [unfolded heap_inv_def records_ok_def]
  let ?rs = "cm_records c"
  have sorted: "sorted_wrt blocks_apart (?rs[slot := zero_malloc_record])"
    using I by (intro sorted_wrt_update [OF symp_blocks_apart]) (auto simp: blocks_apart_def)
  have ok: "\<forall>r \<in> set (?rs[slot := zero_malloc_record]). block_live r \<longrightarrow> block_ok r \<and> mr_allocation_sequence r < cm_next_allocation_sequence c"
    using I by (fastforce dest!: set_update_subset_insert [THEN subsetD])
  have cnt: "unat (cm_live_count c - 1) = live_sum block_live (\<lambda>_. 1) (?rs[slot := zero_malloc_record])"
    using live_sum_delete [of slot ?rs block_live zero_malloc_record "\<lambda>_. 1"] s I
    by (cases "cm_live_count c = 0") (auto simp: unat_pred)
  have tot: "unat (cm_total_requested_bytes c - mr_requested_size (?rs ! slot)) = live_sum block_live block_bytes (?rs[slot := zero_malloc_record])"
    using live_sum_delete [of slot ?rs block_live zero_malloc_record block_bytes] s I by (simp add: unat_sub_if')
  obtain h k where "free_commit slot c = c\<lparr> cm_records := ?rs[slot := zero_malloc_record],
     cm_release_records := h, cm_next_release_record_slot := k, cm_live_count := cm_live_count c - 1,
     cm_total_requested_bytes := cm_total_requested_bytes c - mr_requested_size (?rs ! slot),
     cm_largest_request := fold larger (?rs[slot := zero_malloc_record]) 0,
     cm_accounting_generation := cm_accounting_generation c + 1,
     cm_successful_free_count := cm_successful_free_count c + 1 \<rparr>" "k < 64" "length h \<le> 64"
    using free_commit_records [of slot c] I by auto
  then show ?thesis using I sorted ok cnt tot by (simp add: heap_inv_def records_ok_def)
qed

text \<open>The registry is a bounded table of blocks with disjoint addresses.\<close>

interpretation heap_table: slot_table cm_records block_live block_span heap_inv
  "\<lambda>c e i c'. i < length (cm_records c) \<and> \<not> block_live (cm_records c ! i) \<and>
     e = new_block (mr_pointer e) (mr_requested_size e) (cm_next_allocation_sequence c) \<and>
     placeable (mr_pointer e) (mr_requested_size e) \<and>
     (\<forall>r \<in> set (cm_records c). clear_of (mr_pointer e) (mr_requested_size e) r) \<and>
     cm_next_allocation_sequence c \<noteq> UINT64_MAX \<and> c' = malloc_commit i (mr_pointer e) (mr_requested_size e) c"
  "\<lambda>c i c'. i < length (cm_records c) \<and> block_live (cm_records c ! i) \<and> c' = free_commit i c"
proof unfold_locales
  fix c :: "'a GXOS_CRT_MALLOC_CONTEXT" and i j
  assume "heap_inv c" "i < length (cm_records c)" "j < length (cm_records c)" "i \<noteq> j"
    "block_live (cm_records c ! i)" "block_live (cm_records c ! j)"
  then show "block_span (cm_records c ! i) \<inter> block_span (cm_records c ! j) = {}"
    using block_spans_apart [OF heap_inv_nth heap_inv_nth, of c i c j]
    by (simp add: heap_inv_apart)
next
  fix c c' :: "'a GXOS_CRT_MALLOC_CONTEXT" and e i
  let ?i = "i < length (cm_records c) \<and> \<not> block_live (cm_records c ! i) \<and>
     e = new_block (mr_pointer e) (mr_requested_size e) (cm_next_allocation_sequence c) \<and>
     placeable (mr_pointer e) (mr_requested_size e) \<and>
     (\<forall>r \<in> set (cm_records c). clear_of (mr_pointer e) (mr_requested_size e) r) \<and>
     cm_next_allocation_sequence c \<noteq> UINT64_MAX \<and> c' = malloc_commit i (mr_pointer e) (mr_requested_size e) c"
  assume i: "heap_inv c" ?i
  then have "mr_occupied e = 1" by (metis new_block_sel(3))
  with i show "i < length (cm_records c) \<and> \<not> block_live (cm_records c ! i) \<and> block_live e \<and> cm_records c' = (cm_records c)[i := e]"
    by (simp add: malloc_commit_records)
  from i show "heap_inv c'" using heap_inv_commit by blast
next
  fix c c' :: "'a GXOS_CRT_MALLOC_CONTEXT" and i
  assume d: "heap_inv c" "i < length (cm_records c) \<and> block_live (cm_records c ! i) \<and> c' = free_commit i c"
  then show "heap_inv c'" using heap_inv_release by blast
  show "i < length (cm_records c) \<and> block_live (cm_records c ! i) \<and>
      (\<exists>z. \<not> block_live z \<and> cm_records c' = (cm_records c)[i := z])"
    using d free_commit_records [of i c] by (auto intro: exI [of _ zero_malloc_record])
qed

end
