(* ===== verification/Crt_Malloc_Calls.thy ===== *)
theory Crt_Malloc_Calls
  imports Crt_Malloc_Registry
begin

text \<open>
  The calls \<open>malloc\<close> and \<open>free\<close> of the C heap, branch by branch: when the pool is asked, when its answer is
  accepted, and what becomes of the registry and of the pool in each case.
\<close>

subsection \<open>What a call leaves alone\<close>

definition keeps :: "'w GXOS_CRT_MALLOC_CONTEXT \<Rightarrow> 'w GXOS_CRT_MALLOC_CONTEXT \<Rightarrow> bool" where
  "keeps c c' \<longleftrightarrow> cm_records c' = cm_records c \<and> cm_release_records c' = cm_release_records c \<and>
     cm_next_release_record_slot c' = cm_next_release_record_slot c \<and>
     cm_next_allocation_sequence c' = cm_next_allocation_sequence c \<and> cm_live_count c' = cm_live_count c \<and>
     cm_total_requested_bytes c' = cm_total_requested_bytes c \<and> cm_largest_request c' = cm_largest_request c \<and>
     cm_accounting_generation c' = cm_accounting_generation c"

definition same_services :: "'w GXOS_CRT_MALLOC_CONTEXT \<Rightarrow> 'w GXOS_CRT_MALLOC_CONTEXT \<Rightarrow> bool" where
  "same_services c c' \<longleftrightarrow> cm_boot_services c' = cm_boot_services c \<and>
     cm_boot_services_available c' = cm_boot_services_available c \<and> cm_allocate_pool c' = cm_allocate_pool c \<and>
     cm_free_pool c' = cm_free_pool c \<and> cm_protected_ranges c' = cm_protected_ranges c \<and> cm_trace c' = cm_trace c"

lemmas call_frame = keeps_def same_services_def

lemma keeps_inv: "keeps c c' \<Longrightarrow> heap_inv c' \<longleftrightarrow> heap_inv c"
  by (simp add: heap_inv_def keeps_def)

text \<open>The state behind the services once the trace callback saw the diagnostic.\<close>

definition traced :: "'w GXOS_CRT_MALLOC_CONTEXT \<Rightarrow> 'w \<Rightarrow> 'w \<Rightarrow> bool" where
  "traced c w w' \<longleftrightarrow> (case cm_trace c of None \<Rightarrow> w' = w | Some trace \<Rightarrow> \<exists>d. w' = trace w d)"

lemma keeps_trans: "keeps c c' \<Longrightarrow> keeps c' c'' \<Longrightarrow> keeps c c''"
  by (simp add: keeps_def)

lemma same_services_trans: "same_services c c' \<Longrightarrow> same_services c' c'' \<Longrightarrow> same_services c c''"
  by (simp add: same_services_def)

lemmas call_trans = keeps_trans same_services_trans

lemma traced_services: "traced c' w w' \<Longrightarrow> same_services c c' \<Longrightarrow> traced c w w'"
  by (simp add: traced_def same_services_def)

lemma record_diagnostic_frame:
  "keeps c (gxos_crt_malloc_record_diagnostic d c) \<and> same_services c (gxos_crt_malloc_record_diagnostic d c) \<and>
   traced c (cm_world c) (cm_world (gxos_crt_malloc_record_diagnostic d c))"
  by (cases "length (cm_diagnostics c) < 256"; cases "cm_trace c")
     (auto simp: gxos_crt_malloc_record_diagnostic_def call_frame traced_def)

lemma malloc_complete_frame:
  assumes "malloc_complete result failure diagnostic c = (p, c')"
  shows "p = result \<and> keeps c c' \<and> same_services c c' \<and> traced c (cm_world c) (cm_world c')"
proof -
  let ?c = "if result = 0 then c\<lparr> cm_allocation_failure_count := cm_allocation_failure_count c + 1 \<rparr> else c"
  obtain d where "p = result" "c' = gxos_crt_malloc_record_diagnostic d ?c"
    using assms by (auto simp: malloc_complete_def Let_def)
  moreover have "keeps c ?c" "same_services c ?c" "cm_world ?c = cm_world c" by (simp_all add: call_frame)
  ultimately show ?thesis using record_diagnostic_frame [of ?c d] by (auto intro: call_trans dest: traced_services)
qed

lemma rollback_frame:
  assumes "gxos_crt_malloc_rollback p diagnostic c = (d, c')" and "cm_free_pool c = Some free_pool"
  shows "keeps c c' \<and> same_services c c' \<and> cm_world c' = snd (free_pool (cm_world c) p)"
  using assms by (auto simp: gxos_crt_malloc_rollback_def Let_def call_frame split: prod.splits)

subsection \<open>Asking the pool\<close>

definition malloc_admits :: "u64 \<Rightarrow> 'w GXOS_CRT_MALLOC_CONTEXT \<Rightarrow> bool" where
  "malloc_admits n c \<longleftrightarrow> gxos_crt_malloc_context_ranges_valid c \<and> n \<noteq> 0 \<and> n \<le> 0xC8000 \<and>
     cm_boot_services c \<noteq> 0 \<and> cm_boot_services_available c \<and> cm_allocate_pool c \<noteq> None \<and> cm_free_pool c \<noteq> None \<and>
     (\<exists>r \<in> set (cm_records c). \<not> block_live r) \<and> cm_next_allocation_sequence c \<noteq> UINT64_MAX"

lemma malloc_admit_cases:
  assumes "malloc_admit n diagnostic c = (x, d, c')" and "heap_inv c"
  shows "keeps c c' \<and> same_services c c' \<and> cm_world c' = cm_world c \<and>
    (case x of Inl _ \<Rightarrow> \<not> malloc_admits n c
     | Inr slot \<Rightarrow> malloc_admits n c \<and> gxos_crt_malloc_find_free_slot c = Some slot)"
proof -
  have "n \<le> UINT64_MAX" by simp
  moreover have "gxos_crt_malloc_find_free_slot c = None \<longleftrightarrow> \<not> (\<exists>r \<in> set (cm_records c). \<not> block_live r)"
    by (auto simp: gxos_crt_malloc_find_free_slot_def find_index_None_iff)
  ultimately show ?thesis using assms(1) heap_inv_valid [OF assms(2)]
    by (auto simp: malloc_admit_def malloc_admits_def Let_def call_frame not_less
        split: if_splits option.splits)
qed

text \<open>The pool's block is accepted.\<close>

definition block_accepted :: "u64 \<Rightarrow> u64 \<Rightarrow> 'w GXOS_CRT_MALLOC_CONTEXT \<Rightarrow> bool" where
  "block_accepted p n c \<longleftrightarrow> p \<noteq> 0 \<and> p AND 7 = 0 \<and> unat p + unat n < 2 ^ 64 \<and>
     (\<forall>r \<in> set (cm_protected_ranges c). \<not> gxos_crt_malloc_ranges_overlap p (p + n) (pr_base r) (pr_end r)) \<and>
     (\<forall>r \<in> set (cm_records c). clear_of p n r) \<and> cm_accounting_generation c \<noteq> UINT64_MAX"

lemma heap_total_small: "heap_inv c \<Longrightarrow> unat (cm_total_requested_bytes c) \<le> 64 * 0xC8000"
  using live_sum_bound [of "cm_records c" block_live block_bytes "0xC8000"] block_ok_fits(3)
  by (auto simp: heap_inv_def records_ok_def)

lemma malloc_check_cases:
  assumes "malloc_check p n diagnostic c = (x, d, c')" and "heap_inv c" and "n \<le> 0xC8000"
  shows "keeps c c' \<and> same_services c c' \<and> cm_world c' = cm_world c \<and> (x = None \<longleftrightarrow> block_accepted p n c)"
proof -
  have n: "unat n \<le> 0xC8000" using assms(3) by (simp add: word_le_nat_alt)
  have tot: "\<not> cm_total_requested_bytes c > UINT64_MAX - n"
    using heap_total_small [OF assms(2)] n by (simp add: word_less_nat_alt unat_UINT64_MAX)
  have fit: "p > UINT64_MAX - n \<longleftrightarrow> \<not> unat p + unat n < 2 ^ 64"
    using n by (auto simp: word_less_nat_alt unat_UINT64_MAX)
  show ?thesis using assms(1) tot
    by (auto simp: malloc_check_def fit Let_def call_frame block_accepted_def list_ex_iff placement_conflict_None
        split: if_splits option.splits)
qed

subsection \<open>The outcomes of \<open>malloc\<close>\<close>

text \<open>
  \<open>malloc_outcome n c p c'\<close> is what the call may do: refuse before the pool is asked, pass on the pool's failure,
  give an unusable block back to the pool, or record the block.
\<close>

inductive malloc_outcome ::
    "u64 \<Rightarrow> 'w GXOS_CRT_MALLOC_CONTEXT \<Rightarrow> u64 \<Rightarrow> 'w GXOS_CRT_MALLOC_CONTEXT \<Rightarrow> bool" for n c where
  refused: "\<not> malloc_admits n c \<Longrightarrow> keeps c c' \<Longrightarrow> same_services c c' \<Longrightarrow> traced c (cm_world c) (cm_world c') \<Longrightarrow>
    malloc_outcome n c 0 c'"
| pool_failed: "malloc_admits n c \<Longrightarrow> cm_allocate_pool c = Some allocate_pool \<Longrightarrow>
    allocate_pool (cm_world c) GXOS_CRT_MALLOC_EFI_LOADER_DATA n = (status, q, w) \<Longrightarrow> drop_bit 63 status \<noteq> 0 \<Longrightarrow>
    keeps c c' \<Longrightarrow> same_services c c' \<Longrightarrow> traced c w (cm_world c') \<Longrightarrow> malloc_outcome n c 0 c'"
| rolled_back: "malloc_admits n c \<Longrightarrow> cm_allocate_pool c = Some allocate_pool \<Longrightarrow>
    allocate_pool (cm_world c) GXOS_CRT_MALLOC_EFI_LOADER_DATA n = (status, q, w) \<Longrightarrow> drop_bit 63 status = 0 \<Longrightarrow>
    \<not> block_accepted q n c \<Longrightarrow> cm_free_pool c = Some free_pool \<Longrightarrow>
    keeps c c' \<Longrightarrow> same_services c c' \<Longrightarrow> traced c (snd (free_pool w q)) (cm_world c') \<Longrightarrow> malloc_outcome n c 0 c'"
| granted: "malloc_admits n c \<Longrightarrow> cm_allocate_pool c = Some allocate_pool \<Longrightarrow>
    allocate_pool (cm_world c) GXOS_CRT_MALLOC_EFI_LOADER_DATA n = (status, p, w) \<Longrightarrow> drop_bit 63 status = 0 \<Longrightarrow>
    block_accepted p n c \<Longrightarrow> gxos_crt_malloc_find_free_slot c = Some slot \<Longrightarrow>
    keeps (malloc_commit slot p n c) c' \<Longrightarrow> same_services c c' \<Longrightarrow> traced c w (cm_world c') \<Longrightarrow> malloc_outcome n c p c'"

lemma malloc_commit_frame:
  "keeps c c' \<Longrightarrow> keeps (malloc_commit slot p n c) (malloc_commit slot p n c')"
  "same_services c (malloc_commit slot p n c)" "cm_world (malloc_commit slot p n c) = cm_world c"
  by (simp_all add: malloc_commit_records call_frame)

lemma frame_cong:
  assumes "keeps c c'" and "same_services c c'"
  shows "malloc_admits n c' = malloc_admits n c" "block_accepted p n c' = block_accepted p n c"
    "gxos_crt_malloc_find_free_slot c' = gxos_crt_malloc_find_free_slot c"
  using assms by (simp_all add: call_frame malloc_admits_def block_accepted_def gxos_crt_malloc_find_free_slot_def
      gxos_crt_malloc_context_ranges_valid_def)

lemma malloc_from_pool_outcome:
  assumes "malloc_from_pool allocate_pool n slot diagnostic c = (p, c')"
    and c: "heap_inv c" "malloc_admits n c" "cm_allocate_pool c = Some allocate_pool" "gxos_crt_malloc_find_free_slot c = Some slot"
  shows "malloc_outcome n c p c'"
proof -
  obtain status q w where a: "allocate_pool (cm_world c) GXOS_CRT_MALLOC_EFI_LOADER_DATA n = (status, q, w)"
    by (metis prod_cases3)
  let ?c = "c\<lparr> cm_world := w \<rparr>"
  have f: "keeps c ?c" "same_services c ?c" by (simp_all add: call_frame)
  have "n \<le> 0xC8000" using c(2) by (simp add: malloc_admits_def)
  note check = malloc_check_cases [OF _ keeps_inv [OF f(1), THEN iffD2, OF c(1)] this]
  show ?thesis
  proof (cases "drop_bit 63 status = 0")
    case False
    then obtain d where "malloc_complete 0 GXOS_CRT_MALLOC_FAILURE_POOL_ALLOCATION d ?c = (p, c')"
      using assms(1) by (auto simp: malloc_from_pool_def a Let_def)
    from malloc_complete_frame [OF this] show ?thesis
      using c a False f by (auto intro: malloc_outcome.pool_failed call_trans dest: traced_services)
  next
    case True
    obtain x d1 c1 where m: "malloc_check q n (diagnostic\<lparr> md_allocate_pool_status := status, md_returned_pointer := q,
        md_alignment_mod8 := ucast (q AND 7), md_alignment_mod16 := ucast (q AND 15) \<rparr>) ?c = (x, d1, c1)"
      by (metis prod_cases3)
    have r: "(p, c') = (case x of
        Some failure \<Rightarrow> (case gxos_crt_malloc_rollback q d1 c1 of (diagnostic, context) \<Rightarrow>
                            malloc_complete 0 failure diagnostic context)
      | None \<Rightarrow> malloc_complete q GXOS_CRT_MALLOC_FAILURE_NONE
                  (d1\<lparr> md_live_count_after := cm_live_count (malloc_commit slot q n c1), md_return_value := q \<rparr>)
                  (malloc_commit slot q n c1))"
      using assms(1) True by (simp add: malloc_from_pool_def a Let_def m split: option.splits)
    note k = check [OF m, unfolded frame_cong(2) [OF f]]
    have k1: "keeps c c1" "same_services c c1" using k f call_trans by blast+
    show ?thesis
    proof (cases x)
      case None
      with r obtain d where "malloc_complete q GXOS_CRT_MALLOC_FAILURE_NONE d (malloc_commit slot q n c1) = (p, c')"
        by (auto simp: Let_def)
      note e = malloc_complete_frame [OF this]
      have "keeps (malloc_commit slot q n c) c'" using e malloc_commit_frame(1) [OF k1(1)] call_trans(1) by blast
      moreover have s: "same_services c (malloc_commit slot q n c1)" using k1(2) malloc_commit_frame(2) call_trans(2) by blast
      moreover have "traced c w (cm_world c')" using e traced_services [OF _ s] k by (simp add: malloc_commit_frame)
      ultimately show ?thesis using c a True e k None by (auto intro!: malloc_outcome.granted intro: call_trans)
    next
      case (Some failure)
      obtain d c2 free_pool where b: "gxos_crt_malloc_rollback q d1 c1 = (d, c2)" and fp: "cm_free_pool c = Some free_pool"
        using c(2) by (auto simp: malloc_admits_def) (metis surj_pair)
      have "malloc_complete 0 failure d c2 = (p, c')" using r Some b by simp
      note e = malloc_complete_frame [OF this]
      have fp1: "cm_free_pool c1 = Some free_pool" using fp k1(2) by (simp add: same_services_def)
      note g = rollback_frame [OF b fp1]
      have s: "same_services c c2" using g k1 call_trans by blast
      have "cm_world c2 = snd (free_pool w q)" using g k by simp
      then have "traced c (snd (free_pool w q)) (cm_world c')" using e traced_services [OF _ s] by auto
      moreover have "keeps c c'" "same_services c c'" using e g k1 call_trans by blast+
      ultimately show ?thesis using c a True e k Some fp by (auto intro: malloc_outcome.rolled_back)
    qed
  qed
qed

lemma malloc_outcome_start:
  assumes k: "keeps c c1" "same_services c c1" "cm_world c1 = cm_world c" and "malloc_outcome n c1 p c'"
  shows "malloc_outcome n c p c'"
proof -
  have s: "same_services c c'" if "same_services c1 c'" using that k(2) call_trans by blast
  have t: "traced c w w'" if "traced c1 w w'" for w w' by (rule traced_services [OF that k(2)])
  have e: "cm_allocate_pool c1 = cm_allocate_pool c" "cm_free_pool c1 = cm_free_pool c" using k(2) by (simp_all add: same_services_def)
  from assms(4) show ?thesis
  proof cases
    case refused
    then show ?thesis using s t k frame_cong [OF k(1,2)] by (auto intro: malloc_outcome.refused keeps_trans)
  next
    case (pool_failed allocate_pool status q w)
    then show ?thesis using s t e k frame_cong [OF k(1,2)] by (auto intro!: malloc_outcome.pool_failed intro: keeps_trans)
  next
    case (rolled_back allocate_pool status q w free_pool)
    then show ?thesis using s t e k frame_cong [OF k(1,2)] by (auto intro!: malloc_outcome.rolled_back intro: keeps_trans)
  next
    case (granted allocate_pool status w slot)
    then have "keeps (malloc_commit slot p n c) c'" using malloc_commit_frame(1) [OF k(1)] keeps_trans by blast
    with granted show ?thesis using s t e k frame_cong [OF k(1,2)] by (auto intro!: malloc_outcome.granted)
  qed
qed

lemma malloc_call_outcome:
  assumes "gxos_crt_malloc_call n rt st c = (p, c')" and "heap_inv c"
  shows "malloc_outcome n c p c'"
proof -
  let ?c = "c\<lparr> cm_invocation_count := cm_invocation_count c + 1 \<rparr>"
  have f: "keeps c ?c" "same_services c ?c" by (simp_all add: call_frame)
  obtain x d1 c1 where m: "malloc_admit n (zero_malloc_diagnostic
      \<lparr> md_invocation_number := cm_invocation_count c + 1, md_static_call_site := st, md_runtime_call_site := rt,
        md_requested_size := n, md_registry_slot := None, md_live_count_before := cm_live_count c \<rparr>) ?c = (x, d1, c1)"
    by (metis prod_cases3)
  have r: "(p, c') = (case x of Inl failure \<Rightarrow> malloc_complete 0 failure d1 c1
      | Inr slot \<Rightarrow> malloc_from_pool (the (cm_allocate_pool c1)) n slot d1 c1)"
    using assms(1) by (simp add: gxos_crt_malloc_call_def Let_def m split: sum.splits)
  have i: "heap_inv ?c" using keeps_inv [OF f(1)] assms(2) by simp
  note k = malloc_admit_cases [OF m i, unfolded frame_cong [OF f]]
  have k1: "keeps c c1" "same_services c c1" "cm_world c1 = cm_world c" using k f call_trans by (blast, blast, simp)
  show ?thesis
  proof (cases x)
    case (Inl failure)
    with r have "malloc_complete 0 failure d1 c1 = (p, c')" by simp
    note e = malloc_complete_frame [OF this]
    then show ?thesis using k k1 Inl traced_services [OF _ k1(2)]
      by (auto intro!: malloc_outcome.refused intro: call_trans)
  next
    case (Inr slot)
    with k have "malloc_admits n c1" "gxos_crt_malloc_find_free_slot c1 = Some slot" "heap_inv c1"
      using frame_cong [OF k1(1,2)] keeps_inv [OF k1(1)] assms(2) by auto
    then have "malloc_outcome n c1 p c'"
      using r Inr by (intro malloc_from_pool_outcome [of "the (cm_allocate_pool c1)"]) (auto simp: malloc_admits_def)
    then show ?thesis by (rule malloc_outcome_start [OF k1])
  qed
qed

subsection \<open>The outcomes of \<open>free\<close>\<close>

inductive free_outcome :: "u64 \<Rightarrow> 'w GXOS_CRT_MALLOC_CONTEXT \<Rightarrow> 'w GXOS_CRT_MALLOC_CONTEXT \<Rightarrow> bool" for p c where
  ignored: "gxos_crt_malloc_find_live_record c p = None \<or> cm_free_pool c = None \<or> cm_accounting_generation c = UINT64_MAX \<Longrightarrow>
    keeps c c' \<Longrightarrow> same_services c c' \<Longrightarrow> cm_world c' = cm_world c \<Longrightarrow> free_outcome p c c'"
| pool_refused: "gxos_crt_malloc_find_live_record c p = Some slot \<Longrightarrow> cm_free_pool c = Some free_pool \<Longrightarrow>
    cm_accounting_generation c \<noteq> UINT64_MAX \<Longrightarrow> free_pool (cm_world c) p = (status, w) \<Longrightarrow> status \<noteq> 0 \<Longrightarrow>
    keeps c c' \<Longrightarrow> same_services c c' \<Longrightarrow> cm_world c' = w \<Longrightarrow> free_outcome p c c'"
| released: "gxos_crt_malloc_find_live_record c p = Some slot \<Longrightarrow> cm_free_pool c = Some free_pool \<Longrightarrow>
    cm_accounting_generation c \<noteq> UINT64_MAX \<Longrightarrow> free_pool (cm_world c) p = (0, w) \<Longrightarrow>
    keeps (free_commit slot c) c' \<Longrightarrow> same_services c c' \<Longrightarrow> cm_world c' = w \<Longrightarrow> free_outcome p c c'"

lemma find_live_recordD:
  assumes "gxos_crt_malloc_find_live_record c p = Some slot"
  shows "p \<noteq> 0 \<and> slot < length (cm_records c) \<and> block_live (cm_records c ! slot) \<and> mr_pointer (cm_records c ! slot) = p"
  using assms by (auto simp: gxos_crt_malloc_find_live_record_def dest: find_index_SomeD split: if_splits)

lemma free_refused_frame:
  "keeps c (free_refused failure d c) \<and> same_services c (free_refused failure d c) \<and>
   cm_world (free_refused failure d c) = cm_world c \<and> cm_double_free_count (free_refused failure d c) = cm_double_free_count c"
  by (simp add: free_refused_def gxos_crt_free_record_diagnostic_def call_frame)

lemma free_unknown_frame:
  "keeps c (free_unknown p d c) \<and> same_services c (free_unknown p d c) \<and> cm_world (free_unknown p d c) = cm_world c"
  using free_refused_frame
  by (auto simp: free_unknown_def free_refused_def gxos_crt_free_record_diagnostic_def call_frame Let_def split: option.splits)

lemma free_commit_frame:
  "same_services c (free_commit slot c)" "cm_world (free_commit slot c) = cm_world c"
  by (simp_all add: free_commit_def gxos_crt_free_remember_release_def Let_def same_services_def)

lemma free_commit_keeps: "keeps c c' \<Longrightarrow> cm_successful_free_count c' = cm_successful_free_count c \<Longrightarrow>
    keeps (free_commit slot c) (free_commit slot c')"
  by (simp add: free_commit_def gxos_crt_free_remember_release_def Let_def keeps_def gxos_crt_free_recompute_largest_def)

lemma free_record_diagnostic_frame:
  "keeps c (gxos_crt_free_record_diagnostic d c)" "same_services c (gxos_crt_free_record_diagnostic d c)"
  "cm_world (gxos_crt_free_record_diagnostic d c) = cm_world c"
  by (simp_all add: gxos_crt_free_record_diagnostic_def call_frame)

lemma live_record_counted:
  assumes "heap_inv c" "slot < length (cm_records c)" "block_live (cm_records c ! slot)"
  shows "cm_live_count c \<noteq> 0" "\<not> cm_total_requested_bytes c < mr_requested_size (cm_records c ! slot)"
  using assms live_sum_ge [of slot "cm_records c" block_live "\<lambda>_. 1"] live_sum_ge [of slot "cm_records c" block_live block_bytes]
  by (auto simp: heap_inv_def word_less_nat_alt)

lemma free_call_outcome:
  assumes "heap_inv c"
  shows "free_outcome p c (gxos_crt_free_call p rt st c)"
proof -
  let ?c = "c\<lparr> cm_free_invocation_count := cm_free_invocation_count c + 1 \<rparr>"
  let ?r = "gxos_crt_free_call p rt st c"
  have f: "keeps c ?c" "same_services c ?c" "cm_world ?c = cm_world c" by (simp_all add: call_frame)
  have valid: "gxos_crt_malloc_registry_valid ?c" using heap_inv_valid keeps_inv [OF f(1)] assms by blast
  show ?thesis
  proof (cases "gxos_crt_malloc_find_live_record c p")
    case None
    have "keeps c ?r \<and> same_services c ?r \<and> cm_world ?r = cm_world c"
    proof (cases "p = 0")
      case True
      then show ?thesis by (simp add: gxos_crt_free_call_def Let_def gxos_crt_free_record_diagnostic_def call_frame)
    next
      case False
      then obtain d where "?r = free_unknown p d ?c"
        using None valid by (simp add: gxos_crt_free_call_def Let_def gxos_crt_malloc_find_live_record_def)
      then show ?thesis using free_unknown_frame [of ?c p d] f call_trans by fastforce
    qed
    then show ?thesis using None by (auto intro: ignored)
  next
    case (Some slot)
    note s = find_live_recordD [OF Some]
    have live: "find_index (\<lambda>record. block_live record \<and> mr_pointer record = p) (cm_records c) = Some slot"
      using Some s by (simp add: gxos_crt_malloc_find_live_record_def)
    note cnt = live_record_counted [OF assms, of slot]
    show ?thesis
    proof (cases "cm_free_pool c = None \<or> cm_accounting_generation c = UINT64_MAX")
      case True
      then obtain failure d where "?r = free_refused failure d ?c"
        using s live valid by (cases "cm_free_pool c") (auto simp: gxos_crt_free_call_def Let_def)
      then have "keeps c ?r \<and> same_services c ?r \<and> cm_world ?r = cm_world c"
        using free_refused_frame [of ?c failure d] f call_trans by fastforce
      then show ?thesis using True by (auto intro: ignored)
    next
      case False
      then obtain free_pool status w where fp: "cm_free_pool c = Some free_pool" "free_pool (cm_world c) p = (status, w)"
        and gen: "cm_accounting_generation c \<noteq> UINT64_MAX" by (auto intro: prod.exhaust)
      let ?w = "?c\<lparr> cm_world := w \<rparr>"
      have k: "keeps c ?w" "same_services c ?w" by (simp_all add: call_frame)
      show ?thesis
      proof (cases "status = 0")
        case True
        then obtain d where r: "?r = gxos_crt_free_record_diagnostic d (free_commit slot ?w)"
          using s live valid cnt fp gen by (simp add: gxos_crt_free_call_def Let_def)
        note e = free_record_diagnostic_frame [where c = "free_commit slot ?w" and d = d, folded r]
        have "keeps (free_commit slot c) ?r" using keeps_trans [OF free_commit_keeps [OF k(1)] e(1)] by simp
        moreover have "same_services c ?r"
          using same_services_trans [OF same_services_trans [OF k(2) free_commit_frame(1)] e(2)] .
        moreover have "cm_world ?r = w" using e(3) by (simp add: free_commit_frame)
        ultimately show ?thesis using Some fp gen True by (auto intro: released)
      next
        case nz: False
        then obtain failure d where "?r = free_refused failure d ?w"
          using s live valid cnt fp gen by (simp add: gxos_crt_free_call_def Let_def)
        then have "keeps c ?r \<and> same_services c ?r \<and> cm_world ?r = w"
          using free_refused_frame [of ?w failure d] k call_trans by fastforce
        then show ?thesis using Some fp gen nz by (auto intro: pool_refused)
      qed
    qed
  qed
qed

end
