(* ===== verification/Crt_Malloc_Correct.thy ===== *)
theory Crt_Malloc_Correct
  imports Crt_Malloc_Calls
begin

text \<open>
  What the C heap promises its callers: it implements a finite map from pointers to sizes, its registry is
  valid in every reachable state, its blocks never overlap, and over a pool that keeps its documented
  contract every block the pool has handed out is a block of the heap.
\<close>

subsection \<open>The abstract heap\<close>

definition heap_blocks :: "'w GXOS_CRT_MALLOC_CONTEXT \<Rightarrow> u64 \<rightharpoonup> u64" where
  "heap_blocks c p = map_option (\<lambda>i. mr_requested_size (cm_records c ! i)) (gxos_crt_malloc_find_live_record c p)"

lemma heap_blocks_keeps: "keeps c c' \<Longrightarrow> heap_blocks c' = heap_blocks c"
  by (simp add: fun_eq_iff heap_blocks_def gxos_crt_malloc_find_live_record_def keeps_def)

lemma find_live_record_nth:
  assumes "heap_inv c" "i < length (cm_records c)" "block_live (cm_records c ! i)"
  shows "gxos_crt_malloc_find_live_record c (mr_pointer (cm_records c ! i)) = Some i"
proof -
  have "mr_pointer (cm_records c ! i) \<noteq> 0"
    using heap_inv_nth [OF assms] by (auto simp: block_ok_def malformed_record_def)
  then show ?thesis using assms(2,3) heap_inv_apart [OF assms(1)]
    by (auto simp: gxos_crt_malloc_find_live_record_def intro!: find_index_unique)
qed

lemma heap_blocks_nth:
  "heap_inv c \<Longrightarrow> i < length (cm_records c) \<Longrightarrow> block_live (cm_records c ! i) \<Longrightarrow>
     heap_blocks c (mr_pointer (cm_records c ! i)) = Some (mr_requested_size (cm_records c ! i))"
  by (simp add: heap_blocks_def find_live_record_nth)

lemma heap_blocks_SomeD:
  assumes "heap_blocks c p = Some n"
  obtains i where "gxos_crt_malloc_find_live_record c p = Some i" "i < length (cm_records c)" "block_live (cm_records c ! i)"
    "mr_pointer (cm_records c ! i) = p" "mr_requested_size (cm_records c ! i) = n"
  using assms find_live_recordD by (fastforce simp: heap_blocks_def)

lemma heap_blocks_eqI:
  assumes "heap_inv c"
    and "\<And>i. i < length (cm_records c) \<Longrightarrow> block_live (cm_records c ! i) \<Longrightarrow>
      m (mr_pointer (cm_records c ! i)) = Some (mr_requested_size (cm_records c ! i))"
    and "\<And>p n. m p = Some n \<Longrightarrow> \<exists>i < length (cm_records c). block_live (cm_records c ! i) \<and> mr_pointer (cm_records c ! i) = p"
  shows "heap_blocks c = m"
proof
  fix p
  show "heap_blocks c p = m p"
  proof (cases "heap_blocks c p")
    case (Some n)
    then show ?thesis using assms(2) by (auto elim!: heap_blocks_SomeD)
  next
    case None
    then have "m p = Some n \<Longrightarrow> False" for n using assms(3) [of p n] heap_blocks_nth [OF assms(1)] by fastforce
    then show ?thesis using None by (cases "m p") auto
  qed
qed

lemma block_acceptedD: "block_accepted p n c \<Longrightarrow> malloc_admits n c \<Longrightarrow> placeable p n"
  by (simp add: block_accepted_def malloc_admits_def placeable_def)

lemma free_slotD:
  "gxos_crt_malloc_find_free_slot c = Some slot \<Longrightarrow> slot < length (cm_records c) \<and> \<not> block_live (cm_records c ! slot)"
  by (auto simp: gxos_crt_malloc_find_free_slot_def dest: find_index_SomeD)

lemma commit_block:
  assumes "heap_inv c" "malloc_admits n c" "block_accepted p n c" "gxos_crt_malloc_find_free_slot c = Some slot"
  shows "heap_inv (malloc_commit slot p n c)" and "heap_blocks c p = None"
    and "heap_blocks (malloc_commit slot p n c) = (heap_blocks c)(p \<mapsto> n)"
proof -
  note s = free_slotD [OF assms(4)] and pl = block_acceptedD [OF assms(3,2)]
  have cl: "\<forall>r \<in> set (cm_records c). clear_of p n r" using assms(3) by (simp add: block_accepted_def)
  show inv: "heap_inv (malloc_commit slot p n c)"
    using assms s pl cl by (intro heap_inv_commit) (auto simp: malloc_admits_def)
  show none: "heap_blocks c p = None"
    using cl by (cases "heap_blocks c p") (auto elim!: heap_blocks_SomeD simp: clear_of_def)
  show "heap_blocks (malloc_commit slot p n c) = (heap_blocks c)(p \<mapsto> n)"
  proof (rule heap_blocks_eqI [OF inv])
    fix i assume "i < length (cm_records (malloc_commit slot p n c))" "block_live (cm_records (malloc_commit slot p n c) ! i)"
    then show "((heap_blocks c)(p \<mapsto> n)) (mr_pointer (cm_records (malloc_commit slot p n c) ! i)) =
        Some (mr_requested_size (cm_records (malloc_commit slot p n c) ! i))"
      using s none heap_blocks_nth [OF assms(1), of i] by (auto simp: malloc_commit_records nth_list_update_if)
  next
    fix q m assume "((heap_blocks c)(p \<mapsto> n)) q = Some m"
    then show "\<exists>i < length (cm_records (malloc_commit slot p n c)). block_live (cm_records (malloc_commit slot p n c) ! i) \<and>
        mr_pointer (cm_records (malloc_commit slot p n c) ! i) = q"
      using s by (auto simp: malloc_commit_records nth_list_update_if split: if_splits elim!: heap_blocks_SomeD
          intro: exI [of _ slot])
  qed
qed

lemma release_block:
  assumes "heap_inv c" "gxos_crt_malloc_find_live_record c p = Some slot"
  shows "heap_inv (free_commit slot c)" and "heap_blocks c p \<noteq> None"
    and "heap_blocks (free_commit slot c) = (heap_blocks c)(p := None)"
proof -
  note s = find_live_recordD [OF assms(2)]
  show inv: "heap_inv (free_commit slot c)" using s by (intro heap_inv_release [OF assms(1)]) auto
  show "heap_blocks c p \<noteq> None" using assms(2) by (simp add: heap_blocks_def)
  have r: "cm_records (free_commit slot c) = (cm_records c)[slot := zero_malloc_record]" using free_commit_records [of slot c] by auto
  show "heap_blocks (free_commit slot c) = (heap_blocks c)(p := None)"
  proof (rule heap_blocks_eqI [OF inv], unfold r)
    fix i assume i: "i < length ((cm_records c)[slot := zero_malloc_record])" "block_live ((cm_records c)[slot := zero_malloc_record] ! i)"
    then have "i \<noteq> slot" "block_live (cm_records c ! i)" by (auto simp: nth_list_update_if split: if_splits)
    then show "((heap_blocks c)(p := None)) (mr_pointer ((cm_records c)[slot := zero_malloc_record] ! i)) =
        Some (mr_requested_size ((cm_records c)[slot := zero_malloc_record] ! i))"
      using s i heap_blocks_nth [OF assms(1), of i] heap_inv_apart [OF assms(1), of i slot] by auto
  next
    fix q m assume "((heap_blocks c)(p := None)) q = Some m"
    then show "\<exists>i < length ((cm_records c)[slot := zero_malloc_record]). block_live ((cm_records c)[slot := zero_malloc_record] ! i) \<and>
        mr_pointer ((cm_records c)[slot := zero_malloc_record] ! i) = q"
      using s by (auto simp: nth_list_update_if split: if_splits elim!: heap_blocks_SomeD)
  qed
qed

subsection \<open>Runs of the heap\<close>

text \<open>
  A run starts with the reset; then come calls, and changes by other code that leave the registry alone
  (the loader fills in the services and ranges, and the firmware serves others too).
\<close>

inductive heap_reachable :: "'w GXOS_CRT_MALLOC_CONTEXT \<Rightarrow> bool" where
  reset: "heap_reachable (gxos_crt_malloc_context_reset c)"
| malloc: "heap_reachable c \<Longrightarrow> heap_reachable (snd (gxos_crt_malloc_entry n ra c))"
| release: "heap_reachable c \<Longrightarrow> heap_reachable (gxos_crt_free_entry p ra c)"
| protect: "heap_reachable c \<Longrightarrow> heap_reachable (snd (gxos_crt_malloc_add_protected_range b e k c))"
| outside: "heap_reachable c \<Longrightarrow> keeps c c' \<Longrightarrow> heap_reachable c'"

lemma malloc_entry_outcome:
  assumes "gxos_crt_malloc_entry n ra c = (p, c')" "heap_inv c"
  shows "malloc_outcome n c p c'"
  using assms by (auto simp: gxos_crt_malloc_entry_def split: prod.splits intro: malloc_call_outcome)

lemma free_entry_outcome: "heap_inv c \<Longrightarrow> free_outcome p c (gxos_crt_free_entry p ra c)"
  by (simp add: gxos_crt_free_entry_def free_call_outcome split: prod.split)

lemma malloc_outcome_inv: "malloc_outcome n c p c' \<Longrightarrow> heap_inv c \<Longrightarrow> heap_inv c'"
  by (induction rule: malloc_outcome.induct) (auto simp: keeps_inv commit_block)

lemma free_outcome_inv: "free_outcome p c c' \<Longrightarrow> heap_inv c \<Longrightarrow> heap_inv c'"
  by (induction rule: free_outcome.induct) (auto simp: keeps_inv release_block)

lemma heap_reachable_inv: "heap_reachable c \<Longrightarrow> heap_inv c"
proof (induction rule: heap_reachable.induct)
  case (malloc c n ra)
  then show ?case using malloc_entry_outcome malloc_outcome_inv by (metis prod.collapse)
next
  case (release c p ra)
  then show ?case using free_entry_outcome free_outcome_inv by blast
next
  case (protect c b e k)
  then have "keeps c (snd (gxos_crt_malloc_add_protected_range b e k c))"
    by (simp add: gxos_crt_malloc_add_protected_range_def keeps_def)
  then show ?case using keeps_inv protect by blast
next
  case (outside c c')
  then show ?case using keeps_inv by blast
qed (rule heap_inv_reset)

subsection \<open>The blocks of a reachable heap\<close>

lemma heap_block_shape:
  assumes "heap_inv c" "heap_blocks c p = Some n"
  shows "p \<noteq> 0 \<and> p AND 7 = 0 \<and> n \<noteq> 0 \<and> n \<le> 0xC8000 \<and> unat p + unat n < 2 ^ 64"
proof -
  obtain i where i: "i < length (cm_records c)" "block_live (cm_records c ! i)"
    "mr_pointer (cm_records c ! i) = p" "mr_requested_size (cm_records c ! i) = n"
    using assms(2) by (auto elim: heap_blocks_SomeD)
  note b = heap_inv_nth [OF assms(1) i(1,2)]
  have "unat p + unat n < 2 ^ 64" using block_ok_fits(1) [OF b] i(3,4) unat_lt_2p64 [of "record_end (cm_records c ! i)"] by simp
  then show ?thesis using b i(3,4) by (auto simp: block_ok_def malformed_record_def not_less)
qed

lemma heap_blocks_disjoint:
  assumes "heap_inv c" "heap_blocks c p = Some n" "heap_blocks c q = Some m" "p \<noteq> q"
  shows "bytes_from p n \<inter> bytes_from q m = {}"
proof -
  obtain i j where "i < length (cm_records c)" "block_live (cm_records c ! i)" "mr_pointer (cm_records c ! i) = p"
    "mr_requested_size (cm_records c ! i) = n" "j < length (cm_records c)" "block_live (cm_records c ! j)"
    "mr_pointer (cm_records c ! j) = q" "mr_requested_size (cm_records c ! j) = m"
    using assms(2,3) by (auto elim!: heap_blocks_SomeD)
  then show ?thesis using heap_table.inv_disjoint [OF assms(1), of i j] assms(4) by (auto simp: block_span_def)
qed

definition heap_bytes :: "'w GXOS_CRT_MALLOC_CONTEXT \<Rightarrow> nat set" where
  "heap_bytes c = (\<Union>p \<in> dom (heap_blocks c). bytes_from p (the (heap_blocks c p)))"

lemma heap_blocks_live:
  assumes "heap_inv c"
  shows "dom (heap_blocks c) = mr_pointer ` {r \<in> set (cm_records c). block_live r}"
    and "heap_bytes c = (\<Union>r \<in> {r \<in> set (cm_records c). block_live r}. block_span r)"
    and "ran (heap_blocks c) = mr_requested_size ` {r \<in> set (cm_records c). block_live r}"
proof -
  have nth: "heap_blocks c (mr_pointer r) = Some (mr_requested_size r)" if "r \<in> set (cm_records c)" "block_live r" for r
    using that heap_blocks_nth [OF assms] by (auto simp: in_set_conv_nth)
  have rec: "\<exists>r \<in> set (cm_records c). block_live r \<and> mr_pointer r = p \<and> mr_requested_size r = n" if "heap_blocks c p = Some n" for p n
    using that by (auto elim!: heap_blocks_SomeD intro: bexI [OF _ nth_mem])
  show d: "dom (heap_blocks c) = mr_pointer ` {r \<in> set (cm_records c). block_live r}"
    using nth rec by (force simp: dom_def)
  show "heap_bytes c = (\<Union>r \<in> {r \<in> set (cm_records c). block_live r}. block_span r)"
    using nth by (auto simp: heap_bytes_def d block_span_def)
  show "ran (heap_blocks c) = mr_requested_size ` {r \<in> set (cm_records c). block_live r}"
    using nth rec by (force simp: ran_def)
qed

lemma heap_accounting:
  assumes "heap_inv c"
  shows "unat (cm_live_count c) = card (dom (heap_blocks c))" "unat (cm_total_requested_bytes c) = card (heap_bytes c)"
    and "cm_largest_request c = Max (insert 0 (ran (heap_blocks c)))"
proof -
  have apart: "sorted_wrt (\<lambda>x y. block_live x \<longrightarrow> block_live y \<longrightarrow> mr_pointer x \<noteq> mr_pointer y \<and> block_span x \<inter> block_span y = {}) (cm_records c)"
    using heap_inv_apart [OF assms] heap_table.inv_disjoint [OF assms] by (simp add: sorted_wrt_iff_nth_less)
  have "live_sum block_live (\<lambda>_. 1) (cm_records c) =
      card (\<Union>r \<in> {r \<in> set (cm_records c). block_live r}. {unat (mr_pointer r)})"
    using apart by (intro live_sum_card) (auto simp flip: unat_eq_iff elim!: sorted_wrt_mono_rel [rotated])
  also have "(\<Union>r \<in> {r \<in> set (cm_records c). block_live r}. {unat (mr_pointer r)}) = unat ` dom (heap_blocks c)"
    unfolding heap_blocks_live(1) [OF assms] by auto
  finally show "unat (cm_live_count c) = card (dom (heap_blocks c))"
    using assms by (simp add: heap_inv_def card_image inj_on_def flip: unat_eq_iff)
  have "live_sum block_live block_bytes (cm_records c) = card (\<Union>r \<in> {r \<in> set (cm_records c). block_live r}. block_span r)"
    using apart by (intro live_sum_card) (auto simp: block_span_def elim!: sorted_wrt_mono_rel [rotated])
  then show "unat (cm_total_requested_bytes c) = card (heap_bytes c)"
    using assms by (simp add: heap_inv_def heap_blocks_live)
  have "fold larger rs m = Max (insert m (mr_requested_size ` {r \<in> set rs. block_live r}))" for rs m
  proof (induction rs arbitrary: m)
    case (Cons r rs)
    show ?case
    proof (cases "block_live r")
      case True
      then have "larger r m = max m (mr_requested_size r)" by (auto simp: larger_def max_def)
      moreover have "{q \<in> set (r # rs). block_live q} = insert r {q \<in> set rs. block_live q}" using True by auto
      moreover have "Max (insert (max a b) A) = Max (insert a (insert b A))" if "finite A" for a b and A :: "u64 set"
        using that by (cases "A = {}") (simp_all add: max.assoc)
      ultimately show ?thesis using Cons.IH [of "larger r m"] by simp
    next
      case False
      then have "{q \<in> set (r # rs). block_live q} = {q \<in> set rs. block_live q}" by auto
      then show ?thesis using Cons.IH [of m] False by simp
    qed
  qed simp
  then show "cm_largest_request c = Max (insert 0 (ran (heap_blocks c)))"
    using assms by (simp add: heap_inv_def heap_blocks_live)
qed

subsection \<open>Contracts\<close>

text \<open>The witnesses run a heap over a pool of one block at \<open>0x1000\<close>; the state of the pool says whether it is out.\<close>

definition one_block_pool :: "bool GXOS_CRT_MALLOC_CONTEXT" where
  "one_block_pool = (gxos_crt_malloc_context_reset
     \<lparr> cm_boot_services = 0, cm_boot_services_available = False, cm_allocate_pool = None, cm_free_pool = None,
       cm_preferred_image_base = 0, cm_image_base = 0, cm_protected_ranges = [], cm_live_count = 0,
       cm_total_requested_bytes = 0, cm_largest_request = 0, cm_max_live_allocation_count = 0,
       cm_allocation_failure_count = 0, cm_metadata_exhaustion_count = 0, cm_duplicate_pointer_rejection_count = 0,
       cm_pool_rollback_count = 0, cm_invocation_count = 0, cm_next_allocation_sequence = 0,
       cm_accounting_generation = 0, cm_free_invocation_count = 0, cm_successful_free_count = 0,
       cm_null_free_count = 0, cm_invalid_free_count = 0, cm_double_free_count = 0,
       cm_next_release_record_slot = 0, cm_diagnostic_overflow_count = 0, cm_free_diagnostic_overflow_count = 0,
       cm_records = [], cm_release_records = [], cm_diagnostics = [], cm_free_diagnostics = [], cm_trace = None,
       cm_world = False \<rparr>)
     \<lparr> cm_boot_services := 1, cm_boot_services_available := True,
       cm_allocate_pool := Some (\<lambda>w t n. if w then (0x8000000000000009, 0, w) else (0, 0x1000, True)),
       cm_free_pool := Some (\<lambda>w p. if w \<and> p = 0x1000 then (0, False) else (0x8000000000000002, w)) \<rparr>"

lemma one_block_pool_reachable: "heap_reachable one_block_pool"
  unfolding one_block_pool_def by (rule heap_reachable.outside [OF heap_reachable.reset]) (simp add: keeps_def)

text \<open>
  C20. The registry of the C heap is valid in every reachable state, so the code's own validation never
  fails; every live block is 8-aligned, has between 1 and 0xC8000 bytes and ends within the address
  space, live blocks do not overlap, and the accounting is exact: the live count is the number of blocks (at
  most 64), the total is the number of bytes they own, the largest request is the largest block.
\<close>

theorem crt_heap_always_valid:
  assumes "heap_reachable c"
  shows "gxos_crt_malloc_registry_valid c \<and>
    (\<forall>p n. heap_blocks c p = Some n \<longrightarrow> p \<noteq> 0 \<and> p AND 7 = 0 \<and> n \<noteq> 0 \<and> n \<le> 0xC8000 \<and> unat p + unat n < 2 ^ 64) \<and>
    (\<forall>p n q m. heap_blocks c p = Some n \<longrightarrow> heap_blocks c q = Some m \<longrightarrow> p \<noteq> q \<longrightarrow> bytes_from p n \<inter> bytes_from q m = {}) \<and>
    unat (cm_live_count c) = card (dom (heap_blocks c)) \<and> card (dom (heap_blocks c)) \<le> 64 \<and>
    unat (cm_total_requested_bytes c) = card (heap_bytes c) \<and>
    cm_largest_request c = Max (insert 0 (ran (heap_blocks c)))"
proof -
  have i: "heap_inv c" by (rule heap_reachable_inv [OF assms])
  have "unat (cm_live_count c) \<le> 64"
    using i live_sum_length [of block_live "cm_records c"] by (simp add: heap_inv_def records_ok_def)
  then show ?thesis using heap_inv_valid [OF i] heap_block_shape [OF i] heap_blocks_disjoint [OF i] heap_accounting [OF i]
    by metis
qed

theorem crt_heap_always_valid_witness:
  "gxos_crt_malloc_registry_valid (snd (gxos_crt_malloc_entry 24 0 one_block_pool)) \<and>
   heap_blocks (snd (gxos_crt_malloc_entry 24 0 one_block_pool)) 0x1000 = Some 24"
proof
  show "gxos_crt_malloc_registry_valid (snd (gxos_crt_malloc_entry 24 0 one_block_pool))"
    using crt_heap_always_valid [OF heap_reachable.malloc [OF one_block_pool_reachable]] by blast
  show "heap_blocks (snd (gxos_crt_malloc_entry 24 0 one_block_pool)) 0x1000 = Some 24" by code_simp
qed

text \<open>
  C21. \<open>malloc\<close> and \<open>free\<close> implement a finite map from pointers to sizes. \<open>malloc\<close> returns null and leaves the map
  alone, or it adds the returned pointer, which had no block, with the requested size, and the new block
  overlaps no live block and no protected range. \<open>free\<close> removes exactly the block it was given or leaves the
  map alone, and it removes the block iff there is one, the pool takes it back and the accounting generation
  is not exhausted.
\<close>

theorem crt_heap_refines_map:
  assumes "heap_reachable c"
  shows "(case gxos_crt_malloc_entry n ra c of (p, c') \<Rightarrow>
      if p = 0 then heap_blocks c' = heap_blocks c
      else heap_blocks c p = None \<and> heap_blocks c' = (heap_blocks c)(p \<mapsto> n) \<and>
        bytes_from p n \<inter> heap_bytes c = {} \<and>
        (\<forall>r \<in> set (cm_protected_ranges c). bytes_from p n \<inter> {unat (pr_base r) ..< unat (pr_end r)} = {})) \<and>
    heap_blocks (gxos_crt_free_entry q ra c) =
      (if heap_blocks c q \<noteq> None \<and> cm_accounting_generation c \<noteq> UINT64_MAX \<and>
          (\<exists>free_pool. cm_free_pool c = Some free_pool \<and> fst (free_pool (cm_world c) q) = 0)
       then (heap_blocks c)(q := None) else heap_blocks c)"
proof
  have i: "heap_inv c" by (rule heap_reachable_inv [OF assms])
  obtain p c' where m: "gxos_crt_malloc_entry n ra c = (p, c')" by (cases "gxos_crt_malloc_entry n ra c")
  have "if p = 0 then heap_blocks c' = heap_blocks c
      else heap_blocks c p = None \<and> heap_blocks c' = (heap_blocks c)(p \<mapsto> n) \<and>
        bytes_from p n \<inter> heap_bytes c = {} \<and>
        (\<forall>r \<in> set (cm_protected_ranges c). bytes_from p n \<inter> {unat (pr_base r) ..< unat (pr_end r)} = {})"
    using malloc_entry_outcome [OF m i]
  proof cases
    case (granted allocate_pool status w slot)
    note b = commit_block [OF i granted(1) granted(5) granted(6)]
    have new: "heap_blocks c' = (heap_blocks c)(p \<mapsto> n)" using b(3) heap_blocks_keeps [OF granted(7)] by simp
    have inv: "heap_inv c'" using b(1) keeps_inv [OF granted(7)] by simp
    have fit: "unat p + unat n < 2 ^ 64" "p \<noteq> 0" using granted(5) by (simp_all add: block_accepted_def)
    have "bytes_from p n \<inter> bytes_from q m = {}" if "heap_blocks c q = Some m" for q m
    proof -
      have "p \<noteq> q" using that b(2) by auto
      then show ?thesis using heap_blocks_disjoint [OF inv, of p n q m] that by (simp add: new)
    qed
    then have "bytes_from p n \<inter> heap_bytes c = {}" by (fastforce simp: heap_bytes_def disjoint_iff)
    moreover have "bytes_from p n \<inter> {unat (pr_base r) ..< unat (pr_end r)} = {}" if "r \<in> set (cm_protected_ranges c)" for r
      using granted(5) that fit by (auto simp: block_accepted_def gxos_crt_malloc_ranges_overlap_def bytes_from_def
          word_less_nat_alt unat_word_ariths)
    ultimately show ?thesis using fit(2) b(2) new by auto
  qed (auto simp: heap_blocks_keeps)
  then show "case gxos_crt_malloc_entry n ra c of (p, c') \<Rightarrow>
      if p = 0 then heap_blocks c' = heap_blocks c
      else heap_blocks c p = None \<and> heap_blocks c' = (heap_blocks c)(p \<mapsto> n) \<and>
        bytes_from p n \<inter> heap_bytes c = {} \<and>
        (\<forall>r \<in> set (cm_protected_ranges c). bytes_from p n \<inter> {unat (pr_base r) ..< unat (pr_end r)} = {})"
    by (simp add: m)
  have dom: "heap_blocks c q = None \<longleftrightarrow> gxos_crt_malloc_find_live_record c q = None" by (simp add: heap_blocks_def)
  show "heap_blocks (gxos_crt_free_entry q ra c) =
      (if heap_blocks c q \<noteq> None \<and> cm_accounting_generation c \<noteq> UINT64_MAX \<and>
          (\<exists>free_pool. cm_free_pool c = Some free_pool \<and> fst (free_pool (cm_world c) q) = 0)
       then (heap_blocks c)(q := None) else heap_blocks c)"
    using free_entry_outcome [OF i, of q ra]
  proof cases
    case (released slot free_pool w)
    then show ?thesis using dom release_block [OF i released(1)] heap_blocks_keeps [OF released(5)] by simp
  qed (auto simp: dom heap_blocks_keeps)
qed

theorem crt_heap_refines_map_witness:
  "(case gxos_crt_malloc_entry 24 0 one_block_pool of (p, c') \<Rightarrow>
      p = 0x1000 \<and> heap_blocks c' = (heap_blocks one_block_pool)(p \<mapsto> 24))"
proof -
  have "fst (gxos_crt_malloc_entry 24 0 one_block_pool) = 0x1000" by code_simp
  then show ?thesis
    using conjunct1 [OF crt_heap_refines_map [OF one_block_pool_reachable, of 24 0 0]]
    by (simp add: split_beta)
qed

text \<open>
  C22. \<open>malloc\<close> succeeds exactly when it should: the request is not empty and not over the limit, the services
  and protected ranges are in order, fewer than 64 blocks are live, the counters are not exhausted, and the
  pool answers with an aligned block within the address space that overlaps no protected range and no
  live block; then that block is the result.
\<close>

theorem crt_malloc_succeeds_iff:
  assumes "heap_reachable c" and "cm_allocate_pool c = Some allocate_pool"
    and "allocate_pool (cm_world c) GXOS_CRT_MALLOC_EFI_LOADER_DATA n = (status, q, w)"
  shows "fst (gxos_crt_malloc_entry n ra c) =
    (if 0 < n \<and> n \<le> 0xC8000 \<and> gxos_crt_malloc_context_ranges_valid c \<and>
        cm_boot_services c \<noteq> 0 \<and> cm_boot_services_available c \<and> cm_free_pool c \<noteq> None \<and>
        card (dom (heap_blocks c)) < 64 \<and>
        cm_next_allocation_sequence c \<noteq> UINT64_MAX \<and> cm_accounting_generation c \<noteq> UINT64_MAX \<and>
        drop_bit 63 status = 0 \<and> q \<noteq> 0 \<and> q AND 7 = 0 \<and> unat q + unat n < 2 ^ 64 \<and>
        (\<forall>r \<in> set (cm_protected_ranges c). \<not> gxos_crt_malloc_ranges_overlap q (q + n) (pr_base r) (pr_end r)) \<and>
        bytes_from q n \<inter> heap_bytes c = {}
     then q else 0)"
proof -
  have i: "heap_inv c" by (rule heap_reachable_inv [OF assms(1)])
  have slots: "(\<exists>r \<in> set (cm_records c). \<not> block_live r) \<longleftrightarrow> card (dom (heap_blocks c)) < 64"
    using heap_accounting(1) [OF i] live_sum_full [of block_live "cm_records c"] live_sum_all [of "cm_records c" block_live] live_count_lt [of _ "cm_records c" block_live] i
    by (auto simp: heap_inv_def records_ok_def)
  have adm: "malloc_admits n c \<longleftrightarrow> 0 < n \<and> n \<le> 0xC8000 \<and> gxos_crt_malloc_context_ranges_valid c \<and>
      cm_boot_services c \<noteq> 0 \<and> cm_boot_services_available c \<and> cm_free_pool c \<noteq> None \<and>
      card (dom (heap_blocks c)) < 64 \<and> cm_next_allocation_sequence c \<noteq> UINT64_MAX"
    using assms(2) unfolding malloc_admits_def slots by (auto simp: word_gt_0)
  have clear: "(\<forall>r \<in> set (cm_records c). clear_of q n r) \<longleftrightarrow> bytes_from q n \<inter> heap_bytes c = {}"
    if "malloc_admits n c" "q \<noteq> 0" "q AND 7 = 0" "unat q + unat n < 2 ^ 64"
  proof -
    have q: "block_ok (new_block q n 1)" using that by (intro placeable_ok) (auto simp: placeable_def malloc_admits_def)
    have "clear_of q n r \<longleftrightarrow> bytes_from q n \<inter> block_span r = {}" if "r \<in> set (cm_records c)" "block_live r" for r
    proof -
      have r: "block_ok r" using i that by (auto simp: heap_inv_def records_ok_def)
      have "mr_pointer r \<noteq> q" if "bytes_from q n \<inter> block_span r = {}"
        using that block_ok_fits(2) [OF q] block_ok_fits(2) [OF r] by (auto simp: block_span_def bytes_from_def)
      then show ?thesis using block_spans_apart [OF q r] that(2) by (auto simp: clear_of_def)
    qed
    then show ?thesis unfolding heap_blocks_live(2) [OF i] by (auto simp: clear_of_def)
  qed
  have acc: "malloc_admits n c \<Longrightarrow> block_accepted q n c \<longleftrightarrow> q \<noteq> 0 \<and> q AND 7 = 0 \<and> unat q + unat n < 2 ^ 64 \<and>
     (\<forall>r \<in> set (cm_protected_ranges c). \<not> gxos_crt_malloc_ranges_overlap q (q + n) (pr_base r) (pr_end r)) \<and>
     bytes_from q n \<inter> heap_bytes c = {} \<and> cm_accounting_generation c \<noteq> UINT64_MAX"
    using clear by (auto simp: block_accepted_def)
  obtain p c' where m: "gxos_crt_malloc_entry n ra c = (p, c')" by (cases "gxos_crt_malloc_entry n ra c")
  have "p = (if malloc_admits n c \<and> drop_bit 63 status = 0 \<and> block_accepted q n c then q else 0)"
    using malloc_entry_outcome [OF m i] assms(2,3) by cases auto
  then show ?thesis using adm acc by (auto simp: m)
qed

theorem crt_malloc_succeeds_iff_witness:
  "fst (gxos_crt_malloc_entry 24 0 one_block_pool) = 0x1000 \<and>
   cm_allocate_pool one_block_pool = Some (\<lambda>w t n. if w then (0x8000000000000009, 0, w) else (0, 0x1000, True))"
proof -
  have a: "cm_allocate_pool one_block_pool = Some (\<lambda>w t n. if w then (0x8000000000000009, 0, w) else (0, 0x1000, True))"
    "cm_world one_block_pool = False"
    by (simp_all add: one_block_pool_def gxos_crt_malloc_context_reset_def)
  have b: "heap_blocks one_block_pool = Map.empty"
    by (auto simp: fun_eq_iff heap_blocks_def gxos_crt_malloc_find_live_record_def find_index_None_iff
        one_block_pool_def gxos_crt_malloc_context_reset_def)
  then have c: "heap_bytes one_block_pool = {}" by (simp add: heap_bytes_def)
  show ?thesis
    using crt_malloc_succeeds_iff [where n = 24 and status = 0 and q = "0x1000" and w = True and ra = 0,
        OF one_block_pool_reachable a(1)] a b c
    by (simp add: one_block_pool_def gxos_crt_malloc_context_reset_def gxos_crt_malloc_context_ranges_valid_def)
qed

subsection \<open>Ownership\<close>

text \<open>
  The documented contract of the firmware's pool: an allocation that succeeds hands out a block that was not
  out, one that fails changes nothing, and a block that is out can be given back. \<open>pool\<close> reads the set of
  blocks that are out from the state of the firmware.
\<close>

definition honest_pool ::
    "('w \<Rightarrow> u64 set) \<Rightarrow> ('w \<Rightarrow> u32 \<Rightarrow> u64 \<Rightarrow> u64 \<times> u64 \<times> 'w) \<Rightarrow> ('w \<Rightarrow> u64 \<Rightarrow> u64 \<times> 'w) \<Rightarrow> bool" where
  "honest_pool pool allocate_pool free_pool \<longleftrightarrow>
     (\<forall>w t n s q w'. allocate_pool w t n = (s, q, w') \<longrightarrow>
        (if drop_bit 63 s = 0 then q \<notin> pool w \<and> pool w' = insert q (pool w) else pool w' = pool w)) \<and>
     (\<forall>w q. q \<in> pool w \<longrightarrow> fst (free_pool w q) = 0 \<and> pool (snd (free_pool w q)) = pool w - {q})"

definition honest_trace :: "('w \<Rightarrow> u64 set) \<Rightarrow> ('w \<Rightarrow> GXOS_CRT_MALLOC_DIAGNOSTIC \<Rightarrow> 'w) option \<Rightarrow> bool" where
  "honest_trace pool trace \<longleftrightarrow> (\<forall>f. trace = Some f \<longrightarrow> (\<forall>w d. pool (f w d) = pool w))"

datatype heap_call = Malloc u64 u64 | Free u64 u64

primrec run_call :: "heap_call \<Rightarrow> 'w GXOS_CRT_MALLOC_CONTEXT \<Rightarrow> 'w GXOS_CRT_MALLOC_CONTEXT" where
  "run_call (Malloc n ra) c = snd (gxos_crt_malloc_entry n ra c)"
| "run_call (Free p ra) c = gxos_crt_free_entry p ra c"

definition owns :: "('w \<Rightarrow> u64 set) \<Rightarrow> u64 set \<Rightarrow> 'w GXOS_CRT_MALLOC_CONTEXT \<Rightarrow> bool" where
  "owns pool others c \<longleftrightarrow> pool (cm_world c) = dom (heap_blocks c) \<union> others \<and> dom (heap_blocks c) \<inter> others = {}"

lemma traced_pool: "traced c w w' \<Longrightarrow> honest_trace pool (cm_trace c) \<Longrightarrow> pool w' = pool w"
  by (auto simp: traced_def honest_trace_def split: option.splits)

lemma honest_allocate:
  "honest_pool pool allocate_pool free_pool \<Longrightarrow> allocate_pool w t n = (s, q, w') \<Longrightarrow>
     (if drop_bit 63 s = 0 then q \<notin> pool w \<and> pool w' = insert q (pool w) else pool w' = pool w)"
  by (simp only: honest_pool_def) blast

lemma honest_free:
  "honest_pool pool allocate_pool free_pool \<Longrightarrow> q \<in> pool w \<Longrightarrow> fst (free_pool w q) = 0 \<and> pool (snd (free_pool w q)) = pool w - {q}"
  by (simp only: honest_pool_def)

lemma malloc_outcome_owns:
  assumes "malloc_outcome n c p c'" "heap_inv c" "owns pool others c"
    and "cm_allocate_pool c = Some allocate_pool" "cm_free_pool c = Some free_pool"
    and h: "honest_pool pool allocate_pool free_pool" "honest_trace pool (cm_trace c)"
  shows "owns pool others c'"
  using assms(1)
proof cases
  case refused
  then show ?thesis using assms(3) traced_pool [OF refused(5) h(2)] heap_blocks_keeps [OF refused(3)] by (simp add: owns_def)
next
  case (pool_failed al status q w)
  then show ?thesis using assms(3,4) traced_pool [OF pool_failed(8) h(2)] heap_blocks_keeps [OF pool_failed(6)]
      honest_allocate [OF h(1), of "cm_world c"] by (auto simp: owns_def)
next
  case (rolled_back al status q w fr)
  then have q: "q \<notin> pool (cm_world c)" "pool w = insert q (pool (cm_world c))"
    using assms(4) honest_allocate [OF h(1), of "cm_world c"] by fastforce+
  then have "pool (snd (free_pool w q)) = pool (cm_world c)" using honest_free [OF h(1), of q w] by auto
  then show ?thesis using assms(3,5) rolled_back(7) traced_pool [OF rolled_back(10) h(2)] heap_blocks_keeps [OF rolled_back(8)]
    by (simp add: owns_def)
next
  case (granted al status w slot)
  then have q: "p \<notin> pool (cm_world c)" "pool w = insert p (pool (cm_world c))"
    using assms(4) honest_allocate [OF h(1), of "cm_world c"] by fastforce+
  then show ?thesis
    using assms(3) traced_pool [OF granted(9) h(2)] heap_blocks_keeps [OF granted(7)] commit_block(3) [OF assms(2) granted(1,5,6)]
    by (auto simp: owns_def)
qed

lemma free_outcome_owns:
  assumes "free_outcome p c c'" "heap_inv c" "owns pool others c"
    and "cm_free_pool c = Some free_pool" and h: "honest_pool pool allocate_pool free_pool"
  shows "owns pool others c'"
  using assms(1)
proof cases
  case ignored
  then show ?thesis using assms(3) heap_blocks_keeps [OF ignored(2)] by (simp add: owns_def)
next
  case (pool_refused slot fr status w)
  then have "p \<in> pool (cm_world c)" using assms(3) by (auto simp: owns_def heap_blocks_def)
  then show ?thesis using honest_free [OF h, of p "cm_world c"] pool_refused assms(4) by auto
next
  case (released slot fr w)
  then have "p \<in> pool (cm_world c)" "heap_blocks c p \<noteq> None" using assms(3) by (auto simp: owns_def heap_blocks_def)
  then show ?thesis
    using honest_free [OF h, of p "cm_world c"] released assms(3,4) release_block(3) [OF assms(2) released(1)] heap_blocks_keeps [OF released(5)]
    by (auto simp: owns_def)
qed

lemma outcome_services:
  "malloc_outcome n c p c' \<Longrightarrow> same_services c c'" "free_outcome p c c' \<Longrightarrow> same_services c c'"
  by (auto elim: malloc_outcome.cases free_outcome.cases)

lemma run_call_owns:
  assumes "heap_inv c" "owns pool others c" "cm_allocate_pool c = Some allocate_pool" "cm_free_pool c = Some free_pool"
    and h: "honest_pool pool allocate_pool free_pool" "honest_trace pool (cm_trace c)"
  shows "heap_inv (run_call k c) \<and> owns pool others (run_call k c) \<and> same_services c (run_call k c)"
proof (cases k)
  case (Malloc n ra)
  have "malloc_outcome n c (fst (gxos_crt_malloc_entry n ra c)) (run_call k c)"
    using malloc_entry_outcome [OF _ assms(1)] by (simp add: Malloc)
  then show ?thesis using malloc_outcome_inv malloc_outcome_owns assms outcome_services(1) by blast
next
  case (Free p ra)
  have "free_outcome p c (run_call k c)" using free_entry_outcome [OF assms(1)] by (simp add: Free)
  then show ?thesis using free_outcome_inv free_outcome_owns assms outcome_services(2) by blast
qed

text \<open>
  Over a pool that keeps its contract the heap neither leaks nor steals: if the blocks that are out are
  the blocks of the heap and those of other owners, then so it is after any sequence of calls to \<open>malloc\<close> and
  \<open>free\<close>, with any arguments, null, interior, unknown and repeated pointers included. The blocks of other owners are
  never given back, and a block the heap had to refuse is.
\<close>

theorem crt_heap_owns_pool_blocks:
  assumes "heap_reachable c" and "cm_allocate_pool c = Some allocate_pool" and "cm_free_pool c = Some free_pool"
    and "honest_pool pool allocate_pool free_pool" and "honest_trace pool (cm_trace c)"
    and "pool (cm_world c) = dom (heap_blocks c) \<union> others" and "dom (heap_blocks c) \<inter> others = {}"
  shows "pool (cm_world (fold run_call calls c)) = dom (heap_blocks (fold run_call calls c)) \<union> others \<and>
    dom (heap_blocks (fold run_call calls c)) \<inter> others = {}"
proof -
  have "heap_inv c" "owns pool others c" using heap_reachable_inv assms(1,6,7) by (auto simp: owns_def)
  with assms(2-5) have "owns pool others (fold run_call calls c)"
  proof (induction calls arbitrary: c)
    case (Cons k calls)
    note s = run_call_owns [OF Cons.prems(5,6,1,2,3,4), of k]
    show ?case using s Cons.prems by (simp, intro Cons.IH) (auto simp: same_services_def)
  qed simp
  then show ?thesis by (simp add: owns_def)
qed

theorem crt_heap_owns_pool_blocks_witness:
  "(let c = fold run_call [Malloc 24 0, Free 0x1008 0, Malloc 8 0] one_block_pool
    in cm_world c \<and> dom (heap_blocks c) = {0x1000})"
proof -
  let ?pool = "\<lambda>w. if w then {0x1000 :: u64} else {}"
  have a: "cm_allocate_pool one_block_pool = Some (\<lambda>w t n. if w then (0x8000000000000009, 0, w) else (0, 0x1000, True))"
    "cm_free_pool one_block_pool = Some (\<lambda>w p. if w \<and> p = 0x1000 then (0, False) else (0x8000000000000002, w))"
    "cm_world one_block_pool = False" "cm_trace one_block_pool = None"
    by (simp_all add: one_block_pool_def gxos_crt_malloc_context_reset_def)
  have b: "heap_blocks one_block_pool = Map.empty"
    by (auto simp: fun_eq_iff heap_blocks_def gxos_crt_malloc_find_live_record_def find_index_None_iff
        one_block_pool_def gxos_crt_malloc_context_reset_def)
  have h: "honest_pool ?pool (\<lambda>w t n. if w then (0x8000000000000009, 0, w) else (0, 0x1000, True))
      (\<lambda>w p. if w \<and> p = 0x1000 then (0, False) else (0x8000000000000002, w))"
    by (auto simp: honest_pool_def)
  have w: "cm_world (fold run_call [Malloc 24 0, Free 0x1008 0, Malloc 8 0] one_block_pool) = True" by code_simp
  show ?thesis
    using crt_heap_owns_pool_blocks [OF one_block_pool_reachable a(1,2) h, of "{}" "[Malloc 24 0, Free 0x1008 0, Malloc 8 0]"] a b w
    by (simp add: honest_trace_def Let_def)
qed

subsection \<open>Releasing twice\<close>

lemma free_unknown_double:
  assumes "gxos_crt_malloc_find_live_containing_record c p = None" "gxos_crt_malloc_find_release_record c p = Some r"
  shows "cm_double_free_count (free_unknown p d c) = cm_double_free_count c + 1"
  using assms by (simp add: free_unknown_def free_refused_def gxos_crt_free_record_diagnostic_def Let_def)

lemma free_call_double:
  assumes "heap_inv c" "p \<noteq> 0" "gxos_crt_malloc_find_live_record c p = None"
    and "gxos_crt_malloc_find_live_containing_record c p = None" "gxos_crt_malloc_find_release_record c p \<noteq> None"
  shows "cm_double_free_count (gxos_crt_free_entry p ra c) = cm_double_free_count c + 1"
proof -
  let ?c = "c\<lparr> cm_free_invocation_count := cm_free_invocation_count c + 1 \<rparr>"
  obtain rt st where cs: "gxos_crt_malloc_set_call_sites c ra = (rt, st)" by fastforce
  have "gxos_crt_malloc_registry_valid ?c" using heap_inv_valid keeps_inv [of c ?c] assms(1) by (simp add: keeps_def)
  then obtain d where r: "gxos_crt_free_entry p ra c = free_unknown p d ?c"
    using assms(2,3) by (simp add: gxos_crt_free_entry_def cs gxos_crt_free_call_def Let_def gxos_crt_malloc_find_live_record_def)
  have "gxos_crt_malloc_find_live_containing_record ?c p = gxos_crt_malloc_find_live_containing_record c p"
    "gxos_crt_malloc_find_release_record ?c p = gxos_crt_malloc_find_release_record c p"
    by (simp_all add: gxos_crt_malloc_find_live_containing_record_def gxos_crt_malloc_find_release_record_def)
  then show ?thesis using assms(4,5) by (auto simp: r free_unknown_double)
qed

lemma not_interior:
  assumes "heap_inv c" "unat p \<notin> heap_bytes c"
  shows "gxos_crt_malloc_find_live_containing_record c p = None"
proof -
  have "\<not> (p > mr_pointer r \<and> p < record_end r)" if "r \<in> set (cm_records c)" "block_live r" for r
  proof -
    have "block_ok r" using that assms(1) by (auto simp: heap_inv_def records_ok_def)
    moreover have "unat p \<notin> block_span r" using assms(2) that by (auto simp: heap_blocks_live(2) [OF assms(1)])
    ultimately show ?thesis using block_ok_fits(1) [of r] by (auto simp: block_span_def bytes_from_def word_less_nat_alt)
  qed
  then show ?thesis by (auto simp: gxos_crt_malloc_find_live_containing_record_def find_index_None_iff)
qed

text \<open>
  C23. Releasing a block and releasing it again: the first call gives the block back to the pool and
  removes it, the second call is recognised as a double free, is counted, and touches neither the pool nor
  the registry.
\<close>

theorem crt_double_free_detected:
  assumes "heap_reachable c" and "heap_blocks c p = Some n" and "cm_free_pool c = Some free_pool"
    and "cm_accounting_generation c \<noteq> UINT64_MAX" and "free_pool (cm_world c) p = (0, w)"
  shows "let c1 = gxos_crt_free_entry p ra c; c2 = gxos_crt_free_entry p ra' c1 in
    cm_world c1 = w \<and> heap_blocks c1 = (heap_blocks c)(p := None) \<and>
    keeps c1 c2 \<and> cm_world c2 = w \<and> cm_double_free_count c2 = cm_double_free_count c1 + 1"
proof -
  define c1 where "c1 = gxos_crt_free_entry p ra c"
  define c2 where "c2 = gxos_crt_free_entry p ra' c1"
  have i: "heap_inv c" by (rule heap_reachable_inv [OF assms(1)])
  obtain slot where s: "gxos_crt_malloc_find_live_record c p = Some slot" "slot < length (cm_records c)" "mr_pointer (cm_records c ! slot) = p"
    using assms(2) by (auto elim: heap_blocks_SomeD)
  have f: "keeps (free_commit slot c) c1" "cm_world c1 = w"
    using free_entry_outcome [OF i, of p ra] assms(3-5) s by (cases; simp add: c1_def)+
  have i1: "heap_inv c1" using release_block(1) [OF i s(1)] keeps_inv [OF f(1)] by simp
  have b: "heap_blocks c1 = (heap_blocks c)(p := None)" using release_block(3) [OF i s(1)] heap_blocks_keeps [OF f(1)] by simp
  then have n1: "gxos_crt_malloc_find_live_record c1 p = None" by (metis fun_upd_same heap_blocks_def map_option_is_None)
  have p: "p \<noteq> 0" "n \<noteq> 0" using heap_block_shape [OF i assms(2)] by auto
  have "unat p \<in> bytes_from p n" using p(2) by (simp add: bytes_from_def word_neq_0_conv word_less_nat_alt)
  then have "unat p \<notin> heap_bytes c1"
    using heap_blocks_disjoint [OF i assms(2)] by (fastforce simp: heap_bytes_def b disjoint_iff split: if_splits)
  then have n2: "gxos_crt_malloc_find_live_containing_record c1 p = None" by (rule not_interior [OF i1])
  have "\<exists>rr \<in> set (cm_release_records c1). rr_state rr = GXOS_CRT_MALLOC_RECORD_FREED \<and> rr_pointer rr = p"
    using free_commit_records [of slot c] i s f(1) by (auto simp: heap_inv_def keeps_def)
  then have n3: "gxos_crt_malloc_find_release_record c1 p \<noteq> None"
    using p(1) by (auto simp: gxos_crt_malloc_find_release_record_def find_index_None_iff simp del: not_None_eq)
  have "keeps c1 c2 \<and> cm_world c2 = cm_world c1"
    using free_entry_outcome [OF i1, of p ra'] n1 by (cases; simp add: c2_def)
  then show ?thesis using b f(2) free_call_double [OF i1 p(1) n1 n2 n3, of ra'] by (simp add: c2_def flip: c1_def)
qed

theorem crt_double_free_detected_witness:
  "(let c = snd (gxos_crt_malloc_entry 24 0 one_block_pool); c1 = gxos_crt_free_entry 0x1000 0 c;
        c2 = gxos_crt_free_entry 0x1000 0 c1
    in cm_world c \<and> \<not> cm_world c1 \<and> \<not> cm_world c2 \<and> cm_double_free_count c2 = cm_double_free_count c1 + 1)"
proof -
  let ?c = "snd (gxos_crt_malloc_entry 24 0 one_block_pool)"
  have r: "heap_reachable ?c" by (rule heap_reachable.malloc [OF one_block_pool_reachable])
  have "same_services one_block_pool ?c"
    by (rule outcome_services(1) [OF malloc_entry_outcome [OF prod.collapse [symmetric] heap_reachable_inv [OF one_block_pool_reachable]]])
  then have f: "cm_free_pool ?c = Some (\<lambda>w p. if w \<and> p = 0x1000 then (0, False) else (0x8000000000000002, w))"
    by (simp add: same_services_def) (simp add: one_block_pool_def gxos_crt_malloc_context_reset_def)
  have "heap_blocks ?c 0x1000 = Some 24" "cm_accounting_generation ?c = 2" "cm_world ?c" by code_simp+
  then show ?thesis using crt_double_free_detected [OF r _ f, of "0x1000" 24 False 0 0] by (simp add: Let_def)
qed

end
