(* ===== verification/Crt_Onexit.thy ===== *)
theory Crt_Onexit
  imports Prelude
begin

text \<open>
  The on-exit tables of the C run-time library, \<open>src/src/Gate4Harness/crt_onexit.c\<close>: pointer encoding with a
  security cookie, initialisation of a table, and registration of a callback.

  The file's static variables are the record \<open>onexit_state\<close>. \<open>og_memory\<close> holds the 64-bit values that the code reads
  and writes through pointers, by address; every object it touches this way (table fields, slots,
  the cookie) is 8-aligned by its C type. A table is named by its address; its fields \<open>first\<close>, \<open>last\<close>, \<open>end\<close> are at
  offsets 0, 8 and 16, so that a slot may coincide with a field or with the cookie. \<open>og_encoded_null_address\<close> is 0
  when no cookie address is set. \<open>oc_regions\<close> and \<open>oc_initialized_tables\<close> are the arrays of 32 and 4 entries, with
  their counts beside them. \<open>allocate\<close> and \<open>free\<close> act on \<open>og_world\<close>. The optional report is only written by the
  code; the model is the call without one.
\<close>

subsection \<open>Data\<close>

datatype GXOS_CRT_ONEXIT_STATUS =
    GXOS_CRT_ONEXIT_STATUS_OK
  | GXOS_CRT_ONEXIT_STATUS_INVALID_CONTEXT
  | GXOS_CRT_ONEXIT_STATUS_NULL_TABLE
  | GXOS_CRT_ONEXIT_STATUS_NONCANONICAL_TABLE
  | GXOS_CRT_ONEXIT_STATUS_UNREADABLE_TABLE
  | GXOS_CRT_ONEXIT_STATUS_UNWRITABLE_TABLE
  | GXOS_CRT_ONEXIT_STATUS_TABLE_NOT_INITIALIZED
  | GXOS_CRT_ONEXIT_STATUS_NONCANONICAL_CALLBACK
  | GXOS_CRT_ONEXIT_STATUS_NONEXECUTABLE_CALLBACK
  | GXOS_CRT_ONEXIT_STATUS_NONCANONICAL_STORAGE
  | GXOS_CRT_ONEXIT_STATUS_UNALIGNED_STORAGE
  | GXOS_CRT_ONEXIT_STATUS_STORAGE_RANGE_INVALID
  | GXOS_CRT_ONEXIT_STATUS_INVALID_TABLE_STATE
  | GXOS_CRT_ONEXIT_STATUS_STORAGE_FULL
  | GXOS_CRT_ONEXIT_STATUS_GROWTH_REQUIRED
  | GXOS_CRT_ONEXIT_STATUS_ALLOCATION_FAILED
  | GXOS_CRT_ONEXIT_STATUS_CAPACITY_OVERFLOW
  | GXOS_CRT_ONEXIT_STATUS_POINTER_OVERFLOW
  | GXOS_CRT_ONEXIT_STATUS_ENCODING_UNAVAILABLE

record GXOS_CRT_ONEXIT_MEMORY_REGION =
  or_base :: u64
  or_end :: u64
  or_readable :: bool
  or_executable :: bool
  or_writable :: bool

record 'w GXOS_CRT_ONEXIT_CONTEXT =
  oc_image_base :: u64
  oc_image_end :: u64
  oc_encoded_null :: u64
  oc_relocations_applied :: bool
  oc_region_count :: nat
  oc_initialized_table_count :: nat
  oc_initialized_tables :: "u64 list"
  oc_regions :: "GXOS_CRT_ONEXIT_MEMORY_REGION list"
  oc_allocate :: "('w \<Rightarrow> u64 \<Rightarrow> u64 \<times> 'w) option"
  oc_free :: "('w \<Rightarrow> u64 \<Rightarrow> u64 \<Rightarrow> 'w) option"

record 'w onexit_state =
  og_encoded_null :: u64
  og_encoded_null_address :: u64
  og_context :: "'w GXOS_CRT_ONEXIT_CONTEXT"
  og_context_valid :: bool
  og_memory :: "u64 \<Rightarrow> u64"
  og_world :: 'w

definition onexit_write :: "u64 \<Rightarrow> u64 \<Rightarrow> 'w onexit_state \<Rightarrow> 'w onexit_state" where
  "onexit_write address value state = state\<lparr> og_memory := (og_memory state)(address := value) \<rparr>"

subsection \<open>Ranges\<close>

definition gxos_crt_onexit_is_canonical :: "u64 \<Rightarrow> bool" where
  "gxos_crt_onexit_is_canonical address \<longleftrightarrow> address \<le> 0x00007FFFFFFFFFFF \<or> address \<ge> 0xFFFF800000000000"

definition gxos_crt_onexit_is_range :: "u64 \<Rightarrow> u64 \<Rightarrow> bool" where
  "gxos_crt_onexit_is_range base end \<longleftrightarrow> base \<noteq> 0 \<and> end > base \<and>
     gxos_crt_onexit_is_canonical base \<and> gxos_crt_onexit_is_canonical end"

definition gxos_crt_onexit_range_contains :: "GXOS_CRT_ONEXIT_MEMORY_REGION \<Rightarrow> u64 \<Rightarrow> u64 \<Rightarrow> bool" where
  "gxos_crt_onexit_range_contains region base end \<longleftrightarrow> or_base region \<noteq> 0 \<and> or_end region > or_base region \<and>
     base \<ge> or_base region \<and> end \<ge> base \<and> end \<le> or_end region"

definition gxos_crt_onexit_ranges_overlap :: "u64 \<Rightarrow> u64 \<Rightarrow> u64 \<Rightarrow> u64 \<Rightarrow> bool" where
  "gxos_crt_onexit_ranges_overlap base end other_base other_end \<longleftrightarrow> base < other_end \<and> other_base < end"

abbreviation context_regions :: "'w onexit_state \<Rightarrow> GXOS_CRT_ONEXIT_MEMORY_REGION list" where
  "context_regions state \<equiv> take (oc_region_count (og_context state)) (oc_regions (og_context state))"

definition gxos_crt_onexit_find_range ::
    "'w onexit_state \<Rightarrow> u64 \<Rightarrow> u64 \<Rightarrow> bool \<Rightarrow> bool \<Rightarrow> GXOS_CRT_ONEXIT_MEMORY_REGION option" where
  "gxos_crt_onexit_find_range state base end require_readable require_writable =
     find (\<lambda>region. (\<not> require_readable \<or> or_readable region) \<and> (\<not> require_writable \<or> or_writable region) \<and>
                    gxos_crt_onexit_range_contains region base end) (context_regions state)"

definition gxos_crt_onexit_find_address ::
    "'w onexit_state \<Rightarrow> u64 \<Rightarrow> bool \<Rightarrow> GXOS_CRT_ONEXIT_MEMORY_REGION option" where
  "gxos_crt_onexit_find_address state address require_executable =
     (if address = 0 then None
      else find (\<lambda>region. address \<ge> or_base region \<and> address < or_end region \<and> or_readable region \<and>
                          (\<not> require_executable \<or> or_executable region)) (context_regions state))"

subsection \<open>Pointer encoding\<close>

definition gxos_crt_onexit_rotate_right :: "u64 \<Rightarrow> nat \<Rightarrow> u64" where
  "gxos_crt_onexit_rotate_right value shift =
     (if shift = 0 then value else drop_bit shift value OR push_bit (64 - shift) value)"

definition gxos_crt_onexit_set_encoded_null :: "u64 \<Rightarrow> 'w onexit_state \<Rightarrow> 'w onexit_state" where
  "gxos_crt_onexit_set_encoded_null encoded_null state =
     state\<lparr> og_encoded_null_address := 0, og_encoded_null := encoded_null \<rparr>"

definition gxos_crt_onexit_set_encoded_null_address :: "u64 \<Rightarrow> 'w onexit_state \<Rightarrow> 'w onexit_state" where
  "gxos_crt_onexit_set_encoded_null_address encoded_null_address state =
     state\<lparr> og_encoded_null_address := encoded_null_address \<rparr>"

definition gxos_crt_onexit_get_encoded_null :: "'w onexit_state \<Rightarrow> u64" where
  "gxos_crt_onexit_get_encoded_null state =
     (if og_encoded_null_address state \<noteq> 0 then og_memory state (og_encoded_null_address state) else og_encoded_null state)"

definition gxos_crt_onexit_encode_pointer :: "'w onexit_state \<Rightarrow> u64 \<Rightarrow> u64" where
  "gxos_crt_onexit_encode_pointer state pointer =
     (let cookie = gxos_crt_onexit_get_encoded_null state; shift = unat (cookie mod 64) in
      if cookie = 0 then 0
      else gxos_crt_onexit_rotate_right pointer ((64 - shift) mod 64) XOR cookie)"

definition gxos_crt_onexit_decode_pointer :: "'w onexit_state \<Rightarrow> u64 \<Rightarrow> u64" where
  "gxos_crt_onexit_decode_pointer state pointer =
     (let cookie = gxos_crt_onexit_get_encoded_null state; shift = unat (cookie mod 64) in
      if cookie = 0 then 0 else gxos_crt_onexit_rotate_right (pointer XOR cookie) shift)"

definition gxos_crt_onexit_encoded_pointer_matches :: "'w onexit_state \<Rightarrow> u64 \<Rightarrow> u64 \<Rightarrow> bool" where
  "gxos_crt_onexit_encoded_pointer_matches state encoded decoded \<longleftrightarrow>
     encoded \<noteq> 0 \<and> gxos_crt_onexit_decode_pointer state encoded = decoded"

fun gxos_crt_onexit_status_name :: "GXOS_CRT_ONEXIT_STATUS \<Rightarrow> string" where
  "gxos_crt_onexit_status_name GXOS_CRT_ONEXIT_STATUS_OK = ''OK''"
| "gxos_crt_onexit_status_name GXOS_CRT_ONEXIT_STATUS_INVALID_CONTEXT = ''INVALID_CONTEXT''"
| "gxos_crt_onexit_status_name GXOS_CRT_ONEXIT_STATUS_NULL_TABLE = ''NULL_TABLE''"
| "gxos_crt_onexit_status_name GXOS_CRT_ONEXIT_STATUS_NONCANONICAL_TABLE = ''NONCANONICAL_TABLE''"
| "gxos_crt_onexit_status_name GXOS_CRT_ONEXIT_STATUS_UNREADABLE_TABLE = ''UNREADABLE_TABLE''"
| "gxos_crt_onexit_status_name GXOS_CRT_ONEXIT_STATUS_UNWRITABLE_TABLE = ''UNWRITABLE_TABLE''"
| "gxos_crt_onexit_status_name GXOS_CRT_ONEXIT_STATUS_TABLE_NOT_INITIALIZED = ''TABLE_NOT_INITIALIZED''"
| "gxos_crt_onexit_status_name GXOS_CRT_ONEXIT_STATUS_NONCANONICAL_CALLBACK = ''NONCANONICAL_CALLBACK''"
| "gxos_crt_onexit_status_name GXOS_CRT_ONEXIT_STATUS_NONEXECUTABLE_CALLBACK = ''NONEXECUTABLE_CALLBACK''"
| "gxos_crt_onexit_status_name GXOS_CRT_ONEXIT_STATUS_NONCANONICAL_STORAGE = ''NONCANONICAL_STORAGE''"
| "gxos_crt_onexit_status_name GXOS_CRT_ONEXIT_STATUS_UNALIGNED_STORAGE = ''UNALIGNED_STORAGE''"
| "gxos_crt_onexit_status_name GXOS_CRT_ONEXIT_STATUS_STORAGE_RANGE_INVALID = ''STORAGE_RANGE_INVALID''"
| "gxos_crt_onexit_status_name GXOS_CRT_ONEXIT_STATUS_INVALID_TABLE_STATE = ''INVALID_TABLE_STATE''"
| "gxos_crt_onexit_status_name GXOS_CRT_ONEXIT_STATUS_STORAGE_FULL = ''STORAGE_FULL''"
| "gxos_crt_onexit_status_name GXOS_CRT_ONEXIT_STATUS_GROWTH_REQUIRED = ''GROWTH_REQUIRED''"
| "gxos_crt_onexit_status_name GXOS_CRT_ONEXIT_STATUS_ALLOCATION_FAILED = ''ALLOCATION_FAILED''"
| "gxos_crt_onexit_status_name GXOS_CRT_ONEXIT_STATUS_CAPACITY_OVERFLOW = ''CAPACITY_OVERFLOW''"
| "gxos_crt_onexit_status_name GXOS_CRT_ONEXIT_STATUS_POINTER_OVERFLOW = ''POINTER_OVERFLOW''"
| "gxos_crt_onexit_status_name GXOS_CRT_ONEXIT_STATUS_ENCODING_UNAVAILABLE = ''ENCODING_UNAVAILABLE''"

subsection \<open>Configuration\<close>

text \<open>
  The loop over the regions of the new context: it stores every region it accepts and stops at the
  first one it does not. The list is the rest of the new context's regions, \<open>index\<close> the position.
\<close>

fun configure_regions ::
    "u64 \<Rightarrow> u64 \<Rightarrow> GXOS_CRT_ONEXIT_MEMORY_REGION list \<Rightarrow> nat \<Rightarrow> GXOS_CRT_ONEXIT_MEMORY_REGION list \<Rightarrow>
     bool \<times> GXOS_CRT_ONEXIT_MEMORY_REGION list" where
  "configure_regions image_base image_end [] index stored = (True, stored)"
| "configure_regions image_base image_end (region # rest) index stored =
     (if \<not> gxos_crt_onexit_is_range (or_base region) (or_end region) \<or> or_base region < image_base \<or>
         or_end region > image_end \<or> \<not> or_readable region then (False, stored)
      else configure_regions image_base image_end rest (index + 1) (stored[index := region]))"

fun configure_tables :: "u64 list \<Rightarrow> nat \<Rightarrow> u64 list \<Rightarrow> bool \<times> u64 list" where
  "configure_tables [] index stored = (True, stored)"
| "configure_tables (table # rest) index stored =
     (if \<not> gxos_crt_onexit_is_canonical table then (False, stored)
      else configure_tables rest (index + 1) (stored[index := table]))"

definition gxos_crt_onexit_configure ::
    "'w GXOS_CRT_ONEXIT_CONTEXT \<Rightarrow> 'w onexit_state \<Rightarrow> int \<times> 'w onexit_state" where
  "gxos_crt_onexit_configure context state =
     (let state = state\<lparr> og_context_valid := False \<rparr> in
      if \<not> oc_relocations_applied context \<or>
         \<not> gxos_crt_onexit_is_range (oc_image_base context) (oc_image_end context) \<or>
         oc_encoded_null context = 0 \<or> oc_region_count context = 0 \<or> oc_region_count context > 32 \<or>
         oc_initialized_table_count context > 4 then (-2, state)
      else case configure_regions (oc_image_base context) (oc_image_end context)
                  (take (oc_region_count context) (oc_regions context)) 0 (oc_regions (og_context state)) of
        (regions_ok, regions) \<Rightarrow>
          let state = state\<lparr> og_context := (og_context state)\<lparr> oc_regions := regions \<rparr> \<rparr> in
          if \<not> regions_ok then (-3, state)
          else
            let state = state\<lparr> og_context := (og_context state)\<lparr>
                  oc_image_base := oc_image_base context, oc_image_end := oc_image_end context,
                  oc_encoded_null := oc_encoded_null context,
                  oc_relocations_applied := oc_relocations_applied context,
                  oc_region_count := oc_region_count context,
                  oc_initialized_table_count := oc_initialized_table_count context \<rparr> \<rparr>
            in if (oc_allocate context = None) \<noteq> (oc_free context = None) then (-5, state)
               else
                 let state = state\<lparr> og_context := (og_context state)\<lparr>
                       oc_allocate := oc_allocate context, oc_free := oc_free context \<rparr> \<rparr>
                 in case configure_tables (take (oc_initialized_table_count context) (oc_initialized_tables context)) 0
                           (oc_initialized_tables (og_context state)) of
                      (tables_ok, tables) \<Rightarrow>
                        let state = state\<lparr> og_context := (og_context state)\<lparr> oc_initialized_tables := tables \<rparr> \<rparr> in
                        if \<not> tables_ok then (-4, state) else (0, state\<lparr> og_context_valid := True \<rparr>))"

text \<open>\<open>tables\<close> is \<open>None\<close> for the null pointer, else the array of \<open>table_count\<close> entries.\<close>

definition gxos_crt_onexit_set_initialized_tables ::
    "u64 list option \<Rightarrow> nat \<Rightarrow> 'w onexit_state \<Rightarrow> int \<times> 'w onexit_state" where
  "gxos_crt_onexit_set_initialized_tables tables table_count state =
     (if \<not> og_context_valid state \<or> table_count > 4 \<or> (table_count \<noteq> 0 \<and> tables = None) then (-1, state)
      else case configure_tables (take table_count (case tables of None \<Rightarrow> [] | Some xs \<Rightarrow> xs)) 0
                  (oc_initialized_tables (og_context state)) of
        (tables_ok, stored) \<Rightarrow>
          let state = state\<lparr> og_context := (og_context state)\<lparr> oc_initialized_tables := stored \<rparr> \<rparr> in
          if \<not> tables_ok then (-1, state)
          else (0, state\<lparr> og_context := (og_context state)\<lparr> oc_initialized_table_count := table_count \<rparr> \<rparr>))"

definition gxos_crt_initialize_onexit_table :: "u64 \<Rightarrow> 'w onexit_state \<Rightarrow> int \<times> 'w onexit_state" where
  "gxos_crt_initialize_onexit_table table state =
     (if table = 0 then (-1, state)
      else if og_memory state table \<noteq> og_memory state (table + 16) then (0, state)
      else
        let encoded_null = gxos_crt_onexit_get_encoded_null state in
        if encoded_null = 0 then (-1, state)
        else (0, onexit_write (table + 16) encoded_null (onexit_write (table + 8) encoded_null
                   (onexit_write table encoded_null state))))"

subsection \<open>Registration\<close>

text \<open>The tests of the table, of the callback and of existing storage: the failing status, if any.\<close>

definition onexit_check_table :: "u64 \<Rightarrow> 'w onexit_state \<Rightarrow> GXOS_CRT_ONEXIT_STATUS option" where
  "onexit_check_table table state =
     (if \<not> og_context_valid state \<or> gxos_crt_onexit_get_encoded_null state = 0
      then Some GXOS_CRT_ONEXIT_STATUS_INVALID_CONTEXT
      else if table = 0 then Some GXOS_CRT_ONEXIT_STATUS_NULL_TABLE
      else if \<not> gxos_crt_onexit_is_canonical table then Some GXOS_CRT_ONEXIT_STATUS_NONCANONICAL_TABLE
      else if table > UINT64_MAX - 24 then Some GXOS_CRT_ONEXIT_STATUS_POINTER_OVERFLOW
      else case gxos_crt_onexit_find_range state table (table + 24) True False of
        None \<Rightarrow> Some GXOS_CRT_ONEXIT_STATUS_UNREADABLE_TABLE
      | Some region \<Rightarrow>
          if \<not> or_writable region then Some GXOS_CRT_ONEXIT_STATUS_UNWRITABLE_TABLE
          else if oc_initialized_table_count (og_context state) \<noteq> 0 \<and>
                  table \<notin> set (take (oc_initialized_table_count (og_context state)) (oc_initialized_tables (og_context state)))
          then Some GXOS_CRT_ONEXIT_STATUS_TABLE_NOT_INITIALIZED else None)"

definition onexit_check_callback :: "u64 \<Rightarrow> 'w onexit_state \<Rightarrow> GXOS_CRT_ONEXIT_STATUS option" where
  "onexit_check_callback callback_value state =
     (if \<not> gxos_crt_onexit_encoded_pointer_matches state (gxos_crt_onexit_get_encoded_null state) 0
      then Some GXOS_CRT_ONEXIT_STATUS_ENCODING_UNAVAILABLE
      else if callback_value \<noteq> 0 then
        if \<not> gxos_crt_onexit_is_canonical callback_value then Some GXOS_CRT_ONEXIT_STATUS_NONCANONICAL_CALLBACK
        else if gxos_crt_onexit_find_address state callback_value True = None
        then Some GXOS_CRT_ONEXIT_STATUS_NONEXECUTABLE_CALLBACK else None
      else None)"

definition onexit_check_storage :: "u64 \<Rightarrow> u64 \<Rightarrow> u64 \<Rightarrow> 'w onexit_state \<Rightarrow> GXOS_CRT_ONEXIT_STATUS option" where
  "onexit_check_storage first lastp end state =
     (if \<not> gxos_crt_onexit_is_canonical first \<or> \<not> gxos_crt_onexit_is_canonical lastp \<or>
         \<not> gxos_crt_onexit_is_canonical end then Some GXOS_CRT_ONEXIT_STATUS_NONCANONICAL_STORAGE
      else if first AND 7 \<noteq> 0 \<or> lastp AND 7 \<noteq> 0 \<or> end AND 7 \<noteq> 0
      then Some GXOS_CRT_ONEXIT_STATUS_UNALIGNED_STORAGE
      else if first > lastp \<or> lastp > end \<or> end - first > 0x7FFFFFFF8 \<or> (end - first) AND 7 \<noteq> 0
      then Some GXOS_CRT_ONEXIT_STATUS_INVALID_TABLE_STATE
      else if gxos_crt_onexit_find_range state first end True True = None
      then Some GXOS_CRT_ONEXIT_STATUS_STORAGE_RANGE_INVALID else None)"

definition gxos_crt_onexit_release_allocation ::
    "u64 \<Rightarrow> u64 \<Rightarrow> GXOS_CRT_ONEXIT_STATUS \<Rightarrow> 'w onexit_state \<Rightarrow> GXOS_CRT_ONEXIT_STATUS \<times> 'w onexit_state" where
  "gxos_crt_onexit_release_allocation allocation bytes status state =
     (status, case oc_free (og_context state) of
        None \<Rightarrow> state
      | Some free \<Rightarrow> if allocation \<noteq> 0 then state\<lparr> og_world := free (og_world state) allocation bytes \<rparr> else state)"

text \<open>The three stores that publish the bounds of a table.\<close>

definition onexit_publish :: "u64 \<Rightarrow> u64 \<Rightarrow> u64 \<Rightarrow> u64 \<Rightarrow> 'w onexit_state \<Rightarrow> 'w onexit_state" where
  "onexit_publish table first lastp end state =
     onexit_write (table + 16) end (onexit_write (table + 8) lastp (onexit_write table first state))"

definition fill_slots :: "u64 \<Rightarrow> 'w onexit_state \<Rightarrow> 'w onexit_state" where
  "fill_slots slots state =
     fold (\<lambda>index state. onexit_write (slots + 8 * of_nat index) (gxos_crt_onexit_get_encoded_null state) state) [0..<32] state"

text \<open>An empty table: the first block of 32 slots.\<close>

definition onexit_use_block ::
    "u64 \<Rightarrow> u64 \<Rightarrow> u64 \<Rightarrow> 'w onexit_state \<Rightarrow> GXOS_CRT_ONEXIT_STATUS \<times> 'w onexit_state" where
  "onexit_use_block table callback_value allocation_value state =
     (let allocation_end = allocation_value + 0x100;
          encoded_callback = gxos_crt_onexit_encode_pointer state callback_value;
          encoded_first = gxos_crt_onexit_encode_pointer state allocation_value;
          encoded_last = gxos_crt_onexit_encode_pointer state (allocation_value + 8);
          encoded_end = gxos_crt_onexit_encode_pointer state allocation_end
      in if \<not> gxos_crt_onexit_encoded_pointer_matches state encoded_callback callback_value \<or>
            \<not> gxos_crt_onexit_encoded_pointer_matches state encoded_first allocation_value \<or>
            \<not> gxos_crt_onexit_encoded_pointer_matches state encoded_last (allocation_value + 8) \<or>
            \<not> gxos_crt_onexit_encoded_pointer_matches state encoded_end allocation_end
         then gxos_crt_onexit_release_allocation allocation_value 0x100 GXOS_CRT_ONEXIT_STATUS_ENCODING_UNAVAILABLE state
         else
           let state = onexit_write allocation_value encoded_callback (fill_slots allocation_value state);
               unused_slots_all_null = list_all (\<lambda>index. gxos_crt_onexit_encoded_pointer_matches state
                 (og_memory state (allocation_value + 8 * of_nat index)) 0) [1..<32]
           in if \<not> gxos_crt_onexit_encoded_pointer_matches state (og_memory state allocation_value) callback_value \<or>
                 \<not> unused_slots_all_null
              then gxos_crt_onexit_release_allocation allocation_value 0x100 GXOS_CRT_ONEXIT_STATUS_INVALID_TABLE_STATE state
              else (GXOS_CRT_ONEXIT_STATUS_OK, onexit_publish table encoded_first encoded_last encoded_end state))"

definition onexit_first_block ::
    "u64 \<Rightarrow> u64 \<Rightarrow> 'w onexit_state \<Rightarrow> GXOS_CRT_ONEXIT_STATUS \<times> 'w onexit_state" where
  "onexit_first_block table callback_value state =
     (case oc_allocate (og_context state) of
        None \<Rightarrow> (GXOS_CRT_ONEXIT_STATUS_ALLOCATION_FAILED, state)
      | Some allocate \<Rightarrow>
          if oc_free (og_context state) = None then (GXOS_CRT_ONEXIT_STATUS_ALLOCATION_FAILED, state)
          else case allocate (og_world state) 0x100 of (allocation_value, w) \<Rightarrow>
            let state = state\<lparr> og_world := w \<rparr>;
                fail = (\<lambda>status. gxos_crt_onexit_release_allocation allocation_value 0x100 status state);
                allocation_end = allocation_value + 0x100
            in if allocation_value = 0 \<or> \<not> gxos_crt_onexit_is_canonical allocation_value \<or> allocation_value AND 7 \<noteq> 0
               then fail (if allocation_value = 0 then GXOS_CRT_ONEXIT_STATUS_ALLOCATION_FAILED
                          else if allocation_value AND 7 \<noteq> 0 then GXOS_CRT_ONEXIT_STATUS_UNALIGNED_STORAGE
                          else GXOS_CRT_ONEXIT_STATUS_NONCANONICAL_STORAGE)
               else if allocation_value > UINT64_MAX - 0x100 then fail GXOS_CRT_ONEXIT_STATUS_POINTER_OVERFLOW
               else if \<not> gxos_crt_onexit_is_range allocation_value allocation_end
               then fail GXOS_CRT_ONEXIT_STATUS_STORAGE_RANGE_INVALID
               else if list_ex (\<lambda>region. gxos_crt_onexit_ranges_overlap allocation_value allocation_end
                                  (or_base region) (or_end region)) (context_regions state)
               then fail GXOS_CRT_ONEXIT_STATUS_STORAGE_RANGE_INVALID
               else onexit_use_block table callback_value allocation_value state)"

text \<open>A table with storage: the next free slot.\<close>

definition onexit_append ::
    "u64 \<Rightarrow> u64 \<Rightarrow> u64 \<Rightarrow> u64 \<Rightarrow> u64 \<Rightarrow> 'w onexit_state \<Rightarrow> GXOS_CRT_ONEXIT_STATUS \<times> 'w onexit_state" where
  "onexit_append table callback_value first lastp end state =
     (if lastp = end then (GXOS_CRT_ONEXIT_STATUS_GROWTH_REQUIRED, state)
      else if lastp = 0 \<or> end = 0 \<or> lastp > UINT64_MAX - 8 then (GXOS_CRT_ONEXIT_STATUS_POINTER_OVERFLOW, state)
      else
        let offset = lastp - first; new_last = lastp + 8 in
        if new_last > end \<or> offset div 8 > 0xFFFFFFFF then (GXOS_CRT_ONEXIT_STATUS_CAPACITY_OVERFLOW, state)
        else
          let encoded_callback = gxos_crt_onexit_encode_pointer state callback_value;
              encoded_first = gxos_crt_onexit_encode_pointer state first;
              encoded_last = gxos_crt_onexit_encode_pointer state new_last;
              encoded_end = gxos_crt_onexit_encode_pointer state end
          in if encoded_callback = 0 then (GXOS_CRT_ONEXIT_STATUS_ENCODING_UNAVAILABLE, state)
             else if \<not> gxos_crt_onexit_encoded_pointer_matches state encoded_callback callback_value \<or>
                     \<not> gxos_crt_onexit_encoded_pointer_matches state encoded_first first \<or>
                     \<not> gxos_crt_onexit_encoded_pointer_matches state encoded_last new_last \<or>
                     \<not> gxos_crt_onexit_encoded_pointer_matches state encoded_end end
             then (GXOS_CRT_ONEXIT_STATUS_ENCODING_UNAVAILABLE, state)
             else
               let old_slot_value = og_memory state lastp;
                   published = onexit_publish table encoded_first encoded_last encoded_end
                                 (onexit_write lastp encoded_callback state)
               in if gxos_crt_onexit_decode_pointer published (og_memory published (table + 8)) \<noteq> new_last \<or>
                     gxos_crt_onexit_decode_pointer published (og_memory published table) \<noteq> first \<or>
                     gxos_crt_onexit_decode_pointer published (og_memory published (table + 16)) \<noteq> end \<or>
                     og_memory published lastp \<noteq> encoded_callback
                  then (GXOS_CRT_ONEXIT_STATUS_INVALID_TABLE_STATE,
                        onexit_publish table (og_memory state table) (og_memory state (table + 8)) (og_memory state (table + 16))
                          (onexit_write lastp old_slot_value published))
                  else (GXOS_CRT_ONEXIT_STATUS_OK, published))"

definition gxos_crt_onexit_register_checked ::
    "u64 \<Rightarrow> u64 \<Rightarrow> 'w onexit_state \<Rightarrow> GXOS_CRT_ONEXIT_STATUS \<times> 'w onexit_state" where
  "gxos_crt_onexit_register_checked table callback_value state =
     (case onexit_check_table table state of
        Some status \<Rightarrow> (status, state)
      | None \<Rightarrow>
          let first = gxos_crt_onexit_decode_pointer state (og_memory state table);
              lastp = gxos_crt_onexit_decode_pointer state (og_memory state (table + 8));
              end = gxos_crt_onexit_decode_pointer state (og_memory state (table + 16))
          in case onexit_check_callback callback_value state of
               Some status \<Rightarrow> (status, state)
             | None \<Rightarrow>
                 if (first = 0 \<or> lastp = 0 \<or> end = 0) \<and> \<not> (first = 0 \<and> lastp = 0 \<and> end = 0)
                 then (GXOS_CRT_ONEXIT_STATUS_INVALID_TABLE_STATE, state)
                 else if first \<noteq> 0 then
                   case onexit_check_storage first lastp end state of
                     Some status \<Rightarrow> (status, state)
                   | None \<Rightarrow> onexit_append table callback_value first lastp end state
                 else onexit_first_block table callback_value state)"

end
