(* ===== verification/Crt_Onexit_Correct.thy ===== *)
theory Crt_Onexit_Correct
  imports Crt_Onexit
begin

text \<open>
  Pointer encoding is a bijection, and registration appends the callback to the table or leaves the memory
  as it was. A table whose storage the code allocated itself cannot be extended.
\<close>

subsection \<open>Encoding\<close>

lemma bit_rotate_right:
  assumes "s < 64" "n < 64"
  shows "bit (gxos_crt_onexit_rotate_right v s) n \<longleftrightarrow> bit v ((n + s) mod 64)"
proof (cases "n + s < 64")
  case True
  then show ?thesis using assms
    by (auto simp: gxos_crt_onexit_rotate_right_def bit_or_iff bit_drop_bit_eq bit_push_bit_iff add.commute)
next
  case False
  then have "(n + s) mod 64 = n + s - 64" using assms by (simp add: mod_if)
  moreover have "\<not> bit v (s + n)" using False by (auto dest: bit_imp_le_length)
  ultimately show ?thesis using assms False
    by (auto simp: gxos_crt_onexit_rotate_right_def bit_or_iff bit_drop_bit_eq bit_push_bit_iff)
qed

lemma rotate_right_inverse:
  assumes "s < 64"
  shows "gxos_crt_onexit_rotate_right (gxos_crt_onexit_rotate_right v ((64 - s) mod 64)) s = v"
    and "gxos_crt_onexit_rotate_right (gxos_crt_onexit_rotate_right v s) ((64 - s) mod 64) = v"
proof -
  have "((n + s) mod 64 + (64 - s) mod 64) mod 64 = n" "((n + (64 - s) mod 64) mod 64 + s) mod 64 = n" if "n < 64" for n
  proof -
    have "((n + s) mod 64 + (64 - s) mod 64) mod 64 = (n + s + (64 - s)) mod 64" by (rule mod_add_eq)
    then show "((n + s) mod 64 + (64 - s) mod 64) mod 64 = n" using assms that by simp
    have "((n + (64 - s) mod 64) mod 64 + s) mod 64 = (n + (64 - s) + s) mod 64" by (simp only: mod_add_left_eq mod_add_right_eq)
    then show "((n + (64 - s) mod 64) mod 64 + s) mod 64 = n" using assms that by simp
  qed
  then show "gxos_crt_onexit_rotate_right (gxos_crt_onexit_rotate_right v ((64 - s) mod 64)) s = v"
    and "gxos_crt_onexit_rotate_right (gxos_crt_onexit_rotate_right v s) ((64 - s) mod 64) = v"
    using assms by (auto intro!: bit_word_eqI simp: bit_rotate_right)
qed

lemma cookie_shift: "unat ((c :: u64) mod 64) < 64"
  by (simp add: unat_mod_u64)

lemma decode_encode [simp]:
  "gxos_crt_onexit_get_encoded_null s \<noteq> 0 \<Longrightarrow> gxos_crt_onexit_decode_pointer s (gxos_crt_onexit_encode_pointer s p) = p"
  by (simp add: gxos_crt_onexit_decode_pointer_def gxos_crt_onexit_encode_pointer_def Let_def
      rotate_right_inverse [OF cookie_shift] xor.assoc)

lemma encode_decode [simp]:
  "gxos_crt_onexit_get_encoded_null s \<noteq> 0 \<Longrightarrow> gxos_crt_onexit_encode_pointer s (gxos_crt_onexit_decode_pointer s p) = p"
  by (simp add: gxos_crt_onexit_decode_pointer_def gxos_crt_onexit_encode_pointer_def Let_def
      rotate_right_inverse [OF cookie_shift] xor.assoc)

lemma decode_null [simp]: "gxos_crt_onexit_decode_pointer s (gxos_crt_onexit_get_encoded_null s) = 0"
  by (simp add: gxos_crt_onexit_decode_pointer_def Let_def gxos_crt_onexit_rotate_right_def)

lemma matches_encode:
  "gxos_crt_onexit_get_encoded_null s \<noteq> 0 \<Longrightarrow>
     gxos_crt_onexit_encoded_pointer_matches s (gxos_crt_onexit_encode_pointer s p) p \<longleftrightarrow> gxos_crt_onexit_encode_pointer s p \<noteq> 0"
  by (simp add: gxos_crt_onexit_encoded_pointer_matches_def)

subsection \<open>Memory\<close>

definition cookie_clear :: "'w onexit_state \<Rightarrow> u64 set \<Rightarrow> bool" where
  "cookie_clear s A \<longleftrightarrow> og_encoded_null_address s = 0 \<or> og_encoded_null_address s \<notin> A"

lemma onexit_write_sel [simp]:
  "og_memory (onexit_write a v s) = (og_memory s)(a := v)" "og_context (onexit_write a v s) = og_context s"
  "og_context_valid (onexit_write a v s) = og_context_valid s" "og_encoded_null_address (onexit_write a v s) = og_encoded_null_address s"
  "og_encoded_null (onexit_write a v s) = og_encoded_null s" "og_world (onexit_write a v s) = og_world s"
  by (simp_all add: onexit_write_def)

lemma same_cookie:
  assumes "og_encoded_null_address s' = og_encoded_null_address s" "og_encoded_null s' = og_encoded_null s"
    and "cookie_clear s A" "\<And>x. x \<notin> A \<Longrightarrow> og_memory s' x = og_memory s x"
  shows "gxos_crt_onexit_get_encoded_null s' = gxos_crt_onexit_get_encoded_null s"
  using assms by (auto simp: gxos_crt_onexit_get_encoded_null_def cookie_clear_def)

lemma decode_cong:
  "gxos_crt_onexit_get_encoded_null s' = gxos_crt_onexit_get_encoded_null s \<Longrightarrow>
     gxos_crt_onexit_decode_pointer s' = gxos_crt_onexit_decode_pointer s"
  by (simp add: fun_eq_iff gxos_crt_onexit_decode_pointer_def)

lemma field_addresses [simp]:
  "(t :: u64) \<noteq> t + 8" "t \<noteq> t + 16" "t + 8 \<noteq> t + 16" "t + 8 \<noteq> t" "t + 16 \<noteq> t" "t + 16 \<noteq> t + 8"
  by auto

definition fields :: "u64 \<Rightarrow> u64 set" where
  "fields t = {t, t + 8, t + 16}"

lemma onexit_publish_sel [simp]:
  "og_memory (onexit_publish t f l e s) = (og_memory s)(t := f, t + 8 := l, t + 16 := e)"
  "og_context (onexit_publish t f l e s) = og_context s" "og_context_valid (onexit_publish t f l e s) = og_context_valid s"
  "og_encoded_null_address (onexit_publish t f l e s) = og_encoded_null_address s"
  "og_encoded_null (onexit_publish t f l e s) = og_encoded_null s"
  by (simp_all add: onexit_publish_def)

definition slots_of :: "u64 \<Rightarrow> nat \<Rightarrow> u64 set" where
  "slots_of a n = (\<lambda>i. a + 8 * of_nat i) ` {..<n}"

lemma fill_slots_memory:
  assumes "cookie_clear s (slots_of a 32)"
  shows "og_memory (fill_slots a s) = (\<lambda>x. if x \<in> slots_of a 32 then gxos_crt_onexit_get_encoded_null s else og_memory s x) \<and>
    og_context (fill_slots a s) = og_context s \<and> og_context_valid (fill_slots a s) = og_context_valid s \<and>
    og_encoded_null_address (fill_slots a s) = og_encoded_null_address s \<and> og_encoded_null (fill_slots a s) = og_encoded_null s"
proof -
  let ?f = "\<lambda>index state. onexit_write (a + 8 * of_nat index) (gxos_crt_onexit_get_encoded_null state) state"
  have "og_memory (fold ?f [0..<n] s) = (\<lambda>x. if x \<in> slots_of a n then gxos_crt_onexit_get_encoded_null s else og_memory s x) \<and>
    og_context (fold ?f [0..<n] s) = og_context s \<and> og_context_valid (fold ?f [0..<n] s) = og_context_valid s \<and>
    og_encoded_null_address (fold ?f [0..<n] s) = og_encoded_null_address s \<and> og_encoded_null (fold ?f [0..<n] s) = og_encoded_null s"
    if "n \<le> 32" for n
    using that
  proof (induction n)
    case (Suc n)
    then have IH: "og_memory (fold ?f [0..<n] s) = (\<lambda>x. if x \<in> slots_of a n then gxos_crt_onexit_get_encoded_null s else og_memory s x)"
      "og_encoded_null_address (fold ?f [0..<n] s) = og_encoded_null_address s" "og_encoded_null (fold ?f [0..<n] s) = og_encoded_null s"
      by simp_all
    have "cookie_clear s (slots_of a n)" using assms Suc.prems by (auto simp: cookie_clear_def slots_of_def)
    then have "gxos_crt_onexit_get_encoded_null (fold ?f [0..<n] s) = gxos_crt_onexit_get_encoded_null s"
      using IH by (intro same_cookie [where A = "slots_of a n"]) auto
    then show ?case using Suc by (auto simp: fun_eq_iff slots_of_def lessThan_Suc)
  qed (auto simp: slots_of_def)
  from this [of 32] show ?thesis by (simp add: fill_slots_def)
qed

subsection \<open>The table\<close>

abbreviation tfirst :: "'w onexit_state \<Rightarrow> u64 \<Rightarrow> u64" where
  "tfirst s t \<equiv> gxos_crt_onexit_decode_pointer s (og_memory s t)"

abbreviation tlast :: "'w onexit_state \<Rightarrow> u64 \<Rightarrow> u64" where
  "tlast s t \<equiv> gxos_crt_onexit_decode_pointer s (og_memory s (t + 8))"

abbreviation tend :: "'w onexit_state \<Rightarrow> u64 \<Rightarrow> u64" where
  "tend s t \<equiv> gxos_crt_onexit_decode_pointer s (og_memory s (t + 16))"

abbreviation table_slots :: "'w onexit_state \<Rightarrow> u64 \<Rightarrow> u64 set" where
  "table_slots s t \<equiv> slots_of (tfirst s t) (unat ((tend s t - tfirst s t) div 8))"

text \<open>The callbacks of a table, in the order of registration.\<close>

definition onexit_callbacks :: "'w onexit_state \<Rightarrow> u64 \<Rightarrow> u64 list" where
  "onexit_callbacks s t = map (\<lambda>i. gxos_crt_onexit_decode_pointer s (og_memory s (tfirst s t + 8 * of_nat i)))
     [0..<unat ((tlast s t - tfirst s t) div 8)]"

text \<open>The table's fields, its slots and the cookie are different objects, and the cookie lies in the image.\<close>

definition onexit_laid_out :: "'w onexit_state \<Rightarrow> u64 \<Rightarrow> bool" where
  "onexit_laid_out s t \<longleftrightarrow> table_slots s t \<inter> fields t = {} \<and> cookie_clear s (fields t \<union> table_slots s t) \<and>
     (og_encoded_null_address s \<noteq> 0 \<longrightarrow> (\<exists>r \<in> set (context_regions s).
        or_base r \<le> og_encoded_null_address s \<and> og_encoded_null_address s < or_end r))"

lemma aligned8: "(x :: u64) AND 7 = 0 \<longleftrightarrow> 8 dvd unat x"
proof -
  have "x AND 7 = take_bit 3 x" by (simp add: take_bit_eq_mask mask_eq_exp_minus_1)
  then have "unat (x AND 7) = unat x mod 8" by (simp add: take_bit_eq_mod unat_mod_u64)
  then show ?thesis by (metis dvd_eq_mod_eq_0 unat_0 unat_eq_iff)
qed

text \<open>Storage that the code accepts, in natural numbers.\<close>

lemma storage_shape:
  assumes "onexit_check_storage f l e s = None"
  shows "unat f \<le> unat l" "unat l \<le> unat e" "8 dvd unat f" "8 dvd unat l" "8 dvd unat e" "unat e - unat f \<le> 0x7FFFFFFF8"
    and "unat ((l - f) div 8) = (unat l - unat f) div 8" "unat ((e - f) div 8) = (unat e - unat f) div 8"
proof -
  have *: "f \<le> l" "l \<le> e" "e - f \<le> 0x7FFFFFFF8" "f AND 7 = 0" "l AND 7 = 0" "e AND 7 = 0"
    using assms by (auto simp: onexit_check_storage_def not_less split: if_splits)
  then have fe: "f \<le> e" by simp
  show "unat f \<le> unat l" "unat l \<le> unat e" "8 dvd unat f" "8 dvd unat l" "8 dvd unat e"
    using * by (simp_all add: word_le_nat_alt aligned8)
  show "unat e - unat f \<le> 0x7FFFFFFF8" using *(3) fe by (simp add: word_le_nat_alt unat_sub_le)
  show "unat ((l - f) div 8) = (unat l - unat f) div 8" "unat ((e - f) div 8) = (unat e - unat f) div 8"
    using *(1) fe by (simp_all add: unat_div_u64 unat_sub_le)
qed

lemma slot_address:
  assumes "unat f + 8 * i < 2 ^ 64"
  shows "unat (f + 8 * of_nat i :: u64) = unat f + 8 * i"
proof -
  have "unat (8 * of_nat i :: u64) = 8 * i" using assms by (simp add: unat_word_ariths unat_of_nat)
  then show ?thesis using assms by (simp add: unat_word_ariths)
qed

lemma next_slot:
  assumes "onexit_check_storage f l e s = None" "l \<noteq> e"
  shows "l = f + 8 * of_nat ((unat l - unat f) div 8)" "l \<in> slots_of f (unat ((e - f) div 8))"
    and "unat (l + 8) = unat l + 8" "unat l + 8 \<le> unat e"
proof -
  note s = storage_shape [OF assms(1)]
  have d: "unat l = unat f + 8 * ((unat l - unat f) div 8)" using s by (metis dvd_diff_nat dvd_mult_div_cancel le_add_diff_inverse)
  have lt: "unat l < unat e" using s(2) assms(2) by (auto simp: order_le_less unat_eq_iff)
  obtain i j k where ijk: "unat f = 8 * i" "unat l = 8 * j" "unat e = 8 * k" using s by (auto elim!: dvdE)
  with lt show "unat l + 8 \<le> unat e" by simp
  then have "unat l + 8 < 18446744073709551616" by (rule le_less_trans) simp
  then show "unat (l + 8) = unat l + 8" by (simp add: unat_word_ariths)
  show l: "l = f + 8 * of_nat ((unat l - unat f) div 8)"
    using d unat_lt_2p64 [of l] by (simp only: unat_eq_iff) (subst slot_address; simp)
  have "(unat l - unat f) div 8 < (unat e - unat f) div 8" using ijk lt s(1) by (simp flip: diff_mult_distrib2)
  then show "l \<in> slots_of f (unat ((e - f) div 8))" unfolding slots_of_def s(8) by (subst l) blast
qed

text \<open>The state after a slot was filled and the bounds were published.\<close>

definition appended :: "u64 \<Rightarrow> u64 \<Rightarrow> 'w onexit_state \<Rightarrow> 'w onexit_state" where
  "appended t cb s = onexit_publish t (gxos_crt_onexit_encode_pointer s (tfirst s t))
     (gxos_crt_onexit_encode_pointer s (tlast s t + 8)) (gxos_crt_onexit_encode_pointer s (tend s t))
     (onexit_write (tlast s t) (gxos_crt_onexit_encode_pointer s cb) s)"

lemma appended_memory:
  assumes laid: "onexit_laid_out s t"
    and chk: "onexit_check_storage (tfirst s t) (tlast s t) (tend s t) s = None" "tlast s t \<noteq> tend s t"
  shows "gxos_crt_onexit_decode_pointer (appended t cb s) = gxos_crt_onexit_decode_pointer s"
    and "og_memory (appended t cb s) t = gxos_crt_onexit_encode_pointer s (tfirst s t)"
    and "og_memory (appended t cb s) (t + 8) = gxos_crt_onexit_encode_pointer s (tlast s t + 8)"
    and "og_memory (appended t cb s) (t + 16) = gxos_crt_onexit_encode_pointer s (tend s t)"
    and "og_memory (appended t cb s) (tlast s t) = gxos_crt_onexit_encode_pointer s cb"
proof -
  note ns = next_slot [OF chk]
  show "gxos_crt_onexit_decode_pointer (appended t cb s) = gxos_crt_onexit_decode_pointer s"
    using laid ns(2) by (intro decode_cong same_cookie [where A = "fields t \<union> table_slots s t"])
      (auto simp: appended_def onexit_laid_out_def fields_def)
  have "tlast s t \<notin> fields t" using ns(2) laid by (auto simp: onexit_laid_out_def)
  then show "og_memory (appended t cb s) t = gxos_crt_onexit_encode_pointer s (tfirst s t)"
    "og_memory (appended t cb s) (t + 8) = gxos_crt_onexit_encode_pointer s (tlast s t + 8)"
    "og_memory (appended t cb s) (t + 16) = gxos_crt_onexit_encode_pointer s (tend s t)"
    "og_memory (appended t cb s) (tlast s t) = gxos_crt_onexit_encode_pointer s cb"
    by (simp_all add: appended_def fields_def)
qed

lemma append_outcome:
  assumes a: "onexit_append t cb (tfirst s t) (tlast s t) (tend s t) s = (st, s')"
    and N: "gxos_crt_onexit_get_encoded_null s \<noteq> 0" and laid: "onexit_laid_out s t"
    and chk: "onexit_check_storage (tfirst s t) (tlast s t) (tend s t) s = None"
  shows "(st \<noteq> GXOS_CRT_ONEXIT_STATUS_OK \<and> s' = s) \<or>
    (st = GXOS_CRT_ONEXIT_STATUS_OK \<and> tlast s t \<noteq> tend s t \<and> s' = appended t cb s)"
proof (cases "tlast s t = tend s t")
  case True
  then show ?thesis using a by (simp add: onexit_append_def)
next
  case False
  show ?thesis using a False N
    unfolding onexit_append_def Let_def appended_def [symmetric] appended_memory [OF laid chk False]
    by (auto split: if_splits)
qed

lemma append_callbacks:
  fixes cb
  assumes N: "gxos_crt_onexit_get_encoded_null s \<noteq> 0" and laid: "onexit_laid_out s t"
    and chk: "onexit_check_storage (tfirst s t) (tlast s t) (tend s t) s = None" and room: "tlast s t \<noteq> tend s t"
  defines "s1 \<equiv> appended t cb s"
  shows "onexit_callbacks s1 t = onexit_callbacks s t @ [cb]" and "onexit_laid_out s1 t"
proof -
  note ns = next_slot [OF chk room] and sh = storage_shape [OF chk]
  let ?f = "tfirst s t" and ?l = "tlast s t" and ?n = "(unat (tlast s t) - unat (tfirst s t)) div 8"
  have l: "?l \<notin> fields t" using ns(2) laid by (auto simp: onexit_laid_out_def)
  note am = appended_memory [OF laid chk room, of cb, folded s1_def]
  note d = am(1)
  have b: "tfirst s1 t = ?f" "tlast s1 t = ?l + 8" "tend s1 t = tend s t"
    using N unfolding d am by simp_all
  have used: "unat ((?l + 8 - ?f) div 8) = Suc ?n"
  proof -
    have "?f \<le> ?l + 8" using sh(1) ns(3) by (simp add: word_le_nat_alt)
    from unat_sub_le [OF this] have "unat (?l + 8 - ?f) = (unat ?l - unat ?f) + 8" unfolding ns(3) using sh(1) by linarith
    then show ?thesis by (simp add: unat_div_u64 del: unat_sub_le)
  qed
  have old: "og_memory s1 (?f + 8 * of_nat i) = og_memory s (?f + 8 * of_nat i)" if "i < ?n" for i
  proof -
    have "?f + 8 * of_nat i \<in> table_slots s t"
      using that ns(4) sh by (auto simp: slots_of_def intro!: imageI less_le_trans [OF that] div_le_mono)
    then have "?f + 8 * of_nat i \<notin> fields t" using laid by (auto simp: onexit_laid_out_def)
    moreover have "?f + 8 * of_nat i \<noteq> ?l"
    proof -
      have "8 * i < unat ?l - unat ?f" using that by linarith
      then have lt: "unat ?f + 8 * i < unat ?l" by simp
      then have "unat ?f + 8 * i < 2 ^ 64" by (rule less_trans) simp
      from slot_address [OF this] lt show ?thesis by auto
    qed
    ultimately show ?thesis by (simp add: s1_def appended_def fields_def)
  qed
  have new: "og_memory s1 (?f + 8 * of_nat ?n) = gxos_crt_onexit_encode_pointer s cb"
    unfolding ns(1) [symmetric] by (rule am(5))
  show "onexit_callbacks s1 t = onexit_callbacks s t @ [cb]"
    unfolding onexit_callbacks_def d b(1,2) [unfolded d] used sh(7) using old new N by simp
  show "onexit_laid_out s1 t"
    using laid unfolding onexit_laid_out_def b by (simp add: s1_def appended_def cookie_clear_def)
qed

subsection \<open>The first block\<close>

text \<open>A block of 32 slots that overlaps no region of the context.\<close>

definition outside_image :: "u64 \<Rightarrow> 'w onexit_state \<Rightarrow> bool" where
  "outside_image a s \<longleftrightarrow> a \<noteq> 0 \<and> unat a + 0x100 < 2 ^ 64 \<and>
     (\<forall>r \<in> set (context_regions s). unat a + 0x100 \<le> unat (or_base r) \<or> unat (or_end r) \<le> unat a)"

lemma block_slots: "unat a + 0x100 < 2 ^ 64 \<Longrightarrow> x \<in> slots_of a 32 \<Longrightarrow> unat a \<le> unat x \<and> unat x + 8 \<le> unat a + 0x100"
  by (auto simp: slots_of_def slot_address)

lemma block_slots_inj:
  assumes "unat (a :: u64) + 0x100 < 2 ^ 64" "i < 32" "j < 32" "a + 8 * of_nat i = a + 8 * of_nat j"
  shows "i = j"
proof -
  have "unat a + 8 * i < 2 ^ 64" "unat a + 8 * j < 2 ^ 64" using assms(1-3) by linarith+
  from slot_address [OF this(1)] slot_address [OF this(2)] show ?thesis using assms(4) by (metis add_left_cancel mult_left_cancel zero_neq_numeral)
qed

lemma table_region:
  assumes "onexit_check_table t s = None"
  obtains r where "r \<in> set (context_regions s)" "unat (or_base r) \<le> unat t" "unat t + 24 \<le> unat (or_end r)"
proof -
  have t: "\<not> t > UINT64_MAX - 24" using assms by (auto simp: onexit_check_table_def split: if_splits)
  then have "unat t + 24 < 2 ^ 64" by (simp add: word_less_nat_alt)
  then have e: "unat (t + 24) = unat t + 24" by (simp add: unat_word_ariths)
  obtain r where "gxos_crt_onexit_find_range s t (t + 24) True False = Some r"
    using assms by (auto simp: onexit_check_table_def split: if_splits option.splits)
  then have "r \<in> set (context_regions s)" "gxos_crt_onexit_range_contains r t (t + 24)"
    using find_SomeD by (fastforce simp: gxos_crt_onexit_find_range_def)+
  then show thesis using that e by (auto simp: gxos_crt_onexit_range_contains_def word_le_nat_alt)
qed

lemma outside_clear:
  assumes "outside_image a s" "onexit_check_table t s = None" "onexit_laid_out s t"
  shows "slots_of a 32 \<inter> fields t = {}" "cookie_clear s (fields t \<union> slots_of a 32)"
proof -
  have a: "unat a + 0x100 < 2 ^ 64" using assms(1) by (simp add: outside_image_def)
  obtain r where r: "r \<in> set (context_regions s)" "unat (or_base r) \<le> unat t" "unat t + 24 \<le> unat (or_end r)"
    using table_region [OF assms(2)] .
  then have o: "unat a + 0x100 \<le> unat t \<or> unat t + 24 \<le> unat a" using assms(1) by (auto simp: outside_image_def)
  have "unat t + 24 < 2 ^ 64" using r(3) by (rule le_less_trans) simp
  then have "unat (t + 8) = unat t + 8" "unat (t + 16) = unat t + 16" by (simp_all add: unat_word_ariths)
  then have "x \<in> fields t \<Longrightarrow> unat t \<le> unat x \<and> unat x + 8 \<le> unat t + 24" for x by (auto simp: fields_def)
  then show "slots_of a 32 \<inter> fields t = {}" using o block_slots [OF a] by fastforce
  have "og_encoded_null_address s \<notin> slots_of a 32" if nz: "og_encoded_null_address s \<noteq> 0"
  proof
    assume "og_encoded_null_address s \<in> slots_of a 32"
    moreover obtain q where "q \<in> set (context_regions s)" "unat (or_base q) \<le> unat (og_encoded_null_address s)"
        "unat (og_encoded_null_address s) < unat (or_end q)"
      using assms(3) nz by (auto simp: onexit_laid_out_def word_le_nat_alt word_less_nat_alt)
    ultimately show False using block_slots [OF a] assms(1) by (fastforce simp: outside_image_def)
  qed
  then show "cookie_clear s (fields t \<union> slots_of a 32)" using assms(3) by (auto simp: onexit_laid_out_def cookie_clear_def)
qed

lemma use_block_outcome:
  assumes u: "onexit_use_block t cb a s = (st, s')" and N: "gxos_crt_onexit_get_encoded_null s \<noteq> 0"
    and a: "outside_image a s" "onexit_check_table t s = None" "onexit_laid_out s t"
  shows "((st \<noteq> GXOS_CRT_ONEXIT_STATUS_OK \<and> og_memory s' = og_memory s) \<or>
    (st = GXOS_CRT_ONEXIT_STATUS_OK \<and> onexit_callbacks s' t = [cb] \<and> onexit_laid_out s' t \<and>
     tfirst s' t = a \<and> tlast s' t = a + 8 \<and> tend s' t = a + 0x100 \<and>
     og_context s' = og_context s \<and> og_context_valid s' = og_context_valid s \<and>
     gxos_crt_onexit_get_encoded_null s' = gxos_crt_onexit_get_encoded_null s)) \<and>
    ((\<forall>v \<in> {cb, a, a + 8, a + 0x100}. gxos_crt_onexit_encode_pointer s v \<noteq> 0) \<longrightarrow> st = GXOS_CRT_ONEXIT_STATUS_OK)"
proof (cases "gxos_crt_onexit_encode_pointer s cb = 0 \<or> gxos_crt_onexit_encode_pointer s a = 0 \<or>
    gxos_crt_onexit_encode_pointer s (a + 8) = 0 \<or> gxos_crt_onexit_encode_pointer s (a + 0x100) = 0")
  case True
  then have "onexit_use_block t cb a s = gxos_crt_onexit_release_allocation a 0x100 GXOS_CRT_ONEXIT_STATUS_ENCODING_UNAVAILABLE s"
    unfolding onexit_use_block_def Let_def matches_encode [OF N] by (intro if_P) blast
  then show ?thesis using u True by (auto simp: gxos_crt_onexit_release_allocation_def split: option.splits)
next
  case False
  let ?N = "gxos_crt_onexit_get_encoded_null s" and ?ec = "gxos_crt_onexit_encode_pointer s cb"
  let ?w = "onexit_write a ?ec (fill_slots a s)"
  let ?p = "onexit_publish t (gxos_crt_onexit_encode_pointer s a) (gxos_crt_onexit_encode_pointer s (a + 8))
      (gxos_crt_onexit_encode_pointer s (a + 0x100)) ?w"
  have lim: "unat a + 0x100 < 2 ^ 64" using a(1) by (simp add: outside_image_def)
  note cl = outside_clear [OF a]
  then have cs: "cookie_clear s (slots_of a 32)" by (auto simp: cookie_clear_def)
  note fs = fill_slots_memory [OF cs]
  have a0: "a \<in> slots_of a 32" by (auto simp: slots_of_def intro!: image_eqI [of _ _ 0])
  have cw: "gxos_crt_onexit_get_encoded_null ?w = ?N"
    using fs a0 by (intro same_cookie [OF _ _ cs]) auto
  have cp: "gxos_crt_onexit_get_encoded_null ?p = ?N"
    using fs a0 by (intro same_cookie [OF _ _ cl(2)]) (auto simp: fields_def)
  have slot: "og_memory ?w (a + 8 * of_nat i) = ?N" if "1 \<le> i" "i < 32" for i
  proof -
    have "a + 8 * of_nat i \<noteq> a" using block_slots_inj [OF lim, of i 0] that by auto
    moreover have "a + 8 * of_nat i \<in> slots_of a 32" using that by (auto simp: slots_of_def)
    ultimately show ?thesis using fs by simp
  qed
  have mN: "gxos_crt_onexit_encoded_pointer_matches ?w ?N 0"
    using N by (simp add: gxos_crt_onexit_encoded_pointer_matches_def decode_cong [OF cw])
  have all: "list_all (\<lambda>index. gxos_crt_onexit_encoded_pointer_matches ?w (og_memory ?w (a + 8 * of_nat index)) 0) [1..<32]"
    using slot mN by (auto simp: list_all_iff simp del: onexit_write_sel(1))
  have mc: "gxos_crt_onexit_encoded_pointer_matches ?w (og_memory ?w a) cb"
    using N False by (simp add: gxos_crt_onexit_encoded_pointer_matches_def decode_cong [OF cw])
  have r: "st = GXOS_CRT_ONEXIT_STATUS_OK" "s' = ?p"
    using u False N all mc unfolding onexit_use_block_def Let_def by (auto simp: matches_encode simp del: onexit_write_sel(1))
  have d: "gxos_crt_onexit_decode_pointer ?p = gxos_crt_onexit_decode_pointer s" by (rule decode_cong [OF cp])
  have b: "tfirst ?p t = a" "tlast ?p t = a + 8" "tend ?p t = a + 0x100" using N unfolding d by simp_all
  have "a \<noteq> t" "a \<noteq> t + 8" "a \<noteq> t + 16" using a0 cl(1) by (auto simp: fields_def)
  then have "onexit_callbacks ?p t = [cb]" unfolding onexit_callbacks_def d b [unfolded d] using N by simp
  moreover have "onexit_laid_out ?p t"
    using a(3) cl fs unfolding onexit_laid_out_def b by (simp add: cookie_clear_def)
  ultimately show ?thesis using r b cp fs by simp
qed

lemma world_irrelevant:
  "gxos_crt_onexit_get_encoded_null (s\<lparr> og_world := w \<rparr>) = gxos_crt_onexit_get_encoded_null s"
  "gxos_crt_onexit_decode_pointer (s\<lparr> og_world := w \<rparr>) = gxos_crt_onexit_decode_pointer s"
  "onexit_check_table t (s\<lparr> og_world := w \<rparr>) = onexit_check_table t s"
  "onexit_laid_out (s\<lparr> og_world := w \<rparr>) t = onexit_laid_out s t"
  "outside_image a (s\<lparr> og_world := w \<rparr>) = outside_image a s"
proof -
  show N: "gxos_crt_onexit_get_encoded_null (s\<lparr> og_world := w \<rparr>) = gxos_crt_onexit_get_encoded_null s"
    by (simp add: gxos_crt_onexit_get_encoded_null_def)
  show d: "gxos_crt_onexit_decode_pointer (s\<lparr> og_world := w \<rparr>) = gxos_crt_onexit_decode_pointer s" by (rule decode_cong [OF N])
  show "onexit_check_table t (s\<lparr> og_world := w \<rparr>) = onexit_check_table t s"
    by (simp add: onexit_check_table_def N gxos_crt_onexit_find_range_def)
  show "onexit_laid_out (s\<lparr> og_world := w \<rparr>) t = onexit_laid_out s t" by (simp add: onexit_laid_out_def d cookie_clear_def)
  show "outside_image a (s\<lparr> og_world := w \<rparr>) = outside_image a s" by (simp add: outside_image_def)
qed

lemma first_block_outcome:
  assumes f: "onexit_first_block t cb s = (st, s')" and N: "gxos_crt_onexit_get_encoded_null s \<noteq> 0"
    and a: "onexit_check_table t s = None" "onexit_laid_out s t"
  shows "(st \<noteq> GXOS_CRT_ONEXIT_STATUS_OK \<and> og_memory s' = og_memory s) \<or>
    (st = GXOS_CRT_ONEXIT_STATUS_OK \<and> onexit_callbacks s' t = [cb] \<and> onexit_laid_out s' t \<and>
     outside_image (tfirst s' t) s \<and> tlast s' t = tfirst s' t + 8 \<and> tend s' t = tfirst s' t + 0x100 \<and>
     og_context s' = og_context s \<and> og_context_valid s' = og_context_valid s \<and>
     gxos_crt_onexit_get_encoded_null s' = gxos_crt_onexit_get_encoded_null s)"
proof (cases "oc_allocate (og_context s) = None \<or> oc_free (og_context s) = None")
  case True
  then show ?thesis using f by (auto simp: onexit_first_block_def split: option.splits)
next
  case False
  then obtain allocate b w where al: "oc_allocate (og_context s) = Some allocate" "allocate (og_world s) 0x100 = (b, w)"
    by (auto intro: prod.exhaust)
  let ?s = "s\<lparr> og_world := w \<rparr>"
  show ?thesis
  proof (cases "outside_image b s \<and> onexit_first_block t cb s = onexit_use_block t cb b ?s")
    case True
    then have "onexit_use_block t cb b ?s = (st, s')" using f by simp
    note u = use_block_outcome [OF this, unfolded world_irrelevant, OF N conjunct1 [OF True] a]
    then show ?thesis using True by auto
  next
    case no: False
    have o: "outside_image b s" if "\<not> (b = 0)" "\<not> b > UINT64_MAX - 0x100" "gxos_crt_onexit_is_range b (b + 0x100)"
      "\<not> list_ex (\<lambda>r. gxos_crt_onexit_ranges_overlap b (b + 0x100) (or_base r) (or_end r)) (context_regions ?s)"
    proof -
      have le: "unat b + 0x100 < 2 ^ 64" using that(2) by (simp add: word_less_nat_alt)
      then have "unat (b + 0x100) = unat b + 0x100" by (simp add: unat_word_ariths)
      then show ?thesis using that(1,4) le
        by (auto simp: outside_image_def list_ex_iff gxos_crt_onexit_ranges_overlap_def word_less_nat_alt not_less)
    qed
    have "\<exists>status. status \<noteq> GXOS_CRT_ONEXIT_STATUS_OK \<and> (st, s') = gxos_crt_onexit_release_allocation b 0x100 status ?s"
      using f False al no o unfolding onexit_first_block_def Let_def by (fastforce split: if_splits)
    then show ?thesis by (auto simp: gxos_crt_onexit_release_allocation_def split: option.splits if_splits)
  qed
qed

text \<open>The allocator's answer to the first request can be used.\<close>

definition block_usable :: "u64 \<Rightarrow> 'w onexit_state \<Rightarrow> bool" where
  "block_usable cb s \<longleftrightarrow> (\<exists>allocate b w. oc_allocate (og_context s) = Some allocate \<and> oc_free (og_context s) \<noteq> None \<and>
     allocate (og_world s) 0x100 = (b, w) \<and> b AND 7 = 0 \<and> gxos_crt_onexit_is_canonical b \<and>
     gxos_crt_onexit_is_canonical (b + 0x100) \<and> outside_image b s \<and>
     (\<forall>v \<in> {cb, b, b + 8, b + 0x100}. gxos_crt_onexit_encode_pointer s v \<noteq> 0))"

lemma first_block_succeeds:
  assumes "block_usable cb s" and N: "gxos_crt_onexit_get_encoded_null s \<noteq> 0"
    and a: "onexit_check_table t s = None" "onexit_laid_out s t"
  shows "fst (onexit_first_block t cb s) = GXOS_CRT_ONEXIT_STATUS_OK"
proof -
  obtain allocate b w where u: "oc_allocate (og_context s) = Some allocate" "oc_free (og_context s) \<noteq> None"
    "allocate (og_world s) 0x100 = (b, w)" "b AND 7 = 0" "gxos_crt_onexit_is_canonical b"
    "gxos_crt_onexit_is_canonical (b + 0x100)" "outside_image b s"
    "\<forall>v \<in> {cb, b, b + 8, b + 0x100}. gxos_crt_onexit_encode_pointer s v \<noteq> 0"
    using assms(1) by (auto simp: block_usable_def)
  let ?s = "s\<lparr> og_world := w \<rparr>"
  have e: "gxos_crt_onexit_encode_pointer ?s = gxos_crt_onexit_encode_pointer s"
    by (simp add: fun_eq_iff gxos_crt_onexit_encode_pointer_def world_irrelevant)
  have le: "unat b + 0x100 < 2 ^ 64" using u(7) by (simp add: outside_image_def)
  then have be: "unat (b + 0x100) = unat b + 0x100" by (simp add: unat_word_ariths)
  have "\<not> b > UINT64_MAX - 0x100" using le by (simp add: word_less_nat_alt)
  moreover have "gxos_crt_onexit_is_range b (b + 0x100)"
    using u be by (simp add: gxos_crt_onexit_is_range_def outside_image_def word_less_nat_alt)
  moreover have "\<not> list_ex (\<lambda>r. gxos_crt_onexit_ranges_overlap b (b + 0x100) (or_base r) (or_end r)) (context_regions ?s)"
    using u(7) be by (fastforce simp: outside_image_def list_ex_iff gxos_crt_onexit_ranges_overlap_def word_less_nat_alt)
  moreover have "b \<noteq> 0" using u(7) by (simp add: outside_image_def)
  ultimately have "onexit_first_block t cb s = onexit_use_block t cb b ?s"
    using u unfolding onexit_first_block_def Let_def by (simp del: not_None_eq)
  moreover have "fst (onexit_use_block t cb b ?s) = GXOS_CRT_ONEXIT_STATUS_OK"
    using use_block_outcome [where s = ?s and a = b and t = t and cb = cb, unfolded world_irrelevant e, OF prod.collapse [symmetric] N u(7) a]
      u(8) by blast
  ultimately show ?thesis by simp
qed

subsection \<open>Contracts\<close>

text \<open>An image with one region and an empty table at \<open>0x2000\<close>; the allocator hands out \<open>0x20000\<close>.\<close>

definition example_context :: "unit GXOS_CRT_ONEXIT_CONTEXT" where
  "example_context = \<lparr> oc_image_base = 0x1000, oc_image_end = 0x10000, oc_encoded_null = 5, oc_relocations_applied = True,
     oc_region_count = 1, oc_initialized_table_count = 1, oc_initialized_tables = [0x2000, 0, 0, 0],
     oc_regions = [\<lparr> or_base = 0x1000, or_end = 0x10000, or_readable = True, or_executable = True, or_writable = True \<rparr>],
     oc_allocate = Some (\<lambda>w n. (0x20000, w)), oc_free = Some (\<lambda>w p n. w) \<rparr>"

definition example_table :: "unit onexit_state" where
  "example_table = \<lparr> og_encoded_null = 5, og_encoded_null_address = 0, og_context = example_context, og_context_valid = True,
     og_memory = (\<lambda>_. 5), og_world = () \<rparr>"

text \<open>
  Pointer encoding with a cookie that is not null is a bijection: decoding an encoded pointer gives the
  pointer back, encoding a decoded value gives the value back, and the encoded null pointer is the cookie.
\<close>

theorem onexit_pointer_roundtrip:
  assumes "gxos_crt_onexit_get_encoded_null s \<noteq> 0"
  shows "gxos_crt_onexit_decode_pointer s (gxos_crt_onexit_encode_pointer s p) = p \<and>
    gxos_crt_onexit_encode_pointer s (gxos_crt_onexit_decode_pointer s e) = e \<and>
    gxos_crt_onexit_encode_pointer s 0 = gxos_crt_onexit_get_encoded_null s \<and>
    bij (gxos_crt_onexit_encode_pointer s)"
proof -
  have "gxos_crt_onexit_encode_pointer s 0 = gxos_crt_onexit_get_encoded_null s"
    using encode_decode [OF assms, of "gxos_crt_onexit_get_encoded_null s"] by simp
  moreover have "bij (gxos_crt_onexit_encode_pointer s)"
    using decode_encode [OF assms] encode_decode [OF assms] by (intro o_bij [of "gxos_crt_onexit_decode_pointer s"]) auto
  ultimately show ?thesis using assms by simp
qed

theorem onexit_pointer_roundtrip_witness:
  "gxos_crt_onexit_decode_pointer example_table (gxos_crt_onexit_encode_pointer example_table 0x4000) = 0x4000 \<and>
   gxos_crt_onexit_encode_pointer example_table 0x4000 = 0x80005"
proof -
  have "gxos_crt_onexit_get_encoded_null example_table \<noteq> 0" by code_simp
  moreover have "gxos_crt_onexit_encode_pointer example_table 0x4000 = 0x80005" by code_simp
  ultimately show ?thesis using onexit_pointer_roundtrip [of example_table "0x4000" 0] by simp
qed

lemma append_succeeds:
  assumes "gxos_crt_onexit_get_encoded_null s \<noteq> 0" "onexit_laid_out s t"
    and chk: "onexit_check_storage (tfirst s t) (tlast s t) (tend s t) s = None" "tlast s t \<noteq> tend s t"
    and nz: "tlast s t \<noteq> 0" "tend s t \<noteq> 0"
    and "\<forall>v \<in> {cb, tfirst s t, tlast s t + 8, tend s t}. gxos_crt_onexit_encode_pointer s v \<noteq> 0"
  shows "fst (onexit_append t cb (tfirst s t) (tlast s t) (tend s t) s) = GXOS_CRT_ONEXIT_STATUS_OK"
proof -
  let ?f = "tfirst s t" and ?l = "tlast s t" and ?e = "tend s t"
  note ns = next_slot [OF chk] and sh = storage_shape [OF chk(1)]
  have "unat ?l + 8 < 2 ^ 64" using ns(4) by (rule le_less_trans) simp
  then have "\<not> ?l > UINT64_MAX - 8" by (simp add: word_less_nat_alt)
  moreover have "\<not> ?l + 8 > ?e" using ns(3,4) by (simp add: word_less_nat_alt)
  moreover have "\<not> (?l - ?f) div 8 > 0xFFFFFFFF"
  proof -
    have "(unat ?l - unat ?f) div 8 \<le> 0xFFFFFFFF" using sh(1,2,6) by linarith
    then show ?thesis by (simp add: word_less_nat_alt sh(7))
  qed
  ultimately show ?thesis using assms(1,7) chk(2) nz
    unfolding onexit_append_def Let_def appended_def [symmetric] appended_memory [OF assms(2) chk]
    by (simp add: matches_encode del: encode_decode)
qed

text \<open>
  C24. Registration over a table whose fields, slots and cookie are different objects: when it succeeds, the
  callback is appended to the callbacks of the table, and the objects are still apart; when it fails, the
  memory is as it was. It succeeds when the table and the callback pass the tests and either the storage
  passes its tests, a slot is free and no value to be stored encodes to 0, or the table is empty and the
  allocator answers with a usable block.
\<close>

theorem onexit_register_correct:
  assumes "gxos_crt_onexit_register_checked t cb s = (st, s')" and "onexit_laid_out s t"
  shows "(if st = GXOS_CRT_ONEXIT_STATUS_OK
      then onexit_callbacks s' t = onexit_callbacks s t @ [cb] \<and> onexit_laid_out s' t
      else og_memory s' = og_memory s) \<and>
    (onexit_check_table t s = None \<and> onexit_check_callback cb s = None \<and>
     tfirst s t \<noteq> 0 \<and> tlast s t \<noteq> 0 \<and> tend s t \<noteq> 0 \<and> tlast s t \<noteq> tend s t \<and>
     onexit_check_storage (tfirst s t) (tlast s t) (tend s t) s = None \<and>
     (\<forall>v \<in> {cb, tfirst s t, tlast s t + 8, tend s t}. gxos_crt_onexit_encode_pointer s v \<noteq> 0) \<longrightarrow>
     st = GXOS_CRT_ONEXIT_STATUS_OK) \<and>
    (onexit_check_table t s = None \<and> onexit_check_callback cb s = None \<and>
     tfirst s t = 0 \<and> tlast s t = 0 \<and> tend s t = 0 \<and> block_usable cb s \<longrightarrow> st = GXOS_CRT_ONEXIT_STATUS_OK)"
proof (cases "onexit_check_table t s = None \<and> onexit_check_callback cb s = None")
  case False
  then have "st \<noteq> GXOS_CRT_ONEXIT_STATUS_OK \<and> s' = s"
    using assms(1) by (auto simp: gxos_crt_onexit_register_checked_def Let_def onexit_check_table_def onexit_check_callback_def
        split: if_splits option.splits)
  then show ?thesis using False by auto
next
  case True
  then have N: "gxos_crt_onexit_get_encoded_null s \<noteq> 0" by (auto simp: onexit_check_table_def split: if_splits)
  have r: "gxos_crt_onexit_register_checked t cb s =
      (if (tfirst s t = 0 \<or> tlast s t = 0 \<or> tend s t = 0) \<and> \<not> (tfirst s t = 0 \<and> tlast s t = 0 \<and> tend s t = 0)
       then (GXOS_CRT_ONEXIT_STATUS_INVALID_TABLE_STATE, s)
       else if tfirst s t \<noteq> 0 then
         case onexit_check_storage (tfirst s t) (tlast s t) (tend s t) s of
           Some status \<Rightarrow> (status, s)
         | None \<Rightarrow> onexit_append t cb (tfirst s t) (tlast s t) (tend s t) s
       else onexit_first_block t cb s)"
    using True by (simp add: gxos_crt_onexit_register_checked_def Let_def)
  consider (bad) "(tfirst s t = 0 \<or> tlast s t = 0 \<or> tend s t = 0) \<and> \<not> (tfirst s t = 0 \<and> tlast s t = 0 \<and> tend s t = 0)"
    | (empty) "tfirst s t = 0" "tlast s t = 0" "tend s t = 0"
    | (stored) "tfirst s t \<noteq> 0" "tlast s t \<noteq> 0" "tend s t \<noteq> 0" by blast
  then show ?thesis
  proof cases
    case bad
    then show ?thesis using assms(1) unfolding r by auto
  next
    case empty
    then have "onexit_first_block t cb s = (st, s')" using assms(1) unfolding r by simp
    moreover have "onexit_callbacks s t = []" by (simp add: onexit_callbacks_def empty)
    ultimately show ?thesis
      using first_block_outcome [OF _ N conjunct1 [OF True] assms(2)] first_block_succeeds [OF _ N conjunct1 [OF True] assms(2)] empty
      by fastforce
  next
    case stored
    show ?thesis
    proof (cases "onexit_check_storage (tfirst s t) (tlast s t) (tend s t) s")
      case (Some status)
      then have "st = status" "s' = s" "status \<noteq> GXOS_CRT_ONEXIT_STATUS_OK"
        using assms(1) stored unfolding r by (auto simp: onexit_check_storage_def split: if_splits)
      then show ?thesis using Some stored by simp
    next
      case None
      then have a: "onexit_append t cb (tfirst s t) (tlast s t) (tend s t) s = (st, s')" using assms(1) stored unfolding r by simp
      show ?thesis
        using append_outcome [OF a N assms(2) None] append_callbacks [OF N assms(2) None] append_succeeds [OF N assms(2) None, of cb] a stored
        by auto
    qed
  qed
qed

lemma example_table_facts:
  "onexit_check_table 0x2000 example_table = None" "onexit_check_callback 0x4000 example_table = None"
  "tfirst example_table 0x2000 = 0" "tlast example_table 0x2000 = 0" "tend example_table 0x2000 = 0"
  "onexit_laid_out example_table 0x2000" "block_usable 0x4000 example_table"
proof -
  show "onexit_check_table 0x2000 example_table = None" "onexit_check_callback 0x4000 example_table = None"
    "tfirst example_table 0x2000 = 0" "tlast example_table 0x2000 = 0" "tend example_table 0x2000 = 0" by code_simp+
  then show "onexit_laid_out example_table 0x2000"
    by (simp add: onexit_laid_out_def slots_of_def cookie_clear_def) (simp add: example_table_def)
  have "\<forall>v \<in> {0x4000, 0x20000, 0x20008, 0x20100}. gxos_crt_onexit_encode_pointer example_table v \<noteq> 0" by code_simp
  then show "block_usable 0x4000 example_table"
    by (simp add: block_usable_def outside_image_def example_table_def example_context_def gxos_crt_onexit_is_canonical_def)
qed

theorem onexit_register_correct_witness:
  "(case gxos_crt_onexit_register_checked 0x2000 0x4000 example_table of (st, s') \<Rightarrow>
      st = GXOS_CRT_ONEXIT_STATUS_OK \<and> onexit_callbacks s' 0x2000 = [0x4000])"
proof -
  obtain st s' where r: "gxos_crt_onexit_register_checked 0x2000 0x4000 example_table = (st, s')" by fastforce
  have "onexit_callbacks example_table 0x2000 = []" by (simp add: onexit_callbacks_def example_table_facts [simplified])
  then show ?thesis using onexit_register_correct [OF r example_table_facts(6)] example_table_facts [simplified] r by simp
qed

text \<open>
  C25. Storage that registration itself allocated cannot be used again: once a callback was registered in an
  empty table, every further registration in that table fails and leaves it as it is, because the
  block must lie outside the regions of the context when it is allocated and inside one of them when it is used.
\<close>

theorem onexit_own_block_rejected:
  assumes "gxos_crt_onexit_register_checked t cb s = (GXOS_CRT_ONEXIT_STATUS_OK, s1)" and "onexit_laid_out s t"
    and "tfirst s t = 0" and "gxos_crt_onexit_register_checked t cb' s1 = (st, s2)"
  shows "st \<noteq> GXOS_CRT_ONEXIT_STATUS_OK \<and> onexit_callbacks s1 t = [cb] \<and> s2 = s1"
proof -
  have chk: "onexit_check_table t s = None" "onexit_check_callback cb s = None"
    using assms(1) by (auto simp: gxos_crt_onexit_register_checked_def Let_def onexit_check_table_def onexit_check_callback_def
        split: if_splits option.splits)
  then have N: "gxos_crt_onexit_get_encoded_null s \<noteq> 0" by (auto simp: onexit_check_table_def split: if_splits)
  have "onexit_first_block t cb s = (GXOS_CRT_ONEXIT_STATUS_OK, s1)"
    using assms(1,3) chk by (auto simp: gxos_crt_onexit_register_checked_def Let_def split: if_splits)
  note o = first_block_outcome [OF this N chk(1) assms(2), simplified]
  let ?a = "tfirst s1 t"
  have a: "outside_image ?a s1" using o by (simp add: outside_image_def)
  then have nz: "?a \<noteq> 0" by (simp add: outside_image_def)
  have lim: "unat ?a + 0x100 < 2 ^ 64" using a by (simp add: outside_image_def)
  then have e: "unat (?a + 0x100) = unat ?a + 0x100" by (simp add: unat_word_ariths)
  have "gxos_crt_onexit_find_range s1 ?a (?a + 0x100) True True = None"
    using a e by (fastforce simp: outside_image_def gxos_crt_onexit_find_range_def find_None_iff gxos_crt_onexit_range_contains_def word_le_nat_alt word_less_nat_alt)
  then have "onexit_check_storage ?a (?a + 8) (?a + 0x100) s1 \<noteq> None" by (simp add: onexit_check_storage_def)
  moreover have "onexit_check_storage x y z s1 \<noteq> Some GXOS_CRT_ONEXIT_STATUS_OK" for x y z by (simp add: onexit_check_storage_def)
  ultimately have "st \<noteq> GXOS_CRT_ONEXIT_STATUS_OK \<and> s2 = s1"
    using assms(4) o nz by (auto simp: gxos_crt_onexit_register_checked_def Let_def onexit_check_table_def onexit_check_callback_def
        split: if_splits option.splits)
  then show ?thesis using o by simp
qed

theorem onexit_own_block_rejected_witness:
  "(let s1 = snd (gxos_crt_onexit_register_checked 0x2000 0x4000 example_table)
    in fst (gxos_crt_onexit_register_checked 0x2000 0x4000 s1) \<noteq> GXOS_CRT_ONEXIT_STATUS_OK \<and> onexit_callbacks s1 0x2000 = [0x4000])"
proof -
  have "gxos_crt_onexit_register_checked 0x2000 0x4000 example_table = onexit_first_block 0x2000 0x4000 example_table"
    by (simp add: gxos_crt_onexit_register_checked_def Let_def example_table_facts [simplified])
  moreover have "fst (onexit_first_block 0x2000 0x4000 example_table) = GXOS_CRT_ONEXIT_STATUS_OK"
    by (rule first_block_succeeds [OF example_table_facts(7) _ example_table_facts(1,6)]) code_simp
  ultimately have "gxos_crt_onexit_register_checked 0x2000 0x4000 example_table =
      (GXOS_CRT_ONEXIT_STATUS_OK, snd (gxos_crt_onexit_register_checked 0x2000 0x4000 example_table))"
    by (simp add: prod_eq_iff)
  from onexit_own_block_rejected [OF this example_table_facts(6,3) prod.collapse [symmetric], of "0x4000"]
  show ?thesis by (simp add: Let_def)
qed

end
