(* ===== verification/Scheduler_Api.thy ===== *)
theory Scheduler_Api
  imports Scheduler_Guarantees
begin

text \<open>
  The Win32 layer over the scheduler: events and waits (\<open>event_api.c\<close>), creation of threads, events and memory
  notifications (\<open>create_thread.c\<close>, \<open>create_event_w.c\<close>, \<open>create_memory_resource_notification.c\<close>), standard handles
  (\<open>standard_handle.c\<close>), thread priority (\<open>set_thread_priority.c\<close>) and COM initialisation (\<open>com_api.c\<close>), all under
  \<open>src/src/Gate4Harness\<close>.

  A context argument is \<open>None\<close> for the null pointer; its \<open>scheduler\<close> field is a flag, set when the pointer is not
  null, since there is one scheduler. Pointer arguments that are only compared with null are \<open>u64\<close>. A null
  handle is 0. \<open>last_error\<close> of a standard-handle context is the cell \<open>sh_last_error\<close>, \<open>None\<close> when the pointer is null.

  A wait that blocks runs through assembly (\<open>scheduler_context.S\<close>): it calls \<open>gxos_scheduler_prepare_wait\<close>, stops
  the machine if that fails, switches to the thread of the plan if it blocked, and calls \<open>gxos_scheduler_finish_wait\<close>
  when the thread is back. The argument \<open>others\<close> is what the machine does between the two switches; a call that
  does not come back is \<open>None\<close>.
\<close>

subsection \<open>Events and waits\<close>

abbreviation (input) GXOS_EVENT_ERROR_INVALID_HANDLE :: u32 where "GXOS_EVENT_ERROR_INVALID_HANDLE \<equiv> 6"
abbreviation (input) GXOS_EVENT_ERROR_NOT_ENOUGH_MEMORY :: u32 where "GXOS_EVENT_ERROR_NOT_ENOUGH_MEMORY \<equiv> 8"
abbreviation (input) GXOS_EVENT_ERROR_INVALID_PARAMETER :: u32 where "GXOS_EVENT_ERROR_INVALID_PARAMETER \<equiv> 87"

record 'w GXOS_EVENT_API_CONTEXT =
  ea_scheduler :: bool
  ea_read_handle :: "('w sched \<Rightarrow> u64 \<Rightarrow> GXOS_SCHEDULER_HANDLE option) option"

definition set_scheduler_error :: "u32 \<Rightarrow> 'w sched \<Rightarrow> 'w sched" where
  "set_scheduler_error error s = gxos_scheduler_set_last_error error s"

definition open_event :: "'w sched \<Rightarrow> GXOS_SCHEDULER_HANDLE \<Rightarrow> nat option" where
  "open_event s handle =
     (case gxos_scheduler_object_from_handle s handle of
        None \<Rightarrow> None
      | Some i \<Rightarrow>
          let object = sc_objects s ! i in
          if ob_type object \<noteq> GXOS_SCHEDULER_OBJECT_EVENT \<or> ob_public_handle_refs object = 0 \<or> ob_close_state object \<or>
             ob_internal_refs object = 0 \<or> ob_target object = Target_Null then None
          else case target_event (ob_target object) of
            None \<Rightarrow> None
          | Some e \<Rightarrow>
              if \<not> wt_live (sc_events s ! e) \<or> wt_object_slot (sc_events s ! e) \<noteq> ob_slot object \<or>
                 wt_generation (sc_events s ! e) \<noteq> ob_generation object
              then None else Some e)"

definition wait_failure :: "u32 \<Rightarrow> 'w sched \<Rightarrow> u32 \<times> 'w sched" where
  "wait_failure error s = (GXOS_WAIT_FAILED, set_scheduler_error error s)"

definition gxos_scheduler_block_current ::
    "('w sched \<Rightarrow> 'w sched) \<Rightarrow> GXOS_SCHEDULER_HANDLE \<Rightarrow> 'w sched \<Rightarrow> (GXOS_SCHEDULER_WAIT_RESULT \<times> 'w sched) option" where
  "gxos_scheduler_block_current others handle s =
     (case gxos_scheduler_prepare_wait handle s of (result, plan, s) \<Rightarrow>
        if result = GXOS_SCHEDULER_WAIT_FAILURE then None
        else if result = GXOS_SCHEDULER_WAIT_BLOCKED then Some (gxos_scheduler_finish_wait handle (others s))
        else Some (gxos_scheduler_finish_wait handle s))"

text \<open>The preparation of a finite timeout: the failing code, or nothing.\<close>

definition wait_arm :: "u32 \<Rightarrow> 'w sched \<Rightarrow> bool \<times> 'w sched" where
  "wait_arm milliseconds s =
     (case sc_now_ms s of
        None \<Rightarrow> (False, s)
      | Some now \<Rightarrow>
          (case now (sy_world s) of (known, now_ms, w) \<Rightarrow>
             let s = s\<lparr> sy_world := w \<rparr> in
             if \<not> known then (False, s)
             else
               let deadline_ms = (if now_ms > UINT64_MAX - ucast milliseconds then UINT64_MAX
                                  else now_ms + ucast milliseconds)
               in gxos_scheduler_arm_wait_timeout deadline_ms (snd (gxos_scheduler_poll_timeouts s))))"

definition wait_block ::
    "('w sched \<Rightarrow> 'w sched) \<Rightarrow> GXOS_SCHEDULER_HANDLE \<Rightarrow> 'w sched \<Rightarrow> (u32 \<times> 'w sched) option" where
  "wait_block others handle s =
     (case gxos_scheduler_block_current others handle s of
        None \<Rightarrow> None
      | Some (wait_result, s) \<Rightarrow>
          if wait_result = GXOS_SCHEDULER_WAIT_SIGNALED then Some (GXOS_WAIT_OBJECT_0, s)
          else if wait_result = GXOS_SCHEDULER_WAIT_TIMED_OUT then Some (GXOS_WAIT_TIMEOUT, s)
          else Some (wait_failure GXOS_EVENT_ERROR_NOT_ENOUGH_MEMORY s))"

definition wait_one ::
    "('w sched \<Rightarrow> 'w sched) \<Rightarrow> 'w GXOS_EVENT_API_CONTEXT option \<Rightarrow> GXOS_SCHEDULER_HANDLE \<Rightarrow> u32 \<Rightarrow> u32 \<Rightarrow> 'w sched \<Rightarrow>
     (u32 \<times> 'w sched) option" where
  "wait_one others context handle milliseconds alertable s =
     (if (case context of None \<Rightarrow> True | Some c \<Rightarrow> \<not> ea_scheduler c \<or> \<not> sc_active s)
      then Some (wait_failure GXOS_EVENT_ERROR_INVALID_PARAMETER s)
      else if alertable \<noteq> 0 then Some (wait_failure GXOS_EVENT_ERROR_INVALID_PARAMETER s)
      else case gxos_scheduler_object_from_handle s handle of
        None \<Rightarrow> Some (wait_failure GXOS_EVENT_ERROR_INVALID_HANDLE s)
      | Some i \<Rightarrow>
          let object = sc_objects s ! i in
          if ob_public_handle_refs object = 0 \<or> ob_close_state object \<or> ob_internal_refs object = 0
          then Some (wait_failure GXOS_EVENT_ERROR_INVALID_HANDLE s)
          else if ob_type object \<noteq> GXOS_SCHEDULER_OBJECT_EVENT
          then Some (wait_failure GXOS_EVENT_ERROR_INVALID_PARAMETER s)
          else case open_event s handle of
            None \<Rightarrow> Some (wait_failure GXOS_EVENT_ERROR_INVALID_HANDLE s)
          | Some e \<Rightarrow>
              if wt_signaled (sc_events s ! e)
              then Some (GXOS_WAIT_OBJECT_0,
                         if wt_manual_reset (sc_events s ! e) then s
                         else upd_event e (\<lambda>x. x\<lparr> wt_signaled := False \<rparr>) s)
              else if milliseconds = 0 then Some (GXOS_WAIT_TIMEOUT, s)
              else if milliseconds \<noteq> GXOS_INFINITE
              then (case wait_arm milliseconds s of (armed, s) \<Rightarrow>
                      if \<not> armed then Some (wait_failure GXOS_EVENT_ERROR_INVALID_PARAMETER s)
                      else wait_block others handle s)
              else wait_block others handle s)"

definition gxos_set_event_contract ::
    "'w GXOS_EVENT_API_CONTEXT option \<Rightarrow> GXOS_SCHEDULER_HANDLE \<Rightarrow> 'w sched \<Rightarrow> bool \<times> 'w sched" where
  "gxos_set_event_contract context handle s =
     (if (case context of None \<Rightarrow> True | Some c \<Rightarrow> \<not> ea_scheduler c \<or> \<not> sc_active s) \<or> open_event s handle = None
      then (False, set_scheduler_error GXOS_EVENT_ERROR_INVALID_HANDLE s)
      else case gxos_scheduler_signal_event handle s of (ok, s) \<Rightarrow>
        if \<not> ok then (False, set_scheduler_error GXOS_EVENT_ERROR_INVALID_HANDLE s) else (True, s))"

definition gxos_reset_event_contract ::
    "'w GXOS_EVENT_API_CONTEXT option \<Rightarrow> GXOS_SCHEDULER_HANDLE \<Rightarrow> 'w sched \<Rightarrow> bool \<times> 'w sched" where
  "gxos_reset_event_contract context handle s =
     (if (case context of None \<Rightarrow> True | Some c \<Rightarrow> \<not> ea_scheduler c \<or> \<not> sc_active s) \<or> open_event s handle = None
      then (False, set_scheduler_error GXOS_EVENT_ERROR_INVALID_HANDLE s)
      else case gxos_scheduler_reset_event handle s of (ok, s) \<Rightarrow>
        if \<not> ok then (False, set_scheduler_error GXOS_EVENT_ERROR_INVALID_HANDLE s) else (True, s))"

definition gxos_wait_for_single_object_ex_contract ::
    "('w sched \<Rightarrow> 'w sched) \<Rightarrow> 'w GXOS_EVENT_API_CONTEXT option \<Rightarrow> GXOS_SCHEDULER_HANDLE \<Rightarrow> u32 \<Rightarrow> u32 \<Rightarrow> 'w sched \<Rightarrow>
     (u32 \<times> 'w sched) option" where
  "gxos_wait_for_single_object_ex_contract others context handle milliseconds alertable s =
     wait_one others context handle milliseconds alertable s"

definition gxos_wait_for_single_object_contract ::
    "('w sched \<Rightarrow> 'w sched) \<Rightarrow> 'w GXOS_EVENT_API_CONTEXT option \<Rightarrow> GXOS_SCHEDULER_HANDLE \<Rightarrow> u32 \<Rightarrow> 'w sched \<Rightarrow>
     (u32 \<times> 'w sched) option" where
  "gxos_wait_for_single_object_contract others context handle milliseconds s =
     wait_one others context handle milliseconds 0 s"

definition gxos_wait_for_multiple_objects_ex_contract ::
    "('w sched \<Rightarrow> 'w sched) \<Rightarrow> 'w GXOS_EVENT_API_CONTEXT option \<Rightarrow> u32 \<Rightarrow> u64 \<Rightarrow> u32 \<Rightarrow> u32 \<Rightarrow> u32 \<Rightarrow> 'w sched \<Rightarrow>
     (u32 \<times> 'w sched) option" where
  "gxos_wait_for_multiple_objects_ex_contract others context count handles wait_all milliseconds alertable s =
     (case context of
        None \<Rightarrow> Some (wait_failure GXOS_EVENT_ERROR_INVALID_PARAMETER s)
      | Some c \<Rightarrow>
          if \<not> ea_scheduler c \<or> \<not> sc_active s \<or> count \<noteq> 1 \<or> handles = 0 \<or> wait_all \<noteq> 0 \<or>
             milliseconds \<noteq> GXOS_INFINITE \<or> alertable \<noteq> 0
          then Some (wait_failure GXOS_EVENT_ERROR_INVALID_PARAMETER s)
          else case ea_read_handle c of
            None \<Rightarrow> Some (wait_failure GXOS_EVENT_ERROR_INVALID_PARAMETER s)
          | Some read_handle \<Rightarrow>
              (case read_handle s handles of
                 None \<Rightarrow> Some (wait_failure GXOS_EVENT_ERROR_INVALID_PARAMETER s)
               | Some handle \<Rightarrow> wait_one others context handle milliseconds alertable s))"

subsection \<open>Creation\<close>

abbreviation (input) GXOS_CREATE_THREAD_CREATE_SUSPENDED :: u32 where "GXOS_CREATE_THREAD_CREATE_SUSPENDED \<equiv> 4"
abbreviation (input) GXOS_CREATE_ERROR_INVALID_PARAMETER :: u32 where "GXOS_CREATE_ERROR_INVALID_PARAMETER \<equiv> 87"
abbreviation (input) GXOS_CREATE_ERROR_NOT_ENOUGH_MEMORY :: u32 where "GXOS_CREATE_ERROR_NOT_ENOUGH_MEMORY \<equiv> 8"

record GXOS_CREATE_THREAD_EXECUTABLE_REGION =
  er_base :: u64
  er_end :: u64

record GXOS_CREATE_THREAD_CONTEXT =
  ct_scheduler :: bool
  ct_payload_base :: u64
  ct_payload_size :: u64
  ct_executable_regions :: "GXOS_CREATE_THREAD_EXECUTABLE_REGION list option"

text \<open>
  \<open>set_failure_error\<close> of the three files; \<open>scheduler\<close> says that neither the context nor its scheduler pointer is null.
\<close>

definition set_failure_error :: "bool \<Rightarrow> u32 \<Rightarrow> 'w sched \<Rightarrow> 'w sched" where
  "set_failure_error scheduler error s =
     (if scheduler \<and> sc_active s then gxos_scheduler_set_last_error error s else s)"

definition gxos_create_thread_start_is_executable :: "GXOS_CREATE_THREAD_CONTEXT option \<Rightarrow> u64 \<Rightarrow> bool" where
  "gxos_create_thread_start_is_executable context start_routine =
     (case context of
        None \<Rightarrow> False
      | Some c \<Rightarrow>
          if start_routine = 0 \<or> ct_payload_base c = 0 \<or> ct_payload_size c = 0 \<or>
             ct_payload_base c > UINT64_MAX - ct_payload_size c then False
          else
            let payload_end = ct_payload_base c + ct_payload_size c in
            if start_routine < ct_payload_base c \<or> start_routine \<ge> payload_end then False
            else case ct_executable_regions c of
              None \<Rightarrow> False
            | Some regions \<Rightarrow>
                list_ex (\<lambda>region. er_base region \<ge> ct_payload_base c \<and> er_end region \<le> payload_end \<and>
                                  er_base region < er_end region \<and> start_routine \<ge> er_base region \<and>
                                  start_routine < er_end region) regions)"

text \<open>The result is the handle and the value stored through \<open>thread_out\<close>.\<close>

definition gxos_create_thread_contract ::
    "GXOS_CREATE_THREAD_CONTEXT option \<Rightarrow> u64 \<Rightarrow> u64 \<Rightarrow> u64 \<Rightarrow> u64 \<Rightarrow> u64 \<Rightarrow> u64 \<Rightarrow> 'w sched \<Rightarrow>
     GXOS_SCHEDULER_HANDLE \<times> nat option \<times> 'w sched" where
  "gxos_create_thread_contract context thread_attributes stack_size start_routine parameter creation_flags thread_id s =
     (let scheduler = (case context of None \<Rightarrow> False | Some c \<Rightarrow> ct_scheduler c) in
      if \<not> scheduler \<or> \<not> sc_active s \<or> thread_attributes \<noteq> 0 \<or> stack_size \<noteq> 0 \<or> start_routine = 0 \<or>
         \<not> gxos_create_thread_start_is_executable context start_routine \<or>
         (ucast creation_flags :: u32) \<noteq> GXOS_CREATE_THREAD_CREATE_SUSPENDED \<or> thread_id \<noteq> 0
      then (0, None, set_failure_error scheduler GXOS_CREATE_ERROR_INVALID_PARAMETER s)
      else case gxos_scheduler_create_suspended_thread start_routine parameter s of
        (None, s) \<Rightarrow> (0, None, set_failure_error scheduler GXOS_CREATE_ERROR_NOT_ENOUGH_MEMORY s)
      | (Some (handle, thread), s) \<Rightarrow> (handle, Some thread, s))"

text \<open>\<open>context\<close> says that neither the context nor its scheduler pointer is null.\<close>

definition gxos_create_event_w_contract ::
    "bool \<Rightarrow> u64 \<Rightarrow> int \<Rightarrow> int \<Rightarrow> u64 \<Rightarrow> 'w sched \<Rightarrow> GXOS_SCHEDULER_HANDLE \<times> 'w sched" where
  "gxos_create_event_w_contract scheduler event_attributes manual_reset initial_state name s =
     (if \<not> scheduler \<or> \<not> sc_active s \<or> event_attributes \<noteq> 0 \<or> name \<noteq> 0
      then (0, set_failure_error scheduler GXOS_CREATE_ERROR_INVALID_PARAMETER s)
      else case gxos_scheduler_create_event (manual_reset \<noteq> 0) (initial_state \<noteq> 0) s of
        (None, s) \<Rightarrow> (0, set_failure_error scheduler GXOS_CREATE_ERROR_NOT_ENOUGH_MEMORY s)
      | (Some handle, s) \<Rightarrow> (handle, s))"

definition gxos_create_memory_resource_notification_contract ::
    "bool \<Rightarrow> u32 \<Rightarrow> 'w sched \<Rightarrow> GXOS_SCHEDULER_HANDLE \<times> 'w sched" where
  "gxos_create_memory_resource_notification_contract scheduler notification_type s =
     (if \<not> scheduler \<or> \<not> sc_active s \<or> notification_type \<noteq> 0
      then (0, set_failure_error scheduler GXOS_CREATE_ERROR_INVALID_PARAMETER s)
      else case gxos_scheduler_create_memory_resource_notification notification_type s of
        (None, s) \<Rightarrow> (0, set_failure_error scheduler GXOS_CREATE_ERROR_NOT_ENOUGH_MEMORY s)
      | (Some handle, s) \<Rightarrow> (handle, s))"

subsection \<open>Standard handles\<close>

record GXOS_STANDARD_HANDLE_CONTEXT =
  sh_scheduler :: bool
  sh_last_error :: "u32 option"
  sh_input_available :: bool
  sh_output_available :: bool
  sh_error_available :: bool
  sh_output_backend :: u8
  sh_output_capabilities :: u8

definition set_last_error :: "u32 \<Rightarrow> GXOS_STANDARD_HANDLE_CONTEXT option \<Rightarrow> GXOS_STANDARD_HANDLE_CONTEXT option" where
  "set_last_error v context =
     map_option (\<lambda>c. if sh_last_error c \<noteq> None then c\<lparr> sh_last_error := Some v \<rparr> else c) context"

definition query_role ::
    "u8 \<Rightarrow> bool \<Rightarrow> GXOS_STANDARD_HANDLE_CONTEXT option \<Rightarrow> 'w sched \<Rightarrow>
     GXOS_SCHEDULER_HANDLE \<times> GXOS_STANDARD_HANDLE_CONTEXT option \<times> 'w sched" where
  "query_role role available context s =
     (case context of
        None \<Rightarrow> (0, context, s)
      | Some c \<Rightarrow>
          if \<not> available \<or> \<not> sh_scheduler c then (0, context, s)
          else
            let handle = gxos_scheduler_standard_handle_for_role s role in
            if handle \<noteq> 0 then (handle, context, s)
            else
              let roles = (if sh_output_available c then GXOS_SCHEDULER_STANDARD_STREAM_ROLE_OUTPUT else 0) OR
                          (if sh_error_available c then GXOS_SCHEDULER_STANDARD_STREAM_ROLE_ERROR else 0)
              in if roles = 0 then (0, set_last_error 8 context, s)
                 else case gxos_scheduler_install_standard_stream roles (sh_output_backend c) (sh_output_capabilities c) s of
                   (installed, s) \<Rightarrow>
                     if \<not> installed then (0, set_last_error 8 context, s)
                     else (gxos_scheduler_standard_handle_for_role s role, context, s))"

definition gxos_get_std_handle_contract ::
    "GXOS_STANDARD_HANDLE_CONTEXT option \<Rightarrow> u32 \<Rightarrow> 'w sched \<Rightarrow>
     GXOS_SCHEDULER_HANDLE \<times> GXOS_STANDARD_HANDLE_CONTEXT option \<times> 'w sched" where
  "gxos_get_std_handle_contract context selector s =
     (let available = (\<lambda>f. case context of None \<Rightarrow> False | Some c \<Rightarrow> f c) in
      if selector = 0xFFFFFFF6
      then query_role GXOS_SCHEDULER_STANDARD_STREAM_ROLE_INPUT (available sh_input_available) context s
      else if selector = 0xFFFFFFF5
      then query_role GXOS_SCHEDULER_STANDARD_STREAM_ROLE_OUTPUT (available sh_output_available) context s
      else if selector = 0xFFFFFFF4
      then query_role GXOS_SCHEDULER_STANDARD_STREAM_ROLE_ERROR (available sh_error_available) context s
      else (UINT64_MAX, set_last_error 6 context, s))"

subsection \<open>Thread priority\<close>

definition gxos_scheduler_set_thread_priority :: "GXOS_SCHEDULER_HANDLE \<Rightarrow> int \<Rightarrow> 'w sched \<Rightarrow> bool \<times> 'w sched" where
  "gxos_scheduler_set_thread_priority handle relative_priority s =
     (if relative_priority \<noteq> 2 then (False, s)
      else case gxos_scheduler_object_from_handle s handle of
        None \<Rightarrow> (False, s)
      | Some i \<Rightarrow>
          let object = sc_objects s ! i in
          if ob_type object \<noteq> GXOS_SCHEDULER_OBJECT_THREAD \<or> ob_public_handle_refs object = 0 \<or>
             ob_internal_refs object = 0 \<or> ob_target object = Target_Null then (False, s)
          else case ob_target object of
            Target_Thread t \<Rightarrow>
              if \<not> th_live (sc_threads s ! t) \<or> th_execution_refs (sc_threads s ! t) = 0 \<or>
                 th_state (sc_threads s ! t) = GXOS_SCHEDULER_THREAD_TERMINATED \<or>
                 th_object_slot (sc_threads s ! t) \<noteq> ob_slot object \<or>
                 th_generation (sc_threads s ! t) \<noteq> ob_generation object
              then (False, s)
              else (True, upd_thread t (\<lambda>x. x\<lparr> th_relative_priority := relative_priority \<rparr>) s)
          | _ \<Rightarrow> (False, s))"

subsection \<open>COM initialisation\<close>

abbreviation (input) GXOS_COM_MODEL_NONE :: u8 where "GXOS_COM_MODEL_NONE \<equiv> 0"
abbreviation (input) GXOS_COM_MODEL_MTA :: u8 where "GXOS_COM_MODEL_MTA \<equiv> 1"
abbreviation (input) GXOS_COM_MODEL_STA :: u8 where "GXOS_COM_MODEL_STA \<equiv> 2"
abbreviation (input) GXOS_COM_S_OK :: u32 where "GXOS_COM_S_OK \<equiv> 0"
abbreviation (input) GXOS_COM_S_FALSE :: u32 where "GXOS_COM_S_FALSE \<equiv> 1"
abbreviation (input) GXOS_COM_E_INVALIDARG :: u32 where "GXOS_COM_E_INVALIDARG \<equiv> 0x80070057"
abbreviation (input) GXOS_COM_E_NOTIMPL :: u32 where "GXOS_COM_E_NOTIMPL \<equiv> 0x80004001"
abbreviation (input) GXOS_COM_RPC_E_CHANGED_MODE :: u32 where "GXOS_COM_RPC_E_CHANGED_MODE \<equiv> 0x80010106"

definition com_state_is_valid :: "GXOS_SCHEDULER_TCB \<Rightarrow> bool" where
  "com_state_is_valid thread \<longleftrightarrow> th_live thread \<and> th_com_initialized thread \<and>
     th_com_model thread \<noteq> GXOS_COM_MODEL_NONE \<and> th_com_initialization_count thread \<noteq> 0 \<and>
     th_com_generation thread \<noteq> 0 \<and> th_com_generation thread = th_generation thread"

definition clear_com_state :: "GXOS_SCHEDULER_TCB \<Rightarrow> GXOS_SCHEDULER_TCB" where
  "clear_com_state thread = thread\<lparr> th_com_initialized := False, th_com_model := GXOS_COM_MODEL_NONE,
     th_com_ancillary_flags := 0, th_com_initialization_count := 0, th_com_generation := 0 \<rparr>"

definition gxos_com_initialize_ex :: "u64 \<Rightarrow> u32 \<Rightarrow> 'w sched \<Rightarrow> u32 \<times> 'w sched" where
  "gxos_com_initialize_ex pv_reserved coinit s =
     (if pv_reserved \<noteq> 0 \<or> coinit AND NOT 14 \<noteq> 0 then (GXOS_COM_E_INVALIDARG, s)
      else case gxos_scheduler_current_thread s of
        None \<Rightarrow> (GXOS_COM_E_NOTIMPL, s)
      | Some t \<Rightarrow>
          let thread = sc_threads s ! t;
              model = (if coinit AND 2 \<noteq> 0 then GXOS_COM_MODEL_STA else GXOS_COM_MODEL_MTA)
          in if \<not> th_live thread then (GXOS_COM_E_NOTIMPL, s)
             else if com_state_is_valid thread then
               if th_com_model thread \<noteq> model then (GXOS_COM_RPC_E_CHANGED_MODE, s)
               else if th_com_initialization_count thread = UINT32_MAX then (GXOS_COM_E_NOTIMPL, s)
               else (GXOS_COM_S_FALSE,
                     upd_thread t (\<lambda>x. x\<lparr> th_com_initialization_count := th_com_initialization_count x + 1 \<rparr>) s)
             else if model = GXOS_COM_MODEL_STA then (GXOS_COM_E_NOTIMPL, s)
             else (GXOS_COM_S_OK,
                   upd_thread t (\<lambda>x. (clear_com_state x)\<lparr> th_com_initialized := True, th_com_model := GXOS_COM_MODEL_MTA,
                     th_com_ancillary_flags := ucast (coinit AND 12), th_com_initialization_count := 1,
                     th_com_generation := th_generation x \<rparr>) s))"

definition gxos_com_uninitialize :: "'w sched \<Rightarrow> 'w sched" where
  "gxos_com_uninitialize s =
     (case gxos_scheduler_current_thread s of
        None \<Rightarrow> s
      | Some t \<Rightarrow>
          if \<not> com_state_is_valid (sc_threads s ! t) then s
          else if th_com_initialization_count (sc_threads s ! t) = 0 then s
          else upd_thread t (\<lambda>x.
            let x = x\<lparr> th_com_initialization_count := th_com_initialization_count x - 1 \<rparr> in
            if th_com_initialization_count x = 0 then clear_com_state x else x) s)"

text \<open>A thread pointer is \<open>None\<close> for null.\<close>

definition gxos_com_is_initialized :: "GXOS_SCHEDULER_TCB option \<Rightarrow> bool" where
  "gxos_com_is_initialized thread = (case thread of None \<Rightarrow> False | Some x \<Rightarrow> com_state_is_valid x)"

definition gxos_com_model :: "GXOS_SCHEDULER_TCB option \<Rightarrow> u32" where
  "gxos_com_model thread = (case thread of None \<Rightarrow> 0 | Some x \<Rightarrow> if com_state_is_valid x then ucast (th_com_model x) else 0)"

definition gxos_com_ancillary_flags :: "GXOS_SCHEDULER_TCB option \<Rightarrow> u32" where
  "gxos_com_ancillary_flags thread =
     (case thread of None \<Rightarrow> 0 | Some x \<Rightarrow> if com_state_is_valid x then ucast (th_com_ancillary_flags x) else 0)"

definition gxos_com_nesting_count :: "GXOS_SCHEDULER_TCB option \<Rightarrow> u32" where
  "gxos_com_nesting_count thread =
     (case thread of None \<Rightarrow> 0 | Some x \<Rightarrow> if com_state_is_valid x then th_com_initialization_count x else 0)"

definition gxos_com_state_generation :: "GXOS_SCHEDULER_TCB option \<Rightarrow> u32" where
  "gxos_com_state_generation thread =
     (case thread of None \<Rightarrow> 0 | Some x \<Rightarrow> if com_state_is_valid x then ucast (th_com_generation x) else 0)"

end
