(* ===== verification/Scheduler_Api_Correct.thy ===== *)
theory Scheduler_Api_Correct
  imports Scheduler_Api
begin

text \<open>
  What the Win32 layer promises: an event behind a handle behaves as the two-state automaton of its kind
  under any sequence of sets, resets and polls, and COM initialisation nests.
\<close>

subsection \<open>An event without waiters\<close>

definition idle_event :: "'w sched \<Rightarrow> GXOS_SCHEDULER_HANDLE \<Rightarrow> bool \<Rightarrow> bool \<Rightarrow> bool" where
  "idle_event s h manual signaled \<longleftrightarrow> sc_active s \<and>
     (\<exists>i e. gxos_scheduler_object_from_handle s h = Some i \<and> lookup_object s h GXOS_SCHEDULER_OBJECT_EVENT = Some i \<and>
        e < length (sc_events s) \<and>
        (let object = sc_objects s ! i; event = sc_events s ! e in
         ob_type object = GXOS_SCHEDULER_OBJECT_EVENT \<and> ob_public_handle_refs object \<noteq> 0 \<and> \<not> ob_close_state object \<and>
         ob_internal_refs object \<noteq> 0 \<and> ob_target object = Target_Event e \<and>
         wt_live event \<and> wt_object_slot event = ob_slot object \<and> wt_generation event = ob_generation object \<and>
         wt_waiters event = [] \<and> wt_manual_reset event = manual \<and> wt_signaled event = signaled))"

text \<open>The automaton: the answer to an operation and the next state of the signal.\<close>

datatype event_op = Op_Set | Op_Reset | Op_Poll

fun event_spec :: "bool \<Rightarrow> event_op \<Rightarrow> bool \<Rightarrow> u32 \<times> bool" where
  "event_spec manual Op_Set signaled = (1, True)"
| "event_spec manual Op_Reset signaled = (1, False)"
| "event_spec manual Op_Poll signaled = (if signaled then (GXOS_WAIT_OBJECT_0, manual) else (GXOS_WAIT_TIMEOUT, False))"

text \<open>The same operations through the API; a poll is a wait of 0 milliseconds.\<close>

fun event_api ::
    "('w sched \<Rightarrow> 'w sched) \<Rightarrow> 'w GXOS_EVENT_API_CONTEXT option \<Rightarrow> GXOS_SCHEDULER_HANDLE \<Rightarrow> event_op \<Rightarrow> 'w sched \<Rightarrow>
     (u32 \<times> 'w sched) option" where
  "event_api others context h Op_Set s = (case gxos_set_event_contract context h s of (ok, s) \<Rightarrow> Some (of_bool ok, s))"
| "event_api others context h Op_Reset s = (case gxos_reset_event_contract context h s of (ok, s) \<Rightarrow> Some (of_bool ok, s))"
| "event_api others context h Op_Poll s = gxos_wait_for_single_object_contract others context h 0 s"

fun run_event_api ::
    "('w sched \<Rightarrow> 'w sched) \<Rightarrow> 'w GXOS_EVENT_API_CONTEXT option \<Rightarrow> GXOS_SCHEDULER_HANDLE \<Rightarrow> event_op list \<Rightarrow> 'w sched \<Rightarrow>
     u32 list option" where
  "run_event_api others context h [] s = Some []"
| "run_event_api others context h (op # ops) s =
     (case event_api others context h op s of
        None \<Rightarrow> None
      | Some (r, s) \<Rightarrow> map_option ((#) r) (run_event_api others context h ops s))"

fun run_event_spec :: "bool \<Rightarrow> event_op list \<Rightarrow> bool \<Rightarrow> u32 list" where
  "run_event_spec manual [] signaled = []"
| "run_event_spec manual (op # ops) signaled =
     (case event_spec manual op signaled of (r, signaled) \<Rightarrow> r # run_event_spec manual ops signaled)"

lemma lookup_upd_event [simp]:
  "lookup_object (upd_event e f s) h ty = lookup_object s h ty"
  "gxos_scheduler_object_from_handle (upd_event e f s) h = gxos_scheduler_object_from_handle s h"
  by (simp_all add: lookup_object_def gxos_scheduler_object_from_handle_def upd_event_def Let_def split: option.split)

lemma idle_eventE:
  assumes "idle_event s h manual signaled"
  obtains e where "open_event s h = Some e" "event_of_handle s h = Some e" "e < length (sc_events s)"
    "wt_live (sc_events s ! e)" "wt_waiters (sc_events s ! e) = []" "wt_manual_reset (sc_events s ! e) = manual"
    "wt_signaled (sc_events s ! e) = signaled" "\<forall>b. idle_event (upd_event e (\<lambda>x. x\<lparr> wt_signaled := b \<rparr>) s) h manual b"
proof -
  obtain i e where i: "gxos_scheduler_object_from_handle s h = Some i" "lookup_object s h GXOS_SCHEDULER_OBJECT_EVENT = Some i"
    "e < length (sc_events s)" "ob_type (sc_objects s ! i) = GXOS_SCHEDULER_OBJECT_EVENT" "ob_public_handle_refs (sc_objects s ! i) \<noteq> 0"
    "\<not> ob_close_state (sc_objects s ! i)" "ob_internal_refs (sc_objects s ! i) \<noteq> 0" "ob_target (sc_objects s ! i) = Target_Event e"
    "wt_live (sc_events s ! e)" "wt_object_slot (sc_events s ! e) = ob_slot (sc_objects s ! i)"
    "wt_generation (sc_events s ! e) = ob_generation (sc_objects s ! i)" "wt_waiters (sc_events s ! e) = []"
    "wt_manual_reset (sc_events s ! e) = manual" "wt_signaled (sc_events s ! e) = signaled" "sc_active s"
    using assms by (auto simp: idle_event_def Let_def)
  show thesis
  proof (rule that)
    show "open_event s h = Some e" "event_of_handle s h = Some e" using i by (simp_all add: open_event_def event_of_handle_def)
    show "\<forall>b. idle_event (upd_event e (\<lambda>x. x\<lparr> wt_signaled := b \<rparr>) s) h manual b"
      using i by (auto simp: idle_event_def Let_def) (auto simp: upd_event_def)
  qed (use i in auto)
qed

lemma idle_event_object:
  assumes "idle_event s h manual signaled"
  obtains i where "gxos_scheduler_object_from_handle s h = Some i" "ob_type (sc_objects s ! i) = GXOS_SCHEDULER_OBJECT_EVENT"
    "ob_public_handle_refs (sc_objects s ! i) \<noteq> 0" "\<not> ob_close_state (sc_objects s ! i)" "ob_internal_refs (sc_objects s ! i) \<noteq> 0"
  using assms by (auto simp: idle_event_def Let_def)

lemma event_api_step:
  assumes idle: "idle_event s h manual signaled" and c: "context = Some c" "ea_scheduler c"
  shows "\<exists>s'. event_api others context h op s = Some (fst (event_spec manual op signaled), s') \<and>
    idle_event s' h manual (snd (event_spec manual op signaled))"
proof -
  have act: "sc_active s" using idle by (simp add: idle_event_def)
  obtain e where e: "open_event s h = Some e" "event_of_handle s h = Some e" "e < length (sc_events s)"
    "wt_live (sc_events s ! e)" "wt_waiters (sc_events s ! e) = []" "wt_manual_reset (sc_events s ! e) = manual"
    "wt_signaled (sc_events s ! e) = signaled" and nx: "\<forall>b. idle_event (upd_event e (\<lambda>x. x\<lparr> wt_signaled := b \<rparr>) s) h manual b"
    using idle by (rule idle_eventE)
  show ?thesis
  proof (cases op)
    case Op_Set
    have "wt_waiters (sc_events (upd_event e (\<lambda>x. x\<lparr> wt_signaled := True \<rparr>) s) ! e) = []"
      using e(3,5) by (simp add: upd_event_def)
    then have "wake_all (Waitable_Event e) (upd_event e (\<lambda>x. x\<lparr> wt_signaled := True \<rparr>) s) = upd_event e (\<lambda>x. x\<lparr> wt_signaled := True \<rparr>) s"
      by (subst wake_all.simps) (simp add: waitable_at_def)
    then show ?thesis using Op_Set c act e nx [rule_format, of True]
      by (auto simp: gxos_set_event_contract_def gxos_scheduler_signal_event_def Let_def)
  next
    case Op_Reset
    then show ?thesis using c act e nx [rule_format, of False] by (auto simp: gxos_reset_event_contract_def gxos_scheduler_reset_event_def)
  next
    case Op_Poll
    obtain i where "gxos_scheduler_object_from_handle s h = Some i" "ob_type (sc_objects s ! i) = GXOS_SCHEDULER_OBJECT_EVENT"
      "ob_public_handle_refs (sc_objects s ! i) \<noteq> 0" "\<not> ob_close_state (sc_objects s ! i)" "ob_internal_refs (sc_objects s ! i) \<noteq> 0"
      using idle by (rule idle_event_object)
    then show ?thesis using Op_Poll c act e nx [rule_format, of False] idle
      by (auto simp: gxos_wait_for_single_object_contract_def wait_one_def Let_def)
  qed
qed

lemma run_event_api_spec:
  assumes "idle_event s h manual signaled" "context = Some c" "ea_scheduler c"
  shows "run_event_api others context h ops s = Some (run_event_spec manual ops signaled)"
  using assms(1)
proof (induction ops arbitrary: s signaled)
  case (Cons op ops)
  obtain s' where "event_api others context h op s = Some (fst (event_spec manual op signaled), s')"
    "idle_event s' h manual (snd (event_spec manual op signaled))"
    using event_api_step [OF Cons.prems assms(2,3)] by blast
  then show ?case using Cons.IH by (simp add: split_beta)
qed simp

lemma create_event_idle:
  assumes "sched_inv s" "sc_active s" "gxos_scheduler_create_event m b s = (Some h, s')"
  shows "idle_event s' h m b"
proof (rule create_event_cases [OF assms(1), of m b], goal_cases full new)
  case (full e)
  then show ?case using assms(3) by simp
next
  case (new e i g)
  have len: "length (sc_events s) = 12" "length (sc_objects s) = 16"
    using wait_okD(3) objects_okD(1) sched_invD(7,8) [OF assms(1)] by blast+
  have g: "g \<noteq> 0" using new(5) by (auto simp: next_object_generation_def)
  have gs: "g_scheduler s" using sched_invD(1) [OF assms(1)] .
  have h: "h = make_handle GXOS_SCHEDULER_OBJECT_EVENT i g"
    "s' = s\<lparr> sc_objects := (sc_objects s)[i := new_object s i GXOS_SCHEDULER_OBJECT_EVENT (Target_Event e)],
            sc_events := (sc_events s)[e := new_event m b g i] \<rparr>" using new(6) assms(3) by auto
  have o: "sc_objects s' ! i = new_object s i GXOS_SCHEDULER_OBJECT_EVENT (Target_Event e)" "sc_events s' ! e = new_event m b g i"
    using new(1,2) len by (simp_all add: h)
  have l: "lookup_object s' h GXOS_SCHEDULER_OBJECT_EVENT = Some i"
    unfolding lookup_object_iff o using new(2,5) g gs by (simp add: h decode_make new_object_def)
  then have "gxos_scheduler_object_from_handle s' h = Some i"
    using new(2) by (simp add: gxos_scheduler_object_from_handle_def h)
  moreover have "sc_active s'" "e < length (sc_events s')" using new(1) len assms(2) by (simp_all add: h)
  ultimately show ?case unfolding idle_event_def Let_def using l
    by (intro conjI exI [of _ i] exI [of _ e]) (simp_all add: o new(5) new_object_def zero_object_def new_event_def zero_waitable_def)
qed

text \<open>
  C26. An event created through the API behaves as its specification: for every sequence of sets, resets and polls
  the answers are those of the two-state automaton. A manual event stays signaled until it is reset, an
  automatic event is consumed by the poll that sees it, and a poll of an unsignaled event times out. Every call
  returns.
\<close>

theorem event_api_refines_automaton:
  assumes "sched_reachable s" and "gxos_create_event_w_contract True 0 manual initial 0 s = (h, s')" and "h \<noteq> 0"
  shows "run_event_api others (Some \<lparr> ea_scheduler = True, ea_read_handle = r \<rparr>) h ops s' =
    Some (run_event_spec (manual \<noteq> 0) ops (initial \<noteq> 0))"
proof -
  have "sc_active s" "gxos_scheduler_create_event (manual \<noteq> 0) (initial \<noteq> 0) s = (Some h, s')"
    using assms(2,3) by (auto simp: gxos_create_event_w_contract_def split: if_splits option.splits prod.splits)
  then have "idle_event s' h (manual \<noteq> 0) (initial \<noteq> 0)"
    using create_event_idle reachable_inv [OF assms(1)] by blast
  then show ?thesis by (rule run_event_api_spec [OF _ refl]) simp
qed

theorem event_api_refines_automaton_witness:
  "run_event_api (\<lambda>s. s) (Some \<lparr> ea_scheduler = True, ea_read_handle = None \<rparr>) event_handle
     [Op_Poll, Op_Poll, Op_Set, Op_Poll, Op_Poll] (with_event False True) = Some [0, 0x102, 1, 0, 0x102]"
proof -
  have "gxos_create_event_w_contract True 0 0 1 0 booted = (event_handle, with_event False True)"
    by (simp add: gxos_create_event_w_contract_def booted_sel with_event_run)
  from event_api_refines_automaton [OF booted_reachable this, of "\<lambda>s. s" None "[Op_Poll, Op_Poll, Op_Set, Op_Poll, Op_Poll]"]
  show ?thesis by simp
qed

subsection \<open>COM initialisation\<close>

text \<open>The current thread, live, with a nesting depth of \<open>n\<close> in the multithreaded model.\<close>

definition com_depth :: "nat \<Rightarrow> nat \<Rightarrow> 'w sched \<Rightarrow> bool" where
  "com_depth t n s \<longleftrightarrow> gxos_scheduler_current_thread s = Some t \<and> t < length (sc_threads s) \<and>
     th_live (sc_threads s ! t) \<and> th_generation (sc_threads s ! t) \<noteq> 0 \<and>
     (if n = 0 then \<not> com_state_is_valid (sc_threads s ! t)
      else com_state_is_valid (sc_threads s ! t) \<and> th_com_model (sc_threads s ! t) = GXOS_COM_MODEL_MTA \<and>
           unat (th_com_initialization_count (sc_threads s ! t)) = n)"

lemma current_thread_upd [simp]: "gxos_scheduler_current_thread (upd_thread t f s) = gxos_scheduler_current_thread s"
  by (simp add: gxos_scheduler_current_thread_def upd_thread_def)

lemma upd_thread_nth: "t < length (sc_threads s) \<Longrightarrow> sc_threads (upd_thread t f s) ! t = f (sc_threads s ! t) \<and>
    length (sc_threads (upd_thread t f s)) = length (sc_threads s)"
  by (simp add: upd_thread_def)

lemma com_initialize_depth:
  assumes "com_depth t n s" "n < 2 ^ 32 - 1" "coinit AND NOT 14 = 0" "coinit AND 2 = 0"
  shows "fst (gxos_com_initialize_ex 0 coinit s) = (if n = 0 then GXOS_COM_S_OK else GXOS_COM_S_FALSE) \<and>
    com_depth t (Suc n) (snd (gxos_com_initialize_ex 0 coinit s))"
proof (cases "n = 0")
  case True
  then have d: "gxos_scheduler_current_thread s = Some t" "t < length (sc_threads s)" "th_live (sc_threads s ! t)"
    "th_generation (sc_threads s ! t) \<noteq> 0" "\<not> com_state_is_valid (sc_threads s ! t)" using assms(1) by (auto simp: com_depth_def)
  have "gxos_com_initialize_ex 0 coinit s = (GXOS_COM_S_OK,
      upd_thread t (\<lambda>x. (clear_com_state x)\<lparr> th_com_initialized := True, th_com_model := GXOS_COM_MODEL_MTA,
        th_com_ancillary_flags := ucast (coinit AND 12), th_com_initialization_count := 1,
        th_com_generation := th_generation x \<rparr>) s)"
    using d assms(3,4) by (simp add: gxos_com_initialize_ex_def)
  then show ?thesis using d True by (simp add: com_depth_def upd_thread_nth com_state_is_valid_def clear_com_state_def)
next
  case False
  then have c: "unat (th_com_initialization_count (sc_threads s ! t)) = n" using assms(1) by (simp add: com_depth_def)
  have "unat (UINT32_MAX :: u32) = 2 ^ 32 - 1" by (simp add: unsigned_minus_1_eq_mask mask_eq_exp_minus_1)
  then have ne: "th_com_initialization_count (sc_threads s ! t) \<noteq> UINT32_MAX" using assms(2) c by auto
  have suc: "unat (th_com_initialization_count (sc_threads s ! t) + 1) = Suc n" using c assms(2) by (simp add: unat_Suc32)
  then have "th_com_initialization_count (sc_threads s ! t) + 1 \<noteq> 0" by auto
  then show ?thesis using assms False c ne suc
    by (auto simp: com_depth_def gxos_com_initialize_ex_def Let_def upd_thread_nth com_state_is_valid_def)
qed

lemma com_uninitialize_depth: "com_depth t n s \<Longrightarrow> com_depth t (n - 1) (gxos_com_uninitialize s)"
proof (cases "n = 0")
  case True
  then show "com_depth t n s \<Longrightarrow> ?thesis" by (simp add: com_depth_def gxos_com_uninitialize_def)
next
  case False
  assume d: "com_depth t n s"
  then have c: "unat (th_com_initialization_count (sc_threads s ! t)) = n" using False by (simp add: com_depth_def)
  then have nz: "th_com_initialization_count (sc_threads s ! t) \<noteq> 0" using False by auto
  have pred: "unat (th_com_initialization_count (sc_threads s ! t) - 1) = n - 1" using c nz by (simp add: unat_pred)
  then have "th_com_initialization_count (sc_threads s ! t) - 1 = 0 \<longleftrightarrow> n = 1" using False by (auto simp: unat_eq_iff)
  then show ?thesis using d False c nz pred
    by (auto simp: com_depth_def gxos_com_uninitialize_def Let_def upd_thread_nth com_state_is_valid_def clear_com_state_def)
qed

text \<open>
  COM initialisation of a thread nests: after \<open>n\<close> initialisations in the multithreaded model and \<open>m\<close> uninitialisations, in
  this order, the nesting count is \<open>n - m\<close>, and the thread is initialised iff \<open>m < n\<close>; uninitialisations beyond the last are
  ignored.
\<close>

theorem com_nesting_exact:
  assumes "gxos_scheduler_current_thread s = Some t" and "t < length (sc_threads s)" and "th_live (sc_threads s ! t)"
    and "th_generation (sc_threads s ! t) \<noteq> 0" and "\<not> gxos_com_is_initialized (Some (sc_threads s ! t))" and "n < 2 ^ 32"
  shows "let s' = (gxos_com_uninitialize ^^ m) (((\<lambda>s. snd (gxos_com_initialize_ex 0 0 s)) ^^ n) s) in
    unat (gxos_com_nesting_count (Some (sc_threads s' ! t))) = n - m \<and>
    gxos_com_is_initialized (Some (sc_threads s' ! t)) = (m < n)"
proof -
  have "com_depth t n (((\<lambda>s. snd (gxos_com_initialize_ex 0 0 s)) ^^ n) s)" if "n < 2 ^ 32" for n
    using that
  proof (induction n)
    case 0
    then show ?case using assms by (simp add: com_depth_def gxos_com_is_initialized_def)
  next
    case (Suc n)
    then have "com_depth t n (((\<lambda>s. snd (gxos_com_initialize_ex 0 0 s)) ^^ n) s)" "n < 2 ^ 32 - 1" by simp_all
    from com_initialize_depth [OF this, of 0] show ?case by simp
  qed
  then have "com_depth t (n - m) ((gxos_com_uninitialize ^^ m) (((\<lambda>s. snd (gxos_com_initialize_ex 0 0 s)) ^^ n) s))" for m
  proof (induction m)
    case (Suc m)
    then show ?case using com_uninitialize_depth [of t "n - m"] assms(6) by simp
  qed (use assms(6) in simp)
  from this [of m] show ?thesis
    by (auto simp: Let_def com_depth_def gxos_com_nesting_count_def gxos_com_is_initialized_def split: if_splits)
qed

theorem com_nesting_exact_witness:
  "let s' = (gxos_com_uninitialize ^^ 1) (((\<lambda>s. snd (gxos_com_initialize_ex 0 0 s)) ^^ 3) booted) in
    unat (gxos_com_nesting_count (Some (sc_threads s' ! 0))) = 2 \<and> gxos_com_is_initialized (Some (sc_threads s' ! 0))"
proof -
  have "gxos_scheduler_current_thread booted = Some 0" by (simp add: gxos_scheduler_current_thread_def booted_sel)
  moreover have "0 < length (sc_threads booted)" "th_live (sc_threads booted ! 0)" "th_generation (sc_threads booted ! 0) \<noteq> 0"
    "\<not> gxos_com_is_initialized (Some (sc_threads booted ! 0))"
    by (simp_all add: booted_def gxos_scheduler_initialize_def Let_def allocate_object_def zero_scheduler_def upd_thread_def upd_object_def
        zero_object_def allocate_thread_environment_def page_allocate_def bump_alloc_def poke_def set_gs_base_def
        next_object_generation_def gxos_com_is_initialized_def com_state_is_valid_def zero_tcb_def)
  ultimately show ?thesis using com_nesting_exact [of booted 0 3 1] by (simp add: Let_def)
qed

end
