(* ===== verification/Crt_Regions.thy ===== *)
theory Crt_Regions
  imports Checked_Arith
begin

text \<open>
  The memory regions that the argument checks of the run-time library and of \<open>WriteFile\<close> consult,
  \<open>src/src/Gate4Harness/crt_initterm.h\<close>, and the byte memory that the theories of strings, images and
  handlers share, with the relation \<open>frame\<close> between two memories that differ only inside a range.
\<close>

type_synonym memory = "u64 \<Rightarrow> u8"

record GXOS_CRT_INITTERM_MEMORY_REGION =
  rg_base :: u64
  rg_end :: u64
  rg_readable :: bool
  rg_executable :: bool
  rg_writable :: bool

definition frame :: "memory \<Rightarrow> memory \<Rightarrow> nat \<Rightarrow> nat \<Rightarrow> bool" where
  "frame m m' lo n \<longleftrightarrow> (\<forall>a. unat a < lo \<or> lo + n \<le> unat a \<longrightarrow> m' a = m a)"

lemma frame_trans: "frame m m1 lo n \<Longrightarrow> frame m1 m2 (lo + n) k \<Longrightarrow> frame m m2 lo (n + k)"
  by (auto simp: frame_def)

lemma frame_refl [simp]: "frame m m lo n"
  by (simp add: frame_def)

lemma frame_same: "frame m m1 lo n \<Longrightarrow> frame m1 m2 lo n \<Longrightarrow> frame m m2 lo n"
  by (simp add: frame_def)

lemma frame_weaken:
  assumes "frame m m' lo n" "lo' \<le> lo" "lo + n \<le> lo' + n'"
  shows "frame m m' lo' n'"
  using assms(1) unfolding frame_def
proof (intro allI impI)
  fix a :: u64 assume f: "\<forall>a. unat a < lo \<or> lo + n \<le> unat a \<longrightarrow> m' a = m a" and "unat a < lo' \<or> lo' + n' \<le> unat a"
  then have "unat a < lo \<or> lo + n \<le> unat a" using assms(2,3) by linarith
  with f show "m' a = m a" by blast
qed

lemma frame_update: "lo \<le> unat a \<Longrightarrow> unat a < lo + n \<Longrightarrow> frame m (m(a := b)) lo n"
  by (auto simp: frame_def)

end
