(* ===== verification/Write_File.thy ===== *)
theory Write_File
  imports Scheduler_Api Crt_Regions
begin

text \<open>
  \<open>WriteFile\<close>, \<open>src/src/Gate4Harness/write_file.c\<close>: every argument is validated before the backend is called.

  Context, call and report are records; the context is \<open>None\<close> for a null pointer, so is the call. The memory is the
  byte memory of the machine, \<open>sy_memory\<close>. \<open>wf_last_error\<close> is the cell behind \<open>last_error\<close>, \<open>None\<close> when the pointer is null;
  \<open>wf_regions\<close> is \<open>None\<close> when the array pointer is null, else it has \<open>region_count\<close> entries. The backend gets the bytes of the
  buffer and returns whether it succeeded and the count it stored; it and \<open>pre_output\<close> act on \<open>sy_world\<close>. The captured bytes
  are lists of \<open>first_capture_count\<close> and \<open>last_capture_count\<close> bytes. Flags of the report are booleans. The model is the call with
  a report, without one the code returns 0 at once.
\<close>

subsection \<open>Data\<close>

datatype GXOS_WRITE_FILE_STATUS =
    GXOS_WRITE_FILE_STATUS_OK
  | GXOS_WRITE_FILE_STATUS_INVALID_CONTEXT
  | GXOS_WRITE_FILE_STATUS_INVALID_HANDLE
  | GXOS_WRITE_FILE_STATUS_UNSUPPORTED_OBJECT
  | GXOS_WRITE_FILE_STATUS_ACCESS_DENIED
  | GXOS_WRITE_FILE_STATUS_INVALID_PARAMETER
  | GXOS_WRITE_FILE_STATUS_NULL_BUFFER
  | GXOS_WRITE_FILE_STATUS_NONCANONICAL_BUFFER
  | GXOS_WRITE_FILE_STATUS_UNREADABLE_BUFFER
  | GXOS_WRITE_FILE_STATUS_BUFFER_RANGE_OVERFLOW
  | GXOS_WRITE_FILE_STATUS_NULL_BYTES_WRITTEN
  | GXOS_WRITE_FILE_STATUS_NONCANONICAL_BYTES_WRITTEN
  | GXOS_WRITE_FILE_STATUS_UNWRITABLE_BYTES_WRITTEN
  | GXOS_WRITE_FILE_STATUS_BYTES_WRITTEN_RANGE_OVERFLOW
  | GXOS_WRITE_FILE_STATUS_OVERLAPPED_UNSUPPORTED
  | GXOS_WRITE_FILE_STATUS_BACKEND_FAILURE
  | GXOS_WRITE_FILE_STATUS_BACKEND_COUNT_INVALID

record GXOS_WRITE_FILE_CALL =
  wc_h_file :: GXOS_SCHEDULER_HANDLE
  wc_buffer :: u64
  wc_bytes_to_write :: u32
  wc_bytes_written :: u64
  wc_overlapped :: u64
  wc_return_address :: u64

record GXOS_WRITE_FILE_REPORT =
  wp_status :: GXOS_WRITE_FILE_STATUS
  wp_win32_error :: u32
  wp_result_bool :: bool
  wp_buffer_range_valid :: bool
  wp_bytes_written_range_valid :: bool
  wp_output_started :: bool
  wp_backend_succeeded :: bool
  wp_backend_count_valid :: bool
  wp_thread_identity :: u32
  wp_object_type :: u8
  wp_object_slot :: nat
  wp_object_generation :: u16
  wp_public_handle_refs_before :: u32
  wp_internal_refs_before :: u32
  wp_public_handle_refs_after :: u32
  wp_internal_refs_after :: u32
  wp_stream_backend :: u8
  wp_stream_capabilities :: u8
  wp_bytes_written_result :: u32
  wp_prior_last_error :: u32
  wp_last_error_after :: u32
  wp_first_capture :: "u8 list"
  wp_last_capture :: "u8 list"
  wp_h_file :: GXOS_SCHEDULER_HANDLE
  wp_buffer :: u64
  wp_bytes_written :: u64
  wp_overlapped :: u64
  wp_caller_return_address :: u64
  wp_bytes_to_write :: u32

record 'w GXOS_WRITE_FILE_CONTEXT =
  wf_scheduler :: bool
  wf_last_error :: "u32 option"
  wf_regions :: "GXOS_CRT_INITTERM_MEMORY_REGION list option"
  wf_stack_lower :: u64
  wf_stack_upper :: u64
  wf_backend_write :: "('w \<Rightarrow> u8 list \<Rightarrow> bool \<times> u32 \<times> 'w) option"
  wf_pre_output :: "('w \<Rightarrow> GXOS_WRITE_FILE_REPORT \<Rightarrow> 'w) option"

definition zero_write_file_report :: GXOS_WRITE_FILE_REPORT where
  "zero_write_file_report = \<lparr> wp_status = GXOS_WRITE_FILE_STATUS_OK, wp_win32_error = 0, wp_result_bool = False,
     wp_buffer_range_valid = False, wp_bytes_written_range_valid = False, wp_output_started = False,
     wp_backend_succeeded = False, wp_backend_count_valid = False, wp_thread_identity = 0, wp_object_type = 0,
     wp_object_slot = 0, wp_object_generation = 0, wp_public_handle_refs_before = 0,
     wp_internal_refs_before = 0, wp_public_handle_refs_after = 0, wp_internal_refs_after = 0, wp_stream_backend = 0,
     wp_stream_capabilities = 0, wp_bytes_written_result = 0, wp_prior_last_error = 0, wp_last_error_after = 0,
     wp_first_capture = [], wp_last_capture = [], wp_h_file = 0, wp_buffer = 0, wp_bytes_written = 0, wp_overlapped = 0,
     wp_caller_return_address = 0, wp_bytes_to_write = 0 \<rparr>"

subsection \<open>Ranges\<close>

definition write_canonical_address :: "u64 \<Rightarrow> bool" where
  "write_canonical_address address \<longleftrightarrow> drop_bit 47 address = 0 \<or> drop_bit 47 address = 0x1FFFF"

definition range_in_region :: "GXOS_CRT_INITTERM_MEMORY_REGION \<Rightarrow> u64 \<Rightarrow> bool \<Rightarrow> u64 option" where
  "range_in_region region address writable =
     (if rg_base region \<ge> rg_end region \<or> address < rg_base region \<or> address \<ge> rg_end region \<or>
         \<not> rg_readable region \<or> (writable \<and> \<not> rg_writable region) then None
      else Some (rg_end region - address))"

text \<open>The bytes from an address on that the first fitting region covers, or else the stack.\<close>

definition covered_bytes :: "'w GXOS_WRITE_FILE_CONTEXT \<Rightarrow> u64 \<Rightarrow> bool \<Rightarrow> u64 option" where
  "covered_bytes context current writable =
     (case find (\<lambda>region. range_in_region region current writable \<noteq> None) (case wf_regions context of None \<Rightarrow> [] | Some rs \<Rightarrow> rs) of
        Some region \<Rightarrow> range_in_region region current writable
      | None \<Rightarrow>
          if wf_stack_lower context < wf_stack_upper context \<and> current \<ge> wf_stack_lower context \<and>
             current < wf_stack_upper context
          then Some (wf_stack_upper context - current) else None)"

lemma covered_bytes_pos: "covered_bytes context current writable = Some took \<Longrightarrow> took \<noteq> 0"
  by (auto simp: covered_bytes_def range_in_region_def split: option.splits if_splits)

function covered_loop :: "'w GXOS_WRITE_FILE_CONTEXT \<Rightarrow> u64 \<Rightarrow> u64 \<Rightarrow> bool \<Rightarrow> bool" where
  "covered_loop context current remaining writable =
     (if remaining = 0 then True
      else case covered_bytes context current writable of
        None \<Rightarrow> False
      | Some took \<Rightarrow>
          if took \<ge> remaining then True else covered_loop context (current + took) (remaining - took) writable)"
  by pat_completeness auto
termination
proof (relation "measure (\<lambda>(context, current, remaining, writable). unat remaining)", goal_cases)
  case (2 c current remaining writable took)
  then have "took < remaining" "0 < unat took" using covered_bytes_pos [of c current writable took] by (auto simp: unat_gt_0)
  then have "unat (remaining - took) = unat remaining - unat took" by (intro unat_sub_le) simp
  with \<open>took < remaining\<close> \<open>0 < unat took\<close> show ?case by (simp add: word_less_nat_alt)
qed simp

declare covered_loop.simps [simp del]

definition range_covered ::
    "'w GXOS_WRITE_FILE_CONTEXT \<Rightarrow> u64 \<Rightarrow> u64 \<Rightarrow> bool \<Rightarrow> GXOS_WRITE_FILE_STATUS option" where
  "range_covered context address len writable =
     (if len = 0 then None
      else if address = 0
      then Some (if writable then GXOS_WRITE_FILE_STATUS_UNWRITABLE_BYTES_WRITTEN else GXOS_WRITE_FILE_STATUS_NULL_BUFFER)
      else if \<not> write_canonical_address address
      then Some (if writable then GXOS_WRITE_FILE_STATUS_NONCANONICAL_BYTES_WRITTEN
                 else GXOS_WRITE_FILE_STATUS_NONCANONICAL_BUFFER)
      else if len > UINT64_MAX - address
      then Some (if writable then GXOS_WRITE_FILE_STATUS_BYTES_WRITTEN_RANGE_OVERFLOW
                 else GXOS_WRITE_FILE_STATUS_BUFFER_RANGE_OVERFLOW)
      else if \<not> covered_loop context address len writable
      then Some (if writable then GXOS_WRITE_FILE_STATUS_UNWRITABLE_BYTES_WRITTEN
                 else GXOS_WRITE_FILE_STATUS_UNREADABLE_BUFFER)
      else None)"

subsection \<open>The contract\<close>

definition validate_context :: "'w GXOS_WRITE_FILE_CONTEXT option \<Rightarrow> 'w sched \<Rightarrow> bool" where
  "validate_context context s =
     (case context of
        None \<Rightarrow> False
      | Some c \<Rightarrow>
          (case wf_regions c of
             None \<Rightarrow> False
           | Some regions \<Rightarrow>
               if \<not> wf_scheduler c \<or> \<not> sc_active s \<or> length regions > 64 \<or> wf_backend_write c = None then False
               else if list_ex (\<lambda>region. rg_base region \<ge> rg_end region \<or> \<not> write_canonical_address (rg_base region) \<or>
                                         \<not> write_canonical_address (rg_end region - 1)) regions then False
               else \<not> ((wf_stack_lower c = 0) \<noteq> (wf_stack_upper c = 0) \<or>
                        (wf_stack_lower c \<noteq> 0 \<and>
                         (wf_stack_lower c \<ge> wf_stack_upper c \<or> \<not> write_canonical_address (wf_stack_lower c) \<or>
                          \<not> write_canonical_address (wf_stack_upper c - 1))))))"

definition write_set_error ::
    "u32 \<Rightarrow> 'w GXOS_WRITE_FILE_CONTEXT option \<Rightarrow> GXOS_WRITE_FILE_REPORT \<Rightarrow>
     'w GXOS_WRITE_FILE_CONTEXT option \<times> GXOS_WRITE_FILE_REPORT" where
  "write_set_error error context report =
     (map_option (\<lambda>c. if wf_last_error c \<noteq> None then c\<lparr> wf_last_error := Some error \<rparr> else c) context,
      report\<lparr> wp_last_error_after := error \<rparr>)"

definition fail_status ::
    "GXOS_WRITE_FILE_STATUS \<Rightarrow> u32 \<Rightarrow> 'w GXOS_WRITE_FILE_CONTEXT option \<Rightarrow> GXOS_WRITE_FILE_REPORT \<Rightarrow>
     'w GXOS_WRITE_FILE_CONTEXT option \<times> GXOS_WRITE_FILE_REPORT" where
  "fail_status status error context report =
     write_set_error error context (report\<lparr> wp_status := status, wp_win32_error := error, wp_result_bool := False \<rparr>)"

definition read_bytes :: "'w sched \<Rightarrow> u64 \<Rightarrow> nat \<Rightarrow> u8 list" where
  "read_bytes s address count = map (\<lambda>i. sy_memory s (address + of_nat i)) [0..<count]"

definition capture_buffer :: "'w sched \<Rightarrow> GXOS_WRITE_FILE_REPORT \<Rightarrow> GXOS_WRITE_FILE_REPORT" where
  "capture_buffer s report =
     (let count = (if wp_bytes_to_write report < 32 then wp_bytes_to_write report else 32)
      in report\<lparr> wp_first_capture := read_bytes s (wp_buffer report) (unat count),
                 wp_last_capture := read_bytes s (wp_buffer report + ucast (wp_bytes_to_write report) - ucast count) (unat count) \<rparr>)"

definition write_u32 :: "(u64 \<Rightarrow> u8) \<Rightarrow> u64 \<Rightarrow> u32 \<Rightarrow> u64 \<Rightarrow> u8" where
  "write_u32 m a v = m(a := ucast v, a + 1 := ucast (drop_bit 8 v), a + 2 := ucast (drop_bit 16 v), a + 3 := ucast (drop_bit 24 v))"

text \<open>
  The tests of the handle: the failing status and error, or the stream's object, with the report as the tests
  leave it.
\<close>

definition write_check_handle ::
    "GXOS_WRITE_FILE_CALL \<Rightarrow> 'w sched \<Rightarrow> GXOS_WRITE_FILE_REPORT \<Rightarrow>
     (GXOS_WRITE_FILE_STATUS \<times> u32 + nat) \<times> GXOS_WRITE_FILE_REPORT" where
  "write_check_handle call s report =
     (let report = report\<lparr> wp_thread_identity := (case gxos_scheduler_current_thread s of
                              None \<Rightarrow> 0 | Some t \<Rightarrow> th_identity (sc_threads s ! t)) \<rparr>
      in case gxos_scheduler_object_from_handle s (wc_h_file call) of
           None \<Rightarrow> (Inl (GXOS_WRITE_FILE_STATUS_INVALID_HANDLE, 6), report)
         | Some i \<Rightarrow>
             let object = sc_objects s ! i in
             if \<not> ob_live object \<or> ob_close_state object \<or> ob_public_handle_refs object = 0 \<or>
                ob_internal_refs object = 0 \<or> ob_target object = Target_Null
             then (Inl (GXOS_WRITE_FILE_STATUS_INVALID_HANDLE, 6), report)
             else
               let report = report\<lparr> wp_object_type := ob_type object, wp_object_slot := ob_slot object,
                     wp_object_generation := ob_generation object, wp_public_handle_refs_before := ob_public_handle_refs object,
                     wp_internal_refs_before := ob_internal_refs object \<rparr>
               in if ob_type object \<noteq> GXOS_SCHEDULER_OBJECT_STANDARD_STREAM
                  then (Inl (GXOS_WRITE_FILE_STATUS_UNSUPPORTED_OBJECT, 6), report)
                  else
                    let stream = sc_standard_stream s;
                        report = report\<lparr> wp_stream_backend := st_backend stream, wp_stream_capabilities := st_capabilities stream \<rparr>
                    in if \<not> st_live stream \<or> st_object_slot stream \<noteq> ob_slot object \<or> st_generation stream \<noteq> ob_generation object
                       then (Inl (GXOS_WRITE_FILE_STATUS_INVALID_HANDLE, 6), report)
                       else if st_capabilities stream AND 2 = 0 then (Inl (GXOS_WRITE_FILE_STATUS_ACCESS_DENIED, 5), report)
                       else if st_backend stream \<noteq> 1 then (Inl (GXOS_WRITE_FILE_STATUS_UNSUPPORTED_OBJECT, 50), report)
                       else (Inr i, report))"

text \<open>The tests of the other arguments.\<close>

definition write_check_ranges ::
    "'w GXOS_WRITE_FILE_CONTEXT \<Rightarrow> GXOS_WRITE_FILE_CALL \<Rightarrow> 'w sched \<Rightarrow> GXOS_WRITE_FILE_REPORT \<Rightarrow>
     (GXOS_WRITE_FILE_STATUS \<times> u32) option \<times> GXOS_WRITE_FILE_REPORT" where
  "write_check_ranges context call s report =
     (let buffer_status = range_covered context (wc_buffer call) (ucast (wc_bytes_to_write call)) False in
      if wc_overlapped call \<noteq> 0 then (Some (GXOS_WRITE_FILE_STATUS_OVERLAPPED_UNSUPPORTED, 87), report)
      else if wc_bytes_to_write call \<noteq> 0 \<and> wc_buffer call = 0
      then (Some (GXOS_WRITE_FILE_STATUS_NULL_BUFFER, 87), report)
      else if wc_bytes_to_write call \<noteq> 0 \<and> buffer_status \<noteq> None
      then (Some (the buffer_status, if the buffer_status = GXOS_WRITE_FILE_STATUS_UNREADABLE_BUFFER then 998 else 87), report)
      else
        let report = report\<lparr> wp_buffer_range_valid := True \<rparr>;
            report = (if wc_bytes_to_write call \<noteq> 0 then capture_buffer s report else report);
            written_status = range_covered context (wc_bytes_written call) 4 True
        in if wc_bytes_written call = 0 then (Some (GXOS_WRITE_FILE_STATUS_NULL_BYTES_WRITTEN, 87), report)
           else if written_status \<noteq> None
           then (Some (the written_status,
                       if the written_status = GXOS_WRITE_FILE_STATUS_UNWRITABLE_BYTES_WRITTEN then 998 else 87), report)
           else (None, report\<lparr> wp_bytes_written_range_valid := True \<rparr>))"

text \<open>From the call of \<open>pre_output\<close> on.\<close>

definition write_output ::
    "('w \<Rightarrow> u8 list \<Rightarrow> bool \<times> u32 \<times> 'w) \<Rightarrow> 'w GXOS_WRITE_FILE_CONTEXT \<Rightarrow> GXOS_WRITE_FILE_CALL \<Rightarrow> nat \<Rightarrow> u32 \<Rightarrow> 'w sched \<Rightarrow>
     GXOS_WRITE_FILE_REPORT \<Rightarrow> bool \<times> GXOS_WRITE_FILE_REPORT \<times> 'w GXOS_WRITE_FILE_CONTEXT option \<times> 'w sched" where
  "write_output backend_write context call i previous_error s report =
     (let s = (case wf_pre_output context of None \<Rightarrow> s | Some pre_output \<Rightarrow> s\<lparr> sy_world := pre_output (sy_world s) report \<rparr>);
          (ok, backend_count, s) =
            (if wc_bytes_to_write call \<noteq> 0
             then case backend_write (sy_world s) (read_bytes s (wc_buffer call) (unat (wc_bytes_to_write call))) of
                    (ok, count, w) \<Rightarrow> (ok, count, s\<lparr> sy_world := w \<rparr>)
             else (True, 0, s))
      in if \<not> ok
         then case fail_status GXOS_WRITE_FILE_STATUS_BACKEND_FAILURE 50 (Some context) report of (context, report) \<Rightarrow>
                (False, report\<lparr> wp_output_started := (backend_count \<noteq> 0), wp_backend_succeeded := False \<rparr>, context, s)
         else
           let report = (if wc_bytes_to_write call \<noteq> 0 then report\<lparr> wp_output_started := (backend_count \<noteq> 0) \<rparr> else report) in
           if wc_bytes_to_write call \<noteq> 0 \<and> backend_count > wc_bytes_to_write call
           then case fail_status GXOS_WRITE_FILE_STATUS_BACKEND_COUNT_INVALID 50 (Some context) report of (context, report) \<Rightarrow>
                  (False, report, context, s)
           else (True,
                 report\<lparr> wp_backend_succeeded := True, wp_backend_count_valid := True, wp_bytes_written_result := backend_count,
                   wp_public_handle_refs_after := ob_public_handle_refs (sc_objects s ! i),
                   wp_internal_refs_after := ob_internal_refs (sc_objects s ! i), wp_result_bool := True,
                   wp_status := GXOS_WRITE_FILE_STATUS_OK, wp_win32_error := previous_error,
                   wp_last_error_after := (case wf_last_error context of None \<Rightarrow> previous_error | Some e \<Rightarrow> e) \<rparr>,
                 Some context,
                 s\<lparr> sy_memory := write_u32 (sy_memory s) (wc_bytes_written call) backend_count \<rparr>))"

definition gxos_write_file_contract ::
    "'w GXOS_WRITE_FILE_CONTEXT option \<Rightarrow> GXOS_WRITE_FILE_CALL option \<Rightarrow> 'w sched \<Rightarrow>
     bool \<times> GXOS_WRITE_FILE_REPORT \<times> 'w GXOS_WRITE_FILE_CONTEXT option \<times> 'w sched" where
  "gxos_write_file_contract context call s =
     (let report = (case call of
            None \<Rightarrow> zero_write_file_report
          | Some k \<Rightarrow> zero_write_file_report\<lparr> wp_h_file := wc_h_file k, wp_buffer := wc_buffer k,
              wp_bytes_to_write := wc_bytes_to_write k, wp_bytes_written := wc_bytes_written k,
              wp_overlapped := wc_overlapped k, wp_caller_return_address := wc_return_address k \<rparr>);
          previous_error = (case context of None \<Rightarrow> 0 | Some c \<Rightarrow> (case wf_last_error c of None \<Rightarrow> 0 | Some e \<Rightarrow> e));
          report = report\<lparr> wp_prior_last_error := previous_error, wp_last_error_after := previous_error \<rparr>;
          fail = (\<lambda>status error report. case fail_status status error context report of (context, report) \<Rightarrow>
                    (False, report, context, s))
      in if \<not> validate_context context s then fail GXOS_WRITE_FILE_STATUS_INVALID_CONTEXT 87 report
         else case call of
           None \<Rightarrow> fail GXOS_WRITE_FILE_STATUS_INVALID_PARAMETER 87 report
         | Some k \<Rightarrow>
             (case write_check_handle k s report of
                (Inl (status, error), report) \<Rightarrow> fail status error report
              | (Inr i, report) \<Rightarrow>
                  (case write_check_ranges (the context) k s report of
                     (Some (status, error), report) \<Rightarrow> fail status error report
                   | (None, report) \<Rightarrow>
                       write_output (the (wf_backend_write (the context))) (the context) k i previous_error s report)))"

end
