(* ===== verification/Write_File_Correct.thy ===== *)
theory Write_File_Correct
  imports Write_File
begin

text \<open>
  The range test of \<open>WriteFile\<close> ends and accepts exactly the ranges whose every byte is accessible, and the call
  produces output only after every argument was validated.
\<close>

subsection \<open>Ranges\<close>

definition accessible :: "'w GXOS_WRITE_FILE_CONTEXT \<Rightarrow> bool \<Rightarrow> nat \<Rightarrow> bool" where
  "accessible c writable x \<longleftrightarrow>
     (\<exists>rs r. wf_regions c = Some rs \<and> r \<in> set rs \<and> unat (rg_base r) \<le> x \<and> x < unat (rg_end r) \<and> rg_readable r \<and>
        (writable \<longrightarrow> rg_writable r)) \<or>
     (unat (wf_stack_lower c) \<le> x \<and> x < unat (wf_stack_upper c))"

lemma range_in_region_iff:
  "range_in_region r a w \<noteq> None \<longleftrightarrow> unat (rg_base r) \<le> unat a \<and> unat a < unat (rg_end r) \<and> rg_readable r \<and> (w \<longrightarrow> rg_writable r)"
  by (auto simp: range_in_region_def word_le_nat_alt word_less_nat_alt not_le not_less)

lemma region_accessible:
  assumes "r \<in> set (case wf_regions c of None \<Rightarrow> [] | Some rs \<Rightarrow> rs)" "unat (rg_base r) \<le> x" "x < unat (rg_end r)"
    "rg_readable r" "w \<longrightarrow> rg_writable r"
  shows "accessible c w x"
  using assms by (cases "wf_regions c") (auto simp: accessible_def)

text \<open>What the step covers: nothing iff the byte is not accessible, else accessible bytes only.\<close>

lemma covered_bytes_None: "covered_bytes c a w = None \<longleftrightarrow> \<not> accessible c w (unat a)"
proof (cases "find (\<lambda>r. range_in_region r a w \<noteq> None) (case wf_regions c of None \<Rightarrow> [] | Some rs \<Rightarrow> rs)")
  case (Some r)
  note f = find_SomeD [OF Some]
  then have "accessible c w (unat a)" using region_accessible unfolding range_in_region_iff by blast
  then show ?thesis using Some f by (simp add: covered_bytes_def)
next
  case None
  then have "\<not> (\<exists>rs r. wf_regions c = Some rs \<and> r \<in> set rs \<and> range_in_region r a w \<noteq> None)"
    by (auto simp: find_None_iff split: option.splits)
  moreover have "covered_bytes c a w = (if wf_stack_lower c < wf_stack_upper c \<and> a \<ge> wf_stack_lower c \<and> a < wf_stack_upper c
      then Some (wf_stack_upper c - a) else None)" using None by (simp add: covered_bytes_def)
  ultimately show ?thesis unfolding range_in_region_iff
    by (auto simp: accessible_def word_le_nat_alt word_less_nat_alt)
qed

lemma covered_bytes_Some:
  assumes "covered_bytes c a w = Some k"
  shows "unat a + unat k < 2 ^ 64" and "unat a \<le> x \<Longrightarrow> x < unat a + unat k \<Longrightarrow> accessible c w x"
proof -
  have "unat a + unat k < 2 ^ 64 \<and> (\<forall>x. unat a \<le> x \<longrightarrow> x < unat a + unat k \<longrightarrow> accessible c w x)"
  proof (cases "find (\<lambda>r. range_in_region r a w \<noteq> None) (case wf_regions c of None \<Rightarrow> [] | Some rs \<Rightarrow> rs)")
    case (Some r)
    note f = find_SomeD [OF Some, unfolded range_in_region_iff]
    have "k = rg_end r - a" using assms Some f by (auto simp: covered_bytes_def range_in_region_def split: if_splits)
    then have "unat a + unat k = unat (rg_end r)" using f by (simp add: unat_sub_le word_le_nat_alt)
    moreover have "accessible c w x" if "unat a \<le> x" "x < unat (rg_end r)" for x
      using f that by (intro region_accessible [of r]) auto
    ultimately show ?thesis by simp
  next
    case None
    then have "k = wf_stack_upper c - a" "a < wf_stack_upper c" "wf_stack_lower c \<le> a"
      using assms by (auto simp: covered_bytes_def split: if_splits)
    then have "unat a + unat k = unat (wf_stack_upper c)" "unat (wf_stack_lower c) \<le> unat a"
      by (simp_all add: unat_sub_le word_le_nat_alt word_less_nat_alt)
    then show ?thesis by (auto simp: accessible_def)
  qed
  then show "unat a + unat k < 2 ^ 64" and "unat a \<le> x \<Longrightarrow> x < unat a + unat k \<Longrightarrow> accessible c w x" by auto
qed

lemma covered_loop_iff:
  assumes "unat a + unat n \<le> 2 ^ 64"
  shows "covered_loop c a n w \<longleftrightarrow> (\<forall>x. unat a \<le> x \<longrightarrow> x < unat a + unat n \<longrightarrow> accessible c w x)"
  using assms
proof (induction c a n w rule: covered_loop.induct)
  case (1 c a n w)
  show ?case
  proof (cases "n = 0")
    case True
    then show ?thesis by (simp add: covered_loop.simps)
  next
    case nz: False
    then have pos: "0 < unat n" by (simp add: unat_gt_0)
    show ?thesis
    proof (cases "covered_bytes c a w")
      case None
      then have "\<not> accessible c w (unat a)" by (simp add: covered_bytes_None)
      then show ?thesis using None nz pos by (subst covered_loop.simps) auto
    next
      case (Some k)
      note s = covered_bytes_Some [OF Some]
      show ?thesis
      proof (cases "k \<ge> n")
        case True
        then show ?thesis using Some nz s(2) by (subst covered_loop.simps) (auto simp: word_le_nat_alt)
      next
        case False
        have ak: "unat (a + k) = unat a + unat k" using s(1) by (simp add: unat_word_ariths)
        have nk: "unat (n - k) = unat n - unat k" "unat k < unat n" using False by (simp_all add: unat_sub_le word_le_nat_alt not_le)
        have IH: "covered_loop c (a + k) (n - k) w \<longleftrightarrow> (\<forall>x. unat a + unat k \<le> x \<longrightarrow> x < unat a + unat n \<longrightarrow> accessible c w x)"
          using "1.IH" [OF nz Some False] "1.prems" nk unfolding ak nk by simp
        have "covered_loop c a n w = covered_loop c (a + k) (n - k) w" using nz Some False by (subst covered_loop.simps) simp
        then show ?thesis unfolding IH using s(2) nk(2) by (auto simp: not_le) (metis le_neq_implies_less less_le_trans linorder_not_le)
      qed
    qed
  qed
qed

lemma range_covered_iff:
  "range_covered c a n w = None \<longleftrightarrow> n = 0 \<or>
     (a \<noteq> 0 \<and> write_canonical_address a \<and> unat a + unat n < 2 ^ 64 \<and>
      {unat a ..< unat a + unat n} \<subseteq> Collect (accessible c w))"
proof -
  have "n > UINT64_MAX - a \<longleftrightarrow> \<not> unat a + unat n < 2 ^ 64"
    using unat_lt_2p64 [of a] by (auto simp: word_less_nat_alt simp del: unat_lt_2p64)
  moreover have "unat a + unat n < 2 ^ 64 \<Longrightarrow> covered_loop c a n w \<longleftrightarrow> {unat a ..< unat a + unat n} \<subseteq> Collect (accessible c w)"
    by (subst covered_loop_iff) auto
  ultimately show ?thesis by (auto simp: range_covered_def)
qed

text \<open>
  C27. The range test of \<open>WriteFile\<close> always ends, whatever the regions, and it accepts a range exactly when it is
  empty or starts at a canonical address that is not null, does not run over the end of the address space, and has only
  bytes that a readable (or, for the result cell, writable) region or the stack contains, also when
  several regions have to be joined.
\<close>

theorem write_range_exact:
  "range_covered c a n w = None \<longleftrightarrow> n = 0 \<or>
     (a \<noteq> 0 \<and> write_canonical_address a \<and> unat a + unat n < 2 ^ 64 \<and>
      {unat a ..< unat a + unat n} \<subseteq> Collect (accessible c w))"
  by (rule range_covered_iff)

subsection \<open>The call\<close>

definition stream_writable :: "'w sched \<Rightarrow> GXOS_SCHEDULER_HANDLE \<Rightarrow> bool" where
  "stream_writable s h \<longleftrightarrow> (\<exists>i. gxos_scheduler_object_from_handle s h = Some i \<and> ob_live (sc_objects s ! i) \<and>
     \<not> ob_close_state (sc_objects s ! i) \<and> ob_public_handle_refs (sc_objects s ! i) \<noteq> 0 \<and>
     ob_type (sc_objects s ! i) = GXOS_SCHEDULER_OBJECT_STANDARD_STREAM \<and> st_live (sc_standard_stream s) \<and>
     st_object_slot (sc_standard_stream s) = ob_slot (sc_objects s ! i) \<and>
     st_generation (sc_standard_stream s) = ob_generation (sc_objects s ! i) \<and>
     st_capabilities (sc_standard_stream s) AND 2 \<noteq> 0 \<and> st_backend (sc_standard_stream s) = 1)"

definition call_validated :: "'w GXOS_WRITE_FILE_CONTEXT \<Rightarrow> GXOS_WRITE_FILE_CALL \<Rightarrow> 'w sched \<Rightarrow> bool" where
  "call_validated c k s \<longleftrightarrow> validate_context (Some c) s \<and> stream_writable s (wc_h_file k) \<and> wc_overlapped k = 0 \<and>
     bytes_from (wc_buffer k) (ucast (wc_bytes_to_write k)) \<subseteq> Collect (accessible c False) \<and>
     bytes_from (wc_bytes_written k) 4 \<subseteq> Collect (accessible c True)"

lemma check_handle_writable: "write_check_handle k s r = (Inr i, r') \<Longrightarrow> stream_writable s (wc_h_file k)"
  by (auto simp: write_check_handle_def stream_writable_def Let_def split: option.splits if_splits)

lemma check_ranges_accessible:
  assumes "write_check_ranges c k s r = (None, r')"
  shows "wc_overlapped k = 0" "bytes_from (wc_buffer k) (ucast (wc_bytes_to_write k)) \<subseteq> Collect (accessible c False)"
    and "bytes_from (wc_bytes_written k) 4 \<subseteq> Collect (accessible c True)"
proof -
  have g: "wc_overlapped k = 0" "wc_bytes_to_write k = 0 \<or> range_covered c (wc_buffer k) (ucast (wc_bytes_to_write k)) False = None"
    "range_covered c (wc_bytes_written k) 4 True = None"
    using assms by (auto simp: write_check_ranges_def Let_def split: if_splits)
  have z: "(ucast (wc_bytes_to_write k) :: u64) = 0 \<longleftrightarrow> wc_bytes_to_write k = 0" by (simp add: unat_eq_iff)
  show "wc_overlapped k = 0" by (rule g(1))
  show "bytes_from (wc_buffer k) (ucast (wc_bytes_to_write k)) \<subseteq> Collect (accessible c False)"
    using g(2) unfolding range_covered_iff z by (auto simp: bytes_from_def)
  show "bytes_from (wc_bytes_written k) 4 \<subseteq> Collect (accessible c True)"
    using g(3) unfolding range_covered_iff by (auto simp: bytes_from_def)
qed

lemma read_bytes_world [simp]: "read_bytes (s\<lparr> sy_world := w \<rparr>) = read_bytes s"
  by (simp add: fun_eq_iff read_bytes_def)

lemma write_output_cases:
  assumes "write_output bw c k i pe s r = (ok, r', c', s')"
  shows "\<exists>w0 w1 count sent. w0 = (case wf_pre_output c of None \<Rightarrow> sy_world s | Some f \<Rightarrow> f (sy_world s) r) \<and>
    (if wc_bytes_to_write k = 0 then (sent, count, w1) = (True, 0, w0)
     else (sent, count, w1) = bw w0 (read_bytes s (wc_buffer k) (unat (wc_bytes_to_write k)))) \<and>
    ok = (sent \<and> (wc_bytes_to_write k \<noteq> 0 \<longrightarrow> count \<le> wc_bytes_to_write k)) \<and>
    (if ok then c' = Some c \<and> s' = s\<lparr> sy_world := w1, sy_memory := write_u32 (sy_memory s) (wc_bytes_written k) count \<rparr>
     else s' = s\<lparr> sy_world := w1 \<rparr> \<and> wp_status r' \<in> {GXOS_WRITE_FILE_STATUS_BACKEND_FAILURE, GXOS_WRITE_FILE_STATUS_BACKEND_COUNT_INVALID} \<and>
       c' = Some (if wf_last_error c \<noteq> None then c\<lparr> wf_last_error := Some (wp_win32_error r') \<rparr> else c))"
proof -
  define s0 where "s0 = (case wf_pre_output c of None \<Rightarrow> s | Some f \<Rightarrow> s\<lparr> sy_world := f (sy_world s) r \<rparr>)"
  define w0 where "w0 = (case wf_pre_output c of None \<Rightarrow> sy_world s | Some f \<Rightarrow> f (sy_world s) r)"
  have s0: "s0 = s\<lparr> sy_world := w0 \<rparr>" by (simp add: s0_def w0_def split: option.split)
  obtain sent count w1 where b: "(if wc_bytes_to_write k = 0 then (True, 0, w0)
      else bw w0 (read_bytes s (wc_buffer k) (unat (wc_bytes_to_write k)))) = (sent, count, w1)" by (metis prod_cases3)
  note d = assms [unfolded write_output_def s0_def [symmetric] s0, simplified Let_def]
  show ?thesis
  proof (rule exI [of _ w0], rule exI [of _ w1], rule exI [of _ count], rule exI [of _ sent], intro conjI)
    show "w0 = (case wf_pre_output c of None \<Rightarrow> sy_world s | Some f \<Rightarrow> f (sy_world s) r)" by (rule w0_def)
    show "if wc_bytes_to_write k = 0 then (sent, count, w1) = (True, 0, w0)
      else (sent, count, w1) = bw w0 (read_bytes s (wc_buffer k) (unat (wc_bytes_to_write k)))" using b by auto
    show "ok = (sent \<and> (wc_bytes_to_write k \<noteq> 0 \<longrightarrow> count \<le> wc_bytes_to_write k))"
      using d b by (auto simp: fail_status_def write_set_error_def not_less split: if_splits)
    show "if ok then c' = Some c \<and> s' = s\<lparr> sy_world := w1, sy_memory := write_u32 (sy_memory s) (wc_bytes_written k) count \<rparr>
     else s' = s\<lparr> sy_world := w1 \<rparr> \<and> wp_status r' \<in> {GXOS_WRITE_FILE_STATUS_BACKEND_FAILURE, GXOS_WRITE_FILE_STATUS_BACKEND_COUNT_INVALID} \<and>
       c' = Some (if wf_last_error c \<noteq> None then c\<lparr> wf_last_error := Some (wp_win32_error r') \<rparr> else c)"
      using d b by (auto simp: fail_status_def write_set_error_def not_less split: if_splits)
  qed
qed

text \<open>
  C28. \<open>WriteFile\<close> writes nothing before everything was checked. When it returns true, the handle named an open, writable
  serial stream, every byte of the buffer was readable and the result cell writable; the backend was called exactly once
  with the bytes of the buffer, or not at all for an empty write; the result cell holds the count the
  backend reported, which is at most the requested one, no other memory changed, and the last error is as it was. When it
  returns false, the memory is unchanged, the last error is the reported one, and the machine is unchanged unless the
  arguments were valid and the backend itself failed.
\<close>

theorem write_file_checked:
  assumes "gxos_write_file_contract (Some c) (Some k) s = (ok, report, c', s')"
  shows "if ok
    then call_validated c k s \<and> c' = Some c \<and>
      (\<exists>r w0 w1 count. w0 = (case wf_pre_output c of None \<Rightarrow> sy_world s | Some f \<Rightarrow> f (sy_world s) r) \<and>
         (if wc_bytes_to_write k = 0 then count = 0 \<and> w1 = w0
          else the (wf_backend_write c) w0 (read_bytes s (wc_buffer k) (unat (wc_bytes_to_write k))) = (True, count, w1) \<and>
               count \<le> wc_bytes_to_write k) \<and>
         s' = s\<lparr> sy_world := w1, sy_memory := write_u32 (sy_memory s) (wc_bytes_written k) count \<rparr>)
    else sy_memory s' = sy_memory s \<and>
      c' = Some (if wf_last_error c \<noteq> None then c\<lparr> wf_last_error := Some (wp_win32_error report) \<rparr> else c) \<and>
      (s' = s \<or> call_validated c k s \<and>
         wp_status report \<in> {GXOS_WRITE_FILE_STATUS_BACKEND_FAILURE, GXOS_WRITE_FILE_STATUS_BACKEND_COUNT_INVALID})"
proof -
  have fail: ?thesis if "gxos_write_file_contract (Some c) (Some k) s =
      (case fail_status st e (Some c) r of (context, report) \<Rightarrow> (False, report, context, s))" for st e r
    using assms that by (auto simp: fail_status_def write_set_error_def)
  note d = gxos_write_file_contract_def Let_def
  show ?thesis
  proof (cases "validate_context (Some c) s")
    case False
    show ?thesis by (rule fail) (use False in \<open>simp add: d\<close>)
  next
    case v: True
    define r0 where "r0 = zero_write_file_report\<lparr> wp_h_file := wc_h_file k, wp_buffer := wc_buffer k,
        wp_bytes_to_write := wc_bytes_to_write k, wp_bytes_written := wc_bytes_written k, wp_overlapped := wc_overlapped k,
        wp_caller_return_address := wc_return_address k,
        wp_prior_last_error := (case wf_last_error c of None \<Rightarrow> 0 | Some e \<Rightarrow> e), wp_last_error_after := (case wf_last_error c of None \<Rightarrow> 0 | Some e \<Rightarrow> e) \<rparr>"
    obtain x r1 where h: "write_check_handle k s r0 = (x, r1)" by fastforce
    show ?thesis
    proof (cases x)
      case (Inl p)
      show ?thesis by (rule fail) (use Inl v h in \<open>simp add: d r0_def split_beta\<close>)
    next
      case (Inr i)
      obtain y r2 where g: "write_check_ranges c k s r1 = (y, r2)" by fastforce
      show ?thesis
      proof (cases y)
        case (Some p)
        show ?thesis by (rule fail) (use Some v h g Inr in \<open>simp add: d r0_def split_beta\<close>)
      next
        case None
        have val: "call_validated c k s"
          using v check_handle_writable [of k s r0 i r1] check_ranges_accessible [of c k s r1 r2] h g Inr None by (simp add: call_validated_def)
        have "write_output (the (wf_backend_write c)) c k i (case wf_last_error c of None \<Rightarrow> 0 | Some e \<Rightarrow> e) s r2 = (ok, report, c', s')"
          using assms v h g Inr None by (simp add: d r0_def)
        from write_output_cases [OF this] obtain w0 w1 count sent where
          o: "w0 = (case wf_pre_output c of None \<Rightarrow> sy_world s | Some f \<Rightarrow> f (sy_world s) r2)"
            "if wc_bytes_to_write k = 0 then (sent, count, w1) = (True, 0, w0)
             else (sent, count, w1) = the (wf_backend_write c) w0 (read_bytes s (wc_buffer k) (unat (wc_bytes_to_write k)))"
            "ok = (sent \<and> (wc_bytes_to_write k \<noteq> 0 \<longrightarrow> count \<le> wc_bytes_to_write k))"
          and e: "if ok then c' = Some c \<and> s' = s\<lparr> sy_world := w1, sy_memory := write_u32 (sy_memory s) (wc_bytes_written k) count \<rparr>
             else s' = s\<lparr> sy_world := w1 \<rparr> \<and> wp_status report \<in> {GXOS_WRITE_FILE_STATUS_BACKEND_FAILURE, GXOS_WRITE_FILE_STATUS_BACKEND_COUNT_INVALID} \<and>
               c' = Some (if wf_last_error c \<noteq> None then c\<lparr> wf_last_error := Some (wp_win32_error report) \<rparr> else c)"
          by blast
        show ?thesis
        proof (cases ok)
          case True
          have b: "if wc_bytes_to_write k = 0 then count = 0 \<and> w1 = w0
              else the (wf_backend_write c) w0 (read_bytes s (wc_buffer k) (unat (wc_bytes_to_write k))) = (True, count, w1) \<and>
                   count \<le> wc_bytes_to_write k"
            using o(2,3) True by (auto split: if_splits)
          have s': "c' = Some c" "s' = s\<lparr> sy_world := w1, sy_memory := write_u32 (sy_memory s) (wc_bytes_written k) count \<rparr>"
            using e True by simp_all
          show ?thesis
            unfolding if_P [OF True]
            by (rule conjI [OF val conjI [OF s'(1)]], rule exI [of _ r2], rule exI [of _ w0], rule exI [of _ w1], rule exI [of _ count])
               (intro conjI o(1) b s'(2))
        next
          case False
          then show ?thesis using e val by simp
        qed
      qed
    qed
  qed
qed

text \<open>A call on the standard output of a booted machine: three bytes of a read-only region, the count goes to the stack.\<close>

definition console :: "nat sched" where
  "console = snd (gxos_scheduler_install_standard_stream GXOS_SCHEDULER_STANDARD_STREAM_ROLE_OUTPUT 1 2 booted)"

definition console_context :: "nat GXOS_WRITE_FILE_CONTEXT" where
  "console_context = \<lparr> wf_scheduler = True, wf_last_error = Some 7,
     wf_regions = Some [\<lparr> rg_base = 0x1000, rg_end = 0x2000, rg_readable = True, rg_executable = True, rg_writable = False \<rparr>],
     wf_stack_lower = 0x8000, wf_stack_upper = 0x9000,
     wf_backend_write = Some (\<lambda>w bytes. (True, of_nat (length bytes), w + length bytes)), wf_pre_output = None \<rparr>"

definition console_call :: GXOS_WRITE_FILE_CALL where
  "console_call = \<lparr> wc_h_file = 0xA704000000010002, wc_buffer = 0x1FFD, wc_bytes_to_write = 3, wc_bytes_written = 0x8FFC,
     wc_overlapped = 0, wc_return_address = 0 \<rparr>"

lemma console_run:
  "sc_active console" "gxos_scheduler_object_from_handle console 0xA704000000010002 = Some 1" "sy_world console = sy_world booted"
  "fst (write_check_handle console_call console r) = Inr 1"
proof -
  have "map ob_live (sc_objects booted) = [True, False, False, False, False, False, False, False, False, False, False, False, False, False, False, False]"
    by (simp add: booted_sel eval_nat_numeral)
  then obtain o0 o1 os where obs: "sc_objects booted = o0 # o1 # os" "ob_live o0" "\<not> ob_live o1" by (auto simp: Cons_eq_map_conv map_eq_Cons_conv)
  have "ob_generation o1 = 0" using booted_sel(5) by (simp add: obs eval_nat_numeral)
  note d = console_def gxos_scheduler_install_standard_stream_def booted_sel booted_rest(3) zero_standard_stream_def allocate_object_def obs this
    Let_def upd_object_def next_object_generation_def make_handle_def lookup_object_def decode_handle_def zero_object_def set_role_handles_def
    gxos_scheduler_object_from_handle_def
  show "sc_active console" "gxos_scheduler_object_from_handle console 0xA704000000010002 = Some 1" "sy_world console = sy_world booted"
    by (simp_all add: d)
  then show "fst (write_check_handle console_call console r) = Inr 1"
    by (simp add: write_check_handle_def console_call_def) (simp add: d)
qed

lemma console_sel:
  "wf_pre_output console_context = None" "wc_bytes_to_write console_call = 3" "wc_bytes_written console_call = 0x8FFC"
  "wf_backend_write console_context = Some (\<lambda>w bytes. (True, of_nat (length bytes), w + length bytes))"
  by (simp_all add: console_context_def console_call_def)

lemma console_valid: "validate_context (Some console_context) console"
  by (simp add: validate_context_def console_context_def console_run(1) write_canonical_address_def)

lemma console_ranges: "fst (write_check_ranges console_context console_call console r) = None"
proof -
  have "range_covered console_context 0x1FFD 3 False = None" "range_covered console_context 0x8FFC 4 True = None"
    by (simp_all add: range_covered_def console_context_def write_canonical_address_def covered_loop.simps covered_bytes_def range_in_region_def)
  then show ?thesis by (simp add: write_check_ranges_def Let_def console_call_def)
qed

lemma console_succeeds: "fst (gxos_write_file_contract (Some console_context) (Some console_call) console)"
proof -
  have out: "fst (write_output (the (wf_backend_write console_context)) console_context console_call i e s r)" for i e s r
    by (simp add: write_output_def Let_def console_context_def console_call_def read_bytes_def)
  define h where "h r = snd (write_check_handle console_call console r)" for r
  define g where "g r = snd (write_check_ranges console_context console_call console r)" for r
  have "write_check_handle console_call console r = (Inr 1, h r)" for r using console_run(4) [of r] by (simp add: prod_eq_iff h_def)
  moreover have "write_check_ranges console_context console_call console r = (None, g r)" for r
    using console_ranges [of r] by (simp add: prod_eq_iff g_def)
  ultimately show ?thesis by (simp add: gxos_write_file_contract_def Let_def console_valid out)
qed

theorem write_file_checked_witness:
  "let (ok, report, c', s') = gxos_write_file_contract (Some console_context) (Some console_call) console in
   ok \<and> call_validated console_context console_call console \<and> c' = Some console_context \<and>
   sy_world s' = sy_world console + 3 \<and> sy_memory s' = write_u32 (sy_memory console) 0x8FFC 3"
proof -
  obtain ok report c' s' where r: "gxos_write_file_contract (Some console_context) (Some console_call) console = (ok, report, c', s')"
    by (metis prod_cases4)
  then have ok using console_succeeds by simp
  show ?thesis
    using write_file_checked [OF r] \<open>ok\<close> unfolding r by (auto simp: console_sel read_bytes_def)
qed

end
