(* ===== verification/VM_Public_Arena.thy ===== *)
theory VM_Public_Arena
  imports VM_Public VM_Arena_Search
begin

text \<open>
  The arena under \<open>VirtualAlloc\<close> and \<open>VirtualFree\<close>, read as two finite maps: the reservations by slot and the
  committed pages by address. Every operation of the arena is an update of these maps, whatever the page
  tables and the allocator of the context do.
\<close>

subsection \<open>The two maps\<close>

definition page_map :: "GXOS_VM_ARENA \<Rightarrow> u64 \<rightharpoonup> nat \<times> u64" where
  "page_map a p = map_option (\<lambda>i. (vc_reservation_slot (va_commitments a ! i), vc_physical_base (va_commitments a ! i)))
     (find_index (page_at p) (va_commitments a))"

definition reserved_map :: "GXOS_VM_ARENA \<Rightarrow> nat \<rightharpoonup> u64 \<times> u64" where
  "reserved_map a i = (if i < length (va_reservations a) \<and> vr_live (va_reservations a ! i)
     then Some (vr_base (va_reservations a ! i), vr_bytes (va_reservations a ! i)) else None)"

definition arena_good :: "GXOS_VM_ARENA \<Rightarrow> bool" where
  "arena_good a \<longleftrightarrow> arena_inv a \<and> arena_paged a"

lemma find_index_cong: "(\<And>x. x \<in> set xs \<Longrightarrow> P x = Q x) \<Longrightarrow> find_index P xs = find_index Q xs"
  by (induction xs) auto

lemma find_index_update: "i < length xs \<Longrightarrow> \<not> P (xs ! i) \<Longrightarrow> \<not> P y \<Longrightarrow> find_index P (xs[i := y]) = find_index P xs"
  by (induction xs arbitrary: i) (auto split: nat.splits simp: nth_Cons')

lemma page_at_unique:
  assumes "arena_inv a" and "i < length (va_commitments a)" and "j < length (va_commitments a)"
    and "page_at p (va_commitments a ! i)" and "page_at p (va_commitments a ! j)"
  shows "i = j"
proof (rule ccontr)
  assume "i \<noteq> j"
  with arena_commitments_disjoint [OF assms(1-3)] assms(4,5)
  have "bytes_from p GXOS_VM_PAGE_SIZE \<inter> bytes_from p GXOS_VM_PAGE_SIZE = {}" by metis
  then show False by (simp add: bytes_from_def)
qed

lemma find_page_iff:
  assumes "arena_inv a"
  shows "find_index (page_at p) (va_commitments a) = Some i \<longleftrightarrow> i < length (va_commitments a) \<and> page_at p (va_commitments a ! i)"
  using find_index_SomeD [where P = "page_at p"] find_index_unique [where P = "page_at p"] page_at_unique [OF assms] by blast

lemma page_map_Some_iff:
  assumes "arena_inv a"
  shows "page_map a p = Some x \<longleftrightarrow> (\<exists>i < length (va_commitments a). page_at p (va_commitments a ! i) \<and>
    x = (vc_reservation_slot (va_commitments a ! i), vc_physical_base (va_commitments a ! i)))"
  unfolding page_map_def by (auto simp: find_page_iff [OF assms])

lemma page_map_None_iff: "page_map a p = None \<longleftrightarrow> find_index (page_at p) (va_commitments a) = None"
  by (simp add: page_map_def)

lemma page_map_reserved:
  assumes "arena_inv a" and "page_map a p = Some (k, ph)"
  shows "\<exists>b n. reserved_map a k = Some (b, n) \<and> range_contains b n p GXOS_VM_PAGE_SIZE"
proof -
  obtain i where i: "i < length (va_commitments a)" "page_at p (va_commitments a ! i)" "k = vc_reservation_slot (va_commitments a ! i)"
    using assms page_map_Some_iff [OF assms(1)] by auto
  then have "commitment_ok (va_reservations a) (va_commitments a ! i)" using assms(1) by (simp add: arena_inv_iff)
  then show ?thesis using i assms(1) by (auto simp: commitment_ok_def reserved_map_def arena_inv_iff)
qed

lemma page_map_aligned: "arena_good a \<Longrightarrow> p mod GXOS_VM_PAGE_SIZE \<noteq> 0 \<Longrightarrow> page_map a p = None"
  by (auto simp: page_map_None_iff find_index_None_iff arena_good_def arena_paged_def)

lemma page_map_find:
  assumes "arena_good a" and "p mod GXOS_VM_PAGE_SIZE = 0"
  shows "gxos_vm_arena_find_commitment a p =
    (case find_index (page_at p) (va_commitments a) of None \<Rightarrow> (GXOS_VM_STATUS_NOT_FOUND, None) | Some i \<Rightarrow> (GXOS_VM_STATUS_OK, Some i))"
proof -
  have "(vc_live c \<and> p \<ge> vc_base c \<and> p - vc_base c < vc_bytes c) = page_at p c" if "c \<in> set (va_commitments a)" for c
  proof -
    have g: "vc_live c \<Longrightarrow> vc_bytes c = GXOS_VM_PAGE_SIZE" "vc_live c \<Longrightarrow> vc_base c mod GXOS_VM_PAGE_SIZE = 0"
      using assms(1) that by (auto simp: arena_good_def arena_paged_def)
    have "vc_base c = p" if l: "vc_live c" "p \<ge> vc_base c" "p - vc_base c < GXOS_VM_PAGE_SIZE"
    proof -
      have "unat p \<in> bytes_from p GXOS_VM_PAGE_SIZE \<inter> bytes_from (vc_base c) GXOS_VM_PAGE_SIZE"
        using l by (auto simp: bytes_from_def word_le_nat_alt word_less_nat_alt unat_sub_le)
      then show ?thesis using pages_meet [OF assms(2) g(2) [OF l(1)]] by blast
    qed
    then show ?thesis using g by auto
  qed
  then have "find_index (\<lambda>c. vc_live c \<and> p \<ge> vc_base c \<and> p - vc_base c < vc_bytes c) (va_commitments a) =
      find_index (page_at p) (va_commitments a)" by (intro find_index_cong) auto
  then show ?thesis by (simp add: gxos_vm_arena_find_commitment_def split: option.split)
qed

subsection \<open>The operations on the maps\<close>

lemma commit_page_maps:
  assumes good: "arena_good a" and op: "gxos_vm_arena_commit_page a p ph g = (st, a', already)" and none: "page_map a p = None"
  shows "arena_good a' \<and> reserved_map a' = reserved_map a \<and>
    (if st = GXOS_VM_STATUS_OK then \<exists>k. page_map a' = (page_map a)(p \<mapsto> (k, ph)) else a' = a)"
proof -
  have inv: "arena_inv a" "arena_paged a" using good by (simp_all add: arena_good_def)
  have good': "arena_good a'" using arena_commit_page_keeps [OF inv op] by (simp add: arena_good_def)
  show ?thesis
  proof (cases "st = GXOS_VM_STATUS_OK")
    case False
    have "a' = a"
    proof (cases "page_ready a p ph g")
      case True
      then obtain k where "gxos_vm_arena_find_reservation a p = Some k" using page_ready_reservation [OF inv(1)] by blast
      from arena_commit_page_eq [OF inv True this] op False show ?thesis by (auto split: option.splits if_splits)
    qed (use arena_commit_page_fails [OF inv(1)] op in fastforce)
    with False good show ?thesis by simp
  next
    case True
    have "already = False"
    proof (cases "page_ready a p ph g")
      case r: True
      then obtain k where "gxos_vm_arena_find_reservation a p = Some k" using page_ready_reservation [OF inv(1)] by blast
      from arena_commit_page_eq [OF inv r this] op none show ?thesis by (auto simp: page_map_None_iff split: option.splits)
    qed (use arena_commit_page_fails [OF inv(1)] op in fastforce)
    with op True have op': "gxos_vm_arena_commit_page a p ph g = (GXOS_VM_STATUS_OK, a', False)" by simp
    obtain i k where i: "find_index (\<lambda>c. \<not> vc_live c) (va_commitments a) = Some i"
      and k: "gxos_vm_arena_find_reservation a p = Some k"
      and a': "a' = arena_record_commit a i (new_commitment k p GXOS_VM_PAGE_SIZE ph 1 g)"
      using op' by (rule arena_commit_pageE [OF inv])
    note iD = find_index_SomeD [OF i]
    have inv': "arena_inv a'" using good' by (simp add: arena_good_def)
    have C: "va_commitments a' = (va_commitments a)[i := new_commitment k p GXOS_VM_PAGE_SIZE ph 1 g]"
      by (simp add: a' arena_record_commit_def)
    have "page_map a' q = ((page_map a)(p \<mapsto> (k, ph))) q" for q
    proof (cases "q = p")
      case True
      have "find_index (page_at p) (va_commitments a') = Some i"
        unfolding find_page_iff [OF inv'] using iD by (simp add: C)
      with True iD show ?thesis by (simp add: page_map_def C)
    next
      case False
      have "find_index (page_at q) (va_commitments a') = find_index (page_at q) (va_commitments a)"
        unfolding C using iD False by (intro find_index_update) auto
      then show ?thesis using False iD find_index_SomeD [of "page_at q" "va_commitments a"]
        by (auto simp: page_map_def C nth_list_update_cases map_option_case split: option.split)
    qed
    moreover have "reserved_map a' = reserved_map a"
      by (auto simp: reserved_map_def fun_eq_iff a' arena_record_commit_def nth_list_update_cases)
    ultimately show ?thesis using True good' by (auto simp: fun_eq_iff)
  qed
qed

lemma decommit_page_maps:
  assumes good: "arena_good a" and op: "gxos_vm_arena_decommit_page a p = (st, a', q)"
  shows "arena_good a' \<and> reserved_map a' = reserved_map a \<and> page_map a' = (page_map a)(p := None) \<and>
    (st = GXOS_VM_STATUS_OK \<longleftrightarrow> page_map a p \<noteq> None)"
proof -
  have inv: "arena_inv a" "arena_paged a" using good by (simp_all add: arena_good_def)
  have good': "arena_good a'"
    using arena_decommit_page_keeps [OF inv(1) op] op inv
    by (auto simp: arena_good_def arena_decommit_page_eq split: if_splits option.splits intro: arena_record_decommit_paged)
  show ?thesis
  proof (cases "find_index (page_at p) (va_commitments a)")
    case None
    then have "page_map a p = None" by (simp add: page_map_None_iff)
    with None op good show ?thesis
      by (auto simp: arena_decommit_page_eq [OF inv(1)] fun_eq_iff split: if_splits)
  next
    case (Some i)
    note iD = find_index_SomeD [OF Some]
    have "p mod GXOS_VM_PAGE_SIZE = 0" using iD inv(2) by (auto simp: arena_paged_def)
    then have st: "st = GXOS_VM_STATUS_OK" and a': "a' = arena_record_decommit a i"
      using op Some by (simp_all add: arena_decommit_page_eq [OF inv(1)])
    have C: "va_commitments a' = (va_commitments a)[i := zero_vm_commitment]"
      by (simp add: a' arena_record_decommit_def Let_def)
    have "page_map a' q = ((page_map a)(p := None)) q" for q
    proof (cases "q = p")
      case True
      have "find_index (page_at p) (va_commitments a') = None"
      proof (rule ccontr)
        assume "\<not> ?thesis"
        then obtain j where "find_index (page_at p) (va_commitments a') = Some j" by blast
        from find_index_SomeD [OF this] page_at_unique [OF inv(1), of i j p] iD show False
          by (auto simp: C nth_list_update_cases split: if_splits)
      qed
      with True show ?thesis by (simp add: page_map_None_iff)
    next
      case False
      have "find_index (page_at q) (va_commitments a') = find_index (page_at q) (va_commitments a)"
        unfolding C using iD False by (intro find_index_update) auto
      then show ?thesis using False iD find_index_SomeD [of "page_at q" "va_commitments a"]
        by (auto simp: page_map_def C nth_list_update_cases map_option_case split: option.split)
    qed
    moreover have "reserved_map a' = reserved_map a"
      by (auto simp: reserved_map_def fun_eq_iff a' arena_record_decommit_def Let_def nth_list_update_cases)
    ultimately show ?thesis using st good' Some by (auto simp: fun_eq_iff page_map_def)
  qed
qed

lemma page_map_eq: "va_commitments a' = va_commitments a \<Longrightarrow> page_map a' = page_map a"
  by (simp add: page_map_def fun_eq_iff)

lemma release_maps:
  assumes good: "arena_good a" and i: "reserved_map a i \<noteq> None" and none: "\<forall>p ph. page_map a p \<noteq> Some (i, ph)"
  shows "\<exists>a'. gxos_vm_arena_release a i = (GXOS_VM_STATUS_OK, a') \<and> arena_good a' \<and>
    reserved_map a' = (reserved_map a)(i := None) \<and> page_map a' = page_map a"
proof -
  have inv: "arena_inv a" "arena_paged a" using good by (simp_all add: arena_good_def)
  have "vc_reservation_slot c \<noteq> i" if c: "c \<in> set (va_commitments a)" "vc_live c" for c
  proof -
    obtain j where "j < length (va_commitments a)" "c = va_commitments a ! j" using c(1) by (metis in_set_conv_nth)
    moreover have "vc_bytes c = GXOS_VM_PAGE_SIZE" using inv(2) c by (simp add: arena_paged_def)
    ultimately have "page_map a (vc_base c) = Some (vc_reservation_slot c, vc_physical_base c)"
      using c(2) by (auto simp: page_map_Some_iff [OF inv(1)])
    with none show ?thesis by metis
  qed
  then have r: "releasable a i" using i inv(1) by (auto simp: releasable_def reserved_map_def arena_inv_iff split: if_splits)
  have C: "va_commitments (arena_released a i) = va_commitments a" by (simp add: arena_released_def)
  have "reserved_map (arena_released a i) = (reserved_map a)(i := None)"
    using i by (auto simp: reserved_map_def fun_eq_iff arena_released_def nth_list_update_cases split: if_splits)
  with arena_release_OK [OF inv(1) r] arena_released_inv [OF inv(1) r] inv(2) page_map_eq [OF C] C show ?thesis
    by (simp add: arena_good_def arena_paged_def)
qed

lemma reserve_any_maps:
  assumes good: "arena_good a" and op: "gxos_vm_arena_reserve_any a n kind owner g = (st, a', out)"
  shows "arena_good a' \<and> page_map a' = page_map a \<and>
    (if st = GXOS_VM_STATUS_OK
     then \<exists>b i. out = Some (b, i) \<and> reserved_map a i = None \<and> reserved_map a' = (reserved_map a)(i \<mapsto> (b, page_round_bytes n)) \<and>
       first_fit a (page_round_bytes n) b \<and> page_round_bytes n \<noteq> 0
     else a' = a)"
proof -
  have inv: "arena_inv a" "arena_paged a" using good by (simp_all add: arena_good_def)
  show ?thesis
  proof (cases "n \<noteq> 0 \<and> g \<noteq> 0 \<and> page_round_bytes n \<noteq> 0")
    case False
    then have "st \<noteq> GXOS_VM_STATUS_OK \<and> a' = a" using op by (auto simp: gxos_vm_arena_reserve_any_def Let_def split: if_splits)
    then show ?thesis using good by simp
  next
    case True
    then have ok: "n \<noteq> 0" "g \<noteq> 0" "page_round_bytes n \<noteq> 0" by auto
    consider (fails) "st \<noteq> GXOS_VM_STATUS_OK" "a' = a" | (fits) b i where "first_fit a (page_round_bytes n) b"
        "find_index (\<lambda>r. \<not> vr_live r) (va_reservations a) = Some i" "st = GXOS_VM_STATUS_OK" "out = Some (b, i)"
        "a' = arena_reserved a i (new_reservation b (page_round_bytes n) n kind owner g)"
      using reserve_any_done [OF inv(1) ok(1,2,3), of kind owner] op by (auto simp: search_done_def)
    then show ?thesis
    proof cases
      case fails
      then show ?thesis using good by simp
    next
      case fits
      note iD = find_index_SomeD [OF fits(2)]
      have C: "va_commitments a' = va_commitments a" by (simp add: fits(5) arena_reserved_def)
      have "arena_inv a'" by (rule arena_reserve_any_keeps [OF inv(1) op])
      moreover have "reserved_map a' = (reserved_map a)(i \<mapsto> (b, page_round_bytes n))" "reserved_map a i = None"
        using iD by (auto simp: reserved_map_def fun_eq_iff fits(5) arena_reserved_def nth_list_update_cases)
      ultimately show ?thesis using fits ok inv(2) page_map_eq [OF C] C by (simp add: arena_good_def arena_paged_def)
    qed
  qed
qed

subsection \<open>Committing a range\<close>

lemma vs_arena_simps [simp]:
  "vs_arena (vs_free_page al s ph x) = vs_arena s" "vs_arena (fst (snd (vs_unmap_page s p))) = vs_arena s"
  "vs_arena (snd (vs_map_page s p ph w e)) = vs_arena s"
  by (simp_all add: vs_free_page_def vs_unmap_page_def vs_map_page_def split: prod.split)

lemma vs_decommit_maps:
  assumes "arena_good (vs_arena s)"
  shows "arena_good (vs_arena (snd (vs_decommit_page s p)))"
    and "reserved_map (vs_arena (snd (vs_decommit_page s p))) = reserved_map (vs_arena s)"
    and "page_map (vs_arena (snd (vs_decommit_page s p))) = (page_map (vs_arena s))(p := None)"
    and "fst (vs_decommit_page s p) = GXOS_VM_STATUS_OK \<longleftrightarrow> page_map (vs_arena s) p \<noteq> None"
proof -
  obtain st a' q where op: "gxos_vm_arena_decommit_page (vs_arena s) p = (st, a', q)" by (metis prod_cases3)
  note m = decommit_page_maps [OF assms op]
  show "arena_good (vs_arena (snd (vs_decommit_page s p)))"
    "reserved_map (vs_arena (snd (vs_decommit_page s p))) = reserved_map (vs_arena s)"
    "page_map (vs_arena (snd (vs_decommit_page s p))) = (page_map (vs_arena s))(p := None)"
    "fst (vs_decommit_page s p) = GXOS_VM_STATUS_OK \<longleftrightarrow> page_map (vs_arena s) p \<noteq> None"
    using m by (simp_all add: vs_decommit_page_def op)
qed

lemma commit_rollback_maps:
  "arena_good (vs_arena s) \<Longrightarrow>
   arena_good (vs_arena (commit_rollback al s created)) \<and>
   reserved_map (vs_arena (commit_rollback al s created)) = reserved_map (vs_arena s) \<and>
   page_map (vs_arena (commit_rollback al s created)) = page_map (vs_arena s) |` (- cp_virtual_page ` set created)"
proof (induction al s created rule: commit_rollback.induct)
  case (2 al s c created)
  let ?s = "vs_free_page al (snd (vs_decommit_page (fst (snd (vs_unmap_page s (cp_virtual_page c)))) (cp_virtual_page c)))
    (cp_physical_page c) (cp_alias c)"
  note d = vs_decommit_maps [of "fst (snd (vs_unmap_page s (cp_virtual_page c)))" "cp_virtual_page c", simplified, OF 2(2)]
  from "2.IH" [OF refl refl refl] d
  show ?case by (auto simp: Let_def restrict_map_def fun_eq_iff)
qed (simp add: restrict_map_def)

definition page_span :: "u64 \<Rightarrow> nat \<Rightarrow> nat \<Rightarrow> u64 set" where
  "page_span start i j = (\<lambda>k. start + of_nat k * GXOS_VM_PAGE_SIZE) ` {i..<j}"

lemma page_span_Suc: "i < j \<Longrightarrow> page_span start i j = insert (start + of_nat i * GXOS_VM_PAGE_SIZE) (page_span start (Suc i) j)"
  using atLeastLessThan_add_Un [of i "Suc i" "j - Suc i"] by (simp add: page_span_def image_Un)

lemma span_aligned:
  fixes start :: u64
  assumes "start mod GXOS_VM_PAGE_SIZE = 0"
  shows "(start + of_nat k * GXOS_VM_PAGE_SIZE) mod GXOS_VM_PAGE_SIZE = 0"
proof -
  have m: "v mod GXOS_VM_PAGE_SIZE = 0 \<longleftrightarrow> unat v mod 4096 = 0" for v :: u64
    unfolding unat_eq_iff [of "v mod _"] unat_mod_u64 by simp
  have "unat (start + of_nat k * GXOS_VM_PAGE_SIZE) mod 4096 = (unat start + unat (of_nat k :: u64) * 4096) mod 2 ^ 64 mod 4096"
    by (simp add: unat_word_ariths mod_simps)
  also have "\<dots> = unat start mod 4096" by (subst mod_mod_cancel) simp_all
  finally show ?thesis using assms unfolding m by simp
qed

text \<open>
  The pages created so far are new. When the loop succeeds, exactly the pages of the range have been added and no
  earlier page has changed; when it fails, the committed pages are those of the beginning.
\<close>

definition grew :: "(u64 \<rightharpoonup> nat \<times> u64) \<Rightarrow> (u64 \<rightharpoonup> nat \<times> u64) \<Rightarrow> u64 set \<Rightarrow> bool" where
  "grew M M' P \<longleftrightarrow> M \<subseteq>\<^sub>m M' \<and> dom M' = dom M \<union> P"

definition fresh_pages :: "(u64 \<rightharpoonup> nat \<times> u64) \<Rightarrow> (u64 \<rightharpoonup> nat \<times> u64) \<Rightarrow> GXOS_VM_CREATED_PAGE list \<Rightarrow> bool" where
  "fresh_pages M M' created \<longleftrightarrow> M = M' |` (- cp_virtual_page ` set created) \<and> cp_virtual_page ` set created \<subseteq> dom M'"

lemma grew_seen: "p \<in> dom M \<Longrightarrow> grew M M' P \<Longrightarrow> grew M M' (insert p P)"
  by (simp add: grew_def insert_absorb)

lemma grew_new: "M p = None \<Longrightarrow> grew (M(p \<mapsto> v)) M' P \<Longrightarrow> grew M M' (insert p P)"
  by (auto simp: grew_def map_le_def) (metis domI option.distinct(1))

lemma commit_loop_maps:
  assumes "arena_good (vs_arena s)" and "fresh_pages M (page_map (vs_arena s)) created"
    and "start mod GXOS_VM_PAGE_SIZE = 0"
    and "commit_loop al g w x start s created index left = (st, s', n)"
  shows "arena_good (vs_arena s') \<and> reserved_map (vs_arena s') = reserved_map (vs_arena s) \<and>
    (if st = GXOS_VM_COMMIT_OPERATION_OK then grew (page_map (vs_arena s)) (page_map (vs_arena s')) (page_span start index (index + left))
     else page_map (vs_arena s') = M)"
  using assms
proof (induction left arbitrary: s created index)
  case 0
  then show ?case by (auto simp: grew_def page_span_def)
next
  case (Suc left)
  let ?p = "start + of_nat index * GXOS_VM_PAGE_SIZE"
  let ?M = "page_map (vs_arena s)"
  have al: "?p mod GXOS_VM_PAGE_SIZE = 0" by (rule span_aligned [OF Suc.prems(3)])
  have span: "page_span start index (index + Suc left) = insert ?p (page_span start (Suc index) (Suc index + left))"
    using page_span_Suc [of index "index + Suc left" start] by simp
  have undone: ?case if "s' = commit_rollback al s1 created" "vs_arena s1 = vs_arena s" "st \<noteq> GXOS_VM_COMMIT_OPERATION_OK" for s1
    using that Suc.prems(1,2) commit_rollback_maps [of s1 al created] by (simp add: fresh_pages_def)
  show ?case
  proof (cases "find_index (page_at ?p) (va_commitments (vs_arena s))")
    case (Some i)
    have f: "gxos_vm_arena_find_commitment (vs_arena s) ?p = (GXOS_VM_STATUS_OK, Some i)"
      using page_map_find [OF Suc.prems(1) al] Some by simp
    have "?M ?p \<noteq> None" using Some by (simp add: page_map_def)
    show ?thesis
    proof (cases "commitment_consistent s i ?p")
      case False
      then show ?thesis using Suc.prems(4) f by (intro undone [of s]) (auto simp: Let_def)
    next
      case True
      then have "commit_loop al g w x start s created (Suc index) left = (st, s', n)" using Suc.prems(4) f by (simp add: Let_def)
      from Suc.IH [OF Suc.prems(1,2,3) this] \<open>?M ?p \<noteq> None\<close> show ?thesis
        unfolding span using grew_seen [of ?p ?M] by (auto simp add: domIff simp del: add_Suc)
    qed
  next
    case None
    have none: "?M ?p = None" using None by (simp add: page_map_None_iff)
    have f: "gxos_vm_arena_find_commitment (vs_arena s) ?p = (GXOS_VM_STATUS_NOT_FOUND, None)"
      using page_map_find [OF Suc.prems(1) al] None by simp
    obtain got ph ali m where a: "the (pa_allocate_page al) (vs_machine s) = (got, ph, ali, m)" by (metis prod_cases4)
    let ?s1 = "s\<lparr> vs_machine := m \<rparr>"
    show ?thesis
    proof (cases "\<not> got \<or> ph = 0 \<or> ali = 0")
      case True
      show ?thesis
        by (rule undone [of "if ph \<noteq> 0 \<or> ali \<noteq> 0 then vs_free_page al ?s1 ph ali else ?s1"])
           (use True Suc.prems(4) f a in \<open>auto simp: Let_def split: if_splits\<close>)
    next
      case g1: False
      obtain ms s2 where ms: "vs_map_page (?s1\<lparr> vs_machine := zero_page m ali \<rparr>) ?p ph w x = (ms, s2)" by fastforce
      have s2: "vs_arena s2 = vs_arena s" using arg_cong [OF ms, where f = "\<lambda>z. vs_arena (snd z)"] by (simp del: vs_map_page_def)
      show ?thesis
      proof (cases "ms = GXOS_VM_PAGING_STATUS_OK")
        case False
        show ?thesis
          by (rule undone [of "vs_free_page al s2 ph ali"]) (use False Suc.prems(4) f a g1 ms s2 in \<open>auto simp: Let_def\<close>)
      next
        case g2: True
        obtain cs a' b where cs: "gxos_vm_arena_commit_page (vs_arena s) ?p ph g = (cs, a', b)" by (metis prod_cases3)
        note m' = commit_page_maps [OF Suc.prems(1) cs none]
        have vc: "vs_commit_page s2 ?p ph g = (cs, s2\<lparr> vs_arena := a' \<rparr>)" by (simp add: vs_commit_page_def s2 cs)
        show ?thesis
        proof (cases "cs = GXOS_VM_STATUS_OK")
          case False
          show ?thesis
            by (rule undone [of "vs_free_page al (fst (snd (vs_unmap_page (s2\<lparr> vs_arena := a' \<rparr>) ?p))) ph ali"])
               (use False Suc.prems(4) f a g1 ms g2 vc m' s2 in \<open>auto simp: Let_def\<close>)
        next
          case g3: True
          let ?c = "\<lparr> cp_virtual_page = ?p, cp_physical_page = ph, cp_alias = ali \<rparr>"
          have run: "commit_loop al g w x start (s2\<lparr> vs_arena := a' \<rparr>) (?c # created) (Suc index) left = (st, s', n)"
            using Suc.prems(4) f a g1 ms g2 g3 vc by (simp add: Let_def)
          obtain k where k: "page_map a' = ?M(?p \<mapsto> (k, ph))" "arena_good a'" "reserved_map a' = reserved_map (vs_arena s)"
            using m' g3 by auto
          have fresh: "fresh_pages M (page_map (vs_arena (s2\<lparr> vs_arena := a' \<rparr>))) (?c # created)"
            using Suc.prems(2) none by (auto simp: fresh_pages_def k(1) restrict_map_def fun_eq_iff)
          have good: "arena_good (vs_arena (s2\<lparr> vs_arena := a' \<rparr>))" using k(2) by simp
          have "page_map (vs_arena (s2\<lparr> vs_arena := a' \<rparr>)) = ?M(?p \<mapsto> (k, ph))" using k(1) by simp
          with Suc.IH [OF good fresh Suc.prems(3) run] k(3) show ?thesis
            unfolding span using grew_new [of ?M ?p "(k, ph)"] none by (auto simp del: add_Suc fun_upd_apply)
        qed
      qed
    qed
  qed
qed

end
