(* ===== verification/VM_Public_Correct.thy ===== *)
theory VM_Public_Correct
  imports VM_Public_Arena VM_Arena_Correct
begin

text \<open>
  What \<open>VirtualAlloc\<close> and \<open>VirtualFree\<close> do to the reservations and the committed pages of the arena: a failing call
  changes nothing, a successful one exactly what it reports, over any page tables and any allocator.
\<close>

subsection \<open>The pages of a range\<close>

text \<open>The pages that a range of addresses touches.\<close>

definition touched :: "u64 \<Rightarrow> u64 \<Rightarrow> u64 set" where
  "touched b n = {p. p mod GXOS_VM_PAGE_SIZE = 0 \<and> bytes_from p GXOS_VM_PAGE_SIZE \<inter> bytes_from b n \<noteq> {}}"

lemma round_up_page_nat: "round_up_page v = Some e \<Longrightarrow> unat e = ceil_to 4096 (unat v)"
proof -
  assume r: "round_up_page v = Some e"
  then have "\<not> v > UINT64_MAX - (GXOS_VM_PAGE_SIZE - 1)" by (auto simp: round_up_page_def split: if_splits)
  then have "unat v + 4095 < 2 ^ 64" by (subst (asm) fits_iff) simp
  then have "unat (v + 4095) = unat v + 4095" by (simp add: unat_add_fits)
  moreover have "e = (v + 4095) AND NOT (GXOS_VM_PAGE_SIZE - 1)" using r by (auto simp: round_up_page_def add.commute split: if_splits)
  ultimately show ?thesis by (simp only: unat_page_down ceil_to_def minus_mod_eq_div_mult) simp
qed

lemma page_multiple_iff: "(p :: u64) mod GXOS_VM_PAGE_SIZE = 0 \<longleftrightarrow> 4096 dvd unat p"
  unfolding unat_eq_iff [of "p mod _"] unat_mod_u64 by (simp add: mod_eq_0_iff_dvd)

lemma touched_iff:
  assumes "n \<noteq> 0" and e: "unat e = ceil_to 4096 (unat b + unat n)" and s: "unat s = unat b - unat b mod 4096"
  shows "p \<in> touched b n \<longleftrightarrow> 4096 dvd unat p \<and> unat s \<le> unat p \<and> unat p < unat e"
proof -
  have "0 < unat n" using assms(1) by (simp add: unat_gt_0)
  then have meet: "bytes_from p GXOS_VM_PAGE_SIZE \<inter> bytes_from b n \<noteq> {} \<longleftrightarrow> unat p < unat b + unat n \<and> unat b < unat p + 4096"
    by (auto simp: bytes_from_def set_eq_iff intro: exI [of _ "max (unat b) (unat p)"])
  have "unat p < unat b + unat n \<longleftrightarrow> unat p < unat e" if "4096 dvd unat p"
    using that ceil_to_ge [of 4096 "unat b + unat n"] ceil_to_least [of 4096 "unat p" "unat b + unat n"] e by force
  moreover have "unat b < unat p + 4096 \<longleftrightarrow> unat s \<le> unat p" if d: "4096 dvd unat p"
  proof -
    obtain i where "unat p = 4096 * i" using d by blast
    moreover have "unat s = 4096 * (unat b div 4096)" using s by (simp add: minus_mod_eq_mult_div)
    ultimately show ?thesis by auto
  qed
  ultimately show ?thesis using meet by (auto simp: touched_def page_multiple_iff)
qed

lemma page_span_touched:
  fixes s e :: u64
  assumes "n \<noteq> 0" and e: "unat e = ceil_to 4096 (unat b + unat n)" and s: "unat s = unat b - unat b mod 4096"
  shows "page_span s 0 (unat ((e - s) div GXOS_VM_PAGE_SIZE)) = touched b n"
proof -
  have d: "4096 dvd unat s" "4096 dvd unat e" using s e ceil_to_dvd [of 4096] by (simp_all add: minus_mod_eq_mult_div)
  have le: "unat s \<le> unat e" using ceil_to_ge [of 4096 "unat b + unat n"] e s by simp
  then have cnt: "unat ((e - s) div GXOS_VM_PAGE_SIZE) = (unat e - unat s) div 4096"
    by (simp add: unat_div unat_sub_le word_le_nat_alt)
  define k where "k = (unat e - unat s) div 4096"
  have ek: "unat e = unat s + k * 4096" using d le by (simp add: k_def)
  have at: "unat (s + of_nat i * GXOS_VM_PAGE_SIZE) = unat s + i * 4096" if "i < k" for i
  proof -
    have lt: "unat s + i * 4096 < 2 ^ 64" using that ek unat_lt_2p64 [of e] by (simp del: unat_lt_2p64)
    have "s + of_nat i * GXOS_VM_PAGE_SIZE = of_nat (unat s + i * 4096)" by simp
    then show ?thesis using lt by (simp only: unat_of_nat) simp
  qed
  show ?thesis
  proof (intro set_eqI iffI)
    fix p assume "p \<in> page_span s 0 (unat ((e - s) div GXOS_VM_PAGE_SIZE))"
    then obtain i where i: "i < k" "p = s + of_nat i * GXOS_VM_PAGE_SIZE" by (auto simp: page_span_def cnt k_def)
    then show "p \<in> touched b n" using at [OF i(1)] d ek by (simp add: touched_iff [OF assms])
  next
    fix p assume "p \<in> touched b n"
    then have p: "4096 dvd unat p" "unat s \<le> unat p" "unat p < unat e" by (simp_all add: touched_iff [OF assms])
    define i where "i = (unat p - unat s) div 4096"
    have "unat p = unat s + i * 4096" using p d by (simp add: i_def)
    moreover from this have "i < k" using p(3) ek by simp
    ultimately show "p \<in> page_span s 0 (unat ((e - s) div GXOS_VM_PAGE_SIZE))"
      using at by (auto simp: page_span_def cnt k_def [symmetric] unat_eq_iff intro!: image_eqI [of _ _ i])
  qed
qed

subsection \<open>Committing\<close>

lemma vm_commit_range_maps:
  assumes good: "arena_good (vs_arena s)" and op: "gxos_vm_commit_range al g s slot b n w x = (st, s', k)"
  shows "arena_good (vs_arena s') \<and> reserved_map (vs_arena s') = reserved_map (vs_arena s) \<and>
    (if st = GXOS_VM_COMMIT_OPERATION_OK then grew (page_map (vs_arena s)) (page_map (vs_arena s')) (touched b n)
     else page_map (vs_arena s') = page_map (vs_arena s))"
proof (cases "st \<noteq> GXOS_VM_COMMIT_OPERATION_OK \<and> s' = s")
  case True
  then show ?thesis using good by simp
next
  case False
  then obtain re e where n: "n \<noteq> 0" and re: "range_end b n = Some re" "round_up_page re = Some e"
    and run: "commit_loop al g w x (round_down_page b) s [] 0 (unat ((e - round_down_page b) div GXOS_VM_PAGE_SIZE)) = (st, s', k)"
    using op by (auto simp: gxos_vm_commit_range_def Let_def split: if_splits option.splits bind_splits)
  have s: "unat (round_down_page b) = unat b - unat b mod 4096" by (simp only: round_down_page_def unat_page_down)
  have e: "unat e = ceil_to 4096 (unat b + unat n)"
    using round_up_page_nat [OF re(2)] range_end_unat [OF re(1)] by simp
  have al: "round_down_page b mod GXOS_VM_PAGE_SIZE = 0" unfolding page_multiple_iff s by (simp add: minus_mod_eq_mult_div)
  have "fresh_pages (page_map (vs_arena s)) (page_map (vs_arena s)) []" by (simp add: fresh_pages_def restrict_map_def fun_eq_iff)
  from commit_loop_maps [OF good this al run] show ?thesis unfolding add_0 page_span_touched [OF n e s] .
qed

lemmas public_failures = invalid_argument_def allocation_failure_def capacity_failure_def inconsistent_def unsupported_def set_error_def

lemma error_state [simp]: "pc_state (set_error c e) = pc_state c" "pc_data_allocator (set_error c e) = pc_data_allocator c"
  by (simp_all add: set_error_def)

lemma commit_status:
  "pc_state (snd (map_commit_status c st)) = pc_state c" "pc_data_allocator (snd (map_commit_status c st)) = pc_data_allocator c"
  "fst (map_commit_status c st) = GXOS_VM_PUBLIC_STATUS_OK \<longleftrightarrow> st = GXOS_VM_COMMIT_OPERATION_OK"
  by (cases st; simp add: public_failures)+

lemma reserve_status:
  "pc_state (snd (map_reserve_status c st)) = pc_state c" "pc_data_allocator (snd (map_reserve_status c st)) = pc_data_allocator c"
  "fst (map_reserve_status c st) = GXOS_VM_PUBLIC_STATUS_OK \<longleftrightarrow> st = GXOS_VM_STATUS_OK"
  by (cases st; simp add: public_failures)+

text \<open>A call that fails reports an error in the cell of the context.\<close>

definition reports_error :: "'w GXOS_VM_PUBLIC_CONTEXT \<Rightarrow> bool" where
  "reports_error c \<longleftrightarrow> pc_last_error c \<in> {None, Some 87, Some 8, Some 50}"

lemma set_error_reports: "e \<in> {87, 8, 50} \<Longrightarrow> reports_error (set_error c e)"
  by (cases "pc_last_error c") (auto simp: reports_error_def set_error_def)

lemma failures_report [simp]:
  "reports_error (snd (invalid_argument c))" "reports_error (snd (inconsistent c))" "reports_error (snd (unsupported c))"
  by (simp_all add: invalid_argument_def inconsistent_def unsupported_def set_error_reports)

lemma status_reports:
  "st \<noteq> GXOS_VM_COMMIT_OPERATION_OK \<Longrightarrow> reports_error (snd (map_commit_status c st))"
  "rs \<noteq> GXOS_VM_STATUS_OK \<Longrightarrow> reports_error (snd (map_reserve_status c rs))"
  by (cases st; simp add: allocation_failure_def set_error_reports)
     (cases rs; simp add: capacity_failure_def set_error_reports)

text \<open>The abstract state, and that a call changed nothing of it but reported an error.\<close>

definition failed :: "'w GXOS_VM_PUBLIC_CONTEXT \<Rightarrow> 'w GXOS_VM_PUBLIC_CONTEXT \<Rightarrow> bool" where
  "failed c c' \<longleftrightarrow> reserved_map (pc_arena c') = reserved_map (pc_arena c) \<and> page_map (pc_arena c') = page_map (pc_arena c) \<and>
     reports_error c'"

lemma commit_range_maps:
  assumes good: "arena_good (pc_arena c)" and op: "commit_range c slot b n res = ((st, c'), res')"
  shows "arena_good (pc_arena c') \<and> pc_data_allocator c' = pc_data_allocator c \<and>
    (if st = GXOS_VM_PUBLIC_STATUS_OK
     then reserved_map (pc_arena c') = reserved_map (pc_arena c) \<and> grew (page_map (pc_arena c)) (page_map (pc_arena c')) (touched b n) \<and>
       pr_effective_base res' = page_down b
     else failed c c' \<and> res' = res)"
proof (cases "((st, c'), res') = (invalid_argument c, res)")
  case True
  then show ?thesis using good failures_report(1) [of c] by (simp add: failed_def invalid_argument_def)
next
  case False
  obtain cs s' k where run: "gxos_vm_commit_range (pc_data_allocator c) (pc_generation c) (pc_state c) slot b n True False = (cs, s', k)"
    by (metis prod_cases3)
  let ?c = "c\<lparr> pc_state := s' \<rparr>"
  have c': "st = fst (map_commit_status ?c cs)" "c' = snd (map_commit_status ?c cs)"
    and res: "st = GXOS_VM_PUBLIC_STATUS_OK \<Longrightarrow> pr_effective_base res' = page_down b" "st \<noteq> GXOS_VM_PUBLIC_STATUS_OK \<Longrightarrow> res' = res"
    using op False run by (auto simp: commit_range_def Let_def split_beta split: option.splits if_splits bind_splits)
  from vm_commit_range_maps [OF good run] show ?thesis
    using res status_reports(1) [of cs ?c] by (auto simp: failed_def c' commit_status split: if_splits)
qed

subsection \<open>VirtualAlloc\<close>

lemma reserve_any_context:
  assumes good: "arena_good (pc_arena c)" and op: "context_reserve_any c n = ((st, c'), out)"
  shows "arena_good (pc_arena c') \<and> page_map (pc_arena c') = page_map (pc_arena c) \<and>
    (if st = GXOS_VM_PUBLIC_STATUS_OK
     then \<exists>b i. out = Some (b, i) \<and> reserved_map (pc_arena c) i = None \<and> first_fit (pc_arena c) (page_round_bytes n) b \<and>
       reserved_map (pc_arena c') = (reserved_map (pc_arena c))(i \<mapsto> (b, page_round_bytes n))
     else failed c c')"
proof -
  obtain rs a out' where run: "gxos_vm_arena_reserve_any (pc_arena c) n GXOS_MEMORY_ALLOCATION_VM_DATA GXOS_MEMORY_OWNER_NATIVEAOT
      (pc_generation c) = (rs, a, out')" by (metis prod_cases3)
  let ?c = "c\<lparr> pc_state := (pc_state c)\<lparr> vs_arena := a \<rparr> \<rparr>"
  have c': "st = fst (map_reserve_status ?c rs)" "c' = snd (map_reserve_status ?c rs)" "out' = out"
    using op run by (auto simp: context_reserve_any_def prod_eq_iff)
  from reserve_any_maps [OF good run] show ?thesis
    using status_reports(2) [of rs ?c] by (auto simp: failed_def c' reserve_status split: if_splits)
qed

lemma alloc_undo_idle:
  assumes good: "arena_good (pc_arena c)" and none: "\<forall>p ph. page_map (pc_arena c) p \<noteq> Some (i, ph)"
  shows "alloc_undo c i = c"
proof -
  have inv: "arena_inv (pc_arena c)" "arena_paged (pc_arena c)" using good by (simp_all add: arena_good_def)
  have "alloc_undo_slot al i j (pc_state c) = pc_state c" if "j < GXOS_VM_MAX_COMMITMENTS" for al j
  proof -
    let ?k = "va_commitments (pc_arena c) ! j"
    have j: "j < length (va_commitments (pc_arena c))" using that inv(1) by (simp add: arena_inv_iff)
    have "vc_reservation_slot ?k \<noteq> i" if "vc_live ?k"
      using none that j inv(2) page_map_Some_iff [OF inv(1), of "vc_base ?k" "(i, vc_physical_base ?k)"]
      by (auto simp: arena_paged_def)
    then show ?thesis by (auto simp: alloc_undo_slot_def Let_def)
  qed
  then have "fold (alloc_undo_slot al i) js (pc_state c) = pc_state c" if "\<forall>j \<in> set js. j < GXOS_VM_MAX_COMMITMENTS" for al js
    using that by (induction js) auto
  then show ?thesis by (simp add: alloc_undo_def)
qed

lemma undo_releases:
  assumes good: "arena_good (pc_arena c)" and i: "reserved_map (pc_arena c) i \<noteq> None"
    and none: "\<forall>p ph. page_map (pc_arena c) p \<noteq> Some (i, ph)"
  shows "\<exists>c'. context_release (alloc_undo c i) i = (GXOS_VM_STATUS_OK, c') \<and> arena_good (pc_arena c') \<and>
    reserved_map (pc_arena c') = (reserved_map (pc_arena c))(i := None) \<and> page_map (pc_arena c') = page_map (pc_arena c) \<and>
    pc_last_error c' = pc_last_error c"
  using release_maps [OF assms] unfolding alloc_undo_idle [OF good none] by (auto simp: context_release_def)

text \<open>What a successful call of each kind has done.\<close>

definition reserved_only :: "'w GXOS_VM_PUBLIC_CONTEXT \<Rightarrow> u64 \<Rightarrow> u64 \<Rightarrow> 'w GXOS_VM_PUBLIC_CONTEXT \<Rightarrow> bool" where
  "reserved_only c n out c' \<longleftrightarrow> first_fit (pc_arena c) (page_round_bytes n) out \<and>
     (\<exists>i. reserved_map (pc_arena c) i = None \<and>
        reserved_map (pc_arena c') = (reserved_map (pc_arena c))(i \<mapsto> (out, page_round_bytes n)))"

lemma reserve_commit:
  assumes good: "arena_good (pc_arena c)" and res: "context_reserve_any c n = ((GXOS_VM_PUBLIC_STATUS_OK, c1), Some (b, i))"
    and com: "commit_range c1 i b n r = ((st, c2), r')"
  shows "if st = GXOS_VM_PUBLIC_STATUS_OK
    then arena_good (pc_arena c2) \<and> reserved_only c n b c2 \<and> grew (page_map (pc_arena c)) (page_map (pc_arena c2)) (touched b n)
    else \<exists>c'. context_release (alloc_undo c2 i) i = (GXOS_VM_STATUS_OK, c') \<and> arena_good (pc_arena c') \<and> failed c c'"
proof -
  from reserve_any_context [OF good res] have g1: "arena_good (pc_arena c1)" and i: "reserved_map (pc_arena c) i = None"
    and m1: "reserved_map (pc_arena c1) = (reserved_map (pc_arena c))(i \<mapsto> (b, page_round_bytes n))"
      "page_map (pc_arena c1) = page_map (pc_arena c)" "first_fit (pc_arena c) (page_round_bytes n) b" by auto
  note m2 = commit_range_maps [OF g1 com]
  show ?thesis
  proof (cases "st = GXOS_VM_PUBLIC_STATUS_OK")
    case True
    then show ?thesis using m1 m2 i by (auto simp: reserved_only_def)
  next
    case False
    then have f: "arena_good (pc_arena c2)" "reserved_map (pc_arena c2) = reserved_map (pc_arena c1)"
      "page_map (pc_arena c2) = page_map (pc_arena c)" "reports_error c2" using m2 m1 by (auto simp: failed_def)
    have "\<forall>p ph. page_map (pc_arena c2) p \<noteq> Some (i, ph)"
      using page_map_reserved [of "pc_arena c"] good i by (fastforce simp: f(3) arena_good_def)
    from undo_releases [OF f(1) _ this] obtain c' where c': "context_release (alloc_undo c2 i) i = (GXOS_VM_STATUS_OK, c')"
      "arena_good (pc_arena c')" "reserved_map (pc_arena c') = (reserved_map (pc_arena c2))(i := None)"
      "page_map (pc_arena c') = page_map (pc_arena c2)" "pc_last_error c' = pc_last_error c2" by (auto simp: f(2) m1(1))
    have "reserved_map (pc_arena c') = reserved_map (pc_arena c)" using i by (simp add: c'(3) f(2) m1(1) fun_eq_iff)
    then show ?thesis using False c' f by (simp add: failed_def reports_error_def)
  qed
qed

text \<open>
  C29. \<open>VirtualAlloc\<close> is atomic and does what it reports, over any page tables and any page allocator, failing
  ones included. A failing call returns a null address and an error code and leaves the reservations and the committed
  pages as they were. A reservation is placed at the lowest free address of the granularity, in a free slot, and
  changes no other one. A commit adds exactly the pages that the requested range touches and keeps every earlier page
  with its physical page; a combined call does both or neither. The arena stays valid in every case.
\<close>

theorem virtual_alloc_atomic:
  assumes good: "arena_good (pc_arena c)" and op: "gxos_vm_public_virtual_alloc c addr n ty prot = ((st, c'), res, out)"
  shows "arena_good (pc_arena c') \<and>
    (if st \<noteq> GXOS_VM_PUBLIC_STATUS_OK then out = 0 \<and> failed c c'
     else if ty = GXOS_VM_PUBLIC_MEM_RESERVE then reserved_only c n out c' \<and> page_map (pc_arena c') = page_map (pc_arena c)
     else if ty = GXOS_VM_PUBLIC_MEM_RESERVE OR GXOS_VM_PUBLIC_MEM_COMMIT
     then reserved_only c n out c' \<and> grew (page_map (pc_arena c)) (page_map (pc_arena c')) (touched out n)
     else ty = GXOS_VM_PUBLIC_MEM_COMMIT \<and> addr \<noteq> 0 \<and> out = page_down addr \<and>
       reserved_map (pc_arena c') = reserved_map (pc_arena c) \<and>
       grew (page_map (pc_arena c)) (page_map (pc_arena c')) (touched addr n))"
proof -
  note d = gxos_vm_public_virtual_alloc_def Let_def
  have fail: ?thesis if "((st, c'), res, out) = (f, r, 0)" "f \<in> {invalid_argument c, unsupported c}" for f r
    using that good failures_report [of c] by (auto simp: failed_def invalid_argument_def unsupported_def)
  show ?thesis
  proof (cases "\<exists>f r. ((st, c'), res, out) = (f, r, 0) \<and> f \<in> {invalid_argument c, unsupported c}")
    case True
    then show ?thesis using fail by blast
  next
    case False
    then have G: "\<not> (\<not> valid_context c \<or> n = 0)" "\<not> prot \<noteq> GXOS_VM_PUBLIC_PAGE_READWRITE" "\<not> alloc_unsupported_flags ty"
      "\<not> ty AND NOT (GXOS_VM_PUBLIC_MEM_RESERVE OR GXOS_VM_PUBLIC_MEM_COMMIT) \<noteq> 0" "page_round n \<noteq> None"
      using op unfolding d by (auto split: if_splits)
    note run = op [unfolded d if_not_P [OF G(1)] if_not_P [OF G(2)] if_not_P [OF G(3)] if_not_P [OF G(4)] if_not_P [OF G(5)]]
    obtain rs c1 ro where r: "context_reserve_any c n = ((rs, c1), ro)" by (metis prod.collapse)
    note rm = reserve_any_context [OF good r]
    consider (reserve) "ty = GXOS_VM_PUBLIC_MEM_RESERVE" "addr = 0"
      | (both) "ty = GXOS_VM_PUBLIC_MEM_RESERVE OR GXOS_VM_PUBLIC_MEM_COMMIT" "addr = 0"
      | (com) k where "ty = GXOS_VM_PUBLIC_MEM_COMMIT" "addr \<noteq> 0" "canonical_address addr"
          "gxos_vm_arena_find_reservation (pc_arena c) addr = Some k"
      using run False by (auto split: if_splits option.splits)
    then show ?thesis
    proof cases
      case reserve
      then show ?thesis using run r rm
        by (auto simp: reserved_only_def split: GXOS_VM_PUBLIC_STATUS.splits if_splits)
    next
      case com
      obtain cs c2 r2 where cr: "commit_range c k addr n (zero_public_result\<lparr> pr_requested_bytes := n \<rparr>) = ((cs, c2), r2)"
        by (metis prod.collapse)
      have "st = cs \<and> c' = c2 \<and> out = (if cs = GXOS_VM_PUBLIC_STATUS_OK then pr_effective_base r2 else 0)"
        using run com cr by (auto split: if_splits)
      then show ?thesis using commit_range_maps [OF good cr] com(1,2) by auto
    next
      case both
      show ?thesis
      proof (cases "rs = GXOS_VM_PUBLIC_STATUS_OK")
        case False
        then have "st = rs \<and> c' = c1 \<and> out = 0" using run both r by (cases rs) auto
        then show ?thesis using rm False by simp
      next
        case True
        then obtain b i where ro: "ro = Some (b, i)" using rm by auto
        let ?r0 = "zero_public_result\<lparr> pr_requested_bytes := n, pr_reserved := True \<rparr>"
        obtain cs c2 r2 where cr: "commit_range c1 i b n ?r0 = ((cs, c2), r2)" by (metis prod.collapse)
        note rc = reserve_commit [OF good r [unfolded True ro] cr]
        show ?thesis
        proof (cases "cs = GXOS_VM_PUBLIC_STATUS_OK")
          case ok: True
          then have "st = GXOS_VM_PUBLIC_STATUS_OK \<and> c' = c2 \<and> out = b" using run both r True ro cr by simp
          then show ?thesis using rc ok both by simp
        next
          case bad: False
          then obtain c3 where c3: "context_release (alloc_undo c2 i) i = (GXOS_VM_STATUS_OK, c3)" "arena_good (pc_arena c3)" "failed c c3"
            using rc by auto
          have "st = cs \<and> c' = c3 \<and> out = 0" using run both r True ro cr bad c3(1) by (cases cs) auto
          then show ?thesis using c3 bad by simp
        qed
      qed
    qed
  qed
qed

text \<open>A context over an empty arena, with page tables and a machine that the calls below do not use.\<close>

definition fresh_context :: "'w GXOS_VM_PAGING \<Rightarrow> 'w machine \<Rightarrow> 'w GXOS_VM_PUBLIC_CONTEXT" where
  "fresh_context pg m =
     \<lparr> pc_state = \<lparr> vs_arena = gxos_vm_arena_init sample_base 0x40000000 1, vs_paging = pg, vs_machine = m \<rparr>,
       pc_data_allocator = \<lparr> pa_allocate_page = Some (\<lambda>m. (False, 0, 0, m)), pa_free_page = Some (\<lambda>m p a. m),
         pa_physical_alias = Some (\<lambda>m p. p) \<rparr>, pc_generation = 1, pc_last_error = Some 0 \<rparr>"

lemma fresh_good: "arena_good (pc_arena (fresh_context pg m))"
  using sample_init by (simp add: fresh_context_def arena_good_def arena_paged_def gxos_vm_arena_init_def zero_vm_commitment_def)

lemma fresh_reserve:
  "\<exists>c'. gxos_vm_public_virtual_alloc (fresh_context pg m) 0 5 GXOS_VM_PUBLIC_MEM_RESERVE GXOS_VM_PUBLIC_PAGE_READWRITE =
     ((GXOS_VM_PUBLIC_STATUS_OK, c'),
      zero_public_result\<lparr> pr_requested_bytes := 5, pr_rounded_bytes := 0x1000, pr_effective_base := sample_base,
        pr_reservation_base := sample_base, pr_reserved := True \<rparr>, sample_base)"
proof -
  let ?a = "gxos_vm_arena_init sample_base 0x40000000 1"
  have n: "page_round_bytes 5 = 0x1000" by (simp add: page_round_bytes_def Let_def)
  have gap: "gap ?a 0x1000 sample_base"
    by (simp add: gap_def reservable_def gxos_vm_arena_init_def zero_vm_reservation_def range_contains_iff range_ok_def)
  have low: "sample_base \<le> b" if "gap ?a 0x1000 b" for b
    using that by (simp add: gap_def reservable_def gxos_vm_arena_init_def range_contains_iff word_le_nat_alt)
  have i: "find_index (\<lambda>r. \<not> vr_live r) (va_reservations ?a) = Some 0" by (simp add: gxos_vm_arena_init_def)
  have dead: "\<not> (\<forall>r \<in> set (va_reservations ?a). vr_live r)" by (simp add: gxos_vm_arena_init_def)
  from reserve_any_done [OF sample_init, of 5 1 13 1] n gap dead
  obtain b j where f: "first_fit ?a 0x1000 b" "find_index (\<lambda>r. \<not> vr_live r) (va_reservations ?a) = Some j"
    "gxos_vm_arena_reserve_any ?a 5 13 1 1 = (GXOS_VM_STATUS_OK, arena_reserved ?a j (new_reservation b 0x1000 5 13 1 1), Some (b, j))"
    by (auto simp: search_done_def)
  moreover have "b = sample_base" using f(1) gap low [of b] unfolding first_fit_def by (meson order_antisym)
  ultimately have r: "gxos_vm_arena_reserve_any ?a 5 13 1 1 =
      (GXOS_VM_STATUS_OK, arena_reserved ?a 0 (new_reservation sample_base 0x1000 5 13 1 1), Some (sample_base, 0))"
    using i by simp
  have "page_round 5 \<noteq> None" by (simp add: page_round_def Let_def)
  then show ?thesis
    using r by (simp add: gxos_vm_public_virtual_alloc_def Let_def valid_context_def fresh_context_def alloc_unsupported_flags_def
        context_reserve_any_def gxos_vm_arena_init_def arena_reserved_def replicate_update_hd zero_public_result_def)
qed

theorem virtual_alloc_atomic_witness:
  "\<forall>pg m. \<exists>c'. fst (gxos_vm_public_virtual_alloc (fresh_context pg m) 0 5 GXOS_VM_PUBLIC_MEM_RESERVE GXOS_VM_PUBLIC_PAGE_READWRITE) =
     (GXOS_VM_PUBLIC_STATUS_OK, c') \<and> arena_good (pc_arena c') \<and> reserved_only (fresh_context pg m) 5 sample_base c'"
proof (intro allI)
  fix pg m
  obtain c' r where op: "gxos_vm_public_virtual_alloc (fresh_context pg m) 0 5 GXOS_VM_PUBLIC_MEM_RESERVE GXOS_VM_PUBLIC_PAGE_READWRITE =
     ((GXOS_VM_PUBLIC_STATUS_OK, c'), r, sample_base)" using fresh_reserve by blast
  from virtual_alloc_atomic [OF fresh_good op]
  show "\<exists>c'. fst (gxos_vm_public_virtual_alloc (fresh_context pg m) 0 5 GXOS_VM_PUBLIC_MEM_RESERVE GXOS_VM_PUBLIC_PAGE_READWRITE) =
     (GXOS_VM_PUBLIC_STATUS_OK, c') \<and> arena_good (pc_arena c') \<and> reserved_only (fresh_context pg m) 5 sample_base c'"
    by (simp add: op)
qed

subsection \<open>VirtualFree\<close>

lemma free_check_context:
  "free_check_loop c k cs n m = Inl (st, c') \<Longrightarrow> st \<noteq> GXOS_VM_PUBLIC_STATUS_OK \<and> pc_state c' = pc_state c \<and> reports_error c'"
proof (induction c k cs n m rule: free_check_loop.induct)
  case (2 c k x cs n m)
  then show ?case
    using failures_report(1,2) [of c]
    by (auto simp: invalid_argument_def inconsistent_def split: if_splits prod.splits)
qed simp

text \<open>Releasing pages of one reservation: other pages keep their place.\<close>

definition only_of :: "nat \<Rightarrow> (u64 \<rightharpoonup> nat \<times> u64) \<Rightarrow> (u64 \<rightharpoonup> nat \<times> u64) \<Rightarrow> bool" where
  "only_of k M M' \<longleftrightarrow> M' \<subseteq>\<^sub>m M \<and> (\<forall>p j ph. M p = Some (j, ph) \<longrightarrow> j \<noteq> k \<longrightarrow> M' p = M p)"

lemma only_of_gone:
  assumes "only_of k M M'" and "\<forall>p ph. M' p \<noteq> Some (k, ph)"
  shows "M' = M |` {p. fst (the (M p)) \<noteq> k}"
proof
  fix p
  have sub: "M' p = None \<or> M' p = M p" using assms(1) by (auto simp: only_of_def map_le_def)
  show "M' p = (M |` {p. fst (the (M p)) \<noteq> k}) p"
  proof (cases "M p")
    case (Some x)
    obtain j ph where "x = (j, ph)" by fastforce
    then show ?thesis using sub assms Some by (cases "j = k") (auto simp: only_of_def restrict_map_def)
  qed (use sub in \<open>simp add: restrict_map_def\<close>)
qed

lemma free_slot_maps:
  assumes good: "arena_good (vs_arena s)" and i: "i < GXOS_VM_MAX_COMMITMENTS" and op: "free_slot al k s i = (ok, s')"
  shows "arena_good (vs_arena s') \<and> reserved_map (vs_arena s') = reserved_map (vs_arena s) \<and>
    only_of k (page_map (vs_arena s)) (page_map (vs_arena s'))"
proof -
  let ?c = "va_commitments (vs_arena s) ! i" and ?M = "page_map (vs_arena s)"
  obtain us s1 q where u: "vs_unmap_page s (vc_base ?c) = (us, s1, q)" by (metis prod_cases3)
  have s1: "vs_arena s1 = vs_arena s" using vs_arena_simps(2) [of s "vc_base ?c"] by (simp add: u)
  obtain ds s2 where d: "vs_decommit_page s1 (vc_base ?c) = (ds, s2)" by fastforce
  have m: "arena_good (vs_arena s2)" "reserved_map (vs_arena s2) = reserved_map (vs_arena s)" "page_map (vs_arena s2) = ?M(vc_base ?c := None)"
    using vs_decommit_maps [of s1 "vc_base ?c"] good by (simp_all add: s1 d)
  show ?thesis
  proof (cases "\<not> vc_live ?c \<or> vc_reservation_slot ?c \<noteq> k \<or> vs_arena s' = vs_arena s")
    case True
    then have "vs_arena s' = vs_arena s" using op by (auto simp: free_slot_def Let_def)
    then show ?thesis using good by (simp add: only_of_def)
  next
    case False
    then have c: "vc_live ?c" "vc_reservation_slot ?c = k" by auto
    have "?M (vc_base ?c) = Some (k, vc_physical_base ?c)"
      using good i c page_map_Some_iff [of "vs_arena s" "vc_base ?c"]
      by (auto simp: arena_good_def arena_inv_iff arena_paged_def)
    moreover have "vs_arena s' = vs_arena s2" using op u d s1 False c by (auto simp: free_slot_def Let_def split: if_splits)
    ultimately show ?thesis using m by (auto simp: only_of_def map_le_def)
  qed
qed

lemma free_loop_maps:
  assumes "arena_good (vs_arena s)" and "\<forall>i \<in> set js. i < GXOS_VM_MAX_COMMITMENTS" and "free_loop al k s js = (ok, s')"
  shows "arena_good (vs_arena s') \<and> reserved_map (vs_arena s') = reserved_map (vs_arena s) \<and>
    only_of k (page_map (vs_arena s)) (page_map (vs_arena s'))"
  using assms
proof (induction js arbitrary: s)
  case Nil
  then show ?case by (simp add: only_of_def)
next
  case (Cons i js)
  obtain o1 s1 where f: "free_slot al k s i = (o1, s1)" by fastforce
  have m: "arena_good (vs_arena s1) \<and> reserved_map (vs_arena s1) = reserved_map (vs_arena s) \<and>
      only_of k (page_map (vs_arena s)) (page_map (vs_arena s1))"
    using free_slot_maps [OF Cons.prems(1) _ f] Cons.prems(2) by simp
  have tr: "only_of k A B \<Longrightarrow> only_of k B C \<Longrightarrow> only_of k A C" for A B C
    unfolding only_of_def by (metis map_le_trans)
  show ?case
  proof (cases o1)
    case True
    with f Cons.prems(3) have "free_loop al k s1 js = (ok, s')" by simp
    from Cons.IH [OF _ _ this] m Cons.prems(2) show ?thesis using tr by auto
  qed (use f Cons.prems(3) m in simp)
qed

lemma release_success:
  assumes good: "arena_good a" and op: "gxos_vm_arena_release a k = (GXOS_VM_STATUS_OK, a')"
  shows "arena_good a' \<and> reserved_map a' = (reserved_map a)(k := None) \<and> page_map a' = page_map a \<and>
    (\<forall>p ph. page_map a p \<noteq> Some (k, ph))"
proof -
  have inv: "arena_inv a" using good by (simp add: arena_good_def)
  have r: "releasable a k" using arena_release_fails [OF inv, of k] op by (cases "releasable a k") auto
  then have "reserved_map a k \<noteq> None" using inv by (auto simp: releasable_def reserved_map_def arena_inv_iff)
  moreover have "\<forall>p ph. page_map a p \<noteq> Some (k, ph)"
    using r by (auto simp: releasable_def page_map_Some_iff [OF inv] dest: nth_mem)
  ultimately show ?thesis using release_maps [OF good, of k] op by auto
qed

text \<open>
  C30. \<open>VirtualFree\<close> releases exactly one reservation. When it succeeds, the address was the base of a live
  reservation, which is gone with all its committed pages, and no other reservation and no page of another one has
  changed. When it fails, an error is reported and every reservation is kept; the committed pages are untouched
  unless the page tables contradicted the arena, and then only pages of the named reservation can have gone.
\<close>

theorem virtual_free_exact:
  assumes good: "arena_good (pc_arena c)" and op: "gxos_vm_public_virtual_free c addr n ty = ((st, c'), res, ok)"
  shows "arena_good (pc_arena c') \<and> ok = (st = GXOS_VM_PUBLIC_STATUS_OK) \<and>
    (if ok then \<exists>k m. reserved_map (pc_arena c) k = Some (addr, m) \<and>
       reserved_map (pc_arena c') = (reserved_map (pc_arena c))(k := None) \<and>
       page_map (pc_arena c') = page_map (pc_arena c) |` {p. fst (the (page_map (pc_arena c) p)) \<noteq> k}
     else reserved_map (pc_arena c') = reserved_map (pc_arena c) \<and> reports_error c' \<and>
       (if st = GXOS_VM_PUBLIC_STATUS_INCONSISTENT
        then \<exists>k m. reserved_map (pc_arena c) k = Some (addr, m) \<and> only_of k (page_map (pc_arena c)) (page_map (pc_arena c'))
        else page_map (pc_arena c') = page_map (pc_arena c)))"
proof (cases "\<exists>r. ((st, c'), res, ok) = (invalid_argument c, r, False) \<or> ((st, c'), res, ok) = (unsupported c, r, False)")
  case True
  then show ?thesis using good failures_report [of c] by (auto simp: invalid_argument_def unsupported_def)
next
  case False
  let ?a = "pc_arena c"
  from False op obtain k where k: "gxos_vm_arena_find_reservation ?a addr = Some k" "vr_base (va_reservations ?a ! k) = addr"
    and run: "((st, c'), res, ok) = (case free_check_loop c k (va_commitments ?a) 0 0 of
        Inl failure \<Rightarrow> (failure, zero_public_result, False)
      | Inr (cn, cb) \<Rightarrow>
     (case free_loop (pc_data_allocator c) k (pc_state c) [0..<GXOS_VM_MAX_COMMITMENTS] of (freed, state) \<Rightarrow>
      let c = c\<lparr> pc_state := state \<rparr> in
      if \<not> freed then (inconsistent c, zero_public_result, False)
      else case context_release c k of (rs, c) \<Rightarrow>
        if rs \<noteq> GXOS_VM_STATUS_OK then (inconsistent c, zero_public_result, False)
        else ((GXOS_VM_PUBLIC_STATUS_OK, c), zero_public_result
                \<lparr> pr_effective_base := addr, pr_reservation_base := addr, pr_reservation_slot := k,
                  pr_existing_page_count := cn, pr_rounded_bytes := cb, pr_reserved := True, pr_committed := cn \<noteq> 0 \<rparr>, True)))"
    by (auto simp: gxos_vm_public_virtual_free_def split: if_splits option.splits)
  have km: "reserved_map ?a k = Some (addr, vr_bytes (va_reservations ?a ! k))"
    using find_index_SomeD [OF k(1) [unfolded gxos_vm_arena_find_reservation_def]] k(2) by (simp add: reserved_map_def)
  show ?thesis
  proof (cases "free_check_loop c k (va_commitments ?a) 0 0")
    case (Inl f)
    then have e: "(st, c') = f" "\<not> ok" using run by auto
    note fc = free_check_context [OF Inl [folded e(1)]]
    then show ?thesis using e(2) good km by (auto simp: only_of_def)
  next
    case (Inr q)
    obtain fr s1 where fl: "free_loop (pc_data_allocator c) k (pc_state c) [0..<GXOS_VM_MAX_COMMITMENTS] = (fr, s1)" by fastforce
    have m: "arena_good (vs_arena s1)" "reserved_map (vs_arena s1) = reserved_map ?a" "only_of k (page_map ?a) (page_map (vs_arena s1))"
      using free_loop_maps [OF good _ fl] by auto
    let ?c = "c\<lparr> pc_state := s1 \<rparr>"
    obtain rs a2 where r: "gxos_vm_arena_release (vs_arena s1) k = (rs, a2)" by fastforce
    let ?c2 = "?c\<lparr> pc_state := s1\<lparr> vs_arena := a2 \<rparr> \<rparr>"
    consider (bad) "((st, c'), res, ok) = (inconsistent ?c, zero_public_result, False)"
      | (stuck) "rs \<noteq> GXOS_VM_STATUS_OK" "((st, c'), res, ok) = (inconsistent ?c2, zero_public_result, False)"
      | (freed) "rs = GXOS_VM_STATUS_OK" "st = GXOS_VM_PUBLIC_STATUS_OK" "c' = ?c2" "ok"
      using run Inr fl r by (cases q) (auto simp: Let_def context_release_def split: if_splits)
    then show ?thesis
    proof cases
      case bad
      then show ?thesis using m km failures_report(2) [of ?c] by (auto simp: inconsistent_def)
    next
      case stuck
      have "a2 = vs_arena s1"
        using arena_release_OK [of "vs_arena s1" k] arena_release_fails [of "vs_arena s1" k] m(1) r stuck(1)
        by (cases "releasable (vs_arena s1) k") (auto simp: arena_good_def)
      then show ?thesis using stuck(2) m km failures_report(2) [of ?c2] by (auto simp: inconsistent_def)
    next
      case freed
      note rl = release_success [OF m(1) r [unfolded freed(1)]]
      have "page_map (vs_arena s1) = page_map ?a |` {p. fst (the (page_map ?a p)) \<noteq> k}" using m(3) rl by (intro only_of_gone) auto
      then show ?thesis using freed rl m(2) km by auto
    qed
  qed
qed

text \<open>A reservation without pages, to be freed by its base.\<close>

definition reserved_context :: "'w GXOS_VM_PAGING \<Rightarrow> 'w machine \<Rightarrow> 'w GXOS_VM_PUBLIC_CONTEXT" where
  "reserved_context pg m = (fresh_context pg m)\<lparr> pc_state := \<lparr> vs_arena = sample_arena, vs_paging = pg, vs_machine = m \<rparr> \<rparr>"

lemma free_check_dead: "\<forall>x \<in> set cs. \<not> vc_live x \<Longrightarrow> free_check_loop c k cs n b = Inr (n, b)"
  by (induction cs) auto

lemma free_loop_dead:
  assumes "\<forall>x \<in> set (va_commitments (vs_arena s)). \<not> vc_live x" and "\<forall>j \<in> set js. j < length (va_commitments (vs_arena s))"
  shows "free_loop al k s js = (True, s)"
  using assms(2) by (induction js) (use assms(1) in \<open>auto simp: free_slot_def\<close>)

lemma reserved_context_free: "snd (snd (gxos_vm_public_virtual_free (reserved_context pg m) sample_base 0 GXOS_VM_PUBLIC_MEM_RELEASE))"
proof -
  let ?s = "\<lparr> vs_arena = sample_arena, vs_paging = pg, vs_machine = m \<rparr>"
  have dead: "\<forall>x \<in> set (va_commitments sample_arena). \<not> vc_live x" by (simp add: sample_commitments zero_vm_commitment_def)
  have f: "free_loop al 0 ?s [0..<GXOS_VM_MAX_COMMITMENTS] = (True, ?s)" for al
    by (rule free_loop_dead) (use dead in \<open>simp_all add: sample_commitments\<close>)
  have "releasable sample_arena 0" using dead by (simp add: releasable_def sample_reservation)
  then have r: "gxos_vm_arena_release sample_arena 0 = (GXOS_VM_STATUS_OK, arena_released sample_arena 0)"
    by (rule arena_release_OK [OF sample_arena_inv])
  have v: "va_valid sample_arena" using sample_arena_inv by (simp add: arena_inv_iff)
  show ?thesis
    by (simp add: gxos_vm_public_virtual_free_def reserved_context_def fresh_context_def valid_context_def canonical_address_def Let_def v
        sample_find sample_reservation free_check_dead [OF dead] f context_release_def r del: upt_Suc)
qed

theorem virtual_free_exact_witness:
  "\<forall>pg m. \<exists>k n. reserved_map (pc_arena (reserved_context pg m)) k = Some (sample_base, n) \<and>
     reserved_map (pc_arena (snd (fst (gxos_vm_public_virtual_free (reserved_context pg m) sample_base 0 GXOS_VM_PUBLIC_MEM_RELEASE)))) k = None"
proof (intro allI)
  fix pg :: "'w GXOS_VM_PAGING" and m
  obtain st c' r ok where op: "gxos_vm_public_virtual_free (reserved_context pg m) sample_base 0 GXOS_VM_PUBLIC_MEM_RELEASE = ((st, c'), r, ok)"
    by (metis prod.collapse)
  then have ok using reserved_context_free [of pg m] by simp
  have "arena_good (pc_arena (reserved_context pg m))" using sample_arena_inv sample_paged by (simp add: reserved_context_def arena_good_def)
  from virtual_free_exact [OF this op] \<open>ok\<close>
  show "\<exists>k n. reserved_map (pc_arena (reserved_context pg m)) k = Some (sample_base, n) \<and>
     reserved_map (pc_arena (snd (fst (gxos_vm_public_virtual_free (reserved_context pg m) sample_base 0 GXOS_VM_PUBLIC_MEM_RELEASE)))) k = None"
    by (auto simp: op)
qed

end
