(* ===== verification/Crt_Strings.thy ===== *)
theory Crt_Strings
  imports Crt_Regions
begin

text \<open>
  The string functions of the run-time library: \<open>strlen\<close>, \<open>stricmp\<close> and \<open>strcmp\<close> of
  \<open>src/src/Gate4Harness/crt_strlen.c\<close>, \<open>crt_stricmp.c\<close> and \<open>crt_strcmp.c\<close>.

  The memory is a function from addresses to bytes; a null pointer is the address 0. An image is \<open>None\<close> for a null
  pointer, and its regions are \<open>None\<close> for a null array, else they have \<open>memory_region_count\<close> entries. The output
  cells are returned, \<open>None\<close> while they have not been written, for calls that pass such cells; without them the code returns
  \<open>INVALID_OUTPUT\<close> at once. A report is \<open>None\<close> for a null pointer.
\<close>

abbreviation (input) SIZE_MAX :: u64 where "SIZE_MAX \<equiv> UINT64_MAX"

datatype GXOS_CRT_STRLEN_STATUS =
    GXOS_CRT_STRLEN_STATUS_OK
  | GXOS_CRT_STRLEN_STATUS_NULL_POINTER
  | GXOS_CRT_STRLEN_STATUS_NONCANONICAL_POINTER
  | GXOS_CRT_STRLEN_STATUS_UNREADABLE_POINTER
  | GXOS_CRT_STRLEN_STATUS_UNTERMINATED
  | GXOS_CRT_STRLEN_STATUS_OVERFLOW
  | GXOS_CRT_STRLEN_STATUS_INVALID_CONTEXT
  | GXOS_CRT_STRLEN_STATUS_INVALID_OUTPUT

datatype GXOS_CRT_STRICMP_STATUS =
    GXOS_CRT_STRICMP_STATUS_OK
  | GXOS_CRT_STRICMP_STATUS_NULL_POINTER
  | GXOS_CRT_STRICMP_STATUS_NONCANONICAL_POINTER
  | GXOS_CRT_STRICMP_STATUS_UNREADABLE_POINTER
  | GXOS_CRT_STRICMP_STATUS_UNTERMINATED
  | GXOS_CRT_STRICMP_STATUS_SCAN_LIMIT
  | GXOS_CRT_STRICMP_STATUS_POINTER_OVERFLOW
  | GXOS_CRT_STRICMP_STATUS_UNSUPPORTED_LOCALE
  | GXOS_CRT_STRICMP_STATUS_INVALID_CONTEXT
  | GXOS_CRT_STRICMP_STATUS_INVALID_OUTPUT

record GXOS_READABLE_IMAGE =
  ri_image_base :: u64
  ri_image_end :: u64
  ri_relocations_applied :: bool
  ri_memory_regions :: "GXOS_CRT_INITTERM_MEMORY_REGION list option"

record GXOS_CRT_STRICMP_REPORT =
  sr_string1_length :: u64
  sr_string2_length :: u64
  sr_string1_terminator :: u64
  sr_string2_terminator :: u64
  sr_bytes_examined :: u64
  sr_compared_prefix :: u64

subsection \<open>strlen\<close>

definition gxos_crt_strlen_is_canonical :: "u64 \<Rightarrow> bool" where
  "gxos_crt_strlen_is_canonical address \<longleftrightarrow> (let high = drop_bit 47 address in high = 0 \<or> high = 0x1FFFF)"

definition gxos_crt_strlen_context_is_valid :: "GXOS_READABLE_IMAGE \<Rightarrow> bool" where
  "gxos_crt_strlen_context_is_valid img =
     (case ri_memory_regions img of
        None \<Rightarrow> False
      | Some regions \<Rightarrow>
          if regions = [] \<or> length regions > 32 then False
          else if ri_image_base img = 0 \<or> ri_image_end img \<le> ri_image_base img \<or>
                  \<not> gxos_crt_strlen_is_canonical (ri_image_base img) \<or>
                  \<not> gxos_crt_strlen_is_canonical (ri_image_end img - 1) then False
          else if list_ex (\<lambda>region. rg_base region \<ge> rg_end region \<or> \<not> gxos_crt_strlen_is_canonical (rg_base region) \<or>
                                    \<not> gxos_crt_strlen_is_canonical (rg_end region - 1)) regions then False
          else ri_relocations_applied img)"

definition gxos_crt_strlen_find_region ::
    "u64 \<Rightarrow> GXOS_READABLE_IMAGE \<Rightarrow> GXOS_CRT_INITTERM_MEMORY_REGION option" where
  "gxos_crt_strlen_find_region address img =
     find (\<lambda>region. address \<ge> rg_base region \<and> address < rg_end region)
       (case ri_memory_regions img of None \<Rightarrow> [] | Some regions \<Rightarrow> regions)"

lemma unat_next: "(len :: u64) < bound \<Longrightarrow> unat (len + 1) = Suc (unat len)"
  using unat_lt_2p64 [of bound] by (simp add: word_less_nat_alt unat_add_fits del: unat_lt_2p64)

text \<open>The endless loop, entered with the length so far.\<close>

function strlen_loop ::
    "memory \<Rightarrow> u64 \<Rightarrow> GXOS_READABLE_IMAGE \<Rightarrow> u64 \<Rightarrow> u64 \<Rightarrow> GXOS_CRT_STRLEN_STATUS \<times> u64 option" where
  "strlen_loop m base img maximum_scan len =
     (if len \<ge> maximum_scan then (GXOS_CRT_STRLEN_STATUS_UNTERMINATED, None)
      else if len > UINT64_MAX - base then (GXOS_CRT_STRLEN_STATUS_OVERFLOW, None)
      else
        let current = base + len in
        if \<not> gxos_crt_strlen_is_canonical current then (GXOS_CRT_STRLEN_STATUS_NONCANONICAL_POINTER, None)
        else case gxos_crt_strlen_find_region current img of
          None \<Rightarrow> (GXOS_CRT_STRLEN_STATUS_UNREADABLE_POINTER, None)
        | Some region \<Rightarrow>
            if \<not> rg_readable region then (GXOS_CRT_STRLEN_STATUS_UNREADABLE_POINTER, None)
            else if m current = 0 then (GXOS_CRT_STRLEN_STATUS_OK, Some len)
            else if len = SIZE_MAX then (GXOS_CRT_STRLEN_STATUS_OVERFLOW, None)
            else strlen_loop m base img maximum_scan (len + 1))"
  by pat_completeness auto
termination
  by (relation "measure (\<lambda>(m, base, img, maximum_scan, len). unat maximum_scan - unat len)")
     (auto simp: unat_next word_less_nat_alt not_le)

declare strlen_loop.simps [simp del]

definition gxos_crt_strlen_checked ::
    "memory \<Rightarrow> u64 \<Rightarrow> GXOS_READABLE_IMAGE option \<Rightarrow> u64 \<Rightarrow> GXOS_CRT_STRLEN_STATUS \<times> u64 option" where
  "gxos_crt_strlen_checked m string img maximum_scan =
     (case img of
        None \<Rightarrow> (GXOS_CRT_STRLEN_STATUS_INVALID_CONTEXT, None)
      | Some img \<Rightarrow>
          if \<not> gxos_crt_strlen_context_is_valid img then (GXOS_CRT_STRLEN_STATUS_INVALID_CONTEXT, None)
          else if string = 0 then (GXOS_CRT_STRLEN_STATUS_NULL_POINTER, None)
          else if \<not> gxos_crt_strlen_is_canonical string then (GXOS_CRT_STRLEN_STATUS_NONCANONICAL_POINTER, None)
          else if maximum_scan = 0 then (GXOS_CRT_STRLEN_STATUS_UNTERMINATED, None)
          else if maximum_scan - 1 > UINT64_MAX - string then (GXOS_CRT_STRLEN_STATUS_OVERFLOW, None)
          else if string \<ge> ri_image_base img \<and> string < ri_image_end img \<and> \<not> ri_relocations_applied img
          then (GXOS_CRT_STRLEN_STATUS_INVALID_CONTEXT, None)
          else strlen_loop m string img maximum_scan 0)"

subsection \<open>stricmp\<close>

definition gxos_crt_stricmp_is_canonical :: "u64 \<Rightarrow> bool" where
  "gxos_crt_stricmp_is_canonical address \<longleftrightarrow> (let high = drop_bit 47 address in high = 0 \<or> high = 0x1FFFF)"

definition gxos_crt_stricmp_context_is_valid :: "GXOS_READABLE_IMAGE option \<Rightarrow> bool" where
  "gxos_crt_stricmp_context_is_valid img =
     (case img of
        None \<Rightarrow> False
      | Some img \<Rightarrow>
     (case ri_memory_regions img of
        None \<Rightarrow> False
      | Some regions \<Rightarrow>
          if regions = [] \<or> length regions > 32 then False
          else if ri_image_base img = 0 \<or> ri_image_end img \<le> ri_image_base img \<or>
                  \<not> gxos_crt_stricmp_is_canonical (ri_image_base img) \<or>
                  \<not> gxos_crt_stricmp_is_canonical (ri_image_end img - 1) then False
          else if list_ex (\<lambda>region. rg_base region = 0 \<or> rg_base region \<ge> rg_end region \<or>
                                    \<not> gxos_crt_stricmp_is_canonical (rg_base region) \<or>
                                    \<not> gxos_crt_stricmp_is_canonical (rg_end region - 1)) regions then False
          else ri_relocations_applied img))"

definition gxos_crt_stricmp_find_region ::
    "u64 \<Rightarrow> GXOS_READABLE_IMAGE \<Rightarrow> GXOS_CRT_INITTERM_MEMORY_REGION option" where
  "gxos_crt_stricmp_find_region address img =
     find (\<lambda>region. address \<ge> rg_base region \<and> address < rg_end region)
       (case ri_memory_regions img of None \<Rightarrow> [] | Some regions \<Rightarrow> regions)"

definition gxos_crt_stricmp_ascii_tolower :: "u8 \<Rightarrow> u8" where
  "gxos_crt_stricmp_ascii_tolower v = (if v \<ge> 0x41 \<and> v \<le> 0x5A then v + (0x61 - 0x41) else v)"

text \<open>The loop from \<open>index\<close> on; the result is the status, \<open>*comparison_out\<close> and the report.\<close>

fun stricmp_loop ::
    "memory \<Rightarrow> u64 \<Rightarrow> u64 \<Rightarrow> GXOS_READABLE_IMAGE \<Rightarrow> nat \<Rightarrow> nat \<Rightarrow> GXOS_CRT_STRICMP_REPORT option \<Rightarrow>
     GXOS_CRT_STRICMP_STATUS \<times> int option \<times> GXOS_CRT_STRICMP_REPORT option" where
  "stricmp_loop m base1 base2 img index 0 report = (GXOS_CRT_STRICMP_STATUS_SCAN_LIMIT, None, report)"
| "stricmp_loop m base1 base2 img index (Suc rest) report =
     (let current1 = base1 + of_nat index; current2 = base2 + of_nat index in
      if \<not> gxos_crt_stricmp_is_canonical current1 \<or> \<not> gxos_crt_stricmp_is_canonical current2
      then (GXOS_CRT_STRICMP_STATUS_NONCANONICAL_POINTER, None, report)
      else case (gxos_crt_stricmp_find_region current1 img, gxos_crt_stricmp_find_region current2 img) of
        (Some region1, Some region2) \<Rightarrow>
          if \<not> rg_readable region1 \<or> \<not> rg_readable region2
          then (GXOS_CRT_STRICMP_STATUS_UNREADABLE_POINTER, None, report)
          else
            let folded1 = gxos_crt_stricmp_ascii_tolower (m current1);
                folded2 = gxos_crt_stricmp_ascii_tolower (m current2);
                report = map_option (\<lambda>r. r\<lparr> sr_bytes_examined := (if sr_bytes_examined r \<le> SIZE_MAX - 2
                                                                 then sr_bytes_examined r + 2 else SIZE_MAX),
                                           sr_compared_prefix := of_nat index + 1 \<rparr>) report
            in if folded1 \<noteq> folded2
               then (GXOS_CRT_STRICMP_STATUS_OK, Some (uint folded1 - uint folded2), report)
               else if folded1 = 0
               then (GXOS_CRT_STRICMP_STATUS_OK, Some 0,
                     map_option (\<lambda>r. r\<lparr> sr_string1_length := of_nat index, sr_string2_length := of_nat index,
                                        sr_string1_terminator := current1, sr_string2_terminator := current2 \<rparr>) report)
               else stricmp_loop m base1 base2 img (Suc index) rest report
      | _ \<Rightarrow> (GXOS_CRT_STRICMP_STATUS_UNREADABLE_POINTER, None, report))"

definition gxos_crt_stricmp_checked_report ::
    "memory \<Rightarrow> u64 \<Rightarrow> u64 \<Rightarrow> GXOS_READABLE_IMAGE option \<Rightarrow> u64 \<Rightarrow> GXOS_CRT_STRICMP_REPORT option \<Rightarrow>
     GXOS_CRT_STRICMP_STATUS \<times> int option \<times> GXOS_CRT_STRICMP_REPORT option" where
  "gxos_crt_stricmp_checked_report m string1 string2 img maximum_scan_per_string report =
     (let report = map_option (\<lambda>_. \<lparr> sr_string1_length = SIZE_MAX, sr_string2_length = SIZE_MAX, sr_string1_terminator = 0,
            sr_string2_terminator = 0, sr_bytes_examined = 0, sr_compared_prefix = 0 \<rparr>) report
      in if \<not> gxos_crt_stricmp_context_is_valid img then (GXOS_CRT_STRICMP_STATUS_INVALID_CONTEXT, None, report)
         else if string1 = 0 \<or> string2 = 0 then (GXOS_CRT_STRICMP_STATUS_NULL_POINTER, None, report)
         else if \<not> gxos_crt_stricmp_is_canonical string1 \<or> \<not> gxos_crt_stricmp_is_canonical string2
         then (GXOS_CRT_STRICMP_STATUS_NONCANONICAL_POINTER, None, report)
         else if maximum_scan_per_string = 0 then (GXOS_CRT_STRICMP_STATUS_SCAN_LIMIT, None, report)
         else if maximum_scan_per_string - 1 > UINT64_MAX - string1 \<or> maximum_scan_per_string - 1 > UINT64_MAX - string2
         then (GXOS_CRT_STRICMP_STATUS_POINTER_OVERFLOW, None, report)
         else stricmp_loop m string1 string2 (the img) 0 (unat maximum_scan_per_string) report)"

definition gxos_crt_stricmp_checked ::
    "memory \<Rightarrow> u64 \<Rightarrow> u64 \<Rightarrow> GXOS_READABLE_IMAGE option \<Rightarrow> u64 \<Rightarrow> GXOS_CRT_STRICMP_STATUS \<times> int option" where
  "gxos_crt_stricmp_checked m string1 string2 img maximum_scan_per_string =
     (case gxos_crt_stricmp_checked_report m string1 string2 img maximum_scan_per_string None of
        (status, comparison, _) \<Rightarrow> (status, comparison))"

subsection \<open>strcmp\<close>

text \<open>The code has no bound: the value is \<open>None\<close> when the loop does not end.\<close>

partial_function (option) gxos_crt_strcmp :: "memory \<Rightarrow> u64 \<Rightarrow> u64 \<Rightarrow> int option" where
  "gxos_crt_strcmp m lhs rhs =
     (let left = m lhs; right = m rhs in
      if left \<noteq> right then Some (if left < right then - 1 else 1)
      else if left = 0 then Some 0
      else gxos_crt_strcmp m (lhs + 1) (rhs + 1))"

end
