(* ===== verification/Crt_Strings_Correct.thy ===== *)
theory Crt_Strings_Correct
  imports Crt_Strings
begin

text \<open>
  The string functions read only bytes that the image declares readable; \<open>strlen\<close> succeeds exactly on the readable
  strings shorter than its bound, and the comparisons are the lexicographic ones.
\<close>

subsection \<open>Strings in memory\<close>

fun string_at :: "memory \<Rightarrow> u64 \<Rightarrow> u8 list \<Rightarrow> bool" where
  "string_at m p [] \<longleftrightarrow> m p = 0"
| "string_at m p (x # xs) \<longleftrightarrow> m p = x \<and> x \<noteq> 0 \<and> string_at m (p + 1) xs"

definition readable :: "GXOS_READABLE_IMAGE \<Rightarrow> u64 \<Rightarrow> bool" where
  "readable img a \<longleftrightarrow> gxos_crt_strlen_is_canonical a \<and>
     (case gxos_crt_strlen_find_region a img of None \<Rightarrow> False | Some region \<Rightarrow> rg_readable region)"

text \<open>The bytes from an address on, up to and with a given offset.\<close>

definition readable_upto :: "GXOS_READABLE_IMAGE \<Rightarrow> u64 \<Rightarrow> nat \<Rightarrow> bool" where
  "readable_upto img p n \<longleftrightarrow> (\<forall>i \<le> n. readable img (p + of_nat i))"

lemma readable_upto_0 [simp]: "readable_upto img p 0 \<longleftrightarrow> readable img p"
  by (simp add: readable_upto_def)

lemma readable_upto_Suc: "readable_upto img p (Suc n) \<longleftrightarrow> readable img p \<and> readable_upto img (p + 1) n"
  by (simp add: readable_upto_def All_less_Suc2 less_Suc_eq_le [symmetric] add.assoc)

lemma readable_uptoD: "readable_upto img p n \<Longrightarrow> readable img p"
  by (auto simp: readable_upto_def dest: spec [of _ 0])

subsection \<open>strlen\<close>

lemma strlen_step:
  assumes "mx - 1 \<le> UINT64_MAX - p" and "len < mx"
  shows "readable img (p + len) \<Longrightarrow> strlen_loop m p img mx len =
      (if m (p + len) = 0 then (GXOS_CRT_STRLEN_STATUS_OK, Some len) else strlen_loop m p img mx (len + 1))"
    and "\<not> readable img (p + len) \<Longrightarrow> fst (strlen_loop m p img mx len) \<noteq> GXOS_CRT_STRLEN_STATUS_OK"
proof -
  have "unat (mx - 1) = unat mx - 1" using assms(2) by (simp add: unat_sub_le word_le_nat_alt word_less_nat_alt)
  then have "len \<le> mx - 1" using assms(2) by (simp add: word_le_nat_alt word_less_nat_alt)
  then have fits: "\<not> len > UINT64_MAX - p" "\<not> len \<ge> mx" using assms by (meson leD order_trans not_le)+
  have "len \<noteq> SIZE_MAX" using assms(2) word_order.extremum [of mx] by (auto simp: not_less [symmetric])
  note step = strlen_loop.simps [of m p img mx len, unfolded if_not_P [OF fits(2)] if_not_P [OF fits(1)] Let_def]
  show "readable img (p + len) \<Longrightarrow> strlen_loop m p img mx len =
      (if m (p + len) = 0 then (GXOS_CRT_STRLEN_STATUS_OK, Some len) else strlen_loop m p img mx (len + 1))"
    unfolding step using \<open>len \<noteq> SIZE_MAX\<close> by (auto simp: readable_def split: option.splits)
  show "\<not> readable img (p + len) \<Longrightarrow> fst (strlen_loop m p img mx len) \<noteq> GXOS_CRT_STRLEN_STATUS_OK"
    unfolding step by (auto simp: readable_def split: option.splits)
qed

lemma string_at_split:
  "(\<exists>s. n = k + length s \<and> string_at m p s \<and> readable_upto img p (length s)) \<longleftrightarrow>
   readable img p \<and> (if m p = 0 then n = k else \<exists>s. n = Suc k + length s \<and> string_at m (p + 1) s \<and> readable_upto img (p + 1) (length s))"
  (is "?L \<longleftrightarrow> ?R")
proof
  assume ?L
  then obtain s where s: "n = k + length s" "string_at m p s" "readable_upto img p (length s)" by blast
  then show ?R by (cases s) (auto simp: readable_upto_Suc)
next
  assume r: ?R
  show ?L
  proof (cases "m p = 0")
    case True
    then show ?thesis using r by (intro exI [of _ "[]"]) simp
  next
    case False
    then obtain s where "n = Suc k + length s" "string_at m (p + 1) s" "readable_upto img (p + 1) (length s)" using r by auto
    then show ?thesis using r False by (intro exI [of _ "m p # s"]) (simp add: readable_upto_Suc)
  qed
qed

lemma strlen_loop_iff:
  assumes "mx - 1 \<le> UINT64_MAX - p"
  shows "strlen_loop m p img mx len = (GXOS_CRT_STRLEN_STATUS_OK, Some l) \<longleftrightarrow>
    l < mx \<and> (\<exists>s. unat l = unat len + length s \<and> string_at m (p + len) s \<and> readable_upto img (p + len) (length s))"
  using assms
proof (induction "unat mx - unat len" arbitrary: len rule: less_induct)
  case less
  show ?case
  proof (cases "len < mx")
    case False
    then have "fst (strlen_loop m p img mx len) \<noteq> GXOS_CRT_STRLEN_STATUS_OK" by (subst strlen_loop.simps) (simp add: not_less)
    moreover have "\<not> l < mx" if "unat l = unat len + k" for k
      using that False by (simp add: word_less_nat_alt)
    ultimately show ?thesis by auto
  next
    case True
    note st = strlen_step [OF less.prems True, of img m]
    have IH: "strlen_loop m p img mx (len + 1) = (GXOS_CRT_STRLEN_STATUS_OK, Some l) \<longleftrightarrow> l < mx \<and>
        (\<exists>s. unat l = Suc (unat len) + length s \<and> string_at m (p + len + 1) s \<and> readable_upto img (p + len + 1) (length s))"
      using less.hyps [of "len + 1"] less.prems True unat_next [OF True] by (simp add: word_less_nat_alt add.assoc)
    have eq: "unat l = unat len \<longleftrightarrow> l = len" by (simp add: unat_eq_iff)
    show ?thesis
      unfolding string_at_split [of "unat l" "unat len"] eq
    proof (cases "readable img (p + len)")
      case r: True
      show "strlen_loop m p img mx len = (GXOS_CRT_STRLEN_STATUS_OK, Some l) \<longleftrightarrow> l < mx \<and> readable img (p + len) \<and>
          (if m (p + len) = 0 then l = len else \<exists>s. unat l = Suc (unat len) + length s \<and> string_at m (p + len + 1) s \<and>
             readable_upto img (p + len + 1) (length s))"
        using st(1) [OF r] IH True r by auto
    qed (use st(2) in auto)
  qed
qed

text \<open>
  C31. \<open>strlen\<close> always returns. It succeeds with a length exactly when the image is valid, the string starts at a
  non-null address, has that many non-zero bytes before a zero byte, all of them and the terminator readable, and the
  length is below the bound of the scan, which must not run past the end of the address space. In every other case it
  reports a failure and writes no length.
\<close>

theorem crt_strlen_exact:
  "(gxos_crt_strlen_checked m p (Some img) mx = (GXOS_CRT_STRLEN_STATUS_OK, Some l) \<longleftrightarrow>
      gxos_crt_strlen_context_is_valid img \<and> p \<noteq> 0 \<and> mx - 1 \<le> UINT64_MAX - p \<and> l < mx \<and>
      (\<exists>s. unat l = length s \<and> string_at m p s \<and> readable_upto img p (length s))) \<and>
   (snd (gxos_crt_strlen_checked m p (Some img) mx) = None \<longleftrightarrow>
      fst (gxos_crt_strlen_checked m p (Some img) mx) \<noteq> GXOS_CRT_STRLEN_STATUS_OK)"
proof -
  have out: "snd (strlen_loop m p img mx len) = None \<longleftrightarrow> fst (strlen_loop m p img mx len) \<noteq> GXOS_CRT_STRLEN_STATUS_OK" for len
    by (induction m p img mx len rule: strlen_loop.induct) (subst (1 2) strlen_loop.simps, auto simp: Let_def split: option.splits)
  have can: "readable_upto img p n \<Longrightarrow> gxos_crt_strlen_is_canonical p" for n by (drule readable_uptoD) (simp add: readable_def)
  have rel: "gxos_crt_strlen_context_is_valid img \<Longrightarrow> ri_relocations_applied img"
    by (auto simp: gxos_crt_strlen_context_is_valid_def split: option.splits if_splits)
  have z: "strlen_loop m p img mx 0 = (GXOS_CRT_STRLEN_STATUS_OK, Some l) \<longleftrightarrow>
      l < mx \<and> (\<exists>s. unat l = length s \<and> string_at m p s \<and> readable_upto img p (length s))" if "mx - 1 \<le> UINT64_MAX - p"
    using strlen_loop_iff [OF that, of m img 0 l] by simp
  show ?thesis
    using out [of 0] rel can z by (auto simp: gxos_crt_strlen_checked_def not_less)
qed

subsection \<open>Comparisons\<close>

abbreviation lower :: "u8 \<Rightarrow> u8" where "lower \<equiv> gxos_crt_stricmp_ascii_tolower"

abbreviation lex_less :: "u8 list \<Rightarrow> u8 list \<Rightarrow> bool" where "lex_less xs ys \<equiv> (xs, ys) \<in> lexord {(a, b). a < b}"

definition agrees :: "int \<Rightarrow> u8 list \<Rightarrow> u8 list \<Rightarrow> bool" where
  "agrees d xs ys \<longleftrightarrow> (d = 0 \<longleftrightarrow> xs = ys) \<and> (d < 0 \<longleftrightarrow> lex_less xs ys)"

lemma lower_zero [simp]: "lower v = 0 \<longleftrightarrow> v = 0"
  by (auto simp: gxos_crt_stricmp_ascii_tolower_def word_le_nat_alt unat_eq_iff unat_word_ariths)

lemma lower_0 [simp]: "lower 0 = 0"
  by (simp add: gxos_crt_stricmp_ascii_tolower_def)

lemma agrees_Cons: "agrees d (x # xs) (x # ys) \<longleftrightarrow> agrees d xs ys"
  by (auto simp: agrees_def)

lemma agrees_differ: "x \<noteq> y \<Longrightarrow> agrees (uint x - uint y) (x # xs) (y # ys)"
  by (auto simp: agrees_def word_less_def word_uint_eq_iff)

lemma stricmp_readable:
  "gxos_crt_stricmp_is_canonical a \<and> (\<exists>r. gxos_crt_stricmp_find_region a img = Some r \<and> rg_readable r) \<longleftrightarrow> readable img a"
  by (auto simp: readable_def gxos_crt_stricmp_is_canonical_def gxos_crt_strlen_is_canonical_def
      gxos_crt_stricmp_find_region_def gxos_crt_strlen_find_region_def split: option.split)

lemma stricmp_step:
  assumes "readable img (p + of_nat i)" and "readable img (q + of_nat i)"
  shows "stricmp_loop m p q img i (Suc n) None =
    (let x = lower (m (p + of_nat i)); y = lower (m (q + of_nat i)) in
     if x \<noteq> y then (GXOS_CRT_STRICMP_STATUS_OK, Some (uint x - uint y), None)
     else if x = 0 then (GXOS_CRT_STRICMP_STATUS_OK, Some 0, None) else stricmp_loop m p q img (Suc i) n None)"
  using stricmp_readable [of "p + of_nat i" img] stricmp_readable [of "q + of_nat i" img] assms(1,2)
  by (auto simp: Let_def)

declare stricmp_loop.simps [simp del]

lemma stricmp_loop_agrees:
  assumes "string_at m (p + of_nat i) s" and "string_at m (q + of_nat i) t"
    and "readable_upto img (p + of_nat i) (min (length s) (length t))" and "readable_upto img (q + of_nat i) (min (length s) (length t))"
    and "min (length s) (length t) < n"
  shows "\<exists>d. stricmp_loop m p q img i n None = (GXOS_CRT_STRICMP_STATUS_OK, Some d, None) \<and> agrees d (map lower s) (map lower t)"
  using assms
proof (induction n arbitrary: i s t)
  case (Suc n)
  note st = stricmp_step [OF readable_uptoD [OF Suc.prems(3)] readable_uptoD [OF Suc.prems(4)], of m n, unfolded Let_def]
  show ?case
  proof (cases "s = [] \<or> t = []")
    case True
    then show ?thesis
    proof (cases "s = [] \<and> t = []")
      case True
      then show ?thesis using st Suc.prems(1,2) by (simp add: agrees_def)
    next
      case False
      have pos: "0 < uint (lower b)" if "b \<noteq> 0" for b
        using that lower_zero [of b] uint_ge_0 [of "lower b"] by (simp add: uint_0_iff le_less)
      show ?thesis
      proof (cases s)
        case Nil
        then obtain y t' where t: "t = y # t'" using False by (cases t) auto
        then show ?thesis using st Suc.prems(1,2) Nil pos [of y] lower_zero [of 0] by (auto simp: agrees_def uint_0_iff)
      next
        case (Cons x s')
        then have "t = []" using True by simp
        then show ?thesis using st Suc.prems(1,2) Cons pos [of x] lower_zero [of 0] by (auto simp: agrees_def uint_0_iff)
      qed
    qed
  next
    case False
    then obtain x s' y t' where e: "s = x # s'" "t = y # t'" by (meson neq_Nil_conv)
    show ?thesis
    proof (cases "lower x = lower y")
      case False
      then show ?thesis using st Suc.prems(1,2) e agrees_differ [OF False] by simp
    next
      case True
      have "\<exists>d. stricmp_loop m p q img (Suc i) n None = (GXOS_CRT_STRICMP_STATUS_OK, Some d, None) \<and> agrees d (map lower s') (map lower t')"
        using Suc.prems e by (intro Suc.IH) (simp_all add: readable_upto_Suc algebra_simps)
      then show ?thesis using st Suc.prems(1,2) e True by (simp add: agrees_Cons)
    qed
  qed
qed (simp add: stricmp_loop.simps)

lemma strcmp_agrees:
  assumes "string_at m p s" and "string_at m q t"
  shows "\<exists>d. gxos_crt_strcmp m p q = Some d \<and> agrees d s t"
  using assms
proof (induction s arbitrary: p q t)
  case Nil
  then show ?case
    by (cases t) (subst gxos_crt_strcmp.simps, auto simp: agrees_def Let_def word_neq_0_conv)+
next
  case (Cons x s)
  show ?case
  proof (cases t)
    case Nil
    then show ?thesis using Cons.prems by (subst gxos_crt_strcmp.simps) (auto simp: agrees_def Let_def)
  next
    case t: (Cons y t')
    show ?thesis
    proof (cases "x = y")
      case True
      then show ?thesis using Cons.IH [of "p + 1" "q + 1" t'] Cons.prems t
        by (subst gxos_crt_strcmp.simps) (auto simp: Let_def agrees_Cons)
    next
      case False
      then show ?thesis using Cons.prems t by (subst gxos_crt_strcmp.simps) (auto simp: Let_def agrees_def)
    qed
  qed
qed

text \<open>
  C32. On terminated strings the comparisons return, and agree with the lexicographic order of bytes: \<open>strcmp\<close> with that
  of the strings, \<open>stricmp\<close> with that of the strings with the ASCII letters folded. The result is zero exactly when the
  strings are equal, and negative exactly when the first is smaller. \<open>stricmp\<close> needs a valid image and both strings
  readable only up to the end of the shorter one, within its bound.
\<close>

theorem crt_compare_lexicographic:
  assumes "string_at m p s" and "string_at m q t"
  shows "(\<exists>d. gxos_crt_strcmp m p q = Some d \<and> agrees d s t) \<and>
    (gxos_crt_stricmp_context_is_valid (Some img) \<longrightarrow> p \<noteq> 0 \<longrightarrow> q \<noteq> 0 \<longrightarrow> mx - 1 \<le> UINT64_MAX - p \<longrightarrow> mx - 1 \<le> UINT64_MAX - q \<longrightarrow>
     min (length s) (length t) < unat mx \<longrightarrow>
     readable_upto img p (min (length s) (length t)) \<longrightarrow> readable_upto img q (min (length s) (length t)) \<longrightarrow>
     (\<exists>d. gxos_crt_stricmp_checked m p q (Some img) mx = (GXOS_CRT_STRICMP_STATUS_OK, Some d) \<and> agrees d (map lower s) (map lower t)))"
proof (intro conjI impI)
  show "\<exists>d. gxos_crt_strcmp m p q = Some d \<and> agrees d s t" by (rule strcmp_agrees [OF assms])
  assume v: "gxos_crt_stricmp_context_is_valid (Some img)" and nz: "p \<noteq> 0" "q \<noteq> 0" and le: "mx - 1 \<le> UINT64_MAX - p" "mx - 1 \<le> UINT64_MAX - q"
    and n: "min (length s) (length t) < unat mx"
    and r: "readable_upto img p (min (length s) (length t))" "readable_upto img q (min (length s) (length t))"
  obtain d where d: "stricmp_loop m p q img 0 (unat mx) None = (GXOS_CRT_STRICMP_STATUS_OK, Some d, None)" "agrees d (map lower s) (map lower t)"
    using stricmp_loop_agrees [of m p 0 s q t img "unat mx"] assms r n by auto
  have "gxos_crt_stricmp_is_canonical p" "gxos_crt_stricmp_is_canonical q"
    using r [THEN readable_uptoD] by (simp_all add: stricmp_readable [symmetric])
  moreover have "mx \<noteq> 0" using n by auto
  ultimately have "gxos_crt_stricmp_checked m p q (Some img) mx = (GXOS_CRT_STRICMP_STATUS_OK, Some d)"
    using v nz le d(1) by (simp add: gxos_crt_stricmp_checked_def gxos_crt_stricmp_checked_report_def not_less [symmetric])
  then show "\<exists>d. gxos_crt_stricmp_checked m p q (Some img) mx = (GXOS_CRT_STRICMP_STATUS_OK, Some d) \<and> agrees d (map lower s) (map lower t)"
    using d(2) by blast
qed

text \<open>The strings \<open>Ab\<close> and \<open>aC\<close> in a page of an image.\<close>

definition demo_memory :: memory where
  "demo_memory a = (if a = 0x1000 then 0x41 else if a = 0x1001 then 0x62 else if a = 0x1003 then 0x61 else if a = 0x1004 then 0x43 else 0)"

definition demo_image :: GXOS_READABLE_IMAGE where
  "demo_image = \<lparr> ri_image_base = 0x1000, ri_image_end = 0x2000, ri_relocations_applied = True,
     ri_memory_regions = Some [\<lparr> rg_base = 0x1000, rg_end = 0x2000, rg_readable = True, rg_executable = False, rg_writable = False \<rparr>] \<rparr>"

theorem crt_compare_lexicographic_witness:
  "\<exists>d. gxos_crt_stricmp_checked demo_memory 0x1000 0x1003 (Some demo_image) 16 = (GXOS_CRT_STRICMP_STATUS_OK, Some d) \<and>
     agrees d [0x61, 0x62] [0x61, 0x63]"
proof -
  have s: "string_at demo_memory 0x1000 [0x41, 0x62]" "string_at demo_memory 0x1003 [0x61, 0x43]" by (simp_all add: demo_memory_def)
  have l: "map lower [0x41, 0x62] = [0x61, 0x62]" "map lower [0x61, 0x43] = [0x61, 0x63]" by (simp_all add: gxos_crt_stricmp_ascii_tolower_def)
  have v: "gxos_crt_stricmp_context_is_valid (Some demo_image)"
    by (simp add: gxos_crt_stricmp_context_is_valid_def demo_image_def gxos_crt_stricmp_is_canonical_def)
  have r: "readable_upto demo_image 0x1000 (Suc (Suc 0))" "readable_upto demo_image 0x1003 (Suc (Suc 0))"
    unfolding readable_upto_Suc readable_upto_0
    by (simp_all add: readable_def demo_image_def gxos_crt_strlen_is_canonical_def gxos_crt_strlen_find_region_def)
  from conjunct2 [OF crt_compare_lexicographic [OF s, of demo_image 16]] v r show ?thesis unfolding l by simp
qed

subsection \<open>Memory safety\<close>

lemma strlen_loop_cong:
  "(\<And>a. readable img a \<Longrightarrow> m a = m' a) \<Longrightarrow> strlen_loop m p img mx len = strlen_loop m' p img mx len"
proof (induction m p img mx len rule: strlen_loop.induct)
  case (1 m p img mx len)
  show ?case
  proof (cases "len \<ge> mx \<or> len > UINT64_MAX - p \<or> \<not> readable img (p + len)")
    case True
    then show ?thesis
      by (subst (1 2) strlen_loop.simps) (auto simp: Let_def readable_def split: option.splits)
  next
    case False
    then obtain r where g: "\<not> len \<ge> mx" "\<not> len > UINT64_MAX - p" "gxos_crt_strlen_is_canonical (p + len)"
      "gxos_crt_strlen_find_region (p + len) img = Some r" "rg_readable r"
      by (auto simp: readable_def split: option.splits)
    then have "m (p + len) = m' (p + len)" using 1(2) by (simp add: readable_def)
    moreover have "m' (p + len) \<noteq> 0 \<Longrightarrow> len \<noteq> SIZE_MAX \<Longrightarrow> strlen_loop m p img mx (len + 1) = strlen_loop m' p img mx (len + 1)"
      using 1(1) [OF g(1,2) refl _ g(4)] 1(2) g calculation by auto
    ultimately show ?thesis
      using g strlen_loop.simps [of m p img mx len] strlen_loop.simps [of m' p img mx len] by (simp add: Let_def)
  qed
qed

lemma stricmp_loop_cong:
  assumes "\<And>a. readable img a \<Longrightarrow> m a = m' a"
  shows "stricmp_loop m p q img i n r = stricmp_loop m' p q img i n r"
proof (induction n arbitrary: i r)
  case (Suc n)
  show ?case
    using Suc stricmp_readable [of "p + of_nat i" img] stricmp_readable [of "q + of_nat i" img] assms
    by (auto simp: stricmp_loop.simps(2) Let_def split: option.splits)
qed (simp add: stricmp_loop.simps)

text \<open>
  \<open>strlen\<close> and \<open>stricmp\<close> read no byte outside the readable regions of the image: on two memories that agree on
  these bytes they return the same status, the same output and the same report.
\<close>

theorem crt_strings_read_safely:
  assumes "\<And>a. readable img a \<Longrightarrow> m a = m' a"
  shows "gxos_crt_strlen_checked m p (Some img) mx = gxos_crt_strlen_checked m' p (Some img) mx \<and>
    gxos_crt_stricmp_checked_report m p q (Some img) mx r = gxos_crt_stricmp_checked_report m' p q (Some img) mx r"
proof -
  have "strlen_loop m p img mx 0 = strlen_loop m' p img mx 0" by (rule strlen_loop_cong [OF assms])
  moreover have "stricmp_loop m p q img i n r = stricmp_loop m' p q img i n r" for i n r by (rule stricmp_loop_cong [OF assms])
  ultimately show ?thesis by (simp only: gxos_crt_strlen_checked_def gxos_crt_stricmp_checked_report_def option.case option.sel simp_thms)
qed

theorem crt_strings_read_safely_witness:
  "gxos_crt_strlen_checked demo_memory 0x1000 (Some demo_image) 16 =
   gxos_crt_strlen_checked (demo_memory(0x5000 := 7)) 0x1000 (Some demo_image) 16"
proof -
  have "demo_memory a = (demo_memory(0x5000 := 7)) a" if "readable demo_image a" for a
    using that by (auto simp: readable_def demo_image_def gxos_crt_strlen_find_region_def split: if_splits)
  from conjunct1 [OF crt_strings_read_safely [OF this]] show ?thesis .
qed

end
