(* ===== verification/Crt_Initterm.thy ===== *)
theory Crt_Initterm
  imports Crt_Regions
begin

text \<open>
  The initializer tables of the run-time library: \<open>_initterm\<close> and \<open>_initterm_e\<close> of
  \<open>src/src/Gate4Harness/crt_initterm.c\<close> and \<open>crt_initterm_e.c\<close>.

  The static context of each file and its validity flag are a state that \<open>configure\<close> updates. The world \<open>'w\<close> is what the
  initializers act on; reading a pointer of a table, calling an initializer and the trace callback are parameters. A
  report is \<open>None\<close> for a null pointer, and so is the trace. Counters of a report are 64-bit words, results are
  integers. The branches for host tests are left out.
\<close>

subsection \<open>Data\<close>

abbreviation (input) NO_CALLBACK :: u64 where "NO_CALLBACK \<equiv> 0xFFFFFFFFFFFFFFFF"

record GXOS_CRT_INITTERM_CONTEXT =
  ic_image_base :: u64
  ic_image_end :: u64
  ic_relocations_applied :: bool
  ic_memory_region_count :: nat
  ic_memory_regions :: "GXOS_CRT_INITTERM_MEMORY_REGION list"

record GXOS_CRT_INITTERM_REPORT =
  ir_entry_count :: u64
  ir_null_entry_count :: u64
  ir_nonnull_entry_count :: u64
  ir_invoked_count :: u64
  ir_returned_count :: u64
  ir_current_callback_index :: u64
  ir_current_callback_target :: u64
  ir_validation_failure :: u32
  ir_trace_truncated :: bool
  ir_completed :: bool
  ir_callback_fault_observed :: bool
  ir_status :: int

record GXOS_CRT_INITTERM_E_EXECUTABLE_REGION =
  xr_base :: u64
  xr_end :: u64

record GXOS_CRT_INITTERM_E_CONTEXT =
  ec_image_base :: u64
  ec_image_end :: u64
  ec_table_base :: u64
  ec_table_end :: u64
  ec_relocations_applied :: bool
  ec_executable_region_count :: nat
  ec_executable_regions :: "GXOS_CRT_INITTERM_E_EXECUTABLE_REGION list"

record GXOS_CRT_INITTERM_E_REPORT =
  er_entry_count :: u64
  er_null_entry_count :: u64
  er_nonnull_entry_count :: u64
  er_invoked_count :: u64
  er_failure_count :: u64
  er_validation_failure :: u32
  er_trace_truncated :: bool
  er_result :: int

record initterm_state =
  is_context :: GXOS_CRT_INITTERM_CONTEXT
  is_context_valid :: bool

record initterm_e_state =
  es_context :: GXOS_CRT_INITTERM_E_CONTEXT
  es_context_valid :: bool

type_synonym 'w trace = "u32 \<Rightarrow> u64 \<Rightarrow> u64 \<Rightarrow> int \<Rightarrow> 'w \<Rightarrow> 'w"

subsection \<open>\<open>_initterm\<close>\<close>

definition gxos_crt_initterm_is_canonical :: "u64 \<Rightarrow> bool" where
  "gxos_crt_initterm_is_canonical v \<longleftrightarrow> v \<le> 0x00007FFFFFFFFFFF \<or> v \<ge> 0xFFFF800000000000"

definition gxos_crt_initterm_is_range :: "u64 \<Rightarrow> u64 \<Rightarrow> bool" where
  "gxos_crt_initterm_is_range base end' \<longleftrightarrow>
     gxos_crt_initterm_is_canonical base \<and> gxos_crt_initterm_is_canonical end' \<and> base < end'"

definition gxos_crt_initterm_contains :: "u64 \<Rightarrow> u64 \<Rightarrow> u64 \<Rightarrow> bool" where
  "gxos_crt_initterm_contains base end' v \<longleftrightarrow> v \<ge> base \<and> v < end'"

definition gxos_crt_initterm_contains_range :: "u64 \<Rightarrow> u64 \<Rightarrow> u64 \<Rightarrow> u64 \<Rightarrow> bool" where
  "gxos_crt_initterm_contains_range base end' first lastp \<longleftrightarrow> first \<ge> base \<and> lastp \<le> end' \<and> first \<le> lastp"

definition gxos_crt_initterm_report_clear :: "GXOS_CRT_INITTERM_REPORT option \<Rightarrow> GXOS_CRT_INITTERM_REPORT option" where
  "gxos_crt_initterm_report_clear report = map_option (\<lambda>_.
     \<lparr> ir_entry_count = 0, ir_null_entry_count = 0, ir_nonnull_entry_count = 0, ir_invoked_count = 0, ir_returned_count = 0,
       ir_current_callback_index = NO_CALLBACK, ir_current_callback_target = 0, ir_validation_failure = 0,
       ir_trace_truncated = False, ir_completed = False, ir_callback_fault_observed = False, ir_status = 0 \<rparr>) report"

definition gxos_crt_initterm_trace ::
    "'w trace option \<Rightarrow> u32 \<Rightarrow> u64 \<Rightarrow> u64 \<Rightarrow> int \<Rightarrow> GXOS_CRT_INITTERM_REPORT option \<times> nat \<times> 'w \<Rightarrow>
     GXOS_CRT_INITTERM_REPORT option \<times> nat \<times> 'w" where
  "gxos_crt_initterm_trace trace event index target status = (\<lambda>(report, trace_count, w).
     case trace of
       None \<Rightarrow> (report, trace_count, w)
     | Some call \<Rightarrow>
         if trace_count \<ge> 128 then (map_option (\<lambda>r. r\<lparr> ir_trace_truncated := True \<rparr>) report, trace_count, w)
         else (report, trace_count + 1, call event index target status w))"

definition gxos_crt_initterm_fail ::
    "'w trace option \<Rightarrow> u32 \<Rightarrow> u64 \<Rightarrow> u64 \<Rightarrow> GXOS_CRT_INITTERM_REPORT option \<times> nat \<times> 'w \<Rightarrow>
     int \<times> GXOS_CRT_INITTERM_REPORT option \<times> 'w" where
  "gxos_crt_initterm_fail trace reason index target = (\<lambda>(report, trace_count, w).
     let report = map_option (\<lambda>r. r\<lparr> ir_validation_failure := reason, ir_status := - 1 \<rparr>) report
     in case gxos_crt_initterm_trace trace 4 index target (sint reason) (report, trace_count, w) of
          (report, _, w) \<Rightarrow> (- 1, report, w))"

text \<open>The regions are copied one by one; a bad one ends the call with the context half copied and not valid.\<close>

fun configure_regions_loop ::
    "GXOS_CRT_INITTERM_CONTEXT \<Rightarrow> nat list \<Rightarrow> GXOS_CRT_INITTERM_MEMORY_REGION list \<Rightarrow>
     bool \<times> GXOS_CRT_INITTERM_MEMORY_REGION list" where
  "configure_regions_loop context [] regions = (True, regions)"
| "configure_regions_loop context (index # rest) regions =
     (let region = ic_memory_regions context ! index in
      if \<not> gxos_crt_initterm_is_range (rg_base region) (rg_end region) \<or> rg_base region < ic_image_base context \<or>
         rg_end region > ic_image_end context \<or> \<not> rg_readable region \<or> (rg_executable region \<and> \<not> rg_readable region)
      then (False, regions)
      else configure_regions_loop context rest (regions[index := region]))"

definition gxos_crt_initterm_configure ::
    "GXOS_CRT_INITTERM_CONTEXT option \<Rightarrow> initterm_state \<Rightarrow> int \<times> initterm_state" where
  "gxos_crt_initterm_configure context g =
     (let g = g\<lparr> is_context_valid := False \<rparr> in
      case context of
        None \<Rightarrow> (- 1, g)
      | Some c \<Rightarrow>
          if \<not> ic_relocations_applied c \<or> \<not> gxos_crt_initterm_is_range (ic_image_base c) (ic_image_end c) \<or>
             ic_memory_region_count c = 0 \<or> ic_memory_region_count c > 32
          then (- 1, g)
          else case configure_regions_loop c [0..<ic_memory_region_count c] (ic_memory_regions (is_context g)) of
            (copied, regions) \<Rightarrow>
              let g = g\<lparr> is_context := (is_context g)\<lparr> ic_memory_regions := regions \<rparr> \<rparr> in
              if \<not> copied then (- 1, g)
              else (0, g\<lparr> is_context := (is_context g)\<lparr> ic_image_base := ic_image_base c, ic_image_end := ic_image_end c,
                            ic_relocations_applied := ic_relocations_applied c,
                            ic_memory_region_count := ic_memory_region_count c \<rparr>,
                          is_context_valid := True \<rparr>))"

abbreviation configured_regions :: "initterm_state \<Rightarrow> GXOS_CRT_INITTERM_MEMORY_REGION list" where
  "configured_regions g \<equiv> take (ic_memory_region_count (is_context g)) (ic_memory_regions (is_context g))"

definition gxos_crt_initterm_table_is_readable :: "initterm_state \<Rightarrow> u64 \<Rightarrow> u64 \<Rightarrow> bool" where
  "gxos_crt_initterm_table_is_readable g first lastp =
     (if first = lastp
      then list_ex (\<lambda>region. rg_readable region \<and> first \<ge> rg_base region \<and> first \<le> rg_end region) (configured_regions g)
      else list_ex (\<lambda>region. rg_readable region \<and>
             gxos_crt_initterm_contains_range (rg_base region) (rg_end region) first lastp) (configured_regions g))"

definition gxos_crt_initterm_target_is_executable :: "initterm_state \<Rightarrow> u64 \<Rightarrow> bool" where
  "gxos_crt_initterm_target_is_executable g target =
     (if target = 0 \<or> \<not> gxos_crt_initterm_is_canonical target then False
      else list_ex (\<lambda>region. rg_executable region \<and> gxos_crt_initterm_contains (rg_base region) (rg_end region) target)
             (configured_regions g))"

fun initterm_loop ::
    "('w \<Rightarrow> u64 \<Rightarrow> u64) \<Rightarrow> (u64 \<Rightarrow> 'w \<Rightarrow> 'w) \<Rightarrow> initterm_state \<Rightarrow> 'w trace option \<Rightarrow> u64 \<Rightarrow> u64 \<Rightarrow> nat list \<Rightarrow>
     GXOS_CRT_INITTERM_REPORT option \<times> nat \<times> 'w \<Rightarrow> int \<times> GXOS_CRT_INITTERM_REPORT option \<times> 'w" where
  "initterm_loop read call g trace first_value last_value [] (report, trace_count, w) =
     (0, map_option (\<lambda>r. r\<lparr> ir_current_callback_index := NO_CALLBACK, ir_current_callback_target := 0,
                            ir_completed := True, ir_status := 0 \<rparr>) report, w)"
| "initterm_loop read call g trace first_value last_value (i # rest) (report, trace_count, w) =
     (let index = of_nat i; offset = index * 8 in
      if index > UINT64_MAX div 8 then gxos_crt_initterm_fail trace 4 index 0 (report, trace_count, w)
      else if offset > UINT64_MAX - first_value \<or> first_value + offset \<ge> last_value
      then gxos_crt_initterm_fail trace 4 index 0 (report, trace_count, w)
      else
        let target = read w (first_value + offset);
            (report, trace_count, w) = gxos_crt_initterm_trace trace 1 index target 0 (report, trace_count, w)
        in if target = 0
           then initterm_loop read call g trace first_value last_value rest
                  (map_option (\<lambda>r. r\<lparr> ir_null_entry_count := ir_null_entry_count r + 1 \<rparr>) report, trace_count, w)
           else
             let report = map_option (\<lambda>r. r\<lparr> ir_nonnull_entry_count := ir_nonnull_entry_count r + 1 \<rparr>) report in
             if \<not> gxos_crt_initterm_target_is_executable g target
             then gxos_crt_initterm_fail trace 5 index target (report, trace_count, w)
             else
               let report = map_option (\<lambda>r. r\<lparr> ir_current_callback_index := index, ir_current_callback_target := target,
                                               ir_invoked_count := ir_invoked_count r + 1 \<rparr>) report;
                   (report, trace_count, w) = gxos_crt_initterm_trace trace 2 index target 0 (report, trace_count, w);
                   w = call target w;
                   report = map_option (\<lambda>r. r\<lparr> ir_returned_count := ir_returned_count r + 1 \<rparr>) report
               in initterm_loop read call g trace first_value last_value rest
                    (gxos_crt_initterm_trace trace 3 index target 0 (report, trace_count, w)))"

definition gxos_crt_initterm ::
    "('w \<Rightarrow> u64 \<Rightarrow> u64) \<Rightarrow> (u64 \<Rightarrow> 'w \<Rightarrow> 'w) \<Rightarrow> initterm_state \<Rightarrow> u64 \<Rightarrow> u64 \<Rightarrow>
     GXOS_CRT_INITTERM_REPORT option \<Rightarrow> 'w trace option \<Rightarrow> 'w \<Rightarrow> int \<times> GXOS_CRT_INITTERM_REPORT option \<times> 'w" where
  "gxos_crt_initterm read call g first_value last_value report trace w =
     (let report = gxos_crt_initterm_report_clear report in
      if \<not> is_context_valid g \<or> \<not> gxos_crt_initterm_is_canonical first_value \<or> \<not> gxos_crt_initterm_is_canonical last_value \<or>
         first_value AND 7 \<noteq> 0 \<or> last_value AND 7 \<noteq> 0 \<or> first_value > last_value \<or>
         first_value < ic_image_base (is_context g) \<or> last_value > ic_image_end (is_context g) \<or>
         \<not> gxos_crt_initterm_table_is_readable g first_value last_value
      then gxos_crt_initterm_fail trace 1 0 0 (report, 0, w)
      else
        let byte_count = last_value - first_value in
        if byte_count AND 7 \<noteq> 0 then gxos_crt_initterm_fail trace 2 0 0 (report, 0, w)
        else
          let entry_count = byte_count div 8 in
          if entry_count > 4096 then gxos_crt_initterm_fail trace 3 0 0 (report, 0, w)
          else initterm_loop read call g trace first_value last_value [0..<unat entry_count]
                 (map_option (\<lambda>r. r\<lparr> ir_entry_count := entry_count \<rparr>) report, 0, w))"

subsection \<open>\<open>_initterm_e\<close>\<close>

definition gxos_crt_initterm_e_is_canonical :: "u64 \<Rightarrow> bool" where
  "gxos_crt_initterm_e_is_canonical v \<longleftrightarrow> v \<le> 0x00007FFFFFFFFFFF \<or> v \<ge> 0xFFFF800000000000"

definition gxos_crt_initterm_e_is_range :: "u64 \<Rightarrow> u64 \<Rightarrow> bool" where
  "gxos_crt_initterm_e_is_range base end' \<longleftrightarrow>
     gxos_crt_initterm_e_is_canonical base \<and> gxos_crt_initterm_e_is_canonical end' \<and> base < end'"

definition gxos_crt_initterm_e_contains :: "u64 \<Rightarrow> u64 \<Rightarrow> u64 \<Rightarrow> bool" where
  "gxos_crt_initterm_e_contains base end' v \<longleftrightarrow> v \<ge> base \<and> v < end'"

definition gxos_crt_initterm_e_report_clear ::
    "GXOS_CRT_INITTERM_E_REPORT option \<Rightarrow> GXOS_CRT_INITTERM_E_REPORT option" where
  "gxos_crt_initterm_e_report_clear report = map_option (\<lambda>_.
     \<lparr> er_entry_count = 0, er_null_entry_count = 0, er_nonnull_entry_count = 0, er_invoked_count = 0, er_failure_count = 0,
       er_validation_failure = 0, er_trace_truncated = False, er_result = 0 \<rparr>) report"

definition gxos_crt_initterm_e_trace ::
    "'w trace option \<Rightarrow> u32 \<Rightarrow> u64 \<Rightarrow> u64 \<Rightarrow> int \<Rightarrow> GXOS_CRT_INITTERM_E_REPORT option \<times> nat \<times> 'w \<Rightarrow>
     GXOS_CRT_INITTERM_E_REPORT option \<times> nat \<times> 'w" where
  "gxos_crt_initterm_e_trace trace event index target result = (\<lambda>(report, trace_count, w).
     case trace of
       None \<Rightarrow> (report, trace_count, w)
     | Some call \<Rightarrow>
         if trace_count \<ge> 64 then (map_option (\<lambda>r. r\<lparr> er_trace_truncated := True \<rparr>) report, trace_count, w)
         else (report, trace_count + 1, call event index target result w))"

definition gxos_crt_initterm_e_fail ::
    "'w trace option \<Rightarrow> u32 \<Rightarrow> u64 \<Rightarrow> u64 \<Rightarrow> GXOS_CRT_INITTERM_E_REPORT option \<times> nat \<times> 'w \<Rightarrow>
     int \<times> GXOS_CRT_INITTERM_E_REPORT option \<times> 'w" where
  "gxos_crt_initterm_e_fail trace reason index target = (\<lambda>(report, trace_count, w).
     let report = map_option (\<lambda>r. r\<lparr> er_validation_failure := reason, er_result := - 1 \<rparr>) report
     in case gxos_crt_initterm_e_trace trace 4 index target (sint reason) (report, trace_count, w) of
          (report, _, w) \<Rightarrow> (- 1, report, w))"

fun configure_e_regions_loop ::
    "GXOS_CRT_INITTERM_E_CONTEXT \<Rightarrow> nat list \<Rightarrow> GXOS_CRT_INITTERM_E_EXECUTABLE_REGION list \<Rightarrow>
     bool \<times> GXOS_CRT_INITTERM_E_EXECUTABLE_REGION list" where
  "configure_e_regions_loop context [] regions = (True, regions)"
| "configure_e_regions_loop context (index # rest) regions =
     (let region = ec_executable_regions context ! index in
      if \<not> gxos_crt_initterm_e_is_range (xr_base region) (xr_end region) \<or> xr_base region < ec_image_base context \<or>
         xr_end region > ec_image_end context
      then (False, regions)
      else configure_e_regions_loop context rest (regions[index := region]))"

definition gxos_crt_initterm_e_configure ::
    "GXOS_CRT_INITTERM_E_CONTEXT option \<Rightarrow> initterm_e_state \<Rightarrow> int \<times> initterm_e_state" where
  "gxos_crt_initterm_e_configure context g =
     (let g = g\<lparr> es_context_valid := False \<rparr> in
      case context of
        None \<Rightarrow> (- 1, g)
      | Some c \<Rightarrow>
          if \<not> ec_relocations_applied c \<or> \<not> gxos_crt_initterm_e_is_range (ec_image_base c) (ec_image_end c) \<or>
             \<not> gxos_crt_initterm_e_is_range (ec_table_base c) (ec_table_end c) \<or> ec_table_base c < ec_image_base c \<or>
             ec_table_end c > ec_image_end c \<or> ec_executable_region_count c = 0 \<or> ec_executable_region_count c > 8
          then (- 1, g)
          else case configure_e_regions_loop c [0..<ec_executable_region_count c] (ec_executable_regions (es_context g)) of
            (copied, regions) \<Rightarrow>
              let g = g\<lparr> es_context := (es_context g)\<lparr> ec_executable_regions := regions \<rparr> \<rparr> in
              if \<not> copied then (- 1, g)
              else (0, g\<lparr> es_context := (es_context g)\<lparr> ec_image_base := ec_image_base c, ec_image_end := ec_image_end c,
                            ec_table_base := ec_table_base c, ec_table_end := ec_table_end c,
                            ec_relocations_applied := ec_relocations_applied c,
                            ec_executable_region_count := ec_executable_region_count c \<rparr>,
                          es_context_valid := True \<rparr>))"

definition gxos_crt_initterm_e_is_executable :: "initterm_e_state \<Rightarrow> u64 \<Rightarrow> bool" where
  "gxos_crt_initterm_e_is_executable g target =
     (if target = 0 \<or> \<not> gxos_crt_initterm_e_is_canonical target then False
      else list_ex (\<lambda>region. gxos_crt_initterm_e_contains (xr_base region) (xr_end region) target)
             (take (ec_executable_region_count (es_context g)) (ec_executable_regions (es_context g))))"

fun initterm_e_loop ::
    "('w \<Rightarrow> u64 \<Rightarrow> u64) \<Rightarrow> (u64 \<Rightarrow> 'w \<Rightarrow> int \<times> 'w) \<Rightarrow> initterm_e_state \<Rightarrow> 'w trace option \<Rightarrow> u64 \<Rightarrow> nat list \<Rightarrow>
     GXOS_CRT_INITTERM_E_REPORT option \<times> nat \<times> 'w \<Rightarrow> int \<times> GXOS_CRT_INITTERM_E_REPORT option \<times> 'w" where
  "initterm_e_loop read call g trace first_value [] (report, trace_count, w) =
     (0, map_option (\<lambda>r. r\<lparr> er_result := 0 \<rparr>) report, w)"
| "initterm_e_loop read call g trace first_value (i # rest) (report, trace_count, w) =
     (let index = of_nat i; offset = index * 8 in
      if index > UINT64_MAX div 8 then gxos_crt_initterm_e_fail trace 4 index 0 (report, trace_count, w)
      else if offset > UINT64_MAX - first_value then gxos_crt_initterm_e_fail trace 4 index 0 (report, trace_count, w)
      else
        let target = read w (first_value + offset);
            (report, trace_count, w) = gxos_crt_initterm_e_trace trace 1 index target 0 (report, trace_count, w)
        in if target = 0
           then initterm_e_loop read call g trace first_value rest
                  (map_option (\<lambda>r. r\<lparr> er_null_entry_count := er_null_entry_count r + 1 \<rparr>) report, trace_count, w)
           else
             let report = map_option (\<lambda>r. r\<lparr> er_nonnull_entry_count := er_nonnull_entry_count r + 1 \<rparr>) report in
             if \<not> gxos_crt_initterm_e_is_executable g target
             then gxos_crt_initterm_e_fail trace 5 index target (report, trace_count, w)
             else
               let (report, trace_count, w) = gxos_crt_initterm_e_trace trace 2 index target 0 (report, trace_count, w);
                   report = map_option (\<lambda>r. r\<lparr> er_invoked_count := er_invoked_count r + 1 \<rparr>) report;
                   (result, w) = call target w;
                   report = map_option (\<lambda>r. r\<lparr> er_result := result \<rparr>) report;
                   (report, trace_count, w) = gxos_crt_initterm_e_trace trace 3 index target result (report, trace_count, w)
               in if result \<noteq> 0
                  then (result, map_option (\<lambda>r. r\<lparr> er_failure_count := er_failure_count r + 1 \<rparr>) report, w)
                  else initterm_e_loop read call g trace first_value rest (report, trace_count, w))"

definition gxos_crt_initterm_e ::
    "('w \<Rightarrow> u64 \<Rightarrow> u64) \<Rightarrow> (u64 \<Rightarrow> 'w \<Rightarrow> int \<times> 'w) \<Rightarrow> initterm_e_state \<Rightarrow> u64 \<Rightarrow> u64 \<Rightarrow>
     GXOS_CRT_INITTERM_E_REPORT option \<Rightarrow> 'w trace option \<Rightarrow> 'w \<Rightarrow> int \<times> GXOS_CRT_INITTERM_E_REPORT option \<times> 'w" where
  "gxos_crt_initterm_e read call g first_value last_value report trace w =
     (let report = gxos_crt_initterm_e_report_clear report in
      if \<not> es_context_valid g \<or> \<not> gxos_crt_initterm_e_is_canonical first_value \<or>
         \<not> gxos_crt_initterm_e_is_canonical last_value \<or> first_value AND 7 \<noteq> 0 \<or> last_value AND 7 \<noteq> 0 \<or>
         first_value > last_value \<or> first_value < ec_table_base (es_context g) \<or> last_value > ec_table_end (es_context g)
      then gxos_crt_initterm_e_fail trace (- 1) 0 0 (report, 0, w)
      else
        let byte_count = last_value - first_value in
        if byte_count AND 7 \<noteq> 0 then gxos_crt_initterm_e_fail trace 2 0 0 (report, 0, w)
        else
          let entry_count = byte_count div 8 in
          if entry_count > 4096 then gxos_crt_initterm_e_fail trace 3 0 0 (report, 0, w)
          else initterm_e_loop read call g trace first_value [0..<unat entry_count]
                 (map_option (\<lambda>r. r\<lparr> er_entry_count := entry_count \<rparr>) report, 0, w))"

end
