(* ===== verification/Crt_Initterm_Correct.thy ===== *)
theory Crt_Initterm_Correct
  imports Crt_Initterm
begin

text \<open>
  What the initializer tables promise: the non-null entries are called once each, in the order of the table, up to the first one
  that is not executable, or for \<open>_initterm_e\<close> the first one that fails; besides the initializers only the trace is called.
\<close>

subsection \<open>Tables\<close>

definition table_slots :: "u64 \<Rightarrow> nat \<Rightarrow> u64 list" where
  "table_slots first n = map (\<lambda>i. first + of_nat i * 8) [0..<n]"

text \<open>A table of \<open>n\<close> entries that ends in the address space.\<close>

definition table_fits :: "u64 \<Rightarrow> u64 \<Rightarrow> nat \<Rightarrow> bool" where
  "table_fits first lastp n \<longleftrightarrow> n \<le> 4096 \<and> unat lastp = unat first + 8 * n"

lemma slot_fits:
  assumes "table_fits first lastp n" and "i < n"
  shows "\<not> (of_nat i :: u64) > UINT64_MAX div 8" "\<not> of_nat i * 8 > UINT64_MAX - first" "\<not> first + of_nat i * 8 \<ge> lastp"
proof -
  have i: "unat (of_nat i :: u64) = i" using assms by (simp add: table_fits_def unat_of_nat)
  have o: "unat (of_nat i * 8 :: u64) = 8 * i" using assms i by (simp add: table_fits_def unat_word_ariths)
  have lt: "unat first + 8 * i < unat lastp" using assms by (simp add: table_fits_def)
  then have lt2: "unat first + 8 * i < 2 ^ 64" using unat_lt_2p64 [of lastp] by (simp del: unat_lt_2p64)
  show "\<not> (of_nat i :: u64) > UINT64_MAX div 8"
    using assms i by (simp add: table_fits_def word_less_nat_alt unat_div)
  show "\<not> of_nat i * 8 > UINT64_MAX - first" by (subst fits_iff) (use lt2 o in simp)
  show "\<not> first + of_nat i * 8 \<ge> lastp" using lt lt2 o by (simp add: word_le_nat_alt unat_add_fits)
qed

lemma table_count:
  fixes first lastp :: u64
  assumes "first \<le> lastp" and "first AND 7 = 0" and "lastp AND 7 = 0"
  shows "(lastp - first) AND 7 = 0" and "unat lastp = unat first + 8 * unat ((lastp - first) div 8)"
proof -
  have m: "v AND 7 = v mod 8" for v :: u64
    using take_bit_eq_mask [of 3 v] by (simp add: take_bit_eq_mod mask_eq_exp_minus_1)
  have z: "v AND 7 = 0 \<longleftrightarrow> 8 dvd unat v" for v :: u64
    unfolding m unat_eq_iff [of "v mod _"] unat_mod_u64 by (simp add: mod_eq_0_iff_dvd)
  have s: "unat (lastp - first) = unat lastp - unat first" using assms(1) by (rule unat_sub_le)
  have le: "unat first \<le> unat lastp" using assms(1) by (simp add: word_le_nat_alt)
  have d: "8 dvd unat lastp - unat first" using assms(2,3) unfolding z by simp
  show "(lastp - first) AND 7 = 0" unfolding z s by (rule d)
  have "unat ((lastp - first) div 8) = (unat lastp - unat first) div 8" by (simp add: unat_div s)
  then show "unat lastp = unat first + 8 * unat ((lastp - first) div 8)" using d le by simp
qed

subsection \<open>\<open>_initterm\<close>\<close>

text \<open>The entries that are processed, and those of them that are called.\<close>

abbreviation admitted :: "(u64 \<Rightarrow> bool) \<Rightarrow> u64 list \<Rightarrow> u64 list" where
  "admitted ok ts \<equiv> takeWhile (\<lambda>t. t = 0 \<or> ok t) ts"

abbreviation called :: "(u64 \<Rightarrow> bool) \<Rightarrow> u64 list \<Rightarrow> u64 list" where
  "called ok ts \<equiv> filter (\<lambda>t. t \<noteq> 0) (admitted ok ts)"

lemma initterm_trace_None [simp]: "gxos_crt_initterm_trace None e i t st x = x"
  by (simp add: gxos_crt_initterm_trace_def split: prod.split)

text \<open>
  What a call of \<open>_initterm\<close> does to the world, as a list of actions: a call of an initializer, or an event
  for the trace, of which only the first 128 are delivered, and none when there is no trace.
\<close>

datatype table_action = Trace u32 u64 u64 int | Call u64

fun act :: "(u64 \<Rightarrow> 'w \<Rightarrow> 'w) \<Rightarrow> 'w trace option \<Rightarrow> table_action \<Rightarrow> nat \<times> 'w \<Rightarrow> nat \<times> 'w" where
  "act call trace (Call t) (k, w) = (k, call t w)"
| "act call trace (Trace e i t st) (k, w) =
     (case trace of None \<Rightarrow> (k, w) | Some tell \<Rightarrow> if k < 128 then (k + 1, tell e i t st w) else (k, w))"

definition perform :: "(u64 \<Rightarrow> 'w \<Rightarrow> 'w) \<Rightarrow> 'w trace option \<Rightarrow> table_action list \<Rightarrow> 'w \<Rightarrow> 'w" where
  "perform call trace acts w = snd (fold (act call trace) acts (0, w))"

text \<open>
  The actions for a numbered table: each entry is announced; an executable one is called between two
  events, a null one is passed over, and any other ends the run with the failure event of reason 5.
\<close>

fun table_actions :: "(u64 \<Rightarrow> bool) \<Rightarrow> (nat \<times> u64) list \<Rightarrow> table_action list" where
  "table_actions ok [] = []"
| "table_actions ok ((i, t) # es) = Trace 1 (of_nat i) t 0 #
     (if t = 0 then table_actions ok es
      else if ok t then Trace 2 (of_nat i) t 0 # Call t # Trace 3 (of_nat i) t 0 # table_actions ok es
      else [Trace 4 (of_nat i) t 5])"

fun initializers :: "table_action list \<Rightarrow> u64 list" where
  "initializers [] = []"
| "initializers (Call t # acts) = t # initializers acts"
| "initializers (Trace e i t st # acts) = initializers acts"

lemma initializers_table: "initializers (table_actions ok es) = called ok (map snd es)"
  by (induction ok es rule: table_actions.induct) simp_all

lemma perform_untraced: "perform call None acts w = fold call (initializers acts) w"
proof -
  have "snd (fold (act call None) acts (k, w)) = fold call (initializers acts) w" for k
    by (induction acts arbitrary: w rule: initializers.induct) simp_all
  then show ?thesis by (simp add: perform_def)
qed

definition same_counts :: "GXOS_CRT_INITTERM_REPORT \<Rightarrow> GXOS_CRT_INITTERM_REPORT \<Rightarrow> bool" where
  "same_counts r r' \<longleftrightarrow> ir_entry_count r' = ir_entry_count r \<and> ir_invoked_count r' = ir_invoked_count r \<and>
     ir_returned_count r' = ir_returned_count r \<and> ir_completed r' = ir_completed r"

lemma trace_act:
  obtains r' k' w' where "gxos_crt_initterm_trace trace e i t st (Some r, k, w) = (Some r', k', w')"
    "act call trace (Trace e i t st) (k, w) = (k', w')" "same_counts r r'"
proof -
  obtain k' w' where a: "act call trace (Trace e i t st) (k, w) = (k', w')" by (metis surj_pair)
  then have "\<exists>r'. gxos_crt_initterm_trace trace e i t st (Some r, k, w) = (Some r', k', w') \<and> same_counts r r'"
    by (auto simp: gxos_crt_initterm_trace_def same_counts_def split: option.splits if_splits)
  with a show thesis using that by blast
qed

text \<open>Neither the initializers nor the trace change an entry of the table.\<close>

definition leaves_table :: "('w \<Rightarrow> u64 \<Rightarrow> u64) \<Rightarrow> (u64 \<Rightarrow> 'w \<Rightarrow> 'w) \<Rightarrow> 'w trace option \<Rightarrow> u64 list \<Rightarrow> bool" where
  "leaves_table read call trace slots \<longleftrightarrow> (\<forall>a \<in> set slots. \<forall>w.
     (\<forall>t. read (call t w) a = read w a) \<and> (\<forall>tell e i t st. trace = Some tell \<longrightarrow> read (tell e i t st w) a = read w a))"

lemma act_leaves:
  "leaves_table read call trace slots \<Longrightarrow> a \<in> set slots \<Longrightarrow> act call trace x (k, w) = (k', w') \<Longrightarrow> read w' a = read w a"
  by (cases x) (auto simp: leaves_table_def split: option.splits if_splits)

definition report_after :: "GXOS_CRT_INITTERM_REPORT \<Rightarrow> nat \<Rightarrow> int \<Rightarrow> GXOS_CRT_INITTERM_REPORT \<Rightarrow> bool" where
  "report_after r k res r' \<longleftrightarrow> ir_entry_count r' = ir_entry_count r \<and> ir_invoked_count r' = ir_invoked_count r + of_nat k \<and>
     ir_returned_count r' = ir_returned_count r + of_nat k \<and> ir_completed r' = (res = 0)"

abbreviation (input) numbered :: "('w \<Rightarrow> u64 \<Rightarrow> u64) \<Rightarrow> 'w \<Rightarrow> u64 \<Rightarrow> nat list \<Rightarrow> (nat \<times> u64) list" where
  "numbered read w first is \<equiv> map (\<lambda>i. (i, read w (first + of_nat i * 8))) is"

lemma initterm_loop_runs:
  assumes "table_fits first lastp n" and "set is \<subseteq> {..<n}"
    and stable: "leaves_table read call trace (table_slots first n)" and "\<not> ir_completed r"
  shows "\<exists>r'. initterm_loop read call g trace first lastp is (Some r, k, w) =
    (let es = numbered read w first is; ok = gxos_crt_initterm_target_is_executable g in
     (if \<forall>t \<in> set (map snd es). t = 0 \<or> ok t then 0 else - 1, Some r', snd (fold (act call trace) (table_actions ok es) (k, w)))) \<and>
    report_after r (length (called (gxos_crt_initterm_target_is_executable g) (map snd (numbered read w first is))))
      (fst (initterm_loop read call g trace first lastp is (Some r, k, w))) r'"
  using assms(2,4)
proof (induction "is" arbitrary: r k w)
  case Nil
  then show ?case by (simp add: report_after_def)
next
  case (Cons i rest)
  let ?t = "read w (first + of_nat i * 8)" and ?ok = "gxos_crt_initterm_target_is_executable g"
  have i: "i < n" "set rest \<subseteq> {..<n}" using Cons.prems by auto
  note f = slot_fits [OF assms(1) i(1)]
  have slot: "first + of_nat j * 8 \<in> set (table_slots first n)" if "j \<in> set rest" for j
    using that i(2) by (auto simp: table_slots_def)
  obtain r1 k1 w1 where t1: "gxos_crt_initterm_trace trace 1 (of_nat i) ?t 0 (Some r, k, w) = (Some r1, k1, w1)"
    "act call trace (Trace 1 (of_nat i) ?t 0) (k, w) = (k1, w1)" "same_counts r r1" by (rule trace_act)
  note a1 = act_leaves [OF stable slot t1(2)]
  show ?case
  proof (cases "?t = 0")
    case True
    let ?r = "r1\<lparr> ir_null_entry_count := ir_null_entry_count r1 + 1 \<rparr>"
    have m: "numbered read w1 first rest = numbered read w first rest" using a1 by simp
    have "\<not> ir_completed ?r" using Cons.prems t1(3) by (simp add: same_counts_def)
    from Cons.IH [OF i(2) this, of k1 w1, unfolded m] obtain r' where
      "initterm_loop read call g trace first lastp rest (Some ?r, k1, w1) =
        (let es = numbered read w first rest in
         (if \<forall>t \<in> set (map snd es). t = 0 \<or> ?ok t then 0 else - 1, Some r', snd (fold (act call trace) (table_actions ?ok es) (k1, w1))))"
      "report_after ?r (length (called ?ok (map snd (numbered read w first rest))))
        (fst (initterm_loop read call g trace first lastp rest (Some ?r, k1, w1))) r'" unfolding Let_def by blast
    then show ?thesis using True f t1 by (intro exI [of _ r']) (simp add: Let_def report_after_def same_counts_def)
  next
    case nz: False
    show ?thesis
    proof (cases "?ok ?t")
      case False
      let ?r = "r1\<lparr> ir_nonnull_entry_count := ir_nonnull_entry_count r1 + 1, ir_validation_failure := 5, ir_status := - 1 \<rparr>"
      obtain r2 k2 w2 where t2: "gxos_crt_initterm_trace trace 4 (of_nat i) ?t 5 (Some ?r, k1, w1) = (Some r2, k2, w2)"
        "act call trace (Trace 4 (of_nat i) ?t 5) (k1, w1) = (k2, w2)" "same_counts ?r r2" by (rule trace_act)
      with False nz f t1 Cons.prems show ?thesis
        by (intro exI [of _ r2]) (simp add: Let_def report_after_def gxos_crt_initterm_fail_def same_counts_def)
    next
      case True
      let ?r1 = "r1\<lparr> ir_nonnull_entry_count := ir_nonnull_entry_count r1 + 1, ir_current_callback_index := of_nat i,
        ir_current_callback_target := ?t, ir_invoked_count := ir_invoked_count r1 + 1 \<rparr>"
      obtain r2 k2 w2 where t2: "gxos_crt_initterm_trace trace 2 (of_nat i) ?t 0 (Some ?r1, k1, w1) = (Some r2, k2, w2)"
        "act call trace (Trace 2 (of_nat i) ?t 0) (k1, w1) = (k2, w2)" "same_counts ?r1 r2" by (rule trace_act)
      let ?r2 = "r2\<lparr> ir_returned_count := ir_returned_count r2 + 1 \<rparr>"
      obtain r3 k3 w3 where t3: "gxos_crt_initterm_trace trace 3 (of_nat i) ?t 0 (Some ?r2, k2, call ?t w2) = (Some r3, k3, w3)"
        "act call trace (Trace 3 (of_nat i) ?t 0) (k2, call ?t w2) = (k3, w3)" "same_counts ?r2 r3" by (rule trace_act)
      have "act call trace (Call ?t) (k2, w2) = (k2, call ?t w2)" by simp
      note ac = act_leaves [OF stable slot this]
      have m: "numbered read w3 first rest = numbered read w first rest"
        using a1 act_leaves [OF stable slot t2(2)] ac act_leaves [OF stable slot t3(2)] by simp
      have r3: "ir_entry_count r3 = ir_entry_count r" "ir_invoked_count r3 = ir_invoked_count r + 1"
        "ir_returned_count r3 = ir_returned_count r + 1" "ir_completed r3 = ir_completed r"
        using t1(3) t2(3) t3(3) by (simp_all add: same_counts_def)
      have step: "initterm_loop read call g trace first lastp (i # rest) (Some r, k, w) =
          initterm_loop read call g trace first lastp rest (Some r3, k3, w3)"
        using True nz f t1(1) t2(1) t3(1) by (simp add: Let_def)
      have "\<not> ir_completed r3" using Cons.prems r3 by simp
      from Cons.IH [OF i(2) this, of k3 w3, unfolded m] obtain r' where
        "initterm_loop read call g trace first lastp rest (Some r3, k3, w3) =
          (let es = numbered read w first rest in
           (if \<forall>t \<in> set (map snd es). t = 0 \<or> ?ok t then 0 else - 1, Some r', snd (fold (act call trace) (table_actions ?ok es) (k3, w3))))"
        "report_after r3 (length (called ?ok (map snd (numbered read w first rest))))
          (fst (initterm_loop read call g trace first lastp rest (Some r3, k3, w3))) r'" unfolding Let_def by blast
      then show ?thesis unfolding step using True nz t1(2) t2(2) t3(2) r3
        by (intro exI [of _ r']) (simp add: Let_def report_after_def add.assoc)
    qed
  qed
qed

definition initterm_accepts :: "initterm_state \<Rightarrow> u64 \<Rightarrow> u64 \<Rightarrow> bool" where
  "initterm_accepts g first lastp \<longleftrightarrow> is_context_valid g \<and> gxos_crt_initterm_is_canonical first \<and> gxos_crt_initterm_is_canonical lastp \<and>
     first AND 7 = 0 \<and> lastp AND 7 = 0 \<and> first \<le> lastp \<and> ic_image_base (is_context g) \<le> first \<and> lastp \<le> ic_image_end (is_context g) \<and>
     gxos_crt_initterm_table_is_readable g first lastp \<and> (lastp - first) div 8 \<le> 4096"

lemma initterm_refuses:
  assumes "\<not> initterm_accepts g first lastp"
  shows "\<exists>reason r'. reason \<in> {1, 3} \<and>
    gxos_crt_initterm read call g first lastp (Some r) trace w = (- 1, Some r', perform call trace [Trace 4 0 0 reason] w) \<and>
    ir_invoked_count r' = 0 \<and> \<not> ir_completed r'"
proof -
  obtain rc where clear: "gxos_crt_initterm_report_clear (Some r) = Some rc" "ir_invoked_count rc = 0" "\<not> ir_completed rc"
    by (simp add: gxos_crt_initterm_report_clear_def)
  obtain reason :: u32 where reason: "reason \<in> {1, 3}"
    "gxos_crt_initterm read call g first lastp (Some r) trace w = gxos_crt_initterm_fail trace reason 0 0 (Some rc, 0, w)"
  proof (cases "\<not> is_context_valid g \<or> \<not> gxos_crt_initterm_is_canonical first \<or> \<not> gxos_crt_initterm_is_canonical lastp \<or>
       first AND 7 \<noteq> 0 \<or> lastp AND 7 \<noteq> 0 \<or> first > lastp \<or>
       first < ic_image_base (is_context g) \<or> lastp > ic_image_end (is_context g) \<or>
       \<not> gxos_crt_initterm_table_is_readable g first lastp")
    case True
    show thesis
      by (rule that [of 1], simp) (unfold gxos_crt_initterm_def Let_def clear(1) if_P [OF True], rule refl)
  next
    case False
    then have "first \<le> lastp" "first AND 7 = 0" "lastp AND 7 = 0" by (simp_all add: not_less)
    from table_count(1) [OF this] have even: "\<not> (lastp - first) AND 7 \<noteq> 0" by simp
    have many: "(lastp - first) div 8 > 4096" using assms False by (auto simp: initterm_accepts_def not_le not_less)
    show thesis
      by (rule that [of 3], simp) (unfold gxos_crt_initterm_def Let_def clear(1) if_not_P [OF False] if_not_P [OF even] if_P [OF many], rule refl)
  qed
  let ?r1 = "rc\<lparr> ir_validation_failure := reason, ir_status := - 1 \<rparr>"
  obtain r' k' w' where "gxos_crt_initterm_trace trace 4 0 0 (sint reason) (Some ?r1, 0, w) = (Some r', k', w')"
    "act call trace (Trace 4 0 0 (sint reason)) (0, w) = (k', w')" and counts: "same_counts ?r1 r'" by (rule trace_act)
  then have "gxos_crt_initterm read call g first lastp (Some r) trace w = (- 1, Some r', perform call trace [Trace 4 0 0 (sint reason)] w)"
    unfolding reason(2) by (simp add: gxos_crt_initterm_fail_def perform_def split_beta)
  moreover have "sint reason \<in> {1, 3}" using reason(1) by auto
  moreover have "ir_invoked_count r' = 0" "\<not> ir_completed r'" using counts clear(2,3) by (simp_all add: same_counts_def)
  ultimately show ?thesis by blast
qed

lemma initterm_runs_loop:
  assumes "initterm_accepts g first lastp"
  shows "gxos_crt_initterm read call g first lastp r trace w =
    initterm_loop read call g trace first lastp [0..<unat ((lastp - first) div 8)]
      (map_option (\<lambda>r. r\<lparr> ir_entry_count := (lastp - first) div 8 \<rparr>) (gxos_crt_initterm_report_clear r), 0, w)"
    and "table_fits first lastp (unat ((lastp - first) div 8))"
proof -
  have a: "first \<le> lastp" "first AND 7 = 0" "lastp AND 7 = 0" "(lastp - first) div 8 \<le> 4096" using assms by (simp_all add: initterm_accepts_def)
  note c = table_count [OF a(1-3)]
  show "table_fits first lastp (unat ((lastp - first) div 8))" using c(2) a(4) by (simp add: table_fits_def word_le_nat_alt)
  have g: "\<not> (\<not> is_context_valid g \<or> \<not> gxos_crt_initterm_is_canonical first \<or> \<not> gxos_crt_initterm_is_canonical lastp \<or>
       first AND 7 \<noteq> 0 \<or> lastp AND 7 \<noteq> 0 \<or> first > lastp \<or>
       first < ic_image_base (is_context g) \<or> lastp > ic_image_end (is_context g) \<or>
       \<not> gxos_crt_initterm_table_is_readable g first lastp)" "\<not> (lastp - first) AND 7 \<noteq> 0" "\<not> (lastp - first) div 8 > 4096"
    using assms c(1) a(4) by (simp_all add: initterm_accepts_def not_less)
  show "gxos_crt_initterm read call g first lastp r trace w =
    initterm_loop read call g trace first lastp [0..<unat ((lastp - first) div 8)]
      (map_option (\<lambda>r. r\<lparr> ir_entry_count := (lastp - first) div 8 \<rparr>) (gxos_crt_initterm_report_clear r), 0, w)"
    unfolding gxos_crt_initterm_def Let_def if_not_P [OF g(1)] if_not_P [OF g(2)] if_not_P [OF g(3)] ..
qed

text \<open>
  C33. \<open>_initterm\<close> runs the table, with a trace callback or without one. A table that is aligned, readable, inside the image and of
  at most 4096 entries, and that neither the initializers nor the trace modify, is processed up to its first entry that is neither null nor executable: the non-null
  entries before it are called once each, in order. The world is changed by these calls and by the trace events in their places
  between them (each entry announced, each call bracketed, the failure reported, at most 128 events delivered and none without a trace),
  and by nothing else; in particular without a trace the initializers alone are called. The result is zero and the report
  complete exactly when the whole table was processed, and the report counts the calls. Any other table is
  refused with one failure event, no initializer is called and the report says so.
\<close>

theorem crt_initterm_runs_table:
  assumes "leaves_table read call trace (table_slots first (unat ((lastp - first) div 8)))"
  shows "case gxos_crt_initterm read call g first lastp (Some r) trace w of (result, report, w') \<Rightarrow>
    if initterm_accepts g first lastp
    then let ts = map (read w) (table_slots first (unat ((lastp - first) div 8))); ok = gxos_crt_initterm_target_is_executable g;
             acts = table_actions ok (enumerate 0 ts)
      in w' = perform call trace acts w \<and> initializers acts = called ok ts \<and>
         (trace = None \<longrightarrow> w' = fold call (called ok ts) w) \<and>
         (result = 0 \<longleftrightarrow> (\<forall>t \<in> set ts. t = 0 \<or> ok t)) \<and> result \<in> {0, - 1} \<and>
         (\<exists>r'. report = Some r' \<and> ir_entry_count r' = (lastp - first) div 8 \<and> ir_completed r' = (result = 0) \<and>
            ir_invoked_count r' = of_nat (length (called ok ts)) \<and> ir_returned_count r' = of_nat (length (called ok ts)))
    else result = - 1 \<and> (\<exists>reason \<in> {1, 3}. w' = perform call trace [Trace 4 0 0 reason] w) \<and>
         (\<exists>r'. report = Some r' \<and> ir_invoked_count r' = 0 \<and> \<not> ir_completed r')"
proof (cases "initterm_accepts g first lastp")
  case False
  then show ?thesis using initterm_refuses [OF False, of read call r trace w] by auto
next
  case True
  let ?n = "unat ((lastp - first) div 8)" and ?ok = "gxos_crt_initterm_target_is_executable g"
  let ?ts = "map (read w) (table_slots first ?n)"
  define r1 where "r1 = (the (gxos_crt_initterm_report_clear (Some r)))\<lparr> ir_entry_count := (lastp - first) div 8 \<rparr>"
  have r1: "ir_entry_count r1 = (lastp - first) div 8" "ir_invoked_count r1 = 0" "ir_returned_count r1 = 0" "\<not> ir_completed r1"
    "map_option (\<lambda>r. r\<lparr> ir_entry_count := (lastp - first) div 8 \<rparr>) (gxos_crt_initterm_report_clear (Some r)) = Some r1"
    by (simp_all add: r1_def gxos_crt_initterm_report_clear_def)
  note run = initterm_runs_loop(1) [OF True, of read call "Some r" trace w, unfolded r1(5)]
  have es: "numbered read w first [0..<?n] = enumerate 0 ?ts"
    by (simp add: table_slots_def enumerate_eq_zip zip_map2 zip_same_conv_map o_def)
  have snd_es: "map snd (enumerate 0 ?ts) = ?ts" by (simp add: enumerate_eq_zip)
  have "set [0..<?n] \<subseteq> {..<?n}" by auto
  from initterm_loop_runs [OF initterm_runs_loop(2) [OF True] this assms r1(4), of g 0 w, unfolded Let_def es snd_es]
  obtain r' where l: "initterm_loop read call g trace first lastp [0..<?n] (Some r1, 0, w) =
      (if \<forall>t \<in> set ?ts. t = 0 \<or> ?ok t then 0 else - 1, Some r', snd (fold (act call trace) (table_actions ?ok (enumerate 0 ?ts)) (0, w)))"
    "report_after r1 (length (called ?ok ?ts)) (fst (initterm_loop read call g trace first lastp [0..<?n] (Some r1, 0, w))) r'" by blast
  have calls: "initializers (table_actions ?ok (enumerate 0 ?ts)) = called ?ok ?ts" unfolding initializers_table snd_es ..
  have w': "snd (fold (act call trace) (table_actions ?ok (enumerate 0 ?ts)) (0, w)) = perform call trace (table_actions ?ok (enumerate 0 ?ts)) w"
    by (simp add: perform_def)
  have quiet: "trace = None \<longrightarrow> perform call trace (table_actions ?ok (enumerate 0 ?ts)) w = fold call (called ?ok ?ts) w"
    using calls by (cases trace) (simp_all only: perform_untraced option.distinct simp_thms)
  have result: "((if \<forall>t \<in> set ?ts. t = 0 \<or> ?ok t then 0 else - 1) = (0 :: int)) = (\<forall>t \<in> set ?ts. t = 0 \<or> ?ok t)" by simp
  show ?thesis
    unfolding run l(1) w' Let_def if_P [OF True] prod.case
  proof (intro conjI exI [of _ r'])
    show "(if \<forall>t \<in> set ?ts. t = 0 \<or> ?ok t then 0 else - 1) \<in> {0, - 1 :: int}" by simp
  qed (use l(2) r1(1-3) calls quiet result in \<open>simp_all only: l(1) report_after_def fst_conv simp_thms add_0\<close>)
qed

text \<open>
  A table of three entries at \<open>0x1000\<close>: an initializer, a null entry and an initializer. The world logs the calls and,
  with the number of the entry, the events of the trace.
\<close>

definition demo_state :: initterm_state where
  "demo_state = \<lparr> is_context = \<lparr> ic_image_base = 0x1000, ic_image_end = 0x3000, ic_relocations_applied = True, ic_memory_region_count = 1,
     ic_memory_regions = [\<lparr> rg_base = 0x1000, rg_end = 0x3000, rg_readable = True, rg_executable = True, rg_writable = False \<rparr>] \<rparr>,
     is_context_valid = True \<rparr>"

definition demo_read :: "(u64 + u32 \<times> u64) list \<Rightarrow> u64 \<Rightarrow> u64" where
  "demo_read w a = (if a = 0x1000 then 0x2000 else if a = 0x1010 then 0x2010 else 0)"

definition demo_call :: "u64 \<Rightarrow> (u64 + u32 \<times> u64) list \<Rightarrow> (u64 + u32 \<times> u64) list" where
  "demo_call t w = w @ [Inl t]"

definition demo_tell :: "(u64 + u32 \<times> u64) list trace" where
  "demo_tell e i t st w = w @ [Inr (e, i)]"

theorem crt_initterm_runs_table_witness:
  "\<forall>r. case gxos_crt_initterm demo_read demo_call demo_state 0x1000 0x1018 (Some r) (Some demo_tell) [] of (result, report, w') \<Rightarrow>
     w' = [Inr (1, 0), Inr (2, 0), Inl 0x2000, Inr (3, 0), Inr (1, 1), Inr (1, 2), Inr (2, 2), Inl 0x2010, Inr (3, 2)] \<and> result = 0"
proof
  fix r
  have acc: "initterm_accepts demo_state 0x1000 0x1018"
    by (simp add: initterm_accepts_def demo_state_def gxos_crt_initterm_is_canonical_def gxos_crt_initterm_table_is_readable_def
        gxos_crt_initterm_contains_range_def)
  have n: "[0..<unat ((0x1018 - 0x1000 :: u64) div 8)] = [0, 1, 2]" by (simp add: upt_rec)
  have ts: "map (demo_read []) (table_slots 0x1000 (unat ((0x1018 - 0x1000 :: u64) div 8))) = [0x2000, 0, 0x2010]"
    unfolding table_slots_def n by (simp add: demo_read_def)
  have ok: "gxos_crt_initterm_target_is_executable demo_state 0x2000" "gxos_crt_initterm_target_is_executable demo_state 0x2010"
    by (simp_all add: gxos_crt_initterm_target_is_executable_def demo_state_def gxos_crt_initterm_is_canonical_def gxos_crt_initterm_contains_def)
  obtain result report w' where run: "gxos_crt_initterm demo_read demo_call demo_state 0x1000 0x1018 (Some r) (Some demo_tell) [] = (result, report, w')"
    by (metis prod_cases3)
  have "leaves_table demo_read demo_call (Some demo_tell) slots" for slots by (simp add: leaves_table_def demo_read_def)
  from crt_initterm_runs_table [OF this, where first = "0x1000" and lastp = "0x1018" and g = demo_state and r = r and w = "[]"]
  show "case gxos_crt_initterm demo_read demo_call demo_state 0x1000 0x1018 (Some r) (Some demo_tell) [] of (result, report, w') \<Rightarrow>
     w' = [Inr (1, 0), Inr (2, 0), Inl 0x2000, Inr (3, 0), Inr (1, 1), Inr (1, 2), Inr (2, 2), Inl 0x2010, Inr (3, 2)] \<and> result = 0"
    unfolding run prod.case if_P [OF acc] ts Let_def by (simp add: ok perform_def demo_call_def demo_tell_def)
qed

subsection \<open>\<open>_initterm_e\<close>\<close>

lemma initterm_e_trace_None [simp]: "gxos_crt_initterm_e_trace None e i t st x = x"
  by (simp add: gxos_crt_initterm_e_trace_def split: prod.split)

text \<open>The calls of a list of initializers up to the first that fails.\<close>

fun run_until :: "(u64 \<Rightarrow> 'w \<Rightarrow> int \<times> 'w) \<Rightarrow> u64 list \<Rightarrow> 'w \<Rightarrow> int \<times> 'w" where
  "run_until call [] w = (0, w)"
| "run_until call (t # ts) w = (case call t w of (result, w) \<Rightarrow> if result \<noteq> 0 then (result, w) else run_until call ts w)"

lemma initterm_e_loop_runs:
  assumes "table_fits first lastp n" and "set is \<subseteq> {..<n}"
    and stable: "\<And>t w i. i < n \<Longrightarrow> read (snd (call t w)) (first + of_nat i * 8) = read w (first + of_nat i * 8)"
  shows "\<exists>r'. initterm_e_loop read call g None first is (r, tc, w) =
    (let ts = map (\<lambda>i. read w (first + of_nat i * 8)) is; ok = gxos_crt_initterm_e_is_executable g in
     case run_until call (called ok ts) w of (result, w') \<Rightarrow>
       (if result \<noteq> 0 then result else if \<forall>t \<in> set ts. t = 0 \<or> ok t then 0 else - 1, r', w'))"
  using assms(2)
proof (induction "is" arbitrary: r w)
  case Nil
  then show ?case by simp
next
  case (Cons i rest)
  let ?t = "read w (first + of_nat i * 8)"
  have i: "i < n" "set rest \<subseteq> {..<n}" using Cons.prems by auto
  note f = slot_fits(1,2) [OF assms(1) i(1)]
  show ?case
  proof (cases "?t = 0 \<or> \<not> gxos_crt_initterm_e_is_executable g ?t")
    case True
    then show ?thesis
      using Cons.IH [OF i(2), of "map_option (\<lambda>r. r\<lparr> er_null_entry_count := er_null_entry_count r + 1 \<rparr>) r" w] f
      by (auto simp: Let_def gxos_crt_initterm_e_fail_def)
  next
    case ok: False
    obtain res w1 where c: "call ?t w = (res, w1)" by fastforce
    have m: "map (\<lambda>i. read w1 (first + of_nat i * 8)) rest = map (\<lambda>i. read w (first + of_nat i * 8)) rest"
      using i(2) stable [of _ ?t w] by (auto simp: c)
    show ?thesis
    proof (cases "res = 0")
      case True
      then obtain rx where step: "initterm_e_loop read call g None first (i # rest) (r, tc, w) =
          initterm_e_loop read call g None first rest (rx, tc, w1)" using ok f by (auto simp: Let_def c)
      obtain r' where "initterm_e_loop read call g None first rest (rx, tc, w1) =
          (let ts = map (\<lambda>i. read w (first + of_nat i * 8)) rest; ok = gxos_crt_initterm_e_is_executable g in
           case run_until call (called ok ts) w1 of (result, w') \<Rightarrow>
             (if result \<noteq> 0 then result else if \<forall>t \<in> set ts. t = 0 \<or> ok t then 0 else - 1, r', w'))"
        using Cons.IH [OF i(2), of rx w1] unfolding m by blast
      then show ?thesis
        unfolding step using ok True by (intro exI [of _ r']) (simp add: Let_def c split_beta)
    qed (use ok f in \<open>simp add: Let_def c\<close>)
  qed
qed

definition initterm_e_accepts :: "initterm_e_state \<Rightarrow> u64 \<Rightarrow> u64 \<Rightarrow> bool" where
  "initterm_e_accepts g first lastp \<longleftrightarrow> es_context_valid g \<and> gxos_crt_initterm_e_is_canonical first \<and>
     gxos_crt_initterm_e_is_canonical lastp \<and> first AND 7 = 0 \<and> lastp AND 7 = 0 \<and> first \<le> lastp \<and>
     ec_table_base (es_context g) \<le> first \<and> lastp \<le> ec_table_end (es_context g) \<and> (lastp - first) div 8 \<le> 4096"

text \<open>
  \<open>_initterm_e\<close> stops at the first failure. Without a trace callback, on a table that is accepted and that the initializers do not
  modify, the non-null executable entries are called in order until one returns a non-zero result, which is
  then the result of the call; if none does, the result is zero when every entry of the table was null or executable, and
  a validation failure otherwise. A table that is not accepted is refused without a call.
\<close>

theorem crt_initterm_e_stops_at_failure:
  assumes stable: "\<And>t w i. i < unat ((lastp - first) div 8) \<Longrightarrow> read (snd (call t w)) (first + of_nat i * 8) = read w (first + of_nat i * 8)"
  shows "case gxos_crt_initterm_e read call g first lastp r None w of (result, report, w') \<Rightarrow>
    if initterm_e_accepts g first lastp
    then let ts = map (read w) (table_slots first (unat ((lastp - first) div 8))); ok = gxos_crt_initterm_e_is_executable g
      in w' = snd (run_until call (called ok ts) w) \<and>
         result = (if fst (run_until call (called ok ts) w) \<noteq> 0 then fst (run_until call (called ok ts) w)
                   else if \<forall>t \<in> set ts. t = 0 \<or> ok t then 0 else - 1)
    else result = - 1 \<and> w' = w"
proof (cases "initterm_e_accepts g first lastp")
  case False
  have "result = - 1 \<and> w' = w" if "gxos_crt_initterm_e read call g first lastp r None w = (result, report, w')" for result report w'
    using that False table_count [of first lastp]
    by (auto simp: gxos_crt_initterm_e_def Let_def gxos_crt_initterm_e_fail_def initterm_e_accepts_def not_le not_less split: if_splits)
  with False show ?thesis by auto
next
  case True
  let ?n = "unat ((lastp - first) div 8)"
  have a: "first \<le> lastp" "first AND 7 = 0" "lastp AND 7 = 0" "(lastp - first) div 8 \<le> 4096" using True by (simp_all add: initterm_e_accepts_def)
  note c = table_count [OF a(1-3)]
  have fits: "table_fits first lastp ?n" using c(2) a(4) by (simp add: table_fits_def word_le_nat_alt)
  have g: "\<not> (\<not> es_context_valid g \<or> \<not> gxos_crt_initterm_e_is_canonical first \<or>
         \<not> gxos_crt_initterm_e_is_canonical lastp \<or> first AND 7 \<noteq> 0 \<or> lastp AND 7 \<noteq> 0 \<or>
         first > lastp \<or> first < ec_table_base (es_context g) \<or> lastp > ec_table_end (es_context g))"
    "\<not> (lastp - first) AND 7 \<noteq> 0" "\<not> (lastp - first) div 8 > 4096"
    using True c(1) a(4) by (simp_all add: initterm_e_accepts_def not_less)
  let ?r = "map_option (\<lambda>r. r\<lparr> er_entry_count := (lastp - first) div 8 \<rparr>) (gxos_crt_initterm_e_report_clear r)"
  have run: "gxos_crt_initterm_e read call g first lastp r None w = initterm_e_loop read call g None first [0..<?n] (?r, 0, w)"
    unfolding gxos_crt_initterm_e_def Let_def if_not_P [OF g(1)] if_not_P [OF g(2)] if_not_P [OF g(3)] ..
  have ts: "map (read w) (table_slots first ?n) = map (\<lambda>i. read w (first + of_nat i * 8)) [0..<?n]" by (simp add: table_slots_def)
  have "set [0..<?n] \<subseteq> {..<?n}" by auto
  from initterm_e_loop_runs [OF fits this, of read call g ?r 0 w] stable
  obtain r' where l: "initterm_e_loop read call g None first [0..<?n] (?r, 0, w) =
      (let ts = map (\<lambda>i. read w (first + of_nat i * 8)) [0..<?n]; ok = gxos_crt_initterm_e_is_executable g in
       case run_until call (called ok ts) w of (result, w') \<Rightarrow>
         (if result \<noteq> 0 then result else if \<forall>t \<in> set ts. t = 0 \<or> ok t then 0 else - 1, r', w'))" by blast
  show ?thesis
    unfolding run l Let_def ts if_P [OF True] by (simp add: takeWhile_eq_all_conv split: prod.split)
qed

theorem crt_initterm_e_stops_at_failure_witness:
  "fst (gxos_crt_initterm_e (\<lambda>w a. 0) (\<lambda>t w. (1, w)) \<lparr> es_context = \<lparr> ec_image_base = 0x1000, ec_image_end = 0x3000, ec_table_base = 0x1000,
     ec_table_end = 0x2000, ec_relocations_applied = True, ec_executable_region_count = 0, ec_executable_regions = [] \<rparr>,
     es_context_valid = True \<rparr> 0x1000 0x1018 None None (7 :: nat)) = 0"
  (is "fst (gxos_crt_initterm_e ?rd ?call ?g _ _ _ _ _) = 0")
proof -
  have acc: "initterm_e_accepts ?g 0x1000 0x1018" by (simp add: initterm_e_accepts_def gxos_crt_initterm_e_is_canonical_def)
  have ts: "map (?rd (7 :: nat)) (table_slots 0x1000 n) = replicate n 0" for n by (simp add: table_slots_def o_def map_replicate_const)
  have q: "called ok (replicate n 0) = []" for ok n by (induction n) simp_all
  from crt_initterm_e_stops_at_failure [where read = ?rd and call = ?call and first = "0x1000" and lastp = "0x1018" and g = ?g and r = None and w = "7 :: nat"]
  show ?thesis unfolding if_P [OF acc] ts Let_def q by (simp add: split_beta)
qed

end
