(* ===== verification/Exception_Context.thy ===== *)
theory Exception_Context
  imports Crt_Regions
begin

text \<open>
  The exception context of \<open>src/src/Gate4Harness/exception_context.c\<close>: the trap frame the assembly entry writes, the
  view of it that a handler gets, and the checks a handler's changes must pass before they are written back.
\<close>

subsection \<open>Data\<close>

abbreviation (input) GXOS_EXCEPTION_ALLOWED_RFLAGS_MASK :: u64 where "GXOS_EXCEPTION_ALLOWED_RFLAGS_MASK \<equiv> 0xDD5"
abbreviation (input) GXOS_EXCEPTION_BP_RIP_AT_INT3 :: u32 where "GXOS_EXCEPTION_BP_RIP_AT_INT3 \<equiv> 1"
abbreviation (input) GXOS_EXCEPTION_BP_RIP_AFTER_INT3 :: u32 where "GXOS_EXCEPTION_BP_RIP_AFTER_INT3 \<equiv> 2"

record GXOS_X64_TRAP_FRAME =
  tf_vector :: u64
  tf_error_code :: u64
  tf_entry_flags :: u64
  tf_reserved0 :: u64
  tf_rax :: u64
  tf_rbx :: u64
  tf_rcx :: u64
  tf_rdx :: u64
  tf_rsi :: u64
  tf_rdi :: u64
  tf_rbp :: u64
  tf_r8 :: u64
  tf_r9 :: u64
  tf_r10 :: u64
  tf_r11 :: u64
  tf_r12 :: u64
  tf_r13 :: u64
  tf_r14 :: u64
  tf_r15 :: u64
  tf_rip :: u64
  tf_cs :: u64
  tf_rflags :: u64
  tf_rsp :: u64
  tf_ss :: u64
  tf_cr2 :: u64
  tf_raw_frame :: u64
  tf_reserved1 :: u64
  tf_reserved2 :: u64

record GXOS_CONTEXT_COMPAT =
  cx_p1_home :: u64
  cx_p2_home :: u64
  cx_p3_home :: u64
  cx_p4_home :: u64
  cx_p5_home :: u64
  cx_p6_home :: u64
  cx_context_flags :: u32
  cx_mxcsr :: u32
  cx_seg_cs :: u16
  cx_seg_ds :: u16
  cx_seg_es :: u16
  cx_seg_fs :: u16
  cx_seg_gs :: u16
  cx_seg_ss :: u16
  cx_eflags :: u32
  cx_dr0 :: u64
  cx_dr1 :: u64
  cx_dr2 :: u64
  cx_dr3 :: u64
  cx_dr6 :: u64
  cx_dr7 :: u64
  cx_rax :: u64
  cx_rcx :: u64
  cx_rdx :: u64
  cx_rbx :: u64
  cx_rsp :: u64
  cx_rbp :: u64
  cx_rsi :: u64
  cx_rdi :: u64
  cx_r8 :: u64
  cx_r9 :: u64
  cx_r10 :: u64
  cx_r11 :: u64
  cx_r12 :: u64
  cx_r13 :: u64
  cx_r14 :: u64
  cx_r15 :: u64
  cx_rip :: u64

record GXOS_EXCEPTION_VALIDATION_BOUNDS =
  vb_stack_lower :: u64
  vb_stack_upper :: u64
  vb_executable_lower :: u64
  vb_executable_upper :: u64

datatype exception_validation =
    GXOS_EXCEPTION_VALIDATION_OK
  | GXOS_EXCEPTION_VALIDATION_NULL_TRAP
  | GXOS_EXCEPTION_VALIDATION_NULL_CONTEXT
  | GXOS_EXCEPTION_VALIDATION_NONCANONICAL_RIP
  | GXOS_EXCEPTION_VALIDATION_UNAPPROVED_RIP
  | GXOS_EXCEPTION_VALIDATION_NONCANONICAL_RSP
  | GXOS_EXCEPTION_VALIDATION_UNSAFE_RSP
  | GXOS_EXCEPTION_VALIDATION_FORBIDDEN_RFLAGS
  | GXOS_EXCEPTION_VALIDATION_BAD_BOUNDS

subsection \<open>Operations\<close>

definition gxos_exception_is_canonical :: "u64 \<Rightarrow> bool" where
  "gxos_exception_is_canonical address \<longleftrightarrow> address \<le> 0x00007FFFFFFFFFFF \<or> address \<ge> 0xFFFF800000000000"

definition gxos_exception_translate_vector_code :: "u64 \<Rightarrow> u32" where
  "gxos_exception_translate_vector_code vector = (if vector = 3 then 0x80000003 else 0)"

text \<open>The exception address and the kind of the breakpoint, where the translation succeeds.\<close>

definition gxos_exception_translate_breakpoint_rip :: "u64 \<Rightarrow> u64 \<Rightarrow> u8 \<Rightarrow> u8 \<Rightarrow> (u64 \<times> u32) option" where
  "gxos_exception_translate_breakpoint_rip captured_rip int3_address byte_before_rip byte_at_rip =
    (if int3_address = 0 then None
     else if captured_rip = int3_address + 1 \<and> byte_before_rip = 0xCC
     then Some (captured_rip - 1, GXOS_EXCEPTION_BP_RIP_AFTER_INT3)
     else if captured_rip = int3_address \<and> byte_at_rip = 0xCC
     then Some (captured_rip, GXOS_EXCEPTION_BP_RIP_AT_INT3)
     else None)"

definition gxos_exception_dispatch_entry_allowed :: "u32 \<Rightarrow> bool" where
  "gxos_exception_dispatch_entry_allowed active \<longleftrightarrow> active = 0"

definition gxos_exception_trap_is_well_formed :: "GXOS_X64_TRAP_FRAME option \<Rightarrow> bool" where
  "gxos_exception_trap_is_well_formed trap = (case trap of None \<Rightarrow> False | Some t \<Rightarrow>
     tf_vector t \<le> 31 \<and> gxos_exception_is_canonical (tf_rip t) \<and> gxos_exception_is_canonical (tf_rsp t))"

definition gxos_exception_validate_context_modifications ::
  "GXOS_X64_TRAP_FRAME option \<Rightarrow> GXOS_CONTEXT_COMPAT option \<Rightarrow> GXOS_EXCEPTION_VALIDATION_BOUNDS option \<Rightarrow>
     exception_validation" where
  "gxos_exception_validate_context_modifications trap ctx bounds =
    (case trap of None \<Rightarrow> GXOS_EXCEPTION_VALIDATION_NULL_TRAP | Some t \<Rightarrow>
     (case ctx of None \<Rightarrow> GXOS_EXCEPTION_VALIDATION_NULL_CONTEXT | Some c \<Rightarrow>
     (case bounds of None \<Rightarrow> GXOS_EXCEPTION_VALIDATION_BAD_BOUNDS | Some b \<Rightarrow>
       if vb_stack_lower b \<ge> vb_stack_upper b \<or> vb_executable_lower b \<ge> vb_executable_upper b
       then GXOS_EXCEPTION_VALIDATION_BAD_BOUNDS
       else if \<not> gxos_exception_is_canonical (cx_rip c) then GXOS_EXCEPTION_VALIDATION_NONCANONICAL_RIP
       else if cx_rip c < vb_executable_lower b \<or> cx_rip c \<ge> vb_executable_upper b
       then GXOS_EXCEPTION_VALIDATION_UNAPPROVED_RIP
       else if \<not> gxos_exception_is_canonical (cx_rsp c) then GXOS_EXCEPTION_VALIDATION_NONCANONICAL_RSP
       else if cx_rsp c < vb_stack_lower b \<or> cx_rsp c \<ge> vb_stack_upper b
       then GXOS_EXCEPTION_VALIDATION_UNSAFE_RSP
       else if (tf_rflags t XOR ucast (cx_eflags c)) AND NOT GXOS_EXCEPTION_ALLOWED_RFLAGS_MASK \<noteq> 0
       then GXOS_EXCEPTION_VALIDATION_FORBIDDEN_RFLAGS
       else GXOS_EXCEPTION_VALIDATION_OK)))"

definition gxos_exception_apply_context_modifications ::
  "GXOS_X64_TRAP_FRAME \<Rightarrow> GXOS_CONTEXT_COMPAT \<Rightarrow> GXOS_X64_TRAP_FRAME" where
  "gxos_exception_apply_context_modifications trap ctx =
     trap\<lparr>tf_rcx := cx_rcx ctx, tf_rdx := cx_rdx ctx, tf_rsp := cx_rsp ctx, tf_rip := cx_rip ctx,
       tf_rflags := (tf_rflags trap AND NOT GXOS_EXCEPTION_ALLOWED_RFLAGS_MASK)
         OR (ucast (cx_eflags ctx) AND GXOS_EXCEPTION_ALLOWED_RFLAGS_MASK)\<rparr>"

subsection \<open>What a continuation may change\<close>

lemma masked_merge:
  fixes old new mask :: u64
  assumes "(old XOR new) AND NOT mask = 0"
  shows "(old AND NOT mask) OR (new AND mask) = new"
proof (rule bit_eqI)
  fix n assume "possible_bit TYPE(64 word) n"
  then show "bit ((old AND NOT mask) OR (new AND mask)) n = bit new n"
    using arg_cong [OF assms, of "\<lambda>x. bit x n"] by (auto simp: bit_simps)
qed

text \<open>
  C40. A handler's changes that pass validation leave a trap frame the machine can return to: the instruction pointer is
  canonical and in the approved code, the stack pointer canonical and on the approved stack, a well-formed frame stays
  well-formed; the flags are exactly the ones the handler asked for and differ from the interrupted ones
  only in the bits a handler may change; and beside these, only \<open>rcx\<close> and \<open>rdx\<close> change.
\<close>

theorem exception_continuation_confined:
  assumes "gxos_exception_validate_context_modifications (Some trap) (Some ctx) (Some b) = GXOS_EXCEPTION_VALIDATION_OK"
    and "trap' = gxos_exception_apply_context_modifications trap ctx"
  shows "gxos_exception_is_canonical (tf_rip trap') \<and> vb_executable_lower b \<le> tf_rip trap' \<and> tf_rip trap' < vb_executable_upper b
    \<and> gxos_exception_is_canonical (tf_rsp trap') \<and> vb_stack_lower b \<le> tf_rsp trap' \<and> tf_rsp trap' < vb_stack_upper b
    \<and> (gxos_exception_trap_is_well_formed (Some trap) \<longrightarrow> gxos_exception_trap_is_well_formed (Some trap'))
    \<and> tf_rflags trap' = ucast (cx_eflags ctx)
    \<and> (tf_rflags trap' XOR tf_rflags trap) AND NOT GXOS_EXCEPTION_ALLOWED_RFLAGS_MASK = 0
    \<and> trap'\<lparr>tf_rcx := tf_rcx trap, tf_rdx := tf_rdx trap, tf_rsp := tf_rsp trap, tf_rip := tf_rip trap,
        tf_rflags := tf_rflags trap\<rparr> = trap"
proof -
  have v: "gxos_exception_is_canonical (cx_rip ctx)" "vb_executable_lower b \<le> cx_rip ctx" "cx_rip ctx < vb_executable_upper b"
      "gxos_exception_is_canonical (cx_rsp ctx)" "vb_stack_lower b \<le> cx_rsp ctx" "cx_rsp ctx < vb_stack_upper b"
      "(tf_rflags trap XOR ucast (cx_eflags ctx)) AND NOT GXOS_EXCEPTION_ALLOWED_RFLAGS_MASK = 0"
    using assms(1) by (auto simp: gxos_exception_validate_context_modifications_def not_less not_le split: if_splits)
  note f = masked_merge [OF v(7)]
  have "tf_rflags trap' = ucast (cx_eflags ctx)"
    unfolding assms(2) gxos_exception_apply_context_modifications_def using f by simp
  then show ?thesis
    using v unfolding assms(2) gxos_exception_apply_context_modifications_def
    by (simp add: gxos_exception_trap_is_well_formed_def xor.commute)
qed

theorem exception_continuation_confined_witness:
  "let trap = \<lparr>tf_vector = 3, tf_error_code = 0, tf_entry_flags = 0, tf_reserved0 = 0, tf_rax = 0, tf_rbx
         = 0, tf_rcx = 0, tf_rdx = 0, tf_rsi = 0, tf_rdi = 0, tf_rbp = 0, tf_r8 = 0, tf_r9 = 0, tf_r10 = 0, tf_r11 = 0,
         tf_r12 = 0, tf_r13 = 0, tf_r14 = 0, tf_r15 = 0, tf_rip = 0x1000, tf_cs = 0, tf_rflags = 0x246, tf_rsp =
         0x1000, tf_ss = 0, tf_cr2 = 0, tf_raw_frame = 0, tf_reserved1 = 0, tf_reserved2 = 0\<rparr>;
  ctx = \<lparr>cx_p1_home = 0, cx_p2_home = 0, cx_p3_home = 0, cx_p4_home = 0, cx_p5_home = 0, cx_p6_home = 0,
         cx_context_flags = 0, cx_mxcsr = 0, cx_seg_cs = 0, cx_seg_ds = 0, cx_seg_es = 0, cx_seg_fs = 0, cx_seg_gs = 0,
         cx_seg_ss = 0, cx_eflags = 0x247, cx_dr0 = 0, cx_dr1 = 0, cx_dr2 = 0, cx_dr3 = 0, cx_dr6 = 0, cx_dr7 = 0,
         cx_rax = 0, cx_rcx = 7, cx_rdx = 7, cx_rbx = 0, cx_rsp = 0x1010, cx_rbp = 0, cx_rsi = 0, cx_rdi = 0, cx_r8 =
         0, cx_r9 = 0, cx_r10 = 0, cx_r11 = 0, cx_r12 = 0, cx_r13 = 0, cx_r14 = 0, cx_r15 = 0, cx_rip = 0x1010\<rparr>
   in tf_rflags (gxos_exception_apply_context_modifications trap ctx) = 0x247"
  unfolding Let_def
  by (subst exception_continuation_confined [where b = "\<lparr>vb_stack_lower = 0x1000, vb_stack_upper = 0x2000,
        vb_executable_lower = 0x1000, vb_executable_upper = 0x2000\<rparr>", OF _ refl, THEN conjunct2, THEN conjunct2, THEN conjunct2,
        THEN conjunct2, THEN conjunct2, THEN conjunct2, THEN conjunct2, THEN conjunct1])
    (simp_all add: gxos_exception_validate_context_modifications_def gxos_exception_is_canonical_def)

end
