(* ===== verification/Vectored_Handler.thy ===== *)
theory Vectored_Handler
  imports Exception_Context
begin

text \<open>
  The vectored exception handlers of \<open>src/src/Gate4Harness/vectored_handler.c\<close>: the registry of at most eight
  handlers, the check of a callback against the sections of the loaded images, the parser that takes those sections
  from a PE header in memory, and the dispatcher.

  A callback is its address. Calling one is a parameter of the model, a function on the world \<open>'w\<close> and on
  the registry, since a handler may call back into the registry while it runs. Counts and slots, which the code
  keeps below eight, are natural numbers; a 32-bit return value is a word. The handle of a record is its address, so
  the address of the first record is an argument of the operation that makes handles.
\<close>

subsection \<open>Data\<close>

abbreviation (input) GXOS_VEH_REGISTRY_CAPACITY :: nat where "GXOS_VEH_REGISTRY_CAPACITY \<equiv> 8"
abbreviation (input) GXOS_VEH_MAX_IMAGES :: nat where "GXOS_VEH_MAX_IMAGES \<equiv> 2"
abbreviation (input) GXOS_VEH_MAX_IMAGE_SECTIONS :: nat where "GXOS_VEH_MAX_IMAGE_SECTIONS \<equiv> 32"
abbreviation (input) GXOS_VEH_SECTION_READABLE :: u32 where "GXOS_VEH_SECTION_READABLE \<equiv> 0x40000000"
abbreviation (input) GXOS_VEH_SECTION_EXECUTABLE :: u32 where "GXOS_VEH_SECTION_EXECUTABLE \<equiv> 0x20000000"
abbreviation (input) GXOS_VEH_SECTION_WRITABLE :: u32 where "GXOS_VEH_SECTION_WRITABLE \<equiv> 0x80000000"
abbreviation (input) GXOS_EXCEPTION_CONTINUE_SEARCH :: u32 where "GXOS_EXCEPTION_CONTINUE_SEARCH \<equiv> 0"
abbreviation (input) GXOS_EXCEPTION_CONTINUE_EXECUTION :: u32 where "GXOS_EXCEPTION_CONTINUE_EXECUTION \<equiv> - 1"

record GXOS_VEH_SECTION =
  vs_base :: u64
  vs_end :: u64
  vs_characteristics :: u32
  vs_name :: "u8 list"

record GXOS_VEH_IMAGE =
  vi_identity :: u64
  vi_image_base :: u64
  vi_image_size :: u64
  vi_section_count :: nat
  vi_sections :: "GXOS_VEH_SECTION list"

record GXOS_VEH_RECORD =
  vr_occupied :: bool
  vr_slot :: nat
  vr_requested_first :: u32
  vr_callback_section_index :: u32
  vr_callback_section_executable :: bool
  vr_callback_address :: u64
  vr_callback :: u64
  vr_registration_sequence :: u64
  vr_opaque_handle :: u64
  vr_callback_image :: "GXOS_VEH_IMAGE option"
  vr_callback_image_base :: u64
  vr_callback_rva :: u64
  vr_callback_section_name :: "u8 list"
  vr_invocation_count :: u64
  vr_last_return_value :: u32

record GXOS_VEH_REGISTRY =
  vg_records :: "GXOS_VEH_RECORD list"
  vg_order :: "nat list"
  vg_images :: "GXOS_VEH_IMAGE option list"
  vg_image_count :: nat
  vg_live_count :: nat
  vg_dispatch_active :: bool
  vg_next_registration_sequence :: u64
  vg_registration_attempt_count :: u64
  vg_allocation_count :: u64

datatype GXOS_VEH_VALIDATION_RESULT =
    GXOS_VEH_VALIDATION_OK
  | GXOS_VEH_VALIDATION_NULL_CALLBACK
  | GXOS_VEH_VALIDATION_NONCANONICAL_CALLBACK
  | GXOS_VEH_VALIDATION_NO_IMAGE
  | GXOS_VEH_VALIDATION_BAD_IMAGE
  | GXOS_VEH_VALIDATION_IMAGE_OVERFLOW
  | GXOS_VEH_VALIDATION_OUTSIDE_IMAGE
  | GXOS_VEH_VALIDATION_BAD_SECTION
  | GXOS_VEH_VALIDATION_NOT_EXECUTABLE
  | GXOS_VEH_VALIDATION_NOT_READABLE
  | GXOS_VEH_VALIDATION_WRITABLE_SECTION
  | GXOS_VEH_VALIDATION_REGISTRY_ACTIVE
  | GXOS_VEH_VALIDATION_REGISTRY_FULL
  | GXOS_VEH_VALIDATION_SEQUENCE_EXHAUSTED
  | GXOS_VEH_VALIDATION_BAD_REGISTRY

record GXOS_VEH_CALLBACK_DIAGNOSTICS =
  vd_validation :: GXOS_VEH_VALIDATION_RESULT
  vd_image :: "GXOS_VEH_IMAGE option"
  vd_section_index :: u32
  vd_section_executable :: bool
  vd_section_readable :: bool
  vd_section_writable :: bool
  vd_callback_address :: u64
  vd_image_base :: u64
  vd_callback_rva :: u64
  vd_section_name :: "u8 list"

record GXOS_VEH_DISPATCH_REPORT =
  vp_snapshot_count :: nat
  vp_snapshot_slots :: "nat list"
  vp_invoked_count :: nat
  vp_invoked_slots :: "nat list"
  vp_invocation_numbers :: "u64 list"
  vp_return_values :: "u32 list"
  vp_invalid_return_count :: nat
  vp_stopped_on_continue_execution :: bool
  vp_final_continue_search :: bool
  vp_final_continue_execution :: bool
  vp_final_slot :: u32

type_synonym 'w veh_invoker = "u64 \<Rightarrow> GXOS_VEH_REGISTRY \<Rightarrow> 'w \<Rightarrow> u32 \<times> GXOS_VEH_REGISTRY \<times> 'w"

subsection \<open>Reading a header\<close>

definition gxos_veh_read_u16 :: "memory \<Rightarrow> u64 \<Rightarrow> u16" where
  "gxos_veh_read_u16 m p = ucast (m p) OR push_bit 8 (ucast (m (p + 1)))"

definition gxos_veh_read_u32 :: "memory \<Rightarrow> u64 \<Rightarrow> u32" where
  "gxos_veh_read_u32 m p =
     ucast (gxos_veh_read_u16 m p) OR push_bit 16 (ucast (gxos_veh_read_u16 m (p + 2)))"

definition gxos_veh_range_contains :: "u64 \<Rightarrow> u64 \<Rightarrow> u64 \<Rightarrow> bool" where
  "gxos_veh_range_contains offset len limit \<longleftrightarrow> offset \<le> limit \<and> len \<le> limit - offset"

definition gxos_veh_copy_name :: "memory \<Rightarrow> u64 \<Rightarrow> u8 list" where
  "gxos_veh_copy_name m source = map (\<lambda>i. m (source + of_nat i)) [0..<8] @ [0]"

subsection \<open>Checking a callback\<close>

definition gxos_veh_image_bounds :: "GXOS_VEH_IMAGE option \<Rightarrow> GXOS_VEH_VALIDATION_RESULT \<times> u64" where
  "gxos_veh_image_bounds pimage = (case pimage of
      None \<Rightarrow> (GXOS_VEH_VALIDATION_BAD_IMAGE, 0)
    | Some img \<Rightarrow>
        if vi_identity img = 0 \<or> vi_image_base img = 0 \<or> vi_image_size img = 0
            \<or> vi_image_size img > UINT64_MAX \<or> vi_section_count img = 0
            \<or> vi_section_count img > GXOS_VEH_MAX_IMAGE_SECTIONS
        then (GXOS_VEH_VALIDATION_BAD_IMAGE, 0)
        else if vi_image_base img > UINT64_MAX - vi_image_size img
        then (GXOS_VEH_VALIDATION_IMAGE_OVERFLOW, 0)
        else let image_end = vi_image_base img + vi_image_size img in
          if image_end \<le> vi_image_base img \<or> \<not> gxos_exception_is_canonical (vi_image_base img)
              \<or> \<not> gxos_exception_is_canonical (image_end - 1)
          then (GXOS_VEH_VALIDATION_BAD_IMAGE, image_end)
          else (GXOS_VEH_VALIDATION_OK, image_end))"

definition section_bad :: "GXOS_VEH_IMAGE \<Rightarrow> u64 \<Rightarrow> GXOS_VEH_SECTION \<Rightarrow> bool" where
  "section_bad img image_end sec \<longleftrightarrow>
     vs_base sec = 0 \<or> vs_base sec \<ge> vs_end sec
     \<or> vs_base sec < vi_image_base img \<or> vs_end sec > image_end
     \<or> \<not> gxos_exception_is_canonical (vs_base sec)
     \<or> \<not> gxos_exception_is_canonical (vs_end sec - 1)"

definition check_section ::
  "nat \<Rightarrow> GXOS_VEH_SECTION \<Rightarrow> GXOS_VEH_CALLBACK_DIAGNOSTICS \<Rightarrow>
     GXOS_VEH_VALIDATION_RESULT \<times> GXOS_VEH_CALLBACK_DIAGNOSTICS" where
  "check_section section_index sec d =
    (let executable = (vs_characteristics sec AND GXOS_VEH_SECTION_EXECUTABLE \<noteq> 0);
         readable = (vs_characteristics sec AND GXOS_VEH_SECTION_READABLE \<noteq> 0);
         writable = (vs_characteristics sec AND GXOS_VEH_SECTION_WRITABLE \<noteq> 0);
         d = d\<lparr>vd_section_index := of_nat section_index, vd_section_executable := executable,
               vd_section_readable := readable, vd_section_writable := writable,
               vd_section_name := vs_name sec\<rparr>
     in (if \<not> executable then GXOS_VEH_VALIDATION_NOT_EXECUTABLE
         else if \<not> readable then GXOS_VEH_VALIDATION_NOT_READABLE
         else if writable then GXOS_VEH_VALIDATION_WRITABLE_SECTION
         else GXOS_VEH_VALIDATION_OK, d))"

fun find_callback_loop ::
  "u64 \<Rightarrow> GXOS_VEH_IMAGE option list \<Rightarrow> GXOS_VEH_CALLBACK_DIAGNOSTICS \<Rightarrow>
     GXOS_VEH_VALIDATION_RESULT \<times> GXOS_VEH_CALLBACK_DIAGNOSTICS" where
  "find_callback_loop callback_address [] d = (GXOS_VEH_VALIDATION_NO_IMAGE, d)"
| "find_callback_loop callback_address (None # images) d = (fst (gxos_veh_image_bounds None), d)"
| "find_callback_loop callback_address (Some img # images) d =
    (let (image_result, image_end) = gxos_veh_image_bounds (Some img);
         sections = take (vi_section_count img) (vi_sections img)
     in if image_result \<noteq> GXOS_VEH_VALIDATION_OK then (image_result, d)
        else if list_ex (section_bad img image_end) sections then (GXOS_VEH_VALIDATION_BAD_SECTION, d)
        else if callback_address < vi_image_base img \<or> callback_address \<ge> image_end
        then find_callback_loop callback_address images d
        else let d = d\<lparr>vd_image := Some img, vd_image_base := vi_image_base img,
                       vd_callback_rva := callback_address - vi_image_base img\<rparr>
          in case find_index (\<lambda>sec. \<not> (callback_address < vs_base sec \<or> callback_address \<ge> vs_end sec)) sections of
               None \<Rightarrow> (GXOS_VEH_VALIDATION_OUTSIDE_IMAGE, d)
             | Some section_index \<Rightarrow> check_section section_index (sections ! section_index) d)"

definition cleared_diagnostics :: "u64 \<Rightarrow> GXOS_VEH_CALLBACK_DIAGNOSTICS" where
  "cleared_diagnostics callback_address =
     \<lparr>vd_validation = GXOS_VEH_VALIDATION_BAD_IMAGE, vd_image = None, vd_section_index = UINT32_MAX,
      vd_section_executable = False, vd_section_readable = False, vd_section_writable = False,
      vd_callback_address = callback_address, vd_image_base = 0, vd_callback_rva = 0,
      vd_section_name = replicate 9 0\<rparr>"

definition gxos_veh_find_callback ::
  "GXOS_VEH_REGISTRY \<Rightarrow> u64 \<Rightarrow> GXOS_VEH_VALIDATION_RESULT \<times> GXOS_VEH_CALLBACK_DIAGNOSTICS" where
  "gxos_veh_find_callback registry callback_address =
    (let d = cleared_diagnostics callback_address
     in if callback_address = 0 then (GXOS_VEH_VALIDATION_NULL_CALLBACK, d)
        else if \<not> gxos_exception_is_canonical callback_address
        then (GXOS_VEH_VALIDATION_NONCANONICAL_CALLBACK, d)
        else if vg_image_count registry > GXOS_VEH_MAX_IMAGES then (GXOS_VEH_VALIDATION_BAD_REGISTRY, d)
        else find_callback_loop callback_address (take (vg_image_count registry) (vg_images registry)) d)"

subsection \<open>The registry\<close>

definition gxos_veh_registry_init :: "GXOS_VEH_REGISTRY \<Rightarrow> GXOS_VEH_REGISTRY" where
  "gxos_veh_registry_init registry =
     registry\<lparr>vg_records := map (\<lambda>i. (vg_records registry ! i)\<lparr>vr_occupied := False, vr_slot := i\<rparr>)
                             [0..<GXOS_VEH_REGISTRY_CAPACITY],
       vg_order := replicate GXOS_VEH_REGISTRY_CAPACITY 0,
       vg_images := replicate GXOS_VEH_MAX_IMAGES None, vg_image_count := 0, vg_live_count := 0,
       vg_dispatch_active := False, vg_next_registration_sequence := 1,
       vg_registration_attempt_count := 0, vg_allocation_count := 0\<rparr>"

text \<open>The array of image pointers is the list \<open>images\<close>, which is at least as long as the count that goes with it.\<close>

definition gxos_veh_registry_configure_images ::
  "GXOS_VEH_REGISTRY \<Rightarrow> GXOS_VEH_IMAGE option list option \<Rightarrow> nat \<Rightarrow> bool \<times> GXOS_VEH_REGISTRY" where
  "gxos_veh_registry_configure_images registry images image_count =
    (if image_count > GXOS_VEH_MAX_IMAGES \<or> (image_count \<noteq> 0 \<and> images = None)
        \<or> vg_live_count registry \<noteq> 0 \<or> vg_dispatch_active registry
     then (False, registry)
     else let given = take image_count (case images of None \<Rightarrow> [] | Some xs \<Rightarrow> xs) in
       if list_ex (\<lambda>image. image = None) given then (False, registry)
       else (True, registry\<lparr>vg_images := given @ replicate (GXOS_VEH_MAX_IMAGES - image_count) None,
                            vg_image_count := image_count\<rparr>))"

definition record_valid :: "GXOS_VEH_REGISTRY \<Rightarrow> nat \<Rightarrow> bool" where
  "record_valid registry i \<longleftrightarrow>
     (let r = vg_records registry ! i
      in vr_slot r = i \<and>
         (vr_occupied r \<longrightarrow>
            vr_opaque_handle r \<noteq> 0 \<and> vr_registration_sequence r \<noteq> 0
            \<and> vr_registration_sequence r < vg_next_registration_sequence registry
            \<and> (\<forall>j < GXOS_VEH_REGISTRY_CAPACITY. i < j \<longrightarrow> vr_occupied (vg_records registry ! j) \<longrightarrow>
                  vr_opaque_handle (vg_records registry ! j) \<noteq> vr_opaque_handle r
                  \<and> vr_registration_sequence (vg_records registry ! j) \<noteq> vr_registration_sequence r)))"

definition order_valid :: "GXOS_VEH_REGISTRY \<Rightarrow> nat \<Rightarrow> bool" where
  "order_valid registry i \<longleftrightarrow>
     (let slot = vg_order registry ! i
      in slot < GXOS_VEH_REGISTRY_CAPACITY \<and> vr_occupied (vg_records registry ! slot)
         \<and> vr_opaque_handle (vg_records registry ! slot) \<noteq> 0
         \<and> (\<forall>j < vg_live_count registry. i < j \<longrightarrow> vg_order registry ! j \<noteq> slot))"

definition gxos_veh_registry_valid :: "GXOS_VEH_REGISTRY \<Rightarrow> bool" where
  "gxos_veh_registry_valid registry \<longleftrightarrow>
     vg_live_count registry \<le> GXOS_VEH_REGISTRY_CAPACITY
     \<and> vg_image_count registry \<le> GXOS_VEH_MAX_IMAGES
     \<and> vg_next_registration_sequence registry \<noteq> 0
     \<and> (\<forall>i < GXOS_VEH_REGISTRY_CAPACITY. record_valid registry i)
     \<and> live_sum vr_occupied (\<lambda>_. 1) (vg_records registry) = vg_live_count registry
     \<and> (\<forall>i < vg_live_count registry. order_valid registry i)
     \<and> (\<forall>i < GXOS_VEH_REGISTRY_CAPACITY. vg_live_count registry \<le> i \<longrightarrow>
           vg_order registry ! i < GXOS_VEH_REGISTRY_CAPACITY)"

text \<open>\<open>for (i = live_count; i > insertion_position; i--) order[i] = order[i - 1];\<close>\<close>

fun shift_order :: "nat \<Rightarrow> nat \<Rightarrow> nat list \<Rightarrow> nat list" where
  "shift_order position i order =
    (if i > position then shift_order position (i - 1) (order[i := order ! (i - 1)]) else order)"

declare shift_order.simps [simp del]

definition filled_record ::
  "u64 \<Rightarrow> nat \<Rightarrow> u32 \<Rightarrow> u64 \<Rightarrow> u64 \<Rightarrow> GXOS_VEH_CALLBACK_DIAGNOSTICS \<Rightarrow> GXOS_VEH_RECORD" where
  "filled_record handle free_slot first callback sequence d =
     \<lparr>vr_occupied = True, vr_slot = free_slot, vr_requested_first = first,
      vr_callback_section_index = vd_section_index d,
      vr_callback_section_executable = vd_section_executable d,
      vr_callback_address = callback, vr_callback = callback, vr_registration_sequence = sequence,
      vr_opaque_handle = handle, vr_callback_image = vd_image d,
      vr_callback_image_base = vd_image_base d, vr_callback_rva = vd_callback_rva d,
      vr_callback_section_name = vd_section_name d, vr_invocation_count = 0,
      vr_last_return_value = 0\<rparr>"

text \<open>A record has 112 bytes, so the record of a slot is at that multiple of the slot after the first one.\<close>

definition record_address :: "u64 \<Rightarrow> nat \<Rightarrow> u64" where
  "record_address records slot = records + 112 * of_nat slot"

definition gxos_veh_registry_add ::
  "u64 \<Rightarrow> GXOS_VEH_REGISTRY \<Rightarrow> u32 \<Rightarrow> u64 \<Rightarrow> GXOS_VEH_CALLBACK_DIAGNOSTICS \<Rightarrow>
     u64 \<times> GXOS_VEH_REGISTRY \<times> GXOS_VEH_CALLBACK_DIAGNOSTICS" where
  "gxos_veh_registry_add records registry first callback diagnostics =
    (let registry = registry\<lparr>vg_registration_attempt_count := vg_registration_attempt_count registry + 1\<rparr>
     in if \<not> gxos_veh_registry_valid registry
        then (0, registry, diagnostics\<lparr>vd_validation := GXOS_VEH_VALIDATION_BAD_REGISTRY\<rparr>)
        else if vg_dispatch_active registry
        then (0, registry, diagnostics\<lparr>vd_validation := GXOS_VEH_VALIDATION_REGISTRY_ACTIVE\<rparr>)
        else let (validation, d) = gxos_veh_find_callback registry callback
          in if validation \<noteq> GXOS_VEH_VALIDATION_OK then (0, registry, d\<lparr>vd_validation := validation\<rparr>)
          else if vg_live_count registry = GXOS_VEH_REGISTRY_CAPACITY
          then (0, registry, d\<lparr>vd_validation := GXOS_VEH_VALIDATION_REGISTRY_FULL\<rparr>)
          else if vg_next_registration_sequence registry = UINT64_MAX
          then (0, registry, d\<lparr>vd_validation := GXOS_VEH_VALIDATION_SEQUENCE_EXHAUSTED\<rparr>)
          else (case find_index (\<lambda>r. \<not> vr_occupied r) (vg_records registry) of
              None \<Rightarrow> (0, registry, d\<lparr>vd_validation := GXOS_VEH_VALIDATION_REGISTRY_FULL\<rparr>)
            | Some free_slot \<Rightarrow>
                let insertion_position = (if first = 0 then vg_live_count registry else 0);
                    order = shift_order insertion_position (vg_live_count registry) (vg_order registry);
                    handle = record_address records free_slot;
                    registry' = registry\<lparr>
                      vg_records := (vg_records registry)[free_slot :=
                        filled_record handle free_slot first callback
                          (vg_next_registration_sequence registry) d],
                      vg_next_registration_sequence := vg_next_registration_sequence registry + 1,
                      vg_order := order[insertion_position := free_slot],
                      vg_live_count := vg_live_count registry + 1\<rparr>
                in (handle, registry', d\<lparr>vd_validation := GXOS_VEH_VALIDATION_OK\<rparr>)))"

definition gxos_veh_registry_handle_is_live :: "GXOS_VEH_REGISTRY \<Rightarrow> u64 \<Rightarrow> bool" where
  "gxos_veh_registry_handle_is_live registry handle \<longleftrightarrow>
     handle \<noteq> 0 \<and> list_ex (\<lambda>r. vr_occupied r \<and> vr_opaque_handle r = handle) (vg_records registry)"

definition gxos_veh_registry_record :: "GXOS_VEH_REGISTRY \<Rightarrow> nat \<Rightarrow> GXOS_VEH_RECORD option" where
  "gxos_veh_registry_record registry slot =
     (if slot \<ge> GXOS_VEH_REGISTRY_CAPACITY then None else Some (vg_records registry ! slot))"

definition gxos_veh_registry_order_slot :: "GXOS_VEH_REGISTRY \<Rightarrow> nat \<Rightarrow> u32" where
  "gxos_veh_registry_order_slot registry position =
     (if position \<ge> vg_live_count registry then UINT32_MAX else of_nat (vg_order registry ! position))"

definition gxos_veh_registry_live_count :: "GXOS_VEH_REGISTRY \<Rightarrow> nat" where
  "gxos_veh_registry_live_count registry = vg_live_count registry"

definition gxos_veh_registry_dispatch_active :: "GXOS_VEH_REGISTRY \<Rightarrow> bool" where
  "gxos_veh_registry_dispatch_active registry = vg_dispatch_active registry"

definition gxos_veh_registry_allocation_count :: "GXOS_VEH_REGISTRY \<Rightarrow> u64" where
  "gxos_veh_registry_allocation_count registry = vg_allocation_count registry"

subsection \<open>Parsing the header of an image\<close>

text \<open>
  The loop over the section headers from number \<open>i\<close> on, with the number of those that are left. It writes the sections
  it has accepted even where a later one makes it fail.
\<close>

fun parse_sections ::
  "memory \<Rightarrow> u64 \<Rightarrow> u64 \<Rightarrow> u32 \<Rightarrow> nat \<Rightarrow> nat \<Rightarrow> GXOS_VEH_SECTION list \<Rightarrow> bool \<times> GXOS_VEH_SECTION list" where
  "parse_sections m headers image_base image_size_from_pe i 0 sections = (True, sections)"
| "parse_sections m headers image_base image_size_from_pe i (Suc n) sections =
    (let sec = headers + of_nat i * 40;
         virtual_size = gxos_veh_read_u32 m (sec + 8);
         virtual_address = gxos_veh_read_u32 m (sec + 12);
         raw_size = gxos_veh_read_u32 m (sec + 16);
         characteristics = gxos_veh_read_u32 m (sec + 36);
         extent = (if virtual_size > raw_size then virtual_size else raw_size);
         section_base = image_base + ucast virtual_address
     in if extent = 0 \<or> (ucast virtual_address :: u64) + ucast extent > ucast image_size_from_pe
            \<or> image_base > UINT64_MAX - ucast virtual_address
        then (False, sections)
        else if ucast extent > UINT64_MAX - section_base then (False, sections)
        else parse_sections m headers image_base image_size_from_pe (Suc i) n
               (sections[i := \<lparr>vs_base = section_base, vs_end = section_base + ucast extent,
                               vs_characteristics = characteristics,
                               vs_name = gxos_veh_copy_name m sec\<rparr>]))"

definition cleared_section :: "GXOS_VEH_SECTION \<Rightarrow> GXOS_VEH_SECTION" where
  "cleared_section sec = sec\<lparr>vs_base := 0, vs_end := 0, vs_characteristics := 0, vs_name := (vs_name sec)[0 := 0]\<rparr>"

definition gxos_veh_image_parse_pe ::
  "memory \<Rightarrow> GXOS_VEH_IMAGE \<Rightarrow> u64 \<Rightarrow> u64 \<Rightarrow> u64 \<Rightarrow> bool \<times> GXOS_VEH_IMAGE" where
  "gxos_veh_image_parse_pe m img identity base image_size =
    (if identity = 0 \<or> base = 0 \<or> image_size < 0x40 \<or> image_size > UINT64_MAX
        \<or> base > UINT64_MAX - image_size then (False, img)
     else if gxos_veh_read_u16 m base \<noteq> 0x5A4D then (False, img)
     else let nt_offset = ucast (gxos_veh_read_u32 m (base + 0x3C)) :: u64 in
       if \<not> gxos_veh_range_contains nt_offset 24 image_size then (False, img)
       else if m (base + nt_offset) \<noteq> 0x50 \<or> m (base + nt_offset + 1) \<noteq> 0x45
          \<or> m (base + nt_offset + 2) \<noteq> 0 \<or> m (base + nt_offset + 3) \<noteq> 0 then (False, img)
       else let section_count = gxos_veh_read_u16 m (base + nt_offset + 6);
                optional_size = gxos_veh_read_u16 m (base + nt_offset + 20) in
         if gxos_veh_read_u16 m (base + nt_offset + 24) \<noteq> 0x20B \<or> optional_size < 0xF0
             \<or> section_count = 0 \<or> unat section_count > GXOS_VEH_MAX_IMAGE_SECTIONS then (False, img)
         else if \<not> gxos_veh_range_contains (nt_offset + 24) (ucast optional_size) image_size then (False, img)
         else let image_size_from_pe = gxos_veh_read_u32 m (base + nt_offset + 24 + 0x38) in
           if image_size_from_pe = 0 \<or> ucast image_size_from_pe > image_size then (False, img)
           else let section_offset = nt_offset + 24 + ucast optional_size in
             if section_offset < nt_offset
                \<or> \<not> gxos_veh_range_contains section_offset (ucast section_count * 40) image_size then (False, img)
             else let img' = img\<lparr>vi_identity := identity, vi_image_base := base,
                                    vi_image_size := image_size, vi_section_count := unat section_count\<rparr>;
                      (ok, sections) = parse_sections m (base + section_offset) base image_size_from_pe 0
                                         (unat section_count) (vi_sections img)
               in if \<not> ok then (False, img'\<lparr>vi_sections := sections\<rparr>)
                  else (True, img'\<lparr>vi_sections := take (unat section_count) sections
                                       @ map cleared_section (drop (unat section_count) sections)\<rparr>))"

subsection \<open>Dispatch\<close>

text \<open>
  The loop over the snapshot of the order. Its bound is \<open>live_count\<close> of the registry, which the code reads again
  before each iteration; the entries of the snapshot past the count at entry are not initialised, so the loop runs
  over the snapshot and stops where the count of the registry says so.
\<close>

fun dispatch_loop ::
  "'w veh_invoker \<Rightarrow> nat \<Rightarrow> nat list \<Rightarrow> GXOS_VEH_REGISTRY \<Rightarrow> GXOS_VEH_DISPATCH_REPORT \<Rightarrow> 'w \<Rightarrow>
     GXOS_VEH_REGISTRY \<times> GXOS_VEH_DISPATCH_REPORT \<times> 'w" where
  "dispatch_loop invoke i [] registry report w =
     (registry\<lparr>vg_dispatch_active := False\<rparr>, report\<lparr>vp_final_continue_search := True\<rparr>, w)"
| "dispatch_loop invoke i (slot # snapshot) registry report w =
    (if i = vg_live_count registry
     then (registry\<lparr>vg_dispatch_active := False\<rparr>, report\<lparr>vp_final_continue_search := True\<rparr>, w)
     else
       let count = vr_invocation_count (vg_records registry ! slot) + 1;
           registry = registry\<lparr>vg_records := (vg_records registry)
             [slot := (vg_records registry ! slot)\<lparr>vr_invocation_count := count\<rparr>]\<rparr>;
           (result, registry, w) = invoke (vr_callback (vg_records registry ! slot)) registry w;
           registry = registry\<lparr>vg_records := (vg_records registry)
             [slot := (vg_records registry ! slot)\<lparr>vr_last_return_value := result\<rparr>]\<rparr>;
           invoked = vp_invoked_count report;
           report = report\<lparr>vp_invoked_slots := (vp_invoked_slots report)[invoked := slot],
             vp_invocation_numbers := (vp_invocation_numbers report)
               [invoked := vr_invocation_count (vg_records registry ! slot)],
             vp_return_values := (vp_return_values report)[invoked := result],
             vp_invoked_count := invoked + 1\<rparr>
       in if result = GXOS_EXCEPTION_CONTINUE_EXECUTION
          then (registry\<lparr>vg_dispatch_active := False\<rparr>,
                report\<lparr>vp_stopped_on_continue_execution := True, vp_final_continue_execution := True,
                       vp_final_slot := of_nat slot\<rparr>, w)
          else dispatch_loop invoke (Suc i) snapshot registry
                 (if result \<noteq> GXOS_EXCEPTION_CONTINUE_SEARCH
                  then report\<lparr>vp_invalid_return_count := vp_invalid_return_count report + 1\<rparr>
                  else report) w)"

definition cleared_report :: "GXOS_VEH_DISPATCH_REPORT \<Rightarrow> GXOS_VEH_DISPATCH_REPORT" where
  "cleared_report report =
     report\<lparr>vp_snapshot_count := 0, vp_invoked_count := 0, vp_invalid_return_count := 0,
       vp_stopped_on_continue_execution := False, vp_final_continue_search := False,
       vp_final_continue_execution := False, vp_final_slot := UINT32_MAX\<rparr>"

definition gxos_veh_dispatch ::
  "'w veh_invoker \<Rightarrow> bool \<Rightarrow> GXOS_VEH_REGISTRY \<Rightarrow> GXOS_VEH_DISPATCH_REPORT \<Rightarrow> 'w \<Rightarrow>
     bool \<times> GXOS_VEH_REGISTRY \<times> GXOS_VEH_DISPATCH_REPORT \<times> 'w" where
  "gxos_veh_dispatch invoke exception_pointers registry report w =
    (let report = cleared_report report
     in if \<not> exception_pointers \<or> \<not> gxos_veh_registry_valid registry \<or> vg_dispatch_active registry
        then (False, registry, report, w)
        else let snapshot = take (vg_live_count registry) (vg_order registry);
                 report = report\<lparr>
                   vp_snapshot_slots := snapshot @ drop (vg_live_count registry) (vp_snapshot_slots report),
                   vp_snapshot_count := vg_live_count registry\<rparr>
          in (True, dispatch_loop invoke 0 snapshot (registry\<lparr>vg_dispatch_active := True\<rparr>) report w))"

end
