(* ===== verification/Vectored_Handler_Correct.thy ===== *)
theory Vectored_Handler_Correct
  imports Vectored_Handler
begin

text \<open>
  What the registry of vectored handlers guarantees. The registry implements a list of callbacks: a registration adds at
  the front or at the back, a dispatch walks the list. \<open>veh_step\<close> is one call of the registry, by the loader or by a
  handler that runs; its rule for a dispatch lets every handler make calls of its own. \<open>veh_inv\<close> holds in every state.
\<close>

subsection \<open>The abstract view\<close>

definition handlers :: "GXOS_VEH_REGISTRY \<Rightarrow> u64 list" where
  "handlers r = map (\<lambda>slot. vr_callback (vg_records r ! slot)) (take (vg_live_count r) (vg_order r))"

definition callback_approved :: "GXOS_VEH_REGISTRY \<Rightarrow> u64 \<Rightarrow> bool" where
  "callback_approved r cb \<longleftrightarrow>
     (\<exists>img sec. Some img \<in> set (take (vg_image_count r) (vg_images r))
        \<and> sec \<in> set (take (vi_section_count img) (vi_sections img))
        \<and> vs_base sec \<le> cb \<and> cb < vs_end sec
        \<and> vs_characteristics sec AND GXOS_VEH_SECTION_EXECUTABLE \<noteq> 0
        \<and> vs_characteristics sec AND GXOS_VEH_SECTION_READABLE \<noteq> 0
        \<and> vs_characteristics sec AND GXOS_VEH_SECTION_WRITABLE = 0)"

definition veh_inv :: "u64 \<Rightarrow> GXOS_VEH_REGISTRY \<Rightarrow> bool" where
  "veh_inv records r \<longleftrightarrow>
     length (vg_records r) = 8 \<and> length (vg_order r) = 8 \<and> gxos_veh_registry_valid r
     \<and> (\<forall>i < 8. vr_occupied (vg_records r ! i) \<longrightarrow>
           vr_opaque_handle (vg_records r ! i) = record_address records i
           \<and> callback_approved r (vr_callback (vg_records r ! i)))"

text \<open>The records lie in memory without wrapping around its end, and not at the null address.\<close>

definition records_placed :: "u64 \<Rightarrow> bool" where
  "records_placed records \<longleftrightarrow> records \<noteq> 0 \<and> unat records + 8 * 112 \<le> 2 ^ 64"

inductive veh_step :: "u64 \<Rightarrow> GXOS_VEH_REGISTRY \<times> 'w \<Rightarrow> GXOS_VEH_REGISTRY \<times> 'w \<Rightarrow> bool" for records where
  configure: "veh_step records (r, w) (snd (gxos_veh_registry_configure_images r images n), w)"
| add: "veh_step records (r, w) (fst (snd (gxos_veh_registry_add records r first cb d)), w)"
| dispatch: "(\<And>cb s v. (veh_step records)\<^sup>*\<^sup>* (s, v) (snd (invoke cb s v))) \<Longrightarrow>
     gxos_veh_dispatch invoke ep r report w = (ok, r', report', w') \<Longrightarrow>
     veh_step records (r, w) (r', w')"

inductive_cases veh_stepE: "veh_step records (r, w) (r', w')"

definition veh_reachable :: "u64 \<Rightarrow> GXOS_VEH_REGISTRY \<Rightarrow> bool" where
  "veh_reachable records r \<longleftrightarrow>
     (\<exists>r0 w w'. (veh_step records)\<^sup>*\<^sup>* (gxos_veh_registry_init r0, w :: memory) (r, w'))"

subsection \<open>Handles and the order\<close>

lemma unat_record_address:
  assumes "records_placed records" "i < 8"
  shows "unat (record_address records i) = unat records + 112 * i"
proof -
  have m: "unat (112 * of_nat i :: u64) = 112 * i"
    using assms(2) unat_of_nat_u64 [of "112 * i"] by simp
  have "unat (records + 112 * of_nat i) = unat records + unat (112 * of_nat i :: u64)"
    by (rule unat_add_fits) (use assms m in \<open>simp add: records_placed_def\<close>)
  with m show ?thesis by (simp add: record_address_def)
qed

lemma record_address_nonzero: "records_placed records \<Longrightarrow> i < 8 \<Longrightarrow> record_address records i \<noteq> 0"
proof
  assume p: "records_placed records" "i < 8" and "record_address records i = 0"
  then have "unat records = 0" using unat_record_address [OF p] by simp
  with p(1) show False by (simp add: records_placed_def unat_eq_zero)
qed

lemma record_address_inj:
  "records_placed records \<Longrightarrow> i < 8 \<Longrightarrow> j < 8 \<Longrightarrow> record_address records i = record_address records j \<longleftrightarrow> i = j"
  unfolding unat_eq_iff [of "record_address records i"] by (simp add: unat_record_address)

lemma length_shift_order [simp]: "length (shift_order p i order) = length order"
proof (induction p i order rule: shift_order.induct)
  case (1 p i order)
  then show ?case by (cases "p < i") (simp_all add: shift_order.simps [of p i order])
qed

lemma nth_shift_order:
  "i < length order \<Longrightarrow> k < length order \<Longrightarrow>
     shift_order p i order ! k = (if p < k \<and> k \<le> i then order ! (k - 1) else order ! k)"
proof (induction p i order arbitrary: k rule: shift_order.induct)
  case (1 p i order)
  show ?case
  proof (cases "p < i")
    case True
    have "shift_order p i order ! k = shift_order p (i - 1) (order[i := order ! (i - 1)]) ! k"
      using True by (subst shift_order.simps) simp
    also have "\<dots> = (if p < k \<and> k \<le> i - 1 then order[i := order ! (i - 1)] ! (k - 1)
        else order[i := order ! (i - 1)] ! k)"
      using True 1 by simp
    also have "\<dots> = (if p < k \<and> k \<le> i then order ! (k - 1) else order ! k)"
      using True "1.prems" by (auto simp: nth_list_update)
    finally show ?thesis .
  next
    case False
    then show ?thesis by (subst shift_order.simps) auto
  qed
qed

lemma insert_order:
  assumes "n < length order" "p = (if first = (0 :: u32) then n else 0)"
  shows "take (Suc n) ((shift_order p n order)[p := s]) =
    (if first = 0 then take n order @ [s] else s # take n order)"
proof (rule nth_equalityI)
  show "length (take (Suc n) ((shift_order p n order)[p := s])) =
    length (if first = 0 then take n order @ [s] else s # take n order)"
    using assms(1) by simp
next
  fix k assume "k < length (take (Suc n) ((shift_order p n order)[p := s]))"
  then have k: "k < Suc n" "k < length order" using assms(1) by simp_all
  show "take (Suc n) ((shift_order p n order)[p := s]) ! k =
    (if first = 0 then take n order @ [s] else s # take n order) ! k"
    using assms k by (cases k) (auto simp: nth_list_update_if nth_shift_order nth_append)
qed

lemma set_insert_order:
  "n < length order \<Longrightarrow> p = (if first = (0 :: u32) then n else 0) \<Longrightarrow>
     set (take (Suc n) ((shift_order p n order)[p := s])) = insert s (set (take n order))"
  using insert_order [of n order p first s] by (cases "first = 0") auto

subsection \<open>An approved callback\<close>

lemma check_section_ok:
  assumes "check_section i sec d = (GXOS_VEH_VALIDATION_OK, d')"
  shows "vs_characteristics sec AND GXOS_VEH_SECTION_EXECUTABLE \<noteq> 0
    \<and> vs_characteristics sec AND GXOS_VEH_SECTION_READABLE \<noteq> 0
    \<and> vs_characteristics sec AND GXOS_VEH_SECTION_WRITABLE = 0"
  using assms by (simp add: check_section_def Let_def split: if_splits)

lemma find_callback_loop_ok:
  "find_callback_loop cb images d = (GXOS_VEH_VALIDATION_OK, d') \<Longrightarrow>
     \<exists>img sec. Some img \<in> set images \<and> sec \<in> set (take (vi_section_count img) (vi_sections img))
       \<and> vs_base sec \<le> cb \<and> cb < vs_end sec
       \<and> vs_characteristics sec AND GXOS_VEH_SECTION_EXECUTABLE \<noteq> 0
       \<and> vs_characteristics sec AND GXOS_VEH_SECTION_READABLE \<noteq> 0
       \<and> vs_characteristics sec AND GXOS_VEH_SECTION_WRITABLE = 0"
proof (induction cb images d rule: find_callback_loop.induct)
  case (1 cb d)
  then show ?case by simp
next
  case (2 cb images d)
  then show ?case by (simp add: gxos_veh_image_bounds_def)
next
  case (3 cb img images d)
  let ?secs = "take (vi_section_count img) (vi_sections img)"
  obtain res e where b: "gxos_veh_image_bounds (Some img) = (res, e)" by fastforce
  show ?case
  proof (cases "cb < vi_image_base img \<or> cb \<ge> e")
    case True
    with "3.prems" b have loop: "find_callback_loop cb images d = (GXOS_VEH_VALIDATION_OK, d')"
      and g: "res = GXOS_VEH_VALIDATION_OK" "\<not> list_ex (section_bad img e) ?secs"
      by (auto simp: Let_def split: if_splits)
    from "3.IH" [OF b [symmetric] refl refl _ _ True loop] g show ?thesis
      by (meson list.set_intros(2))
  next
    case False
    with "3.prems" b obtain i d1 where
      i: "find_index (\<lambda>sec. \<not> (cb < vs_base sec \<or> cb \<ge> vs_end sec)) ?secs = Some i"
      and ok: "check_section i (?secs ! i) d1 = (GXOS_VEH_VALIDATION_OK, d')"
      by (auto simp: Let_def split: if_splits option.splits)
    from find_index_SomeD [OF i] have "?secs ! i \<in> set ?secs" "vs_base (?secs ! i) \<le> cb" "cb < vs_end (?secs ! i)"
      by (auto simp del: nth_take simp: not_less)
    with check_section_ok [OF ok] show ?thesis by (meson list.set_intros(1))
  qed
qed

lemma find_callback_approved:
  "gxos_veh_find_callback r cb = (GXOS_VEH_VALIDATION_OK, d) \<Longrightarrow> callback_approved r cb"
  unfolding gxos_veh_find_callback_def callback_approved_def Let_def
  by (rule find_callback_loop_ok) (auto split: if_splits)

subsection \<open>Registration\<close>

lemma valid_attempts [simp]:
  "gxos_veh_registry_valid (r\<lparr>vg_registration_attempt_count := a\<rparr>) = gxos_veh_registry_valid r"
  by (simp add: gxos_veh_registry_valid_def record_valid_def order_valid_def)

lemma find_callback_attempts [simp]:
  "gxos_veh_find_callback (r\<lparr>vg_registration_attempt_count := a\<rparr>) cb = gxos_veh_find_callback r cb"
  by (simp add: gxos_veh_find_callback_def Let_def)

lemma handlers_attempts [simp]: "handlers (r\<lparr>vg_registration_attempt_count := a\<rparr>) = handlers r"
  by (simp add: handlers_def)

lemma approved_attempts [simp]:
  "callback_approved (r\<lparr>vg_registration_attempt_count := a\<rparr>) cb = callback_approved r cb"
  by (simp add: callback_approved_def)

lemma inv_attempts [simp]: "veh_inv records (r\<lparr>vg_registration_attempt_count := a\<rparr>) = veh_inv records r"
  by (simp add: veh_inv_def)

text \<open>The registry a successful registration leaves, and the two ways a registration can end.\<close>

definition registered ::
  "u64 \<Rightarrow> GXOS_VEH_REGISTRY \<Rightarrow> u32 \<Rightarrow> u64 \<Rightarrow> nat \<Rightarrow> GXOS_VEH_CALLBACK_DIAGNOSTICS \<Rightarrow> GXOS_VEH_REGISTRY" where
  "registered records r first cb s d =
     (let p = (if first = 0 then vg_live_count r else 0)
      in r\<lparr>vg_registration_attempt_count := vg_registration_attempt_count r + 1,
           vg_records := (vg_records r)[s := filled_record (record_address records s) s first cb
                           (vg_next_registration_sequence r) d],
           vg_next_registration_sequence := vg_next_registration_sequence r + 1,
           vg_order := (shift_order p (vg_live_count r) (vg_order r))[p := s],
           vg_live_count := vg_live_count r + 1\<rparr>)"

definition add_accepts :: "GXOS_VEH_REGISTRY \<Rightarrow> u64 \<Rightarrow> bool" where
  "add_accepts r cb \<longleftrightarrow> gxos_veh_registry_valid r \<and> \<not> vg_dispatch_active r
     \<and> fst (gxos_veh_find_callback r cb) = GXOS_VEH_VALIDATION_OK \<and> vg_live_count r \<noteq> 8
     \<and> vg_next_registration_sequence r \<noteq> UINT64_MAX \<and> find_index (\<lambda>x. \<not> vr_occupied x) (vg_records r) \<noteq> None"

lemma add_refused:
  assumes "\<not> add_accepts r cb"
  shows "\<exists>d'. gxos_veh_registry_add records r first cb d =
    (0, r\<lparr>vg_registration_attempt_count := vg_registration_attempt_count r + 1\<rparr>, d')
    \<and> vd_validation d' \<noteq> GXOS_VEH_VALIDATION_OK"
proof (cases "gxos_veh_find_callback r cb")
  case (Pair v dd)
  with assms show ?thesis
    unfolding gxos_veh_registry_add_def Let_def add_accepts_def
    by (auto split: option.splits)
qed

lemma add_accepted:
  assumes "add_accepts r cb"
  obtains s dd where "find_index (\<lambda>x. \<not> vr_occupied x) (vg_records r) = Some s"
    and "gxos_veh_find_callback r cb = (GXOS_VEH_VALIDATION_OK, dd)"
    and "gxos_veh_registry_add records r first cb d =
      (record_address records s, registered records r first cb s dd,
       dd\<lparr>vd_validation := GXOS_VEH_VALIDATION_OK\<rparr>)"
proof -
  obtain v dd where v: "gxos_veh_find_callback r cb = (v, dd)" by fastforce
  from assms obtain s where "find_index (\<lambda>x. \<not> vr_occupied x) (vg_records r) = Some s"
    by (auto simp: add_accepts_def)
  with that [of s dd] assms v show ?thesis
    by (simp add: gxos_veh_registry_add_def add_accepts_def registered_def Let_def)
qed

lemma registered_sel [simp]:
  "vg_records (registered records r first cb s d) =
     (vg_records r)[s := filled_record (record_address records s) s first cb (vg_next_registration_sequence r) d]"
  "vg_live_count (registered records r first cb s d) = Suc (vg_live_count r)"
  "vg_images (registered records r first cb s d) = vg_images r"
  "vg_image_count (registered records r first cb s d) = vg_image_count r"
  "vg_dispatch_active (registered records r first cb s d) = vg_dispatch_active r"
  "vg_next_registration_sequence (registered records r first cb s d) = vg_next_registration_sequence r + 1"
  "length (vg_order (registered records r first cb s d)) = length (vg_order r)"
  by (simp_all add: registered_def Let_def)

lemma filled_sel [simp]:
  "vr_occupied (filled_record h s first cb q d)" "vr_slot (filled_record h s first cb q d) = s"
  "vr_opaque_handle (filled_record h s first cb q d) = h"
  "vr_callback (filled_record h s first cb q d) = cb"
  "vr_registration_sequence (filled_record h s first cb q d) = q"
  by (simp_all add: filled_record_def)

lemma registered_order:
  assumes "vg_live_count r < 8" "length (vg_order r) = 8"
  shows "take (Suc (vg_live_count r)) (vg_order (registered records r first cb s d)) =
    (if first = 0 then take (vg_live_count r) (vg_order r) @ [s] else s # take (vg_live_count r) (vg_order r))"
  using assms by (simp add: registered_def Let_def insert_order)

lemma order_slots:
  assumes "veh_inv records r" "s \<in> set (take (vg_live_count r) (vg_order r))"
  shows "s < 8 \<and> vr_occupied (vg_records r ! s)"
proof -
  from assms(2) obtain i where i: "i < vg_live_count r" "s = vg_order r ! i"
    by (auto simp: in_set_conv_nth)
  with assms(1) have "order_valid r i" by (simp add: veh_inv_def gxos_veh_registry_valid_def)
  with i show ?thesis by (simp add: order_valid_def Let_def)
qed

lemma order_distinct:
  assumes "veh_inv records r"
  shows "distinct (take (vg_live_count r) (vg_order r))"
proof -
  have "vg_order r ! i \<noteq> vg_order r ! j" if "i < j" "j < vg_live_count r" for i j
  proof -
    from assms that have "order_valid r i" by (simp add: veh_inv_def gxos_veh_registry_valid_def)
    with that show ?thesis unfolding order_valid_def Let_def by metis
  qed
  then show ?thesis by (auto simp: distinct_conv_nth) (metis linorder_neqE_nat)
qed

lemma registered_handlers:
  assumes "veh_inv records r" "vg_live_count r < 8"
    and s: "find_index (\<lambda>x. \<not> vr_occupied x) (vg_records r) = Some s"
  shows "handlers (registered records r first cb s d) =
    (if first = 0 then handlers r @ [cb] else cb # handlers r)"
proof -
  have len: "length (vg_order r) = 8" "length (vg_records r) = 8" using assms(1) by (simp_all add: veh_inv_def)
  from find_index_SomeD [OF s] len have free: "s < 8" "\<not> vr_occupied (vg_records r ! s)" by simp_all
  have other: "vr_callback ((vg_records r)[s := x] ! t) = vr_callback (vg_records r ! t)"
    if "t \<in> set (take (vg_live_count r) (vg_order r))" for t x
    using order_slots [OF assms(1) that] free(2) by (cases "t = s") auto
  then have "map (\<lambda>t. vr_callback ((vg_records r)[s := x] ! t)) (take (vg_live_count r) (vg_order r)) = handlers r" for x
    by (simp add: handlers_def)
  with registered_order [OF assms(2) len(1)] free(1) len(2) show ?thesis
    by (simp add: handlers_def [of "registered records r first cb s d"])
qed

lemma approved_registered [simp]:
  "callback_approved (registered records r first cb s d) = callback_approved r"
  by (simp add: callback_approved_def fun_eq_iff)

lemma unat_succ_u64: "(x :: u64) \<noteq> UINT64_MAX \<Longrightarrow> unat (x + 1) = Suc (unat x)"
proof -
  assume "x \<noteq> UINT64_MAX"
  then have "unat x \<noteq> 2 ^ 64 - 1"
    by (simp add: unat_eq_iff unsigned_minus_1_eq_mask mask_eq_exp_minus_1)
  then have "unat x + unat (1 :: u64) < 2 ^ 64" using unat_lt_2p64 [of x] by (simp del: unat_lt_2p64)
  then show ?thesis by (simp add: unat_add_fits)
qed

lemma registered_records_valid:
  assumes "veh_inv records r" "records_placed records" "vg_next_registration_sequence r \<noteq> UINT64_MAX"
    and s: "s < 8" "\<not> vr_occupied (vg_records r ! s)" and i: "i < 8"
  shows "record_valid (registered records r first cb s d) i"
proof -
  let ?q = "vg_next_registration_sequence r"
  have len: "length (vg_records r) = 8" using assms(1) by (simp add: veh_inv_def)
  have q0: "?q \<noteq> 0" using assms(1) by (simp add: veh_inv_def gxos_veh_registry_valid_def)
  have q: "x < ?q + 1 \<longleftrightarrow> x \<le> ?q" for x
    using unat_succ_u64 [OF assms(3)] by (auto simp: word_less_nat_alt word_le_nat_alt)
  have h: "vr_opaque_handle (vg_records r ! j) = record_address records j" "vr_registration_sequence (vg_records r ! j) \<noteq> 0"
      "vr_registration_sequence (vg_records r ! j) < ?q"
    if "j < 8" "vr_occupied (vg_records r ! j)" for j
    using assms(1) that by (auto simp: veh_inv_def gxos_veh_registry_valid_def record_valid_def Let_def)
  have v: "record_valid r i" using assms(1) i by (simp add: veh_inv_def gxos_veh_registry_valid_def)
  show ?thesis
  proof (cases "i = s")
    case True
    have "record_address records j \<noteq> record_address records s \<and> vr_registration_sequence (vg_records r ! j) \<noteq> ?q"
      if "j < 8" "s < j" "vr_occupied (vg_records r ! j)" for j
      using h(3) [OF that(1,3)] record_address_inj [OF assms(2) that(1) s(1)] that(2) by auto
    with True s len q0 h(1) record_address_nonzero [OF assms(2) s(1)] show ?thesis
      by (simp add: record_valid_def Let_def q)
  next
    case False
    have "record_address records s \<noteq> record_address records i \<and> ?q \<noteq> vr_registration_sequence (vg_records r ! i)"
      if "vr_occupied (vg_records r ! i)"
      using h(3) [OF i that] record_address_inj [OF assms(2) s(1) i] False by auto
    with v False s len h [OF i] show ?thesis
      by (auto simp: record_valid_def Let_def q nth_list_update_if intro: less_imp_le)
  qed
qed

lemma registered_order_valid:
  assumes "veh_inv records r" "records_placed records" "vg_live_count r < 8"
    and s: "s < 8" "\<not> vr_occupied (vg_records r ! s)" and i: "i < Suc (vg_live_count r)"
  shows "order_valid (registered records r first cb s d) i"
proof -
  let ?r = "registered records r first cb s d"
  let ?new = "take (Suc (vg_live_count r)) (vg_order ?r)"
  have len: "length (vg_records r) = 8" "length (vg_order r) = 8" using assms(1) by (simp_all add: veh_inv_def)
  note ord = registered_order [OF assms(3) len(2), of records first cb s d]
  have notin: "s \<notin> set (take (vg_live_count r) (vg_order r))" using order_slots [OF assms(1)] s(2) by auto
  have dist: "distinct ?new" unfolding ord using notin order_distinct [OF assms(1)] by simp
  have sl: "t < 8 \<and> vr_occupied (vg_records ?r ! t) \<and> vr_opaque_handle (vg_records ?r ! t) \<noteq> 0" if "t \<in> set ?new" for t
  proof (cases "t = s")
    case True
    with s(1) len record_address_nonzero [OF assms(2) s(1)] show ?thesis by simp
  next
    case False
    with that have "t \<in> set (take (vg_live_count r) (vg_order r))" unfolding ord by (auto split: if_splits)
    from order_slots [OF assms(1) this] False assms(1) record_address_nonzero [OF assms(2)] show ?thesis
      by (auto simp: veh_inv_def)
  qed
  have n: "?new ! k = vg_order ?r ! k" if "k < Suc (vg_live_count r)" for k using that by simp
  have ln: "length ?new = Suc (vg_live_count r)" using assms(3) len by simp
  have "vg_order ?r ! i \<in> set ?new" using nth_mem [of i ?new] n [OF i] ln i by metis
  moreover have "vg_order ?r ! j \<noteq> vg_order ?r ! i" if "j < Suc (vg_live_count r)" "i < j" for j
    using nth_eq_iff_index_eq [OF dist, of j i] n [OF i] n [OF that(1)] ln i that
    by (metis less_irrefl)
  ultimately show ?thesis using sl by (simp add: order_valid_def Let_def)
qed

lemma registered_inv:
  assumes "veh_inv records r" "records_placed records" "add_accepts r cb"
    and s: "find_index (\<lambda>x. \<not> vr_occupied x) (vg_records r) = Some s"
    and d: "gxos_veh_find_callback r cb = (GXOS_VEH_VALIDATION_OK, d)"
  shows "veh_inv records (registered records r first cb s d)"
proof -
  let ?r = "registered records r first cb s d"
  have len: "length (vg_records r) = 8" "length (vg_order r) = 8" using assms(1) by (simp_all add: veh_inv_def)
  have live: "vg_live_count r < 8" and q: "vg_next_registration_sequence r \<noteq> UINT64_MAX"
    using assms(1,3) by (auto simp: add_accepts_def veh_inv_def gxos_veh_registry_valid_def)
  from find_index_SomeD [OF s] len have free: "s < 8" "\<not> vr_occupied (vg_records r ! s)" by simp_all
  have count: "live_sum vr_occupied (\<lambda>_. 1) (vg_records ?r) = Suc (vg_live_count r)"
    using live_sum_insert [of s "vg_records r" vr_occupied] free len assms(1)
    by (simp add: veh_inv_def gxos_veh_registry_valid_def)
  have tail: "vg_order ?r ! i < 8" if "i < 8" for i
  proof -
    have "vg_order r ! k < 8" if "k < 8" for k
      using assms(1) that by (cases "k < vg_live_count r")
        (auto simp: veh_inv_def gxos_veh_registry_valid_def order_valid_def Let_def)
    with that free(1) live len show ?thesis
      by (auto simp: registered_def Let_def nth_list_update_if nth_shift_order)
  qed
  have "vg_next_registration_sequence r + 1 \<noteq> 0" using unat_succ_u64 [OF q] by auto
  then have "gxos_veh_registry_valid ?r"
    using assms(1) live count tail registered_records_valid [OF assms(1,2) q free]
      registered_order_valid [OF assms(1,2) live free]
    by (simp add: veh_inv_def gxos_veh_registry_valid_def)
  moreover have "vr_opaque_handle (vg_records ?r ! i) = record_address records i \<and>
      callback_approved r (vr_callback (vg_records ?r ! i))" if "i < 8" "vr_occupied (vg_records ?r ! i)" for i
    using that assms(1) find_callback_approved [OF d] len free(1)
    by (cases "i = s") (auto simp: veh_inv_def)
  ultimately show ?thesis using len by (simp add: veh_inv_def)
qed

subsection \<open>Initialisation and configuration\<close>

lemma init_inv: "veh_inv records (gxos_veh_registry_init r)"
proof -
  have "live_sum vr_occupied (\<lambda>_. Suc 0) (vg_records (gxos_veh_registry_init r)) = 0"
    by (rule live_sum_none) (auto simp: gxos_veh_registry_init_def)
  then show ?thesis
    by (simp add: veh_inv_def gxos_veh_registry_init_def gxos_veh_registry_valid_def record_valid_def Let_def)
qed

lemma veh_configure_inv:
  assumes "veh_inv records r"
  shows "veh_inv records (snd (gxos_veh_registry_configure_images r images n))"
proof (cases "fst (gxos_veh_registry_configure_images r images n)")
  case False
  then have "snd (gxos_veh_registry_configure_images r images n) = r"
    by (auto simp: gxos_veh_registry_configure_images_def Let_def)
  with assms show ?thesis by simp
next
  case True
  then have live: "vg_live_count r = 0" "n \<le> 2"
    by (auto simp: gxos_veh_registry_configure_images_def Let_def split: if_splits)
  then have none: "\<not> vr_occupied (vg_records r ! i)" if "i < 8" for i
    using assms that live_sum_zeroD [of vr_occupied "\<lambda>_. 1" "vg_records r" "vg_records r ! i"]
    by (auto simp: veh_inv_def gxos_veh_registry_valid_def)
  obtain xs where "snd (gxos_veh_registry_configure_images r images n) =
      r\<lparr>vg_images := xs, vg_image_count := n\<rparr>"
    using True by (auto simp: gxos_veh_registry_configure_images_def Let_def split: if_splits)
  with assms live none show ?thesis
    by (simp add: veh_inv_def gxos_veh_registry_valid_def record_valid_def order_valid_def)
qed

subsection \<open>Dispatch\<close>

definition veh_same :: "GXOS_VEH_REGISTRY \<Rightarrow> GXOS_VEH_REGISTRY \<Rightarrow> bool" where
  "veh_same r r' \<longleftrightarrow>
     vg_order r' = vg_order r \<and> vg_images r' = vg_images r \<and> vg_image_count r' = vg_image_count r
     \<and> vg_live_count r' = vg_live_count r
     \<and> vg_next_registration_sequence r' = vg_next_registration_sequence r
     \<and> length (vg_records r') = length (vg_records r)
     \<and> (\<forall>i < length (vg_records r).
          vr_occupied (vg_records r' ! i) = vr_occupied (vg_records r ! i)
          \<and> vr_slot (vg_records r' ! i) = vr_slot (vg_records r ! i)
          \<and> vr_callback (vg_records r' ! i) = vr_callback (vg_records r ! i)
          \<and> vr_opaque_handle (vg_records r' ! i) = vr_opaque_handle (vg_records r ! i)
          \<and> vr_registration_sequence (vg_records r' ! i) = vr_registration_sequence (vg_records r ! i))"

lemma veh_same_refl [simp]: "veh_same r r"
  by (simp add: veh_same_def)

lemma veh_same_trans: "veh_same r s \<Longrightarrow> veh_same s t \<Longrightarrow> veh_same r t"
  by (simp add: veh_same_def)

lemma veh_same_simps [simp]:
  "veh_same r (s\<lparr>vg_registration_attempt_count := a\<rparr>) = veh_same r s"
  "veh_same r (s\<lparr>vg_dispatch_active := b\<rparr>) = veh_same r s"
  by (simp_all add: veh_same_def)

lemma veh_same_record:
  "veh_same r s \<Longrightarrow> veh_same r (s\<lparr>vg_records := (vg_records s)[i := (vg_records s ! i)\<lparr>vr_invocation_count := a\<rparr>]\<rparr>)"
  "veh_same r s \<Longrightarrow> veh_same r (s\<lparr>vg_records := (vg_records s)[i := (vg_records s ! i)\<lparr>vr_last_return_value := b\<rparr>]\<rparr>)"
  by (auto simp: veh_same_def nth_list_update_if)

lemma live_sum_same:
  "length xs = length ys \<Longrightarrow> (\<And>i. i < length xs \<Longrightarrow> P (xs ! i) = P (ys ! i)) \<Longrightarrow>
     live_sum P (\<lambda>_. c) xs = live_sum P (\<lambda>_. c) ys"
  by (rule live_sum_cong) auto

lemma veh_same_inv:
  assumes "veh_same r r'" "veh_inv records r"
  shows "veh_inv records r'" and "handlers r' = handlers r"
proof -
  have len: "length (vg_records r) = 8" "length (vg_records r') = 8"
    using assms by (simp_all add: veh_inv_def veh_same_def)
  have f: "vg_order r' = vg_order r" "vg_images r' = vg_images r" "vg_image_count r' = vg_image_count r"
      "vg_live_count r' = vg_live_count r" "vg_next_registration_sequence r' = vg_next_registration_sequence r"
    using assms(1) by (simp_all add: veh_same_def)
  have e: "vr_occupied (vg_records r' ! i) = vr_occupied (vg_records r ! i)"
      "vr_slot (vg_records r' ! i) = vr_slot (vg_records r ! i)"
      "vr_callback (vg_records r' ! i) = vr_callback (vg_records r ! i)"
      "vr_opaque_handle (vg_records r' ! i) = vr_opaque_handle (vg_records r ! i)"
      "vr_registration_sequence (vg_records r' ! i) = vr_registration_sequence (vg_records r ! i)"
    if "i < 8" for i
    using assms(1) that len by (simp_all add: veh_same_def)
  have rv: "record_valid r' i" if "i < 8" for i
  proof -
    have "record_valid r i" using assms(2) that by (simp add: veh_inv_def gxos_veh_registry_valid_def)
    with that show ?thesis by (simp add: record_valid_def Let_def e f)
  qed
  have ov: "order_valid r' i" if "i < vg_live_count r" for i
    using assms(2) that by (auto simp: veh_inv_def gxos_veh_registry_valid_def order_valid_def Let_def e f)
  have "live_sum vr_occupied (\<lambda>_. 1) (vg_records r') = live_sum vr_occupied (\<lambda>_. 1) (vg_records r)"
    by (rule live_sum_same) (simp_all add: len e)
  with rv ov assms(2) have "gxos_veh_registry_valid r'"
    by (simp add: veh_inv_def gxos_veh_registry_valid_def f)
  moreover have "callback_approved r' = callback_approved r"
    by (simp add: callback_approved_def fun_eq_iff f)
  ultimately show "veh_inv records r'"
    using assms(2) by (simp add: veh_inv_def e f len)
  show "handlers r' = handlers r"
    using order_slots [OF assms(2)] by (simp add: handlers_def e f)
qed

text \<open>A handler that keeps to the registry's own operations changes nothing but the count of attempts.\<close>

lemma active_step:
  "veh_step records (r, w) (r', w') \<Longrightarrow> vg_dispatch_active r \<Longrightarrow>
     \<exists>a. r' = r\<lparr>vg_registration_attempt_count := a\<rparr>"
proof (erule veh_stepE)
  fix images n assume "vg_dispatch_active r" "r' = snd (gxos_veh_registry_configure_images r images n)"
  then have "r' = r\<lparr>vg_registration_attempt_count := vg_registration_attempt_count r\<rparr>"
    by (simp add: gxos_veh_registry_configure_images_def)
  then show ?thesis by blast
next
  fix first cb d assume "vg_dispatch_active r" "r' = fst (snd (gxos_veh_registry_add records r first cb d))"
  then show ?thesis by (auto simp: gxos_veh_registry_add_def Let_def)
next
  fix invoke ep report ok report'
  assume "vg_dispatch_active r" "gxos_veh_dispatch invoke ep r report w = (ok, r', report', w')"
  then have "r' = r\<lparr>vg_registration_attempt_count := vg_registration_attempt_count r\<rparr>"
    by (simp add: gxos_veh_dispatch_def Let_def)
  then show ?thesis by blast
qed

lemma active_steps:
  assumes "(veh_step records)\<^sup>*\<^sup>* (r, w) (r', w')" "vg_dispatch_active r"
  shows "\<exists>a. r' = r\<lparr>vg_registration_attempt_count := a\<rparr>"
  using assms(1)
proof (induction rule: rtranclp_induct2)
  case refl
  have "r = r\<lparr>vg_registration_attempt_count := vg_registration_attempt_count r\<rparr>" by simp
  then show ?case by blast
next
  case (step s v s' v')
  then obtain a where "s = r\<lparr>vg_registration_attempt_count := a\<rparr>" by blast
  with active_step [OF step.hyps(2)] assms(2) show ?case by auto
qed

definition well_behaved :: "'w veh_invoker \<Rightarrow> bool" where
  "well_behaved invoke \<longleftrightarrow>
     (\<forall>cb s v. vg_dispatch_active s \<longrightarrow> (\<exists>a. fst (snd (invoke cb s v)) = s\<lparr>vg_registration_attempt_count := a\<rparr>))"

lemma dispatch_loop_same:
  assumes "well_behaved invoke"
  shows "dispatch_loop invoke i snapshot r report w = (r', report', w') \<Longrightarrow> vg_dispatch_active r \<Longrightarrow>
    veh_same r r' \<and> \<not> vg_dispatch_active r'"
proof (induction snapshot arbitrary: i r report w)
  case Nil
  then show ?case by auto
next
  case (Cons slot snapshot)
  let ?c = "vr_invocation_count (vg_records r ! slot) + 1"
  let ?r1 = "r\<lparr>vg_records := (vg_records r)[slot := (vg_records r ! slot)\<lparr>vr_invocation_count := ?c\<rparr>]\<rparr>"
  obtain result r2 v where inv: "invoke (vr_callback (vg_records ?r1 ! slot)) ?r1 w = (result, r2, v)"
    by (metis prod_cases3)
  have act: "vg_dispatch_active ?r1" using Cons.prems(2) by simp
  with assms inv obtain a where r2: "r2 = ?r1\<lparr>vg_registration_attempt_count := a\<rparr>"
    unfolding well_behaved_def by (metis fst_conv snd_conv)
  let ?r3 = "r2\<lparr>vg_records := (vg_records r2)[slot := (vg_records r2 ! slot)\<lparr>vr_last_return_value := result\<rparr>]\<rparr>"
  have same: "veh_same r ?r3" unfolding r2 by (intro veh_same_record) (simp add: veh_same_record)
  have act3: "vg_dispatch_active ?r3" using act r2 by simp
  show ?case
  proof (cases "i = vg_live_count r \<or> result = GXOS_EXCEPTION_CONTINUE_EXECUTION")
    case True
    with Cons.prems(1) inv same show ?thesis by (auto simp: Let_def split: if_splits)
  next
    case False
    with Cons.prems(1) inv obtain rep where "dispatch_loop invoke (Suc i) snapshot ?r3 rep v = (r', report', w')"
      by (auto simp: Let_def split: if_splits)
    from Cons.IH [OF this act3] same show ?thesis by (blast intro: veh_same_trans)
  qed
qed

lemma dispatch_same:
  assumes "well_behaved invoke" "gxos_veh_dispatch invoke ep r report w = (ok, r', report', w')"
  shows "veh_same r r' \<and> (vg_dispatch_active r \<longrightarrow> vg_dispatch_active r') \<and> (ok \<longrightarrow> \<not> vg_dispatch_active r')"
proof (cases "\<not> ep \<or> \<not> gxos_veh_registry_valid r \<or> vg_dispatch_active r")
  case True
  with assms(2) show ?thesis by (simp add: gxos_veh_dispatch_def Let_def split: if_splits)
next
  case False
  with assms(2) obtain snap rep where
    "dispatch_loop invoke 0 snap (r\<lparr>vg_dispatch_active := True\<rparr>) rep w = (r', report', w')"
    by (auto simp: gxos_veh_dispatch_def Let_def)
  from dispatch_loop_same [OF assms(1) this] False show ?thesis by (simp add: veh_same_def)
qed

lemma step_inv:
  assumes "veh_step records (r, w) (r', w')" "veh_inv records r" "records_placed records"
  shows "veh_inv records r'"
  using assms(1)
proof (rule veh_stepE)
  fix images n assume "r' = snd (gxos_veh_registry_configure_images r images n)"
  with veh_configure_inv [OF assms(2)] show ?thesis by simp
next
  fix first cb d assume r': "r' = fst (snd (gxos_veh_registry_add records r first cb d))"
  show ?thesis
  proof (cases "add_accepts r cb")
    case True
    obtain s dd where "find_index (\<lambda>x. \<not> vr_occupied x) (vg_records r) = Some s"
        "gxos_veh_find_callback r cb = (GXOS_VEH_VALIDATION_OK, dd)"
        "r' = registered records r first cb s dd"
      using add_accepted [OF True, of records first d] r' by (metis fst_conv snd_conv)
    with registered_inv [OF assms(2,3) True] show ?thesis by simp
  next
    case False
    with add_refused [OF False, of records first d] r' assms(2) show ?thesis by auto
  qed
next
  fix invoke ep report ok report'
  assume steps: "\<And>cb s v. (veh_step records)\<^sup>*\<^sup>* (s, v) (snd (invoke cb s v))"
    and d: "gxos_veh_dispatch invoke ep r report w = (ok, r', report', w')"
  have "\<exists>a. fst (snd (invoke cb s v)) = s\<lparr>vg_registration_attempt_count := a\<rparr>" if "vg_dispatch_active s" for cb s v
    using active_steps [of records s v "fst (snd (invoke cb s v))" "snd (snd (invoke cb s v))"] steps [of s v cb] that
    by simp
  then have "well_behaved invoke" by (simp add: well_behaved_def)
  from dispatch_same [OF this d] veh_same_inv(1) [OF _ assms(2)] show ?thesis by blast
qed

lemma veh_reachable_inv: "veh_reachable records r \<Longrightarrow> records_placed records \<Longrightarrow> veh_inv records r"
proof -
  assume p: "records_placed records" and "veh_reachable records r"
  then obtain r0 w w' where "(veh_step records)\<^sup>*\<^sup>* (gxos_veh_registry_init r0, w :: memory) (r, w')"
    by (auto simp: veh_reachable_def)
  then show ?thesis
  proof (induction rule: rtranclp_induct2)
    case refl
    show ?case by (rule init_inv)
  next
    case (step s v s' v')
    from step.hyps(2) step.IH p show ?case by (rule step_inv)
  qed
qed

subsection \<open>Dispatch as a walk over the list\<close>

fun run_handlers :: "(u64 \<Rightarrow> 'w \<Rightarrow> u32 \<times> 'w) \<Rightarrow> u64 list \<Rightarrow> 'w \<Rightarrow> u32 list \<times> 'w" where
  "run_handlers f [] w = ([], w)"
| "run_handlers f (cb # cbs) w =
    (if fst (f cb w) = GXOS_EXCEPTION_CONTINUE_EXECUTION then ([fst (f cb w)], snd (f cb w))
     else (fst (f cb w) # fst (run_handlers f cbs (snd (f cb w))), snd (run_handlers f cbs (snd (f cb w)))))"

definition implements :: "'w veh_invoker \<Rightarrow> (u64 \<Rightarrow> 'w \<Rightarrow> u32 \<times> 'w) \<Rightarrow> bool" where
  "implements invoke f \<longleftrightarrow>
     (\<forall>cb s v. \<exists>a. invoke cb s v = (fst (f cb v), s\<lparr>vg_registration_attempt_count := a\<rparr>, snd (f cb v)))"

lemma implements_well_behaved: "implements invoke f \<Longrightarrow> well_behaved invoke"
  unfolding implements_def well_behaved_def by (metis fst_conv snd_conv)

definition report_after :: "GXOS_VEH_DISPATCH_REPORT \<Rightarrow> nat list \<Rightarrow> u32 list \<Rightarrow> GXOS_VEH_DISPATCH_REPORT \<Rightarrow> bool" where
  "report_after report snapshot rs report' \<longleftrightarrow>
     (let i = vp_invoked_count report; stopped = (rs \<noteq> [] \<and> last rs = GXOS_EXCEPTION_CONTINUE_EXECUTION)
      in vp_invoked_count report' = i + length rs
         \<and> take (i + length rs) (vp_return_values report') = take i (vp_return_values report) @ rs
         \<and> take (i + length rs) (vp_invoked_slots report') = take i (vp_invoked_slots report) @ take (length rs) snapshot
         \<and> vp_invalid_return_count report' = vp_invalid_return_count report
              + length (filter (\<lambda>x. x \<noteq> GXOS_EXCEPTION_CONTINUE_SEARCH \<and> x \<noteq> GXOS_EXCEPTION_CONTINUE_EXECUTION) rs)
         \<and> vp_stopped_on_continue_execution report' = (vp_stopped_on_continue_execution report \<or> stopped)
         \<and> vp_final_continue_search report' = (vp_final_continue_search report \<or> \<not> stopped)
         \<and> vp_final_slot report' = (if stopped then of_nat (snapshot ! (length rs - 1)) else vp_final_slot report)
         \<and> vp_snapshot_slots report' = vp_snapshot_slots report \<and> vp_snapshot_count report' = vp_snapshot_count report)"

lemma run_handlers_length: "length (fst (run_handlers f cbs w)) \<le> length cbs"
  by (induction cbs arbitrary: w) auto

lemma run_stop:
  "fst (run_handlers f cbs w) \<noteq> [] \<and> last (fst (run_handlers f cbs w)) = GXOS_EXCEPTION_CONTINUE_EXECUTION \<longleftrightarrow>
     GXOS_EXCEPTION_CONTINUE_EXECUTION \<in> set (fst (run_handlers f cbs w))"
  by (induction cbs arbitrary: w) auto

lemma take_Suc_update: "i < length xs \<Longrightarrow> take (Suc i) (xs[i := x]) = take i xs @ [x]"
  by (simp add: take_Suc_conv_app_nth)

lemma report_after_Cons:
  assumes "report_after report2 snapshot rs report'" "res \<noteq> GXOS_EXCEPTION_CONTINUE_EXECUTION"
    and "vp_invoked_count report2 = Suc (vp_invoked_count report)"
    and "take (Suc (vp_invoked_count report)) (vp_return_values report2) =
      take (vp_invoked_count report) (vp_return_values report) @ [res]"
    and "take (Suc (vp_invoked_count report)) (vp_invoked_slots report2) =
      take (vp_invoked_count report) (vp_invoked_slots report) @ [slot]"
    and "vp_invalid_return_count report2 =
      vp_invalid_return_count report + (if res \<noteq> GXOS_EXCEPTION_CONTINUE_SEARCH then 1 else 0)"
    and "vp_stopped_on_continue_execution report2 = vp_stopped_on_continue_execution report"
    and "vp_final_continue_search report2 = vp_final_continue_search report"
    and "vp_final_slot report2 = vp_final_slot report"
    and "vp_snapshot_slots report2 = vp_snapshot_slots report" "vp_snapshot_count report2 = vp_snapshot_count report"
  shows "report_after report (slot # snapshot) (res # rs) report'"
proof -
  have nth: "(slot # snapshot) ! length rs = snapshot ! (length rs - 1)" if "rs \<noteq> []"
    using that by (cases rs) simp_all
  show ?thesis
    using assms nth by (cases "rs = []") (simp_all add: report_after_def Let_def)
qed

lemma dispatch_loop_run:
  assumes "implements invoke f"
  shows "dispatch_loop invoke i snapshot r report w = (r', report', w') \<Longrightarrow>
    i + length snapshot = vg_live_count r \<Longrightarrow> vp_invoked_count report = i \<Longrightarrow>
    i + length snapshot \<le> length (vp_return_values report) \<Longrightarrow>
    i + length snapshot \<le> length (vp_invoked_slots report) \<Longrightarrow>
    w' = snd (run_handlers f (map (\<lambda>s. vr_callback (vg_records r ! s)) snapshot) w) \<and>
    report_after report snapshot (fst (run_handlers f (map (\<lambda>s. vr_callback (vg_records r ! s)) snapshot) w)) report'"
proof (induction snapshot arbitrary: i r report w)
  case Nil
  then show ?case by (auto simp: report_after_def Let_def)
next
  case (Cons slot snapshot)
  let ?cb = "vr_callback (vg_records r ! slot)"
  let ?c = "vr_invocation_count (vg_records r ! slot) + 1"
  let ?r1 = "r\<lparr>vg_records := (vg_records r)[slot := (vg_records r ! slot)\<lparr>vr_invocation_count := ?c\<rparr>]\<rparr>"
  have cb1: "vr_callback (vg_records ?r1 ! slot) = ?cb" by (simp add: nth_list_update_if)
  obtain a where inv: "invoke ?cb ?r1 w = (fst (f ?cb w), ?r1\<lparr>vg_registration_attempt_count := a\<rparr>, snd (f ?cb w))"
    using assms unfolding implements_def by blast
  let ?res = "fst (f ?cb w)" and ?v = "snd (f ?cb w)"
  let ?r2 = "?r1\<lparr>vg_registration_attempt_count := a\<rparr>"
  let ?r3 = "?r2\<lparr>vg_records := (vg_records ?r2)[slot := (vg_records ?r2 ! slot)\<lparr>vr_last_return_value := ?res\<rparr>]\<rparr>"
  let ?rep = "report\<lparr>vp_invoked_slots := (vp_invoked_slots report)[i := slot],
      vp_invocation_numbers := (vp_invocation_numbers report)[i := vr_invocation_count (vg_records ?r3 ! slot)],
      vp_return_values := (vp_return_values report)[i := ?res], vp_invoked_count := i + 1\<rparr>"
  have cbs: "map (\<lambda>s. vr_callback (vg_records ?r3 ! s)) xs = map (\<lambda>s. vr_callback (vg_records r ! s)) xs" for xs
    by (simp add: nth_list_update_if)
  have i: "i \<noteq> vg_live_count r" "i < length (vp_return_values report)" "i < length (vp_invoked_slots report)"
    using Cons.prems by simp_all
  show ?case
  proof (cases "?res = GXOS_EXCEPTION_CONTINUE_EXECUTION")
    case True
    with Cons.prems(1,3) i(1) inv cb1 have
      "report' = ?rep\<lparr>vp_stopped_on_continue_execution := True, vp_final_continue_execution := True,
          vp_final_slot := of_nat slot\<rparr>" "w' = ?v"
      by (auto simp: Let_def)
    with True i Cons.prems(3) show ?thesis
      by (simp add: report_after_def Let_def take_Suc_update)
  next
    case False
    let ?rep2 = "if ?res \<noteq> GXOS_EXCEPTION_CONTINUE_SEARCH
      then ?rep\<lparr>vp_invalid_return_count := vp_invalid_return_count report + 1\<rparr> else ?rep"
    let ?run = "run_handlers f (map (\<lambda>s. vr_callback (vg_records r ! s)) snapshot) ?v"
    have loop: "dispatch_loop invoke (Suc i) snapshot ?r3 ?rep2 ?v = (r', report', w')"
      using Cons.prems(1,3) i(1) inv cb1 False by (simp add: Let_def cong: if_cong)
    have IH: "w' = snd ?run \<and> report_after ?rep2 snapshot (fst ?run) report'"
      using Cons.IH [OF loop] Cons.prems(2-5) unfolding cbs by simp
    have "report_after report (slot # snapshot) (?res # fst ?run) report'"
      by (rule report_after_Cons [OF conjunct2 [OF IH] False]) (use i Cons.prems(3) in \<open>simp_all add: take_Suc_update\<close>)
    with IH False show ?thesis by simp
  qed
qed

subsection \<open>The guarantees\<close>

lemma inv_basic:
  assumes "veh_inv records r"
  shows "vg_live_count r \<le> 8" "length (handlers r) = vg_live_count r" "gxos_veh_registry_valid r"
  using assms by (auto simp: veh_inv_def gxos_veh_registry_valid_def handlers_def)

lemma handle_live_registered:
  assumes "veh_inv records r" "records_placed records"
    and s: "find_index (\<lambda>x. \<not> vr_occupied x) (vg_records r) = Some s"
  shows "\<not> gxos_veh_registry_handle_is_live r (record_address records s)"
    and "gxos_veh_registry_handle_is_live (registered records r first cb s d) h \<longleftrightarrow>
      h = record_address records s \<or> gxos_veh_registry_handle_is_live r h"
proof -
  have len: "length (vg_records r) = 8" using assms(1) by (simp add: veh_inv_def)
  from find_index_SomeD [OF s] len have free: "s < 8" "\<not> vr_occupied (vg_records r ! s)" by simp_all
  have live: "gxos_veh_registry_handle_is_live r x \<longleftrightarrow> (\<exists>i < 8. vr_occupied (vg_records r ! i) \<and> x = record_address records i)" for x
    using assms(1) record_address_nonzero [OF assms(2)] len
    by (auto simp: gxos_veh_registry_handle_is_live_def list_ex_length veh_inv_def)
  show "\<not> gxos_veh_registry_handle_is_live r (record_address records s)"
    unfolding live using free record_address_inj [OF assms(2)] by metis
  let ?r = "registered records r first cb s d"
  have "gxos_veh_registry_handle_is_live ?r h \<longleftrightarrow> h \<noteq> 0 \<and> (\<exists>i < 8. vr_occupied (vg_records ?r ! i) \<and> vr_opaque_handle (vg_records ?r ! i) = h)"
    using len by (simp add: gxos_veh_registry_handle_is_live_def list_ex_length)
  also have "\<dots> \<longleftrightarrow> h \<noteq> 0 \<and> (h = record_address records s \<or> (\<exists>i < 8. vr_occupied (vg_records r ! i) \<and> vr_opaque_handle (vg_records r ! i) = h))"
    using free len by (auto simp: nth_list_update_if)
  finally show "gxos_veh_registry_handle_is_live ?r h \<longleftrightarrow> h = record_address records s \<or> gxos_veh_registry_handle_is_live r h"
    using record_address_nonzero [OF assms(2) free(1)] len
    by (auto simp: gxos_veh_registry_handle_is_live_def list_ex_length)
qed

lemma add_accepts_iff:
  assumes "veh_inv records r"
  shows "add_accepts r cb \<longleftrightarrow> \<not> vg_dispatch_active r
    \<and> fst (gxos_veh_find_callback r cb) = GXOS_VEH_VALIDATION_OK \<and> length (handlers r) < 8
    \<and> vg_next_registration_sequence r \<noteq> UINT64_MAX"
proof -
  have "find_index (\<lambda>x. \<not> vr_occupied x) (vg_records r) \<noteq> None" if "vg_live_count r < 8"
    using that assms live_sum_full [of vr_occupied "vg_records r"]
    by (auto simp: veh_inv_def gxos_veh_registry_valid_def find_index_None_iff)
  then show ?thesis using inv_basic [OF assms] by (auto simp: add_accepts_def)
qed

text \<open>Why a registration is refused: the first test that fails, in the code's order.\<close>

definition refusal :: "GXOS_VEH_REGISTRY \<Rightarrow> u64 \<Rightarrow> GXOS_VEH_VALIDATION_RESULT" where
  "refusal r cb =
    (if vg_dispatch_active r then GXOS_VEH_VALIDATION_REGISTRY_ACTIVE
     else if fst (gxos_veh_find_callback r cb) \<noteq> GXOS_VEH_VALIDATION_OK then fst (gxos_veh_find_callback r cb)
     else if length (handlers r) = 8 then GXOS_VEH_VALIDATION_REGISTRY_FULL
     else GXOS_VEH_VALIDATION_SEQUENCE_EXHAUSTED)"

lemma add_refused_reason:
  assumes "veh_inv records r" "\<not> add_accepts r cb"
  shows "\<exists>d'. gxos_veh_registry_add records r first cb d =
    (0, r\<lparr>vg_registration_attempt_count := vg_registration_attempt_count r + 1\<rparr>, d') \<and> vd_validation d' = refusal r cb"
proof -
  let ?r = "r\<lparr>vg_registration_attempt_count := vg_registration_attempt_count r + 1\<rparr>"
  obtain v dd where v: "gxos_veh_find_callback r cb = (v, dd)" by fastforce
  have "gxos_veh_find_callback ?r cb = gxos_veh_find_callback r cb" by (simp add: gxos_veh_find_callback_def Let_def)
  then have find: "gxos_veh_find_callback ?r cb = (v, dd)" using v by simp
  have valid: "gxos_veh_registry_valid ?r"
    using inv_basic(3) [OF assms(1)] by (simp add: gxos_veh_registry_valid_def record_valid_def order_valid_def)
  have "vg_dispatch_active r \<or> v \<noteq> GXOS_VEH_VALIDATION_OK \<or> vg_live_count r = 8 \<or> vg_next_registration_sequence r = UINT64_MAX"
    using assms(2) add_accepts_iff [OF assms(1), of cb] inv_basic [OF assms(1)] v by auto
  then show ?thesis
    using valid find v inv_basic(2) [OF assms(1)] by (auto simp: gxos_veh_registry_add_def Let_def refusal_def)
qed

text \<open>A registry with one image of one section, and the same registry after two registrations.\<close>

definition sample_image :: GXOS_VEH_IMAGE where
  "sample_image = \<lparr>vi_identity = 1, vi_image_base = 0x1000, vi_image_size = 0x2000, vi_section_count = 1,
     vi_sections = [\<lparr>vs_base = 0x1000, vs_end = 0x2000, vs_characteristics = 0x60000020, vs_name = replicate 9 0\<rparr>]\<rparr>"

definition sample_registry :: GXOS_VEH_REGISTRY where
  "sample_registry = snd (gxos_veh_registry_configure_images
     (gxos_veh_registry_init \<lparr>vg_records = replicate 8 (filled_record 0 0 0 0 0 (cleared_diagnostics 0)),
        vg_order = [], vg_images = [], vg_image_count = 0, vg_live_count = 0, vg_dispatch_active = False,
        vg_next_registration_sequence = 0, vg_registration_attempt_count = 0, vg_allocation_count = 0\<rparr>)
     (Some [Some sample_image]) 1)"

definition sample_add :: "u32 \<Rightarrow> u64 \<Rightarrow> GXOS_VEH_REGISTRY \<Rightarrow> GXOS_VEH_REGISTRY" where
  "sample_add first cb r = fst (snd (gxos_veh_registry_add 0x5000 r first cb (cleared_diagnostics 0)))"

definition sample_report :: GXOS_VEH_DISPATCH_REPORT where
  "sample_report = \<lparr>vp_snapshot_count = 0, vp_snapshot_slots = replicate 8 0, vp_invoked_count = 0,
     vp_invoked_slots = replicate 8 0, vp_invocation_numbers = replicate 8 0, vp_return_values = replicate 8 0,
     vp_invalid_return_count = 0, vp_stopped_on_continue_execution = False, vp_final_continue_search = False,
     vp_final_continue_execution = False, vp_final_slot = 0\<rparr>"

lemma sample_placed: "records_placed 0x5000"
  by (simp add: records_placed_def)

lemma reachable_add: "veh_reachable 0x5000 r \<Longrightarrow> veh_reachable 0x5000 (sample_add first cb r)"
  unfolding veh_reachable_def sample_add_def by (blast intro: rtranclp.rtrancl_into_rtrancl veh_step.add)

lemma sample_reachable: "veh_reachable 0x5000 sample_registry"
  unfolding veh_reachable_def sample_registry_def by (blast intro: veh_step.configure)

lemma sample_handlers:
  "handlers (sample_add 1 0x1020 (sample_add 0 0x1010 sample_registry)) = [0x1020, 0x1010]"
  "\<not> vg_dispatch_active (sample_add 1 0x1020 (sample_add 0 0x1010 sample_registry))"
  by code_simp+

text \<open>
  C36. In every state the handler registry can reach, by any sequence of configurations, registrations and dispatches in
  which the handlers themselves may call the registry while they run, the registry passes its own validation, holds at most
  eight handlers, and each of them points into a section of a configured image that is executable and readable and
  not writable.
\<close>

theorem veh_registry_always_valid:
  assumes "veh_reachable records r" and "records_placed records"
  shows "gxos_veh_registry_valid r \<and> length (handlers r) = vg_live_count r \<and> vg_live_count r \<le> 8
    \<and> (\<forall>cb \<in> set (handlers r). callback_approved r cb)"
proof -
  note inv = veh_reachable_inv [OF assms]
  have "callback_approved r cb" if "cb \<in> set (handlers r)" for cb
    using that order_slots [OF inv] inv by (auto simp: handlers_def veh_inv_def)
  with inv_basic [OF inv] show ?thesis by blast
qed

theorem veh_registry_always_valid_witness:
  "callback_approved (sample_add 1 0x1020 (sample_add 0 0x1010 sample_registry)) 0x1010"
  using veh_registry_always_valid [OF reachable_add [OF reachable_add [OF sample_reachable]] sample_placed, of 1 "0x1020" 0 "0x1010"]
  by (simp add: sample_handlers)

text \<open>
  C37. Registration implements a list of callbacks. It succeeds exactly when no dispatch is running, the callback is
  approved, fewer than eight handlers are registered and the sequence numbers are not used up. It then puts the callback at the front or, when
  the first argument is zero, at the back of the list, and its handle is new and becomes live without ending any other
  handle; a refused registration changes nothing but the count of attempts and reports the first of these conditions that
  failed, by the status that the code has for it.
\<close>

theorem veh_add_refines_list:
  assumes "veh_reachable records r" and "records_placed records"
    and "gxos_veh_registry_add records r first cb d = (h, r', d')"
  shows "(h \<noteq> 0 \<longleftrightarrow> \<not> vg_dispatch_active r \<and> fst (gxos_veh_find_callback r cb) = GXOS_VEH_VALIDATION_OK
        \<and> length (handlers r) < 8 \<and> vg_next_registration_sequence r \<noteq> UINT64_MAX)
    \<and> (h \<noteq> 0 \<longrightarrow> handlers r' = (if first = 0 then handlers r @ [cb] else cb # handlers r)
        \<and> \<not> gxos_veh_registry_handle_is_live r h
        \<and> (\<forall>x. gxos_veh_registry_handle_is_live r' x \<longleftrightarrow> x = h \<or> gxos_veh_registry_handle_is_live r x))
    \<and> (h = 0 \<longrightarrow> r' = r\<lparr>vg_registration_attempt_count := vg_registration_attempt_count r + 1\<rparr>
        \<and> vd_validation d' = refusal r cb)"
proof -
  note inv = veh_reachable_inv [OF assms(1,2)]
  have len: "length (vg_records r) = 8" using inv by (simp add: veh_inv_def)
  show ?thesis
  proof (cases "add_accepts r cb")
    case True
    obtain s dd where s: "find_index (\<lambda>x. \<not> vr_occupied x) (vg_records r) = Some s"
      and r': "h = record_address records s" "r' = registered records r first cb s dd"
      using add_accepted [OF True, of records first d] assms(3) by (metis prod.inject)
    from find_index_SomeD [OF s] len have "h \<noteq> 0"
      using record_address_nonzero [OF assms(2)] r'(1) by simp
    moreover have "vg_live_count r < 8" using True inv_basic(1) [OF inv] by (simp add: add_accepts_def)
    ultimately show ?thesis
      using True add_accepts_iff [OF inv] registered_handlers [OF inv _ s] handle_live_registered [OF inv assms(2) s] r'
      by simp
  next
    case False
    with add_refused_reason [OF inv False, of first d] add_accepts_iff [OF inv, of cb] assms(3) show ?thesis by auto
  qed
qed

theorem veh_add_refines_list_witness:
  "handlers (sample_add 1 0x1030 (sample_add 1 0x1020 (sample_add 0 0x1010 sample_registry))) = [0x1030, 0x1020, 0x1010]
   \<and> vd_validation (snd (snd (gxos_veh_registry_add 0x5000 sample_registry 1 0x9000 (cleared_diagnostics 0)))) = GXOS_VEH_VALIDATION_NO_IMAGE"
proof -
  let ?r = "sample_add 1 0x1020 (sample_add 0 0x1010 sample_registry)"
  obtain h r' d' where add: "gxos_veh_registry_add 0x5000 ?r 1 0x1030 (cleared_diagnostics 0) = (h, r', d')"
    by (metis prod_cases3)
  have "fst (gxos_veh_find_callback ?r 0x1030) = GXOS_VEH_VALIDATION_OK" "vg_next_registration_sequence ?r \<noteq> UINT64_MAX"
    by code_simp+
  then have "handlers r' = [0x1030, 0x1020, 0x1010]"
    using veh_add_refines_list [OF reachable_add [OF reachable_add [OF sample_reachable]] sample_placed add]
    by (simp add: sample_handlers)
  moreover obtain h2 r2 d2 where bad: "gxos_veh_registry_add 0x5000 sample_registry 1 0x9000 (cleared_diagnostics 0) = (h2, r2, d2)"
    by (metis prod_cases3)
  have "fst (gxos_veh_find_callback sample_registry 0x9000) = GXOS_VEH_VALIDATION_NO_IMAGE" "\<not> vg_dispatch_active sample_registry"
    by code_simp+
  then have "vd_validation d2 = GXOS_VEH_VALIDATION_NO_IMAGE"
    using veh_add_refines_list [OF sample_reachable sample_placed bad] by (auto simp: refusal_def)
  ultimately show ?thesis using add bad by (simp add: sample_add_def)
qed

text \<open>
  C38. A dispatch walks the list of handlers in order. Where the handlers behave as the function \<open>f\<close> on the world and change
  at most the count of attempts of the registry, it calls them one after the other up to and including the first that
  returns \<open>EXCEPTION_CONTINUE_EXECUTION\<close>, and no other; it leaves the world they leave, reports their return values and
  whether one of them stopped the search, and afterwards the list is as before and dispatch is allowed again.
\<close>

theorem veh_dispatch_refines_list:
  assumes "veh_reachable records r" and "records_placed records" and "\<not> vg_dispatch_active r"
    and "implements invoke f" and "length (vp_return_values report) = 8" and "length (vp_invoked_slots report) = 8"
    and "gxos_veh_dispatch invoke True r report w = (ok, r', report', w')"
  shows "ok \<and> handlers r' = handlers r \<and> \<not> vg_dispatch_active r'
    \<and> w' = snd (run_handlers f (handlers r) w)
    \<and> take (vp_invoked_count report') (vp_return_values report') = fst (run_handlers f (handlers r) w)
    \<and> map (\<lambda>s. vr_callback (vg_records r ! s)) (take (vp_invoked_count report') (vp_invoked_slots report')) =
        take (vp_invoked_count report') (handlers r)
    \<and> vp_stopped_on_continue_execution report' =
        (GXOS_EXCEPTION_CONTINUE_EXECUTION \<in> set (fst (run_handlers f (handlers r) w)))
    \<and> vp_final_continue_search report' = (\<not> vp_stopped_on_continue_execution report')"
proof -
  note inv = veh_reachable_inv [OF assms(1,2)]
  let ?snap = "take (vg_live_count r) (vg_order r)" and ?rs = "fst (run_handlers f (handlers r) w)"
  let ?rep = "(cleared_report report)\<lparr>
      vp_snapshot_slots := ?snap @ drop (vg_live_count r) (vp_snapshot_slots report), vp_snapshot_count := vg_live_count r\<rparr>"
  have loop: "dispatch_loop invoke 0 ?snap (r\<lparr>vg_dispatch_active := True\<rparr>) ?rep w = (r', report', w')" and ok: "ok"
    using assms(3,7) inv_basic(3) [OF inv] by (simp_all add: gxos_veh_dispatch_def Let_def cleared_report_def)
  have cbs: "map (\<lambda>s. vr_callback (vg_records (r\<lparr>vg_dispatch_active := True\<rparr>) ! s)) ?snap = handlers r"
    by (simp add: handlers_def)
  have len: "length ?snap = vg_live_count r" using inv inv_basic(1) [OF inv] by (simp add: veh_inv_def)
  have run: "w' = snd (run_handlers f (handlers r) w)" "report_after ?rep ?snap ?rs report'"
    using dispatch_loop_run [OF assms(4) loop] len assms(5,6) inv_basic(1) [OF inv] unfolding cbs
    by (simp_all add: cleared_report_def)
  have same: "veh_same r r' \<and> \<not> vg_dispatch_active r'"
    using dispatch_loop_same [OF implements_well_behaved [OF assms(4)] loop] by (simp add: veh_same_def)
  have "map (\<lambda>s. vr_callback (vg_records r ! s)) (take n ?snap) = take n (handlers r)" for n
    by (simp add: handlers_def take_map)
  moreover have rep: "vp_invoked_count report' = length ?rs" "take (length ?rs) (vp_return_values report') = ?rs"
      "take (length ?rs) (vp_invoked_slots report') = take (length ?rs) ?snap"
      "vp_stopped_on_continue_execution report' = (GXOS_EXCEPTION_CONTINUE_EXECUTION \<in> set ?rs)"
      "vp_final_continue_search report' = (GXOS_EXCEPTION_CONTINUE_EXECUTION \<notin> set ?rs)"
    using run(2) unfolding run_stop report_after_def Let_def by (simp_all add: cleared_report_def)
  moreover have "handlers r' = handlers r" by (rule veh_same_inv(2) [OF _ inv]) (use same in simp)
  ultimately show ?thesis unfolding rep(1) using run(1) ok same by metis
qed

theorem veh_dispatch_refines_list_witness:
  "snd (snd (snd (gxos_veh_dispatch (\<lambda>cb r w. (if cb = 0x1020 then 0 else - 1, r, w @ [cb])) True
     (sample_add 1 0x1020 (sample_add 0 0x1010 sample_registry)) sample_report []))) = [0x1020, 0x1010]"
proof -
  let ?f = "\<lambda>cb (w :: u64 list). (if cb = 0x1020 then 0 else - 1 :: u32, w @ [cb])"
  let ?invoke = "\<lambda>cb (r :: GXOS_VEH_REGISTRY) w. (if cb = 0x1020 then 0 else - 1 :: u32, r, w @ [cb])"
  let ?r = "sample_add 1 0x1020 (sample_add 0 0x1010 sample_registry)"
  have imp: "implements ?invoke ?f"
  proof (unfold implements_def, intro allI)
    fix cb and s :: GXOS_VEH_REGISTRY and v
    show "\<exists>a. ?invoke cb s v = (fst (?f cb v), s\<lparr>vg_registration_attempt_count := a\<rparr>, snd (?f cb v))"
      by (rule exI [of _ "vg_registration_attempt_count s"]) simp
  qed
  obtain ok r' report' w' where d: "gxos_veh_dispatch ?invoke True ?r sample_report [] = (ok, r', report', w')"
    by (rule prod_cases4, rule that)
  have "w' = [0x1020, 0x1010]"
    using veh_dispatch_refines_list [OF reachable_add [OF reachable_add [OF sample_reachable]] sample_placed
        sample_handlers(2) imp _ _ d]
    by (simp add: sample_handlers(1) sample_report_def)
  with d show ?thesis by simp
qed

end
