(* ===== verification/Vectored_Image_Correct.thy ===== *)
theory Vectored_Image_Correct
  imports Vectored_Handler
begin

text \<open>
  What the parser of section headers in \<open>Vectored_Handler\<close> guarantees: its answer depends on the bytes of the image and on
  nothing else in memory, and the sections it accepts lie inside the image.
\<close>

subsection \<open>The parser\<close>

definition agree_on :: "u64 \<Rightarrow> u64 \<Rightarrow> memory \<Rightarrow> memory \<Rightarrow> bool" where
  "agree_on base sz m m' \<longleftrightarrow> (\<forall>i < unat sz. m (base + of_nat i) = m' (base + of_nat i))"

lemma agree_byte:
  assumes "agree_on base sz m m'" "unat off < unat sz"
  shows "m (base + off) = m' (base + off)"
  using assms(1) [unfolded agree_on_def, rule_format, OF assms(2)] by simp

lemma agree_byte_at:
  assumes "agree_on base sz m m'" "unat off + k < unat sz" "k < 2 ^ 64"
  shows "m (base + off + of_nat k) = m' (base + off + of_nat k)"
proof -
  have k: "unat (of_nat k :: u64) = k" using assms(3) by (rule unat_of_nat_u64)
  have "unat (off + of_nat k) = unat off + k"
    using assms(2) unat_lt_2p64 [of sz] by (subst unat_add_fits) (simp_all add: k del: unat_lt_2p64)
  then have "unat (off + of_nat k) < unat sz" using assms(2) by simp
  from agree_byte [OF assms(1) this] show ?thesis by (simp add: add.assoc)
qed

lemma agree_u16:
  assumes "agree_on base sz m m'" "unat off + 2 \<le> unat sz"
  shows "gxos_veh_read_u16 m (base + off) = gxos_veh_read_u16 m' (base + off)"
  using agree_byte_at [OF assms(1), of off 0] agree_byte_at [OF assms(1), of off 1] assms(2)
  by (simp add: gxos_veh_read_u16_def)

lemma agree_u32:
  assumes "agree_on base sz m m'" "unat off + 4 \<le> unat sz"
  shows "gxos_veh_read_u32 m (base + off) = gxos_veh_read_u32 m' (base + off)"
proof -
  have "unat (off + 2) = unat off + 2"
    using assms(2) unat_lt_2p64 [of sz] by (subst unat_add_fits) (simp_all del: unat_lt_2p64)
  then have "gxos_veh_read_u16 m (base + (off + 2)) = gxos_veh_read_u16 m' (base + (off + 2))"
    using agree_u16 [OF assms(1), of "off + 2"] assms(2) by simp
  with agree_u16 [OF assms(1), of off] assms(2) show ?thesis
    by (simp add: gxos_veh_read_u32_def add.assoc)
qed

lemma range_contains_nat:
  "gxos_veh_range_contains offset len limit \<longleftrightarrow> unat offset + unat len \<le> unat limit"
  by (auto simp: gxos_veh_range_contains_def word_le_nat_alt unat_sub_le)

lemma unat_headers:
  assumes "unat (so :: u64) + (i + Suc n) * 40 \<le> unat (sz :: u64)" "k \<le> 40"
  shows "unat (so + of_nat i * 40 + of_nat k) = unat so + i * 40 + k"
proof -
  have lt: "unat so + i * 40 + k < 2 ^ 64"
    using assms unat_lt_2p64 [of sz] by (simp del: unat_lt_2p64)
  obtain x :: u64 where x: "x = of_nat i * 40" "unat x = i * 40"
    using unat_of_nat_u64 [of "i * 40"] lt by simp
  have k: "unat (of_nat k :: u64) = k" using lt by (intro unat_of_nat_u64) simp
  have "unat (so + x) = unat so + i * 40" using lt x(2) by (subst unat_add_fits) simp_all
  then show ?thesis using lt unat_add_fits [of "so + x" "of_nat k"] k by (simp add: x(1) [symmetric])
qed

lemma agree_header:
  assumes "agree_on base sz m m'" "unat so + (i + Suc n) * 40 \<le> unat sz"
  shows "k + 4 \<le> 40 \<Longrightarrow> gxos_veh_read_u32 m (base + so + of_nat i * 40 + of_nat k) =
      gxos_veh_read_u32 m' (base + so + of_nat i * 40 + of_nat k)"
    and "gxos_veh_copy_name m (base + so + of_nat i * 40) = gxos_veh_copy_name m' (base + so + of_nat i * 40)"
proof -
  show "gxos_veh_read_u32 m (base + so + of_nat i * 40 + of_nat k) =
      gxos_veh_read_u32 m' (base + so + of_nat i * 40 + of_nat k)" if "k + 4 \<le> 40"
    using agree_u32 [OF assms(1), of "so + of_nat i * 40 + of_nat k"] unat_headers [OF assms(2), of k] assms(2) that
    by (simp add: add.assoc)
  have "m (base + so + of_nat i * 40 + of_nat k) = m' (base + so + of_nat i * 40 + of_nat k)" if "k < 8" for k
    using agree_byte [OF assms(1), of "so + of_nat i * 40 + of_nat k"] unat_headers [OF assms(2), of k] assms(2) that
    by (simp add: add.assoc)
  then show "gxos_veh_copy_name m (base + so + of_nat i * 40) = gxos_veh_copy_name m' (base + so + of_nat i * 40)"
    by (simp add: gxos_veh_copy_name_def)
qed

lemma agree_parse_sections:
  assumes "agree_on base sz m m'"
  shows "unat so + (i + n) * 40 \<le> unat sz \<Longrightarrow>
    parse_sections m (base + so) ib sp i n secs = parse_sections m' (base + so) ib sp i n secs"
proof (induction n arbitrary: i secs)
  case 0
  then show ?case by simp
next
  case (Suc n)
  note h = agree_header [OF assms Suc.prems]
  have r: "gxos_veh_read_u32 m (base + so + of_nat i * 40 + 8) = gxos_veh_read_u32 m' (base + so + of_nat i * 40 + 8)"
    "gxos_veh_read_u32 m (base + so + of_nat i * 40 + 12) = gxos_veh_read_u32 m' (base + so + of_nat i * 40 + 12)"
    "gxos_veh_read_u32 m (base + so + of_nat i * 40 + 16) = gxos_veh_read_u32 m' (base + so + of_nat i * 40 + 16)"
    "gxos_veh_read_u32 m (base + so + of_nat i * 40 + 36) = gxos_veh_read_u32 m' (base + so + of_nat i * 40 + 36)"
    using h(1) [of 8] h(1) [of 12] h(1) [of 16] h(1) [of 36] by simp_all
  have "unat so + (Suc i + n) * 40 \<le> unat sz" using Suc.prems by simp
  then show ?case by (simp only: parse_sections.simps Let_def r h(2) Suc.IH)
qed

lemma unat_ucast_u16_u64 [simp]: "unat (ucast (x :: u16) :: u64) = unat x"
proof -
  have "unat x < 2 ^ 64" using unsigned_less [of x] by (rule order.strict_trans) simp
  then show ?thesis by (simp add: unsigned_ucast_eq take_bit_eq_mod)
qed

lemma parse_depends:
  assumes "agree_on base sz m m'"
  shows "gxos_veh_image_parse_pe m img identity base sz = gxos_veh_image_parse_pe m' img identity base sz"
proof (cases "identity = 0 \<or> base = 0 \<or> sz < 0x40 \<or> sz > UINT64_MAX \<or> base > UINT64_MAX - sz")
  case True
  then show ?thesis unfolding gxos_veh_image_parse_pe_def by (simp only: if_True)
next
  case False
  then have sz: "0x40 \<le> unat sz" by (simp add: word_less_nat_alt)
  let ?nt = "ucast (gxos_veh_read_u32 m (base + 0x3C)) :: u64"
  have r0: "gxos_veh_read_u16 m base = gxos_veh_read_u16 m' base"
    using agree_u16 [OF assms, of 0] sz by simp
  have r1: "gxos_veh_read_u32 m' (base + 0x3C) = gxos_veh_read_u32 m (base + 0x3C)"
    using agree_u32 [OF assms, of "0x3C"] sz by simp
  show ?thesis
  proof (cases "gxos_veh_range_contains ?nt 24 sz")
    case nt: False
    show ?thesis
      unfolding gxos_veh_image_parse_pe_def if_not_P [OF False] Let_def r0 r1 using nt by simp
  next
    case True
    then have nt: "unat ?nt + 24 \<le> unat sz" by (simp add: range_contains_nat)
    have b: "m' (base + ?nt) = m (base + ?nt)" "m' (base + ?nt + 1) = m (base + ?nt + 1)"
        "m' (base + ?nt + 2) = m (base + ?nt + 2)" "m' (base + ?nt + 3) = m (base + ?nt + 3)"
      using agree_byte_at [OF assms, of ?nt 0] agree_byte_at [OF assms, of ?nt 1]
        agree_byte_at [OF assms, of ?nt 2] agree_byte_at [OF assms, of ?nt 3] nt by simp_all
    have add: "unat (?nt + of_nat k) = unat ?nt + k" if "k \<le> 24" for k
      using nt that unat_lt_2p64 [of sz] unat_add_fits [of ?nt "of_nat k"] unat_of_nat_u64 [of k]
      by (simp del: unat_lt_2p64)
    have c: "gxos_veh_read_u16 m' (base + ?nt + 6) = gxos_veh_read_u16 m (base + ?nt + 6)"
        "gxos_veh_read_u16 m' (base + ?nt + 20) = gxos_veh_read_u16 m (base + ?nt + 20)"
      using agree_u16 [OF assms, of "?nt + 6"] agree_u16 [OF assms, of "?nt + 20"] add [of 6] add [of 20] nt
      by (simp_all add: add.assoc)
    let ?opt = "gxos_veh_read_u16 m (base + ?nt + 20)" and ?n = "gxos_veh_read_u16 m (base + ?nt + 6)"
    have nt24: "unat (?nt + 24) = unat ?nt + 24" using add [of 24] by simp
    show ?thesis
    proof (cases "0xF0 \<le> ?opt \<and> gxos_veh_range_contains (?nt + 24) (ucast ?opt) sz")
      case opt: False
      then show ?thesis
        unfolding gxos_veh_image_parse_pe_def if_not_P [OF False] Let_def r0 r1 b c
        by (auto simp: not_le)
    next
      case opt: True
      then have o: "0xF0 \<le> unat ?opt" "unat ?nt + 24 + unat ?opt \<le> unat sz"
        using nt24 by (simp_all add: range_contains_nat word_le_nat_alt)
      have d: "gxos_veh_read_u16 m' (base + ?nt + 24) = gxos_veh_read_u16 m (base + ?nt + 24)"
        using agree_u16 [OF assms, of "?nt + 24"] nt24 o by (simp add: add.assoc)
      have "unat (?nt + 24 + 0x38) = unat ?nt + 24 + 0x38"
        using unat_add_fits [of "?nt + 24" "0x38"] nt24 o unat_lt_2p64 [of sz] by (simp del: unat_lt_2p64)
      then have e: "gxos_veh_read_u32 m' (base + ?nt + 24 + 0x38) = gxos_veh_read_u32 m (base + ?nt + 24 + 0x38)"
        using agree_u32 [OF assms, of "?nt + 24 + 0x38"] o by (simp add: add.assoc)
      let ?so = "?nt + 24 + ucast ?opt :: u64"
      show ?thesis
      proof (cases "unat ?n \<le> 32 \<and> gxos_veh_range_contains ?so (ucast ?n * 40) sz")
        case n: False
        then show ?thesis
          unfolding gxos_veh_image_parse_pe_def if_not_P [OF False] Let_def r0 r1 b c d e
          by (auto simp: not_le)
      next
        case n: True
        have "unat (ucast ?n * 40 :: u64) = unat ?n * 40"
          using n unat_mult_lem [of "ucast ?n :: u64" 40] by simp
        with n have "unat ?so + (0 + unat ?n) * 40 \<le> unat sz" by (simp add: range_contains_nat)
        from agree_parse_sections [OF assms this]
        have f: "parse_sections m' (base + ?so) base sp 0 (unat ?n) secs = parse_sections m (base + ?so) base sp 0 (unat ?n) secs" for sp secs
          by simp
        show ?thesis
          unfolding gxos_veh_image_parse_pe_def if_not_P [OF False] Let_def r0 r1 b c d e f ..
      qed
    qed
  qed
qed

subsection \<open>The sections it accepts\<close>

definition section_inside :: "u64 \<Rightarrow> nat \<Rightarrow> GXOS_VEH_SECTION \<Rightarrow> bool" where
  "section_inside base limit sec \<longleftrightarrow>
     unat base \<le> unat (vs_base sec) \<and> unat (vs_base sec) < unat (vs_end sec) \<and> unat (vs_end sec) \<le> unat base + limit"

lemma accepted_inside:
  fixes va extent sp :: u32 and base :: u64
  assumes "extent \<noteq> 0" "\<not> (ucast va :: u64) + ucast extent > ucast sp"
    and "\<not> base > UINT64_MAX - ucast va" "\<not> ucast extent > UINT64_MAX - (base + ucast va)"
  shows "section_inside base (unat sp)
    \<lparr>vs_base = base + ucast va, vs_end = base + ucast va + ucast extent, vs_characteristics = c, vs_name = s\<rparr>"
proof -
  have "unat va + unat extent < 2 ^ 64"
    using unat_lt_2p32 [of va] unat_lt_2p32 [of extent] by (simp del: unat_lt_2p32)
  then have le: "unat va + unat extent \<le> unat sp"
    using assms(2) by (simp add: word_le_nat_alt not_less unat_add_fits)
  have b: "unat (base + ucast va) = unat base + unat va"
    using assms(3) unfolding fits_iff by (subst unat_add_fits) simp_all
  have e: "unat (base + ucast va + ucast extent) = unat base + unat va + unat extent"
    using assms(4) unfolding fits_iff b by (subst unat_add_fits) (simp_all add: b)
  have "0 < unat extent" using assms(1) by (simp add: unat_gt_0)
  with le show ?thesis by (simp add: section_inside_def b e)
qed

lemma parse_sections_inside:
  "parse_sections m h base sp i n secs = (True, secs') \<Longrightarrow> i + n \<le> length secs \<Longrightarrow>
     length secs' = length secs \<and> (\<forall>j < i. secs' ! j = secs ! j)
     \<and> (\<forall>j. i \<le> j \<longrightarrow> j < i + n \<longrightarrow> section_inside base (unat sp) (secs' ! j))"
proof (induction n arbitrary: i secs)
  case 0
  then show ?case by simp
next
  case (Suc n)
  let ?s = "h + of_nat i * 40"
  let ?vs = "gxos_veh_read_u32 m (?s + 8)" and ?va = "gxos_veh_read_u32 m (?s + 12)"
    and ?rs = "gxos_veh_read_u32 m (?s + 16)"
  let ?ex = "if ?vs > ?rs then ?vs else ?rs"
  let ?new = "\<lparr>vs_base = base + ucast ?va, vs_end = base + ucast ?va + ucast ?ex,
      vs_characteristics = gxos_veh_read_u32 m (?s + 36), vs_name = gxos_veh_copy_name m ?s\<rparr>"
  have g: "\<not> (?ex = 0 \<or> (ucast ?va :: u64) + ucast ?ex > ucast sp \<or> base > UINT64_MAX - ucast ?va)"
    "\<not> ucast ?ex > UINT64_MAX - (base + ucast ?va)"
    and rest: "parse_sections m h base sp (Suc i) n (secs[i := ?new]) = (True, secs')"
    using Suc.prems(1) unfolding parse_sections.simps Let_def by (auto split: if_splits)
  have new: "section_inside base (unat sp) ?new" by (rule accepted_inside) (use g in blast)+
  from Suc.IH [OF rest] Suc.prems(2) have IH: "length secs' = length secs" "\<forall>j < Suc i. secs' ! j = secs[i := ?new] ! j"
      "\<forall>j. Suc i \<le> j \<longrightarrow> j < Suc i + n \<longrightarrow> section_inside base (unat sp) (secs' ! j)"
    by auto
  have "section_inside base (unat sp) (secs' ! j)" if "i \<le> j" "j < i + Suc n" for j
  proof (cases "j = i")
    case True
    with IH(2) Suc.prems(2) have "secs' ! j = ?new" by (simp add: nth_list_update_if)
    with new show ?thesis by simp
  next
    case False
    with IH(3) that show ?thesis by simp
  qed
  moreover have "\<forall>j < i. secs' ! j = secs ! j" using IH(2) by (simp add: nth_list_update_if)
  ultimately show ?case using IH(1) by blast
qed

lemma parse_accepts:
  assumes "gxos_veh_image_parse_pe m img identity base sz = (True, img')" "length (vi_sections img) = 32"
  shows "vi_identity img' = identity \<and> identity \<noteq> 0 \<and> vi_image_base img' = base \<and> base \<noteq> 0 \<and> vi_image_size img' = sz
    \<and> 0 < vi_section_count img' \<and> vi_section_count img' \<le> 32 \<and> length (vi_sections img') = 32 \<and> 0x40 \<le> unat sz
    \<and> unat base + unat sz < 2 ^ 64
    \<and> (\<forall>sec \<in> set (take (vi_section_count img') (vi_sections img')). section_inside base (unat sz) sec)"
proof -
  let ?nt = "ucast (gxos_veh_read_u32 m (base + 0x3C)) :: u64"
  let ?n = "gxos_veh_read_u16 m (base + ?nt + 6)" and ?opt = "gxos_veh_read_u16 m (base + ?nt + 20)"
  let ?sp = "gxos_veh_read_u32 m (base + ?nt + 24 + 0x38)"
  let ?so = "?nt + 24 + ucast ?opt :: u64"
  obtain ok secs where p: "parse_sections m (base + ?so) base ?sp 0 (unat ?n) (vi_sections img) = (ok, secs)"
    by fastforce
  note c = assms(1) [unfolded gxos_veh_image_parse_pe_def Let_def p prod.case]
  have g: "ok" "identity \<noteq> 0" "base \<noteq> 0" "\<not> sz < 0x40" "\<not> base > UINT64_MAX - sz" "?n \<noteq> 0" "\<not> unat ?n > 32"
      "\<not> ucast ?sp > sz"
    and img': "img' = img\<lparr>vi_identity := identity, vi_image_base := base, vi_image_size := sz,
      vi_section_count := unat ?n, vi_sections := take (unat ?n) secs @ map cleared_section (drop (unat ?n) secs)\<rparr>"
    using c by (auto split: if_splits)
  have n: "0 < unat ?n" "unat ?n \<le> 32" using g(6,7) by (simp_all add: unat_gt_0)
  have s: "unat ?sp \<le> unat sz" using g(8) by (simp add: not_less word_le_nat_alt)
  have sec: "length secs = 32" "\<forall>j < unat ?n. section_inside base (unat ?sp) (secs ! j)"
    using parse_sections_inside [OF p [unfolded eqTrueI [OF g(1)]]] n assms(2) by auto
  have "section_inside base (unat sz) x" if "x \<in> set (take (unat ?n) secs)" for x
    using that sec s by (fastforce simp: in_set_conv_nth section_inside_def)
  moreover have "unat base + unat sz < 2 ^ 64" using g(5) unfolding fits_iff by simp
  moreover have "0x40 \<le> unat sz" using g(4) by (simp add: word_less_nat_alt)
  ultimately show ?thesis using g(2,3) n sec(1) by (simp add: img')
qed

lemma parse_accepts_valid:
  assumes "gxos_veh_image_parse_pe m img identity base sz = (True, img')"
    and "length (vi_sections img) = 32" and "unat base + unat sz \<le> 2 ^ 47"
  shows "gxos_veh_image_bounds (Some img') = (GXOS_VEH_VALIDATION_OK, base + sz)
    \<and> \<not> list_ex (section_bad img' (base + sz)) (take (vi_section_count img') (vi_sections img'))"
proof -
  have e: "unat (base + sz) = unat base + unat sz" using assms(3) by (simp add: unat_add_fits)
  have canon: "gxos_exception_is_canonical x" if "unat x < 2 ^ 47" for x
    using that by (simp add: gxos_exception_is_canonical_def word_le_nat_alt)
  show ?thesis
  proof
    note a = parse_accepts [OF assms(1,2)]
    have s: "0 < unat sz" "unat base < 2 ^ 47" using a assms(3) by linarith+
    have nz: "base + sz \<noteq> 0" "sz \<noteq> 0" using e s(1) by auto
    have "unat (base + sz - 1) < 2 ^ 47" using unat_pred [OF nz(1)] e s assms(3) by linarith
    moreover have "\<not> base + sz \<le> base" using e s(1) by (simp add: word_le_nat_alt)
    moreover have "\<not> base > UINT64_MAX - sz" using a unfolding fits_iff by simp
    ultimately show "gxos_veh_image_bounds (Some img') = (GXOS_VEH_VALIDATION_OK, base + sz)"
      using a nz canon s(2) by (simp add: gxos_veh_image_bounds_def Let_def)
    have "\<not> section_bad img' (base + sz) sec" if "sec \<in> set (take (vi_section_count img') (vi_sections img'))" for sec
    proof -
      have i: "section_inside base (unat sz) sec" using a that by blast
      then have nz: "vs_end sec \<noteq> 0" "vs_base sec \<noteq> 0"
        using a by (auto simp: section_inside_def unat_gt_0 unat_eq_zero)
      have "unat (vs_end sec - 1) < 2 ^ 47" "unat (vs_base sec) < 2 ^ 47"
        using i unat_pred [OF nz(1)] assms(3) by (auto simp: section_inside_def)
      with nz show ?thesis
        using i a canon e by (simp add: section_bad_def section_inside_def word_less_nat_alt word_le_nat_alt)
    qed
    then show "\<not> list_ex (section_bad img' (base + sz)) (take (vi_section_count img') (vi_sections img'))"
      by (simp add: list_ex_iff)
  qed
qed

text \<open>
  C39. What the parser of an image's section headers answers depends only on the bytes of the image: two memories that agree on
  them give the same verdict and the same sections, for every image. (The code itself also loads the two bytes of the
  optional header's magic before it has checked that they belong to the image; the theorem says that they never decide.) What it
  accepts, for an image in the lower half of the address space, is an image that the callback check never
  rejects as malformed: its bounds are valid and every section is a non-empty range of canonical addresses inside the image.
\<close>

theorem veh_parse_safe:
  assumes "agree_on base sz m m'"
  shows "gxos_veh_image_parse_pe m img identity base sz = gxos_veh_image_parse_pe m' img identity base sz
    \<and> (length (vi_sections img) = 32 \<longrightarrow> unat base + unat sz \<le> 2 ^ 47 \<longrightarrow>
       (\<forall>img'. gxos_veh_image_parse_pe m img identity base sz = (True, img') \<longrightarrow>
        gxos_veh_image_bounds (Some img') = (GXOS_VEH_VALIDATION_OK, base + sz)
        \<and> \<not> list_ex (section_bad img' (base + sz)) (take (vi_section_count img') (vi_sections img'))))"
  using parse_depends [OF assms] parse_accepts_valid by blast

definition sample_header :: memory where
  "sample_header a = (case map_of [(0x10000, 0x4D), (0x10001, 0x5A), (0x1003C, 0x40), (0x10040, 0x50), (0x10041, 0x45),
     (0x10046, 1), (0x10054, 0xF0), (0x10058, 0x0B), (0x10059, 2), (0x10091, 0x10), (0x10151, 1), (0x10155, 2),
     (0x1016C, 0x20), (0x1016F, 0x60)] a of None \<Rightarrow> 0 | Some b \<Rightarrow> b)"

definition blank_image :: GXOS_VEH_IMAGE where
  "blank_image = \<lparr>vi_identity = 0, vi_image_base = 0, vi_image_size = 0, vi_section_count = 0,
     vi_sections = replicate 32 \<lparr>vs_base = 0, vs_end = 0, vs_characteristics = 0, vs_name = replicate 9 0\<rparr>\<rparr>"

theorem veh_parse_safe_witness:
  "fst (gxos_veh_image_parse_pe (sample_header(0x20000 := 7)) blank_image 1 0x10000 0x1000)"
proof -
  have "agree_on 0x10000 0x1000 sample_header (sample_header(0x20000 := 7))"
    unfolding agree_on_def
  proof (intro allI impI)
    fix i assume "i < unat (0x1000 :: u64)"
    then have "unat (0x10000 + of_nat i :: u64) = 0x10000 + i"
      by (subst unat_add_fits) (simp_all add: unat_of_nat_u64)
    then have "0x10000 + of_nat i \<noteq> (0x20000 :: u64)" using \<open>i < unat (0x1000 :: u64)\<close> by auto
    then show "sample_header (0x10000 + of_nat i) = (sample_header(0x20000 := 7)) (0x10000 + of_nat i)" by simp
  qed
  then have "gxos_veh_image_parse_pe sample_header blank_image 1 0x10000 0x1000 =
      gxos_veh_image_parse_pe (sample_header(0x20000 := 7)) blank_image 1 0x10000 0x1000"
    using veh_parse_safe [of "0x10000" "0x1000" sample_header "sample_header(0x20000 := 7)" blank_image 1]
    by (simp add: blank_image_def)
  moreover have "fst (gxos_veh_image_parse_pe sample_header blank_image 1 0x10000 0x1000)" by code_simp
  ultimately show ?thesis by simp
qed

end
