(* ===== verification/Multibyte.thy ===== *)
theory Multibyte
  imports Crt_Regions
begin

text \<open>
  \<open>MultiByteToWideChar\<close> for UTF-8, \<open>src/src/Gate4Harness/platform_multibyte.c\<close>, over a byte memory.

  The signed 32-bit arguments and the signed 32-bit result are words of that width, read with \<open>sint\<close> where the code compares them
  as signed numbers. The cell of the last error and the report, which every caller passes, are part of the result. A
  decoding failure is \<open>None\<close>: its only status is \<open>INVALID_UTF8\<close>. A store of a UTF-16 unit writes its two bytes, the
  low one first.
\<close>

subsection \<open>Data\<close>

abbreviation (input) GXOS_MULTIBYTE_CP_UTF8 :: u32 where "GXOS_MULTIBYTE_CP_UTF8 \<equiv> 65001"
abbreviation (input) GXOS_MULTIBYTE_MB_ERR_INVALID_CHARS :: u32 where "GXOS_MULTIBYTE_MB_ERR_INVALID_CHARS \<equiv> 8"
abbreviation (input) GXOS_MULTIBYTE_ERROR_INVALID_PARAMETER :: u32 where "GXOS_MULTIBYTE_ERROR_INVALID_PARAMETER \<equiv> 87"
abbreviation (input) GXOS_MULTIBYTE_ERROR_INSUFFICIENT_BUFFER :: u32 where "GXOS_MULTIBYTE_ERROR_INSUFFICIENT_BUFFER \<equiv> 122"
abbreviation (input) GXOS_MULTIBYTE_ERROR_NO_UNICODE_TRANSLATION :: u32 where
  "GXOS_MULTIBYTE_ERROR_NO_UNICODE_TRANSLATION \<equiv> 1113"
abbreviation (input) GXOS_MULTIBYTE_MAX_NUL_SCAN :: nat where "GXOS_MULTIBYTE_MAX_NUL_SCAN \<equiv> 65536"
abbreviation (input) GXOS_MULTIBYTE_MAX_MEMORY_REGIONS :: nat where "GXOS_MULTIBYTE_MAX_MEMORY_REGIONS \<equiv> 128"
abbreviation (input) GXOS_MULTIBYTE_MAX_CAPTURE_BYTES :: nat where "GXOS_MULTIBYTE_MAX_CAPTURE_BYTES \<equiv> 64"
abbreviation (input) GXOS_MULTIBYTE_MAX_CAPTURE_UNITS :: nat where "GXOS_MULTIBYTE_MAX_CAPTURE_UNITS \<equiv> 32"

record GXOS_MULTIBYTE_MEMORY_REGION =
  mr_base :: u64
  mr_end :: u64
  mr_readable :: bool
  mr_writable :: bool

record GXOS_MULTIBYTE_MEMORY_CONTEXT =
  mc_region_count :: nat
  mc_regions :: "GXOS_MULTIBYTE_MEMORY_REGION list option"

datatype GXOS_MULTIBYTE_STATUS =
    GXOS_MULTIBYTE_STATUS_OK
  | GXOS_MULTIBYTE_STATUS_INVALID_OUTPUT
  | GXOS_MULTIBYTE_STATUS_INVALID_CONTEXT
  | GXOS_MULTIBYTE_STATUS_INVALID_CODE_PAGE
  | GXOS_MULTIBYTE_STATUS_INVALID_FLAGS
  | GXOS_MULTIBYTE_STATUS_INVALID_BYTE_COUNT
  | GXOS_MULTIBYTE_STATUS_NULL_SOURCE
  | GXOS_MULTIBYTE_STATUS_NONCANONICAL_SOURCE
  | GXOS_MULTIBYTE_STATUS_UNREADABLE_SOURCE
  | GXOS_MULTIBYTE_STATUS_SOURCE_RANGE_OVERFLOW
  | GXOS_MULTIBYTE_STATUS_UNTERMINATED_SOURCE
  | GXOS_MULTIBYTE_STATUS_NULL_DESTINATION
  | GXOS_MULTIBYTE_STATUS_NONCANONICAL_DESTINATION
  | GXOS_MULTIBYTE_STATUS_UNWRITABLE_DESTINATION
  | GXOS_MULTIBYTE_STATUS_DESTINATION_RANGE_OVERFLOW
  | GXOS_MULTIBYTE_STATUS_SIZE_OVERFLOW
  | GXOS_MULTIBYTE_STATUS_INSUFFICIENT_BUFFER
  | GXOS_MULTIBYTE_STATUS_INVALID_UTF8
  | GXOS_MULTIBYTE_STATUS_OVERLAPPING_RANGES

record GXOS_MULTIBYTE_REPORT =
  mp_code_page :: u32
  mp_flags :: u32
  mp_source :: u64
  mp_cb_multi_byte :: u32
  mp_destination :: u64
  mp_cch_wide_char :: u32
  mp_source_bytes_including_terminator :: u64
  mp_source_bytes_excluding_terminator :: u64
  mp_required_utf16_units :: u64
  mp_written_utf16_units :: u64
  mp_destination_range_valid :: bool
  mp_destination_zeroed_before_call :: bool
  mp_source_capture :: "u8 list"
  mp_destination_before :: "u8 list"
  mp_destination_after :: "u8 list"
  mp_output_capture :: "u16 list"
  mp_status :: GXOS_MULTIBYTE_STATUS
  mp_last_error_before :: u32
  mp_last_error_after :: u32

text \<open>A capture array and its count are the list of the captured elements.\<close>

subsection \<open>Checking ranges\<close>

definition mb_canonical_address :: "u64 \<Rightarrow> bool" where
  "mb_canonical_address address \<longleftrightarrow> (let high = drop_bit 47 address in high = 0 \<or> high = 0x1FFFF)"

definition mb_regions :: "GXOS_MULTIBYTE_MEMORY_CONTEXT \<Rightarrow> GXOS_MULTIBYTE_MEMORY_REGION list" where
  "mb_regions c = (case mc_regions c of None \<Rightarrow> [] | Some regions \<Rightarrow> take (mc_region_count c) regions)"

definition context_valid :: "GXOS_MULTIBYTE_MEMORY_CONTEXT option \<Rightarrow> bool" where
  "context_valid mem = (case mem of None \<Rightarrow> False | Some c \<Rightarrow>
     mc_regions c \<noteq> None \<and> mc_region_count c \<noteq> 0 \<and> mc_region_count c \<le> GXOS_MULTIBYTE_MAX_MEMORY_REGIONS
     \<and> \<not> list_ex (\<lambda>region. mr_base region = 0 \<or> mr_base region \<ge> mr_end region
           \<or> \<not> mb_canonical_address (mr_base region) \<or> \<not> mb_canonical_address (mr_end region - 1)) (mb_regions c))"

definition mb_find_region :: "GXOS_MULTIBYTE_MEMORY_CONTEXT \<Rightarrow> u64 \<Rightarrow> GXOS_MULTIBYTE_MEMORY_REGION option" where
  "mb_find_region c address = find (\<lambda>region. address \<ge> mr_base region \<and> address < mr_end region) (mb_regions c)"

function mb_covered_loop :: "GXOS_MULTIBYTE_MEMORY_CONTEXT \<Rightarrow> bool \<Rightarrow> u64 \<Rightarrow> u64 \<Rightarrow> bool" where
  "mb_covered_loop c writable current remaining =
    (if remaining = 0 then True
     else case mb_find_region c current of
        None \<Rightarrow> False
      | Some region \<Rightarrow>
          if \<not> mr_readable region \<or> (writable \<and> \<not> mr_writable region) then False
          else let available = mr_end region - current in
            if available \<ge> remaining then True
            else mb_covered_loop c writable (current + available) (remaining - available))"
  by pat_completeness auto
termination
proof (relation "measure (\<lambda>(c, writable, current, remaining). unat remaining)", goal_cases)
  case (2 c writable current remaining region available)
  from 2(2) have "current < mr_end region" using find_SomeD by (fastforce simp: mb_find_region_def)
  then have "0 < unat available" using 2(4) unat_sub_le [of current "mr_end region"] by (simp add: word_less_nat_alt word_le_nat_alt)
  moreover have "available < remaining" using 2(5) by simp
  ultimately show ?case using unat_sub_le [of available remaining] by (simp add: word_less_nat_alt word_le_nat_alt)
qed simp

declare mb_covered_loop.simps [simp del]

definition mb_range_covered ::
  "GXOS_MULTIBYTE_MEMORY_CONTEXT \<Rightarrow> u64 \<Rightarrow> u64 \<Rightarrow> bool \<Rightarrow> GXOS_MULTIBYTE_STATUS \<Rightarrow> GXOS_MULTIBYTE_STATUS \<Rightarrow>
     GXOS_MULTIBYTE_STATUS \<Rightarrow> GXOS_MULTIBYTE_STATUS \<Rightarrow> GXOS_MULTIBYTE_STATUS" where
  "mb_range_covered c address len writable null_status noncanonical_status inaccessible_status overflow_status =
    (if len = 0 then GXOS_MULTIBYTE_STATUS_OK
     else if address = 0 then null_status
     else if \<not> mb_canonical_address address then noncanonical_status
     else if len > UINT64_MAX - address then overflow_status
     else if mb_covered_loop c writable address len then GXOS_MULTIBYTE_STATUS_OK
     else inaccessible_status)"

definition source_covered :: "GXOS_MULTIBYTE_MEMORY_CONTEXT \<Rightarrow> u64 \<Rightarrow> u64 \<Rightarrow> GXOS_MULTIBYTE_STATUS" where
  "source_covered c address len = mb_range_covered c address len False
     GXOS_MULTIBYTE_STATUS_NULL_SOURCE GXOS_MULTIBYTE_STATUS_NONCANONICAL_SOURCE
     GXOS_MULTIBYTE_STATUS_UNREADABLE_SOURCE GXOS_MULTIBYTE_STATUS_SOURCE_RANGE_OVERFLOW"

text \<open>The scan for the terminator, at index \<open>i\<close> with \<open>n\<close> iterations left: the status and the index of the terminator.\<close>

fun nul_scan :: "memory \<Rightarrow> GXOS_MULTIBYTE_MEMORY_CONTEXT \<Rightarrow> u64 \<Rightarrow> nat \<Rightarrow> nat \<Rightarrow> GXOS_MULTIBYTE_STATUS \<times> u64" where
  "nul_scan m c base i 0 = (GXOS_MULTIBYTE_STATUS_UNTERMINATED_SOURCE, 0)"
| "nul_scan m c base i (Suc n) =
    (let index = of_nat i :: u64; address = base + index in
     if index > UINT64_MAX - base then (GXOS_MULTIBYTE_STATUS_SOURCE_RANGE_OVERFLOW, 0)
     else let status = source_covered c address 1 in
       if status \<noteq> GXOS_MULTIBYTE_STATUS_OK then (status, 0)
       else if m address = 0 then (GXOS_MULTIBYTE_STATUS_OK, index)
       else nul_scan m c base (Suc i) n)"

text \<open>The status, the length and the length without a terminator.\<close>

definition source_byte_range ::
  "memory \<Rightarrow> u64 \<Rightarrow> u32 \<Rightarrow> GXOS_MULTIBYTE_MEMORY_CONTEXT \<Rightarrow> GXOS_MULTIBYTE_STATUS \<times> u64 \<times> u64" where
  "source_byte_range m source cb_multi_byte c =
    (if source = 0 then (GXOS_MULTIBYTE_STATUS_NULL_SOURCE, 0, 0)
     else if \<not> mb_canonical_address source then (GXOS_MULTIBYTE_STATUS_NONCANONICAL_SOURCE, 0, 0)
     else if sint cb_multi_byte > 0 then
       let status = source_covered c source (ucast cb_multi_byte) in
       if status \<noteq> GXOS_MULTIBYTE_STATUS_OK then (status, 0, 0)
       else (GXOS_MULTIBYTE_STATUS_OK, ucast cb_multi_byte, ucast cb_multi_byte)
     else case nul_scan m c source 0 GXOS_MULTIBYTE_MAX_NUL_SCAN of (status, index) \<Rightarrow>
       if status \<noteq> GXOS_MULTIBYTE_STATUS_OK then (status, 0, 0)
       else (GXOS_MULTIBYTE_STATUS_OK, index + 1, index))"

definition mb_ranges_overlap :: "u64 \<Rightarrow> u64 \<Rightarrow> u64 \<Rightarrow> u64 \<Rightarrow> bool" where
  "mb_ranges_overlap left left_length right right_length =
    (if left_length = 0 \<or> right_length = 0 then False
     else if left > UINT64_MAX - left_length \<or> right > UINT64_MAX - right_length then True
     else left < right + right_length \<and> right < left + left_length)"

subsection \<open>Decoding\<close>

fun continuation_loop :: "memory \<Rightarrow> u64 \<Rightarrow> u8 \<Rightarrow> nat \<Rightarrow> nat \<Rightarrow> u32 \<Rightarrow> u32 option" where
  "continuation_loop m p first index 0 value = Some value"
| "continuation_loop m p first index (Suc n) value =
    (let continuation = m (p + of_nat index) in
     if continuation AND 0xC0 \<noteq> 0x80 then None
     else if index = 1 \<and> ((first = 0xE0 \<and> continuation < 0xA0) \<or> (first = 0xED \<and> continuation > 0x9F)
         \<or> (first = 0xF0 \<and> continuation < 0x90) \<or> (first = 0xF4 \<and> continuation > 0x8F)) then None
     else continuation_loop m p first (Suc index) n (push_bit 6 value OR ucast (continuation AND 0x3F)))"

text \<open>The number of bytes of a sequence, the payload of its first byte and the least value it may encode.\<close>

definition lead_byte :: "u8 \<Rightarrow> (nat \<times> u32 \<times> u32) option" where
  "lead_byte first =
    (if first \<ge> 0xC2 \<and> first \<le> 0xDF then Some (2, ucast (first AND 0x1F), 0x80)
     else if first \<ge> 0xE0 \<and> first \<le> 0xEF then Some (3, ucast (first AND 0x0F), 0x800)
     else if first \<ge> 0xF0 \<and> first \<le> 0xF4 then Some (4, ucast (first AND 0x07), 0x10000)
     else None)"

definition decode_one :: "memory \<Rightarrow> u64 \<Rightarrow> u64 \<Rightarrow> u64 \<Rightarrow> (u32 \<times> nat) option" where
  "decode_one m source source_length offset =
    (if offset \<ge> source_length then None
     else let first = m (source + offset) in
       if first \<le> 0x7F then Some (ucast first, 1)
       else case lead_byte first of None \<Rightarrow> None | Some (count, value, minimum) \<Rightarrow>
         if of_nat count > source_length - offset then None
         else case continuation_loop m (source + offset) first 1 (count - 1) value of None \<Rightarrow> None | Some value \<Rightarrow>
           if value < minimum \<or> value > 0x10FFFF \<or> (value \<ge> 0xD800 \<and> value \<le> 0xDFFF) then None
           else Some (value, count))"

lemma decode_one_consumed:
  assumes "decode_one m source source_length offset = Some (cp, n)"
  shows "0 < n \<and> n \<le> 4 \<and> unat offset + n \<le> unat source_length"
proof (cases "m (source + offset) \<le> 0x7F")
  case True
  with assms show ?thesis
    by (simp add: decode_one_def Let_def not_le word_less_nat_alt split: if_splits)
next
  case False
  with assms obtain count val least where c: "lead_byte (m (source + offset)) = Some (count, val, least)"
    and l: "offset < source_length" "of_nat count \<le> source_length - offset" and n: "n = count"
    by (auto simp: decode_one_def Let_def not_le not_less split: if_splits option.splits)
  from c have k: "0 < count" "count \<le> 4" by (auto simp: lead_byte_def split: if_splits)
  then have "unat (of_nat count :: u64) = count" by (intro unat_of_nat_u64) simp
  with l have "count \<le> unat source_length - unat offset"
    using unat_sub_le [OF less_imp_le [OF l(1)]] by (simp add: word_le_nat_alt)
  with k l(1) n show ?thesis by (simp add: word_less_nat_alt)
qed

lemma unat_offset_step:
  assumes "unat (offset :: u64) + n \<le> unat (source_length :: u64)" "n \<le> 4"
  shows "unat (offset + of_nat n) = unat offset + n"
proof -
  have n: "unat (of_nat n :: u64) = n" using assms(2) by (intro unat_of_nat_u64) simp
  have "unat offset + n < 2 ^ 64" using assms(1) unat_lt_2p64 [of source_length] by (simp del: unat_lt_2p64)
  then show ?thesis using unat_add_fits [of offset "of_nat n"] n by simp
qed

text \<open>The first pass: the number of units the source needs, or the status of its failure.\<close>

function count_loop :: "memory \<Rightarrow> u64 \<Rightarrow> u64 \<Rightarrow> u64 \<Rightarrow> u64 \<Rightarrow> GXOS_MULTIBYTE_STATUS + u64" where
  "count_loop m source source_length offset required_units =
    (if offset = source_length then Inr required_units
     else case decode_one m source source_length offset of
        None \<Rightarrow> Inl GXOS_MULTIBYTE_STATUS_INVALID_UTF8
      | Some (code_point, consumed) \<Rightarrow>
          if required_units > UINT64_MAX - (if code_point > 0xFFFF then 2 else 1)
          then Inl GXOS_MULTIBYTE_STATUS_SIZE_OVERFLOW
          else count_loop m source source_length (offset + of_nat consumed)
                 (required_units + (if code_point > 0xFFFF then 2 else 1)))"
  by pat_completeness auto
termination
  by (relation "measure (\<lambda>(m, source, source_length, offset, required_units). unat source_length - unat offset)")
     (auto dest!: decode_one_consumed simp: unat_offset_step)

declare count_loop.simps [simp del]

definition store_u16 :: "memory \<Rightarrow> u64 \<Rightarrow> u16 \<Rightarrow> memory" where
  "store_u16 m p u = m(p := ucast u, p + 1 := ucast (drop_bit 8 u))"

definition load_u16 :: "memory \<Rightarrow> u64 \<Rightarrow> u16" where
  "load_u16 m p = ucast (m p) OR push_bit 8 (ucast (m (p + 1)))"

definition store_code_point :: "memory \<Rightarrow> u64 \<Rightarrow> u32 \<Rightarrow> memory \<times> u64" where
  "store_code_point m out code_point =
    (if code_point \<le> 0xFFFF then (store_u16 m out (ucast code_point), 1)
     else let adjusted = code_point - 0x10000;
              m = store_u16 m out (ucast (0xD800 + drop_bit 10 adjusted));
              m = store_u16 m (out + 2) (ucast (0xDC00 + (adjusted AND 0x3FF)))
       in (m, 2))"

text \<open>The second pass: it decodes again, from the memory it writes to.\<close>

function write_loop :: "u64 \<Rightarrow> u64 \<Rightarrow> u64 \<Rightarrow> memory \<Rightarrow> u64 \<Rightarrow> u64 \<Rightarrow> memory \<times> u64 option" where
  "write_loop source source_length destination m offset units =
    (if offset = source_length then (m, Some units)
     else case decode_one m source source_length offset of
        None \<Rightarrow> (m, None)
      | Some (code_point, consumed) \<Rightarrow>
          (case store_code_point m (destination + 2 * units) code_point of (m, n) \<Rightarrow>
             write_loop source source_length destination m (offset + of_nat consumed) (units + n)))"
  by pat_completeness auto
termination
  by (relation "measure (\<lambda>(source, source_length, destination, m, offset, units). unat source_length - unat offset)")
     (auto dest!: decode_one_consumed simp: unat_offset_step)

declare write_loop.simps [simp del]

subsection \<open>The contract\<close>

definition capture_bytes :: "memory \<Rightarrow> u64 \<Rightarrow> u64 \<Rightarrow> u8 list" where
  "capture_bytes m source byte_count =
     map (\<lambda>i. m (source + of_nat i)) [0..<min (unat byte_count) GXOS_MULTIBYTE_MAX_CAPTURE_BYTES]"

definition capture_output :: "memory \<Rightarrow> u64 \<Rightarrow> u64 \<Rightarrow> u16 list" where
  "capture_output m destination unit_count =
     map (\<lambda>i. load_u16 m (destination + 2 * of_nat i)) [0..<min (unat unit_count) GXOS_MULTIBYTE_MAX_CAPTURE_UNITS]"

type_synonym multibyte_result = "u32 \<times> u32 \<times> GXOS_MULTIBYTE_REPORT \<times> memory"

definition fail_result :: "GXOS_MULTIBYTE_REPORT \<Rightarrow> u32 \<Rightarrow> GXOS_MULTIBYTE_STATUS \<Rightarrow> memory \<Rightarrow> multibyte_result" where
  "fail_result report error status m =
     (0, error, report\<lparr>mp_status := status, mp_last_error_after := error\<rparr>, m)"

definition initial_report :: "u32 \<Rightarrow> u32 \<Rightarrow> u64 \<Rightarrow> u32 \<Rightarrow> u64 \<Rightarrow> u32 \<Rightarrow> u32 \<Rightarrow> GXOS_MULTIBYTE_REPORT" where
  "initial_report code_page flags source cb_multi_byte destination cch_wide_char previous_last_error =
     \<lparr>mp_code_page = code_page, mp_flags = flags, mp_source = source, mp_cb_multi_byte = cb_multi_byte,
      mp_destination = destination, mp_cch_wide_char = cch_wide_char,
      mp_source_bytes_including_terminator = 0, mp_source_bytes_excluding_terminator = 0,
      mp_required_utf16_units = 0, mp_written_utf16_units = 0, mp_destination_range_valid = False,
      mp_destination_zeroed_before_call = False, mp_source_capture = [], mp_destination_before = [],
      mp_destination_after = [], mp_output_capture = [], mp_status = GXOS_MULTIBYTE_STATUS_INVALID_OUTPUT,
      mp_last_error_before = previous_last_error, mp_last_error_after = previous_last_error\<rparr>"

text \<open>The checks of the arguments up to the source, with the status of the first that fails.\<close>

definition check_arguments ::
  "u32 \<Rightarrow> u32 \<Rightarrow> u32 \<Rightarrow> u64 \<Rightarrow> u32 \<Rightarrow> GXOS_MULTIBYTE_MEMORY_CONTEXT option \<Rightarrow> GXOS_MULTIBYTE_STATUS" where
  "check_arguments code_page flags cb_multi_byte destination cch_wide_char mem =
    (case mem of None \<Rightarrow> GXOS_MULTIBYTE_STATUS_INVALID_CONTEXT | Some c \<Rightarrow>
     if \<not> context_valid mem then GXOS_MULTIBYTE_STATUS_INVALID_CONTEXT
     else if code_page \<noteq> GXOS_MULTIBYTE_CP_UTF8 then GXOS_MULTIBYTE_STATUS_INVALID_CODE_PAGE
     else if flags \<noteq> 0 \<and> flags \<noteq> GXOS_MULTIBYTE_MB_ERR_INVALID_CHARS then GXOS_MULTIBYTE_STATUS_INVALID_FLAGS
     else if cb_multi_byte = 0 \<or> sint cb_multi_byte < - 1 then GXOS_MULTIBYTE_STATUS_INVALID_BYTE_COUNT
     else if destination = 0 then
       (if cch_wide_char \<noteq> 0 then GXOS_MULTIBYTE_STATUS_NULL_DESTINATION else GXOS_MULTIBYTE_STATUS_OK)
     else if sint cch_wide_char \<le> 0 then GXOS_MULTIBYTE_STATUS_INVALID_BYTE_COUNT
     else mb_range_covered c destination (ucast cch_wide_char * 2) True
            GXOS_MULTIBYTE_STATUS_NULL_DESTINATION GXOS_MULTIBYTE_STATUS_NONCANONICAL_DESTINATION
            GXOS_MULTIBYTE_STATUS_UNWRITABLE_DESTINATION GXOS_MULTIBYTE_STATUS_DESTINATION_RANGE_OVERFLOW)"

text \<open>The part after the first pass, which has found that the source needs \<open>required_units\<close>.\<close>

definition convert ::
  "memory \<Rightarrow> u64 \<Rightarrow> u64 \<Rightarrow> u64 \<Rightarrow> u32 \<Rightarrow> u32 \<Rightarrow> u64 \<Rightarrow> GXOS_MULTIBYTE_REPORT \<Rightarrow> multibyte_result" where
  "convert m source source_length destination cch_wide_char previous_last_error required_units report =
    (let report = report\<lparr>mp_required_utf16_units := required_units\<rparr> in
     if required_units > 0x7FFFFFFF
     then fail_result report GXOS_MULTIBYTE_ERROR_INVALID_PARAMETER GXOS_MULTIBYTE_STATUS_SIZE_OVERFLOW m
     else if destination = 0
     then (ucast required_units, previous_last_error,
           report\<lparr>mp_status := GXOS_MULTIBYTE_STATUS_OK, mp_last_error_after := previous_last_error\<rparr>, m)
     else if required_units > ucast cch_wide_char
     then fail_result report GXOS_MULTIBYTE_ERROR_INSUFFICIENT_BUFFER GXOS_MULTIBYTE_STATUS_INSUFFICIENT_BUFFER m
     else case write_loop source source_length destination m 0 0 of
        (m, None) \<Rightarrow> fail_result report GXOS_MULTIBYTE_ERROR_NO_UNICODE_TRANSLATION GXOS_MULTIBYTE_STATUS_INVALID_UTF8 m
      | (m, Some units) \<Rightarrow>
          (ucast units, previous_last_error,
           report\<lparr>mp_written_utf16_units := units, mp_output_capture := capture_output m destination units,
             mp_destination_after := capture_bytes m destination (ucast cch_wide_char * 2),
             mp_destination_zeroed_before_call := list_all (\<lambda>b. b = 0) (mp_destination_before report),
             mp_status := GXOS_MULTIBYTE_STATUS_OK, mp_last_error_after := previous_last_error\<rparr>, m))"

definition gxos_multibyte_to_wide_char_checked ::
  "memory \<Rightarrow> u32 \<Rightarrow> u32 \<Rightarrow> u64 \<Rightarrow> u32 \<Rightarrow> u64 \<Rightarrow> u32 \<Rightarrow> GXOS_MULTIBYTE_MEMORY_CONTEXT option \<Rightarrow> u32 \<Rightarrow> multibyte_result" where
  "gxos_multibyte_to_wide_char_checked m code_page flags source cb_multi_byte destination cch_wide_char mem
      previous_last_error =
    (let report = initial_report code_page flags source cb_multi_byte destination cch_wide_char previous_last_error;
         status = check_arguments code_page flags cb_multi_byte destination cch_wide_char mem;
         destination_bytes = (if destination = 0 then 0 else ucast cch_wide_char * 2 :: u64)
     in case mem of
       None \<Rightarrow> fail_result report GXOS_MULTIBYTE_ERROR_INVALID_PARAMETER GXOS_MULTIBYTE_STATUS_INVALID_CONTEXT m
     | Some c \<Rightarrow>
       if status \<noteq> GXOS_MULTIBYTE_STATUS_OK
       then fail_result report GXOS_MULTIBYTE_ERROR_INVALID_PARAMETER status m
       else let report = (if destination = 0 then report
                          else report\<lparr>mp_destination_range_valid := True,
                                 mp_destination_before := capture_bytes m destination destination_bytes\<rparr>)
         in case source_byte_range m source cb_multi_byte c of (status, source_length, without_terminator) \<Rightarrow>
           if status \<noteq> GXOS_MULTIBYTE_STATUS_OK
           then fail_result report GXOS_MULTIBYTE_ERROR_INVALID_PARAMETER status m
           else let report = report\<lparr>mp_source_bytes_including_terminator := source_length,
                       mp_source_bytes_excluding_terminator := without_terminator,
                       mp_source_capture := capture_bytes m source source_length\<rparr>
             in if destination \<noteq> 0 \<and> mb_ranges_overlap source source_length destination destination_bytes
                then fail_result report GXOS_MULTIBYTE_ERROR_INVALID_PARAMETER
                       GXOS_MULTIBYTE_STATUS_OVERLAPPING_RANGES m
                else case count_loop m source source_length 0 0 of
                    Inl status \<Rightarrow>
                      fail_result report
                        (if status = GXOS_MULTIBYTE_STATUS_INVALID_UTF8
                         then GXOS_MULTIBYTE_ERROR_NO_UNICODE_TRANSLATION
                         else GXOS_MULTIBYTE_ERROR_INVALID_PARAMETER) status m
                  | Inr required_units \<Rightarrow>
                      convert m source source_length destination cch_wide_char previous_last_error required_units report)"

end
