(* ===== verification/Utf8.thy ===== *)
theory Utf8
  imports Multibyte
begin

text \<open>
  The encodings that \<open>Multibyte\<close> is measured against: UTF-8 and UTF-16 as functions from a Unicode scalar value
  to its bytes and units. The decoder of \<open>platform_multibyte.c\<close> accepts exactly the bytes of the first.
\<close>

subsection \<open>The encodings\<close>

definition scalar :: "nat \<Rightarrow> bool" where
  "scalar cp \<longleftrightarrow> cp < 0x110000 \<and> \<not> (0xD800 \<le> cp \<and> cp \<le> 0xDFFF)"

definition utf8_bytes :: "nat \<Rightarrow> nat list" where
  "utf8_bytes cp =
    (if cp < 0x80 then [cp]
     else if cp < 0x800 then [0xC0 + cp div 64, 0x80 + cp mod 64]
     else if cp < 0x10000 then [0xE0 + cp div 64 div 64, 0x80 + cp div 64 mod 64, 0x80 + cp mod 64]
     else [0xF0 + cp div 64 div 64 div 64, 0x80 + cp div 64 div 64 mod 64, 0x80 + cp div 64 mod 64, 0x80 + cp mod 64])"

definition utf16_units :: "nat \<Rightarrow> u16 list" where
  "utf16_units cp =
    (if cp < 0x10000 then [of_nat cp]
     else [of_nat (0xD800 + (cp - 0x10000) div 1024), of_nat (0xDC00 + (cp - 0x10000) mod 1024)])"

subsection \<open>Bytes as numbers\<close>

lemma unat_lt_256 [simp]: "unat (c :: u8) < 256"
  using unsigned_less [of c] by simp

lemma u8_enum: "(\<And>n. n < 256 \<Longrightarrow> P (of_nat n :: u8)) \<Longrightarrow> P c"
proof -
  assume "\<And>n. n < 256 \<Longrightarrow> P (of_nat n :: u8)"
  from this [OF unat_lt_256 [of c]] show "P c" by simp
qed

lemma continuation_iff: "(c :: u8) AND 0xC0 = 0x80 \<longleftrightarrow> 0x80 \<le> unat c \<and> unat c < 0xC0"
proof (rule u8_enum [of "\<lambda>c. (c AND 0xC0 = 0x80) = (0x80 \<le> unat c \<and> unat c < 0xC0)"])
  have "\<forall>n \<in> set [0..<256]. ((of_nat n :: u8) AND 0xC0 = 0x80) = (0x80 \<le> unat (of_nat n :: u8) \<and> unat (of_nat n :: u8) < 0xC0)"
    by code_simp
  then show "((of_nat n :: u8) AND 0xC0 = 0x80) = (0x80 \<le> unat (of_nat n :: u8) \<and> unat (of_nat n :: u8) < 0xC0)"
    if "n < 256" for n using that by simp
qed

lemma and_mask_mod: "unat ((c :: u8) AND mask k) = unat c mod 2 ^ k"
  unfolding take_bit_eq_mask [symmetric] by (subst unsigned_take_bit_eq) (rule take_bit_eq_mod)

lemma byte_masks:
  "unat ((c :: u8) AND 0x3F) = unat c mod 64" "unat (c AND 0x1F) = unat c mod 32"
  "unat (c AND 0x0F) = unat c mod 16" "unat (c AND 0x07) = unat c mod 8"
  using and_mask_mod [of c 6] and_mask_mod [of c 5] and_mask_mod [of c 4] and_mask_mod [of c 3]
  by (simp_all add: mask_eq_exp_minus_1)

lemma unat_ucast_u8_u32 [simp]: "unat (ucast (c :: u8) :: u32) = unat c"
proof -
  have "unat c < 2 ^ 32" by (rule less_trans [OF unat_lt_256]) simp
  then show ?thesis by (simp add: unsigned_ucast_eq take_bit_eq_mod)
qed

lemma unat_shift_or:
  assumes "unat (v :: u32) < 2 ^ 26"
  shows "unat (push_bit 6 v OR ucast ((c :: u8) AND 0x3F)) = unat v * 64 + unat c mod 64"
proof -
  have m: "c AND 0x3F = take_bit 6 c" by (simp add: take_bit_eq_mask mask_eq_exp_minus_1)
  have "push_bit 6 v AND ucast (c AND 0x3F) = (0 :: u32)"
    unfolding m by (rule bit_eqI) (auto simp: bit_simps)
  then have "push_bit 6 v OR ucast (c AND 0x3F) = push_bit 6 v + (ucast (c AND 0x3F) :: u32)"
    by (rule disjunctive_add_eq_or [symmetric])
  moreover have p: "unat (push_bit 6 v) = unat v * 64"
  proof -
    have "unat (v * 64) = unat v * 64" using assms unat_mult_lem [of v 64] by simp
    then show ?thesis by (simp add: push_bit_eq_mult)
  qed
  moreover have "unat (push_bit 6 v) + unat (ucast (c AND 0x3F) :: u32) < 2 ^ 32"
  proof -
    have "unat c mod 64 < 64" by simp
    with assms show ?thesis by (simp add: p byte_masks)
  qed
  ultimately show ?thesis by (simp add: unat_add_fits32 byte_masks)
qed

subsection \<open>The decoder\<close>

definition cont :: "u8 \<Rightarrow> bool" where
  "cont c \<longleftrightarrow> 0x80 \<le> unat c \<and> unat c < 0xC0"

definition second_ok :: "u8 \<Rightarrow> u8 \<Rightarrow> bool" where
  "second_ok f c \<longleftrightarrow> (unat f = 0xE0 \<longrightarrow> 0xA0 \<le> unat c) \<and> (unat f = 0xED \<longrightarrow> unat c \<le> 0x9F)
     \<and> (unat f = 0xF0 \<longrightarrow> 0x90 \<le> unat c) \<and> (unat f = 0xF4 \<longrightarrow> unat c \<le> 0x8F)"

definition six :: "u32 \<Rightarrow> u8 \<Rightarrow> u32" where
  "six v c = push_bit 6 v OR ucast (c AND 0x3F)"

lemma unat_six: "unat v < 2 ^ 26 \<Longrightarrow> cont c \<Longrightarrow> unat (six v c) = unat v * 64 + (unat c - 0x80)"
proof -
  assume v: "unat v < 2 ^ 26" and c: "cont c"
  then obtain k where k: "unat c = 128 + k" "k < 64" using le_Suc_ex [of 128 "unat c"] by (auto simp: cont_def)
  then have "unat c mod 64 = k" by (simp add: mod_add_left_eq [symmetric])
  with unat_shift_or [OF v, of c] k show ?thesis by (simp add: six_def)
qed

lemma loop_step:
  "continuation_loop m p f index (Suc n) v =
     (if cont (m (p + of_nat index)) \<and> (index = 1 \<longrightarrow> second_ok f (m (p + of_nat index)))
      then continuation_loop m p f (Suc index) n (six v (m (p + of_nat index))) else None)"
proof -
  have eqs: "f = 0xE0 \<longleftrightarrow> unat f = 0xE0" "f = 0xED \<longleftrightarrow> unat f = 0xED" "f = 0xF0 \<longleftrightarrow> unat f = 0xF0" "f = 0xF4 \<longleftrightarrow> unat f = 0xF4"
    by (simp_all add: unat_eq_iff)
  show ?thesis
    unfolding continuation_loop.simps Let_def continuation_iff eqs
    by (auto simp: cont_def second_ok_def six_def word_less_nat_alt)
qed

lemma loop_iff:
  "continuation_loop m p f (Suc i) n v =
     (if (\<forall>j. Suc i \<le> j \<longrightarrow> j \<le> i + n \<longrightarrow> cont (m (p + of_nat j))) \<and> (i = 0 \<longrightarrow> 0 < n \<longrightarrow> second_ok f (m (p + 1)))
      then Some (foldl six v (map (\<lambda>j. m (p + of_nat j)) [Suc i..<Suc i + n])) else None)"
proof (induction n arbitrary: i v)
  case 0
  then show ?case by simp
next
  case (Suc n)
  have split: "(\<forall>j. Suc i \<le> j \<longrightarrow> j \<le> i + Suc n \<longrightarrow> P j) \<longleftrightarrow> P (Suc i) \<and> (\<forall>j. Suc (Suc i) \<le> j \<longrightarrow> j \<le> Suc i + n \<longrightarrow> P j)" for P
  proof (intro iffI conjI allI impI)
    fix j assume "P (Suc i) \<and> (\<forall>j. Suc (Suc i) \<le> j \<longrightarrow> j \<le> Suc i + n \<longrightarrow> P j)" "Suc i \<le> j" "j \<le> i + Suc n"
    then show "P j" by (cases "j = Suc i") auto
  qed auto
  have l: "[Suc i..<Suc i + Suc n] = Suc i # [Suc (Suc i)..<Suc (Suc i) + n]" by (simp add: upt_conv_Cons)
  show ?case
    unfolding loop_step [of m p f "Suc i" n v] Suc.IH [of "Suc i"] split l by (cases i) auto
qed

text \<open>The bytes of the sequence that starts at \<open>p\<close>, as numbers.\<close>

definition byte :: "memory \<Rightarrow> u64 \<Rightarrow> nat \<Rightarrow> nat" where
  "byte m p i = unat (m (p + of_nat i))"

lemma room_iff:
  assumes "off < len" "count \<le> 4"
  shows "\<not> of_nat count > len - off \<longleftrightarrow> unat off + count \<le> unat (len :: u64)"
proof -
  have "unat (of_nat count :: u64) = count" using assms(2) by (intro unat_of_nat_u64) simp
  moreover have "unat (len - off) = unat len - unat off" using assms(1) by (intro unat_sub_le) simp
  ultimately show ?thesis using assms(1) by (simp add: not_less word_le_nat_alt word_less_nat_alt) linarith
qed

lemma decode_multi:
  assumes "off < len" "\<not> m (s + off) \<le> 0x7F" "lead_byte (m (s + off)) = Some (Suc k, v, least)" "0 < k" "k \<le> 3"
  shows "decode_one m s len off = Some (cp, n) \<longleftrightarrow>
    n = Suc k \<and> unat off + n \<le> unat len \<and> (\<forall>j. 1 \<le> j \<longrightarrow> j \<le> k \<longrightarrow> cont (m (s + off + of_nat j)))
    \<and> second_ok (m (s + off)) (m (s + off + 1))
    \<and> cp = foldl six v (map (\<lambda>j. m (s + off + of_nat j)) [1..<Suc k])
    \<and> \<not> (cp < least \<or> cp > 0x10FFFF \<or> (cp \<ge> 0xD800 \<and> cp \<le> 0xDFFF))"
proof -
  have l: "continuation_loop m (s + off) (m (s + off)) 1 (Suc k - 1) v =
     (if (\<forall>j. 1 \<le> j \<longrightarrow> j \<le> k \<longrightarrow> cont (m (s + off + of_nat j))) \<and> second_ok (m (s + off)) (m (s + off + 1))
      then Some (foldl six v (map (\<lambda>j. m (s + off + of_nat j)) [1..<Suc k])) else None)"
    using loop_iff [of m "s + off" "m (s + off)" 0 k v] assms(4) by simp
  have r: "\<not> of_nat (Suc k) > len - off \<longleftrightarrow> unat off + Suc k \<le> unat len"
    using room_iff [OF assms(1), of "Suc k"] assms(5) by simp
  show ?thesis
    using assms(1) r unfolding decode_one_def Let_def if_not_P [OF assms(2)] assms(3) option.case prod.case l
    by (auto simp: not_le)
qed

subsection \<open>The same, on numbers\<close>

definition tail :: "nat \<Rightarrow> bool" where
  "tail b \<longleftrightarrow> 0x80 \<le> b \<and> b < 0xC0"

lemma tail_bound: "tail b \<Longrightarrow> b - 0x80 \<le> 63"
  unfolding tail_def by linarith

lemma small: "a \<le> 319 \<Longrightarrow> b \<le> 63 \<Longrightarrow> a * 64 + b < (2 :: nat) ^ 26"
  by simp

lemma digits: "x < 64 \<Longrightarrow> (a * 64 + x) div 64 = a \<and> (a * 64 + x) mod 64 = (x :: nat)"
  by simp

lemma two_numbers:
  "0xC2 \<le> b0 \<and> b0 \<le> 0xDF \<and> tail b1 \<and> cp = (b0 - 0xC0) * 64 + (b1 - 0x80) \<longleftrightarrow>
     0x80 \<le> cp \<and> cp < 0x800 \<and> b0 = 0xC0 + cp div 64 \<and> b1 = 0x80 + cp mod 64" (is "?L \<longleftrightarrow> ?R")
proof
  assume L: ?L
  then obtain x0 x1 where x: "b0 = 0xC0 + x0" "b1 = 0x80 + x1" "x1 < 64" "2 \<le> x0" "x0 < 32"
    using le_Suc_ex [of "0xC0" b0] le_Suc_ex [of "0x80" b1] by (auto simp: tail_def)
  with L have cp: "cp = x0 * 64 + x1" by simp
  have "cp div 64 = x0" "cp mod 64 = x1" unfolding cp using digits [OF x(3)] by blast+
  moreover have "0x80 \<le> cp" "cp < 0x800" using x(3-5) unfolding cp by linarith+
  ultimately show ?R using x by simp
next
  assume R: ?R
  define x0 x1 where x: "x0 = cp div 64" "x1 = cp mod 64"
  have cp: "cp = x0 * 64 + x1" "x1 < 64" by (simp_all add: x)
  have "2 \<le> x0" "x0 < 32" using R cp by linarith+
  with R cp show ?L unfolding x [symmetric] by (simp add: tail_def)
qed

lemma three_numbers:
  "0xE0 \<le> b0 \<and> b0 \<le> 0xEF \<and> tail b1 \<and> tail b2 \<and> (b0 = 0xE0 \<longrightarrow> 0xA0 \<le> b1) \<and> (b0 = 0xED \<longrightarrow> b1 \<le> 0x9F)
     \<and> cp = ((b0 - 0xE0) * 64 + (b1 - 0x80)) * 64 + (b2 - 0x80) \<longleftrightarrow>
   0x800 \<le> cp \<and> cp < 0x10000 \<and> \<not> (0xD800 \<le> cp \<and> cp \<le> 0xDFFF)
     \<and> b0 = 0xE0 + cp div 64 div 64 \<and> b1 = 0x80 + cp div 64 mod 64 \<and> b2 = 0x80 + cp mod 64" (is "?L \<longleftrightarrow> ?R")
proof
  assume L: ?L
  then obtain x0 x1 x2 where x: "b0 = 0xE0 + x0" "b1 = 0x80 + x1" "b2 = 0x80 + x2" "x1 < 64" "x2 < 64" "x0 < 16"
    using le_Suc_ex [of "0xE0" b0] le_Suc_ex [of "0x80" b1] le_Suc_ex [of "0x80" b2] by (auto simp: tail_def)
  with L have cp: "cp = (x0 * 64 + x1) * 64 + x2" by simp
  then have cp': "cp = x0 * 4096 + x1 * 64 + x2" by simp
  have "cp div 64 = x0 * 64 + x1" "cp mod 64 = x2" unfolding cp using digits [OF x(5)] by blast+
  moreover have "(x0 * 64 + x1) div 64 = x0" "(x0 * 64 + x1) mod 64 = x1" using digits [OF x(4)] by blast+
  moreover have "1 \<le> x0 \<or> 32 \<le> x1" using L x(1,2) by (cases "x0 = 0") auto
  then have "0x800 \<le> cp" unfolding cp' by (elim disjE) linarith+
  moreover have "x0 \<le> 12 \<or> 14 \<le> x0 \<or> x0 = 13 \<and> x1 < 32" using L x(1,2) by (cases "x0 = 13") auto
  then have "\<not> (0xD800 \<le> cp \<and> cp \<le> 0xDFFF)"
    using x(4,5) unfolding cp' by (elim disjE) linarith+
  moreover have "cp < 0x10000" using x(4-6) unfolding cp' by linarith
  ultimately show ?R using x by simp
next
  assume R: ?R
  define x0 x1 x2 where x: "x0 = cp div 64 div 64" "x1 = cp div 64 mod 64" "x2 = cp mod 64"
  have cp: "cp = (x0 * 64 + x1) * 64 + x2" "x1 < 64" "x2 < 64" by (simp_all add: x)
  have cp': "cp = x0 * 4096 + x1 * 64 + x2" unfolding cp(1) by simp
  have r: "0x800 \<le> cp" "cp < 0x10000" "cp < 0xD800 \<or> 0xDFFF < cp" using R by auto
  have "x0 < 16" using r(2) cp' by linarith
  moreover have "32 \<le> x1" if "x0 = 0" using that r(1) cp' cp(3) by linarith
  moreover have "x1 \<le> 31" if "x0 = 13" using r(3) that cp' cp(2,3) by (elim disjE) linarith+
  ultimately show ?L using R cp unfolding x [symmetric] by (simp add: tail_def)
qed

lemma four_numbers:
  "0xF0 \<le> b0 \<and> b0 \<le> 0xF4 \<and> tail b1 \<and> tail b2 \<and> tail b3 \<and> (b0 = 0xF0 \<longrightarrow> 0x90 \<le> b1) \<and> (b0 = 0xF4 \<longrightarrow> b1 \<le> 0x8F)
     \<and> cp = (((b0 - 0xF0) * 64 + (b1 - 0x80)) * 64 + (b2 - 0x80)) * 64 + (b3 - 0x80) \<longleftrightarrow>
   0x10000 \<le> cp \<and> cp < 0x110000
     \<and> b0 = 0xF0 + cp div 64 div 64 div 64 \<and> b1 = 0x80 + cp div 64 div 64 mod 64 \<and> b2 = 0x80 + cp div 64 mod 64
     \<and> b3 = 0x80 + cp mod 64" (is "?L \<longleftrightarrow> ?R")
proof
  assume L: ?L
  then obtain x0 x1 x2 x3 where x: "b0 = 0xF0 + x0" "b1 = 0x80 + x1" "b2 = 0x80 + x2" "b3 = 0x80 + x3"
      "x1 < 64" "x2 < 64" "x3 < 64" "x0 < 5"
    using le_Suc_ex [of "0xF0" b0] le_Suc_ex [of "0x80" b1] le_Suc_ex [of "0x80" b2] le_Suc_ex [of "0x80" b3]
    by (auto simp: tail_def)
  with L have cp: "cp = ((x0 * 64 + x1) * 64 + x2) * 64 + x3" by simp
  then have cp': "cp = x0 * 262144 + x1 * 4096 + x2 * 64 + x3" by simp
  have "cp div 64 = (x0 * 64 + x1) * 64 + x2" "cp mod 64 = x3" unfolding cp using digits [OF x(7)] by blast+
  moreover have "((x0 * 64 + x1) * 64 + x2) div 64 = x0 * 64 + x1" "((x0 * 64 + x1) * 64 + x2) mod 64 = x2"
    using digits [OF x(6)] by blast+
  moreover have "(x0 * 64 + x1) div 64 = x0" "(x0 * 64 + x1) mod 64 = x1" using digits [OF x(5)] by blast+
  moreover have "1 \<le> x0 \<or> 16 \<le> x1" using L x(1,2) by (cases "x0 = 0") auto
  then have "0x10000 \<le> cp" unfolding cp' by (elim disjE) linarith+
  moreover have "x0 \<le> 3 \<or> x0 = 4 \<and> x1 < 16" using L x(1,2,8) by (cases "x0 = 4") auto
  then have "cp < 0x110000" using x(5-7) unfolding cp' by (elim disjE) linarith+
  ultimately show ?R using x by simp
next
  assume R: ?R
  define x0 x1 x2 x3 where x: "x0 = cp div 64 div 64 div 64" "x1 = cp div 64 div 64 mod 64" "x2 = cp div 64 mod 64" "x3 = cp mod 64"
  have cp: "cp = ((x0 * 64 + x1) * 64 + x2) * 64 + x3" "x1 < 64" "x2 < 64" "x3 < 64" by (simp_all add: x)
  have cp': "cp = x0 * 262144 + x1 * 4096 + x2 * 64 + x3" unfolding cp(1) by simp
  have r: "0x10000 \<le> cp" "cp < 0x110000" using R by auto
  have "x0 < 5" using r(2) cp' by linarith
  moreover have "16 \<le> x1" if "x0 = 0" using that r(1) cp' cp(3,4) by linarith
  moreover have "x1 \<le> 15" if "x0 = 4" using r(2) that cp' by linarith
  ultimately show ?L using R cp unfolding x [symmetric] by (simp add: tail_def)
qed

subsection \<open>Exactness of the decoder\<close>

lemma utf8_low_bits:
  fixes b :: nat
  shows "0xC0 \<le> b \<Longrightarrow> b \<le> 0xDF \<Longrightarrow> b mod 32 = b - 0xC0" "0xE0 \<le> b \<Longrightarrow> b \<le> 0xEF \<Longrightarrow> b mod 16 = b - 0xE0"
    "0xF0 \<le> b \<Longrightarrow> b \<le> 0xF7 \<Longrightarrow> b mod 8 = b - 0xF0"
  using le_Suc_ex [of "0xC0" b] le_Suc_ex [of "0xE0" b] le_Suc_ex [of "0xF0" b]
  by (auto simp: mod_add_left_eq [symmetric])

lemma cont_tail:
  "cont (m (p + 1)) = tail (byte m p (Suc 0))" "cont (m (p + 2)) = tail (byte m p 2)" "cont (m (p + 3)) = tail (byte m p 3)"
  by (simp_all add: cont_def tail_def byte_def)

lemma good_value:
  "\<not> (cp < least \<or> cp > 0x10FFFF \<or> (cp \<ge> 0xD800 \<and> cp \<le> (0xDFFF :: u32))) \<longleftrightarrow>
     unat least \<le> unat cp \<and> scalar (unat cp)"
  by (auto simp: scalar_def word_less_nat_alt word_le_nat_alt)

lemma all_upto:
  "(\<forall>j. Suc 0 \<le> j \<longrightarrow> j \<le> Suc 0 \<longrightarrow> P j) = P 1"
  "(\<forall>j. Suc 0 \<le> j \<longrightarrow> j \<le> 2 \<longrightarrow> P j) = (P 1 \<and> P 2)"
  "(\<forall>j. Suc 0 \<le> j \<longrightarrow> j \<le> 3 \<longrightarrow> P j) = (P 1 \<and> P 2 \<and> P 3)"
proof -
  have "j = 1" if "Suc 0 \<le> j" "j \<le> Suc 0" for j :: nat using that by simp
  then show "(\<forall>j. Suc 0 \<le> j \<longrightarrow> j \<le> Suc 0 \<longrightarrow> P j) = P 1" by auto
  have "j = 1 \<or> j = 2" if "Suc 0 \<le> j" "j \<le> 2" for j :: nat using that by linarith
  then show "(\<forall>j. Suc 0 \<le> j \<longrightarrow> j \<le> 2 \<longrightarrow> P j) = (P 1 \<and> P 2)" by auto
  have "j = 1 \<or> j = 2 \<or> j = 3" if "Suc 0 \<le> j" "j \<le> 3" for j :: nat using that by linarith
  then show "(\<forall>j. Suc 0 \<le> j \<longrightarrow> j \<le> 3 \<longrightarrow> P j) = (P 1 \<and> P 2 \<and> P 3)" by auto
qed

lemma decode_two:
  assumes "off < len" "0xC2 \<le> byte m (s + off) 0" "byte m (s + off) 0 \<le> 0xDF"
  shows "decode_one m s len off = Some (cp, n) \<longleftrightarrow>
    n = 2 \<and> unat off + 2 \<le> unat len \<and> tail (byte m (s + off) 1)
    \<and> unat cp = (byte m (s + off) 0 - 0xC0) * 64 + (byte m (s + off) 1 - 0x80)"
proof -
  let ?f = "m (s + off)" and ?c = "m (s + off + 1)" and ?b = "byte m (s + off)"
  have f: "?b 0 = unat ?f" "?b 1 = unat ?c" "0xC2 \<le> unat ?f" "unat ?f \<le> 0xDF"
    using assms(2,3) by (simp_all add: byte_def)
  have lb: "lead_byte ?f = Some (Suc 1, ucast (?f AND 0x1F), 0x80)" "\<not> ?f \<le> 0x7F"
    using f by (simp_all add: lead_byte_def word_le_nat_alt)
  have so: "second_ok ?f ?c" using f by (simp add: second_ok_def)
  have v: "unat (six (ucast (?f AND 0x1F)) ?c) = (?b 0 - 0xC0) * 64 + (?b 1 - 0x80)" if "tail (?b 1)"
    using unat_six [of "ucast (?f AND 0x1F)" ?c] that f utf8_low_bits(1) [of "unat ?f"]
    by (simp add: byte_masks cont_def tail_def)
  note num = two_numbers [of "?b 0" "?b 1" "unat cp"]
  have d: "decode_one m s len off = Some (cp, n) \<longleftrightarrow>
      n = 2 \<and> unat off + 2 \<le> unat len \<and> tail (?b 1) \<and> cp = six (ucast (?f AND 0x1F)) ?c
      \<and> 0x80 \<le> unat cp \<and> scalar (unat cp)"
    using decode_multi [where m = m and s = s and off = off and len = len and k = 1 and cp = cp and n = n, OF assms(1) lb(2) lb(1)] so
    unfolding good_value by (auto simp: all_upto cont_tail)
  have e: "cp = six (ucast (?f AND 0x1F)) ?c \<longleftrightarrow> unat cp = (?b 0 - 0xC0) * 64 + (?b 1 - 0x80)" if "tail (?b 1)"
    unfolding unat_eq_iff [of cp] v [OF that] ..
  have g: "0x80 \<le> unat cp \<and> scalar (unat cp)" if "tail (?b 1)" "unat cp = (?b 0 - 0xC0) * 64 + (?b 1 - 0x80)"
  proof -
    have "0x80 \<le> unat cp \<and> unat cp < 0x800" using num that assms(2,3) by blast
    then show ?thesis by (simp add: scalar_def)
  qed
  from d e g show ?thesis by blast
qed

lemma decode_three:
  assumes "off < len" "0xE0 \<le> byte m (s + off) 0" "byte m (s + off) 0 \<le> 0xEF"
  shows "decode_one m s len off = Some (cp, n) \<longleftrightarrow>
    n = 3 \<and> unat off + 3 \<le> unat len \<and> tail (byte m (s + off) 1) \<and> tail (byte m (s + off) 2)
    \<and> (byte m (s + off) 0 = 0xE0 \<longrightarrow> 0xA0 \<le> byte m (s + off) 1) \<and> (byte m (s + off) 0 = 0xED \<longrightarrow> byte m (s + off) 1 \<le> 0x9F)
    \<and> unat cp = ((byte m (s + off) 0 - 0xE0) * 64 + (byte m (s + off) 1 - 0x80)) * 64 + (byte m (s + off) 2 - 0x80)"
proof -
  let ?f = "m (s + off)" and ?c = "m (s + off + 1)" and ?d = "m (s + off + 2)" and ?b = "byte m (s + off)"
  have f: "?b 0 = unat ?f" "?b 1 = unat ?c" "?b 2 = unat ?d" "0xE0 \<le> unat ?f" "unat ?f \<le> 0xEF"
    using assms(2,3) by (simp_all add: byte_def)
  have lb: "lead_byte ?f = Some (Suc 2, ucast (?f AND 0x0F), 0x800)" "\<not> ?f \<le> 0x7F"
    using f by (simp_all add: lead_byte_def word_le_nat_alt)
  have so: "second_ok ?f ?c \<longleftrightarrow> (?b 0 = 0xE0 \<longrightarrow> 0xA0 \<le> ?b 1) \<and> (?b 0 = 0xED \<longrightarrow> ?b 1 \<le> 0x9F)"
    using f by (auto simp: second_ok_def)
  have v: "unat (six (six (ucast (?f AND 0x0F)) ?c) ?d) = ((?b 0 - 0xE0) * 64 + (?b 1 - 0x80)) * 64 + (?b 2 - 0x80)"
    if t: "tail (?b 1)" "tail (?b 2)"
  proof -
    have 1: "unat (six (ucast (?f AND 0x0F)) ?c) = (?b 0 - 0xE0) * 64 + (?b 1 - 0x80)"
      using unat_six [of "ucast (?f AND 0x0F)" ?c] t(1) f utf8_low_bits(2) [of "unat ?f"]
      by (simp add: byte_masks cont_def tail_def)
    moreover have "?b 0 - 0xE0 \<le> 15" "?b 1 - 0x80 \<le> 63" using assms(3) tail_bound [OF t(1)] by linarith+
    then have "(?b 0 - 0xE0) * 64 + (?b 1 - 0x80) < 2 ^ 26" by (intro small) linarith+
    ultimately show ?thesis using unat_six [of "six (ucast (?f AND 0x0F)) ?c" ?d] t(2) f(3) by (simp add: cont_def tail_def)
  qed
  note num = three_numbers [of "?b 0" "?b 1" "?b 2" "unat cp"]
  have l: "[Suc 0..<3] = [1, 2]" by (simp add: upt_rec)
  have d: "decode_one m s len off = Some (cp, n) \<longleftrightarrow>
      n = 3 \<and> unat off + 3 \<le> unat len \<and> tail (?b 1) \<and> tail (?b 2) \<and> second_ok ?f ?c
      \<and> cp = six (six (ucast (?f AND 0x0F)) ?c) ?d \<and> 0x800 \<le> unat cp \<and> scalar (unat cp)"
    using decode_multi [where m = m and s = s and off = off and len = len and k = 2 and cp = cp and n = n, OF assms(1) lb(2) lb(1)]
    unfolding good_value by (auto simp: all_upto cont_tail l)
  have e: "cp = six (six (ucast (?f AND 0x0F)) ?c) ?d \<longleftrightarrow>
      unat cp = ((?b 0 - 0xE0) * 64 + (?b 1 - 0x80)) * 64 + (?b 2 - 0x80)" if "tail (?b 1)" "tail (?b 2)"
    unfolding unat_eq_iff [of cp] v [OF that] ..
  have g: "0x800 \<le> unat cp \<and> scalar (unat cp)" if "tail (?b 1)" "tail (?b 2)" "second_ok ?f ?c"
    "unat cp = ((?b 0 - 0xE0) * 64 + (?b 1 - 0x80)) * 64 + (?b 2 - 0x80)"
  proof -
    have "0x800 \<le> unat cp \<and> unat cp < 0x10000 \<and> \<not> (0xD800 \<le> unat cp \<and> unat cp \<le> 0xDFFF)"
      using num that assms(2,3) unfolding so by blast
    then show ?thesis by (simp add: scalar_def)
  qed
  from d e g so show ?thesis by blast
qed

lemma decode_four:
  assumes "off < len" "0xF0 \<le> byte m (s + off) 0" "byte m (s + off) 0 \<le> 0xF4"
  shows "decode_one m s len off = Some (cp, n) \<longleftrightarrow>
    n = 4 \<and> unat off + 4 \<le> unat len \<and> tail (byte m (s + off) 1) \<and> tail (byte m (s + off) 2) \<and> tail (byte m (s + off) 3)
    \<and> (byte m (s + off) 0 = 0xF0 \<longrightarrow> 0x90 \<le> byte m (s + off) 1) \<and> (byte m (s + off) 0 = 0xF4 \<longrightarrow> byte m (s + off) 1 \<le> 0x8F)
    \<and> unat cp = (((byte m (s + off) 0 - 0xF0) * 64 + (byte m (s + off) 1 - 0x80)) * 64 + (byte m (s + off) 2 - 0x80)) * 64
        + (byte m (s + off) 3 - 0x80)"
proof -
  let ?f = "m (s + off)" and ?c = "m (s + off + 1)" and ?d = "m (s + off + 2)" and ?e = "m (s + off + 3)"
    and ?b = "byte m (s + off)"
  have f: "?b 0 = unat ?f" "?b 1 = unat ?c" "?b 2 = unat ?d" "?b 3 = unat ?e" "0xF0 \<le> unat ?f" "unat ?f \<le> 0xF4"
    using assms(2,3) by (simp_all add: byte_def)
  have lb: "lead_byte ?f = Some (Suc 3, ucast (?f AND 0x07), 0x10000)" "\<not> ?f \<le> 0x7F"
    using f by (simp_all add: lead_byte_def word_le_nat_alt)
  have so: "second_ok ?f ?c \<longleftrightarrow> (?b 0 = 0xF0 \<longrightarrow> 0x90 \<le> ?b 1) \<and> (?b 0 = 0xF4 \<longrightarrow> ?b 1 \<le> 0x8F)"
    using f by (auto simp: second_ok_def)
  let ?v = "six (six (ucast (?f AND 0x07)) ?c) ?d"
  have v: "unat (six ?v ?e) = (((?b 0 - 0xF0) * 64 + (?b 1 - 0x80)) * 64 + (?b 2 - 0x80)) * 64 + (?b 3 - 0x80)"
    if t: "tail (?b 1)" "tail (?b 2)" "tail (?b 3)"
  proof -
    have 1: "unat (six (ucast (?f AND 0x07)) ?c) = (?b 0 - 0xF0) * 64 + (?b 1 - 0x80)"
      using unat_six [of "ucast (?f AND 0x07)" ?c] t(1) f utf8_low_bits(3) [of "unat ?f"]
      by (simp add: byte_masks cont_def tail_def)
    moreover have b: "?b 0 - 0xF0 \<le> 4" "?b 1 - 0x80 \<le> 63" "?b 2 - 0x80 \<le> 63" 
      using assms(3) tail_bound [OF t(1)] tail_bound [OF t(2)] by linarith+
    then have "(?b 0 - 0xF0) * 64 + (?b 1 - 0x80) < 2 ^ 26" by (intro small) linarith+
    ultimately have 2: "unat ?v = ((?b 0 - 0xF0) * 64 + (?b 1 - 0x80)) * 64 + (?b 2 - 0x80)"
      using unat_six [of "six (ucast (?f AND 0x07)) ?c" ?d] t(2) f(3) by (simp add: cont_def tail_def)
    moreover have "((?b 0 - 0xF0) * 64 + (?b 1 - 0x80)) * 64 + (?b 2 - 0x80) < 2 ^ 26"
    proof -
      have "(?b 0 - 0xF0) * 64 + (?b 1 - 0x80) \<le> 319" using b by linarith
      then show ?thesis using b(3) by (rule small)
    qed
    ultimately show ?thesis using unat_six [of ?v ?e] t(3) f(4) by (simp add: cont_def tail_def)
  qed
  note num = four_numbers [of "?b 0" "?b 1" "?b 2" "?b 3" "unat cp"]
  have l: "[Suc 0..<4] = [1, 2, 3]" by (simp add: upt_rec)
  have d: "decode_one m s len off = Some (cp, n) \<longleftrightarrow>
      n = 4 \<and> unat off + 4 \<le> unat len \<and> tail (?b 1) \<and> tail (?b 2) \<and> tail (?b 3) \<and> second_ok ?f ?c
      \<and> cp = six ?v ?e \<and> 0x10000 \<le> unat cp \<and> scalar (unat cp)"
    using decode_multi [where m = m and s = s and off = off and len = len and k = 3 and cp = cp and n = n, OF assms(1) lb(2) lb(1)]
    unfolding good_value by (auto simp: all_upto cont_tail l)
  have e: "cp = six ?v ?e \<longleftrightarrow>
      unat cp = (((?b 0 - 0xF0) * 64 + (?b 1 - 0x80)) * 64 + (?b 2 - 0x80)) * 64 + (?b 3 - 0x80)"
    if "tail (?b 1)" "tail (?b 2)" "tail (?b 3)"
    unfolding unat_eq_iff [of cp] v [OF that] ..
  have g: "0x10000 \<le> unat cp \<and> scalar (unat cp)" if "tail (?b 1)" "tail (?b 2)" "tail (?b 3)" "second_ok ?f ?c"
    "unat cp = (((?b 0 - 0xF0) * 64 + (?b 1 - 0x80)) * 64 + (?b 2 - 0x80)) * 64 + (?b 3 - 0x80)"
  proof -
    have "0x10000 \<le> unat cp \<and> unat cp < 0x110000" using num that assms(2,3) unfolding so by blast
    then show ?thesis by (simp add: scalar_def)
  qed
  from d e g so show ?thesis by blast
qed

lemma decode_one_byte:
  assumes "off < len" "byte m (s + off) 0 < 0x80"
  shows "decode_one m s len off = Some (cp, n) \<longleftrightarrow> n = 1 \<and> unat cp = byte m (s + off) 0"
proof -
  have "m (s + off) \<le> 0x7F" using assms(2) by (simp add: byte_def word_le_nat_alt)
  then show ?thesis using assms(1) by (auto simp: decode_one_def Let_def byte_def unat_eq_iff not_le)
qed

lemma decode_none:
  assumes "off < len" "0x80 \<le> byte m (s + off) 0" "byte m (s + off) 0 < 0xC2 \<or> 0xF4 < byte m (s + off) 0"
  shows "decode_one m s len off = None"
proof -
  have "lead_byte (m (s + off)) = None" "\<not> m (s + off) \<le> 0x7F"
    using assms(2,3) by (auto simp: byte_def lead_byte_def word_le_nat_alt)
  then show ?thesis by (simp add: decode_one_def Let_def)
qed

lemma utf8_nonempty [simp]: "utf8_bytes cp \<noteq> []" "0 < length (utf8_bytes cp)" "length (utf8_bytes cp) \<le> 4"
  by (simp_all add: utf8_bytes_def)

lemma bytes_upto:
  "map f [0..<Suc 0] = [f 0]" "map f [0..<2] = [f 0, f 1]" "map f [0..<3] = [f 0, f 1, f 2]"
  "map f [0..<4] = [f 0, f 1, f 2, f (3 :: nat)]"
  by (simp_all add: upt_rec eval_nat_numeral)

lemma decode_one_exact:
  "decode_one m s len off = Some (cp, n) \<longleftrightarrow>
     scalar (unat cp) \<and> n = length (utf8_bytes (unat cp)) \<and> unat off + n \<le> unat len
     \<and> map (byte m (s + off)) [0..<n] = utf8_bytes (unat cp)" (is "?L \<longleftrightarrow> ?R")
proof (cases "off < len")
  case False
  then have "decode_one m s len off = None" by (simp add: decode_one_def not_less)
  moreover have "\<not> unat off + n \<le> unat len" if "0 < n" using False that by (simp add: word_less_nat_alt)
  ultimately show ?thesis by fastforce
next
  case True
  let ?b = "byte m (s + off)" and ?c = "unat cp"
  have room: "unat off + 1 \<le> unat len" using True by (simp add: word_less_nat_alt)
  show ?thesis
  proof
    assume L: ?L
    consider "?b 0 < 0x80" | "0xC2 \<le> ?b 0" "?b 0 \<le> 0xDF" | "0xE0 \<le> ?b 0" "?b 0 \<le> 0xEF" | "0xF0 \<le> ?b 0" "?b 0 \<le> 0xF4"
      using decode_none [OF True, of m s] L by fastforce
    then show ?R
    proof cases
      case 1
      with L decode_one_byte [OF True 1] have "n = 1" "?c = ?b 0" by blast+
      with 1 room show ?thesis by (simp add: utf8_bytes_def scalar_def)
    next
      case 2
      with L decode_two [OF True 2] two_numbers [of "?b 0" "?b 1" ?c]
      have "n = 2" "unat off + 2 \<le> unat len" "0x80 \<le> ?c \<and> ?c < 0x800 \<and> ?b 0 = 0xC0 + ?c div 64 \<and> ?b 1 = 0x80 + ?c mod 64"
        by blast+
      then show ?thesis by (simp add: utf8_bytes_def scalar_def bytes_upto)
    next
      case 3
      with L decode_three [OF True 3] three_numbers [of "?b 0" "?b 1" "?b 2" ?c]
      have "n = 3" "unat off + 3 \<le> unat len" "0x800 \<le> ?c \<and> ?c < 0x10000 \<and> \<not> (0xD800 \<le> ?c \<and> ?c \<le> 0xDFFF)
          \<and> ?b 0 = 0xE0 + ?c div 64 div 64 \<and> ?b 1 = 0x80 + ?c div 64 mod 64 \<and> ?b 2 = 0x80 + ?c mod 64"
        by blast+
      then show ?thesis by (simp add: utf8_bytes_def scalar_def bytes_upto)
    next
      case 4
      with L decode_four [OF True 4] four_numbers [of "?b 0" "?b 1" "?b 2" "?b 3" ?c]
      have "n = 4" "unat off + 4 \<le> unat len" "0x10000 \<le> ?c \<and> ?c < 0x110000 \<and> ?b 0 = 0xF0 + ?c div 64 div 64 div 64
          \<and> ?b 1 = 0x80 + ?c div 64 div 64 mod 64 \<and> ?b 2 = 0x80 + ?c div 64 mod 64 \<and> ?b 3 = 0x80 + ?c mod 64"
        by blast+
      then show ?thesis by (simp add: utf8_bytes_def scalar_def bytes_upto)
    qed
  next
    assume R: ?R
    then have sc: "scalar ?c" and n: "n = length (utf8_bytes ?c)" and rm: "unat off + n \<le> unat len"
      and b: "map ?b [0..<n] = utf8_bytes ?c" by blast+
    consider "?c < 0x80" | "0x80 \<le> ?c" "?c < 0x800" | "0x800 \<le> ?c" "?c < 0x10000" | "0x10000 \<le> ?c" by linarith
    then show ?L
    proof cases
      case 1
      with n b have "n = 1" "?b 0 = ?c" by (simp_all add: utf8_bytes_def)
      with 1 decode_one_byte [OF True, of m s cp n] show ?thesis by simp
    next
      case 2
      with n b have "n = 2" "?b 0 = 0xC0 + ?c div 64" "?b 1 = 0x80 + ?c mod 64" by (simp_all add: utf8_bytes_def bytes_upto)
      with 2 two_numbers [of "?b 0" "?b 1" ?c] rm decode_two [OF True, of m s cp n] show ?thesis by blast
    next
      case 3
      with n have n3: "n = 3" by (simp add: utf8_bytes_def)
      with 3 b [unfolded n3 bytes_upto] have "n = 3" "?b 0 = 0xE0 + ?c div 64 div 64" "?b 1 = 0x80 + ?c div 64 mod 64" "?b 2 = 0x80 + ?c mod 64"
        by (simp_all add: utf8_bytes_def bytes_upto)
      with 3 sc three_numbers [of "?b 0" "?b 1" "?b 2" ?c] rm decode_three [OF True, of m s cp n] show ?thesis
        unfolding scalar_def by blast
    next
      case 4
      with n have n4: "n = 4" by (simp add: utf8_bytes_def)
      with 4 b [unfolded n4 bytes_upto] have "n = 4" "?b 0 = 0xF0 + ?c div 64 div 64 div 64" "?b 1 = 0x80 + ?c div 64 div 64 mod 64"
          "?b 2 = 0x80 + ?c div 64 mod 64" "?b 3 = 0x80 + ?c mod 64"
        by (simp_all add: utf8_bytes_def bytes_upto)
      with 4 sc four_numbers [of "?b 0" "?b 1" "?b 2" "?b 3" ?c] rm decode_four [OF True, of m s cp n] show ?thesis
        unfolding scalar_def by blast
    qed
  qed
qed

end
