(* ===== verification/Multibyte_Correct.thy ===== *)
theory Multibyte_Correct
  imports Utf8
begin

text \<open>
  \<open>MultiByteToWideChar\<close> converts exactly the well-formed UTF-8 texts, to their UTF-16 units: first the two passes over the
  source, then the whole call.
\<close>

subsection \<open>Texts\<close>

definition utf8_text :: "nat list \<Rightarrow> nat list" where
  "utf8_text cps = concat (map utf8_bytes cps)"

definition utf16_text :: "nat list \<Rightarrow> u16 list" where
  "utf16_text cps = concat (map utf16_units cps)"

definition is_text :: "nat list \<Rightarrow> nat list \<Rightarrow> bool" where
  "is_text bs cps \<longleftrightarrow> list_all scalar cps \<and> bs = utf8_text cps"

lemma text_simps [simp]:
  "utf8_text [] = []" "utf8_text (c # cps) = utf8_bytes c @ utf8_text cps"
  "utf16_text [] = []" "utf16_text (c # cps) = utf16_units c @ utf16_text cps"
  by (simp_all add: utf8_text_def utf16_text_def)

lemma length_utf16: "length (utf16_units c) = (if c > 0xFFFF then 2 else 1)"
  by (simp add: utf16_units_def)

lemma units_le_bytes: "length (utf16_text cps) \<le> length (utf8_text cps)"
proof (induction cps)
  case Nil
  then show ?case by simp
next
  case (Cons c cps)
  have "length (utf16_units c) \<le> length (utf8_bytes c)" by (simp add: utf16_units_def utf8_bytes_def)
  with Cons show ?case by simp
qed

lemma byte_offset: "byte m (s + off) i = byte m s (unat off + i)"
  by (simp add: byte_def add.assoc)

definition rest :: "memory \<Rightarrow> u64 \<Rightarrow> u64 \<Rightarrow> u64 \<Rightarrow> nat list" where
  "rest m s len off = map (byte m s) [unat off..<unat len]"

lemma rest_end: "rest m s len len = []"
  by (simp add: rest_def)

lemma unat_scalar: "scalar c \<Longrightarrow> unat (of_nat c :: u32) = c"
  by (simp add: scalar_def unat_of_nat)

lemma rest_step:
  assumes "decode_one m s len off = Some (cp, n)"
  shows "rest m s len off = utf8_bytes (unat cp) @ rest m s len (off + of_nat n)"
proof -
  have d: "unat off + n \<le> unat len" "map (byte m (s + off)) [0..<n] = utf8_bytes (unat cp)"
    using assms [unfolded decode_one_exact] by blast+
  have n: "unat (off + of_nat n) = unat off + n"
    using decode_one_consumed [OF assms] by (intro unat_offset_step) auto
  have "[unat off..<unat len] = [unat off..<unat off + n] @ [unat off + n..<unat len]"
    using d(1) upt_add_eq_append [of "unat off" "unat off + n" "unat len - (unat off + n)"] by simp
  moreover have "map (byte m s) [unat off..<unat off + n] = map (byte m (s + off)) [0..<n]"
    by (rule nth_equalityI) (simp_all add: byte_offset)
  ultimately show ?thesis using d by (simp add: rest_def n)
qed

lemma text_decodes:
  assumes "is_text (rest m s len off) (c # cps)"
  shows "decode_one m s len off = Some (of_nat c, length (utf8_bytes c))"
proof -
  let ?n = "length (utf8_bytes c)"
  have r: "rest m s len off = utf8_bytes c @ utf8_text cps" and sc: "scalar c" using assms by (simp_all add: is_text_def)
  have "length (rest m s len off) = unat len - unat off" by (simp add: rest_def)
  then have "?n + length (utf8_text cps) = unat len - unat off" using r by simp
  then have room: "unat off + ?n \<le> unat len" using utf8_nonempty(2) [of c] by linarith
  have "map (byte m (s + off)) [0..<?n] = take ?n (rest m s len off)"
    using room by (intro nth_equalityI) (simp_all add: rest_def byte_offset)
  then show ?thesis unfolding decode_one_exact using r room sc by (simp add: unat_scalar)
qed

lemma text_step:
  assumes "decode_one m s len off = Some (cp, n)"
  shows "is_text (rest m s len off) cps \<longleftrightarrow>
    (\<exists>cs. cps = unat cp # cs \<and> is_text (rest m s len (off + of_nat n)) cs)"
proof
  assume t: "is_text (rest m s len off) cps"
  have "rest m s len off \<noteq> []" using rest_step [OF assms] by simp
  with t obtain c cs where cps: "cps = c # cs" by (cases cps) (auto simp: is_text_def)
  with text_decodes t assms have "cp = of_nat c" by auto
  moreover have "scalar c" using t cps by (simp add: is_text_def)
  ultimately have c: "unat cp = c" by (simp add: unat_scalar)
  then show "\<exists>cs. cps = unat cp # cs \<and> is_text (rest m s len (off + of_nat n)) cs"
    using t cps rest_step [OF assms] by (auto simp: is_text_def)
next
  assume "\<exists>cs. cps = unat cp # cs \<and> is_text (rest m s len (off + of_nat n)) cs"
  then show "is_text (rest m s len off) cps"
    using rest_step [OF assms] assms [unfolded decode_one_exact] by (auto simp: is_text_def)
qed

lemma text_none:
  assumes "decode_one m s len off = None" "off < len"
  shows "\<not> is_text (rest m s len off) cps"
proof
  assume t: "is_text (rest m s len off) cps"
  have "rest m s len off \<noteq> []" using assms(2) by (simp add: rest_def word_less_nat_alt)
  with t obtain c cs where "cps = c # cs" by (cases cps) (auto simp: is_text_def)
  with text_decodes t assms(1) show False by fastforce
qed

lemma text_unique: "is_text (rest m s len off) cps \<Longrightarrow> is_text (rest m s len off) cps' \<Longrightarrow> cps = cps'"
proof (induction cps arbitrary: off cps')
  case Nil
  then show ?case by (cases cps') (auto simp: is_text_def)
next
  case (Cons c cps)
  note d = text_decodes [OF Cons.prems(1)]
  have "unat (of_nat c :: u32) = c" using Cons.prems(1) by (simp add: is_text_def unat_scalar)
  with text_step [OF d] Cons.prems obtain cs where "cps' = c # cs" "is_text (rest m s len (off + of_nat (length (utf8_bytes c)))) cs"
      "is_text (rest m s len (off + of_nat (length (utf8_bytes c)))) cps"
    by auto
  with Cons.IH show ?case by blast
qed

subsection \<open>The first pass\<close>

lemma units_of_code_point:
  assumes "decode_one m s len off = Some (cp, n)"
  shows "unat (if cp > 0xFFFF then 2 else 1 :: u64) = length (utf16_units (unat cp))" "length (utf16_units (unat cp)) \<le> n"
  using assms [unfolded decode_one_exact] units_le_bytes [of "[unat cp]"]
  by (auto simp: length_utf16 word_less_nat_alt)

lemma count_loop_spec:
  "unat off \<le> unat len \<Longrightarrow> unat u + (unat len - unat off) < 2 ^ 64 \<Longrightarrow>
     (case count_loop m s len off u of
        Inl status \<Rightarrow> status = GXOS_MULTIBYTE_STATUS_INVALID_UTF8 \<and> (\<forall>cps. \<not> is_text (rest m s len off) cps)
      | Inr r \<Rightarrow> \<exists>cps. is_text (rest m s len off) cps \<and> unat r = unat u + length (utf16_text cps))"
proof (induction m s len off u rule: count_loop.induct)
  case (1 m s len off u)
  show ?case
  proof (cases "off = len")
    case True
    then have "count_loop m s len off u = Inr u" by (simp add: count_loop.simps)
    moreover have "is_text (rest m s len off) []" using True by (simp add: rest_end is_text_def)
    ultimately show ?thesis by (force intro: exI [of _ "[]"])
  next
    case False
    with 1 have lt: "off < len" by (simp add: word_less_nat_alt unat_eq_iff)
    show ?thesis
    proof (cases "decode_one m s len off")
      case None
      with False have "count_loop m s len off u = Inl GXOS_MULTIBYTE_STATUS_INVALID_UTF8" by (simp add: count_loop.simps)
      with text_none [OF None lt] show ?thesis by simp
    next
      case (Some p)
      obtain cp n where p: "p = (cp, n)" by fastforce
      note d = Some [unfolded p]
      let ?k = "if cp > 0xFFFF then 2 else 1 :: u64" and ?off = "off + of_nat n"
      note k = units_of_code_point [OF d]
      have n: "unat ?off = unat off + n" "unat off + n \<le> unat len"
        using decode_one_consumed [OF d] unat_offset_step [of off n len] by auto
      have fit: "unat u + unat ?k < 2 ^ 64" using k n(2) "1.prems" by linarith
      then have g: "\<not> u > UINT64_MAX - ?k" and uk: "unat (u + ?k) = unat u + unat ?k"
        unfolding fits_iff by (simp, intro unat_add_fits)
      have step: "count_loop m s len off u = count_loop m s len ?off (u + ?k)"
        using False d g by (subst count_loop.simps) simp
      have IH: "case count_loop m s len ?off (u + ?k) of
          Inl status \<Rightarrow> status = GXOS_MULTIBYTE_STATUS_INVALID_UTF8 \<and> (\<forall>cps. \<not> is_text (rest m s len ?off) cps)
        | Inr r \<Rightarrow> \<exists>cps. is_text (rest m s len ?off) cps \<and> unat r = unat (u + ?k) + length (utf16_text cps)"
        by (rule "1.IH" [OF False d refl g]) (use n k uk "1.prems" in linarith)+
      show ?thesis
      proof (cases "count_loop m s len ?off (u + ?k)")
        case (Inl status)
        with IH text_step [OF d] show ?thesis unfolding step by simp
      next
        case (Inr r)
        with IH obtain cs where cs: "is_text (rest m s len ?off) cs" "unat r = unat (u + ?k) + length (utf16_text cs)" by auto
        then have "is_text (rest m s len off) (unat cp # cs)" using text_step [OF d] by blast
        moreover have "unat r = unat u + length (utf16_text (unat cp # cs))" using cs(2) uk k(1) by simp
        ultimately show ?thesis unfolding step Inr by auto
      qed
    qed
  qed
qed

subsection \<open>The second pass\<close>

definition agree_source :: "u64 \<Rightarrow> u64 \<Rightarrow> memory \<Rightarrow> memory \<Rightarrow> bool" where
  "agree_source s len m m' \<longleftrightarrow> (\<forall>i < unat len. byte m s i = byte m' s i)"

lemma decode_agrees:
  assumes "agree_source s len m m'"
  shows "decode_one m s len off = decode_one m' s len off"
proof -
  have "map (byte m (s + off)) [0..<n] = map (byte m' (s + off)) [0..<n]" if "unat off + n \<le> unat len" for n
    using assms that by (simp add: agree_source_def byte_offset)
  then have "decode_one m s len off = Some (cp, n) \<longleftrightarrow> decode_one m' s len off = Some (cp, n)" for cp n
    unfolding decode_one_exact by metis
  then show ?thesis by (metis not_Some_eq prod.exhaust_sel)
qed

lemma rest_agrees: "agree_source s len m m' \<Longrightarrow> rest m s len off = rest m' s len off"
  by (simp add: agree_source_def rest_def)

lemma load_store:
  assumes "unat p + 1 < 2 ^ 64"
  shows "load_u16 (store_u16 m p u) p = u" and "frame m (store_u16 m p u) (unat p) 2"
proof -
  have n: "unat (p + 1) = unat p + 1" using assms by (simp add: unat_add_fits)
  then have ne: "p + 1 \<noteq> p" by (metis add_cancel_right_right zero_neq_one)
  have "ucast (ucast u :: u8) OR push_bit 8 (ucast (ucast (drop_bit 8 u) :: u8)) = u"
    by (rule bit_eqI) (auto simp: bit_simps)
  with ne show "load_u16 (store_u16 m p u) p = u" by (simp add: load_u16_def store_u16_def)
  show "frame m (store_u16 m p u) (unat p) 2" using n by (auto simp: frame_def store_u16_def)
qed

lemma load_frame:
  "frame m m' lo n \<Longrightarrow> unat p + 1 < 2 ^ 64 \<Longrightarrow> unat p + 2 \<le> lo \<or> lo + n \<le> unat p \<Longrightarrow> load_u16 m' p = load_u16 m p"
proof -
  assume f: "frame m m' lo n" and p: "unat p + 1 < 2 ^ 64" "unat p + 2 \<le> lo \<or> lo + n \<le> unat p"
  have "unat (p + 1) = unat p + 1" using p(1) by (simp add: unat_add_fits)
  with f p(2) show ?thesis by (auto simp: frame_def load_u16_def)
qed

lemma unit_values:
  assumes "scalar (unat cp)" "0xFFFF < unat cp"
  shows "ucast (0xD800 + drop_bit 10 (cp - 0x10000 :: u32)) = (of_nat (0xD800 + (unat cp - 0x10000) div 1024) :: u16)"
    and "ucast (0xDC00 + ((cp - 0x10000 :: u32) AND 0x3FF)) = (of_nat (0xDC00 + (unat cp - 0x10000) mod 1024) :: u16)"
proof -
  let ?a = "cp - 0x10000 :: u32"
  have a: "unat ?a = unat cp - 0x10000" using assms(2) by (subst unat_sub_le) (simp_all add: word_le_nat_alt)
  then have al: "unat ?a < 0x100000" using assms(1) unfolding scalar_def by linarith
  have d: "unat (drop_bit 10 ?a) = unat ?a div 1024" by (simp add: drop_bit_eq_div unat_div_distrib)
  have m: "unat (?a AND 0x3FF) = unat ?a mod 1024"
  proof -
    have "?a AND 0x3FF = ?a mod 1024" using take_bit_eq_mask [of 10 ?a] by (simp add: mask_eq_exp_minus_1 take_bit_eq_mod)
    then show ?thesis by (simp add: unat_mod_distrib)
  qed
  have x: "(ucast x :: u16) = of_nat (unat x)" for x :: u32
    by (simp add: unat_eq_iff unsigned_ucast_eq unat_of_nat take_bit_eq_mod)
  have h: "unat ?a div 1024 < 1024" using al by (simp add: less_mult_imp_div_less)
  have "unat (0xD800 + drop_bit 10 ?a) = 0xD800 + unat ?a div 1024"
    using h by (subst unat_add_fits32) (simp_all add: d)
  then show "ucast (0xD800 + drop_bit 10 ?a) = (of_nat (0xD800 + (unat cp - 0x10000) div 1024) :: u16)" by (simp add: x a)
  have "unat (0xDC00 + (?a AND 0x3FF)) = 0xDC00 + unat ?a mod 1024"
    by (subst unat_add_fits32) (simp_all add: m add_less_le_mono)
  then show "ucast (0xDC00 + (?a AND 0x3FF)) = (of_nat (0xDC00 + (unat cp - 0x10000) mod 1024) :: u16)" by (simp add: x a)
qed

lemma store_code_point_spec:
  assumes "scalar (unat cp)" "unat out + 2 * length (utf16_units (unat cp)) \<le> 2 ^ 64"
  shows "\<exists>m' k. store_code_point m out cp = (m', k) \<and> unat k = length (utf16_units (unat cp))
    \<and> frame m m' (unat out) (2 * length (utf16_units (unat cp)))
    \<and> (\<forall>i < length (utf16_units (unat cp)). load_u16 m' (out + 2 * of_nat i) = utf16_units (unat cp) ! i)"
proof (cases "cp \<le> 0xFFFF")
  case True
  then have c: "unat cp < 0x10000" by (simp add: word_le_nat_alt)
  have u: "(ucast cp :: u16) = of_nat (unat cp)" by (simp add: unat_eq_iff unsigned_ucast_eq unat_of_nat take_bit_eq_mod)
  have units: "utf16_units (unat cp) = [ucast cp]" unfolding u using c by (simp add: utf16_units_def)
  have st: "store_code_point m out cp = (store_u16 m out (ucast cp), 1)" unfolding store_code_point_def if_P [OF True] ..
  have "unat out + 1 < 2 ^ 64" using assms(2) unfolding units by simp
  from load_store [OF this, of m "ucast cp"] show ?thesis unfolding st units by auto
next
  case False
  then have c: "0xFFFF < unat cp" by (simp add: word_le_nat_alt)
  let ?u0 = "of_nat (0xD800 + (unat cp - 0x10000) div 1024) :: u16" and ?u1 = "of_nat (0xDC00 + (unat cp - 0x10000) mod 1024) :: u16"
  let ?m1 = "store_u16 m out ?u0" and ?m2 = "store_u16 (store_u16 m out ?u0) (out + 2) ?u1"
  have units: "utf16_units (unat cp) = [?u0, ?u1]" using c by (simp add: utf16_units_def)
  have st: "store_code_point m out cp = (?m2, 2)"
    using False unit_values [OF assms(1) c] by (simp add: store_code_point_def Let_def)
  have o: "unat out + 3 < 2 ^ 64" using assms(2) units by simp
  then have o2: "unat (out + 2) = unat out + 2" by (subst unat_add_fits) simp_all
  have s0: "load_u16 ?m1 out = ?u0" "frame m ?m1 (unat out) 2" using load_store [of out m ?u0] o by simp_all
  have s1: "load_u16 ?m2 (out + 2) = ?u1" "frame ?m1 ?m2 (unat out + 2) 2"
    using load_store [of "out + 2" ?m1 ?u1] o o2 by simp_all
  have "load_u16 ?m2 out = ?u0" using load_frame [OF s1(2), of out] s0(1) o by simp
  moreover have "frame m ?m2 (unat out) 4" using frame_trans [OF s0(2) s1(2)] by simp
  ultimately show ?thesis unfolding st units using s1(1) by (auto simp: less_Suc_eq nth_Cons')
qed

lemma unat_out:
  assumes "unat d + 2 * (unat u + k) \<le> 2 ^ 64" "0 < k"
  shows "unat (d + 2 * u :: u64) = unat d + 2 * unat u"
proof -
  have l: "unat d + 2 * unat u < 2 ^ 64" using assms by (simp add: distrib_left)
  then have "unat (2 * u) = 2 * unat u" using unat_mult_lem [of 2 u] by simp
  then show ?thesis using l unat_add_fits [of d "2 * u"] by simp
qed

lemma write_loop_spec:
  "is_text (rest m s len off) cps \<Longrightarrow> unat off \<le> unat len \<Longrightarrow>
     unat d + 2 * (unat u + length (utf16_text cps)) \<le> 2 ^ 64 \<Longrightarrow>
     (\<forall>i < unat len. unat (s + of_nat i) < unat d + 2 * unat u
        \<or> unat d + 2 * (unat u + length (utf16_text cps)) \<le> unat (s + of_nat i)) \<Longrightarrow>
     \<exists>m' r. write_loop s len d m off u = (m', Some r) \<and> unat r = unat u + length (utf16_text cps)
       \<and> frame m m' (unat d + 2 * unat u) (2 * length (utf16_text cps))
       \<and> (\<forall>i < length (utf16_text cps). load_u16 m' (d + 2 * (u + of_nat i)) = utf16_text cps ! i)"
proof (induction cps arbitrary: m off u)
  case Nil
  then have "rest m s len off = []" by (simp add: is_text_def)
  then have "unat len \<le> unat off" by (auto simp: rest_def)
  with Nil have "off = len" by (simp add: unat_eq_iff)
  then show ?case by (simp add: write_loop.simps frame_def)
next
  case (Cons c cps)
  let ?k = "length (utf16_units c)" and ?L = "length (utf16_text cps)" and ?n = "length (utf8_bytes c)"
  note d = text_decodes [OF Cons.prems(1)]
  have sc: "scalar c" using Cons.prems(1) by (simp add: is_text_def)
  have kpos: "0 < ?k" by (simp add: utf16_units_def)
  have len: "length (utf16_text (c # cps)) = ?k + ?L" by simp
  have out: "unat (d + 2 * u) = unat d + 2 * unat u"
    by (rule unat_out [of _ _ "?k + ?L"]) (use Cons.prems(3) kpos len in auto)
  obtain m1 k where st: "store_code_point m (d + 2 * u) (of_nat c) = (m1, k)" "unat k = ?k"
      "frame m m1 (unat d + 2 * unat u) (2 * ?k)" "\<forall>i < ?k. load_u16 m1 (d + 2 * u + 2 * of_nat i) = utf16_units c ! i"
    using store_code_point_spec [of "of_nat c" "d + 2 * u" m] sc Cons.prems(3) len by (auto simp: unat_scalar out)
  have ne: "off \<noteq> len" using Cons.prems(1) rest_end [of m s len] by (auto simp: is_text_def)
  have step: "write_loop s len d m off u = write_loop s len d m1 (off + of_nat ?n) (u + k)"
    using ne d st(1) by (subst write_loop.simps) simp
  have uk: "unat (u + k) = unat u + ?k"
    using Cons.prems(3) st(2) len kpos by (subst unat_add_fits) auto
  have noff: "unat (off + of_nat ?n) = unat off + ?n" "unat off + ?n \<le> unat len"
    using decode_one_consumed [OF d] unat_offset_step [of off ?n len] by auto
  have ag: "agree_source s len m m1"
    using Cons.prems(4) st(3) len by (fastforce simp: agree_source_def byte_def frame_def)
  have tx: "is_text (rest m1 s len (off + of_nat ?n)) cps"
    using text_step [OF d, of "c # cps"] Cons.prems(1) rest_agrees [OF ag] by (simp add: unat_scalar [OF sc])
  obtain m' r where IH: "write_loop s len d m1 (off + of_nat ?n) (u + k) = (m', Some r)" "unat r = unat (u + k) + ?L"
      "frame m1 m' (unat d + 2 * unat (u + k)) (2 * ?L)" "\<forall>i < ?L. load_u16 m' (d + 2 * (u + k + of_nat i)) = utf16_text cps ! i"
    using Cons.IH [OF tx, of "u + k"] noff Cons.prems(3,4) len by (fastforce simp: uk)
  have fr: "frame m m' (unat d + 2 * unat u) (2 * (?k + ?L))"
    using frame_trans [OF st(3), of m' "2 * ?L"] IH(3) unfolding uk by (simp add: algebra_simps)
  have "load_u16 m' (d + 2 * (u + of_nat i)) = (utf16_units c @ utf16_text cps) ! i" if "i < ?k + ?L" for i
  proof (cases "i < ?k")
    case True
    have l: "unat d + 2 * (unat u + (?k + ?L)) \<le> 2 ^ 64" using Cons.prems(3) len by simp
    then have "unat u + i < 2 ^ 64" using True by (simp add: distrib_left)
    then have ui: "unat (u + of_nat i) = unat u + i" using unat_add_fits [of u "of_nat i"] unat_of_nat_u64 [of i] by simp
    have a: "unat (d + 2 * (u + of_nat i)) = unat d + 2 * (unat u + i)"
      using unat_out [of d "u + of_nat i" "?k + ?L - i"] True l ui kpos by simp
    have "load_u16 m' (d + 2 * (u + of_nat i)) = load_u16 m1 (d + 2 * (u + of_nat i))"
      by (rule load_frame [OF IH(3)]) (use a True l uk in \<open>simp_all add: distrib_left\<close>)
    with st(4) True show ?thesis by (simp add: nth_append distrib_left add.assoc)
  next
    case False
    have "(of_nat i :: u64) = of_nat ?k + of_nat (i - ?k)" using False of_nat_add [of ?k "i - ?k"] by simp
    also have "of_nat ?k = k" unfolding st(2) [symmetric] by simp
    finally have "load_u16 m' (d + 2 * (u + of_nat i)) = load_u16 m' (d + 2 * (u + k + of_nat (i - ?k)))"
      by (simp add: add.assoc)
    also have "\<dots> = utf16_text cps ! (i - ?k)" by (rule IH(4) [rule_format]) (use False that in linarith)
    finally show ?thesis using False by (simp add: nth_append)
  qed
  with step IH uk fr len show ?case by auto
qed

subsection \<open>The ranges\<close>

definition mb_accessible :: "GXOS_MULTIBYTE_MEMORY_CONTEXT \<Rightarrow> bool \<Rightarrow> nat \<Rightarrow> bool" where
  "mb_accessible c writable x \<longleftrightarrow>
     (\<exists>r \<in> set (mb_regions c). unat (mr_base r) \<le> x \<and> x < unat (mr_end r) \<and> mr_readable r \<and> (writable \<longrightarrow> mr_writable r))"

lemma covered_sound:
  "mb_covered_loop c w a n \<Longrightarrow> unat a + unat n < 2 ^ 64 \<Longrightarrow> unat a \<le> x \<Longrightarrow> x < unat a + unat n \<Longrightarrow> mb_accessible c w x"
proof (induction c w a n rule: mb_covered_loop.induct)
  case (1 c w a n)
  from "1.prems"(3,4) have nz: "n \<noteq> 0" by auto
  with "1.prems"(1) obtain r where r: "mb_find_region c a = Some r" "mr_readable r" "w \<longrightarrow> mr_writable r"
    by (subst (asm) mb_covered_loop.simps) (auto split: option.splits if_splits)
  have f: "r \<in> set (mb_regions c)" "mr_base r \<le> a" "a < mr_end r"
    using find_SomeD r(1) by (fastforce simp: mb_find_region_def)+
  let ?k = "mr_end r - a"
  have k: "unat ?k = unat (mr_end r) - unat a" using f(3) by (intro unat_sub_le) simp
  show ?case
  proof (cases "x < unat (mr_end r)")
    case True
    moreover have "unat (mr_base r) \<le> x" using f(2) "1.prems"(3) by (simp add: word_le_nat_alt)
    ultimately show ?thesis using f(1) r unfolding mb_accessible_def by blast
  next
    case False
    then have lt: "\<not> n \<le> ?k" using "1.prems"(4) k f(3) by (simp add: word_le_nat_alt word_less_nat_alt)
    then have rec: "mb_covered_loop c w (a + ?k) (n - ?k)"
      using "1.prems"(1) nz r by (subst (asm) mb_covered_loop.simps) (auto simp: Let_def split: if_splits)
    have u: "unat (a + ?k) = unat (mr_end r)" "unat (n - ?k) = unat n - unat ?k"
      using lt k f(3) unat_sub_le [of ?k n] by (simp_all add: word_less_nat_alt)
    show ?thesis
      by (rule "1.IH" [OF nz r(1) _ refl lt rec])
        (use r u k lt False f(3) "1.prems"(2,4) in \<open>auto simp: word_less_nat_alt word_le_nat_alt\<close>)
  qed
qed

lemma range_covered_ok:
  assumes "mb_range_covered c a n w s1 s2 s3 s4 = GXOS_MULTIBYTE_STATUS_OK" "n \<noteq> 0"
    and "GXOS_MULTIBYTE_STATUS_OK \<notin> {s1, s2, s3, s4}"
  shows "unat a + unat n < 2 ^ 64 \<and> (\<forall>x. unat a \<le> x \<longrightarrow> x < unat a + unat n \<longrightarrow> mb_accessible c w x)"
proof -
  have g: "\<not> n > UINT64_MAX - a" "mb_covered_loop c w a n"
    using assms by (auto simp: mb_range_covered_def split: if_splits)
  have "unat a + unat n < 2 ^ 64" using g(1) unfolding fits_iff by simp
  with covered_sound [OF g(2)] show ?thesis by blast
qed

lemma nul_scan_ok:
  "nul_scan m c s i n = (GXOS_MULTIBYTE_STATUS_OK, index) \<Longrightarrow> i + n \<le> 65536 \<Longrightarrow>
     \<exists>j. unat index = j \<and> i \<le> j \<and> j < i + n \<and> byte m s j = 0 \<and> (\<forall>k. i \<le> k \<longrightarrow> k < j \<longrightarrow> byte m s k \<noteq> 0)
       \<and> unat s + j + 1 < 2 ^ 64 \<and> (\<forall>k. i \<le> k \<longrightarrow> k \<le> j \<longrightarrow> mb_accessible c False (unat s + k))"
proof (induction n arbitrary: i)
  case 0
  then show ?case by simp
next
  case (Suc n)
  have i: "unat (of_nat i :: u64) = i" using Suc.prems(2) by (intro unat_of_nat_u64) simp
  have g: "\<not> of_nat i > UINT64_MAX - s" "source_covered c (s + of_nat i) 1 = GXOS_MULTIBYTE_STATUS_OK"
    using Suc.prems(1) by (auto simp: Let_def split: if_splits)
  have a: "unat (s + of_nat i) = unat s + i"
    using g(1) unfolding fits_iff i by (subst unat_add_fits) (simp_all add: i)
  have acc: "unat s + i + 1 < 2 ^ 64" "mb_accessible c False (unat s + i)"
    using range_covered_ok [OF g(2) [unfolded source_covered_def]] by (simp_all add: a)
  show ?case
  proof (cases "m (s + of_nat i) = 0")
    case True
    with Suc.prems(1) g have "index = of_nat i" by (simp add: Let_def)
    with True i acc show ?thesis by (auto simp: byte_def dest: le_antisym)
  next
    case False
    then have b: "byte m s i \<noteq> 0" by (simp add: byte_def unat_eq_zero)
    have "nul_scan m c s (Suc i) n = (GXOS_MULTIBYTE_STATUS_OK, index)" using Suc.prems(1) g False by (simp add: Let_def)
    from Suc.IH [OF this] Suc.prems(2) obtain j where j: "unat index = j" "Suc i \<le> j" "j < Suc i + n" "byte m s j = 0"
        "\<forall>k. Suc i \<le> k \<longrightarrow> k < j \<longrightarrow> byte m s k \<noteq> 0" "unat s + j + 1 < 2 ^ 64"
        "\<forall>k. Suc i \<le> k \<longrightarrow> k \<le> j \<longrightarrow> mb_accessible c False (unat s + k)"
      by auto
    have "byte m s k \<noteq> 0" if "i \<le> k" "k < j" for k using b j(5) that by (cases "k = i") auto
    moreover have "mb_accessible c False (unat s + k)" if "i \<le> k" "k \<le> j" for k using acc(2) j(7) that by (cases "k = i") auto
    ultimately show ?thesis using j by (intro exI [of _ j]) auto
  qed
qed

lemma sint_pos:
  fixes c :: u32
  assumes "sint c > 0"
  shows "unat c < 2 ^ 31"
proof -
  have s: "sint c = signed_take_bit 31 (uint c)" by (simp add: sint_uint)
  have u: "take_bit (Suc 31) (uint c) = uint c"
    using uint_lt2p [of c] uint_ge_0 [of c] by (simp add: take_bit_int_eq_self_iff)
  have b: "\<not> bit (uint c) 31"
    using assms uint_lt2p [of c] u unfolding s signed_take_bit_eq_take_bit_minus by auto
  have "sint c = uint c" using s b u signed_take_bit_eq_take_bit_minus [of 31 "uint c"] by simp
  moreover have "sint c = take_bit 31 (uint c)" unfolding s by (rule signed_take_bit_eq_if_positive [OF b])
  ultimately have "uint c < 2 ^ 31" using take_bit_int_less_exp [of 31 "uint c"] by simp
  moreover have "int (unat c) = uint c" by (rule uint_nat [symmetric])
  ultimately have "int (unat c) < int (2 ^ 31)" by simp
  then show ?thesis by (simp only: of_nat_less_iff)
qed

lemma source_range_ok:
  assumes "source_byte_range m s cb c = (GXOS_MULTIBYTE_STATUS_OK, len, without)"
  shows "0 < unat len" "unat len < 2 ^ 31" "unat s + unat len < 2 ^ 64"
    and "\<forall>i < unat len. mb_accessible c False (unat s + i)"
    and "sint cb > 0 \<longrightarrow> unat len = unat cb"
    and "\<not> sint cb > 0 \<longrightarrow> byte m s (unat len - 1) = 0 \<and> (\<forall>i < unat len - 1. byte m s i \<noteq> 0)"
proof -
  have "0 < unat len \<and> unat len < 2 ^ 31 \<and> unat s + unat len < 2 ^ 64
    \<and> (\<forall>i < unat len. mb_accessible c False (unat s + i)) \<and> (sint cb > 0 \<longrightarrow> unat len = unat cb)
    \<and> (\<not> sint cb > 0 \<longrightarrow> byte m s (unat len - 1) = 0 \<and> (\<forall>i < unat len - 1. byte m s i \<noteq> 0))"
  proof (cases "sint cb > 0")
    case True
    then have g: "source_covered c s (ucast cb) = GXOS_MULTIBYTE_STATUS_OK" and len: "len = ucast cb"
      using assms by (auto simp: source_byte_range_def Let_def split: if_splits)
    have "cb \<noteq> 0" using True by auto
    then have nz: "(ucast cb :: u64) \<noteq> 0" by (simp add: unat_eq_iff)
    have "unat s + unat cb < 2 ^ 64 \<and> (\<forall>x. unat s \<le> x \<longrightarrow> x < unat s + unat cb \<longrightarrow> mb_accessible c False x)"
      using range_covered_ok [OF g [unfolded source_covered_def] nz] by simp
    moreover have "0 < unat cb" using nz by (simp add: unat_eq_iff)
    ultimately show ?thesis using sint_pos [OF True] True by (simp add: len)
  next
    case False
    then obtain index where n: "nul_scan m c s 0 65536 = (GXOS_MULTIBYTE_STATUS_OK, index)" and len: "len = index + 1"
      using assms by (auto simp: source_byte_range_def Let_def split: if_splits prod.splits)
    from nul_scan_ok [OF n] obtain j where j: "unat index = j" "j < 65536" "byte m s j = 0" "\<forall>k < j. byte m s k \<noteq> 0"
        "unat s + j + 1 < 2 ^ 64" "\<forall>k \<le> j. mb_accessible c False (unat s + k)"
      by auto
    then have "unat len = j + 1" unfolding len by (subst unat_add_fits) simp_all
    with j False show ?thesis by auto
  qed
  then show "0 < unat len" "unat len < 2 ^ 31" "unat s + unat len < 2 ^ 64"
    "\<forall>i < unat len. mb_accessible c False (unat s + i)" "sint cb > 0 \<longrightarrow> unat len = unat cb"
    "\<not> sint cb > 0 \<longrightarrow> byte m s (unat len - 1) = 0 \<and> (\<forall>i < unat len - 1. byte m s i \<noteq> 0)" by blast+
qed

lemma not_overlap:
  assumes "\<not> mb_ranges_overlap s len d n" "len \<noteq> 0" "n \<noteq> 0"
  shows "unat s + unat len \<le> unat d \<or> unat d + unat n \<le> unat s"
proof -
  have g: "\<not> s > UINT64_MAX - len" "\<not> d > UINT64_MAX - n" "\<not> (s < d + n \<and> d < s + len)"
    using assms by (auto simp: mb_ranges_overlap_def split: if_splits)
  have "unat (s + len) = unat s + unat len" "unat (d + n) = unat d + unat n"
    using g(1,2) unfolding fits_iff by (intro unat_add_fits; simp)+
  with g(3) show ?thesis by (auto simp: word_less_nat_alt)
qed

lemma unat_destination_bytes: "unat (ucast (cch :: u32) * 2 :: u64) = 2 * unat cch"
  using unat_mult_lem [of "ucast cch :: u64" 2] unat_lt_2p32 [of cch] by (simp del: unat_lt_2p32)

lemma check_arguments_destination:
  assumes "check_arguments code_page flags cb d cch (Some c) = GXOS_MULTIBYTE_STATUS_OK" "d \<noteq> 0"
  shows "unat d + 2 * unat cch < 2 ^ 64 \<and> cch \<noteq> 0
    \<and> (\<forall>x. unat d \<le> x \<longrightarrow> x < unat d + 2 * unat cch \<longrightarrow> mb_accessible c True x)"
proof -
  have g: "sint cch > 0" "mb_range_covered c d (ucast cch * 2) True
            GXOS_MULTIBYTE_STATUS_NULL_DESTINATION GXOS_MULTIBYTE_STATUS_NONCANONICAL_DESTINATION
            GXOS_MULTIBYTE_STATUS_UNWRITABLE_DESTINATION GXOS_MULTIBYTE_STATUS_DESTINATION_RANGE_OVERFLOW = GXOS_MULTIBYTE_STATUS_OK"
    using assms by (auto simp: check_arguments_def split: if_splits)
  from g(1) have nz: "cch \<noteq> 0" by auto
  then have "(ucast cch * 2 :: u64) \<noteq> 0" using unat_destination_bytes [of cch] by (auto simp: unat_eq_iff [of cch])
  from range_covered_ok [OF g(2) this] nz show ?thesis by (simp add: unat_destination_bytes)
qed

subsection \<open>The conversion\<close>

text \<open>What the part of the call after the checks does for a source of \<open>len\<close> bytes that is the text \<open>cps\<close>.\<close>

lemma convert_text:
  assumes "is_text (rest m s len 0) cps" "unat r = length (utf16_text cps)" "unat len < 2 ^ 31" "len \<noteq> 0"
    and "d \<noteq> 0 \<longrightarrow> unat d + 2 * unat cch < 2 ^ 64 \<and> cch \<noteq> 0 \<and> \<not> mb_ranges_overlap s len d (ucast cch * 2)"
    and "unat s + unat len < 2 ^ 64"
    and "convert m s len d cch prev r report = (ret, err, report', m')"
  shows "d \<noteq> 0 \<and> unat cch < length (utf16_text cps) \<Longrightarrow>
      ret = 0 \<and> err = GXOS_MULTIBYTE_ERROR_INSUFFICIENT_BUFFER \<and> m' = m
      \<and> mp_status report' = GXOS_MULTIBYTE_STATUS_INSUFFICIENT_BUFFER"
    and "\<not> (d \<noteq> 0 \<and> unat cch < length (utf16_text cps)) \<Longrightarrow>
      mp_status report' = GXOS_MULTIBYTE_STATUS_OK \<and> unat ret = length (utf16_text cps) \<and> err = prev
      \<and> (d = 0 \<longrightarrow> m' = m)
      \<and> (d \<noteq> 0 \<longrightarrow> frame m m' (unat d) (2 * length (utf16_text cps))
           \<and> (\<forall>i < length (utf16_text cps). load_u16 m' (d + 2 * of_nat i) = utf16_text cps ! i))"
proof -
  let ?L = "length (utf16_text cps)"
  have "?L \<le> unat len"
    using units_le_bytes [of cps] assms(1) by (auto simp: is_text_def rest_def dest: arg_cong [of _ _ length])
  then have L: "?L < 2 ^ 31" using assms(3) by linarith
  then have r: "\<not> r > 0x7FFFFFFF" using assms(2) by (simp add: word_less_nat_alt)
  have big: "r > ucast cch \<longleftrightarrow> unat cch < ?L" by (simp add: word_less_nat_alt assms(2))
  have cast: "unat (ucast x :: u32) = unat x" if "unat x < 2 ^ 31" for x :: u64
    using that by (simp add: unsigned_ucast_eq take_bit_eq_mod)
  note c = assms(7) [unfolded convert_def Let_def if_not_P [OF r]]
  show "ret = 0 \<and> err = GXOS_MULTIBYTE_ERROR_INSUFFICIENT_BUFFER \<and> m' = m
      \<and> mp_status report' = GXOS_MULTIBYTE_STATUS_INSUFFICIENT_BUFFER" if "d \<noteq> 0 \<and> unat cch < ?L"
    using c that big by (auto simp: fail_result_def)
  assume nb: "\<not> (d \<noteq> 0 \<and> unat cch < ?L)"
  show "mp_status report' = GXOS_MULTIBYTE_STATUS_OK \<and> unat ret = ?L \<and> err = prev \<and> (d = 0 \<longrightarrow> m' = m)
      \<and> (d \<noteq> 0 \<longrightarrow> frame m m' (unat d) (2 * ?L) \<and> (\<forall>i < ?L. load_u16 m' (d + 2 * of_nat i) = utf16_text cps ! i))"
  proof (cases "d = 0")
    case True
    with c cast [of r] assms(2) L show ?thesis by auto
  next
    case False
    with nb have fits: "?L \<le> unat cch" by simp
    note a = assms(5) [rule_format, OF False]
    have n: "(ucast cch * 2 :: u64) \<noteq> 0" using a unat_destination_bytes [of cch] by (auto simp: unat_eq_iff [of cch])
    have dis: "unat s + unat len \<le> unat d \<or> unat d + 2 * unat cch \<le> unat s"
      using not_overlap [of s len d "ucast cch * 2"] a n assms(4) by (simp add: unat_destination_bytes)
    have src: "unat (s + of_nat i) = unat s + i" if "i < unat len" for i
      using that assms(6) unat_add_fits [of s "of_nat i"] unat_of_nat_u64 [of i] by simp
    obtain m2 r2 where w: "write_loop s len d m 0 0 = (m2, Some r2)" "unat r2 = ?L" "frame m m2 (unat d) (2 * ?L)"
        "\<forall>i < ?L. load_u16 m2 (d + 2 * of_nat i) = utf16_text cps ! i"
      using write_loop_spec [OF assms(1), of d 0] a fits dis src by fastforce
    with c False nb big cast [of r2] L show ?thesis by auto
  qed
qed

subsection \<open>The whole call\<close>

definition admitted ::
  "memory \<Rightarrow> u32 \<Rightarrow> u32 \<Rightarrow> u64 \<Rightarrow> u32 \<Rightarrow> u64 \<Rightarrow> u32 \<Rightarrow> GXOS_MULTIBYTE_MEMORY_CONTEXT option \<Rightarrow> u64 \<Rightarrow> bool" where
  "admitted m code_page flags source cb d cch mem len \<longleftrightarrow>
     (\<exists>c without. mem = Some c \<and> check_arguments code_page flags cb d cch mem = GXOS_MULTIBYTE_STATUS_OK
        \<and> source_byte_range m source cb c = (GXOS_MULTIBYTE_STATUS_OK, len, without)
        \<and> \<not> (d \<noteq> 0 \<and> mb_ranges_overlap source len d (ucast cch * 2)))"

lemma refused:
  assumes "\<nexists>len. admitted m code_page flags source cb d cch mem len"
    and "gxos_multibyte_to_wide_char_checked m code_page flags source cb d cch mem prev = (ret, err, report, m')"
  shows "ret = 0 \<and> err = GXOS_MULTIBYTE_ERROR_INVALID_PARAMETER \<and> m' = m \<and> mp_status report \<noteq> GXOS_MULTIBYTE_STATUS_OK"
proof (cases mem)
  case None
  with assms(2) show ?thesis by (auto simp: gxos_multibyte_to_wide_char_checked_def fail_result_def Let_def)
next
  case (Some c)
  obtain st len without where sb: "source_byte_range m source cb c = (st, len, without)" by (metis prod_cases3)
  have "check_arguments code_page flags cb d cch (Some c) \<noteq> GXOS_MULTIBYTE_STATUS_OK \<or> st \<noteq> GXOS_MULTIBYTE_STATUS_OK
      \<or> d \<noteq> 0 \<and> mb_ranges_overlap source len d (ucast cch * 2)"
    using assms(1) sb Some by (auto simp: admitted_def)
  then show ?thesis
    using assms(2) unfolding gxos_multibyte_to_wide_char_checked_def Let_def Some option.case sb prod.case fail_result_def
    by (elim disjE) (auto split: if_splits)
qed

lemma admitted_call:
  assumes "admitted m code_page flags source cb d cch mem len"
    and "gxos_multibyte_to_wide_char_checked m code_page flags source cb d cch mem prev = (ret, err, report, m')"
  shows "(\<nexists>cps. is_text (rest m source len 0) cps) \<Longrightarrow>
      ret = 0 \<and> err = GXOS_MULTIBYTE_ERROR_NO_UNICODE_TRANSLATION \<and> m' = m \<and> mp_status report = GXOS_MULTIBYTE_STATUS_INVALID_UTF8"
    and "is_text (rest m source len 0) cps \<Longrightarrow> \<exists>r report0. unat r = length (utf16_text cps)
      \<and> convert m source len d cch prev r report0 = (ret, err, report, m')"
proof -
  from assms(1) obtain c without where c: "mem = Some c" "check_arguments code_page flags cb d cch (Some c) = GXOS_MULTIBYTE_STATUS_OK"
      "source_byte_range m source cb c = (GXOS_MULTIBYTE_STATUS_OK, len, without)"
      "\<not> (d \<noteq> 0 \<and> mb_ranges_overlap source len d (ucast cch * 2))"
    by (auto simp: admitted_def)
  obtain report0 where call: "(case count_loop m source len 0 0 of
        Inl status \<Rightarrow> fail_result report0 (if status = GXOS_MULTIBYTE_STATUS_INVALID_UTF8
             then GXOS_MULTIBYTE_ERROR_NO_UNICODE_TRANSLATION else GXOS_MULTIBYTE_ERROR_INVALID_PARAMETER) status m
      | Inr r \<Rightarrow> convert m source len d cch prev r report0) = (ret, err, report, m')"
    using assms(2) c unfolding gxos_multibyte_to_wide_char_checked_def Let_def by (cases "d = 0") auto
  have spec: "case count_loop m source len 0 0 of
        Inl status \<Rightarrow> status = GXOS_MULTIBYTE_STATUS_INVALID_UTF8 \<and> (\<forall>cps. \<not> is_text (rest m source len 0) cps)
      | Inr r \<Rightarrow> \<exists>cps. is_text (rest m source len 0) cps \<and> unat r = length (utf16_text cps)"
    using count_loop_spec [of 0 len 0 m source] by (cases "count_loop m source len 0 0") auto
  show "ret = 0 \<and> err = GXOS_MULTIBYTE_ERROR_NO_UNICODE_TRANSLATION \<and> m' = m \<and> mp_status report = GXOS_MULTIBYTE_STATUS_INVALID_UTF8"
    if "\<nexists>cps. is_text (rest m source len 0) cps"
    using call spec that by (cases "count_loop m source len 0 0") (auto simp: fail_result_def)
  show "\<exists>r report0. unat r = length (utf16_text cps) \<and> convert m source len d cch prev r report0 = (ret, err, report, m')"
    if "is_text (rest m source len 0) cps"
  proof (cases "count_loop m source len 0 0")
    case (Inl st)
    with spec that show ?thesis by auto
  next
    case (Inr r)
    with spec obtain cps' where "is_text (rest m source len 0) cps'" "unat r = length (utf16_text cps')" by auto
    moreover from this(1) that have "cps' = cps" by (rule text_unique)
    ultimately show ?thesis using call Inr by auto
  qed
qed

lemma admitted_ranges:
  assumes "admitted m code_page flags source cb d cch mem len"
  shows "unat len < 2 ^ 31" "len \<noteq> 0" "unat source + unat len < 2 ^ 64"
    and "d \<noteq> 0 \<longrightarrow> unat d + 2 * unat cch < 2 ^ 64 \<and> cch \<noteq> 0 \<and> \<not> mb_ranges_overlap source len d (ucast cch * 2)"
proof -
  from assms obtain c without where c: "mem = Some c" "check_arguments code_page flags cb d cch (Some c) = GXOS_MULTIBYTE_STATUS_OK"
      "source_byte_range m source cb c = (GXOS_MULTIBYTE_STATUS_OK, len, without)"
      "\<not> (d \<noteq> 0 \<and> mb_ranges_overlap source len d (ucast cch * 2))"
    by (auto simp: admitted_def)
  note s = source_range_ok [OF c(3)]
  show "unat len < 2 ^ 31" "len \<noteq> 0" "unat source + unat len < 2 ^ 64" using s(1-3) by auto
  show "d \<noteq> 0 \<longrightarrow> unat d + 2 * unat cch < 2 ^ 64 \<and> cch \<noteq> 0 \<and> \<not> mb_ranges_overlap source len d (ucast cch * 2)"
    using check_arguments_destination [OF c(2)] c(4) by blast
qed

text \<open>
  C34. For a call whose arguments and ranges are admitted, with a source of \<open>len\<close> bytes, the conversion is exact. It succeeds
  if and only if the source is well-formed UTF-8, the encoding of Unicode scalar values with no overlong form and no surrogate, and its
  UTF-16 form fits the destination, where there is one. It then returns the number of units and leaves the last error as
  it was; a destination holds exactly the UTF-16 units of the same scalar values and no other byte of memory changes. A malformed source and
  a short buffer are reported by their own error codes, and then nothing is written.
\<close>

theorem multibyte_exact:
  assumes "admitted m code_page flags source cb d cch mem len"
    and "gxos_multibyte_to_wide_char_checked m code_page flags source cb d cch mem prev = (ret, err, report, m')"
  shows "(\<nexists>cps. is_text (rest m source len 0) cps) \<and> ret = 0 \<and> m' = m \<and> err = GXOS_MULTIBYTE_ERROR_NO_UNICODE_TRANSLATION
    \<or> (\<exists>cps. is_text (rest m source len 0) cps \<and> d \<noteq> 0 \<and> unat cch < length (utf16_text cps)
          \<and> ret = 0 \<and> m' = m \<and> err = GXOS_MULTIBYTE_ERROR_INSUFFICIENT_BUFFER)
    \<or> (\<exists>cps. is_text (rest m source len 0) cps \<and> (d \<noteq> 0 \<longrightarrow> length (utf16_text cps) \<le> unat cch)
          \<and> mp_status report = GXOS_MULTIBYTE_STATUS_OK \<and> unat ret = length (utf16_text cps) \<and> err = prev
          \<and> (d = 0 \<longrightarrow> m' = m)
          \<and> (d \<noteq> 0 \<longrightarrow> frame m m' (unat d) (2 * length (utf16_text cps))
               \<and> (\<forall>i < length (utf16_text cps). load_u16 m' (d + 2 * of_nat i) = utf16_text cps ! i)))"
proof (cases "\<exists>cps. is_text (rest m source len 0) cps")
  case False
  with admitted_call(1) [OF assms] show ?thesis by blast
next
  case True
  then obtain cps where t: "is_text (rest m source len 0) cps" by blast
  obtain r report0 where r: "unat r = length (utf16_text cps)" and conv: "convert m source len d cch prev r report0 = (ret, err, report, m')"
    using admitted_call(2) [OF assms t] by blast
  note a = admitted_ranges [OF assms(1)]
  note c = convert_text [OF t r a(1,2) a(4) a(3) conv]
  show ?thesis
  proof (cases "d \<noteq> 0 \<and> unat cch < length (utf16_text cps)")
    case True
    with c(1) t show ?thesis by blast
  next
    case False
    then have "d \<noteq> 0 \<longrightarrow> length (utf16_text cps) \<le> unat cch" by auto
    with c(2) [OF False] t show ?thesis by blast
  qed
qed

text \<open>Six bytes of UTF-8 that encode U+00E9 and U+1F600, and a context of one region that holds them.\<close>

definition sample_text :: memory where
  "sample_text a = (case map_of [(0x1000, 0xC3), (0x1001, 0xA9), (0x1002, 0xF0), (0x1003, 0x9F), (0x1004, 0x98), (0x1005, 0x80)] a
     of None \<Rightarrow> 0 | Some b \<Rightarrow> b)"

definition sample_context :: "GXOS_MULTIBYTE_MEMORY_CONTEXT option" where
  "sample_context = Some \<lparr>mc_region_count = 1,
     mc_regions = Some [\<lparr>mr_base = 0x1000, mr_end = 0x3000, mr_readable = True, mr_writable = True\<rparr>]\<rparr>"

lemma sample_admitted: "admitted sample_text 65001 8 0x1000 6 0x2000 4 sample_context 6"
proof -
  have "check_arguments 65001 8 6 0x2000 4 sample_context = GXOS_MULTIBYTE_STATUS_OK"
    "source_byte_range sample_text 0x1000 6 (the sample_context) = (GXOS_MULTIBYTE_STATUS_OK, 6, 6)"
    "\<not> mb_ranges_overlap 0x1000 6 0x2000 (ucast (4 :: u32) * 2)"
    by code_simp+
  then show ?thesis by (simp add: admitted_def sample_context_def)
qed

lemma sample_is_text: "is_text (rest sample_text 0x1000 6 0) [0xE9, 0x1F600]"
  by (simp add: is_text_def rest_def byte_def sample_text_def utf8_bytes_def scalar_def upt_rec)

theorem multibyte_exact_witness:
  "case gxos_multibyte_to_wide_char_checked sample_text 65001 8 0x1000 6 0x2000 4 sample_context 5 of (ret, err, report, m') \<Rightarrow>
     unat ret = 3 \<and> err = 5 \<and> map (\<lambda>i. load_u16 m' (0x2000 + 2 * of_nat i)) [0..<3] = [0xE9, 0xD83D, 0xDE00]"
proof -
  obtain ret err report m' where
    call: "gxos_multibyte_to_wide_char_checked sample_text 65001 8 0x1000 6 0x2000 4 sample_context 5 = (ret, err, report, m')"
    by (rule prod_cases4)
  have u: "utf16_text [0xE9, 0x1F600] = [0xE9, 0xD83D, 0xDE00]" by (simp add: utf16_units_def)
  have r: "unat ret = 3 \<and> err = 5 \<and> (\<forall>i < 3. load_u16 m' (0x2000 + 2 * of_nat i) = [0xE9, 0xD83D, 0xDE00] ! i)"
    using multibyte_exact [OF sample_admitted call]
  proof (elim disjE exE)
    fix cps assume a: "is_text (rest sample_text 0x1000 6 0) cps \<and> 0x2000 \<noteq> (0 :: u64) \<and> unat (4 :: u32) < length (utf16_text cps)
      \<and> ret = 0 \<and> m' = sample_text \<and> err = GXOS_MULTIBYTE_ERROR_INSUFFICIENT_BUFFER"
    then have "utf16_text cps = [0xE9, 0xD83D, 0xDE00]" using text_unique [OF _ sample_is_text] u by blast
    with a show ?thesis by simp
  next
    fix cps assume a: "is_text (rest sample_text 0x1000 6 0) cps \<and> (0x2000 \<noteq> (0 :: u64) \<longrightarrow> length (utf16_text cps) \<le> unat (4 :: u32))
      \<and> mp_status report = GXOS_MULTIBYTE_STATUS_OK \<and> unat ret = length (utf16_text cps) \<and> err = 5
      \<and> (0x2000 = (0 :: u64) \<longrightarrow> m' = sample_text)
      \<and> (0x2000 \<noteq> (0 :: u64) \<longrightarrow> frame sample_text m' (unat (0x2000 :: u64)) (2 * length (utf16_text cps))
           \<and> (\<forall>i < length (utf16_text cps). load_u16 m' (0x2000 + 2 * of_nat i) = utf16_text cps ! i))"
    then have "utf16_text cps = [0xE9, 0xD83D, 0xDE00]" using text_unique [OF _ sample_is_text] u by blast
    with a show ?thesis by simp
  qed (use sample_is_text in blast)
  then have l: "load_u16 m' (0x2000 + 2 * of_nat i) = [0xE9, 0xD83D, 0xDE00] ! i" if "i < 3" for i using that by blast
  show ?thesis using r l [of 0] l [of 1] l [of 2] unfolding call by (simp add: bytes_upto)
qed

text \<open>
  C35. Whatever its arguments, a call writes only inside the destination and only to bytes that a region of its context declares
  writable; a call that does not succeed returns zero, changes no memory and sets one of the three documented
  error codes.
\<close>

theorem multibyte_confined:
  assumes "gxos_multibyte_to_wide_char_checked m code_page flags source cb d cch mem prev = (ret, err, report, m')"
  shows "(mp_status report \<noteq> GXOS_MULTIBYTE_STATUS_OK \<longrightarrow> ret = 0 \<and> m' = m
        \<and> err \<in> {GXOS_MULTIBYTE_ERROR_INVALID_PARAMETER, GXOS_MULTIBYTE_ERROR_INSUFFICIENT_BUFFER,
                 GXOS_MULTIBYTE_ERROR_NO_UNICODE_TRANSLATION})
    \<and> (\<forall>a. m' a \<noteq> m a \<longrightarrow> (\<exists>c. mem = Some c \<and> mb_accessible c True (unat a)
        \<and> unat d \<le> unat a \<and> unat a < unat d + 2 * unat ret))"
proof (cases "\<exists>len. admitted m code_page flags source cb d cch mem len")
  case False
  with refused [OF _ assms] show ?thesis by blast
next
  case True
  then obtain len where adm: "admitted m code_page flags source cb d cch mem len" by blast
  show ?thesis
  proof (cases "\<exists>cps. is_text (rest m source len 0) cps")
    case False
    with admitted_call(1) [OF adm assms] show ?thesis by blast
  next
    case True
    then obtain cps where t: "is_text (rest m source len 0) cps" by blast
    obtain r report0 where r: "unat r = length (utf16_text cps)" and conv: "convert m source len d cch prev r report0 = (ret, err, report, m')"
      using admitted_call(2) [OF adm assms t] by blast
    note a = admitted_ranges [OF adm]
    note c = convert_text [OF t r a(1,2) a(4) a(3) conv]
    show ?thesis
    proof (cases "d \<noteq> 0 \<and> unat cch < length (utf16_text cps)")
      case True
      with c(1) show ?thesis by blast
    next
      case False
      note ok = c(2) [OF False]
      have "\<exists>c. mem = Some c \<and> mb_accessible c True (unat x) \<and> unat d \<le> unat x \<and> unat x < unat d + 2 * unat ret"
        if "m' x \<noteq> m x" for x
      proof -
        have nz: "d \<noteq> 0" using ok that by auto
        then have range: "unat d \<le> unat x" "unat x < unat d + 2 * length (utf16_text cps)"
          using ok that by (auto simp: frame_def not_less) (meson not_less)+
        from adm obtain c where c: "mem = Some c" "check_arguments code_page flags cb d cch (Some c) = GXOS_MULTIBYTE_STATUS_OK"
          by (auto simp: admitted_def)
        have "length (utf16_text cps) \<le> unat cch" using False nz by simp
        with check_arguments_destination [OF c(2) nz] range have "mb_accessible c True (unat x)" by auto
        with c(1) range ok show ?thesis by simp
      qed
      with ok show ?thesis by blast
    qed
  qed
qed

theorem multibyte_confined_witness:
  "fst (gxos_multibyte_to_wide_char_checked (sample_text(0x1001 := 0x41)) 65001 8 0x1000 6 0x2000 4 sample_context 5) = 0"
proof -
  obtain ret err report m' where
    call: "gxos_multibyte_to_wide_char_checked (sample_text(0x1001 := 0x41)) 65001 8 0x1000 6 0x2000 4 sample_context 5 = (ret, err, report, m')"
    by (rule prod_cases4)
  have "mp_status (fst (snd (snd (gxos_multibyte_to_wide_char_checked (sample_text(0x1001 := 0x41)) 65001 8 0x1000 6 0x2000 4
      sample_context 5)))) \<noteq> GXOS_MULTIBYTE_STATUS_OK"
    by code_simp
  then show ?thesis using multibyte_confined [OF call] by (simp add: call)
qed

end
