(* ===== verification/PE_Image.thy ===== *)
theory PE_Image
  imports Crt_Initterm
begin

text \<open>
  Loading the NativeAOT image: \<open>rva_to_file\<close>, \<open>apply_relocations\<close> and \<open>load_pe_image\<close> of
  \<open>src/src/Gate4Harness/gate4_loader.c\<close>, and the search for an export and the callback bridge of
  \<open>nativeaot_callback_bridge.c\<close>.

  The file, the loaded image and everything else lie in one byte memory, and a pointer is an address with 0 for the null
  pointer, so that what the code reads through a pointer it has not tested is a value of the model. \<open>fail\<close> never
  returns: it is \<open>Inl\<close> with the reason. The loop over the relocation blocks, which need not end on a malformed
  directory, is a partial function; \<open>None\<close> means that it does not return. The service that allocates pages is
  a parameter. The image is the one of a build with the managed callback and without the collector's probe; the
  text of a name ends where its list does.
\<close>

subsection \<open>Data\<close>

abbreviation (input) EFI_PAGE_SIZE :: u64 where "EFI_PAGE_SIZE \<equiv> 4096"

record PE_IMAGE =
  pe_file :: u64
  pe_file_size :: u64
  pe_loaded :: u64
  pe_loaded_size :: u64
  pe_preferred_base :: u64
  pe_actual_base :: u64
  pe_size_of_headers :: u32
  pe_entry_rva :: u32
  pe_import_rva :: u32
  pe_import_size :: u32
  pe_reloc_rva :: u32
  pe_reloc_size :: u32
  pe_export_rva :: u32
  pe_export_size :: u32
  pe_managed_main_rva :: u32
  pe_managed_callback_rva :: u32
  pe_tls_template_rva :: u32
  pe_tls_template_size :: u32
  pe_tls_index_rva :: u32
  pe_tls_callbacks_rva :: u32
  pe_security_cookie_rva :: u32
  pe_relocations_applied :: bool
  pe_memory_region_count :: nat
  pe_memory_regions :: "GXOS_CRT_INITTERM_MEMORY_REGION list"
  pe_executable_region_count :: nat
  pe_executable_regions :: "GXOS_CRT_INITTERM_E_EXECUTABLE_REGION list"

datatype GXOS_NATIVEAOT_EXPORT_STATUS =
    GXOS_NATIVEAOT_EXPORT_OK
  | GXOS_NATIVEAOT_EXPORT_NULL_IMAGE
  | GXOS_NATIVEAOT_EXPORT_NULL_NAME
  | GXOS_NATIVEAOT_EXPORT_INVALID_DIRECTORY
  | GXOS_NATIVEAOT_EXPORT_INVALID_TABLE
  | GXOS_NATIVEAOT_EXPORT_NOT_FOUND
  | GXOS_NATIVEAOT_EXPORT_FORWARDER

record GXOS_NATIVEAOT_EXPORT_IMAGE =
  xi_loaded_image :: u64
  xi_loaded_size :: u64
  xi_export_rva :: u32
  xi_export_size :: u32

record GXOS_NATIVEAOT_EXPORT_RESOLUTION =
  xs_rva :: u32
  xs_ordinal :: u32
  xs_address :: u64

datatype GXOS_NATIVEAOT_CALLBACK_STATUS =
    GXOS_NATIVEAOT_CALLBACK_OK
  | GXOS_NATIVEAOT_CALLBACK_NULL_BRIDGE
  | GXOS_NATIVEAOT_CALLBACK_NULL_RESULT
  | GXOS_NATIVEAOT_CALLBACK_NOT_REGISTERED
  | GXOS_NATIVEAOT_CALLBACK_NOT_READY

record GXOS_NATIVEAOT_CALLBACK_BRIDGE =
  cbr_callback :: u64
  cbr_rva :: u32
  cbr_ready :: bool
  cbr_invocation_count :: u32

subsection \<open>Bytes\<close>

definition pe_read_u16 :: "memory \<Rightarrow> u64 \<Rightarrow> u16" where
  "pe_read_u16 m p = ucast (m p) OR push_bit 8 (ucast (m (p + 1)))"

definition pe_read_u32 :: "memory \<Rightarrow> u64 \<Rightarrow> u32" where
  "pe_read_u32 m p = ucast (pe_read_u16 m p) OR push_bit 16 (ucast (pe_read_u16 m (p + 2)))"

definition pe_read_u64 :: "memory \<Rightarrow> u64 \<Rightarrow> u64" where
  "pe_read_u64 m p = ucast (pe_read_u32 m p) OR push_bit 32 (ucast (pe_read_u32 m (p + 4)))"

fun pe_zero_bytes :: "memory \<Rightarrow> u64 \<Rightarrow> nat \<Rightarrow> memory" where
  "pe_zero_bytes m destination 0 = m"
| "pe_zero_bytes m destination (Suc n) = pe_zero_bytes (m(destination := 0)) (destination + 1) n"

fun pe_copy_bytes :: "memory \<Rightarrow> u64 \<Rightarrow> u64 \<Rightarrow> nat \<Rightarrow> memory" where
  "pe_copy_bytes m destination source 0 = m"
| "pe_copy_bytes m destination source (Suc n) =
     pe_copy_bytes (m(destination := m source)) (destination + 1) (source + 1) n"

text \<open>The store of a 64-bit number, lowest byte first.\<close>

definition pe_store_u64 :: "memory \<Rightarrow> u64 \<Rightarrow> u64 \<Rightarrow> memory" where
  "pe_store_u64 m p v = fold (\<lambda>i m. m(p + of_nat i := ucast (drop_bit (8 * i) v))) [0..<8] m"

definition has_magic :: "memory \<Rightarrow> u64 \<Rightarrow> u8 \<Rightarrow> u8 \<Rightarrow> u8 \<Rightarrow> u8 \<Rightarrow> bool" where
  "has_magic m p a b c d \<longleftrightarrow> m p = a \<and> m (p + 1) = b \<and> m (p + 2) = c \<and> m (p + 3) = d"

subsection \<open>Addresses in the image\<close>

fun rva_section_loop :: "memory \<Rightarrow> PE_IMAGE \<Rightarrow> u32 \<Rightarrow> u32 \<Rightarrow> u64 \<Rightarrow> nat \<Rightarrow> u64" where
  "rva_section_loop m img rva sz sec 0 = 0"
| "rva_section_loop m img rva sz sec (Suc n) =
    (let virtual_address = pe_read_u32 m (sec + 12);
         raw_size = pe_read_u32 m (sec + 16);
         raw_offset = pe_read_u32 m (sec + 20);
         offset = ucast raw_offset + ucast (rva - virtual_address) :: u64
     in if rva \<ge> virtual_address \<and> (ucast rva :: u64) + ucast sz \<le> ucast virtual_address + ucast raw_size
           \<and> offset + ucast sz \<le> pe_file_size img
        then pe_file img + offset
        else rva_section_loop m img rva sz (sec + 40) n)"

definition rva_to_file :: "memory \<Rightarrow> PE_IMAGE \<Rightarrow> u32 \<Rightarrow> u32 \<Rightarrow> u64" where
  "rva_to_file m img rva sz =
    (if (ucast rva :: u64) + ucast sz \<le> ucast (pe_size_of_headers img)
     then if (ucast rva :: u64) + ucast sz \<le> pe_file_size img then pe_file img + ucast rva else 0
     else let nt = pe_file img + ucast (pe_read_u32 m (pe_file img + 0x3C));
              section_count = pe_read_u16 m (nt + 6);
              optional_size = pe_read_u16 m (nt + 20)
       in rva_section_loop m img rva sz (nt + 24 + ucast optional_size) (unat section_count))"

definition rva_to_loaded :: "PE_IMAGE \<Rightarrow> u32 \<Rightarrow> u32 \<Rightarrow> u64" where
  "rva_to_loaded img rva sz =
    (if (ucast rva :: u64) + ucast sz > pe_loaded_size img then 0 else pe_loaded img + ucast rva)"

subsection \<open>Relocations\<close>

text \<open>One entry of a block, and the loop over the entries from number \<open>i\<close> on, with the number of those that are left.\<close>

definition relocate_entry :: "memory \<Rightarrow> PE_IMAGE \<Rightarrow> u64 \<Rightarrow> u32 \<Rightarrow> u16 \<Rightarrow> string + memory" where
  "relocate_entry m img delta page_rva entry =
    (let kind = drop_bit 12 entry; offset = entry AND 0x0FFF in
     if kind = 10 then
       let target = rva_to_loaded img (page_rva + ucast offset) 8 in
       if target = 0 then Inl ''relocation-target''
       else Inr (pe_store_u64 m target (pe_read_u64 m target + delta))
     else if kind \<noteq> 0 then Inl ''relocation-type''
     else Inr m)"

fun relocate_entries :: "memory \<Rightarrow> PE_IMAGE \<Rightarrow> u64 \<Rightarrow> u32 \<Rightarrow> u32 \<Rightarrow> nat \<Rightarrow> nat \<Rightarrow> string + memory" where
  "relocate_entries m img delta cursor page_rva i 0 = Inr m"
| "relocate_entries m img delta cursor page_rva i (Suc n) =
    (let entry = pe_read_u16 m (rva_to_file m img (pe_reloc_rva img + cursor + 8 + of_nat i * 2) 2) in
     case relocate_entry m img delta page_rva entry of
       Inl reason \<Rightarrow> Inl reason
     | Inr m \<Rightarrow> relocate_entries m img delta cursor page_rva (Suc i) n)"

partial_function (option) relocate_blocks :: "memory \<Rightarrow> PE_IMAGE \<Rightarrow> u64 \<Rightarrow> u32 \<Rightarrow> (string + memory) option" where
  "relocate_blocks m img delta cursor =
    (if \<not> cursor + 8 \<le> pe_reloc_size img then Some (Inr m)
     else
       let block = rva_to_file m img (pe_reloc_rva img + cursor) 8 in
       if block = 0 then Some (Inl ''relocation-bounds'')
       else
         let page_rva = pe_read_u32 m block;
             block_size = pe_read_u32 m (block + 4) in
         if block_size < 8 \<or> cursor + block_size > pe_reloc_size img then Some (Inl ''relocation-block'')
         else case relocate_entries m img delta cursor page_rva 0 (unat ((block_size - 8) div 2)) of
             Inl reason \<Rightarrow> Some (Inl reason)
           | Inr m \<Rightarrow> relocate_blocks m img delta (cursor + block_size))"

definition apply_relocations :: "memory \<Rightarrow> PE_IMAGE \<Rightarrow> (string + memory \<times> PE_IMAGE) option" where
  "apply_relocations m img =
    (let delta = pe_actual_base img - pe_preferred_base img in
     if delta = 0 then Some (Inr (m, img\<lparr>pe_relocations_applied := True\<rparr>))
     else if pe_reloc_rva img = 0 \<or> pe_reloc_size img < 8 then Some (Inl ''relocations-required'')
     else case relocate_blocks m img delta 0 of
         None \<Rightarrow> None
       | Some (Inl reason) \<Rightarrow> Some (Inl reason)
       | Some (Inr m) \<Rightarrow> Some (Inr (m, img\<lparr>pe_relocations_applied := True\<rparr>)))"

subsection \<open>Exports\<close>

definition range_valid :: "u64 \<Rightarrow> u32 \<Rightarrow> u64 \<Rightarrow> bool" where
  "range_valid image_size rva sz \<longleftrightarrow> ucast rva \<le> image_size \<and> sz \<le> image_size - ucast rva"

text \<open>The comparison from index \<open>i\<close> on, with \<open>n\<close> iterations left before the limit.\<close>

fun text_equals_loop :: "memory \<Rightarrow> u64 \<Rightarrow> u64 \<Rightarrow> u32 \<Rightarrow> u8 list \<Rightarrow> nat \<Rightarrow> nat \<Rightarrow> bool" where
  "text_equals_loop m img image_size rva name i 0 = False"
| "text_equals_loop m img image_size rva name i (Suc n) =
    (if \<not> (ucast rva :: u64) + of_nat i < image_size then False
     else let actual = m (img + (ucast rva + of_nat i));
              expected = (if i < length name then name ! i else 0)
       in if actual \<noteq> expected then False
          else if actual = 0 then True
          else text_equals_loop m img image_size rva name (Suc i) n)"

definition text_equals_bounded :: "memory \<Rightarrow> u64 \<Rightarrow> u64 \<Rightarrow> u32 \<Rightarrow> u8 list \<Rightarrow> bool" where
  "text_equals_bounded m img image_size rva name = text_equals_loop m img image_size rva name 0 4096"

record export_directory =
  xd_ordinal_base :: u32
  xd_function_count :: u32
  xd_name_count :: u32
  xd_functions_rva :: u32
  xd_names_rva :: u32
  xd_ordinals_rva :: u32

definition read_directory :: "memory \<Rightarrow> GXOS_NATIVEAOT_EXPORT_IMAGE \<Rightarrow> export_directory" where
  "read_directory m x =
    (let base = xi_loaded_image x + ucast (xi_export_rva x) in
     \<lparr>xd_ordinal_base = pe_read_u32 m (base + 16), xd_function_count = pe_read_u32 m (base + 20),
      xd_name_count = pe_read_u32 m (base + 24), xd_functions_rva = pe_read_u32 m (base + 28),
      xd_names_rva = pe_read_u32 m (base + 32), xd_ordinals_rva = pe_read_u32 m (base + 36)\<rparr>)"

definition export_matches :: "memory \<Rightarrow> GXOS_NATIVEAOT_EXPORT_IMAGE \<Rightarrow> export_directory \<Rightarrow> u8 list \<Rightarrow> nat \<Rightarrow> bool" where
  "export_matches m x d name index =
    (let name_rva = pe_read_u32 m (xi_loaded_image x + ucast (xd_names_rva d) + of_nat index * 4);
         ordinal_index = pe_read_u16 m (xi_loaded_image x + ucast (xd_ordinals_rva d) + of_nat index * 2)
     in \<not> (ucast ordinal_index \<ge> xd_function_count d \<or> \<not> range_valid (xi_loaded_size x) name_rva 1
           \<or> \<not> text_equals_bounded m (xi_loaded_image x) (xi_loaded_size x) name_rva name))"

definition resolve_export ::
  "memory \<Rightarrow> GXOS_NATIVEAOT_EXPORT_IMAGE \<Rightarrow> export_directory \<Rightarrow> nat \<Rightarrow>
     GXOS_NATIVEAOT_EXPORT_STATUS \<times> GXOS_NATIVEAOT_EXPORT_RESOLUTION option" where
  "resolve_export m x d index =
    (let ordinal_index = pe_read_u16 m (xi_loaded_image x + ucast (xd_ordinals_rva d) + of_nat index * 2);
         function_rva = pe_read_u32 m (xi_loaded_image x + ucast (xd_functions_rva d) + ucast ordinal_index * 4)
     in if function_rva = 0 \<or> \<not> range_valid (xi_loaded_size x) function_rva 1
        then (GXOS_NATIVEAOT_EXPORT_INVALID_TABLE, None)
        else if range_valid (xi_loaded_size x) function_rva (ucast (xi_export_size x))
           \<and> function_rva \<ge> xi_export_rva x \<and> function_rva - xi_export_rva x < xi_export_size x
        then (GXOS_NATIVEAOT_EXPORT_FORWARDER, None)
        else (GXOS_NATIVEAOT_EXPORT_OK,
              Some \<lparr>xs_rva = function_rva, xs_ordinal = xd_ordinal_base d + ucast ordinal_index,
                    xs_address = xi_loaded_image x + ucast function_rva\<rparr>))"

text \<open>The result is the status and, where it is \<open>OK\<close>, the resolution the code fills in.\<close>

definition gxos_nativeaot_find_export ::
  "memory \<Rightarrow> GXOS_NATIVEAOT_EXPORT_IMAGE \<Rightarrow> u8 list option \<Rightarrow>
     GXOS_NATIVEAOT_EXPORT_STATUS \<times> GXOS_NATIVEAOT_EXPORT_RESOLUTION option" where
  "gxos_nativeaot_find_export m x name =
    (if xi_loaded_image x = 0 then (GXOS_NATIVEAOT_EXPORT_NULL_IMAGE, None)
     else case name of None \<Rightarrow> (GXOS_NATIVEAOT_EXPORT_NULL_NAME, None) | Some name \<Rightarrow>
     if name = [] \<or> name ! 0 = 0 then (GXOS_NATIVEAOT_EXPORT_NULL_NAME, None)
     else if xi_loaded_size x > ucast UINT32_MAX
         \<or> \<not> range_valid (xi_loaded_size x) (xi_export_rva x) (ucast (xi_export_size x))
         \<or> xi_export_size x < 40
     then (GXOS_NATIVEAOT_EXPORT_INVALID_DIRECTORY, None)
     else let d = read_directory m x in
       if xd_function_count d = 0 \<or> xd_name_count d > xd_function_count d
          \<or> \<not> range_valid (xi_loaded_size x) (xd_functions_rva d) (ucast (xd_function_count d) * 4)
          \<or> \<not> range_valid (xi_loaded_size x) (xd_names_rva d) (ucast (xd_name_count d) * 4)
          \<or> \<not> range_valid (xi_loaded_size x) (xd_ordinals_rva d) (ucast (xd_name_count d) * 2)
       then (GXOS_NATIVEAOT_EXPORT_INVALID_TABLE, None)
       else case find (export_matches m x d name) [0..<unat (xd_name_count d)] of
           None \<Rightarrow> (GXOS_NATIVEAOT_EXPORT_NOT_FOUND, None)
         | Some index \<Rightarrow> resolve_export m x d index)"

definition gxos_nativeaot_callback_register ::
  "GXOS_NATIVEAOT_CALLBACK_BRIDGE \<Rightarrow> GXOS_NATIVEAOT_EXPORT_RESOLUTION \<Rightarrow> bool \<times> GXOS_NATIVEAOT_CALLBACK_BRIDGE" where
  "gxos_nativeaot_callback_register bridge resolution =
    (if xs_address resolution = 0 \<or> xs_rva resolution = 0 then (False, bridge)
     else (True, bridge\<lparr>cbr_callback := xs_address resolution, cbr_rva := xs_rva resolution, cbr_ready := False,
                        cbr_invocation_count := 0\<rparr>))"

definition gxos_nativeaot_callback_mark_ready :: "GXOS_NATIVEAOT_CALLBACK_BRIDGE \<Rightarrow> bool \<times> GXOS_NATIVEAOT_CALLBACK_BRIDGE" where
  "gxos_nativeaot_callback_mark_ready bridge =
    (if cbr_callback bridge = 0 \<or> cbr_rva bridge = 0 then (False, bridge) else (True, bridge\<lparr>cbr_ready := True\<rparr>))"

text \<open>The callback itself is managed code, a parameter on its world.\<close>

definition gxos_nativeaot_callback_invoke ::
  "(u64 \<Rightarrow> u32 \<Rightarrow> 'w \<Rightarrow> u32 \<times> 'w) \<Rightarrow> GXOS_NATIVEAOT_CALLBACK_BRIDGE \<Rightarrow> u32 \<Rightarrow> 'w \<Rightarrow>
     GXOS_NATIVEAOT_CALLBACK_STATUS \<times> u32 option \<times> GXOS_NATIVEAOT_CALLBACK_BRIDGE \<times> 'w" where
  "gxos_nativeaot_callback_invoke call bridge inp w =
    (if cbr_callback bridge = 0 \<or> cbr_rva bridge = 0 then (GXOS_NATIVEAOT_CALLBACK_NOT_REGISTERED, None, bridge, w)
     else if \<not> cbr_ready bridge then (GXOS_NATIVEAOT_CALLBACK_NOT_READY, None, bridge, w)
     else case call (cbr_callback bridge) inp w of (result, w) \<Rightarrow>
       (GXOS_NATIVEAOT_CALLBACK_OK, Some result,
        bridge\<lparr>cbr_invocation_count := cbr_invocation_count bridge + 1\<rparr>, w))"

end
