(* ===== verification/PE_Loader.thy ===== *)
theory PE_Loader
  imports PE_Image
begin

text \<open>
  \<open>load_pe_image\<close> of \<open>src/src/Gate4Harness/gate4_loader.c\<close>: the checks of the headers, the load configuration, the
  allocation, the copy of headers and sections with the table of memory regions, the relocation, the search for the managed
  entry points and the directory of thread-local storage, in the code's order. The conventions are those of \<open>PE_Image\<close>.
\<close>

subsection \<open>Headers\<close>

definition nt_headers :: "memory \<Rightarrow> PE_IMAGE \<Rightarrow> u64" where
  "nt_headers m img = pe_file img + ucast (pe_read_u32 m (pe_file img + 0x3C))"

definition check_headers :: "memory \<Rightarrow> PE_IMAGE \<Rightarrow> string option" where
  "check_headers m img =
    (let nt = nt_headers m img in
     if pe_file_size img < 0x40 \<or> pe_read_u16 m (pe_file img) \<noteq> 0x5A4D then Some ''dos-header''
     else if (ucast (pe_read_u32 m (pe_file img + 0x3C)) :: u64) + 24 > pe_file_size img then Some ''nt-header-bounds''
     else if \<not> has_magic m nt 0x50 0x45 0 0 then Some ''pe-signature''
     else if pe_read_u16 m (nt + 24) \<noteq> 0x20B \<or> pe_read_u16 m (nt + 20) < 0xF0 then Some ''pe32-plus''
     else None)"

definition read_optional_header :: "memory \<Rightarrow> PE_IMAGE \<Rightarrow> PE_IMAGE" where
  "read_optional_header m img =
    (let optional = nt_headers m img + 24 in
     img\<lparr>pe_size_of_headers := pe_read_u32 m (optional + 0x3C),
       pe_entry_rva := pe_read_u32 m (optional + 0x10),
       pe_preferred_base := pe_read_u64 m (optional + 0x18),
       pe_loaded_size := ucast (pe_read_u32 m (optional + 0x38)),
       pe_import_rva := pe_read_u32 m (optional + 0x70 + 8),
       pe_import_size := pe_read_u32 m (optional + 0x70 + 12),
       pe_export_rva := pe_read_u32 m (optional + 0x70),
       pe_export_size := pe_read_u32 m (optional + 0x74),
       pe_reloc_rva := pe_read_u32 m (optional + 0x70 + 40),
       pe_reloc_size := pe_read_u32 m (optional + 0x70 + 44)\<rparr>)"

definition read_load_config :: "memory \<Rightarrow> PE_IMAGE \<Rightarrow> string + PE_IMAGE" where
  "read_load_config m img =
    (let optional = nt_headers m img + 24;
         load_config_rva = pe_read_u32 m (optional + 0x70 + 80);
         load_config_size = pe_read_u32 m (optional + 0x70 + 84) in
     if load_config_rva \<noteq> 0 \<and> load_config_size \<ge> 0x60 then
       let load_config = rva_to_file m img load_config_rva 0x60 in
       if load_config = 0 then Inl ''load-config-bounds''
       else let security_cookie = pe_read_u64 m (load_config + 0x58) in
         if security_cookie \<noteq> 0 then
           if security_cookie < pe_preferred_base img \<or> security_cookie - pe_preferred_base img > 0xFFFFFFFF
           then Inl ''security-cookie-address''
           else Inr (img\<lparr>pe_security_cookie_rva := ucast (security_cookie - pe_preferred_base img)\<rparr>)
         else Inr img
     else Inr img)"

subsection \<open>Sections\<close>

text \<open>The region that a section describes, entered in the table of memory regions.\<close>

definition add_memory_region :: "PE_IMAGE \<Rightarrow> u32 \<Rightarrow> u32 \<Rightarrow> u32 \<Rightarrow> u32 \<Rightarrow> string + PE_IMAGE" where
  "add_memory_region img size_of_image virtual_address extent characteristics =
    (if extent = 0 then Inr img
     else if pe_memory_region_count img \<ge> 32
         \<or> (ucast virtual_address :: u64) + ucast extent > ucast size_of_image
         \<or> pe_actual_base img > UINT64_MAX - ucast virtual_address then Inl ''memory-section-bounds''
     else let base = pe_actual_base img + ucast virtual_address in
       if ucast extent > UINT64_MAX - base then Inl ''memory-section-overflow''
       else Inr (img\<lparr>pe_memory_regions := (pe_memory_regions img)[pe_memory_region_count img :=
                  \<lparr>rg_base = base, rg_end = base + ucast extent,
                   rg_readable = (characteristics AND 0x40000000 \<noteq> 0),
                   rg_executable = (characteristics AND 0x20000000 \<noteq> 0),
                   rg_writable = (characteristics AND 0x80000000 \<noteq> 0)\<rparr>],
                 pe_memory_region_count := pe_memory_region_count img + 1\<rparr>))"

definition add_executable_region :: "PE_IMAGE \<Rightarrow> u32 \<Rightarrow> u32 \<Rightarrow> u32 \<Rightarrow> u32 \<Rightarrow> u32 \<Rightarrow> string + PE_IMAGE" where
  "add_executable_region img size_of_image virtual_address virtual_size raw_size characteristics =
    (if characteristics AND 0x20000000 = 0 then Inr img
     else let extent = (if virtual_size = 0 then raw_size else virtual_size) in
       if pe_executable_region_count img \<ge> 8 \<or> extent = 0
          \<or> (ucast virtual_address :: u64) + ucast extent > ucast size_of_image
          \<or> pe_actual_base img > UINT64_MAX - ucast virtual_address then Inl ''executable-section-bounds''
       else let region_base = pe_actual_base img + ucast virtual_address in
         if ucast extent > UINT64_MAX - region_base then Inl ''executable-section-overflow''
         else Inr (img\<lparr>pe_executable_regions := (pe_executable_regions img)[pe_executable_region_count img :=
                    \<lparr>xr_base = region_base, xr_end = region_base + ucast extent\<rparr>],
                   pe_executable_region_count := pe_executable_region_count img + 1\<rparr>))"

fun load_sections :: "memory \<Rightarrow> PE_IMAGE \<Rightarrow> u32 \<Rightarrow> u64 \<Rightarrow> nat \<Rightarrow> string + memory \<times> PE_IMAGE" where
  "load_sections m img size_of_image sec 0 = Inr (m, img)"
| "load_sections m img size_of_image sec (Suc n) =
    (let raw_size = pe_read_u32 m (sec + 16);
         raw_offset = pe_read_u32 m (sec + 20);
         virtual_address = pe_read_u32 m (sec + 12);
         virtual_size = pe_read_u32 m (sec + 8);
         characteristics = pe_read_u32 m (sec + 36);
         extent = (if virtual_size > raw_size then virtual_size else raw_size) in
     case add_memory_region img size_of_image virtual_address extent characteristics of
       Inl reason \<Rightarrow> Inl reason
     | Inr img \<Rightarrow>
         if raw_size = 0 then load_sections m img size_of_image (sec + 40) n
         else if (ucast raw_offset :: u64) + ucast raw_size > pe_file_size img
            \<or> (ucast virtual_address :: u64) + ucast raw_size > ucast size_of_image then Inl ''section-bounds''
         else case add_executable_region img size_of_image virtual_address virtual_size raw_size characteristics of
             Inl reason \<Rightarrow> Inl reason
           | Inr img \<Rightarrow>
               load_sections (pe_copy_bytes m (pe_loaded img + ucast virtual_address) (pe_file img + ucast raw_offset) (unat raw_size))
                 img size_of_image (sec + 40) n)"

subsection \<open>Entry points and thread-local storage\<close>

definition ascii :: "string \<Rightarrow> u8 list" where
  "ascii s = map of_char s"

definition export_image :: "PE_IMAGE \<Rightarrow> GXOS_NATIVEAOT_EXPORT_IMAGE" where
  "export_image img = \<lparr>xi_loaded_image = pe_loaded img, xi_loaded_size = pe_loaded_size img,
     xi_export_rva = pe_export_rva img, xi_export_size = pe_export_size img\<rparr>"

definition find_managed_main :: "memory \<Rightarrow> PE_IMAGE \<Rightarrow> string + PE_IMAGE" where
  "find_managed_main m img =
    (case gxos_nativeaot_find_export m (export_image img) (Some (ascii ''ManagedMain'')) of
       (GXOS_NATIVEAOT_EXPORT_OK, Some resolution) \<Rightarrow> Inr (img\<lparr>pe_managed_main_rva := xs_rva resolution\<rparr>)
     | _ \<Rightarrow> Inl ''ManagedMain-export-missing'')"

definition find_managed_callback :: "memory \<Rightarrow> PE_IMAGE \<Rightarrow> string + PE_IMAGE" where
  "find_managed_callback m img =
    (case gxos_nativeaot_find_export m (export_image img) (Some (ascii ''ManagedCallback'')) of
       (GXOS_NATIVEAOT_EXPORT_OK, Some resolution) \<Rightarrow> Inr (img\<lparr>pe_managed_callback_rva := xs_rva resolution\<rparr>)
     | _ \<Rightarrow> Inl ''ManagedCallback-export-missing'')"

definition read_tls_directory :: "memory \<Rightarrow> PE_IMAGE \<Rightarrow> u32 \<Rightarrow> string + PE_IMAGE" where
  "read_tls_directory m img tls_rva =
    (if tls_rva = 0 then Inr img
     else let tls = rva_to_file m img tls_rva 40 in
       if tls = 0 then Inl ''tls-directory-bounds''
       else
         let tls_start = pe_read_u64 m tls;
             tls_end = pe_read_u64 m (tls + 8);
             tls_index = pe_read_u64 m (tls + 16);
             tls_callbacks = pe_read_u64 m (tls + 24);
             base = pe_preferred_base img in
         if tls_start < base \<or> tls_end < tls_start \<or> tls_end - tls_start > 0x100000 \<or> tls_index < base
            \<or> tls_index - base > 0xFFFFFFFF \<or> tls_start - base > 0xFFFFFFFF
         then Inl ''tls-directory-values''
         else
           let img = img\<lparr>pe_tls_template_rva := ucast (tls_start - base),
                         pe_tls_template_size := ucast (tls_end - tls_start),
                         pe_tls_index_rva := ucast (tls_index - base)\<rparr> in
           if tls_callbacks \<noteq> 0 then
             if tls_callbacks < base \<or> tls_callbacks - base > 0xFFFFFFFF then Inl ''tls-callbacks-address''
             else Inr (img\<lparr>pe_tls_callbacks_rva := ucast (tls_callbacks - base)\<rparr>)
           else Inr img)"

subsection \<open>The loader\<close>

text \<open>The image and the memory once headers and sections are in place, from the address the firmware gave.\<close>

definition place_image :: "memory \<Rightarrow> PE_IMAGE \<Rightarrow> u64 \<Rightarrow> u32 \<Rightarrow> string + memory \<times> PE_IMAGE" where
  "place_image m img physical_base size_of_image =
    (let img = img\<lparr>pe_loaded := physical_base, pe_actual_base := physical_base,
                   pe_memory_region_count := 0, pe_executable_region_count := 0\<rparr>;
         nt = nt_headers m img;
         section_count = pe_read_u16 m (nt + 6);
         optional_size = pe_read_u16 m (nt + 20);
         m = pe_zero_bytes m physical_base (unat size_of_image);
         m = pe_copy_bytes m physical_base (pe_file img) (unat (pe_size_of_headers img))
     in load_sections m img size_of_image (nt + 24 + ucast optional_size) (unat section_count))"

definition finish_image :: "memory \<Rightarrow> PE_IMAGE \<Rightarrow> u32 \<Rightarrow> (string + memory \<times> PE_IMAGE) option" where
  "finish_image m img tls_rva =
    (case apply_relocations m img of
       None \<Rightarrow> None
     | Some (Inl reason) \<Rightarrow> Some (Inl reason)
     | Some (Inr (m, img)) \<Rightarrow>
         Some (case find_managed_main m img of Inl reason \<Rightarrow> Inl reason | Inr img \<Rightarrow>
              (case find_managed_callback m img of Inl reason \<Rightarrow> Inl reason | Inr img \<Rightarrow>
               map_sum id (\<lambda>img. (m, img)) (read_tls_directory m img tls_rva))))"

definition load_pe_image :: "(u64 \<Rightarrow> u64 option) \<Rightarrow> memory \<Rightarrow> PE_IMAGE \<Rightarrow> (string + memory \<times> PE_IMAGE) option" where
  "load_pe_image allocate_pages m img =
    (case check_headers m img of Some reason \<Rightarrow> Some (Inl reason) | None \<Rightarrow>
     let optional = nt_headers m img + 24;
         size_of_image = pe_read_u32 m (optional + 0x38);
         tls_rva = pe_read_u32 m (optional + 0x70 + 72) in
     case read_load_config m (read_optional_header m img) of Inl reason \<Rightarrow> Some (Inl reason) | Inr img \<Rightarrow>
     if size_of_image = 0 \<or> ucast (pe_size_of_headers img) > pe_file_size img then Some (Inl ''image-size'')
     else case allocate_pages ((ucast size_of_image + EFI_PAGE_SIZE - 1) div EFI_PAGE_SIZE) of
         None \<Rightarrow> Some (Inl ''allocate-image'')
       | Some physical_base \<Rightarrow>
           (case place_image m img physical_base size_of_image of
              Inl reason \<Rightarrow> Some (Inl reason)
            | Inr (m, img) \<Rightarrow> finish_image m img tls_rva))"

end
