(* ===== verification/Spec2Isabelle.thy ===== *)
theory Spec2Isabelle
  imports VM_Arena_Correct Memory_Snapshot VM_Regions VM_Public VM_Paging_Correct VM_Paging_Audit Scheduler_Guarantees Crt_Malloc_Correct Crt_Onexit_Correct Scheduler_Api_Correct Write_File_Correct VM_Public_Correct Crt_Strings_Correct Crt_Initterm_Correct Vectored_Handler_Correct Vectored_Image_Correct Multibyte_Correct PE_Loader
begin

text \<open>
  A verification development for the freestanding C core of guideXOS, \<open>src/src/Gate4Harness\<close>: the harness that
  boots from UEFI, loads a NativeAOT image and stands in for the parts of Windows the image imports.

  \<^bold>\<open>The program.\<close> The loader \<open>gate4_loader.c\<close> keeps the firmware's memory map, a ledger of all physical allocations, an
  arena of virtual addresses and a page-table root of its own; it hands the payload a table of imports whose bodies live
  in small files, one for each Windows function, each of which validates its arguments and then acts on a shared state:
  the memory accounting, the cooperative scheduler with its typed handles, and the tables of the C run-time library.
  The imports call the scheduler, the scheduler and the C heap take memory from the loader's page and pool services, and
  \<open>VirtualAlloc\<close> drives the arena, the page tables and the region ledger together.

  \<^bold>\<open>Conventions.\<close> They are stated in \<open>Prelude\<close>: words of the C width, so that every wrap-around of the code is one of
  the model; pointers into tables as indices; null pointers as \<open>None\<close>; a table of a fixed number of slots as a
  list of that length, scanned in the code's order; firmware services, callbacks, the pool and the backend of a stream as
  functions on an abstract world \<open>'w\<close>, which are arguments or record fields of the model and never invented.
  No definition uses fuel. Every loop of the code is a recursion over a list of slots or has a measure, but for two that
  may run for ever on some memories and are partial functions with the value \<open>None\<close> for not returning: the unbounded \<open>strcmp\<close>,
  for which \<open>Crt_Strings_Correct\<close> shows when it returns, and the walk over the relocation blocks, whose 32-bit cursor can wrap.

  \<^bold>\<open>Memory accounting\<close> (\<open>memory_accounting.c\<close>). \<open>Checked_Arith\<close> has the overflow-checked helpers and shows that they return
  the exact result or nothing. \<open>Physical_Ledger\<close> has the 4096-entry ledger; \<open>Memory_Map\<close> the acquisition of the
  firmware's map with its retries, the checked access to descriptors and the classification; \<open>Memory_Snapshot\<close> the
  commit model, the snapshots and the load percentage, equal to the floor of the real quotient. \<open>VM_Arena\<close> has the arena of
  reservations and commitments, \<open>VM_Arena_Ops\<close> the contract of each operation, \<open>VM_Arena_Search\<close> the first-fit search
  and \<open>VM_Arena_Correct\<close> the invariant over all runs.

  \<^bold>\<open>Virtual memory\<close> (\<open>vm_substrate.c\<close>, \<open>virtual_memory.c\<close>). \<open>VM_Regions\<close> has the region ledger behind \<open>VirtualQuery\<close>;
  \<open>VM_Paging\<close> the four-level tables over an explicit memory; \<open>VM_Paging_Tree\<close> the tree of owned tables, \<open>VM_Paging_Map\<close>
  the interface \<open>page_provider\<close> of a page allocator and what mapping and unmapping do over it,
  \<open>VM_Paging_Range\<close> ranges, \<open>VM_Paging_Correct\<close> the statements for the loader's allocator of \<open>VM_Uefi_Pages\<close>
  (\<open>gate4_loader.c\<close>), which provides the interface, \<open>VM_Paging_Audit\<close> the audit of the firmware's tables. \<open>VM_Commit\<close> has the commit of a range of pages
  with its rollback and \<open>VM_Public\<close> \<open>VirtualAlloc\<close> and \<open>VirtualFree\<close>; \<open>VM_Public_Arena\<close> and \<open>VM_Public_Correct\<close> show
  that a failing call leaves the reservations and the mappings as they were and what a succeeding one changes.

  \<^bold>\<open>Scheduler\<close> (\<open>scheduler_foundation.c\<close>). \<open>Scheduler_Types\<close> has its data, \<open>Scheduler_Base\<close> its helpers,
  \<open>Scheduler_Ops\<close> and \<open>Scheduler_Waits\<close> its operations. \<open>Scheduler_Handles\<close>, \<open>Scheduler_Run\<close>, \<open>Scheduler_Wait_Lists\<close>
  and \<open>Scheduler_Object_Table\<close> have the parts of its invariant; \<open>Scheduler_Signals\<close>, \<open>Scheduler_Threads\<close>, \<open>Scheduler_Reclaim\<close>,
  \<open>Scheduler_Dispatch\<close>, \<open>Scheduler_Blocking\<close> and \<open>Scheduler_Lifecycle\<close> show that every operation keeps it.
  \<open>Scheduler_Correct\<close> is the step relation, \<open>Scheduler_Contracts\<close> and \<open>Scheduler_Guarantees\<close> what its clients
  may rely on. The step relation carries two obligations of the callers that the code does not test, \<open>terminate_allowed\<close> and
  \<open>discard_allowed\<close>: a thread has collected its last wait before it ends. A handle is followed through any number of reuses of
  its slot: its generation has 16 bits and comes round after 65535. The register switch is assembly: the model has the plan
  that the code computes for it.

  \<^bold>\<open>Imports over the scheduler.\<close> \<open>Scheduler_Api\<close> has \<open>event_api.c\<close>, \<open>create_thread.c\<close>, \<open>create_event_w.c\<close>,
  \<open>create_memory_resource_notification.c\<close>, \<open>standard_handle.c\<close>, \<open>set_thread_priority.c\<close> and \<open>com_api.c\<close>, \<open>Scheduler_Api_Correct\<close> that an
  event behaves as an automaton of two states and that COM initialisation nests. What other threads do while a
  wait blocks is an argument of the model. \<open>Write_File\<close> and \<open>Write_File_Correct\<close> treat \<open>write_file.c\<close>.

  \<^bold>\<open>C run-time library.\<close> \<open>Crt_Malloc\<close> to \<open>Crt_Malloc_Correct\<close> treat \<open>crt_malloc.c\<close>: the heap implements a finite map from
  pointers to sizes over any pool that keeps its documented contract. \<open>Crt_Onexit\<close> and \<open>Crt_Onexit_Correct\<close> treat \<open>crt_onexit.c\<close>.
  \<open>Crt_Regions\<close> has the memory regions that the checked functions share; \<open>Crt_Strings\<close> and \<open>Crt_Strings_Correct\<close> treat \<open>crt_strlen.c\<close>,
  \<open>crt_stricmp.c\<close> and \<open>crt_strcmp.c\<close> against the mathematical length and order of strings, \<open>Crt_Initterm\<close> and \<open>Crt_Initterm_Correct\<close> the tables of
  initializers of \<open>crt_initterm.c\<close> and \<open>crt_initterm_e.c\<close>, with the trace callback that the loader passes.

  \<^bold>\<open>Text conversion.\<close> \<open>Multibyte\<close> has \<open>platform_multibyte.c\<close>, \<open>Utf8\<close> encoders of UTF-8 and UTF-16 written from the
  standards, and \<open>Multibyte_Correct\<close> that the code inverts the one and produces the other.

  \<^bold>\<open>Exceptions.\<close> \<open>Exception_Context\<close> has the validation of the context that a handler returns (\<open>exception_context.c\<close>),
  \<open>Vectored_Handler\<close> and \<open>Vectored_Handler_Correct\<close> the registry of vectored handlers and its dispatcher as a list (\<open>vectored_handler.c\<close>),
  \<open>Vectored_Image_Correct\<close> its parser of the headers of a loaded image.

  \<^bold>\<open>Images.\<close> \<open>PE_Image\<close> and \<open>PE_Loader\<close> have \<open>load_pe_image\<close> of \<open>gate4_loader.c\<close> with sections, relocations,
  load configuration and thread-local storage, and the export lookup and callback bridge of \<open>nativeaot_callback_bridge.c\<close>. They are definitions
  without theorems so far.

  \<^bold>\<open>Not modelled.\<close> The boot sequence, serial output and import glue of \<open>gate4_loader.c\<close>; the register switch, trap entries and thunks in
  assembly; the queries of time, topology and modules, which return constants or values of the hardware; the self-test \<open>scheduler_proof.c\<close>;
  the tests. Where the model abstracts a pointer to a structure into the structure's value, as for the images of a handler registry, the
  code's documentation says that the structure is not changed while it is registered.
\<close>

end
